(* ===== verification/Py_Prelude.thy ===== *)
theory Py_Prelude
  imports Main "HOL-Library.Multiset" "HOL-Library.AList"
begin

section \<open>Shared vocabulary: Python results, slices, ranges and ceilings\<close>

text \<open>
  What the component theories share: exceptions as values of a sum type, the arithmetic of
  Python's \<open>//\<close> and \<open>math.ceil\<close> on unbounded integers, slices and stepped ranges, the
  block decomposition of a token sequence, and the lemma collections the component proofs use.
  A routine that mutates its receiver and may raise returns the pair of its outcome and the new
  state, so that the mutations made before an exception are kept.
\<close>

named_theorems py_simps \<open>unfolding rules for outcome plumbing\<close>
named_theorems inv_intros \<open>preservation lemmas of the component invariants\<close>

subsection \<open>Outcomes\<close>

datatype py_error =
    ValueError | KeyError | IndexError | AttributeError | TypeError | AssertionError
  | NotImplementedError | RuntimeError | ZeroDivisionError | UnboundLocalError
  | CacheAllocationFailure | OSError | FileNotFoundError | PyException | SystemExit
  | ArgumentTypeError | CalledProcessError

type_synonym 'a res = "py_error + 'a"

definition is_ok :: "'a res \<Rightarrow> bool" where
  "is_ok r = (case r of Inl _ \<Rightarrow> False | Inr _ \<Rightarrow> True)"

lemma is_ok_simps [simp, py_simps]: "is_ok (Inr x)" "\<not> is_ok (Inl e)"
  by (simp_all add: is_ok_def)

lemma is_ok_iff: "is_ok r \<longleftrightarrow> (\<exists>x. r = Inr x)"
  by (cases r) auto

definition res_bind :: "'a res \<Rightarrow> ('a \<Rightarrow> 'b res) \<Rightarrow> 'b res" where
  "res_bind r f = (case r of Inl e \<Rightarrow> Inl e | Inr x \<Rightarrow> f x)"

lemma res_bind_simps [simp, py_simps]:
  "res_bind (Inl e) f = Inl e" "res_bind (Inr x) f = f x"
  by (simp_all add: res_bind_def)

lemma res_bind_Inr: "res_bind r f = Inr y \<longleftrightarrow> (\<exists>x. r = Inr x \<and> f x = Inr y)"
  by (cases r) auto

text \<open>The comprehension \<open>[f(x) for x in xs]\<close> where \<open>f\<close> may raise.\<close>

fun res_map :: "('a \<Rightarrow> 'b res) \<Rightarrow> 'a list \<Rightarrow> 'b list res" where
  "res_map f [] = Inr []"
| "res_map f (x # xs) = res_bind (f x) (\<lambda>y. res_bind (res_map f xs) (\<lambda>ys. Inr (y # ys)))"

lemma res_map_Inr: "res_map f xs = Inr ys \<longleftrightarrow> list_all2 (\<lambda>x y. f x = Inr y) xs ys"
  by (induction xs arbitrary: ys) (auto simp: res_bind_Inr list_all2_Cons1)

lemma res_map_total: "(\<And>x. x \<in> set xs \<Longrightarrow> f x = Inr (g x)) \<Longrightarrow> res_map f xs = Inr (map g xs)"
  by (induction xs) auto

lemma res_map_cong: "(\<And>x. x \<in> set xs \<Longrightarrow> f x = g x) \<Longrightarrow> res_map f xs = res_map g xs"
  by (induction xs) simp_all

text \<open>\<open>xs.index(x)\<close>, \<open>xs[i]\<close> and \<open>xs[-1]\<close>.\<close>

fun list_index :: "'x list \<Rightarrow> 'x \<Rightarrow> nat res" where
  "list_index [] x = Inl ValueError"
| "list_index (y # ys) x = (if x = y then Inr 0 else res_bind (list_index ys x) (\<lambda>i. Inr (Suc i)))"

definition list_get :: "'v list \<Rightarrow> nat \<Rightarrow> 'v res" where
  "list_get xs i = (if i < length xs then Inr (xs ! i) else Inl IndexError)"

text \<open>Subscripts count from the end when they are negative.\<close>

definition py_index :: "'v list \<Rightarrow> int \<Rightarrow> nat res" where
  "py_index xs i =
     (let n = int (length xs) in
      if 0 \<le> i \<and> i < n then Inr (nat i)
      else if - n \<le> i \<and> i < 0 then Inr (nat (i + n))
      else Inl IndexError)"

definition py_get :: "'v list \<Rightarrow> int \<Rightarrow> 'v res" where
  "py_get xs i = res_bind (py_index xs i) (\<lambda>k. Inr (xs ! k))"

definition py_update :: "'v list \<Rightarrow> int \<Rightarrow> ('v \<Rightarrow> 'v) \<Rightarrow> 'v list res" where
  "py_update xs i f = res_bind (py_index xs i) (\<lambda>k. Inr (xs[k := f (xs ! k)]))"

definition py_set :: "'v list \<Rightarrow> int \<Rightarrow> 'v \<Rightarrow> 'v list res" where
  "py_set xs i v = py_update xs i (\<lambda>_. v)"

definition py_last :: "'x list \<Rightarrow> 'x res" where
  "py_last xs = (if xs = [] then Inl IndexError else Inr (last xs))"

lemma list_index_Inr: "list_index xs x = Inr i \<Longrightarrow> i < length xs \<and> xs ! i = x"
  by (induction xs arbitrary: i) (auto simp: res_bind_Inr split: if_splits)

lemma list_index_total: "x \<in> set xs \<Longrightarrow> \<exists>i. list_index xs x = Inr i"
  by (induction xs) auto

lemma py_get_nonneg: "0 \<le> i \<Longrightarrow> py_get xs i = Inr x \<longleftrightarrow> nat i < length xs \<and> x = xs ! nat i"
  by (auto simp: py_get_def py_index_def Let_def)

lemma py_index_Inr: "py_index xs i = Inr k \<longleftrightarrow> k < length xs \<and> (i = int k \<or> i = int k - int (length xs))"
  by (auto simp: py_index_def Let_def)

lemma py_index_nonneg: "0 \<le> i \<Longrightarrow> py_index xs i = (if nat i < length xs then Inr (nat i) else Inl IndexError)"
  by (auto simp: py_index_def Let_def)

lemma list_get_Inr: "list_get xs i = Inr x \<longleftrightarrow> i < length xs \<and> x = xs ! i"
  by (auto simp: list_get_def)

text \<open>
  A set of objects is the list of its elements. It is iterated and popped in an order the program
  does not choose, which is a parameter where the program depends on it.
\<close>

definition set_add :: "'x \<Rightarrow> 'x list \<Rightarrow> 'x list" where
  "set_add i xs = (if i \<in> set xs then xs else xs @ [i])"

definition set_remove_all :: "'x list \<Rightarrow> 'x list \<Rightarrow> 'x list" where
  "set_remove_all is xs = filter (\<lambda>i. i \<notin> set is) xs"

text \<open>An iteration order of a set: the same elements, each once.\<close>

definition iteration_order :: "('x list \<Rightarrow> 'x list) \<Rightarrow> bool" where
  "iteration_order sched \<longleftrightarrow> (\<forall>xs. mset (sched xs) = mset xs)"

lemma iteration_orderD:
  assumes "iteration_order sched"
  shows "set (sched xs) = set xs" and "distinct (sched xs) = distinct xs" and "sched xs = [] \<longleftrightarrow> xs = []"
  using assms by (auto simp: iteration_order_def dest: mset_eq_setD mset_eq_imp_distinct_iff)
    (metis mset_zero_iff)+

subsection \<open>Ceiling division\<close>

text \<open>
  \<open>math.ceil(a / b)\<close> and the idiom \<open>-(a // -b)\<close>. Python's quotient of two ints is a
  float; below \<open>2 ^ 53\<close> the ceiling of that float is the ceiling of the exact quotient, which
  is what is written here. A zero divisor raises and is handled where the code divides.
\<close>

definition ceil_div :: "int \<Rightarrow> int \<Rightarrow> int" where
  "ceil_div a b = - ((- a) div b)"

lemma ceil_div_neg_floor: "ceil_div a b = - (a div (- b))"
  by (simp add: ceil_div_def div_minus_right)

lemma ceil_div_le_iff: "0 < b \<Longrightarrow> ceil_div a b \<le> n \<longleftrightarrow> a \<le> n * b"
proof -
  assume b: "0 < b"
  have "- n \<le> (- a) div b \<longleftrightarrow> - n * b \<le> - a"
  proof
    assume "- n \<le> (- a) div b"
    then have "- n * b \<le> (- a) div b * b" using b by (intro mult_right_mono) auto
    also have "\<dots> \<le> - a"
      using pos_mod_sign [OF b, of "- a"] div_mult_mod_eq [of "- a" b] by linarith
    finally show "- n * b \<le> - a" .
  next
    assume "- n * b \<le> - a"
    then have "(- n * b) div b \<le> (- a) div b" using b by (rule zdiv_mono1)
    then show "- n \<le> (- a) div b" using b by (simp only: nonzero_mult_div_cancel_right)
  qed
  then show ?thesis by (auto simp: ceil_div_def)
qed

lemma ceil_div_upper: "0 < b \<Longrightarrow> a \<le> ceil_div a b * b"
  using ceil_div_le_iff [of b a "ceil_div a b"] by simp

lemma ceil_div_lower: "0 < b \<Longrightarrow> ceil_div a b * b < a + b"
proof -
  assume b: "0 < b"
  have "\<not> a \<le> (ceil_div a b - 1) * b"
    using ceil_div_le_iff [OF b, of a "ceil_div a b - 1"] by linarith
  then show ?thesis by (simp add: left_diff_distrib)
qed

lemma ceil_div_nonneg: "0 < b \<Longrightarrow> 0 \<le> a \<Longrightarrow> 0 \<le> ceil_div a b"
proof -
  assume b: "0 < b" and a: "0 \<le> a"
  show ?thesis
  proof (rule ccontr)
    assume "\<not> 0 \<le> ceil_div a b"
    then have "ceil_div a b \<le> -1" by simp
    then have "a \<le> -1 * b" using b by (simp only: ceil_div_le_iff)
    with a b show False by simp
  qed
qed

lemma ceil_div_mult [simp]: "0 < b \<Longrightarrow> ceil_div (n * b) b = n"
  by (simp add: ceil_div_def flip: mult_minus_left)

lemma ceil_div_zero [simp]: "ceil_div 0 b = 0"
  by (simp add: ceil_div_def)

lemma ceil_div_add_mult: "0 < b \<Longrightarrow> ceil_div (a + n * b) b = ceil_div a b + n"
proof -
  assume b: "0 < b"
  have "(- (a + n * b)) div b = ((- a) + (- n) * b) div b" by (simp add: algebra_simps)
  also have "\<dots> = (- a) div b - n" using b by (subst div_mult_self1) auto
  finally show ?thesis by (simp add: ceil_div_def)
qed

lemma ceil_div_mono: "0 < b \<Longrightarrow> a \<le> a' \<Longrightarrow> ceil_div a b \<le> ceil_div a' b"
  by (simp add: ceil_div_def zdiv_mono1)

subsection \<open>Token blocks\<close>

text \<open>
  \<open>[xs[i : i + n] for i in range(start, len(xs), n)]\<close> with \<open>start = 0\<close>: the blocks of
  \<open>n\<close> elements, the last one possibly shorter.
\<close>

definition py_slice :: "'a list \<Rightarrow> nat \<Rightarrow> nat \<Rightarrow> 'a list" where
  "py_slice xs i j = take (j - i) (drop i xs)"

function range_step :: "nat \<Rightarrow> nat \<Rightarrow> nat \<Rightarrow> nat list" where
  "range_step start stop step =
     (if step = 0 \<or> stop \<le> start then [] else start # range_step (start + step) stop step)"
  by pat_completeness auto
termination
  by (relation "measure (\<lambda>(start, stop, step). stop - start)") auto

declare range_step.simps [simp del]

definition blocks_from :: "nat \<Rightarrow> nat \<Rightarrow> 'a list \<Rightarrow> 'a list list" where
  "blocks_from start n xs = map (\<lambda>i. py_slice xs i (i + n)) (range_step start (length xs) n)"

lemma length_py_slice [simp]: "length (py_slice xs i j) = min (j - i) (length xs - i)"
  by (simp add: py_slice_def)

lemma blocks_from_unfold:
  "blocks_from start n xs =
     (if n = 0 \<or> length xs \<le> start then []
      else take n (drop start xs) # blocks_from (start + n) n xs)"
  by (simp add: blocks_from_def range_step.simps [of start] py_slice_def)

lemma concat_blocks_from: "0 < n \<Longrightarrow> concat (blocks_from start n xs) = drop start xs"
proof (induction "length xs - start" arbitrary: start rule: less_induct)
  case less
  show ?case
  proof (cases "length xs \<le> start")
    case True
    then show ?thesis by (subst blocks_from_unfold) simp
  next
    case False
    then have "concat (blocks_from (start + n) n xs) = drop (start + n) xs"
      using less by (intro less.hyps) auto
    then have "concat (blocks_from start n xs) = take n (drop start xs) @ drop n (drop start xs)"
      using False less.prems by (subst blocks_from_unfold) (simp add: add.commute)
    then show ?thesis by (simp only: append_take_drop_id)
  qed
qed

lemma length_blocks_from:
  "0 < n \<Longrightarrow> start \<le> length xs \<Longrightarrow>
   int (length (blocks_from start n xs)) = ceil_div (int (length xs) - int start) (int n)"
proof (induction "length xs - start" arbitrary: start rule: less_induct)
  case less
  show ?case
  proof (cases "length xs \<le> start + n")
    case True
    show ?thesis
    proof (cases "length xs = start")
      case True
      then show ?thesis by (subst blocks_from_unfold) simp
    next
      case False
      with less.prems True have 1: "0 < int (length xs) - int start"
        and 2: "int (length xs) - int start \<le> int n" by auto
      have "ceil_div (int (length xs) - int start) (int n) \<le> 1"
        using 2 less.prems by (subst ceil_div_le_iff) auto
      moreover have "\<not> ceil_div (int (length xs) - int start) (int n) \<le> 0"
        using 1 less.prems by (subst ceil_div_le_iff) auto
      moreover have "length (blocks_from start n xs) = 1"
        using True False less.prems
        by (simp add: blocks_from_unfold [of start] blocks_from_unfold [of "start + n"])
      ultimately show ?thesis by simp
    qed
  next
    case False
    then have IH: "int (length (blocks_from (start + n) n xs)) =
        ceil_div (int (length xs) - int (start + n)) (int n)"
      using less by (intro less.hyps) auto
    have "int (length xs) - int start = (int (length xs) - int (start + n)) + 1 * int n" by simp
    then have "ceil_div (int (length xs) - int start) (int n)
        = ceil_div (int (length xs) - int (start + n)) (int n) + 1"
      using less.prems by (simp only: ceil_div_add_mult of_nat_0_less_iff)
    with IH False less.prems show ?thesis by (subst blocks_from_unfold) simp
  qed
qed

lemma blocks_from_drop: "blocks_from (start + k) n xs = blocks_from start n (drop k xs)"
proof (induction "length xs - (start + k)" arbitrary: start rule: less_induct)
  case less
  show ?case
  proof (cases "n = 0 \<or> length xs \<le> start + k")
    case True
    then show ?thesis by (subst (1 2) blocks_from_unfold) auto
  next
    case False
    then have "\<not> length xs - k \<le> start" by linarith
    from False have "blocks_from (start + n + k) n xs = blocks_from (start + n) n (drop k xs)"
      by (intro less.hyps) auto
    with False \<open>\<not> length xs - k \<le> start\<close> show ?thesis
      by (subst (1 2) blocks_from_unfold) (simp add: ac_simps)
  qed
qed

lemma blocks_from_nth:
  "0 < n \<Longrightarrow> j < length (blocks_from start n xs) \<Longrightarrow>
   blocks_from start n xs ! j = take n (drop (start + j * n) xs)"
proof (induction j arbitrary: start)
  case 0
  then show ?case by (subst blocks_from_unfold) (auto simp: blocks_from_unfold [of start] split: if_splits)
next
  case (Suc j)
  then have "\<not> length xs \<le> start" by (auto simp: blocks_from_unfold [of start])
  with Suc have "j < length (blocks_from (start + n) n xs)"
    by (simp add: blocks_from_unfold [of start])
  then have "blocks_from (start + n) n xs ! j = take n (drop (start + n + j * n) xs)"
    using Suc by blast
  with \<open>\<not> length xs \<le> start\<close> Suc.prems show ?case
    by (subst blocks_from_unfold) (simp add: ac_simps)
qed

lemma blocks_step: "0 < n \<Longrightarrow> blocks_from 0 n xs = (if xs = [] then [] else take n xs # blocks_from 0 n (drop n xs))"
  using blocks_from_drop [of 0 n n xs] by (subst blocks_from_unfold) auto

lemma blocks_snoc:
  assumes n: "0 < n"
  shows "blocks_from 0 n (xs @ [x]) =
    (if n dvd length xs then blocks_from 0 n xs @ [[x]]
     else butlast (blocks_from 0 n xs) @ [last (blocks_from 0 n xs) @ [x]])"
proof (induction "length xs" arbitrary: xs rule: less_induct)
  case less
  show ?case
  proof (cases "length xs < n")
    case True
    then have "n dvd length xs \<longleftrightarrow> xs = []" using nat_dvd_not_less by fastforce
    with True n show ?thesis by (simp add: blocks_step [of n "xs @ [x]"] blocks_step [of n xs] blocks_step [of n "[]"])
  next
    case False
    then have IH: "blocks_from 0 n (drop n xs @ [x]) =
        (if n dvd length xs then blocks_from 0 n (drop n xs) @ [[x]]
         else butlast (blocks_from 0 n (drop n xs)) @ [last (blocks_from 0 n (drop n xs)) @ [x]])"
      using less [of "drop n xs"] n by (simp add: dvd_minus_self)
    have "\<not> n dvd length xs \<Longrightarrow> blocks_from 0 n (drop n xs) \<noteq> []"
      using False n by (subst blocks_step) auto
    with IH False n show ?thesis
      by (subst blocks_step [of n "xs @ [x]"], simp, subst (1 2 3) blocks_step [of n xs]) auto
  qed
qed

lemma blocks_short:
  assumes n: "0 < n" and bs: "blocks_from 0 n xs = A @ b # C" and b: "length b < n"
  shows "C = []" and "\<not> n dvd length xs"
proof -
  let ?j = "length A"
  have b_eq: "b = take n (drop (?j * n) xs)"
    using blocks_from_nth [OF n, of ?j 0 xs] by (simp add: bs)
  show "C = []"
  proof (rule ccontr)
    assume "C \<noteq> []"
    then have "Suc ?j < length (blocks_from 0 n xs)" using bs by (cases C) auto
    then have "(A @ b # C) ! Suc ?j = take n (drop (Suc ?j * n) xs)"
      using blocks_from_nth [OF n, of "Suc ?j" 0 xs] by (simp add: bs)
    have l: "int (length (blocks_from 0 n xs)) = ceil_div (int (length xs)) (int n)"
      using length_blocks_from [OF n, of 0 xs] by simp
    from b b_eq have "length xs \<le> Suc ?j * n" by simp
    then have "ceil_div (int (length xs)) (int n) \<le> int (Suc ?j)"
      using n by (subst ceil_div_le_iff) (simp_all flip: of_nat_mult of_nat_Suc)
    with l \<open>Suc ?j < length (blocks_from 0 n xs)\<close> show False by simp
  qed
  have "?j < length (blocks_from 0 n xs)" using bs by simp
  show "\<not> n dvd length xs"
  proof
    assume "n dvd length xs"
    then obtain k where k: "length xs = n * k" ..
    then have "int (length (blocks_from 0 n xs)) = int k"
      using length_blocks_from [OF n, of 0 xs] n by (simp add: mult.commute)
    then have "Suc ?j \<le> k" using \<open>?j < _\<close> by simp
    then have "Suc ?j * n \<le> k * n" by (rule mult_le_mono1)
    then have "Suc ?j * n \<le> length xs" using k by (simp add: mult.commute)
    with b b_eq show False by simp
  qed
qed

lemma blocks_full:
  assumes n: "0 < n" and full: "\<forall>b \<in> set (blocks_from 0 n xs). n \<le> length b"
  shows "n dvd length xs"
  using full
proof (induction "length xs" arbitrary: xs rule: less_induct)
  case less
  show ?case
  proof (cases "xs = []")
    case False
    with less.prems have "n \<le> length xs" "\<forall>b \<in> set (blocks_from 0 n (drop n xs)). n \<le> length b"
      using blocks_step [OF n, of xs] n by auto
    moreover from this have "n dvd length (drop n xs)" using n False by (intro less.hyps) auto
    ultimately show ?thesis by (simp add: dvd_minus_self)
  qed simp
qed

subsection \<open>Lists as stacks, small facts about maps and multisets\<close>

lemma take_rev_last: "xs \<noteq> [] \<Longrightarrow> take (Suc n) (rev xs) = last xs # take n (rev (butlast xs))"
  by (cases xs rule: rev_cases) auto

lemma length_concat_uniform:
  "(\<And>x. x \<in> set xs \<Longrightarrow> length (f x) = n) \<Longrightarrow> length (concat (map f xs)) = length xs * n"
  by (induction xs) auto

lemma nth_concat_uniform:
  "(\<And>x. x \<in> set xs \<Longrightarrow> length (f x) = n) \<Longrightarrow> k < length xs * n \<Longrightarrow>
   concat (map f xs) ! k = f (xs ! (k div n)) ! (k mod n)"
proof (induction xs arbitrary: k)
  case (Cons x xs)
  show ?case
  proof (cases "k < n")
    case True
    with Cons.prems(1) show ?thesis by (simp add: nth_append)
  next
    case False
    with Cons.prems(2) have "0 < n" "k - n < length xs * n" by (cases n; simp)+
    with False Cons.IH [of "k - n"] Cons.prems(1) show ?thesis
      by (simp add: nth_append le_div_geq le_mod_geq)
  qed
qed simp

lemma mset_take_drop: "mset (take n xs) + mset (drop n xs) = mset xs"
  by (metis append_take_drop_id mset_append)

lemma butlast_take_less: "n \<le> length xs - 1 \<Longrightarrow> take n (butlast xs) = take n xs"
  by (simp add: butlast_conv_take)

lemma distinct_mset_disjoint: "distinct (xs @ ys) \<Longrightarrow> set xs \<inter> set ys = {}"
  by simp

lemma delete_Nil_iff: "AList.delete k xs = [] \<longleftrightarrow> fst ` set xs \<subseteq> {k}"
  by (auto simp: AList.delete_eq filter_empty_conv)

lemma mset_exchange:
  fixes A :: "'a multiset"
  assumes "S' + b = S + a" and "A + a = B + b"
  shows "A + S' = B + S"
proof (rule multiset_eqI)
  fix k
  from assms have "count S' k + count b k = count S k + count a k"
    and "count A k + count a k = count B k + count b k"
    by (metis count_union)+
  then show "count (A + S') k = count (B + S) k" by simp
qed

lemma concat_map_if:
  "concat (map (\<lambda>x. if P x then [f x] else []) xs) = map f (filter P xs)"
  by (induction xs) auto

lemma AList_update_fresh: "k \<notin> fst ` set al \<Longrightarrow> AList.update k v al = al @ [(k, v)]"
  by (induction al) auto

lemma sum_list_map_update:
  fixes f :: "'a \<Rightarrow> 'b::comm_monoid_add"
  shows "i < length xs \<Longrightarrow>
    sum_list (map f (xs[i := y])) + f (xs ! i) = sum_list (map f xs) + f y"
proof (induction xs arbitrary: i)
  case (Cons x xs)
  then show ?case by (cases i) (auto simp: ac_simps)
qed simp

end
