(* ===== verification/Page_Pool.thy ===== *)
theory Page_Pool
  imports Py_Prelude
begin

section \<open>The page pool of the paged attention cache\<close>

text \<open>
  Model of \<open>shortfin_apps/llm/components/kvcache/page_pool.py\<close>. A \<open>PageInfo\<close> object is
  created once per index, so a reference to it is its index; \<open>available_pages\<close> is the stack of
  references the code pops from the end of. A device page table is the list of its rows (one row
  per page), of an arbitrary content type \<open>'c\<close>; the array type itself comes from the
  \<open>shortfin\<close> bindings, so the table a device starts with is an argument of \<open>pool_init\<close>.
  The methods hold the pool's lock for their whole body, hence each is one atomic function here.
\<close>

subsection \<open>State\<close>

record page_info =
  pi_index :: nat
  pi_token_offset :: int
  pi_token_count :: int
  pi_writing :: bool
  pi_read_ref_count :: int

record page_pool_config =
  pc_alloc_page_count :: nat
  pc_block_size_elements :: nat

record 'c page_pool =
  pp_config :: page_pool_config
  pp_attn_page_entries :: "page_info list"
  pp_available_pages :: "nat list"
  pp_page_tables :: "'c list list"

subsection \<open>Operations\<close>

definition new_page_info :: "nat \<Rightarrow> page_info" where
  "new_page_info i = \<lparr>pi_index = i, pi_token_offset = 0, pi_token_count = 0,
     pi_writing = False, pi_read_ref_count = 0\<rparr>"

text \<open>\<open>mk_table d rows cols\<close> is \<open>device_array.for_device(d, [rows, cols], dtype)\<close>.\<close>

definition pool_init :: "('d \<Rightarrow> nat \<Rightarrow> nat \<Rightarrow> 'c list) \<Rightarrow> 'd list \<Rightarrow> page_pool_config \<Rightarrow> 'c page_pool"
  where
  "pool_init mk_table devices config =
     \<lparr>pp_config = config,
      pp_attn_page_entries = map new_page_info [0..<pc_alloc_page_count config],
      pp_available_pages = map pi_index (map new_page_info [0..<pc_alloc_page_count config]),
      pp_page_tables =
        map (\<lambda>d. mk_table d (pc_alloc_page_count config) (pc_block_size_elements config)) devices\<rparr>"

text \<open>\<open>[self.available_pages.pop() for _ in range(count)]\<close>, run only when there are enough.\<close>

fun pop_pages :: "nat \<Rightarrow> nat list \<Rightarrow> nat list \<times> nat list" where
  "pop_pages 0 av = ([], av)"
| "pop_pages (Suc n) av = (let (ps, av') = pop_pages n (butlast av) in (last av # ps, av'))"

definition acquire_free_pages :: "'c page_pool \<Rightarrow> int \<Rightarrow> nat list option \<times> 'c page_pool" where
  "acquire_free_pages p n =
     (if n > int (length (pp_available_pages p)) then (None, p)
      else (let (ps, av) = pop_pages (nat n) (pp_available_pages p)
            in (Some ps, p\<lparr>pp_available_pages := av\<rparr>)))"

definition free_pages :: "'c page_pool \<Rightarrow> nat list \<Rightarrow> 'c page_pool" where
  "free_pages p pages = p\<lparr>pp_available_pages := pp_available_pages p @ pages\<rparr>"

text \<open>
  \<open>copy_page\<close> unpacks the one page it acquired: \<open>(dst_page,) = None\<close> is a \<open>TypeError\<close>.
  \<open>page_table.view(i)\<close> is row \<open>i\<close> of the table.
\<close>

definition copy_row :: "nat \<Rightarrow> nat \<Rightarrow> 'c list \<Rightarrow> 'c list" where
  "copy_row src dst table = table[dst := table ! src]"

definition copy_page :: "'c page_pool \<Rightarrow> nat \<Rightarrow> nat res \<times> 'c page_pool" where
  "copy_page p src_page =
     (case acquire_free_pages p 1 of
        (None, p') \<Rightarrow> (Inl TypeError, p')
      | (Some pages, p') \<Rightarrow>
          (let dst_page = hd pages;
               entries = pp_attn_page_entries p'
           in (Inr dst_page,
               p'\<lparr>pp_page_tables := map (copy_row src_page dst_page) (pp_page_tables p'),
                  pp_attn_page_entries :=
                    entries[dst_page := (entries ! dst_page)\<lparr>pi_token_offset := 0\<rparr>]\<rparr>)))"

text \<open>The counts \<open>__repr__\<close> prints: pages in use, all pages; the free share divides by them.\<close>

definition pool_usage :: "'c page_pool \<Rightarrow> (int \<times> int \<times> int) res" where
  "pool_usage p =
     (let free = int (length (pp_available_pages p)); total = int (length (pp_attn_page_entries p))
      in if total = 0 then Inl ZeroDivisionError else Inr (total - free, total, 100 * free))"

subsection \<open>Lemmas\<close>

lemma pop_pages_eq:
  "n \<le> length av \<Longrightarrow> pop_pages n av = (take n (rev av), take (length av - n) av)"
proof (induction n arbitrary: av)
  case 0
  then show ?case by simp
next
  case (Suc n)
  then have "av \<noteq> []" and "n \<le> length (butlast av)" by auto
  then have "pop_pages n (butlast av)
      = (take n (rev (butlast av)), take (length (butlast av) - n) (butlast av))"
    by (intro Suc.IH) auto
  with \<open>av \<noteq> []\<close> Suc.prems show ?case
    by (simp add: take_rev_last butlast_take_less)
qed

lemma acquire_free_pages_cases:
  "acquire_free_pages p n =
     (let av = pp_available_pages p in
      if n > int (length av) then (None, p)
      else (Some (take (nat n) (rev av)),
            p\<lparr>pp_available_pages := take (length av - nat n) av\<rparr>))"
proof (cases "n > int (length (pp_available_pages p))")
  case False
  then have "nat n \<le> length (pp_available_pages p)" by linarith
  then show ?thesis using False by (simp add: acquire_free_pages_def pop_pages_eq Let_def)
qed (simp add: acquire_free_pages_def)

lemma acquire_free_pages_None:
  "acquire_free_pages p n = (None, p') \<longleftrightarrow>
     n > int (length (pp_available_pages p)) \<and> p' = p"
  by (auto simp: acquire_free_pages_cases Let_def)

lemma acquire_free_pages_Some:
  assumes "acquire_free_pages p n = (Some ps, p')"
  shows "length ps = nat n"
    and "pp_available_pages p = pp_available_pages p' @ rev ps"
    and "p' = p\<lparr>pp_available_pages := pp_available_pages p'\<rparr>"
proof -
  let ?av = "pp_available_pages p"
  from assms have c: "n \<le> int (length ?av)" and ps: "ps = take (nat n) (rev ?av)"
    and p': "p' = p\<lparr>pp_available_pages := take (length ?av - nat n) ?av\<rparr>"
    by (auto simp: acquire_free_pages_cases Let_def split: if_splits)
  then have n: "nat n \<le> length ?av" by linarith
  show "length ps = nat n" using n ps by simp
  show "?av = pp_available_pages p' @ rev ps"
    using ps p' by (simp add: rev_take)
  show "p' = p\<lparr>pp_available_pages := pp_available_pages p'\<rparr>" using p' by simp
qed

lemma acquire_free_pages_mset:
  "acquire_free_pages p n = (Some ps, p') \<Longrightarrow>
   mset (pp_available_pages p) = mset (pp_available_pages p') + mset ps"
  using acquire_free_pages_Some(2) [of p n ps p'] by (metis mset_append mset_rev)

lemma acquire_free_pages_total:
  "n \<le> int (length (pp_available_pages p)) \<Longrightarrow>
   \<exists>ps p'. acquire_free_pages p n = (Some ps, p')"
  by (simp add: acquire_free_pages_cases Let_def)

lemma free_pages_available [simp]:
  "pp_available_pages (free_pages p pages) = pp_available_pages p @ pages"
  by (simp add: free_pages_def)

lemma acquire_free_pages_frame:
  assumes "acquire_free_pages p n = (r, p')"
  shows "pp_page_tables p' = pp_page_tables p"
    and "pp_attn_page_entries p' = pp_attn_page_entries p"
    and "pp_config p' = pp_config p"
  using assms by (auto simp: acquire_free_pages_cases Let_def split: if_splits)

subsection \<open>What a pool promises its clients\<close>

text \<open>
  The caches use a pool through \<open>acquire_free_pages\<close> and \<open>free_pages\<close> only. The locale
  states the two operations' contract over the stack of available pages and proves what the
  caches' proofs rest on.
\<close>

locale page_source =
  fixes acquire :: "'p \<Rightarrow> int \<Rightarrow> nat list option \<times> 'p"
    and give_back :: "'p \<Rightarrow> nat list \<Rightarrow> 'p"
    and avail :: "'p \<Rightarrow> nat list"
  assumes acquire_Some: "acquire p n = (Some ps, p') \<Longrightarrow>
      length ps = nat n \<and> mset (avail p) = mset (avail p') + mset ps"
    and acquire_None: "acquire p n = (None, p') \<longleftrightarrow> n > int (length (avail p)) \<and> p' = p"
    and give_back_mset: "mset (avail (give_back p ps)) = mset (avail p) + mset ps"
begin

lemma acquire_total:
  assumes "n \<le> int (length (avail p))"
  obtains ps p' where "acquire p n = (Some ps, p')"
  using assms acquire_None [of p n] by (cases "acquire p n"; cases "fst (acquire p n)") auto

lemma acquire_length:
  assumes "acquire p n = (Some ps, p')"
  shows "length (avail p) = length (avail p') + nat n"
  using acquire_Some [OF assms] by (metis mset_append length_append size_mset)

lemma acquire_distinct:
  assumes "acquire p n = (Some ps, p')" and "distinct (avail p)"
  shows "distinct ps" and "distinct (avail p')" and "set ps \<inter> set (avail p') = {}"
    and "set ps \<subseteq> set (avail p)" and "set (avail p) = set ps \<union> set (avail p')"
proof -
  have m: "mset (avail p) = mset (avail p' @ ps)" using acquire_Some [OF assms(1)] by simp
  then have "distinct (avail p' @ ps)" using assms(2) by (metis distinct_count_atmost_1 set_mset_mset)
  then show "distinct ps" "distinct (avail p')" "set ps \<inter> set (avail p') = {}" by auto
  have "set (avail p) = set (avail p' @ ps)" using m by (rule mset_eq_setD)
  then show "set ps \<subseteq> set (avail p)" "set (avail p) = set ps \<union> set (avail p')" by auto
qed

lemma give_back_distinct:
  assumes "distinct (avail p)" and "distinct ps" and "set ps \<inter> set (avail p) = {}"
  shows "distinct (avail (give_back p ps))"
proof -
  have "mset (avail (give_back p ps)) = mset (avail p @ ps)" by (simp add: give_back_mset)
  moreover have "distinct (avail p @ ps)" using assms by auto
  ultimately show ?thesis by (metis distinct_count_atmost_1 set_mset_mset)
qed

lemma give_back_set: "set (avail (give_back p ps)) = set (avail p) \<union> set ps"
  using give_back_mset [of p ps] by (metis set_mset_mset set_mset_union)

lemma give_back_length: "length (avail (give_back p ps)) = length (avail p) + length ps"
  using give_back_mset [of p ps] by (metis mset_append length_append size_mset)

lemma acquire_give_back:
  assumes "acquire p n = (Some ps, p')"
  shows "mset (avail (give_back p' ps)) = mset (avail p)"
  using acquire_Some [OF assms] by (simp add: give_back_mset)

lemma acquire_after_give_back:
  assumes "n \<le> int (length (avail p)) + int (length ps)"
  obtains qs p' where "acquire (give_back p ps) n = (Some qs, p')"
  using assms acquire_total [of n "give_back p ps"] by (auto simp: give_back_length)

end

interpretation pool: page_source acquire_free_pages free_pages pp_available_pages
proof
  fix p p' :: "'c page_pool" and n ps
  show "acquire_free_pages p n = (Some ps, p') \<Longrightarrow>
      length ps = nat n \<and>
      mset (pp_available_pages p) = mset (pp_available_pages p') + mset ps"
    using acquire_free_pages_Some(1) acquire_free_pages_mset by blast
qed (simp_all add: acquire_free_pages_None)

end
