(* ===== verification/Trie_Store.thy ===== *)
theory Trie_Store
  imports Page_Pool "HOL-Library.Product_Lexorder"
begin

section \<open>The node store of the trie cache\<close>

text \<open>
  Model of the data of \<open>kvcache/trie_attention_cache.py\<close>: \<open>RefCount\<close>, \<open>TrieNode\<close>, the
  fields of \<open>TriePagedAttentionCache\<close> and of \<open>TriePagedAttentionCacheAllocation\<close>.

  Nodes are mutable objects that the trie, the leaf set and the allocations share, so they live
  in a store \<open>tc_nodes\<close> from object numbers to node records; object numbers are handed out in
  creation order, and \<open>tc_addr\<close> gives the address \<open>id(node)\<close> by which equal access times are
  ordered. Token sequences are either tuples (immutable values) or list objects, which live in
  \<open>tc_lists\<close> because an allocation keeps the very list it is given. The clock
  \<open>time.monotonic()\<close> is a sequence of readings, consumed one by one.
\<close>

subsection \<open>The standard library's \<open>heapq\<close> as a priority queue\<close>

text \<open>
  \<open>heapq\<close> keeps a list whose first element is minimal in the order of its elements. What its
  callers can observe is which element \<open>heappop\<close> returns and which elements remain; the model
  keeps the elements in an arbitrary order and pops one of minimal key. The locale states that
  contract and proves, once, that a run of pops yields the elements in key order.
\<close>

definition heapify :: "'a list \<Rightarrow> 'a list" where
  "heapify xs = xs"

definition heappush :: "'a \<Rightarrow> 'a list \<Rightarrow> 'a list" where
  "heappush x h = x # h"

definition heappop :: "('a \<Rightarrow> 'k::linorder) \<Rightarrow> 'a list \<Rightarrow> 'a \<times> 'a list" where
  "heappop key h = (let m = arg_min_list key h in (m, remove1 m h))"

lemma arg_min_list_le: "xs \<noteq> [] \<Longrightarrow> x \<in> set xs \<Longrightarrow> f (arg_min_list f xs) \<le> (f x :: 'k::linorder)"
  by (simp add: f_arg_min_list_f)

locale min_queue =
  fixes key :: "'a \<Rightarrow> 'k::linorder"
    and build :: "'a list \<Rightarrow> 'q"
    and push :: "'a \<Rightarrow> 'q \<Rightarrow> 'q"
    and pop :: "'q \<Rightarrow> 'a \<times> 'q"
    and elems :: "'q \<Rightarrow> 'a multiset"
  assumes elems_build: "elems (build xs) = mset xs"
    and elems_push: "elems (push x q) = add_mset x (elems q)"
    and pop_elems: "elems q \<noteq> {#} \<Longrightarrow> pop q = (x, q') \<Longrightarrow> elems q = add_mset x (elems q')"
    and pop_least: "elems q \<noteq> {#} \<Longrightarrow> pop q = (x, q') \<Longrightarrow> y \<in># elems q \<Longrightarrow> key x \<le> key y"
begin

lemma pop_in: "elems q \<noteq> {#} \<Longrightarrow> pop q = (x, q') \<Longrightarrow> x \<in># elems q"
  using pop_elems by fastforce

lemma pop_rest: "elems q \<noteq> {#} \<Longrightarrow> pop q = (x, q') \<Longrightarrow> elems q' = elems q - {#x#}"
  using pop_elems by fastforce

lemma pop_size: "elems q \<noteq> {#} \<Longrightarrow> pop q = (x, q') \<Longrightarrow> size (elems q) = Suc (size (elems q'))"
  using pop_elems by fastforce

lemma pop_ordered:
  assumes "elems q \<noteq> {#}" "pop q = (x, q')" "elems q' \<noteq> {#}" "pop q' = (y, q'')"
  shows "key x \<le> key y"
  using assms pop_least pop_in pop_elems by (metis union_iff add_mset_add_single)

end

interpretation heap: min_queue key heapify heappush "heappop key" mset
  for key :: "'a \<Rightarrow> 'k::linorder"
proof
  fix q q' :: "'a list" and x y
  assume q: "mset q \<noteq> {#}" and p: "heappop key q = (x, q')"
  then have x: "x = arg_min_list key q" and q': "q' = remove1 x q" by (auto simp: heappop_def Let_def)
  from q have "x \<in> set q" unfolding x by (intro arg_min_list_in) auto
  then show "mset q = add_mset x (mset q')" by (simp add: q')
  show "y \<in># mset q \<Longrightarrow> key x \<le> key y" using q unfolding x by (intro arg_min_list_le) auto
qed (simp_all add: heapify_def heappush_def)

subsection \<open>Reference counts\<close>

record ref_count =
  rc_count :: int

definition rc_new :: ref_count where "rc_new = \<lparr>rc_count = 0\<rparr>"

definition increment :: "ref_count \<Rightarrow> ref_count" where
  "increment r = r\<lparr>rc_count := rc_count r + 1\<rparr>"

definition decrement :: "ref_count \<Rightarrow> ref_count" where
  "decrement r = r\<lparr>rc_count := rc_count r - 1\<rparr>"

definition rc_is_empty :: "ref_count \<Rightarrow> bool" where
  "rc_is_empty r \<longleftrightarrow> rc_count r \<le> 0"

subsection \<open>Nodes, token objects, cache and allocations\<close>

record trie_node =
  tn_tokens :: "int list"
  tn_page :: nat
  tn_children :: "(int list \<times> nat) list"
  tn_parent :: "nat option"
  tn_ref_count :: ref_count
  tn_access_time :: nat

datatype py_tokens = Tup "int list" | Lst nat

record 'c trie_cache =
  tc_page_pool :: "'c page_pool"
  tc_tokens_per_page :: nat
  tc_root :: nat
  tc_leaves :: "nat list"
  tc_nodes :: "nat \<Rightarrow> trie_node"
  tc_next :: nat
  tc_addr :: "nat \<Rightarrow> nat"
  tc_clock :: "nat \<Rightarrow> nat"
  tc_reads :: nat
  tc_lists :: "nat \<Rightarrow> int list"

record trie_allocation =
  ta_tokens :: py_tokens
  ta_last_cached_node :: nat
  ta_pages :: "nat list"
  ta_number_of_published_pages :: nat
  ta_is_released :: bool

fun tokens_val :: "'c trie_cache \<Rightarrow> py_tokens \<Rightarrow> int list" where
  "tokens_val c (Tup xs) = xs"
| "tokens_val c (Lst l) = tc_lists c l"

definition list_append :: "nat \<Rightarrow> int \<Rightarrow> 'c trie_cache \<Rightarrow> 'c trie_cache" where
  "list_append l x c = c\<lparr>tc_lists := (tc_lists c)(l := tc_lists c l @ [x])\<rparr>"

subsection \<open>Node operations\<close>

definition node_upd :: "nat \<Rightarrow> (trie_node \<Rightarrow> trie_node) \<Rightarrow> 'c trie_cache \<Rightarrow> 'c trie_cache" where
  "node_upd i f c = c\<lparr>tc_nodes := (tc_nodes c)(i := f (tc_nodes c i))\<rparr>"

definition monotonic :: "'c trie_cache \<Rightarrow> nat \<times> 'c trie_cache" where
  "monotonic c = (tc_clock c (tc_reads c), c\<lparr>tc_reads := Suc (tc_reads c)\<rparr>)"

text \<open>\<open>TrieNode(tokens, page, parent)\<close>, with \<open>__post_init__\<close>.\<close>

definition new_trie_node ::
  "int list \<Rightarrow> nat \<Rightarrow> nat option \<Rightarrow> 'c trie_cache \<Rightarrow> nat \<times> 'c trie_cache" where
  "new_trie_node tokens page parent c =
     (let (now, c1) = monotonic c;
          node = \<lparr>tn_tokens = tokens, tn_page = page, tn_children = [], tn_parent = parent,
                  tn_ref_count = rc_new, tn_access_time = now\<rparr>
      in (tc_next c1, c1\<lparr>tc_nodes := (tc_nodes c1)(tc_next c1 := node), tc_next := Suc (tc_next c1)\<rparr>))"

definition create_child ::
  "nat \<Rightarrow> int list \<Rightarrow> nat \<Rightarrow> 'c trie_cache \<Rightarrow> nat \<times> 'c trie_cache" where
  "create_child self tokens page c =
     (let (new_node, c1) = new_trie_node tokens page (Some self) c
      in (new_node,
          node_upd self (\<lambda>n. n\<lparr>tn_children := AList.update tokens new_node (tn_children n)\<rparr>) c1))"

text \<open>\<open>del self.parent.children[self.tokens]\<close> raises \<open>KeyError\<close> when the key is gone.\<close>

definition unlink :: "nat \<Rightarrow> 'c trie_cache \<Rightarrow> unit res \<times> 'c trie_cache" where
  "unlink self c =
     (case tn_parent (tc_nodes c self) of
        None \<Rightarrow> (Inr (), c)
      | Some p \<Rightarrow>
          (let key = tn_tokens (tc_nodes c self) in
           if map_of (tn_children (tc_nodes c p)) key = None then (Inl KeyError, c)
           else (Inr (),
             node_upd self (\<lambda>n. n\<lparr>tn_parent := None\<rparr>)
               (node_upd p (\<lambda>n. n\<lparr>tn_children := AList.delete key (tn_children n)\<rparr>) c))))"

definition ref_increment :: "nat \<Rightarrow> 'c trie_cache \<Rightarrow> 'c trie_cache" where
  "ref_increment i = node_upd i (\<lambda>n. n\<lparr>tn_ref_count := increment (tn_ref_count n)\<rparr>)"

definition ref_decrement :: "nat \<Rightarrow> 'c trie_cache \<Rightarrow> 'c trie_cache" where
  "ref_decrement i = node_upd i (\<lambda>n. n\<lparr>tn_ref_count := decrement (tn_ref_count n)\<rparr>)"

subsection \<open>The leaf set\<close>

definition leaves_add :: "nat \<Rightarrow> 'c trie_cache \<Rightarrow> 'c trie_cache" where
  "leaves_add i c = c\<lparr>tc_leaves := List.insert i (tc_leaves c)\<rparr>"

definition leaves_remove :: "nat \<Rightarrow> 'c trie_cache \<Rightarrow> unit res \<times> 'c trie_cache" where
  "leaves_remove i c =
     (if i \<in> set (tc_leaves c) then (Inr (), c\<lparr>tc_leaves := removeAll i (tc_leaves c)\<rparr>)
      else (Inl KeyError, c))"

subsection \<open>Construction of the cache\<close>

definition empty_node :: trie_node where
  "empty_node = \<lparr>tn_tokens = [], tn_page = 0, tn_children = [], tn_parent = None,
     tn_ref_count = rc_new, tn_access_time = 0\<rparr>"

definition trie_cache_init ::
  "(nat \<Rightarrow> nat) \<Rightarrow> (nat \<Rightarrow> nat) \<Rightarrow> (nat \<Rightarrow> int list) \<Rightarrow> 'c page_pool \<Rightarrow> int \<Rightarrow> 'c trie_cache res"
  where
  "trie_cache_init addr clock objs pool tokens_per_page =
     (if tokens_per_page \<le> 0 then Inl ValueError
      else (let dummy_page = 0;
                blank = \<lparr>tc_page_pool = pool, tc_tokens_per_page = nat tokens_per_page, tc_root = 0,
                   tc_leaves = [], tc_nodes = (\<lambda>_. empty_node), tc_next = 0, tc_addr = addr,
                   tc_clock = clock, tc_reads = 0, tc_lists = objs\<rparr>;
                (root, c) = new_trie_node [] dummy_page None blank
            in Inr (c\<lparr>tc_root := root, tc_leaves := []\<rparr>)))"

subsection \<open>Frame facts\<close>

lemma node_upd_nodes [simp]:
  "tc_nodes (node_upd i f c) = (tc_nodes c)(i := f (tc_nodes c i))"
  by (simp add: node_upd_def)

lemma node_upd_frame [simp]:
  "tc_page_pool (node_upd i f c) = tc_page_pool c"
  "tc_tokens_per_page (node_upd i f c) = tc_tokens_per_page c"
  "tc_root (node_upd i f c) = tc_root c" "tc_leaves (node_upd i f c) = tc_leaves c"
  "tc_next (node_upd i f c) = tc_next c" "tc_addr (node_upd i f c) = tc_addr c"
  "tc_clock (node_upd i f c) = tc_clock c" "tc_lists (node_upd i f c) = tc_lists c"
  "tc_reads (node_upd i f c) = tc_reads c"
  by (simp_all add: node_upd_def)

lemma ref_frame [simp]:
  "tc_page_pool (ref_increment i c) = tc_page_pool c" "tc_page_pool (ref_decrement i c) = tc_page_pool c"
  "tc_tokens_per_page (ref_increment i c) = tc_tokens_per_page c"
  "tc_tokens_per_page (ref_decrement i c) = tc_tokens_per_page c"
  "tc_root (ref_increment i c) = tc_root c" "tc_root (ref_decrement i c) = tc_root c"
  "tc_leaves (ref_increment i c) = tc_leaves c" "tc_leaves (ref_decrement i c) = tc_leaves c"
  "tc_next (ref_increment i c) = tc_next c" "tc_next (ref_decrement i c) = tc_next c"
  "tc_addr (ref_increment i c) = tc_addr c" "tc_addr (ref_decrement i c) = tc_addr c"
  "tc_lists (ref_increment i c) = tc_lists c" "tc_lists (ref_decrement i c) = tc_lists c"
  "tc_clock (ref_increment i c) = tc_clock c" "tc_clock (ref_decrement i c) = tc_clock c"
  "tc_reads (ref_increment i c) = tc_reads c" "tc_reads (ref_decrement i c) = tc_reads c"
  by (simp_all add: ref_increment_def ref_decrement_def)

lemma ref_nodes [simp]:
  "tc_nodes (ref_increment i c) = (tc_nodes c)(i :=
     (tc_nodes c i)\<lparr>tn_ref_count := increment (tn_ref_count (tc_nodes c i))\<rparr>)"
  "tc_nodes (ref_decrement i c) = (tc_nodes c)(i :=
     (tc_nodes c i)\<lparr>tn_ref_count := decrement (tn_ref_count (tc_nodes c i))\<rparr>)"
  by (simp_all add: ref_increment_def ref_decrement_def)

lemma rc_simps [simp]:
  "rc_count (increment r) = rc_count r + 1" "rc_count (decrement r) = rc_count r - 1"
  "rc_count rc_new = 0"
  by (simp_all add: increment_def decrement_def rc_new_def)

lemma leaves_add_simps [simp]:
  "set (tc_leaves (leaves_add i c)) = insert i (set (tc_leaves c))"
  "tc_nodes (leaves_add i c) = tc_nodes c" "tc_page_pool (leaves_add i c) = tc_page_pool c"
  "tc_root (leaves_add i c) = tc_root c" "tc_next (leaves_add i c) = tc_next c"
  "tc_tokens_per_page (leaves_add i c) = tc_tokens_per_page c"
  "tc_addr (leaves_add i c) = tc_addr c" "tc_lists (leaves_add i c) = tc_lists c"
  "distinct (tc_leaves (leaves_add i c)) = distinct (tc_leaves c)"
  by (simp_all add: leaves_add_def)

lemma create_child_eq:
  "create_child self tokens page c =
     (tc_next c,
      c\<lparr>tc_reads := Suc (tc_reads c), tc_next := Suc (tc_next c),
        tc_nodes :=
          (let m = (tc_nodes c)(tc_next c :=
               \<lparr>tn_tokens = tokens, tn_page = page, tn_children = [], tn_parent = Some self,
                tn_ref_count = rc_new, tn_access_time = tc_clock c (tc_reads c)\<rparr>)
           in m(self := (m self)\<lparr>tn_children :=
                 AList.update tokens (tc_next c) (tn_children (m self))\<rparr>))\<rparr>)"
  by (simp add: create_child_def new_trie_node_def monotonic_def node_upd_def Let_def)

end
