(* ===== verification/Trie_Cache.thy ===== *)
theory Trie_Cache
  imports Trie_Store
begin

section \<open>The operations of the trie cache and its allocations\<close>

text \<open>
  Model of \<open>TriePagedAttentionCache\<close> (\<open>_match\<close>, \<open>acquire_pages_for_tokens\<close>, \<open>_evict_pages\<close>)
  and \<open>TriePagedAttentionCacheAllocation\<close> (\<open>publish_pages_for_tokens\<close>, \<open>release_pages\<close>,
  \<open>extend_allocation\<close>). The mutations an operation makes before it raises are in the state it
  returns beside the error.
\<close>

subsection \<open>Matching\<close>

text \<open>The loop of \<open>_match\<close> over the blocks of the token tuple, with its \<open>break\<close>.\<close>

fun match_loop :: "nat \<Rightarrow> int list list \<Rightarrow> nat list \<Rightarrow> 'c trie_cache \<Rightarrow>
    (nat \<times> nat list) \<times> 'c trie_cache" where
  "match_loop cur [] matched c = ((cur, matched), c)"
| "match_loop cur (token_block # bs) matched c =
     (case map_of (tn_children (tc_nodes c cur)) token_block of
        None \<Rightarrow> ((cur, matched), c)
      | Some nxt \<Rightarrow>
          (let (now, c1) = monotonic c;
               c2 = node_upd nxt (\<lambda>n. n\<lparr>tn_access_time := now\<rparr>) c1
           in match_loop nxt bs (matched @ [tn_page (tc_nodes c2 nxt)]) c2))"

definition trie_match :: "int list \<Rightarrow> 'c trie_cache \<Rightarrow> (nat \<times> nat list) \<times> 'c trie_cache" where
  "trie_match tokens c =
     match_loop (tc_root c) (blocks_from 0 (tc_tokens_per_page c) tokens) [] c"

subsection \<open>Eviction\<close>

text \<open>
  The heap holds pairs of access time and node; pairs of equal time are ordered by address. The
  loop \<open>while unused_leaf_heap and len(pages_to_evict) < max_pages\<close> runs on the number of pages
  still to evict. A node without a parent is only reached when the tree is damaged:
  \<open>parent.children\<close> is then an attribute of \<open>None\<close>.
\<close>

definition heap_key :: "'c trie_cache \<Rightarrow> nat \<times> nat \<Rightarrow> nat \<times> nat" where
  "heap_key c = (\<lambda>(t, i). (t, tc_addr c i))"

fun evict_loop :: "nat \<Rightarrow> (nat \<times> nat) list \<Rightarrow> nat list \<Rightarrow> 'c trie_cache \<Rightarrow>
    nat list res \<times> 'c trie_cache" where
  "evict_loop 0 hp pages_to_evict c = (Inr pages_to_evict, c)"
| "evict_loop (Suc n) hp pages_to_evict c =
     (if hp = [] then (Inr pages_to_evict, c)
      else
       (let ((_, leaf), hp1) = heappop (heap_key c) hp;
            pages1 = pages_to_evict @ [tn_page (tc_nodes c leaf)];
            parent = tn_parent (tc_nodes c leaf)
        in case unlink leaf c of
             (Inl e, c1) \<Rightarrow> (Inl e, c1)
           | (Inr _, c1) \<Rightarrow>
              (case leaves_remove leaf c1 of
                 (Inl e, c2) \<Rightarrow> (Inl e, c2)
               | (Inr _, c2) \<Rightarrow>
                  (if parent = Some (tc_root c2) then evict_loop n hp1 pages1 c2
                   else case parent of
                     None \<Rightarrow> (Inl AttributeError, c2)
                   | Some p \<Rightarrow>
                      (if tn_children (tc_nodes c2 p) = [] then
                        (let c3 = leaves_add p c2;
                             hp2 = (if rc_is_empty (tn_ref_count (tc_nodes c3 p))
                                    then heappush (tn_access_time (tc_nodes c3 p), p) hp1 else hp1)
                         in evict_loop n hp2 pages1 c3)
                       else evict_loop n hp1 pages1 c2)))))"

definition unused_leaves :: "'c trie_cache \<Rightarrow> (nat \<times> nat) list" where
  "unused_leaves c =
     [(tn_access_time (tc_nodes c leaf), leaf).
        leaf \<leftarrow> tc_leaves c, rc_is_empty (tn_ref_count (tc_nodes c leaf))]"

definition evict_pages :: "int \<Rightarrow> 'c trie_cache \<Rightarrow> nat res \<times> 'c trie_cache" where
  "evict_pages max_pages c =
     (case evict_loop (nat max_pages) (heapify (unused_leaves c)) [] c of
        (Inl e, c1) \<Rightarrow> (Inl e, c1)
      | (Inr pages_to_evict, c1) \<Rightarrow>
          (Inr (length pages_to_evict),
           if pages_to_evict \<noteq> []
           then c1\<lparr>tc_page_pool := free_pages (tc_page_pool c1) pages_to_evict\<rparr> else c1))"

subsection \<open>Acquiring pages, with one retry after eviction\<close>

definition pool_acquire :: "int \<Rightarrow> 'c trie_cache \<Rightarrow> nat list option \<times> 'c trie_cache" where
  "pool_acquire n c =
     (let (r, p) = acquire_free_pages (tc_page_pool c) n in (r, c\<lparr>tc_page_pool := p\<rparr>))"

definition acquire_or_evict :: "int \<Rightarrow> 'c trie_cache \<Rightarrow> nat list res \<times> 'c trie_cache" where
  "acquire_or_evict n c =
     (case pool_acquire n c of
        (Some new_pages, c1) \<Rightarrow> (Inr new_pages, c1)
      | (None, c1) \<Rightarrow>
          (case evict_pages (n - int (length (pp_available_pages (tc_page_pool c1)))) c1 of
             (Inl e, c2) \<Rightarrow> (Inl e, c2)
           | (Inr _, c2) \<Rightarrow>
               (case pool_acquire n c2 of
                  (None, c3) \<Rightarrow> (Inl CacheAllocationFailure, c3)
                | (Some new_pages, c3) \<Rightarrow> (Inr new_pages, c3))))"

definition new_trie_allocation :: "int list \<Rightarrow> nat \<Rightarrow> nat list \<Rightarrow> nat list \<Rightarrow> trie_allocation" where
  "new_trie_allocation tokens last_cached_node cached_pages newly_acquired_pages =
     \<lparr>ta_tokens = Tup tokens, ta_last_cached_node = last_cached_node,
      ta_pages = cached_pages @ newly_acquired_pages,
      ta_number_of_published_pages = length cached_pages, ta_is_released = False\<rparr>"

definition trie_acquire_pages_for_tokens ::
  "py_tokens \<Rightarrow> int \<Rightarrow> 'c trie_cache \<Rightarrow> trie_allocation res \<times> 'c trie_cache" where
  "trie_acquire_pages_for_tokens toks extra_token_slots c =
     (let tokens = tokens_val c toks;
          ((cur_node, matched_pages), c1) = trie_match tokens c;
          c2 = ref_increment cur_node c1;
          n_cached_tokens = int (length matched_pages) * int (tc_tokens_per_page c2);
          remaining_length = int (length tokens) - n_cached_tokens + extra_token_slots;
          n_empty_pages = ceil_div remaining_length (int (tc_tokens_per_page c2))
      in case acquire_or_evict n_empty_pages c2 of
           (Inl e, c3) \<Rightarrow> (Inl e, c3)
         | (Inr new_pages, c3) \<Rightarrow>
             (Inr (new_trie_allocation tokens cur_node matched_pages new_pages), c3))"

subsection \<open>Publishing\<close>

definition has_common_prefix :: "int list \<Rightarrow> int list \<Rightarrow> bool" where
  "has_common_prefix tokens1 tokens2 = list_all (\<lambda>(t1, t2). t1 = t2) (zip tokens1 tokens2)"

fun publish_loop :: "nat \<Rightarrow> (int list \<times> nat) list \<Rightarrow> 'c trie_cache \<Rightarrow> nat \<times> 'c trie_cache" where
  "publish_loop cur_node [] c = (cur_node, c)"
| "publish_loop cur_node ((token_block, page) # rest) c =
     (let (new_node, c1) = create_child cur_node token_block page c
      in publish_loop new_node rest c1)"

definition trie_publish_pages_for_tokens ::
  "trie_allocation \<Rightarrow> py_tokens \<Rightarrow> bool \<Rightarrow> 'c trie_cache \<Rightarrow>
   unit res \<times> trie_allocation \<times> 'c trie_cache" where
  "trie_publish_pages_for_tokens a toks publish_incomplete_page c =
     (if \<not> has_common_prefix (tokens_val c (ta_tokens a)) (tokens_val c toks)
      then (Inl ValueError, a, c)
      else
       (let a1 = (if length (tokens_val c toks) > length (tokens_val c (ta_tokens a))
                  then a\<lparr>ta_tokens := toks\<rparr> else a);
            tpp = tc_tokens_per_page c;
            number_of_pages_to_publish =
              (if publish_incomplete_page
               then nat (- (int (length (tokens_val c toks)) div (- int tpp)))
               else length (tokens_val c toks) div tpp);
            start_token_index = ta_number_of_published_pages a1 * tpp;
            unpublished_tokens = blocks_from start_token_index tpp (tokens_val c (ta_tokens a1));
            unpublished_pages =
              py_slice (ta_pages a1) (ta_number_of_published_pages a1) number_of_pages_to_publish
        in if publish_incomplete_page then (Inl NotImplementedError, a1, c)
           else
            (let (cur_node, c1) =
                   publish_loop (ta_last_cached_node a1) (zip unpublished_tokens unpublished_pages) c;
                 c2 = (if cur_node \<noteq> tc_root c1 then leaves_add cur_node c1 else c1);
                 (a2, c3) =
                   (if unpublished_tokens \<noteq> [] then
                      (a1\<lparr>ta_last_cached_node := cur_node\<rparr>,
                       ref_decrement (ta_last_cached_node a1) (ref_increment cur_node c2))
                    else (a1, c2))
             in (Inr (), a2\<lparr>ta_number_of_published_pages := number_of_pages_to_publish\<rparr>, c3))))"

subsection \<open>Releasing and extending\<close>

definition trie_release_pages ::
  "trie_allocation \<Rightarrow> 'c trie_cache \<Rightarrow> unit res \<times> trie_allocation \<times> 'c trie_cache" where
  "trie_release_pages a c =
     (if ta_is_released a then (Inr (), a, c)
      else (Inr (), a\<lparr>ta_is_released := True\<rparr>, ref_decrement (ta_last_cached_node a) c))"

definition trie_extend_allocation ::
  "trie_allocation \<Rightarrow> py_tokens \<Rightarrow> int \<Rightarrow> 'c trie_cache \<Rightarrow>
   unit res \<times> trie_allocation \<times> 'c trie_cache" where
  "trie_extend_allocation a toks extra_token_slots c =
     (let tokens = tokens_val c toks; old = tokens_val c (ta_tokens a) in
      if length tokens < length old then (Inl ValueError, a, c)
      else if \<not> has_common_prefix old tokens then (Inl ValueError, a, c)
      else if length tokens = length old then (Inr (), a, c)
      else
       (let current_pages = int (length (ta_pages a));
            total_tokens = int (length tokens) + extra_token_slots;
            total_pages_needed = ceil_div total_tokens (int (tc_tokens_per_page c));
            new_pages_needed = total_pages_needed - current_pages
        in if new_pages_needed \<le> 0 then (Inr (), a\<lparr>ta_tokens := toks\<rparr>, c)
           else case acquire_or_evict new_pages_needed c of
                  (Inl e, c1) \<Rightarrow> (Inl e, a, c1)
                | (Inr new_pages, c1) \<Rightarrow>
                    (Inr (), a\<lparr>ta_pages := ta_pages a @ new_pages, ta_tokens := toks\<rparr>, c1)))"

end
