(* ===== verification/Trie_Wf.thy ===== *)
theory Trie_Wf
  imports Trie_Cache
begin

section \<open>Well-formed tries\<close>

text \<open>
  \<open>trie_links\<close> is what every operation keeps, whatever the clients do: a node reached through a
  \<open>children\<close> dictionary is a younger node that carries the key it is filed under and whose parent
  is the dictionary's owner. \<open>trie_tree\<close> adds the converse (a node with a parent is filed in that
  parent, and the parent is itself linked) and that \<open>leaves\<close> holds exactly the linked nodes
  without children. It is the condition under which eviction works as meant; matching,
  acquiring, extending, releasing and evicting keep it, publishing keeps it under the condition
  stated in the theory \<open>Trie_Safety\<close>.
\<close>

abbreviation kids :: "'c trie_cache \<Rightarrow> nat \<Rightarrow> (int list \<times> nat) list" where
  "kids c i \<equiv> tn_children (tc_nodes c i)"
abbreviation par :: "'c trie_cache \<Rightarrow> nat \<Rightarrow> nat option" where
  "par c i \<equiv> tn_parent (tc_nodes c i)"
abbreviation toks :: "'c trie_cache \<Rightarrow> nat \<Rightarrow> int list" where
  "toks c i \<equiv> tn_tokens (tc_nodes c i)"
abbreviation pg :: "'c trie_cache \<Rightarrow> nat \<Rightarrow> nat" where
  "pg c i \<equiv> tn_page (tc_nodes c i)"
abbreviation refs :: "'c trie_cache \<Rightarrow> nat \<Rightarrow> int" where
  "refs c i \<equiv> rc_count (tn_ref_count (tc_nodes c i))"
abbreviation tavail :: "'c trie_cache \<Rightarrow> nat list" where
  "tavail c \<equiv> pp_available_pages (tc_page_pool c)"

definition node_links :: "'c trie_cache \<Rightarrow> nat \<Rightarrow> bool" where
  "node_links c i \<longleftrightarrow> distinct (map fst (kids c i)) \<and>
     (\<forall>(k, ch) \<in> set (kids c i). i < ch \<and> ch < tc_next c \<and> toks c ch = k \<and> par c ch = Some i)"

definition trie_links :: "'c trie_cache \<Rightarrow> bool" where
  "trie_links c \<longleftrightarrow> tc_root c < tc_next c \<and> par c (tc_root c) = None \<and> 0 < tc_tokens_per_page c \<and>
     (\<forall>i < tc_next c. node_links c i)"

definition node_filed :: "'c trie_cache \<Rightarrow> nat \<Rightarrow> bool" where
  "node_filed c i = (case par c i of None \<Rightarrow> True
     | Some p \<Rightarrow> p < tc_next c \<and> (p = tc_root c \<or> par c p \<noteq> None) \<and>
         map_of (kids c p) (toks c i) = Some i)"

definition is_leaf_node :: "'c trie_cache \<Rightarrow> nat \<Rightarrow> bool" where
  "is_leaf_node c i \<longleftrightarrow> i < tc_next c \<and> par c i \<noteq> None \<and> kids c i = []"

definition trie_tree :: "'c trie_cache \<Rightarrow> bool" where
  "trie_tree c \<longleftrightarrow> trie_links c \<and> (\<forall>i < tc_next c. node_filed c i) \<and>
     distinct (tc_leaves c) \<and> set (tc_leaves c) = {i. is_leaf_node c i}"

definition linked :: "'c trie_cache \<Rightarrow> nat \<Rightarrow> bool" where
  "linked c i \<longleftrightarrow> i < tc_next c \<and> (i = tc_root c \<or> par c i \<noteq> None)"

lemma trie_tree_links [inv_intros]: "trie_tree c \<Longrightarrow> trie_links c"
  by (simp add: trie_tree_def)

lemma trie_links_child:
  assumes "trie_links c" and "i < tc_next c" and "map_of (kids c i) k = Some ch"
  shows "i < ch" and "ch < tc_next c" and "toks c ch = k" and "par c ch = Some i"
  using assms map_of_SomeD [OF assms(3)] by (auto simp: trie_links_def node_links_def)

lemma trie_tree_parent:
  assumes "trie_tree c" and "i < tc_next c" and "par c i = Some p"
  shows "p < i" and "p < tc_next c" and "linked c p" and "map_of (kids c p) (toks c i) = Some i"
proof -
  have f: "node_filed c i" using assms by (auto simp: trie_tree_def)
  then show m: "map_of (kids c p) (toks c i) = Some i" and p: "p < tc_next c" and "linked c p"
    using assms(3) by (auto simp: node_filed_def linked_def)
  show "p < i" using trie_links_child(1) [OF trie_tree_links [OF assms(1)] p m] .
qed

lemma trie_tree_leaf: "trie_tree c \<Longrightarrow> i \<in> set (tc_leaves c) \<longleftrightarrow> is_leaf_node c i"
  by (simp add: trie_tree_def)

subsection \<open>States that differ in counts, times and pool only\<close>

definition same_links :: "'c trie_cache \<Rightarrow> 'c trie_cache \<Rightarrow> bool" where
  "same_links c c' \<longleftrightarrow> tc_root c' = tc_root c \<and> tc_next c' = tc_next c \<and>
     tc_leaves c' = tc_leaves c \<and> tc_tokens_per_page c' = tc_tokens_per_page c \<and>
     tc_addr c' = tc_addr c \<and> tc_lists c' = tc_lists c \<and>
     (\<forall>i. kids c' i = kids c i \<and> par c' i = par c i \<and> toks c' i = toks c i \<and> pg c' i = pg c i)"

lemma same_links_refl [simp]: "same_links c c"
  by (simp add: same_links_def)

lemma same_links_trans: "same_links a b \<Longrightarrow> same_links b c \<Longrightarrow> same_links a c"
  by (simp add: same_links_def)

lemma same_linksD:
  assumes "same_links c c'"
  shows "tc_root c' = tc_root c" "tc_next c' = tc_next c" "tc_leaves c' = tc_leaves c"
    "tc_tokens_per_page c' = tc_tokens_per_page c" "tc_addr c' = tc_addr c"
    "tc_lists c' = tc_lists c" "kids c' i = kids c i" "par c' i = par c i" "toks c' i = toks c i"
    "pg c' i = pg c i"
  using assms by (auto simp: same_links_def)

lemma same_links_preds:
  assumes "same_links c c'"
  shows "trie_links c' = trie_links c" and "trie_tree c' = trie_tree c" and "linked c' i = linked c i"
    and "is_leaf_node c' i = is_leaf_node c i" and "tokens_val c' t = tokens_val c t"
proof -
  note d [simp] = same_linksD [OF assms]
  show l: "trie_links c' = trie_links c" by (simp add: trie_links_def node_links_def)
  have lf: "is_leaf_node c' = is_leaf_node c" by (simp add: fun_eq_iff is_leaf_node_def)
  have "node_filed c' = node_filed c"
    by (simp add: fun_eq_iff node_filed_def cong: option.case_cong)
  then show "trie_tree c' = trie_tree c" unfolding trie_tree_def l lf by simp
  show "linked c' i = linked c i" by (simp add: linked_def)
  show "is_leaf_node c' i = is_leaf_node c i" by (simp add: lf)
  show "tokens_val c' t = tokens_val c t" by (cases t) simp_all
qed

lemma same_links_ref [simp]: "same_links c (ref_increment i c)" "same_links c (ref_decrement i c)"
  by (simp_all add: same_links_def)

lemma same_links_pool [simp]: "same_links c (c\<lparr>tc_page_pool := p\<rparr>)"
  by (simp add: same_links_def)

subsection \<open>Matching is a walk down the children\<close>

fun walk :: "'c trie_cache \<Rightarrow> nat \<Rightarrow> int list list \<Rightarrow> nat list" where
  "walk c cur [] = []"
| "walk c cur (b # bs) =
     (case map_of (kids c cur) b of None \<Rightarrow> [] | Some n \<Rightarrow> n # walk c n bs)"

fun follow :: "'c trie_cache \<Rightarrow> nat \<Rightarrow> int list list \<Rightarrow> nat option" where
  "follow c cur [] = Some cur"
| "follow c cur (k # ks) =
     (case map_of (kids c cur) k of None \<Rightarrow> None | Some n \<Rightarrow> follow c n ks)"

lemma walk_same_links: "same_links c c' \<Longrightarrow> walk c' cur bs = walk c cur bs"
  by (induction bs arbitrary: cur) (auto simp: same_linksD split: option.splits)

definition touched :: "'c trie_cache \<Rightarrow> nat set \<Rightarrow> 'c trie_cache \<Rightarrow> bool" where
  "touched c ns c' \<longleftrightarrow> same_links c c' \<and> tc_page_pool c' = tc_page_pool c \<and> tc_clock c' = tc_clock c \<and>
     (\<forall>i. tn_ref_count (tc_nodes c' i) = tn_ref_count (tc_nodes c i)) \<and>
     (\<forall>i. i \<notin> ns \<longrightarrow> tc_nodes c' i = tc_nodes c i)"

lemma match_loop_walk:
  "match_loop cur bs m c = (r, c') \<Longrightarrow>
   r = (last (cur # walk c cur bs), m @ map (pg c) (walk c cur bs)) \<and>
   touched c (set (walk c cur bs)) c' \<and> tc_reads c' = tc_reads c + length (walk c cur bs)"
proof (induction bs arbitrary: cur m c)
  case Nil
  then show ?case by (simp add: touched_def)
next
  case (Cons b bs)
  show ?case
  proof (cases "map_of (kids c cur) b")
    case None
    with Cons.prems show ?thesis by (simp add: touched_def)
  next
    case (Some n)
    let ?c2 = "node_upd n (\<lambda>x. x\<lparr>tn_access_time := tc_clock c (tc_reads c)\<rparr>)
                 (c\<lparr>tc_reads := Suc (tc_reads c)\<rparr>)"
    have sl: "same_links c ?c2" by (simp add: same_links_def)
    have t2: "touched c {n} ?c2" unfolding touched_def using sl by simp
    from Cons.prems Some have "match_loop n bs (m @ [pg ?c2 n]) ?c2 = (r, c')"
      by (simp add: monotonic_def)
    from Cons.IH [OF this] have
      r: "r = (last (n # walk ?c2 n bs), (m @ [pg ?c2 n]) @ map (pg ?c2) (walk ?c2 n bs))"
      and t: "touched ?c2 (set (walk ?c2 n bs)) c'"
      and rd: "tc_reads c' = tc_reads ?c2 + length (walk ?c2 n bs)" by auto
    have w: "walk ?c2 n bs = walk c n bs" by (rule walk_same_links [OF sl])
    have p: "pg ?c2 i = pg c i" for i using same_linksD(10) [OF sl] .
    have "touched c (insert n (set (walk c n bs))) c'"
      using t2 t same_links_trans unfolding touched_def w by auto
    then show ?thesis using Some r rd unfolding w p by simp
  qed
qed

lemma walk_follow:
  "follow c cur (take (length (walk c cur bs)) bs) = Some (last (cur # walk c cur bs))"
  by (induction bs arbitrary: cur) (auto split: option.splits)

lemma length_walk: "length (walk c cur bs) \<le> length bs"
  by (induction bs arbitrary: cur) (auto split: option.splits)

lemma walk_longest:
  "k \<le> length bs \<Longrightarrow> follow c cur (take k bs) \<noteq> None \<Longrightarrow> k \<le> length (walk c cur bs)"
proof (induction bs arbitrary: cur k)
  case (Cons b bs)
  then show ?case by (cases k) (auto split: option.splits)
qed simp

lemma walk_cons_Some: "map_of (kids c cur) b = Some n \<Longrightarrow> walk c cur (b # bs) = n # walk c n bs"
  by simp

lemma walk_lt:
  assumes l: "trie_links c"
  shows "cur < tc_next c \<Longrightarrow> n \<in> set (walk c cur bs) \<Longrightarrow> n < tc_next c \<and> par c n \<noteq> None"
proof (induction bs arbitrary: cur)
  case (Cons b bs)
  show ?case
  proof (cases "map_of (kids c cur) b")
    case (Some m)
    from trie_links_child [OF l Cons.prems(1) Some]
    have m: "m < tc_next c" "par c m \<noteq> None" by auto
    from Cons.prems(2) Some have "n = m \<or> n \<in> set (walk c m bs)" by simp
    then show ?thesis using m Cons.IH [OF m(1)] by blast
  qed (use Cons.prems in simp)
qed simp

lemma walk_tokens:
  assumes l: "trie_links c"
  shows "cur < tc_next c \<Longrightarrow> map (toks c) (walk c cur bs) = take (length (walk c cur bs)) bs"
proof (induction bs arbitrary: cur)
  case (Cons b bs)
  show ?case
  proof (cases "map_of (kids c cur) b")
    case (Some m)
    from trie_links_child [OF l Cons.prems Some] have m: "m < tc_next c" "toks c m = b" by auto
    from Cons.IH [OF m(1)] m(2) Some show ?thesis by simp
  qed simp
qed simp

text \<open>The nodes from below the root to a node, by its chain of parents.\<close>

function node_path :: "'c trie_cache \<Rightarrow> nat \<Rightarrow> nat list" where
  "node_path c n = (case par c n of None \<Rightarrow> []
     | Some p \<Rightarrow> if p < n then node_path c p @ [n] else [])"
  by pat_completeness auto
termination
  by (relation "measure (\<lambda>(c, n). n)") auto

declare node_path.simps [simp del]

lemma node_path_child:
  assumes "trie_links c" and "p < tc_next c" and "map_of (kids c p) k = Some n"
  shows "node_path c n = node_path c p @ [n]"
  using trie_links_child [OF assms] by (subst node_path.simps) simp

lemma node_path_walk:
  assumes "trie_links c"
  shows "cur < tc_next c \<Longrightarrow> node_path c (last (cur # walk c cur bs)) = node_path c cur @ walk c cur bs"
proof (induction bs arbitrary: cur)
  case (Cons b bs)
  show ?case
  proof (cases "map_of (kids c cur) b")
    case (Some n)
    with Cons.prems trie_links_child [OF assms] have "n < tc_next c" by blast
    from Cons.IH [OF this] Some node_path_child [OF assms Cons.prems Some] show ?thesis by simp
  qed simp
qed simp

lemma node_path_root: "trie_links c \<Longrightarrow> node_path c (tc_root c) = []"
  by (subst node_path.simps) (simp add: trie_links_def)

lemma node_path_parent:
  assumes "trie_tree c" and "n < tc_next c" and "par c n = Some p"
  shows "node_path c n = node_path c p @ [n]"
  using trie_tree_parent [OF assms] assms(3) by (subst node_path.simps) simp

lemma node_path_same:
  assumes t: "trie_tree c" and r: "par c' (tc_root c) = None"
  shows "linked c n \<Longrightarrow> (\<And>i. i \<in> set (node_path c n) \<Longrightarrow> par c' i = par c i) \<Longrightarrow>
    node_path c' n = node_path c n"
proof (induction n rule: less_induct)
  case (less n)
  show ?case
  proof (cases "par c n")
    case None
    with less.prems(1) have "n = tc_root c" by (simp add: linked_def)
    with None r show ?thesis by (simp add: node_path.simps)
  next
    case (Some p)
    from less.prems(1) have n: "n < tc_next c" by (simp add: linked_def)
    note p = trie_tree_parent [OF t n Some] and np = node_path_parent [OF t n Some]
    have "node_path c' p = node_path c p"
      by (rule less.IH [OF p(1) p(3)]) (simp add: less.prems(2) np)
    moreover have "par c' n = Some p" using less.prems(2) [of n] Some np by simp
    ultimately show ?thesis using np p(1) by (subst node_path.simps) simp
  qed
qed

lemma node_path_linked:
  assumes t: "trie_tree c"
  shows "linked c n \<Longrightarrow> i \<in> set (node_path c n) \<Longrightarrow> linked c i \<and> i \<noteq> tc_root c \<and> i \<le> n \<and>
    (i \<noteq> n \<longrightarrow> kids c i \<noteq> [])"
proof (induction n rule: less_induct)
  case (less n)
  from less.prems(1) have n: "n < tc_next c" by (simp add: linked_def)
  show ?case
  proof (cases "par c n")
    case None
    with less.prems show ?thesis by (simp add: node_path.simps)
  next
    case (Some p)
    note p = trie_tree_parent [OF t n Some] and np = node_path_parent [OF t n Some]
    have root: "par c (tc_root c) = None" using t by (simp add: trie_tree_def trie_links_def)
    show ?thesis
    proof (cases "i = n")
      case True
      with less.prems(1) Some root show ?thesis by auto
    next
      case False
      with less.prems(2) np have i: "i \<in> set (node_path c p)" by simp
      have "kids c p \<noteq> []" using p(4) by auto
      with less.IH [OF p(1) p(3) i] p(1) show ?thesis by auto
    qed
  qed
qed

end
