(* ===== verification/Trie_Evict.thy ===== *)
theory Trie_Evict
  imports Trie_Wf
begin

section \<open>Eviction on a well-formed trie\<close>

text \<open>
  On a well-formed trie \<open>evict_loop\<close> raises nothing: every iteration takes one unreferenced leaf
  out of the tree (\<open>detach\<close>) and keeps the trie well-formed. \<open>evicted\<close> relates the states before
  and after a run and names its victims; the theory ends with what \<open>evict_pages\<close> and
  \<open>acquire_or_evict\<close> do to the trie and to the page pool.
\<close>

definition detach :: "nat \<Rightarrow> nat \<Rightarrow> 'c trie_cache \<Rightarrow> 'c trie_cache" where
  "detach i p c =
     (let c1 = node_upd i (\<lambda>n. n\<lparr>tn_parent := None\<rparr>)
                 (node_upd p (\<lambda>n. n\<lparr>tn_children := AList.delete (toks c i) (tn_children n)\<rparr>) c);
          c2 = c1\<lparr>tc_leaves := removeAll i (tc_leaves c1)\<rparr>
      in if p \<noteq> tc_root c \<and> kids c2 p = [] then leaves_add p c2 else c2)"

lemma detach_frame [simp]:
  "tc_page_pool (detach i p c) = tc_page_pool c" "tc_root (detach i p c) = tc_root c"
  "tc_next (detach i p c) = tc_next c" "tc_addr (detach i p c) = tc_addr c"
  "tc_lists (detach i p c) = tc_lists c" "tc_tokens_per_page (detach i p c) = tc_tokens_per_page c"
  "toks (detach i p c) j = toks c j" "pg (detach i p c) j = pg c j"
  "tn_ref_count (tc_nodes (detach i p c) j) = tn_ref_count (tc_nodes c j)"
  "tn_access_time (tc_nodes (detach i p c) j) = tn_access_time (tc_nodes c j)"
  "par (detach i p c) j = (if j = i then None else par c j)"
  "heap_key (detach i p c) = heap_key c"
  by (simp_all add: detach_def Let_def leaves_add_def heap_key_def)

lemma detach_kids:
  "i \<noteq> p \<Longrightarrow> kids (detach i p c) j = (if j = p then AList.delete (toks c i) (kids c p) else kids c j)"
  by (simp add: detach_def Let_def leaves_add_def)

lemma detach_leaves:
  "i \<noteq> p \<Longrightarrow> set (tc_leaves (detach i p c)) = set (tc_leaves c) - {i} \<union>
     (if p \<noteq> tc_root c \<and> kids (detach i p c) p = [] then {p} else {})"
  "distinct (tc_leaves c) \<Longrightarrow> distinct (tc_leaves (detach i p c))"
  by (auto simp: detach_def Let_def leaves_add_def distinct_removeAll)

lemma detach_links:
  assumes t: "trie_tree c" and i: "is_leaf_node c i" and p: "par c i = Some p"
  shows "trie_links (detach i p c)"
proof -
  let ?d = "detach i p c"
  from i have i': "i < tc_next c" by (simp add: is_leaf_node_def)
  note pf = trie_tree_parent [OF t i' p]
  have l: "trie_links c" using t by (rule trie_tree_links)
  from pf(1) have ne: "i \<noteq> p" by simp
  have "node_links ?d j" if j: "j < tc_next c" for j
    unfolding node_links_def
  proof (intro conjI ballI)
    have nj: "node_links c j" using l j by (simp add: trie_links_def)
    show "distinct (map fst (kids ?d j))"
      using nj ne by (auto simp: detach_kids node_links_def intro: AList.distinct_delete)
    fix x assume x: "x \<in> set (kids ?d j)"
    then have xc: "x \<in> set (kids c j)" and xk: "j = p \<Longrightarrow> fst x \<noteq> toks c i"
      using ne by (auto simp: detach_kids AList.delete_eq split: if_splits)
    obtain k ch where kx: "x = (k, ch)" by (cases x)
    with nj xc have ch: "j < ch" "ch < tc_next c" "toks c ch = k" "par c ch = Some j"
      by (auto simp: node_links_def)
    have "ch \<noteq> i" using ch(3,4) xk p kx by auto
    with ch kx show "case x of (k, ch) \<Rightarrow>
        j < ch \<and> ch < tc_next ?d \<and> toks ?d ch = k \<and> par ?d ch = Some j" by simp
  qed
  with l show ?thesis by (simp add: trie_links_def)
qed

lemma detach_tree [inv_intros]:
  assumes t: "trie_tree c" and i: "is_leaf_node c i" and p: "par c i = Some p"
  shows "trie_tree (detach i p c)"
proof -
  let ?d = "detach i p c"
  from i have i': "i < tc_next c" and ik: "kids c i = []" by (auto simp: is_leaf_node_def)
  note pf = trie_tree_parent [OF t i' p]
  from pf(1) have ne: "i \<noteq> p" by simp
  have dist: "distinct (tc_leaves ?d)" using t by (simp add: trie_tree_def detach_leaves(2))
  have filed: "node_filed ?d j" if j: "j < tc_next c" for j
  proof (cases "par ?d j")
    case (Some q)
    then have ji: "j \<noteq> i" and q: "par c j = Some q" by (auto split: if_splits)
    note qf = trie_tree_parent [OF t j q]
    have qi: "q \<noteq> i" using qf(4) ik by auto
    have "map_of (kids ?d q) (toks c j) = Some j"
    proof (cases "q = p")
      case True
      with qf(4) pf(4) ji have "toks c j \<noteq> toks c i" by auto
      with True qf(4) ne show ?thesis by (simp add: detach_kids delete_conv')
    next
      case False
      with qf(4) ne show ?thesis by (simp add: detach_kids)
    qed
    with Some qf(2,3) qi show ?thesis by (auto simp: node_filed_def linked_def)
  qed (simp add: node_filed_def)
  have "j \<in> set (tc_leaves ?d) \<longleftrightarrow> is_leaf_node ?d j" for j
  proof (cases "j = p")
    case True
    have "p \<notin> set (tc_leaves c)" using pf(4) trie_tree_leaf [OF t, of p]
      by (auto simp: is_leaf_node_def)
    moreover have "p \<noteq> tc_root c \<longleftrightarrow> par c p \<noteq> None"
      using pf(3) t by (auto simp: linked_def trie_tree_def trie_links_def)
    ultimately show ?thesis using True ne pf(2)
      by (auto simp: detach_leaves(1) is_leaf_node_def)
  next
    case False
    then show ?thesis using ne trie_tree_leaf [OF t, of j]
      by (auto simp: detach_leaves(1) is_leaf_node_def detach_kids)
  qed
  with detach_links [OF assms] filed dist show ?thesis
    by (auto simp: trie_tree_def)
qed

lemma evict_loop_step:
  assumes t: "trie_tree c" and i: "i \<in> set (tc_leaves c)" and p: "par c i = Some p"
    and hp: "hp \<noteq> []" "heappop (heap_key c) hp = ((tm, i), hp1)"
  shows "evict_loop (Suc n) hp acc c =
     evict_loop n (if p \<noteq> tc_root c \<and> kids (detach i p c) p = [] \<and> refs c p \<le> 0
                   then heappush (tn_access_time (tc_nodes c p), p) hp1 else hp1)
       (acc @ [pg c i]) (detach i p c)"
proof -
  from i have i': "i < tc_next c" using trie_tree_leaf [OF t] by (simp add: is_leaf_node_def)
  note pf = trie_tree_parent [OF t i' p]
  from pf(1) have ne: "i \<noteq> p" by simp
  show ?thesis
    using hp p pf(4) i ne
    by (simp add: unlink_def leaves_remove_def detach_def Let_def rc_is_empty_def leaves_add_def)
qed

subsection \<open>What a run of the loop does\<close>

definition evicted :: "'c trie_cache \<Rightarrow> nat list \<Rightarrow> 'c trie_cache \<Rightarrow> bool" where
  "evicted c vs c' \<longleftrightarrow> trie_tree c' \<and> distinct vs \<and>
     (\<forall>v \<in> set vs. linked c v \<and> v \<noteq> tc_root c \<and> refs c v \<le> 0) \<and>
     (\<forall>i. par c' i = (if i \<in> set vs then None else par c i)) \<and>
     (\<forall>i. toks c' i = toks c i \<and> pg c' i = pg c i \<and>
          tn_ref_count (tc_nodes c' i) = tn_ref_count (tc_nodes c i)) \<and>
     tc_root c' = tc_root c \<and> tc_next c' = tc_next c \<and> tc_lists c' = tc_lists c \<and>
     tc_tokens_per_page c' = tc_tokens_per_page c \<and> tc_addr c' = tc_addr c"

definition heap_ok :: "'c trie_cache \<Rightarrow> (nat \<times> nat) list \<Rightarrow> bool" where
  "heap_ok c hp \<longleftrightarrow> distinct (map snd hp) \<and>
     (\<forall>(t, i) \<in> set hp. t = tn_access_time (tc_nodes c i)) \<and>
     snd ` set hp = {i \<in> set (tc_leaves c). refs c i \<le> 0}"

lemma evicted_refl: "trie_tree c \<Longrightarrow> evicted c [] c"
  by (simp add: evicted_def)

lemma evicted_cons:
  assumes t: "trie_tree c" and i: "is_leaf_node c i" "refs c i \<le> 0" and p: "par c i = Some p"
    and e: "evicted (detach i p c) vs c'"
  shows "evicted c (i # vs) c'"
proof -
  have root: "par c (tc_root c) = None" using t by (simp add: trie_tree_def trie_links_def)
  have "linked c i" "i \<noteq> tc_root c" using i p root by (auto simp: linked_def is_leaf_node_def)
  moreover have "i \<notin> set vs" using e by (auto simp: evicted_def linked_def)
  moreover have "linked c v" if "linked (detach i p c) v" for v
    using that by (auto simp: linked_def split: if_splits)
  ultimately show ?thesis using e i(2) by (auto simp: evicted_def)
qed

lemma heap_ok_unused: "trie_tree c \<Longrightarrow> heap_ok c (unused_leaves c)"
proof -
  assume "trie_tree c"
  then have "distinct (tc_leaves c)" by (simp add: trie_tree_def)
  then have "distinct (filter (\<lambda>i. rc_is_empty (tn_ref_count (tc_nodes c i))) (tc_leaves c))" by simp
  moreover have u: "unused_leaves c = map (\<lambda>i. (tn_access_time (tc_nodes c i), i))
      (filter (\<lambda>i. rc_is_empty (tn_ref_count (tc_nodes c i))) (tc_leaves c))"
    unfolding unused_leaves_def by (rule concat_map_if)
  ultimately show ?thesis unfolding heap_ok_def u by (auto simp: rc_is_empty_def o_def image_image)
qed

lemma heap_ok_detach:
  assumes t: "trie_tree c" and ok: "heap_ok c hp" and i: "i \<in> set (tc_leaves c)"
    and p: "par c i = Some p" and hp: "hp \<noteq> []" "heappop (heap_key c) hp = ((tm, i), hp1)"
  shows "heap_ok (detach i p c)
     (if p \<noteq> tc_root c \<and> kids (detach i p c) p = [] \<and> refs c p \<le> 0
      then heappush (tn_access_time (tc_nodes c p), p) hp1 else hp1)"
proof -
  let ?d = "detach i p c"
  from i have il: "is_leaf_node c i" using trie_tree_leaf [OF t] by simp
  then have i': "i < tc_next c" by (simp add: is_leaf_node_def)
  note pf = trie_tree_parent [OF t i' p]
  from pf(1) have ne: "i \<noteq> p" by simp
  have pl: "p \<notin> set (tc_leaves c)" using pf(4) trie_tree_leaf [OF t, of p] by (auto simp: is_leaf_node_def)
  have ms: "mset hp = add_mset (tm, i) (mset hp1)"
    using heap.pop_elems [of hp "heap_key c"] hp by simp
  then have st: "set hp = insert (tm, i) (set hp1)" by (metis set_mset_mset set_mset_add_mset_insert)
  have "mset (map snd hp) = mset (i # map snd hp1)" using ms by simp
  then have d1: "distinct (i # map snd hp1)"
    using ok unfolding heap_ok_def by (metis mset_eq_imp_distinct_iff)
  have "i \<notin> snd ` set hp1" using d1 by simp
  moreover have "snd ` set hp = insert i (snd ` set hp1)" using st by simp
  ultimately have s1: "snd ` set hp1 = {j \<in> set (tc_leaves c). refs c j \<le> 0} - {i}"
    using ok unfolding heap_ok_def by auto
  have a1: "\<forall>(t, j) \<in> set hp1. t = tn_access_time (tc_nodes c j)"
    using ok st unfolding heap_ok_def by simp
  have "p \<notin> snd ` set hp1" using s1 pl by simp
  then show ?thesis using d1 s1 a1 pl ne
    by (auto simp: heap_ok_def detach_leaves(1) heappush_def image_iff)
qed

lemma evict_loop_run:
  "trie_tree c \<Longrightarrow> heap_ok c hp \<Longrightarrow>
   \<exists>vs c'. evict_loop n hp acc c = (Inr (acc @ map (pg c) vs), c') \<and> evicted c vs c' \<and>
     tc_page_pool c' = tc_page_pool c \<and> length vs \<le> n \<and>
     (length vs < n \<longrightarrow> (\<forall>i \<in> set (tc_leaves c'). 0 < refs c' i)) \<and>
     (\<forall>v \<in> set vs. \<forall>y \<in> snd ` set hp - set vs.
        heap_key c (tn_access_time (tc_nodes c v), v) \<le> heap_key c (tn_access_time (tc_nodes c y), y))"
proof (induction n arbitrary: hp acc c)
  case 0
  then show ?case by (auto intro: evicted_refl)
next
  case (Suc n)
  show ?case
  proof (cases "hp = []")
    case True
    with Suc.prems have "\<forall>i \<in> set (tc_leaves c). 0 < refs c i" by (auto simp: heap_ok_def)
    with True Suc.prems show ?thesis by (auto intro!: exI [of _ "[]"] evicted_refl)
  next
    case False
    obtain tm i hp1 where pop: "heappop (heap_key c) hp = ((tm, i), hp1)" by (metis surj_pair)
    have "(tm, i) \<in># mset hp" using heap.pop_in [of hp "heap_key c"] False pop by simp
    then have mem: "(tm, i) \<in> set hp" by simp
    with Suc.prems(2) have i: "i \<in> set (tc_leaves c)" "refs c i \<le> 0"
      and tm: "tm = tn_access_time (tc_nodes c i)" by (force simp: heap_ok_def)+
    have il: "is_leaf_node c i" using i(1) trie_tree_leaf [OF Suc.prems(1)] by simp
    then obtain p where p: "par c i = Some p" by (auto simp: is_leaf_node_def)
    let ?d = "detach i p c"
    let ?hp = "if p \<noteq> tc_root c \<and> kids ?d p = [] \<and> refs c p \<le> 0
      then heappush (tn_access_time (tc_nodes c p), p) hp1 else hp1"
    have step: "evict_loop (Suc n) hp acc c = evict_loop n ?hp (acc @ [pg c i]) ?d"
      by (rule evict_loop_step [OF Suc.prems(1) i(1) p False pop])
    from Suc.IH [OF detach_tree [OF Suc.prems(1) il p]
        heap_ok_detach [OF Suc.prems i(1) p False pop], of "acc @ [pg c i]"]
    obtain vs c' where run: "evict_loop n ?hp (acc @ [pg c i]) ?d
          = (Inr ((acc @ [pg c i]) @ map (pg ?d) vs), c')"
      and ev: "evicted ?d vs c'" and pl: "tc_page_pool c' = tc_page_pool ?d" and len: "length vs \<le> n"
      and fin: "length vs < n \<longrightarrow> (\<forall>i \<in> set (tc_leaves c'). 0 < refs c' i)"
      and lru: "\<forall>v \<in> set vs. \<forall>y \<in> snd ` set ?hp - set vs.
        heap_key ?d (tn_access_time (tc_nodes ?d v), v) \<le> heap_key ?d (tn_access_time (tc_nodes ?d y), y)" by blast
    have ev': "evicted c (i # vs) c'" by (rule evicted_cons [OF Suc.prems(1) il i(2) p ev])
    have st: "set hp = insert (tm, i) (set hp1)"
      using heap.pop_elems [of hp "heap_key c"] False pop
      by (metis mset_zero_iff set_mset_add_mset_insert set_mset_mset)
    have least: "heap_key c (tn_access_time (tc_nodes c i), i) \<le> heap_key c (tn_access_time (tc_nodes c y), y)"
      if "y \<in> snd ` set hp" for y
    proof -
      from that Suc.prems(2) have "(tn_access_time (tc_nodes c y), y) \<in># mset hp"
        by (force simp: heap_ok_def)
      with heap.pop_least [of hp "heap_key c"] False pop tm show ?thesis by simp
    qed
    have sub: "snd ` set hp1 \<subseteq> snd ` set ?hp" by (auto simp: heappush_def)
    have "\<forall>v \<in> set (i # vs). \<forall>y \<in> snd ` set hp - set (i # vs).
        heap_key c (tn_access_time (tc_nodes c v), v) \<le> heap_key c (tn_access_time (tc_nodes c y), y)"
    proof (intro ballI)
      fix v y assume v: "v \<in> set (i # vs)" and y: "y \<in> snd ` set hp - set (i # vs)"
      show "heap_key c (tn_access_time (tc_nodes c v), v) \<le> heap_key c (tn_access_time (tc_nodes c y), y)"
      proof (cases "v = i")
        case True
        with least y show ?thesis by simp
      next
        case False
        from y have yi: "y \<noteq> i" and yv: "y \<notin> set vs" and yh: "y \<in> snd ` set hp" by simp_all
        have "snd ` set hp = insert i (snd ` set hp1)" using st by simp
        with yh yi have "y \<in> snd ` set hp1" by simp
        then have "y \<in> snd ` set ?hp" by (rule subsetD [OF sub])
        then have y': "y \<in> snd ` set ?hp - set vs" using yv by (rule DiffI)
        from False v have "v \<in> set vs" by simp
        from lru [rule_format, OF this y'] show ?thesis by (simp only: detach_frame)
      qed
    qed
    with step run ev' pl len fin show ?thesis
      by (intro exI [of _ "i # vs"] exI [of _ c']) simp
  qed
qed

subsection \<open>Eviction and acquisition seen from outside\<close>

lemma evictedD:
  assumes "evicted c vs c'"
  shows "trie_tree c'" "distinct vs" "v \<in> set vs \<Longrightarrow> linked c v \<and> v \<noteq> tc_root c \<and> refs c v \<le> 0"
    "par c' i = (if i \<in> set vs then None else par c i)" "toks c' i = toks c i" "pg c' i = pg c i"
    "tn_ref_count (tc_nodes c' i) = tn_ref_count (tc_nodes c i)"
    "tc_root c' = tc_root c" "tc_next c' = tc_next c" "tc_lists c' = tc_lists c"
    "tc_tokens_per_page c' = tc_tokens_per_page c" "tc_addr c' = tc_addr c"
  using assms by (auto simp: evicted_def)

lemma evicted_pool: "evicted c vs c' \<Longrightarrow> evicted c vs (c'\<lparr>tc_page_pool := p\<rparr>)"
  using same_links_preds(2) [OF same_links_pool [where c = c' and p = p]] by (simp add: evicted_def)

lemma evicted_linked: "evicted c vs c' \<Longrightarrow> linked c' n \<Longrightarrow> linked c n \<and> n \<notin> set vs"
  by (auto simp: evicted_def linked_def split: if_splits)

lemma evicted_path:
  assumes e: "evicted c vs c'" and t: "trie_tree c"
  shows "linked c' n \<Longrightarrow> node_path c' n = node_path c n"
proof (induction n rule: less_induct)
  case (less n)
  from less.prems have n: "n < tc_next c'" by (simp add: linked_def)
  show ?case
  proof (cases "par c' n")
    case None
    with less.prems have "n = tc_root c" using evictedD(8) [OF e] by (auto simp: linked_def)
    with None t show ?thesis by (simp add: node_path.simps trie_tree_def trie_links_def)
  next
    case (Some p)
    note p = trie_tree_parent [OF evictedD(1) [OF e] n Some]
    from Some have "par c n = Some p" using evictedD(4) [OF e, of n] by (auto split: if_splits)
    with Some p(1) less.IH [OF p(1,3)] show ?thesis by (subst (1 2) node_path.simps) simp
  qed
qed

definition tree_pages :: "'c trie_cache \<Rightarrow> nat multiset" where
  "tree_pages c = mset (map (pg c) (filter (\<lambda>i. par c i \<noteq> None) [0..<tc_next c]))"

lemma tree_pages_set: "tree_pages c = image_mset (pg c) (mset_set {i. i < tc_next c \<and> par c i \<noteq> None})"
proof -
  have "mset (filter (\<lambda>i. par c i \<noteq> None) [0..<tc_next c])
      = mset_set (set (filter (\<lambda>i. par c i \<noteq> None) [0..<tc_next c]))"
    by (rule mset_set_set [symmetric]) simp
  also have "set (filter (\<lambda>i. par c i \<noteq> None) [0..<tc_next c]) = {i. i < tc_next c \<and> par c i \<noteq> None}"
    by auto
  finally show ?thesis by (simp add: tree_pages_def)
qed

lemma evicted_tree_pages:
  assumes "evicted c vs c'"
  shows "tree_pages c = tree_pages c' + mset (map (pg c) vs)"
proof -
  note e = evictedD [OF assms]
  let ?T = "{i. i < tc_next c \<and> par c i \<noteq> None}"
  have T': "{i. i < tc_next c' \<and> par c' i \<noteq> None} = ?T - set vs" using e(4,9) by auto
  have sub: "set vs \<subseteq> ?T" using e(3) by (auto simp: linked_def)
  have "mset_set ?T = mset_set (?T - set vs) + mset_set (set vs)"
    using sub by (subst mset_set_Union [symmetric]) (auto simp: Un_absorb2)
  moreover have "mset_set (set vs) = mset vs" using e(2) by (rule mset_set_set)
  moreover have "image_mset (pg c') (mset_set (?T - set vs)) = image_mset (pg c) (mset_set (?T - set vs))"
    using e(6) by simp
  ultimately show ?thesis by (simp only: tree_pages_set T' image_mset_union mset_map)
qed

lemma evict_pages_run:
  assumes t: "trie_tree c"
  obtains vs c' where "evict_pages n c = (Inr (length vs), c')" and "evicted c vs c'"
    and "mset (tavail c') = mset (tavail c) + mset (map (pg c) vs)" and "length vs \<le> nat n"
    and "length vs < nat n \<Longrightarrow> \<forall>i \<in> set (tc_leaves c'). 0 < refs c' i"
    and "\<forall>v \<in> set vs. \<forall>y \<in> set (tc_leaves c) - set vs. refs c y \<le> 0 \<longrightarrow>
      heap_key c (tn_access_time (tc_nodes c v), v) \<le> heap_key c (tn_access_time (tc_nodes c y), y)"
proof -
  from evict_loop_run [OF t heap_ok_unused [OF t], of "nat n" "[]"] obtain vs c1 where
    run: "evict_loop (nat n) (unused_leaves c) [] c = (Inr (map (pg c) vs), c1)"
    and ev: "evicted c vs c1" and pl: "tc_page_pool c1 = tc_page_pool c" and len: "length vs \<le> nat n"
    and fin: "length vs < nat n \<longrightarrow> (\<forall>i \<in> set (tc_leaves c1). 0 < refs c1 i)"
    and lru: "\<forall>v \<in> set vs. \<forall>y \<in> snd ` set (unused_leaves c) - set vs.
      heap_key c (tn_access_time (tc_nodes c v), v) \<le> heap_key c (tn_access_time (tc_nodes c y), y)"
    by auto
  define c' where "c' = (if vs \<noteq> [] then c1\<lparr>tc_page_pool := free_pages (tc_page_pool c1) (map (pg c) vs)\<rparr>
    else c1)"
  have res: "evict_pages n c = (Inr (length vs), c')"
    by (simp add: evict_pages_def heapify_def run c'_def)
  have ev': "evicted c vs c'" using ev evicted_pool [OF ev] by (cases "vs = []") (simp_all add: c'_def)
  have av: "mset (tavail c') = mset (tavail c) + mset (map (pg c) vs)"
    by (simp add: c'_def pl)
  have fin': "\<forall>i \<in> set (tc_leaves c'). 0 < refs c' i" if "length vs < nat n"
    using fin that by (simp add: c'_def)
  have "snd ` set (unused_leaves c) = {i \<in> set (tc_leaves c). refs c i \<le> 0}"
    using heap_ok_unused [OF t] by (simp add: heap_ok_def)
  with lru have lru': "\<forall>v \<in> set vs. \<forall>y \<in> set (tc_leaves c) - set vs. refs c y \<le> 0 \<longrightarrow>
      heap_key c (tn_access_time (tc_nodes c v), v) \<le> heap_key c (tn_access_time (tc_nodes c y), y)"
    by simp
  show ?thesis by (rule that [OF res ev' av len fin' lru'])
qed

lemma pool_acquire_cases:
  assumes "pool_acquire n c = (r, c')"
  shows "\<exists>p. c' = c\<lparr>tc_page_pool := p\<rparr> \<and> acquire_free_pages (tc_page_pool c) n = (r, p)"
  using assms by (auto simp: pool_acquire_def split: prod.splits)

lemma acquire_or_evict_run:
  assumes t: "trie_tree c"
  obtains (ok) vs ps c' where "acquire_or_evict n c = (Inr ps, c')" and "evicted c vs c'"
      and "length ps = nat n" and "mset (tavail c) + mset (map (pg c) vs) = mset (tavail c') + mset ps"
      and "vs \<noteq> [] \<Longrightarrow> int (length (tavail c)) < n"
    | (failed) vs c' where "acquire_or_evict n c = (Inl CacheAllocationFailure, c')" and "evicted c vs c'"
      and "mset (tavail c') = mset (tavail c) + mset (map (pg c) vs)"
      and "int (length (tavail c')) < n" and "\<forall>i \<in> set (tc_leaves c'). 0 < refs c' i"
proof -
  obtain r1 c1 where 1: "pool_acquire n c = (r1, c1)" by fastforce
  from pool_acquire_cases [OF 1] obtain p1 where c1: "c1 = c\<lparr>tc_page_pool := p1\<rparr>"
    and a1: "acquire_free_pages (tc_page_pool c) n = (r1, p1)" by blast
  show ?thesis
  proof (cases r1)
    case (Some ps)
    have "evicted c [] c1" unfolding c1 using t by (intro evicted_pool evicted_refl)
    then show ?thesis using ok [of ps c1 "[]"] 1 a1 Some c1 pool.acquire_Some [of "tc_page_pool c" n ps p1]
      by (simp add: acquire_or_evict_def)
  next
    case None
    with a1 have p1: "p1 = tc_page_pool c" and few: "int (length (tavail c)) < n"
      by (simp_all add: pool.acquire_None)
    then have c1c: "c1 = c" using c1 by simp
    let ?m = "n - int (length (tavail c))"
    from evict_pages_run [OF t, of ?m] obtain vs c2 where
      e: "evict_pages ?m c = (Inr (length vs), c2)" and ev: "evicted c vs c2"
      and av: "mset (tavail c2) = mset (tavail c) + mset (map (pg c) vs)" and len: "length vs \<le> nat ?m"
      and fin: "length vs < nat ?m \<Longrightarrow> \<forall>i \<in> set (tc_leaves c2). 0 < refs c2 i" by metis
    obtain r3 c3 where 3: "pool_acquire n c2 = (r3, c3)" by fastforce
    from pool_acquire_cases [OF 3] obtain p3 where c3: "c3 = c2\<lparr>tc_page_pool := p3\<rparr>"
      and a3: "acquire_free_pages (tc_page_pool c2) n = (r3, p3)" by blast
    have ev3: "evicted c vs c3" unfolding c3 using ev by (rule evicted_pool)
    have res: "acquire_or_evict n c = (case r3 of None \<Rightarrow> (Inl CacheAllocationFailure, c3)
        | Some new_pages \<Rightarrow> (Inr new_pages, c3))"
      using 1 None c1c e 3 by (simp add: acquire_or_evict_def split: option.split)
    show ?thesis
    proof (cases r3)
      case (Some ps)
      with ok [of ps c3 vs] res ev3 av few pool.acquire_Some [OF a3 [unfolded Some]] c3
      show ?thesis by simp
    next
      case None
      with a3 have p3: "p3 = tc_page_pool c2" and few3: "int (length (tavail c2)) < n"
        by (simp_all add: pool.acquire_None)
      then have c3c: "c3 = c2" using c3 by simp
      have "length (tavail c2) = length (tavail c) + length vs"
        using arg_cong [OF av, of size] by simp
      with few few3 have "length vs < nat ?m" by linarith
      from fin [OF this] res None av few3 ev3 c3c failed [of c3 vs] show ?thesis by simp
    qed
  qed
qed

end
