(* ===== verification/Trie_Publish.thy ===== *)
theory Trie_Publish
  imports Trie_Evict
begin

section \<open>Publishing on a well-formed trie\<close>

text \<open>
  \<open>publish_pages_for_tokens\<close> hangs a chain of new nodes under the allocation's last cached node
  and adds the end of the chain to \<open>leaves\<close>. \<open>grown\<close> relates the states before and after; the
  chain keeps the trie well-formed when it starts at a node that is not in \<open>leaves\<close> and its first
  block is not filed there yet, which \<open>publish_clean\<close> states for an allocation and the tokens it
  is given.
\<close>

definition open_tree :: "'c trie_cache \<Rightarrow> nat \<Rightarrow> bool" where
  "open_tree c cur \<longleftrightarrow> trie_links c \<and> (\<forall>i < tc_next c. node_filed c i) \<and> distinct (tc_leaves c) \<and>
     linked c cur \<and> cur \<notin> set (tc_leaves c) \<and> set (tc_leaves c) = {i. is_leaf_node c i} - {cur}"

definition grown :: "'c trie_cache \<Rightarrow> 'c trie_cache \<Rightarrow> bool" where
  "grown c c' \<longleftrightarrow> tc_next c \<le> tc_next c' \<and> tc_root c' = tc_root c \<and> tc_leaves c' = tc_leaves c \<and>
     tc_page_pool c' = tc_page_pool c \<and> tc_tokens_per_page c' = tc_tokens_per_page c \<and>
     tc_lists c' = tc_lists c \<and> tc_addr c' = tc_addr c \<and>
     (\<forall>i < tc_next c. par c' i = par c i \<and> toks c' i = toks c i \<and> pg c' i = pg c i \<and>
        tn_ref_count (tc_nodes c' i) = tn_ref_count (tc_nodes c i)) \<and>
     (\<forall>i. tc_next c \<le> i \<longrightarrow> i < tc_next c' \<longrightarrow> tn_ref_count (tc_nodes c' i) = rc_new)"

lemma grown_refl: "grown c c"
  by (simp add: grown_def)

lemma grown_trans: "grown a b \<Longrightarrow> grown b c \<Longrightarrow> grown a c"
  unfolding grown_def by (auto; metis leD leI less_le_trans)

lemma trie_tree_open: "trie_tree c \<Longrightarrow> linked c cur \<Longrightarrow> cur \<notin> set (tc_leaves c) \<Longrightarrow> open_tree c cur"
  by (auto simp: trie_tree_def open_tree_def)

lemma open_tree_close:
  assumes o: "open_tree c cur" and l: "is_leaf_node c cur"
  shows "trie_tree (leaves_add cur c)"
proof -
  let ?d = "leaves_add cur c"
  have "node_links ?d = node_links c" "is_leaf_node ?d = is_leaf_node c"
    by (simp_all add: fun_eq_iff node_links_def is_leaf_node_def)
  moreover have "node_filed ?d = node_filed c"
    by (simp add: fun_eq_iff node_filed_def cong: option.case_cong)
  ultimately show ?thesis using o l by (auto simp: trie_tree_def open_tree_def trie_links_def)
qed

lemma create_child_grown:
  assumes "cur < tc_next c" and "create_child cur blk page c = (n, c')"
  shows "grown c c'" and "n = tc_next c" and "tc_next c' = Suc n" and "toks c' n = blk"
    and "pg c' n = page" and "par c' n = Some cur" and "kids c' n = []"
    and "kids c' cur = AList.update blk n (kids c cur)"
    and "i < tc_next c \<Longrightarrow> i \<noteq> cur \<Longrightarrow> kids c' i = kids c i"
  using assms by (auto simp: create_child_eq Let_def grown_def less_Suc_eq)

lemma grownD:
  assumes "grown c c'"
  shows "tc_next c \<le> tc_next c'" "tc_root c' = tc_root c" "tc_leaves c' = tc_leaves c"
    "tc_page_pool c' = tc_page_pool c" "tc_tokens_per_page c' = tc_tokens_per_page c"
    "tc_lists c' = tc_lists c" "tc_addr c' = tc_addr c"
    "i < tc_next c \<Longrightarrow> par c' i = par c i" "i < tc_next c \<Longrightarrow> toks c' i = toks c i"
    "i < tc_next c \<Longrightarrow> pg c' i = pg c i"
    "i < tc_next c \<Longrightarrow> tn_ref_count (tc_nodes c' i) = tn_ref_count (tc_nodes c i)"
    "tc_next c \<le> i \<Longrightarrow> i < tc_next c' \<Longrightarrow> tn_ref_count (tc_nodes c' i) = rc_new"
  using assms by (auto simp: grown_def)

lemma create_child_links:
  assumes o: "open_tree c cur" and fresh: "map_of (kids c cur) blk = None"
    and cc: "create_child cur blk page c = (n, c')"
  shows "trie_links c'"
proof -
  from o have l: "trie_links c" and cl: "cur < tc_next c" by (auto simp: open_tree_def linked_def)
  note cf = create_child_grown [OF cl cc] and g = grownD [OF create_child_grown(1) [OF cl cc]]
  have "node_links c' i" if i: "i < tc_next c'" for i
  proof (cases "i = n")
    case True
    then show ?thesis using cf(7) by (simp add: node_links_def)
  next
    case False
    with i cf have i: "i < tc_next c" by simp
    with l have ni: "node_links c i" by (simp add: trie_links_def)
    have old: "i < ch \<and> ch < tc_next c' \<and> toks c' ch = k \<and> par c' ch = Some i"
      if "(k, ch) \<in> set (kids c i)" for k ch
      using ni that g(1) g(8,9) [of ch] by (auto simp: node_links_def)
    show ?thesis
    proof (cases "i = cur")
      case True
      have "blk \<notin> fst ` set (kids c cur)" using fresh by (simp add: map_of_eq_None_iff)
      then have u: "kids c' i = kids c i @ [(blk, n)]"
        using cf(8) True by (simp add: AList_update_fresh)
      have "distinct (map fst (kids c i))" using ni by (simp add: node_links_def)
      with u old True \<open>blk \<notin> _\<close> cf(2-6) i show ?thesis by (auto simp: node_links_def)
    next
      case False
      with cf(9) [OF i] old ni show ?thesis by (auto simp: node_links_def)
    qed
  qed
  with l cl g(1,2,5,8) show ?thesis by (auto simp: trie_links_def)
qed

lemma create_child_open:
  assumes o: "open_tree c cur" and fresh: "map_of (kids c cur) blk = None"
    and cc: "create_child cur blk page c = (n, c')"
  shows "open_tree c' n"
proof -
  from o have l: "trie_links c" and cl: "cur < tc_next c" and clk: "linked c cur"
    by (auto simp: open_tree_def linked_def)
  note cf = create_child_grown [OF cl cc] and g = grownD [OF create_child_grown(1) [OF cl cc]]
  have "blk \<notin> fst ` set (kids c cur)" using fresh by (simp add: map_of_eq_None_iff)
  then have u: "kids c' cur = kids c cur @ [(blk, n)]" using cf(8) by (simp add: AList_update_fresh)
  have filed: "node_filed c' i" if i: "i < tc_next c'" for i
  proof (cases "i = n")
    case True
    have "map_of (kids c' cur) blk = Some n" using cf(8) by (simp add: update_conv')
    with True cf(4,6) cl g(1,2) g(8) [OF cl] clk show ?thesis by (auto simp: node_filed_def linked_def)
  next
    case False
    with i cf have i: "i < tc_next c" by simp
    with o have f: "node_filed c i" by (simp add: open_tree_def)
    show ?thesis
    proof (cases "par c i")
      case (Some p)
      with f have p: "p < tc_next c" "p = tc_root c \<or> par c p \<noteq> None" "map_of (kids c p) (toks c i) = Some i"
        by (auto simp: node_filed_def)
      have "map_of (kids c' p) (toks c i) = Some i"
      proof (cases "p = cur")
        case True
        with p(3) fresh show ?thesis by (auto simp: u map_add_Some_iff)
      next
        case False
        with p cf(9) show ?thesis by simp
      qed
      with Some p g i show ?thesis by (auto simp: node_filed_def)
    qed (use g(8) [OF i] in \<open>simp add: node_filed_def\<close>)
  qed
  have leaf: "is_leaf_node c' i \<longleftrightarrow> i = n \<or> i \<noteq> cur \<and> is_leaf_node c i" for i
  proof -
    consider "i = n" | "i = cur" | "i < tc_next c" "i \<noteq> cur" | "tc_next c' \<le> i" "i \<noteq> cur"
      using cf(2,3) cl by fastforce
    then show ?thesis
    proof cases
      case 1
      then show ?thesis using cf(3,6,7) by (simp add: is_leaf_node_def)
    next
      case 2
      then show ?thesis using u cl cf(2) by (simp add: is_leaf_node_def)
    next
      case 3
      then show ?thesis using cf(2,3,9) g(8) by (auto simp: is_leaf_node_def)
    next
      case 4
      then show ?thesis using cf(2,3) by (auto simp: is_leaf_node_def)
    qed
  qed
  have "n \<notin> set (tc_leaves c')" using o g(3) cf(2) by (auto simp: open_tree_def is_leaf_node_def)
  moreover have "linked c' n" using cf(3,6) by (simp add: linked_def)
  ultimately show ?thesis
    using create_child_links [OF assms] filed leaf o g(3)
    by (auto simp: open_tree_def)
qed

lemma publish_loop_run:
  "open_tree c cur \<Longrightarrow> (bs \<noteq> [] \<Longrightarrow> map_of (kids c cur) (fst (hd bs)) = None) \<Longrightarrow>
   publish_loop cur bs c = (r, c') \<Longrightarrow>
   open_tree c' r \<and> grown c c' \<and> tc_next c' = tc_next c + length bs \<and>
   (bs \<noteq> [] \<longrightarrow> kids c' r = [] \<and> is_leaf_node c' r) \<and> (bs = [] \<longrightarrow> r = cur) \<and>
   node_path c' r = node_path c' cur @ [tc_next c..<tc_next c + length bs] \<and>
   (\<forall>j < length bs. pg c' (tc_next c + j) = snd (bs ! j) \<and> toks c' (tc_next c + j) = fst (bs ! j) \<and>
      par c' (tc_next c + j) \<noteq> None)"
proof (induction bs arbitrary: cur c)
  case Nil
  then show ?case by (auto intro: grown_refl)
next
  case (Cons b bs)
  obtain blk page where b: "b = (blk, page)" by (cases b)
  obtain n c1 where cc: "create_child cur blk page c = (n, c1)" by fastforce
  have fresh: "map_of (kids c cur) blk = None" using Cons.prems(2) b by simp
  from Cons.prems(1) have cl: "cur < tc_next c" by (simp add: open_tree_def linked_def)
  note cf = create_child_grown [OF cl cc]
  have o1: "open_tree c1 n" by (rule create_child_open [OF Cons.prems(1) fresh cc])
  have run: "publish_loop n bs c1 = (r, c')" using Cons.prems(3) b cc by simp
  have "bs \<noteq> [] \<Longrightarrow> map_of (kids c1 n) (fst (hd bs)) = None" by (simp add: cf(7))
  from Cons.IH [OF o1 this run] have
    IH: "open_tree c' r" "grown c1 c'" "tc_next c' = tc_next c1 + length bs"
      "bs \<noteq> [] \<longrightarrow> kids c' r = [] \<and> is_leaf_node c' r" "bs = [] \<longrightarrow> r = n"
      "node_path c' r = node_path c' n @ [tc_next c1..<tc_next c1 + length bs]"
    and IHp: "\<And>j. j < length bs \<Longrightarrow> pg c' (tc_next c1 + j) = snd (bs ! j) \<and>
        toks c' (tc_next c1 + j) = fst (bs ! j) \<and> par c' (tc_next c1 + j) \<noteq> None" by auto
  note g1 = grownD [OF IH(2)]
  have nl: "n < tc_next c1" using cf(3) by simp
  have pn: "par c' n = Some cur" using g1(8) [OF nl] cf(6) by simp
  have np: "node_path c' n = node_path c' cur @ [n]"
    using pn cl cf(2) by (subst node_path.simps) simp
  have up: "[tc_next c..<tc_next c + length (b # bs)] = n # [tc_next c1..<tc_next c1 + length bs]"
    using cf(2,3) by (subst upt_conv_Cons) simp_all
  have bse: "c' = c1" if "bs = []" using run that by simp
  have leaf: "kids c' r = [] \<and> is_leaf_node c' r"
  proof (cases "bs = []")
    case True
    with IH(5) bse cf(3,6,7) show ?thesis by (simp add: is_leaf_node_def)
  qed (use IH(4) in simp)
  have "pg c' (tc_next c + j) = snd ((b # bs) ! j) \<and> toks c' (tc_next c + j) = fst ((b # bs) ! j) \<and>
      par c' (tc_next c + j) \<noteq> None" if "j < length (b # bs)" for j
  proof (cases j)
    case 0
    then show ?thesis using b cf(2,4,5) g1(9,10) [OF nl] pn by simp
  next
    case (Suc k)
    with that IHp [of k] cf(2,3) show ?thesis by simp
  qed
  moreover have "grown c c'" by (rule grown_trans [OF cf(1) IH(2)])
  ultimately show ?case using IH(1,3,6) np up leaf cf(2,3) by simp
qed

lemma grown_linked: "grown c c' \<Longrightarrow> linked c n \<Longrightarrow> linked c' n"
  using grownD(1,2,8) by (fastforce simp: linked_def)

lemma grown_path:
  assumes g: "grown c c'" and t: "\<forall>i < tc_next c. node_filed c i" and l: "trie_links c"
  shows "n < tc_next c \<Longrightarrow> node_path c' n = node_path c n"
proof (induction n rule: less_induct)
  case (less n)
  have p: "par c' n = par c n" by (rule grownD(8) [OF g less.prems])
  show ?case
  proof (cases "par c n")
    case None
    with p show ?thesis by (simp add: node_path.simps)
  next
    case (Some q)
    with t less.prems have "q < tc_next c" by (auto simp: node_filed_def)
    with p Some less.IH [of q] show ?thesis by (subst (1 2) node_path.simps) simp
  qed
qed

lemma grown_tree_pages:
  assumes "grown c c'" and "tc_next c' = tc_next c + length ps"
    and "\<And>j. j < length ps \<Longrightarrow> pg c' (tc_next c + j) = ps ! j \<and> par c' (tc_next c + j) \<noteq> None"
  shows "tree_pages c' = tree_pages c + mset ps"
proof -
  note g = grownD [OF assms(1)]
  have up: "[0..<tc_next c'] = [0..<tc_next c] @ [tc_next c..<tc_next c + length ps]"
    unfolding assms(2) by (rule upt_add_eq_append) simp
  have 1: "filter (\<lambda>i. par c' i \<noteq> None) [0..<tc_next c] = filter (\<lambda>i. par c i \<noteq> None) [0..<tc_next c]"
    using g(8) by (intro filter_cong) auto
  have 2: "filter (\<lambda>i. par c' i \<noteq> None) [tc_next c..<tc_next c + length ps]
      = [tc_next c..<tc_next c + length ps]"
    using assms(3) by (intro filter_True) (metis atLeastLessThan_iff le_add_diff_inverse nat_add_left_cancel_less set_upt)
  have 3: "map (pg c') [tc_next c..<tc_next c + length ps] = ps"
    using assms(3) by (intro nth_equalityI) auto
  have 4: "map (pg c') (filter (\<lambda>i. par c i \<noteq> None) [0..<tc_next c])
      = map (pg c) (filter (\<lambda>i. par c i \<noteq> None) [0..<tc_next c])"
    using g(10) by (intro map_cong) auto
  show ?thesis unfolding tree_pages_def up filter_append 1 2 map_append 3 4 by simp
qed

end
