(* ===== verification/Trie_Safety.thy ===== *)
theory Trie_Safety
  imports Trie_Publish
begin

section \<open>Page safety of the trie cache under any interleaving\<close>

text \<open>
  A system state is a cache with the allocations its clients hold. \<open>clean_step\<close> is one call of a
  client, in any order and with any arguments: acquiring, extending, releasing, publishing, and
  appending to a token list that allocations may share. Publishing is restricted to calls that are
  \<open>publish_clean\<close>; the last theory of the trie shows what happens otherwise. The invariant
  \<open>sys_ok\<close> says that the trie is well-formed, that the published pages of an unreleased
  allocation are the pages on the path to its last cached node, and that the node's reference
  count covers the allocations that rest on it; \<open>page_balance\<close> collects where every page is.
\<close>

subsection \<open>The invariant\<close>

definition pins_at :: "nat \<Rightarrow> trie_allocation \<Rightarrow> int" where
  "pins_at i a = (if \<not> ta_is_released a \<and> ta_last_cached_node a = i then 1 else 0)"

definition pins :: "trie_allocation list \<Rightarrow> nat \<Rightarrow> int" where
  "pins as i = sum_list (map (pins_at i) as)"

definition unpublished :: "trie_allocation \<Rightarrow> nat multiset" where
  "unpublished a =
     (if ta_is_released a then {#} else mset (drop (ta_number_of_published_pages a) (ta_pages a)))"

definition alloc_ok :: "'c trie_cache \<Rightarrow> trie_allocation \<Rightarrow> bool" where
  "alloc_ok c a \<longleftrightarrow> ta_is_released a \<or>
     linked c (ta_last_cached_node a) \<and> ta_number_of_published_pages a \<le> length (ta_pages a) \<and>
     take (ta_number_of_published_pages a) (ta_pages a)
       = map (pg c) (node_path c (ta_last_cached_node a))"

definition sys_ok :: "'c trie_cache \<Rightarrow> trie_allocation list \<Rightarrow> bool" where
  "sys_ok c as \<longleftrightarrow> trie_tree c \<and> list_all (alloc_ok c) as \<and> (\<forall>i < tc_next c. pins as i \<le> refs c i)"

definition page_balance :: "'c trie_cache \<Rightarrow> trie_allocation list \<Rightarrow> nat multiset" where
  "page_balance c as = mset (tavail c) + tree_pages c + sum_list (map unpublished as)"

lemma pins_append [simp]: "pins (as @ [a]) i = pins as i + pins_at i a"
  by (simp add: pins_def)

lemma pins_update:
  "i < length as \<Longrightarrow> pins (as[i := a]) j = pins as j - pins_at j (as ! i) + pins_at j a"
  unfolding pins_def using sum_list_map_update [of i as "pins_at j" a] by linarith

lemma pins_nonneg: "0 \<le> pins as i"
  unfolding pins_def by (induction as) (auto simp: pins_at_def)

lemma pins_pos:
  assumes "a \<in> set as" and "\<not> ta_is_released a"
  shows "0 < pins as (ta_last_cached_node a)"
  using assms(1)
proof (induction as)
  case (Cons b as)
  have "0 \<le> pins as (ta_last_cached_node a)" by (rule pins_nonneg)
  moreover have "0 \<le> pins_at (ta_last_cached_node a) b" by (simp add: pins_at_def)
  ultimately show ?case using Cons assms(2) by (auto simp: pins_def pins_at_def)
qed simp

lemma sys_okD:
  assumes "sys_ok c as"
  shows "trie_tree c" "a \<in> set as \<Longrightarrow> alloc_ok c a" "i < tc_next c \<Longrightarrow> pins as i \<le> refs c i"
  using assms by (auto simp: sys_ok_def list_all_iff)

lemma sys_ok_update:
  assumes "sys_ok c as" and "i < length as" and "alloc_ok c a"
    and "ta_is_released a = ta_is_released (as ! i)"
    and "ta_last_cached_node a = ta_last_cached_node (as ! i)"
  shows "sys_ok c (as[i := a])"
proof -
  have "pins_at j a = pins_at j (as ! i)" for j using assms(4,5) by (simp add: pins_at_def)
  then have "pins (as[i := a]) j = pins as j" for j using pins_update [OF assms(2)] by simp
  with assms(1,3) show ?thesis
    using set_update_subset_insert [of as i a] by (auto simp: sys_ok_def list_all_iff)
qed

lemma page_balance_update:
  assumes "i < length as"
    and "mset (tavail c') + tree_pages c' + unpublished a
       = mset (tavail c) + tree_pages c + unpublished (as ! i)"
  shows "page_balance c' (as[i := a]) = page_balance c as"
  unfolding page_balance_def
  by (rule mset_exchange [OF sum_list_map_update [OF assms(1)] assms(2)])

lemma same_links_sys:
  assumes s: "same_links c c'"
  shows "alloc_ok c' a = alloc_ok c a" and "tree_pages c' = tree_pages c"
proof -
  have np: "trie_cache.tc_next c' = tc_next c" using same_linksD(2) [OF s] .
  have "node_path c' n = node_path c n" for n
  proof (induction n rule: less_induct)
    case (less n)
    then show ?case using same_linksD(8) [OF s, of n]
      by (subst (1 2) node_path.simps) (auto split: option.splits)
  qed
  moreover have "pg c' = pg c" using same_linksD(10) [OF s] by (simp add: fun_eq_iff)
  ultimately show "alloc_ok c' a = alloc_ok c a"
    by (simp add: alloc_ok_def same_links_preds(3) [OF s])
  show "tree_pages c' = tree_pages c"
    using \<open>pg c' = pg c\<close> same_linksD(8) [OF s] np by (simp add: tree_pages_def)
qed

subsection \<open>Eviction never takes a page an allocation rests on\<close>

lemma sys_ok_evicted [inv_intros]:
  assumes s: "sys_ok c as" and e: "evicted c vs c'"
  shows "sys_ok c' as"
proof -
  note ev = evictedD [OF e] and ok = sys_okD [OF s]
  have "alloc_ok c' a" if a: "a \<in> set as" for a
  proof (cases "ta_is_released a")
    case False
    let ?n = "ta_last_cached_node a"
    from False ok(2) [OF a] have l: "linked c ?n" by (simp add: alloc_ok_def)
    then have "?n < tc_next c" by (simp add: linked_def)
    with pins_pos [OF a False] ok(3) have "0 < refs c ?n" by fastforce
    then have "?n \<notin> set vs" using ev(3) by fastforce
    with l ev(4,8,9) have l': "linked c' ?n" by (simp add: linked_def)
    have "map (pg c') xs = map (pg c) xs" for xs using ev(6) by simp
    with ok(2) [OF a] l' evicted_path [OF e ok(1) l'] False show ?thesis
      unfolding alloc_ok_def by simp
  qed (simp add: alloc_ok_def)
  with ev(1,7,9) ok(3) show ?thesis by (simp add: sys_ok_def list_all_iff)
qed

subsection \<open>Acquiring, extending, releasing\<close>

lemma balance_moved:
  assumes "evicted c vs c'" and "mset (tavail c) + mset (map (pg c) vs) = mset (tavail c') + mset ps"
  shows "mset (tavail c') + tree_pages c' + mset ps = mset (tavail c) + tree_pages c"
proof -
  have "mset (tavail c') + tree_pages c' + mset ps = (mset (tavail c') + mset ps) + tree_pages c'"
    by (simp add: ac_simps)
  also have "\<dots> = mset (tavail c) + (tree_pages c' + mset (map (pg c) vs))"
    unfolding assms(2) [symmetric] by (simp only: ac_simps)
  finally show ?thesis using evicted_tree_pages [OF assms(1)] by simp
qed

lemma trie_match_run:
  assumes l: "trie_links c" and m: "trie_match tokens c = ((cur, matched), c1)"
  defines "bs \<equiv> blocks_from 0 (tc_tokens_per_page c) tokens"
  shows "cur = last (tc_root c # walk c (tc_root c) bs)"
    and "matched = map (pg c) (walk c (tc_root c) bs)" and "touched c (set (walk c (tc_root c) bs)) c1"
    and "linked c cur" and "node_path c cur = walk c (tc_root c) bs"
proof -
  let ?w = "walk c (tc_root c) bs"
  from m match_loop_walk [of "tc_root c" bs "[]" c "(cur, matched)" c1]
  show cur: "cur = last (tc_root c # ?w)" and "matched = map (pg c) ?w" and "touched c (set ?w) c1"
    by (simp_all add: trie_match_def bs_def)
  have r: "tc_root c < tc_next c" using l by (simp add: trie_links_def)
  have "cur = tc_root c \<or> cur \<in> set ?w"
    unfolding cur by (cases "?w = []") auto
  with r show "linked c cur" using walk_lt [OF l r, of cur bs] by (auto simp: linked_def)
  show "node_path c cur = ?w"
    using node_path_walk [OF l r, of bs] node_path_root [OF l] cur by simp
qed

lemma trie_acquire_run:
  assumes s: "sys_ok c as" and q: "trie_acquire_pages_for_tokens tk extra c = (r, c')"
  shows "tc_lists c' = tc_lists c" and "tc_root c' = tc_root c"
    and "r = Inr a \<Longrightarrow> sys_ok c' (as @ [a]) \<and> page_balance c' (as @ [a]) = page_balance c as"
    and "r = Inl e \<Longrightarrow> e = CacheAllocationFailure \<and> sys_ok c' as \<and> page_balance c' as = page_balance c as"
proof -
  let ?t = "tokens_val c tk"
  note ok = sys_okD [OF s]
  obtain cur matched c1 where m: "trie_match ?t c = ((cur, matched), c1)" by (metis surj_pair)
  note mr = trie_match_run [OF trie_tree_links [OF ok(1)] m]
  let ?w = "walk c (tc_root c) (blocks_from 0 (tc_tokens_per_page c) ?t)"
  define d where "d = ref_increment cur c1"
  have "same_links c c1" using mr(3) by (simp add: touched_def)
  then have sl: "same_links c d" unfolding d_def by (rule same_links_trans) simp
  note sd = same_linksD [OF sl] and ss = same_links_sys [OF sl]
  have t2: "trie_tree d" using ok(1) same_links_preds(2) [OF sl] by simp
  have av2: "tavail d = tavail c" using mr(3) by (simp add: touched_def d_def)
  have refs2: "refs d i = refs c i + (if i = cur then 1 else 0)" for i
    using mr(3) by (simp add: touched_def d_def)
  have l2: "linked d cur" and p2: "map (pg d) (node_path d cur) = matched"
  proof -
    show "linked d cur" using mr(4) same_links_preds(3) [OF sl] by simp
    have "alloc_ok c (new_trie_allocation ?t cur matched [])"
      using mr(2,4,5) by (simp add: alloc_ok_def new_trie_allocation_def)
    then have "alloc_ok d (new_trie_allocation ?t cur matched [])" using ss(1) by simp
    then show "map (pg d) (node_path d cur) = matched"
      by (simp add: alloc_ok_def new_trie_allocation_def)
  qed
  have base: "sys_ok d as" using s ss(1) t2 refs2 sd(2) ok(3)
    by (fastforce simp: sys_ok_def list_all_iff)
  have new: "sys_ok d (as @ [new_trie_allocation ?t cur matched ps])" for ps
  proof -
    have "alloc_ok d (new_trie_allocation ?t cur matched ps)"
      using l2 p2 by (simp add: alloc_ok_def new_trie_allocation_def)
    moreover have "pins (as @ [new_trie_allocation ?t cur matched ps]) i \<le> refs d i"
      if "i < tc_next d" for i
      using ok(3) [of i] that sd(2) refs2 [of i]
      by (auto simp: pins_at_def new_trie_allocation_def split: if_splits)
    ultimately show ?thesis using s ss(1) t2 by (simp add: sys_ok_def list_all_iff)
  qed
  let ?n = "ceil_div (int (length ?t) - int (length matched) * int (tc_tokens_per_page d) + extra)
     (int (tc_tokens_per_page d))"
  have q': "(r, c') = (case acquire_or_evict ?n d of (Inl e, c3) \<Rightarrow> (Inl e, c3)
      | (Inr new_pages, c3) \<Rightarrow> (Inr (new_trie_allocation ?t cur matched new_pages), c3))"
    using q m unfolding d_def by (simp add: trie_acquire_pages_for_tokens_def Let_def)
  from t2 have "tc_lists c' = tc_lists c \<and> tc_root c' = tc_root c \<and>
      (case r of Inr a \<Rightarrow> sys_ok c' (as @ [a]) \<and> page_balance c' (as @ [a]) = page_balance c as
       | Inl e \<Rightarrow> e = CacheAllocationFailure \<and> sys_ok c' as \<and> page_balance c' as = page_balance c as)"
  proof (cases rule: acquire_or_evict_run [where n = ?n])
    case (ok vs ps c3)
    let ?a = "new_trie_allocation ?t cur matched ps"
    from q' ok(1) have r: "r = Inr ?a" "c' = c3" by auto
    have u: "unpublished ?a = mset ps" by (simp add: unpublished_def new_trie_allocation_def)
    have "page_balance c3 (as @ [?a]) = page_balance c as"
      using balance_moved [OF ok(2,4)] ss(2) av2 u by (simp add: page_balance_def ac_simps)
    with r sys_ok_evicted [OF new ok(2)] evictedD(8,10) [OF ok(2)] sd(1,6) show ?thesis by simp
  next
    case (failed vs c3)
    from q' failed(1) have r: "r = Inl CacheAllocationFailure" "c' = c3" by auto
    have "page_balance c3 as = page_balance c as"
      using balance_moved [OF failed(2), of "[]"] failed(3) ss(2) av2 by (simp add: page_balance_def)
    with r sys_ok_evicted [OF base failed(2)] evictedD(8,10) [OF failed(2)] sd(1,6) show ?thesis by simp
  qed
  then show "tc_lists c' = tc_lists c" "tc_root c' = tc_root c"
    "r = Inr a \<Longrightarrow> sys_ok c' (as @ [a]) \<and> page_balance c' (as @ [a]) = page_balance c as"
    "r = Inl e \<Longrightarrow> e = CacheAllocationFailure \<and> sys_ok c' as \<and> page_balance c' as = page_balance c as"
    by auto
qed

lemma trie_extend_run:
  assumes s: "sys_ok c as" and i: "i < length as" and live: "\<not> ta_is_released (as ! i)"
    and q: "trie_extend_allocation (as ! i) tk extra c = (r, a', c')"
  shows "sys_ok c' (as[i := a'])" and "page_balance c' (as[i := a']) = page_balance c as"
    and "tc_lists c' = tc_lists c" and "tc_root c' = tc_root c" and "\<not> ta_is_released a'"
proof -
  let ?a = "as ! i"
  note ok = sys_okD [OF s]
  have aok: "alloc_ok c ?a" using ok(2) i by simp
  let ?n = "ceil_div (int (length (tokens_val c tk)) + extra) (int (tc_tokens_per_page c))
     - int (length (ta_pages ?a))"
  consider (same) "a' = ?a" "c' = c" | (short) "a' = ?a\<lparr>ta_tokens := tk\<rparr>" "c' = c"
    | (grow) "(r, a', c') = (case acquire_or_evict ?n c of (Inl e, c1) \<Rightarrow> (Inl e, ?a, c1)
        | (Inr new_pages, c1) \<Rightarrow>
            (Inr (), ?a\<lparr>ta_pages := ta_pages ?a @ new_pages, ta_tokens := tk\<rparr>, c1))"
    using q by (auto simp: trie_extend_allocation_def Let_def split: if_splits)
  then have "sys_ok c' (as[i := a']) \<and> page_balance c' (as[i := a']) = page_balance c as \<and>
    tc_lists c' = tc_lists c \<and> tc_root c' = tc_root c \<and> \<not> ta_is_released a'"
  proof cases
    case same
    with s i live show ?thesis by simp
  next
    case short
    have "alloc_ok c a'" using aok short by (simp add: alloc_ok_def)
    moreover have "unpublished a' = unpublished ?a" using short by (simp add: unpublished_def)
    ultimately show ?thesis using short s i live
      by (auto intro!: sys_ok_update page_balance_update)
  next
    case grow
    from ok(1) show ?thesis
    proof (cases rule: acquire_or_evict_run [where n = ?n])
      case (ok vs ps c3)
      from grow ok(1) have a': "a' = ?a\<lparr>ta_pages := ta_pages ?a @ ps, ta_tokens := tk\<rparr>" and c': "c' = c3"
        by auto
      have s3: "sys_ok c3 as" by (rule sys_ok_evicted [OF s ok(2)])
      then have a3: "alloc_ok c3 ?a" using i sys_okD(2) nth_mem by blast
      then have "alloc_ok c3 a'" using a' live by (simp add: alloc_ok_def)
      then have "sys_ok c3 (as[i := a'])" using a' by (intro sys_ok_update [OF s3 i]) simp_all
      moreover have "unpublished a' = unpublished ?a + mset ps"
        using a' a3 live by (simp add: unpublished_def alloc_ok_def)
      then have "page_balance c3 (as[i := a']) = page_balance c as"
        using balance_moved [OF ok(2,4)] by (intro page_balance_update [OF i]) (simp add: ac_simps)
      ultimately show ?thesis using c' a' live evictedD(8,10) [OF ok(2)] by simp
    next
      case (failed vs c3)
      from grow failed(1) have r: "a' = ?a" "c' = c3" by auto
      have "page_balance c3 as = page_balance c as"
        using balance_moved [OF failed(2), of "[]"] failed(3) by (simp add: page_balance_def)
      with r sys_ok_evicted [OF s failed(2)] evictedD(8,10) [OF failed(2)] i live show ?thesis by simp
    qed
  qed
  then show "sys_ok c' (as[i := a'])" "page_balance c' (as[i := a']) = page_balance c as"
    "tc_lists c' = tc_lists c" "tc_root c' = tc_root c" "\<not> ta_is_released a'" by auto
qed

lemma trie_release_run:
  assumes s: "sys_ok c as" and i: "i < length as"
    and q: "trie_release_pages (as ! i) c = (r, a', c')"
  shows "sys_ok c' (as[i := a'])" and "page_balance c' (as[i := a']) \<subseteq># page_balance c as"
    and "ta_is_released a'" and "tavail c' = tavail c" and "tc_root c' = tc_root c"
proof -
  let ?a = "as ! i"
  note ok = sys_okD [OF s]
  have "sys_ok c' (as[i := a']) \<and> page_balance c' (as[i := a']) \<subseteq># page_balance c as \<and>
    ta_is_released a' \<and> tavail c' = tavail c \<and> tc_root c' = tc_root c"
  proof (cases "ta_is_released ?a")
    case True
    with q have "a' = ?a" "c' = c" by (auto simp: trie_release_pages_def)
    with s i True show ?thesis by simp
  next
    case False
    let ?c = "ref_decrement (ta_last_cached_node ?a) c"
    from q False have a': "a' = ?a\<lparr>ta_is_released := True\<rparr>" and c': "c' = ?c"
      by (auto simp: trie_release_pages_def)
    have sl: "same_links c ?c" by simp
    note ss = same_links_sys [OF sl]
    have "pins (as[i := a']) j = pins as j - (if j = ta_last_cached_node ?a then 1 else 0)" for j
      using pins_update [OF i] a' False by (simp add: pins_at_def)
    then have pins: "\<forall>j < tc_next ?c. pins (as[i := a']) j \<le> refs ?c j"
      using ok(3) by fastforce
    have "alloc_ok ?c b" if "b \<in> set (as[i := a'])" for b
    proof -
      have "b = a' \<or> b \<in> set as" using that set_update_subset_insert by fastforce
      moreover have "alloc_ok ?c a'" using a' by (simp add: alloc_ok_def)
      ultimately show ?thesis using ss(1) ok(2) by blast
    qed
    with pins ok(1) same_links_preds(2) [OF sl] have "sys_ok ?c (as[i := a'])"
      by (simp add: sys_ok_def list_all_iff)
    moreover have "sum_list (map unpublished (as[i := a'])) \<subseteq># sum_list (map unpublished as)"
    proof -
      have "unpublished a' = {#}" using a' by (simp add: unpublished_def)
      then have "sum_list (map unpublished as)
          = sum_list (map unpublished (as[i := a'])) + unpublished ?a"
        using sum_list_map_update [OF i, of unpublished a'] by simp
      then show ?thesis by simp
    qed
    ultimately show ?thesis using c' a' ss(2) by (simp add: page_balance_def)
  qed
  then show "sys_ok c' (as[i := a'])" "page_balance c' (as[i := a']) \<subseteq># page_balance c as"
    "ta_is_released a'" "tavail c' = tavail c" "tc_root c' = tc_root c" by auto
qed

end
