(* ===== verification/Trie_System.thy ===== *)
theory Trie_System
  imports Trie_Safety
begin

section \<open>Publishing in the system, and the reachable states\<close>

text \<open>The publications that keep the trie well-formed, and the reachable states with their invariant.\<close>

subsection \<open>Clean publications\<close>

text \<open>
  The condition under which a publication keeps the trie well-formed: the allocation is live, the
  call does not take published pages back and stays within the allocation's pages; new nodes hang
  under a node that is not in \<open>leaves\<close> and has no child for the first block, and a call that adds
  no node rests on the root or on a node without children.
\<close>

definition publish_clean :: "trie_allocation \<Rightarrow> py_tokens \<Rightarrow> 'c trie_cache \<Rightarrow> bool" where
  "publish_clean a tk c \<longleftrightarrow>
     (let tpp = tc_tokens_per_page c;
          tokens = tokens_val c tk;
          mine = (if length tokens > length (tokens_val c (ta_tokens a)) then tokens
                  else tokens_val c (ta_tokens a));
          first = ta_number_of_published_pages a;
          till = length tokens div tpp;
          last_node = ta_last_cached_node a
      in \<not> ta_is_released a \<and> first \<le> till \<and> till \<le> length (ta_pages a) \<and>
         (if first = till then last_node = tc_root c \<or> kids c last_node = []
          else last_node \<notin> set (tc_leaves c) \<and>
               map_of (kids c last_node) (py_slice mine (first * tpp) (first * tpp + tpp)) = None))"

lemma publish_blocks:
  assumes tpp: "0 < tpp" and le: "first \<le> till" and len: "till * tpp \<le> length mine"
    and pages: "till \<le> length (ps :: nat list)"
  defines "bs \<equiv> zip (blocks_from (first * tpp) tpp mine) (py_slice ps first till)"
  shows "map snd bs = py_slice ps first till" and "length bs = till - first"
    and "bs \<noteq> [] \<Longrightarrow> fst (hd bs) = py_slice mine (first * tpp) (first * tpp + tpp)"
    and "first = till \<longleftrightarrow> bs = []"
proof -
  let ?B = "blocks_from (first * tpp) tpp mine"
  have lp: "length (py_slice ps first till) = till - first" using pages by simp
  have "till - first \<le> length ?B"
  proof (cases "first = till")
    case False
    have ft: "first * tpp \<le> length mine" using le len by (meson le_trans mult_le_mono1)
    have eq: "int (length ?B) = ceil_div (int (length mine) - int (first * tpp)) (int tpp)"
      using length_blocks_from [OF tpp ft] .
    have "int (till - first) * int tpp \<le> int (length mine) - int (first * tpp)"
    proof -
      have "int (till - first) * int tpp + int (first * tpp) = int (till * tpp)"
        using le by (simp add: of_nat_diff algebra_simps)
      with len show ?thesis by linarith
    qed
    also have "\<dots> \<le> ceil_div (int (length mine) - int (first * tpp)) (int tpp) * int tpp"
      using tpp by (intro ceil_div_upper) simp
    finally have "int (till - first) \<le> int (length ?B)" using tpp eq by simp
    then show ?thesis by simp
  qed simp
  with lp show len_bs: "length bs = till - first" and "map snd bs = py_slice ps first till"
    by (auto simp: bs_def map_snd_zip_take)
  then show "first = till \<longleftrightarrow> bs = []" using le by auto
  assume "bs \<noteq> []"
  then have "?B \<noteq> []" "py_slice ps first till \<noteq> []" by (auto simp: bs_def)
  then have "fst (hd bs) = hd ?B" by (simp add: bs_def hd_zip)
  also have "\<dots> = take tpp (drop (first * tpp) mine)"
    using \<open>?B \<noteq> []\<close> by (subst blocks_from_unfold) (simp add: blocks_from_unfold [of "first * tpp"] split: if_splits)
  finally show "fst (hd bs) = py_slice mine (first * tpp) (first * tpp + tpp)"
    by (simp add: py_slice_def)
qed

text \<open>What a successful clean publication does to the allocation and the trie.\<close>

lemma trie_publish_cases:
  assumes "trie_publish_pages_for_tokens a tk inc c = (r, a', c')"
  obtains (refused) e where "r = Inl e" "c' = c" "a' = a \<or> a' = a\<lparr>ta_tokens := tk\<rparr>"
    | (published) mine bs cur c1 where "r = Inr ()"
      "mine = (if length (tokens_val c tk) > length (tokens_val c (ta_tokens a)) then tokens_val c tk
               else tokens_val c (ta_tokens a))"
      "bs = zip (blocks_from (ta_number_of_published_pages a * tc_tokens_per_page c)
                   (tc_tokens_per_page c) mine)
              (py_slice (ta_pages a) (ta_number_of_published_pages a)
                 (length (tokens_val c tk) div tc_tokens_per_page c))"
      "publish_loop (ta_last_cached_node a) bs c = (cur, c1)"
      "ta_pages a' = ta_pages a" "ta_is_released a' = ta_is_released a"
      "ta_number_of_published_pages a' = length (tokens_val c tk) div tc_tokens_per_page c"
      "ta_tokens a' = (if length (tokens_val c tk) > length (tokens_val c (ta_tokens a))
                       then tk else ta_tokens a)"
      "let c2 = (if cur \<noteq> tc_root c1 then leaves_add cur c1 else c1) in
         (if blocks_from (ta_number_of_published_pages a * tc_tokens_per_page c)
               (tc_tokens_per_page c) mine \<noteq> []
          then ta_last_cached_node a' = cur \<and>
            c' = ref_decrement (ta_last_cached_node a) (ref_increment cur c2)
          else ta_last_cached_node a' = ta_last_cached_node a \<and> c' = c2)"
proof (cases r)
  case (Inl e)
  with assms show ?thesis
    by (intro refused) (auto simp: trie_publish_pages_for_tokens_def Let_def split: if_splits prod.splits)
next
  case (Inr u)
  define a1 where "a1 = (if length (tokens_val c tk) > length (tokens_val c (ta_tokens a))
    then a\<lparr>ta_tokens := tk\<rparr> else a)"
  define till where "till = length (tokens_val c tk) div tc_tokens_per_page c"
  define B where "B = blocks_from (ta_number_of_published_pages a * tc_tokens_per_page c)
    (tc_tokens_per_page c) (tokens_val c (ta_tokens a1))"
  let ?bs = "zip B (py_slice (ta_pages a) (ta_number_of_published_pages a) till)"
  obtain cur c1 where loop: "publish_loop (ta_last_cached_node a) ?bs c = (cur, c1)" by fastforce
  have f: "ta_number_of_published_pages a1 = ta_number_of_published_pages a"
    "ta_pages a1 = ta_pages a" "ta_last_cached_node a1 = ta_last_cached_node a"
    "ta_is_released a1 = ta_is_released a"
    "ta_tokens a1 = (if length (tokens_val c tk) > length (tokens_val c (ta_tokens a)) then tk
      else ta_tokens a)" by (simp_all add: a1_def)
  from Inr assms have noinc: "\<not> inc" and pre: "has_common_prefix (tokens_val c (ta_tokens a)) (tokens_val c tk)"
    by (auto simp: trie_publish_pages_for_tokens_def Let_def split: if_splits prod.splits)
  have eq: "(r, a', c') = (let c2 = (if cur \<noteq> tc_root c1 then leaves_add cur c1 else c1) in
     (Inr (), (if B \<noteq> [] then a1\<lparr>ta_last_cached_node := cur\<rparr> else a1)
        \<lparr>ta_number_of_published_pages := till\<rparr>,
      if B \<noteq> [] then ref_decrement (ta_last_cached_node a) (ref_increment cur c2) else c2))"
    using assms noinc pre loop
    unfolding trie_publish_pages_for_tokens_def Let_def a1_def [symmetric] f(1-4)
    by (cases "B = []") (auto simp: B_def [symmetric] till_def [symmetric])
  have m: "tokens_val c (ta_tokens a1) = (if length (tokens_val c tk) > length (tokens_val c (ta_tokens a))
      then tokens_val c tk else tokens_val c (ta_tokens a))" by (simp add: a1_def)
  show ?thesis
  proof (rule published [OF _ m refl loop [unfolded B_def till_def]])
    show "r = Inr ()" "ta_pages a' = ta_pages a" "ta_is_released a' = ta_is_released a"
      "ta_number_of_published_pages a' = length (tokens_val c tk) div tc_tokens_per_page c"
      "ta_tokens a' = (if length (tokens_val c tk) > length (tokens_val c (ta_tokens a))
                       then tk else ta_tokens a)"
      using eq f by (auto simp: Let_def till_def)
    show "let c2 = (if cur \<noteq> tc_root c1 then leaves_add cur c1 else c1) in
         (if blocks_from (ta_number_of_published_pages a * tc_tokens_per_page c)
    (tc_tokens_per_page c) (tokens_val c (ta_tokens a1)) \<noteq> [] then ta_last_cached_node a' = cur \<and>
            c' = ref_decrement (ta_last_cached_node a) (ref_increment cur c2)
          else ta_last_cached_node a' = ta_last_cached_node a \<and> c' = c2)"
      using eq f unfolding B_def [symmetric] by (auto simp: Let_def)
  qed
qed

lemma trie_publish_run:
  assumes s: "sys_ok c as" and i: "i < length as" and clean: "publish_clean (as ! i) tk c"
    and q: "trie_publish_pages_for_tokens (as ! i) tk inc c = (r, a', c')"
  shows "sys_ok c' (as[i := a']) \<and> page_balance c' (as[i := a']) = page_balance c as \<and>
    tc_lists c' = tc_lists c \<and> tc_root c' = tc_root c \<and> \<not> ta_is_released a'"
  using q
proof (cases rule: trie_publish_cases)
  case (refused e)
  let ?a = "as ! i"
  have aok: "alloc_ok c ?a" using sys_okD(2) [OF s] i by simp
  then have "alloc_ok c a'" "unpublished a' = unpublished ?a"
    "ta_is_released a' = ta_is_released ?a" "ta_last_cached_node a' = ta_last_cached_node ?a"
    using refused(3) by (auto simp: alloc_ok_def unpublished_def)
  with refused(2) clean show ?thesis
    using sys_ok_update [OF s i] page_balance_update [OF i, of c a' c]
    by (simp add: publish_clean_def Let_def)
next
  case (published mine bs cur c1)
  let ?a = "as ! i"
  define first till where "first = ta_number_of_published_pages ?a"
    and "till = length (tokens_val c tk) div tc_tokens_per_page c"
  let ?l = "ta_last_cached_node ?a"
  note ok = sys_okD [OF s]
  have t: "trie_tree c" by (rule ok(1))
  then have l: "trie_links c" and tpp: "0 < tc_tokens_per_page c"
    by (auto simp: trie_tree_def trie_links_def)
  have live: "\<not> ta_is_released ?a" and ft: "first \<le> till" and tl: "till \<le> length (ta_pages ?a)"
    and whole: "first = till \<Longrightarrow> ?l = tc_root c \<or> kids c ?l = []"
    and part: "first \<noteq> till \<Longrightarrow> ?l \<notin> set (tc_leaves c) \<and> map_of (kids c ?l)
        (py_slice mine (first * tc_tokens_per_page c) (first * tc_tokens_per_page c + tc_tokens_per_page c)) = None"
    using clean by (auto simp: publish_clean_def Let_def published(2) first_def till_def split: if_splits)
  have aok: "alloc_ok c ?a" using ok(2) i by simp
  with live have lk: "linked c ?l" and pub: "take first (ta_pages ?a) = map (pg c) (node_path c ?l)"
    by (auto simp: alloc_ok_def first_def)
  then have lN: "?l < tc_next c" by (simp add: linked_def)
  have "till * tc_tokens_per_page c \<le> length (tokens_val c tk)" by (simp add: till_def)
  then have "till * tc_tokens_per_page c \<le> length mine"
    using published(2) by (auto split: if_splits)
  note pb = publish_blocks [OF tpp ft this tl, folded published(3) [folded first_def till_def]]
  have bsne: "bs \<noteq> [] \<longleftrightarrow> first \<noteq> till" using pb(4) by simp
  have refsl: "pins as j \<le> refs c j" if "j < tc_next c" for j using ok(3) that .
  define c2 where "c2 = (if cur \<noteq> tc_root c1 then leaves_add cur c1 else c1)"
  have grow: "trie_tree c2 \<and> linked c2 cur \<and> grown c c1 \<and> tc_next c1 = tc_next c + length bs \<and>
      node_path c1 cur = node_path c1 ?l @ [tc_next c..<tc_next c + length bs] \<and>
      (\<forall>j < length bs. pg c1 (tc_next c + j) = snd (bs ! j) \<and> par c1 (tc_next c + j) \<noteq> None) \<and>
      (bs = [] \<longrightarrow> cur = ?l \<and> c1 = c)"
  proof (cases "bs = []")
    case True
    with published(4) have cc: "cur = ?l" "c1 = c" by auto
    have "trie_tree c2"
    proof (cases "cur = tc_root c1")
      case False
      with cc lk whole True bsne have "is_leaf_node c cur" by (auto simp: linked_def is_leaf_node_def)
      then have "cur \<in> set (tc_leaves c)" using trie_tree_leaf [OF t] by simp
      then have "leaves_add cur c1 = c" using cc by (simp add: leaves_add_def)
      with t False show ?thesis by (simp add: c2_def)
    qed (use t cc in \<open>simp add: c2_def\<close>)
    moreover have "linked c2 cur" using cc lk by (auto simp: c2_def linked_def)
    ultimately show ?thesis using cc True by (simp add: grown_refl)
  next
    case False
    with part bsne have o: "open_tree c ?l" by (intro trie_tree_open t lk) auto
    have fresh: "bs \<noteq> [] \<Longrightarrow> map_of (kids c ?l) (fst (hd bs)) = None" using pb(3) part bsne by simp
    note pr = publish_loop_run [OF o fresh published(4)]
    then have lf: "is_leaf_node c1 cur" using False by simp
    then have "cur \<noteq> tc_root c1" using pr by (auto simp: is_leaf_node_def open_tree_def trie_links_def)
    then have "trie_tree c2" using open_tree_close [of c1 cur] pr lf by (simp add: c2_def)
    moreover have "linked c2 cur" using lf by (simp add: c2_def linked_def is_leaf_node_def)
    ultimately show ?thesis using pr False by simp
  qed
  then have t2: "trie_tree c2" and lk2: "linked c2 cur" and g: "grown c c1"
    and nx: "tc_next c1 = tc_next c + length bs"
    and np: "node_path c1 cur = node_path c1 ?l @ [tc_next c..<tc_next c + length bs]"
    and pgs: "\<And>j. j < length bs \<Longrightarrow> pg c1 (tc_next c + j) = snd (bs ! j) \<and> par c1 (tc_next c + j) \<noteq> None"
    and emp: "bs = [] \<Longrightarrow> cur = ?l \<and> c1 = c" by auto
  note gd = grownD [OF g]
  have filed: "\<forall>i < tc_next c. node_filed c i" using t by (simp add: trie_tree_def)
  have path: "node_path c1 n = node_path c n" if "n < tc_next c" for n
    using grown_path [OF g filed l that] .
  have p12: "node_path c2 n = node_path c1 n" for n
  proof (induction n rule: less_induct)
    case (less n)
    then show ?case by (subst (1 2) node_path.simps) (auto simp: c2_def split: option.splits)
  qed
  have f2: "tc_next c2 = tc_next c1" "pg c2 j = pg c1 j" "par c2 j = par c1 j" "refs c2 j = refs c1 j"
    "tavail c2 = tavail c1" "tc_root c2 = tc_root c1" "tc_lists c2 = tc_lists c1" for j
    by (simp_all add: c2_def)
  have newp: "map (pg c1) (node_path c1 cur) = take till (ta_pages ?a)"
  proof -
    have "map (pg c1) [tc_next c..<tc_next c + length bs] = map snd bs"
      using pgs by (intro nth_equalityI) auto
    moreover have "map (pg c1) (node_path c ?l) = map (pg c) (node_path c ?l)"
      using node_path_linked [OF t lk] gd(10) by (intro map_cong) (auto simp: linked_def)
    ultimately have "map (pg c1) (node_path c1 cur) = take first (ta_pages ?a) @ py_slice (ta_pages ?a) first till"
      using np path [OF lN] pub pb(1) by simp
    also have "\<dots> = take till (ta_pages ?a)"
      using ft by (metis le_add_diff_inverse py_slice_def take_add)
    finally show ?thesis .
  qed
  have a'ok: "alloc_ok c2 (?a\<lparr>ta_last_cached_node := cur, ta_number_of_published_pages := till\<rparr>)"
    using lk2 tl newp p12 f2(2) by (simp add: alloc_ok_def)
  have others: "alloc_ok c2 b" if "b \<in> set as" for b
  proof (cases "ta_is_released b")
    case False
    let ?m = "ta_last_cached_node b"
    from ok(2) [OF that] False have lb: "linked c ?m" by (simp add: alloc_ok_def)
    then have mN: "?m < tc_next c" by (simp add: linked_def)
    have "linked c2 ?m" using grown_linked [OF g lb] f2 by (simp add: linked_def)
    moreover have "map (pg c2) (node_path c2 ?m) = map (pg c) (node_path c ?m)"
      unfolding p12 path [OF mN] using node_path_linked [OF t lb] gd(10) f2(2)
      by (intro map_cong) (auto simp: linked_def)
    ultimately show ?thesis using ok(2) [OF that] False by (simp add: alloc_ok_def)
  qed (simp add: alloc_ok_def)
  have pins2: "pins as j \<le> refs c2 j" if "j < tc_next c2" for j
  proof (cases "j < tc_next c")
    case True
    with refsl gd(11) f2(4) show ?thesis by simp
  next
    case False
    have "pins_at j b = 0" if "b \<in> set as" for b
      using ok(2) [OF that] False by (auto simp: pins_at_def alloc_ok_def linked_def)
    then have "pins as j = 0" by (simp add: pins_def sum_list_0 cong: map_cong)
    moreover have "refs c2 j = 0" using gd(12) [of j] False that f2(1,4) by simp
    ultimately show ?thesis by simp
  qed
  have tp: "tree_pages c2 = tree_pages c + mset (py_slice (ta_pages ?a) first till)"
  proof -
    have "tree_pages c2 = tree_pages c1" using f2 by (simp add: tree_pages_def)
    also have "\<dots> = tree_pages c + mset (map snd bs)"
      using pgs by (intro grown_tree_pages [OF g]) (auto simp: nx)
    finally show ?thesis using pb(1) by simp
  qed
  have un: "mset (py_slice (ta_pages ?a) first till) + mset (drop till (ta_pages ?a))
      = mset (drop first (ta_pages ?a))"
    using mset_take_drop [of "till - first" "drop first (ta_pages ?a)"] ft by (simp add: py_slice_def)
  consider (none) "ta_last_cached_node a' = ?l" "c' = c2" "cur = ?l" "c1 = c"
    | (some) "ta_last_cached_node a' = cur" "c' = ref_decrement ?l (ref_increment cur c2)"
  proof (cases "blocks_from (ta_number_of_published_pages ?a * tc_tokens_per_page c) (tc_tokens_per_page c) mine = []")
    case True
    then have "bs = []" using published(3) by simp
    with emp published(9) True show ?thesis by (intro none) (auto simp: c2_def Let_def)
  next
    case False
    with published(9) show ?thesis by (intro some) (auto simp: c2_def Let_def)
  qed
  then have fin: "trie_tree c' \<and> (\<forall>b. alloc_ok c' b = alloc_ok c2 b) \<and> tree_pages c' = tree_pages c2 \<and>
      tavail c' = tavail c2 \<and> tc_lists c' = tc_lists c2 \<and> tc_root c' = tc_root c2 \<and>
      ta_last_cached_node a' = cur \<and> tc_next c' = tc_next c2 \<and>
      (\<forall>j. refs c' j = refs c2 j + (if j = cur then 1 else 0) - (if j = ?l then 1 else 0))"
  proof cases
    case none
    with t2 show ?thesis by simp
  next
    case some
    have sl: "same_links c2 c'" unfolding some(2) by (rule same_links_trans) (rule same_links_ref)+
    note ss = same_links_sys [OF sl]
    show ?thesis using some t2 same_links_preds(2) [OF sl] ss by simp
  qed
  have a'eq: "alloc_ok c' a' = alloc_ok c2 (?a\<lparr>ta_last_cached_node := cur, ta_number_of_published_pages := till\<rparr>)"
  proof -
    have "alloc_ok c' a' = alloc_ok c2 a'" using fin by blast
    moreover have "ta_last_cached_node a' = cur" using fin by blast
    ultimately show ?thesis
      using published(5-7) till_def by (simp add: alloc_ok_def)
  qed
  have "pins (as[i := a']) j \<le> refs c' j" if "j < tc_next c'" for j
    using pins_update [OF i, of a' j] pins2 [of j] that fin live published(6)
    by (auto simp: pins_at_def)
  moreover have "alloc_ok c' b" if "b \<in> set (as[i := a'])" for b
  proof -
    have "b = a' \<or> b \<in> set as" using that set_update_subset_insert by fastforce
    moreover have "alloc_ok c' b = alloc_ok c2 b" using fin by blast
    ultimately show ?thesis using others a'ok a'eq by blast
  qed
  moreover have "trie_tree c'" using fin by blast
  ultimately have sys: "sys_ok c' (as[i := a'])" unfolding sys_ok_def list_all_iff by blast
  have "unpublished a' = mset (drop till (ta_pages ?a))"
    using published(5-7) live till_def by (simp add: unpublished_def)
  moreover have "unpublished ?a = mset (drop first (ta_pages ?a))"
    using live by (simp add: unpublished_def first_def)
  ultimately have "page_balance c' (as[i := a']) = page_balance c as"
    using fin tp un f2(5) gd(4) by (intro page_balance_update [OF i]) (simp add: ac_simps)
  with sys fin f2 gd(2,6) live published(6) show ?thesis by simp
qed

subsection \<open>Steps and reachable states\<close>

text \<open>
  \<open>clean_step\<close> is the calls with the condition above on publications, and with extensions of
  unreleased allocations only. The code checks neither: this is a condition on the clients, and
  \<open>trie_step_any\<close> of \<open>Trie_Any\<close> drops it. What becomes of the trie without it is in
  \<open>trie_second_publish_evicts_live_page\<close> and \<open>trie_duplicate_publish_breaks_eviction\<close>.
\<close>

record 'c trie_sys =
  ts_cache :: "'c trie_cache"
  ts_allocs :: "trie_allocation list"

inductive clean_step :: "'c trie_sys \<Rightarrow> 'c trie_sys \<Rightarrow> bool" where
  step_acquire:
    "trie_acquire_pages_for_tokens tk extra (ts_cache s) = (Inr a, c) \<Longrightarrow>
     clean_step s (s\<lparr>ts_cache := c, ts_allocs := ts_allocs s @ [a]\<rparr>)"
| step_acquire_fails:
    "trie_acquire_pages_for_tokens tk extra (ts_cache s) = (Inl e, c) \<Longrightarrow>
     clean_step s (s\<lparr>ts_cache := c\<rparr>)"
| step_extend:
    "i < length (ts_allocs s) \<Longrightarrow> \<not> ta_is_released (ts_allocs s ! i) \<Longrightarrow>
     trie_extend_allocation (ts_allocs s ! i) tk extra (ts_cache s) = (r, a, c) \<Longrightarrow>
     clean_step s (s\<lparr>ts_cache := c, ts_allocs := (ts_allocs s)[i := a]\<rparr>)"
| step_release:
    "i < length (ts_allocs s) \<Longrightarrow>
     trie_release_pages (ts_allocs s ! i) (ts_cache s) = (r, a, c) \<Longrightarrow>
     clean_step s (s\<lparr>ts_cache := c, ts_allocs := (ts_allocs s)[i := a]\<rparr>)"
| step_publish:
    "i < length (ts_allocs s) \<Longrightarrow> publish_clean (ts_allocs s ! i) tk (ts_cache s) \<Longrightarrow>
     trie_publish_pages_for_tokens (ts_allocs s ! i) tk inc (ts_cache s) = (r, a, c) \<Longrightarrow>
     clean_step s (s\<lparr>ts_cache := c, ts_allocs := (ts_allocs s)[i := a]\<rparr>)"
| step_append: "clean_step s (s\<lparr>ts_cache := list_append l x (ts_cache s)\<rparr>)"

inductive clean_reachable :: "'c trie_cache \<Rightarrow> 'c trie_sys \<Rightarrow> bool" for c0 where
  trie_start: "clean_reachable c0 \<lparr>ts_cache = c0, ts_allocs = []\<rparr>"
| trie_next: "clean_reachable c0 s \<Longrightarrow> clean_step s t \<Longrightarrow> clean_reachable c0 t"

lemma list_append_frame [simp]:
  "tc_nodes (list_append l x c) = tc_nodes c" "tc_root (list_append l x c) = tc_root c"
  "tc_next (list_append l x c) = tc_next c" "tc_leaves (list_append l x c) = tc_leaves c"
  "tc_page_pool (list_append l x c) = tc_page_pool c" "tc_addr (list_append l x c) = tc_addr c"
  "tc_tokens_per_page (list_append l x c) = tc_tokens_per_page c"
  by (simp_all add: list_append_def)

lemma node_path_cong: "tc_nodes c' = tc_nodes c \<Longrightarrow> node_path c' n = node_path c n"
proof (induction n rule: less_induct)
  case (less n)
  then show ?case by (subst (1 2) node_path.simps) (auto split: option.splits)
qed

lemma list_append_sys:
  "sys_ok (list_append l x c) as = sys_ok c as"
  "page_balance (list_append l x c) as = page_balance c as"
proof -
  let ?d = "list_append l x c"
  have "node_links ?d = node_links c" "is_leaf_node ?d = is_leaf_node c" "linked ?d = linked c"
    by (simp_all add: fun_eq_iff node_links_def is_leaf_node_def linked_def)
  moreover have "node_filed ?d = node_filed c"
    by (simp add: fun_eq_iff node_filed_def cong: option.case_cong)
  ultimately have "trie_tree ?d = trie_tree c" and "alloc_ok ?d = alloc_ok c"
    using node_path_cong [of ?d c]
    by (simp_all add: fun_eq_iff trie_tree_def trie_links_def alloc_ok_def)
  then show "sys_ok ?d as = sys_ok c as" by (simp add: sys_ok_def)
  show "page_balance ?d as = page_balance c as" by (simp add: page_balance_def tree_pages_def)
qed

lemma clean_step_ok:
  assumes "clean_step s t" and "sys_ok (ts_cache s) (ts_allocs s)"
  shows "sys_ok (ts_cache t) (ts_allocs t) \<and>
    page_balance (ts_cache t) (ts_allocs t) \<subseteq># page_balance (ts_cache s) (ts_allocs s)"
  using assms
proof (induction rule: clean_step.induct)
  case (step_acquire tk extra s a c)
  from trie_acquire_run(3) [OF step_acquire(2,1) refl] show ?case by simp
next
  case (step_acquire_fails tk extra s e c)
  from trie_acquire_run(4) [OF step_acquire_fails(2,1) refl] show ?case by simp
next
  case (step_extend i s tk extra r a c)
  from trie_extend_run(1,2) [OF step_extend(4,1,2,3)] show ?case by simp
next
  case (step_release i s r a c)
  from trie_release_run(1,2) [OF step_release(3,1,2)] show ?case by simp
next
  case (step_publish i s tk inc r a c)
  from trie_publish_run [OF step_publish(4,1,2,3)] show ?case by simp
next
  case (step_append s l x)
  then show ?case by (simp add: list_append_sys)
qed

lemma trie_cache_init_ok:
  assumes "trie_cache_init addr clock objs p tpp = Inr c"
  shows "sys_ok c []" and "page_balance c [] = mset (pp_available_pages p)" and "tavail c = pp_available_pages p"
    and "tc_tokens_per_page c = nat tpp" and "0 < tpp"
proof -
  have [simp]: "{x::nat. x = 0 \<and> 0 < x} = {}" by auto
  show "sys_ok c []" and "page_balance c [] = mset (pp_available_pages p)" and "tavail c = pp_available_pages p"
    and "tc_tokens_per_page c = nat tpp" and "0 < tpp"
  using assms
  by (auto simp: trie_cache_init_def new_trie_node_def monotonic_def Let_def sys_ok_def trie_tree_def
      trie_links_def node_links_def node_filed_def is_leaf_node_def pins_def page_balance_def
      tree_pages_def rc_new_def split: if_splits)
qed

lemma clean_reachable_ok:
  assumes "clean_reachable c0 s" and "trie_cache_init addr clock objs p tpp = Inr c0"
  shows "sys_ok (ts_cache s) (ts_allocs s) \<and>
    page_balance (ts_cache s) (ts_allocs s) \<subseteq># mset (pp_available_pages p)"
  using assms
proof (induction rule: clean_reachable.induct)
  case trie_start
  then show ?case using trie_cache_init_ok by (metis select_convs(1) select_convs(2) subset_mset.order_refl)
next
  case (trie_next s t)
  then show ?case using clean_step_ok [OF trie_next(2)] subset_mset.order_trans by blast
qed

subsection \<open>What the invariant says about pages\<close>

lemma unpublished_member: "a \<in> set as \<Longrightarrow> unpublished a \<subseteq># sum_list (map unpublished as)"
proof (induction as)
  case (Cons b as)
  then show ?case by (auto intro: subset_mset.order_trans)
qed simp

lemma unpublished_pair:
  "i < length as \<Longrightarrow> j < length as \<Longrightarrow> i \<noteq> j \<Longrightarrow>
   unpublished (as ! i) + unpublished (as ! j) \<subseteq># sum_list (map unpublished as)"
proof (induction as arbitrary: i j)
  case (Cons b as)
  have one: "unpublished b + unpublished (as ! k) \<subseteq># sum_list (map unpublished (b # as))"
    if "k < length as" for k
    using unpublished_member [OF nth_mem [OF that]] by simp
  show ?case
  proof (cases i; cases j)
    fix i' j' assume "i = Suc i'" "j = Suc j'"
    with Cons.prems Cons.IH [of i' j'] show ?thesis
      by (auto intro: subset_mset.order_trans)
  qed (use Cons.prems one in \<open>auto simp: add.commute\<close>)
qed simp

lemma mset_sub_distinct:
  assumes "A + B \<subseteq># mset xs" and "distinct xs" and "x \<in># A"
  shows "x \<notin># B"
proof
  assume "x \<in># B"
  then have "0 < count A x" "0 < count B x"
    using assms(3) by (simp_all only: count_greater_zero_iff)
  then have "2 \<le> count (A + B) x" unfolding count_union by linarith
  also have "\<dots> \<le> count (mset xs) x" using assms(1) by (rule mset_subset_eq_count)
  also have "\<dots> \<le> 1" using assms(2) by (simp add: distinct_count_atmost_1)
  finally show False by simp
qed

lemma published_in_tree:
  assumes "sys_ok c as" and "a \<in> set as" and "\<not> ta_is_released a"
    and "p \<in> set (take (ta_number_of_published_pages a) (ta_pages a))"
  shows "p \<in># tree_pages c"
proof -
  let ?n = "ta_last_cached_node a"
  note ok = sys_okD [OF assms(1)]
  from ok(2) [OF assms(2)] assms(3,4) obtain i where l: "linked c ?n"
    and i: "i \<in> set (node_path c ?n)" "p = pg c i" by (auto simp: alloc_ok_def)
  from node_path_linked [OF ok(1) l i(1)] i(2) have "i < tc_next c" "par c i \<noteq> None" "p = pg c i"
    by (auto simp: linked_def)
  then show ?thesis by (auto simp: tree_pages_def)
qed

lemma pages_exclusive:
  assumes ok: "sys_ok c as" and bal: "page_balance c as \<subseteq># mset xs" and d: "distinct xs"
    and i: "i < length as" and live: "\<not> ta_is_released (as ! i)"
  shows "set (ta_pages (as ! i)) \<inter> set (tavail c) = {}"
    and "j < length as \<Longrightarrow> i \<noteq> j \<Longrightarrow> \<not> ta_is_released (as ! j) \<Longrightarrow>
      set (drop (ta_number_of_published_pages (as ! i)) (ta_pages (as ! i))) \<inter> set (ta_pages (as ! j)) = {}"
proof -
  let ?U = "\<lambda>k. unpublished (as ! k)" and ?S = "sum_list (map unpublished as)"
  have all: "mset (tavail c) + tree_pages c + ?S \<subseteq># mset xs" using bal by (simp add: page_balance_def)
  have split: "p \<in> set (ta_pages a) \<longleftrightarrow> p \<in> set (take (ta_number_of_published_pages a) (ta_pages a))
      \<or> p \<in> set (drop (ta_number_of_published_pages a) (ta_pages a))" for p a
    by (metis Un_iff append_take_drop_id set_append)
  have un: "p \<in> set (drop (ta_number_of_published_pages (as ! k)) (ta_pages (as ! k))) \<longleftrightarrow> p \<in># ?U k"
    if "\<not> ta_is_released (as ! k)" for p k using that by (simp add: unpublished_def)
  have mem: "p \<in># ?S" if "k < length as" "p \<in># ?U k" for p k
    using mset_subset_eqD [OF unpublished_member [OF nth_mem [OF that(1)]] that(2)] .
  have tree: "p \<in># tree_pages c" if "k < length as" "\<not> ta_is_released (as ! k)"
      "p \<in> set (take (ta_number_of_published_pages (as ! k)) (ta_pages (as ! k)))" for p k
    using published_in_tree [OF ok nth_mem [OF that(1)] that(2,3)] .
  show "set (ta_pages (as ! i)) \<inter> set (tavail c) = {}"
  proof (rule ccontr)
    assume "set (ta_pages (as ! i)) \<inter> set (tavail c) \<noteq> {}"
    then obtain p where p: "p \<in> set (ta_pages (as ! i))" "p \<in># mset (tavail c)" by auto
    from p(1) split have "p \<in># ?U i \<or> p \<in># tree_pages c" using un [OF live] tree [OF i live] by blast
    then have "p \<in># tree_pages c + ?S" using mem [OF i, of p] by (meson union_iff)
    moreover have "mset (tavail c) + (tree_pages c + ?S) \<subseteq># mset xs" using all by (simp add: ac_simps)
    ultimately show False using mset_sub_distinct [OF _ d p(2)] by blast
  qed
  assume j: "j < length as" "i \<noteq> j" "\<not> ta_is_released (as ! j)"
  show "set (drop (ta_number_of_published_pages (as ! i)) (ta_pages (as ! i))) \<inter> set (ta_pages (as ! j)) = {}"
  proof (rule ccontr)
    assume "\<not> ?thesis"
    then obtain p where p: "p \<in># ?U i" "p \<in> set (ta_pages (as ! j))" using un [OF live] by auto
    have "p \<in># ?U j \<or> p \<in># tree_pages c"
      using p(2) split [of p "as ! j"] un [OF j(3), of p] tree [OF j(1,3), of p] by blast
    then consider "p \<in># ?U j" | "p \<in># tree_pages c" by blast
    then show False
    proof cases
      case 1
      have "?U i + ?U j \<subseteq># ?S" by (rule unpublished_pair [OF i j(1,2)])
      also have "?S \<subseteq># mset xs" using all by (metis mset_subset_eq_add_right subset_mset.order_trans)
      finally show False using mset_sub_distinct [OF _ d p(1)] 1 by blast
    next
      case 2
      have "?S + tree_pages c \<subseteq># mset xs"
        using all by (metis add.assoc add.commute mset_subset_eq_add_right subset_mset.order_trans)
      then show False using mset_sub_distinct [OF _ d mem [OF i p(1)]] 2 by blast
    qed
  qed
qed

end
