(* ===== verification/Trie_Any.thy ===== *)
theory Trie_Any
  imports Trie_System
begin

section \<open>What holds under any calls whatsoever\<close>

text \<open>
  \<open>trie_step_any\<close> drops the condition on publications and the liveness conditions: clients call
  the operations in any order with any arguments, and a call that raises leaves the state it had
  reached. \<open>any_ok\<close> survives all of it; it is enough for the soundness of prefix matching.
\<close>

definition any_ok :: "'c trie_cache \<Rightarrow> trie_allocation list \<Rightarrow> bool" where
  "any_ok c as \<longleftrightarrow> trie_links c \<and>
     (\<forall>i < tc_next c. \<forall>p. par c i = Some p \<longrightarrow> p < tc_next c) \<and>
     list_all (\<lambda>i. i < tc_next c) (tc_leaves c) \<and>
     list_all (\<lambda>a. ta_last_cached_node a < tc_next c) as"

lemma any_okD:
  assumes "any_ok c as"
  shows "trie_links c" "i < tc_next c \<Longrightarrow> par c i = Some p \<Longrightarrow> p < tc_next c"
    "i \<in> set (tc_leaves c) \<Longrightarrow> i < tc_next c" "a \<in> set as \<Longrightarrow> ta_last_cached_node a < tc_next c"
  using assms by (auto simp: any_ok_def list_all_iff)

lemma any_okI:
  assumes "trie_links c" "\<And>i p. i < tc_next c \<Longrightarrow> par c i = Some p \<Longrightarrow> p < tc_next c"
    "\<And>i. i \<in> set (tc_leaves c) \<Longrightarrow> i < tc_next c" "\<And>a. a \<in> set as \<Longrightarrow> ta_last_cached_node a < tc_next c"
  shows "any_ok c as"
  using assms by (auto simp: any_ok_def list_all_iff)

lemma any_ok_same_links: "same_links c c' \<Longrightarrow> any_ok c as \<Longrightarrow> any_ok c' as"
  using same_linksD [of c c'] same_links_preds(1) [of c c'] by (simp add: any_ok_def)

lemma any_ok_ref:
  "any_ok c as \<Longrightarrow> any_ok (ref_increment i c) as" "any_ok c as \<Longrightarrow> any_ok (ref_decrement i c) as"
  by (erule any_ok_same_links [rotated], simp)+

lemma any_ok_update:
  assumes "any_ok c as" and "ta_last_cached_node a < tc_next c"
  shows "any_ok c (as[i := a])"
  using assms set_update_subset_insert [of as i a] by (auto simp: any_ok_def list_all_iff)

lemma any_ok_append: "any_ok c (as @ [a]) \<longleftrightarrow> any_ok c as \<and> ta_last_cached_node a < tc_next c"
  by (auto simp: any_ok_def)

lemma any_ok_leaves:
  assumes "any_ok c as" and "\<And>i. i \<in> set ls \<Longrightarrow> i < tc_next c"
  shows "any_ok (c\<lparr>tc_leaves := ls\<rparr>) as"
proof -
  have "node_links (c\<lparr>tc_leaves := ls\<rparr>) = node_links c" by (simp add: fun_eq_iff node_links_def)
  with assms show ?thesis by (simp add: any_ok_def trie_links_def list_all_iff)
qed

lemma kids_member:
  assumes "trie_links c" and "i < tc_next c"
  shows "(k, ch) \<in> set (kids c i) \<longleftrightarrow> map_of (kids c i) k = Some ch"
  using assms by (auto simp: trie_links_def node_links_def dest: map_of_SomeD)

subsection \<open>Unlinking and eviction\<close>

lemma unlink_any:
  assumes a: "any_ok c as" and i: "i < tc_next c" and u: "unlink i c = (r, c1)"
  shows "any_ok c1 as" and "tc_next c1 = tc_next c" and "tc_root c1 = tc_root c"
    and "tc_leaves c1 = tc_leaves c" and "tc_page_pool c1 = tc_page_pool c"
proof -
  note ok = any_okD [OF a]
  have "any_ok c1 as \<and> tc_next c1 = tc_next c \<and> tc_root c1 = tc_root c \<and>
    tc_leaves c1 = tc_leaves c \<and> tc_page_pool c1 = tc_page_pool c"
  proof (cases "c1 = c")
    case False
    with u obtain p where p: "par c i = Some p" and k: "map_of (kids c p) (toks c i) \<noteq> None"
      and c1: "c1 = node_upd i (\<lambda>n. n\<lparr>tn_parent := None\<rparr>)
        (node_upd p (\<lambda>n. n\<lparr>tn_children := AList.delete (toks c i) (tn_children n)\<rparr>) c)"
      by (auto simp: unlink_def Let_def split: option.splits if_splits)
    have kd: "kids c1 j = (if j = p then AList.delete (toks c i) (kids c p) else kids c j)" for j
      by (simp add: c1)
    have pr: "par c1 j = (if j = i then None else par c j)" and tk: "toks c1 j = toks c j" for j
      by (simp_all add: c1)
    have fr: "tc_next c1 = tc_next c" "tc_root c1 = tc_root c" "tc_leaves c1 = tc_leaves c"
      "tc_tokens_per_page c1 = tc_tokens_per_page c" "tc_page_pool c1 = tc_page_pool c" by (simp_all add: c1)
    have "node_links c1 j" if j: "j < tc_next c" for j
      unfolding node_links_def
    proof (intro conjI ballI)
      have nj: "node_links c j" using ok(1) j by (simp add: trie_links_def)
      show "distinct (map fst (kids c1 j))"
        using nj by (auto simp: kd node_links_def intro: AList.distinct_delete)
      fix x assume x: "x \<in> set (kids c1 j)"
      then have xc: "x \<in> set (kids c j)" and xk: "j = p \<Longrightarrow> fst x \<noteq> toks c i"
        by (auto simp: kd AList.delete_eq split: if_splits)
      obtain k ch where kx: "x = (k, ch)" by (cases x)
      with nj xc have ch: "j < ch" "ch < tc_next c" "toks c ch = k" "par c ch = Some j"
        by (auto simp: node_links_def)
      have "ch \<noteq> i" using ch(3,4) xk p kx by auto
      with ch kx show "case x of (k, ch) \<Rightarrow>
          j < ch \<and> ch < tc_next c1 \<and> toks c1 ch = k \<and> par c1 ch = Some j"
        by (simp add: fr tk pr)
    qed
    then have "trie_links c1" using ok(1) by (simp add: trie_links_def fr pr)
    then have "any_ok c1 as"
      by (rule any_okI) (auto simp: fr pr split: if_splits intro: ok)
    with fr show ?thesis by simp
  qed (use a in simp)
  then show "any_ok c1 as" "tc_next c1 = tc_next c" "tc_root c1 = tc_root c"
    "tc_leaves c1 = tc_leaves c" "tc_page_pool c1 = tc_page_pool c" by auto
qed

lemma evict_loop_any:
  "any_ok c as \<Longrightarrow> list_all (\<lambda>x. snd x < tc_next c) hp \<Longrightarrow> evict_loop n hp acc c = (r, c') \<Longrightarrow>
   any_ok c' as \<and> tc_next c' = tc_next c \<and> tc_root c' = tc_root c"
proof (induction n arbitrary: hp acc c)
  case 0
  then show ?case by auto
next
  case (Suc n)
  show ?case
  proof (cases "hp = []")
    case True
    with Suc.prems show ?thesis by auto
  next
    case False
    obtain tm i hp1 where pop: "heappop (heap_key c) hp = ((tm, i), hp1)" by (metis surj_pair)
    have "mset hp = add_mset (tm, i) (mset hp1)"
      using heap.pop_elems [of hp "heap_key c"] False pop by simp
    then have st: "set hp = insert (tm, i) (set hp1)" by (metis set_mset_mset set_mset_add_mset_insert)
    with Suc.prems(2) have i: "i < tc_next c" and h1: "list_all (\<lambda>x. snd x < tc_next c) hp1"
      by (auto simp: list_all_iff)
    obtain r1 c1 where u: "unlink i c = (r1, c1)" by fastforce
    note ua = unlink_any [OF Suc.prems(1) i u]
    obtain r2 c2 where lr: "leaves_remove i c1 = (r2, c2)" by fastforce
    have a2: "any_ok c2 as" and f2: "tc_next c2 = tc_next c" "tc_root c2 = tc_root c"
      using lr ua any_okD(3) [OF ua(1)] any_ok_leaves [OF ua(1), of "removeAll i (tc_leaves c1)"]
      by (auto simp: leaves_remove_def split: if_splits)
    note step = Suc.prems(3) [unfolded evict_loop.simps(2)] False pop u lr
    let ?acc = "acc @ [pg c i]"
    consider (err) "c' = c1 \<or> c' = c2" | (go) "evict_loop n hp1 ?acc c2 = (r, c')"
      | (grow) p where "par c i = Some p" "evict_loop n (if rc_is_empty (tn_ref_count (tc_nodes c2 p))
          then heappush (tn_access_time (tc_nodes c2 p), p) hp1 else hp1) ?acc (leaves_add p c2) = (r, c')"
      using step by (auto simp: Let_def split: sum.splits option.splits if_splits)
    then show ?thesis
    proof cases
      case err
      with ua a2 f2 show ?thesis by auto
    next
      case go
      with Suc.IH [OF a2 _ go] h1 f2 show ?thesis by simp
    next
      case (grow p)
      have p: "p < tc_next c" using any_okD(2) [OF Suc.prems(1) i grow(1)] .
      have "any_ok (leaves_add p c2) as"
        unfolding leaves_add_def using any_okD(3) [OF a2] p f2 by (intro any_ok_leaves [OF a2]) auto
      from Suc.IH [OF this _ grow(2)] h1 p f2 show ?thesis by (auto simp: heappush_def)
    qed
  qed
qed

lemma evict_pages_any:
  assumes "any_ok c as" and "evict_pages n c = (r, c')"
  shows "any_ok c' as \<and> tc_next c' = tc_next c \<and> tc_root c' = tc_root c"
proof -
  obtain r1 c1 where e: "evict_loop (nat n) (heapify (unused_leaves c)) [] c = (r1, c1)" by fastforce
  have "list_all (\<lambda>x. snd x < tc_next c) (heapify (unused_leaves c))"
    using any_okD(3) [OF assms(1)] by (auto simp: heapify_def unused_leaves_def list_all_iff)
  note ea = evict_loop_any [OF assms(1) this e]
  from assms(2) e have "c' = c1 \<or> (\<exists>p. c' = c1\<lparr>tc_page_pool := p\<rparr>)"
    by (auto simp: evict_pages_def split: sum.splits if_splits)
  with ea any_ok_same_links [OF same_links_pool] show ?thesis by auto
qed

lemma acquire_or_evict_any:
  assumes "any_ok c as" and "acquire_or_evict n c = (r, c')"
  shows "any_ok c' as \<and> tc_next c' = tc_next c \<and> tc_root c' = tc_root c"
    and "r = Inr ps \<Longrightarrow> length ps = nat n"
proof -
  obtain r1 c1 where 1: "pool_acquire n c = (r1, c1)" by fastforce
  from pool_acquire_cases [OF 1] obtain p1 where c1: "c1 = c\<lparr>tc_page_pool := p1\<rparr>"
    and a1: "acquire_free_pages (tc_page_pool c) n = (r1, p1)" by blast
  have ok1: "any_ok c1 as" unfolding c1 by (rule any_ok_same_links [OF same_links_pool assms(1)])
  let ?m = "n - int (length (tavail c1))"
  obtain r2 c2 where 2: "evict_pages ?m c1 = (r2, c2)" by fastforce
  note e2 = evict_pages_any [OF ok1 2]
  obtain r3 c3 where 3: "pool_acquire n c2 = (r3, c3)" by fastforce
  from pool_acquire_cases [OF 3] obtain p3 where c3: "c3 = c2\<lparr>tc_page_pool := p3\<rparr>"
    and a3: "acquire_free_pages (tc_page_pool c2) n = (r3, p3)" by blast
  have ok3: "any_ok c3 as" unfolding c3 using e2 by (intro any_ok_same_links [OF same_links_pool]) simp
  have c': "c' = c1 \<or> c' = c2 \<or> c' = c3"
    using assms(2) 1 2 3 by (auto simp: acquire_or_evict_def split: option.splits sum.splits)
  then show "any_ok c' as \<and> tc_next c' = tc_next c \<and> tc_root c' = tc_root c"
    using ok1 e2 ok3 c1 c3 by auto
  show "length ps = nat n" if "r = Inr ps"
  proof -
    have "r1 = Some ps \<or> r3 = Some ps"
      using assms(2) 1 2 3 that by (auto simp: acquire_or_evict_def split: option.splits sum.splits)
    with a1 a3 show ?thesis using pool.acquire_Some by blast
  qed
qed

subsection \<open>Publishing anything\<close>

lemma create_child_any:
  assumes a: "any_ok c as" and cur: "cur < tc_next c" and cc: "create_child cur blk page c = (n, c')"
  shows "any_ok c' as" and "n < tc_next c'" and "tc_next c \<le> tc_next c'" and "tc_root c' = tc_root c"
proof -
  note ok = any_okD [OF a] and cf = create_child_grown [OF cur cc]
  note g = grownD [OF cf(1)]
  have "node_links c' i" if i: "i < tc_next c'" for i
  proof (cases "i = n")
    case True
    then show ?thesis using cf(7) by (simp add: node_links_def)
  next
    case False
    with i cf have i: "i < tc_next c" by simp
    with ok(1) have ni: "node_links c i" by (simp add: trie_links_def)
    have d: "distinct (map fst (kids c' i))"
      using ni cf(8) cf(9) [of i] i by (cases "i = cur") (auto simp: node_links_def distinct_update)
    have "i < ch \<and> ch < tc_next c' \<and> toks c' ch = k \<and> par c' ch = Some i"
      if "(k, ch) \<in> set (kids c' i)" for k ch
    proof -
      have m: "map_of (kids c' i) k = Some ch" using that d by simp
      show ?thesis
      proof (cases "i = cur \<and> k = blk")
        case True
        with m cf(8) have "ch = n" by (simp add: update_conv')
        with True cf(2-6) cur show ?thesis by simp
      next
        case False
        have "map_of (kids c i) k = Some ch"
          using m cf(8) cf(9) [of i] i False by (cases "i = cur") (auto simp: update_conv' split: if_splits)
        from trie_links_child [OF ok(1) i this] g(1) g(8,9) [of ch] show ?thesis by auto
      qed
    qed
    with d show ?thesis by (auto simp: node_links_def)
  qed
  moreover have "tc_root c < tc_next c" "par c (tc_root c) = None" using ok(1) by (auto simp: trie_links_def)
  ultimately have tl: "trie_links c'" using ok(1) g(1,2,5,8) by (auto simp: trie_links_def)
  show "any_ok c' as"
  proof (rule any_okI [OF tl])
    fix i p assume "i < tc_next c'" "par c' i = Some p"
    then show "p < tc_next c'" using cf(2,3,6) g(1,8) ok(2) cur
      by (cases "i = n") (auto simp: less_Suc_eq)
  qed (use g(1,3) ok(3,4) in \<open>auto intro: less_le_trans\<close>)
  show "n < tc_next c'" "tc_next c \<le> tc_next c'" "tc_root c' = tc_root c" using cf(3) g(1,2) by auto
qed

lemma publish_loop_any:
  "any_ok c as \<Longrightarrow> cur < tc_next c \<Longrightarrow> publish_loop cur bs c = (r, c') \<Longrightarrow>
   any_ok c' as \<and> r < tc_next c' \<and> tc_next c \<le> tc_next c' \<and> tc_root c' = tc_root c"
proof (induction bs arbitrary: cur c)
  case (Cons b bs)
  obtain n c1 where cc: "create_child cur (fst b) (snd b) c = (n, c1)" by fastforce
  note ca = create_child_any [OF Cons.prems(1,2) cc]
  have "publish_loop n bs c1 = (r, c')" using Cons.prems(3) cc by (cases b) simp
  from Cons.IH [OF ca(1,2) this] ca(3,4) show ?case by auto
qed simp

lemma any_ok_leaves_add: "any_ok c as \<Longrightarrow> i < tc_next c \<Longrightarrow> any_ok (leaves_add i c) as"
  unfolding leaves_add_def by (rule any_ok_leaves) (auto dest: any_okD(3))

lemma trie_publish_any:
  assumes a: "any_ok c as" and i: "i < length as"
    and q: "trie_publish_pages_for_tokens (as ! i) tk inc c = (r, a', c')"
  shows "any_ok c' (as[i := a'])" and "tc_root c' = tc_root c"
proof -
  have l: "ta_last_cached_node (as ! i) < tc_next c" using any_okD(4) [OF a] i by simp
  have "any_ok c' (as[i := a']) \<and> tc_root c' = tc_root c"
    using q
  proof (cases rule: trie_publish_cases)
    case (refused e)
    then show ?thesis using a l by (auto intro!: any_ok_update)
  next
    case (published mine bs cur c1)
    note pa = publish_loop_any [OF a l published(4)]
    define c2 where "c2 = (if cur \<noteq> tc_root c1 then leaves_add cur c1 else c1)"
    have "any_ok c2 as" "tc_next c2 = tc_next c1" "tc_root c2 = tc_root c1"
      using pa any_ok_leaves_add by (auto simp: c2_def)
    moreover have "c' = ref_decrement (ta_last_cached_node (as ! i)) (ref_increment cur c2) \<or> c' = c2"
      using published(9) by (auto simp: c2_def Let_def split: if_splits)
    moreover have "ta_last_cached_node a' < tc_next c1"
      using published(9) pa l by (auto simp: Let_def split: if_splits)
    ultimately have "any_ok c' as" "tc_root c' = tc_root c1" "ta_last_cached_node a' < tc_next c'"
      by (auto intro: any_ok_ref)
    with pa show ?thesis by (auto intro: any_ok_update)
  qed
  then show "any_ok c' (as[i := a'])" "tc_root c' = tc_root c" by auto
qed

subsection \<open>All calls\<close>

inductive trie_step_any :: "'c trie_sys \<Rightarrow> 'c trie_sys \<Rightarrow> bool" where
  any_acquire:
    "trie_acquire_pages_for_tokens tk extra (ts_cache s) = (Inr a, c) \<Longrightarrow>
     trie_step_any s (s\<lparr>ts_cache := c, ts_allocs := ts_allocs s @ [a]\<rparr>)"
| any_acquire_fails:
    "trie_acquire_pages_for_tokens tk extra (ts_cache s) = (Inl e, c) \<Longrightarrow>
     trie_step_any s (s\<lparr>ts_cache := c\<rparr>)"
| any_extend:
    "i < length (ts_allocs s) \<Longrightarrow>
     trie_extend_allocation (ts_allocs s ! i) tk extra (ts_cache s) = (r, a, c) \<Longrightarrow>
     trie_step_any s (s\<lparr>ts_cache := c, ts_allocs := (ts_allocs s)[i := a]\<rparr>)"
| any_release:
    "i < length (ts_allocs s) \<Longrightarrow>
     trie_release_pages (ts_allocs s ! i) (ts_cache s) = (r, a, c) \<Longrightarrow>
     trie_step_any s (s\<lparr>ts_cache := c, ts_allocs := (ts_allocs s)[i := a]\<rparr>)"
| any_publish:
    "i < length (ts_allocs s) \<Longrightarrow>
     trie_publish_pages_for_tokens (ts_allocs s ! i) tk inc (ts_cache s) = (r, a, c) \<Longrightarrow>
     trie_step_any s (s\<lparr>ts_cache := c, ts_allocs := (ts_allocs s)[i := a]\<rparr>)"
| any_append: "trie_step_any s (s\<lparr>ts_cache := list_append l x (ts_cache s)\<rparr>)"

inductive trie_reachable_any :: "'c trie_cache \<Rightarrow> 'c trie_sys \<Rightarrow> bool" for c0 where
  any_start: "trie_reachable_any c0 \<lparr>ts_cache = c0, ts_allocs = []\<rparr>"
| any_next: "trie_reachable_any c0 s \<Longrightarrow> trie_step_any s t \<Longrightarrow> trie_reachable_any c0 t"

lemma trie_acquire_any:
  assumes a: "any_ok c as" and q: "trie_acquire_pages_for_tokens tk extra c = (r, c')"
  shows "any_ok c' as" and "r = Inr al \<Longrightarrow> ta_last_cached_node al < tc_next c'"
proof -
  let ?t = "tokens_val c tk"
  obtain cur matched c1 where m: "trie_match ?t c = ((cur, matched), c1)" by (metis surj_pair)
  note mr = trie_match_run [OF any_okD(1) [OF a] m]
  let ?c2 = "ref_increment cur c1"
  have "same_links c c1" using mr(3) by (simp add: touched_def)
  then have sl: "same_links c ?c2" by (rule same_links_trans) simp
  have a2: "any_ok ?c2 as" by (rule any_ok_same_links [OF sl a])
  let ?n = "ceil_div (int (length ?t) - int (length matched) * int (tc_tokens_per_page ?c2) + extra)
     (int (tc_tokens_per_page ?c2))"
  obtain r3 c3 where e: "acquire_or_evict ?n ?c2 = (r3, c3)" by fastforce
  note ea = acquire_or_evict_any(1) [OF a2 e]
  have "c' = c3" and rr: "r = Inr al \<Longrightarrow> ta_last_cached_node al = cur"
    using q m e by (auto simp: trie_acquire_pages_for_tokens_def Let_def new_trie_allocation_def
        split: sum.splits)
  with ea show "any_ok c' as" by simp
  show "ta_last_cached_node al < tc_next c'" if "r = Inr al"
    using rr [OF that] ea \<open>c' = c3\<close> same_linksD(2) [OF sl] mr(4) by (simp add: linked_def)
qed

lemma trie_extend_any:
  assumes a: "any_ok c as" and i: "i < length as"
    and q: "trie_extend_allocation (as ! i) tk extra c = (r, a', c')"
  shows "any_ok c' (as[i := a'])"
proof -
  have l: "ta_last_cached_node (as ! i) < tc_next c" using any_okD(4) [OF a] i by simp
  let ?n = "ceil_div (int (length (tokens_val c tk)) + extra) (int (tc_tokens_per_page c))
     - int (length (ta_pages (as ! i)))"
  obtain r1 c1 where e: "acquire_or_evict ?n c = (r1, c1)" by fastforce
  have "ta_last_cached_node a' = ta_last_cached_node (as ! i) \<and> (c' = c \<or> c' = c1)"
    using q e by (auto simp: trie_extend_allocation_def Let_def split: if_splits sum.splits)
  with acquire_or_evict_any(1) [OF a e] a l show ?thesis by (auto intro: any_ok_update)
qed

lemma trie_step_any_ok:
  assumes "trie_step_any s t" and "any_ok (ts_cache s) (ts_allocs s)"
  shows "any_ok (ts_cache t) (ts_allocs t)"
  using assms
proof (induction rule: trie_step_any.induct)
  case (any_acquire tk extra s a c)
  from trie_acquire_any [OF any_acquire(2,1)] show ?case by (simp add: any_ok_append)
next
  case (any_acquire_fails tk extra s e c)
  from trie_acquire_any(1) [OF any_acquire_fails(2,1)] show ?case by simp
next
  case (any_extend i s tk extra r a c)
  from trie_extend_any [OF any_extend(3,1,2)] show ?case by simp
next
  case (any_release i s r a c)
  have l: "ta_last_cached_node (ts_allocs s ! i) < tc_next (ts_cache s)"
    using any_okD(4) [OF any_release(3)] any_release(1) by simp
  show ?case using any_release l any_ok_same_links [OF same_links_ref(2) any_release(3)]
    by (auto simp: trie_release_pages_def intro!: any_ok_update split: if_splits)
next
  case (any_publish i s tk inc r a c)
  from trie_publish_any(1) [OF any_publish(3,1,2)] show ?case by simp
next
  case (any_append s l x)
  have "node_links (list_append l x (ts_cache s)) = node_links (ts_cache s)"
    by (simp add: fun_eq_iff node_links_def)
  with any_append show ?case by (simp add: any_ok_def trie_links_def)
qed

lemma trie_reachable_any_ok:
  assumes "trie_reachable_any c0 s" and "trie_cache_init addr clock objs p tpp = Inr c0"
  shows "any_ok (ts_cache s) (ts_allocs s)"
  using assms
proof (induction rule: trie_reachable_any.induct)
  case any_start
  have "trie_links c0" using sys_okD(1) [OF trie_cache_init_ok(1) [OF any_start]] by (simp add: trie_tree_def)
  moreover have "tc_leaves c0 = []" "\<forall>i < tc_next c0. par c0 i = None"
    using any_start
    by (auto simp: trie_cache_init_def new_trie_node_def monotonic_def Let_def split: if_splits)
  ultimately show ?case by (simp add: any_ok_def)
next
  case (any_next s t)
  then show ?case using trie_step_any_ok by blast
qed

end
