(* ===== verification/Trie_Run.thy ===== *)
theory Trie_Run
  imports Trie_Any
begin

section \<open>Executable runs of the trie cache\<close>

text \<open>
  A run is a list of client calls. \<open>trie_do\<close> executes one call on the system state (a call on an
  allocation that does not exist does nothing) and is connected to both step relations, so that
  concrete interleavings are reachable states that the simplifier computes. \<open>shared_tokens\<close> and
  \<open>demo_cache\<close> are the small cache the concrete runs of this development use.
\<close>

datatype trie_call =
    CallAcquire py_tokens int
  | CallExtend nat py_tokens int
  | CallRelease nat
  | CallPublish nat py_tokens
  | CallAppend nat int

fun trie_do :: "trie_call \<Rightarrow> 'c trie_sys \<Rightarrow> unit res \<times> 'c trie_sys" where
  "trie_do (CallAcquire tk extra) s =
     (case trie_acquire_pages_for_tokens tk extra (ts_cache s) of
        (Inl e, c) \<Rightarrow> (Inl e, s\<lparr>ts_cache := c\<rparr>)
      | (Inr a, c) \<Rightarrow> (Inr (), s\<lparr>ts_cache := c, ts_allocs := ts_allocs s @ [a]\<rparr>))"
| "trie_do (CallExtend i tk extra) s =
     (if i < length (ts_allocs s) then
        (let (r, a, c) = trie_extend_allocation (ts_allocs s ! i) tk extra (ts_cache s)
         in (r, s\<lparr>ts_cache := c, ts_allocs := (ts_allocs s)[i := a]\<rparr>))
      else (Inl IndexError, s))"
| "trie_do (CallRelease i) s =
     (if i < length (ts_allocs s) then
        (let (r, a, c) = trie_release_pages (ts_allocs s ! i) (ts_cache s)
         in (r, s\<lparr>ts_cache := c, ts_allocs := (ts_allocs s)[i := a]\<rparr>))
      else (Inl IndexError, s))"
| "trie_do (CallPublish i tk) s =
     (if i < length (ts_allocs s) then
        (let (r, a, c) = trie_publish_pages_for_tokens (ts_allocs s ! i) tk False (ts_cache s)
         in (r, s\<lparr>ts_cache := c, ts_allocs := (ts_allocs s)[i := a]\<rparr>))
      else (Inl IndexError, s))"
| "trie_do (CallAppend l x) s = (Inr (), s\<lparr>ts_cache := list_append l x (ts_cache s)\<rparr>)"

text \<open>The results of the calls of a run, and the state it ends in.\<close>

fun trie_run :: "trie_call list \<Rightarrow> 'c trie_sys \<Rightarrow> unit res list \<times> 'c trie_sys" where
  "trie_run [] s = ([], s)"
| "trie_run (k # ks) s =
     (let (r, s1) = trie_do k s; (rs, s2) = trie_run ks s1 in (r # rs, s2))"

text \<open>The calls \<open>clean_step\<close> allows: publications are clean, extended allocations unreleased.\<close>

fun call_clean :: "trie_call \<Rightarrow> 'c trie_sys \<Rightarrow> bool" where
  "call_clean (CallExtend i tk extra) s = (i < length (ts_allocs s) \<and> \<not> ta_is_released (ts_allocs s ! i))"
| "call_clean (CallPublish i tk) s =
     (i < length (ts_allocs s) \<and> publish_clean (ts_allocs s ! i) tk (ts_cache s))"
| "call_clean k s = True"

fun run_clean :: "trie_call list \<Rightarrow> 'c trie_sys \<Rightarrow> bool" where
  "run_clean [] s = True"
| "run_clean (k # ks) s = (call_clean k s \<and> run_clean ks (snd (trie_do k s)))"

lemma trie_do_any: "trie_step_any s (snd (trie_do k s)) \<or> snd (trie_do k s) = s"
  by (cases k) (auto split: prod.splits sum.splits intro: trie_step_any.intros)

lemma trie_do_clean: "call_clean k s \<Longrightarrow> clean_step s (snd (trie_do k s)) \<or> snd (trie_do k s) = s"
  by (cases k) (auto split: prod.splits sum.splits intro: clean_step.intros)

lemma trie_run_any: "trie_reachable_any c0 s \<Longrightarrow> trie_reachable_any c0 (snd (trie_run ks s))"
proof (induction ks arbitrary: s)
  case (Cons k ks)
  from trie_do_any [of s k] Cons.prems have "trie_reachable_any c0 (snd (trie_do k s))"
    by (auto intro: any_next)
  from Cons.IH [OF this] show ?case by (simp add: split_beta)
qed simp

lemma trie_run_clean:
  "clean_reachable c0 s \<Longrightarrow> run_clean ks s \<Longrightarrow> clean_reachable c0 (snd (trie_run ks s))"
proof (induction ks arbitrary: s)
  case (Cons k ks)
  from trie_do_clean [of k s] Cons.prems have "clean_reachable c0 (snd (trie_do k s))"
    by (auto intro: trie_next)
  from Cons.IH [OF this] Cons.prems show ?case by (simp add: split_beta)
qed simp

definition start_sys :: "'c trie_cache \<Rightarrow> 'c trie_sys" where
  "start_sys c = \<lparr>ts_cache = c, ts_allocs = []\<rparr>"

lemma start_reachable: "clean_reachable c (start_sys c)" "trie_reachable_any c (start_sys c)"
  by (simp_all add: start_sys_def trie_start any_start)

subsection \<open>Evaluating a store\<close>

text \<open>
  \<open>store_set\<close> is function update with a code equation for four arguments only, so that the
  simplifier keeps a store as the list of its updates; the operations that write the store get
  code equations over it.
\<close>

definition store_set :: "(nat \<Rightarrow> 'v) \<Rightarrow> nat \<Rightarrow> 'v \<Rightarrow> nat \<Rightarrow> 'v" where
  "store_set g i v = g(i := v)"

lemma store_set_code [code]: "store_set g i v x = (if x = i then v else g x)"
  by (simp add: store_set_def)

lemma node_upd_code [code]:
  "node_upd i f c = c\<lparr>tc_nodes := store_set (tc_nodes c) i (f (tc_nodes c i))\<rparr>"
  by (simp add: node_upd_def store_set_def)

lemma new_trie_node_code [code]:
  "new_trie_node tokens page parent c =
     (let (now, c1) = monotonic c;
          node = \<lparr>tn_tokens = tokens, tn_page = page, tn_children = [], tn_parent = parent,
                  tn_ref_count = rc_new, tn_access_time = now\<rparr>
      in (tc_next c1, c1\<lparr>tc_nodes := store_set (tc_nodes c1) (tc_next c1) node,
            tc_next := Suc (tc_next c1)\<rparr>))"
  by (simp add: new_trie_node_def store_set_def)

lemma list_append_code [code]:
  "list_append l x c = c\<lparr>tc_lists := store_set (tc_lists c) l (tc_lists c l @ [x])\<rparr>"
  by (simp add: list_append_def store_set_def)

lemma ref_code [code]:
  "ref_increment i c = node_upd i (\<lambda>n. n\<lparr>tn_ref_count := increment (tn_ref_count n)\<rparr>) c"
  "ref_decrement i c = node_upd i (\<lambda>n. n\<lparr>tn_ref_count := decrement (tn_ref_count n)\<rparr>) c"
  by (simp_all add: ref_increment_def ref_decrement_def)

subsection \<open>A small cache\<close>

text \<open>Pages of two tokens; list object 0 starts as \<open>[1, 2, 3]\<close>, list object 1 as \<open>[1, 2, 3, 4, 5]\<close>.\<close>

definition shared_tokens :: "nat \<Rightarrow> int list" where
  "shared_tokens l = (if l = 0 then [1, 2, 3] else if l = 1 then [1, 2, 3, 4, 5] else [])"

definition demo_pool :: "nat \<Rightarrow> unit page_pool" where
  "demo_pool n = pool_init (\<lambda>_ rows cols. replicate rows ()) ([] :: unit list)
     \<lparr>pc_alloc_page_count = n, pc_block_size_elements = 1\<rparr>"

definition demo_cache :: "nat \<Rightarrow> unit trie_cache" where
  "demo_cache n =
     (case trie_cache_init id id shared_tokens (demo_pool n) 2 of
        Inr c \<Rightarrow> c
      | Inl _ \<Rightarrow> \<lparr>tc_page_pool = demo_pool n, tc_tokens_per_page = 0, tc_root = 0, tc_leaves = [],
          tc_nodes = (\<lambda>_. empty_node), tc_next = 0, tc_addr = id, tc_clock = id, tc_reads = 0,
          tc_lists = shared_tokens\<rparr>)"

lemma demo_cache_init: "trie_cache_init id id shared_tokens (demo_pool n) 2 = Inr (demo_cache n)"
  by (simp add: demo_cache_def trie_cache_init_def Let_def split_beta)

lemma pool_init_avail: "pp_available_pages (pool_init mk devs cfg) = [0..<pc_alloc_page_count cfg]"
  by (simp add: pool_init_def new_page_info_def comp_def)

text \<open>What a run shows of its final state: the allocations, the free pages, the leaf set.\<close>

definition sys_view :: "'c trie_sys \<Rightarrow> (nat list \<times> nat \<times> bool) list \<times> nat list \<times> nat list" where
  "sys_view s =
     (map (\<lambda>a. (ta_pages a, ta_number_of_published_pages a, ta_is_released a)) (ts_allocs s),
      pp_available_pages (tc_page_pool (ts_cache s)), tc_leaves (ts_cache s))"

lemma sys_viewD:
  assumes "sys_view s = (vs, av, ls)"
  shows "length (ts_allocs s) = length vs" and "i < length vs \<Longrightarrow> ta_pages (ts_allocs s ! i) = fst (vs ! i)"
    and "i < length vs \<Longrightarrow> ta_number_of_published_pages (ts_allocs s ! i) = fst (snd (vs ! i))"
    and "i < length vs \<Longrightarrow> ta_is_released (ts_allocs s ! i) = snd (snd (vs ! i))"
    and "pp_available_pages (tc_page_pool (ts_cache s)) = av" and "tc_leaves (ts_cache s) = ls"
  using assms by (auto simp: sys_view_def)

end
