(* ===== verification/Trie_Facts.thy ===== *)
theory Trie_Facts
  imports Trie_Run
begin

section \<open>Facts the properties of the trie share\<close>

text \<open>
  What a reachable state gives at once (its invariant, its page balance), the pages of an
  allocation as part of the balance, and acquisition split into its walk down the trie, the
  reference it takes and the pages it adds.
\<close>

subsection \<open>Shared facts\<close>

lemma reachable_sys:
  assumes "trie_cache_init addr clock objs (pool_init mk devs cfg) tpp = Inr c0" and "clean_reachable c0 s"
  shows "sys_ok (ts_cache s) (ts_allocs s)"
    and "page_balance (ts_cache s) (ts_allocs s) \<subseteq># mset [0..<pc_alloc_page_count cfg]"
  using clean_reachable_ok [OF assms(2,1)] by (simp_all add: pool_init_avail)

lemma distinct_sub_mset:
  assumes "mset xs \<subseteq># mset ys" and "distinct ys"
  shows "distinct xs"
proof -
  from assms(1) obtain m where "mset ys = mset xs + m" by (auto simp: mset_subset_eq_exists_conv)
  moreover obtain zs where "mset zs = m" using ex_mset by blast
  ultimately have "mset ys = mset (xs @ zs)" by simp
  with assms(2) have "distinct (xs @ zs)" by (metis mset_eq_imp_distinct_iff)
  then show ?thesis by simp
qed

lemma node_path_distinct:
  assumes "trie_tree c"
  shows "linked c n \<Longrightarrow> distinct (node_path c n)"
proof (induction n rule: less_induct)
  case (less n)
  from less.prems have n: "n < tc_next c" by (simp add: linked_def)
  show ?case
  proof (cases "par c n")
    case None
    then show ?thesis by (simp add: node_path.simps)
  next
    case (Some p)
    note pp = trie_tree_parent [OF assms n Some]
    have "n \<notin> set (node_path c p)" using node_path_linked [OF assms pp(3), of n] pp(1) by auto
    then show ?thesis using less.IH [OF pp(1,3)] by (simp add: node_path_parent [OF assms n Some])
  qed
qed

lemma path_pages_in_tree:
  assumes t: "trie_tree c" and l: "linked c n"
  shows "mset (map (pg c) (node_path c n)) \<subseteq># tree_pages c"
proof -
  have sub: "set (node_path c n) \<subseteq> {i. i < tc_next c \<and> par c i \<noteq> None}"
    using node_path_linked [OF t l] by (auto simp: linked_def)
  have "finite {i. i < tc_next c \<and> par c i \<noteq> None}" by simp
  from subset_imp_msubset_mset_set [OF sub this]
  have "mset (node_path c n) \<subseteq># mset_set {i. i < tc_next c \<and> par c i \<noteq> None}"
    using mset_set_set [OF node_path_distinct [OF t l]] by simp
  then show ?thesis by (simp add: tree_pages_set image_mset_subseteq_mono)
qed

lemma alloc_pages_balance:
  assumes ok: "sys_ok c as" and i: "i < length as" and live: "\<not> ta_is_released (as ! i)"
  shows "mset (ta_pages (as ! i)) \<subseteq># page_balance c as"
proof -
  let ?a = "as ! i"
  let ?k = "ta_number_of_published_pages ?a"
  note d = sys_okD [OF ok]
  have "alloc_ok c ?a" using d(2) i by simp
  with live have l: "linked c (ta_last_cached_node ?a)"
    and p: "take ?k (ta_pages ?a) = map (pg c) (node_path c (ta_last_cached_node ?a))"
    by (auto simp: alloc_ok_def)
  have "mset (ta_pages ?a) = mset (take ?k (ta_pages ?a)) + unpublished ?a"
    using live mset_take_drop [of ?k "ta_pages ?a"] by (simp add: unpublished_def)
  also have "\<dots> \<subseteq># tree_pages c + sum_list (map unpublished as)"
    using path_pages_in_tree [OF d(1) l] unpublished_member [OF nth_mem [OF i]]
    by (simp add: p subset_mset.add_mono)
  also have "\<dots> \<subseteq># page_balance c as" by (simp add: page_balance_def)
  finally show ?thesis .
qed

text \<open>Acquiring is a walk, a reference on its last node, and the pages the walk did not cover.\<close>

lemma trie_acquire_split:
  assumes l: "trie_links c" and q: "trie_acquire_pages_for_tokens tk extra c = (r, c')"
  defines "bs \<equiv> blocks_from 0 (tc_tokens_per_page c) (tokens_val c tk)"
  defines "w \<equiv> walk c (tc_root c) bs"
  defines "need \<equiv> int (length (tokens_val c tk)) - int (length w) * int (tc_tokens_per_page c) + extra"
  obtains d where "same_links c d" and "tavail d = tavail c"
    and "\<And>i. refs d i = refs c i + (if i = last (tc_root c # w) then 1 else 0)"
    and "(r, c') = (case acquire_or_evict (ceil_div need (int (tc_tokens_per_page c))) d of
        (Inl e, c3) \<Rightarrow> (Inl e, c3)
      | (Inr ps, c3) \<Rightarrow> (Inr (new_trie_allocation (tokens_val c tk) (last (tc_root c # w))
          (map (pg c) w) ps), c3))"
proof -
  obtain cur matched c1 where m: "trie_match (tokens_val c tk) c = ((cur, matched), c1)"
    by (metis surj_pair)
  note mr = trie_match_run [OF l m, folded bs_def, folded w_def]
  define d where "d = ref_increment cur c1"
  have t: "same_links c c1" "tavail c1 = tavail c" "\<And>i. refs c1 i = refs c i"
    using mr(3) by (auto simp: touched_def)
  have sl: "same_links c d" unfolding d_def by (rule same_links_trans [OF t(1)]) simp
  show ?thesis
  proof (rule that [OF sl])
    show "tavail d = tavail c" "\<And>i. refs d i = refs c i + (if i = last (tc_root c # w) then 1 else 0)"
      by (simp_all add: d_def t mr(1))
    show "(r, c') = (case acquire_or_evict (ceil_div need (int (tc_tokens_per_page c))) d of
        (Inl e, c3) \<Rightarrow> (Inl e, c3)
      | (Inr ps, c3) \<Rightarrow> (Inr (new_trie_allocation (tokens_val c tk) (last (tc_root c # w))
          (map (pg c) w) ps), c3))"
      unfolding need_def mr(1) [symmetric] mr(2) [symmetric]
      using q m same_linksD(4) [OF t(1)] arg_cong [OF mr(2), of length]
      by (simp add: trie_acquire_pages_for_tokens_def Let_def d_def del: last.simps)
  qed
qed

lemma trie_acquire_result:
  assumes a: "any_ok c as" and q: "trie_acquire_pages_for_tokens tk extra c = (Inr al, c')"
  defines "w \<equiv> walk c (tc_root c) (blocks_from 0 (tc_tokens_per_page c) (tokens_val c tk))"
  defines "need \<equiv> int (length (tokens_val c tk)) - int (length w) * int (tc_tokens_per_page c) + extra"
  shows "ta_last_cached_node al = last (tc_root c # w)" and "ta_number_of_published_pages al = length w"
    and "take (length w) (ta_pages al) = map (pg c) w" and "ta_tokens al = Tup (tokens_val c tk)"
    and "length (ta_pages al) = length w + nat (ceil_div need (int (tc_tokens_per_page c)))"
proof -
  have l: "trie_links c" using any_okD(1) [OF a] .
  obtain d where d: "same_links c d" and ac: "(Inr al, c') =
      (case acquire_or_evict (ceil_div need (int (tc_tokens_per_page c))) d of
        (Inl e, c3) \<Rightarrow> (Inl e, c3)
      | (Inr ps, c3) \<Rightarrow> (Inr (new_trie_allocation (tokens_val c tk) (last (tc_root c # w))
          (map (pg c) w) ps), c3))"
    by (rule trie_acquire_split [OF l q, folded w_def, folded need_def])
  then obtain ps where ps: "acquire_or_evict (ceil_div need (int (tc_tokens_per_page c))) d = (Inr ps, c')"
    and al: "al = new_trie_allocation (tokens_val c tk) (last (tc_root c # w)) (map (pg c) w) ps"
    by (auto split: prod.splits sum.splits)
  have "length ps = nat (ceil_div need (int (tc_tokens_per_page c)))"
    using acquire_or_evict_any(2) [OF any_ok_same_links [OF d a] ps] by simp
  then show "ta_last_cached_node al = last (tc_root c # w)" and "ta_number_of_published_pages al = length w"
    and "take (length w) (ta_pages al) = map (pg c) w" and "ta_tokens al = Tup (tokens_val c tk)"
    and "length (ta_pages al) = length w + nat (ceil_div need (int (tc_tokens_per_page c)))"
    by (simp_all add: al new_trie_allocation_def)
qed

lemma evict_pages_cases:
  assumes t: "trie_tree c" and q: "evict_pages n c = (r, c')"
  obtains vs where "r = Inr (length vs)" and "evicted c vs c'"
    and "mset (tavail c') = mset (tavail c) + mset (map (pg c) vs)" and "length vs \<le> nat n"
    and "length vs < nat n \<Longrightarrow> \<forall>i \<in> set (tc_leaves c'). 0 < refs c' i"
    and "\<forall>v \<in> set vs. \<forall>y \<in> set (tc_leaves c) - set vs. refs c y \<le> 0 \<longrightarrow>
      heap_key c (tn_access_time (tc_nodes c v), v) \<le> heap_key c (tn_access_time (tc_nodes c y), y)"
proof (rule evict_pages_run [OF t, of n])
  fix vs :: "nat list" and c1
  assume e: "evict_pages n c = (Inr (length vs), c1)"
  with q have eq: "r = Inr (length vs)" "c' = c1" by simp_all
  assume rest: "evicted c vs c1" "mset (tavail c1) = mset (tavail c) + mset (map (pg c) vs)"
    "length vs \<le> nat n" "length vs < nat n \<Longrightarrow> \<forall>i \<in> set (tc_leaves c1). 0 < refs c1 i"
    "\<forall>v \<in> set vs. \<forall>y \<in> set (tc_leaves c) - set vs. refs c y \<le> 0 \<longrightarrow>
      heap_key c (tn_access_time (tc_nodes c v), v) \<le> heap_key c (tn_access_time (tc_nodes c y), y)"
  show thesis by (rule that [of vs]) (use eq rest in simp_all)
qed

lemma trie_extend_room:
  assumes ok: "any_ok c as" and q: "trie_extend_allocation a0 tk extra c = (Inr (), a', c2)"
    and new: "length (tokens_val c (ta_tokens a0)) \<noteq> length (tokens_val c tk)"
  shows "int (length (tokens_val c tk)) + extra \<le> int (length (ta_pages a')) * int (tc_tokens_per_page c)"
proof -
  have tpp: "0 < int (tc_tokens_per_page c)" using any_okD(1) [OF ok] by (auto simp: trie_links_def)
  let ?t = "int (length (tokens_val c tk)) + extra"
  let ?n = "ceil_div ?t (int (tc_tokens_per_page c))"
  consider (room) "?n \<le> int (length (ta_pages a0))" "ta_pages a' = ta_pages a0"
    | (grow) ps where "acquire_or_evict (?n - int (length (ta_pages a0))) c = (Inr ps, c2)"
        "ta_pages a' = ta_pages a0 @ ps"
    using q new by (auto simp: trie_extend_allocation_def Let_def split: if_splits prod.splits sum.splits)
  then have "?n \<le> int (length (ta_pages a'))"
  proof cases
    case (grow ps)
    from acquire_or_evict_any(2) [OF ok grow(1) refl] grow(2) show ?thesis by simp
  qed simp
  then show ?thesis by (simp add: ceil_div_le_iff [OF tpp])
qed

lemma trie_extend_outcome:
  assumes "trie_extend_allocation a0 tk extra c = (Inr (), a', c2)"
  shows "length (tokens_val c (ta_tokens a0)) = length (tokens_val c tk) \<and> a' = a0 \<and> c2 = c \<or>
    length (tokens_val c (ta_tokens a0)) < length (tokens_val c tk) \<and>
      take (length (ta_pages a0)) (ta_pages a') = ta_pages a0"
  using assms by (auto simp: trie_extend_allocation_def Let_def split: if_splits prod.splits sum.splits)

lemma trie_acquire_room:
  assumes ok: "any_ok c as" and q: "trie_acquire_pages_for_tokens tk extra c = (Inr a, c1)"
  shows "int (length (tokens_val c tk)) + extra \<le> int (length (ta_pages a)) * int (tc_tokens_per_page c)"
proof -
  have tpp: "0 < int (tc_tokens_per_page c)" using any_okD(1) [OF ok] by (auto simp: trie_links_def)
  let ?w = "walk c (tc_root c) (blocks_from 0 (tc_tokens_per_page c) (tokens_val c tk))"
  let ?need = "int (length (tokens_val c tk)) - int (length ?w) * int (tc_tokens_per_page c) + extra"
  have "?need \<le> int (nat (ceil_div ?need (int (tc_tokens_per_page c)))) * int (tc_tokens_per_page c)"
    using ceil_div_le_iff [OF tpp] by (metis int_nat_eq nat_le_iff order_refl le_refl)
  then show ?thesis
    unfolding trie_acquire_result(5) [OF ok q] by (simp add: distrib_right algebra_simps)
qed

text \<open>What a call sequence does to the page balance, and what a release takes out of it.\<close>

lemma clean_steps_ok:
  assumes "clean_step\<^sup>*\<^sup>* s t" and "sys_ok (ts_cache s) (ts_allocs s)"
  shows "sys_ok (ts_cache t) (ts_allocs t) \<and>
    page_balance (ts_cache t) (ts_allocs t) \<subseteq># page_balance (ts_cache s) (ts_allocs s)"
  using assms
proof (induction rule: rtranclp_induct)
  case (step t u)
  then show ?case using clean_step_ok [of t u] subset_mset.order_trans by blast
qed simp

lemma trie_release_balance:
  assumes s: "sys_ok c as" and i: "i < length as" and live: "\<not> ta_is_released (as ! i)"
    and q: "trie_release_pages (as ! i) c = (r, a', c')"
  shows "page_balance c' (as[i := a']) + unpublished (as ! i) = page_balance c as"
proof -
  from q live have a': "a' = (as ! i)\<lparr>ta_is_released := True\<rparr>"
    and c': "c' = ref_decrement (ta_last_cached_node (as ! i)) c" by (auto simp: trie_release_pages_def)
  have "sum_list (map unpublished (as[i := a'])) + unpublished (as ! i)
      = sum_list (map unpublished as) + unpublished a'"
    by (rule sum_list_map_update [OF i])
  moreover have "unpublished a' = {#}" by (simp add: a' unpublished_def)
  moreover have "tree_pages c' = tree_pages c"
    unfolding c' by (rule same_links_sys(2) [OF same_links_ref(2)])
  moreover have "tavail c' = tavail c" by (simp add: c')
  ultimately show ?thesis by (simp add: page_balance_def)
qed

lemma has_common_prefix_refl [simp]: "has_common_prefix xs xs"
  by (induction xs) (simp_all add: has_common_prefix_def)

lemma trie_extend_tokens:
  assumes "trie_extend_allocation a tk extra c = (Inr (), a', c')"
    and "length (tokens_val c (ta_tokens a)) \<noteq> length (tokens_val c tk)"
  shows "ta_tokens a' = tk"
  using assms by (auto simp: trie_extend_allocation_def Let_def split: if_splits prod.splits sum.splits)

lemma trie_acquire_unreleased:
  assumes "trie_acquire_pages_for_tokens tk extra c = (Inr a, c')"
  shows "\<not> ta_is_released a"
proof -
  obtain cur matched c1 where m: "trie_match (tokens_val c tk) c = ((cur, matched), c1)"
    by (metis surj_pair)
  let ?c2 = "ref_increment cur c1"
  obtain r3 c3 where e: "acquire_or_evict (ceil_div (int (length (tokens_val c tk)) - int (length matched) *
      int (tc_tokens_per_page ?c2) + extra) (int (tc_tokens_per_page ?c2))) ?c2 = (r3, c3)" by fastforce
  from assms m e show ?thesis
    by (auto simp: trie_acquire_pages_for_tokens_def Let_def new_trie_allocation_def split: sum.splits)
qed

lemma trie_extend_shape:
  assumes "trie_extend_allocation a tk extra c = (r, a', c')"
  shows "\<exists>new. ta_pages a' = ta_pages a @ new" and "ta_is_released a' = ta_is_released a"
proof -
  obtain r1 c1 where e: "acquire_or_evict (ceil_div (int (length (tokens_val c tk)) + extra)
      (int (tc_tokens_per_page c)) - int (length (ta_pages a))) c = (r1, c1)" by fastforce
  from assms e have "ta_pages a' = ta_pages a \<or> (\<exists>new. ta_pages a' = ta_pages a @ new)"
    and "ta_is_released a' = ta_is_released a"
    by (auto simp: trie_extend_allocation_def Let_def split: if_splits sum.splits)
  then show "\<exists>new. ta_pages a' = ta_pages a @ new" and "ta_is_released a' = ta_is_released a"
    by auto
qed

subsection \<open>Publishing behind a leaf\<close>

lemma publish_loop_grown:
  "cur < tc_next c \<Longrightarrow> publish_loop cur bs c = (r, c') \<Longrightarrow>
   grown c c' \<and> (\<forall>i < tc_next c. i \<noteq> cur \<longrightarrow> kids c' i = kids c i) \<and>
   (bs \<noteq> [] \<longrightarrow> kids c' cur \<noteq> [] \<and> tc_next c \<le> r)"
proof (induction bs arbitrary: cur c)
  case Nil
  then show ?case by (simp add: grown_refl)
next
  case (Cons b bs)
  obtain n c1 where cc: "create_child cur (fst b) (snd b) c = (n, c1)" by fastforce
  note cf = create_child_grown [OF Cons.prems(1) cc]
  have "publish_loop n bs c1 = (r, c')" using Cons.prems(2) cc by (cases b) simp
  from Cons.IH [OF _ this] cf(2,3)
  have IH: "grown c1 c'" "\<forall>i < Suc (tc_next c). i \<noteq> n \<longrightarrow> kids c' i = kids c1 i"
    "bs \<noteq> [] \<Longrightarrow> tc_next c \<le> r" by auto
  have "kids c' i = kids c i" if "i < tc_next c" "i \<noteq> cur" for i
    using IH(2) cf(2,9) that by simp
  moreover have "kids c1 cur \<noteq> []" unfolding cf(8) by (cases "kids c cur") auto
  then have "kids c' cur \<noteq> []" using IH(2) cf(2) Cons.prems(1) by simp
  moreover have "tc_next c \<le> r"
    using IH(3) \<open>publish_loop n bs c1 = (r, c')\<close> cf(2) by (cases "bs = []") auto
  ultimately show ?case using grown_trans [OF cf(1) IH(1)] by blast
qed

text \<open>The next eviction takes the unreferenced member of \<open>leaves\<close> that was accessed first.\<close>

lemma evict_oldest:
  assumes n: "n \<in> set (tc_leaves c)" "rc_is_empty (tn_ref_count (tc_nodes c n))"
    and p: "par c n = Some p" "p \<noteq> n" "map_of (kids c p) (toks c n) = Some n"
    and old: "\<forall>m \<in> set (tc_leaves c). m \<noteq> n \<longrightarrow> rc_is_empty (tn_ref_count (tc_nodes c m)) \<longrightarrow>
      tn_access_time (tc_nodes c n) < tn_access_time (tc_nodes c m)"
  shows "\<exists>c'. evict_pages 1 c = (Inr 1, c') \<and> pg c n \<in> set (tavail c')"
proof -
  let ?hp = "unused_leaves c"
  have m: "(tn_access_time (tc_nodes c n), n) \<in> set ?hp" using n by (auto simp: unused_leaves_def)
  then have ne: "heapify ?hp \<noteq> []" by (auto simp: heapify_def)
  obtain x hp1 where pop: "heappop (heap_key c) (heapify ?hp) = (x, hp1)" by fastforce
  have x: "x \<in> set ?hp"
    using heap.pop_in [OF _ pop] ne by (auto simp: heapify_def)
  have "heap_key c x \<le> heap_key c (tn_access_time (tc_nodes c n), n)"
    using heap.pop_least [OF _ pop] m ne by (auto simp: heapify_def)
  with x old have "x = (tn_access_time (tc_nodes c n), n)"
    by (fastforce simp: unused_leaves_def heap_key_def less_eq_prod_def)
  with pop have pop: "heappop (heap_key c) (heapify ?hp) = ((tn_access_time (tc_nodes c n), n), hp1)" by simp
  have "\<exists>c1. evict_loop (Suc 0) (heapify ?hp) [] c = (Inr [pg c n], c1)"
    using ne pop p n by (simp add: unlink_def leaves_remove_def Let_def)
  then obtain c1 where "evict_loop (Suc 0) (heapify ?hp) [] c = (Inr [pg c n], c1)" ..
  then show ?thesis by (simp add: evict_pages_def free_pages_def)
qed

text \<open>
  A publication of further blocks behind a node that is still in \<open>leaves\<close>: the node keeps its place
  there, gets a child, and the allocation's reference moves on to the new last node.
\<close>

lemma trie_publish_behind_leaf:
  assumes s: "sys_ok c as" and i: "i < length as" and live: "\<not> ta_is_released (as ! i)"
    and node: "ta_last_cached_node (as ! i) = n" "n \<noteq> tc_root c" "kids c n = []"
    and q: "trie_publish_pages_for_tokens (as ! i) tk inc c = (Inr (), a', c')"
    and more: "ta_number_of_published_pages (as ! i) < ta_number_of_published_pages a'"
      "ta_number_of_published_pages a' \<le> length (ta_pages a')"
  shows "n \<in> set (tc_leaves c') \<and> kids c' n \<noteq> [] \<and> refs c' n = refs c n - 1 \<and> pg c' n \<in> set (ta_pages a') \<and>
    \<not> ta_is_released a' \<and> (\<exists>p. par c' n = Some p \<and> p < n \<and> map_of (kids c' p) (toks c' n) = Some n)"
  using q
proof (cases rule: trie_publish_cases)
  case (published mine bs cur c1)
  let ?a = "as ! i"
  note t = sys_okD(1) [OF s]
  have aok: "alloc_ok c ?a" using sys_okD(2) [OF s] i by simp
  with live node have lk: "linked c n" and len: "ta_number_of_published_pages ?a \<le> length (ta_pages ?a)"
    and pub: "take (ta_number_of_published_pages ?a) (ta_pages ?a) = map (pg c) (node_path c n)"
    by (auto simp: alloc_ok_def)
  then have nN: "n < tc_next c" and leaf: "n \<in> set (tc_leaves c)"
    using node(2,3) trie_tree_leaf [OF t] by (auto simp: linked_def is_leaf_node_def)
  from lk node(2) obtain p where p: "par c n = Some p" by (auto simp: linked_def)
  note pp = trie_tree_parent [OF t nN p]
  have tpp: "0 < tc_tokens_per_page c" using trie_tree_links [OF t] by (simp add: trie_links_def)
  let ?till = "length (tokens_val c tk) div tc_tokens_per_page c"
  have "length (tokens_val c tk) \<le> length mine" using published(2) by simp
  then have "?till * tc_tokens_per_page c \<le> length mine"
    by (rule order_trans [OF div_times_less_eq_dividend])
  moreover have ft: "ta_number_of_published_pages ?a < ?till" and "?till \<le> length (ta_pages ?a)"
    using more published(5,7) by simp_all
  ultimately have bs: "bs \<noteq> []"
    using publish_blocks(4) [OF tpp, of "ta_number_of_published_pages ?a" ?till mine "ta_pages ?a"] published(3) by simp
  note g = publish_loop_grown [OF _ published(4), unfolded node(1), OF nN]
  note gd = grownD [OF g [THEN conjunct1]]
  have cur: "cur \<noteq> n" using g bs nN by auto
  have c': "c' = ref_decrement n (ref_increment cur (if cur \<noteq> tc_root c1 then leaves_add cur c1 else c1))"
    using published(9) bs node(1) published(3) by (auto simp: Let_def split: if_splits)
  have nd: "kids c' j = kids c1 j" "par c' j = par c1 j" "toks c' j = toks c1 j" "pg c' j = pg c1 j" for j
    by (simp_all add: c')
  have "refs c' n = refs c n - 1" using cur gd(11) [OF nN] by (simp add: c')
  moreover have "n \<in> set (tc_leaves c')" using leaf gd(3) by (simp add: c')
  moreover have "kids c' n \<noteq> []" using g bs by (simp add: nd)
  moreover have "pg c n \<in> set (ta_pages ?a)"
    using pub node_path_parent [OF t nN p] by (metis in_set_takeD last_in_set last_map last_snoc map_is_Nil_conv snoc_eq_iff_butlast)
  then have "pg c' n \<in> set (ta_pages a')" using published(5) gd(10) [OF nN] by (simp add: nd)
  moreover have "map_of (kids c' p) (toks c' n) = Some n"
    using pp g gd(9) [OF nN] by (simp add: nd)
  ultimately show ?thesis using published(6) live p pp(1) gd(8) [OF nN] by (simp add: nd)
qed simp

end
