(* ===== verification/Trie_Properties.thy ===== *)
theory Trie_Properties
  imports Trie_Facts
begin

section \<open>Properties of the trie cache\<close>

text \<open>
  The properties of \<open>kvcache/trie_attention_cache.py\<close>, over the states reachable by any
  interleaving of client calls. Each rests on the run lemmas of the previous theories; the
  witnesses evaluate small interleavings on \<open>demo_cache\<close>.
\<close>

subsection \<open>Page safety\<close>


definition demo_shared :: "unit trie_sys" where
  "demo_shared = snd (trie_run [CallAcquire (Tup [1, 2, 3]) 0, CallPublish 0 (Tup [1, 2, 3]),
     CallAcquire (Tup [1, 2, 9]) 0] (start_sys (demo_cache 4)))"

lemma demo_shared_reachable: "clean_reachable (demo_cache 4) demo_shared"
  unfolding demo_shared_def by (rule trie_run_clean [OF start_reachable(1)]) code_simp

lemma demo_shared_view: "sys_view demo_shared = ([([3, 2], 1, False), ([3, 1], 1, False)], [0], [1])"
  by code_simp

lemmas demo_shared_state = sys_viewD [OF demo_shared_view]








subsection \<open>Prefix matching and capacity\<close>

text \<open>
  C3: prefix matching is sound and longest, whatever calls (clean or not, failing or not) led to
  the state: the published pages of a new allocation are the pages of a chain of nodes from the
  root whose token blocks are the first blocks of the requested tokens, the allocation rests on
  the last node of the chain, and no longer sequence of the blocks is in the trie.
\<close>

theorem trie_prefix_match:
  assumes "trie_cache_init addr clock objs p tpp = Inr c0" and "trie_reachable_any c0 s"
    and "trie_acquire_pages_for_tokens tk extra (ts_cache s) = (Inr a, c')"
    and "c = ts_cache s" and "bs = blocks_from 0 (tc_tokens_per_page c) (tokens_val c tk)"
    and "k = ta_number_of_published_pages a"
  shows "\<exists>ns. length ns = k \<and> map (toks c) ns = take k bs \<and> map (pg c) ns = take k (ta_pages a) \<and>
    follow c (tc_root c) (take k bs) = Some (ta_last_cached_node a) \<and>
    (\<forall>m \<le> length bs. follow c (tc_root c) (take m bs) \<noteq> None \<longrightarrow> m \<le> k)"
proof -
  have ok: "any_ok c (ts_allocs s)" using trie_reachable_any_ok [OF assms(2,1)] assms(4) by simp
  note l = any_okD(1) [OF ok] and ar = trie_acquire_result [OF ok assms(3) [folded assms(4)], folded assms(5)]
  from l have r: "tc_root c < tc_next c" by (simp add: trie_links_def)
  let ?w = "walk c (tc_root c) bs"
  have k: "k = length ?w" using ar(2) assms(6) by simp
  show ?thesis
  proof (intro exI [of _ ?w] conjI allI impI)
    show "length ?w = k" "map (pg c) ?w = take k (ta_pages a)" using ar(3) k by simp_all
    show "map (toks c) ?w = take k bs" using walk_tokens [OF l r, of bs] k by simp
    show "follow c (tc_root c) (take k bs) = Some (ta_last_cached_node a)"
      using walk_follow [of c "tc_root c" bs] ar(1) k by simp
    show "m \<le> k" if "m \<le> length bs" "follow c (tc_root c) (take m bs) \<noteq> None" for m
      using walk_longest [OF that] k by simp
  qed
qed

definition demo_third :: "trie_allocation res \<times> unit trie_cache" where
  "demo_third = trie_acquire_pages_for_tokens (Tup [1, 2, 5]) 0 (ts_cache demo_shared)"

lemma demo_third_ok: "is_ok (fst demo_third)"
  by code_simp

lemma demo_shared_any: "trie_reachable_any (demo_cache 4) demo_shared"
  unfolding demo_shared_def by (rule trie_run_any [OF start_reachable(2)])

theorem trie_prefix_match_witness:
  "\<exists>a. fst demo_third = Inr a \<and> (\<exists>ns. length ns = ta_number_of_published_pages a \<and>
     map (pg (ts_cache demo_shared)) ns = take (ta_number_of_published_pages a) (ta_pages a))"
proof -
  obtain a c' where a: "trie_acquire_pages_for_tokens (Tup [1, 2, 5]) 0 (ts_cache demo_shared) = (Inr a, c')"
    using demo_third_ok by (cases demo_third) (auto simp: demo_third_def is_ok_def split: sum.splits)
  from trie_prefix_match [OF demo_cache_init demo_shared_any a refl refl refl] a
  show ?thesis by (auto simp: demo_third_def)
qed

text \<open>
  C4: in any state that any calls reach, a newly acquired allocation has room for its tokens and the
  extra slots. An extension that raises nothing falls into two cases: given exactly as many tokens
  as the allocation's own token list holds at the call, it changes nothing, whatever
  slots were asked for; given more, it keeps the pages, adds others behind them, and has room for
  the tokens and the extra slots. It is never given fewer.
\<close>

theorem trie_capacity:
  assumes "trie_cache_init addr clock objs p tpp = Inr c0" and "trie_reachable_any c0 s"
    and "c = ts_cache s"
  shows "(trie_acquire_pages_for_tokens tk extra c = (Inr a, c1) \<longrightarrow>
      int (length (tokens_val c tk)) + extra \<le> int (length (ta_pages a)) * int (tc_tokens_per_page c)) \<and>
    (trie_extend_allocation a0 tk extra c = (Inr (), a', c2) \<longrightarrow>
      length (tokens_val c (ta_tokens a0)) = length (tokens_val c tk) \<and> a' = a0 \<and> c2 = c \<or>
      length (tokens_val c (ta_tokens a0)) < length (tokens_val c tk) \<and>
        take (length (ta_pages a0)) (ta_pages a') = ta_pages a0 \<and>
        int (length (tokens_val c tk)) + extra \<le> int (length (ta_pages a')) * int (tc_tokens_per_page c))"
proof (intro conjI impI)
  have ok: "any_ok c (ts_allocs s)" using trie_reachable_any_ok [OF assms(2,1)] assms(3) by simp
  show "int (length (tokens_val c tk)) + extra \<le> int (length (ta_pages a)) * int (tc_tokens_per_page c)"
    if "trie_acquire_pages_for_tokens tk extra c = (Inr a, c1)"
    using trie_acquire_room [OF ok that] .
  assume ext: "trie_extend_allocation a0 tk extra c = (Inr (), a', c2)"
  show "length (tokens_val c (ta_tokens a0)) = length (tokens_val c tk) \<and> a' = a0 \<and> c2 = c \<or>
      length (tokens_val c (ta_tokens a0)) < length (tokens_val c tk) \<and>
        take (length (ta_pages a0)) (ta_pages a') = ta_pages a0 \<and>
        int (length (tokens_val c tk)) + extra \<le> int (length (ta_pages a')) * int (tc_tokens_per_page c)"
    using trie_extend_outcome [OF ext] trie_extend_room [OF ok ext] by auto
qed

theorem trie_capacity_witness:
  "\<exists>a. fst demo_third = Inr a \<and> 3 \<le> int (length (ta_pages a)) * 2"
proof -
  obtain a c' where a: "trie_acquire_pages_for_tokens (Tup [1, 2, 5]) 0 (ts_cache demo_shared) = (Inr a, c')"
    using demo_third_ok by (cases demo_third) (auto simp: demo_third_def is_ok_def split: sum.splits)
  have t: "tc_tokens_per_page (ts_cache demo_shared) = 2" by code_simp
  from trie_capacity [OF demo_cache_init demo_shared_any refl, of "Tup [1, 2, 5]" 0 a c', THEN conjunct1] a t
  have "3 \<le> int (length (ta_pages a)) * 2" by simp
  with a show ?thesis by (simp add: demo_third_def)
qed

subsection \<open>Failed acquisitions\<close>





subsection \<open>Released pages\<close>

text \<open>
  Releasing an allocation loses the pages it has not published. In every state that follows
  the release, whatever the clients do, such a page is neither available in the pool nor held by a
  live allocation: a request that is released before its last page is full, which is every request
  with an incomplete last page, shrinks the cache by that page.
\<close>

theorem trie_release_leak:
  assumes "trie_cache_init addr clock objs (pool_init mk devs cfg) tpp = Inr c0"
    and "clean_reachable c0 s" and "i < length (ts_allocs s)" and "\<not> ta_is_released (ts_allocs s ! i)"
    and "x \<in> set (drop (ta_number_of_published_pages (ts_allocs s ! i)) (ta_pages (ts_allocs s ! i)))"
    and "trie_release_pages (ts_allocs s ! i) (ts_cache s) = (r, a, c')"
    and "clean_step\<^sup>*\<^sup>* (s\<lparr>ts_cache := c', ts_allocs := (ts_allocs s)[i := a]\<rparr>) t"
  shows "x \<notin> set (tavail (ts_cache t)) \<and>
    (\<forall>b \<in> set (ts_allocs t). \<not> ta_is_released b \<longrightarrow> x \<notin> set (ta_pages b))"
proof -
  note rs = reachable_sys [OF assms(1,2)]
  note bal = trie_release_balance [OF rs(1) assms(3,4,6)]
  have "x \<in># unpublished (ts_allocs s ! i)" using assms(4,5) by (simp add: unpublished_def)
  then have out: "x \<notin># page_balance c' ((ts_allocs s)[i := a])"
    using mset_sub_distinct [OF _ distinct_upt] rs(2) bal by (metis add.commute)
  let ?s = "s\<lparr>ts_cache := c', ts_allocs := (ts_allocs s)[i := a]\<rparr>"
  have "sys_ok (ts_cache ?s) (ts_allocs ?s)" using trie_release_run(1) [OF rs(1) assms(3,6)] by simp
  from clean_steps_ok [OF assms(7) this]
  have ok: "sys_ok (ts_cache t) (ts_allocs t)" and sub: "x \<notin># page_balance (ts_cache t) (ts_allocs t)"
    using out mset_subset_eqD by fastforce+
  have "x \<notin> set (ta_pages b)" if b: "b \<in> set (ts_allocs t)" "\<not> ta_is_released b" for b
    using alloc_pages_balance [OF ok] b sub by (metis in_set_conv_nth mset_subset_eqD set_mset_mset)
  moreover have "x \<notin> set (tavail (ts_cache t))" using sub by (simp add: page_balance_def)
  ultimately show ?thesis by blast
qed

theorem trie_release_leak_witness:
  "2 \<notin> set (tavail (snd (snd (trie_release_pages (ts_allocs demo_shared ! 0) (ts_cache demo_shared)))))"
proof -
  obtain r a c' where rel: "trie_release_pages (ts_allocs demo_shared ! 0) (ts_cache demo_shared) = (r, a, c')"
    by (metis surj_pair)
  from trie_release_leak [OF demo_cache_init [unfolded demo_pool_def] demo_shared_reachable _ _ _ rel rtranclp.rtrancl_refl, of 2]
  show ?thesis by (simp add: demo_shared_state rel)
qed

subsection \<open>Shared token lists\<close>

text \<open>
  Once an allocation was extended by a list object to more tokens, it is never extended again
  through that object: after any tokens are appended to the list, \<open>extend_allocation\<close> with the list
  returns without error and leaves allocation, trie and pool as they are, however many pages the
  tokens now need. (The server extends by \<open>exec_req.input_token_ids\<close>, the list it appends to.)
\<close>

theorem trie_extend_shared_list:
  assumes "trie_extend_allocation a (Lst l) extra c = (Inr (), a', c1)"
    and "length (tokens_val c (ta_tokens a)) \<noteq> length (tokens_val c (Lst l))"
  shows "trie_extend_allocation a' (Lst l) extra' (foldl (\<lambda>c x. list_append l x c) c1 xs)
    = (Inr (), a', foldl (\<lambda>c x. list_append l x c) c1 xs)"
  using trie_extend_tokens [OF assms] by (simp add: trie_extend_allocation_def Let_def)

definition demo_alias :: "unit res \<times> trie_allocation \<times> unit trie_cache" where
  "demo_alias = trie_extend_allocation (ts_allocs demo_shared ! 0) (Lst 1) 0 (ts_cache demo_shared)"

theorem trie_extend_shared_list_witness:
  "fst (trie_extend_allocation (fst (snd demo_alias)) (Lst 1) 1
     (foldl (\<lambda>c x. list_append 1 x c) (snd (snd demo_alias)) [7, 8, 9])) = Inr ()"
proof -
  have e: "fst demo_alias = Inr ()" by code_simp
  have ext: "trie_extend_allocation (ts_allocs demo_shared ! 0) (Lst 1) 0 (ts_cache demo_shared)
      = (Inr (), fst (snd demo_alias), snd (snd demo_alias))"
    using e by (simp add: demo_alias_def prod_eq_iff)
  have new: "length (tokens_val (ts_cache demo_shared) (ta_tokens (ts_allocs demo_shared ! 0))) \<noteq>
      length (tokens_val (ts_cache demo_shared) (Lst 1))" by code_simp
  show ?thesis unfolding trie_extend_shared_list [OF ext new] by simp
qed

subsection \<open>What unclean publications do\<close>

text \<open>
  C26: a request that publishes a second time makes a page it uses evictable. In a state reached by
  clean calls, let an unreleased allocation rest on a node other than the root that has no child and
  that only this allocation references. If it publishes further pages without an error, and holds
  as many pages as it publishes, then the node now has a child but is still in \<open>leaves\<close>,
  its reference count is 0 and its page is still a page of the unreleased allocation. If moreover every
  other unreferenced member of \<open>leaves\<close> was accessed later, the eviction of one page puts this
  page back among the available ones: the next acquisition can hand it to a second allocation.
\<close>

theorem trie_second_publish_evicts_live_page:
  assumes "trie_cache_init addr clock objs p tpp = Inr c0" and "clean_reachable c0 s"
    and "i < length (ts_allocs s)" and "\<not> ta_is_released (ts_allocs s ! i)"
    and "n = ta_last_cached_node (ts_allocs s ! i)" and "n \<noteq> tc_root (ts_cache s)"
    and "kids (ts_cache s) n = []" and "refs (ts_cache s) n = 1"
    and "trie_publish_pages_for_tokens (ts_allocs s ! i) tk False (ts_cache s) = (Inr (), a', c')"
    and "ta_number_of_published_pages (ts_allocs s ! i) < ta_number_of_published_pages a'"
    and "ta_number_of_published_pages a' \<le> length (ta_pages a')"
  shows "n \<in> set (tc_leaves c') \<and> kids c' n \<noteq> [] \<and> refs c' n = 0 \<and>
    \<not> ta_is_released a' \<and> pg c' n \<in> set (ta_pages a') \<and>
    ((\<forall>m \<in> set (tc_leaves c'). m \<noteq> n \<longrightarrow> rc_is_empty (tn_ref_count (tc_nodes c' m)) \<longrightarrow>
        tn_access_time (tc_nodes c' n) < tn_access_time (tc_nodes c' m)) \<longrightarrow>
      (\<exists>c''. evict_pages 1 c' = (Inr 1, c'') \<and> pg c' n \<in> set (tavail c'')))"
proof -
  have ok: "sys_ok (ts_cache s) (ts_allocs s)" using clean_reachable_ok [OF assms(2,1)] by simp
  note b = trie_publish_behind_leaf [OF ok assms(3,4) assms(5) [symmetric] assms(6,7,9,10,11)]
  then have e: "rc_is_empty (tn_ref_count (tc_nodes c' n))" using assms(8) by (simp add: rc_is_empty_def)
  from b obtain p where "par c' n = Some p" "p \<noteq> n" "map_of (kids c' p) (toks c' n) = Some n" by auto
  from evict_oldest [OF _ e this] b assms(8) show ?thesis by auto
qed

definition demo_second :: "unit trie_sys" where
  "demo_second = snd (trie_run [CallAcquire (Tup [1, 2]) 0, CallPublish 0 (Tup [1, 2]),
     CallExtend 0 (Tup [1, 2, 3, 4]) 0] (start_sys (demo_cache 4)))"

definition demo_published :: "unit res \<times> trie_allocation \<times> unit trie_cache" where
  "demo_published =
     trie_publish_pages_for_tokens (ts_allocs demo_second ! 0) (Tup [1, 2, 3, 4]) False (ts_cache demo_second)"

lemma demo_second_reachable: "clean_reachable (demo_cache 4) demo_second"
  unfolding demo_second_def by (rule trie_run_clean [OF start_reachable(1)]) code_simp

lemma demo_second_view: "sys_view demo_second = ([([3, 2], 1, False)], [0, 1], [1])"
  by code_simp

lemma demo_second_node: "ta_last_cached_node (ts_allocs demo_second ! 0) = 1"
  "tc_root (ts_cache demo_second) = 0" "kids (ts_cache demo_second) 1 = []" "refs (ts_cache demo_second) 1 = 1"
  by code_simp+

lemma demo_published_facts: "fst demo_published = Inr ()"
  "ta_number_of_published_pages (fst (snd demo_published)) = 2" "ta_pages (fst (snd demo_published)) = [3, 2]"
  "\<forall>m \<in> set (tc_leaves (snd (snd demo_published))). m \<noteq> 1 \<longrightarrow>
     \<not> rc_is_empty (tn_ref_count (tc_nodes (snd (snd demo_published)) m))"
  by code_simp+

theorem trie_second_publish_evicts_live_page_witness:
  "pg (snd (snd demo_published)) 1 \<in> set (ta_pages (fst (snd demo_published))) \<and>
   pg (snd (snd demo_published)) 1 \<in> set (tavail (snd (evict_pages 1 (snd (snd demo_published)))))"
proof -
  note st = sys_viewD [OF demo_second_view] and nd = demo_second_node and pf = demo_published_facts
  have q: "trie_publish_pages_for_tokens (ts_allocs demo_second ! 0) (Tup [1, 2, 3, 4]) False (ts_cache demo_second)
      = (Inr (), fst (snd demo_published), snd (snd demo_published))"
    using pf(1) by (simp add: demo_published_def prod_eq_iff)
  from trie_second_publish_evicts_live_page
    [OF demo_cache_init demo_second_reachable _ _ nd(1) [symmetric] _ nd(3,4) q]
  show ?thesis using st nd(2) pf(2-4) by (auto simp del: One_nat_def)
qed

text \<open>
  A whole run of this kind: the second allocation ends up with a page of the first. When the
  first is released and its last node evicted, the stale node is evicted a second time and the
  eviction raises \<open>AttributeError\<close>.
\<close>

definition stale_leaf_calls :: "trie_call list" where
  "stale_leaf_calls = [CallAcquire (Tup [1, 2]) 0, CallPublish 0 (Tup [1, 2]),
     CallExtend 0 (Tup [1, 2, 3, 4]) 0, CallPublish 0 (Tup [1, 2, 3, 4]),
     CallAcquire (Tup [9, 9, 9, 9, 9, 9]) 0]"

lemma trie_stale_leaf_run:
  "sys_view (snd (trie_run stale_leaf_calls (start_sys (demo_cache 4))))
     = ([([3, 2], 2, False), ([3, 1, 0], 0, False)], [], [2])"
  "last (fst (trie_run (stale_leaf_calls @ [CallRelease 0, CallAcquire (Tup [8, 8, 8, 8]) 0])
     (start_sys (demo_cache 4)))) = Inl AttributeError"
  by code_simp+

text \<open>
  Two requests with the same tokens that are both acquired before either publishes create two
  children under the same key. After both are released, an allocation that has to evict both
  removes the second node's entry twice: it raises \<open>KeyError\<close>, and the pages it had taken off the
  trie are not returned to the pool.
\<close>

definition duplicate_publish_calls :: "trie_call list" where
  "duplicate_publish_calls = [CallAcquire (Tup [1, 2]) 0, CallAcquire (Tup [1, 2]) 0,
     CallPublish 0 (Tup [1, 2]), CallPublish 1 (Tup [1, 2]), CallRelease 0, CallRelease 1,
     CallAcquire (Tup [8, 8, 8, 8]) 0]"

theorem trie_duplicate_publish_breaks_eviction:
  "(let (rs, s) = trie_run duplicate_publish_calls (start_sys (demo_cache 2))
    in list_all is_ok (butlast rs) \<and> last rs = Inl KeyError \<and> fst (snd (sys_view s)) = [])"
  by code_simp

end
