(* ===== verification/Base_Cache.thy ===== *)
theory Base_Cache
  imports Page_Pool
begin

section \<open>The cache without prefix sharing\<close>

text \<open>
  Model of \<open>kvcache/base_attention_cache.py\<close>: \<open>BasePagedAttentionCache\<close> and its allocations.
  An operation of an allocation reaches the pool through \<open>self._cache.page_pool\<close>, so it takes
  the allocation and the cache and returns both. The last part runs any interleaving of the
  operations over any number of allocations and shows that no page is lost or held twice.
\<close>

subsection \<open>State and operations\<close>

record base_allocation =
  ba_pages :: "nat list"
  ba_is_released :: bool

record 'c base_cache =
  bc_page_pool :: "'c page_pool"
  bc_tokens_per_page :: int

definition base_cache_init :: "'c page_pool \<Rightarrow> int \<Rightarrow> 'c base_cache" where
  "base_cache_init p tpp = \<lparr>bc_page_pool = p, bc_tokens_per_page = tpp\<rparr>"

definition new_base_allocation :: "nat list \<Rightarrow> base_allocation" where
  "new_base_allocation pages = \<lparr>ba_pages = pages, ba_is_released = False\<rparr>"

definition base_acquire_pages_for_tokens ::
  "'c base_cache \<Rightarrow> int list \<Rightarrow> int \<Rightarrow> base_allocation res \<times> 'c base_cache" where
  "base_acquire_pages_for_tokens c tokens extra_token_slots =
     (let token_count = int (length tokens) in
      if bc_tokens_per_page c = 0 then (Inl ZeroDivisionError, c)
      else (let pages_needed = ceil_div token_count (bc_tokens_per_page c) in
        case acquire_free_pages (bc_page_pool c) pages_needed of
          (None, p) \<Rightarrow> (Inl CacheAllocationFailure, c\<lparr>bc_page_pool := p\<rparr>)
        | (Some pages, p) \<Rightarrow> (Inr (new_base_allocation pages), c\<lparr>bc_page_pool := p\<rparr>)))"

definition base_publish_pages_for_tokens ::
  "'c base_cache \<Rightarrow> base_allocation \<Rightarrow> int list \<Rightarrow> bool \<Rightarrow>
   unit res \<times> base_allocation \<times> 'c base_cache" where
  "base_publish_pages_for_tokens c a tokens publish_incomplete_page = (Inr (), a, c)"

definition base_release_pages ::
  "'c base_cache \<Rightarrow> base_allocation \<Rightarrow> unit res \<times> base_allocation \<times> 'c base_cache" where
  "base_release_pages c a =
     (if ba_is_released a then (Inr (), a, c)
      else (Inr (), a\<lparr>ba_is_released := True\<rparr>,
            c\<lparr>bc_page_pool := free_pages (bc_page_pool c) (ba_pages a)\<rparr>))"

definition base_extend_allocation ::
  "'c base_cache \<Rightarrow> base_allocation \<Rightarrow> int list \<Rightarrow> int \<Rightarrow>
   unit res \<times> base_allocation \<times> 'c base_cache" where
  "base_extend_allocation c a tokens extra_token_slots =
     (let token_count = int (length tokens) + extra_token_slots in
      if bc_tokens_per_page c = 0 then (Inl ZeroDivisionError, a, c)
      else (let pages_needed = ceil_div token_count (bc_tokens_per_page c) in
        if pages_needed > int (length (ba_pages a)) then
          (case acquire_free_pages (bc_page_pool c) (pages_needed - int (length (ba_pages a))) of
             (None, p) \<Rightarrow> (Inl CacheAllocationFailure, a, c\<lparr>bc_page_pool := p\<rparr>)
           | (Some new_pages, p) \<Rightarrow>
               (Inr (), a\<lparr>ba_pages := ba_pages a @ new_pages\<rparr>, c\<lparr>bc_page_pool := p\<rparr>))
        else (Inr (), a, c)))"

subsection \<open>Functional behaviour\<close>

definition base_avail :: "'c base_cache \<Rightarrow> nat list" where
  "base_avail c = pp_available_pages (bc_page_pool c)"

lemma base_acquire_Inr:
  assumes "base_acquire_pages_for_tokens c tokens extra = (Inr a, c')"
  shows "\<not> ba_is_released a"
    and "int (length (ba_pages a)) = max 0 (ceil_div (int (length tokens)) (bc_tokens_per_page c))"
    and "mset (base_avail c) = mset (base_avail c') + mset (ba_pages a)"
    and "bc_tokens_per_page c' = bc_tokens_per_page c"
proof -
  let ?n = "ceil_div (int (length tokens)) (bc_tokens_per_page c)"
  from assms obtain pages p where
    acq: "acquire_free_pages (bc_page_pool c) ?n = (Some pages, p)"
    and a: "a = new_base_allocation pages" and c': "c' = c\<lparr>bc_page_pool := p\<rparr>"
    by (auto simp: base_acquire_pages_for_tokens_def Let_def split: if_splits prod.splits option.splits)
  show "\<not> ba_is_released a" by (simp add: a new_base_allocation_def)
  show "int (length (ba_pages a)) = max 0 ?n"
    using pool.acquire_Some [OF acq] by (simp add: a new_base_allocation_def)
  show "mset (base_avail c) = mset (base_avail c') + mset (ba_pages a)"
    using pool.acquire_Some [OF acq] by (simp add: a c' new_base_allocation_def base_avail_def)
  show "bc_tokens_per_page c' = bc_tokens_per_page c" by (simp add: c')
qed

lemma base_acquire_Inl:
  assumes "base_acquire_pages_for_tokens c tokens extra = (Inl e, c')"
  shows "c' = c"
  using assms
  by (auto simp: base_acquire_pages_for_tokens_def Let_def acquire_free_pages_None
      split: if_splits prod.splits option.splits)

lemma base_extend_Inr:
  assumes "base_extend_allocation c a tokens extra = (Inr (), a', c')" and "0 < bc_tokens_per_page c"
  shows "int (length tokens) + extra \<le> int (length (ba_pages a')) * bc_tokens_per_page c"
    and "\<exists>new. ba_pages a' = ba_pages a @ new \<and> mset (base_avail c) = mset (base_avail c') + mset new"
    and "ba_is_released a' = ba_is_released a"
    and "bc_tokens_per_page c' = bc_tokens_per_page c"
proof -
  let ?n = "ceil_div (int (length tokens) + extra) (bc_tokens_per_page c)"
  consider (keep) "?n \<le> int (length (ba_pages a))" "a' = a" "c' = c"
    | (grow) new p where "?n > int (length (ba_pages a))"
        "acquire_free_pages (bc_page_pool c) (?n - int (length (ba_pages a))) = (Some new, p)"
        "a' = a\<lparr>ba_pages := ba_pages a @ new\<rparr>" "c' = c\<lparr>bc_page_pool := p\<rparr>"
    using assms by (auto simp: base_extend_allocation_def Let_def split: if_splits prod.splits option.splits)
  then have "?n \<le> int (length (ba_pages a')) \<and>
      (\<exists>new. ba_pages a' = ba_pages a @ new \<and>
        mset (base_avail c) = mset (base_avail c') + mset new) \<and>
      ba_is_released a' = ba_is_released a \<and> bc_tokens_per_page c' = bc_tokens_per_page c"
  proof cases
    case keep
    then show ?thesis by simp
  next
    case grow
    from pool.acquire_Some [OF grow(2)] grow(1,3,4) show ?thesis by (simp add: base_avail_def)
  qed
  then show "int (length tokens) + extra \<le> int (length (ba_pages a')) * bc_tokens_per_page c"
    and "\<exists>new. ba_pages a' = ba_pages a @ new \<and> mset (base_avail c) = mset (base_avail c') + mset new"
    and "ba_is_released a' = ba_is_released a"
    and "bc_tokens_per_page c' = bc_tokens_per_page c"
    using assms(2) by (auto simp: ceil_div_le_iff)
qed

lemma base_extend_Inl:
  assumes "base_extend_allocation c a tokens extra = (Inl e, a', c')"
  shows "a' = a \<and> c' = c"
  using assms
  by (auto simp: base_extend_allocation_def Let_def acquire_free_pages_None
      split: if_splits prod.splits option.splits)

lemma base_release_live:
  assumes "base_release_pages c a = (r, a', c')" and "\<not> ba_is_released a"
  shows "ba_is_released a'" and "mset (base_avail c') = mset (base_avail c) + mset (ba_pages a)"
  using assms by (auto simp: base_release_pages_def base_avail_def)

lemma base_release_twice:
  assumes "base_release_pages c a = (r, a', c')"
  shows "base_release_pages c' a' = (Inr (), a', c')"
  using assms by (auto simp: base_release_pages_def split: if_splits)

subsection \<open>Any number of allocations, in any interleaving\<close>

text \<open>
  \<open>extend_allocation\<close> does not ask whether the allocation was released. The pages such a call adds
  go to an allocation whose \<open>release_pages\<close> does nothing any more: \<open>bs_lost\<close> records them (the
  specification's own bookkeeping, no part of the code reads it).
\<close>

record 'c base_sys =
  bs_cache :: "'c base_cache"
  bs_allocs :: "base_allocation list"
  bs_lost :: "nat list"

definition taken_late :: "base_allocation \<Rightarrow> base_allocation \<Rightarrow> nat list" where
  "taken_late a a' = (if ba_is_released a then drop (length (ba_pages a)) (ba_pages a') else [])"

inductive base_step :: "'c base_sys \<Rightarrow> 'c base_sys \<Rightarrow> bool" where
  base_acquire:
    "base_acquire_pages_for_tokens (bs_cache s) tokens extra = (Inr a, c) \<Longrightarrow>
     base_step s (s\<lparr>bs_cache := c, bs_allocs := bs_allocs s @ [a]\<rparr>)"
| base_acquire_fails:
    "base_acquire_pages_for_tokens (bs_cache s) tokens extra = (Inl e, c) \<Longrightarrow>
     base_step s (s\<lparr>bs_cache := c\<rparr>)"
| base_extend:
    "i < length (bs_allocs s) \<Longrightarrow>
     base_extend_allocation (bs_cache s) (bs_allocs s ! i) tokens extra = (r, a, c) \<Longrightarrow>
     base_step s (s\<lparr>bs_cache := c, bs_allocs := (bs_allocs s)[i := a],
       bs_lost := bs_lost s @ taken_late (bs_allocs s ! i) a\<rparr>)"
| base_publish:
    "i < length (bs_allocs s) \<Longrightarrow>
     base_publish_pages_for_tokens (bs_cache s) (bs_allocs s ! i) tokens inc = (r, a, c) \<Longrightarrow>
     base_step s (s\<lparr>bs_cache := c, bs_allocs := (bs_allocs s)[i := a]\<rparr>)"
| base_release:
    "i < length (bs_allocs s) \<Longrightarrow>
     base_release_pages (bs_cache s) (bs_allocs s ! i) = (r, a, c) \<Longrightarrow>
     base_step s (s\<lparr>bs_cache := c, bs_allocs := (bs_allocs s)[i := a]\<rparr>)"

inductive base_reachable :: "'c base_cache \<Rightarrow> 'c base_sys \<Rightarrow> bool" for c0 where
  base_start: "base_reachable c0 \<lparr>bs_cache = c0, bs_allocs = [], bs_lost = []\<rparr>"
| base_next: "base_reachable c0 s \<Longrightarrow> base_step s t \<Longrightarrow> base_reachable c0 t"

text \<open>The pages an allocation still owns, and the whole system's page balance.\<close>

definition base_owned :: "base_allocation \<Rightarrow> nat multiset" where
  "base_owned a = (if ba_is_released a then {#} else mset (ba_pages a))"

definition base_balance :: "'c base_sys \<Rightarrow> nat multiset" where
  "base_balance s =
     mset (base_avail (bs_cache s)) + sum_list (map base_owned (bs_allocs s)) + mset (bs_lost s)"

lemma base_owned_member: "a \<in> set as \<Longrightarrow> base_owned a \<subseteq># sum_list (map base_owned as)"
proof (induction as)
  case (Cons b as)
  then show ?case by (auto intro: subset_mset.order_trans)
qed simp

lemma base_balance_extend:
  assumes "i < length (bs_allocs s)"
    and "mset (base_avail c) + base_owned a + mset l
       = mset (base_avail (bs_cache s)) + base_owned (bs_allocs s ! i)"
  shows "base_balance (s\<lparr>bs_cache := c, bs_allocs := (bs_allocs s)[i := a], bs_lost := bs_lost s @ l\<rparr>)
    = base_balance s"
proof -
  from assms(1) have "sum_list (map base_owned ((bs_allocs s)[i := a])) + base_owned (bs_allocs s ! i)
      = sum_list (map base_owned (bs_allocs s)) + base_owned a"
    by (rule sum_list_map_update)
  moreover have "mset (base_avail c) + mset l + base_owned a
      = mset (base_avail (bs_cache s)) + base_owned (bs_allocs s ! i)" using assms(2) by (simp add: ac_simps)
  ultimately have "mset (base_avail c) + mset l + sum_list (map base_owned ((bs_allocs s)[i := a]))
      = mset (base_avail (bs_cache s)) + sum_list (map base_owned (bs_allocs s))"
    by (rule mset_exchange)
  then have "(mset (base_avail c) + mset l + sum_list (map base_owned ((bs_allocs s)[i := a]))) + mset (bs_lost s)
      = (mset (base_avail (bs_cache s)) + sum_list (map base_owned (bs_allocs s))) + mset (bs_lost s)"
    by (rule arg_cong)
  then show ?thesis by (simp add: base_balance_def ac_simps)
qed

lemma base_balance_update:
  assumes "i < length (bs_allocs s)"
    and "mset (base_avail c) + base_owned a
       = mset (base_avail (bs_cache s)) + base_owned (bs_allocs s ! i)"
  shows "base_balance (s\<lparr>bs_cache := c, bs_allocs := (bs_allocs s)[i := a]\<rparr>) = base_balance s"
  using base_balance_extend [of i s c a "[]"] assms by (cases s) simp

lemma base_step_balance:
  assumes "base_step s t" and "0 < bc_tokens_per_page (bs_cache s)"
  shows "base_balance t = base_balance s"
    and "bc_tokens_per_page (bs_cache t) = bc_tokens_per_page (bs_cache s)"
  using assms
proof (induction rule: base_step.induct)
  case (base_acquire s tokens extra a c)
  {
    case 1
    from base_acquire_Inr [OF base_acquire] show ?case
      by (simp add: base_balance_def base_owned_def ac_simps)
  next
    case 2
    from base_acquire_Inr [OF base_acquire] show ?case by simp
  }
next
  case (base_acquire_fails s tokens extra e c)
  then show "base_balance (s\<lparr>bs_cache := c\<rparr>) = base_balance s"
    and "bc_tokens_per_page (bs_cache (s\<lparr>bs_cache := c\<rparr>)) = bc_tokens_per_page (bs_cache s)"
    by (auto dest: base_acquire_Inl)
next
  case (base_extend i s tokens extra r a c)
  have bal: "mset (base_avail c) + base_owned a + mset (taken_late (bs_allocs s ! i) a)
       = mset (base_avail (bs_cache s)) + base_owned (bs_allocs s ! i)
      \<and> bc_tokens_per_page c = bc_tokens_per_page (bs_cache s)"
    if "0 < bc_tokens_per_page (bs_cache s)"
  proof (cases r)
    case (Inl e)
    with base_extend_Inl base_extend(2) show ?thesis by (fastforce simp: taken_late_def)
  next
    case (Inr u)
    with base_extend(2) have e: "base_extend_allocation (bs_cache s) (bs_allocs s ! i) tokens extra
        = (Inr (), a, c)" by simp
    from base_extend_Inr(2-4) [OF e that] show ?thesis
      by (auto simp: base_owned_def taken_late_def)
  qed
  {
    case 1
    with bal base_extend(1) show ?case by (simp add: base_balance_extend)
  next
    case 2
    with bal show ?case by simp
  }
next
  case (base_publish i s tokens inc r a c)
  then have "a = bs_allocs s ! i" "c = bs_cache s"
    by (auto simp: base_publish_pages_for_tokens_def)
  then show "base_balance (s\<lparr>bs_cache := c, bs_allocs := (bs_allocs s)[i := a]\<rparr>) = base_balance s"
    and "bc_tokens_per_page (bs_cache (s\<lparr>bs_cache := c, bs_allocs := (bs_allocs s)[i := a]\<rparr>))
       = bc_tokens_per_page (bs_cache s)"
    by simp_all
next
  case (base_release i s r a c)
  have "mset (base_avail c) + base_owned a
       = mset (base_avail (bs_cache s)) + base_owned (bs_allocs s ! i)"
    using base_release(2) by (auto simp: base_release_pages_def base_avail_def base_owned_def split: if_splits)
  moreover have "bc_tokens_per_page c = bc_tokens_per_page (bs_cache s)"
    using base_release(2) by (auto simp: base_release_pages_def split: if_splits)
  ultimately show "base_balance (s\<lparr>bs_cache := c, bs_allocs := (bs_allocs s)[i := a]\<rparr>) = base_balance s"
    and "bc_tokens_per_page (bs_cache (s\<lparr>bs_cache := c, bs_allocs := (bs_allocs s)[i := a]\<rparr>))
       = bc_tokens_per_page (bs_cache s)"
    using base_release(1) by (simp_all add: base_balance_update)
qed

lemma base_reachable_balance:
  assumes "base_reachable c0 s" and "0 < bc_tokens_per_page c0"
  shows "base_balance s = mset (base_avail c0)
    \<and> bc_tokens_per_page (bs_cache s) = bc_tokens_per_page c0"
  using assms
proof (induction rule: base_reachable.induct)
  case base_start
  then show ?case by (simp add: base_balance_def)
next
  case (base_next s t)
  then show ?case using base_step_balance [of s t] by simp
qed

end
