(* ===== verification/Cache_Interface.thy ===== *)
theory Cache_Interface
  imports Base_Cache Trie_Facts
begin

section \<open>The interface the server uses\<close>

text \<open>
  \<open>PageAllocation\<close> (\<open>base_attention_cache.py\<close>) is the protocol through which the request, the
  batcher and the executor see an allocation, whichever cache made it. The locale states what
  both caches keep of it: new allocations are unreleased, an extension only appends pages and
  never releases, release is final and keeps the page list, and a second release is a no-op. The
  lemmas in it are what the server relies on: page ids it has already sent to a device stay at
  their position through any sequence of extensions.
\<close>

definition extend_all :: "('c \<Rightarrow> 'a \<Rightarrow> 't \<Rightarrow> int \<Rightarrow> unit res \<times> 'a \<times> 'c) \<Rightarrow> ('t \<times> int) list \<Rightarrow> 'a \<times> 'c \<Rightarrow> 'a \<times> 'c" where
  "extend_all ext calls ac = foldl (\<lambda>(a, c) (tk, extra). snd (ext c a tk extra)) ac calls"

locale page_cache =
  fixes acquire :: "'c \<Rightarrow> 't \<Rightarrow> int \<Rightarrow> 'a res \<times> 'c"
    and extend :: "'c \<Rightarrow> 'a \<Rightarrow> 't \<Rightarrow> int \<Rightarrow> unit res \<times> 'a \<times> 'c"
    and release :: "'c \<Rightarrow> 'a \<Rightarrow> unit res \<times> 'a \<times> 'c"
    and pages :: "'a \<Rightarrow> nat list"
    and released :: "'a \<Rightarrow> bool"
  assumes acquire_live: "acquire c tk extra = (Inr a, c') \<Longrightarrow> \<not> released a"
    and extend_appends: "extend c a tk extra = (r, a', c') \<Longrightarrow> \<exists>new. pages a' = pages a @ new"
    and extend_live: "extend c a tk extra = (r, a', c') \<Longrightarrow> released a' = released a"
    and release_final: "release c a = (r, a', c') \<Longrightarrow> r = Inr () \<and> released a' \<and> pages a' = pages a"
    and release_again: "released a \<Longrightarrow> release c a = (Inr (), a, c)"
begin

lemma release_idempotent: "release c a = (r, a', c') \<Longrightarrow> release c' a' = (Inr (), a', c')"
  using release_final release_again by blast

lemma extend_all_prefix:
  "extend_all extend calls (a, c) = (a', c') \<Longrightarrow>
   released a' = released a \<and> (\<exists>new. pages a' = pages a @ new)"
proof (induction calls arbitrary: a c)
  case (Cons x calls)
  obtain r b d where e: "extend c a (fst x) (snd x) = (r, b, d)" by (metis surj_pair)
  with Cons.prems have "extend_all extend calls (b, d) = (a', c')"
    by (simp add: extend_all_def split_beta)
  from Cons.IH [OF this] extend_appends [OF e] extend_live [OF e] show ?case by auto
qed (simp add: extend_all_def)

lemma extend_all_nth:
  "extend_all extend calls (a, c) = (a', c') \<Longrightarrow> i < length (pages a) \<Longrightarrow>
   i < length (pages a') \<and> pages a' ! i = pages a ! i"
  using extend_all_prefix [of calls a c a' c'] by (auto simp: nth_append)

end

interpretation base: page_cache base_acquire_pages_for_tokens base_extend_allocation
  base_release_pages ba_pages ba_is_released
proof
  fix c c' :: "'c base_cache" and a a' tk extra r
  show "\<not> ba_is_released a" if "base_acquire_pages_for_tokens c tk extra = (Inr a, c')"
    using base_acquire_Inr(1) [OF that] .
  show "\<exists>new. ba_pages a' = ba_pages a @ new" "ba_is_released a' = ba_is_released a"
    if "base_extend_allocation c a tk extra = (r, a', c')"
    using that by (auto simp: base_extend_allocation_def Let_def split: if_splits prod.splits option.splits)
  show "r = Inr () \<and> ba_is_released a' \<and> ba_pages a' = ba_pages a" if "base_release_pages c a = (r, a', c')"
    using that by (auto simp: base_release_pages_def split: if_splits)
  show "base_release_pages c a = (Inr (), a, c)" if "ba_is_released a"
    using that by (simp add: base_release_pages_def)
qed

interpretation trie: page_cache "\<lambda>c tk extra. trie_acquire_pages_for_tokens tk extra c"
  "\<lambda>c a tk extra. trie_extend_allocation a tk extra c" "\<lambda>c a. trie_release_pages a c"
  ta_pages ta_is_released
proof
  fix c c' :: "'c trie_cache" and a a' tk extra r
  show "\<not> ta_is_released a" if "trie_acquire_pages_for_tokens tk extra c = (Inr a, c')"
    using trie_acquire_unreleased [OF that] .
  show "\<exists>new. ta_pages a' = ta_pages a @ new" "ta_is_released a' = ta_is_released a"
    if "trie_extend_allocation a tk extra c = (r, a', c')"
    by (rule trie_extend_shape [OF that])+
  show "r = Inr () \<and> ta_is_released a' \<and> ta_pages a' = ta_pages a" if "trie_release_pages a c = (r, a', c')"
    using that by (auto simp: trie_release_pages_def split: if_splits)
  show "trie_release_pages a c = (Inr (), a, c)" if "ta_is_released a"
    using that by (simp add: trie_release_pages_def)
qed

subsection \<open>Properties of the pool and of the base cache\<close>

text \<open>
  \<open>acquire_free_pages\<close> is all or nothing. It returns \<open>None\<close> and leaves the pool alone exactly when
  it is asked for more pages than are available; otherwise it returns as many pages as asked for
  (none for a negative count), taken from the end of the stack, and giving them back makes them
  available again without loss.
\<close>

theorem pool_acquire_all_or_nothing:
  "(case acquire_free_pages p n of
      (None, p') \<Rightarrow> int (length (pp_available_pages p)) < n \<and> p' = p
    | (Some ps, p') \<Rightarrow> n \<le> int (length (pp_available_pages p)) \<and> length ps = nat n \<and>
        pp_available_pages p = pp_available_pages p' @ rev ps \<and>
        mset (pp_available_pages (free_pages p' ps)) = mset (pp_available_pages p))"
proof (cases "acquire_free_pages p n")
  case (Pair r p')
  show ?thesis
  proof (cases r)
    case None
    with Pair have a: "acquire_free_pages p n = (None, p')" by simp
    with acquire_free_pages_None [of p n p'] have "int (length (pp_available_pages p)) < n \<and> p' = p" by simp
    then show ?thesis unfolding a by simp
  next
    case (Some ps)
    with Pair have a: "acquire_free_pages p n = (Some ps, p')" by simp
    then have "\<not> int (length (pp_available_pages p)) < n" by (auto simp: acquire_free_pages_def)
    with a acquire_free_pages_Some(1,2) [OF a] show ?thesis by (simp add: free_pages_def not_less)
  qed
qed

text \<open>
  C8: the base cache neither shares a page nor forgets one: in every state that any interleaving of
  acquire, extend, publish and release calls reaches, on released allocations too, the available
  pages, the pages of the unreleased allocations, and the pages that extensions of already released
  allocations took (\<open>bs_lost\<close>) are together exactly the pages of the pool, each once. So without
  such a late extension the first two are the whole pool; the code does not refuse one, and no
  later release returns what it took.
\<close>

theorem base_pages_partition:
  assumes "base_reachable (base_cache_init (pool_init mk devs cfg) tpp) s" and "0 < tpp"
  shows "mset (pp_available_pages (bc_page_pool (bs_cache s)))
      + sum_list (map (\<lambda>a. if ba_is_released a then {#} else mset (ba_pages a)) (bs_allocs s))
      + mset (bs_lost s)
    = mset [0..<pc_alloc_page_count cfg]"
  using base_reachable_balance [OF assms(1)] assms(2)
  by (simp add: base_balance_def base_owned_def base_avail_def base_cache_init_def pool_init_avail
      flip: base_owned_def)

text \<open>Two pages for three tokens, released, then extended to five tokens: one page is lost.\<close>

definition demo_base :: "unit base_sys" where
  "demo_base =
     (let c = base_cache_init (demo_pool 4) 2;
          (r, c1) = base_acquire_pages_for_tokens c [1, 2, 3] 0;
          a = (case r of Inr a \<Rightarrow> a | Inl _ \<Rightarrow> new_base_allocation []);
          (_, a1, c2) = base_release_pages c1 a;
          (_, a2, c3) = base_extend_allocation c2 a1 [1, 2, 3, 4, 5] 0
      in \<lparr>bs_cache = c3, bs_allocs = [a2], bs_lost = taken_late a1 a2\<rparr>)"

lemma demo_base_view: "bs_lost demo_base = [2]"
  "map ba_is_released (bs_allocs demo_base) = [True]"
  "pp_available_pages (bc_page_pool (bs_cache demo_base)) = [0, 1, 3]"
  by code_simp+

lemma demo_base_reachable: "base_reachable (base_cache_init (demo_pool 4) 2) demo_base"
proof -
  let ?c = "base_cache_init (demo_pool 4) 2 :: unit base_cache"
  have "is_ok (fst (base_acquire_pages_for_tokens ?c [1, 2, 3] 0))" by code_simp
  then obtain a c1 where acq: "base_acquire_pages_for_tokens ?c [1, 2, 3] 0 = (Inr a, c1)"
    by (cases "base_acquire_pages_for_tokens ?c [1, 2, 3] 0") (auto simp: is_ok_iff)
  obtain r1 a1 c2 where rel: "base_release_pages c1 a = (r1, a1, c2)" by (metis surj_pair)
  obtain r2 a2 c3 where ext: "base_extend_allocation c2 a1 [1, 2, 3, 4, 5] 0 = (r2, a2, c3)" by (metis surj_pair)
  have d: "demo_base = \<lparr>bs_cache = c3, bs_allocs = [a2], bs_lost = taken_late a1 a2\<rparr>"
    by (simp add: demo_base_def Let_def acq rel ext)
  note s1 = base_next [OF base_start [of ?c] base_acquire, of "[1, 2, 3]" 0, simplified, OF acq]
  note s2 = base_next [OF s1 base_release, of 0, simplified, OF rel]
  note s3 = base_next [OF s2 base_extend, of 0, simplified, OF ext]
  then show ?thesis by (simp add: d)
qed

theorem base_pages_partition_witness:
  "mset (pp_available_pages (bc_page_pool (bs_cache demo_base)))
      + sum_list (map (\<lambda>a. if ba_is_released a then {#} else mset (ba_pages a)) (bs_allocs demo_base))
      + {#2#} = mset [0..<4]"
  using base_pages_partition [OF demo_base_reachable [unfolded demo_pool_def]] by (simp add: demo_base_view)

text \<open>
  The base cache never reserves the extra token slots its interface asks for: an acquisition
  gives exactly the pages of the tokens, so with tokens that fill their pages a request for at least one
  extra slot succeeds without room for it; an extension does make the room.
\<close>

theorem base_acquire_ignores_extra_slots:
  assumes "base_acquire_pages_for_tokens c tokens extra = (Inr a, c1)" and "0 < bc_tokens_per_page c"
    and "bc_tokens_per_page c dvd int (length tokens)" and "0 < extra"
    and "base_extend_allocation c1 a tokens extra = (Inr (), a', c2)"
  shows "int (length (ba_pages a)) * bc_tokens_per_page c < int (length tokens) + extra \<and>
    int (length tokens) + extra \<le> int (length (ba_pages a')) * bc_tokens_per_page c"
proof -
  note acq = base_acquire_Inr [OF assms(1)]
  from assms(3) obtain k where k: "int (length tokens) = k * bc_tokens_per_page c" by (metis dvd_def mult.commute)
  then have "0 \<le> k * bc_tokens_per_page c" by (metis of_nat_0_le_iff)
  with assms(2) have "0 \<le> k" by (simp add: zero_le_mult_iff)
  with acq(2) k assms(2) have "int (length (ba_pages a)) = k" by simp
  with k assms(4) have "int (length (ba_pages a)) * bc_tokens_per_page c < int (length tokens) + extra" by simp
  with base_extend_Inr(1) [OF assms(5)] acq(4) assms(2) show ?thesis by simp
qed

definition demo_full_page :: "base_allocation res \<times> unit base_cache" where
  "demo_full_page = base_acquire_pages_for_tokens (base_cache_init (demo_pool 4) 2) [1, 2] 1"

theorem base_acquire_ignores_extra_slots_witness:
  "(case demo_full_page of (Inr a, c) \<Rightarrow> int (length (ba_pages a)) * 2 < 2 + 1 | _ \<Rightarrow> False)"
proof -
  have "is_ok (fst demo_full_page)" by code_simp
  then obtain a c1 where a: "base_acquire_pages_for_tokens (base_cache_init (demo_pool 4) 2) [1, 2] 1 = (Inr a, c1)"
    by (cases demo_full_page) (auto simp: demo_full_page_def is_ok_iff)
  have "(case demo_full_page of (Inr a, c) \<Rightarrow> is_ok (fst (base_extend_allocation c a [1, 2] 1)) | _ \<Rightarrow> False)"
    by code_simp
  then obtain a' c2 where e: "base_extend_allocation c1 a [1, 2] 1 = (Inr (), a', c2)"
    using a by (cases "base_extend_allocation c1 a [1, 2] 1") (auto simp: demo_full_page_def is_ok_iff)
  show ?thesis using base_acquire_ignores_extra_slots [OF a _ _ _ e] a
    by (simp add: demo_full_page_def base_cache_init_def)
qed

text \<open>
  A page that an allocation has at some position stays there through any sequence of extensions,
  with either cache, so the page ids already sent to a device stay valid.
\<close>

theorem extension_keeps_pages:
  "(extend_all base_extend_allocation calls (a, c) = (a', c') \<longrightarrow>
      (\<forall>i < length (ba_pages a). ba_pages a' ! i = ba_pages a ! i)) \<and>
   (extend_all (\<lambda>c a tk extra. trie_extend_allocation a tk extra c) tcalls (ta, tc) = (ta', tc') \<longrightarrow>
      (\<forall>i < length (ta_pages ta). ta_pages ta' ! i = ta_pages ta ! i))"
  using base.extend_all_nth [of calls a c a' c'] trie.extend_all_nth [of tcalls ta tc ta' tc'] by simp

theorem extension_keeps_pages_witness:
  "ba_pages (fst (extend_all base_extend_allocation [([1, 2, 3], 2)]
     (new_base_allocation [3], base_cache_init (demo_pool 3) 2))) ! 0 = 3"
proof -
  obtain a' c' where e: "extend_all base_extend_allocation [([1, 2, 3], 2)]
      (new_base_allocation [3], base_cache_init (demo_pool 3) 2) = (a', c')" by fastforce
  from conjunct1 [OF extension_keeps_pages [of "[([1, 2, 3], 2)]" "new_base_allocation [3]"
      "base_cache_init (demo_pool 3) 2" a' c']] e
  show ?thesis by (simp add: new_base_allocation_def)
qed

end
