(* ===== verification/Llm_Messages.thy ===== *)
theory Llm_Messages
  imports Cache_Interface
begin

section \<open>Inference requests\<close>

text \<open>
  Model of \<open>llm/components/messages.py\<close>. A request reaches its cache through the methods of the
  cache object the service chose, so the operations of a cache are a record of functions, with one
  value per cache class. Token lists are the objects the cache model uses: for the base cache, which
  stores no list, the list's value, for the trie cache a reference into its list store.
\<close>

subsection \<open>The two caches as method tables\<close>

record ('c, 'a, 't) cache_ops =
  co_acquire :: "'c \<Rightarrow> 't \<Rightarrow> int \<Rightarrow> 'a res \<times> 'c"
  co_extend :: "'c \<Rightarrow> 'a \<Rightarrow> 't \<Rightarrow> int \<Rightarrow> unit res \<times> 'a \<times> 'c"
  co_publish :: "'c \<Rightarrow> 'a \<Rightarrow> 't \<Rightarrow> bool \<Rightarrow> unit res \<times> 'a \<times> 'c"
  co_release :: "'c \<Rightarrow> 'a \<Rightarrow> unit res \<times> 'a \<times> 'c"
  co_pages :: "'a \<Rightarrow> nat list"
  co_tokens :: "'c \<Rightarrow> 't \<Rightarrow> int list"
  co_append :: "'t \<Rightarrow> int \<Rightarrow> 'c \<Rightarrow> 't \<times> 'c"

definition base_ops :: "('c base_cache, base_allocation, int list) cache_ops" where
  "base_ops =
     \<lparr>co_acquire = base_acquire_pages_for_tokens, co_extend = base_extend_allocation,
      co_publish = base_publish_pages_for_tokens, co_release = base_release_pages,
      co_pages = ba_pages, co_tokens = (\<lambda>_ xs. xs), co_append = (\<lambda>xs x c. (xs @ [x], c))\<rparr>"

definition trie_append :: "py_tokens \<Rightarrow> int \<Rightarrow> 'c trie_cache \<Rightarrow> py_tokens \<times> 'c trie_cache" where
  "trie_append tk x c =
     (case tk of Lst l \<Rightarrow> (Lst l, list_append l x c) | Tup xs \<Rightarrow> (Tup (xs @ [x]), c))"

definition trie_ops :: "('c trie_cache, trie_allocation, py_tokens) cache_ops" where
  "trie_ops =
     \<lparr>co_acquire = (\<lambda>c tk extra. trie_acquire_pages_for_tokens tk extra c),
      co_extend = (\<lambda>c a tk extra. trie_extend_allocation a tk extra c),
      co_publish = (\<lambda>c a tk inc. trie_publish_pages_for_tokens a tk inc c),
      co_release = (\<lambda>c a. trie_release_pages a c), co_pages = ta_pages,
      co_tokens = tokens_val, co_append = trie_append\<rparr>"

subsection \<open>Requests and their operations\<close>

datatype inference_phase = PREFILL | DECODE

record ('a, 't, 'l) exec_request =
  er_phase :: inference_phase
  er_start_position :: int
  er_input_token_ids :: 't
  er_done :: bool
  er_rid :: "string option"
  er_return_all_logits :: bool
  er_return_host_array :: bool
  er_result_logits :: "'l option"
  er_allocation :: "'a option"

definition new_exec_request ::
  "inference_phase \<Rightarrow> 't \<Rightarrow> string option \<Rightarrow> ('a, 't, 'l) exec_request" where
  "new_exec_request phase input_token_ids rid =
     \<lparr>er_phase = phase, er_start_position = 0, er_input_token_ids = input_token_ids, er_done = False,
      er_rid = rid, er_return_all_logits = False, er_return_host_array = True,
      er_result_logits = None, er_allocation = None\<rparr>"

text \<open>\<open>reset\<close> makes a new \<open>VoidFuture\<close>: the request is no longer done.\<close>

definition er_reset :: "inference_phase \<Rightarrow> ('a, 't, 'l) exec_request \<Rightarrow> ('a, 't, 'l) exec_request" where
  "er_reset phase r =
     r\<lparr>er_phase := phase, er_done := False, er_return_all_logits := False,
       er_return_host_array := True, er_result_logits := None\<rparr>"

text \<open>\<open>xs[:n]\<close>; a negative bound counts from the end.\<close>

definition py_prefix :: "int \<Rightarrow> 'x list \<Rightarrow> 'x list" where
  "py_prefix n xs = (if 0 \<le> n then take (nat n) xs else take (length xs - nat (- n)) xs)"

definition cache_page_indices ::
  "('c, 'a, 't) cache_ops \<Rightarrow> ('a, 't, 'l) exec_request \<Rightarrow> int \<Rightarrow> nat list" where
  "cache_page_indices ops r max_len =
     (case er_allocation r of None \<Rightarrow> [] | Some a \<Rightarrow> py_prefix max_len (co_pages ops a))"

definition publish_allocated_pages ::
  "('c, 'a, 't) cache_ops \<Rightarrow> int \<Rightarrow> ('a, 't, 'l) exec_request \<Rightarrow> 'c \<Rightarrow>
   unit res \<times> ('a, 't, 'l) exec_request \<times> 'c" where
  "publish_allocated_pages ops up_to_page_index r c =
     (case er_allocation r of
        None \<Rightarrow> (Inl AssertionError, r, c)
      | Some a \<Rightarrow>
          (let (res, a', c') = co_publish ops c a (er_input_token_ids r) False
           in (res, r\<lparr>er_allocation := Some a'\<rparr>, c')))"

definition free_cache_pages ::
  "('c, 'a, 't) cache_ops \<Rightarrow> ('a, 't, 'l) exec_request \<Rightarrow> 'c \<Rightarrow>
   unit res \<times> ('a, 't, 'l) exec_request \<times> 'c" where
  "free_cache_pages ops r c =
     (case er_allocation r of
        None \<Rightarrow> (Inr (), r, c)
      | Some a \<Rightarrow>
          (case co_release ops c a of
             (Inl e, a', c') \<Rightarrow> (Inl e, r\<lparr>er_allocation := Some a'\<rparr>, c')
           | (Inr _, _, c') \<Rightarrow> (Inr (), r\<lparr>er_allocation := None\<rparr>, c')))"

subsection \<open>What the request layer relies on\<close>

text \<open>
  The interface of the caches, with publication: it keeps the page list and does not release. The
  lemmas hold for a method table that satisfies it.
\<close>

locale request_cache = page_cache acquire extend release pages released
  for acquire :: "'c \<Rightarrow> 't \<Rightarrow> int \<Rightarrow> 'a res \<times> 'c"
    and extend :: "'c \<Rightarrow> 'a \<Rightarrow> 't \<Rightarrow> int \<Rightarrow> unit res \<times> 'a \<times> 'c"
    and release :: "'c \<Rightarrow> 'a \<Rightarrow> unit res \<times> 'a \<times> 'c"
    and pages :: "'a \<Rightarrow> nat list"
    and released :: "'a \<Rightarrow> bool" +
  fixes ops :: "('c, 'a, 't) cache_ops"
  assumes ops_acquire: "co_acquire ops = acquire" and ops_extend: "co_extend ops = extend"
    and ops_release: "co_release ops = release" and ops_pages: "co_pages ops = pages"
    and publish_pages: "co_publish ops c a tk inc = (r, a', c') \<Longrightarrow> pages a' = pages a"
    and publish_live: "co_publish ops c a tk inc = (r, a', c') \<Longrightarrow> released a' = released a"
begin

lemma free_ok:
  assumes "free_cache_pages ops r c = (res, r', c')"
  shows "res = Inr ()" and "er_allocation r' = None" and "r' = r\<lparr>er_allocation := None\<rparr>"
  using assms release_final
  by (fastforce simp: free_cache_pages_def ops_release split: option.splits prod.splits sum.splits)+

lemma free_twice:
  "free_cache_pages ops r c = (res, r', c') \<Longrightarrow> free_cache_pages ops r' c' = (Inr (), r', c')"
  using free_ok(2) [of r c res r' c'] by (simp add: free_cache_pages_def)

lemma publish_indices:
  assumes "publish_allocated_pages ops n r c = (res, r', c')"
  shows "cache_page_indices ops r' k = cache_page_indices ops r k"
    and "er_input_token_ids r' = er_input_token_ids r"
  using assms publish_pages
  by (auto simp: publish_allocated_pages_def cache_page_indices_def ops_pages split: option.splits prod.splits)

end

interpretation base_req: request_cache base_acquire_pages_for_tokens base_extend_allocation
  base_release_pages ba_pages ba_is_released base_ops
  by unfold_locales (auto simp: base_ops_def base_publish_pages_for_tokens_def)

lemma trie_publish_frame:
  assumes "trie_publish_pages_for_tokens a tk inc c = (r, a', c')"
  shows "ta_pages a' = ta_pages a" and "ta_is_released a' = ta_is_released a"
  using assms by (cases rule: trie_publish_cases; auto)+

interpretation trie_req: request_cache "\<lambda>c tk extra. trie_acquire_pages_for_tokens tk extra c"
  "\<lambda>c a tk extra. trie_extend_allocation a tk extra c" "\<lambda>c a. trie_release_pages a c"
  ta_pages ta_is_released trie_ops
  by unfold_locales (simp_all add: trie_ops_def trie_publish_frame)

end
