(* ===== verification/Llm_Batcher.thy ===== *)
theory Llm_Batcher
  imports Llm_Messages
begin

section \<open>The batcher\<close>

text \<open>
  Model of \<open>BatcherProcess\<close> in \<open>llm/components/service.py\<close>. Requests are objects the batcher shares
  with the processes that submitted them: they live in a store, the pending sets hold their
  numbers. A Python set iterates in an order the program does not choose: it is the parameter
  \<open>sched\<close> of the operations. \<open>board_prefills\<close> and \<open>board_decodes\<close> append to \<open>bt_flights\<close> the
  executor processes they launch.
\<close>

subsection \<open>State\<close>

record ('c, 'a, 't, 'l) batcher =
  bt_page_cache :: 'c
  bt_requests :: "nat \<Rightarrow> ('a, 't, 'l) exec_request"
  bt_pending_prefills :: "nat list"
  bt_pending_decodes :: "nat list"
  bt_strobe_enabled :: bool
  bt_strobes :: nat
  bt_ideal_batch_size :: int
  bt_page_seq_stride :: int
  bt_flights :: "(inference_phase \<times> nat list) list"

datatype batcher_item = ExecItem nat | StrobeItem | OtherItem

text \<open>\<open>max(prefill_batch_sizes)\<close> raises on an empty list.\<close>

definition batcher_init ::
  "'c \<Rightarrow> (nat \<Rightarrow> ('a, 't, 'l) exec_request) \<Rightarrow> int list \<Rightarrow> int \<Rightarrow> ('c, 'a, 't, 'l) batcher res" where
  "batcher_init cache reqs prefill_batch_sizes block_seq_stride =
     (if prefill_batch_sizes = [] then Inl ValueError
      else Inr \<lparr>bt_page_cache = cache, bt_requests = reqs, bt_pending_prefills = [],
        bt_pending_decodes = [], bt_strobe_enabled = True, bt_strobes = 0,
        bt_ideal_batch_size = Max (set prefill_batch_sizes), bt_page_seq_stride = block_seq_stride,
        bt_flights = []\<rparr>)"

subsection \<open>Boarding\<close>

type_synonym ('c, 'a, 't, 'l) boarding = "nat list \<times> (nat \<Rightarrow> ('a, 't, 'l) exec_request) \<times> 'c"

fun prefill_loop ::
  "('c, 'a, 't) cache_ops \<Rightarrow> int \<Rightarrow> int \<Rightarrow> nat list \<Rightarrow> ('c, 'a, 't, 'l) boarding \<Rightarrow>
   unit res \<times> ('c, 'a, 't, 'l) boarding" where
  "prefill_loop ops ideal stride [] st = (Inr (), st)"
| "prefill_loop ops ideal stride (i # rest) (exec, reqs, c) =
     (let r = reqs i in
      if er_phase r \<noteq> PREFILL then (Inl AssertionError, exec, reqs, c)
      else if int (length exec) \<ge> ideal then (Inr (), exec, reqs, c)
      else if stride = 0 then (Inl ZeroDivisionError, exec, reqs, c)
      else (case co_acquire ops c (er_input_token_ids r) 0 of
          (Inl CacheAllocationFailure, c1) \<Rightarrow> prefill_loop ops ideal stride rest (exec, reqs, c1)
        | (Inl e, c1) \<Rightarrow> (Inl e, exec, reqs, c1)
        | (Inr a, c1) \<Rightarrow>
            (case free_cache_pages ops r c1 of
               (Inl e, r1, c2) \<Rightarrow> (Inl e, exec, reqs(i := r1), c2)
             | (Inr _, r1, c2) \<Rightarrow>
                 prefill_loop ops ideal stride rest
                   (exec @ [i], reqs(i := r1\<lparr>er_allocation := Some a\<rparr>), c2))))"

fun decode_loop ::
  "('c, 'a, 't) cache_ops \<Rightarrow> int \<Rightarrow> nat list \<Rightarrow> ('c, 'a, 't, 'l) boarding \<Rightarrow>
   unit res \<times> ('c, 'a, 't, 'l) boarding" where
  "decode_loop ops ideal [] st = (Inr (), st)"
| "decode_loop ops ideal (i # rest) (exec, reqs, c) =
     (let r = reqs i in
      if er_phase r \<noteq> DECODE then (Inl AssertionError, exec, reqs, c)
      else if int (length exec) \<ge> ideal then (Inr (), exec, reqs, c)
      else (case er_allocation r of
          None \<Rightarrow> (Inl AttributeError, exec, reqs, c)
        | Some a \<Rightarrow>
            (case co_extend ops c a (er_input_token_ids r) 1 of
               (Inl e, a1, c1) \<Rightarrow> (Inl e, exec, reqs(i := r\<lparr>er_allocation := Some a1\<rparr>), c1)
             | (Inr _, a1, c1) \<Rightarrow>
                 decode_loop ops ideal rest
                   (exec @ [i], reqs(i := r\<lparr>er_allocation := Some a1\<rparr>), c1))))"

definition board_prefills ::
  "('c, 'a, 't) cache_ops \<Rightarrow> (nat list \<Rightarrow> nat list) \<Rightarrow> ('c, 'a, 't, 'l) batcher \<Rightarrow>
   unit res \<times> ('c, 'a, 't, 'l) batcher" where
  "board_prefills ops sched s =
     (if bt_pending_prefills s = [] then (Inr (), s)
      else
       (let (res, exec, reqs, c) =
              prefill_loop ops (bt_ideal_batch_size s) (bt_page_seq_stride s)
                (sched (bt_pending_prefills s)) ([], bt_requests s, bt_page_cache s);
            s1 = s\<lparr>bt_requests := reqs, bt_page_cache := c\<rparr>
        in case res of
             Inl e \<Rightarrow> (Inl e, s1)
           | Inr _ \<Rightarrow>
               (Inr (), if exec = [] then s1
                else s1\<lparr>bt_pending_prefills := set_remove_all exec (bt_pending_prefills s1),
                        bt_flights := bt_flights s1 @ [(PREFILL, exec)]\<rparr>)))"

definition board_decodes ::
  "('c, 'a, 't) cache_ops \<Rightarrow> (nat list \<Rightarrow> nat list) \<Rightarrow> ('c, 'a, 't, 'l) batcher \<Rightarrow>
   unit res \<times> ('c, 'a, 't, 'l) batcher" where
  "board_decodes ops sched s =
     (if bt_pending_decodes s = [] then (Inr (), s)
      else
       (let (res, exec, reqs, c) =
              decode_loop ops (bt_ideal_batch_size s) (sched (bt_pending_decodes s))
                ([], bt_requests s, bt_page_cache s);
            s1 = s\<lparr>bt_requests := reqs, bt_page_cache := c\<rparr>
        in case res of
             Inl e \<Rightarrow> (Inl e, s1)
           | Inr _ \<Rightarrow>
               (Inr (), if exec = [] then s1
                else s1\<lparr>bt_pending_decodes := set_remove_all exec (bt_pending_decodes s1),
                        bt_flights := bt_flights s1 @ [(DECODE, exec)]\<rparr>)))"

definition finish_all ::
  "nat list \<Rightarrow> (nat \<Rightarrow> ('a, 't, 'l) exec_request) \<Rightarrow> nat \<Rightarrow> ('a, 't, 'l) exec_request" where
  "finish_all is reqs = (\<lambda>i. if i \<in> set is then (reqs i)\<lparr>er_done := True\<rparr> else reqs i)"

definition board_flights ::
  "('c, 'a, 't) cache_ops \<Rightarrow> (nat list \<Rightarrow> nat list) \<Rightarrow> ('c, 'a, 't, 'l) batcher \<Rightarrow>
   unit res \<times> ('c, 'a, 't, 'l) batcher" where
  "board_flights ops sched s =
     (let waiting_count = int (length (bt_pending_prefills s) + length (bt_pending_decodes s)) in
      if waiting_count = 0 then (Inr (), s)
      else if waiting_count < bt_ideal_batch_size s \<and> bt_strobes s < 2 then (Inr (), s)
      else
       (case board_prefills ops sched (s\<lparr>bt_strobes := 0\<rparr>) of
          (Inl e, s1) \<Rightarrow> (Inl e, s1)
        | (Inr _, s1) \<Rightarrow>
            (case board_decodes ops sched s1 of
               (Inl e, s2) \<Rightarrow> (Inl e, s2)
             | (Inr _, s2) \<Rightarrow>
                 (Inr (), s2\<lparr>bt_requests := finish_all (bt_pending_prefills s2) (bt_requests s2),
                   bt_pending_prefills := []\<rparr>))))"

subsection \<open>The message loop\<close>

definition batcher_receive :: "batcher_item \<Rightarrow> ('c, 'a, 't, 'l) batcher \<Rightarrow> ('c, 'a, 't, 'l) batcher" where
  "batcher_receive item s =
     (case item of
        ExecItem i \<Rightarrow>
          (case er_phase (bt_requests s i) of
             PREFILL \<Rightarrow> s\<lparr>bt_pending_prefills := set_add i (bt_pending_prefills s)\<rparr>
           | DECODE \<Rightarrow> s\<lparr>bt_pending_decodes := set_add i (bt_pending_decodes s)\<rparr>)
      | StrobeItem \<Rightarrow> s\<lparr>bt_strobes := bt_strobes s + 1\<rparr>
      | OtherItem \<Rightarrow> s)"

text \<open>One iteration of \<open>run\<close>; an exception leaves the loop with strobes disabled.\<close>

definition batcher_step ::
  "('c, 'a, 't) cache_ops \<Rightarrow> (nat list \<Rightarrow> nat list) \<Rightarrow> batcher_item \<Rightarrow> ('c, 'a, 't, 'l) batcher \<Rightarrow>
   unit res \<times> ('c, 'a, 't, 'l) batcher" where
  "batcher_step ops sched item s =
     (case board_flights ops sched (batcher_receive item (s\<lparr>bt_strobe_enabled := False\<rparr>)) of
        (Inl e, s1) \<Rightarrow> (Inl e, s1)
      | (Inr _, s1) \<Rightarrow> (Inr (), s1\<lparr>bt_strobe_enabled := True\<rparr>))"

fun batcher_run ::
  "('c, 'a, 't) cache_ops \<Rightarrow> (nat list \<Rightarrow> nat list) \<Rightarrow> batcher_item list \<Rightarrow> ('c, 'a, 't, 'l) batcher \<Rightarrow>
   unit res \<times> ('c, 'a, 't, 'l) batcher" where
  "batcher_run ops sched [] s = (Inr (), s)"
| "batcher_run ops sched (item # items) s =
     (case batcher_step ops sched item s of
        (Inl e, s1) \<Rightarrow> (Inl e, s1)
      | (Inr _, s1) \<Rightarrow> batcher_run ops sched items s1)"

text \<open>What \<open>_background_strober\<close> sends at a wake-up, and how long it slept before (milliseconds).\<close>

definition strober_delay :: "('c, 'a, 't, 'l) batcher \<Rightarrow> int" where
  "strober_delay s = (if bt_pending_prefills s \<noteq> [] then 100 else 250)"

definition strober_submits :: "('c, 'a, 't, 'l) batcher \<Rightarrow> batcher_item list" where
  "strober_submits s = (if bt_strobe_enabled s then [StrobeItem] else [])"

end
