(* ===== verification/Llm_Executor.thy ===== *)
theory Llm_Executor
  imports Llm_Batcher
begin

section \<open>The executor of a batch\<close>

text \<open>
  Model of \<open>InferenceExecutorProcess\<close> in \<open>llm/components/service.py\<close>. \<open>prepare_args\<close> is the part of
  \<open>run\<close> before the device call: the entry point, the padded token rows, sequence lengths, start
  positions and the page table of the batch. The compiled function and the views of its result
  are not under \<open>src/\<close>: they are the parameters \<open>fn\<close> and \<open>view\<close>. \<open>finish_batch\<close> is the part after
  the call, \<open>fail_batch\<close> the \<open>except\<close> branch, \<open>executor_run\<close> the whole method. Device arrays are the
  lists of their rows, the page tables of the cache are passed through and not modelled.
\<close>

subsection \<open>Mapped host arrays\<close>

text \<open>\<open>m.fill(v)\<close> and then \<open>m.items = xs\<close> on a mapping of \<open>n\<close> elements: \<open>xs\<close> overwrites the front
  (\<open>PyMapping::SetItems\<close> in \<open>shortfin/python/array_binding.cc\<close>), too many elements raise.\<close>

definition fill_items :: "nat \<Rightarrow> 'v \<Rightarrow> 'v list \<Rightarrow> 'v list res" where
  "fill_items n v xs =
     (if length xs > n then Inl ValueError else Inr (xs @ replicate (n - length xs) v))"

fun res_list :: "'v res list \<Rightarrow> 'v list res" where
  "res_list [] = Inr []"
| "res_list (r # rs) =
     (case r of Inl e \<Rightarrow> Inl e
      | Inr x \<Rightarrow> (case res_list rs of Inl e \<Rightarrow> Inl e | Inr xs \<Rightarrow> Inr (x # xs)))"

subsection \<open>Arguments\<close>

record exec_args =
  xa_bs :: nat
  xa_tokens :: "int list list"
  xa_seq_lens :: "int list"
  xa_start_positions :: "int list option"
  xa_seq_block_ids :: "nat list list"

text \<open>\<open>for bs, fn in entrypoints.items(): if bs >= req_bs: break\<close>, with its \<open>else\<close>.\<close>

fun select_entrypoint :: "nat list \<Rightarrow> nat \<Rightarrow> nat res" where
  "select_entrypoint [] req_bs = Inl RuntimeError"
| "select_entrypoint (bs # rest) req_bs =
     (if bs \<ge> req_bs then Inr bs else select_entrypoint rest req_bs)"

definition batch_seq_len :: "int \<Rightarrow> int \<Rightarrow> nat list \<Rightarrow> int res" where
  "batch_seq_len extra_token_slots seq_stride lens =
     (if lens = [] then Inl ValueError
      else if seq_stride = 0 then Inl ZeroDivisionError
      else Inr (ceil_div (Max (set (map (\<lambda>n. extra_token_slots + int n) lens))) seq_stride * seq_stride))"

definition token_row ::
  "('c, 'a, 't) cache_ops \<Rightarrow> 'c \<Rightarrow> inference_phase \<Rightarrow> ('a, 't, 'l) exec_request \<Rightarrow> int list" where
  "token_row ops c phase r =
     (case phase of
        PREFILL \<Rightarrow> co_tokens ops c (er_input_token_ids r)
      | DECODE \<Rightarrow> (let ids = co_tokens ops c (er_input_token_ids r) in drop (length ids - 1) ids))"

definition fill_rows :: "nat \<Rightarrow> nat \<Rightarrow> 'v \<Rightarrow> 'v list list \<Rightarrow> 'v list list res" where
  "fill_rows bs width v rows =
     res_list (map (\<lambda>i. fill_items width v (if i < length rows then rows ! i else [])) [0..<bs])"

definition prepare_args ::
  "('c, 'a, 't) cache_ops \<Rightarrow> nat list \<Rightarrow> inference_phase \<Rightarrow> int \<Rightarrow> ('a, 't, 'l) exec_request list \<Rightarrow>
   'c \<Rightarrow> exec_args res" where
  "prepare_args ops entrypoints phase seq_stride exec_requests c =
     (let is_decode = (phase = DECODE);
          lens = map (\<lambda>r. length (co_tokens ops c (er_input_token_ids r))) exec_requests
      in case select_entrypoint entrypoints (length exec_requests) of
           Inl e \<Rightarrow> Inl e
         | Inr bs \<Rightarrow>
            if phase = PREFILL \<and> (\<exists>r \<in> set exec_requests. er_start_position r \<noteq> 0)
            then Inl AssertionError
            else
             (case batch_seq_len (if is_decode then 1 else 0) seq_stride lens of
                Inl e \<Rightarrow> Inl e
              | Inr bsl \<Rightarrow>
                 (let block_count = bsl div seq_stride;
                      width = (if is_decode then 1 else nat bsl)
                  in case fill_rows bs width 0 (map (token_row ops c phase) exec_requests) of
                       Inl e \<Rightarrow> Inl e
                     | Inr tokens \<Rightarrow>
                      (case fill_items bs 1 (if is_decode
                           then map (\<lambda>(r, n). er_start_position r + int n) (zip exec_requests lens)
                           else map int lens) of
                         Inl e \<Rightarrow> Inl e
                       | Inr seq_lens \<Rightarrow>
                        (case fill_items bs 1 (map er_start_position exec_requests) of
                           Inl e \<Rightarrow> Inl e
                         | Inr start_positions \<Rightarrow>
                          (case fill_rows bs (nat block_count) 0
                              (map (\<lambda>r. cache_page_indices ops r block_count) exec_requests) of
                             Inl e \<Rightarrow> Inl e
                           | Inr seq_block_ids \<Rightarrow>
                               Inr \<lparr>xa_bs = bs, xa_tokens = tokens, xa_seq_lens = seq_lens,
                                 xa_start_positions = (if is_decode then Some start_positions else None),
                                 xa_seq_block_ids = seq_block_ids\<rparr>))))))"

subsection \<open>Results\<close>

text \<open>\<open>logits.view(i, slice(0, sl))\<close> or \<open>logits.view(i, sl - 1)\<close>.\<close>

datatype logits_view = ViewRange nat nat int | ViewLast nat int

fun publish_all ::
  "('c, 'a, 't) cache_ops \<Rightarrow> int \<Rightarrow> nat list \<Rightarrow> (nat \<Rightarrow> ('a, 't, 'l) exec_request) \<times> 'c \<Rightarrow>
   unit res \<times> (nat \<Rightarrow> ('a, 't, 'l) exec_request) \<times> 'c" where
  "publish_all ops seq_stride [] st = (Inr (), st)"
| "publish_all ops seq_stride (i # is) (reqs, c) =
     (let r = reqs i;
          total_tokens = er_start_position r + int (length (co_tokens ops c (er_input_token_ids r)));
          number_of_complete_pages = total_tokens div seq_stride
      in case publish_allocated_pages ops number_of_complete_pages r c of
           (Inl e, r1, c1) \<Rightarrow> (Inl e, reqs(i := r1), c1)
         | (Inr _, r1, c1) \<Rightarrow> publish_all ops seq_stride is (reqs(i := r1), c1))"

fun return_results ::
  "(logits_view \<Rightarrow> 'g \<Rightarrow> 'l res) \<Rightarrow> ('c, 'a, 't) cache_ops \<Rightarrow> bool \<Rightarrow> 'g \<Rightarrow> nat \<Rightarrow> nat list \<Rightarrow> 'c \<Rightarrow>
   (nat \<Rightarrow> ('a, 't, 'l) exec_request) \<Rightarrow> unit res \<times> (nat \<Rightarrow> ('a, 't, 'l) exec_request)" where
  "return_results view ops is_decode logits i [] c reqs = (Inr (), reqs)"
| "return_results view ops is_decode logits i (k # ks) c reqs =
     (let req = reqs k;
          sl = (if is_decode then 1 else int (length (co_tokens ops c (er_input_token_ids req))));
          which = (if er_return_all_logits req then ViewRange i 0 sl else ViewLast i (sl - 1))
      in case view which logits of
           Inl e \<Rightarrow> (Inl e, reqs)
         | Inr item \<Rightarrow>
             return_results view ops is_decode logits (Suc i) ks c
               (reqs(k := req\<lparr>er_result_logits := Some item, er_done := True\<rparr>)))"

text \<open>The \<open>except\<close> branch: every request of the batch loses its result and its allocation.\<close>

fun fail_batch ::
  "('c, 'a, 't) cache_ops \<Rightarrow> nat list \<Rightarrow> (nat \<Rightarrow> ('a, 't, 'l) exec_request) \<times> 'c \<Rightarrow>
   unit res \<times> (nat \<Rightarrow> ('a, 't, 'l) exec_request) \<times> 'c" where
  "fail_batch ops [] st = (Inr (), st)"
| "fail_batch ops (i # is) (reqs, c) =
     (case free_cache_pages ops ((reqs i)\<lparr>er_result_logits := None\<rparr>) c of
        (Inl e, r1, c1) \<Rightarrow> (Inl e, reqs(i := r1), c1)
      | (Inr _, r1, c1) \<Rightarrow> fail_batch ops is (reqs(i := r1\<lparr>er_done := True\<rparr>), c1))"

definition finish_batch ::
  "(logits_view \<Rightarrow> 'g \<Rightarrow> 'l res) \<Rightarrow> ('c, 'a, 't) cache_ops \<Rightarrow> inference_phase \<Rightarrow> int \<Rightarrow> 'g \<Rightarrow> nat list \<Rightarrow>
   (nat \<Rightarrow> ('a, 't, 'l) exec_request) \<times> 'c \<Rightarrow> unit res \<times> (nat \<Rightarrow> ('a, 't, 'l) exec_request) \<times> 'c" where
  "finish_batch view ops phase seq_stride logits is st =
     (case publish_all ops seq_stride is st of
        (Inl e, reqs, c) \<Rightarrow> (Inl e, reqs, c)
      | (Inr _, reqs, c) \<Rightarrow>
          (let (res, reqs1) = return_results view ops (phase = DECODE) logits 0 is c reqs
           in (res, reqs1, c)))"

definition executor_run ::
  "(nat \<Rightarrow> exec_args \<Rightarrow> 'g res) \<Rightarrow> (logits_view \<Rightarrow> 'g \<Rightarrow> 'l res) \<Rightarrow> ('c, 'a, 't) cache_ops \<Rightarrow>
   nat list \<Rightarrow> inference_phase \<Rightarrow> int \<Rightarrow> nat list \<Rightarrow> (nat \<Rightarrow> ('a, 't, 'l) exec_request) \<times> 'c \<Rightarrow>
   unit res \<times> (nat \<Rightarrow> ('a, 't, 'l) exec_request) \<times> 'c" where
  "executor_run fn view ops entrypoints phase seq_stride is st =
     (case prepare_args ops entrypoints phase seq_stride (map (fst st) is) (snd st) of
        Inl e \<Rightarrow> fail_batch ops is st
      | Inr args \<Rightarrow>
          (case fn (xa_bs args) args of
             Inl e \<Rightarrow> fail_batch ops is st
           | Inr logits \<Rightarrow>
               (case finish_batch view ops phase seq_stride logits is st of
                  (Inl e, st1) \<Rightarrow> fail_batch ops is st1
                | (Inr _, st1) \<Rightarrow> (Inr (), st1))))"

subsection \<open>Lemmas\<close>

lemma fill_items_Inr: "fill_items n v xs = Inr ys \<longleftrightarrow> length xs \<le> n \<and> ys = xs @ replicate (n - length xs) v"
  by (auto simp: fill_items_def)

lemma res_list_map_Inr [simp]: "res_list (map Inr xs) = Inr xs"
  by (induction xs) simp_all

lemma res_list_Inr: "res_list rs = Inr xs \<longleftrightarrow> rs = map Inr xs"
proof
  show "res_list rs = Inr xs \<Longrightarrow> rs = map Inr xs"
    by (induction rs arbitrary: xs) (auto split: sum.splits)
qed simp

lemma fill_rows_Inr:
  assumes "fill_rows bs width v rows = Inr out"
  shows "length out = bs"
    and "i < bs \<Longrightarrow> out ! i = (let xs = (if i < length rows then rows ! i else [])
      in xs @ replicate (width - length xs) v)"
    and "i < bs \<Longrightarrow> length (out ! i) = width"
proof -
  from assms have eq: "map (\<lambda>i. fill_items width v (if i < length rows then rows ! i else [])) [0..<bs]
      = map Inr out" by (simp add: fill_rows_def res_list_Inr)
  then show len: "length out = bs" by (metis length_map length_upt minus_nat.diff_0)
  show row: "out ! i = (let xs = (if i < length rows then rows ! i else [])
      in xs @ replicate (width - length xs) v)" if i: "i < bs" for i
  proof -
    have "fill_items width v (if i < length rows then rows ! i else []) = Inr (out ! i)"
      using arg_cong [OF eq, of "\<lambda>ys. ys ! i"] i len by (simp del: upt_Suc cong: if_cong)
    then show ?thesis by (simp add: fill_items_Inr Let_def)
  qed
  show "length (out ! i) = width" if i: "i < bs"
  proof -
    have "fill_items width v (if i < length rows then rows ! i else []) = Inr (out ! i)"
      using arg_cong [OF eq, of "\<lambda>ys. ys ! i"] i len by (simp del: upt_Suc cong: if_cong)
    then show ?thesis by (auto simp: fill_items_Inr)
  qed
qed

lemma select_entrypoint_Inr:
  "select_entrypoint bss n = Inr bs \<Longrightarrow> bs \<in> set bss \<and> n \<le> bs \<and> (sorted bss \<longrightarrow> (\<forall>b \<in> set bss. n \<le> b \<longrightarrow> bs \<le> b))"
  by (induction bss) (auto split: if_splits)

lemma select_entrypoint_Inl: "select_entrypoint bss n = Inl e \<longleftrightarrow> e = RuntimeError \<and> (\<forall>b \<in> set bss. b < n)"
  by (induction bss) auto

lemma select_entrypoint_ok: "is_ok (select_entrypoint bss n) \<longleftrightarrow> (\<exists>b \<in> set bss. n \<le> b)"
  by (induction bss) auto

end
