(* ===== verification/Llm_Flights.thy ===== *)
theory Llm_Flights
  imports Llm_Executor
begin

section \<open>What boarding and execution do to requests\<close>

text \<open>
  Run lemmas of the batcher's loops and of the executor's error path, proved once for every method
  table that satisfies \<open>request_cache\<close>, and used for both caches.
\<close>

context request_cache
begin

lemma prefill_loop_run:
  "prefill_loop ops ideal stride is (exec, reqs, c) = (Inr (), exec', reqs', c') \<Longrightarrow> distinct is \<Longrightarrow>
   \<exists>new. exec' = exec @ new \<and> set new \<subseteq> set is \<and> distinct new \<and>
     int (length exec') \<le> max ideal (int (length exec)) \<and>
     (\<forall>j. j \<notin> set new \<longrightarrow> reqs' j = reqs j) \<and>
     (\<forall>j \<in> set new. er_phase (reqs j) = PREFILL \<and>
        (\<exists>a. reqs' j = (reqs j)\<lparr>er_allocation := Some a\<rparr> \<and> \<not> released a))"
proof (induction "is" arbitrary: exec reqs c)
  case Nil
  then show ?case by (intro exI [of _ "[]"]) simp
next
  case (Cons i rest)
  let ?r = "reqs i"
  obtain q c1 where acq: "co_acquire ops c (er_input_token_ids ?r) 0 = (q, c1)" by fastforce
  from Cons.prems(1) acq consider (stop) "exec' = exec" "reqs' = reqs"
    | (skip) "prefill_loop ops ideal stride rest (exec, reqs, c1) = (Inr (), exec', reqs', c')"
    | (fly) a where "q = Inr a" "er_phase ?r = PREFILL" "int (length exec) < ideal"
        "(case free_cache_pages ops ?r c1 of
           (Inl e, r1, c2) \<Rightarrow> (Inl e, exec, reqs(i := r1), c2)
         | (Inr _, r1, c2) \<Rightarrow> prefill_loop ops ideal stride rest
             (exec @ [i], reqs(i := r1\<lparr>er_allocation := Some a\<rparr>), c2)) = (Inr (), exec', reqs', c')"
    by (auto simp: Let_def split: if_splits sum.splits py_error.splits)
  then show ?case
  proof cases
    case stop
    then show ?thesis by (intro exI [of _ "[]"]) simp
  next
    case skip
    from Cons.IH [OF this] Cons.prems(2) show ?thesis by fastforce
  next
    case (fly a)
    obtain res r1 c2 where free: "free_cache_pages ops ?r c1 = (res, r1, c2)" by (metis surj_pair)
    note fo = free_ok [OF free]
    have "prefill_loop ops ideal stride rest
      (exec @ [i], reqs(i := ?r\<lparr>er_allocation := Some a\<rparr>), c2) = (Inr (), exec', reqs', c')"
      using fly(4) free fo by simp
    from Cons.IH [OF this] Cons.prems(2) obtain new where new: "exec' = (exec @ [i]) @ new"
      "set new \<subseteq> set rest" "distinct new" "int (length exec') \<le> max ideal (int (length (exec @ [i])))"
      "\<forall>j. j \<notin> set new \<longrightarrow> reqs' j = (reqs(i := ?r\<lparr>er_allocation := Some a\<rparr>)) j"
      "\<forall>j \<in> set new. er_phase ((reqs(i := ?r\<lparr>er_allocation := Some a\<rparr>)) j) = PREFILL \<and>
        (\<exists>b. reqs' j = ((reqs(i := ?r\<lparr>er_allocation := Some a\<rparr>)) j)\<lparr>er_allocation := Some b\<rparr> \<and> \<not> released b)"
      by auto
    have ni: "i \<notin> set new" using new(2) Cons.prems(2) by auto
    have live: "\<not> released a" using acquire_live acq fly(1) by (simp add: ops_acquire)
    show ?thesis
    proof (intro exI [of _ "i # new"] conjI)
      show "int (length exec') \<le> max ideal (int (length exec))" using new(4) fly(3) by simp
      show "\<forall>j. j \<notin> set (i # new) \<longrightarrow> reqs' j = reqs j" using new(5) by simp
      show "\<forall>j \<in> set (i # new). er_phase (reqs j) = PREFILL \<and>
        (\<exists>a. reqs' j = (reqs j)\<lparr>er_allocation := Some a\<rparr> \<and> \<not> released a)"
      proof
        fix j assume j: "j \<in> set (i # new)"
        show "er_phase (reqs j) = PREFILL \<and> (\<exists>a. reqs' j = (reqs j)\<lparr>er_allocation := Some a\<rparr> \<and> \<not> released a)"
        proof (cases "j = i")
          case True
          have "reqs' i = ?r\<lparr>er_allocation := Some a\<rparr>" using new(5) ni by simp
          with True fly(2) live show ?thesis by blast
        next
          case False
          then have "j \<in> set new" and "(reqs(i := ?r\<lparr>er_allocation := Some a\<rparr>)) j = reqs j" using j by auto
          with new(6) show ?thesis by metis
        qed
      qed
    qed (use new ni in auto)
  qed
qed

lemma decode_loop_run:
  "decode_loop ops ideal is (exec, reqs, c) = (Inr (), exec', reqs', c') \<Longrightarrow> distinct is \<Longrightarrow>
   \<exists>new. exec' = exec @ new \<and> set new \<subseteq> set is \<and> distinct new \<and>
     int (length exec') \<le> max ideal (int (length exec)) \<and>
     (int (length exec') < ideal \<longrightarrow> set new = set is) \<and>
     (\<forall>j. j \<notin> set new \<longrightarrow> reqs' j = reqs j) \<and>
     (\<forall>j \<in> set new. er_phase (reqs j) = DECODE \<and>
        (\<exists>a ext. er_allocation (reqs j) = Some a \<and> (\<exists>b. reqs' j = (reqs j)\<lparr>er_allocation := Some b\<rparr> \<and>
          pages b = pages a @ ext \<and> released b = released a)))"
proof (induction "is" arbitrary: exec reqs c)
  case Nil
  then show ?case by (intro exI [of _ "[]"]) simp
next
  case (Cons i rest)
  let ?r = "reqs i"
  from Cons.prems(1) consider (stop) "exec' = exec" "reqs' = reqs" "ideal \<le> int (length exec)"
    | (fly) a a1 c1 where "er_phase ?r = DECODE" "int (length exec) < ideal" "er_allocation ?r = Some a"
        "co_extend ops c a (er_input_token_ids ?r) 1 = (Inr (), a1, c1)"
        "decode_loop ops ideal rest (exec @ [i], reqs(i := ?r\<lparr>er_allocation := Some a1\<rparr>), c1)
           = (Inr (), exec', reqs', c')"
    by (auto simp: Let_def split: if_splits sum.splits option.splits prod.splits)
  then show ?case
  proof cases
    case stop
    then show ?thesis by (intro exI [of _ "[]"]) simp
  next
    case (fly a a1 c1)
    obtain ext where ext: "pages a1 = pages a @ ext" "released a1 = released a"
      using extend_appends extend_live fly(4) ops_extend by metis
    from Cons.IH [OF fly(5)] Cons.prems(2) obtain new where new: "exec' = (exec @ [i]) @ new"
      "set new \<subseteq> set rest" "distinct new" "int (length exec') \<le> max ideal (int (length (exec @ [i])))"
      "int (length exec') < ideal \<longrightarrow> set new = set rest"
      "\<forall>j. j \<notin> set new \<longrightarrow> reqs' j = (reqs(i := ?r\<lparr>er_allocation := Some a1\<rparr>)) j"
      "\<forall>j \<in> set new. er_phase ((reqs(i := ?r\<lparr>er_allocation := Some a1\<rparr>)) j) = DECODE \<and>
        (\<exists>a ext. er_allocation ((reqs(i := ?r\<lparr>er_allocation := Some a1\<rparr>)) j) = Some a \<and>
          (\<exists>b. reqs' j = ((reqs(i := ?r\<lparr>er_allocation := Some a1\<rparr>)) j)\<lparr>er_allocation := Some b\<rparr> \<and>
          pages b = pages a @ ext \<and> released b = released a))"
      by auto
    have ni: "i \<notin> set new" using new(2) Cons.prems(2) by auto
    have old: "(reqs(i := ?r\<lparr>er_allocation := Some a1\<rparr>)) j = reqs j" if "j \<in> set new" for j
      using that ni by auto
    show ?thesis
    proof (intro exI [of _ "i # new"] conjI)
      show "int (length exec') \<le> max ideal (int (length exec))" using new(4) fly(2) by simp
      show "\<forall>j. j \<notin> set (i # new) \<longrightarrow> reqs' j = reqs j" using new(6) by simp
      show "\<forall>j \<in> set (i # new). er_phase (reqs j) = DECODE \<and>
        (\<exists>a ext. er_allocation (reqs j) = Some a \<and> (\<exists>b. reqs' j = (reqs j)\<lparr>er_allocation := Some b\<rparr> \<and>
          pages b = pages a @ ext \<and> released b = released a))"
      proof
        fix j assume "j \<in> set (i # new)"
        then consider "j = i" | "j \<in> set new" by auto
        then show "er_phase (reqs j) = DECODE \<and> (\<exists>a ext. er_allocation (reqs j) = Some a \<and>
          (\<exists>b. reqs' j = (reqs j)\<lparr>er_allocation := Some b\<rparr> \<and> pages b = pages a @ ext \<and> released b = released a))"
        proof cases
          case 1
          have "reqs' i = ?r\<lparr>er_allocation := Some a1\<rparr>" using new(6) ni by simp
          with 1 fly(1,3) ext show ?thesis by blast
        next
          case 2
          show ?thesis using new(7) [rule_format, OF 2] unfolding old [OF 2] by blast
        qed
      qed
    qed (use new ni in auto)
  qed
qed

lemma fail_batch_run:
  "fail_batch ops is (reqs, c) = (res, reqs', c') \<Longrightarrow>
   res = Inr () \<and> (\<forall>j. j \<notin> set is \<longrightarrow> reqs' j = reqs j) \<and>
   (\<forall>j \<in> set is. er_allocation (reqs' j) = None \<and> er_result_logits (reqs' j) = None \<and> er_done (reqs' j))"
proof (induction "is" arbitrary: reqs c)
  case (Cons i rest)
  obtain q r1 c1 where free: "free_cache_pages ops ((reqs i)\<lparr>er_result_logits := None\<rparr>) c = (q, r1, c1)"
    by (metis surj_pair)
  note fo = free_ok [OF free]
  have "fail_batch ops rest (reqs(i := r1\<lparr>er_done := True\<rparr>), c1) = (res, reqs', c')"
    using Cons.prems free fo(1) by simp
  from Cons.IH [OF this] fo(3) show ?case by (cases "i \<in> set rest") auto
qed simp

lemma executor_error:
  assumes "executor_run fn view ops eps phase stride is (reqs, c) = (res, reqs', c')"
    and "\<not> is_ok (prepare_args ops eps phase stride (map reqs is) c) \<or>
      (\<exists>args. prepare_args ops eps phase stride (map reqs is) c = Inr args \<and> \<not> is_ok (fn (xa_bs args) args))"
    and "j \<in> set is"
  shows "res = Inr () \<and> er_allocation (reqs' j) = None \<and> er_result_logits (reqs' j) = None \<and> er_done (reqs' j)"
proof -
  have "fail_batch ops is (reqs, c) = (res, reqs', c')"
    using assms(1,2) by (auto simp: executor_run_def is_ok_def split: sum.splits)
  from fail_batch_run [OF this] assms(3) show ?thesis by blast
qed

end

subsection \<open>Arguments of a batch\<close>

lemma batch_seq_len_Inr:
  assumes "batch_seq_len extra stride lens = Inr bsl" and "0 < stride"
  shows "bsl div stride = ceil_div (Max (set (map (\<lambda>n. extra + int n) lens))) stride"
    and "n \<in> set lens \<Longrightarrow> extra + int n \<le> (bsl div stride) * stride"
proof -
  let ?m = "Max (set (map (\<lambda>n. extra + int n) lens))"
  from assms have "lens \<noteq> []" and b: "bsl = ceil_div ?m stride * stride"
    by (auto simp: batch_seq_len_def split: if_splits)
  show d: "bsl div stride = ceil_div ?m stride" using b assms(2) by simp
  show "extra + int n \<le> (bsl div stride) * stride" if "n \<in> set lens"
  proof -
    have "extra + int n \<le> ?m" using that by (intro Max_ge) auto
    also have "\<dots> \<le> ceil_div ?m stride * stride" using ceil_div_upper [OF assms(2)] .
    finally show ?thesis by (simp add: d)
  qed
qed

lemma prepare_args_Inr:
  assumes "prepare_args ops eps phase stride reqs c = Inr args"
  defines "lens \<equiv> map (\<lambda>r. length (co_tokens ops c (er_input_token_ids r))) reqs"
  obtains bsl where "select_entrypoint eps (length reqs) = Inr (xa_bs args)"
    and "batch_seq_len (if phase = DECODE then 1 else 0) stride lens = Inr bsl"
    and "fill_rows (xa_bs args) (if phase = DECODE then 1 else nat bsl) 0 (map (token_row ops c phase) reqs)
      = Inr (xa_tokens args)"
    and "fill_items (xa_bs args) 1 (if phase = DECODE
      then map (\<lambda>(r, n). er_start_position r + int n) (zip reqs lens) else map int lens) = Inr (xa_seq_lens args)"
    and "fill_rows (xa_bs args) (nat (bsl div stride)) 0
      (map (\<lambda>r. cache_page_indices ops r (bsl div stride)) reqs) = Inr (xa_seq_block_ids args)"
proof -
  from assms(1) show ?thesis
    unfolding prepare_args_def Let_def lens_def [symmetric]
    by (auto split: sum.splits if_splits intro: that)
qed

end
