(* ===== verification/Fastapi_Responder.thy ===== *)
theory Fastapi_Responder
  imports Py_Prelude
begin

section \<open>The responder between the web server and the model\<close>

text \<open>
  Model of \<open>FastAPIResponder\<close> in \<open>shortfin/interop/fastapi\<close>. The calls it schedules on the
  web server's loop run there in order; the model keeps them as the list of effects they have:
  setting the response future, and putting a part (or the end mark) on the stream's queue.
  \<open>response_ok\<close> is what the web server needs: the future is set at most once and no part follows
  the end of the stream.
\<close>

datatype ('r, 'b) responder_effect = SetResponse 'r | SetStreaming | PutPart 'b | PutEnd

record ('r, 'b) responder =
  rs_responded :: bool
  rs_streaming :: bool
  rs_loop_closed :: bool
  rs_effects :: "('r, 'b) responder_effect list"

definition responder_init :: "('r, 'b) responder" where
  "responder_init = \<lparr>rs_responded = False, rs_streaming = False, rs_loop_closed = False, rs_effects = []\<rparr>"

definition schedule :: "('r, 'b) responder_effect \<Rightarrow> ('r, 'b) responder \<Rightarrow> ('r, 'b) responder" where
  "schedule e s = s\<lparr>rs_effects := rs_effects s @ [e]\<rparr>"

text \<open>\<open>IOError\<close> is another name of \<open>OSError\<close>.\<close>

definition send_response :: "'r \<Rightarrow> ('r, 'b) responder \<Rightarrow> unit res \<times> ('r, 'b) responder" where
  "send_response response s =
     (if rs_responded s then (Inl AssertionError, s)
      else if rs_loop_closed s then (Inl OSError, s)
      else (Inr (), schedule (SetResponse response) (s\<lparr>rs_responded := True\<rparr>)))"

definition start_response :: "('r, 'b) responder \<Rightarrow> unit res \<times> ('r, 'b) responder" where
  "start_response s =
     (if rs_responded s then (Inl AssertionError, s)
      else if rs_loop_closed s then (Inl OSError, s)
      else (Inr (), schedule SetStreaming (s\<lparr>rs_responded := True, rs_streaming := True\<rparr>)))"

definition stream_part :: "'b option \<Rightarrow> ('r, 'b) responder \<Rightarrow> unit res \<times> ('r, 'b) responder" where
  "stream_part content s =
     (if \<not> rs_streaming s then (Inl AssertionError, s)
      else if rs_loop_closed s then (Inl OSError, s)
      else (case content of
          Some b \<Rightarrow> (Inr (), schedule (PutPart b) s)
        | None \<Rightarrow> (Inr (), (schedule PutEnd s)\<lparr>rs_streaming := False\<rparr>)))"

definition ensure_response :: "'r \<Rightarrow> ('r, 'b) responder \<Rightarrow> unit res \<times> ('r, 'b) responder" where
  "ensure_response error_response s =
     (if rs_responded s then
        (if rs_streaming s then stream_part None s else (Inr (), s))
      else send_response error_response s)"

subsection \<open>The protocol\<close>

fun is_set :: "('r, 'b) responder_effect \<Rightarrow> bool" where
  "is_set (SetResponse r) = True"
| "is_set SetStreaming = True"
| "is_set _ = False"

text \<open>The effects of a finished or unfinished transaction: nothing; one response; or a stream of
  parts, ended or still open.\<close>

definition stream_effects :: "'b list \<Rightarrow> bool \<Rightarrow> ('r, 'b) responder_effect list" where
  "stream_effects parts ended = SetStreaming # map PutPart parts @ (if ended then [PutEnd] else [])"

definition responder_inv :: "('r, 'b) responder \<Rightarrow> bool" where
  "responder_inv s \<longleftrightarrow>
     (\<not> rs_responded s \<and> \<not> rs_streaming s \<and> rs_effects s = []) \<or>
     (rs_responded s \<and> \<not> rs_streaming s \<and>
        ((\<exists>r. rs_effects s = [SetResponse r]) \<or> (\<exists>ps. rs_effects s = stream_effects ps True))) \<or>
     (rs_responded s \<and> rs_streaming s \<and> (\<exists>ps. rs_effects s = stream_effects ps False))"

datatype ('r, 'b) responder_event = CallSend 'r | CallStart | CallPart "'b option" | CallEnsure 'r | LoopCloses

fun responder_call :: "('r, 'b) responder_event \<Rightarrow> ('r, 'b) responder \<Rightarrow> unit res \<times> ('r, 'b) responder" where
  "responder_call (CallSend r) s = send_response r s"
| "responder_call CallStart s = start_response s"
| "responder_call (CallPart b) s = stream_part b s"
| "responder_call (CallEnsure r) s = ensure_response r s"
| "responder_call LoopCloses s = (Inr (), s\<lparr>rs_loop_closed := True\<rparr>)"

definition responder_calls :: "('r, 'b) responder_event list \<Rightarrow> ('r, 'b) responder \<Rightarrow> ('r, 'b) responder" where
  "responder_calls ks s = foldl (\<lambda>s k. snd (responder_call k s)) s ks"

lemma stream_effects_snoc:
  "stream_effects ps False @ [PutPart b] = stream_effects (ps @ [b]) False"
  "stream_effects ps False @ [PutEnd] = stream_effects ps True"
  by (simp_all add: stream_effects_def)

lemma schedule_frame [simp]:
  "rs_responded (schedule e s) = rs_responded s" "rs_streaming (schedule e s) = rs_streaming s"
  "rs_loop_closed (schedule e s) = rs_loop_closed s" "rs_effects (schedule e s) = rs_effects s @ [e]"
  by (simp_all add: schedule_def)

lemma responder_inv_part: "responder_inv s \<Longrightarrow> responder_inv (snd (stream_part b s))"
  by (cases b) (auto simp: responder_inv_def stream_part_def stream_effects_snoc)

lemma responder_inv_send: "responder_inv s \<Longrightarrow> responder_inv (snd (send_response r s))"
  by (auto simp: responder_inv_def send_response_def)

lemma responder_inv_start: "responder_inv s \<Longrightarrow> responder_inv (snd (start_response s))"
  by (auto simp: responder_inv_def start_response_def stream_effects_def)

lemma responder_inv_call: "responder_inv s \<Longrightarrow> responder_inv (snd (responder_call k s))"
proof (cases k)
  case LoopCloses
  assume "responder_inv s"
  then show ?thesis by (simp add: LoopCloses responder_inv_def)
qed (simp_all add: ensure_response_def responder_inv_part responder_inv_send responder_inv_start)

lemma responder_inv_calls: "responder_inv s \<Longrightarrow> responder_inv (responder_calls ks s)"
  by (induction ks arbitrary: s) (simp_all add: responder_calls_def responder_inv_call)

lemma responder_inv_init: "responder_inv responder_init"
  by (simp add: responder_inv_def responder_init_def)

lemma ensure_response_responds:
  assumes "responder_inv s" and "\<not> rs_loop_closed s"
  shows "fst (ensure_response r s) = Inr ()" and "rs_responded (snd (ensure_response r s))"
    and "\<not> rs_streaming (snd (ensure_response r s))"
  using assms by (auto simp: ensure_response_def send_response_def stream_part_def responder_inv_def)

text \<open>
  C28: whatever calls a transaction makes on its responder, in any order, the web server sees at
  most one response, parts only after the stream's start and never after its end; and once
  \<open>ensure_response\<close> has run (with the web server's loop open) exactly one response was set and its
  stream, if any, is ended.
\<close>

theorem responder_protocol:
  assumes "s = responder_calls ks responder_init" and "\<not> rs_loop_closed s"
  shows "(rs_effects s = [] \<or> (\<exists>r. rs_effects s = [SetResponse r]) \<or>
      (\<exists>ps ended. rs_effects s = stream_effects ps ended)) \<and>
    ((\<exists>r. rs_effects (snd (ensure_response err s)) = [SetResponse r]) \<or>
     (\<exists>ps. rs_effects (snd (ensure_response err s)) = stream_effects ps True)) \<and>
    length (filter is_set (rs_effects (snd (ensure_response err s)))) = 1"
proof -
  have inv: "responder_inv s" using assms(1) responder_inv_calls [OF responder_inv_init] by simp
  have inv2: "responder_inv (snd (ensure_response err s))"
    using responder_inv_call [OF inv, of "CallEnsure err"] by simp
  note er = ensure_response_responds [OF inv assms(2), of err]
  have out: "(\<exists>r. rs_effects (snd (ensure_response err s)) = [SetResponse r]) \<or>
     (\<exists>ps. rs_effects (snd (ensure_response err s)) = stream_effects ps True)"
    using inv2 er by (auto simp: responder_inv_def)
  moreover have "length (filter is_set (stream_effects ps True)) = 1" for ps :: "'b list"
    by (simp add: stream_effects_def filter_map comp_def)
  ultimately have "length (filter is_set (rs_effects (snd (ensure_response err s)))) = 1" by auto
  with inv out show ?thesis by (auto simp: responder_inv_def)
qed

theorem responder_protocol_witness:
  "(\<exists>ps. rs_effects (snd (ensure_response ''500''
      (responder_calls [CallStart, CallPart (Some ''data''), CallSend ''late''] responder_init)))
     = stream_effects ps True)"
proof -
  let ?s = "responder_calls [CallStart, CallPart (Some ''data''), CallSend ''late''] responder_init"
  have "\<not> rs_loop_closed ?s" by code_simp
  from responder_protocol [OF refl this, of "''500''"]
  show ?thesis
    by (auto simp: responder_calls_def responder_init_def start_response_def stream_part_def
        send_response_def ensure_response_def schedule_def stream_effects_def)
qed

end
