(* ===== verification/Llm_Generate.thy ===== *)
theory Llm_Generate
  imports Llm_Messages Fastapi_Responder
begin

section \<open>Generating a sequence and answering a client\<close>

text \<open>
  Model of \<open>llm/components/generate.py\<close>. The awaited executions are the environment of a
  \<open>GenerateItemProcess\<close>: \<open>outs k\<close> is \<open>None\<close> if the future of its submission number \<open>k\<close> never fires,
  and else the \<open>result_logits\<close> the request then has. A process whose future never fires is suspended
  at the \<open>await\<close> for good: its outcome is \<open>None\<close>. \<open>argmax\<close> is \<open>sfnp.argmax\<close> with \<open>items\<close>, and
  \<open>deliver\<close> is what \<open>client.stream_results\<close> does with the tokens so far. The request keeps a
  reference to the process's token list, so there is one list. \<open>gi_submitted\<close> records each
  submission (phase, start position, tokens), which is what the executor turns into device
  arguments. The allocation of the request and the cache are written by the batcher and the
  executor meanwhile (\<open>Llm_Batcher\<close>, \<open>Llm_Executor\<close>): \<open>fin\<close> is the request and the cache as they
  left them at the end of the body, which the \<open>finally\<close> clause works on.
\<close>

subsection \<open>One sequence\<close>

record gen_item =
  gi_input_token_ids :: "int list"
  gi_phase :: inference_phase
  gi_start_position :: int
  gi_result_token_ids :: "int list"
  gi_submitted :: "(inference_phase \<times> int \<times> int list) list"

definition gen_item_init :: "int list \<Rightarrow> gen_item" where
  "gen_item_init input_token_ids =
     \<lparr>gi_input_token_ids = input_token_ids, gi_phase = PREFILL, gi_start_position = 0,
      gi_result_token_ids = [], gi_submitted = []\<rparr>"

definition submit_item :: "gen_item \<Rightarrow> gen_item" where
  "submit_item s =
     s\<lparr>gi_submitted := gi_submitted s @ [(gi_phase s, gi_start_position s, gi_input_token_ids s)]\<rparr>"

text \<open>\<open>sfnp.argmax(exec.result_logits).items[0]\<close>; the batcher may have finished without logits.\<close>

definition sample_token :: "('l \<Rightarrow> int list) \<Rightarrow> 'l option \<Rightarrow> int res" where
  "sample_token argmax logits =
     (case logits of None \<Rightarrow> Inl TypeError
      | Some l \<Rightarrow> (case argmax l of [] \<Rightarrow> Inl IndexError | token # _ \<Rightarrow> Inr token))"

definition append_token :: "(int list \<Rightarrow> unit res) \<Rightarrow> int \<Rightarrow> gen_item \<Rightarrow> unit res \<times> gen_item" where
  "append_token deliver token s =
     (let s1 = s\<lparr>gi_result_token_ids := gi_result_token_ids s @ [token]\<rparr>
      in (deliver (gi_result_token_ids s1), s1))"

fun decode_steps ::
  "('l \<Rightarrow> int list) \<Rightarrow> (nat \<Rightarrow> 'l option option) \<Rightarrow> (int list \<Rightarrow> unit res) \<Rightarrow> int \<Rightarrow> nat \<Rightarrow> int \<Rightarrow>
   gen_item \<Rightarrow> unit res option \<times> gen_item" where
  "decode_steps argmax outs deliver eos 0 token_int s = (Some (Inr ()), s)"
| "decode_steps argmax outs deliver eos (Suc n) token_int s =
     (let s1 = s\<lparr>gi_phase := DECODE, gi_input_token_ids := gi_input_token_ids s @ [token_int],
                 gi_start_position := gi_start_position s + 1\<rparr>;
          s2 = submit_item s1
      in case outs (length (gi_submitted s)) of
           None \<Rightarrow> (None, s2)
         | Some result_logits \<Rightarrow>
          (case sample_token argmax result_logits of
             Inl e \<Rightarrow> (Some (Inl e), s2)
           | Inr token \<Rightarrow>
             (case append_token deliver token s2 of
                (Inl e, s3) \<Rightarrow> (Some (Inl e), s3)
              | (Inr _, s3) \<Rightarrow>
                  if token = eos then (Some (Inr ()), s3)
                  else decode_steps argmax outs deliver eos n token s3)))"

definition gen_item_body ::
  "('l \<Rightarrow> int list) \<Rightarrow> (nat \<Rightarrow> 'l option option) \<Rightarrow> (int list \<Rightarrow> unit res) \<Rightarrow> int \<Rightarrow> int \<Rightarrow> gen_item \<Rightarrow>
   unit res option \<times> gen_item" where
  "gen_item_body argmax outs deliver max_completion_tokens eos s =
     (let s1 = submit_item s
      in case outs (length (gi_submitted s)) of
           None \<Rightarrow> (None, s1)
         | Some result_logits \<Rightarrow>
          (case sample_token argmax result_logits of
             Inl e \<Rightarrow> (Some (Inl e), s1)
           | Inr token_int \<Rightarrow>
             (case append_token deliver token_int s1 of
                (Inl e, s2) \<Rightarrow> (Some (Inl e), s2)
              | (Inr _, s2) \<Rightarrow>
                  decode_steps argmax outs deliver eos (nat max_completion_tokens) token_int
                    (s2\<lparr>gi_start_position := int (length (gi_input_token_ids s2)) - 1\<rparr>))))"

text \<open>
  The \<open>finally\<close> clause runs whether the body ended or raised, not while it is suspended; what
  \<open>free_cache_pages\<close> raises replaces the outcome of the body.
\<close>

definition gen_item_run ::
  "('l \<Rightarrow> int list) \<Rightarrow> (nat \<Rightarrow> 'l option option) \<Rightarrow> (int list \<Rightarrow> unit res) \<Rightarrow> ('c, 'a, 't) cache_ops \<Rightarrow>
   (gen_item \<Rightarrow> ('a, 't, 'l) exec_request \<times> 'c) \<Rightarrow> int \<Rightarrow> int \<Rightarrow> int list \<Rightarrow>
   unit res option \<times> gen_item \<times> ('a, 't, 'l) exec_request \<times> 'c" where
  "gen_item_run argmax outs deliver ops fin max_completion_tokens eos input_token_ids =
     (let (res, s) = gen_item_body argmax outs deliver max_completion_tokens eos
                       (gen_item_init input_token_ids);
          (r, c) = fin s
      in case res of
           None \<Rightarrow> (None, s, r, c)
         | Some outcome \<Rightarrow>
             (case free_cache_pages ops r c of
                (Inl e, r1, c1) \<Rightarrow> (Some (Inl e), s, r1, c1)
              | (Inr _, r1, c1) \<Rightarrow> (Some outcome, s, r1, c1)))"

subsection \<open>Requests and responses of a client\<close>

datatype http_response = Body string | Status nat

definition sse_part :: "string \<Rightarrow> string" where
  "sse_part result_text = ''data: '' @ result_text @ [CHR 0x0A, CHR 0x0A]"

definition done_part :: string where
  "done_part = ''data: [DONE]'' @ [CHR 0x0A, CHR 0x0A]"

text \<open>
  \<open>(result_text,) = tokenizer.decode([ids])\<close> unpacks exactly one text; the tokenizer may raise.
\<close>

definition stream_results ::
  "(int list list \<Rightarrow> string list res) \<Rightarrow> bool \<Rightarrow> int list \<Rightarrow> (http_response, string) responder \<Rightarrow>
   unit res \<times> (http_response, string) responder" where
  "stream_results decode streaming result_token_ids resp =
     (if \<not> streaming then (Inr (), resp)
      else (case decode [result_token_ids] of
          Inl e \<Rightarrow> (Inl e, resp)
        | Inr result_texts \<Rightarrow>
            (case result_texts of
               [result_text] \<Rightarrow> stream_part (Some (sse_part result_text)) resp
             | _ \<Rightarrow> (Inl ValueError, resp))))"

datatype req_text = TextOne string | TextMany "string list"

text \<open>What \<open>tokenize\<close> hands to the tokenizer: the text flagged single is wrapped in a list, whatever
  it is, and the text of a batch is passed as it is. The tokenizer is a parameter.\<close>

datatype encode_arg = EncodeList "req_text list" | EncodeRaw req_text

definition tokenize_request ::
  "(encode_arg \<Rightarrow> int list list res) \<Rightarrow> req_text option \<Rightarrow> bool \<Rightarrow> int list list res" where
  "tokenize_request encode text is_single =
     (case text of
        None \<Rightarrow> Inl NotImplementedError
      | Some t \<Rightarrow> encode (if is_single then EncodeList [t] else EncodeRaw t))"

text \<open>
  \<open>asyncio.gather\<close> runs the item processes concurrently: \<open>deliveries\<close> are the calls of
  \<open>stream_results\<close> in the order they happen, \<open>results\<close> the token lists the processes end with.
\<close>

fun stream_deliveries ::
  "(int list list \<Rightarrow> string list res) \<Rightarrow> bool \<Rightarrow> int list list \<Rightarrow> (http_response, string) responder \<Rightarrow>
   (http_response, string) responder" where
  "stream_deliveries decode streaming [] resp = resp"
| "stream_deliveries decode streaming (d # ds) resp =
     stream_deliveries decode streaming ds (snd (stream_results decode streaming d resp))"

definition client_body ::
  "(encode_arg \<Rightarrow> int list list res) \<Rightarrow> (int list list \<Rightarrow> string list res) \<Rightarrow> bool \<Rightarrow>
   req_text option \<Rightarrow> bool \<Rightarrow> int option \<Rightarrow> unit res \<Rightarrow>
   int list list \<Rightarrow> int list list \<Rightarrow> (http_response, string) responder \<Rightarrow>
   unit res \<times> (http_response, string) responder" where
  "client_body encode decode streaming text is_single max_completion_tokens gathered deliveries results resp =
     (case tokenize_request encode text is_single of
        Inl e \<Rightarrow> (Inl e, resp)
      | Inr input_batch \<Rightarrow>
         if input_batch \<noteq> [] \<and> max_completion_tokens = None then (Inl KeyError, resp)
         else
          (let resp1 = stream_deliveries decode streaming deliveries resp
           in case gathered of
                Inl e \<Rightarrow> (Inl e, resp1)
              | Inr _ \<Rightarrow>
                 if streaming then
                   (case stream_part (Some done_part) resp1 of
                      (Inl e, resp2) \<Rightarrow> (Inl e, resp2)
                    | (Inr _, resp2) \<Rightarrow> stream_part None resp2)
                 else
                   (case decode results of
                      Inl e \<Rightarrow> (Inl e, resp1)
                    | Inr result_texts \<Rightarrow>
                        send_response (Body (concat (map sse_part result_texts))) resp1)))"

text \<open>\<open>start_response\<close> runs before the \<open>try\<close>; the \<open>finally\<close> runs after every outcome of the body.\<close>

definition client_run ::
  "(encode_arg \<Rightarrow> int list list res) \<Rightarrow> (int list list \<Rightarrow> string list res) \<Rightarrow> bool \<Rightarrow>
   req_text option \<Rightarrow> bool \<Rightarrow> int option \<Rightarrow> unit res \<Rightarrow>
   int list list \<Rightarrow> int list list \<Rightarrow> (http_response, string) responder \<Rightarrow>
   unit res \<times> (http_response, string) responder" where
  "client_run encode decode streaming text is_single max_completion_tokens gathered deliveries results resp =
     (case (if streaming then start_response resp else (Inr (), resp)) of
        (Inl e, resp1) \<Rightarrow> (Inl e, resp1)
      | (Inr _, resp1) \<Rightarrow>
          (let (res, resp2) = client_body encode decode streaming text is_single max_completion_tokens
                                gathered deliveries results resp1;
               (res2, resp3) = ensure_response (Status 500) resp2
           in (case res2 of Inl e \<Rightarrow> Inl e | Inr _ \<Rightarrow> res, resp3)))"

end
