(* ===== verification/Llm_Generate_Properties.thy ===== *)
theory Llm_Generate_Properties
  imports Llm_Generate
begin

section \<open>Properties of generation\<close>

text \<open>The token sequence of a generation, its termination and the return of its pages, and the one response of a client.\<close>

subsection \<open>The decode loop\<close>

definition sampled :: "('l \<Rightarrow> int list) \<Rightarrow> (nat \<Rightarrow> 'l option option) \<Rightarrow> nat \<Rightarrow> int res option" where
  "sampled argmax outs k = map_option (sample_token argmax) (outs k)"

text \<open>
  The state after submission number \<open>k\<close> was answered, for a prompt \<open>ids\<close>: the result tokens are
  the samples so far, the token list is the prompt with all but the last, and every decode was
  submitted at the position of the last token of its list.
\<close>

definition gen_trace :: "('l \<Rightarrow> int list) \<Rightarrow> (nat \<Rightarrow> 'l option option) \<Rightarrow> int list \<Rightarrow> nat \<Rightarrow> gen_item \<Rightarrow> bool" where
  "gen_trace argmax outs ids m s \<longleftrightarrow>
     length (gi_result_token_ids s) = m \<and> 0 < m \<and>
     (\<forall>k < m. sampled argmax outs k = Some (Inr (gi_result_token_ids s ! k))) \<and>
     gi_input_token_ids s = ids @ take (m - 1) (gi_result_token_ids s) \<and>
     gi_start_position s = int (length (gi_input_token_ids s)) - 1 \<and>
     gi_submitted s = (PREFILL, 0, ids) # map (\<lambda>k. (DECODE, int (length ids) + int k,
       ids @ take (Suc k) (gi_result_token_ids s))) [0..<m - 1]"

lemma decode_steps_trace:
  "gen_trace argmax outs ids m s \<Longrightarrow> last (gi_result_token_ids s) = tok \<Longrightarrow>
   decode_steps argmax outs deliver eos n tok s = (Some (Inr ()), s') \<Longrightarrow>
   \<exists>m'. gen_trace argmax outs ids m' s' \<and> m \<le> m' \<and> m' \<le> m + n \<and>
     (m' = m + n \<or> m < m' \<and> last (gi_result_token_ids s') = eos) \<and>
     (\<forall>k. m \<le> k \<and> Suc k < m' \<longrightarrow> gi_result_token_ids s' ! k \<noteq> eos)"
proof (induction n arbitrary: m tok s)
  case 0
  then show ?case by auto
next
  case (Suc n)
  let ?s2 = "submit_item (s\<lparr>gi_phase := DECODE, gi_input_token_ids := gi_input_token_ids s @ [tok],
     gi_start_position := gi_start_position s + 1\<rparr>)"
  note tr = Suc.prems(1) [unfolded gen_trace_def]
  from tr have len: "length (gi_submitted s) = m" by simp
  obtain t where t: "sampled argmax outs m = Some (Inr t)"
    and rest: "(if t = eos then (Some (Inr ()), ?s2\<lparr>gi_result_token_ids := gi_result_token_ids ?s2 @ [t]\<rparr>)
      else decode_steps argmax outs deliver eos n t
        (?s2\<lparr>gi_result_token_ids := gi_result_token_ids ?s2 @ [t]\<rparr>)) = (Some (Inr ()), s')"
    using Suc.prems(3) len
    by (auto simp: Let_def append_token_def sampled_def split: option.splits sum.splits prod.splits)
  let ?s3 = "?s2\<lparr>gi_result_token_ids := gi_result_token_ids ?s2 @ [t]\<rparr>"
  have rs: "gi_result_token_ids ?s3 = gi_result_token_ids s @ [t]" by (simp add: submit_item_def)
  from tr have ne: "gi_result_token_ids s \<noteq> []" by auto
  have tk: "take (m - 1) (gi_result_token_ids s) @ [tok] = take m (gi_result_token_ids s)"
    using ne Suc.prems(2) tr by (metis append_butlast_last_id butlast_conv_take take_all order_refl)
  have inp: "gi_input_token_ids ?s3 = ids @ take m (gi_result_token_ids ?s3)"
    using tr tk by (simp add: submit_item_def)
  have sub: "gi_submitted ?s3 = (PREFILL, 0, ids) # map (\<lambda>k. (DECODE, int (length ids) + int k,
       ids @ take (Suc k) (gi_result_token_ids ?s3))) [0..<m]"
  proof -
    have m: "[0..<m] = [0..<m - 1] @ [m - 1]" using tr by (metis One_nat_def Suc_pred le0 upt_Suc_append)
    have "gi_start_position s + 1 = int (length ids) + int (m - 1)" using tr by simp
    moreover have "take (Suc k) (gi_result_token_ids ?s3) = take (Suc k) (gi_result_token_ids s)"
      if "k < m" for k using that tr rs by simp
    moreover have "gi_input_token_ids s @ [tok] = ids @ take (Suc (m - 1)) (gi_result_token_ids s)"
      using tr tk by simp
    ultimately show ?thesis unfolding m using tr by (simp add: submit_item_def)
  qed
  have tr3: "gen_trace argmax outs ids (Suc m) ?s3"
    unfolding gen_trace_def
  proof (intro conjI allI impI)
    show "sampled argmax outs k = Some (Inr (gi_result_token_ids ?s3 ! k))" if "k < Suc m" for k
      using that tr t rs by (auto simp: nth_append less_Suc_eq)
    show "gi_start_position ?s3 = int (length (gi_input_token_ids ?s3)) - 1"
      using tr by (simp add: submit_item_def)
  qed (use tr rs inp sub in simp_all)
  show ?case
  proof (cases "t = eos")
    case True
    with rest have "s' = ?s3" by simp
    with tr3 True rs show ?thesis by (intro exI [of _ "Suc m"]) auto
  next
    case False
    with rest have "decode_steps argmax outs deliver eos n t ?s3 = (Some (Inr ()), s')" by simp
    from Suc.IH [OF tr3 _ this] rs obtain m' where m': "gen_trace argmax outs ids m' s'" "Suc m \<le> m'"
      "m' \<le> Suc m + n" "m' = Suc m + n \<or> Suc m < m' \<and> last (gi_result_token_ids s') = eos"
      "\<forall>k. Suc m \<le> k \<and> Suc k < m' \<longrightarrow> gi_result_token_ids s' ! k \<noteq> eos" by auto
    have "gi_result_token_ids s' ! m = t" using m'(1,2) t by (auto simp: gen_trace_def)
    with m' False show ?thesis
      by (intro exI [of _ m']) (metis Suc_leI add_Suc add_Suc_right le_neq_implies_less Suc_le_lessD less_imp_le)
  qed
qed

lemma gen_body_trace:
  assumes "gen_item_body argmax outs deliver maxt eos (gen_item_init ids) = (Some (Inr ()), s)"
  shows "\<exists>m. gen_trace argmax outs ids m s \<and> m \<le> Suc (nat maxt) \<and>
    (m = Suc (nat maxt) \<or> 1 < m \<and> last (gi_result_token_ids s) = eos) \<and>
    (\<forall>k. 1 \<le> k \<and> Suc k < m \<longrightarrow> gi_result_token_ids s ! k \<noteq> eos)"
proof -
  let ?s1 = "submit_item (gen_item_init ids)"
  obtain t where t: "sampled argmax outs 0 = Some (Inr t)"
    and rest: "decode_steps argmax outs deliver eos (nat maxt) t
      (?s1\<lparr>gi_result_token_ids := [t], gi_start_position := int (length ids) - 1\<rparr>) = (Some (Inr ()), s)"
    using assms by (auto simp: gen_item_body_def gen_item_init_def Let_def append_token_def submit_item_def
        sampled_def split: option.splits sum.splits prod.splits)
  let ?s2 = "?s1\<lparr>gi_result_token_ids := [t], gi_start_position := int (length ids) - 1\<rparr>"
  have "gen_trace argmax outs ids 1 ?s2"
    using t by (simp add: gen_trace_def submit_item_def gen_item_init_def)
  from decode_steps_trace [OF this _ rest] show ?thesis by auto
qed

text \<open>
  C7: a generation that ends without an exception has sampled its tokens one submission at a time:
  token \<open>k\<close> is the sample of submission \<open>k\<close>, the first submission is the prefill of the
  prompt, each later one a decode of the prompt with the tokens so far, at the position of its last
  token. It ends after \<open>max_completion_tokens + 1\<close> tokens, or at the first end-of-sequence token
  that is not the first token: the prefill's token is never compared with it, and one more
  token than \<open>max_completion_tokens\<close> is produced.
\<close>

theorem generation_tokens:
  assumes "gen_item_run argmax outs deliver ops fin maxt eos ids = (Some (Inr ()), s, r', c')"
    and "ts = gi_result_token_ids s" and "m = length ts"
  shows "0 < m \<and> m \<le> nat maxt + 1 \<and>
    (\<forall>k < m. \<exists>logits. outs k = Some logits \<and> sample_token argmax logits = Inr (ts ! k)) \<and>
    (m = nat maxt + 1 \<or> 1 < m \<and> last ts = eos) \<and>
    (\<forall>k. 1 \<le> k \<and> k < m - 1 \<longrightarrow> ts ! k \<noteq> eos) \<and>
    gi_submitted s = (PREFILL, 0, ids) #
      map (\<lambda>k. (DECODE, int (length (ids @ take (Suc k) ts)) - 1, ids @ take (Suc k) ts)) [0..<m - 1]"
proof -
  obtain s1 where b: "gen_item_body argmax outs deliver maxt eos (gen_item_init ids) = (Some (Inr ()), s1)"
    and s: "s = s1" using assms(1)
    by (auto simp: gen_item_run_def Let_def split: prod.splits option.splits sum.splits)
  from gen_body_trace [OF b] obtain n where n: "gen_trace argmax outs ids n s1" "n \<le> Suc (nat maxt)"
    "n = Suc (nat maxt) \<or> 1 < n \<and> last (gi_result_token_ids s1) = eos"
    "\<forall>k. 1 \<le> k \<and> Suc k < n \<longrightarrow> gi_result_token_ids s1 ! k \<noteq> eos" by blast
  have m: "n = m" "gi_result_token_ids s1 = ts" using n(1) s assms(2,3) by (auto simp: gen_trace_def)
  note tr = n(1) [unfolded gen_trace_def m(2)]
  have "map (\<lambda>k. (DECODE, int (length ids) + int k, ids @ take (Suc k) ts)) [0..<m - 1]
      = map (\<lambda>k. (DECODE, int (length (ids @ take (Suc k) ts)) - 1, ids @ take (Suc k) ts)) [0..<m - 1]"
    using assms(3) by (intro map_cong) auto
  with tr n m s show ?thesis by (auto simp: sampled_def less_diff_conv map_option_eq_Some)
qed

text \<open>A run with the base cache: the request ends with the one page a prefill of two tokens took.\<close>

definition demo_taken :: "base_allocation res \<times> unit base_cache" where
  "demo_taken = base_acquire_pages_for_tokens (base_cache_init (demo_pool 4) 2) [5, 6] 0"

definition demo_last :: "gen_item \<Rightarrow> (base_allocation, int list, int) exec_request \<times> unit base_cache" where
  "demo_last s =
     (case demo_taken of
        (Inr a, c) \<Rightarrow> ((new_exec_request DECODE (gi_input_token_ids s) None)\<lparr>er_allocation := Some a\<rparr>, c)
      | (Inl _, c) \<Rightarrow> (new_exec_request DECODE (gi_input_token_ids s) None, c))"

definition demo_outs :: "nat \<Rightarrow> int option option" where
  "demo_outs k = Some (Some (if k = 3 then 99 else int k))"

definition demo_generation where
  "demo_generation = gen_item_run (\<lambda>l. [l]) demo_outs (\<lambda>_. Inr ()) base_ops demo_last 8 99 [5, 6]"

lemma demo_generation_facts: "fst demo_generation = Some (Inr ())"
  "gi_result_token_ids (fst (snd demo_generation)) = [0, 1, 2, 99]"
  by code_simp+

theorem generation_tokens_witness:
  "gi_submitted (fst (snd demo_generation)) = [(PREFILL, 0, [5, 6]), (DECODE, 2, [5, 6, 0]),
     (DECODE, 3, [5, 6, 0, 1]), (DECODE, 4, [5, 6, 0, 1, 2])]"
proof -
  obtain s r c where run: "gen_item_run (\<lambda>l. [l]) demo_outs (\<lambda>_. Inr ()) base_ops demo_last 8 99 [5, 6]
      = (Some (Inr ()), s, r, c)" and s: "s = fst (snd demo_generation)"
    using demo_generation_facts(1) by (cases demo_generation) (auto simp: demo_generation_def)
  from generation_tokens [OF run demo_generation_facts(2) [symmetric, folded s] refl] show ?thesis
    by (simp add: s)
qed

lemma decode_steps_submits:
  "decode_steps argmax outs deliver eos n tok s = (r, s') \<Longrightarrow>
   length (gi_submitted s') \<le> length (gi_submitted s) + n \<and>
   (r = None \<longrightarrow> outs (length (gi_submitted s') - 1) = None)"
proof (induction n arbitrary: tok s)
  case (Suc n)
  let ?s2 = "submit_item (s\<lparr>gi_phase := DECODE, gi_input_token_ids := gi_input_token_ids s @ [tok],
     gi_start_position := gi_start_position s + 1\<rparr>)"
  consider (waits) "r = None" "s' = ?s2" "outs (length (gi_submitted s)) = None"
    | (ends) out where "r = Some out" "length (gi_submitted s') = Suc (length (gi_submitted s))"
    | (goes) t s3 where "decode_steps argmax outs deliver eos n t s3 = (r, s')"
      "length (gi_submitted s3) = Suc (length (gi_submitted s))"
    using Suc.prems
    by (auto simp: Let_def append_token_def submit_item_def split: option.splits sum.splits prod.splits if_splits)
  then show ?case
  proof cases
    case (goes t s3)
    from Suc.IH [OF goes(1)] goes(2) show ?thesis by simp
  qed (auto simp: submit_item_def)
qed auto

lemma gen_item_body_submits:
  assumes "gen_item_body argmax outs deliver maxt eos (gen_item_init ids) = (r, s)"
  shows "length (gi_submitted s) \<le> nat maxt + 1 \<and> (r = None \<longrightarrow> outs (length (gi_submitted s) - 1) = None)"
  using assms decode_steps_submits [of argmax outs deliver eos "nat maxt" _ _ r s]
  by (fastforce simp: gen_item_body_def gen_item_init_def Let_def append_token_def submit_item_def
      split: option.splits sum.splits prod.splits)

lemma gen_item_run_cases:
  assumes "gen_item_run argmax outs deliver ops fin maxt eos ids = (res, s, r', c')"
  shows "length (gi_submitted s) \<le> nat maxt + 1"
    and "res = None \<Longrightarrow> outs (length (gi_submitted s) - 1) = None \<and> (r', c') = fin s"
    and "res \<noteq> None \<Longrightarrow> \<exists>e. free_cache_pages ops (fst (fin s)) (snd (fin s)) = (e, r', c')"
proof -
  obtain b s1 where body: "gen_item_body argmax outs deliver maxt eos (gen_item_init ids) = (b, s1)" by fastforce
  note sub = gen_item_body_submits [OF body]
  from assms body have s: "s1 = s" and b: "b = None \<longleftrightarrow> res = None"
    by (auto simp: gen_item_run_def Let_def split: prod.splits option.splits sum.splits)
  with sub show "length (gi_submitted s) \<le> nat maxt + 1" by simp
  show "outs (length (gi_submitted s) - 1) = None \<and> (r', c') = fin s" if "res = None"
    using that assms body sub s b by (auto simp: gen_item_run_def Let_def split: prod.splits)
  show "\<exists>e. free_cache_pages ops (fst (fin s)) (snd (fin s)) = (e, r', c')" if "res \<noteq> None"
    using that assms body s b
    by (auto simp: gen_item_run_def Let_def split: prod.splits option.splits sum.splits)
qed

text \<open>
  C31: a generation makes at most \<open>max_completion_tokens + 1\<close> submissions. It is suspended only at a
  future that never fires, and then still holds its allocation. However it ends otherwise (all
  tokens sampled, no logits, a response that can no longer be written), its request has no
  allocation afterwards. With the base cache exactly the pages of the allocation, if it was not
  released before, are available again. With the trie cache no page becomes available: the
  reference count of the node the allocation rests on goes down by one, which makes its
  published pages evictable in the end (the unpublished ones are lost, see \<open>trie_release_leak\<close>).
\<close>

theorem generation_ends_and_frees:
  "(gen_item_run argmax outs deliver base_ops fin maxt eos ids = (res, s, r', c') \<longrightarrow>
     length (gi_submitted s) \<le> nat maxt + 1 \<and>
     (res = None \<longrightarrow> outs (length (gi_submitted s) - 1) = None \<and> (r', c') = fin s) \<and>
     (res \<noteq> None \<longrightarrow> er_allocation r' = None \<and>
        mset (base_avail c') = mset (base_avail (snd (fin s))) +
          (case er_allocation (fst (fin s)) of None \<Rightarrow> {#}
           | Some a \<Rightarrow> if ba_is_released a then {#} else mset (ba_pages a)))) \<and>
   (gen_item_run argmax outs deliver trie_ops tfin maxt eos ids = (tres, t, tr, tc) \<longrightarrow>
     length (gi_submitted t) \<le> nat maxt + 1 \<and>
     (tres = None \<longrightarrow> outs (length (gi_submitted t) - 1) = None \<and> (tr, tc) = tfin t) \<and>
     (tres \<noteq> None \<longrightarrow> er_allocation tr = None \<and> tavail tc = tavail (snd (tfin t)) \<and>
        (\<forall>n. refs tc n = refs (snd (tfin t)) n -
          (case er_allocation (fst (tfin t)) of None \<Rightarrow> 0
           | Some a \<Rightarrow> if \<not> ta_is_released a \<and> n = ta_last_cached_node a then 1 else 0))))"
proof (rule conjI; rule impI)
  assume run: "gen_item_run argmax outs deliver base_ops fin maxt eos ids = (res, s, r', c')"
  note cs = gen_item_run_cases [OF run]
  have "er_allocation r' = None \<and>
        mset (base_avail c') = mset (base_avail (snd (fin s))) +
          (case er_allocation (fst (fin s)) of None \<Rightarrow> {#}
           | Some a \<Rightarrow> if ba_is_released a then {#} else mset (ba_pages a))" if "res \<noteq> None"
    using cs(3) [OF that]
    by (auto simp: free_cache_pages_def base_ops_def base_release_pages_def base_avail_def
        split: option.splits prod.splits sum.splits if_splits)
  with cs show "length (gi_submitted s) \<le> nat maxt + 1 \<and>
     (res = None \<longrightarrow> outs (length (gi_submitted s) - 1) = None \<and> (r', c') = fin s) \<and>
     (res \<noteq> None \<longrightarrow> er_allocation r' = None \<and>
        mset (base_avail c') = mset (base_avail (snd (fin s))) +
          (case er_allocation (fst (fin s)) of None \<Rightarrow> {#}
           | Some a \<Rightarrow> if ba_is_released a then {#} else mset (ba_pages a)))" by blast
next
  assume run: "gen_item_run argmax outs deliver trie_ops tfin maxt eos ids = (tres, t, tr, tc)"
  note cs = gen_item_run_cases [OF run]
  have "er_allocation tr = None \<and> tavail tc = tavail (snd (tfin t)) \<and>
        (\<forall>n. refs tc n = refs (snd (tfin t)) n -
          (case er_allocation (fst (tfin t)) of None \<Rightarrow> 0
           | Some a \<Rightarrow> if \<not> ta_is_released a \<and> n = ta_last_cached_node a then 1 else 0))" if "tres \<noteq> None"
    using cs(3) [OF that]
    by (auto simp: free_cache_pages_def trie_ops_def trie_release_pages_def
        split: option.splits prod.splits sum.splits if_splits)
  with cs show "length (gi_submitted t) \<le> nat maxt + 1 \<and>
     (tres = None \<longrightarrow> outs (length (gi_submitted t) - 1) = None \<and> (tr, tc) = tfin t) \<and>
     (tres \<noteq> None \<longrightarrow> er_allocation tr = None \<and> tavail tc = tavail (snd (tfin t)) \<and>
        (\<forall>n. refs tc n = refs (snd (tfin t)) n -
          (case er_allocation (fst (tfin t)) of None \<Rightarrow> 0
           | Some a \<Rightarrow> if \<not> ta_is_released a \<and> n = ta_last_cached_node a then 1 else 0)))" by blast
qed

lemma demo_last_pages: "pp_available_pages (bc_page_pool (snd (demo_last s))) = [0, 1, 2]"
  "map_option ba_pages (er_allocation (fst (demo_last s))) = Some [3]"
  "map_option ba_is_released (er_allocation (fst (demo_last s))) = Some False"
proof -
  have "(case demo_taken of (Inr a, c) \<Rightarrow> ba_pages a = [3] \<and> \<not> ba_is_released a \<and>
      pp_available_pages (bc_page_pool c) = [0, 1, 2] | _ \<Rightarrow> False)" by code_simp
  then obtain a c where t: "demo_taken = (Inr a, c)" "ba_pages a = [3]" "\<not> ba_is_released a"
    "pp_available_pages (bc_page_pool c) = [0, 1, 2]" by (auto split: prod.splits sum.splits)
  then show "pp_available_pages (bc_page_pool (snd (demo_last s))) = [0, 1, 2]"
    "map_option ba_pages (er_allocation (fst (demo_last s))) = Some [3]"
    "map_option ba_is_released (er_allocation (fst (demo_last s))) = Some False"
    unfolding demo_last_def t(1) by simp_all
qed

theorem generation_ends_and_frees_witness:
  "mset (base_avail (snd (snd (snd demo_generation)))) = {#0, 1, 2, 3#} \<and>
   length (gi_submitted (fst (snd demo_generation))) \<le> 9"
proof -
  obtain s r c where run: "gen_item_run (\<lambda>l. [l]) demo_outs (\<lambda>_. Inr ()) base_ops demo_last 8 99 [5, 6]
      = (Some (Inr ()), s, r, c)" and s: "demo_generation = (Some (Inr ()), s, r, c)"
    using demo_generation_facts(1) by (cases demo_generation) (auto simp: demo_generation_def)
  from conjunct1 [OF generation_ends_and_frees, rule_format, OF run] demo_last_pages [of s]
  show ?thesis by (auto simp: s base_avail_def)
qed

subsection \<open>The client's response\<close>

lemma stream_deliveries_off [simp]: "stream_deliveries decode False ds resp = resp"
  by (induction ds) (simp_all add: stream_results_def)








end
