(* ===== verification/Llm_Properties.thy ===== *)
theory Llm_Properties
  imports Llm_Flights Llm_Generate_Properties
begin

section \<open>Properties of batching and execution\<close>

text \<open>Boarding of prefills and decodes, strobes, and the failure of the message loop.\<close>

subsection \<open>Boarding\<close>

definition boards_now :: "('c, 'a, 't, 'l) batcher \<Rightarrow> bool" where
  "boards_now s \<longleftrightarrow> bt_ideal_batch_size s \<le> int (length (bt_pending_prefills s) + length (bt_pending_decodes s))
     \<or> 2 \<le> bt_strobes s"

context request_cache
begin

lemma board_prefills_run:
  assumes "board_prefills ops sched s = (Inr (), s')" and so: "iteration_order sched"
    and "distinct (bt_pending_prefills s)"
  shows "\<exists>new. distinct new \<and> set new \<subseteq> set (bt_pending_prefills s) \<and>
    int (length new) \<le> max 0 (bt_ideal_batch_size s) \<and>
    bt_pending_prefills s' = set_remove_all new (bt_pending_prefills s) \<and>
    bt_flights s' = bt_flights s @ (if new = [] then [] else [(PREFILL, new)]) \<and>
    bt_pending_decodes s' = bt_pending_decodes s \<and> bt_ideal_batch_size s' = bt_ideal_batch_size s \<and>
    bt_strobes s' = bt_strobes s \<and> (\<forall>j. j \<notin> set new \<longrightarrow> bt_requests s' j = bt_requests s j) \<and>
    (\<forall>j \<in> set new. er_phase (bt_requests s j) = PREFILL \<and>
      (\<exists>a. bt_requests s' j = (bt_requests s j)\<lparr>er_allocation := Some a\<rparr> \<and> \<not> released a))"
proof (cases "bt_pending_prefills s = []")
  case True
  with assms show ?thesis by (auto simp: board_prefills_def set_remove_all_def)
next
  case False
  note d = iteration_orderD [OF so]
  obtain exec reqs c where run: "prefill_loop ops (bt_ideal_batch_size s) (bt_page_seq_stride s)
      (sched (bt_pending_prefills s)) ([], bt_requests s, bt_page_cache s) = (Inr (), exec, reqs, c)"
    and s': "s' = (let s1 = s\<lparr>bt_requests := reqs, bt_page_cache := c\<rparr> in if exec = [] then s1
      else s1\<lparr>bt_pending_prefills := set_remove_all exec (bt_pending_prefills s1),
              bt_flights := bt_flights s1 @ [(PREFILL, exec)]\<rparr>)"
    using assms(1) False by (auto simp: board_prefills_def Let_def split: prod.splits sum.splits)
  from prefill_loop_run [OF run] d(2) assms(3) obtain new where new: "exec = [] @ new"
    "set new \<subseteq> set (sched (bt_pending_prefills s))" "distinct new"
    "int (length exec) \<le> max (bt_ideal_batch_size s) (int (length ([] :: nat list)))"
    "\<forall>j. j \<notin> set new \<longrightarrow> reqs j = bt_requests s j"
    "\<forall>j \<in> set new. er_phase (bt_requests s j) = PREFILL \<and>
      (\<exists>a. reqs j = (bt_requests s j)\<lparr>er_allocation := Some a\<rparr> \<and> \<not> released a)" by auto
  show ?thesis
    by (rule exI [of _ new]) (use new s' d(1) in \<open>auto simp: Let_def set_remove_all_def max.commute\<close>)
qed

lemma board_decodes_run:
  assumes "board_decodes ops sched s = (Inr (), s')" and so: "iteration_order sched"
    and "distinct (bt_pending_decodes s)"
  shows "\<exists>new. distinct new \<and> set new \<subseteq> set (bt_pending_decodes s) \<and>
    int (length new) \<le> max 0 (bt_ideal_batch_size s) \<and>
    (int (length new) < bt_ideal_batch_size s \<longrightarrow> set new = set (bt_pending_decodes s)) \<and>
    bt_pending_decodes s' = set_remove_all new (bt_pending_decodes s) \<and>
    bt_flights s' = bt_flights s @ (if new = [] then [] else [(DECODE, new)]) \<and>
    bt_pending_prefills s' = bt_pending_prefills s \<and> bt_strobes s' = bt_strobes s \<and>
    (\<forall>j. j \<notin> set new \<longrightarrow> bt_requests s' j = bt_requests s j) \<and>
    (\<forall>j \<in> set new. er_phase (bt_requests s j) = DECODE \<and>
      (\<exists>b. bt_requests s' j = (bt_requests s j)\<lparr>er_allocation := Some b\<rparr>))"
proof (cases "bt_pending_decodes s = []")
  case True
  with assms show ?thesis by (auto simp: board_decodes_def set_remove_all_def)
next
  case False
  note d = iteration_orderD [OF so]
  obtain exec reqs c where run: "decode_loop ops (bt_ideal_batch_size s)
      (sched (bt_pending_decodes s)) ([], bt_requests s, bt_page_cache s) = (Inr (), exec, reqs, c)"
    and s': "s' = (let s1 = s\<lparr>bt_requests := reqs, bt_page_cache := c\<rparr> in if exec = [] then s1
      else s1\<lparr>bt_pending_decodes := set_remove_all exec (bt_pending_decodes s1),
              bt_flights := bt_flights s1 @ [(DECODE, exec)]\<rparr>)"
    using assms(1) False by (auto simp: board_decodes_def Let_def split: prod.splits sum.splits)
  from decode_loop_run [OF run] d(2) assms(3) obtain new where new: "exec = [] @ new"
    "set new \<subseteq> set (sched (bt_pending_decodes s))" "distinct new"
    "int (length exec) \<le> max (bt_ideal_batch_size s) (int (length ([] :: nat list)))"
    "int (length exec) < bt_ideal_batch_size s \<longrightarrow> set new = set (sched (bt_pending_decodes s))"
    "\<forall>j. j \<notin> set new \<longrightarrow> reqs j = bt_requests s j"
    "\<forall>j \<in> set new. er_phase (bt_requests s j) = DECODE \<and>
      (\<exists>a ext. er_allocation (bt_requests s j) = Some a \<and> (\<exists>b. reqs j = (bt_requests s j)\<lparr>er_allocation := Some b\<rparr>
        \<and> pages b = pages a @ ext \<and> released b = released a))" by auto
  show ?thesis
    by (rule exI [of _ new]) (use new s' d(1) in \<open>auto simp: Let_def set_remove_all_def max.commute\<close>)
qed

text \<open>Every pending prefill leaves with an allocation or is finished without a result.\<close>

lemma board_flights_prefills:
  assumes "board_flights ops sched s = (Inr (), s')" and so: "iteration_order sched"
    and "distinct (bt_pending_prefills s)" and "distinct (bt_pending_decodes s)"
    and "boards_now s" and i: "i \<in> set (bt_pending_prefills s)"
  shows "bt_pending_prefills s' = [] \<and>
    ((\<exists>flight. (PREFILL, flight) \<in> set (drop (length (bt_flights s)) (bt_flights s')) \<and> i \<in> set flight \<and>
        int (length flight) \<le> max 0 (bt_ideal_batch_size s) \<and>
        (\<exists>a. er_allocation (bt_requests s' i) = Some a \<and> \<not> released a)) \<or>
     (er_done (bt_requests s' i) \<and> er_result_logits (bt_requests s' i) = er_result_logits (bt_requests s i)))"
proof -
  from i have "0 < length (bt_pending_prefills s)" by (cases "bt_pending_prefills s") auto
  with assms(1,5) obtain s1 s2 where b1: "board_prefills ops sched (s\<lparr>bt_strobes := 0\<rparr>) = (Inr (), s1)"
    and b2: "board_decodes ops sched s1 = (Inr (), s2)"
    and s': "s' = s2\<lparr>bt_requests := finish_all (bt_pending_prefills s2) (bt_requests s2), bt_pending_prefills := []\<rparr>"
    by (auto simp: board_flights_def boards_now_def Let_def split: if_splits prod.splits sum.splits)
  from board_prefills_run [OF b1 so] assms(3) obtain new where
    n: "set new \<subseteq> set (bt_pending_prefills s)" "int (length new) \<le> max 0 (bt_ideal_batch_size s)"
      "bt_pending_prefills s1 = set_remove_all new (bt_pending_prefills s)"
      "bt_flights s1 = bt_flights s @ (if new = [] then [] else [(PREFILL, new)])"
      "bt_pending_decodes s1 = bt_pending_decodes s"
      "\<And>j. j \<notin> set new \<Longrightarrow> bt_requests s1 j = bt_requests s j"
      "\<And>j. j \<in> set new \<Longrightarrow> er_phase (bt_requests s j) = PREFILL \<and>
        (\<exists>a. bt_requests s1 j = (bt_requests s j)\<lparr>er_allocation := Some a\<rparr> \<and> \<not> released a)"
    by auto
  from board_decodes_run [OF b2 so] n(5) assms(4) obtain dn where
    d: "bt_flights s2 = bt_flights s1 @ (if dn = [] then [] else [(DECODE, dn)])"
      "bt_pending_prefills s2 = bt_pending_prefills s1"
      "\<And>j. j \<notin> set dn \<Longrightarrow> bt_requests s2 j = bt_requests s1 j"
      "\<And>j. j \<in> set dn \<Longrightarrow> er_phase (bt_requests s1 j) = DECODE \<and>
        (\<exists>b. bt_requests s2 j = (bt_requests s1 j)\<lparr>er_allocation := Some b\<rparr>)"
    by auto
  show ?thesis
  proof (cases "i \<in> set new")
    case True
    then obtain a where a: "bt_requests s1 i = (bt_requests s i)\<lparr>er_allocation := Some a\<rparr>" "\<not> released a"
      and ph: "er_phase (bt_requests s i) = PREFILL" using n(7) by blast
    have "i \<notin> set dn"
    proof
      assume "i \<in> set dn"
      with d(4) a(1) ph show False by fastforce
    qed
    with d(2,3) n(3) True a(1) have "bt_requests s' i = (bt_requests s i)\<lparr>er_allocation := Some a\<rparr>"
      by (simp add: s' finish_all_def set_remove_all_def)
    with True n(2,4) d(1) a(2) show ?thesis by (auto simp: s' intro!: exI [of _ new])
  next
    case False
    then have "i \<in> set (bt_pending_prefills s2)" using i d(2) n(3) by (simp add: set_remove_all_def)
    moreover have "er_result_logits (bt_requests s2 i) = er_result_logits (bt_requests s i)"
      using n(6) [OF False] d(3,4) [of i] by (cases "i \<in> set dn") auto
    ultimately show ?thesis by (simp add: s' finish_all_def)
  qed
qed

end

text \<open>
  What a boarding owes a pending prefill \<open>i\<close>: it left the pending set, and it is in a flight of at most
  the ideal batch size that was launched for it, holding unreleased pages, or its future was
  set although it has no new result.
\<close>

definition prefill_outcome ::
  "('a \<Rightarrow> bool) \<Rightarrow> ('c, 'a, 't, 'l) batcher \<Rightarrow> ('c, 'a, 't, 'l) batcher \<Rightarrow> nat \<Rightarrow> bool" where
  "prefill_outcome released s s' i \<longleftrightarrow> bt_pending_prefills s' = [] \<and>
    ((\<exists>flight. (PREFILL, flight) \<in> set (drop (length (bt_flights s)) (bt_flights s')) \<and> i \<in> set flight \<and>
        int (length flight) \<le> max 0 (bt_ideal_batch_size s) \<and>
        (\<exists>a. er_allocation (bt_requests s' i) = Some a \<and> \<not> released a)) \<or>
     (er_done (bt_requests s' i) \<and> er_result_logits (bt_requests s' i) = er_result_logits (bt_requests s i)))"

text \<open>
  C6: when the batcher boards (enough requests wait or two strobes passed) without an exception, with
  either cache and whatever the order in which the pending set is iterated, every pending prefill
  is flighted with pages or finished without a result; none keeps waiting, and no flight is larger
  than the ideal batch size.
\<close>

theorem prefill_boarding:
  assumes "iteration_order sched"
  shows "(board_flights base_ops sched s = (Inr (), s') \<longrightarrow> distinct (bt_pending_prefills s) \<longrightarrow>
      distinct (bt_pending_decodes s) \<longrightarrow> boards_now s \<longrightarrow> i \<in> set (bt_pending_prefills s) \<longrightarrow>
      prefill_outcome ba_is_released s s' i) \<and>
    (board_flights trie_ops sched t = (Inr (), t') \<longrightarrow> distinct (bt_pending_prefills t) \<longrightarrow>
      distinct (bt_pending_decodes t) \<longrightarrow> boards_now t \<longrightarrow> i \<in> set (bt_pending_prefills t) \<longrightarrow>
      prefill_outcome ta_is_released t t' i)"
  unfolding prefill_outcome_def
  using base_req.board_flights_prefills [OF _ assms] trie_req.board_flights_prefills [OF _ assms]
  by blast

text \<open>A server on the base cache with 3 pages of two tokens, two prompts pending.\<close>

definition demo_request :: "int list \<Rightarrow> (base_allocation, int list, nat) exec_request" where
  "demo_request ids = new_exec_request PREFILL ids None"

definition demo_batcher :: "(unit base_cache, base_allocation, int list, nat) batcher" where
  "demo_batcher =
     \<lparr>bt_page_cache = base_cache_init (demo_pool 3) 2,
      bt_requests = (\<lambda>i. if i = 0 then demo_request [1, 2, 3] else demo_request [4, 5, 6, 7]),
      bt_pending_prefills = [0, 1], bt_pending_decodes = [], bt_strobe_enabled = True,
      bt_strobes = 1, bt_ideal_batch_size = 4, bt_page_seq_stride = 2, bt_flights = []\<rparr>"

definition demo_boarded :: "unit res \<times> (unit base_cache, base_allocation, int list, nat) batcher" where
  "demo_boarded = board_flights base_ops rev (demo_batcher\<lparr>bt_strobes := 2\<rparr>)"

theorem prefill_boarding_witness:
  "prefill_outcome ba_is_released (demo_batcher\<lparr>bt_strobes := 2\<rparr>) (snd demo_boarded) 0"
proof -
  have "fst demo_boarded = Inr ()" by code_simp
  then have b: "board_flights base_ops rev (demo_batcher\<lparr>bt_strobes := 2\<rparr>) = (Inr (), snd demo_boarded)"
    by (simp add: demo_boarded_def prod_eq_iff)
  have "iteration_order rev" by (simp add: iteration_order_def)
  from conjunct1 [OF prefill_boarding [OF this], rule_format, OF b] show ?thesis
    by (simp add: boards_now_def demo_batcher_def)
qed

subsection \<open>Waiting is bounded\<close>

lemma board_flights_waits:
  "board_flights ops sched s = (Inr (), s') \<Longrightarrow> bt_pending_prefills s' = [] \<or> s' = s \<and> bt_strobes s < 2"
  by (auto simp: board_flights_def Let_def add_nonneg_eq_0_iff split: if_splits sum.splits prod.splits)

text \<open>
  A prefill waits for at most two strobes: after two strobe messages, whatever cache, order and
  batch size, no prefill is pending (or one of the two iterations raised).
\<close>

theorem two_strobes_board:
  assumes "batcher_run ops sched [StrobeItem, StrobeItem] s = (Inr (), s')"
  shows "bt_pending_prefills s' = []"
proof -
  let ?recv = "\<lambda>s. batcher_receive StrobeItem (s\<lparr>bt_strobe_enabled := False\<rparr>)"
  from assms obtain s1 s2 where 1: "board_flights ops sched (?recv s) = (Inr (), s1)"
    and 2: "board_flights ops sched (?recv (s1\<lparr>bt_strobe_enabled := True\<rparr>)) = (Inr (), s2)"
    and s': "s' = s2\<lparr>bt_strobe_enabled := True\<rparr>"
    by (auto simp: batcher_step_def split: sum.splits prod.splits)
  from board_flights_waits [OF 1] board_flights_waits [OF 2] show ?thesis
    by (auto simp: s' batcher_receive_def)
qed

definition demo_two_strobes :: "unit res \<times> (unit base_cache, base_allocation, int list, nat) batcher" where
  "demo_two_strobes = batcher_run base_ops rev [StrobeItem, StrobeItem] (demo_batcher\<lparr>bt_strobes := 0\<rparr>)"

theorem two_strobes_board_witness: "bt_pending_prefills (snd demo_two_strobes) = []"
proof -
  have "fst demo_two_strobes = Inr ()" by code_simp
  then have "batcher_run base_ops rev [StrobeItem, StrobeItem] (demo_batcher\<lparr>bt_strobes := 0\<rparr>)
      = (Inr (), snd demo_two_strobes)" by (simp add: demo_two_strobes_def prod_eq_iff)
  from two_strobes_board [OF this] show ?thesis .
qed

subsection \<open>A failed extension stops the server\<close>

lemma decode_loop_append:
  "decode_loop ops ideal pre (exec, reqs, c) = (Inr (), exec @ pre, reqs', c') \<Longrightarrow>
   decode_loop ops ideal (pre @ rest) (exec, reqs, c) = decode_loop ops ideal rest (exec @ pre, reqs', c')"
proof (induction pre arbitrary: exec reqs c)
  case (Cons i pre)
  from Cons.prems obtain a a1 c1 where r: "er_phase (reqs i) = DECODE" "\<not> ideal \<le> int (length exec)"
      "er_allocation (reqs i) = Some a" "co_extend ops c a (er_input_token_ids (reqs i)) 1 = (Inr (), a1, c1)"
    and go: "decode_loop ops ideal pre (exec @ [i], reqs(i := (reqs i)\<lparr>er_allocation := Some a1\<rparr>), c1)
      = (Inr (), (exec @ [i]) @ pre, reqs', c')"
    by (auto simp: Let_def split: if_splits option.splits prod.splits sum.splits)
  from r Cons.IH [OF go] show ?case by (simp add: fun_upd_def)
qed simp

lemma decode_loop_done:
  "decode_loop ops ideal is (exec, reqs, c) = (res, exec', reqs', c') \<Longrightarrow> er_done (reqs' j) = er_done (reqs j)"
proof (induction "is" arbitrary: exec reqs c)
  case (Cons i "is")
  show ?case
  proof (cases "er_done (reqs' j) = er_done (reqs j)")
    case False
    with Cons.prems obtain a1 c1 where
      "decode_loop ops ideal is (exec @ [i], reqs(i := (reqs i)\<lparr>er_allocation := Some a1\<rparr>), c1)
        = (res, exec', reqs', c')"
      by (auto simp: Let_def split: if_splits option.splits prod.splits sum.splits)
    from Cons.IH [OF this] show ?thesis by (auto split: if_splits)
  qed simp
qed simp

lemma free_cache_pages_done: "free_cache_pages ops r c = (res, r', c') \<Longrightarrow> er_done r' = er_done r"
  by (auto simp: free_cache_pages_def split: option.splits prod.splits sum.splits)

lemma prefill_loop_done:
  "prefill_loop ops ideal stride is (exec, reqs, c) = (res, exec', reqs', c') \<Longrightarrow>
   er_done (reqs' j) = er_done (reqs j)"
proof (induction "is" arbitrary: exec reqs c)
  case (Cons i "is")
  let ?r = "reqs i"
  obtain q c1 where q: "co_acquire ops c (er_input_token_ids ?r) 0 = (q, c1)" by fastforce
  obtain f r1 c2 where f: "free_cache_pages ops ?r c1 = (f, r1, c2)" by (metis surj_pair)
  from Cons.prems q f consider "reqs' = reqs" | "reqs' = reqs(i := r1)"
    | "prefill_loop ops ideal stride is (exec, reqs, c1) = (res, exec', reqs', c')"
    | a where "prefill_loop ops ideal stride is (exec @ [i], reqs(i := r1\<lparr>er_allocation := Some a\<rparr>), c2)
        = (res, exec', reqs', c')"
    by (auto simp: Let_def split: if_splits sum.splits py_error.splits)
  then show ?case
  proof cases
    case (4 a)
    from Cons.IH [OF 4] free_cache_pages_done [OF f] show ?thesis by (auto split: if_splits)
  qed (use Cons.IH free_cache_pages_done [OF f] in auto)
qed simp

lemma board_prefills_frame:
  assumes "board_prefills ops sched s = (r, s')"
  shows "bt_pending_decodes s' = bt_pending_decodes s" and "bt_strobe_enabled s' = bt_strobe_enabled s"
    and "bt_ideal_batch_size s' = bt_ideal_batch_size s"
    and "er_done (bt_requests s' j) = er_done (bt_requests s j)"
proof -
  obtain res exec reqs c where run: "prefill_loop ops (bt_ideal_batch_size s) (bt_page_seq_stride s)
      (sched (bt_pending_prefills s)) ([], bt_requests s, bt_page_cache s) = (res, exec, reqs, c)"
    by (metis surj_pair)
  from assms run show "bt_pending_decodes s' = bt_pending_decodes s"
    "bt_strobe_enabled s' = bt_strobe_enabled s" "bt_ideal_batch_size s' = bt_ideal_batch_size s"
    "er_done (bt_requests s' j) = er_done (bt_requests s j)"
    using prefill_loop_done [OF run, of j] by (auto simp: board_prefills_def Let_def split: if_splits sum.splits)
qed

text \<open>
  C29: let the batcher receive a message and board (some request waits, and enough do or two strobes
  passed), and let boarding the pending prefills, if there are any, go through. If, among the decodes in
  the order the pending set is iterated, those before decode \<open>i\<close> are boarded and the cache cannot
  extend the allocation of \<open>i\<close> (a decode request with an allocation, within the batch size), the
  exception leaves the batcher's message loop: no later message is processed, every decode stays pending,
  those before \<open>i\<close> with their allocations extended, no decode is launched, the prefills that found
  no pages stay pending too, no request of the server is finished, and strobes stay disabled, so that
  none is sent any more.
\<close>

theorem decode_failure_stops_batcher:
  assumes "s1 = batcher_receive item (s\<lparr>bt_strobe_enabled := False\<rparr>)" and "boards_now s1"
    and "bt_pending_prefills s1 \<noteq> [] \<or> bt_pending_decodes s1 \<noteq> []"
    and "board_prefills ops sched (s1\<lparr>bt_strobes := 0\<rparr>) = (Inr (), p)"
    and "bt_pending_decodes p \<noteq> []" and "sched (bt_pending_decodes p) = pre @ i # rest"
    and "decode_loop ops (bt_ideal_batch_size p) pre ([], bt_requests p, bt_page_cache p) = (Inr (), pre, reqs, c)"
    and "int (length pre) < bt_ideal_batch_size p"
    and "er_phase (reqs i) = DECODE" and "er_allocation (reqs i) = Some a"
    and "co_extend ops c a (er_input_token_ids (reqs i)) 1 = (Inl e, a', c')"
  shows "\<exists>s'. batcher_run ops sched (item # items) s = (Inl e, s') \<and>
    bt_pending_decodes s' = bt_pending_decodes s1 \<and> bt_flights s' = bt_flights p \<and>
    bt_pending_prefills s' = bt_pending_prefills p \<and> (\<forall>j. j \<noteq> i \<longrightarrow> bt_requests s' j = reqs j) \<and>
    strober_submits s' = [] \<and> (\<forall>j. er_done (bt_requests s' j) = er_done (bt_requests s j))"
proof -
  note fr = board_prefills_frame [OF assms(4)]
  let ?reqs = "reqs(i := (reqs i)\<lparr>er_allocation := Some a'\<rparr>)"
  let ?s' = "p\<lparr>bt_requests := ?reqs, bt_page_cache := c'\<rparr>"
  have "decode_loop ops (bt_ideal_batch_size p) (sched (bt_pending_decodes p)) ([], bt_requests p, bt_page_cache p)
      = decode_loop ops (bt_ideal_batch_size p) (i # rest) (pre, reqs, c)"
    using decode_loop_append [of ops "bt_ideal_batch_size p" pre "[]"] assms(6,7) by (simp del: decode_loop.simps)
  also have "\<dots> = (Inl e, pre, ?reqs, c')" using assms(8-11) by simp
  finally have "board_decodes ops sched p = (Inl e, ?s')"
    using assms(5) by (simp add: board_decodes_def)
  moreover have "int (length (bt_pending_prefills s1)) + int (length (bt_pending_decodes s1)) \<noteq> 0"
    using assms(3) by (simp add: add_nonneg_eq_0_iff)
  ultimately have "board_flights ops sched s1 = (Inl e, ?s')"
    using assms(2,4) by (auto simp: board_flights_def boards_now_def Let_def)
  then have "batcher_run ops sched (item # items) s = (Inl e, ?s')"
    using assms(1) by (simp add: batcher_step_def)
  moreover have "er_done (bt_requests ?s' j) = er_done (bt_requests s j)" for j
  proof -
    have "er_done (bt_requests ?s' j) = er_done (reqs j)" by simp
    also have "\<dots> = er_done (bt_requests p j)" using decode_loop_done [OF assms(7)] .
    also have "\<dots> = er_done (bt_requests s1 j)" using fr(4) [of j] by simp
    also have "\<dots> = er_done (bt_requests s j)"
      by (simp add: assms(1) batcher_receive_def split: batcher_item.split inference_phase.split)
    finally show ?thesis .
  qed
  moreover have "\<not> bt_strobe_enabled p"
    using fr(2) by (simp add: assms(1) batcher_receive_def split: batcher_item.split inference_phase.split)
  ultimately show ?thesis using fr(1) by (auto simp: strober_submits_def)
qed

text \<open>
  Two pages are left: one for the pending prefill 2, one for the decode that comes first; the other
  decode finds none.
\<close>

definition demo_decoding :: "(unit base_cache, base_allocation, int list, nat) batcher" where
  "demo_decoding = demo_batcher
     \<lparr>bt_page_cache := base_cache_init (demo_pool 2) 2, bt_pending_prefills := [2], bt_pending_decodes := [0, 1],
      bt_requests := (\<lambda>i. if i = 2 then demo_request [7]
        else (demo_request [1, 2])\<lparr>er_phase := DECODE, er_allocation := Some (new_base_allocation [9])\<rparr>)\<rparr>"

definition demo_prefilled :: "unit res \<times> (unit base_cache, base_allocation, int list, nat) batcher" where
  "demo_prefilled = board_prefills base_ops rev
     (batcher_receive StrobeItem (demo_decoding\<lparr>bt_strobe_enabled := False\<rparr>)\<lparr>bt_strobes := 0\<rparr>)"

definition demo_extended ::
  "unit res \<times> (unit base_cache, base_allocation, int list, nat) boarding" where
  "demo_extended = (let p = snd demo_prefilled in
     decode_loop base_ops (bt_ideal_batch_size p) [1] ([], bt_requests p, bt_page_cache p))"

definition demo_refused :: "unit res \<times> base_allocation \<times> unit base_cache" where
  "demo_refused = (let (_, reqs, c) = snd demo_extended in
     co_extend base_ops c (the (er_allocation (reqs 0))) (er_input_token_ids (reqs 0)) 1)"

lemma demo_prefilled_facts: "fst demo_prefilled = Inr ()" "bt_pending_decodes (snd demo_prefilled) = [0, 1]"
  "bt_ideal_batch_size (snd demo_prefilled) = 4"
  by code_simp+

lemma demo_extended_facts: "fst demo_extended = Inr ()" "fst (snd demo_extended) = [1]"
  "fst demo_refused = Inl CacheAllocationFailure"
  "er_phase (fst (snd (snd demo_extended)) 0) = DECODE"
  "er_allocation (fst (snd (snd demo_extended)) 0) \<noteq> None"
  by code_simp+

theorem decode_failure_stops_batcher_witness:
  "\<exists>s'. batcher_run base_ops rev [StrobeItem, ExecItem 7] demo_decoding = (Inl CacheAllocationFailure, s') \<and>
    bt_pending_decodes s' = [0, 1] \<and> strober_submits s' = []"
proof -
  let ?s1 = "batcher_receive StrobeItem (demo_decoding\<lparr>bt_strobe_enabled := False\<rparr>)"
  let ?p = "snd demo_prefilled"
  note pf = demo_prefilled_facts and ef = demo_extended_facts
  have p: "board_prefills base_ops rev (?s1\<lparr>bt_strobes := 0\<rparr>) = (Inr (), ?p)"
    using pf(1) by (simp add: demo_prefilled_def prod_eq_iff)
  obtain reqs c where e: "demo_extended = (Inr (), [1], reqs, c)" using ef(1,2) by (metis prod.collapse)
  have l: "decode_loop base_ops (bt_ideal_batch_size ?p) [1] ([], bt_requests ?p, bt_page_cache ?p) = (Inr (), [1], reqs, c)"
    using e by (simp add: demo_extended_def Let_def)
  obtain a where a: "er_allocation (reqs 0) = Some a" using ef(5) unfolding e by auto
  obtain a' c' where x: "co_extend base_ops c a (er_input_token_ids (reqs 0)) 1 = (Inl CacheAllocationFailure, a', c')"
    using ef(3) unfolding demo_refused_def e Let_def by (simp add: a) (metis prod.collapse)
  have ph: "er_phase (reqs 0) = DECODE" using ef(4) unfolding e by simp
  have "boards_now ?s1" and "bt_pending_prefills ?s1 \<noteq> []" and d: "bt_pending_decodes ?s1 = [0, 1]"
    by (simp_all add: boards_now_def batcher_receive_def demo_decoding_def demo_batcher_def)
  from decode_failure_stops_batcher [OF refl this(1) _ p _ _ l _ _ a x, of "[]" "[ExecItem 7]"] this(2)
  show ?thesis using pf ph d by (auto simp del: batcher_run.simps)
qed

end
