(* ===== verification/Llm_Exec_Properties.thy ===== *)
theory Llm_Exec_Properties
  imports Llm_Properties
begin

section \<open>Properties of an executed batch\<close>

text \<open>What an executed batch does: the page table it builds for the device, its error path, and which batches find an entry point.\<close>

lemma div_less_bound:
  assumes "0 < b" and "p < n * b"
  shows "p div b < (n :: int)"
proof (rule ccontr)
  assume "\<not> p div b < n"
  then have "n * b \<le> p div b * b" using assms(1) by (simp add: mult_right_mono)
  also have "\<dots> \<le> p" using assms(1) by (simp flip: minus_mod_eq_div_mult)
  finally show False using assms(2) by simp
qed

text \<open>
  C5: the page table a batch sends to the device addresses the request's own pages: if the request's
  allocation has room for its tokens (and the slot a decode writes), then for every such position
  the entry of its row at the position's block is the allocation's page for that block, never the
  padding; rows, sequence lengths and start positions have the shape of the chosen entry point,
  which is one with room for all requests.
\<close>

theorem page_table_addresses_own_pages:
  assumes "prepare_args ops eps phase stride reqs c = Inr args" and "0 < stride" and "i < length reqs"
    and "er_allocation (reqs ! i) = Some a"
    and "extra = (if phase = DECODE then 1 else 0)"
    and "n = int (length (co_tokens ops c (er_input_token_ids (reqs ! i)))) + extra"
    and "n \<le> int (length (co_pages ops a)) * stride"
  shows "(\<forall>p. 0 \<le> p \<and> p < n \<longrightarrow> nat (p div stride) < length (xa_seq_block_ids args ! i) \<and>
      xa_seq_block_ids args ! i ! nat (p div stride) = co_pages ops a ! nat (p div stride)) \<and>
    xa_bs args \<in> set eps \<and> length reqs \<le> xa_bs args \<and> length (xa_seq_block_ids args) = xa_bs args \<and>
    length (xa_tokens args) = xa_bs args \<and> length (xa_seq_lens args) = xa_bs args"
proof -
  let ?lens = "map (\<lambda>r. length (co_tokens ops c (er_input_token_ids r))) reqs"
  obtain bsl where sel: "select_entrypoint eps (length reqs) = Inr (xa_bs args)"
    and bsl: "batch_seq_len (if phase = DECODE then 1 else 0) stride ?lens = Inr bsl"
    and toks: "fill_rows (xa_bs args) (if phase = DECODE then 1 else nat bsl) 0
      (map (token_row ops c phase) reqs) = Inr (xa_tokens args)"
    and lens: "fill_items (xa_bs args) 1 (if phase = DECODE
      then map (\<lambda>(r, n). er_start_position r + int n) (zip reqs ?lens) else map int ?lens) = Inr (xa_seq_lens args)"
    and rows: "fill_rows (xa_bs args) (nat (bsl div stride)) 0
      (map (\<lambda>r. cache_page_indices ops r (bsl div stride)) reqs) = Inr (xa_seq_block_ids args)"
    by (rule prepare_args_Inr [OF assms(1)]) blast
  have bs: "xa_bs args \<in> set eps" "length reqs \<le> xa_bs args" using select_entrypoint_Inr [OF sel] by auto
  let ?B = "bsl div stride"
  have "length (co_tokens ops c (er_input_token_ids (reqs ! i))) \<in> set ?lens" using assms(3) by auto
  from batch_seq_len_Inr(2) [OF bsl assms(2) this] have nB: "n \<le> ?B * stride"
    using assms(5,6) by (simp add: add.commute)
  have row: "xa_seq_block_ids args ! i = (let xs = py_prefix ?B (co_pages ops a)
      in xs @ replicate (nat ?B - length xs) 0)"
    using fill_rows_Inr(2) [OF rows, of i] assms(3,4) bs(2) by (simp add: cache_page_indices_def)
  have "nat (p div stride) < length (xa_seq_block_ids args ! i) \<and>
      xa_seq_block_ids args ! i ! nat (p div stride) = co_pages ops a ! nat (p div stride)"
    if p: "0 \<le> p" "p < n" for p
  proof -
    have "0 < ?B * stride" using p nB by linarith
    then have B: "0 < ?B" using assms(2) by (simp add: zero_less_mult_iff)
    let ?k = "nat (p div stride)"
    have "p div stride < ?B" "p div stride < int (length (co_pages ops a))"
      using p nB assms(2,7) by (auto intro: div_less_bound)
    then have "?k < nat ?B" "?k < length (co_pages ops a)"
      using p assms(2) B by (auto simp: nat_less_iff pos_imp_zdiv_nonneg_iff)
    then show ?thesis using B by (simp add: row py_prefix_def Let_def nth_append)
  qed
  with bs fill_rows_Inr(1) [OF rows] fill_rows_Inr(1) [OF toks] lens show ?thesis
    by (auto simp: fill_items_Inr)
qed

definition demo_ready :: "(base_allocation, int list, nat) exec_request" where
  "demo_ready = (demo_request [1, 2, 3])\<lparr>er_allocation := Some (new_base_allocation [2, 1])\<rparr>"

definition demo_args :: "exec_args res" where
  "demo_args = prepare_args base_ops [1, 4] PREFILL 2 [demo_ready, demo_ready] (base_cache_init (demo_pool 3) 2)"

theorem page_table_addresses_own_pages_witness:
  "(case demo_args of Inr args \<Rightarrow> xa_seq_block_ids args ! 1 ! 1 = 1 \<and> xa_bs args = 4 | Inl e \<Rightarrow> False)"
proof -
  have "(case demo_args of Inr args \<Rightarrow> xa_bs args = 4 | Inl e \<Rightarrow> False)" by code_simp
  then obtain args where a: "demo_args = Inr args" and bs: "xa_bs args = 4" by (auto split: sum.splits)
  let ?reqs = "[demo_ready, demo_ready]"
  have al: "er_allocation (?reqs ! 1) = Some (new_base_allocation [2, 1])" by (simp add: demo_ready_def)
  have n: "3 = int (length (co_tokens base_ops (base_cache_init (demo_pool 3) 2)
      (er_input_token_ids (?reqs ! 1)))) + 0"
    by (simp add: demo_ready_def demo_request_def new_exec_request_def base_ops_def)
  have room: "3 \<le> int (length (co_pages base_ops (new_base_allocation [2, 1]))) * 2"
    by (simp add: base_ops_def new_base_allocation_def)
  from page_table_addresses_own_pages [OF a [unfolded demo_args_def] _ _ al _ n room]
  have "\<forall>p. 0 \<le> p \<and> p < 3 \<longrightarrow> nat (p div 2) < length (xa_seq_block_ids args ! 1) \<and>
      xa_seq_block_ids args ! 1 ! nat (p div 2) = [2, 1] ! nat (p div 2)"
    by (simp add: base_ops_def new_base_allocation_def)
  from this [rule_format, of 2] bs show ?thesis unfolding a by simp
qed

text \<open>
  C30: a batch whose arguments cannot be built (no entry point for its size, a stride of zero, a row
  too long) or whose device call raises does not leak: with either cache every request of the
  batch ends without result and without pages, and its future is set.
\<close>

theorem failed_batch_frees:
  assumes "j \<in> set is"
    and "\<And>args. prepare_args ops eps phase stride (map reqs is) c = Inr args \<Longrightarrow> \<exists>e. fn (xa_bs args) args = Inl e"
    and "\<And>args. prepare_args topt eps phase stride (map treqs is) tc = Inr args \<Longrightarrow> \<exists>e. fn (xa_bs args) args = Inl e"
    and "ops = base_ops" and "topt = trie_ops"
  shows "(\<exists>reqs' c'. executor_run fn view ops eps phase stride is (reqs, c) = (Inr (), reqs', c') \<and>
      er_allocation (reqs' j) = None \<and> er_result_logits (reqs' j) = None \<and> er_done (reqs' j)) \<and>
    (\<exists>reqs' c'. executor_run fn view topt eps phase stride is (treqs, tc) = (Inr (), reqs', c') \<and>
      er_allocation (reqs' j) = None \<and> er_result_logits (reqs' j) = None \<and> er_done (reqs' j))"
proof
  obtain r reqs' c' where b: "executor_run fn view base_ops eps phase stride is (reqs, c) = (r, reqs', c')"
    by (metis surj_pair)
  from base_req.executor_error [OF b _ assms(1)] assms(2) assms(4) b
  show "\<exists>reqs' c'. executor_run fn view ops eps phase stride is (reqs, c) = (Inr (), reqs', c') \<and>
      er_allocation (reqs' j) = None \<and> er_result_logits (reqs' j) = None \<and> er_done (reqs' j)"
    by (cases "prepare_args base_ops eps phase stride (map reqs is) c") fastforce+
  obtain r reqs' c' where t: "executor_run fn view trie_ops eps phase stride is (treqs, tc) = (r, reqs', c')"
    by (metis surj_pair)
  from trie_req.executor_error [OF t _ assms(1)] assms(3) assms(5) t
  show "\<exists>reqs' c'. executor_run fn view topt eps phase stride is (treqs, tc) = (Inr (), reqs', c') \<and>
      er_allocation (reqs' j) = None \<and> er_result_logits (reqs' j) = None \<and> er_done (reqs' j)"
    by (cases "prepare_args trie_ops eps phase stride (map treqs is) tc") fastforce+
qed

theorem failed_batch_frees_witness:
  "\<exists>reqs' c'. executor_run (\<lambda>_ _. Inl RuntimeError :: nat res) (\<lambda>_ _. Inr 0) base_ops [1] PREFILL 2 [0]
      (\<lambda>_. demo_ready, base_cache_init (demo_pool 3) 2) = (Inr (), reqs', c') \<and>
    er_allocation (reqs' 0) = None"
  using failed_batch_frees [of 0 "[0]" base_ops "[1]" PREFILL 2 "\<lambda>_. demo_ready"
      "base_cache_init (demo_pool 3) 2" "\<lambda>_ _. Inl RuntimeError :: nat res" trie_ops
      "\<lambda>_. new_exec_request PREFILL (Tup [1]) None" "demo_cache 3" "\<lambda>_ _. Inr 0"]
  by (simp, blast)

text \<open>
  Every prefill flight the batcher launches finds an entry point, because its size is at most the
  largest prefill batch size. The same bound is used for decodes, so a full decode flight finds an
  entry point exactly if the decode entry points reach the largest prefill batch size; otherwise
  the executor raises \<open>RuntimeError\<close>.
\<close>

theorem flights_have_entry_points:
  assumes "batcher_init cache reqs sizes stride = Inr b" and "n \<le> nat (bt_ideal_batch_size b)"
  shows "is_ok (select_entrypoint (map nat sizes) n) \<and>
    (is_ok (select_entrypoint decode_sizes (nat (bt_ideal_batch_size b))) \<longleftrightarrow>
       (\<exists>bs \<in> set decode_sizes. bt_ideal_batch_size b \<le> int bs))"
proof
  from assms(1) have ne: "sizes \<noteq> []" and b: "bt_ideal_batch_size b = Max (set sizes)"
    by (auto simp: batcher_init_def split: if_splits)
  have "Max (set sizes) \<in> set sizes" using ne by simp
  then show "is_ok (select_entrypoint (map nat sizes) n)"
    using assms(2) b by (auto simp: select_entrypoint_ok)
qed (auto simp: select_entrypoint_ok nat_le_iff)

theorem flights_have_entry_points_witness:
  "is_ok (select_entrypoint (map nat [1, 4]) 3) \<and> \<not> is_ok (select_entrypoint [1, 2] 4)"
proof -
  obtain b where b: "batcher_init () (\<lambda>_. demo_ready) [1, 4] 2 = Inr b" "bt_ideal_batch_size b = 4"
    by (simp add: batcher_init_def)
  from flights_have_entry_points [OF b(1), of 3 "[1, 2]"] b(2) show ?thesis by simp
qed

end
