(* ===== verification/Llm_Io.thy ===== *)
theory Llm_Io
  imports Llm_Generate
begin

section \<open>Request and model parameters\<close>

text \<open>
  Model of \<open>llm/components/io_struct.py\<close> (\<open>GenerateReqInput\<close>) and of the derived sizes of
  \<open>config_struct.py\<close> (\<open>ModelParams\<close>). A field that is one value or a list of values is a
  \<open>one_or_many\<close>; sampling parameters are dictionaries of integers; \<open>uuid\<close> gives the identifiers
  that \<open>uuid4().hex\<close> would.
\<close>

subsection \<open>The request\<close>

datatype 'x one_or_many = One 'x | Many "'x list"

type_synonym py_dict = "(string \<times> int) list"

record gen_req =
  gr_text :: "string one_or_many option"
  gr_input_ids :: "int list one_or_many option"
  gr_image_data :: "string option one_or_many option"
  gr_sampling_params :: "py_dict one_or_many option"
  gr_rid :: "string one_or_many option"
  gr_return_logprob :: "bool one_or_many option"
  gr_logprob_start_len :: "int one_or_many option"
  gr_top_logprobs_num :: "int one_or_many option"
  gr_return_text_in_logprobs :: bool
  gr_stream :: bool
  gr_modalities :: "string list option"
  gr_is_single :: bool
  gr_parallel_sample_num :: "int option"
  gr_batch_size :: "int option"

definition dict_get :: "py_dict \<Rightarrow> string \<Rightarrow> int \<Rightarrow> int" where
  "dict_get d k dflt = (case map_of d k of None \<Rightarrow> dflt | Some v \<Rightarrow> v)"

text \<open>\<open>[x] * num\<close>; a negative count gives the empty list.\<close>

definition py_repeat :: "'x \<Rightarrow> int \<Rightarrow> 'x list" where
  "py_repeat x num = replicate (nat num) x"

text \<open>\<open>isinstance(self.input_ids[0], int)\<close>; an empty list raises.\<close>

definition first_is_int :: "int list one_or_many \<Rightarrow> bool res" where
  "first_is_int ids =
     (case ids of One [] \<Rightarrow> Inl IndexError | One _ \<Rightarrow> Inr True
      | Many [] \<Rightarrow> Inl IndexError | Many _ \<Rightarrow> Inr False)"

definition one_or_many_len :: "'x list one_or_many \<Rightarrow> int" where
  "one_or_many_len v = (case v of One xs \<Rightarrow> int (length xs) | Many vs \<Rightarrow> int (length vs))"

definition decide_single :: "gen_req \<Rightarrow> bool res" where
  "decide_single r =
     (case gr_sampling_params r of
        Some (One d) \<Rightarrow>
          if dict_get d ''n'' 1 \<noteq> 1 then Inr False
          else (case gr_text r of Some (One _) \<Rightarrow> Inr True | Some (Many _) \<Rightarrow> Inr False
                | None \<Rightarrow> (case gr_input_ids r of None \<Rightarrow> Inl TypeError | Some ids \<Rightarrow> first_is_int ids))
      | _ \<Rightarrow> (case gr_text r of Some (One _) \<Rightarrow> Inr True | Some (Many _) \<Rightarrow> Inr False
              | None \<Rightarrow> (case gr_input_ids r of None \<Rightarrow> Inl TypeError | Some ids \<Rightarrow> first_is_int ids)))"

definition parallel_num :: "gen_req \<Rightarrow> int res" where
  "parallel_num r =
     (case gr_sampling_params r of
        Some (One d) \<Rightarrow> Inr (dict_get d ''n'' 1)
      | Some (Many ds) \<Rightarrow>
          (let nums = map (\<lambda>sp. dict_get sp ''n'' 1) ds
           in if nums = [] then Inl ValueError
              else (let n = Max (set nums)
                    in if n > 1 \<and> \<not> list_all (\<lambda>e. e = n) nums then Inl ValueError else Inr n))
      | None \<Rightarrow> Inr 1)"

text \<open>The number of requests the batch stands for, and the batch size.\<close>

definition batch_num :: "int \<Rightarrow> gen_req \<Rightarrow> (int \<times> int) res" where
  "batch_num n r =
     (if n \<noteq> 1 then
        (case gr_text r of
           Some (Many ts) \<Rightarrow> Inr ((n + 1) * int (length ts), int (length ts))
         | _ \<Rightarrow>
            (case gr_input_ids r of
               None \<Rightarrow> Inr (n + 1, 1)
             | Some ids \<Rightarrow>
                 (case first_is_int ids of
                    Inl e \<Rightarrow> Inl e
                  | Inr True \<Rightarrow> Inr (n + 1, 1)
                  | Inr False \<Rightarrow> Inr ((n + 1) * one_or_many_len ids, one_or_many_len ids))))
      else
        (case gr_text r of
           Some t \<Rightarrow> (let num = one_or_many_len t in Inr (num, num))
         | None \<Rightarrow>
             (case gr_input_ids r of
                None \<Rightarrow> Inl TypeError
              | Some ids \<Rightarrow> (let num = one_or_many_len ids in Inr (num, num)))))"

definition spread :: "'x \<Rightarrow> int \<Rightarrow> 'x one_or_many option \<Rightarrow> 'x one_or_many option" where
  "spread dflt num v =
     (case v of None \<Rightarrow> Some (Many (py_repeat dflt num))
      | Some (One x) \<Rightarrow> Some (Many (py_repeat x num))
      | Some (Many xs) \<Rightarrow> Some (Many xs))"

definition set_default :: "'x \<Rightarrow> 'x option \<Rightarrow> 'x option" where
  "set_default dflt v = (case v of None \<Rightarrow> Some dflt | Some x \<Rightarrow> Some x)"

definition req_post_init :: "(nat \<Rightarrow> string) \<Rightarrow> gen_req \<Rightarrow> unit res \<times> gen_req" where
  "req_post_init uuid r =
     (if (gr_text r = None) = (gr_input_ids r = None) then (Inl ValueError, r)
      else case decide_single r of
        Inl e \<Rightarrow> (Inl e, r)
      | Inr is_single \<Rightarrow>
         (let r0 = r\<lparr>gr_is_single := is_single\<rparr> in
          if is_single then
            (Inr (), r0\<lparr>gr_sampling_params := set_default (One []) (gr_sampling_params r0),
               gr_rid := set_default (One (uuid 0)) (gr_rid r0),
               gr_return_logprob := set_default (One False) (gr_return_logprob r0),
               gr_logprob_start_len := set_default (One (- 1)) (gr_logprob_start_len r0),
               gr_top_logprobs_num := set_default (One 0) (gr_top_logprobs_num r0)\<rparr>)
          else case parallel_num r0 of
            Inl e \<Rightarrow> (Inl e, r0)
          | Inr n \<Rightarrow>
             (let r1 = r0\<lparr>gr_parallel_sample_num := Some n\<rparr> in
              case batch_num n r1 of
                Inl e \<Rightarrow> (Inl e, r1)
              | Inr (num, bsize) \<Rightarrow>
                 (let r2 = r1\<lparr>gr_batch_size := Some bsize,
                        gr_image_data := spread None num (gr_image_data r1),
                        gr_sampling_params := spread [] num (gr_sampling_params r1)\<rparr>
                  in case gr_rid r2 of
                       Some (One _) \<Rightarrow> (Inl ValueError, r2)
                     | rid \<Rightarrow>
                        (Inr (), r2\<lparr>gr_rid := (case rid of None \<Rightarrow> Some (Many (map uuid [0..<nat num])) | _ \<Rightarrow> rid),
                           gr_return_logprob := spread False num (gr_return_logprob r2),
                           gr_logprob_start_len := spread (- 1) num (gr_logprob_start_len r2),
                           gr_top_logprobs_num := spread 0 num (gr_top_logprobs_num r2)\<rparr>)))))"

subsection \<open>Model parameters\<close>

record paged_kv_cache_params =
  pk_block_seq_stride :: int
  pk_attention_head_count_kv :: int
  pk_device_block_count :: int
  pk_prefix_sharing_algorithm :: string

record model_params =
  mp_max_seq_len :: int
  mp_transformer_block_count :: int
  mp_attn_head_dim :: int
  mp_prefill_batch_sizes :: "int list"
  mp_decode_batch_sizes :: "int list"
  mp_module_name :: string
  mp_module_abi_version :: int
  mp_paged_kv_cache :: "paged_kv_cache_params option"

definition max_prefill_batch_size :: "model_params \<Rightarrow> int res" where
  "max_prefill_batch_size p = py_last (mp_prefill_batch_sizes p)"

definition max_decode_batch_size :: "model_params \<Rightarrow> int res" where
  "max_decode_batch_size p = py_last (mp_decode_batch_sizes p)"

definition max_batch_size :: "model_params \<Rightarrow> int res" where
  "max_batch_size p =
     (case max_prefill_batch_size p of Inl e \<Rightarrow> Inl e
      | Inr a \<Rightarrow> (case max_decode_batch_size p of Inl e \<Rightarrow> Inl e | Inr b \<Rightarrow> Inr (max a b)))"

definition has_paged_kv_cache :: "model_params \<Rightarrow> bool" where
  "has_paged_kv_cache p \<longleftrightarrow> mp_paged_kv_cache p \<noteq> None"

definition paged_kv_unit_size_elements :: "model_params \<Rightarrow> int res" where
  "paged_kv_unit_size_elements p =
     (case mp_paged_kv_cache p of
        None \<Rightarrow> Inl AssertionError
      | Some k \<Rightarrow> Inr (1 * mp_transformer_block_count p * 2 * pk_attention_head_count_kv k * mp_attn_head_dim p))"

definition paged_kv_block_size_elements :: "model_params \<Rightarrow> int res" where
  "paged_kv_block_size_elements p =
     (case mp_paged_kv_cache p of
        None \<Rightarrow> Inl AssertionError
      | Some k \<Rightarrow> (case paged_kv_unit_size_elements p of Inl e \<Rightarrow> Inl e
          | Inr u \<Rightarrow> Inr (u * pk_block_seq_stride k)))"

text \<open>The cache the service builds from the parameters (\<open>GenerateService.__init__\<close>).\<close>

datatype service_cache = UsesTrie "unit trie_cache" | UsesBase "unit base_cache"

definition service_page_cache ::
  "(nat \<Rightarrow> nat) \<Rightarrow> (nat \<Rightarrow> nat) \<Rightarrow> (nat \<Rightarrow> int list) \<Rightarrow> (unit \<Rightarrow> nat \<Rightarrow> nat \<Rightarrow> unit list) \<Rightarrow> unit list \<Rightarrow>
   model_params \<Rightarrow> service_cache res" where
  "service_page_cache addr clock objs mk_table devices p =
     (case mp_paged_kv_cache p of
        None \<Rightarrow> Inl AttributeError
      | Some k \<Rightarrow>
        (case paged_kv_block_size_elements p of
           Inl e \<Rightarrow> Inl e
         | Inr elements \<Rightarrow>
           (let pool = pool_init mk_table devices
                  \<lparr>pc_alloc_page_count = nat (pk_device_block_count k), pc_block_size_elements = nat elements\<rparr>
            in if pk_prefix_sharing_algorithm k = ''trie'' then
                 (case trie_cache_init addr clock objs pool (pk_block_seq_stride k) of
                    Inl e \<Rightarrow> Inl e | Inr c \<Rightarrow> Inr (UsesTrie c))
               else if pk_prefix_sharing_algorithm k = ''none'' then
                 Inr (UsesBase (base_cache_init pool (pk_block_seq_stride k)))
               else Inl ValueError)))"

subsection \<open>Properties\<close>

definition field_len :: "'x one_or_many option \<Rightarrow> nat \<Rightarrow> bool" where
  "field_len v n \<longleftrightarrow> (\<exists>xs. v = Some (Many xs) \<and> length xs = n)"

lemma spread_len: "(case v of Some (Many _) \<Rightarrow> False | _ \<Rightarrow> True) \<Longrightarrow> field_len (spread x num v) (nat num)"
  by (auto simp: spread_def field_len_def py_repeat_def split: option.splits one_or_many.splits)

definition no_lists :: "gen_req \<Rightarrow> bool" where
  "no_lists r \<longleftrightarrow> (case gr_image_data r of Some (Many _) \<Rightarrow> False | _ \<Rightarrow> True) \<and>
     (case gr_sampling_params r of Some (Many _) \<Rightarrow> False | _ \<Rightarrow> True) \<and> gr_rid r = None \<and>
     (case gr_return_logprob r of Some (Many _) \<Rightarrow> False | _ \<Rightarrow> True) \<and>
     (case gr_logprob_start_len r of Some (Many _) \<Rightarrow> False | _ \<Rightarrow> True) \<and>
     (case gr_top_logprobs_num r of Some (Many _) \<Rightarrow> False | _ \<Rightarrow> True)"

text \<open>
  A normalised batch request is uniform: when \<open>post_init\<close> succeeds on a batch whose other
  fields are not lists, image data, sampling parameters, ids and log-probability options are lists
  of one common length, the batch size times the number of sequences per prompt (\<open>n + 1\<close>, with
  the extra prefill, if \<open>n\<close> is not 1); and \<open>post_init\<close> raises \<open>ValueError\<close> when the request has both
  texts and token ids, or neither.
\<close>

theorem post_init_uniform:
  assumes "req_post_init uuid r = (res, r')"
  shows "((gr_text r = None) = (gr_input_ids r = None) \<longrightarrow> res = Inl ValueError \<and> r' = r) \<and>
    (is_ok res \<longrightarrow> \<not> gr_is_single r' \<longrightarrow> no_lists r \<longrightarrow>
      (\<exists>n bsize. gr_parallel_sample_num r' = Some n \<and> gr_batch_size r' = Some bsize \<and>
        (let num = nat (if n = 1 then bsize else (n + 1) * bsize) in
         field_len (gr_image_data r') num \<and> field_len (gr_sampling_params r') num \<and>
         field_len (gr_rid r') num \<and> field_len (gr_return_logprob r') num \<and>
         field_len (gr_logprob_start_len r') num \<and> field_len (gr_top_logprobs_num r') num)))"
proof (intro conjI impI)
  show "res = Inl ValueError" "r' = r" if "(gr_text r = None) = (gr_input_ids r = None)"
    using assms that by (simp_all add: req_post_init_def)
  assume ok: "is_ok res" and batch: "\<not> gr_is_single r'" and nl: "no_lists r"
  let ?r0 = "r\<lparr>gr_is_single := False\<rparr>"
  from assms ok batch obtain n num bsize where n: "parallel_num ?r0 = Inr n"
    and b: "batch_num n (?r0\<lparr>gr_parallel_sample_num := Some n\<rparr>) = Inr (num, bsize)"
    and r': "gr_parallel_sample_num r' = Some n" "gr_batch_size r' = Some bsize"
      "gr_image_data r' = spread None num (gr_image_data r)"
      "gr_sampling_params r' = spread [] num (gr_sampling_params r)"
      "gr_return_logprob r' = spread False num (gr_return_logprob r)"
      "gr_logprob_start_len r' = spread (- 1) num (gr_logprob_start_len r)"
      "gr_top_logprobs_num r' = spread 0 num (gr_top_logprobs_num r)"
      "gr_rid r = None \<Longrightarrow> gr_rid r' = Some (Many (map uuid [0..<nat num]))"
    by (auto simp: req_post_init_def Let_def split: if_splits sum.splits prod.splits option.splits one_or_many.splits)
  have num: "num = (if n = 1 then bsize else (n + 1) * bsize)"
    using b by (auto simp: batch_num_def Let_def split: if_splits option.splits one_or_many.splits sum.splits bool.splits)
  have "field_len (gr_rid r') (nat num)" using r'(8) nl by (simp add: no_lists_def field_len_def)
  with r' nl num show "\<exists>n bsize. gr_parallel_sample_num r' = Some n \<and> gr_batch_size r' = Some bsize \<and>
        (let num = nat (if n = 1 then bsize else (n + 1) * bsize) in
         field_len (gr_image_data r') num \<and> field_len (gr_sampling_params r') num \<and>
         field_len (gr_rid r') num \<and> field_len (gr_return_logprob r') num \<and>
         field_len (gr_logprob_start_len r') num \<and> field_len (gr_top_logprobs_num r') num)"
    by (intro exI [of _ n] exI [of _ bsize]) (simp add: Let_def no_lists_def spread_len)
qed

definition demo_gen_req :: gen_req where
  "demo_gen_req =
     \<lparr>gr_text = Some (Many [''a'', ''b'']), gr_input_ids = None, gr_image_data = None,
      gr_sampling_params = Some (One [(''n'', 2)]), gr_rid = None, gr_return_logprob = None,
      gr_logprob_start_len = None, gr_top_logprobs_num = Some (One 3), gr_return_text_in_logprobs = False,
      gr_stream = False, gr_modalities = None, gr_is_single = True, gr_parallel_sample_num = None,
      gr_batch_size = None\<rparr>"

definition demo_normalised :: "unit res \<times> gen_req" where
  "demo_normalised = req_post_init (\<lambda>_. ''id'') demo_gen_req"

theorem post_init_uniform_witness:
  "field_len (gr_top_logprobs_num (snd demo_normalised)) 6 \<and> field_len (gr_rid (snd demo_normalised)) 6"
proof -
  have "fst demo_normalised = Inr ()" "\<not> gr_is_single (snd demo_normalised)" "no_lists demo_gen_req"
    and n: "gr_parallel_sample_num (snd demo_normalised) = Some 2" "gr_batch_size (snd demo_normalised) = Some 2"
    by code_simp+
  moreover from this(1) have "req_post_init (\<lambda>_. ''id'') demo_gen_req = (Inr (), snd demo_normalised)"
    by (simp add: demo_normalised_def prod_eq_iff)
  ultimately show ?thesis using post_init_uniform [of "\<lambda>_. ''id''" demo_gen_req "Inr ()" "snd demo_normalised"]
    by (auto simp: Let_def)
qed

end
