(* ===== verification/Py_Text.thy ===== *)
theory Py_Text
  imports Py_Prelude "HOL-Library.Sublist"
begin

section \<open>Python text\<close>

text \<open>
  The parts of Python's \<open>str\<close> and \<open>re\<close> that the tuner uses. Texts are lists of ASCII characters.
  Regular expressions are the subset the tuner's patterns use (literals, greedy classes, repeated
  and capturing groups); the matcher lists the ways to match in the order in which Python's
  backtracking tries them, the first one is the match.
\<close>

subsection \<open>Characters, numbers, lists\<close>

definition is_digit :: "char \<Rightarrow> bool" where
  "is_digit c \<longleftrightarrow> c \<in> set ''0123456789''"

definition is_space :: "char \<Rightarrow> bool" where
  "is_space c \<longleftrightarrow> c \<in> {CHR '' '', CHR 0x09, CHR 0x0A, CHR 0x0B, CHR 0x0C, CHR 0x0D,
     CHR 0x1C, CHR 0x1D, CHR 0x1E, CHR 0x1F}"

definition newline :: string where
  "newline = [CHR 0x0A]"

definition quote_mark :: char where
  "quote_mark = CHR 0x22"

fun nat_str :: "nat \<Rightarrow> string" where
  "nat_str n = (if n < 10 then [''0123456789'' ! n] else nat_str (n div 10) @ [''0123456789'' ! (n mod 10)])"

declare nat_str.simps [simp del]

text \<open>\<open>str(i)\<close> for an int.\<close>

definition str_int :: "int \<Rightarrow> string" where
  "str_int i = (if i < 0 then CHR ''-'' # nat_str (nat (- i)) else nat_str (nat i))"

text \<open>\<open>sep.join(xs)\<close>\<close>

fun str_join :: "string \<Rightarrow> string list \<Rightarrow> string" where
  "str_join sep [] = ''''"
| "str_join sep [x] = x"
| "str_join sep (x # y # ys) = x @ sep @ str_join sep (y # ys)"

text \<open>\<open>str(xs)\<close> for a list of ints.\<close>

definition str_int_list :: "int list \<Rightarrow> string" where
  "str_int_list xs = ''['' @ str_join '', '' (map str_int xs) @ '']''"

definition str_strip :: "string \<Rightarrow> string" where
  "str_strip s = rev (dropWhile is_space (rev (dropWhile is_space s)))"

text \<open>\<open>s.split(sep)\<close> for a separator that is not empty.\<close>

function split_from :: "string \<Rightarrow> string \<Rightarrow> string \<Rightarrow> string list" where
  "split_from sep acc s =
     (if s = [] then [acc]
      else if prefix sep s then acc # split_from sep [] (drop (max 1 (length sep)) s)
      else split_from sep (acc @ [hd s]) (tl s))"
  by pat_completeness auto
termination
  by (relation "measure (\<lambda>(sep, acc, s). length s)") (auto simp: Suc_diff_Suc)

declare split_from.simps [simp del]

definition str_split :: "string \<Rightarrow> string \<Rightarrow> string list" where
  "str_split sep s = split_from sep [] s"

fun digits_val :: "nat \<Rightarrow> string \<Rightarrow> nat" where
  "digits_val acc [] = acc"
| "digits_val acc (c # cs) = digits_val (10 * acc + (of_char c - 48)) cs"

text \<open>\<open>int(s)\<close>: surrounding blanks, a sign, digits with single underscores between them.\<close>

definition parse_int :: "string \<Rightarrow> int res" where
  "parse_int s =
     (let t = str_strip s;
          neg = prefix ''-'' t;
          body = (if neg \<or> prefix ''+'' t then tl t else t);
          groups = str_split ''_'' body
      in if \<exists>g \<in> set groups. g = [] \<or> \<not> list_all is_digit g then Inl ValueError
         else Inr ((if neg then -1 else 1) * int (digits_val 0 (concat groups))))"

subsection \<open>Lines\<close>

text \<open>\<open>text.splitlines(True)\<close> for texts whose only line break is the newline.\<close>

fun split_lines_from :: "string \<Rightarrow> string \<Rightarrow> string list" where
  "split_lines_from acc [] = (if acc = [] then [] else [acc])"
| "split_lines_from acc (c # cs) =
     (if c = CHR 0x0A then (acc @ [c]) # split_lines_from [] cs else split_lines_from (acc @ [c]) cs)"

definition unlines :: "string list \<Rightarrow> string" where
  "unlines ls = concat (map (\<lambda>l. l @ newline) ls)"

text \<open>\<open>textwrap.indent(text, prefix)\<close> leaves blank lines alone.\<close>

definition indent :: "string \<Rightarrow> string \<Rightarrow> string" where
  "indent txt pre =
     concat (map (\<lambda>line. if list_all is_space line then line else pre @ line) (split_lines_from [] txt))"

subsection \<open>Regular expressions\<close>

datatype re = RLit string | RChr "char \<Rightarrow> bool" | RPlus "char \<Rightarrow> bool" | RStar "char \<Rightarrow> bool" | RMany "re list" | RCap "re list"

fun repeats :: "nat \<Rightarrow> (string \<Rightarrow> (string list \<times> string) list) \<Rightarrow> string \<Rightarrow> (string list \<times> string) list" where
  "repeats 0 f s = []"
| "repeats (Suc n) f s =
     concat (map (\<lambda>(caps, r). repeats n f r @ [(caps, r)]) (f s))"

text \<open>A repetition of a group that always consumes a character needs at most as many rounds as
  there are characters; its captures are those of its last round.\<close>

fun rmatch :: "re \<Rightarrow> string \<Rightarrow> (string list \<times> string) list"
  and rseq :: "re list \<Rightarrow> string \<Rightarrow> (string list \<times> string) list" where
  "rmatch (RLit l) s = (if prefix l s then [([], drop (length l) s)] else [])"
| "rmatch (RChr p) s = (case s of [] \<Rightarrow> [] | c # r \<Rightarrow> if p c then [([], r)] else [])"
| "rmatch (RStar p) s =
     map (\<lambda>k. ([], drop k s)) (rev [0..<Suc (length (takeWhile p s))])"
| "rmatch (RPlus p) s =
     map (\<lambda>k. ([], drop k s)) (rev [1..<Suc (length (takeWhile p s))])"
| "rmatch (RMany items) s = repeats (length s) (\<lambda>r. rseq items r) s"
| "rmatch (RCap items) s =
     map (\<lambda>(caps, r). (take (length s - length r) s # caps, r)) (rseq items s)"
| "rseq [] s = [([], s)]"
| "rseq (i # is) s =
     concat (map (\<lambda>(c, r). map (\<lambda>(c', r'). (c @ c', r')) (rseq is r)) (rmatch i s))"

text \<open>\<open>re.search\<close>: the captures of the leftmost match.\<close>

fun re_search :: "re list \<Rightarrow> string \<Rightarrow> string list option" where
  "re_search items [] = (case rseq items [] of [] \<Rightarrow> None | (caps, _) # _ \<Rightarrow> Some caps)"
| "re_search items (c # cs) =
     (case rseq items (c # cs) of
        [] \<Rightarrow> re_search items cs
      | (caps, _) # _ \<Rightarrow> Some caps)"

text \<open>\<open>re.sub\<close> for a pattern that never matches the empty text.\<close>

function re_sub :: "re list \<Rightarrow> string \<Rightarrow> string \<Rightarrow> string" where
  "re_sub items repl s =
     (case s of
        [] \<Rightarrow> []
      | c # cs \<Rightarrow>
          (case rseq items s of
             [] \<Rightarrow> c # re_sub items repl cs
           | (_, r) # _ \<Rightarrow>
               if length r < length s then repl @ re_sub items repl r
               else c # re_sub items repl cs))"
  by pat_completeness auto
termination
  by (relation "measure (\<lambda>(items, repl, s). length s)") auto

declare re_sub.simps [simp del]

subsection \<open>Facts about the matcher\<close>

lemma rseq_lit: "rseq (RLit l # is) (l @ s) = rseq is s"
  by (simp add: prefix_def case_prod_beta)

lemma rseq_lit_fail: "\<not> prefix l s \<Longrightarrow> rseq (RLit l # is) s = []"
  by simp

text \<open>A class that stops at the first character outside takes everything before it first.\<close>

lemma takeWhile_stop:
  "list_all p w \<Longrightarrow> s = [] \<or> \<not> p (hd s) \<Longrightarrow> takeWhile p (w @ s) = w"
  by (induction w) (auto simp: takeWhile_eq_Nil_iff)

lemma rseq_plus:
  assumes "list_all p w" and "w \<noteq> []" and "s = [] \<or> \<not> p (hd s)" and "rseq is s = m # ms"
  shows "\<exists>ms'. rseq (RPlus p # is) (w @ s) = m # ms'"
proof -
  have "rev [1..<Suc (length w)] = length w # rev [1..<length w]"
    using \<open>w \<noteq> []\<close> by (cases w) simp_all
  then show ?thesis
    using assms by (simp add: takeWhile_stop [OF assms(1,3)] case_prod_beta)
qed

lemma rseq_cap:
  assumes "rseq items (w @ s) = (caps, s) # ms" and "rseq is s = (caps', r) # ms'"
  shows "\<exists>ms''. rseq (RCap items # is) (w @ s) = (w # caps @ caps', r) # ms''"
  using assms by simp

lemma re_search_here: "rseq items s = (caps, r) # ms \<Longrightarrow> re_search items s = Some caps"
  by (cases s) simp_all

lemma re_search_skip:
  assumes "\<And>u v. pre = u @ v \<Longrightarrow> v \<noteq> [] \<Longrightarrow> rseq items (v @ s) = []"
  shows "re_search items (pre @ s) = re_search items s"
  using assms
proof (induction pre)
  case Nil
  then show ?case by simp
next
  case (Cons c cs)
  have "rseq items ((c # cs) @ s) = []" by (rule Cons.prems [of "[]"]) simp_all
  moreover have "re_search items (cs @ s) = re_search items s"
  proof (rule Cons.IH)
    fix u v
    assume "cs = u @ v" and "v \<noteq> []"
    then show "rseq items (v @ s) = []" using Cons.prems [of "c # u" v] by simp
  qed
  ultimately show ?case by (simp del: rseq.simps)
qed

lemma re_sub_no_match:
  assumes "\<And>u v. s = u @ v \<Longrightarrow> rseq items v = []"
  shows "re_sub items repl s = s"
  using assms
proof (induction s)
  case Nil
  then show ?case by (simp add: re_sub.simps)
next
  case (Cons c cs)
  have "rseq items (c # cs) = []" by (rule Cons.prems [of "[]"]) simp
  moreover have "re_sub items repl cs = cs"
  proof (rule Cons.IH)
    fix u v
    assume "cs = u @ v"
    then show "rseq items v = []" using Cons.prems [of "c # u" v] by simp
  qed
  ultimately show ?case by (simp add: re_sub.simps del: rseq.simps)
qed

subsection \<open>Printed numbers read back\<close>

lemma digit_val: "d < 10 \<Longrightarrow> of_char (''0123456789'' ! d) - 48 = (d :: nat)"
  by (auto simp: less_Suc_eq numeral_eq_Suc)

lemma digit_is_digit: "d < 10 \<Longrightarrow> is_digit (''0123456789'' ! d)"
  unfolding is_digit_def by (rule nth_mem) simp

lemma digits_val_append: "digits_val acc (xs @ ys) = digits_val (digits_val acc xs) ys"
  by (induction xs arbitrary: acc) auto

lemma digits_val_nat_str: "digits_val 0 (nat_str n) = n"
proof (induction n rule: nat_str.induct)
  case (1 n)
  show ?case
  proof (cases "n < 10")
    case True
    then show ?thesis by (subst nat_str.simps) (simp add: digit_val)
  next
    case False
    then show ?thesis using 1 by (subst nat_str.simps) (simp add: digits_val_append digit_val)
  qed
qed

lemma nat_str_digits: "list_all is_digit (nat_str n) \<and> nat_str n \<noteq> []"
proof (induction n rule: nat_str.induct)
  case (1 n)
  then show ?case by (subst nat_str.simps, subst nat_str.simps) (auto simp: digit_is_digit)
qed

lemma nat_str_inject: "nat_str m = nat_str n \<longleftrightarrow> m = n"
  using digits_val_nat_str by metis

end
