(* ===== verification/Tuner_Common.thy ===== *)
theory Tuner_Common
  imports Py_Text
begin

section \<open>Problem sizes and configurations of the tuner\<close>

text \<open>
  Model of \<open>tuner/common.py\<close>. MLIR element types and MMA intrinsics belong to the IREE compiler:
  they are the type variables \<open>'e\<close> and \<open>'i\<close>, and what the tuner asks of them is the record \<open>iree\<close>.
  \<open>iree_isa x y\<close> is \<open>isinstance(x, type(y))\<close>, \<open>iree_abc\<close> and \<open>iree_mnk\<close> are the properties
  \<open>abc_element_types\<close> and \<open>mnk_shape\<close> of the attribute of an intrinsic (which stands for the
  attribute too) and \<open>iree_intrinsics\<close> is the iteration order of the enum \<open>iree_gpu.MMAIntrinsic\<close>.
\<close>

record ('e, 'i) iree =
  iree_width :: "'e \<Rightarrow> int"
  iree_isa :: "'e \<Rightarrow> 'e \<Rightarrow> bool"
  iree_type_str :: "'e \<Rightarrow> string"
  iree_abc :: "'i \<Rightarrow> 'e \<times> 'e \<times> 'e"
  iree_mnk :: "'i \<Rightarrow> int \<times> int \<times> int"
  iree_intrinsics :: "'i list"
  iree_mma_str :: "'i \<Rightarrow> string"

subsection \<open>Shapes\<close>

datatype dispatch_kind = KConv | KMmt | KContraction | KBatchMmt | KBatchMatmul | KBroadcastRhsMmt

record 'e shaped_type =
  sh_shape :: "int list"
  sh_element_type :: 'e

definition shaped_rank :: "'e shaped_type \<Rightarrow> nat" where
  "shaped_rank t = length (sh_shape t)"

definition shaped_bitwidth :: "('e, 'i) iree \<Rightarrow> 'e shaped_type \<Rightarrow> int" where
  "shaped_bitwidth ir t = iree_width ir (sh_element_type t)"

definition shaped_str :: "('e, 'i) iree \<Rightarrow> 'e shaped_type \<Rightarrow> string" where
  "shaped_str ir t =
     str_join ''x'' (map (\<lambda>dim. if dim \<noteq> -1 then str_int dim else ''?'') (sh_shape t)) @
     ''x'' @ iree_type_str ir (sh_element_type t)"

record matmul_size =
  ms_M :: int
  ms_N :: int
  ms_K :: int
  ms_B :: int

record contraction_dimensions =
  cd_batch :: "int list"
  cd_m :: "int list"
  cd_n :: "int list"
  cd_k :: "int list"

record 'e problem_size =
  ps_matmul_size :: matmul_size
  ps_lhs_type :: "'e shaped_type"
  ps_rhs_type :: "'e shaped_type"
  ps_res_type :: "'e shaped_type"
  ps_dispatch_kind :: dispatch_kind

definition ps_MNK :: "'e problem_size \<Rightarrow> int \<times> int \<times> int" where
  "ps_MNK p = (ms_M (ps_matmul_size p), ms_N (ps_matmul_size p), ms_K (ps_matmul_size p))"

record conv_dim_info =
  cv_n :: int
  cv_oh :: int
  cv_ow :: int
  cv_oc :: int
  cv_fh :: int
  cv_fw :: int
  cv_ic :: int

text \<open>Unpacking a shape into four names raises unless it has four dimensions.\<close>

definition from_rhs_res :: "'e shaped_type \<Rightarrow> 'e shaped_type \<Rightarrow> conv_dim_info res" where
  "from_rhs_res rhs_shaped_type res_shaped_type =
     (case sh_shape res_shaped_type of
        [n, oh, ow, oc] \<Rightarrow>
          (case sh_shape rhs_shaped_type of
             [fh, fw, ic, _] \<Rightarrow>
               Inr \<lparr>cv_n = n, cv_oh = oh, cv_ow = ow, cv_oc = oc, cv_fh = fh, cv_fw = fw, cv_ic = ic\<rparr>
           | _ \<Rightarrow> Inl ValueError)
      | _ \<Rightarrow> Inl ValueError)"

definition from_problem_size :: "'e problem_size \<Rightarrow> conv_dim_info res" where
  "from_problem_size p = from_rhs_res (ps_rhs_type p) (ps_res_type p)"

lemma from_rhs_res_Inr:
  "from_rhs_res r q = Inr d \<longleftrightarrow>
     (\<exists>f. sh_shape q = [cv_n d, cv_oh d, cv_ow d, cv_oc d] \<and> sh_shape r = [cv_fh d, cv_fw d, cv_ic d, f])"
  by (cases d) (auto simp: from_rhs_res_def split: list.splits)

subsection \<open>Compatible intrinsics\<close>

definition is_comptible :: "('e, 'i) iree \<Rightarrow> 'e problem_size \<Rightarrow> 'i \<Rightarrow> bool" where
  "is_comptible ir p mma =
     (let (a_type, b_type, c_type) = iree_abc ir mma in
      if \<not> iree_isa ir (sh_element_type (ps_res_type p)) c_type then False
      else if ps_dispatch_kind p \<noteq> KBatchMatmul \<and>
              (\<not> iree_isa ir (sh_element_type (ps_lhs_type p)) a_type \<or>
               \<not> iree_isa ir (sh_element_type (ps_rhs_type p)) b_type) then False
      else True)"

definition get_compatible_mfma_intrinsics :: "('e, 'i) iree \<Rightarrow> 'e problem_size \<Rightarrow> 'i list \<Rightarrow> 'i list" where
  "get_compatible_mfma_intrinsics ir p mma_intrinsics = filter (is_comptible ir p) mma_intrinsics"

subsection \<open>Configuration attributes\<close>

text \<open>
  \<open>AttrI64\<close> and \<open>AttrArray\<close> are the integer and array attributes. A keyword argument of
  \<open>get_lowering_config\<close> has one of the Python types below. \<open>tuner_ctx.type.i64\<close> is an instance and
  not a class, so asking \<open>isinstance(value, tuner_ctx.type.i64)\<close> raises a TypeError.
\<close>

datatype 'i attr = AttrI64 int | AttrArray "int list" | AttrMma 'i

datatype 'i kwarg = KwList "int list" | KwInt int | KwArrayAttr "int list" | KwMma 'i | KwOther

definition promoted_value :: "string \<Rightarrow> 'i kwarg \<Rightarrow> 'i attr res" where
  "promoted_value key v =
     (if key = ''workgroup'' \<or> key = ''reduction'' then
        (case v of KwList xs \<Rightarrow> Inr (AttrArray xs) | KwArrayAttr xs \<Rightarrow> Inr (AttrArray xs)
         | _ \<Rightarrow> Inl AssertionError)
      else if key = ''subgroup_m_count'' \<or> key = ''subgroup_n_count'' then
        (case v of KwInt i \<Rightarrow> Inr (AttrI64 i) | _ \<Rightarrow> Inl TypeError)
      else if key = ''mma_kind'' then
        (case v of KwMma m \<Rightarrow> Inr (AttrMma m) | _ \<Rightarrow> Inl AssertionError)
      else Inl AssertionError)"

definition get_lowering_config :: "(string \<times> 'i kwarg) list \<Rightarrow> (string \<times> 'i attr) list res" where
  "get_lowering_config kwargs =
     res_map (\<lambda>(key, v). res_bind (promoted_value key v) (\<lambda>a. Inr (key, a))) kwargs"

text \<open>The configuration dictionary of the translation info: the printed pipeline options and the
  waves per EU as a string attribute.\<close>

definition gpu_pipeline_options_key :: string where
  "gpu_pipeline_options_key = ''gpu_pipeline_options''"

definition llvm_func_attrs_key :: string where
  "llvm_func_attrs_key = ''llvm_func_attrs''"

definition waves_per_eu_key :: string where
  "waves_per_eu_key = ''amdgpu-waves-per-eu''"

datatype config_attr = CfgText string | CfgDict "(string \<times> string) list"

definition get_translation_info_config :: "string \<Rightarrow> int \<Rightarrow> (string \<times> config_attr) list" where
  "get_translation_info_config pipeline_options waves_per_eu =
     [(gpu_pipeline_options_key, CfgText pipeline_options),
      (llvm_func_attrs_key, CfgDict [(waves_per_eu_key, str_int waves_per_eu)])]"

record 'i compilation_info =
  ci_lowering_config :: "(string \<times> 'i attr) list"
  ci_workgroup_size :: "int list"
  ci_subgroup_size :: int
  ci_configuration :: "(string \<times> config_attr) list"

text \<open>The properties of \<open>LoweringConfigAttr\<close> read the dictionary.\<close>

definition workgroup_tile_sizes :: "'i compilation_info \<Rightarrow> int list" where
  "workgroup_tile_sizes ci =
     (case map_of (ci_lowering_config ci) ''workgroup'' of Some (AttrArray xs) \<Rightarrow> xs | _ \<Rightarrow> [])"

definition reduction_tile_sizes :: "'i compilation_info \<Rightarrow> int list" where
  "reduction_tile_sizes ci =
     (case map_of (ci_lowering_config ci) ''reduction'' of Some (AttrArray xs) \<Rightarrow> xs | _ \<Rightarrow> [])"

definition subgroup_count_mn :: "'i compilation_info \<Rightarrow> (int \<times> int) option" where
  "subgroup_count_mn ci =
     (case (map_of (ci_lowering_config ci) ''subgroup_m_count'', map_of (ci_lowering_config ci) ''subgroup_n_count'') of
        (Some (AttrI64 m), Some (AttrI64 n)) \<Rightarrow> Some (m, n) | _ \<Rightarrow> None)"

definition mma_kind :: "'i compilation_info \<Rightarrow> 'i option" where
  "mma_kind ci =
     (case map_of (ci_lowering_config ci) ''mma_kind'' of Some (AttrMma m) \<Rightarrow> Some m | _ \<Rightarrow> None)"

text \<open>\<open>MLIRTransformation\<close>\<close>

record mlir_transformation =
  mt_template :: "string list"
  mt_modified :: string
  mt_embeddable :: string

end
