(* ===== verification/Tuner_Constraints.thy ===== *)
theory Tuner_Constraints
  imports Tuner_Common
begin

section \<open>The constraint system of the tuner\<close>

text \<open>
  Model of \<open>tuner/dispatch_constraints.py\<close>. A constraint is a predicate on the sixteen integer
  variables the code declares, a solver state is the list of the constraints added so far. Z3 is
  not under \<open>src/\<close>: \<open>solve\<close> is \<open>check\<close> followed by \<open>model\<close>, \<open>None\<close> when \<open>check\<close> does not answer
  \<open>sat\<close>. \<open>generate_solutions\<close> is a generator; \<open>solutions n\<close> is what a consumer sees of it in \<open>n\<close>
  calls of \<open>next\<close>: the configurations, and how the last call ended.
\<close>

record z3_model =
  zm_m :: int
  zm_n :: int
  zm_k :: int
  zm_subgroup_size :: int
  zm_intrinsic_mn :: int
  zm_intrinsic_k :: int
  zm_wg_x :: int
  zm_wg_y :: int
  zm_wg_z :: int
  zm_sg_m_cnt :: int
  zm_sg_n_cnt :: int
  zm_waves_per_eu :: int
  zm_wg_threads :: int
  zm_sg_m_tcnt :: int
  zm_sg_n_tcnt :: int
  zm_sg_k_tcnt :: int

type_synonym z3_constraint = "z3_model \<Rightarrow> bool"

subsection \<open>Constraints\<close>

definition get_mfma_intrinsic_constraints ::
  "('e, 'i) iree \<Rightarrow> 'e problem_size \<Rightarrow> (z3_model \<Rightarrow> int) \<Rightarrow> (z3_model \<Rightarrow> int) \<Rightarrow> (z3_model \<Rightarrow> int) \<Rightarrow>
   'i list \<Rightarrow> z3_constraint res" where
  "get_mfma_intrinsic_constraints ir p intrinsic_m intrinsic_n intrinsic_k mma_intrinsics =
     (let compatible_intrinsics = get_compatible_mfma_intrinsics ir p mma_intrinsics;
          mnk_shapes = map (iree_mnk ir) compatible_intrinsics
      in if compatible_intrinsics = [] then Inl AssertionError
         else Inr (\<lambda>v. list_ex (\<lambda>(m, n, k).
                intrinsic_m v = m \<and> intrinsic_n v = n \<and> intrinsic_k v = k) mnk_shapes))"

definition get_dispatch_constraints ::
  "'e problem_size \<Rightarrow> (z3_model \<Rightarrow> int) \<Rightarrow> (z3_model \<Rightarrow> int) \<Rightarrow> (z3_model \<Rightarrow> int) \<Rightarrow> z3_constraint list res" where
  "get_dispatch_constraints p tile_m tile_n tile_k =
     (if ps_dispatch_kind p \<noteq> KConv then Inr []
      else res_bind (from_problem_size p) (\<lambda>dim_info. Inr
        [\<lambda>v. tile_m v \<le> cv_ow dim_info, \<lambda>v. tile_n v \<le> cv_oc dim_info, \<lambda>v. tile_k v \<le> cv_ic dim_info]))"

definition calculate_shared_memory_usage_in_bytes ::
  "('e, 'i) iree \<Rightarrow> 'e problem_size \<Rightarrow> int \<Rightarrow> int \<Rightarrow> int \<Rightarrow> int" where
  "calculate_shared_memory_usage_in_bytes ir p m n k =
     (let lhs_memory = m * k * (shaped_bitwidth ir (ps_lhs_type p) div 8);
          rhs_memory = k * n * (shaped_bitwidth ir (ps_rhs_type p) div 8)
      in lhs_memory + rhs_memory)"

definition subgroup_constraints :: "int \<Rightarrow> z3_constraint list" where
  "subgroup_constraints num_subgroups =
     (let subgroups = (\<lambda>v. zm_sg_m_cnt v * zm_sg_n_cnt v)
      in if num_subgroups > 0 then [\<lambda>v. subgroups v = num_subgroups]
         else [\<lambda>v. subgroups v \<ge> 1, \<lambda>v. subgroups v \<le> 10])"

definition tile_constraints :: "int \<times> int \<times> int \<Rightarrow> z3_constraint list" where
  "tile_constraints MNK =
     (let (M, N, K) = MNK; subgroup_k_count = 1 in
      [\<lambda>v. zm_m v \<ge> zm_intrinsic_mn v, \<lambda>v. zm_m v \<le> 512, \<lambda>v. zm_m v \<le> M,
       \<lambda>v. zm_n v \<ge> zm_intrinsic_mn v, \<lambda>v. zm_n v \<le> 512, \<lambda>v. zm_n v \<le> N, \<lambda>v. N mod zm_n v = 0,
       \<lambda>v. zm_k v \<ge> zm_intrinsic_k v, \<lambda>v. zm_k v \<le> 512, \<lambda>v. zm_k v \<le> K, \<lambda>v. K mod zm_k v = 0] @
      concat (map (\<lambda>x. [\<lambda>v. x v \<ge> 1, \<lambda>v. x v \<le> 32])
        [zm_sg_m_cnt, zm_sg_n_cnt, zm_sg_m_tcnt, zm_sg_n_tcnt, zm_sg_k_tcnt]) @
      [\<lambda>v. zm_m v = zm_sg_m_cnt v * zm_sg_m_tcnt v * zm_intrinsic_mn v,
       \<lambda>v. zm_n v = zm_sg_n_cnt v * zm_sg_n_tcnt v * zm_intrinsic_mn v,
       \<lambda>v. zm_k v = subgroup_k_count * zm_sg_k_tcnt v * zm_intrinsic_k v,
       \<lambda>v. zm_wg_x v = zm_subgroup_size v * zm_sg_n_cnt v,
       \<lambda>v. zm_wg_y v = zm_sg_m_cnt v,
       \<lambda>v. zm_wg_z v = subgroup_k_count,
       \<lambda>v. zm_wg_x v \<le> zm_n v \<or> zm_wg_x v \<le> zm_m v,
       \<lambda>v. zm_k v mod zm_intrinsic_mn v = 0,
       \<lambda>v. (zm_k v * zm_n v) mod zm_wg_threads v = 0,
       \<lambda>v. (zm_k v * zm_m v) mod zm_wg_threads v = 0])"

definition generate_constraints ::
  "('e, 'i) iree \<Rightarrow> 'e problem_size \<Rightarrow> int \<Rightarrow> 'i list \<Rightarrow> z3_constraint list res" where
  "generate_constraints ir p num_subgroups mma_intrinsics =
     res_bind (get_mfma_intrinsic_constraints ir p zm_intrinsic_mn zm_intrinsic_mn zm_intrinsic_k mma_intrinsics)
       (\<lambda>mfma. res_bind (get_dispatch_constraints p zm_m zm_n zm_k) (\<lambda>dispatch. Inr (
         [\<lambda>v. zm_wg_threads v = zm_wg_x v * zm_wg_y v * zm_wg_z v,
          \<lambda>v. zm_subgroup_size v = 64, \<lambda>v. zm_wg_threads v \<le> 1024, mfma] @
         tile_constraints (ps_MNK p) @ subgroup_constraints num_subgroups @
         [\<lambda>v. zm_waves_per_eu v = 2,
          \<lambda>v. calculate_shared_memory_usage_in_bytes ir p (zm_m v) (zm_n v) (zm_k v) \<le> 65536] @
         dispatch)))"

definition satisfies :: "z3_constraint list \<Rightarrow> z3_model \<Rightarrow> bool" where
  "satisfies cs v = list_all (\<lambda>c. c v) cs"

lemma satisfies_simps [simp]:
  "satisfies [] v" "satisfies (c # cs) v \<longleftrightarrow> c v \<and> satisfies cs v"
  "satisfies (cs @ ds) v \<longleftrightarrow> satisfies cs v \<and> satisfies ds v"
  by (auto simp: satisfies_def)

subsection \<open>From a model to a configuration\<close>

fun find_mma :: "('e, 'i) iree \<Rightarrow> 'e \<Rightarrow> int \<Rightarrow> int \<Rightarrow> int \<Rightarrow> 'e \<Rightarrow> 'e \<Rightarrow> 'i list \<Rightarrow> 'i res" where
  "find_mma ir output_type m n k lhs_type rhs_type [] = Inl ValueError"
| "find_mma ir output_type m n k lhs_type rhs_type (mma # rest) =
     (let (a_type, b_type, c_type) = iree_abc ir mma; mnk = iree_mnk ir mma in
      if iree_isa ir a_type lhs_type \<and> iree_isa ir b_type rhs_type \<and> iree_isa ir c_type output_type \<and>
         m = fst mnk \<and> n = fst (snd mnk) \<and> k = snd (snd mnk)
      then Inr mma
      else find_mma ir output_type m n k lhs_type rhs_type rest)"

definition getMMAAttr :: "('e, 'i) iree \<Rightarrow> 'e \<Rightarrow> int \<Rightarrow> int \<Rightarrow> int \<Rightarrow> 'e \<Rightarrow> 'e \<Rightarrow> 'i res" where
  "getMMAAttr ir output_type m n k lhs_type rhs_type =
     find_mma ir output_type m n k lhs_type rhs_type (iree_intrinsics ir)"

text \<open>\<open>all_vars\<close>: what a found assignment is blocked on.\<close>

definition all_vars :: "z3_model \<Rightarrow> int list" where
  "all_vars v = [zm_m v, zm_n v, zm_k v, zm_subgroup_size v, zm_intrinsic_mn v, zm_intrinsic_k v,
     zm_wg_x v, zm_wg_y v, zm_wg_z v, zm_sg_m_cnt v, zm_sg_n_cnt v, zm_waves_per_eu v]"

definition solution_of ::
  "('e, 'i) iree \<Rightarrow> string \<Rightarrow> 'e problem_size \<Rightarrow> z3_model \<Rightarrow> 'i compilation_info res" where
  "solution_of ir pipeline_options p v =
     res_bind (getMMAAttr ir (sh_element_type (ps_res_type p)) (zm_intrinsic_mn v) (zm_intrinsic_mn v)
                (zm_intrinsic_k v) (sh_element_type (ps_lhs_type p)) (sh_element_type (ps_rhs_type p)))
       (\<lambda>mma_attr. res_bind (get_lowering_config
           [(''mma_kind'', KwMma mma_attr), (''workgroup'', KwList [zm_m v, zm_n v, 0]),
            (''reduction'', KwList [0, 0, zm_k v]), (''subgroup_m_count'', KwInt (zm_sg_m_cnt v)),
            (''subgroup_n_count'', KwInt (zm_sg_n_cnt v))])
         (\<lambda>lowering_config. Inr \<lparr>ci_lowering_config = lowering_config,
            ci_workgroup_size = [zm_wg_x v, zm_wg_y v, zm_wg_z v], ci_subgroup_size = zm_subgroup_size v,
            ci_configuration = get_translation_info_config pipeline_options (zm_waves_per_eu v)\<rparr>))"

definition block_model :: "z3_model \<Rightarrow> z3_constraint" where
  "block_model v = (\<lambda>x. all_vars x \<noteq> all_vars v)"

datatype gen_end = Exhausted | Raised py_error | Suspended

fun solution_loop ::
  "('e, 'i) iree \<Rightarrow> string \<Rightarrow> 'e problem_size \<Rightarrow> (z3_constraint list \<Rightarrow> z3_model option) \<Rightarrow> nat \<Rightarrow>
   z3_constraint list \<Rightarrow> 'i compilation_info list \<times> gen_end" where
  "solution_loop ir opts p solve 0 solver = ([], Suspended)"
| "solution_loop ir opts p solve (Suc n) solver =
     (case solve solver of
        None \<Rightarrow> ([], Exhausted)
      | Some model \<Rightarrow>
          (case solution_of ir opts p model of
             Inl e \<Rightarrow> ([], Raised e)
           | Inr ci \<Rightarrow>
               (let (cis, how) = solution_loop ir opts p solve n (solver @ [block_model model])
                in (ci # cis, how))))"

definition generate_solutions ::
  "('e, 'i) iree \<Rightarrow> string \<Rightarrow> (z3_constraint list \<Rightarrow> z3_model option) \<Rightarrow> 'e problem_size \<Rightarrow> int \<Rightarrow> 'i list \<Rightarrow>
   nat \<Rightarrow> 'i compilation_info list \<times> gen_end" where
  "generate_solutions ir opts solve p num_subgroups mma_intrinsics n =
     (if n = 0 then ([], Suspended)
      else case generate_constraints ir p num_subgroups mma_intrinsics of
             Inl e \<Rightarrow> ([], Raised e)
           | Inr constraints \<Rightarrow> solution_loop ir opts p solve n constraints)"

subsection \<open>What a model of the constraints satisfies\<close>

definition sound_solver :: "(z3_constraint list \<Rightarrow> z3_model option) \<Rightarrow> bool" where
  "sound_solver solve \<longleftrightarrow> (\<forall>cs v. solve cs = Some v \<longrightarrow> satisfies cs v)"

definition complete_solver :: "(z3_constraint list \<Rightarrow> z3_model option) \<Rightarrow> bool" where
  "complete_solver solve \<longleftrightarrow> (\<forall>cs. solve cs = None \<longrightarrow> (\<forall>v. \<not> satisfies cs v))"

text \<open>
  The configuration a consumer gets, in the terms of the hardware and the problem. \<open>getMMAAttr\<close> searches
  the whole enumeration of intrinsics: the target (\<open>mmas\<close>) has a compatible intrinsic of the
  configuration's shape, but the one named in the configuration need not be of the target.
\<close>

definition config_ok ::
  "('e, 'i) iree \<Rightarrow> 'e problem_size \<Rightarrow> int \<Rightarrow> 'i list \<Rightarrow> 'i compilation_info \<Rightarrow> bool" where
  "config_ok ir p num_subgroups mmas ci \<longleftrightarrow>
     (\<exists>m n k mma i j sm sn tm tn tk.
        workgroup_tile_sizes ci = [m, n, 0] \<and> reduction_tile_sizes ci = [0, 0, k] \<and>
        mma_kind ci = Some mma \<and> mma \<in> set (iree_intrinsics ir) \<and> iree_mnk ir mma = (i, i, j) \<and>
        iree_isa ir (fst (iree_abc ir mma)) (sh_element_type (ps_lhs_type p)) \<and>
        iree_isa ir (fst (snd (iree_abc ir mma))) (sh_element_type (ps_rhs_type p)) \<and>
        iree_isa ir (snd (snd (iree_abc ir mma))) (sh_element_type (ps_res_type p)) \<and>
        (\<exists>own \<in> set (get_compatible_mfma_intrinsics ir p mmas). iree_mnk ir own = (i, i, j)) \<and>
        subgroup_count_mn ci = Some (sm, sn) \<and>
        m = sm * tm * i \<and> n = sn * tn * i \<and> k = tk * j \<and>
        {sm, sn, tm, tn, tk} \<subseteq> {1..32} \<and>
        m \<le> min 512 (ms_M (ps_matmul_size p)) \<and> n \<le> 512 \<and> k \<le> 512 \<and>
        n dvd ms_N (ps_matmul_size p) \<and> k dvd ms_K (ps_matmul_size p) \<and>
        ci_workgroup_size ci = [64 * sn, sm, 1] \<and> ci_subgroup_size ci = 64 \<and> 64 * sn * sm \<le> 1024 \<and>
        (64 * sn * sm) dvd (k * n) \<and> (64 * sn * sm) dvd (k * m) \<and>
        (if num_subgroups > 0 then sm * sn = num_subgroups else sm * sn \<le> 10) \<and>
        calculate_shared_memory_usage_in_bytes ir p m n k \<le> 65536)"

lemma find_mma_Inr:
  "find_mma ir t m n k l r ms = Inr mma \<Longrightarrow> mma \<in> set ms \<and> iree_mnk ir mma = (m, n, k) \<and>
   iree_isa ir (fst (iree_abc ir mma)) l \<and> iree_isa ir (fst (snd (iree_abc ir mma))) r \<and>
   iree_isa ir (snd (snd (iree_abc ir mma))) t"
  by (induction ms) (auto split: if_splits prod.splits simp: Let_def prod_eq_iff)

lemma solution_of_Inr:
  "solution_of ir opts p v = Inr ci \<longleftrightarrow>
     (\<exists>mma. getMMAAttr ir (sh_element_type (ps_res_type p)) (zm_intrinsic_mn v) (zm_intrinsic_mn v)
          (zm_intrinsic_k v) (sh_element_type (ps_lhs_type p)) (sh_element_type (ps_rhs_type p)) = Inr mma \<and>
        ci = \<lparr>ci_lowering_config = [(''mma_kind'', AttrMma mma), (''workgroup'', AttrArray [zm_m v, zm_n v, 0]),
               (''reduction'', AttrArray [0, 0, zm_k v]), (''subgroup_m_count'', AttrI64 (zm_sg_m_cnt v)),
               (''subgroup_n_count'', AttrI64 (zm_sg_n_cnt v))],
            ci_workgroup_size = [zm_wg_x v, zm_wg_y v, zm_wg_z v], ci_subgroup_size = zm_subgroup_size v,
            ci_configuration = get_translation_info_config opts (zm_waves_per_eu v)\<rparr>)"
  by (auto simp: solution_of_def get_lowering_config_def promoted_value_def res_bind_Inr)

lemmas constraint_defs =
  get_mfma_intrinsic_constraints_def get_dispatch_constraints_def tile_constraints_def
  subgroup_constraints_def ps_MNK_def

lemma generate_constraints_tiles:
  assumes "generate_constraints ir p ns mmas = Inr cs" and "satisfies cs v"
  shows "satisfies (tile_constraints (ps_MNK p)) v" "satisfies (subgroup_constraints ns) v"
    "zm_wg_threads v = zm_wg_x v * zm_wg_y v * zm_wg_z v" "zm_subgroup_size v = 64"
    "zm_wg_threads v \<le> 1024" "zm_waves_per_eu v = 2"
    "calculate_shared_memory_usage_in_bytes ir p (zm_m v) (zm_n v) (zm_k v) \<le> 65536"
    "\<exists>mma \<in> set mmas. iree_mnk ir mma = (zm_intrinsic_mn v, zm_intrinsic_mn v, zm_intrinsic_k v)"
    "\<exists>mma \<in> set (get_compatible_mfma_intrinsics ir p mmas).
       iree_mnk ir mma = (zm_intrinsic_mn v, zm_intrinsic_mn v, zm_intrinsic_k v)"
  using assms
  by (auto simp: generate_constraints_def res_bind_Inr get_mfma_intrinsic_constraints_def
      get_compatible_mfma_intrinsics_def Let_def list_ex_iff split: if_splits)

lemma model_config_ok:
  assumes "generate_constraints ir p ns mmas = Inr cs" and "satisfies cs v"
    and "solution_of ir opts p v = Inr ci"
  shows "config_ok ir p ns mmas ci"
proof -
  note sat = generate_constraints_tiles [OF assms(1,2)]
  from assms(3) obtain mma where
    mma: "getMMAAttr ir (sh_element_type (ps_res_type p)) (zm_intrinsic_mn v) (zm_intrinsic_mn v)
          (zm_intrinsic_k v) (sh_element_type (ps_lhs_type p)) (sh_element_type (ps_rhs_type p)) = Inr mma"
    and ci: "ci = \<lparr>ci_lowering_config = [(''mma_kind'', AttrMma mma), (''workgroup'', AttrArray [zm_m v, zm_n v, 0]),
               (''reduction'', AttrArray [0, 0, zm_k v]), (''subgroup_m_count'', AttrI64 (zm_sg_m_cnt v)),
               (''subgroup_n_count'', AttrI64 (zm_sg_n_cnt v))],
            ci_workgroup_size = [zm_wg_x v, zm_wg_y v, zm_wg_z v], ci_subgroup_size = zm_subgroup_size v,
            ci_configuration = get_translation_info_config opts (zm_waves_per_eu v)\<rparr>"
    unfolding solution_of_Inr by blast
  have shape: "iree_mnk ir mma = (zm_intrinsic_mn v, zm_intrinsic_mn v, zm_intrinsic_k v)"
    using find_mma_Inr [OF mma [unfolded getMMAAttr_def]] by simp
  note types = find_mma_Inr [OF mma [unfolded getMMAAttr_def]]
  have attrs: "workgroup_tile_sizes ci = [zm_m v, zm_n v, 0]" "reduction_tile_sizes ci = [0, 0, zm_k v]"
    "mma_kind ci = Some mma" "subgroup_count_mn ci = Some (zm_sg_m_cnt v, zm_sg_n_cnt v)"
    "ci_workgroup_size ci = [zm_wg_x v, zm_wg_y v, zm_wg_z v]" "ci_subgroup_size ci = zm_subgroup_size v"
    unfolding ci by (simp_all add: workgroup_tile_sizes_def reduction_tile_sizes_def mma_kind_def
        subgroup_count_mn_def)
  show ?thesis
    unfolding config_ok_def
    apply (rule exI [of _ "zm_m v"], rule exI [of _ "zm_n v"], rule exI [of _ "zm_k v"],
        rule exI [of _ mma], rule exI [of _ "zm_intrinsic_mn v"], rule exI [of _ "zm_intrinsic_k v"],
        rule exI [of _ "zm_sg_m_cnt v"], rule exI [of _ "zm_sg_n_cnt v"],
        rule exI [of _ "zm_sg_m_tcnt v"], rule exI [of _ "zm_sg_n_tcnt v"],
        rule exI [of _ "zm_sg_k_tcnt v"])
    using sat types
    by (simp add: attrs shape tile_constraints_def subgroup_constraints_def ps_MNK_def mod_eq_0_iff_dvd
        split: if_splits)
qed

end
