(* ===== verification/Tuner_Solutions.thy ===== *)
theory Tuner_Solutions
  imports Tuner_Constraints
begin

section \<open>What the candidate generator enumerates\<close>

text \<open>
  Facts about \<open>generate_solutions\<close>: the configurations come from models of the constraints, no two
  are equal, there are boundedly many, so that the generator ends, and with a complete solver it
  leaves none out.
\<close>

subsection \<open>Models behind the configurations\<close>

lemma solution_loop_models:
  assumes "sound_solver solve" and "solution_loop ir opts p solve n cs = (cis, how)"
  shows "\<exists>vs. list_all2 (\<lambda>v ci. satisfies cs v \<and> solution_of ir opts p v = Inr ci) vs cis \<and>
    distinct (map all_vars vs)"
  using assms(2)
proof (induction n arbitrary: cs cis how)
  case 0
  then show ?case by auto
next
  case (Suc n)
  show ?case
  proof (cases "solve cs")
    case None
    with Suc.prems show ?thesis by auto
  next
    case (Some v)
    then have sat: "satisfies cs v" using assms(1) by (auto simp: sound_solver_def)
    show ?thesis
    proof (cases "solution_of ir opts p v")
      case (Inl e)
      with Some Suc.prems show ?thesis by auto
    next
      case (Inr ci)
      obtain cis' how' where rec: "solution_loop ir opts p solve n (cs @ [block_model v]) = (cis', how')"
        by (rule prod.exhaust)
      from Suc.IH [OF this] obtain vs where
        vs: "list_all2 (\<lambda>x ci. satisfies (cs @ [block_model v]) x \<and> solution_of ir opts p x = Inr ci) vs cis'"
        and dist: "distinct (map all_vars vs)" by blast
      have "all_vars v \<notin> set (map all_vars vs)"
        using vs by (fastforce simp: block_model_def list_all2_conv_all_nth in_set_conv_nth)
      moreover have "list_all2 (\<lambda>x ci. satisfies cs x \<and> solution_of ir opts p x = Inr ci) vs cis'"
        using vs by (rule list_all2_mono) simp
      moreover have "cis = ci # cis'" using Suc.prems Some Inr rec by simp
      ultimately show ?thesis using sat Inr dist by (intro exI [of _ "v # vs"]) simp
    qed
  qed
qed

lemma solution_of_cong: "all_vars v = all_vars w \<Longrightarrow> solution_of ir opts p v = solution_of ir opts p w"
  by (simp add: solution_of_def all_vars_def)

lemma solution_of_shape:
  assumes "solution_of ir opts p v = Inr ci"
  shows "\<exists>mma. mma_kind ci = Some mma \<and>
    iree_mnk ir mma = (zm_intrinsic_mn v, zm_intrinsic_mn v, zm_intrinsic_k v)"
  using assms find_mma_Inr unfolding solution_of_Inr getMMAAttr_def
  by (fastforce simp: mma_kind_def)

lemma solution_of_inj:
  assumes "solution_of ir opts p v = Inr ci" and "solution_of ir opts p w = Inr ci"
    and "zm_waves_per_eu v = zm_waves_per_eu w"
  shows "all_vars v = all_vars w"
proof -
  from solution_of_shape [OF assms(1)] solution_of_shape [OF assms(2)]
  have "zm_intrinsic_mn v = zm_intrinsic_mn w" "zm_intrinsic_k v = zm_intrinsic_k w" by auto
  moreover have "zm_m v = zm_m w" "zm_n v = zm_n w" "zm_k v = zm_k w" "zm_sg_m_cnt v = zm_sg_m_cnt w"
    "zm_sg_n_cnt v = zm_sg_n_cnt w" "zm_wg_x v = zm_wg_x w" "zm_wg_y v = zm_wg_y w" "zm_wg_z v = zm_wg_z w"
    "zm_subgroup_size v = zm_subgroup_size w"
    using assms(1,2) unfolding solution_of_Inr by auto
  ultimately show ?thesis using assms(3) by (simp add: all_vars_def)
qed

lemma solution_loop_distinct:
  assumes "sound_solver solve" and "generate_constraints ir p ns mmas = Inr cs"
    and "solution_loop ir opts p solve n cs = (cis, how)"
  shows "distinct cis"
proof -
  from solution_loop_models [OF assms(1,3)] obtain vs where
    vs: "list_all2 (\<lambda>v ci. satisfies cs v \<and> solution_of ir opts p v = Inr ci) vs cis"
    and dist: "distinct (map all_vars vs)" by blast
  show ?thesis
    unfolding distinct_conv_nth
  proof (intro allI impI notI)
    fix i j
    assume ij: "i < length cis" "j < length cis" "i \<noteq> j" "cis ! i = cis ! j"
    then have len: "i < length vs" "j < length vs" using vs by (auto simp: list_all2_lengthD)
    have "all_vars (vs ! i) = all_vars (vs ! j)"
      using list_all2_nthD [OF vs len(1)] list_all2_nthD [OF vs len(2)] ij(4)
      by (intro solution_of_inj) (auto simp: generate_constraints_tiles(6) [OF assms(2)])
    with dist len ij(3) show False by (auto simp: distinct_conv_nth)
  qed
qed

subsection \<open>There are finitely many\<close>

definition vars_of :: "int \<times> int \<Rightarrow> int \<times> int \<times> int \<times> int \<times> int \<Rightarrow> int list" where
  "vars_of = (\<lambda>(i, j) (sm, sn, tm, tn, tk).
     [sm * tm * i, sn * tn * i, tk * j, 64, i, j, 64 * sn, sm, 1, sm, sn, 2])"

definition search_bound :: "'i list \<Rightarrow> nat" where
  "search_bound mma_intrinsics = length mma_intrinsics * 32 ^ 5"

lemma model_vars:
  assumes "generate_constraints ir p ns mmas = Inr cs" and "satisfies cs v"
  shows "all_vars v \<in> (\<lambda>(mma, t). vars_of (fst (iree_mnk ir mma), snd (snd (iree_mnk ir mma))) t) `
    (set mmas \<times> {1..32} \<times> {1..32} \<times> {1..32} \<times> {1..32} \<times> {1..32})"
proof -
  note sat = generate_constraints_tiles [OF assms]
  from sat(8) obtain mma where mma: "mma \<in> set mmas"
    "iree_mnk ir mma = (zm_intrinsic_mn v, zm_intrinsic_mn v, zm_intrinsic_k v)" by blast
  let ?t = "(zm_sg_m_cnt v, zm_sg_n_cnt v, zm_sg_m_tcnt v, zm_sg_n_tcnt v, zm_sg_k_tcnt v)"
  have "all_vars v = vars_of (fst (iree_mnk ir mma), snd (snd (iree_mnk ir mma))) ?t"
    and "?t \<in> {1..32} \<times> {1..32} \<times> {1..32} \<times> {1..32} \<times> {1..32}"
    using sat(1) sat(4,6) by (simp_all add: mma all_vars_def vars_of_def tile_constraints_def ps_MNK_def)
  then show ?thesis using mma(1) by (intro image_eqI [of _ _ "(mma, ?t)"]) simp_all
qed

lemma solution_loop_bound:
  assumes "sound_solver solve" and "generate_constraints ir p ns mmas = Inr cs"
    and "solution_loop ir opts p solve n cs = (cis, how)"
  shows "length cis \<le> search_bound mmas"
proof -
  let ?T = "set mmas \<times> {1..32::int} \<times> {1..32::int} \<times> {1..32::int} \<times> {1..32::int} \<times> {1..32::int}"
  let ?f = "\<lambda>(mma, t). vars_of (fst (iree_mnk ir mma), snd (snd (iree_mnk ir mma))) t"
  from solution_loop_models [OF assms(1,3)] obtain vs where
    vs: "list_all2 (\<lambda>v ci. satisfies cs v \<and> solution_of ir opts p v = Inr ci) vs cis"
    and dist: "distinct (map all_vars vs)" by blast
  have "set (map all_vars vs) \<subseteq> ?f ` ?T"
    using vs model_vars [OF assms(2)] by (auto simp: list_all2_conv_all_nth in_set_conv_nth)
  then have "length vs \<le> card (?f ` ?T)"
    using distinct_card [OF dist] card_mono [of "?f ` ?T" "set (map all_vars vs)"] by simp
  also have "\<dots> \<le> card ?T" by (rule card_image_le) simp
  also have "\<dots> = card (set mmas) * 32 ^ 5" by (simp add: card_cartesian_product)
  also have "\<dots> \<le> search_bound mmas" by (simp add: search_bound_def card_length)
  finally show ?thesis using vs by (simp add: list_all2_lengthD)
qed

lemma solution_loop_suspended:
  "solution_loop ir opts p solve n cs = (cis, Suspended) \<Longrightarrow> length cis = n"
  by (induction n arbitrary: cs cis) (auto split: option.splits sum.splits prod.splits)

subsection \<open>Nothing is left out\<close>

text \<open>Completeness is asked only of the states the loop reaches: the constraints and blocked models.\<close>

definition complete_from :: "(z3_constraint list \<Rightarrow> z3_model option) \<Rightarrow> z3_constraint list \<Rightarrow> bool" where
  "complete_from solve cs \<longleftrightarrow>
     (\<forall>bs. solve (cs @ map block_model bs) = None \<longrightarrow> (\<forall>v. \<not> satisfies (cs @ map block_model bs) v))"

lemma complete_from_block: "complete_from solve cs \<Longrightarrow> complete_from solve (cs @ [block_model v])"
  unfolding complete_from_def
proof (intro allI impI)
  fix bs x
  assume "\<forall>bs. solve (cs @ map block_model bs) = None \<longrightarrow> (\<forall>v. \<not> satisfies (cs @ map block_model bs) v)"
    and "solve ((cs @ [block_model v]) @ map block_model bs) = None"
  then show "\<not> satisfies ((cs @ [block_model v]) @ map block_model bs) x"
    by (metis append.assoc append_Cons append_Nil list.simps(9))
qed

lemma complete_from_start: "complete_from solve cs \<Longrightarrow> solve cs = None \<Longrightarrow> \<not> satisfies cs v"
  unfolding complete_from_def by (metis append_Nil2 list.simps(8))

lemma solution_loop_exhaustive:
  assumes "complete_from solve cs" and "solution_loop ir opts p solve n cs = (cis, Exhausted)"
    and "satisfies cs v"
  shows "\<exists>ci \<in> set cis. solution_of ir opts p v = Inr ci"
  using assms
proof (induction n arbitrary: cs cis)
  case 0
  then show ?case by simp
next
  case (Suc n)
  then have "solve cs \<noteq> None" using complete_from_start by blast
  then obtain w where w: "solve cs = Some w" by blast
  with Suc.prems(2) obtain ci where ci: "solution_of ir opts p w = Inr ci"
    by (auto split: sum.splits)
  with w Suc.prems(2) obtain cis' where cis: "cis = ci # cis'"
    and rec: "solution_loop ir opts p solve n (cs @ [block_model w]) = (cis', Exhausted)"
    by (auto split: prod.splits)
  show ?case
  proof (cases "all_vars v = all_vars w")
    case True
    with ci cis show ?thesis using solution_of_cong [OF True, of ir opts p] by simp
  next
    case False
    then have "satisfies (cs @ [block_model w]) v" using Suc.prems(3) by (simp add: block_model_def)
    from Suc.IH [OF complete_from_block [OF Suc.prems(1)] rec this] cis show ?thesis by auto
  qed
qed

subsection \<open>When the generator raises\<close>

lemma find_mma_finds:
  assumes "mma \<in> set ms" and "iree_abc ir mma = (a, b, c)" and "iree_mnk ir mma = (m, n, k)"
    and "iree_isa ir a l" and "iree_isa ir b r" and "iree_isa ir c t"
  shows "\<exists>mma'. find_mma ir t m n k l r ms = Inr mma'"
  using assms by (induction ms) (auto simp: Let_def split: prod.splits)

definition concrete_classes :: "('e, 'i) iree \<Rightarrow> bool" where
  "concrete_classes ir \<longleftrightarrow> (\<forall>x y. iree_isa ir x y \<longrightarrow> iree_isa ir y x)"

lemma solution_of_total:
  assumes "generate_constraints ir p ns mmas = Inr cs" and "satisfies cs v"
    and "ps_dispatch_kind p \<noteq> KBatchMatmul" and "concrete_classes ir"
    and "set mmas \<subseteq> set (iree_intrinsics ir)"
  shows "\<exists>ci. solution_of ir opts p v = Inr ci"
proof -
  from assms(1,2) obtain mma where mma: "mma \<in> set mmas" "is_comptible ir p mma"
    and shape: "iree_mnk ir mma = (zm_intrinsic_mn v, zm_intrinsic_mn v, zm_intrinsic_k v)"
    by (auto simp: generate_constraints_def res_bind_Inr get_mfma_intrinsic_constraints_def
        get_compatible_mfma_intrinsics_def Let_def list_ex_iff split: if_splits)
  obtain a b c where abc: "iree_abc ir mma = (a, b, c)" by (rule prod_cases3)
  from mma(2) abc assms(3,4) have "iree_isa ir a (sh_element_type (ps_lhs_type p))"
    "iree_isa ir b (sh_element_type (ps_rhs_type p))" "iree_isa ir c (sh_element_type (ps_res_type p))"
    by (auto simp: is_comptible_def concrete_classes_def Let_def split: if_splits)
  from find_mma_finds [OF _ abc shape this, of "iree_intrinsics ir"] mma(1) assms(5)
  show ?thesis unfolding solution_of_Inr getMMAAttr_def by blast
qed

lemma solution_loop_total:
  assumes "sound_solver solve" and "\<And>v. satisfies cs v \<Longrightarrow> \<exists>ci. solution_of ir opts p v = Inr ci"
  shows "snd (solution_loop ir opts p solve n cs) \<noteq> Raised e"
  using assms(2)
proof (induction n arbitrary: cs)
  case 0
  then show ?case by simp
next
  case (Suc n)
  show ?case
  proof (cases "solve cs")
    case (Some v)
    with assms(1) have "satisfies cs v" by (simp add: sound_solver_def)
    with Suc.prems obtain ci where ci: "solution_of ir opts p v = Inr ci" by blast
    have "snd (solution_loop ir opts p solve n (cs @ [block_model v])) \<noteq> Raised e"
      by (rule Suc.IH) (simp add: Suc.prems)
    with Some ci show ?thesis by (simp add: case_prod_beta)
  qed simp
qed

end
