(* ===== verification/Tuner_Matchers.thy ===== *)
theory Tuner_Matchers
  imports Tuner_Common
begin

section \<open>Matching operations of an MLIR module\<close>

text \<open>
  Model of \<open>tuner/op_matchers.py\<close>. The MLIR bindings are not under \<open>src/\<close>: an operation is what the
  tuner reads of it (name, attributes in order, operands with their SSA names), and a module is, for
  each operation of its body, the list of operations that its post-order walk visits.
\<close>

record affine_map =
  am_n_dims :: nat
  am_is_projected_permutation :: bool
  am_results :: "string list"

datatype mlir_attr = MapsAttr "affine_map list" | UnitAttr | TextAttr string

datatype 'e mlir_type = TensorType "'e shaped_type" | OtherShaped "'e shaped_type" | NotShaped

record 'e mlir_op =
  mo_name :: string
  mo_attributes :: "(string \<times> mlir_attr) list"
  mo_operands :: "(string \<times> 'e mlir_type) list"

type_synonym 'e mlir_module = "'e mlir_op list list"

definition get_ops_from_module :: "'e mlir_module \<Rightarrow> ('e mlir_op \<Rightarrow> bool) \<Rightarrow> 'e mlir_op list" where
  "get_ops_from_module module fn = concat (map (filter fn) module)"

definition root_op_attr_name :: string where
  "root_op_attr_name = ''root_op''"

definition is_root_op :: "'e mlir_op \<Rightarrow> bool" where
  "is_root_op op = list_ex (\<lambda>(name, _). name = root_op_attr_name) (mo_attributes op)"

text \<open>A matcher answers \<open>None\<close> for False and else what it has stored in its fields.\<close>

definition match_root_op :: "'e mlir_module \<Rightarrow> ('e mlir_op \<Rightarrow> 's option) \<Rightarrow> ('e mlir_op \<times> 's) option" where
  "match_root_op module matcher =
     (case get_ops_from_module module is_root_op of
        [op] \<Rightarrow> (case matcher op of None \<Rightarrow> None | Some s \<Rightarrow> Some (op, s))
      | _ \<Rightarrow> None)"

definition named_op_match :: "string list \<Rightarrow> 'e mlir_op \<Rightarrow> unit option" where
  "named_op_match op_names op = (if mo_name op \<in> set op_names then Some () else None)"

subsection \<open>Indexing maps\<close>

fun dim_positions :: "string list \<Rightarrow> int list option" where
  "dim_positions [] = Some []"
| "dim_positions (dim_str # rest) =
     (case dim_str of
        [] \<Rightarrow> None
      | c # digits \<Rightarrow>
          if c \<noteq> CHR ''d'' then None
          else if digits = [] \<or> \<not> list_all is_digit digits then None
          else map_option (\<lambda>ds. int (digits_val 0 digits) # ds) (dim_positions rest))"

definition get_map_result_dim_positions :: "affine_map \<Rightarrow> int list option" where
  "get_map_result_dim_positions m =
     (if \<not> am_is_projected_permutation m then None else dim_positions (am_results m))"

record matcher_dims =
  md_contraction_dimensions :: contraction_dimensions
  md_lhs_dims :: "int list"
  md_rhs_dims :: "int list"
  md_res_dims :: "int list"

fun classify_dims ::
  "int list \<Rightarrow> int list \<Rightarrow> int list \<Rightarrow> int list \<Rightarrow> contraction_dimensions \<Rightarrow> contraction_dimensions option" where
  "classify_dims lhs rhs rs [] cd = Some cd"
| "classify_dims lhs rhs rs (d # ds) cd =
     (if d \<in> set lhs \<and> d \<in> set rhs \<and> d \<in> set rs
      then classify_dims lhs rhs rs ds (cd\<lparr>cd_batch := cd_batch cd @ [d]\<rparr>)
      else if d \<in> set lhs \<and> d \<in> set rs then classify_dims lhs rhs rs ds (cd\<lparr>cd_m := cd_m cd @ [d]\<rparr>)
      else if d \<in> set rhs \<and> d \<in> set rs then classify_dims lhs rhs rs ds (cd\<lparr>cd_n := cd_n cd @ [d]\<rparr>)
      else if d \<in> set lhs \<and> d \<in> set rhs then classify_dims lhs rhs rs ds (cd\<lparr>cd_k := cd_k cd @ [d]\<rparr>)
      else None)"

definition match_indexing_maps :: "affine_map list \<Rightarrow> matcher_dims option" where
  "match_indexing_maps maps =
     (case maps of
        [m0, m1, m2] \<Rightarrow>
          (case (get_map_result_dim_positions m0, get_map_result_dim_positions m1,
                 get_map_result_dim_positions m2) of
             (Some lhs_dims, Some rhs_dims, Some res_dims) \<Rightarrow>
               (case classify_dims lhs_dims rhs_dims res_dims (map int [0..<am_n_dims m0])
                       \<lparr>cd_batch = [], cd_m = [], cd_n = [], cd_k = []\<rparr> of
                  None \<Rightarrow> None
                | Some cd \<Rightarrow> Some \<lparr>md_contraction_dimensions = cd, md_lhs_dims = lhs_dims,
                    md_rhs_dims = rhs_dims, md_res_dims = res_dims\<rparr>)
           | _ \<Rightarrow> None)
      | _ \<Rightarrow> None)"

definition match_operands :: "(string \<times> 'e mlir_type) list \<Rightarrow> bool" where
  "match_operands operands =
     (length operands = 3 \<and> list_all (\<lambda>(_, t). t \<noteq> NotShaped) operands)"

text \<open>The last \<open>indexing_maps\<close> attribute that is an array wins.\<close>

fun find_maps_attr :: "affine_map list option \<Rightarrow> (string \<times> mlir_attr) list \<Rightarrow> affine_map list option" where
  "find_maps_attr found [] = found"
| "find_maps_attr found ((name, a) # rest) =
     find_maps_attr (if name = ''indexing_maps''
       then (case a of MapsAttr ms \<Rightarrow> Some ms | _ \<Rightarrow> found) else found) rest"

definition contraction_match :: "'e mlir_op \<Rightarrow> matcher_dims option" where
  "contraction_match op =
     (if named_op_match [''linalg.generic''] op = None then None
      else if \<not> match_operands (mo_operands op) then None
      else (case find_maps_attr None (mo_attributes op) of
          None \<Rightarrow> None
        | Some maps \<Rightarrow> match_indexing_maps maps))"

subsection \<open>The four kinds of dimension\<close>

definition dim_kind :: "bool \<Rightarrow> bool \<Rightarrow> bool \<Rightarrow> int list \<Rightarrow> int list \<Rightarrow> int list \<Rightarrow> int \<Rightarrow> bool" where
  "dim_kind l r q lhs rhs rs d \<longleftrightarrow> (d \<in> set lhs \<longleftrightarrow> l) \<and> (d \<in> set rhs \<longleftrightarrow> r) \<and> (d \<in> set rs \<longleftrightarrow> q)"

lemma classify_dims_Some:
  "classify_dims lhs rhs rs ds cd = Some cd' \<longleftrightarrow>
     cd' = \<lparr>cd_batch = cd_batch cd @ filter (dim_kind True True True lhs rhs rs) ds,
            cd_m = cd_m cd @ filter (dim_kind True False True lhs rhs rs) ds,
            cd_n = cd_n cd @ filter (dim_kind False True True lhs rhs rs) ds,
            cd_k = cd_k cd @ filter (dim_kind True True False lhs rhs rs) ds\<rparr> \<and>
     (\<forall>d \<in> set ds. 2 \<le> of_bool (d \<in> set lhs) + of_bool (d \<in> set rhs) + (of_bool (d \<in> set rs) :: nat))"
proof (induction ds arbitrary: cd)
  case Nil
  then show ?case by (cases cd) auto
next
  case (Cons d ds)
  then show ?case by (auto simp: dim_kind_def)
qed

lemma match_indexing_maps_Some:
  assumes "match_indexing_maps maps = Some md" and "cd = md_contraction_dimensions md"
  shows "\<exists>m0 m1 m2. maps = [m0, m1, m2] \<and>
    get_map_result_dim_positions m0 = Some (md_lhs_dims md) \<and>
    get_map_result_dim_positions m1 = Some (md_rhs_dims md) \<and>
    get_map_result_dim_positions m2 = Some (md_res_dims md) \<and>
    classify_dims (md_lhs_dims md) (md_rhs_dims md) (md_res_dims md) (map int [0..<am_n_dims m0])
      \<lparr>cd_batch = [], cd_m = [], cd_n = [], cd_k = []\<rparr> = Some cd"
  using assms unfolding match_indexing_maps_def
  by (auto split: list.splits option.splits prod.splits)

end
