(* ===== verification/Tuner_Parser.thy ===== *)
theory Tuner_Parser
  imports Tuner_Matchers
begin

section \<open>Reading the problem size off a dispatch\<close>

text \<open>
  Model of \<open>tuner/dispatch_parser.py\<close>. The parsers look for a \<open>linalg\<close> operation in the lines of the
  template and read the three tensor types off it with a regular expression. Parsing the text of a
  type or of a module is MLIR's: \<open>parse\<close> and \<open>parse_module\<close> are parameters.
\<close>

subsection \<open>The pattern for operands\<close>

definition ssa_char :: "char \<Rightarrow> bool" where
  "ssa_char c \<longleftrightarrow> c \<in> set ''abcdefghijklmnopqrstuvwxyzABCDEFGHIJKLMNOPQRSTUVWXYZ0123456789-_''"

definition ssa_value_re :: "re list" where
  "ssa_value_re = [RLit ''%'', RPlus ssa_char]"

definition tensor_type_re :: "re list" where
  "tensor_type_re = [RLit ''tensor<'', RCap [RPlus (\<lambda>c. c \<noteq> CHR ''>'')], RLit ''>'']"

definition dps_ins_two_args :: "re list" where
  "dps_ins_two_args =
     [RLit ''ins(''] @ ssa_value_re @ [RLit '', ''] @ ssa_value_re @
     [RLit '' : '', RCap tensor_type_re, RLit '', '', RCap tensor_type_re, RLit '')'']"

definition dps_outs_one_arg :: "re list" where
  "dps_outs_one_arg = [RLit ''outs(''] @ ssa_value_re @ [RLit '' : '', RCap tensor_type_re, RLit '')'']"

definition dps_re :: "re list" where
  "dps_re = dps_ins_two_args @ [RPlus is_space] @ dps_outs_one_arg"

text \<open>The groups \<open>LHS\<close>, \<open>RHS\<close> and \<open>RES\<close>; each encloses an unnamed group.\<close>

definition search_dps :: "string \<Rightarrow> (string \<times> string \<times> string) option" where
  "search_dps line =
     (case re_search dps_re line of
        Some [lhs, _, rhs, _, rs, _] \<Rightarrow> Some (lhs, rhs, rs)
      | _ \<Rightarrow> None)"

type_synonym 'e type_parser = "string \<Rightarrow> (int list \<times> 'e) res"

definition parse_tensor_type :: "'e type_parser \<Rightarrow> string \<Rightarrow> 'e shaped_type res" where
  "parse_tensor_type parse t =
     res_bind (parse t) (\<lambda>(shape, element_type). Inr \<lparr>sh_shape = shape, sh_element_type = element_type\<rparr>)"

text \<open>The loop over the template: the first line that passes the tests decides.\<close>

fun first_dps ::
  "(string \<Rightarrow> bool) \<Rightarrow> (string \<times> string \<times> string \<Rightarrow> 'p res) \<Rightarrow> string list \<Rightarrow> 'p res" where
  "first_dps guard body [] = Inl AssertionError"
| "first_dps guard body (line # rest) =
     (if \<not> guard line then first_dps guard body rest
      else (case search_dps line of
          None \<Rightarrow> first_dps guard body rest
        | Some groups \<Rightarrow> body groups))"

definition assert_that :: "bool \<Rightarrow> unit res" where
  "assert_that b = (if b then Inr () else Inl AssertionError)"

lemma assert_that_Inr [simp]: "assert_that b = Inr u \<longleftrightarrow> b"
  by (simp add: assert_that_def)

lemma assert_that_True [simp]: "assert_that True = Inr ()"
  by (simp add: assert_that_def)

text \<open>The three types are parsed one after the other, each followed by a test of its rank.\<close>

definition typed_dps ::
  "'e type_parser \<Rightarrow> (nat \<Rightarrow> bool) \<Rightarrow> (nat \<Rightarrow> bool) \<Rightarrow> (nat \<Rightarrow> nat \<Rightarrow> bool) \<Rightarrow>
   string \<times> string \<times> string \<Rightarrow>
   ('e shaped_type \<times> 'e shaped_type \<times> 'e shaped_type) res" where
  "typed_dps parse lhs_rank rhs_rank res_rank groups =
     (let (lhs, rhs, rs) = groups in
      res_bind (parse_tensor_type parse lhs) (\<lambda>l.
      res_bind (assert_that (lhs_rank (shaped_rank l))) (\<lambda>_.
      res_bind (parse_tensor_type parse rhs) (\<lambda>r.
      res_bind (assert_that (rhs_rank (shaped_rank r))) (\<lambda>_.
      res_bind (parse_tensor_type parse rs) (\<lambda>q.
      res_bind (assert_that (res_rank (shaped_rank l) (shaped_rank q))) (\<lambda>_. Inr (l, r, q))))))))"

definition quoted :: "string \<Rightarrow> string" where
  "quoted s = [quote_mark] @ s @ [quote_mark]"

definition iterator_types :: "string list \<Rightarrow> string" where
  "iterator_types ts = ''iterator_types = ['' @ str_join '', '' (map quoted ts) @ '']''"

subsection \<open>Matrix products with a transposed right operand\<close>

definition mmt_supports :: "string \<Rightarrow> bool" where
  "mmt_supports op_name = sublist ''matmul_transpose_b'' op_name"

definition mmt_guard :: "string \<Rightarrow> bool" where
  "mmt_guard line \<longleftrightarrow> sublist ''linalg.generic'' line \<and>
     sublist (iterator_types [''parallel'', ''parallel'', ''reduction'']) line"

text \<open>The element types are compared after the right operand is parsed, before the result is.\<close>

definition mmt_body :: "'e type_parser \<Rightarrow> string \<times> string \<times> string \<Rightarrow> 'e problem_size res" where
  "mmt_body parse groups =
     (let (lhs, rhs, rs) = groups in
      res_bind (parse_tensor_type parse lhs) (\<lambda>l.
      res_bind (assert_that (shaped_rank l = 2)) (\<lambda>_.
      res_bind (parse_tensor_type parse rhs) (\<lambda>r.
      res_bind (assert_that (shaped_rank r = 2)) (\<lambda>_.
      res_bind (assert_that (sh_element_type l = sh_element_type r \<and> sh_shape l ! 1 = sh_shape r ! 1)) (\<lambda>_.
      res_bind (parse_tensor_type parse rs) (\<lambda>q.
      res_bind (assert_that (shaped_rank q = 2)) (\<lambda>_.
      res_bind (assert_that (sh_shape l ! 0 = sh_shape q ! 0 \<and> sh_shape r ! 0 = sh_shape q ! 1)) (\<lambda>_.
      Inr \<lparr>ps_matmul_size = \<lparr>ms_M = sh_shape l ! 0, ms_N = sh_shape r ! 0, ms_K = sh_shape l ! 1, ms_B = 1\<rparr>,
        ps_lhs_type = l, ps_rhs_type = r, ps_res_type = q, ps_dispatch_kind = KMmt\<rparr>)))))))))"

definition mmt_get_shapes :: "'e type_parser \<Rightarrow> string list \<Rightarrow> 'e problem_size res" where
  "mmt_get_shapes parse template = first_dps mmt_guard (mmt_body parse) template"

subsection \<open>Convolutions\<close>

definition conv_supports :: "string \<Rightarrow> bool" where
  "conv_supports op_name = sublist ''conv_2d_nhwc_hwcf'' op_name"

definition conv_problem ::
  "'e shaped_type \<Rightarrow> 'e shaped_type \<Rightarrow> 'e shaped_type \<Rightarrow> 'e problem_size res" where
  "conv_problem l r q =
     res_bind (from_rhs_res r q) (\<lambda>d. Inr
       \<lparr>ps_matmul_size = \<lparr>ms_M = cv_oh d * cv_ow d, ms_N = cv_oc d, ms_K = cv_fh d * cv_fw d * cv_ic d,
          ms_B = cv_n d\<rparr>,
        ps_lhs_type = l, ps_rhs_type = r, ps_res_type = q, ps_dispatch_kind = KConv\<rparr>)"

definition conv_get_shapes :: "'e type_parser \<Rightarrow> string list \<Rightarrow> 'e problem_size res" where
  "conv_get_shapes parse template =
     first_dps (\<lambda>line. sublist ''linalg.conv_2d_nhwc_hwcf'' line)
       (\<lambda>groups. res_bind (typed_dps parse (\<lambda>n. n = 4) (\<lambda>n. n = 4) (\<lambda>_ n. n = 4) groups)
          (\<lambda>(l, r, q). conv_problem l r q)) template"

subsection \<open>Contractions\<close>

text \<open>\<open>lhs_dims\<close>, \<open>rhs_dims\<close> and \<open>tile_dims\<close> of the parser objects.\<close>

record dims_config =
  dc_lhs_dims :: string
  dc_rhs_dims :: string
  dc_tile_dims :: string

definition contraction_supports :: "string \<Rightarrow> bool" where
  "contraction_supports op_name = sublist ''matmul_like'' op_name"

definition is_broadcast_rhs_mmt_op :: "string \<Rightarrow> bool" where
  "is_broadcast_rhs_mmt_op line \<longleftrightarrow>
     sublist ''linalg.generic'' line \<and>
     sublist (iterator_types [''parallel'', ''parallel'', ''parallel'', ''reduction'']) line \<and>
     sublist (''indexing_maps = [affine_map<(d0, d1, d2, d3) -> (d0, d1, d3)>, '' @
       ''affine_map<(d0, d1, d2, d3) -> (d2, d3)>, affine_map<(d0, d1, d2, d3) -> (d0, d1, d2)>'') line"

definition is_broadcast_rhs_mmt :: "string list \<Rightarrow> bool" where
  "is_broadcast_rhs_mmt template = list_ex is_broadcast_rhs_mmt_op template"

text \<open>Three-dimensional products: unpacking the shapes, then the assertions.\<close>

definition broadcast_rhs_problem ::
  "'e shaped_type \<Rightarrow> 'e shaped_type \<Rightarrow> 'e shaped_type \<Rightarrow> 'e problem_size res" where
  "broadcast_rhs_problem l r q =
     (case (sh_shape l, sh_shape r, sh_shape q) of
        ([B0, M0, K0], [N1, K1], [B2, M2, N2]) \<Rightarrow>
          res_bind (assert_that (B0 = B2 \<and> M0 = M2 \<and> N1 = N2 \<and> K0 = K1)) (\<lambda>_.
          Inr \<lparr>ps_matmul_size = \<lparr>ms_M = M0, ms_N = N1, ms_K = K0, ms_B = B0\<rparr>,
            ps_lhs_type = l, ps_rhs_type = r, ps_res_type = q, ps_dispatch_kind = KBroadcastRhsMmt\<rparr>)
      | _ \<Rightarrow> Inl ValueError)"

definition get_shapes_broadcast_rhs_mmt :: "'e type_parser \<Rightarrow> string list \<Rightarrow> 'e problem_size res" where
  "get_shapes_broadcast_rhs_mmt parse template =
     first_dps is_broadcast_rhs_mmt_op
       (\<lambda>groups. res_bind (typed_dps parse (\<lambda>n. n = 3) (\<lambda>n. n = 2) (\<lambda>_ n. n = 3) groups) (\<lambda>(l, r, q).
          broadcast_rhs_problem l r q)) template"

definition dims_prod :: "char \<Rightarrow> string \<Rightarrow> int list \<Rightarrow> int" where
  "dims_prod d dims shape = prod_list (map (\<lambda>(dim, val). if dim = d then val else 1) (zip dims shape))"

definition contraction_guard :: "string \<Rightarrow> bool" where
  "contraction_guard line \<longleftrightarrow> sublist ''linalg.generic'' line \<and> sublist ''lowering_config ='' line \<and>
     sublist (quoted ''reduction'') line"

definition contraction_get_shapes :: "'e type_parser \<Rightarrow> dims_config \<Rightarrow> string list \<Rightarrow> 'e problem_size res" where
  "contraction_get_shapes parse dims template =
     (if is_broadcast_rhs_mmt template then get_shapes_broadcast_rhs_mmt parse template
      else first_dps contraction_guard
       (\<lambda>groups. res_bind (typed_dps parse (\<lambda>n. n = length (dc_lhs_dims dims))
            (\<lambda>n. n = length (dc_rhs_dims dims)) (\<lambda>_ n. n \<ge> 2) groups) (\<lambda>(l, r, q).
          let M = dims_prod CHR ''m'' (dc_lhs_dims dims) (sh_shape l);
              N = dims_prod CHR ''n'' (dc_rhs_dims dims) (sh_shape r);
              K0 = dims_prod CHR ''k'' (dc_lhs_dims dims) (sh_shape l);
              K1 = dims_prod CHR ''k'' (dc_rhs_dims dims) (sh_shape r)
          in res_bind (assert_that (K0 = K1)) (\<lambda>_.
             Inr \<lparr>ps_matmul_size = \<lparr>ms_M = M, ms_N = N, ms_K = K0, ms_B = 1\<rparr>,
               ps_lhs_type = l, ps_rhs_type = r, ps_res_type = q, ps_dispatch_kind = KContraction\<rparr>))) template)"

subsection \<open>Batched products\<close>

definition batch_mmt_supports :: "string \<Rightarrow> bool" where
  "batch_mmt_supports op_name = sublist ''batch_matmul_transpose_b'' op_name"

definition batch_mmt_guard :: "string \<Rightarrow> bool" where
  "batch_mmt_guard line \<longleftrightarrow> sublist ''linalg.generic'' line \<and>
     sublist (iterator_types [''parallel'', ''parallel'', ''parallel'', ''reduction'']) line"

definition batch_mmt_problem ::
  "'e shaped_type \<Rightarrow> 'e shaped_type \<Rightarrow> 'e shaped_type \<Rightarrow> 'e problem_size res" where
  "batch_mmt_problem l r q =
     (case (sh_shape l, sh_shape r, sh_shape q) of
        ([B0, M0, K0], [B1, N1, K1], [B2, M2, N2]) \<Rightarrow>
          res_bind (assert_that (B0 = B1 \<and> B0 = B2 \<and> M0 = M2 \<and> N1 = N2 \<and> K0 = K1)) (\<lambda>_.
          Inr \<lparr>ps_matmul_size = \<lparr>ms_M = M0, ms_N = N1, ms_K = K0, ms_B = B0\<rparr>,
            ps_lhs_type = l, ps_rhs_type = r, ps_res_type = q, ps_dispatch_kind = KBatchMmt\<rparr>)
      | _ \<Rightarrow> Inl ValueError)"

definition batch_mmt_get_shapes :: "'e type_parser \<Rightarrow> string list \<Rightarrow> 'e problem_size res" where
  "batch_mmt_get_shapes parse template =
     first_dps batch_mmt_guard
       (\<lambda>groups. res_bind (typed_dps parse (\<lambda>n. n = 3) (\<lambda>n. n = 3) (\<lambda>_ n. n = 3) groups) (\<lambda>(l, r, q).
          batch_mmt_problem l r q)) template"

definition batch_matmul_supports :: "string \<Rightarrow> bool" where
  "batch_matmul_supports op_name = sublist ''batch_matmul'' op_name"

definition batch_matmul_get_shapes :: "'e type_parser \<Rightarrow> dims_config \<Rightarrow> string list \<Rightarrow> 'e problem_size res" where
  "batch_matmul_get_shapes parse dims template =
     first_dps (\<lambda>line. sublist ''linalg.batch_matmul'' line)
       (\<lambda>groups. res_bind (typed_dps parse (\<lambda>n. n = length (dc_lhs_dims dims))
            (\<lambda>n. n = length (dc_rhs_dims dims)) (\<lambda>k n. n = k) groups) (\<lambda>(l, r, q).
          let LHS = sh_shape l; RHS = sh_shape r; RES = sh_shape q;
              B = dims_prod CHR ''b'' (dc_lhs_dims dims) LHS;
              B0 = dims_prod CHR ''b'' (dc_lhs_dims dims) RHS;
              B1 = dims_prod CHR ''b'' (dc_lhs_dims dims) RES;
              M = dims_prod CHR ''m'' (dc_lhs_dims dims) LHS;
              N = dims_prod CHR ''n'' (dc_rhs_dims dims) RHS;
              K0 = dims_prod CHR ''k'' (dc_lhs_dims dims) LHS;
              K1 = dims_prod CHR ''k'' (dc_rhs_dims dims) RHS
          in res_bind (assert_that (B = B0 \<and> B = B1 \<and> K0 = K1)) (\<lambda>_.
             Inr \<lparr>ps_matmul_size = \<lparr>ms_M = M, ms_N = N, ms_K = K0, ms_B = B\<rparr>,
               ps_lhs_type = l, ps_rhs_type = r, ps_res_type = q, ps_dispatch_kind = KBatchMatmul\<rparr>))) template"

subsection \<open>Parsers that read the module\<close>

definition contraction_op_supports :: "string \<Rightarrow> bool" where
  "contraction_op_supports op_name \<longleftrightarrow>
     sublist ''matmul_like'' op_name \<or> sublist ''batch_matmul'' op_name \<or>
     sublist ''batch_matmul_transpose_b'' op_name \<or> sublist ''matmul_transpose_b'' op_name"

definition get_contraction_operation :: "'e mlir_module \<Rightarrow> 'e mlir_op option" where
  "get_contraction_operation module = map_option fst (match_root_op module contraction_match)"

definition ranked_tensor :: "string \<times> 'e mlir_type \<Rightarrow> 'e shaped_type res" where
  "ranked_tensor operand = (case snd operand of TensorType t \<Rightarrow> Inr t | _ \<Rightarrow> Inl ValueError)"

definition dim_size :: "'e shaped_type \<Rightarrow> int list \<Rightarrow> int \<Rightarrow> int res" where
  "dim_size t dims d = res_bind (list_index dims d) (\<lambda>i. list_get (sh_shape t) i)"

definition operand_types ::
  "'e mlir_op \<Rightarrow> ('e shaped_type \<times> 'e shaped_type \<times> 'e shaped_type) res" where
  "operand_types op =
     res_bind (list_get (mo_operands op) 0) (\<lambda>a. res_bind (ranked_tensor a) (\<lambda>l.
     res_bind (list_get (mo_operands op) 1) (\<lambda>b. res_bind (ranked_tensor b) (\<lambda>r.
     res_bind (list_get (mo_operands op) 2) (\<lambda>c. res_bind (ranked_tensor c) (\<lambda>q. Inr (l, r, q)))))))"

definition contraction_problem :: "'e mlir_op \<Rightarrow> matcher_dims \<Rightarrow> 'e problem_size res" where
  "contraction_problem op md =
     (let cdims = md_contraction_dimensions md in
      res_bind (assert_that (md_lhs_dims md \<noteq> [] \<and> md_rhs_dims md \<noteq> [] \<and> md_res_dims md \<noteq> [] \<and>
        length (cd_batch cdims) \<le> 1 \<and> length (cd_m cdims) = 1 \<and> length (cd_n cdims) = 1 \<and>
        length (cd_k cdims) = 1)) (\<lambda>_.
      res_bind (operand_types op) (\<lambda>(l, r, q).
      res_bind (dim_size l (md_lhs_dims md) (cd_m cdims ! 0)) (\<lambda>M.
      res_bind (dim_size r (md_rhs_dims md) (cd_n cdims ! 0)) (\<lambda>N.
      res_bind (dim_size l (md_lhs_dims md) (cd_k cdims ! 0)) (\<lambda>K.
      res_bind (if length (cd_batch cdims) = 1 then dim_size l (md_lhs_dims md) (cd_batch cdims ! 0)
                else Inr 1) (\<lambda>B.
      Inr \<lparr>ps_matmul_size = \<lparr>ms_M = M, ms_N = N, ms_K = K, ms_B = B\<rparr>,
        ps_lhs_type = l, ps_rhs_type = r, ps_res_type = q, ps_dispatch_kind = KContraction\<rparr>)))))))"

definition contraction_op_get_shapes :: "'e mlir_module res \<Rightarrow> 'e problem_size res" where
  "contraction_op_get_shapes parsed =
     res_bind parsed (\<lambda>module.
     (case match_root_op module contraction_match of
        None \<Rightarrow> Inl AssertionError
      | Some (op, md) \<Rightarrow> contraction_problem op md))"

definition conv_supported_ops :: "string list" where
  "conv_supported_ops = [''linalg.conv_2d_nhwc_hwcf'']"

definition convolution_op_supports :: "string \<Rightarrow> bool" where
  "convolution_op_supports op_name =
     list_ex (\<lambda>supported_op_name. sublist (last (str_split ''.'' supported_op_name)) op_name) conv_supported_ops"

definition get_conv_operation :: "'e mlir_module \<Rightarrow> 'e mlir_op option" where
  "get_conv_operation module = map_option fst (match_root_op module (named_op_match conv_supported_ops))"

definition convolution_op_get_shapes :: "'e mlir_module res \<Rightarrow> 'e problem_size res" where
  "convolution_op_get_shapes parsed =
     res_bind parsed (\<lambda>module.
     (case get_conv_operation module of
        None \<Rightarrow> Inl AssertionError
      | Some op \<Rightarrow> res_bind (operand_types op) (\<lambda>(l, r, q). conv_problem l r q)))"

subsection \<open>Tile sizes of a configuration\<close>

definition get_contract_workgroup_sizes :: "'i compilation_info \<Rightarrow> string \<Rightarrow> int list res" where
  "get_contract_workgroup_sizes configuration tile_dims =
     (case workgroup_tile_sizes configuration of
        [m, n, _] \<Rightarrow> Inr (map (\<lambda>dim. if dim = CHR ''k'' then 0 else if dim = CHR ''n'' then n
          else if dim = CHR ''m'' then m else 1) tile_dims)
      | _ \<Rightarrow> Inl ValueError)"

definition get_contract_reduction_sizes :: "'i compilation_info \<Rightarrow> string \<Rightarrow> int list res" where
  "get_contract_reduction_sizes configuration tile_dims =
     (case reduction_tile_sizes configuration of
        [_, _, k] \<Rightarrow> Inr (map (\<lambda>dim. if dim = CHR ''k'' then k else 0) tile_dims)
      | _ \<Rightarrow> Inl ValueError)"

text \<open>\<open>parse_mlir\<close> turns an MLIR error into a RuntimeError.\<close>

definition parse_mlir :: "(string \<Rightarrow> 'm option) \<Rightarrow> string \<Rightarrow> 'm res" where
  "parse_mlir parse mlir_text = (case parse mlir_text of None \<Rightarrow> Inl RuntimeError | Some m \<Rightarrow> Inr m)"

end
