(* ===== verification/Tuner_Gen.thy ===== *)
theory Tuner_Gen
  imports Tuner_Parser Tuner_Constraints
begin

section \<open>Generating candidates\<close>

text \<open>
  Model of \<open>tuner/candidate_gen.py\<close> and \<open>tuner/spec_builder.py\<close>. Configurations, types and
  operations are printed by MLIR: \<open>str_ci\<close>, \<open>str_attr\<close>, \<open>str_type\<close> and \<open>str_op\<close> are parameters. The
  dispatch tuners are objects without state; the registry is a set of them, whose iteration order
  the program does not choose: \<open>find_handler\<close> takes the objects in that order. \<open>get_transform_function\<close>
  of some tuners overwrites the batch dimension of a type of the problem size in place, so applying
  a configuration returns the problem size too.
\<close>

subsection \<open>Rewriting the configuration in the template\<close>

definition not_newline :: "char \<Rightarrow> bool" where
  "not_newline c \<longleftrightarrow> c \<noteq> CHR 0x0A"

definition number_re :: re where
  "number_re = RCap [RPlus is_digit]"

definition expr0 :: "re list" where
  "expr0 = [RLit ''<intrinsic = #iree_gpu.mma_layout<'', RCap [RPlus not_newline],
     RLit ''>, subgroup_m_count = '', number_re, RLit '', subgroup_n_count = '', number_re, RLit ''>'']"

definition expr1 :: "re list" where
  "expr1 = [RLit ''LLVMGPUVectorDistribute workgroup_size = ['', RPlus not_newline,
     RLit ''] subgroup_size = '', number_re, RLit '','']"

definition sizes_re :: "string \<Rightarrow> re list" where
  "sizes_re key = [RLit (key @ '' = [''), number_re, RMany [RLit '', '', number_re], RLit '']'']"

definition expr4 :: "re list" where
  "expr4 = [RLit ''gpu_pipeline_options = #iree_gpu.pipeline_options<'', RCap [RStar (\<lambda>c. c \<noteq> CHR ''>'')],
     RLit ''>'']"

definition expr5 :: "re list" where
  "expr5 = [RLit (quoted ''amdgpu-waves-per-eu'' @ '' = '' @ [quote_mark]), RCap [RChr is_digit],
     RLit [quote_mark]]"

text \<open>The marker that must be in the line, the pattern and its replacement, in order.\<close>

type_synonym line_rule = "string \<times> re list \<times> string"

fun apply_rules :: "line_rule list \<Rightarrow> string \<Rightarrow> string" where
  "apply_rules [] line = line"
| "apply_rules ((marker, expr, repl) # rules) line =
     apply_rules rules (if sublist marker line then re_sub expr repl line else line)"

definition config_rules ::
  "('e, 'i) iree \<Rightarrow> 'i \<Rightarrow> int \<times> int \<Rightarrow> 'i compilation_info \<Rightarrow> string \<Rightarrow> string \<Rightarrow> line_rule list" where
  "config_rules ir intrinsic counts ci gpu_pipeline_options waves_per_eu =
     [(''intrinsic ='', expr0, ''<intrinsic = '' @ iree_mma_str ir intrinsic @ '', subgroup_m_count = '' @
         str_int (fst counts) @ '', subgroup_n_count = '' @ str_int (snd counts) @ ''>''),
      (''LLVMGPUVectorDistribute '', expr1, ''LLVMGPUVectorDistribute workgroup_size = ['' @
         str_join '', '' (map str_int (ci_workgroup_size ci)) @ ''] subgroup_size = '' @
         str_int (ci_subgroup_size ci) @ '',''),
      (''workgroup'', sizes_re ''workgroup'', ''workgroup = '' @ str_int_list (workgroup_tile_sizes ci)),
      (''reduction'', sizes_re ''reduction'', ''reduction = '' @ str_int_list (reduction_tile_sizes ci)),
      (''gpu_pipeline_options ='', expr4, ''gpu_pipeline_options = '' @ gpu_pipeline_options),
      (''amdgpu-waves-per-eu'', expr5, quoted ''amdgpu-waves-per-eu'' @ '' = '' @ quoted waves_per_eu)]"

definition apply_configuration ::
  "('e, 'i) iree \<Rightarrow> string list \<Rightarrow> 'i compilation_info \<Rightarrow> string res" where
  "apply_configuration ir template ci =
     (case (mma_kind ci, subgroup_count_mn ci) of
        (Some intrinsic, Some counts) \<Rightarrow>
          (case (map_of (ci_configuration ci) gpu_pipeline_options_key,
                 map_of (ci_configuration ci) llvm_func_attrs_key) of
             (Some (CfgText opts), Some (CfgDict attrs)) \<Rightarrow>
               (case map_of attrs waves_per_eu_key of
                  None \<Rightarrow> Inl KeyError
                | Some waves \<Rightarrow>
                    Inr (concat (map (apply_rules (config_rules ir intrinsic counts ci opts waves)) template)))
           | _ \<Rightarrow> Inl KeyError)
      | _ \<Rightarrow> Inl TypeError)"

subsection \<open>Transform functions\<close>

text \<open>\<open>t.shape = t.shape.copy(); t.shape[0] = -1\<close>\<close>

definition dynamic_batch :: "'e shaped_type \<Rightarrow> 'e shaped_type res" where
  "dynamic_batch t =
     (if sh_shape t = [] then Inl IndexError else Inr (t\<lparr>sh_shape := (sh_shape t)[0 := -1]\<rparr>))"

definition get_transform_function_mmt ::
  "('e, 'i) iree \<Rightarrow> ('i compilation_info \<Rightarrow> string) \<Rightarrow> 'e problem_size \<Rightarrow> string \<Rightarrow> 'i compilation_info \<Rightarrow> string" where
  "get_transform_function_mmt ir str_ci p functionName ci =
     unlines
       ['''',
        ''    transform.named_sequence @'' @ functionName @ ''(%matmul: !transform.any_op {transform.readonly}) -> (!transform.any_op, !transform.any_param) {'',
        ''    %mmt = transform.include @match_mmt_f16_f16_f32 failures(propagate) (%matmul) : (!transform.any_op) -> !transform.any_op'',
        ''    %lhs = transform.get_operand %matmul[0] : (!transform.any_op) -> !transform.any_value'',
        ''    %rhs = transform.get_operand %matmul[1] : (!transform.any_op) -> !transform.any_value'',
        ''    transform.iree.match.cast_compatible_type %lhs = tensor<'' @ shaped_str ir (ps_lhs_type p) @ ''> : !transform.any_value'',
        ''    transform.iree.match.cast_compatible_type %rhs = tensor<'' @ shaped_str ir (ps_rhs_type p) @ ''> : !transform.any_value'',
        ''    %config = transform.param.constant '' @ str_ci ci @ '' -> !transform.any_param'',
        ''    transform.yield %matmul, %config : !transform.any_op, !transform.any_param'',
        ''    }''] @ ''    ''"

text \<open>The statement \<open>dynamic_batch_output_ty.shape[0] - 1\<close> only evaluates: the output type keeps its batch.\<close>

definition conv_transform_text ::
  "('i compilation_info \<Rightarrow> string) \<Rightarrow> string \<Rightarrow> string \<Rightarrow> string \<Rightarrow> string \<Rightarrow> 'i compilation_info \<Rightarrow> string" where
  "conv_transform_text str_ci inp flt outp functionName ci =
     unlines
       ['''',
        ''    transform.named_sequence @'' @ functionName @ ''(%conv: !transform.any_op {transform.readonly})'',
        ''    -> (!transform.any_op, !transform.any_param) {'',
        ''    %ins, %outs = transform.iree.match.cast_compatible_dag_from_root %conv {'',
        ''    ^bb0(%lhs: '' @ inp @ '', %rhs: '' @ flt @ '', %out: '' @ outp @ ''):'',
        ''        %13 = linalg.conv_2d_nhwc_hwcf {dilations = dense<1> : tensor<2xi64>, strides = dense<1> : tensor<2xi64>}'',
        ''        ins(%lhs, %rhs : '' @ inp @ '', '' @ flt @ '')'',
        ''        outs(%out : '' @ outp @ '') -> '' @ outp,
        ''    } : (!transform.any_op) -> (!transform.any_value, !transform.any_value)'',
        ''        %config = transform.param.constant '' @ str_ci ci @ '' -> !transform.any_param'',
        ''    transform.yield %conv, %config : !transform.any_op, !transform.any_param'',
        ''    }''] @ ''    ''"

definition get_transform_function_conv ::
  "('e, 'i) iree \<Rightarrow> ('i compilation_info \<Rightarrow> string) \<Rightarrow> 'e problem_size \<Rightarrow> string \<Rightarrow> 'i compilation_info \<Rightarrow>
   (string \<times> 'e problem_size) res" where
  "get_transform_function_conv ir str_ci p functionName ci =
     res_bind (dynamic_batch (ps_lhs_type p)) (\<lambda>dynamic_batch_input_ty.
     if sh_shape (ps_res_type p) = [] then Inl IndexError
     else (let tensor = (\<lambda>t. ''tensor<'' @ shaped_str ir t @ ''>'') in
       Inr (conv_transform_text str_ci (tensor dynamic_batch_input_ty) (tensor (ps_rhs_type p))
              (tensor (ps_res_type p)) functionName ci,
            p\<lparr>ps_lhs_type := dynamic_batch_input_ty\<rparr>)))"

definition broadcast_rhs_mmt_text ::
  "('e, 'i) iree \<Rightarrow> ('i compilation_info \<Rightarrow> string) \<Rightarrow> 'e shaped_type \<Rightarrow> 'e problem_size \<Rightarrow> string \<Rightarrow>
   'i compilation_info \<Rightarrow> string" where
  "broadcast_rhs_mmt_text ir str_ci lhs_dynamic_batch p functionName ci =
     unlines
       ['''',
        ''transform.named_sequence @'' @ functionName @ ''(%generic: !transform.any_op {transform.readonly}) -> (!transform.any_op, !transform.any_param) {'',
        ''%mmt = transform.include @match_broadcast_rhs_mmt_i8_i8_i32 failures(propagate) (%generic) : (!transform.any_op) -> !transform.any_op'',
        ''%lhs = transform.get_operand %generic[0] : (!transform.any_op) -> !transform.any_value'',
        ''%rhs = transform.get_operand %generic[1] : (!transform.any_op) -> !transform.any_value'',
        ''transform.iree.match.cast_compatible_type %lhs = tensor<'' @ shaped_str ir lhs_dynamic_batch @ ''> : !transform.any_value'',
        ''transform.iree.match.cast_compatible_type %rhs = tensor<'' @ shaped_str ir (ps_rhs_type p) @ ''> : !transform.any_value'',
        ''%config = transform.param.constant '' @ str_ci ci @ '' -> !transform.any_param'',
        ''transform.yield %generic, %config : !transform.any_op, !transform.any_param'',
        ''}'']"

definition get_transform_function_broadcast_rhs_mmt ::
  "('e, 'i) iree \<Rightarrow> ('i compilation_info \<Rightarrow> string) \<Rightarrow> 'e problem_size \<Rightarrow> string \<Rightarrow> 'i compilation_info \<Rightarrow>
   (string \<times> 'e problem_size) res" where
  "get_transform_function_broadcast_rhs_mmt ir str_ci p functionName ci =
     res_bind (dynamic_batch (ps_lhs_type p)) (\<lambda>lhs_dynamic_batch.
     Inr (broadcast_rhs_mmt_text ir str_ci lhs_dynamic_batch p functionName ci,
          p\<lparr>ps_lhs_type := lhs_dynamic_batch\<rparr>))"

definition get_transform_function_batch_mmt ::
  "('e, 'i) iree \<Rightarrow> ('i compilation_info \<Rightarrow> string) \<Rightarrow> 'e problem_size \<Rightarrow> string \<Rightarrow> 'i compilation_info \<Rightarrow> string" where
  "get_transform_function_batch_mmt ir str_ci p functionName ci =
     unlines
       ['''',
        ''transform.named_sequence @'' @ functionName @ ''(%generic: !transform.any_op {transform.readonly}) -> (!transform.any_op, !transform.any_param) {'',
        ''%mmt = transform.include @match_batch_mmt_i8_i8_i32 failures(propagate) (%generic) : (!transform.any_op) -> !transform.any_op'',
        ''%lhs = transform.get_operand %generic[0] : (!transform.any_op) -> !transform.any_value'',
        ''%rhs = transform.get_operand %generic[1] : (!transform.any_op) -> !transform.any_value'',
        ''transform.iree.match.cast_compatible_type %lhs = tensor<'' @ shaped_str ir (ps_lhs_type p) @ ''> : !transform.any_value'',
        ''transform.iree.match.cast_compatible_type %rhs = tensor<'' @ shaped_str ir (ps_rhs_type p) @ ''> : !transform.any_value'',
        ''%config = transform.param.constant '' @ str_ci ci @ '' -> !transform.any_param'',
        ''transform.yield %generic, %config : !transform.any_op, !transform.any_param'',
        ''}'']"

definition get_transform_function_batch_matmul ::
  "('e, 'i) iree \<Rightarrow> ('i compilation_info \<Rightarrow> string) \<Rightarrow> 'e problem_size \<Rightarrow> string \<Rightarrow> string \<Rightarrow>
   'i compilation_info \<Rightarrow> string" where
  "get_transform_function_batch_matmul ir str_ci p tile_dims functionName ci =
     (let input0 = ''tensor<'' @ shaped_str ir (ps_lhs_type p) @ ''>'';
          input1 = ''tensor<'' @ shaped_str ir (ps_rhs_type p) @ ''>'';
          outp = ''tensor<'' @ shaped_str ir (ps_res_type p) @ ''>''
      in unlines
       ['''',
        ''    transform.named_sequence @'' @ functionName @ ''(%batch_matmul: !transform.any_op {transform.readonly})'',
        ''    -> (!transform.any_op, !transform.any_param) {'',
        ''    %ins, %outs = transform.iree.match.cast_compatible_dag_from_root %batch_matmul {'',
        ''    ^bb0(%lhs: '' @ input0 @ '', %rhs: '' @ input1 @ '', %out: '' @ outp @ ''):'',
        ''        %13 = linalg.batch_matmul'',
        ''        ins(%lhs, %rhs : '' @ input0 @ '', '' @ input1 @ '')'',
        ''        outs(%out : '' @ outp @ '') -> '' @ outp,
        ''    } : (!transform.any_op) -> (!transform.any_value, !transform.any_value)'',
        ''        %config = transform.param.constant '' @ str_ci ci @ '' -> !transform.any_param'',
        ''    transform.yield %batch_matmul, %config : !transform.any_op, !transform.any_param'',
        ''    }''] @ ''    '')"

subsection \<open>Applying a configuration\<close>

datatype tuner =
    ContractionOpInterfaceTuner | ConvolutionOpInterfaceTuner
  | MmtTuner | ConvTuner | ContractionTuner dims_config | BatchMmtTuner | BatchMatmulTuner dims_config

text \<open>The function is printed twice: as a comment with a name of its own, then to be embedded. Each
  printing may change the problem size.\<close>

definition transformation ::
  "('e, 'i) iree \<Rightarrow> ('e problem_size \<Rightarrow> string \<Rightarrow> (string \<times> 'e problem_size) res) \<Rightarrow> string \<Rightarrow>
   string list \<Rightarrow> 'i compilation_info \<Rightarrow> 'e problem_size \<Rightarrow> (mlir_transformation \<times> 'e problem_size) res" where
  "transformation ir fn name template ci p =
     res_bind (fn p name) (\<lambda>(txt, p1).
     res_bind (apply_configuration ir template ci) (\<lambda>body.
     res_bind (fn p1 ''match_op'') (\<lambda>(embedded, p2).
     Inr (\<lparr>mt_template = template, mt_modified = indent txt ''//   '' @ body,
            mt_embeddable = indent embedded ''  ''\<rparr>, p2))))"

definition mnk_name :: "int \<Rightarrow> int \<Rightarrow> int \<Rightarrow> string" where
  "mnk_name M N K = str_join ''x'' (map str_int [M, N, K])"

definition mmt_apply_params ::
  "('e, 'i) iree \<Rightarrow> ('i compilation_info \<Rightarrow> string) \<Rightarrow> 'e problem_size \<Rightarrow> string list \<Rightarrow> 'i compilation_info \<Rightarrow>
   (mlir_transformation \<times> 'e problem_size) res" where
  "mmt_apply_params ir str_ci p template ci =
     (let (M, N, K) = ps_MNK p in
      transformation ir (\<lambda>q name. Inr (get_transform_function_mmt ir str_ci q name ci, q))
        (''match_mmt_'' @ mnk_name M N K) template ci p)"

definition conv_apply_params ::
  "('e, 'i) iree \<Rightarrow> ('i compilation_info \<Rightarrow> string) \<Rightarrow> 'e problem_size \<Rightarrow> string list \<Rightarrow> 'i compilation_info \<Rightarrow>
   (mlir_transformation \<times> 'e problem_size) res" where
  "conv_apply_params ir str_ci p template ci =
     res_bind (from_problem_size p) (\<lambda>d.
       transformation ir (\<lambda>q name. get_transform_function_conv ir str_ci q name ci)
         (''match_conv_2d_nhwc_hwcf_Bx'' @
          str_join ''x'' (map str_int [cv_oh d, cv_ow d, cv_oc d, cv_fh d, cv_fw d, cv_ic d])) template ci p)"

definition apply_params_broadcast_rhs_mmt ::
  "('e, 'i) iree \<Rightarrow> ('i compilation_info \<Rightarrow> string) \<Rightarrow> 'e problem_size \<Rightarrow> string list \<Rightarrow> 'i compilation_info \<Rightarrow>
   (mlir_transformation \<times> 'e problem_size) res" where
  "apply_params_broadcast_rhs_mmt ir str_ci p template ci =
     (let (M, N, K) = ps_MNK p in
      transformation ir (\<lambda>q name. get_transform_function_broadcast_rhs_mmt ir str_ci q name ci)
        (''match_broadcast_rhs_mmt_Bx'' @ mnk_name M N K) template ci p)"

definition contraction_apply_params ::
  "('e, 'i) iree \<Rightarrow> ('i compilation_info \<Rightarrow> string) \<Rightarrow> 'e problem_size \<Rightarrow> string list \<Rightarrow> 'i compilation_info \<Rightarrow>
   (mlir_transformation \<times> 'e problem_size) res" where
  "contraction_apply_params ir str_ci p template ci =
     (if is_broadcast_rhs_mmt template then apply_params_broadcast_rhs_mmt ir str_ci p template ci
      else res_bind (apply_configuration ir template ci) (\<lambda>body.
        Inr (\<lparr>mt_template = template, mt_modified = body, mt_embeddable = ''''\<rparr>, p)))"

definition batch_mmt_apply_params ::
  "('e, 'i) iree \<Rightarrow> ('i compilation_info \<Rightarrow> string) \<Rightarrow> 'e problem_size \<Rightarrow> string list \<Rightarrow> 'i compilation_info \<Rightarrow>
   (mlir_transformation \<times> 'e problem_size) res" where
  "batch_mmt_apply_params ir str_ci p template ci =
     (let (M, N, K) = ps_MNK p; B = ms_B (ps_matmul_size p) in
      transformation ir (\<lambda>q name. Inr (get_transform_function_batch_mmt ir str_ci q name ci, q))
        (''match_batch_mmt_'' @ str_int B @ ''x'' @ mnk_name M N K) template ci p)"

definition batch_matmul_apply_params ::
  "('e, 'i) iree \<Rightarrow> ('i compilation_info \<Rightarrow> string) \<Rightarrow> string \<Rightarrow> 'e problem_size \<Rightarrow> string list \<Rightarrow>
   'i compilation_info \<Rightarrow> (mlir_transformation \<times> 'e problem_size) res" where
  "batch_matmul_apply_params ir str_ci tile_dims p template ci =
     (let (M, N, K) = ps_MNK p; B = ms_B (ps_matmul_size p) in
      transformation ir
        (\<lambda>q name. Inr (get_transform_function_batch_matmul ir str_ci q tile_dims name ci, q))
        (''match_batch_matmul_'' @ str_int B @ ''x'' @ mnk_name M N K) template ci p)"

text \<open>Dispatch over the classes.\<close>

definition apply_params ::
  "('e, 'i) iree \<Rightarrow> ('i compilation_info \<Rightarrow> string) \<Rightarrow> tuner \<Rightarrow> 'e problem_size \<Rightarrow> string list \<Rightarrow>
   'i compilation_info \<Rightarrow> (mlir_transformation \<times> 'e problem_size) res" where
  "apply_params ir str_ci t p template ci =
     (case t of
        ContractionOpInterfaceTuner \<Rightarrow> Inl NotImplementedError
      | ConvolutionOpInterfaceTuner \<Rightarrow> Inl NotImplementedError
      | MmtTuner \<Rightarrow> mmt_apply_params ir str_ci p template ci
      | ConvTuner \<Rightarrow> conv_apply_params ir str_ci p template ci
      | ContractionTuner _ \<Rightarrow> contraction_apply_params ir str_ci p template ci
      | BatchMmtTuner \<Rightarrow> batch_mmt_apply_params ir str_ci p template ci
      | BatchMatmulTuner dims \<Rightarrow> batch_matmul_apply_params ir str_ci (dc_tile_dims dims) p template ci)"

definition tuner_supports :: "tuner \<Rightarrow> string \<Rightarrow> bool" where
  "tuner_supports t op_name =
     (case t of
        ContractionOpInterfaceTuner \<Rightarrow> contraction_op_supports op_name
      | ConvolutionOpInterfaceTuner \<Rightarrow> convolution_op_supports op_name
      | MmtTuner \<Rightarrow> mmt_supports op_name
      | ConvTuner \<Rightarrow> conv_supports op_name
      | ContractionTuner _ \<Rightarrow> contraction_supports op_name
      | BatchMmtTuner \<Rightarrow> batch_mmt_supports op_name
      | BatchMatmulTuner _ \<Rightarrow> batch_matmul_supports op_name)"

definition tuner_get_shapes ::
  "'e type_parser \<Rightarrow> (string list \<Rightarrow> 'e mlir_module res) \<Rightarrow> tuner \<Rightarrow> string list \<Rightarrow> 'e problem_size res" where
  "tuner_get_shapes parse parse_module t template =
     (case t of
        ContractionOpInterfaceTuner \<Rightarrow> contraction_op_get_shapes (parse_module template)
      | ConvolutionOpInterfaceTuner \<Rightarrow> convolution_op_get_shapes (parse_module template)
      | MmtTuner \<Rightarrow> mmt_get_shapes parse template
      | ConvTuner \<Rightarrow> conv_get_shapes parse template
      | ContractionTuner dims \<Rightarrow> contraction_get_shapes parse dims template
      | BatchMmtTuner \<Rightarrow> batch_mmt_get_shapes parse template
      | BatchMatmulTuner dims \<Rightarrow> batch_matmul_get_shapes parse dims template)"

subsection \<open>Transform dialect specifications\<close>

definition placeholder_spec_text :: string where
  "placeholder_spec_text =
     unlines
       ['''',
        ''        module attributes { transform.with_named_sequence } {'',
        ''            transform.named_sequence'',
        ''            @__kernel_config(%variant_op: !transform.any_op {transform.readonly}) -> !transform.any_op'',
        ''                attributes { iree_codegen.tuning_spec_entrypoint } {'',
        ''                transform.yield %variant_op : !transform.any_op'',
        ''            }'',
        ''        }''] @ ''        ''"

record 'e mlir_printer =
  str_type :: "'e mlir_type \<Rightarrow> string"
  str_op :: "'e mlir_op \<Rightarrow> string"
  str_attr :: "mlir_attr \<Rightarrow> string"

fun bbargs_of :: "'e mlir_printer \<Rightarrow> string list \<Rightarrow> (string \<times> 'e mlir_type) list \<Rightarrow> string list" where
  "bbargs_of pr captured_values [] = []"
| "bbargs_of pr captured_values ((ssa_name, operand_type) # operands) =
     (if ssa_name \<in> set captured_values then bbargs_of pr captured_values operands
      else (ssa_name @ '': '' @ str_type pr operand_type) #
           bbargs_of pr (ssa_name # captured_values) operands)"

definition td_spec_text ::
  "('i compilation_info \<Rightarrow> string) \<Rightarrow> string \<Rightarrow> string \<Rightarrow> string \<Rightarrow> 'i compilation_info \<Rightarrow> string" where
  "td_spec_text str_ci bbargs_str root_operation func_name ci =
     unlines
       ['''',
        ''        module attributes { transform.with_named_sequence } {'',
        ''            // Annotation Transform'',
        ''            transform.named_sequence @apply_op_config(%op: !transform.any_op {transform.readonly},'',
        ''                                                        %config: !transform.any_param {transform.readonly}) {'',
        ''                transform.annotate %op '' @ [quote_mark] @ ''compilation_info'' @ [quote_mark] @ '' = %config : !transform.any_op, !transform.any_param'',
        ''                transform.yield'',
        ''            }'',
        '''',
        ''            // Custom Op Matcher'',
        ''            transform.named_sequence @'' @ func_name @ ''(%cont: !transform.any_op {transform.readonly})'',
        ''                -> (!transform.any_op, !transform.any_param) {'',
        ''                %ins, %outs = transform.iree.match.cast_compatible_dag_from_root %cont {'',
        ''                ^bb0('' @ bbargs_str @ ''):'',
        ''                '' @ root_operation,
        ''                } : (!transform.any_op) -> (!transform.any_value, !transform.any_value)'',
        ''                %config = transform.param.constant '' @ str_ci ci @ '' -> !transform.any_param'',
        ''                transform.yield %cont, %config : !transform.any_op, !transform.any_param'',
        ''            }'',
        '''',
        ''            // Entry Point'',
        ''            transform.named_sequence'',
        ''            @__kernel_config(%variant_op: !transform.any_op {transform.consumed}) -> !transform.any_op'',
        ''                attributes { iree_codegen.tuning_spec_entrypoint } {'',
        ''                %res = transform.foreach_match in %variant_op'',
        ''                    @'' @ func_name @ '' -> @apply_op_config'',
        ''                : (!transform.any_op) -> !transform.any_op'',
        ''                transform.yield %res : !transform.any_op'',
        ''            }'',
        ''        }''] @ ''        ''"

text \<open>The \<open>root_op\<close> attribute is removed while the operation is printed and set again afterwards. The
  text is then parsed by MLIR.\<close>

definition build_td_spec ::
  "'e mlir_printer \<Rightarrow> ('i compilation_info \<Rightarrow> string) \<Rightarrow> (string \<Rightarrow> 'm res) \<Rightarrow> 'e mlir_op \<Rightarrow> 'i compilation_info \<Rightarrow>
   string \<Rightarrow> 'm res \<times> 'e mlir_op" where
  "build_td_spec pr str_ci parse_spec op ci func_name =
     (let attrs = mo_attributes op; has_root_attr = is_root_op op in
      if has_root_attr \<and> map_of attrs root_op_attr_name \<noteq> Some UnitAttr then (Inl AssertionError, op)
      else
       (let others = filter (\<lambda>(name, _). name \<noteq> root_op_attr_name) attrs;
            stripped = op\<lparr>mo_attributes := others\<rparr>;
            root_operation = str_op pr stripped;
            op1 = (if has_root_attr then op\<lparr>mo_attributes := others @ [(root_op_attr_name, UnitAttr)]\<rparr> else op);
            bbargs_str = str_join '', '' (bbargs_of pr [] (mo_operands op))
        in (parse_spec (td_spec_text str_ci bbargs_str root_operation func_name ci), op1)))"

definition shaped_operand :: "string \<times> 'e mlir_type \<Rightarrow> 'e shaped_type res" where
  "shaped_operand operand =
     (case snd operand of TensorType t \<Rightarrow> Inr t | OtherShaped t \<Rightarrow> Inr t | NotShaped \<Rightarrow> Inl ValueError)"

definition nth_operand :: "'e mlir_op \<Rightarrow> nat \<Rightarrow> 'e shaped_type res" where
  "nth_operand op i = res_bind (list_get (mo_operands op) i) shaped_operand"

definition sizes_of :: "('e shaped_type \<times> nat) list \<Rightarrow> int list res" where
  "sizes_of ds = res_map (\<lambda>(t, i). list_get (sh_shape t) i) ds"

definition types_name :: "('e, 'i) iree \<Rightarrow> 'e shaped_type \<Rightarrow> 'e shaped_type \<Rightarrow> 'e shaped_type \<Rightarrow> string" where
  "types_name ir l r a = str_join ''x'' (map (\<lambda>t. iree_type_str ir (sh_element_type t)) [l, r, a])"

definition contraction_op_td_spec ::
  "('e, 'i) iree \<Rightarrow> 'e mlir_printer \<Rightarrow> ('i compilation_info \<Rightarrow> string) \<Rightarrow> (string \<Rightarrow> 'm res) \<Rightarrow>
   'e mlir_module \<Rightarrow> 'i compilation_info \<Rightarrow> 'm res" where
  "contraction_op_td_spec ir pr str_ci parse_spec module ci =
     (case get_contraction_operation module of
        None \<Rightarrow> Inl AttributeError
      | Some op \<Rightarrow>
         res_bind (nth_operand op 0) (\<lambda>lhs_type. res_bind (nth_operand op 1) (\<lambda>rhs_type.
         res_bind (nth_operand op 2) (\<lambda>acc_type.
         res_bind (sizes_of [(acc_type, 0), (acc_type, 1), (lhs_type, 1)]) (\<lambda>mnk.
         fst (build_td_spec pr str_ci parse_spec op ci
           (''match_contraction_'' @ str_join ''x'' (map str_int mnk) @ ''_'' @
            types_name ir lhs_type rhs_type acc_type)))))))"

definition convolution_op_td_spec ::
  "('e, 'i) iree \<Rightarrow> 'e mlir_printer \<Rightarrow> ('i compilation_info \<Rightarrow> string) \<Rightarrow> (string \<Rightarrow> 'm res) \<Rightarrow>
   'e mlir_module \<Rightarrow> 'i compilation_info \<Rightarrow> 'm res" where
  "convolution_op_td_spec ir pr str_ci parse_spec module ci =
     (case get_conv_operation module of
        None \<Rightarrow> Inl AttributeError
      | Some op \<Rightarrow>
         if mo_name op \<noteq> ''linalg.conv_2d_nhwc_hwcf'' then Inl AssertionError
         else
         res_bind (nth_operand op 0) (\<lambda>lhs_type. res_bind (nth_operand op 1) (\<lambda>rhs_type.
         res_bind (nth_operand op 2) (\<lambda>acc_type.
         res_bind (sizes_of [(acc_type, 0), (acc_type, 1), (acc_type, 2), (rhs_type, 2), (rhs_type, 0),
                             (rhs_type, 1), (rhs_type, 3)]) (\<lambda>nhwcpqf.
         fst (build_td_spec pr str_ci parse_spec op ci
           (''match_'' @ last (str_split ''.'' (mo_name op)) @ ''_'' @ str_join ''x'' (map str_int nhwcpqf) @
            ''_'' @ types_name ir lhs_type rhs_type acc_type)))))))"

definition get_td_spec ::
  "('e, 'i) iree \<Rightarrow> 'e mlir_printer \<Rightarrow> ('i compilation_info \<Rightarrow> string) \<Rightarrow> (string \<Rightarrow> 'm res) \<Rightarrow> tuner \<Rightarrow>
   'e mlir_module \<Rightarrow> 'i compilation_info \<Rightarrow> 'm res" where
  "get_td_spec ir pr str_ci parse_spec t module ci =
     (case t of
        ContractionOpInterfaceTuner \<Rightarrow> contraction_op_td_spec ir pr str_ci parse_spec module ci
      | ConvolutionOpInterfaceTuner \<Rightarrow> convolution_op_td_spec ir pr str_ci parse_spec module ci
      | _ \<Rightarrow> Inl NotImplementedError)"

subsection \<open>Finding the dispatch tuner\<close>

definition validate_translation ::
  "'e mlir_printer \<Rightarrow> bool \<Rightarrow> (string \<times> mlir_attr) list \<Rightarrow> bool res" where
  "validate_translation pr check_translation_info attrs =
     (if \<not> check_translation_info then Inr True
      else if list_ex (\<lambda>(name, a). name = ''translation_info'' \<and>
                 sublist ''LLVMGPUVectorDistribute'' (str_attr pr a)) attrs then Inr True
      else Inl AssertionError)"

text \<open>The registered objects come in the iteration order of the set.\<close>

definition find_handler :: "tuner list \<Rightarrow> string \<Rightarrow> tuner res" where
  "find_handler registry op_name =
     (case find (\<lambda>t. tuner_supports t op_name) registry of
        None \<Rightarrow> Inl AssertionError
      | Some t \<Rightarrow> Inr t)"

text \<open>\<open>None\<close> is \<open>WalkResult.ADVANCE\<close>, a tuner interrupts the walk.\<close>

definition walk_callback_get_fn ::
  "'e mlir_printer \<Rightarrow> ('e mlir_op \<Rightarrow> string) \<Rightarrow> bool \<Rightarrow> tuner list \<Rightarrow> 'e mlir_op \<Rightarrow> tuner option res" where
  "walk_callback_get_fn pr sym_name check registry op =
     res_bind (if mo_name op = ''func.func'' then validate_translation pr check (mo_attributes op) else Inr True)
       (\<lambda>_. if mo_name op = ''util.func''
            then res_bind (find_handler registry (sym_name op)) (\<lambda>t. Inr (Some t))
            else Inr None)"

fun walk_ops :: "('e mlir_op \<Rightarrow> tuner option res) \<Rightarrow> 'e mlir_op list \<Rightarrow> tuner option res" where
  "walk_ops fn [] = Inr None"
| "walk_ops fn (op # ops) =
     (case fn op of Inl e \<Rightarrow> Inl e | Inr (Some t) \<Rightarrow> Inr (Some t) | Inr None \<Rightarrow> walk_ops fn ops)"

fun walk_body :: "('e mlir_op \<Rightarrow> tuner option res) \<Rightarrow> 'e mlir_module \<Rightarrow> tuner option res" where
  "walk_body fn [] = Inr None"
| "walk_body fn (ops # module) =
     (case walk_ops fn ops of Inl e \<Rightarrow> Inl e | Inr (Some t) \<Rightarrow> Inr (Some t) | Inr None \<Rightarrow> walk_body fn module)"

definition walk_mlir_op ::
  "'e mlir_printer \<Rightarrow> ('e mlir_op \<Rightarrow> string) \<Rightarrow> bool \<Rightarrow> tuner list \<Rightarrow> 'e mlir_module \<Rightarrow> tuner option res" where
  "walk_mlir_op pr sym_name check registry module =
     walk_body (walk_callback_get_fn pr sym_name check registry) module"

subsection \<open>The generation loops\<close>

text \<open>
  What surrounds a module: \<open>te_variants\<close> is, for each executable variant, the MMA intrinsics its
  target supports. \<open>for i, config in enumerate(gen)\<close> with \<open>if i >= limit: break\<close> calls \<open>next\<close> at most
  \<open>limit + 1\<close> times, and once even if the limit is not positive.
\<close>

record ('e, 'i) tune_env =
  te_ir :: "('e, 'i) iree"
  te_printer :: "'e mlir_printer"
  te_str_ci :: "'i compilation_info \<Rightarrow> string"
  te_pipeline_options :: string
  te_solve :: "z3_constraint list \<Rightarrow> z3_model option"
  te_parse_type :: "'e type_parser"
  te_parse_module :: "string \<Rightarrow> 'e mlir_module option"
  te_sym_name :: "'e mlir_op \<Rightarrow> string"
  te_variants :: "'e mlir_module \<Rightarrow> 'i list list"
  te_registry_order :: "tuner list \<Rightarrow> tuner list"

definition path_join :: "string \<Rightarrow> string \<Rightarrow> string" where
  "path_join a b = (if a = [] \<or> last a = CHR ''/'' then a @ b else a @ ''/'' @ b)"

type_synonym file_writes = "(string \<times> string) list"

fun write_candidates ::
  "('e, 'i) tune_env \<Rightarrow> tuner \<Rightarrow> string \<Rightarrow> string list \<Rightarrow> nat \<Rightarrow> 'e problem_size \<Rightarrow> 'i compilation_info list \<Rightarrow>
   unit res \<times> file_writes" where
  "write_candidates te t output template i p [] = (Inr (), [])"
| "write_candidates te t output template i p (ci # cis) =
     (case apply_params (te_ir te) (te_str_ci te) t p template ci of
        Inl e \<Rightarrow> (Inl e, [])
      | Inr (tf_mlir, p1) \<Rightarrow>
          (let (res, writes) = write_candidates te t output template (Suc i) p1 cis in
           (res, (path_join output (nat_str (i + 1) @ ''.mlir''), mt_modified tf_mlir) #
                 (path_join output (nat_str (i + 1) @ ''_config.mlir''), mt_embeddable tf_mlir) # writes)))"

definition solutions_for ::
  "('e, 'i) tune_env \<Rightarrow> 'e problem_size \<Rightarrow> int \<Rightarrow> int \<Rightarrow> 'i list \<Rightarrow> 'i compilation_info list \<times> gen_end" where
  "solutions_for te p limit num_subgroups mma_list =
     (let (cis, how) = generate_solutions (te_ir te) (te_pipeline_options te) (te_solve te) p num_subgroups
                         mma_list (nat limit + 1)
      in (take (nat limit) cis, how))"

definition tune_registry :: "dims_config \<Rightarrow> tuner list" where
  "tune_registry dims =
     [MmtTuner, ConvTuner, ContractionTuner dims, BatchMmtTuner, BatchMatmulTuner dims]"

definition tune ::
  "('e, 'i) tune_env \<Rightarrow> string list \<Rightarrow> string \<Rightarrow> int \<Rightarrow> int \<Rightarrow> dims_config \<Rightarrow> unit res \<times> file_writes" where
  "tune te mlir_template output limit num_subgroups dims =
     (let mlir_text = concat mlir_template in
      case parse_mlir (te_parse_module te) mlir_text of
        Inl e \<Rightarrow> (Inl e, [])
      | Inr mlir_module \<Rightarrow>
         (let start = (path_join output ''0.mlir'', mlir_text);
              found = walk_mlir_op (te_printer te) (te_sym_name te) True
                        (te_registry_order te (tune_registry dims)) mlir_module
          in case found of
               Inl e \<Rightarrow> (Inl e, [start])
             | Inr handler \<Rightarrow>
                (case (te_variants te mlir_module, handler) of
                   ([mma_list], Some t) \<Rightarrow>
                     (case tuner_get_shapes (te_parse_type te) (\<lambda>_. Inl NotImplementedError) t mlir_template of
                        Inl e \<Rightarrow> (Inl e, [start])
                      | Inr p \<Rightarrow>
                          (let (cis, how) = solutions_for te p limit num_subgroups mma_list;
                               (res, writes) = write_candidates te t output mlir_template 0 p cis
                           in (case res of
                                 Inl e \<Rightarrow> Inl e
                               | Inr _ \<Rightarrow> (case how of Raised e \<Rightarrow> Inl e | _ \<Rightarrow> Inr ()), start # writes)))
                 | _ \<Rightarrow> (Inl AssertionError, [start]))))"

definition td_registry :: "tuner list" where
  "td_registry = [ContractionOpInterfaceTuner, ConvolutionOpInterfaceTuner]"

definition generate_configs_and_td_specs ::
  "('e, 'i) tune_env \<Rightarrow> (string \<Rightarrow> 'm res) \<Rightarrow> (string list \<Rightarrow> 'e mlir_module res) \<Rightarrow> string list \<Rightarrow>
   'e mlir_module \<Rightarrow> int \<Rightarrow> int \<Rightarrow> 'm list res" where
  "generate_configs_and_td_specs te parse_spec reparse module_lines input_module limit num_subgroups =
     res_bind (walk_mlir_op (te_printer te) (te_sym_name te) False
                 (te_registry_order te td_registry) input_module) (\<lambda>handler.
     (case handler of
        None \<Rightarrow> Inl AssertionError
      | Some t \<Rightarrow>
         res_bind (tuner_get_shapes (te_parse_type te) reparse t module_lines) (\<lambda>p.
         res_bind (parse_spec placeholder_spec_text) (\<lambda>placeholder.
         (case te_variants te input_module of
            [mma_list] \<Rightarrow>
              (let (cis, how) = solutions_for te p limit num_subgroups mma_list in
               res_bind (res_map (get_td_spec (te_ir te) (te_printer te) (te_str_ci te) parse_spec t input_module) cis)
                 (\<lambda>specs. case how of Raised e \<Rightarrow> Inl e | _ \<Rightarrow> Inr (placeholder # specs)))
          | _ \<Rightarrow> Inl AssertionError)))))"

end
