(* ===== verification/Tuner_Properties.thy ===== *)
theory Tuner_Properties
  imports Tuner_Solutions Tuner_Gen
begin

section \<open>Properties of candidate generation\<close>

text \<open>
  The properties of the constraint system, the parsers and the registry of the tuner, each with an
  instance on a small target: one intrinsic of shape 32 x 32 x 8 and a solver that searches a list.
\<close>

subsection \<open>A small target\<close>

datatype demo_type = F16 | F32 | I8

definition demo_iree :: "(demo_type, nat) iree" where
  "demo_iree = \<lparr>iree_width = (\<lambda>t. case t of F16 \<Rightarrow> 16 | F32 \<Rightarrow> 32 | I8 \<Rightarrow> 8), iree_isa = (=),
     iree_type_str = (\<lambda>t. case t of F16 \<Rightarrow> ''f16'' | F32 \<Rightarrow> ''f32'' | I8 \<Rightarrow> ''i8''),
     iree_abc = (\<lambda>_. (F16, F16, F32)), iree_mnk = (\<lambda>_. (32, 32, 8)), iree_intrinsics = [0],
     iree_mma_str = (\<lambda>_. ''#iree_gpu.mma_layout<MFMA_F32_32x32x8_F16>'')\<rparr>"

definition demo_problem :: "dispatch_kind \<Rightarrow> demo_type \<Rightarrow> demo_type problem_size" where
  "demo_problem kind operand =
     \<lparr>ps_matmul_size = \<lparr>ms_M = 64, ms_N = 32, ms_K = 32, ms_B = 1\<rparr>,
      ps_lhs_type = \<lparr>sh_shape = [64, 32], sh_element_type = operand\<rparr>,
      ps_rhs_type = \<lparr>sh_shape = [32, 32], sh_element_type = operand\<rparr>,
      ps_res_type = \<lparr>sh_shape = [64, 32], sh_element_type = F32\<rparr>, ps_dispatch_kind = kind\<rparr>"

definition demo_model :: z3_model where
  "demo_model = \<lparr>zm_m = 64, zm_n = 32, zm_k = 32, zm_subgroup_size = 64, zm_intrinsic_mn = 32,
     zm_intrinsic_k = 8, zm_wg_x = 64, zm_wg_y = 1, zm_wg_z = 1, zm_sg_m_cnt = 1, zm_sg_n_cnt = 1,
     zm_waves_per_eu = 2, zm_wg_threads = 64, zm_sg_m_tcnt = 2, zm_sg_n_tcnt = 1, zm_sg_k_tcnt = 4\<rparr>"

definition demo_solve :: "z3_constraint list \<Rightarrow> z3_model option" where
  "demo_solve cs = find (satisfies cs) [demo_model]"

lemma demo_solve_sound: "sound_solver demo_solve"
  by (auto simp: sound_solver_def demo_solve_def split: if_splits)

definition demo_solutions :: "nat compilation_info list \<times> gen_end" where
  "demo_solutions = generate_solutions demo_iree ''opts'' demo_solve (demo_problem KContraction F16) 1 [0] 200000000"

definition demo_constraints :: "z3_constraint list" where
  "demo_constraints =
     (case generate_constraints demo_iree (demo_problem KContraction F16) 1 [0] of Inr cs \<Rightarrow> cs)"

lemma demo_constraints_eq:
  "generate_constraints demo_iree (demo_problem KContraction F16) 1 [0] = Inr demo_constraints"
  by (simp add: demo_constraints_def generate_constraints_def get_mfma_intrinsic_constraints_def
      get_dispatch_constraints_def get_compatible_mfma_intrinsics_def is_comptible_def demo_iree_def
      demo_problem_def)

lemma demo_unique: "satisfies demo_constraints v \<Longrightarrow> v = demo_model"
proof -
  assume v: "satisfies demo_constraints v"
  note sat = generate_constraints_tiles [OF demo_constraints_eq v]
  have shape: "zm_intrinsic_mn v = 32" "zm_intrinsic_k v = 8" using sat(8) by (auto simp: demo_iree_def)
  have c: "satisfies (tile_constraints (64, 32, 32)) v" and num: "satisfies (subgroup_constraints 1) v"
    using sat(1,2) by (simp_all add: ps_MNK_def demo_problem_def)
  have "zm_sg_m_cnt v * zm_sg_n_cnt v = 1" using num by (simp add: subgroup_constraints_def)
  then have one: "zm_sg_m_cnt v = 1" "zm_sg_n_cnt v = 1"
    using c by (auto simp: tile_constraints_def zmult_eq_1_iff)
  have t: "zm_m v = zm_sg_m_tcnt v * 32" "zm_n v = zm_sg_n_tcnt v * 32" "zm_k v = zm_sg_k_tcnt v * 8"
    "zm_wg_x v = 64" "zm_wg_y v = 1" "zm_wg_z v = 1"
    using c sat(4) by (simp_all add: tile_constraints_def shape one)
  have u: "zm_sg_m_tcnt v \<le> 2" "zm_sg_n_tcnt v \<le> 1" "zm_sg_k_tcnt v \<le> 4" "1 \<le> zm_sg_n_tcnt v"
    "1 \<le> zm_sg_k_tcnt v" "zm_sg_k_tcnt v * 8 mod 32 = 0" "2 \<le> zm_sg_n_tcnt v \<or> 2 \<le> zm_sg_m_tcnt v"
    using c by (auto simp add: tile_constraints_def shape one t)
  have "zm_sg_n_tcnt v = 1" "zm_sg_m_tcnt v = 2" "zm_sg_k_tcnt v = 4"
    using u by presburger+
  then show ?thesis using sat(3,4,6) t one shape by (simp add: demo_model_def)
qed

lemma demo_complete: "complete_from demo_solve demo_constraints"
  unfolding complete_from_def
proof (intro allI impI notI)
  fix bs v
  assume none: "demo_solve (demo_constraints @ map block_model bs) = None"
    and sat: "satisfies (demo_constraints @ map block_model bs) v"
  then have "v = demo_model" by (simp add: demo_unique)
  with none sat show False by (simp add: demo_solve_def split: if_splits)
qed

definition demo_config :: "nat compilation_info" where
  "demo_config =
     (case solution_of demo_iree ''opts'' (demo_problem KContraction F16) demo_model of Inr ci \<Rightarrow> ci)"

lemma demo_run: "demo_solutions = ([demo_config], Exhausted)"
proof -
  have "satisfies demo_constraints demo_model" by code_simp
  then have start: "demo_solve demo_constraints = Some demo_model" by (simp add: demo_solve_def)
  have stop: "demo_solve (demo_constraints @ [block_model demo_model]) = None"
    by (simp add: demo_solve_def block_model_def)
  have "solution_of demo_iree ''opts'' (demo_problem KContraction F16) demo_model = Inr demo_config"
    by code_simp
  with start stop have "solution_loop demo_iree ''opts'' (demo_problem KContraction F16) demo_solve (Suc (Suc n))
      demo_constraints = ([demo_config], Exhausted)" for n by simp
  from this [of 199999998] show ?thesis
    by (simp add: demo_solutions_def generate_solutions_def demo_constraints_eq)
qed

subsection \<open>The enumerated configurations\<close>

text \<open>
  C32: with a sound solver, every configuration the generator yields satisfies: the tile is
  the product of subgroup counts, tile counts and the shape of an intrinsic of the target that is compatible
  with the problem, its N and K sides divide the problem's and no side exceeds 512, the workgroup has 64
  threads for each subgroup and at most 1024, the threads divide the tile's two products, and both operands
  fit the 64 KiB of shared memory. The intrinsic named in the configuration has this shape and the classes of
  the problem's element types, and is one of the enumeration, not necessarily of the target: see
  \<open>tuner_foreign_intrinsic\<close>. No two configurations are equal, and there are at most \<open>32 ^ 5\<close> for each
  intrinsic of the target.
\<close>

theorem tuner_configs_sound:
  assumes "sound_solver solve"
    and "generate_solutions ir opts solve p num_subgroups mmas n = (cis, how)"
  shows "list_all (config_ok ir p num_subgroups mmas) cis \<and> distinct cis \<and> length cis \<le> search_bound mmas"
proof (cases "cis = []")
  case False
  with assms(2) obtain cs where cs: "generate_constraints ir p num_subgroups mmas = Inr cs"
    and loop: "solution_loop ir opts p solve n cs = (cis, how)"
    by (auto simp: generate_solutions_def split: if_splits sum.splits)
  from solution_loop_models [OF assms(1) loop] obtain vs where
    "list_all2 (\<lambda>v ci. satisfies cs v \<and> solution_of ir opts p v = Inr ci) vs cis" by blast
  then have "list_all (config_ok ir p num_subgroups mmas) cis"
    using model_config_ok [OF cs] by (fastforce simp: list_all2_conv_all_nth list_all_length)
  with solution_loop_distinct [OF assms(1) cs loop] solution_loop_bound [OF assms(1) cs loop]
  show ?thesis by simp
qed simp

theorem tuner_configs_sound_witness:
  "list_all (config_ok demo_iree (demo_problem KContraction F16) 1 [0]) (fst demo_solutions) \<and>
   length (fst demo_solutions) = 1"
  using tuner_configs_sound [OF demo_solve_sound, of demo_iree "''opts''" "demo_problem KContraction F16" 1 "[0]"
      200000000 "fst demo_solutions" "snd demo_solutions"]
  by (simp add: demo_solutions_def [symmetric] demo_run)

text \<open>
  The search for an attribute does not know the target: of two intrinsics with one shape and one set of
  element types, the target has the second, and the configuration names the first.
\<close>

definition demo_iree_two :: "(demo_type, nat) iree" where
  "demo_iree_two = demo_iree\<lparr>iree_intrinsics := [1, 0]\<rparr>"

lemma tuner_foreign_intrinsic:
  "map mma_kind (fst (generate_solutions demo_iree_two ''opts'' demo_solve (demo_problem KContraction F16) 1 [0] (Suc 0)))
     = [Some 1]"
proof -
  obtain cs where cs: "generate_constraints demo_iree_two (demo_problem KContraction F16) 1 [0] = Inr cs"
    and sat: "satisfies cs demo_model"
    by (simp add: generate_constraints_def get_mfma_intrinsic_constraints_def get_dispatch_constraints_def
        get_compatible_mfma_intrinsics_def is_comptible_def demo_iree_two_def demo_iree_def demo_problem_def demo_model_def
        tile_constraints_def subgroup_constraints_def ps_MNK_def calculate_shared_memory_usage_in_bytes_def
        shaped_bitwidth_def)
  have "map_sum id mma_kind (solution_of demo_iree_two ''opts'' (demo_problem KContraction F16) demo_model) = Inr (Some 1)"
    by code_simp
  then obtain ci where ci: "solution_of demo_iree_two ''opts'' (demo_problem KContraction F16) demo_model = Inr ci"
    and "mma_kind ci = Some 1"
    by (cases "solution_of demo_iree_two ''opts'' (demo_problem KContraction F16) demo_model") auto
  with cs sat show ?thesis by (simp add: generate_solutions_def demo_solve_def)
qed

text \<open>
  C34: with a sound solver, and once the constraints are built and more configurations are asked for than there can
  be, the generator is exhausted or has raised. It is exhausted, for every dispatch kind but \<open>batch_matmul\<close>, if
  the target's intrinsics are in the enumeration and \<open>isinstance\<close> is symmetric on element types (\<open>concrete_classes\<close>). If it is
  exhausted and the solver answers "unsatisfiable" only for unsatisfiable systems, every
  assignment that satisfies the constraints has had its configuration yielded. Where it raised, which
  \<open>batch_matmul\<close> can (\<open>tuner_batch_matmul_raises\<close>), satisfying assignments remain without one.
\<close>

theorem tuner_search_ends:
  assumes "sound_solver solve" and "generate_constraints ir p num_subgroups mmas = Inr cs"
    and "search_bound mmas < n" and "generate_solutions ir opts solve p num_subgroups mmas n = (cis, how)"
  shows "how \<noteq> Suspended \<and>
    (ps_dispatch_kind p \<noteq> KBatchMatmul \<longrightarrow> concrete_classes ir \<longrightarrow> set mmas \<subseteq> set (iree_intrinsics ir) \<longrightarrow>
      how = Exhausted) \<and>
    (how = Exhausted \<longrightarrow> complete_from solve cs \<longrightarrow> satisfies cs v \<longrightarrow>
      (\<exists>ci \<in> set cis. solution_of ir opts p v = Inr ci))"
proof -
  have loop: "solution_loop ir opts p solve n cs = (cis, how)"
    using assms(2-4) by (simp add: generate_solutions_def)
  have ends: "how \<noteq> Suspended"
    using solution_loop_bound [OF assms(1,2) loop] solution_loop_suspended assms(3) loop by fastforce
  have "how = Exhausted"
    if "ps_dispatch_kind p \<noteq> KBatchMatmul" "concrete_classes ir" "set mmas \<subseteq> set (iree_intrinsics ir)"
  proof -
    have "snd (solution_loop ir opts p solve n cs) \<noteq> Raised e" for e
      by (rule solution_loop_total [OF assms(1)]) (rule solution_of_total [OF assms(2) _ that])
    with loop ends show ?thesis by (cases how) auto
  qed
  moreover have "\<exists>ci \<in> set cis. solution_of ir opts p v = Inr ci"
    if "how = Exhausted" "complete_from solve cs" "satisfies cs v"
    using solution_loop_exhaustive [OF that(2) _ that(3)] loop that(1) by simp
  ultimately show ?thesis using ends by blast
qed

theorem tuner_search_ends_witness:
  "snd demo_solutions = Exhausted \<and> satisfies demo_constraints demo_model \<and>
   (\<exists>ci. ci \<in> set (fst demo_solutions) \<and>
      solution_of demo_iree ''opts'' (demo_problem KContraction F16) demo_model = Inr ci)"
proof -
  have sat: "satisfies demo_constraints demo_model" by code_simp
  have "concrete_classes demo_iree" "set [0] \<subseteq> set (iree_intrinsics demo_iree)"
    "ps_dispatch_kind (demo_problem KContraction F16) \<noteq> KBatchMatmul" "search_bound [0 :: nat] < 200000000"
    by (simp_all add: concrete_classes_def demo_iree_def demo_problem_def search_bound_def)
  with tuner_search_ends [OF demo_solve_sound demo_constraints_eq, of 200000000 "''opts''"
      "fst demo_solutions" "snd demo_solutions" demo_model] demo_complete sat
  show ?thesis by (auto simp: demo_solutions_def [symmetric])
qed

text \<open>
  For \<open>batch_matmul\<close> the compatible intrinsics are chosen by the result type alone, but the
  configuration needs one that fits the operands too: with an \<open>i8\<close> problem and an \<open>f16\<close> intrinsic
  that has the right result type, the generator raises ValueError at the first assignment instead of
  yielding no candidates; the same problem as a contraction fails the assertion that an intrinsic exists.
\<close>

theorem tuner_batch_matmul_raises:
  "generate_solutions demo_iree ''opts'' demo_solve (demo_problem KBatchMatmul I8) 1 [0] (Suc n) =
     ([], Raised ValueError) \<and>
   generate_solutions demo_iree ''opts'' demo_solve (demo_problem KContraction I8) 1 [0] (Suc n) =
     ([], Raised AssertionError)"
proof
  let ?p = "demo_problem KBatchMatmul I8"
  obtain cs where cs: "generate_constraints demo_iree ?p 1 [0] = Inr cs"
    and sat: "satisfies cs demo_model"
    by (simp add: generate_constraints_def get_mfma_intrinsic_constraints_def get_dispatch_constraints_def
        get_compatible_mfma_intrinsics_def is_comptible_def demo_iree_def demo_problem_def demo_model_def
        tile_constraints_def subgroup_constraints_def ps_MNK_def calculate_shared_memory_usage_in_bytes_def
        shaped_bitwidth_def)
  have "solution_of demo_iree ''opts'' ?p demo_model = Inl ValueError"
    by (simp add: solution_of_def getMMAAttr_def demo_iree_def demo_problem_def demo_model_def)
  with cs sat show "generate_solutions demo_iree ''opts'' demo_solve ?p 1 [0] (Suc n) = ([], Raised ValueError)"
    by (simp add: generate_solutions_def demo_solve_def)
qed (simp add: generate_solutions_def generate_constraints_def get_mfma_intrinsic_constraints_def
    get_compatible_mfma_intrinsics_def is_comptible_def demo_iree_def demo_problem_def)

end
