(* ===== verification/Tuner_Parse_Properties.thy ===== *)
theory Tuner_Parse_Properties
  imports Tuner_Gen
begin

section \<open>Properties of the parsers and the registry\<close>

text \<open>The parsers against what the texts say: alternatives of a regular expression, printed operands, contraction sizes.\<close>

subsection \<open>The first way to match\<close>

definition first_way :: "re list \<Rightarrow> string \<Rightarrow> string list \<Rightarrow> string \<Rightarrow> bool" where
  "first_way items s caps r \<longleftrightarrow> (\<exists>ms. rseq items s = (caps, r) # ms)"

named_theorems way_intros \<open>how the first way to match is built up\<close>

lemma way_nil [way_intros]: "first_way [] s [] s"
  by (simp add: first_way_def)

lemma way_lit [way_intros]: "first_way is s caps r \<Longrightarrow> first_way (RLit l # is) (l @ s) caps r"
  unfolding first_way_def by (subst rseq_lit)

lemma way_plus [way_intros]:
  "list_all p w \<Longrightarrow> w \<noteq> [] \<Longrightarrow> s = [] \<or> \<not> p (hd s) \<Longrightarrow> first_way is s caps r \<Longrightarrow>
   first_way (RPlus p # is) (w @ s) caps r"
  unfolding first_way_def using rseq_plus by blast

lemma way_cap [way_intros]:
  "first_way items (w @ s) caps s \<Longrightarrow> first_way is s caps' r \<Longrightarrow>
   first_way (RCap items # is) (w @ s) (w # caps @ caps') r"
  unfolding first_way_def using rseq_cap by blast

lemma way_search: "first_way items s caps r \<Longrightarrow> re_search items s = Some caps"
  unfolding first_way_def using re_search_here by blast

subsection \<open>Printed operands\<close>

definition tensor_text :: "string \<Rightarrow> string" where
  "tensor_text t = ''tensor<'' @ t @ ''>''"

definition dps_text :: "string \<Rightarrow> string \<Rightarrow> string \<Rightarrow> string \<Rightarrow> string \<Rightarrow> string \<Rightarrow> string \<Rightarrow> string" where
  "dps_text a b c l r q ws =
     ''ins('' @ ''%'' @ a @ '', '' @ ''%'' @ b @ '' : '' @ tensor_text l @ '', '' @ tensor_text r @ '')'' @ ws @
     ''outs('' @ ''%'' @ c @ '' : '' @ tensor_text q @ '')''"

definition ssa_name :: "string \<Rightarrow> bool" where
  "ssa_name a \<longleftrightarrow> a \<noteq> [] \<and> list_all ssa_char a"

definition type_body :: "string \<Rightarrow> bool" where
  "type_body t \<longleftrightarrow> t \<noteq> [] \<and> list_all (\<lambda>c. c \<noteq> CHR ''>'') t"

lemma way_tensor:
  "type_body t \<Longrightarrow> first_way is s caps r \<Longrightarrow>
   first_way (RCap tensor_type_re # is) (tensor_text t @ s) (tensor_text t # t # caps) r"
proof -
  assume t: "type_body t" and rest: "first_way is s caps r"
  let ?P = "\<lambda>c. c \<noteq> CHR ''>''"
  have "first_way [RPlus ?P] (t @ ''>'' @ s) [] (''>'' @ s)"
    using t by (intro way_plus way_nil) (simp_all add: type_body_def)
  moreover have "first_way [RLit ''>''] (''>'' @ s) [] s" by (intro way_lit way_nil)
  ultimately have "first_way [RCap [RPlus ?P], RLit ''>''] (t @ ''>'' @ s) (t # [] @ []) s"
    by (rule way_cap)
  then have "first_way tensor_type_re (tensor_text t @ s) [t] s"
    unfolding tensor_type_re_def tensor_text_def append.assoc by (intro way_lit) simp
  from way_cap [OF this rest] show ?thesis by simp
qed

lemma way_ssa:
  "ssa_name a \<Longrightarrow> s = [] \<or> \<not> ssa_char (hd s) \<Longrightarrow> first_way is s caps r \<Longrightarrow>
   first_way (RLit ''%'' # RPlus ssa_char # is) (''%'' @ a @ s) caps r"
  unfolding ssa_name_def by (intro way_lit way_plus) auto

lemma dps_re_list: "dps_re =
    [RLit ''ins('', RLit ''%'', RPlus ssa_char, RLit '', '', RLit ''%'', RPlus ssa_char, RLit '' : '',
     RCap tensor_type_re, RLit '', '', RCap tensor_type_re, RLit '')'', RPlus is_space,
     RLit ''outs('', RLit ''%'', RPlus ssa_char, RLit '' : '', RCap tensor_type_re, RLit '')'']"
  by (simp add: dps_re_def dps_ins_two_args_def dps_outs_one_arg_def ssa_value_re_def)

lemma way_dps:
  assumes "ssa_name a" "ssa_name b" "ssa_name c" "type_body l" "type_body r" "type_body q"
    and "ws \<noteq> []" "list_all is_space ws"
  shows "first_way dps_re (dps_text a b c l r q ws @ post)
    [tensor_text l, l, tensor_text r, r, tensor_text q, q] post"
  unfolding dps_re_list dps_text_def append.assoc
  using assms
  by (intro way_lit way_ssa way_tensor way_plus way_nil) (simp_all add: ssa_char_def is_space_def)

text \<open>A match starts with \<open>ins(\<close>, so that text before the operands without it is skipped.\<close>

lemma no_match_before:
  assumes "\<not> sublist ''ins('' pre" and "pre = u @ v" and "v \<noteq> []"
  shows "rseq dps_re (v @ dps_text a b c l r q ws @ post) = []"
proof -
  have "\<not> prefix ''ins('' v" using assms(1,2) by (meson prefix_imp_sublist sublist_appendI sublist_order.order_trans sublist_append_rightI sublist_append_leftI)
  then have "\<not> prefix ''ins('' (v @ dps_text a b c l r q ws @ post)"
    using assms(3) unfolding dps_text_def
    by (cases v; cases "tl v"; cases "tl (tl v)"; cases "tl (tl (tl v))") auto
  then show ?thesis by (simp add: dps_re_list)
qed

text \<open>
  C36: Reading back a printed operation of well-formed names and types: wherever \<open>ins(%a, %b : tensor<L>, tensor<R>)\<close>, blanks and
  \<open>outs(%c : tensor<Q>)\<close> stand in a line that has no \<open>ins(\<close> before, the pattern of the parsers finds
  exactly the three tensor types, whatever follows.
\<close>

theorem operand_types_roundtrip:
  assumes "ssa_name a" "ssa_name b" "ssa_name c" "type_body l" "type_body r" "type_body q"
    and "ws \<noteq> []" "list_all is_space ws" and "\<not> sublist ''ins('' pre"
  shows "search_dps (pre @ dps_text a b c l r q ws @ post) = Some (tensor_text l, tensor_text r, tensor_text q)"
proof -
  have "re_search dps_re (pre @ dps_text a b c l r q ws @ post) = re_search dps_re (dps_text a b c l r q ws @ post)"
    using no_match_before [OF assms(9)] by (rule re_search_skip)
  then show ?thesis
    using way_search [OF way_dps [OF assms(1-8), of post]] by (simp add: search_dps_def)
qed

theorem operand_types_roundtrip_witness:
  "search_dps (''%20 = linalg.generic '' @ dps_text ''13'' ''arg-1'' ''19'' ''2048x1280xf16'' ''1280x1280xf16''
     ''2048x1280xf32'' '' '' @ '' {'') =
   Some (''tensor<2048x1280xf16>'', ''tensor<1280x1280xf16>'', ''tensor<2048x1280xf32>'')"
  using operand_types_roundtrip [of "''13''" "''arg-1''" "''19''" "''2048x1280xf16''" "''1280x1280xf16''"
      "''2048x1280xf32''" "'' ''" "''%20 = linalg.generic ''" "'' {''"]
  by (simp add: ssa_name_def type_body_def ssa_char_def is_space_def tensor_text_def sublist_code)

subsection \<open>Problem sizes fit the operand types\<close>

lemma first_dps_Inr:
  "first_dps guard body ls = Inr p \<Longrightarrow>
   \<exists>line \<in> set ls. \<exists>groups. guard line \<and> search_dps line = Some groups \<and> body groups = Inr p"
  by (induction ls) (auto split: if_splits option.splits)

lemma typed_dps_Inr:
  "typed_dps parse lr rr qr groups = Inr (l, r, q) \<Longrightarrow>
   lr (shaped_rank l) \<and> rr (shaped_rank r) \<and> qr (shaped_rank l) (shaped_rank q)"
  by (auto simp: typed_dps_def res_bind_Inr split: prod.splits)

definition shapes_fit :: "'e problem_size \<Rightarrow> bool" where
  "shapes_fit p =
     (let l = sh_shape (ps_lhs_type p); r = sh_shape (ps_rhs_type p); q = sh_shape (ps_res_type p);
          M = ms_M (ps_matmul_size p); N = ms_N (ps_matmul_size p); K = ms_K (ps_matmul_size p);
          B = ms_B (ps_matmul_size p)
      in case ps_dispatch_kind p of
           KMmt \<Rightarrow> l = [M, K] \<and> r = [N, K] \<and> q = [M, N] \<and> B = 1
         | KBatchMmt \<Rightarrow> l = [B, M, K] \<and> r = [B, N, K] \<and> q = [B, M, N]
         | KBroadcastRhsMmt \<Rightarrow> l = [B, M, K] \<and> r = [N, K] \<and> q = [B, M, N]
         | KConv \<Rightarrow>
             (case (q, r) of
                ([b, oh, ow, oc], [fh, fw, ic, _]) \<Rightarrow> b = B \<and> oc = N \<and> M = oh * ow \<and> K = fh * fw * ic
              | _ \<Rightarrow> False)
         | _ \<Rightarrow> False)"

lemma shape_two: "shaped_rank t = 2 \<Longrightarrow> sh_shape t = [sh_shape t ! 0, sh_shape t ! 1]"
  unfolding shaped_rank_def by (cases "sh_shape t"; cases "tl (sh_shape t)") auto

lemma mmt_fits: "mmt_get_shapes parse template = Inr p \<Longrightarrow> shapes_fit p"
proof -
  assume "mmt_get_shapes parse template = Inr p"
  then obtain groups where "mmt_body parse groups = Inr p"
    unfolding mmt_get_shapes_def by (auto dest: first_dps_Inr)
  then obtain l r q where "shaped_rank l = 2" "shaped_rank r = 2" "shaped_rank q = 2"
    "sh_shape l ! 1 = sh_shape r ! 1" "sh_shape l ! 0 = sh_shape q ! 0" "sh_shape r ! 0 = sh_shape q ! 1"
    and p: "p = \<lparr>ps_matmul_size = \<lparr>ms_M = sh_shape l ! 0, ms_N = sh_shape r ! 0, ms_K = sh_shape l ! 1,
      ms_B = 1\<rparr>, ps_lhs_type = l, ps_rhs_type = r, ps_res_type = q, ps_dispatch_kind = KMmt\<rparr>"
    by (auto simp: mmt_body_def res_bind_Inr split: prod.splits)
  then show ?thesis
    using shape_two [of l] shape_two [of r] shape_two [of q] by (simp add: shapes_fit_def)
qed

lemma conv_fits: "conv_problem l r q = Inr p \<Longrightarrow> shapes_fit p"
  by (auto simp: conv_problem_def res_bind_Inr from_rhs_res_Inr shapes_fit_def)

lemma conv_text_fits: "conv_get_shapes parse template = Inr p \<Longrightarrow> shapes_fit p"
  unfolding conv_get_shapes_def using conv_fits
  by (auto dest!: first_dps_Inr simp: res_bind_Inr)

lemma conv_op_fits: "convolution_op_get_shapes parsed = Inr p \<Longrightarrow> shapes_fit p"
  unfolding convolution_op_get_shapes_def using conv_fits
  by (auto simp: res_bind_Inr split: option.splits)

lemma shape_three: "shaped_rank t = 3 \<Longrightarrow> \<exists>a b c. sh_shape t = [a, b, c]"
  unfolding shaped_rank_def by (auto simp: length_Suc_conv numeral_3_eq_3)

lemma batch_mmt_fits: "batch_mmt_get_shapes parse template = Inr p \<Longrightarrow> shapes_fit p"
proof -
  assume "batch_mmt_get_shapes parse template = Inr p"
  then obtain groups l r q where "typed_dps parse (\<lambda>n. n = 3) (\<lambda>n. n = 3) (\<lambda>_ n. n = 3) groups = Inr (l, r, q)"
    and "batch_mmt_problem l r q = Inr p"
    unfolding batch_mmt_get_shapes_def by (auto dest!: first_dps_Inr simp: res_bind_Inr)
  moreover from typed_dps_Inr [OF this(1)] obtain a b c d e f g h i where
    "sh_shape l = [a, b, c]" "sh_shape r = [d, e, f]" "sh_shape q = [g, h, i]" by (metis shape_three)
  ultimately show ?thesis by (auto simp: batch_mmt_problem_def res_bind_Inr shapes_fit_def)
qed

lemma broadcast_fits: "get_shapes_broadcast_rhs_mmt parse template = Inr p \<Longrightarrow> shapes_fit p"
proof -
  assume "get_shapes_broadcast_rhs_mmt parse template = Inr p"
  then obtain groups l r q where "typed_dps parse (\<lambda>n. n = 3) (\<lambda>n. n = 2) (\<lambda>_ n. n = 3) groups = Inr (l, r, q)"
    and "broadcast_rhs_problem l r q = Inr p"
    unfolding get_shapes_broadcast_rhs_mmt_def by (auto dest!: first_dps_Inr simp: res_bind_Inr)
  moreover from typed_dps_Inr [OF this(1)] obtain a b c d e g h i where
    "sh_shape l = [a, b, c]" "sh_shape r = [d, e]" "sh_shape q = [g, h, i]" by (metis shape_three shape_two)
  ultimately show ?thesis by (auto simp: broadcast_rhs_problem_def res_bind_Inr shapes_fit_def)
qed

lemma contraction_kind:
  "contraction_get_shapes parse dims template = Inr p \<Longrightarrow> ps_dispatch_kind p \<noteq> KContraction \<Longrightarrow> shapes_fit p"
  unfolding contraction_get_shapes_def
  by (auto dest!: first_dps_Inr simp: res_bind_Inr Let_def broadcast_fits split: if_splits)

lemma contraction_problem_Inr:
  "contraction_problem op md = Inr p \<Longrightarrow>
   ps_dispatch_kind p = KContraction \<and> length (cd_m (md_contraction_dimensions md)) = 1 \<and>
   length (cd_n (md_contraction_dimensions md)) = 1 \<and> length (cd_k (md_contraction_dimensions md)) = 1 \<and>
   dim_size (ps_lhs_type p) (md_lhs_dims md) (cd_m (md_contraction_dimensions md) ! 0) = Inr (ms_M (ps_matmul_size p)) \<and>
   dim_size (ps_rhs_type p) (md_rhs_dims md) (cd_n (md_contraction_dimensions md) ! 0) = Inr (ms_N (ps_matmul_size p)) \<and>
   dim_size (ps_lhs_type p) (md_lhs_dims md) (cd_k (md_contraction_dimensions md) ! 0) = Inr (ms_K (ps_matmul_size p))"
  by (auto simp: contraction_problem_def res_bind_Inr Let_def)

lemma operand_types_Inr:
  "operand_types op = Inr (l, r, q) \<Longrightarrow> length (mo_operands op) = 3 \<Longrightarrow>
   map snd (mo_operands op) = [TensorType l, TensorType r, TensorType q]"
  by (auto simp: operand_types_def res_bind_Inr list_get_def ranked_tensor_def length_Suc_conv numeral_3_eq_3
      split: mlir_type.splits if_splits)

lemma contraction_problem_operands:
  assumes "contraction_problem op md = Inr p" and "length (mo_operands op) = 3"
  shows "map snd (mo_operands op) = [TensorType (ps_lhs_type p), TensorType (ps_rhs_type p), TensorType (ps_res_type p)]"
    and "case cd_batch (md_contraction_dimensions md) of [] \<Rightarrow> ms_B (ps_matmul_size p) = 1
      | b # rest \<Rightarrow> rest = [] \<and> dim_size (ps_lhs_type p) (md_lhs_dims md) b = Inr (ms_B (ps_matmul_size p))"
  using assms operand_types_Inr [of op]
  by (auto simp: contraction_problem_def res_bind_Inr Let_def le_Suc_eq length_Suc_conv split: if_splits)

lemma contraction_op_kind: "contraction_op_get_shapes parsed = Inr p \<Longrightarrow> ps_dispatch_kind p = KContraction"
  by (auto simp: contraction_op_get_shapes_def res_bind_Inr split: option.splits dest!: contraction_problem_Inr)

lemma batch_matmul_kind: "batch_matmul_get_shapes parse dims template = Inr p \<Longrightarrow> ps_dispatch_kind p = KBatchMatmul"
  unfolding batch_matmul_get_shapes_def
  by (auto dest!: first_dps_Inr simp: res_bind_Inr Let_def)

text \<open>
  C37: The problem size a parser returns fits the operand types it was read from: for products with a
  transposed right operand, plain, batched or broadcast, the operands are M x K and N x K (under the
  batch) and the result M x N; for a convolution the M side is the output image, the N side the
  output channels and the K side the filter volume, and the batch is the result's first dimension.
\<close>

theorem parsed_shapes_fit:
  assumes "tuner_get_shapes parse parse_module t template = Inr p"
    and "ps_dispatch_kind p \<noteq> KContraction" and "ps_dispatch_kind p \<noteq> KBatchMatmul"
  shows "shapes_fit p"
proof (cases t)
  case ContractionOpInterfaceTuner
  with assms show ?thesis by (auto simp: tuner_get_shapes_def dest: contraction_op_kind)
next
  case ConvolutionOpInterfaceTuner
  with assms show ?thesis by (auto simp: tuner_get_shapes_def intro: conv_op_fits)
next
  case MmtTuner
  with assms show ?thesis by (auto simp: tuner_get_shapes_def intro: mmt_fits)
next
  case ConvTuner
  with assms show ?thesis by (auto simp: tuner_get_shapes_def intro: conv_text_fits)
next
  case (ContractionTuner dims)
  with assms show ?thesis by (auto simp: tuner_get_shapes_def intro: contraction_kind)
next
  case BatchMmtTuner
  with assms show ?thesis by (auto simp: tuner_get_shapes_def intro: batch_mmt_fits)
next
  case (BatchMatmulTuner dims)
  with assms show ?thesis by (auto simp: tuner_get_shapes_def dest: batch_matmul_kind)
qed

definition demo_parse :: "bool type_parser" where
  "demo_parse t =
     (if t = ''tensor<16x8xf16>'' then Inr ([16, 8], True)
      else if t = ''tensor<32x8xf16>'' then Inr ([32, 8], True)
      else if t = ''tensor<16x32xf32>'' then Inr ([16, 32], False) else Inl ValueError)"

definition demo_template :: "string list" where
  "demo_template = [''module {'',
     ''%2 = linalg.generic {'' @ iterator_types [''parallel'', ''parallel'', ''reduction''] @ ''} '' @
       dps_text ''0'' ''1'' ''c'' ''16x8xf16'' ''32x8xf16'' ''16x32xf32'' '' '']"

definition demo_parsed :: "bool problem_size" where
  "demo_parsed = (case mmt_get_shapes demo_parse demo_template of Inr p \<Rightarrow> p)"

theorem parsed_shapes_fit_witness:
  "shapes_fit demo_parsed \<and> ms_N (ps_matmul_size demo_parsed) = 32"
proof -
  have "tuner_get_shapes demo_parse (\<lambda>_. Inl ValueError) MmtTuner demo_template = Inr demo_parsed"
    by code_simp
  from parsed_shapes_fit [OF this] show ?thesis by code_simp
qed

subsection \<open>Dimensions of a contraction\<close>

lemma dim_size_Inr:
  "dim_size t dims d = Inr v \<Longrightarrow>
   \<exists>i. i < length dims \<and> dims ! i = d \<and> i < length (sh_shape t) \<and> v = sh_shape t ! i"
  by (auto simp: dim_size_def res_bind_Inr list_get_def dest!: list_index_Inr split: if_splits)

text \<open>The size the loop dimension \<open>d\<close> has according to an operand with indexing map \<open>dims\<close>.\<close>

definition extent :: "'e shaped_type \<Rightarrow> int list \<Rightarrow> int \<Rightarrow> int \<Rightarrow> bool" where
  "extent t dims d v \<longleftrightarrow> (\<exists>i. i < length dims \<and> dims ! i = d \<and> i < length (sh_shape t) \<and> v = sh_shape t ! i)"

text \<open>
  C35: The contraction parser finds the one root operation, a generic operation with three ranked tensors as
  operands: left and right operand and result, in this order; these are the types it reports. The three indexing
  maps are those of the operands in the same order. It sorts the loop dimensions by the operands
  that use them: the batch, M, N and K dimensions are together all loop dimensions, the batch
  ones are used by all three operands, M is the only one that the left operand and the result use alone,
  N the right operand and the result, K the two operands. The sizes it reports are the extents of these
  dimensions in the left (M, K, batch) and the right operand (N); without a batch dimension the
  batch size is 1, and there is at most one.
\<close>

theorem contraction_sizes:
  assumes "contraction_op_get_shapes (Inr module) = Inr p"
  shows "\<exists>op md m0 m1 m2 m n k. match_root_op module contraction_match = Some (op, md) \<and>
    get_ops_from_module module is_root_op = [op] \<and> mo_name op = ''linalg.generic'' \<and>
    map snd (mo_operands op) = [TensorType (ps_lhs_type p), TensorType (ps_rhs_type p), TensorType (ps_res_type p)] \<and>
    find_maps_attr None (mo_attributes op) = Some [m0, m1, m2] \<and>
    get_map_result_dim_positions m0 = Some (md_lhs_dims md) \<and>
    get_map_result_dim_positions m1 = Some (md_rhs_dims md) \<and>
    get_map_result_dim_positions m2 = Some (md_res_dims md) \<and>
    cd_m (md_contraction_dimensions md) = [m] \<and> cd_n (md_contraction_dimensions md) = [n] \<and>
    cd_k (md_contraction_dimensions md) = [k] \<and>
    dim_kind True False True (md_lhs_dims md) (md_rhs_dims md) (md_res_dims md) m \<and>
    dim_kind False True True (md_lhs_dims md) (md_rhs_dims md) (md_res_dims md) n \<and>
    dim_kind True True False (md_lhs_dims md) (md_rhs_dims md) (md_res_dims md) k \<and>
    (\<forall>d \<in> set (cd_batch (md_contraction_dimensions md)).
       dim_kind True True True (md_lhs_dims md) (md_rhs_dims md) (md_res_dims md) d) \<and>
    set (cd_batch (md_contraction_dimensions md)) \<union> {m, n, k} = {0..<int (am_n_dims m0)} \<and>
    extent (ps_lhs_type p) (md_lhs_dims md) m (ms_M (ps_matmul_size p)) \<and>
    extent (ps_rhs_type p) (md_rhs_dims md) n (ms_N (ps_matmul_size p)) \<and>
    extent (ps_lhs_type p) (md_lhs_dims md) k (ms_K (ps_matmul_size p)) \<and>
    (case cd_batch (md_contraction_dimensions md) of [] \<Rightarrow> ms_B (ps_matmul_size p) = 1
     | b # rest \<Rightarrow> rest = [] \<and> extent (ps_lhs_type p) (md_lhs_dims md) b (ms_B (ps_matmul_size p)))"
proof -
  from assms obtain op md where root: "match_root_op module contraction_match = Some (op, md)"
    and problem: "contraction_problem op md = Inr p"
    by (auto simp: contraction_op_get_shapes_def split: option.splits)
  from root have ops: "get_ops_from_module module is_root_op = [op]" and "contraction_match op = Some md"
    by (auto simp: match_root_op_def split: list.splits option.splits)
  then obtain maps where name: "mo_name op = ''linalg.generic''" and "match_indexing_maps maps = Some md"
    and three: "length (mo_operands op) = 3" and attr: "find_maps_attr None (mo_attributes op) = Some maps"
    by (auto simp: contraction_match_def named_op_match_def match_operands_def split: if_splits option.splits)
  from match_indexing_maps_Some [OF this(2) refl] obtain m0 m1 m2 where maps: "maps = [m0, m1, m2]"
      "get_map_result_dim_positions m0 = Some (md_lhs_dims md)"
      "get_map_result_dim_positions m1 = Some (md_rhs_dims md)"
      "get_map_result_dim_positions m2 = Some (md_res_dims md)"
    and "classify_dims (md_lhs_dims md) (md_rhs_dims md) (md_res_dims md) (map int [0..<am_n_dims m0])
      \<lparr>cd_batch = [], cd_m = [], cd_n = [], cd_k = []\<rparr> = Some (md_contraction_dimensions md)" by metis
  note cls = this(5) [unfolded classify_dims_Some]
  let ?cd = "md_contraction_dimensions md" and ?ds = "map int [0..<am_n_dims m0]"
  let ?kind = "\<lambda>l r q. dim_kind l r q (md_lhs_dims md) (md_rhs_dims md) (md_res_dims md)"
  have sets: "set (cd_batch ?cd) = {d \<in> set ?ds. ?kind True True True d}"
    "set (cd_m ?cd) = {d \<in> set ?ds. ?kind True False True d}"
    "set (cd_n ?cd) = {d \<in> set ?ds. ?kind False True True d}"
    "set (cd_k ?cd) = {d \<in> set ?ds. ?kind True True False d}"
    using cls by simp_all
  note prob = contraction_problem_Inr [OF problem] and types = contraction_problem_operands [OF problem three]
  from prob obtain m n k where single: "cd_m ?cd = [m]" "cd_n ?cd = [n]" "cd_k ?cd = [k]"
    by (auto simp: length_Suc_conv)
  then have ext: "extent (ps_lhs_type p) (md_lhs_dims md) m (ms_M (ps_matmul_size p))"
    "extent (ps_rhs_type p) (md_rhs_dims md) n (ms_N (ps_matmul_size p))"
    "extent (ps_lhs_type p) (md_lhs_dims md) k (ms_K (ps_matmul_size p))"
    using prob by (auto simp: extent_def dest!: dim_size_Inr)
  have batch: "case cd_batch ?cd of [] \<Rightarrow> ms_B (ps_matmul_size p) = 1
     | b # rest \<Rightarrow> rest = [] \<and> extent (ps_lhs_type p) (md_lhs_dims md) b (ms_B (ps_matmul_size p))"
    using types(2) by (auto simp: extent_def split: list.splits dest!: dim_size_Inr)
  have "set ?ds = set (cd_batch ?cd) \<union> set (cd_m ?cd) \<union> set (cd_n ?cd) \<union> set (cd_k ?cd)"
    using cls unfolding sets by (auto simp: dim_kind_def of_bool_def split: if_splits)
  moreover have "set ?ds = {0..<int (am_n_dims m0)}" by (simp add: image_int_atLeastLessThan)
  moreover have "set (cd_batch ?cd) \<union> set [m] \<union> set [n] \<union> set [k] = set (cd_batch ?cd) \<union> {m, n, k}"
    by auto
  ultimately have all: "set (cd_batch ?cd) \<union> {m, n, k} = {0..<int (am_n_dims m0)}"
    unfolding single by (simp only:)
  have kinds: "?kind True False True m" "?kind False True True n" "?kind True True False k"
    "\<forall>d \<in> set (cd_batch ?cd). ?kind True True True d"
    using sets unfolding single by auto
  show ?thesis
    by (intro exI [of _ op] exI [of _ md] exI [of _ m0] exI [of _ m1] exI [of _ m2] exI [of _ m]
        exI [of _ n] exI [of _ k] conjI)
      (use root ops name types(1) attr maps single kinds all ext batch in simp_all)
qed

definition demo_matmul :: "bool mlir_module" where
  "demo_matmul =
     (let am = (\<lambda>rs. \<lparr>am_n_dims = 3, am_is_projected_permutation = True, am_results = rs\<rparr>);
          t = (\<lambda>shape e. TensorType \<lparr>sh_shape = shape, sh_element_type = e\<rparr>)
      in [[\<lparr>mo_name = ''linalg.generic'',
         mo_attributes = [(''indexing_maps'', MapsAttr [am [''d0'', ''d2''], am [''d1'', ''d2''], am [''d0'', ''d1'']]),
                          (''root_op'', UnitAttr)],
         mo_operands = [(''%0'', t [16, 8] True), (''%1'', t [32, 8] True), (''%2'', t [16, 32] False)]\<rparr>]])"

theorem contraction_sizes_witness:
  "(\<exists>p op md. contraction_op_get_shapes (Inr demo_matmul) = Inr p \<and>
     match_root_op demo_matmul contraction_match = Some (op, md) \<and>
     extent (ps_rhs_type p) (md_rhs_dims md) 1 32 \<and> ms_N (ps_matmul_size p) = 32)"
proof -
  obtain p where p: "contraction_op_get_shapes (Inr demo_matmul) = Inr p" "ms_N (ps_matmul_size p) = 32"
    by (simp add: demo_matmul_def contraction_op_get_shapes_def contraction_problem_def match_root_op_def get_ops_from_module_def
        is_root_op_def root_op_attr_name_def contraction_match_def named_op_match_def match_operands_def
        match_indexing_maps_def get_map_result_dim_positions_def is_digit_def upt_rec operand_types_def
        list_get_def ranked_tensor_def dim_size_def)
  have "map_option (\<lambda>(op, md). cd_n (md_contraction_dimensions md)) (match_root_op demo_matmul contraction_match) =
    Some [1]" by code_simp
  with contraction_sizes [OF p(1)] p show ?thesis by fastforce
qed

subsection \<open>The registry\<close>

text \<open>
  Which tuner handles a dispatch can depend on the iteration order of the registry, a Python set:
  for a function named after \<open>batch_matmul_transpose_b\<close> three of the five registered tuners claim
  support, and each of them is the handler in some order. A convolution has one handler in every order.
\<close>

theorem handler_depends_on_order:
  assumes "sublist ''batch_matmul_transpose_b'' op_name"
    and "sublist ''conv_2d_nhwc_hwcf'' conv_name" and "\<not> sublist ''matmul'' conv_name"
  shows "(\<forall>t \<in> {MmtTuner, BatchMmtTuner, BatchMatmulTuner dims}. \<exists>order.
      mset order = mset (tune_registry dims) \<and> find_handler order op_name = Inr t) \<and>
    (\<forall>order. mset order = mset (tune_registry dims) \<longrightarrow> find_handler order conv_name = Inr ConvTuner)"
proof
  have "sublist ''matmul_transpose_b'' ''batch_matmul_transpose_b''"
    "sublist ''batch_matmul'' ''batch_matmul_transpose_b''" by (simp_all add: sublist_code)
  then have sup: "sublist ''matmul_transpose_b'' op_name" "sublist ''batch_matmul'' op_name"
    using assms(1) by (blast intro: sublist_order.order_trans)+
  define others where "others t = filter (\<lambda>x. x \<noteq> t) (tune_registry dims)" for t
  have "mset (t # others t) = mset (tune_registry dims) \<and> find_handler (t # others t) op_name = Inr t"
    if "t \<in> {MmtTuner, BatchMmtTuner, BatchMatmulTuner dims}" for t
    using that sup assms(1)
    by (auto simp: others_def tune_registry_def find_handler_def tuner_supports_def mmt_supports_def
        batch_mmt_supports_def batch_matmul_supports_def)
  then show "\<forall>t \<in> {MmtTuner, BatchMmtTuner, BatchMatmulTuner dims}. \<exists>order.
      mset order = mset (tune_registry dims) \<and> find_handler order op_name = Inr t" by blast
next
  have "sublist ''matmul'' ''matmul_transpose_b''" "sublist ''matmul'' ''matmul_like''"
    "sublist ''matmul'' ''batch_matmul_transpose_b''" "sublist ''matmul'' ''batch_matmul''"
    by (simp_all add: sublist_code)
  then have "\<not> sublist ''matmul_transpose_b'' conv_name" "\<not> sublist ''matmul_like'' conv_name"
    "\<not> sublist ''batch_matmul_transpose_b'' conv_name" "\<not> sublist ''batch_matmul'' conv_name"
    using assms(3) sublist_order.order_trans by blast+
  then have no: "tuner_supports t conv_name \<longleftrightarrow> t = ConvTuner" if "t \<in> set (tune_registry dims)" for t
    using that assms(2)
    by (auto simp: tune_registry_def tuner_supports_def mmt_supports_def batch_mmt_supports_def
        batch_matmul_supports_def conv_supports_def contraction_supports_def)
  show "\<forall>order. mset order = mset (tune_registry dims) \<longrightarrow> find_handler order conv_name = Inr ConvTuner"
  proof (intro allI impI)
    fix order
    assume "mset order = mset (tune_registry dims)"
    then have "set order = set (tune_registry dims)" by (metis set_mset_mset)
    moreover have "find (\<lambda>t. tuner_supports t conv_name) order = find (\<lambda>t. t = ConvTuner) order"
      using calculation no by (intro find_cong) auto
    moreover have "ConvTuner \<in> set order" using calculation(1) by (simp add: tune_registry_def)
    then have "find (\<lambda>t. t = ConvTuner) order = Some ConvTuner" by (induction order) auto
    ultimately show "find_handler order conv_name = Inr ConvTuner" by (simp add: find_handler_def)
  qed
qed

definition plain_dims :: dims_config where
  "plain_dims = \<lparr>dc_lhs_dims = ''mk'', dc_rhs_dims = ''nk'', dc_tile_dims = ''mnk''\<rparr>"

theorem handler_depends_on_order_witness:
  "find_handler [ConvTuner, MmtTuner, BatchMmtTuner, ContractionTuner plain_dims, BatchMatmulTuner plain_dims] ''conv_2d_nhwc_hwcf_2x'' =
     Inr ConvTuner"
  using handler_depends_on_order [of "''batch_matmul_transpose_b_4x''" "''conv_2d_nhwc_hwcf_2x''" plain_dims]
  by (simp add: sublist_code tune_registry_def)

end
