(* ===== verification/Tuner_Tasks.thy ===== *)
theory Tuner_Tasks
  imports Tuner_Gen "HOL-Library.Product_Lexorder" "HOL-Library.List_Lexorder" "HOL-Library.Char_ord"
begin

section \<open>Tasks, commands and results of the tuning loop\<close>

text \<open>
  The first half of \<open>tuner/libtuner.py\<close>: candidate trackers, paths, devices, the commands the workers
  run and how their output is read. Times are Python floats; the record \<open>floats\<close> holds the operations
  the code uses, so that nothing depends on how they round. Subprocesses, the compiler, the runtime
  and the file system are parameters: an outcome of the call, or the contents of the files.
\<close>

record 'f floats =
  fl_of_str :: "string \<Rightarrow> 'f option"
  fl_of_nat :: "nat \<Rightarrow> 'f"
  fl_sum :: "'f list \<Rightarrow> 'f"
  fl_mul :: "'f \<Rightarrow> 'f \<Rightarrow> 'f"
  fl_sub :: "'f \<Rightarrow> 'f \<Rightarrow> 'f"
  fl_div :: "'f \<Rightarrow> 'f \<Rightarrow> 'f"
  fl_zero :: 'f
  fl_inf :: 'f
  fl_const :: "string \<Rightarrow> 'f"
  fl_format :: "string \<Rightarrow> 'f \<Rightarrow> string"

subsection \<open>Data\<close>

record ('f, 'i) candidate_tracker =
  ct_candidate_id :: int
  ct_mlir_path :: "string option"
  ct_dispatch_mlir_path :: "string option"
  ct_dispatch_config_path :: "string option"
  ct_configuration :: "'i compilation_info option"
  ct_compilation_successful :: "bool option"
  ct_compiled_vmfb_path :: "string option"
  ct_compiled_dispatch_path :: "string option"
  ct_compiled_dispatch_hash :: "string option"
  ct_first_benchmark_time :: "'f option"
  ct_first_benchmark_device_id :: "string option"
  ct_spec_path :: "string option"
  ct_compiled_model_path :: "string option"
  ct_compiled_model_hash :: "string option"
  ct_model_benchmark_time :: "'f option"
  ct_model_benchmark_device_id :: "string option"
  ct_baseline_benchmark_time :: "'f option"
  ct_calibrated_benchmark_diff :: "'f option"

definition new_tracker :: "int \<Rightarrow> ('f, 'i) candidate_tracker" where
  "new_tracker candidate_id = \<lparr>ct_candidate_id = candidate_id, ct_mlir_path = None,
     ct_dispatch_mlir_path = None, ct_dispatch_config_path = None, ct_configuration = None,
     ct_compilation_successful = None, ct_compiled_vmfb_path = None, ct_compiled_dispatch_path = None,
     ct_compiled_dispatch_hash = None, ct_first_benchmark_time = None, ct_first_benchmark_device_id = None,
     ct_spec_path = None, ct_compiled_model_path = None, ct_compiled_model_hash = None,
     ct_model_benchmark_time = None, ct_model_benchmark_device_id = None,
     ct_baseline_benchmark_time = None, ct_calibrated_benchmark_diff = None\<rparr>"

record run_pack =
  rp_command :: "string list"
  rp_check :: bool
  rp_timeout_seconds :: "int option"

record process_result =
  pr_stdout :: string
  pr_returncode :: int

record run_result =
  rr_process_res :: "process_result option"
  rr_is_timeout :: bool

record task_pack =
  tp_run_pack :: run_pack
  tp_candidate_id :: int
  tp_command_need_device_id :: bool
  tp_cooling_time :: int

record task_result =
  tr_run_result :: run_result
  tr_candidate_id :: int
  tr_device_id :: string

record 'f parsed_dispatch_result =
  pd_candidate_id :: int
  pd_benchmark_time_in_seconds :: 'f
  pd_candidate_mlir :: string
  pd_candidate_spec_mlir :: string

record 'f benchmark_result =
  br_candidate_id :: int
  br_time :: 'f
  br_device_id :: string

subsection \<open>Paths\<close>

record path_config =
  pc_base_dir :: string
  pc_template_mlir :: string
  pc_candidates_dir :: string
  pc_candidate_configs_pkl :: string
  pc_compiled_dir :: string
  pc_compile_failed_dir :: string
  pc_specs_dir :: string
  pc_output_unilog :: string
  pc_result_summary_log :: string
  pc_candidate_trackers_pkl :: string
  pc_local_config_prolog_mlir :: string
  pc_local_config_epilog_mlir :: string
  pc_global_config_prolog_mlir :: string
  pc_global_config_epilog_mlir :: string
  pc_model_baseline_vmfb :: string
  pc_run_log :: "string option"

definition path_config_init :: "string \<Rightarrow> path_config" where
  "path_config_init timestamp =
     (let base_dir = ''tuning_'' @ timestamp; candidates_dir = path_join base_dir ''candidates'' in
      \<lparr>pc_base_dir = base_dir, pc_template_mlir = path_join base_dir ''template.mlir'',
       pc_candidates_dir = candidates_dir,
       pc_candidate_configs_pkl = path_join candidates_dir ''configs.pkl'',
       pc_compiled_dir = path_join candidates_dir ''compiled'',
       pc_compile_failed_dir = path_join candidates_dir ''failed'',
       pc_specs_dir = path_join candidates_dir ''specs'',
       pc_output_unilog = path_join base_dir ''output.log'',
       pc_result_summary_log = path_join base_dir ''result_summary.log'',
       pc_candidate_trackers_pkl = path_join base_dir ''candidate_trackers.pkl'',
       pc_local_config_prolog_mlir = path_join base_dir ''config_prolog.mlir'',
       pc_local_config_epilog_mlir = path_join base_dir ''config_epilog.mlir'',
       pc_global_config_prolog_mlir = ''config_prolog.mlir'',
       pc_global_config_epilog_mlir = ''config_epilog.mlir'',
       pc_model_baseline_vmfb = ''baseline.vmfb'', pc_run_log = None\<rparr>)"

definition path_name :: "string \<Rightarrow> string" where
  "path_name p = last (str_split ''/'' p)"

text \<open>\<open>path.stem\<close>: the name without its last suffix; a dot at either end is no suffix.\<close>

definition path_stem :: "string \<Rightarrow> string" where
  "path_stem p =
     (let name = path_name p; suffix = takeWhile (\<lambda>c. c \<noteq> CHR ''.'') (rev name);
          k = length name - length suffix
      in if suffix = [] \<or> k \<le> 1 then name else take (k - 1) name)"

definition get_candidate_mlir_path :: "path_config \<Rightarrow> int \<Rightarrow> string" where
  "get_candidate_mlir_path pc candidate_id = path_join (pc_candidates_dir pc) (str_int candidate_id @ ''.mlir'')"

definition get_candidate_spec_filename :: "int \<Rightarrow> string" where
  "get_candidate_spec_filename candidate_id = str_int candidate_id @ ''_spec.mlir''"

definition get_candidate_spec_mlir_path :: "path_config \<Rightarrow> int \<Rightarrow> string" where
  "get_candidate_spec_mlir_path pc candidate_id =
     path_join (path_join (pc_candidates_dir pc) ''specs'') (str_int candidate_id @ ''_spec.mlir'')"

definition get_exe_format :: "string \<Rightarrow> string" where
  "get_exe_format path = ''./'' @ path"

definition get_candidate_vmfb_filename :: "int \<Rightarrow> string" where
  "get_candidate_vmfb_filename candidate_id = str_int candidate_id @ ''.vmfb''"

definition get_compiled_dispatch_index :: "string \<Rightarrow> int res" where
  "get_compiled_dispatch_index file_path = parse_int (path_stem file_path)"

definition get_compiled_model_index :: "string \<Rightarrow> int res" where
  "get_compiled_model_index file_path = parse_int (last (str_split ''_'' (path_stem file_path)))"

text \<open>\<open>0 | 0_a | 0_b | 1 | 1_a | 2\<close>: a name without a number sorts after all numbers.\<close>

definition numerical_sort_key :: "string \<Rightarrow> (nat \<times> nat) \<times> string" where
  "numerical_sort_key path =
     (let stem = path_stem path; digits = takeWhile is_digit stem in
      if digits \<noteq> [] then ((0, digits_val 0 digits), drop (length digits) stem) else ((1, 0), stem))"

definition sanitize_filename :: "string \<Rightarrow> string" where
  "sanitize_filename filename =
     map (\<lambda>c. if ssa_char c \<or> c = CHR ''.'' then c else CHR ''_'') filename"

subsection \<open>Errors and devices\<close>

datatype log_level = Critical | Error | Warning | Info | Debug | OtherLevel

text \<open>Constructing \<open>argparse.ArgumentError\<close> from a message alone raises a TypeError: it wants the
  argument too. It is the error type \<open>None\<close>.\<close>

definition raise_error :: "py_error option \<Rightarrow> py_error" where
  "raise_error error_type = (case error_type of None \<Rightarrow> TypeError | Some e \<Rightarrow> e)"

definition handle_error :: "bool \<Rightarrow> log_level \<Rightarrow> py_error option \<Rightarrow> bool \<Rightarrow> unit res" where
  "handle_error condition level error_type exit_program =
     (if \<not> condition then Inr ()
      else (case level of
          Critical \<Rightarrow> Inl (raise_error error_type)
        | Error \<Rightarrow> Inl (raise_error error_type)
        | OtherLevel \<Rightarrow> Inl ValueError
        | _ \<Rightarrow> if exit_program then Inl SystemExit else Inr ()))"

definition extract_driver_names :: "string list \<Rightarrow> string list" where
  "extract_driver_names user_devices = remdups (map (\<lambda>device. hd (str_split ''://'' device)) user_devices)"

text \<open>\<open>query\<close> is the runtime: for each device of a driver its path and its number, or an error.\<close>

fun fetch_available_devices :: "(string \<Rightarrow> (string \<times> int) list option) \<Rightarrow> string list \<Rightarrow> string list res" where
  "fetch_available_devices query [] = Inr []"
| "fetch_available_devices query (driver_name # drivers) =
     (case query driver_name of
        None \<Rightarrow> res_bind (handle_error True Error (Some ValueError) True)
                 (\<lambda>_. fetch_available_devices query drivers)
      | Some devices \<Rightarrow>
          res_bind (fetch_available_devices query drivers) (\<lambda>rest. Inr (
            map (\<lambda>(path, _). driver_name @ ''://'' @ path) devices @
            map (\<lambda>(_, device_id). driver_name @ ''://'' @ str_int (device_id - 1)) devices @ rest)))"

definition parse_devices :: "string \<Rightarrow> string list res" where
  "parse_devices devices_str =
     (let devices = map str_strip (str_split '','' devices_str) in
      if list_ex (\<lambda>device. \<not> sublist ''://'' device \<or> device = []) devices
      then Inl ArgumentTypeError else Inr devices)"

fun validate_each :: "string list \<Rightarrow> string list \<Rightarrow> unit res" where
  "validate_each available [] = Inr ()"
| "validate_each available (device # devices) =
     res_bind (handle_error (device \<notin> set available) Error None True) (\<lambda>_. validate_each available devices)"

definition validate_devices ::
  "(string \<Rightarrow> (string \<times> int) list option) \<Rightarrow> (string list \<Rightarrow> string list) \<Rightarrow> string list \<Rightarrow> unit res" where
  "validate_devices query set_order user_devices =
     res_bind (fetch_available_devices query (set_order (extract_driver_names user_devices)))
       (\<lambda>available. validate_each available user_devices)"

subsection \<open>Running commands\<close>

datatype command_outcome = Finished process_result | TimedOut | Interrupted

definition run_command :: "(string list \<Rightarrow> command_outcome) \<Rightarrow> run_pack \<Rightarrow> run_result res" where
  "run_command run rp =
     (case run (rp_command rp) of
        TimedOut \<Rightarrow> Inr \<lparr>rr_process_res = None, rr_is_timeout = True\<rparr>
      | Interrupted \<Rightarrow> Inr \<lparr>rr_process_res = None, rr_is_timeout = False\<rparr>
      | Finished pr \<Rightarrow>
          if rp_check rp \<and> pr_returncode pr \<noteq> 0 then Inl CalledProcessError
          else Inr \<lparr>rr_process_res = Some pr, rr_is_timeout = False\<rparr>)"

definition device_id_placeholder :: string where
  "device_id_placeholder = ''!DEVICE_ID!''"

definition str_device :: "string option \<Rightarrow> string" where
  "str_device device_id = (case device_id of None \<Rightarrow> ''None'' | Some d \<Rightarrow> d)"

text \<open>The global \<open>device_id\<close> of the worker process is the first parameter.\<close>

definition run_command_wrapper ::
  "string option \<Rightarrow> (string list \<Rightarrow> command_outcome) \<Rightarrow> task_pack \<Rightarrow> task_result res" where
  "run_command_wrapper device_id run tp =
     (let command = (if tp_command_need_device_id tp
            then map (re_sub [RLit device_id_placeholder] (str_device device_id)) (rp_command (tp_run_pack tp))
            else rp_command (tp_run_pack tp))
      in res_bind (run_command run ((tp_run_pack tp)\<lparr>rp_command := command\<rparr>)) (\<lambda>r.
           Inr \<lparr>tr_run_result = r, tr_candidate_id = tp_candidate_id tp,
             tr_device_id = (if device_id = None \<or> device_id = Some [] then ''-1'' else str_device device_id)\<rparr>))"

text \<open>\<open>strip_root_op_attr\<close>, and the \<open>iree-opt\<close> call of \<open>strip_compilation_info\<close>.\<close>

definition strip_root_op_attr :: "'e mlir_module \<Rightarrow> 'e mlir_module" where
  "strip_root_op_attr module =
     map (map (\<lambda>op. if is_root_op op
       then op\<lparr>mo_attributes := filter (\<lambda>(name, _). name \<noteq> root_op_attr_name) (mo_attributes op)\<rparr> else op)) module"

definition strip_compilation_info :: "(string list \<Rightarrow> command_outcome) \<Rightarrow> string \<Rightarrow> string res" where
  "strip_compilation_info run input_path =
     res_bind (run_command run
       \<lparr>rp_command = [''iree-opt'', input_path, ''--iree-codegen-strip-compilation-info''],
        rp_check = True, rp_timeout_seconds = None\<rparr>)
       (\<lambda>r. case rr_process_res r of None \<Rightarrow> Inl AssertionError | Some pr \<Rightarrow> Inr (pr_stdout pr))"

text \<open>The compiler gets the input, the output and the flags and reports whether it succeeded.\<close>

record compile_call =
  cc_input_file :: string
  cc_output_file :: string
  cc_extra_args :: "string list"
  cc_crash_reproducer_path :: string

definition run_iree_compile_command ::
  "(compile_call \<Rightarrow> bool) \<Rightarrow> string list \<times> ('f, 'i) candidate_tracker \<Rightarrow> int option res" where
  "run_iree_compile_command compile_file pack =
     (let (flags, ct) = pack in
      case (ct_spec_path ct, ct_compiled_vmfb_path ct, ct_mlir_path ct) of
        (Some td_spec_path, Some output_path, Some input_file) \<Rightarrow>
          Inr (if compile_file \<lparr>cc_input_file = input_file, cc_output_file = output_path,
                 cc_extra_args = (''--iree-codegen-tuning-spec-path='' @ td_spec_path) # flags,
                 cc_crash_reproducer_path = output_path @ ''.crash_report.mlir''\<rparr>
               then Some (ct_candidate_id ct) else None)
      | _ \<Rightarrow> Inl AssertionError)"

subsection \<open>Benchmark results\<close>

datatype 'f json_value = JStr string | JNum 'f | JNull

type_synonym 'f json_dict = "(string \<times> 'f json_value) list"

definition find_mean_benchmark :: "'f json_dict list \<Rightarrow> 'f json_dict option" where
  "find_mean_benchmark result_json =
     find (\<lambda>b. map_of b ''aggregate_name'' = Some (JStr ''mean'')) result_json"

definition unit_to_microseconds :: "'f floats \<Rightarrow> 'f \<Rightarrow> string \<Rightarrow> 'f res" where
  "unit_to_microseconds fl real_time time_unit =
     (case map_of [(''s'', ''1e6''), (''ms'', ''1e3''), (''us'', ''1''), (''ns'', ''1e-3'')] time_unit of
        None \<Rightarrow> Inl AssertionError
      | Some c \<Rightarrow> Inr (fl_mul fl real_time (fl_const fl c)))"

definition get_mean_time_us :: "'f floats \<Rightarrow> 'f json_dict list \<Rightarrow> 'f option res" where
  "get_mean_time_us fl result_json =
     (case find_mean_benchmark result_json of
        None \<Rightarrow> Inr None
      | Some b \<Rightarrow>
         (case map_of b ''real_time'' of
            None \<Rightarrow> Inr None
          | Some JNull \<Rightarrow> Inr None
          | Some real_time \<Rightarrow>
             (case map_of b ''time_unit'' of
                Some (JStr time_unit) \<Rightarrow>
                  (case real_time of
                     JNum t \<Rightarrow> res_bind (unit_to_microseconds fl t time_unit) (\<lambda>us. Inr (Some us))
                   | _ \<Rightarrow> if map_of [(''s'', ()), (''ms'', ()), (''us'', ()), (''ns'', ())] time_unit = None
                          then Inl AssertionError else Inl TypeError)
              | _ \<Rightarrow> Inl AssertionError)))"

text \<open>\<open>json.loads\<close> of the output, \<open>None\<close> when it is not JSON; then the list under \<open>benchmarks\<close>, if any.\<close>

definition extract_benchmark_from_run_result ::
  "(string \<Rightarrow> 'f json_dict list option option) \<Rightarrow> run_result \<Rightarrow> 'f json_dict list option res" where
  "extract_benchmark_from_run_result json_loads r =
     (case rr_process_res r of
        None \<Rightarrow> Inr None
      | Some pr \<Rightarrow>
          if pr_stdout pr = [] then Inr None
          else (case json_loads (pr_stdout pr) of
              None \<Rightarrow> res_bind (handle_error True Error (Some ValueError) True) (\<lambda>_. Inr None)
            | Some benchmarks \<Rightarrow> Inr benchmarks))"

text \<open>The flags of \<open>iree-benchmark-module\<close>: the entry function, the inputs and other arguments; a
  repeated key overwrites the earlier value in its place.\<close>

fun parse_flags ::
  "string list \<Rightarrow> string option \<times> string list \<times> (string \<times> string) list \<Rightarrow>
   (string option \<times> string list \<times> (string \<times> string) list) res" where
  "parse_flags [] acc = Inr acc"
| "parse_flags (flag # flags) (func_name, inputs, extra_flags) =
     (if take 2 flag \<noteq> ''--'' then Inl AssertionError
      else (case str_split ''='' (drop 2 flag) of
          [key, value] \<Rightarrow>
            if key = ''function'' then parse_flags flags (Some value, inputs, extra_flags)
            else if key = ''input'' then parse_flags flags (func_name, inputs @ [value], extra_flags)
            else parse_flags flags (func_name, inputs, AList.update key value extra_flags)
        | _ \<Rightarrow> Inl AssertionError))"

record bench_call =
  bc_entry_function :: "string option"
  bc_inputs :: "string list"
  bc_device :: "string option"
  bc_timeout :: int
  bc_kwargs :: "(string \<times> string) list"

fun real_times :: "'f floats \<Rightarrow> (string \<times> string) list \<Rightarrow> 'f list res" where
  "real_times fl [] = Inr []"
| "real_times fl ((benchmark_name, time) # rest) =
     (if last (str_split ''/'' benchmark_name) \<noteq> ''real_time'' then real_times fl rest
      else (case str_split '' '' time of
          [number, unit] \<Rightarrow>
            (case fl_of_str fl number of
               None \<Rightarrow> Inl ValueError
             | Some x \<Rightarrow> res_bind (unit_to_microseconds fl x unit) (\<lambda>us.
                 res_bind (real_times fl rest) (\<lambda>times. Inr (us # times))))
        | _ \<Rightarrow> Inl AssertionError))"

text \<open>\<open>bench\<close> is \<open>benchmark_module\<close> of the runtime: \<open>None\<close> when it timed out, else names and times.\<close>

definition run_iree_benchmark_module_command ::
  "'f floats \<Rightarrow> (string \<Rightarrow> bench_call \<Rightarrow> (string \<times> string) list option) \<Rightarrow> string option \<Rightarrow>
   string list \<times> int \<times> ('f, 'i) candidate_tracker \<Rightarrow> 'f benchmark_result res" where
  "run_iree_benchmark_module_command fl bench device_id pack =
     (let (flags, timeout, ct) = pack;
          answer = (\<lambda>t. \<lparr>br_candidate_id = ct_candidate_id ct, br_time = t, br_device_id = str_device device_id\<rparr>)
      in case ct_compiled_vmfb_path ct of
           None \<Rightarrow> Inl AssertionError
         | Some vmfb_path \<Rightarrow>
             res_bind (parse_flags flags (None, [], [])) (\<lambda>(func_name, inputs, extra_flags).
             (case bench vmfb_path \<lparr>bc_entry_function = func_name, bc_inputs = inputs, bc_device = device_id,
                     bc_timeout = timeout, bc_kwargs = extra_flags\<rparr> of
                None \<Rightarrow> Inr (answer (fl_inf fl))
              | Some results \<Rightarrow>
                  res_bind (real_times fl results) (\<lambda>times.
                    if times = [] then Inl ZeroDivisionError
                    else Inr (answer (fl_div fl (fl_sum fl times) (fl_of_nat fl (length times))))))))"

subsection \<open>Display\<close>

definition generate_display_DBR :: "'f floats \<Rightarrow> int \<Rightarrow> 'f \<Rightarrow> string" where
  "generate_display_DBR fl candidate_id mean_time =
     str_int candidate_id @ [CHR 0x09] @ ''Mean Time: '' @ fl_format fl ''.1f'' mean_time"

text \<open>\<open>if calibrated_diff\<close> is false for None and for zero.\<close>

definition generate_display_MBR :: "'f floats \<Rightarrow> string \<Rightarrow> string \<Rightarrow> 'f \<Rightarrow> 'f option \<Rightarrow> string" where
  "generate_display_MBR fl candidate_vmfb_path_str device_id t1 calibrated_diff =
     (let base = ''Benchmarking: '' @ candidate_vmfb_path_str @ '' on device '' @ device_id @ '': '' @
            fl_format fl ''.3g'' t1
      in case calibrated_diff of
           None \<Rightarrow> base
         | Some d \<Rightarrow> if d = fl_zero fl then base
             else base @ '' ('' @ fl_format fl ''+.3f'' (fl_mul fl d (fl_const fl ''100'')) @ ''%)'')"

subsection \<open>Worker pools\<close>

text \<open>
  \<open>multiprocess_progress_wrapper\<close>: a pool of \<open>num_worker\<close> processes, each with a device from the queue
  (\<open>create_worker_context_queue\<close>, \<open>init_worker_context\<close>). Which worker takes task \<open>k\<close> and the order in
  which results arrive are not the program's choice: \<open>assign\<close> and \<open>sched\<close>. A pool needs a worker.
\<close>

definition create_worker_context_queue :: "string list \<Rightarrow> (nat \<times> string) list" where
  "create_worker_context_queue device_ids = zip [0..<length device_ids] device_ids"

record 'r pool_env =
  pe_assign :: "nat \<Rightarrow> nat"
  pe_sched :: "'r res list \<Rightarrow> 'r res list"

definition init_worker_context :: "(nat \<times> string) list \<Rightarrow> nat \<Rightarrow> string option" where
  "init_worker_context queue worker =
     (if worker < length queue then Some (snd (queue ! worker)) else None)"

definition multiprocess_progress_wrapper ::
  "'r pool_env \<Rightarrow> int \<Rightarrow> 't list \<Rightarrow> (string option \<Rightarrow> 't \<Rightarrow> 'r res) \<Rightarrow> (nat \<times> string) list \<Rightarrow> 'r list res" where
  "multiprocess_progress_wrapper pe num_worker task_list fn queue =
     (if num_worker < 1 then Inl ValueError
      else res_map (\<lambda>r. r) (pe_sched pe (map (\<lambda>(k, t). fn (init_worker_context queue (pe_assign pe k)) t)
             (zip [0..<length task_list] task_list))))"

subsection \<open>Collisions of hashes\<close>

fun count_hashes :: "(int \<times> string) list \<Rightarrow> (string \<times> int list) list \<Rightarrow> (string \<times> int list) list" where
  "count_hashes [] hash_count = hash_count"
| "count_hashes ((index, hash_val) # rest) hash_count =
     count_hashes rest (case map_of hash_count hash_val of
         Some indices \<Rightarrow> AList.update hash_val (indices @ [index]) hash_count
       | None \<Rightarrow> hash_count @ [(hash_val, [index])])"

definition find_collisions :: "(int \<times> string) list \<Rightarrow> bool \<times> (string \<times> int list) list" where
  "find_collisions hash_list =
     (let hash_values = count_hashes hash_list []
      in (list_ex (\<lambda>(_, indices). length indices > 1) hash_values, hash_values))"

definition collision_handler :: "(int \<times> string) list \<Rightarrow> bool \<times> int list" where
  "collision_handler index_hash_list =
     (let (collision_detected, hash_list) = find_collisions index_hash_list in
      if \<not> collision_detected then (collision_detected, [])
      else (collision_detected, map (\<lambda>(_, indices). hd indices) hash_list))"

end
