(* ===== verification/Tuner_Stages.thy ===== *)
theory Tuner_Stages
  imports Tuner_Tasks
begin

section \<open>The stages of the tuning loop\<close>

text \<open>
  The second half of \<open>tuner/libtuner.py\<close>: generating, compiling and benchmarking candidates. The list
  of candidate trackers is the state of every stage; a stage returns its outcome and the trackers as
  they are when it returns or raises. The tuning client (command lines, flags, timeouts) and what
  the file system holds after the commands ran are parameters.
\<close>

subsection \<open>Threading the trackers\<close>

type_synonym ('s, 'v) stateful = "'s \<Rightarrow> 'v res \<times> 's"

definition st_return :: "'v \<Rightarrow> ('s, 'v) stateful" where
  "st_return x s = (Inr x, s)"

definition st_lift :: "'v res \<Rightarrow> ('s, 'v) stateful" where
  "st_lift r s = (r, s)"

definition st_bind :: "('s, 'v) stateful \<Rightarrow> ('v \<Rightarrow> ('s, 'w) stateful) \<Rightarrow> ('s, 'w) stateful" where
  "st_bind m f s = (case m s of (Inl e, s1) \<Rightarrow> (Inl e, s1) | (Inr x, s1) \<Rightarrow> f x s1)"

fun st_map :: "('x \<Rightarrow> ('s, 'v) stateful) \<Rightarrow> 'x list \<Rightarrow> ('s, 'v list) stateful" where
  "st_map f [] = st_return []"
| "st_map f (x # xs) = st_bind (f x) (\<lambda>y. st_bind (st_map f xs) (\<lambda>ys. st_return (y # ys)))"

lemma st_bind_simps [simp, py_simps]:
  "m s = (Inl e, s1) \<Longrightarrow> st_bind m f s = (Inl e, s1)"
  "m s = (Inr x, s1) \<Longrightarrow> st_bind m f s = f x s1"
  by (simp_all add: st_bind_def)

lemma st_bind_Inr:
  "st_bind m f s = (Inr y, s2) \<longleftrightarrow> (\<exists>x s1. m s = (Inr x, s1) \<and> f x s1 = (Inr y, s2))"
  by (auto simp: st_bind_def split: prod.splits sum.splits)

type_synonym ('f, 'i) trackers = "('f, 'i) candidate_tracker list"

definition get_tracker :: "int \<Rightarrow> (('f, 'i) trackers, ('f, 'i) candidate_tracker) stateful" where
  "get_tracker i ts = (py_get ts i, ts)"

definition set_tracker ::
  "int \<Rightarrow> (('f, 'i) candidate_tracker \<Rightarrow> ('f, 'i) candidate_tracker) \<Rightarrow> (('f, 'i) trackers, unit) stateful" where
  "set_tracker i f ts = (case py_update ts i f of Inl e \<Rightarrow> (Inl e, ts) | Inr ts1 \<Rightarrow> (Inr (), ts1))"

definition add_tracker :: "('f, 'i) candidate_tracker \<Rightarrow> (('f, 'i) trackers, unit) stateful" where
  "add_tracker ct ts = (Inr (), ts @ [ct])"

definition require :: "'v option \<Rightarrow> ('s, 'v) stateful" where
  "require x = st_lift (case x of None \<Rightarrow> Inl AssertionError | Some v \<Rightarrow> Inr v)"

record tuner_args =
  ar_input_file :: string
  ar_devices :: "string list"
  ar_max_cpu_workers :: int
  ar_num_model_candidates :: int
  ar_num_candidates :: int
  ar_num_subgroups :: int
  ar_dims :: dims_config
  ar_dry_run :: bool

text \<open>\<open>xs[:n]\<close>\<close>

definition py_take :: "int \<Rightarrow> 'v list \<Rightarrow> 'v list" where
  "py_take n xs = (if 0 \<le> n then take (nat n) xs else take (length xs - nat (- n)) xs)"

subsection \<open>Generating candidates\<close>

text \<open>
  \<open>tuned\<close> is the outcome of \<open>candidate_gen.tune\<close>, \<open>files\<close> the \<open>.mlir\<close> files in the candidates directory
  afterwards, \<open>pickle\<close> the configurations in \<open>configs.pkl\<close>, \<open>None\<close> when there is no such file.
  \<open>copied\<close> tells whether the prolog and epilog could be copied.
\<close>

definition load_pickle :: "'v list option \<Rightarrow> 'v list res" where
  "load_pickle file =
     res_bind (handle_error (file = None) Error (Some FileNotFoundError) False)
       (\<lambda>_. case file of None \<Rightarrow> Inl FileNotFoundError | Some xs \<Rightarrow> Inr xs)"

definition track_mlir ::
  "'i compilation_info option list \<Rightarrow> string \<Rightarrow> (('f, 'i) trackers, int list) stateful" where
  "track_mlir candidate_configs mlir =
     (if \<not> sublist ''_config.mlir'' (path_name mlir) then
        st_bind (st_lift (parse_int (path_stem mlir))) (\<lambda>i.
        st_bind (st_lift (py_get candidate_configs i)) (\<lambda>configuration.
        st_bind (add_tracker ((new_tracker i)\<lparr>ct_dispatch_mlir_path := Some mlir,
                                             ct_configuration := configuration\<rparr>)) (\<lambda>_.
        st_return [i])))
      else
        st_bind (st_lift (parse_int (hd (str_split ''_config'' (path_stem mlir))))) (\<lambda>i.
        st_bind (set_tracker i (\<lambda>ct. ct\<lparr>ct_dispatch_config_path := Some mlir\<rparr>)) (\<lambda>_. st_return [])))"

definition generate_candidates ::
  "bool \<Rightarrow> unit res \<Rightarrow> string list \<Rightarrow> 'i compilation_info list option \<Rightarrow> (('f, 'i) trackers, int list) stateful" where
  "generate_candidates copied tuned files pickle =
     st_bind (st_lift (handle_error (\<not> copied) Error (Some FileNotFoundError) False)) (\<lambda>_.
     st_bind (st_lift tuned) (\<lambda>_.
     let mlirs = sort_key numerical_sort_key files in
     st_bind (st_lift (load_pickle pickle)) (\<lambda>configs.
     let candidate_configs = None # map Some configs in
     st_bind (st_lift (assert_that (length mlirs div 2 + 1 = length candidate_configs))) (\<lambda>_.
     st_bind (st_map (track_mlir candidate_configs) mlirs) (\<lambda>found.
     let candidates = concat found in
     st_bind (st_lift (handle_error (candidates = []) Error (Some PyException) False)) (\<lambda>_.
     st_return candidates))))))"

definition track_spec ::
  "path_config \<Rightarrow> nat \<times> 'm \<Rightarrow> (('f, 'i) trackers, int) stateful" where
  "track_spec pc numbered =
     (let candidate_num = int (fst numbered);
          spec_path = path_join (pc_specs_dir pc) (get_candidate_spec_filename candidate_num)
      in st_bind (add_tracker ((new_tracker candidate_num)\<lparr>ct_mlir_path := Some (pc_template_mlir pc),
                                 ct_spec_path := Some spec_path\<rparr>)) (\<lambda>_. st_return candidate_num))"

text \<open>\<open>specs\<close> is what \<open>generate_configs_and_td_specs\<close> makes of the parsed module.\<close>

definition generate_candidate_specs ::
  "(string list \<Rightarrow> command_outcome) \<Rightarrow> (string \<Rightarrow> 'md option) \<Rightarrow> ('md \<Rightarrow> int \<Rightarrow> int \<Rightarrow> 'm list res) \<Rightarrow>
   tuner_args \<Rightarrow> path_config \<Rightarrow> (('f, 'i) trackers, int list) stateful" where
  "generate_candidate_specs run parse specs args pc =
     st_bind (st_lift (strip_compilation_info run (pc_template_mlir pc))) (\<lambda>mlir_text.
     st_bind (st_lift (parse_mlir parse mlir_text)) (\<lambda>mlir_module.
     st_bind (st_lift (specs mlir_module (ar_num_candidates args) (ar_num_subgroups args))) (\<lambda>config_specs.
     st_bind (st_lift (handle_error (length config_specs \<le> 1) Error (Some PyException) False)) (\<lambda>_.
     st_map (track_spec pc) (zip [0..<length config_specs] config_specs)))))"

subsection \<open>Compiling\<close>

definition prefer_unique :: "(int \<times> string) list \<Rightarrow> int list \<Rightarrow> int list" where
  "prefer_unique hashes indexes =
     (let (collision_detected, unique_indexes) = collision_handler hashes
      in if collision_detected then unique_indexes else indexes)"

definition vmfb_hash ::
  "(string \<Rightarrow> string) \<Rightarrow> int \<Rightarrow> (('f, 'i) trackers, int \<times> string) stateful" where
  "vmfb_hash md5 i =
     st_bind (get_tracker i) (\<lambda>ct.
     st_bind (st_lift (case ct_compiled_vmfb_path ct of None \<Rightarrow> Inl TypeError | Some p \<Rightarrow> Inr (i, md5 p)))
       st_return)"

text \<open>\<open>reprint\<close> parses the stripped text, strips the root attributes and prints the module.\<close>

definition compile_candidates ::
  "int option pool_env \<Rightarrow> (string list \<Rightarrow> command_outcome) \<Rightarrow> (string \<Rightarrow> string res) \<Rightarrow> string list \<Rightarrow>
   (compile_call \<Rightarrow> bool) \<Rightarrow> (string \<Rightarrow> string) \<Rightarrow> tuner_args \<Rightarrow> path_config \<Rightarrow> int list \<Rightarrow>
   (('f, 'i) trackers, int list) stateful" where
  "compile_candidates pe run reprint flags compile_file md5 args pc candidates =
     (if candidates = [] then st_return []
      else
      st_bind (st_lift (strip_compilation_info run (pc_template_mlir pc))) (\<lambda>stripped.
      st_bind (st_lift (reprint stripped)) (\<lambda>_.
      st_bind (st_map (\<lambda>i. st_bind (get_tracker i) (\<lambda>ct.
          set_tracker i (\<lambda>x. x\<lparr>
            ct_compiled_vmfb_path := Some (path_join (pc_compiled_dir pc)
              (get_candidate_vmfb_filename (ct_candidate_id ct))),
            ct_mlir_path := Some (pc_template_mlir pc)\<rparr>))) candidates) (\<lambda>_.
      st_bind (set_tracker 0 (\<lambda>x. x\<lparr>ct_mlir_path := Some (pc_template_mlir pc)\<rparr>)) (\<lambda>_.
      st_bind (st_map get_tracker (candidates @ (if 0 \<in> set candidates then [] else [0]))) (\<lambda>cts.
      st_bind (st_lift (multiprocess_progress_wrapper pe
          (min (ar_max_cpu_workers args) (int (length cts)))
          (map (\<lambda>ct. (flags, ct)) cts) (\<lambda>_. run_iree_compile_command compile_file) [])) (\<lambda>results.
      let compiled_candidates = List.map_filter (\<lambda>c. c) results in
      st_bind (st_map (vmfb_hash md5) compiled_candidates) (\<lambda>hashes.
      st_return (prefer_unique hashes compiled_candidates)))))))))"

definition dispatch_tasks ::
  "(('f, 'i) candidate_tracker \<Rightarrow> string list) \<Rightarrow> int \<Rightarrow> bool \<Rightarrow> int \<Rightarrow> int list \<Rightarrow>
   (('f, 'i) trackers, task_pack list) stateful" where
  "dispatch_tasks get_command timeout need_device cooling candidates =
     st_map (\<lambda>i. st_bind (get_tracker i) (\<lambda>ct. st_return
       \<lparr>tp_run_pack = \<lparr>rp_command = get_command ct, rp_check = False, rp_timeout_seconds = Some timeout\<rparr>,
        tp_candidate_id = i, tp_command_need_device_id = need_device, tp_cooling_time = cooling\<rparr>)) candidates"

definition track_compiled_dispatch ::
  "(string \<Rightarrow> string) \<Rightarrow> string \<Rightarrow> (('f, 'i) trackers, int \<times> string) stateful" where
  "track_compiled_dispatch md5 compiled_file =
     st_bind (st_lift (get_compiled_dispatch_index compiled_file)) (\<lambda>i.
     st_bind (set_tracker i (\<lambda>ct. ct\<lparr>ct_compilation_successful := Some True,
       ct_compiled_dispatch_path := Some compiled_file,
       ct_compiled_dispatch_hash := Some (md5 compiled_file)\<rparr>)) (\<lambda>_.
     st_return (i, md5 compiled_file)))"

definition compile_dispatches ::
  "task_result pool_env \<Rightarrow> (string list \<Rightarrow> command_outcome) \<Rightarrow> (('f, 'i) candidate_tracker \<Rightarrow> string list) \<Rightarrow>
   int \<Rightarrow> string list \<Rightarrow> string list \<Rightarrow> (string \<Rightarrow> string) \<Rightarrow> tuner_args \<Rightarrow> int list \<Rightarrow>
   (('f, 'i) trackers, int list) stateful" where
  "compile_dispatches pe run get_command timeout compiled_glob failed_glob md5 args candidates =
     (if candidates = [] then st_return []
      else
      st_bind (dispatch_tasks get_command timeout False 0 candidates) (\<lambda>task_list.
      st_bind (st_lift (multiprocess_progress_wrapper pe
          (min (ar_max_cpu_workers args) (int (length task_list))) task_list
          (\<lambda>device. run_command_wrapper device run) [])) (\<lambda>_.
      let compiled_files = sort_key numerical_sort_key compiled_glob;
          failed_files = sort_key numerical_sort_key failed_glob in
      st_bind (st_map (\<lambda>failed_file. st_bind (st_lift (get_compiled_dispatch_index failed_file)) (\<lambda>i.
          set_tracker i (\<lambda>ct. ct\<lparr>ct_compilation_successful := Some False\<rparr>))) failed_files) (\<lambda>_.
      st_bind (st_map (track_compiled_dispatch md5) compiled_files) (\<lambda>hash_list.
      st_bind (st_lift (handle_error (compiled_files = []) Error (Some PyException) False)) (\<lambda>_.
      st_bind (st_lift (handle_error (10 * length compiled_files < length task_list) Warning
          (Some PyException) False)) (\<lambda>_.
      st_return (prefer_unique hash_list (map fst hash_list)))))))))"

definition track_compiled_model ::
  "(string \<Rightarrow> string) \<Rightarrow> string \<Rightarrow> (('f, 'i) trackers, int \<times> string) stateful" where
  "track_compiled_model md5 model_candidate =
     st_bind (st_lift (get_compiled_model_index model_candidate)) (\<lambda>i.
     st_bind (set_tracker i (\<lambda>ct. ct\<lparr>ct_compiled_model_path := Some model_candidate,
       ct_compiled_model_hash := Some (md5 model_candidate)\<rparr>)) (\<lambda>_.
     st_return (i, md5 model_candidate)))"

text \<open>\<open>models\<close> is what \<open>base_dir.glob("*.vmfb")\<close> lists after the commands ran.\<close>

definition compile_models ::
  "task_result pool_env \<Rightarrow> (string list \<Rightarrow> command_outcome) \<Rightarrow> (('f, 'i) candidate_tracker \<Rightarrow> string list) \<Rightarrow>
   int \<Rightarrow> string list \<Rightarrow> (string \<Rightarrow> string) \<Rightarrow> tuner_args \<Rightarrow> path_config \<Rightarrow> int list \<Rightarrow>
   (('f, 'i) trackers, int list) stateful" where
  "compile_models pe run get_command timeout models md5 args pc candidates =
     st_bind (set_tracker 0 (\<lambda>ct. ct\<lparr>ct_compiled_model_path := Some (pc_model_baseline_vmfb pc)\<rparr>)) (\<lambda>_.
     if ar_dry_run args then
       st_bind (st_map (\<lambda>i. set_tracker i (\<lambda>ct.
         ct\<lparr>ct_compiled_model_path := Some (''model_'' @ str_int i @ ''.vmfb'')\<rparr>)) candidates) (\<lambda>_.
       st_return candidates)
     else if candidates = [] then st_return []
     else
       st_bind (dispatch_tasks get_command timeout False 0 (filter (\<lambda>i. i \<noteq> 0) candidates)) (\<lambda>task_list.
       st_bind (st_lift (multiprocess_progress_wrapper pe
           (min (ar_max_cpu_workers args) (int (length task_list))) task_list
           (\<lambda>device. run_command_wrapper device run) [])) (\<lambda>_.
       st_bind (st_map (track_compiled_model md5) models) (\<lambda>hash_list.
       st_return (prefer_unique hash_list (map fst hash_list))))))"

subsection \<open>Benchmarking dispatches\<close>

type_synonym 'f json_loader = "string \<Rightarrow> 'f json_dict list option option"

text \<open>The mean time of a result whose process finished.\<close>

definition mean_time ::
  "'f floats \<Rightarrow> 'f json_loader \<Rightarrow> run_result \<Rightarrow> ('s, 'f) stateful" where
  "mean_time fl json_loads r =
     st_bind (st_lift (extract_benchmark_from_run_result json_loads r)) (\<lambda>res_json.
     st_bind (require res_json) (\<lambda>json.
     st_bind (st_lift (get_mean_time_us fl json)) require))"

text \<open>One result: what it adds to the parsed results, the dump and the incomplete candidates.\<close>

definition parse_dispatch_result ::
  "'f floats \<Rightarrow> 'f json_loader \<Rightarrow> path_config \<Rightarrow> task_result \<Rightarrow>
   (('f, 'i) trackers, 'f parsed_dispatch_result list \<times> string list \<times> int list) stateful" where
  "parse_dispatch_result fl json_loads pc r =
     (let candidate_id = tr_candidate_id r in
      if rr_process_res (tr_run_result r) = None then
        st_return ([], [], if rr_is_timeout (tr_run_result r) then [candidate_id] else [])
      else
        st_bind (mean_time fl json_loads (tr_run_result r)) (\<lambda>benchmark_time.
        st_bind (set_tracker candidate_id (\<lambda>ct. ct\<lparr>ct_first_benchmark_time := Some benchmark_time,
          ct_spec_path := Some (path_join (pc_specs_dir pc) (get_candidate_spec_filename candidate_id))\<rparr>)) (\<lambda>_.
        st_bind (get_tracker candidate_id) (\<lambda>ct.
        st_bind (require (ct_dispatch_mlir_path ct)) (\<lambda>mlir_path.
        st_bind (require (ct_spec_path ct)) (\<lambda>spec_path.
        st_return ([\<lparr>pd_candidate_id = candidate_id, pd_benchmark_time_in_seconds = benchmark_time,
            pd_candidate_mlir = mlir_path, pd_candidate_spec_mlir = spec_path\<rparr>],
          [generate_display_DBR fl candidate_id benchmark_time @ newline], [])))))))"

definition parse_dispatch_benchmark_results ::
  "'f floats \<Rightarrow> 'f json_loader \<Rightarrow> path_config \<Rightarrow> task_result list \<Rightarrow>
   (('f, 'i) trackers, 'f parsed_dispatch_result list \<times> string list) stateful" where
  "parse_dispatch_benchmark_results fl json_loads pc benchmark_results =
     st_bind (st_map (parse_dispatch_result fl json_loads pc) benchmark_results) (\<lambda>parts.
     st_return (concat (map fst parts),
       concat (map (fst \<circ> snd) parts) @
       map (\<lambda>i. ''Candidate '' @ str_int i @ '' not completed'') (concat (map (snd \<circ> snd) parts))))"

definition generate_sample_task_result :: "string \<Rightarrow> int \<Rightarrow> string \<Rightarrow> task_result" where
  "generate_sample_task_result stdout candidate_id device_id =
     \<lparr>tr_run_result = \<lparr>rr_process_res = Some \<lparr>pr_stdout = stdout, pr_returncode = 0\<rparr>, rr_is_timeout = False\<rparr>,
      tr_candidate_id = candidate_id, tr_device_id = device_id\<rparr>"

text \<open>\<open>random.uniform\<close> is the parameter \<open>rnd\<close>, one number for each call.\<close>

definition sample_stdout :: "'f floats \<Rightarrow> 'f \<Rightarrow> string" where
  "sample_stdout fl x = ''process_time/real_time_mean    '' @ fl_format fl ''.3g'' x @ '' ms''"

definition generate_dryrun_dispatch_benchmark_results ::
  "'f floats \<Rightarrow> (nat \<Rightarrow> 'f) \<Rightarrow> int list \<Rightarrow> task_result list" where
  "generate_dryrun_dispatch_benchmark_results fl rnd compiled_candidates =
     map (\<lambda>(k, i). generate_sample_task_result (sample_stdout fl (rnd k)) i ''0'')
       (zip [0..<length compiled_candidates] compiled_candidates)"

definition generate_dryrun_model_benchmark_results ::
  "'f floats \<Rightarrow> (nat \<Rightarrow> 'f) \<Rightarrow> int list \<Rightarrow> task_result list \<times> task_result list" where
  "generate_dryrun_model_benchmark_results fl rnd model_candidates =
     (map (\<lambda>(i, j). generate_sample_task_result (sample_stdout fl (rnd i)) j (nat_str (i mod 3)))
        (zip [0..<length model_candidates] model_candidates),
      map (\<lambda>i. generate_sample_task_result (sample_stdout fl (rnd (length model_candidates + i))) 0 (nat_str i))
        [0..<3])"

definition benchmark_dispatches ::
  "('f :: linorder) floats \<Rightarrow> (nat \<Rightarrow> 'f) \<Rightarrow> 'f json_loader \<Rightarrow> task_result pool_env \<Rightarrow>
   (string list \<Rightarrow> command_outcome) \<Rightarrow> (('f, 'i) candidate_tracker \<Rightarrow> string list) \<Rightarrow> int \<Rightarrow> tuner_args \<Rightarrow>
   path_config \<Rightarrow> int list \<Rightarrow> (('f, 'i) trackers, int list) stateful" where
  "benchmark_dispatches fl rnd json_loads pe run get_command timeout args pc compiled_candidates =
     st_bind
       (if ar_dry_run args
        then st_return (generate_dryrun_dispatch_benchmark_results fl rnd compiled_candidates)
        else st_bind (dispatch_tasks get_command timeout True 0 compiled_candidates) (\<lambda>task_list.
          st_lift (multiprocess_progress_wrapper pe (int (length (ar_devices args))) task_list
            (\<lambda>device. run_command_wrapper device run) (create_worker_context_queue (ar_devices args)))))
       (\<lambda>benchmark_results.
     st_bind (parse_dispatch_benchmark_results fl json_loads pc benchmark_results) (\<lambda>(parsed, _).
     if benchmark_results = [] then st_lift (Inl ZeroDivisionError)
     else
       st_bind (st_lift (handle_error (benchmark_results = []) Error (Some PyException) False)) (\<lambda>_.
       st_return (map pd_candidate_id
         (py_take (ar_num_model_candidates args) (sort_key pd_benchmark_time_in_seconds parsed))))))"

subsection \<open>Benchmarking compiled modules\<close>

definition bench_tasks ::
  "string list \<Rightarrow> int \<Rightarrow> int list \<Rightarrow>
   (('f, 'i) trackers, (string list \<times> int \<times> ('f, 'i) candidate_tracker) list) stateful" where
  "bench_tasks flags timeout is = st_map (\<lambda>i. st_bind (get_tracker i) (\<lambda>ct. st_return (flags, timeout, ct))) is"

definition baseline_times_by_device :: "'f benchmark_result list \<Rightarrow> (string \<times> 'f) list" where
  "baseline_times_by_device baseline_results =
     foldl (\<lambda>d r. AList.update (br_device_id r) (br_time r) d) [] baseline_results"

definition get_speedup ::
  "'f floats \<Rightarrow> (string \<times> 'f) list \<Rightarrow> 'f benchmark_result \<Rightarrow> 'f res" where
  "get_speedup fl baselines r =
     (case map_of baselines (br_device_id r) of
        None \<Rightarrow> Inl KeyError
      | Some b \<Rightarrow> if b = fl_zero fl then Inl ZeroDivisionError else Inr (fl_div fl (br_time r) b))"

definition select_best ::
  "('f :: linorder) floats \<Rightarrow> (string \<times> 'f) list \<Rightarrow> int option \<Rightarrow> 'f benchmark_result list \<Rightarrow> int list res" where
  "select_best fl baselines num_candidates candidate_results =
     res_bind (res_map (\<lambda>r. res_bind (get_speedup fl baselines r) (\<lambda>k. Inr (k, r))) candidate_results)
       (\<lambda>keyed. Inr (map (br_candidate_id \<circ> snd) (py_take
          (case num_candidates of None \<Rightarrow> int (length candidate_results) | Some n \<Rightarrow> n) (sort_key fst keyed))))"

definition benchmark ::
  "('f :: linorder) floats \<Rightarrow> 'f benchmark_result pool_env \<Rightarrow> 'f benchmark_result pool_env \<Rightarrow>
   (string \<Rightarrow> bench_call \<Rightarrow> (string \<times> string) list option) \<Rightarrow> string list \<Rightarrow> int \<Rightarrow> tuner_args \<Rightarrow>
   int list \<Rightarrow> int option \<Rightarrow> (('f, 'i) trackers, int list) stateful" where
  "benchmark fl pe pe0 bench flags timeout args compiled_candidates num_candidates =
     (let devices = ar_devices args; queue = create_worker_context_queue devices;
          run_all = (\<lambda>env tasks. st_lift (multiprocess_progress_wrapper env (int (length devices)) tasks
            (\<lambda>device. run_iree_benchmark_module_command fl bench device) queue))
      in st_bind (bench_tasks flags timeout (filter (\<lambda>i. i \<noteq> 0) compiled_candidates)) (\<lambda>task_list.
         st_bind (run_all pe task_list) (\<lambda>candidate_results.
         st_bind (bench_tasks flags timeout [0]) (\<lambda>baseline_task.
         st_bind (run_all pe0 (concat (replicate (length devices) baseline_task))) (\<lambda>baseline_results.
         st_lift (select_best fl (baseline_times_by_device baseline_results) num_candidates candidate_results))))))"

subsection \<open>Benchmarking models\<close>

fun group_results :: "task_result list \<Rightarrow> (string \<times> task_result list) list \<Rightarrow> (string \<times> task_result list) list" where
  "group_results [] grouped = grouped"
| "group_results (r # rs) grouped =
     group_results rs (case map_of grouped (tr_device_id r) of
         None \<Rightarrow> grouped @ [(tr_device_id r, [r])]
       | Some g \<Rightarrow> AList.update (tr_device_id r) (g @ [r]) grouped)"

definition group_benchmark_results_by_device_id :: "task_result list \<Rightarrow> task_result list list" where
  "group_benchmark_results_by_device_id benchmark_results =
     (let grouped = group_results benchmark_results []
      in map (\<lambda>device_id. the (map_of grouped device_id)) (sort (map fst grouped)))"

record 'f model_dump =
  md_baseline_time :: "'f option"
  md_dump_list :: "string list"
  md_incomplete_list :: "(int \<times> string) list"
  md_dump_unsort_list :: "('f \<times> string) list"

definition display_model ::
  "'f floats \<Rightarrow> ('f, 'i) candidate_tracker \<Rightarrow> string \<Rightarrow> 'f \<Rightarrow> 'f option \<Rightarrow> (('f, 'i) trackers, string) stateful" where
  "display_model fl ct device_id t diff =
     st_bind (require (ct_compiled_model_path ct)) (\<lambda>path.
     st_return (generate_display_MBR fl path device_id t diff @ newline @ newline))"

text \<open>One result of a device's list; the baseline of the device comes first.\<close>

definition parse_model_result ::
  "'f floats \<Rightarrow> 'f json_loader \<Rightarrow> 'f model_dump \<Rightarrow> task_result \<Rightarrow> (('f, 'i) trackers, 'f model_dump) stateful" where
  "parse_model_result fl json_loads md r =
     (let candidate_id = tr_candidate_id r; device_id = tr_device_id r; rr = tr_run_result r in
      if rr_process_res rr = None then
        st_return (let md1 = (if rr_is_timeout rr
              then md\<lparr>md_incomplete_list := md_incomplete_list md @ [(candidate_id, device_id)]\<rparr> else md)
          in if candidate_id = 0 then md1\<lparr>md_baseline_time := None\<rparr> else md1)
      else
        st_bind (mean_time fl json_loads rr) (\<lambda>benchmark_time.
        if candidate_id = 0 then
          st_bind (get_tracker candidate_id) (\<lambda>ct.
          st_bind (display_model fl ct device_id benchmark_time None) (\<lambda>dump_str.
          st_return (md\<lparr>md_baseline_time := Some benchmark_time,
            md_dump_list := md_dump_list md @ [dump_str]\<rparr>)))
        else
          st_bind (set_tracker candidate_id (\<lambda>ct. ct\<lparr>ct_model_benchmark_time := Some benchmark_time,
            ct_model_benchmark_device_id := Some device_id\<rparr>)) (\<lambda>_.
          let diff = (case md_baseline_time md of
                None \<Rightarrow> None
              | Some b \<Rightarrow> if b = fl_zero fl then None
                  else Some (b, fl_div fl (fl_sub fl benchmark_time b) b))
          in
          st_bind (case diff of None \<Rightarrow> st_return () | Some (b, d) \<Rightarrow>
            set_tracker candidate_id (\<lambda>ct. ct\<lparr>ct_baseline_benchmark_time := Some b,
              ct_calibrated_benchmark_diff := Some d\<rparr>)) (\<lambda>_.
          st_bind (get_tracker candidate_id) (\<lambda>ct.
          st_bind (display_model fl ct device_id benchmark_time (map_option snd diff)) (\<lambda>dump_str.
          st_return (md\<lparr>md_dump_unsort_list := md_dump_unsort_list md @ [(benchmark_time, dump_str)]\<rparr>)))))))"

fun st_fold :: "('x \<Rightarrow> 'y \<Rightarrow> ('s, 'x) stateful) \<Rightarrow> 'x \<Rightarrow> 'y list \<Rightarrow> ('s, 'x) stateful" where
  "st_fold f x [] = st_return x"
| "st_fold f x (y # ys) = st_bind (f x y) (\<lambda>x1. st_fold f x1 ys)"

definition parse_device_results ::
  "('f :: linorder) floats \<Rightarrow> 'f json_loader \<Rightarrow> 'f model_dump \<Rightarrow> task_result list \<Rightarrow>
   (('f, 'i) trackers, 'f model_dump) stateful" where
  "parse_device_results fl json_loads md same_device_results =
     st_bind (st_fold (parse_model_result fl json_loads) (md\<lparr>md_dump_unsort_list := []\<rparr>) same_device_results)
       (\<lambda>md1. st_return (md1\<lparr>md_dump_list := md_dump_list md1 @ map snd (sort_key fst (md_dump_unsort_list md1))\<rparr>))"

definition dump_incomplete :: "int \<times> string \<Rightarrow> (('f, 'i) trackers, string) stateful" where
  "dump_incomplete entry =
     (let (index, device) = entry in
      st_bind (get_tracker index) (\<lambda>ct.
      st_bind (require (ct_compiled_model_path ct)) (\<lambda>file_path.
      st_bind (st_lift (handle_error True Warning (Some PyException) False)) (\<lambda>_.
      st_return (''Benchmarking result of '' @ file_path @ '' on device '' @ device @ '' is incomplete'' @ newline)))))"

definition parse_model_benchmark_results ::
  "('f :: linorder) floats \<Rightarrow> 'f json_loader \<Rightarrow> task_result list \<Rightarrow> task_result list \<Rightarrow>
   (('f, 'i) trackers, string list) stateful" where
  "parse_model_benchmark_results fl json_loads candidate_results baseline_results =
     (let grouped_candidate_results =
            group_benchmark_results_by_device_id (sort_key tr_device_id candidate_results);
          grouped_benchmark_results =
            map (\<lambda>(x, y). x # y) (zip (sort_key tr_device_id baseline_results) grouped_candidate_results)
      in st_bind (st_fold (parse_device_results fl json_loads)
             \<lparr>md_baseline_time = None, md_dump_list = [], md_incomplete_list = [], md_dump_unsort_list = []\<rparr>
             grouped_benchmark_results) (\<lambda>md.
         st_bind (st_map dump_incomplete (md_incomplete_list md)) (\<lambda>incomplete.
         st_return (md_dump_list md @ incomplete))))"

definition benchmark_models ::
  "('f :: linorder) floats \<Rightarrow> (nat \<Rightarrow> 'f) \<Rightarrow> 'f json_loader \<Rightarrow> task_result pool_env \<Rightarrow> task_result pool_env \<Rightarrow>
   (string list \<Rightarrow> command_outcome) \<Rightarrow> (('f, 'i) candidate_tracker \<Rightarrow> string list) \<Rightarrow> int \<Rightarrow> int \<Rightarrow> tuner_args \<Rightarrow>
   path_config \<Rightarrow> int list \<Rightarrow> (('f, 'i) trackers, string list) stateful" where
  "benchmark_models fl rnd json_loads pe pe0 run get_command dispatch_timeout model_timeout args pc model_candidates =
     (let devices = ar_devices args; queue = create_worker_context_queue devices;
          run_all = (\<lambda>env tasks. st_lift (multiprocess_progress_wrapper env (int (length devices)) tasks
            (\<lambda>device. run_command_wrapper device run) queue))
      in st_bind
           (if ar_dry_run args then st_return (generate_dryrun_model_benchmark_results fl rnd model_candidates)
            else
            st_bind (dispatch_tasks get_command dispatch_timeout True 10 model_candidates) (\<lambda>task_list.
            st_bind (run_all pe task_list) (\<lambda>candidate_results.
            st_bind (set_tracker 0 (\<lambda>ct. ct\<lparr>ct_compiled_model_path := Some (pc_model_baseline_vmfb pc)\<rparr>)) (\<lambda>_.
            st_bind (dispatch_tasks get_command model_timeout True 0 [0]) (\<lambda>baseline_task.
            st_bind (run_all pe0 (concat (replicate
                (length (group_benchmark_results_by_device_id candidate_results)) baseline_task))) (\<lambda>baseline_results.
            st_return (candidate_results, baseline_results)))))))
           (\<lambda>(candidate_results, baseline_results).
         parse_model_benchmark_results fl json_loads candidate_results baseline_results))"

text \<open>\<open>benchmark_models\<close> appends the lines to the log, \<open>append_to_file\<close> frames them.\<close>

definition append_to_file :: "string list \<Rightarrow> string \<Rightarrow> string \<Rightarrow> string" where
  "append_to_file lines content title =
     content @ (if title = [] then [] else ''===== '' @ title @ '' ====='' @ newline) @ concat lines @ newline"

subsection \<open>Summary\<close>

definition str_option :: "('v \<Rightarrow> string) \<Rightarrow> 'v option \<Rightarrow> string" where
  "str_option f x = (case x of None \<Rightarrow> ''None'' | Some v \<Rightarrow> f v)"

definition summary_entry ::
  "'f floats \<Rightarrow> (string \<Rightarrow> string) \<Rightarrow> ('f, 'i) candidate_tracker \<Rightarrow> string res" where
  "summary_entry fl read_file candidate =
     (case ct_dispatch_config_path candidate of
        None \<Rightarrow> Inl AssertionError
      | Some path \<Rightarrow> Inr (
          ''Candidate '' @ str_int (ct_candidate_id candidate) @ '':'' @ newline @
          ''Model benchmark time: '' @ str_option (fl_format fl '''') (ct_model_benchmark_time candidate) @
          '' on device '' @ str_option (\<lambda>d. d) (ct_model_benchmark_device_id candidate) @ newline @
          ''Dispatch benchmark time: '' @ str_option (fl_format fl '''') (ct_first_benchmark_time candidate) @
          '' on device '' @ str_option (\<lambda>d. d) (ct_model_benchmark_device_id candidate) @ newline @
          ''Spec file path: '' @ str_option (\<lambda>p. p) (ct_spec_path candidate) @ newline @
          ''Spec contents:'' @ read_file path @ newline @ newline))"

definition top_candidates_of :: "('f :: linorder, 'i) trackers \<Rightarrow> int list" where
  "top_candidates_of candidate_trackers =
     map fst (sort_key snd (List.map_filter (\<lambda>ct.
       if ct_candidate_id ct = 0 then None
       else map_option (\<lambda>t. (ct_candidate_id ct, t)) (ct_model_benchmark_time ct)) candidate_trackers))"

definition summarize_top_candidates ::
  "('f :: linorder) floats \<Rightarrow> (string \<Rightarrow> string) \<Rightarrow> ('f, 'i) trackers \<Rightarrow> string res" where
  "summarize_top_candidates fl read_file candidate_trackers =
     res_bind (res_map (\<lambda>i. res_bind (py_get candidate_trackers i) (summary_entry fl read_file))
       (top_candidates_of candidate_trackers)) (\<lambda>dump_list. Inr (concat dump_list))"

end
