(* ===== verification/Tuner_Stage_Properties.thy ===== *)
theory Tuner_Stage_Properties
  imports Tuner_Stages "HOL-Library.Multiset"
begin

section \<open>Properties of the tuning stages\<close>

text \<open>Hashes and collisions, the numbering of the trackers, baselines.\<close>

subsection \<open>Hashes and their candidates\<close>

text \<open>The values of a list in the order of their first occurrence, and the indexes that have a hash.\<close>

fun firsts :: "'v list \<Rightarrow> 'v list" where
  "firsts [] = []"
| "firsts (x # xs) = x # filter (\<lambda>y. y \<noteq> x) (firsts xs)"

definition indices_of :: "(int \<times> string) list \<Rightarrow> string \<Rightarrow> int list" where
  "indices_of hs h = map fst (filter (\<lambda>e. snd e = h) hs)"

lemma indices_of_simps [simp]:
  "indices_of [] h = []"
  "indices_of (e # hs) h = (if snd e = h then fst e # indices_of hs h else indices_of hs h)"
  by (simp_all add: indices_of_def)

lemma set_firsts [simp]: "set (firsts xs) = set xs"
  by (induction xs) auto

lemma distinct_firsts [simp]: "distinct (firsts xs)"
  by (induction xs) auto

lemma firsts_distinct: "distinct xs \<Longrightarrow> firsts xs = xs"
  by (induction xs) (auto simp: filter_id_conv)

lemma length_firsts: "length (firsts xs) = length xs \<longleftrightarrow> distinct xs"
  by (metis distinct_firsts set_firsts distinct_card card_distinct)

lemma indices_of_absent: "h \<notin> snd ` set hs \<Longrightarrow> indices_of hs h = []"
  by (induction hs) auto

lemma map_of_count_hashes:
  "map_of (count_hashes hs acc) h =
     (case map_of acc h of Some ixs \<Rightarrow> Some (ixs @ indices_of hs h)
      | None \<Rightarrow> if h \<in> snd ` set hs then Some (indices_of hs h) else None)"
proof (induction hs acc rule: count_hashes.induct)
  case (1 acc)
  then show ?case by (simp split: option.splits)
next
  case (2 i x rest acc)
  show ?case
  proof (cases "map_of acc x")
    case None
    with 2 show ?thesis by (auto simp: map_add_def indices_of_absent split: option.splits)
  next
    case (Some ixs)
    with 2 show ?thesis by (auto simp: update_conv split: option.splits)
  qed
qed

lemma keys_count_hashes:
  "map fst (count_hashes hs acc) =
     map fst acc @ filter (\<lambda>h. h \<notin> fst ` set acc) (firsts (map snd hs))"
proof (induction hs acc rule: count_hashes.induct)
  case (1 acc)
  then show ?case by simp
next
  case (2 i x rest acc)
  show ?case
  proof (cases "map_of acc x")
    case None
    then have "x \<notin> fst ` set acc" by (simp add: map_of_eq_None_iff)
    with 2 None show ?thesis by (auto intro!: filter_cong)
  next
    case (Some ixs)
    then have x: "x \<in> fst ` set acc" by (force dest: map_of_SomeD)
    have keys: "map fst (AList.update x v acc) = map fst acc" for v
      using x by (simp add: update_keys)
    then have "fst ` set (AList.update x v acc) = fst ` set acc" for v by (metis list.set_map)
    with 2 Some x keys show ?thesis by (auto intro!: filter_cong)
  qed
qed

lemma count_hashes_reference:
  "count_hashes hs [] = map (\<lambda>h. (h, indices_of hs h)) (firsts (map snd hs))"
proof -
  have keys: "map fst (count_hashes hs []) = firsts (map snd hs)"
    by (simp add: keys_count_hashes)
  then have dist: "distinct (map fst (count_hashes hs []))" by simp
  have "snd kv = indices_of hs (fst kv)" if "kv \<in> set (count_hashes hs [])" for kv
  proof -
    have "map_of (count_hashes hs []) (fst kv) = Some (snd kv)" using that dist by simp
    then show ?thesis by (auto simp: map_of_count_hashes split: if_splits)
  qed
  then have "count_hashes hs [] = map (\<lambda>h. (h, indices_of hs h)) (map fst (count_hashes hs []))"
    by (intro nth_equalityI) (auto simp: prod_eq_iff)
  then show ?thesis using keys by simp
qed

lemma length_indices: "h \<in> snd ` set hs \<Longrightarrow> 0 < length (indices_of hs h)"
  by (force simp: indices_of_def filter_empty_conv)

lemma sum_indices: "sum_list (map (\<lambda>h. length (indices_of hs h)) (firsts (map snd hs))) = length hs"
proof (induction hs)
  case (Cons x hs)
  obtain i h where x: "x = (i, h)" by (cases x)
  let ?g = "\<lambda>k. length (indices_of hs k)" and ?fs = "filter (\<lambda>y. y \<noteq> h) (firsts (map snd hs))"
  have "map (\<lambda>k. length (indices_of (x # hs) k)) (firsts (map snd (x # hs))) = Suc (?g h) # map ?g ?fs"
    by (auto simp: x)
  then have "sum_list (map (\<lambda>k. length (indices_of (x # hs) k)) (firsts (map snd (x # hs)))) =
      Suc (?g h + sum_list (map ?g ?fs))" by simp
  also have "sum_list (map ?g ?fs) = sum ?g (set (map snd hs) - {h})"
    by (simp add: sum_list_distinct_conv_sum_set set_diff_eq)
  also have "?g h + sum ?g (set (map snd hs) - {h}) = sum ?g (set (map snd hs))"
  proof (cases "h \<in> set (map snd hs)")
    case True
    then show ?thesis by (simp add: sum.remove)
  next
    case False
    then have "?g h = 0" using indices_of_absent [of h hs] by simp
    with False show ?thesis by simp
  qed
  also have "sum ?g (set (map snd hs)) = length hs"
    using Cons by (simp add: sum_list_distinct_conv_sum_set)
  finally show ?case by simp
qed simp

lemma length_indices_distinct: "distinct (map snd hs) \<Longrightarrow> length (indices_of hs h) \<le> 1"
  by (induction hs) (auto simp: indices_of_absent)

text \<open>
  \<open>find_collisions\<close> agrees with the direct definition: it lists every hash once, in the order of
  first occurrence, with all the indexes that have it in their order, and reports a collision exactly
  when two entries have the same hash.
\<close>

theorem collisions_reference:
  "find_collisions hs =
     (\<not> distinct (map snd hs), map (\<lambda>h. (h, indices_of hs h)) (firsts (map snd hs)))"
proof -
  let ?fs = "firsts (map snd hs)"
  have "list_ex (\<lambda>(_, ixs). length ixs > 1) (map (\<lambda>h. (h, indices_of hs h)) ?fs) \<longleftrightarrow> \<not> distinct (map snd hs)"
  proof
    assume "list_ex (\<lambda>(_, ixs). length ixs > 1) (map (\<lambda>h. (h, indices_of hs h)) ?fs)"
    then obtain h where "h \<in> set ?fs" "length (indices_of hs h) > 1" by (auto simp: list_ex_iff)
    then show "\<not> distinct (map snd hs)" using length_indices_distinct [of hs h] by linarith
  next
    assume nd: "\<not> distinct (map snd hs)"
    show "list_ex (\<lambda>(_, ixs). length ixs > 1) (map (\<lambda>h. (h, indices_of hs h)) ?fs)"
    proof (rule ccontr)
      assume "\<not> ?thesis"
      then have "length (indices_of hs h) = 1" if "h \<in> set ?fs" for h
      proof -
        have "\<not> 1 < length (indices_of hs h)" using that \<open>\<not> list_ex _ _\<close> by (auto simp: list_ex_iff)
        moreover have "0 < length (indices_of hs h)" using that by (intro length_indices) auto
        ultimately show ?thesis by linarith
      qed
      then have "map (\<lambda>h. length (indices_of hs h)) ?fs = map (\<lambda>_. 1) ?fs" by (intro map_cong) auto
      then have "sum_list (map (\<lambda>h. length (indices_of hs h)) ?fs) = sum_list (map (\<lambda>_. 1) ?fs)"
        by (rule arg_cong)
      also have "\<dots> = length ?fs" by (simp add: sum_list_triv)
      finally have "sum_list (map (\<lambda>h. length (indices_of hs h)) ?fs) = length ?fs" .
      with sum_indices [of hs] have "length ?fs = length (map snd hs)" by simp
      with nd show False using length_firsts by blast
    qed
  qed
  then show ?thesis by (simp add: find_collisions_def count_hashes_reference)
qed

lemma prefer_unique_reps:
  "prefer_unique hs (map fst hs) = map (\<lambda>h. hd (indices_of hs h)) (firsts (map snd hs))"
proof (cases "distinct (map snd hs)")
  case True
  then have "map (\<lambda>h. hd (indices_of hs h)) (map snd hs) = map fst hs"
  proof (induction hs)
    case (Cons e hs)
    then have "map (\<lambda>h. hd (indices_of (e # hs) h)) (map snd hs) = map (\<lambda>h. hd (indices_of hs h)) (map snd hs)"
      by (intro map_cong) auto
    with Cons show ?case by (simp add: comp_def)
  qed simp
  with True show ?thesis by (simp add: prefer_unique_def collision_handler_def collisions_reference firsts_distinct)
next
  case False
  then show ?thesis by (simp add: prefer_unique_def collision_handler_def collisions_reference comp_def)
qed

lemma hd_indices: "h \<in> snd ` set hs \<Longrightarrow> (hd (indices_of hs h), h) \<in> set hs"
  by (induction hs) (auto split: if_splits)

subsection \<open>Trackers keep their numbers\<close>

definition keeps_ids :: "(('f, 'i) trackers, 'v) stateful \<Rightarrow> bool" where
  "keeps_ids m \<longleftrightarrow> (\<forall>ts. map ct_candidate_id (snd (m ts)) = map ct_candidate_id ts)"

named_theorems keeps_intros \<open>stages that keep the candidate ids\<close>

lemma keeps_return [keeps_intros]: "keeps_ids (st_return x)"
  by (simp add: keeps_ids_def st_return_def)

lemma keeps_lift [keeps_intros]: "keeps_ids (st_lift r)"
  by (simp add: keeps_ids_def st_lift_def)

lemma keeps_require [keeps_intros]: "keeps_ids (require r)"
  by (simp add: require_def keeps_lift)

lemma keeps_bind [keeps_intros]: "keeps_ids m \<Longrightarrow> (\<And>x. keeps_ids (f x)) \<Longrightarrow> keeps_ids (st_bind m f)"
  unfolding keeps_ids_def st_bind_def by (auto split: prod.splits sum.splits) (metis snd_conv)+

lemma keeps_map [keeps_intros]: "(\<And>x. keeps_ids (f x)) \<Longrightarrow> keeps_ids (st_map f xs)"
  by (induction xs) (auto intro!: keeps_intros)

lemma keeps_fold [keeps_intros]: "(\<And>x y. keeps_ids (f x y)) \<Longrightarrow> keeps_ids (st_fold f x ys)"
  by (induction ys arbitrary: x) (auto intro!: keeps_intros)

lemma keeps_get [keeps_intros]: "keeps_ids (get_tracker i)"
  by (simp add: keeps_ids_def get_tracker_def)

lemma keeps_set [keeps_intros]: "(\<And>ct. ct_candidate_id (f ct) = ct_candidate_id ct) \<Longrightarrow> keeps_ids (set_tracker i f)"
  by (auto simp: keeps_ids_def set_tracker_def py_update_def py_index_def Let_def map_update list_update_same_conv
      split: sum.splits)

lemma keeps_if [keeps_intros]: "keeps_ids m \<Longrightarrow> keeps_ids n \<Longrightarrow> keeps_ids (if b then m else n)"
  by simp

lemma keeps_let [keeps_intros]: "(\<And>x. keeps_ids (f x)) \<Longrightarrow> keeps_ids (let x = v in f x)"
  by simp

lemma keeps_pair [keeps_intros]: "(\<And>a b. keeps_ids (f a b)) \<Longrightarrow> keeps_ids (case p of (a, b) \<Rightarrow> f a b)"
  by (cases p) simp

lemma keeps_option [keeps_intros]:
  "keeps_ids m \<Longrightarrow> (\<And>x. keeps_ids (f x)) \<Longrightarrow> keeps_ids (case p of None \<Rightarrow> m | Some x \<Rightarrow> f x)"
  by (cases p) simp_all

lemma keeps_dispatch_tasks [keeps_intros]: "keeps_ids (dispatch_tasks g t n c is)"
  unfolding dispatch_tasks_def by (intro keeps_intros)

lemma keeps_bench_tasks [keeps_intros]: "keeps_ids (bench_tasks flags t is)"
  unfolding bench_tasks_def by (intro keeps_intros)

lemma keeps_mean_time [keeps_intros]: "keeps_ids (mean_time fl js r)"
  unfolding mean_time_def by (intro keeps_intros)

lemma keeps_compile: "keeps_ids (compile_candidates pe run reprint flags cf md5 args pc cands)"
  unfolding compile_candidates_def vmfb_hash_def by (intro keeps_intros) simp_all

lemma keeps_compile_dispatches: "keeps_ids (compile_dispatches pe run g t cg fg md5 args cands)"
  unfolding compile_dispatches_def track_compiled_dispatch_def by (intro keeps_intros) simp_all

lemma keeps_compile_models: "keeps_ids (compile_models pe run g t models md5 args pc cands)"
  unfolding compile_models_def track_compiled_model_def by (intro keeps_intros) simp_all

lemma keeps_benchmark_dispatches: "keeps_ids (benchmark_dispatches fl rnd js pe run g t args pc cands)"
  unfolding benchmark_dispatches_def parse_dispatch_benchmark_results_def parse_dispatch_result_def
  by (intro keeps_intros) simp_all

lemma keeps_benchmark: "keeps_ids (benchmark fl pe pe0 bench flags t args cands n)"
  unfolding benchmark_def Let_def by (intro keeps_intros)

lemma keeps_parse_models: "keeps_ids (parse_model_benchmark_results fl js cr br)"
  unfolding parse_model_benchmark_results_def parse_device_results_def parse_model_result_def
    dump_incomplete_def display_model_def
  by (intro keeps_intros) simp_all

lemma keeps_benchmark_models: "keeps_ids (benchmark_models fl rnd js pe pe0 run g t1 t2 args pc cands)"
  unfolding benchmark_models_def Let_def by (intro keeps_intros keeps_parse_models) simp_all

definition numbered :: "('f, 'i) trackers \<Rightarrow> bool" where
  "numbered ts \<longleftrightarrow> map ct_candidate_id ts = map int [0..<length ts]"

lemma keeps_numbered: "keeps_ids m \<Longrightarrow> numbered ts \<Longrightarrow> numbered (snd (m ts))"
  unfolding keeps_ids_def numbered_def by (metis length_map)

lemma track_specs_numbered:
  "st_map (track_spec pc) (zip [k..<k + length specs] specs) ts = (r, ts') \<Longrightarrow>
   r = Inr (map int [k..<k + length specs]) \<and>
   map ct_candidate_id ts' = map ct_candidate_id ts @ map int [k..<k + length specs]"
proof (induction specs arbitrary: k ts r ts')
  case Nil
  then show ?case by (simp add: st_return_def)
next
  case (Cons x specs)
  obtain ts1 where step: "track_spec pc (k, x) ts = (Inr (int k), ts1)"
    and ids: "map ct_candidate_id ts1 = map ct_candidate_id ts @ [int k]"
    by (simp add: track_spec_def add_tracker_def st_bind_def st_return_def new_tracker_def Let_def)
  obtain r2 ts2 where rest: "st_map (track_spec pc) (zip [Suc k..<Suc k + length specs] specs) ts1 = (r2, ts2)"
    by (rule prod.exhaust)
  from Cons.IH [OF this] have IH: "r2 = Inr (map int [Suc k..<Suc k + length specs])"
    "map ct_candidate_id ts2 = map ct_candidate_id ts1 @ map int [Suc k..<Suc k + length specs]"
    by blast+
  have upt: "[k..<k + length (x # specs)] = k # [Suc k..<Suc k + length specs]"
    by (subst upt_conv_Cons) simp_all
  have "st_map (track_spec pc) (zip [k..<k + length (x # specs)] (x # specs)) ts =
      (Inr (map int (k # [Suc k..<Suc k + length specs])), ts2)"
    unfolding upt zip_Cons_Cons st_map.simps using rest IH(1) by (simp add: step st_return_def del: upt_Suc)
  with Cons.prems have "r = Inr (map int (k # [Suc k..<Suc k + length specs]))" "ts' = ts2" by simp_all
  then show ?case unfolding upt by (simp add: IH(2) ids del: upt_Suc)
qed

text \<open>
  The trackers stay numbered: generating specifications from an empty list yields trackers whose
  ids are their positions, at least the default and one candidate, and returns those numbers; every
  later stage keeps the ids, whether it returns or raises, so that indexing the list by a candidate's
  id always finds that candidate.
\<close>

theorem trackers_stay_numbered:
  fixes specs :: "'md \<Rightarrow> int \<Rightarrow> int \<Rightarrow> 'm list res"
  assumes "generate_candidate_specs run parse specs args pc [] = (Inr cs, ts)"
    and "ts1 = snd (compile_candidates pe run reprint flags cf md5 args pc cs ts)"
    and "ts2 = snd (benchmark fl pb pb0 bench bflags timeout args cs2 best ts1)"
    and "ts3 = snd (benchmark_models fl rnd js pt pt0 run g t t' args pc cs3 ts2)"
  shows "cs = map int [0..<length ts] \<and> 2 \<le> length ts \<and> numbered ts \<and> numbered ts1 \<and> numbered ts2 \<and>
    numbered ts3 \<and> length ts3 = length ts"
proof -
  from assms(1) obtain config_specs :: "'m list" where "1 < length config_specs"
    and "st_map (track_spec pc) (zip [0..<length config_specs] config_specs) [] = (Inr cs, ts)"
    by (auto simp: generate_candidate_specs_def st_bind_Inr st_lift_def handle_error_def raise_error_def
        not_le Suc_le_eq split: if_splits)
  with track_specs_numbered [of pc 0 config_specs "[]" "Inr cs" ts]
  have cs: "cs = map int [0..<length config_specs]" "map ct_candidate_id ts = map int [0..<length config_specs]"
    by simp_all
  then have "length ts = length config_specs" by (metis length_map length_upt minus_nat.diff_0)
  with cs \<open>1 < length config_specs\<close> have "cs = map int [0..<length ts]" "2 \<le> length ts" "numbered ts"
    by (simp_all add: numbered_def)
  moreover have "map ct_candidate_id ts3 = map ct_candidate_id ts"
    using keeps_compile keeps_benchmark keeps_benchmark_models assms(2-4) unfolding keeps_ids_def by metis
  then have "length ts3 = length ts" by (metis length_map)
  moreover have "numbered ts1"
    unfolding assms(2) by (rule keeps_numbered [OF keeps_compile]) fact
  moreover from this have "numbered ts2"
    unfolding assms(3) by (rule keeps_numbered [OF keeps_benchmark])
  moreover from this have "numbered ts3"
    unfolding assms(4) by (rule keeps_numbered [OF keeps_benchmark_models])
  ultimately show ?thesis by simp
qed

subsection \<open>A small tuning session\<close>

text \<open>Times are integers. Two devices; the command line of a benchmark names the device and the
  candidate, and its output the time: the baseline takes 400 on the first device and 200 on the second.\<close>

definition demo_floats :: "int floats" where
  "demo_floats = \<lparr>fl_of_str = (\<lambda>s. case parse_int s of Inr i \<Rightarrow> Some i | _ \<Rightarrow> None), fl_of_nat = int,
     fl_sum = sum_list, fl_mul = (*), fl_sub = (-), fl_div = (\<lambda>a b. 100 * a div b), fl_zero = 0,
     fl_inf = 1000000, fl_const = (\<lambda>_. 1), fl_format = (\<lambda>_. str_int)\<rparr>"

definition demo_args :: "bool \<Rightarrow> tuner_args" where
  "demo_args dry = \<lparr>ar_input_file = ''in.mlir'', ar_devices = [''hip://0'', ''hip://1''], ar_max_cpu_workers = 2,
     ar_num_model_candidates = 2, ar_num_candidates = 4, ar_num_subgroups = -1,
     ar_dims = \<lparr>dc_lhs_dims = ''mk'', dc_rhs_dims = ''nk'', dc_tile_dims = ''mnk''\<rparr>, ar_dry_run = dry\<rparr>"

definition demo_time :: "string \<Rightarrow> string \<Rightarrow> string" where
  "demo_time cand device =
     (if cand = ''0'' then (if device = ''hip://0'' then ''400'' else ''200'') else ''100'')"

definition demo_command :: "(int, nat) candidate_tracker \<Rightarrow> string list" where
  "demo_command ct = [str_int (ct_candidate_id ct), device_id_placeholder]"

definition demo_exec :: "string list \<Rightarrow> command_outcome" where
  "demo_exec command =
     (case command of
        [cand, device] \<Rightarrow> Finished \<lparr>pr_stdout = demo_time cand device, pr_returncode = 0\<rparr>
      | _ \<Rightarrow> Finished \<lparr>pr_stdout = ''module {}'', pr_returncode = 0\<rparr>)"

definition demo_json :: "int json_loader" where
  "demo_json s =
     (case parse_int s of
        Inl _ \<Rightarrow> None
      | Inr i \<Rightarrow> Some (Some [[(''aggregate_name'', JStr ''mean''), (''real_time'', JNum i), (''time_unit'', JStr ''us'')]]))"

text \<open>Each worker takes the task of its own number, or the second worker takes them all.\<close>

definition fair_pool :: "'r pool_env" where
  "fair_pool = \<lparr>pe_assign = (\<lambda>k. k), pe_sched = (\<lambda>rs. rs)\<rparr>"

definition greedy_pool :: "'r pool_env" where
  "greedy_pool = \<lparr>pe_assign = (\<lambda>_. 1), pe_sched = (\<lambda>rs. rs)\<rparr>"

definition demo_bench :: "string \<Rightarrow> bench_call \<Rightarrow> (string \<times> string) list option" where
  "demo_bench vmfb call =
     Some [(''m/real_time'', demo_time (path_stem vmfb) (str_device (bc_device call)) @ '' us'')]"

definition demo_generated :: "int list res \<times> (int, nat) trackers" where
  "demo_generated =
     generate_candidate_specs demo_exec Some (\<lambda>m limit n. Inr [m, m, m]) (demo_args False)
       (path_config_init ''now'') []"

definition demo_compiled :: "int list res \<times> (int, nat) trackers" where
  "demo_compiled =
     compile_candidates fair_pool demo_exec Inr [''--flag''] (\<lambda>_. True) (\<lambda>p. p) (demo_args False)
       (path_config_init ''now'') [0, 1, 2] (snd demo_generated)"

definition demo_benchmarked :: "int benchmark_result pool_env \<Rightarrow> int list res \<times> (int, nat) trackers" where
  "demo_benchmarked pe0 =
     benchmark demo_floats fair_pool pe0 demo_bench [''--input=4xf32''] 10 (demo_args False) [0, 1, 2]
       (Some 1) (snd demo_compiled)"

definition demo_models :: "task_result pool_env \<Rightarrow> string list res \<times> (int, nat) trackers" where
  "demo_models pe0 =
     benchmark_models demo_floats int demo_json fair_pool pe0 demo_exec demo_command 10 20 (demo_args False)
       (path_config_init ''now'') [1, 2]
       (map (\<lambda>ct. ct\<lparr>ct_compiled_model_path := Some ''model.vmfb''\<rparr>) (snd (demo_benchmarked fair_pool)))"

theorem trackers_stay_numbered_witness:
  "fst demo_generated = Inr [0, 1, 2] \<and> numbered (snd demo_compiled) \<and> length (snd demo_compiled) = 3"
proof -
  have gen: "fst demo_generated = Inr [0, 1, 2]" and len: "length (snd demo_generated) = 3" by code_simp+
  have "generate_candidate_specs demo_exec Some (\<lambda>m limit n. Inr [m, m, m]) (demo_args False)
      (path_config_init ''now'') [] = (Inr [0, 1, 2], snd demo_generated)"
    using gen by (metis demo_generated_def prod.collapse)
  from trackers_stay_numbered [OF this refl refl refl, THEN conjunct2, THEN conjunct2, THEN conjunct2, THEN conjunct1]
  have "numbered (snd demo_compiled)" unfolding demo_compiled_def .
  moreover have "length (snd demo_compiled) = 3" by code_simp
  ultimately show ?thesis using gen by simp
qed

end
