(* ===== verification/Tuner_Compile_Properties.thy ===== *)
theory Tuner_Compile_Properties
  imports Tuner_Stage_Properties
begin

section \<open>Properties of compiling and choosing candidates\<close>

text \<open>The candidates a compiled batch keeps, and the choice of the best.\<close>

subsection \<open>Reading the trackers\<close>









subsection \<open>Unique compiled candidates\<close>









end
