(* ===== verification/Tuner_Error_Properties.thy ===== *)
theory Tuner_Error_Properties
  imports Tuner_Compile_Properties
begin

section \<open>Error behaviour of the tuning stages\<close>

text \<open>Errors of the tuning stages: missing files and dry runs.\<close>

subsection \<open>The pickled configurations\<close>

lemma path_join_suffix: "suffix s b \<Longrightarrow> suffix s (path_join a b)"
  by (simp add: path_join_def suffix_appendI suffix_ConsI)

lemma mlir_paths [simp]:
  "suffix ''.mlir'' (path_join a (b @ ''.mlir''))" "suffix ''.mlir'' (path_join a (b @ ''_config.mlir''))"
  by (rule path_join_suffix, simp add: suffix_def)+

lemma write_candidates_mlir:
  "e \<in> set (snd (write_candidates te t output template i p cis)) \<Longrightarrow> suffix ''.mlir'' (fst e)"
proof (induction cis arbitrary: i p)
  case (Cons ci cis)
  show ?case
  proof (cases "apply_params (te_ir te) (te_str_ci te) t p template ci")
    case (Inr r)
    obtain tf p1 where r: "r = (tf, p1)" by (cases r)
    obtain res writes where rest: "write_candidates te t output template (Suc i) p1 cis = (res, writes)"
      by (rule prod.exhaust)
    with Cons.IH [of "Suc i" p1] Cons.prems Inr r show ?thesis by auto
  qed (use Cons.prems in simp)
qed simp

lemma tune_writes_mlir: "e \<in> set (snd (tune te template output limit n dims)) \<Longrightarrow> suffix ''.mlir'' (fst e)"
proof -
  have start: "suffix ''.mlir'' (path_join output ''0.mlir'')"
    by (intro path_join_suffix) (simp add: suffix_def)
  assume "e \<in> set (snd (tune te template output limit n dims))"
  then have "fst e = path_join output ''0.mlir'' \<or>
      (\<exists>t p cis. e \<in> set (snd (write_candidates te t output template 0 p cis)))"
    by (auto simp: tune_def Let_def split: sum.splits prod.splits option.splits list.splits) (metis snd_conv)+
  then show ?thesis using start write_candidates_mlir by metis
qed

lemma configs_pkl_not_mlir: "\<not> suffix ''.mlir'' (pc_candidate_configs_pkl (path_config_init stamp))"
proof
  let ?p = "pc_candidate_configs_pkl (path_config_init stamp)"
  assume "suffix ''.mlir'' ?p"
  then have "last ?p = CHR ''r''" by (auto simp: suffix_def)
  moreover have "last ?p = CHR ''l''" by (simp add: path_config_init_def path_join_def Let_def)
  ultimately show False by simp
qed

text \<open>
  Generating candidates from MLIR text never succeeds: every file that \<open>tune\<close> writes is an
  \<open>.mlir\<close> file, nothing writes the pickled configurations, so in the fresh directory of a session
  \<open>generate_candidates\<close> raises what \<open>tune\<close> raised or else FileNotFoundError, and leaves the trackers
  as they were.
\<close>

theorem candidates_need_pickle:
  fixes te :: "('e, 'i) tune_env"
  shows "(let pc = path_config_init stamp;
        (tuned, writes) = tune te template (pc_candidates_dir pc) limit num_subgroups dims
    in generate_candidates True tuned files
         (map_option unpickle (map_of writes (pc_candidate_configs_pkl pc))) ts) =
   (let (tuned, writes) = tune te template (pc_candidates_dir (path_config_init stamp)) limit num_subgroups dims
    in (case tuned of Inl e \<Rightarrow> Inl e | Inr _ \<Rightarrow> Inl FileNotFoundError, ts))"
proof -
  let ?pc = "path_config_init stamp"
  obtain tuned writes where
    run: "tune te template (pc_candidates_dir ?pc) limit num_subgroups dims = (tuned, writes)"
    by (rule prod.exhaust)
  have "map_of writes (pc_candidate_configs_pkl ?pc) = None"
    using tune_writes_mlir [of _ te template "pc_candidates_dir ?pc" limit num_subgroups dims]
      configs_pkl_not_mlir [of stamp] run by (auto simp: map_of_eq_None_iff)
  then show ?thesis
    by (cases tuned) (simp_all add: run Let_def generate_candidates_def load_pickle_def handle_error_def
      raise_error_def st_bind_def st_lift_def)
qed

subsection \<open>Dry runs\<close>

lemma mean_time_rejects:
  "rr_process_res r = Some \<lparr>pr_stdout = s, pr_returncode = c\<rparr> \<Longrightarrow> s \<noteq> [] \<Longrightarrow> json_loads s = None \<Longrightarrow>
   mean_time fl json_loads r ts = (Inl ValueError, ts)"
  by (simp add: mean_time_def extract_benchmark_from_run_result_def handle_error_def raise_error_def st_lift_def)

lemma group_results_head:
  "map fst grouped \<noteq> [] \<or> rs \<noteq> [] \<Longrightarrow> group_results rs grouped \<noteq> []"
proof (induction rs grouped rule: group_results.induct)
  case (2 r rs grouped)
  show ?case
  proof (cases "map_of grouped (tr_device_id r)")
    case (Some g)
    then have "grouped \<noteq> []" by auto
    then have "AList.update (tr_device_id r) (g @ [r]) grouped \<noteq> []" by (cases grouped) auto
    with 2 Some show ?thesis by simp
  qed (use 2 in simp)
qed simp

lemma group_nonempty:
  assumes "0 < length rs"
  shows "0 < length (group_benchmark_results_by_device_id rs)"
  using group_results_head [of "[]" rs] assms by (simp add: group_benchmark_results_by_device_id_def Let_def)

lemma st_map_first_raises: "xs \<noteq> [] \<Longrightarrow> f (hd xs) s = (Inl e, s1) \<Longrightarrow> st_map f xs s = (Inl e, s1)"
  by (cases xs) auto

text \<open>
  A dry run ends in an error: its made-up output is a line of text and the results are read as
  JSON, so with a candidate to benchmark both stages raise ValueError before any tracker changes.
\<close>

theorem dry_run_raises:
  assumes "ar_dry_run args" and "candidates \<noteq> []" and "\<forall>x. json_loads (sample_stdout fl x) = None"
  shows "benchmark_dispatches fl rnd json_loads pe run g t args pc candidates ts = (Inl ValueError, ts) \<and>
    benchmark_models fl rnd json_loads pe pe0 run g t t' args pc candidates ts = (Inl ValueError, ts)"
proof -
  have sample: "sample_stdout fl x \<noteq> []" for x by (simp add: sample_stdout_def)
  let ?sample = "\<lambda>x i d. generate_sample_task_result (sample_stdout fl x) i d"
  have mean: "mean_time fl json_loads (tr_run_result (?sample x i d)) ts = (Inl ValueError, ts)"
    for x i d
    using assms(3) sample by (intro mean_time_rejects [of _ "sample_stdout fl x" 0])
      (auto simp: generate_sample_task_result_def)
  have fin: "rr_process_res (tr_run_result (?sample x i d)) \<noteq> None" for x i d
    by (simp add: generate_sample_task_result_def)
  let ?rs = "generate_dryrun_dispatch_benchmark_results fl rnd candidates"
  have "?rs \<noteq> []" using assms(2) by (cases candidates) (simp_all add: generate_dryrun_dispatch_benchmark_results_def upt_conv_Cons del: upt_Suc)
  moreover obtain x i d where "hd ?rs = ?sample x i d"
    using \<open>?rs \<noteq> []\<close> by (cases candidates)
      (auto simp: generate_dryrun_dispatch_benchmark_results_def upt_conv_Cons simp del: upt_Suc)
  then have "parse_dispatch_result fl json_loads pc (hd ?rs) ts = (Inl ValueError, ts)"
    by (simp add: parse_dispatch_result_def Let_def fin mean)
  ultimately have "st_map (parse_dispatch_result fl json_loads pc) ?rs ts = (Inl ValueError, ts)"
    by (rule st_map_first_raises)
  then have "benchmark_dispatches fl rnd json_loads pe run g t args pc candidates ts = (Inl ValueError, ts)"
    using assms(1) by (simp add: benchmark_dispatches_def parse_dispatch_benchmark_results_def st_return_def)
  moreover have "benchmark_models fl rnd json_loads pe pe0 run g t t' args pc candidates ts = (Inl ValueError, ts)"
  proof -
    obtain crs brs where results: "generate_dryrun_model_benchmark_results fl rnd candidates = (crs, brs)"
      by (rule prod.exhaust)
    then have "crs \<noteq> []" and "brs \<noteq> []"
      using assms(2) by (auto simp: generate_dryrun_model_benchmark_results_def upt_rec)
    have brs: "\<forall>b \<in> set brs. \<exists>x i d. b = ?sample x i d"
    proof
      fix b assume "b \<in> set brs"
      then have "b \<in> (\<lambda>i. ?sample (rnd (length candidates + i)) 0 (nat_str i)) ` set [0..<3]"
        using results by (simp only: generate_dryrun_model_benchmark_results_def prod.inject flip: set_map)
      then show "\<exists>x i d. b = ?sample x i d" by (rule imageE) blast
    qed
    from \<open>brs \<noteq> []\<close> obtain b bs where b: "sort_key tr_device_id brs = b # bs" "b \<in> set brs"
      by (metis list.set_intros(1) neq_Nil_conv set_empty set_sort)
    obtain gr grs where gr: "group_benchmark_results_by_device_id (sort_key tr_device_id crs) = gr # grs"
      using group_nonempty [of "sort_key tr_device_id crs"] \<open>crs \<noteq> []\<close>
      by (cases "group_benchmark_results_by_device_id (sort_key tr_device_id crs)") auto
    have "parse_model_result fl json_loads md b ts = (Inl ValueError, ts)" for md
      using brs b(2) by (auto simp: parse_model_result_def Let_def fin mean)
    then have "parse_device_results fl json_loads md (b # gr) ts = (Inl ValueError, ts)" for md
      by (simp add: parse_device_results_def)
    then have "parse_model_benchmark_results fl json_loads crs brs ts = (Inl ValueError, ts)"
      by (simp add: parse_model_benchmark_results_def b gr)
    then show ?thesis using assms(1) by (simp add: benchmark_models_def results st_return_def)
  qed
  ultimately show ?thesis ..
qed

text \<open>A loader that takes a text for JSON only when it starts with a brace.\<close>

definition brace_json :: "int json_loader" where
  "brace_json s = (if prefix ''{'' s then demo_json (tl s) else None)"

theorem dry_run_raises_witness:
  "fst (benchmark_dispatches demo_floats int brace_json fair_pool demo_exec demo_command 10 (demo_args True)
     (path_config_init ''now'') [0, 1] (snd demo_compiled)) = Inl ValueError"
proof -
  have "ar_dry_run (demo_args True)" "\<forall>x. brace_json (sample_stdout demo_floats x) = None"
    by (simp_all add: demo_args_def brace_json_def sample_stdout_def)
  then show ?thesis by (simp add: dry_run_raises [THEN conjunct1])
qed

subsection \<open>Baselines and devices\<close>

text \<open>
  Baselines are not bound to their device: when one worker of two takes both baseline tasks, the
  benchmark of compiled modules raises KeyError for a candidate measured on the other device, and the
  model benchmark compares that candidate, whose device has the baseline 400, with the other device's
  baseline 200. When every worker takes one task both stages use the right baseline.
\<close>

theorem baseline_follows_schedule:
  "fst (demo_benchmarked greedy_pool) = Inl KeyError \<and> fst (demo_benchmarked fair_pool) = Inr [1] \<and>
   map (\<lambda>ct. (ct_model_benchmark_device_id ct, ct_baseline_benchmark_time ct)) (snd (demo_models greedy_pool)) =
     [(None, None), (Some ''hip://0'', Some 200), (Some ''hip://1'', Some 200)] \<and>
   map (\<lambda>ct. (ct_model_benchmark_device_id ct, ct_baseline_benchmark_time ct)) (snd (demo_models fair_pool)) =
     [(None, None), (Some ''hip://0'', Some 400), (Some ''hip://1'', Some 200)]"
  by (intro conjI) code_simp+

end
