(* ===== verification/Sd_Requests.thy ===== *)
theory Sd_Requests
  imports Py_Prelude
begin

section \<open>Image requests\<close>

text \<open>
  Model of \<open>sd/components/io_struct.py\<close> and \<open>sd/components/messages.py\<close>. The fields of a request
  hold values of several Python types: \<open>py_value\<close> lists them. \<open>VStrType\<close> is the class \<open>str\<close> itself,
  which \<open>post_init\<close> puts into the prompt; floats are the parameter \<open>'f\<close>. Device arrays and numpy
  arrays are the parameters \<open>'d\<close> (one row of a batch) and \<open>'i\<close>, token encodings \<open>'e\<close>. A device
  array is true as a condition, so \<open>not self.image_array\<close> asks for \<open>None\<close>. The attributes
  \<open>timesteps\<close>, \<open>time_ids\<close>, \<open>img_metadata\<close> and \<open>return_host_array\<close> are stored and never read.
\<close>

subsection \<open>The client's request\<close>

datatype 'f py_value = VNone | VText string | VStrType | VInt int | VFloat 'f | VList "'f py_value list"

record 'f sd_gen_req =
  sg_prompt :: "'f py_value"
  sg_neg_prompt :: "'f py_value"
  sg_height :: "'f py_value"
  sg_width :: "'f py_value"
  sg_steps :: "'f py_value"
  sg_guidance_scale :: "'f py_value"
  sg_seed :: "'f py_value"
  sg_input_ids :: "'f py_value"
  sg_neg_input_ids :: "'f py_value"
  sg_output_type :: "'f py_value"
  sg_rid :: "'f py_value"
  sg_num_output_images :: "nat option"

fun is_list :: "'f py_value \<Rightarrow> bool" where
  "is_list (VList _) = True"
| "is_list _ = False"

fun py_len :: "'f py_value \<Rightarrow> nat res" where
  "py_len (VList vs) = Inr (length vs)"
| "py_len (VText s) = Inr (length s)"
| "py_len _ = Inl TypeError"

fun prompt_list :: "'f py_value \<Rightarrow> 'f py_value" where
  "prompt_list (VText _) = VList [VStrType]"
| "prompt_list v = v"

definition batchable_args :: "'f sd_gen_req \<Rightarrow> 'f py_value list" where
  "batchable_args r =
     [sg_prompt r, sg_neg_prompt r, sg_height r, sg_width r, sg_steps r, sg_guidance_scale r,
      sg_seed r, sg_input_ids r, sg_neg_input_ids r]"

fun fits_batch :: "nat \<Rightarrow> 'f py_value \<Rightarrow> bool" where
  "fits_batch n (VList vs) \<longleftrightarrow> length vs = n \<or> length vs = 1"
| "fits_batch n _ \<longleftrightarrow> True"

fun dims_of :: "'f py_value \<Rightarrow> 'f py_value list" where
  "dims_of (VList vs) = vs"
| "dims_of v = [v]"

text \<open>\<open>uuid i\<close> is what the call \<open>uuid4().hex\<close> number \<open>i\<close> returns. The annotations rule out float
  dimensions, so \<open>dim != 1024\<close> compares with the integer.\<close>

definition sd_post_init :: "(nat \<Rightarrow> string) \<Rightarrow> 'f sd_gen_req \<Rightarrow> unit res \<times> 'f sd_gen_req" where
  "sd_post_init uuid r =
     (if (sg_prompt r = VNone \<and> sg_input_ids r = VNone) \<or> (sg_prompt r \<noteq> VNone \<and> sg_input_ids r \<noteq> VNone)
      then (Inl ValueError, r)
      else
       (let r1 = r\<lparr>sg_prompt := prompt_list (sg_prompt r)\<rparr>
        in case py_len (if sg_prompt r1 \<noteq> VNone then sg_prompt r1 else sg_input_ids r1) of
             Inl e \<Rightarrow> (Inl e, r1)
           | Inr n \<Rightarrow>
              (let r2 = r1\<lparr>sg_num_output_images := Some n\<rparr>
               in if \<not> list_all (fits_batch n) (batchable_args r2) then (Inl ValueError, r2)
                  else if sg_rid r2 \<noteq> VNone \<and> \<not> is_list (sg_rid r2) then (Inl ValueError, r2)
                  else
                   (let r3 = (if sg_rid r2 = VNone then r2\<lparr>sg_rid := VList (map (VText \<circ> uuid) [0..<n])\<rparr> else r2);
                        r4 = (if sg_output_type r3 = VNone
                              then r3\<lparr>sg_output_type := VList (replicate n (VText ''base64''))\<rparr> else r3)
                    in if list_ex (\<lambda>dim. dim \<noteq> VInt 1024) (dims_of (sg_height r4) @ dims_of (sg_width r4))
                       then (Inl ValueError, r4)
                       else (Inr (), r4)))))"

subsection \<open>One image\<close>

datatype sd_phase = PREPARE | ENCODE | DENOISE | DECODE | POSTPROCESS

type_synonym 'f phase_data = "bool \<times> 'f py_value list option"

record ('f, 'e, 'd, 'i) sd_request =
  sr_phases :: "(sd_phase \<times> 'f phase_data) list"
  sr_phase :: "sd_phase option"
  sr_prompt :: "'f py_value"
  sr_neg_prompt :: "'f py_value"
  sr_height :: "'f py_value"
  sr_width :: "'f py_value"
  sr_steps :: "'f py_value"
  sr_guidance_scale :: "'f py_value"
  sr_seed :: "'f py_value"
  sr_input_ids :: "'e list option"
  sr_sample :: "'d option"
  sr_prompt_embeds :: "'d list option"
  sr_text_embeds :: "'d list option"
  sr_denoised_latents :: "'d list option"
  sr_image_array :: "'i option"
  sr_result_image :: "string option"
  sr_done :: bool

definition check_phase :: "sd_phase \<Rightarrow> ('f, 'e, 'd, 'i) sd_request \<Rightarrow> 'f phase_data" where
  "check_phase p r =
     (case p of
        POSTPROCESS \<Rightarrow> (True, None)
      | DECODE \<Rightarrow> (sr_image_array r = None, Some [sr_width r, sr_height r])
      | DENOISE \<Rightarrow> (sr_denoised_latents r = None, Some [sr_width r, sr_height r, sr_steps r])
      | ENCODE \<Rightarrow> (sr_prompt_embeds r = None \<or> sr_text_embeds r = None, None)
      | PREPARE \<Rightarrow> (sr_sample r = None \<or> sr_input_ids r = None, None))"

text \<open>\<open>reversed(list(InferencePhase))\<close>, left at the first phase that is not required and is neither
  \<open>ENCODE\<close> nor \<open>PREPARE\<close>.\<close>

fun phase_loop :: "sd_phase list \<Rightarrow> ('f, 'e, 'd, 'i) sd_request \<Rightarrow> ('f, 'e, 'd, 'i) sd_request" where
  "phase_loop [] r = r"
| "phase_loop (p # ps) r =
     (let p_data = check_phase p r;
          r1 = r\<lparr>sr_phases := AList.update p p_data (sr_phases r)\<rparr>
      in if \<not> fst p_data \<and> p \<notin> {ENCODE, PREPARE} then r1
         else phase_loop ps (r1\<lparr>sr_phase := Some p\<rparr>))"

definition request_post_init :: "('f, 'e, 'd, 'i) sd_request \<Rightarrow> ('f, 'e, 'd, 'i) sd_request" where
  "request_post_init r = phase_loop [POSTPROCESS, DECODE, DENOISE, ENCODE, PREPARE] r"

text \<open>The constructor with all its arguments.\<close>

definition new_sd_request ::
  "'f py_value \<Rightarrow> 'f py_value \<Rightarrow> 'f py_value \<Rightarrow> 'f py_value \<Rightarrow> 'f py_value \<Rightarrow> 'f py_value \<Rightarrow> 'f py_value \<Rightarrow>
   'e list option \<Rightarrow> 'd option \<Rightarrow> 'd list option \<Rightarrow> 'd list option \<Rightarrow> 'd list option \<Rightarrow> 'i option \<Rightarrow>
   ('f, 'e, 'd, 'i) sd_request" where
  "new_sd_request prompt neg_prompt height width steps guidance_scale seed input_ids sample
     prompt_embeds text_embeds denoised_latents image_array =
     request_post_init
       \<lparr>sr_phases = [], sr_phase = None, sr_prompt = prompt, sr_neg_prompt = neg_prompt,
        sr_height = height, sr_width = width, sr_steps = steps, sr_guidance_scale = guidance_scale,
        sr_seed = seed, sr_input_ids = input_ids, sr_sample = sample, sr_prompt_embeds = prompt_embeds,
        sr_text_embeds = text_embeds, sr_denoised_latents = denoised_latents,
        sr_image_array = image_array, sr_result_image = None, sr_done = False\<rparr>"

text \<open>
  The loop of \<open>from_batch\<close>: \<open>rec_input\<close> keeps its value from the field before when a list is too
  short and not a singleton (the code only logs an error); at the first field it is unbound.
\<close>

fun received :: "nat \<Rightarrow> 'f py_value \<Rightarrow> 'f py_value option \<Rightarrow> 'f py_value option" where
  "received index (VList vs) rec_input =
     (if index \<ge> length vs then (if length vs = 1 then Some (vs ! 0) else rec_input) else Some (vs ! index))"
| "received index v rec_input = Some v"

fun rec_inputs :: "nat \<Rightarrow> 'f py_value list \<Rightarrow> 'f py_value option \<Rightarrow> 'f py_value list res" where
  "rec_inputs index [] rec_input = Inr []"
| "rec_inputs index (v # vs) rec_input =
     (case received index v rec_input of
        None \<Rightarrow> Inl UnboundLocalError
      | Some x \<Rightarrow> res_bind (rec_inputs index vs (Some x)) (\<lambda>xs. Inr (x # xs)))"

definition from_batch :: "'f sd_gen_req \<Rightarrow> nat \<Rightarrow> ('f, 'e, 'd, 'i) sd_request res" where
  "from_batch r index =
     res_bind (rec_inputs index [sg_prompt r, sg_neg_prompt r, sg_height r, sg_width r, sg_steps r,
         sg_guidance_scale r, sg_seed r] None)
       (\<lambda>xs. Inr (new_sd_request (xs ! 0) (xs ! 1) (xs ! 2) (xs ! 3) (xs ! 4) (xs ! 5) (xs ! 6)
          None None None None None None))"

text \<open>\<open>reset\<close>; afterwards \<open>phases\<close> is \<open>None\<close>, here the empty dictionary: indexing it raises as well.\<close>

definition sd_reset :: "('f, 'e, 'd, 'i) sd_request \<Rightarrow> ('f, 'e, 'd, 'i) sd_request" where
  "sd_reset r = r\<lparr>sr_phase := None, sr_phases := [], sr_done := False\<rparr>"

subsection \<open>Facts\<close>

text \<open>The phases of a new request: each required until its result is there; none is entered before
  the last one whose result is given.\<close>

lemma phases_of_new:
  "sr_phases (new_sd_request p np h w st gs sd ids sa pe te None None) =
     [(POSTPROCESS, True, None), (DECODE, True, Some [w, h]), (DENOISE, True, Some [w, h, st]),
      (ENCODE, pe = None \<or> te = None, None), (PREPARE, sa = None \<or> ids = None, None)]"
  by (simp add: new_sd_request_def request_post_init_def check_phase_def Let_def)

lemma request_fields:
  "sr_prompt (phase_loop ps r) = sr_prompt r" "sr_neg_prompt (phase_loop ps r) = sr_neg_prompt r"
  "sr_height (phase_loop ps r) = sr_height r" "sr_width (phase_loop ps r) = sr_width r"
  "sr_steps (phase_loop ps r) = sr_steps r" "sr_seed (phase_loop ps r) = sr_seed r"
  "sr_guidance_scale (phase_loop ps r) = sr_guidance_scale r"
  by (induction ps arbitrary: r) (simp_all add: Let_def)

text \<open>Entry \<open>i\<close> of a value: a list's entry, its only entry, or the value itself.\<close>

fun entry_of :: "'f py_value \<Rightarrow> nat \<Rightarrow> 'f py_value" where
  "entry_of (VList vs) i = (if length vs = 1 then vs ! 0 else vs ! i)"
| "entry_of v i = v"

lemma received_fits: "fits_batch n v \<Longrightarrow> i < n \<Longrightarrow> received i v prev = Some (entry_of v i)"
  by (cases v) (auto simp: Suc_le_eq)

lemma rec_inputs_fit:
  "list_all (fits_batch n) vs \<Longrightarrow> i < n \<Longrightarrow> rec_inputs i vs prev = Inr (map (\<lambda>v. entry_of v i) vs)"
  by (induction vs arbitrary: prev) (simp_all add: received_fits [of n])

end
