(* ===== verification/Sd_Service.thy ===== *)
theory Sd_Service
  imports Sd_Requests "HOL-Library.List_Lexorder"
begin

section \<open>The image service: workers, fibers and programs\<close>

text \<open>
  Model of \<open>sd/components/config_struct.py\<close> and of \<open>GenerateService\<close> in \<open>sd/components/service.py\<close>.
  Workers, devices and fibers of the runtime are numbers; a fiber remembers the worker and the device
  it was created with. A compiled module \<open>'m\<close> and a parameter archive \<open>'p\<close> are what the runtime loads
  from a path; \<open>exports\<close> says which functions a program of the runtime has. A program function is the
  program with the name of the function.
\<close>

subsection \<open>Model parameters\<close>

record sd_model_params =
  pm_max_seq_len :: int
  pm_num_latents_channels :: int
  pm_clip_batch_sizes :: "int list"
  pm_unet_batch_sizes :: "int list"
  pm_vae_batch_sizes :: "int list"
  pm_scheduler_batch_sizes :: "int list"
  pm_clip_module_name :: string
  pm_unet_module_name :: string
  pm_vae_module_name :: string
  pm_scheduler_module_name :: string
  pm_unet_fn_name :: string
  pm_cfg_mode :: bool

definition max_clip_batch_size :: "sd_model_params \<Rightarrow> int res" where
  "max_clip_batch_size p = py_last (pm_clip_batch_sizes p)"

definition max_unet_batch_size :: "sd_model_params \<Rightarrow> int res" where
  "max_unet_batch_size p = py_last (pm_unet_batch_sizes p)"

definition max_vae_batch_size :: "sd_model_params \<Rightarrow> int res" where
  "max_vae_batch_size p = py_last (pm_vae_batch_sizes p)"

definition all_batch_sizes :: "sd_model_params \<Rightarrow> int list list" where
  "all_batch_sizes p = [pm_clip_batch_sizes p, pm_unet_batch_sizes p, pm_vae_batch_sizes p]"

text \<open>\<open>max\<close> of three lists: the last one in the lexicographic order.\<close>

definition sd_max_batch_size :: "sd_model_params \<Rightarrow> int list" where
  "sd_max_batch_size p = Max (set (all_batch_sizes p))"

definition ideal_batch_size :: "sd_model_params \<Rightarrow> int res" where
  "ideal_batch_size p =
     (if sd_max_batch_size p = [] then Inl ValueError else Inr (Max (set (sd_max_batch_size p))))"

subsection \<open>The service\<close>

datatype isolation = IsolationNone | PerFiber | PerCall

definition prog_isolations :: "(string \<times> isolation) list" where
  "prog_isolations = [(''none'', IsolationNone), (''per_fiber'', PerFiber), (''per_call'', PerCall)]"

record sd_fiber =
  sf_id :: nat
  sf_worker :: nat
  sf_device :: nat

datatype ('m, 'p) prog_module = ParameterProvider "'p list" | Loaded 'm

record ('m, 'p) program =
  pg_modules :: "('m, 'p) prog_module list"
  pg_device :: nat
  pg_isolation :: isolation

type_synonym ('m, 'p) program_function = "('m, 'p) program \<times> string"

record ('m, 'p) denoise_functions =
  df_unet :: "('m, 'p) program_function"
  df_init :: "('m, 'p) program_function"
  df_scale :: "('m, 'p) program_function"
  df_step :: "('m, 'p) program_function"

record ('m, 'p) worker_functions =
  wf_encode :: "(int \<times> ('m, 'p) program_function) list"
  wf_denoise :: "(int \<times> ('m, 'p) denoise_functions) list"
  wf_decode :: "(int \<times> ('m, 'p) program_function) list"

record ('m, 'p) sd_service =
  sv_model_params :: sd_model_params
  sv_tokenizers :: nat
  sv_isolation :: isolation
  sv_fibers_per_worker :: nat
  sv_workers :: "nat list"
  sv_fibers :: "sd_fiber list"
  sv_idle_fibers :: "sd_fiber list"
  sv_modules :: "(string \<times> 'm list) list"
  sv_parameters :: "(string \<times> 'p list) list"
  sv_programs :: "nat \<Rightarrow> (string \<times> ('m, 'p) program) list"
  sv_functions :: "nat \<Rightarrow> ('m, 'p) worker_functions"

definition device_fibers :: "nat list \<Rightarrow> nat \<Rightarrow> nat \<times> nat \<Rightarrow> sd_fiber list" where
  "device_fibers workers fibers_per_device = (\<lambda>(idx, device).
     map (\<lambda>i. \<lparr>sf_id = idx * fibers_per_device + i, sf_worker = workers ! (i mod length workers),
               sf_device = device\<rparr>) [0..<fibers_per_device])"

definition sd_service_init ::
  "sd_model_params \<Rightarrow> nat \<Rightarrow> nat list \<Rightarrow> int \<Rightarrow> int \<Rightarrow> string \<Rightarrow> ('m, 'p) sd_service res" where
  "sd_service_init params tokenizers devices fibers_per_device workers_per_device prog_isolation =
     (case map_of prog_isolations prog_isolation of
        None \<Rightarrow> Inl KeyError
      | Some isolation \<Rightarrow>
         if workers_per_device = 0 then Inl ZeroDivisionError
         else if fibers_per_device mod workers_per_device \<noteq> 0 then Inl ValueError
         else
          (let workers = [0..<length devices * nat workers_per_device]
           in if workers = [] \<and> devices \<noteq> [] \<and> fibers_per_device > 0 then Inl ZeroDivisionError
              else
               (let fibers = concat (map (device_fibers workers (nat fibers_per_device)) (enumerate 0 devices))
                in if fibers = [] then Inl IndexError
                   else res_bind (ideal_batch_size params) (\<lambda>_.
                     Inr \<lparr>sv_model_params = params, sv_tokenizers = tokenizers, sv_isolation = isolation,
                       sv_fibers_per_worker = nat (fibers_per_device div workers_per_device),
                       sv_workers = workers, sv_fibers = fibers, sv_idle_fibers = fibers,
                       sv_modules = [], sv_parameters = [], sv_programs = (\<lambda>_. []),
                       sv_functions = (\<lambda>_. \<lparr>wf_encode = [], wf_denoise = [], wf_decode = []\<rparr>)\<rparr>))))"

text \<open>The index of an unknown fiber raises \<open>ValueError\<close>, as the code's own check before it does.\<close>

definition get_worker_index :: "('m, 'p) sd_service \<Rightarrow> sd_fiber \<Rightarrow> nat res" where
  "get_worker_index s fiber =
     res_bind (list_index (sv_fibers s) fiber) (\<lambda>fiber_idx.
       if sv_fibers_per_worker s = 0 then Inl ZeroDivisionError
       else Inr ((fiber_idx - fiber_idx mod sv_fibers_per_worker s) div sv_fibers_per_worker s))"

definition alist_append :: "string \<Rightarrow> 'x \<Rightarrow> (string \<times> 'x list) list \<Rightarrow> (string \<times> 'x list) list" where
  "alist_append k x al = AList.update k ((case map_of al k of None \<Rightarrow> [] | Some xs \<Rightarrow> xs) @ [x]) al"

definition load_inference_module :: "'m \<Rightarrow> string \<Rightarrow> ('m, 'p) sd_service \<Rightarrow> ('m, 'p) sd_service" where
  "load_inference_module m component s = s\<lparr>sv_modules := alist_append component m (sv_modules s)\<rparr>"

definition load_inference_parameters :: "'p \<Rightarrow> string \<Rightarrow> ('m, 'p) sd_service \<Rightarrow> ('m, 'p) sd_service" where
  "load_inference_parameters p component s =
     s\<lparr>sv_parameters := alist_append component p (sv_parameters s)\<rparr>"

subsection \<open>Starting\<close>

definition component_modules :: "('m, 'p) sd_service \<Rightarrow> string \<Rightarrow> 'm list \<Rightarrow> ('m, 'p) prog_module list" where
  "component_modules s component ms =
     ParameterProvider (case map_of (sv_parameters s) component of None \<Rightarrow> [] | Some ps \<Rightarrow> ps) # map Loaded ms"

fun load_workers ::
  "('m, 'p) prog_module list \<Rightarrow> string \<Rightarrow> nat list \<Rightarrow> ('m, 'p) sd_service \<Rightarrow> ('m, 'p) sd_service res" where
  "load_workers mods component [] s = Inr s"
| "load_workers mods component (worker_idx # rest) s =
     res_bind (list_get (sv_fibers s) (worker_idx * sv_fibers_per_worker s)) (\<lambda>fiber.
       let program = \<lparr>pg_modules = mods, pg_device = sf_device fiber, pg_isolation = sv_isolation s\<rparr>
       in load_workers mods component rest
            (s\<lparr>sv_programs := (sv_programs s)
                 (worker_idx := AList.update component program (sv_programs s worker_idx))\<rparr>))"

fun load_programs ::
  "(string \<times> 'm list) list \<Rightarrow> ('m, 'p) sd_service \<Rightarrow> ('m, 'p) sd_service res" where
  "load_programs [] s = Inr s"
| "load_programs ((component, ms) # rest) s =
     res_bind (load_workers (component_modules s component ms) component [0..<length (sv_workers s)] s)
       (load_programs rest)"

definition program_fn ::
  "(('m, 'p) program \<Rightarrow> string \<Rightarrow> bool) \<Rightarrow> (string \<times> ('m, 'p) program) list \<Rightarrow> string \<Rightarrow> string \<Rightarrow> string \<Rightarrow>
   ('m, 'p) program_function res" where
  "program_fn exports programs component module_name fn_name =
     (let name = module_name @ ''.'' @ fn_name
      in case map_of programs component of None \<Rightarrow> Inl KeyError
         | Some p \<Rightarrow> if exports p name then Inr (p, name) else Inl PyException)"

text \<open>\<open>entries[bs] = ...\<close> for every batch size; what is looked up does not depend on the size.\<close>

fun add_entries :: "'x res \<Rightarrow> int list \<Rightarrow> (int \<times> 'x) list \<Rightarrow> (int \<times> 'x) list res" where
  "add_entries fn [] entries = Inr entries"
| "add_entries fn (bs # sizes) entries =
     res_bind fn (\<lambda>f. add_entries fn sizes (AList.update bs f entries))"

definition denoise_fns ::
  "(('m, 'p) program \<Rightarrow> string \<Rightarrow> bool) \<Rightarrow> sd_model_params \<Rightarrow> (string \<times> ('m, 'p) program) list \<Rightarrow>
   ('m, 'p) denoise_functions res" where
  "denoise_fns exports p programs =
     res_bind (program_fn exports programs ''unet'' (pm_unet_module_name p) (pm_unet_fn_name p)) (\<lambda>u.
     res_bind (program_fn exports programs ''scheduler'' (pm_scheduler_module_name p) ''run_initialize'') (\<lambda>i.
     res_bind (program_fn exports programs ''scheduler'' (pm_scheduler_module_name p) ''run_scale'') (\<lambda>sc.
     res_bind (program_fn exports programs ''scheduler'' (pm_scheduler_module_name p) ''run_step'') (\<lambda>st.
       Inr \<lparr>df_unet = u, df_init = i, df_scale = sc, df_step = st\<rparr>))))"

definition load_functions ::
  "(('m, 'p) program \<Rightarrow> string \<Rightarrow> bool) \<Rightarrow> sd_model_params \<Rightarrow> (string \<times> ('m, 'p) program) list \<Rightarrow>
   ('m, 'p) worker_functions res" where
  "load_functions exports p programs =
     res_bind (add_entries (program_fn exports programs ''clip'' (pm_clip_module_name p) ''encode_prompts'')
         (pm_clip_batch_sizes p) []) (\<lambda>enc.
     res_bind (add_entries (denoise_fns exports p programs) (pm_unet_batch_sizes p) []) (\<lambda>den.
     res_bind (add_entries (program_fn exports programs ''vae'' (pm_vae_module_name p) ''decode'')
         (pm_vae_batch_sizes p) []) (\<lambda>dec.
       Inr \<lparr>wf_encode = enc, wf_denoise = den, wf_decode = dec\<rparr>)))"

fun load_all_functions ::
  "(('m, 'p) program \<Rightarrow> string \<Rightarrow> bool) \<Rightarrow> nat list \<Rightarrow> ('m, 'p) sd_service \<Rightarrow> ('m, 'p) sd_service res" where
  "load_all_functions exports [] s = Inr s"
| "load_all_functions exports (worker_idx # rest) s =
     res_bind (load_functions exports (sv_model_params s) (sv_programs s worker_idx)) (\<lambda>fs.
       load_all_functions exports rest (s\<lparr>sv_functions := (sv_functions s)(worker_idx := fs)\<rparr>))"

definition sd_start :: "(('m, 'p) program \<Rightarrow> string \<Rightarrow> bool) \<Rightarrow> ('m, 'p) sd_service \<Rightarrow> ('m, 'p) sd_service res" where
  "sd_start exports s =
     res_bind (load_programs (sv_modules s) s)
       (\<lambda>s1. load_all_functions exports [0..<length (sv_workers s1)] s1)"

text \<open>\<open>configure_service\<close> in \<open>sd/server.py\<close>: the compiled modules and the parameters of every component
  (\<open>'p\<close> is what one call of \<open>load_inference_parameters\<close> loads).\<close>

definition sd_configure ::
  "sd_model_params \<Rightarrow> nat \<Rightarrow> nat list \<Rightarrow> int \<Rightarrow> int \<Rightarrow> string \<Rightarrow> (string \<times> 'm list) list \<Rightarrow> (string \<times> 'p) list \<Rightarrow>
   ('m, 'p) sd_service res" where
  "sd_configure params tokenizers devices fibers_per_device workers_per_device prog_isolation vmfbs datasets =
     res_bind (sd_service_init params tokenizers devices fibers_per_device workers_per_device prog_isolation)
       (\<lambda>sv. Inr (fold (\<lambda>(component, p). load_inference_parameters p component) datasets
                  (fold (\<lambda>(component, ms). fold (\<lambda>m. load_inference_module m component) ms) vmfbs sv)))"

end
