(* ===== verification/Sd_Executor.thy ===== *)
theory Sd_Executor
  imports Sd_Service
begin

section \<open>Running a batch of image requests\<close>

text \<open>
  Model of \<open>InferenceExecutorProcess\<close> in \<open>sd/components/service.py\<close>. The requests are objects shared
  with the processes that submitted them: they live in a store and an executor holds their numbers.
  A device array is the list of its rows; a copy writes as many rows as the destination has from the
  start of the source. Everything the executor calls is in the environment \<open>sd_env\<close>: the tokenizers,
  the random generator, the compiled functions of the programs (with the awaits around them, whose
  failure is the failure of the call), the copy of the runtime, numpy and the image encoder. Logging
  and the progress bar are left out.
\<close>

subsection \<open>The environment\<close>

record ('f, 'e, 'd, 'i, 'px, 'x, 'm, 'p) sd_env =
  en_tokenize :: "nat \<Rightarrow> 'f py_value \<Rightarrow> 'e res"
  en_randn :: "'f py_value \<Rightarrow> int list \<Rightarrow> 'd res"
  en_float16 :: "'f py_value \<Rightarrow> 'd res"
  en_copy :: "nat \<Rightarrow> 'd list \<Rightarrow> 'd list res"
  en_copy_pixels :: "nat \<Rightarrow> 'px list \<Rightarrow> 'px list res"
  en_encode :: "('m, 'p) program_function \<Rightarrow> 'e list list \<Rightarrow> ('d list \<times> 'd list) res"
  en_init :: "('m, 'p) program_function \<Rightarrow> 'd list \<Rightarrow> int \<Rightarrow> ('d list \<times> 'x \<times> 'x \<times> 'x) res"
  en_scale :: "('m, 'p) program_function \<Rightarrow> 'd list \<Rightarrow> int \<Rightarrow> 'x \<Rightarrow> 'x \<Rightarrow> ('d list \<times> 'x \<times> 'x \<times> 'x) res"
  en_unet :: "('m, 'p) program_function \<Rightarrow> 'd list \<Rightarrow> 'x \<Rightarrow> 'd list \<Rightarrow> 'd list \<Rightarrow> 'x \<Rightarrow> 'd list \<Rightarrow> 'd list res"
  en_step :: "('m, 'p) program_function \<Rightarrow> 'd list \<Rightarrow> 'd list \<Rightarrow> 'x \<Rightarrow> 'x \<Rightarrow> 'd list res"
  en_decode :: "('m, 'p) program_function \<Rightarrow> 'd list \<Rightarrow> 'px list res"
  en_reshape :: "'px list \<Rightarrow> int list \<Rightarrow> 'i res"
  en_image_text :: "'i \<Rightarrow> string res"
  en_sync :: "nat list \<Rightarrow> unit res"

type_synonym ('f, 'e, 'd, 'i) sd_store = "nat \<Rightarrow> ('f, 'e, 'd, 'i) sd_request"

fun int_of :: "'f py_value \<Rightarrow> int res" where
  "int_of (VInt i) = Inr i"
| "int_of _ = Inl TypeError"

fun arg_of :: "'x option \<Rightarrow> 'x res" where
  "arg_of None = Inl TypeError"
| "arg_of (Some x) = Inr x"

text \<open>\<open>view(slice(a, b))\<close>: the bounds are cut to the size, an empty view at the end is refused.\<close>

definition view_rows :: "'d list \<Rightarrow> nat \<Rightarrow> nat \<Rightarrow> 'd list res" where
  "view_rows rows a b = (if a < length rows then Inr (py_slice rows a b) else Inl ValueError)"

fun run_each ::
  "('a \<Rightarrow> 'st \<Rightarrow> unit res \<times> 'st) \<Rightarrow> 'a list \<Rightarrow> 'st \<Rightarrow> unit res \<times> 'st" where
  "run_each f [] st = (Inr (), st)"
| "run_each f (i # rest) st = (case f i st of (Inl e, st1) \<Rightarrow> (Inl e, st1) | (Inr _, st1) \<Rightarrow> run_each f rest st1)"

subsection \<open>Prepare and encode\<close>

definition tokenized :: "(nat \<Rightarrow> 'f py_value \<Rightarrow> 'e res) \<Rightarrow> nat \<Rightarrow> ('f, 'e, 'd, 'i) sd_request \<Rightarrow> 'e list res" where
  "tokenized tokenize tokenizers r =
     res_bind (res_map (\<lambda>k. res_bind (tokenize k (sr_prompt r)) (\<lambda>input_ids.
                 res_bind (tokenize k (sr_neg_prompt r)) (\<lambda>neg_ids. Inr (input_ids, neg_ids)))) [0..<tokenizers])
       (\<lambda>pairs. Inr (map fst pairs @ map snd pairs))"

definition prepare_one ::
  "('f, 'e, 'd, 'i, 'px, 'x, 'm, 'p) sd_env \<Rightarrow> ('m, 'p) sd_service \<Rightarrow> nat \<Rightarrow> ('f, 'e, 'd, 'i) sd_store \<Rightarrow>
   unit res \<times> ('f, 'e, 'd, 'i) sd_store" where
  "prepare_one env sv i reqs =
     (let r = reqs i in
      case tokenized (en_tokenize env) (sv_tokenizers sv) r of
        Inl e \<Rightarrow> (Inl e, reqs)
      | Inr ids_list \<Rightarrow>
         (let r1 = r\<lparr>sr_input_ids := Some ids_list\<rparr>
          in case res_bind (int_of (sr_height r1)) (\<lambda>h. res_bind (int_of (sr_width r1)) (\<lambda>w.
                    en_randn env (sr_seed r1)
                      [1, pm_num_latents_channels (sv_model_params sv), h div 8, w div 8])) of
               Inl e \<Rightarrow> (Inl e, reqs(i := r1))
             | Inr sample \<Rightarrow> (Inr (), reqs(i := r1\<lparr>sr_sample := Some sample\<rparr>))))"

definition sd_prepare ::
  "('f, 'e, 'd, 'i, 'px, 'x, 'm, 'p) sd_env \<Rightarrow> ('m, 'p) sd_service \<Rightarrow> nat list \<Rightarrow> ('f, 'e, 'd, 'i) sd_store \<Rightarrow>
   unit res \<times> ('f, 'e, 'd, 'i) sd_store" where
  "sd_prepare env sv is reqs = run_each (prepare_one env sv) is reqs"

text \<open>The four inputs of the encoder: input \<open>idx\<close> has the tokens number \<open>idx\<close> of every request.\<close>

definition clip_inputs :: "nat list \<Rightarrow> ('f, 'e, 'd, 'i) sd_store \<Rightarrow> 'e list list res" where
  "clip_inputs is reqs =
     res_map (\<lambda>idx. res_map (\<lambda>i. res_bind (arg_of (sr_input_ids (reqs i))) (\<lambda>ids. list_get ids idx)) is) [0..<4]"

definition set_embeds ::
  "'d list \<Rightarrow> 'd list \<Rightarrow> nat \<times> nat \<Rightarrow> ('f, 'e, 'd, 'i) sd_store \<Rightarrow> unit res \<times> ('f, 'e, 'd, 'i) sd_store" where
  "set_embeds pe te = (\<lambda>(k, i) reqs.
     (let cfg_mult = 2 in
      case view_rows pe (k * cfg_mult) ((k + 1) * cfg_mult) of
        Inl e \<Rightarrow> (Inl e, reqs)
      | Inr p \<Rightarrow>
         (let r1 = (reqs i)\<lparr>sr_prompt_embeds := Some p\<rparr>
          in case view_rows te (k * cfg_mult) ((k + 1) * cfg_mult) of
               Inl e \<Rightarrow> (Inl e, reqs(i := r1))
             | Inr t \<Rightarrow> (Inr (), reqs(i := r1\<lparr>sr_text_embeds := Some t\<rparr>)))))"

definition encode_batch ::
  "('f, 'e, 'd, 'i, 'px, 'x, 'm, 'p) sd_env \<Rightarrow> ('m, 'p) program_function \<Rightarrow> nat list \<Rightarrow>
   ('f, 'e, 'd, 'i) sd_store \<Rightarrow> unit res \<times> ('f, 'e, 'd, 'i) sd_store" where
  "encode_batch env fn is reqs =
     (case res_bind (clip_inputs is reqs) (en_encode env fn) of
        Inl e \<Rightarrow> (Inl e, reqs)
      | Inr (pe, te) \<Rightarrow> run_each (set_embeds pe te) (enumerate 0 is) reqs)"

text \<open>
  A stage runs the batch when it has an entry point of its size, and each request alone otherwise:
  a call of itself, whose nesting the interpreter bounds (\<open>depth\<close>; \<open>RecursionError\<close> is a
  \<open>RuntimeError\<close>).
\<close>

fun by_entry_point ::
  "nat \<Rightarrow> (int \<times> 'fn) list \<Rightarrow> ('fn \<Rightarrow> nat list \<Rightarrow> 'st \<Rightarrow> unit res \<times> 'st) \<Rightarrow> nat list \<Rightarrow> 'st \<Rightarrow> unit res \<times> 'st" where
  "by_entry_point 0 entrypoints run is st = (Inl RuntimeError, st)"
| "by_entry_point (Suc depth) entrypoints run is st =
     (case map_of entrypoints (int (length is)) of
        None \<Rightarrow> run_each (\<lambda>i. by_entry_point depth entrypoints run [i]) is st
      | Some fn \<Rightarrow> run fn is st)"

definition sd_encode ::
  "nat \<Rightarrow> ('f, 'e, 'd, 'i, 'px, 'x, 'm, 'p) sd_env \<Rightarrow> ('m, 'p) worker_functions \<Rightarrow> nat list \<Rightarrow>
   ('f, 'e, 'd, 'i) sd_store \<Rightarrow> unit res \<times> ('f, 'e, 'd, 'i) sd_store" where
  "sd_encode depth env fns is reqs = by_entry_point depth (wf_encode fns) (encode_batch env) is reqs"

subsection \<open>Denoise\<close>

record 'd denoise_inputs =
  di_sample :: "'d list"
  di_hidden_states :: "'d list"
  di_text_embeds :: "'d list"
  di_guidance :: "'d list"

definition request_inputs ::
  "('f, 'e, 'd, 'i, 'px, 'x, 'm, 'p) sd_env \<Rightarrow> nat \<Rightarrow> ('f, 'e, 'd, 'i) sd_request \<Rightarrow> 'd denoise_inputs \<Rightarrow>
   'd denoise_inputs res" where
  "request_inputs env cfg_mult r di =
     res_bind (en_float16 env (sr_guidance_scale r)) (\<lambda>g.
     res_bind (res_bind (arg_of (sr_sample r)) (\<lambda>s. en_copy env 1 [s])) (\<lambda>samp.
     res_bind (res_bind (arg_of (sr_prompt_embeds r)) (en_copy env cfg_mult)) (\<lambda>enc.
     res_bind (res_bind (arg_of (sr_text_embeds r)) (en_copy env cfg_mult)) (\<lambda>temb.
       Inr \<lparr>di_sample = di_sample di @ samp, di_hidden_states = di_hidden_states di @ enc,
            di_text_embeds = di_text_embeds di @ temb, di_guidance = di_guidance di @ [g]\<rparr>))))"

fun gather_inputs ::
  "('f, 'e, 'd, 'i, 'px, 'x, 'm, 'p) sd_env \<Rightarrow> nat \<Rightarrow> ('f, 'e, 'd, 'i) sd_request list \<Rightarrow> 'd denoise_inputs \<Rightarrow>
   'd denoise_inputs res" where
  "gather_inputs env cfg_mult [] di = Inr di"
| "gather_inputs env cfg_mult (r # rs) di =
     res_bind (request_inputs env cfg_mult r di) (gather_inputs env cfg_mult rs)"

definition denoise_step ::
  "('f, 'e, 'd, 'i, 'px, 'x, 'm, 'p) sd_env \<Rightarrow> ('m, 'p) denoise_functions \<Rightarrow> 'd denoise_inputs \<Rightarrow> 'x \<Rightarrow> 'x \<Rightarrow> 'x \<Rightarrow>
   int \<Rightarrow> 'd list \<Rightarrow> 'd list res" where
  "denoise_step env fns di time_ids timesteps sigmas i latents =
     res_bind (en_scale env (df_scale fns) latents i timesteps sigmas) (\<lambda>(latent_model_input, t, sigma, next_sigma).
     res_bind (en_unet env (df_unet fns) latent_model_input t (di_hidden_states di) (di_text_embeds di)
                 time_ids (di_guidance di)) (\<lambda>noise_pred.
     res_bind (en_step env (df_step fns) noise_pred latents sigma next_sigma) (\<lambda>latent_model_output.
       en_copy env (length latents) latent_model_output)))"

fun denoise_loop :: "(int \<Rightarrow> 'l \<Rightarrow> 'l res) \<Rightarrow> int list \<Rightarrow> 'l \<Rightarrow> 'l res" where
  "denoise_loop step [] latents = Inr latents"
| "denoise_loop step (i # is) latents = res_bind (step i latents) (denoise_loop step is)"

definition denoised ::
  "('f, 'e, 'd, 'i, 'px, 'x, 'm, 'p) sd_env \<Rightarrow> sd_model_params \<Rightarrow> ('m, 'p) denoise_functions \<Rightarrow>
   ('f, 'e, 'd, 'i) sd_request list \<Rightarrow> 'd list res" where
  "denoised env p fns rs =
     res_bind (list_get rs 0) (\<lambda>r0.
     res_bind (int_of (sr_height r0)) (\<lambda>_. res_bind (int_of (sr_width r0)) (\<lambda>_.
     res_bind (gather_inputs env (if pm_cfg_mode p then 2 else 1) rs
                 \<lparr>di_sample = [], di_hidden_states = [], di_text_embeds = [], di_guidance = []\<rparr>) (\<lambda>di.
     res_bind (int_of (sr_steps r0)) (\<lambda>step_count.
     res_bind (en_init env (df_init fns) (di_sample di) step_count) (\<lambda>(latents, time_ids, timesteps, sigmas).
       denoise_loop (denoise_step env fns di time_ids timesteps sigmas) [0..step_count - 1] latents))))))"

text \<open>\<open>req.denoised_latents\<close> is allocated with the rows of the whole batch and filled from one row.\<close>

definition set_latents ::
  "('f, 'e, 'd, 'i, 'px, 'x, 'm, 'p) sd_env \<Rightarrow> nat \<Rightarrow> 'd list \<Rightarrow> nat \<times> nat \<Rightarrow> ('f, 'e, 'd, 'i) sd_store \<Rightarrow>
   unit res \<times> ('f, 'e, 'd, 'i) sd_store" where
  "set_latents env req_bs latents = (\<lambda>(k, i) reqs.
     (case res_bind (view_rows latents k (k + 1)) (en_copy env req_bs) of
        Inl e \<Rightarrow> (Inl e, reqs)
      | Inr rows \<Rightarrow> (Inr (), reqs(i := (reqs i)\<lparr>sr_denoised_latents := Some rows\<rparr>))))"

definition denoise_batch ::
  "('f, 'e, 'd, 'i, 'px, 'x, 'm, 'p) sd_env \<Rightarrow> sd_model_params \<Rightarrow> ('m, 'p) denoise_functions \<Rightarrow> nat list \<Rightarrow>
   ('f, 'e, 'd, 'i) sd_store \<Rightarrow> unit res \<times> ('f, 'e, 'd, 'i) sd_store" where
  "denoise_batch env p fns is reqs =
     (case denoised env p fns (map reqs is) of
        Inl e \<Rightarrow> (Inl e, reqs)
      | Inr latents \<Rightarrow> run_each (set_latents env (length is) latents) (enumerate 0 is) reqs)"

definition sd_denoise ::
  "nat \<Rightarrow> ('f, 'e, 'd, 'i, 'px, 'x, 'm, 'p) sd_env \<Rightarrow> sd_model_params \<Rightarrow> ('m, 'p) worker_functions \<Rightarrow> nat list \<Rightarrow>
   ('f, 'e, 'd, 'i) sd_store \<Rightarrow> unit res \<times> ('f, 'e, 'd, 'i) sd_store" where
  "sd_denoise depth env p fns is reqs = by_entry_point depth (wf_denoise fns) (denoise_batch env p) is reqs"

subsection \<open>Decode and postprocess\<close>

definition decoded ::
  "('f, 'e, 'd, 'i, 'px, 'x, 'm, 'p) sd_env \<Rightarrow> ('m, 'p) program_function \<Rightarrow> ('f, 'e, 'd, 'i) sd_request list \<Rightarrow>
   (int \<times> int \<times> 'px list) res" where
  "decoded env fn rs =
     res_bind (list_get rs 0) (\<lambda>r0.
     res_bind (int_of (sr_height r0)) (\<lambda>h. res_bind (int_of (sr_width r0)) (\<lambda>w.
     res_bind (res_map (\<lambda>r. res_bind (arg_of (sr_denoised_latents r)) (en_copy env 1)) rs) (\<lambda>latents.
     res_bind (en_decode env fn (concat latents)) (\<lambda>img.
     res_bind (en_copy_pixels env (length rs * nat (3 * h * w)) img) (\<lambda>images_host.
       Inr (h, w, images_host)))))))"

text \<open>The code reshapes the pixels of one image to the shape of the whole batch.\<close>

definition set_image ::
  "('f, 'e, 'd, 'i, 'px, 'x, 'm, 'p) sd_env \<Rightarrow> nat \<Rightarrow> int \<times> int \<times> 'px list \<Rightarrow> nat \<times> nat \<Rightarrow>
   ('f, 'e, 'd, 'i) sd_store \<Rightarrow> unit res \<times> ('f, 'e, 'd, 'i) sd_store" where
  "set_image env req_bs = (\<lambda>(h, w, images_host) (k, i) reqs.
     (let size = nat (3 * h * w) in
      case en_reshape env (py_slice images_host (k * size) ((k + 1) * size)) [int req_bs, 3, h, w] of
        Inl e \<Rightarrow> (Inl e, reqs)
      | Inr image_array \<Rightarrow> (Inr (), reqs(i := (reqs i)\<lparr>sr_image_array := Some image_array\<rparr>))))"

definition decode_batch ::
  "('f, 'e, 'd, 'i, 'px, 'x, 'm, 'p) sd_env \<Rightarrow> ('m, 'p) program_function \<Rightarrow> nat list \<Rightarrow>
   ('f, 'e, 'd, 'i) sd_store \<Rightarrow> unit res \<times> ('f, 'e, 'd, 'i) sd_store" where
  "decode_batch env fn is reqs =
     (case decoded env fn (map reqs is) of
        Inl e \<Rightarrow> (Inl e, reqs)
      | Inr images \<Rightarrow> run_each (set_image env (length is) images) (enumerate 0 is) reqs)"

definition sd_decode ::
  "nat \<Rightarrow> ('f, 'e, 'd, 'i, 'px, 'x, 'm, 'p) sd_env \<Rightarrow> ('m, 'p) worker_functions \<Rightarrow> nat list \<Rightarrow>
   ('f, 'e, 'd, 'i) sd_store \<Rightarrow> unit res \<times> ('f, 'e, 'd, 'i) sd_store" where
  "sd_decode depth env fns is reqs = by_entry_point depth (wf_decode fns) (decode_batch env) is reqs"

definition postprocess_one ::
  "('f, 'e, 'd, 'i, 'px, 'x, 'm, 'p) sd_env \<Rightarrow> nat \<Rightarrow> ('f, 'e, 'd, 'i) sd_store \<Rightarrow>
   unit res \<times> ('f, 'e, 'd, 'i) sd_store" where
  "postprocess_one env i reqs =
     (case sr_image_array (reqs i) of
        None \<Rightarrow> (Inl ValueError, reqs)
      | Some image_array \<Rightarrow>
         (case en_image_text env image_array of
            Inl e \<Rightarrow> (Inl e, reqs)
          | Inr text \<Rightarrow> (Inr (), reqs(i := (reqs i)\<lparr>sr_result_image := Some text\<rparr>))))"

definition sd_postprocess ::
  "('f, 'e, 'd, 'i, 'px, 'x, 'm, 'p) sd_env \<Rightarrow> nat list \<Rightarrow> ('f, 'e, 'd, 'i) sd_store \<Rightarrow>
   unit res \<times> ('f, 'e, 'd, 'i) sd_store" where
  "sd_postprocess env is reqs = run_each (postprocess_one env) is reqs"

subsection \<open>The process\<close>

text \<open>\<open>if phases[p]["required"]: await stage\<close>, with the phases of the first request.\<close>

definition run_phase ::
  "(sd_phase \<times> 'f phase_data) list \<Rightarrow> sd_phase \<Rightarrow> ('st \<Rightarrow> unit res \<times> 'st) \<Rightarrow> 'st \<Rightarrow> unit res \<times> 'st" where
  "run_phase phases p stage st =
     (case map_of phases p of
        None \<Rightarrow> (Inl KeyError, st)
      | Some (required, _) \<Rightarrow> if required then stage st else (Inr (), st))"

fun run_stages :: "('st \<Rightarrow> unit res \<times> 'st) list \<Rightarrow> 'st \<Rightarrow> unit res \<times> 'st" where
  "run_stages [] st = (Inr (), st)"
| "run_stages (f # fs) st = (case f st of (Inl e, st1) \<Rightarrow> (Inl e, st1) | (Inr _, st1) \<Rightarrow> run_stages fs st1)"

definition sd_executor_body ::
  "nat \<Rightarrow> ('f, 'e, 'd, 'i, 'px, 'x, 'm, 'p) sd_env \<Rightarrow> ('m, 'p) sd_service \<Rightarrow> nat \<Rightarrow> nat list \<Rightarrow>
   ('f, 'e, 'd, 'i) sd_store \<Rightarrow> unit res \<times> ('f, 'e, 'd, 'i) sd_store" where
  "sd_executor_body depth env sv worker_index is reqs =
     (case is of
        [] \<Rightarrow> (Inl IndexError, reqs)
      | i0 # _ \<Rightarrow>
         (let phases = sr_phases (reqs i0); fns = sv_functions sv worker_index; p = sv_model_params sv in
          run_stages
            [run_phase phases PREPARE (sd_prepare env sv is),
             run_phase phases ENCODE (sd_encode depth env fns is),
             run_phase phases DENOISE (sd_denoise depth env p fns is),
             run_phase phases DECODE (sd_decode depth env fns is),
             run_phase phases POSTPROCESS (sd_postprocess env is),
             (\<lambda>st. (en_sync env is, st))] reqs))"

definition set_done :: "nat list \<Rightarrow> ('f, 'e, 'd, 'i) sd_store \<Rightarrow> ('f, 'e, 'd, 'i) sd_store" where
  "set_done is reqs = (\<lambda>i. if i \<in> set is then (reqs i)\<lparr>sr_done := True\<rparr> else reqs i)"

text \<open>Whether the process came to its end, and the requests: all of them are done either way. The fiber
  goes back to the idle fibers only at the end (\<open>executor_ends\<close> of the batcher's state).\<close>

definition sd_executor_run ::
  "nat \<Rightarrow> ('f, 'e, 'd, 'i, 'px, 'x, 'm, 'p) sd_env \<Rightarrow> ('m, 'p) sd_service \<Rightarrow> nat \<Rightarrow> nat list \<Rightarrow>
   ('f, 'e, 'd, 'i) sd_store \<Rightarrow> bool \<times> ('f, 'e, 'd, 'i) sd_store" where
  "sd_executor_run depth env sv worker_index is reqs =
     (let (res, reqs1) = sd_executor_body depth env sv worker_index is reqs in (is_ok res, set_done is reqs1))"

end
