(* ===== verification/Sd_Batcher.thy ===== *)
theory Sd_Batcher
  imports Sd_Executor
begin

section \<open>Batching image requests\<close>

text \<open>
  Model of \<open>BatcherProcess\<close> in \<open>sd/components/service.py\<close>. The requests live in a store that the
  batcher shares with the processes that submitted them and with the executors; \<open>sb_flights\<close> are the
  executors that run, with their fiber. The order in which the set of pending requests is iterated
  (\<open>sched\<close>) and the fiber that \<open>idle_fibers.pop()\<close> takes (\<open>pick\<close>) are parameters. Executors on
  different fibers interleave at their awaits; they work on different requests (as is proved), so
  that one runs here at the moment it ends.
\<close>

subsection \<open>State\<close>

record ('f, 'e, 'd, 'i, 'm, 'p) sd_batcher =
  sb_service :: "('m, 'p) sd_service"
  sb_requests :: "('f, 'e, 'd, 'i) sd_store"
  sb_next :: nat
  sb_pending :: "nat list"
  sb_strobe_enabled :: bool
  sb_strobes :: nat
  sb_ideal :: int
  sb_num_fibers :: nat
  sb_flights :: "(sd_fiber \<times> nat list) list"

text \<open>The batcher runs on the first fiber.\<close>

definition sd_batcher_init :: "('m, 'p) sd_service \<Rightarrow> ('f, 'e, 'd, 'i) sd_store \<Rightarrow> ('f, 'e, 'd, 'i, 'm, 'p) sd_batcher res" where
  "sd_batcher_init sv reqs =
     res_bind (list_get (sv_fibers sv) 0) (\<lambda>_.
     res_bind (ideal_batch_size (sv_model_params sv)) (\<lambda>ideal.
       Inr \<lparr>sb_service = sv, sb_requests = reqs, sb_next = 0, sb_pending = [], sb_strobe_enabled = True,
         sb_strobes = 0, sb_ideal = ideal, sb_num_fibers = length (sv_fibers sv), sb_flights = []\<rparr>))"

subsection \<open>Sorting into batches\<close>

type_synonym 'f metas = "'f py_value list option list"
type_synonym 'f batch = "nat \<times> nat list \<times> 'f metas"

definition req_metas :: "('f, 'e, 'd, 'i) sd_request \<Rightarrow> 'f metas" where
  "req_metas r = map (snd \<circ> snd) (sr_phases r)"

text \<open>The inner loop: the key of the batch that takes the request, and \<open>next_key\<close> after the loop.\<close>

fun find_batch :: "int \<Rightarrow> 'f metas \<Rightarrow> 'f batch list \<Rightarrow> nat \<Rightarrow> nat option \<times> nat" where
  "find_batch ideal metas [] next_key = (None, next_key)"
| "find_batch ideal metas ((idx_key, reqs, meta) # rest) next_key =
     (if int (length reqs) \<ge> ideal then find_batch ideal metas rest (idx_key + 1)
      else if meta = metas then (Some idx_key, next_key)
      else find_batch ideal metas rest (idx_key + 1))"

definition file_request ::
  "int \<Rightarrow> ('f, 'e, 'd, 'i) sd_store \<Rightarrow> nat \<Rightarrow> 'f batch list \<times> nat \<Rightarrow> 'f batch list \<times> nat" where
  "file_request ideal store req = (\<lambda>(batches, next_key).
     (let metas = req_metas (store req) in
      case find_batch ideal metas batches next_key of
        (Some idx_key, next_key1) \<Rightarrow>
          (map (\<lambda>(k, reqs, meta). (k, if k = idx_key then reqs @ [req] else reqs, meta)) batches, next_key1)
      | (None, next_key1) \<Rightarrow> (AList.update next_key1 ([req], metas) batches, next_key1)))"

definition sort_batches :: "int \<Rightarrow> ('f, 'e, 'd, 'i) sd_store \<Rightarrow> nat list \<Rightarrow> 'f batch list" where
  "sort_batches ideal store reqs = fst (fold (file_request ideal store) reqs ([], 0))"

subsection \<open>Boarding\<close>

text \<open>\<open>board\<close>: the constructor of the executor asks for the index of the fiber's worker.\<close>

definition sd_board ::
  "nat list \<Rightarrow> sd_fiber \<Rightarrow> ('f, 'e, 'd, 'i, 'm, 'p) sd_batcher \<Rightarrow> unit res \<times> ('f, 'e, 'd, 'i, 'm, 'p) sd_batcher" where
  "sd_board pending fiber s =
     (if pending = [] then (Inr (), s)
      else case get_worker_index (sb_service s) fiber of
        Inl e \<Rightarrow> (Inl e, s)
      | Inr _ \<Rightarrow>
         (let exec_requests = take (nat (sb_ideal s)) pending
          in if exec_requests = [] then (Inr (), s)
             else if \<not> set exec_requests \<subseteq> set (sb_pending s) then (Inl KeyError, s)
             else (Inr (), s\<lparr>sb_pending := set_remove_all exec_requests (sb_pending s),
                             sb_flights := sb_flights s @ [(fiber, exec_requests)]\<rparr>)))"

definition set_idle :: "(sd_fiber list \<Rightarrow> sd_fiber list) \<Rightarrow> ('f, 'e, 'd, 'i, 'm, 'p) sd_batcher \<Rightarrow>
    ('f, 'e, 'd, 'i, 'm, 'p) sd_batcher" where
  "set_idle upd s = s\<lparr>sb_service := (sb_service s)\<lparr>sv_idle_fibers := upd (sv_idle_fibers (sb_service s))\<rparr>\<rparr>"

definition idle :: "('f, 'e, 'd, 'i, 'm, 'p) sd_batcher \<Rightarrow> sd_fiber list" where
  "idle s = sv_idle_fibers (sb_service s)"

fun board_batches ::
  "(sd_fiber list \<Rightarrow> sd_fiber) \<Rightarrow> 'f batch list \<Rightarrow> ('f, 'e, 'd, 'i, 'm, 'p) sd_batcher \<Rightarrow>
   unit res \<times> ('f, 'e, 'd, 'i, 'm, 'p) sd_batcher" where
  "board_batches pick [] s = (Inr (), s)"
| "board_batches pick ((k, reqs, meta) # rest) s =
     (if idle s = [] then (Inr (), s)
      else
       (let fiber = pick (idle s); s1 = set_idle (remove1 fiber) s
        in case get_worker_index (sb_service s1) fiber of
             Inl e \<Rightarrow> (Inl e, s1)
           | Inr _ \<Rightarrow>
              (case sd_board reqs fiber s1 of
                 (Inl e, s2) \<Rightarrow> (Inl e, s2)
               | (Inr _, s2) \<Rightarrow>
                  board_batches pick rest
                    (if sv_isolation (sb_service s2) \<noteq> PerFiber then set_idle (set_add fiber) s2 else s2))))"

definition sd_board_flights ::
  "(sd_fiber list \<Rightarrow> sd_fiber) \<Rightarrow> (nat list \<Rightarrow> nat list) \<Rightarrow> ('f, 'e, 'd, 'i, 'm, 'p) sd_batcher \<Rightarrow>
   unit res \<times> ('f, 'e, 'd, 'i, 'm, 'p) sd_batcher" where
  "sd_board_flights pick sched s =
     (let waiting_count = int (length (sb_pending s)) in
      if waiting_count = 0 then (Inr (), s)
      else if waiting_count < sb_ideal s \<and> sb_strobes s < 2 then (Inr (), s)
      else board_batches pick (sort_batches (sb_ideal s) (sb_requests s) (sched (sb_pending s)))
             (s\<lparr>sb_strobes := 0\<rparr>))"

subsection \<open>Messages and the ends of executors\<close>

datatype sd_item = SdRequest nat | SdStrobe | SdOther

definition sd_receive :: "sd_item \<Rightarrow> ('f, 'e, 'd, 'i, 'm, 'p) sd_batcher \<Rightarrow> ('f, 'e, 'd, 'i, 'm, 'p) sd_batcher" where
  "sd_receive item s =
     (case item of
        SdRequest i \<Rightarrow> s\<lparr>sb_pending := set_add i (sb_pending s)\<rparr>
      | SdStrobe \<Rightarrow> s\<lparr>sb_strobes := sb_strobes s + 1\<rparr>
      | SdOther \<Rightarrow> s)"

text \<open>One iteration of \<open>run\<close>; an exception leaves the loop with strobes disabled.\<close>

definition sd_batcher_step ::
  "(sd_fiber list \<Rightarrow> sd_fiber) \<Rightarrow> (nat list \<Rightarrow> nat list) \<Rightarrow> sd_item \<Rightarrow> ('f, 'e, 'd, 'i, 'm, 'p) sd_batcher \<Rightarrow>
   unit res \<times> ('f, 'e, 'd, 'i, 'm, 'p) sd_batcher" where
  "sd_batcher_step pick sched item s =
     (case sd_board_flights pick sched (sd_receive item (s\<lparr>sb_strobe_enabled := False\<rparr>)) of
        (Inl e, s1) \<Rightarrow> (Inl e, s1)
      | (Inr _, s1) \<Rightarrow> (Inr (), s1\<lparr>sb_strobe_enabled := True\<rparr>))"

text \<open>What \<open>_background_strober\<close> sends at a wake-up, and how long it slept before (milliseconds).\<close>

definition sd_strober_delay :: "('f, 'e, 'd, 'i, 'm, 'p) sd_batcher \<Rightarrow> int" where
  "sd_strober_delay s = (if length (sb_pending s) > 0 then 500 else 1000)"

definition sd_strober_submits :: "('f, 'e, 'd, 'i, 'm, 'p) sd_batcher \<Rightarrow> sd_item list" where
  "sd_strober_submits s = (if sb_strobe_enabled s then [SdStrobe] else [])"

text \<open>The end of the executor number \<open>k\<close>, with the worker index its constructor computed.\<close>

definition executor_ends ::
  "nat \<Rightarrow> ('f, 'e, 'd, 'i, 'px, 'x, 'm, 'p) sd_env \<Rightarrow> nat \<Rightarrow> ('f, 'e, 'd, 'i, 'm, 'p) sd_batcher \<Rightarrow>
   ('f, 'e, 'd, 'i, 'm, 'p) sd_batcher" where
  "executor_ends depth env k s =
     (let (fiber, is) = sb_flights s ! k;
          s1 = s\<lparr>sb_flights := take k (sb_flights s) @ drop (k + 1) (sb_flights s)\<rparr>
      in case get_worker_index (sb_service s) fiber of
           Inl _ \<Rightarrow> s1
         | Inr worker_index \<Rightarrow>
            (let (completed, reqs) = sd_executor_run depth env (sb_service s) worker_index is (sb_requests s);
                 s2 = s1\<lparr>sb_requests := reqs\<rparr>
             in if completed \<and> sv_isolation (sb_service s) = PerFiber then set_idle (set_add fiber) s2 else s2))"

subsection \<open>Runs\<close>

text \<open>\<open>GenerateImageProcess\<close> makes a new request and submits it; the batcher reads messages in order.\<close>

datatype ('f, 'e, 'd, 'i) sd_event = Submitted "('f, 'e, 'd, 'i) sd_request" | Strobed | Illegal | Ends nat

definition sd_event_step ::
  "(sd_fiber list \<Rightarrow> sd_fiber) \<Rightarrow> (nat list \<Rightarrow> nat list) \<Rightarrow> nat \<Rightarrow> ('f, 'e, 'd, 'i, 'px, 'x, 'm, 'p) sd_env \<Rightarrow>
   ('f, 'e, 'd, 'i) sd_event \<Rightarrow> ('f, 'e, 'd, 'i, 'm, 'p) sd_batcher \<Rightarrow>
   unit res \<times> ('f, 'e, 'd, 'i, 'm, 'p) sd_batcher" where
  "sd_event_step pick sched depth env ev s =
     (case ev of
        Submitted r \<Rightarrow>
          sd_batcher_step pick sched (SdRequest (sb_next s))
            (s\<lparr>sb_requests := (sb_requests s)(sb_next s := r), sb_next := sb_next s + 1\<rparr>)
      | Strobed \<Rightarrow> sd_batcher_step pick sched SdStrobe s
      | Illegal \<Rightarrow> sd_batcher_step pick sched SdOther s
      | Ends k \<Rightarrow> if k < length (sb_flights s) then (Inr (), executor_ends depth env k s) else (Inr (), s))"

fun sd_run ::
  "(sd_fiber list \<Rightarrow> sd_fiber) \<Rightarrow> (nat list \<Rightarrow> nat list) \<Rightarrow> nat \<Rightarrow> ('f, 'e, 'd, 'i, 'px, 'x, 'm, 'p) sd_env \<Rightarrow>
   ('f, 'e, 'd, 'i) sd_event list \<Rightarrow> ('f, 'e, 'd, 'i, 'm, 'p) sd_batcher \<Rightarrow>
   unit res \<times> ('f, 'e, 'd, 'i, 'm, 'p) sd_batcher" where
  "sd_run pick sched depth env [] s = (Inr (), s)"
| "sd_run pick sched depth env (ev # evs) s =
     (case sd_event_step pick sched depth env ev s of
        (Inl e, s1) \<Rightarrow> (Inl e, s1)
      | (Inr _, s1) \<Rightarrow> sd_run pick sched depth env evs s1)"

end
