(* ===== verification/Sd_Batch_Properties.thy ===== *)
theory Sd_Batch_Properties
  imports Sd_Batcher
begin

section \<open>What the batcher sends to the executors\<close>

text \<open>The batches of the image batcher against a reference: consecutive blocks of the requests of one metadata.\<close>

subsection \<open>Batches\<close>

text \<open>The batches with the metadata \<open>m\<close>, in the order of the dictionary.\<close>

definition batches_of :: "'f metas \<Rightarrow> 'f batch list \<Rightarrow> nat list list" where
  "batches_of m bs = map (fst \<circ> snd) (filter (\<lambda>b. snd (snd b) = m) bs)"

lemma batches_of_simps [simp]:
  "batches_of m [] = []" "batches_of m (xs @ ys) = batches_of m xs @ batches_of m ys"
  "batches_of m ((k, reqs, meta) # bs) = (if meta = m then reqs # batches_of m bs else batches_of m bs)"
  by (simp_all add: batches_of_def)

lemma batches_of_rekey:
  "batches_of m (map (\<lambda>(k, reqs, meta). (k, if k \<in> K then f reqs else reqs, meta)) bs) =
   map (\<lambda>(k, reqs, meta). if k \<in> K then f reqs else reqs) (filter (\<lambda>b. snd (snd b) = m) bs)"
  by (induction bs) auto

lemma find_batch_Some:
  "find_batch ideal m bs nk = (Some k, nk') \<Longrightarrow>
   \<exists>pre reqs post. bs = pre @ (k, reqs, m) # post \<and> int (length reqs) < ideal"
proof (induction ideal m bs nk rule: find_batch.induct)
  case (2 ideal m key reqs meta rest nk)
  show ?case
  proof (cases "int (length reqs) < ideal \<and> meta = m")
    case True
    with "2.prems" show ?thesis by (intro exI [of _ "[]"] exI [of _ reqs] exI [of _ rest]) auto
  next
    case False
    then have "\<exists>pre reqs post. rest = pre @ (k, reqs, m) # post \<and> int (length reqs) < ideal"
      using "2.IH" "2.prems" by (auto split: if_splits)
    then show ?thesis by (metis append_Cons)
  qed
qed simp

lemma find_batch_None:
  "find_batch ideal m bs nk = (None, nk') \<Longrightarrow> map fst bs = [a..<a + length bs] \<Longrightarrow>
   (\<forall>reqs \<in> set (batches_of m bs). ideal \<le> int (length reqs)) \<and> nk' = (if bs = [] then nk else a + length bs)"
proof (induction ideal m bs nk arbitrary: a rule: find_batch.induct)
  case (2 ideal m key reqs meta rest nk)
  from "2.prems"(2) have key: "key = a" and rest: "map fst rest = [Suc a..<Suc a + length rest]"
    by (simp_all add: upt_conv_Cons del: upt_Suc)
  show ?case
  proof (cases "int (length reqs) \<ge> ideal")
    case True
    with "2.IH"(1) [OF True _ rest] "2.prems" key show ?thesis by auto
  next
    case False
    with "2.prems"(1) have ne: "meta \<noteq> m" by (auto split: if_splits)
    with "2.IH"(2) [OF False _ _ rest] "2.prems" key False show ?thesis by auto
  qed
qed simp

definition sorted_into :: "int \<Rightarrow> ('f, 'e, 'd, 'i) sd_store \<Rightarrow> nat list \<Rightarrow> 'f batch list \<times> nat \<Rightarrow> bool" where
  "sorted_into ideal store xs = (\<lambda>(bs, nk).
     map fst bs = [0..<length bs] \<and> (bs = [] \<longrightarrow> nk = 0) \<and>
     (\<forall>m. batches_of m bs = blocks_from 0 (nat ideal) (filter (\<lambda>i. req_metas (store i) = m) xs)))"

lemma sorted_into_file:
  assumes ideal: "0 < ideal" and inv: "sorted_into ideal store xs (bs, nk)"
  shows "sorted_into ideal store (xs @ [x]) (file_request ideal store x (bs, nk))"
proof -
  let ?m = "req_metas (store x)" and ?n = "nat ideal"
  let ?of = "\<lambda>m. filter (\<lambda>i. req_metas (store i) = m) xs"
  from ideal have n: "0 < ?n" by simp
  from inv have keys: "map fst bs = [0..<length bs]" and nk: "bs = [] \<longrightarrow> nk = 0"
    and blocks: "\<And>m. batches_of m bs = blocks_from 0 ?n (?of m)" by (auto simp: sorted_into_def)
  obtain found nk' where found: "find_batch ideal ?m bs nk = (found, nk')" by fastforce
  show ?thesis
  proof (cases found)
    case None
    with found have full: "\<forall>reqs \<in> set (batches_of ?m bs). ideal \<le> int (length reqs)"
      and nk': "nk' = length bs"
      using find_batch_None [of ideal ?m bs nk nk' 0] keys nk by (auto split: if_splits)
    have dvd: "?n dvd length (?of ?m)"
      using full by (intro blocks_full [OF n]) (auto simp flip: blocks)
    have bs': "file_request ideal store x (bs, nk) = (bs @ [(length bs, [x], ?m)], nk')"
      using found None nk' keys by (simp add: file_request_def AList_update_fresh flip: set_map)
    show ?thesis
      unfolding bs' sorted_into_def using keys dvd by (auto simp: blocks blocks_snoc [OF n])
  next
    case (Some k)
    then obtain pre reqs post where bs: "bs = pre @ (k, reqs, ?m) # post" and short: "int (length reqs) < ideal"
      using find_batch_Some [of ideal ?m bs nk k nk'] found by auto
    have k: "k = length pre" "k \<notin> fst ` set pre" "k \<notin> fst ` set post"
      and dist: "distinct (map fst bs)"
    proof -
      show d: "distinct (map fst bs)" using keys by simp
      have "map fst bs ! length pre = k" using bs by (simp add: nth_append)
      moreover have "[0..<length bs] ! length pre = length pre" using bs by (simp del: upt_Suc)
      ultimately show "k = length pre" using keys by simp
      show "k \<notin> fst ` set pre" "k \<notin> fst ` set post" using d bs by auto
    qed
    have bl: "blocks_from 0 ?n (?of ?m) = batches_of ?m pre @ reqs # batches_of ?m post"
      using blocks [of ?m] bs by simp
    have "batches_of ?m post = []" and nd: "\<not> ?n dvd length (?of ?m)"
      using blocks_short [OF n bl] short by auto
    define upd where "upd = (\<lambda>(k', reqs, meta :: 'a metas). (k', if k' = k then reqs @ [x] else reqs, meta))"
    have same: "map upd pre = pre" "map upd post = post"
      using k by (auto simp: upd_def intro!: map_idI) (metis fst_conv image_eqI)+
    have bs': "file_request ideal store x (bs, nk) = (pre @ (k, reqs @ [x], ?m) # post, nk')"
      using found Some same by (simp add: file_request_def bs) (simp add: upd_def)
    have "batches_of m (pre @ (k, reqs @ [x], ?m) # post) =
        blocks_from 0 ?n (filter (\<lambda>i. req_metas (store i) = m) (xs @ [x]))" for m
    proof (cases "m = ?m")
      case True
      with bl nd \<open>batches_of ?m post = []\<close> show ?thesis by (simp add: blocks_snoc [OF n] butlast_append)
    next
      case False
      with blocks [of m] bs show ?thesis by auto
    qed
    then show ?thesis using keys bs unfolding bs' sorted_into_def by simp
  qed
qed

lemma sorted_into_fold:
  assumes "0 < ideal"
  shows "sorted_into ideal store xs (fold (file_request ideal store) xs ([], 0))"
proof (induction xs rule: rev_induct)
  case Nil
  show ?case by (simp add: sorted_into_def blocks_step assms)
next
  case (snoc x xs)
  with sorted_into_file [OF assms, of store xs _ _ x] show ?case
    by (cases "fold (file_request ideal store) xs ([], 0)") simp
qed

lemma sort_batches_blocks:
  assumes "0 < ideal"
  shows "map fst (sort_batches ideal store xs) = [0..<length (sort_batches ideal store xs)]"
    and "batches_of m (sort_batches ideal store xs) =
      blocks_from 0 (nat ideal) (filter (\<lambda>i. req_metas (store i) = m) xs)"
  using sorted_into_fold [OF assms, of store xs]
  by (auto simp: sorted_into_def sort_batches_def split: prod.splits)

lemma batch_in_blocks:
  assumes "0 < ideal" and "(k, reqs, m) \<in> set (sort_batches ideal store xs)"
  shows "reqs \<in> set (blocks_from 0 (nat ideal) (filter (\<lambda>i. req_metas (store i) = m) xs))"
  using assms(2) by (force simp: batches_of_def simp flip: sort_batches_blocks(2) [OF assms(1)])

lemma block_shape:
  assumes "0 < n" and "b \<in> set (blocks_from 0 n xs)"
  shows "b \<noteq> []" and "length b \<le> n" and "set b \<subseteq> set xs"
proof -
  obtain j where j: "j < length (blocks_from 0 n xs)" "b = blocks_from 0 n xs ! j"
    using assms(2) by (auto simp: in_set_conv_nth)
  then have b: "b = take n (drop (j * n) xs)" using blocks_from_nth [OF assms(1), of j 0 xs] by simp
  then show "length b \<le> n" "set b \<subseteq> set xs" by (auto dest: in_set_takeD in_set_dropD)
  have "int (length (blocks_from 0 n xs)) = ceil_div (int (length xs)) (int n)"
    using length_blocks_from [OF assms(1), of 0 xs] by simp
  with j(1) have "\<not> ceil_div (int (length xs)) (int n) \<le> int j" by simp
  then have "j * n < length xs" using assms(1) by (simp add: ceil_div_le_iff flip: of_nat_mult)
  with b assms(1) show "b \<noteq> []" by simp
qed

lemma batch_shape:
  assumes "0 < ideal" and "(k, is, m) \<in> set (sort_batches ideal store xs)"
  shows "is \<noteq> []" and "int (length is) \<le> ideal" and "i \<in> set is \<Longrightarrow> req_metas (store i) = m \<and> i \<in> set xs"
  using block_shape [OF _ batch_in_blocks [OF assms]] assms(1) by (auto simp: subset_iff)

lemma sort_batches_all:
  assumes "0 < ideal"
  shows "mset (concat (map (fst \<circ> snd) (sort_batches ideal store reqs))) = mset reqs"
proof (rule multiset_eqI)
  fix i
  let ?bs = "sort_batches ideal store reqs" and ?m = "req_metas (store i)"
  have n: "0 < nat ideal" using assms by simp
  have "count (mset (concat (batches_of ?m ?bs))) i = count (mset reqs) i"
    unfolding sort_batches_blocks(2) [OF assms] concat_blocks_from [OF n] by simp
  moreover have "count (mset (concat (map (fst \<circ> snd) cs))) i = count (mset (concat (batches_of ?m cs))) i"
    if "set cs \<subseteq> set ?bs" for cs
    using that
  proof (induction cs)
    case (Cons c cs)
    obtain k "is" m where c: "c = (k, is, m)" by (cases c) auto
    with Cons.prems batch_shape(3) [OF assms, of k "is" m store reqs] have "m \<noteq> ?m \<Longrightarrow> i \<notin> set is" by auto
    with Cons c show ?case by (auto simp: not_in_iff)
  qed simp
  ultimately show "count (mset (concat (map (fst \<circ> snd) ?bs))) i = count (mset reqs) i" by simp
qed

text \<open>
  C22: \<open>sort_batches\<close> groups by metadata and fills: the batches with one list of phase metadata are
  exactly the consecutive blocks of \<open>ideal_batch_size\<close> requests of all pending requests with that
  metadata, in the order in which they were iterated. So each pending request is in one batch, no
  batch is empty, too large or mixed (its requests agree in width, height and steps, which the
  executor reads from the first), and there are no more batches than the sizes make necessary.
\<close>

theorem sort_batches_groups:
  assumes "0 < ideal" and "bs = sort_batches ideal store reqs"
  shows "map fst bs = [0..<length bs] \<and>
    (\<forall>m. map (fst \<circ> snd) (filter (\<lambda>b. snd (snd b) = m) bs) =
       blocks_from 0 (nat ideal) (filter (\<lambda>i. req_metas (store i) = m) reqs)) \<and>
    mset (concat (map (fst \<circ> snd) bs)) = mset reqs \<and>
    (\<forall>(k, is, m) \<in> set bs. is \<noteq> [] \<and> int (length is) \<le> ideal \<and> (\<forall>i \<in> set is. req_metas (store i) = m)) \<and>
    (\<forall>m. int (length (filter (\<lambda>b. snd (snd b) = m) bs)) =
       ceil_div (int (length (filter (\<lambda>i. req_metas (store i) = m) reqs))) ideal)"
proof -
  let ?of = "\<lambda>m. filter (\<lambda>i. req_metas (store i) = m) reqs"
  note sb = sort_batches_blocks [OF assms(1), where store = store and xs = reqs, folded assms(2)]
  have n: "0 < nat ideal" using assms(1) by simp
  have shape: "is \<noteq> [] \<and> int (length is) \<le> ideal \<and> (\<forall>i \<in> set is. req_metas (store i) = m)"
    if "(k, is, m) \<in> set bs" for k "is" m
    using batch_shape [OF assms(1)] that assms(2) by blast
  have count: "int (length (filter (\<lambda>b. snd (snd b) = m) bs)) = ceil_div (int (length (?of m))) ideal" for m
    using arg_cong [OF sb(2) [of m], of length] length_blocks_from [OF n, of 0 "?of m"] assms(1)
    by (simp add: batches_of_def)
  have all: "mset (concat (map (fst \<circ> snd) bs)) = mset reqs"
    unfolding assms(2) by (rule sort_batches_all [OF assms(1)])
  show ?thesis using sb shape count all by (auto simp: batches_of_def)
qed

text \<open>Requests that differ in their number of steps, two to a batch.\<close>

definition demo_request :: "int \<Rightarrow> (unit, unit, unit, unit) sd_request" where
  "demo_request steps =
     new_sd_request (VText ''a cat'') VNone (VInt 1024) (VInt 1024) (VInt steps) VNone VNone
       None None None None None None"

definition demo_store :: "nat \<Rightarrow> (unit, unit, unit, unit) sd_request" where
  "demo_store i = demo_request (if i \<in> {1, 4} then 30 else 20)"

theorem sort_batches_groups_witness:
  "map (fst \<circ> snd) (sort_batches 2 demo_store [0, 1, 2, 3, 4]) = [[0, 2], [1, 4], [3]] \<and>
   mset (concat (map (fst \<circ> snd) (sort_batches 2 demo_store [0, 1, 2, 3, 4]))) = mset [0, 1, 2, 3, 4]"
proof
  show "map (fst \<circ> snd) (sort_batches 2 demo_store [0, 1, 2, 3, 4]) = [[0, 2], [1, 4], [3]]" by code_simp
  show "mset (concat (map (fst \<circ> snd) (sort_batches 2 demo_store [0, 1, 2, 3, 4]))) = mset [0, 1, 2, 3, 4]"
    using sort_batches_groups [of 2 _ demo_store "[0, 1, 2, 3, 4]", OF _ refl] by simp
qed

end
