(* ===== verification/Sd_Flight_Properties.thy ===== *)
theory Sd_Flight_Properties
  imports Sd_Batch_Properties
begin

section \<open>Flights, fibers and requests over time\<close>

text \<open>The invariant of requests, flights and fibers of the image service, kept by boarding and by the end of an executor whatever its stages do.\<close>

subsection \<open>What a stage may change\<close>

text \<open>
  A stage over the requests \<open>is\<close> leaves all other requests alone and keeps what \<open>K\<close> reads of these:
  every stage the phases and the done mark, all but the last one also the dimensions and the result.
\<close>

definition stage_frame ::
  "(('f, 'e, 'd, 'i) sd_request \<Rightarrow> 'k) \<Rightarrow> nat list \<Rightarrow>
   (('f, 'e, 'd, 'i) sd_store \<Rightarrow> unit res \<times> ('f, 'e, 'd, 'i) sd_store) \<Rightarrow> bool" where
  "stage_frame K is f \<longleftrightarrow>
     (\<forall>st. (\<forall>j. j \<notin> set is \<longrightarrow> snd (f st) j = st j) \<and> (\<forall>j. K (snd (f st) j) = K (st j)))"

definition kept :: "('f, 'e, 'd, 'i) sd_request \<Rightarrow> (sd_phase \<times> 'f phase_data) list \<times> bool" where
  "kept r = (sr_phases r, sr_done r)"

definition kept_image ::
  "('f, 'e, 'd, 'i) sd_request \<Rightarrow>
   ((sd_phase \<times> 'f phase_data) list \<times> bool) \<times> 'f py_value \<times> 'f py_value \<times> string option" where
  "kept_image r = (kept r, sr_height r, sr_width r, sr_result_image r)"

named_theorems frames \<open>stages and what they change\<close>

lemma stage_frame_const [frames]: "stage_frame K is (\<lambda>st. (r, st))"
  by (simp add: stage_frame_def)

lemma stage_frame_seq [frames]:
  assumes "stage_frame K is f" and "stage_frame K is g"
  shows "stage_frame K is (\<lambda>st. case f st of (Inl e, st1) \<Rightarrow> (Inl e, st1) | (Inr _, st1) \<Rightarrow> g st1)"
  unfolding stage_frame_def
proof
  fix st
  obtain r st1 where f: "f st = (r, st1)" by fastforce
  have 1: "(\<forall>j. j \<notin> set is \<longrightarrow> st1 j = st j) \<and> (\<forall>j. K (st1 j) = K (st j))"
    using assms(1) [unfolded stage_frame_def, rule_format, of st] by (simp add: f)
  let ?h = "snd (case f st of (Inl e, st1) \<Rightarrow> (Inl e, st1) | (Inr _, st1) \<Rightarrow> g st1)"
  show "(\<forall>j. j \<notin> set is \<longrightarrow> ?h j = st j) \<and> (\<forall>j. K (?h j) = K (st j))"
    using 1 assms(2) [unfolded stage_frame_def, rule_format, of st1] by (cases r) (simp_all add: f)
qed

lemma run_each_step:
  "run_each f (x # xs) = (\<lambda>st. case f x st of (Inl e, st1) \<Rightarrow> (Inl e, st1) | (Inr _, st1) \<Rightarrow> run_each f xs st1)"
  by (rule ext) simp

lemma run_stages_step:
  "run_stages (f # fs) = (\<lambda>st. case f st of (Inl e, st1) \<Rightarrow> (Inl e, st1) | (Inr _, st1) \<Rightarrow> run_stages fs st1)"
  by (rule ext) simp

lemma stage_frame_run_each [frames]:
  "(\<And>x. x \<in> set xs \<Longrightarrow> stage_frame K is (f x)) \<Longrightarrow> stage_frame K is (run_each f xs)"
  by (induction xs) (simp add: stage_frame_def, simp only: run_each_step, simp add: stage_frame_seq)

lemma stage_frame_run_stages [frames]:
  "(\<And>f. f \<in> set fs \<Longrightarrow> stage_frame K is f) \<Longrightarrow> stage_frame K is (run_stages fs)"
  by (induction fs) (simp add: stage_frame_def, simp only: run_stages_step, simp add: stage_frame_seq)

lemma stage_frame_mono: "stage_frame K is f \<Longrightarrow> set is \<subseteq> set js \<Longrightarrow> stage_frame K js f"
  by (auto simp: stage_frame_def)

lemma stage_frame_kept [frames]: "stage_frame kept_image is f \<Longrightarrow> stage_frame kept is f"
  by (auto simp: stage_frame_def kept_image_def)

lemma stage_frame_by_entry_point:
  assumes "\<And>fn is. stage_frame K is (run fn is)"
  shows "stage_frame K is (by_entry_point depth entries run is)"
proof (induction depth arbitrary: "is")
  case 0
  show ?case by (simp add: stage_frame_def)
next
  case (Suc depth)
  have "stage_frame K is (run_each (\<lambda>i. by_entry_point depth entries run [i]) is)"
    by (intro stage_frame_run_each stage_frame_mono [OF Suc.IH]) auto
  with assms [of "is"] show ?case
    by (cases "map_of entries (int (length is))") (simp_all add: stage_frame_def)
qed

lemma stage_frame_run_phase [frames]: "stage_frame K is f \<Longrightarrow> stage_frame K is (run_phase phases p f)"
  by (auto simp: stage_frame_def run_phase_def split: option.split)

lemma stage_frame_update:
  assumes "i \<in> set is" and "\<And>st. snd (f st) = st \<or> (\<exists>r. snd (f st) = st(i := r) \<and> K r = K (st i))"
  shows "stage_frame K is f"
  unfolding stage_frame_def
proof (intro allI)
  fix st
  from assms(2) [of st] assms(1)
  show "(\<forall>j. j \<notin> set is \<longrightarrow> snd (f st) j = st j) \<and> (\<forall>j. K (snd (f st) j) = K (st j))"
    by (auto split: if_splits)
qed

lemma stage_frame_parts:
  "i \<in> set is \<Longrightarrow> stage_frame kept_image is (prepare_one env sv i)"
  "i \<in> set is \<Longrightarrow> stage_frame kept_image is (set_embeds pe te (k, i))"
  "i \<in> set is \<Longrightarrow> stage_frame kept_image is (set_latents env n latents (k, i))"
  "i \<in> set is \<Longrightarrow> stage_frame kept_image is (set_image env n images (k, i))"
  "i \<in> set is \<Longrightarrow> stage_frame kept is (postprocess_one env i)"
  by ((erule stage_frame_update,
      auto simp: prepare_one_def set_embeds_def set_latents_def set_image_def postprocess_one_def Let_def
        kept_def kept_image_def split: sum.split option.split prod.split)+)

lemma stage_frame_enumerate:
  assumes "\<And>k i. i \<in> set is \<Longrightarrow> stage_frame K is (f (k, i))"
  shows "stage_frame K is (run_each f (enumerate 0 is))"
  using assms by (intro frames) (auto simp: in_set_enumerate_eq)

text \<open>A stage that computes something from the store and then fails or goes on with a stage.\<close>

lemma stage_frame_compute:
  assumes "\<And>st. f st = (case c st of Inl e \<Rightarrow> (Inl e, st) | Inr x \<Rightarrow> g x st)" and "\<And>x. stage_frame K is (g x)"
  shows "stage_frame K is f"
  using assms by (auto simp: stage_frame_def split: sum.split)

lemma stage_frame_batches:
  "stage_frame kept_image is (encode_batch env fn is)"
  "stage_frame kept_image is (denoise_batch env p fns is)"
  "stage_frame kept_image is (decode_batch env dfn is)"
proof -
  show "stage_frame kept_image is (encode_batch env fn is)"
    by (rule stage_frame_compute [where c = "\<lambda>st. res_bind (clip_inputs is st) (en_encode env fn)"
          and g = "\<lambda>(pe, te). run_each (set_embeds pe te) (enumerate 0 is)"])
      (auto simp: encode_batch_def intro: stage_frame_enumerate stage_frame_parts split: sum.split)
  show "stage_frame kept_image is (denoise_batch env p fns is)"
    by (rule stage_frame_compute [OF denoise_batch_def]) (intro stage_frame_enumerate stage_frame_parts)
  show "stage_frame kept_image is (decode_batch env dfn is)"
    by (rule stage_frame_compute [OF decode_batch_def]) (intro stage_frame_enumerate stage_frame_parts)
qed

lemma stage_frame_stages [frames]:
  "stage_frame kept_image is (sd_prepare env sv is)" "stage_frame kept_image is (sd_encode depth env fns is)"
  "stage_frame kept_image is (sd_denoise depth env p fns is)" "stage_frame kept_image is (sd_decode depth env fns is)"
  "stage_frame kept is (sd_postprocess env is)"
  unfolding sd_prepare_def sd_encode_def sd_denoise_def sd_decode_def sd_postprocess_def
  by (intro stage_frame_run_each stage_frame_by_entry_point stage_frame_batches stage_frame_parts; assumption?)+

definition stages ::
  "nat \<Rightarrow> ('f, 'e, 'd, 'i, 'px, 'x, 'm, 'p) sd_env \<Rightarrow> ('m, 'p) sd_service \<Rightarrow> nat \<Rightarrow> nat list \<Rightarrow>
   (sd_phase \<times> 'f phase_data) list \<Rightarrow> (('f, 'e, 'd, 'i) sd_store \<Rightarrow> unit res \<times> ('f, 'e, 'd, 'i) sd_store) list" where
  "stages depth env sv w is phases =
     [run_phase phases PREPARE (sd_prepare env sv is),
      run_phase phases ENCODE (sd_encode depth env (sv_functions sv w) is),
      run_phase phases DENOISE (sd_denoise depth env (sv_model_params sv) (sv_functions sv w) is),
      run_phase phases DECODE (sd_decode depth env (sv_functions sv w) is),
      run_phase phases POSTPROCESS (sd_postprocess env is),
      (\<lambda>st. (en_sync env is, st))]"

lemma sd_executor_body_stages:
  "is \<noteq> [] \<Longrightarrow> sd_executor_body depth env sv w is st = run_stages (stages depth env sv w is (sr_phases (st (hd is)))) st"
proof (cases "is")
  case (Cons i rest)
  then show ?thesis by (simp only: sd_executor_body_def list.case Let_def stages_def list.sel)
qed simp

lemma stages_frame: "f \<in> set (stages depth env sv w is phases) \<Longrightarrow> stage_frame kept is f"
  by (auto simp: stages_def intro: frames)

lemma executor_frame: "stage_frame kept is (sd_executor_body depth env sv w is)"
proof (cases "is = []")
  case False
  have "stage_frame kept is (run_stages (stages depth env sv w is phases))" for phases
    by (rule stage_frame_run_stages) (rule stages_frame)
  then show ?thesis unfolding stage_frame_def sd_executor_body_stages [OF False] by blast
qed (simp add: stage_frame_def sd_executor_body_def)

lemma sd_executor_run_requests:
  assumes "sd_executor_run depth env sv w is reqs = (completed, reqs')"
  shows "j \<notin> set is \<Longrightarrow> reqs' j = reqs j" and "sr_phases (reqs' j) = sr_phases (reqs j)"
    and "sr_done (reqs' j) \<longleftrightarrow> sr_done (reqs j) \<or> j \<in> set is"
  using assms executor_frame [of "is" depth env sv w, unfolded stage_frame_def kept_def, rule_format, of reqs]
  by (auto simp: sd_executor_run_def set_done_def split: prod.splits)

subsection \<open>The invariant\<close>

definition in_flight :: "('f, 'e, 'd, 'i, 'm, 'p) sd_batcher \<Rightarrow> nat list" where
  "in_flight s = concat (map snd (sb_flights s))"

definition requests_ok :: "('f, 'e, 'd, 'i, 'm, 'p) sd_batcher \<Rightarrow> bool" where
  "requests_ok s \<longleftrightarrow> distinct (sb_pending s @ in_flight s) \<and>
     set (sb_pending s @ in_flight s) = {i. i < sb_next s \<and> \<not> sr_done (sb_requests s i)}"

definition flight_ok :: "('f, 'e, 'd, 'i, 'm, 'p) sd_batcher \<Rightarrow> nat list \<Rightarrow> bool" where
  "flight_ok s is \<longleftrightarrow> is \<noteq> [] \<and> int (length is) \<le> sb_ideal s \<and> (\<exists>m. \<forall>i \<in> set is. req_metas (sb_requests s i) = m)"

definition fibers_ok :: "('f, 'e, 'd, 'i, 'm, 'p) sd_batcher \<Rightarrow> bool" where
  "fibers_ok s \<longleftrightarrow>
     (let sv = sb_service s in
      distinct (sv_fibers sv) \<and> 0 < sv_fibers_per_worker sv \<and>
      (if sv_isolation sv = PerFiber then mset (idle s @ map fst (sb_flights s)) \<subseteq># mset (sv_fibers sv)
       else mset (idle s) = mset (sv_fibers sv) \<and> fst ` set (sb_flights s) \<subseteq> set (sv_fibers sv)))"

definition sd_inv :: "('f, 'e, 'd, 'i, 'm, 'p) sd_batcher \<Rightarrow> bool" where
  "sd_inv s \<longleftrightarrow> 0 < sb_ideal s \<and> requests_ok s \<and> (\<forall>fl \<in> set (sb_flights s). flight_ok s (snd fl)) \<and> fibers_ok s"

text \<open>What no step changes.\<close>

definition same_setup :: "('f, 'e, 'd, 'i, 'm, 'p) sd_batcher \<Rightarrow> ('f, 'e, 'd, 'i, 'm, 'p) sd_batcher \<Rightarrow> bool" where
  "same_setup s s' \<longleftrightarrow> sb_ideal s' = sb_ideal s \<and>
     (\<exists>fs. sb_service s' = (sb_service s)\<lparr>sv_idle_fibers := fs\<rparr>)"

definition working_fibers :: "('f, 'e, 'd, 'i, 'm, 'p) sd_batcher \<Rightarrow> nat" where
  "working_fibers s = length (idle s) + length (sb_flights s)"

lemma same_setup_refl [simp]: "same_setup s s"
  by (auto simp: same_setup_def intro: exI [of _ "sv_idle_fibers (sb_service s)"])

lemma same_setup_trans: "same_setup s s1 \<Longrightarrow> same_setup s1 s2 \<Longrightarrow> same_setup s s2"
  by (auto simp: same_setup_def)

lemma idle_simps [simp]:
  "idle (set_idle f s) = f (idle s)" "sb_flights (set_idle f s) = sb_flights s"
  "sb_requests (set_idle f s) = sb_requests s" "sb_next (set_idle f s) = sb_next s"
  "sb_pending (set_idle f s) = sb_pending s" "sb_ideal (set_idle f s) = sb_ideal s"
  "sb_strobes (set_idle f s) = sb_strobes s"
  "sv_fibers (sb_service (set_idle f s)) = sv_fibers (sb_service s)"
  "sv_isolation (sb_service (set_idle f s)) = sv_isolation (sb_service s)"
  "sv_fibers_per_worker (sb_service (set_idle f s)) = sv_fibers_per_worker (sb_service s)"
  "same_setup s (set_idle f s)"
  by (auto simp: set_idle_def idle_def same_setup_def)

lemma get_worker_index_ok:
  "fiber \<in> set (sv_fibers sv) \<Longrightarrow> 0 < sv_fibers_per_worker sv \<Longrightarrow> \<exists>w. get_worker_index sv fiber = Inr w"
  using list_index_total [of fiber "sv_fibers sv"] by (auto simp: get_worker_index_def)

lemma fibers_known:
  assumes "fibers_ok s"
  shows "set (idle s @ map fst (sb_flights s)) \<subseteq> set (sv_fibers (sb_service s))"
proof (cases "sv_isolation (sb_service s) = PerFiber")
  case True
  with assms show ?thesis by (metis fibers_ok_def set_mset_mono set_mset_mset)
qed (use assms in \<open>auto simp: fibers_ok_def Let_def dest: mset_eq_setD\<close>)

lemma get_worker_index_idle [simp]: "get_worker_index (sb_service (set_idle f s)) = get_worker_index (sb_service s)"
  by (rule ext) (simp add: get_worker_index_def cong: if_cong)

lemma strobe_frame [simp]:
  "sd_inv (s\<lparr>sb_strobes := n\<rparr>) \<longleftrightarrow> sd_inv s" "sd_inv (s\<lparr>sb_strobe_enabled := b\<rparr>) \<longleftrightarrow> sd_inv s"
  "working_fibers (s\<lparr>sb_strobes := n\<rparr>) = working_fibers s"
  "working_fibers (s\<lparr>sb_strobe_enabled := b\<rparr>) = working_fibers s"
  "same_setup (s\<lparr>sb_strobes := n\<rparr>) s' \<longleftrightarrow> same_setup s s'"
  "same_setup (s\<lparr>sb_strobe_enabled := b\<rparr>) s' \<longleftrightarrow> same_setup s s'"
  "same_setup s (s'\<lparr>sb_strobe_enabled := b\<rparr>) \<longleftrightarrow> same_setup s s'"
  by (simp_all add: sd_inv_def requests_ok_def flight_ok_def fibers_ok_def in_flight_def idle_def
      working_fibers_def same_setup_def)

subsection \<open>Boarding keeps it\<close>

definition picks :: "(sd_fiber list \<Rightarrow> sd_fiber) \<Rightarrow> bool" where
  "picks pick \<longleftrightarrow> (\<forall>fs. fs \<noteq> [] \<longrightarrow> pick fs \<in> set fs)"

lemma sd_board_run:
  assumes "reqs \<noteq> []" and "int (length reqs) \<le> sb_ideal s" and "set reqs \<subseteq> set (sb_pending s)"
    and "fiber \<in> set (sv_fibers (sb_service s))" and "0 < sv_fibers_per_worker (sb_service s)"
  shows "sd_board reqs fiber s = (Inr (), s\<lparr>sb_pending := set_remove_all reqs (sb_pending s),
    sb_flights := sb_flights s @ [(fiber, reqs)]\<rparr>)"
proof -
  have "take (nat (sb_ideal s)) reqs = reqs" using assms(2) by simp
  with assms get_worker_index_ok [OF assms(4,5)] show ?thesis by (auto simp: sd_board_def)
qed

text \<open>One batch: a fiber is taken from the idle ones and, unless it belongs to its executor, given back.\<close>

definition boarded ::
  "nat list \<Rightarrow> sd_fiber \<Rightarrow> ('f, 'e, 'd, 'i, 'm, 'p) sd_batcher \<Rightarrow> ('f, 'e, 'd, 'i, 'm, 'p) sd_batcher" where
  "boarded reqs fiber s =
     (let s2 = (set_idle (remove1 fiber) s)\<lparr>sb_pending := set_remove_all reqs (sb_pending s),
            sb_flights := sb_flights s @ [(fiber, reqs)]\<rparr>
      in if sv_isolation (sb_service s) \<noteq> PerFiber then set_idle (set_add fiber) s2 else s2)"

lemma boarded_simps [simp]:
  "sb_flights (boarded reqs fiber s) = sb_flights s @ [(fiber, reqs)]"
  "sb_pending (boarded reqs fiber s) = set_remove_all reqs (sb_pending s)"
  "sb_requests (boarded reqs fiber s) = sb_requests s" "sb_next (boarded reqs fiber s) = sb_next s"
  "sb_ideal (boarded reqs fiber s) = sb_ideal s"
  "sv_fibers (sb_service (boarded reqs fiber s)) = sv_fibers (sb_service s)"
  "sv_isolation (sb_service (boarded reqs fiber s)) = sv_isolation (sb_service s)"
  "sv_fibers_per_worker (sb_service (boarded reqs fiber s)) = sv_fibers_per_worker (sb_service s)"
  "idle (boarded reqs fiber s) = (if sv_isolation (sb_service s) \<noteq> PerFiber
     then set_add fiber (remove1 fiber (idle s)) else remove1 fiber (idle s))"
  "same_setup s (boarded reqs fiber s)"
  by (auto simp: boarded_def Let_def set_idle_def idle_def same_setup_def)

lemma boarded_inv:
  assumes inv: "sd_inv s" and fiber: "fiber \<in> set (idle s)" and sub: "set reqs \<subseteq> set (sb_pending s)"
    and "distinct reqs" and "flight_ok s reqs"
  shows "sd_inv (boarded reqs fiber s)"
    and "sv_isolation (sb_service s) = PerFiber \<Longrightarrow> working_fibers (boarded reqs fiber s) = working_fibers s"
proof -
  from inv have "requests_ok s" by (simp add: sd_inv_def)
  then have req: "requests_ok (boarded reqs fiber s)"
    using sub assms(4) by (auto simp: requests_ok_def in_flight_def set_remove_all_def)
  have fib: "fibers_ok (boarded reqs fiber s)"
  proof (cases "sv_isolation (sb_service s) = PerFiber")
    case True
    then show ?thesis using inv fiber by (simp add: sd_inv_def fibers_ok_def Let_def)
  next
    case False
    with inv have m: "mset (idle s) = mset (sv_fibers (sb_service s))" "distinct (sv_fibers (sb_service s))"
      by (auto simp: sd_inv_def fibers_ok_def Let_def)
    then have d: "distinct (idle s)" and st: "set (idle s) = set (sv_fibers (sb_service s))"
      by (metis mset_eq_imp_distinct_iff, metis mset_eq_setD)
    then have "mset (set_add fiber (remove1 fiber (idle s))) = mset (sv_fibers (sb_service s))"
      using m fiber by (simp add: set_add_def flip: m(1))
    with False inv fiber st show ?thesis by (auto simp: sd_inv_def fibers_ok_def Let_def)
  qed
  from inv req fib assms(5) show "sd_inv (boarded reqs fiber s)"
    by (auto simp: sd_inv_def flight_ok_def)
  show "working_fibers (boarded reqs fiber s) = working_fibers s" if "sv_isolation (sb_service s) = PerFiber"
    using that fiber by (auto simp: working_fibers_def length_remove1 dest: length_pos_if_in_set)
qed

lemma board_batches_run:
  assumes "sd_inv s" and pick: "picks pick" and "distinct (concat (map (fst \<circ> snd) bs))"
    and "set (concat (map (fst \<circ> snd) bs)) \<subseteq> set (sb_pending s)" and "\<forall>b \<in> set bs. flight_ok s (fst (snd b))"
  shows "\<exists>s'. board_batches pick bs s = (Inr (), s') \<and> sd_inv s' \<and> same_setup s s' \<and>
    sb_requests s' = sb_requests s \<and> sb_next s' = sb_next s \<and>
    (sv_isolation (sb_service s) = PerFiber \<longrightarrow> working_fibers s' = working_fibers s)"
  using assms(1,3,4,5)
proof (induction bs arbitrary: s)
  case (Cons b bs)
  obtain k reqs meta where b: "b = (k, reqs, meta)" by (cases b) auto
  show ?case
  proof (cases "idle s = []")
    case False
    let ?f = "pick (idle s)"
    have f: "?f \<in> set (idle s)" using pick False by (simp add: picks_def)
    have inv: "fibers_ok s" using Cons.prems(1) by (simp add: sd_inv_def)
    then have ff: "?f \<in> set (sv_fibers (sb_service s))"
      using fibers_known f by fastforce
    have fpw: "0 < sv_fibers_per_worker (sb_service s)" using inv by (simp add: fibers_ok_def Let_def)
    have fl: "flight_ok s reqs" and sub: "set reqs \<subseteq> set (sb_pending s)" and d: "distinct reqs"
      using Cons.prems by (auto simp: b)
    let ?s1 = "set_idle (remove1 ?f) s"
    let ?s' = "boarded reqs ?f s"
    have "sd_board reqs ?f ?s1 = (Inr (), ?s1\<lparr>sb_pending := set_remove_all reqs (sb_pending s),
        sb_flights := sb_flights s @ [(?f, reqs)]\<rparr>)"
      using fl sub ff fpw by (subst sd_board_run) (auto simp: flight_ok_def)
    then have step: "board_batches pick (b # bs) s = board_batches pick bs ?s'"
      using False get_worker_index_ok [OF ff fpw] by (auto simp: b boarded_def Let_def)
    have "sd_inv ?s'" by (rule boarded_inv) (use Cons.prems f fl sub d in auto)
    moreover have "set (concat (map (fst \<circ> snd) bs)) \<subseteq> set (sb_pending ?s')"
      using Cons.prems(2,3) by (auto simp: b set_remove_all_def)
    moreover have "\<forall>b \<in> set bs. flight_ok ?s' (fst (snd b))"
      using Cons.prems(4) by (auto simp: flight_ok_def)
    ultimately obtain s' where s': "board_batches pick bs ?s' = (Inr (), s')" "sd_inv s'" "same_setup ?s' s'"
      "sb_requests s' = sb_requests s" "sb_next s' = sb_next s"
      "sv_isolation (sb_service s) = PerFiber \<longrightarrow> working_fibers s' = working_fibers ?s'"
      using Cons.IH [of ?s'] Cons.prems(2) by auto
    moreover have "same_setup s s'" using s'(3) same_setup_trans boarded_simps(10) by blast
    moreover have "sv_isolation (sb_service s) = PerFiber \<longrightarrow> working_fibers s' = working_fibers s"
      using s'(6) boarded_inv(2) [OF Cons.prems(1) f sub d fl] by simp
    ultimately show ?thesis unfolding step by auto
  qed (use Cons.prems in \<open>auto simp: b\<close>)
qed auto

lemma sd_board_flights_run:
  assumes inv: "sd_inv s" and pick: "picks pick" and so: "iteration_order sched"
  shows "\<exists>s'. sd_board_flights pick sched s = (Inr (), s') \<and> sd_inv s' \<and> same_setup s s' \<and>
    sb_requests s' = sb_requests s \<and> sb_next s' = sb_next s \<and>
    (sv_isolation (sb_service s) = PerFiber \<longrightarrow> working_fibers s' = working_fibers s)"
proof (cases "sb_pending s = [] \<or> int (length (sb_pending s)) < sb_ideal s \<and> sb_strobes s < 2")
  case True
  with inv show ?thesis by (auto simp: sd_board_flights_def Let_def)
next
  case False
  let ?bs = "sort_batches (sb_ideal s) (sb_requests s) (sched (sb_pending s))" and ?s0 = "s\<lparr>sb_strobes := 0\<rparr>"
  have pos: "0 < sb_ideal s" using inv by (simp add: sd_inv_def)
  have m: "mset (concat (map (fst \<circ> snd) ?bs)) = mset (sb_pending s)"
    unfolding sort_batches_all [OF pos] using so by (simp add: iteration_order_def)
  have "set (concat (map (fst \<circ> snd) ?bs)) = set (sb_pending s)"
    by (rule mset_eq_setD [OF m])
  moreover have "distinct (concat (map (fst \<circ> snd) ?bs))"
    using inv mset_eq_imp_distinct_iff [OF m] by (simp only: sd_inv_def requests_ok_def distinct_append)
  moreover have "flight_ok ?s0 is" if "(k, is, m) \<in> set ?bs" for k "is" m
    using batch_shape [OF pos that] by (auto simp: flight_ok_def)
  then have "\<forall>b \<in> set ?bs. flight_ok ?s0 (fst (snd b))" by auto
  moreover have "sd_inv ?s0" using inv by simp
  moreover have "sd_board_flights pick sched s = board_batches pick ?bs ?s0"
    using False by (auto simp: sd_board_flights_def Let_def)
  ultimately show ?thesis
    using board_batches_run [of ?s0 pick ?bs] pick by simp
qed

lemma sd_receive_frame:
  "sb_requests (sd_receive item s) = sb_requests s" "sb_next (sd_receive item s) = sb_next s"
  "sb_service (sd_receive item s) = sb_service s" "working_fibers (sd_receive item s) = working_fibers s"
  "sb_ideal (sd_receive item s) = sb_ideal s"
  by (auto simp: sd_receive_def working_fibers_def idle_def split: sd_item.split)

lemma distinct_mset_sub: "mset xs \<subseteq># mset ys \<Longrightarrow> distinct ys \<Longrightarrow> distinct xs"
  by (metis add_diff_cancel_left' distinct_append ex_mset mset_append mset_eq_imp_distinct_iff subset_mset.le_iff_add)

lemma sd_batcher_step_run:
  assumes "sd_inv (sd_receive item s)" and "picks pick" and "iteration_order sched"
  shows "\<exists>s'. sd_batcher_step pick sched item s = (Inr (), s') \<and> sd_inv s' \<and> same_setup s s' \<and>
    sb_requests s' = sb_requests s \<and> sb_next s' = sb_next s \<and>
    (sv_isolation (sb_service s) = PerFiber \<longrightarrow> working_fibers s' = working_fibers s)"
proof -
  let ?s0 = "sd_receive item (s\<lparr>sb_strobe_enabled := False\<rparr>)"
  have "?s0 = (sd_receive item s)\<lparr>sb_strobe_enabled := False\<rparr>" by (cases item) (simp_all add: sd_receive_def)
  then have "sd_inv ?s0" using assms(1) by simp
  moreover note sd_receive_frame [of item "s\<lparr>sb_strobe_enabled := False\<rparr>"]
  moreover from \<open>sd_inv ?s0\<close> obtain s1 where "sd_board_flights pick sched ?s0 = (Inr (), s1)" "sd_inv s1"
    "same_setup ?s0 s1" "sb_requests s1 = sb_requests ?s0" "sb_next s1 = sb_next ?s0"
    "sv_isolation (sb_service ?s0) = PerFiber \<longrightarrow> working_fibers s1 = working_fibers ?s0"
    using sd_board_flights_run [of ?s0 pick sched] assms(2,3) by blast
  ultimately show ?thesis
    by (intro exI [of _ "s1\<lparr>sb_strobe_enabled := True\<rparr>"])
      (simp add: sd_batcher_step_def same_setup_def)
qed

lemma fibers_distinct:
  assumes "fibers_ok s" and "sv_isolation (sb_service s) = PerFiber"
  shows "distinct (idle s @ map fst (sb_flights s))"
proof -
  from assms have "mset (idle s @ map fst (sb_flights s)) \<subseteq># mset (sv_fibers (sb_service s))"
    and "distinct (sv_fibers (sb_service s))" by (simp_all add: fibers_ok_def Let_def)
  then show ?thesis by (rule distinct_mset_sub)
qed

subsection \<open>The end of an executor\<close>

text \<open>Whether the executor number \<open>k\<close> comes to its end when it runs now.\<close>

definition completes :: "nat \<Rightarrow> ('f, 'e, 'd, 'i, 'px, 'x, 'm, 'p) sd_env \<Rightarrow> nat \<Rightarrow> ('f, 'e, 'd, 'i, 'm, 'p) sd_batcher \<Rightarrow> bool" where
  "completes depth env k s =
     (let (fiber, is) = sb_flights s ! k in
      case get_worker_index (sb_service s) fiber of
        Inl _ \<Rightarrow> False
      | Inr w \<Rightarrow> fst (sd_executor_run depth env (sb_service s) w is (sb_requests s)))"

lemma executor_ends_run:
  assumes inv: "sd_inv s" and k: "k < length (sb_flights s)" and s': "s' = executor_ends depth env k s"
  shows "sd_inv s'" and "same_setup s s'" and "sb_next s' = sb_next s" and "sb_pending s' = sb_pending s"
    and "\<And>i. i \<in> set (snd (sb_flights s ! k)) \<Longrightarrow> sr_done (sb_requests s' i)"
    and "\<And>i. i \<notin> set (snd (sb_flights s ! k)) \<Longrightarrow> sb_requests s' i = sb_requests s i"
    and "sv_isolation (sb_service s) = PerFiber \<Longrightarrow>
      working_fibers s = working_fibers s' + (if completes depth env k s then 0 else 1)"
proof -
  obtain fiber "is" where fl: "sb_flights s ! k = (fiber, is)" by fastforce
  define pre post where "pre = take k (sb_flights s)" and "post = drop (Suc k) (sb_flights s)"
  have flights: "sb_flights s = pre @ (fiber, is) # post"
    using id_take_nth_drop [OF k] fl by (simp add: pre_def post_def)
  have fib: "fibers_ok s" using inv by (simp add: sd_inv_def)
  have ff: "fiber \<in> set (sv_fibers (sb_service s))" using fibers_known [OF fib] by (simp add: flights)
  then obtain w where w: "get_worker_index (sb_service s) fiber = Inr w"
    using fib get_worker_index_ok by (auto simp: fibers_ok_def Let_def)
  obtain completed reqs where run: "sd_executor_run depth env (sb_service s) w is (sb_requests s) = (completed, reqs)"
    by fastforce
  note rq = sd_executor_run_requests [OF run]
  let ?give = "completed \<and> sv_isolation (sb_service s) = PerFiber"
  let ?s2 = "s\<lparr>sb_flights := pre @ post, sb_requests := reqs\<rparr>"
  have s'_eq: "s' = (if ?give then set_idle (set_add fiber) ?s2 else ?s2)"
    by (simp add: s' executor_ends_def fl w run pre_def post_def Let_def)
  have comp: "completes depth env k s = completed" by (simp add: completes_def fl w run)
  have fields: "sb_flights s' = pre @ post" "sb_requests s' = reqs" "sb_pending s' = sb_pending s"
    "sb_next s' = sb_next s" "sb_ideal s' = sb_ideal s" "sv_isolation (sb_service s') = sv_isolation (sb_service s)"
    "sv_fibers (sb_service s') = sv_fibers (sb_service s)"
    "sv_fibers_per_worker (sb_service s') = sv_fibers_per_worker (sb_service s)"
    "idle s' = (if ?give then set_add fiber (idle s) else idle s)"
    by (simp_all add: s'_eq) (simp_all add: idle_def)
  from inv have "requests_ok s" by (simp add: sd_inv_def)
  then have "requests_ok s'"
    using rq(3) by (auto simp: requests_ok_def in_flight_def flights fields)
  moreover have "\<forall>fl \<in> set (sb_flights s'). flight_ok s' (snd fl)"
    using inv rq(2) by (auto simp: sd_inv_def flight_ok_def flights fields req_metas_def)
  moreover have give: "fiber \<notin> set (idle s)" if "sv_isolation (sb_service s) = PerFiber"
    using fibers_distinct [OF fib that] by (auto simp: flights)
  moreover have "fibers_ok s'"
  proof (cases "sv_isolation (sb_service s) = PerFiber")
    case True
    with fib give show ?thesis
      by (auto simp: fibers_ok_def Let_def fields flights set_add_def ac_simps intro: subset_mset.order_trans [rotated])
  next
    case False
    with fib show ?thesis by (simp add: fibers_ok_def Let_def fields flights image_Un)
  qed
  ultimately show "sd_inv s'" using inv by (simp add: sd_inv_def fields)
  show "same_setup s s'" by (auto simp: s'_eq same_setup_def set_idle_def intro: exI [of _ "idle s"] simp: idle_def)
  show "sb_next s' = sb_next s" "sb_pending s' = sb_pending s" by (simp_all add: fields)
  show "sr_done (sb_requests s' i)" if "i \<in> set (snd (sb_flights s ! k))" for i
    using that rq(3) by (simp add: fl fields)
  show "sb_requests s' i = sb_requests s i" if "i \<notin> set (snd (sb_flights s ! k))" for i
    using that rq(1) by (simp add: fl fields)
  show "working_fibers s = working_fibers s' + (if completes depth env k s then 0 else 1)"
    if "sv_isolation (sb_service s) = PerFiber"
    using that give by (simp add: working_fibers_def fields flights comp set_add_def)
qed

end
