(* ===== verification/Sd_Start_Properties.thy ===== *)
theory Sd_Start_Properties
  imports Sd_Service
begin

section \<open>Fibers and the programs they use\<close>

text \<open>The fibers of a started service and the programs and entry points their index selects.\<close>

subsection \<open>The fibers of a new service\<close>

lemma device_fibers_length: "length (device_fibers ws n d) = n"
  by (simp add: device_fibers_def split: prod.split)

lemma service_init_Inr:
  assumes "sd_service_init params tok devices fpd wpd isol = Inr sv"
  shows "0 < fpd" and "0 < wpd" and "devices \<noteq> []" and "fpd = wpd * int (sv_fibers_per_worker sv)"
    and "0 < sv_fibers_per_worker sv" and "length (sv_workers sv) = length devices * nat wpd"
    and "sv_fibers sv = concat (map (device_fibers (sv_workers sv) (nat fpd)) (enumerate 0 devices))"
    and "sv_idle_fibers sv = sv_fibers sv" and "sv_model_params sv = params" and "sv_programs sv = (\<lambda>_. [])"
    and "map_of prog_isolations isol = Some (sv_isolation sv)"
    and "\<exists>ideal. ideal_batch_size params = Inr ideal" and "sv_workers sv = [0..<length devices * nat wpd]"
proof -
  from assms have "devices \<noteq> []" and "0 < nat fpd" and "0 < wpd"
    by (auto simp: sd_service_init_def Let_def res_bind_Inr device_fibers_def
        split: option.splits if_splits)
  moreover from assms have m: "fpd mod wpd = 0" "sv_fibers_per_worker sv = nat (fpd div wpd)"
    by (auto simp: sd_service_init_def Let_def res_bind_Inr split: option.splits if_splits)
  moreover from m(1) have e: "fpd = wpd * (fpd div wpd)" by auto
  ultimately show "0 < fpd" "0 < wpd" "devices \<noteq> []" "fpd = wpd * int (sv_fibers_per_worker sv)"
    "0 < sv_fibers_per_worker sv"
    by (auto simp: zero_less_mult_iff pos_imp_zdiv_pos_iff dest: zdvd_imp_le)
qed (use assms in \<open>auto simp: sd_service_init_def Let_def res_bind_Inr split: option.splits if_splits\<close>)

lemma service_fibers:
  assumes "sd_service_init params tok devices fpd wpd isol = Inr sv"
  shows "length (sv_fibers sv) = length (sv_workers sv) * sv_fibers_per_worker sv"
    and "k < length (sv_fibers sv) \<Longrightarrow> sf_id (sv_fibers sv ! k) = k"
    and "k < length (sv_fibers sv) \<Longrightarrow> sf_device (sv_fibers sv ! k) = devices ! (k div nat fpd)"
    and "distinct (sv_fibers sv)"
proof -
  note sv = service_init_Inr [OF assms]
  have fpd: "nat fpd = nat wpd * sv_fibers_per_worker sv"
    using sv(2,4) by (simp add: nat_mult_distrib)
  have len: "length (sv_fibers sv) = length devices * nat fpd"
    unfolding sv(7) by (subst length_concat_uniform [where n = "nat fpd"]) (auto simp: device_fibers_length)
  show "length (sv_fibers sv) = length (sv_workers sv) * sv_fibers_per_worker sv"
    unfolding len sv(6) fpd by simp
  have at: "sv_fibers sv ! k = device_fibers (sv_workers sv) (nat fpd) (k div nat fpd, devices ! (k div nat fpd)) ! (k mod nat fpd)"
    if "k < length (sv_fibers sv)" for k
  proof -
    have "k div nat fpd < length devices" using that len by (simp add: less_mult_imp_div_less)
    with that show ?thesis
      by (subst sv(7), subst nth_concat_uniform [where n = "nat fpd"])
        (simp_all add: device_fibers_length nth_enumerate_eq len)
  qed
  have ids: "sf_id (sv_fibers sv ! k) = k" "sf_device (sv_fibers sv ! k) = devices ! (k div nat fpd)"
    if "k < length (sv_fibers sv)" for k
    using at [OF that] sv(1) by (simp_all add: device_fibers_def)
  show "k < length (sv_fibers sv) \<Longrightarrow> sf_id (sv_fibers sv ! k) = k"
    and "k < length (sv_fibers sv) \<Longrightarrow> sf_device (sv_fibers sv ! k) = devices ! (k div nat fpd)"
    by (simp_all add: ids)
  show "distinct (sv_fibers sv)" unfolding distinct_conv_nth using ids(1) by metis
qed

text \<open>What loading modules and parameters, and starting, leave alone.\<close>

definition same_fibers :: "('m, 'p) sd_service \<Rightarrow> ('m, 'p) sd_service \<Rightarrow> bool" where
  "same_fibers s s' \<longleftrightarrow> sv_model_params s' = sv_model_params s \<and> sv_isolation s' = sv_isolation s \<and>
     sv_fibers_per_worker s' = sv_fibers_per_worker s \<and> sv_workers s' = sv_workers s \<and>
     sv_fibers s' = sv_fibers s \<and> sv_idle_fibers s' = sv_idle_fibers s \<and> sv_tokenizers s' = sv_tokenizers s"

lemma same_fibers_refl [simp]: "same_fibers s s"
  and same_fibers_trans: "same_fibers s s1 \<Longrightarrow> same_fibers s1 s2 \<Longrightarrow> same_fibers s s2"
  by (simp_all add: same_fibers_def)

definition same_programs :: "('m, 'p) sd_service \<Rightarrow> ('m, 'p) sd_service \<Rightarrow> bool" where
  "same_programs s s' \<longleftrightarrow> same_fibers s s' \<and> sv_programs s' = sv_programs s"

lemma fold_same_programs:
  "(\<And>x s. same_programs s (f x s)) \<Longrightarrow> same_programs s (fold f xs s)"
proof (induction xs arbitrary: s)
  case (Cons x xs)
  then have "same_programs s (f x s)" "same_programs (f x s) (fold f xs (f x s))" by blast+
  then show ?case by (auto simp: same_programs_def intro: same_fibers_trans)
qed (simp add: same_programs_def)

lemma configured:
  assumes "sd_configure params tok devices fpd wpd isol vmfbs datasets = Inr s"
  obtains sv where "sd_service_init params tok devices fpd wpd isol = Inr sv" and "same_programs sv s"
proof -
  let ?ld = "\<lambda>(component, p). load_inference_parameters p component"
  let ?lm = "\<lambda>(component, ms). fold (\<lambda>m. load_inference_module m component) ms"
  from assms obtain sv where sv: "sd_service_init params tok devices fpd wpd isol = Inr sv"
    and s: "s = fold ?ld datasets (fold ?lm vmfbs sv)" by (auto simp: sd_configure_def res_bind_Inr)
  have "same_programs s' (load_inference_module m c s')" "same_programs s' (load_inference_parameters p c s')"
    for m c p and s' :: "('a, 'b) sd_service"
    by (simp_all add: load_inference_module_def load_inference_parameters_def same_programs_def same_fibers_def)
  then have "same_programs s' (?lm y s')" "same_programs s' (?ld x s')" for x y and s' :: "('a, 'b) sd_service"
    by (auto intro!: fold_same_programs split: prod.split)
  then have "same_programs sv (fold ?lm vmfbs sv)" "same_programs (fold ?lm vmfbs sv) s"
    unfolding s by (intro fold_same_programs, simp)+
  then have "same_programs sv s" by (auto simp: same_programs_def intro: same_fibers_trans)
  with sv that show ?thesis by blast
qed

subsection \<open>Starting\<close>

text \<open>Every program of a worker index is on the device of the first fiber with that index.\<close>

definition programs_placed :: "('m, 'p) sd_service \<Rightarrow> bool" where
  "programs_placed s \<longleftrightarrow> (\<forall>w component p. map_of (sv_programs s w) component = Some p \<longrightarrow>
     w * sv_fibers_per_worker s < length (sv_fibers s) \<and>
     pg_device p = sf_device (sv_fibers s ! (w * sv_fibers_per_worker s)))"

lemma load_workers_placed:
  "load_workers mods component ws s = Inr s' \<Longrightarrow> programs_placed s \<Longrightarrow> programs_placed s' \<and> same_fibers s s'"
proof (induction ws arbitrary: s)
  case (Cons w ws)
  let ?p = "\<lparr>pg_modules = mods, pg_device = sf_device (sv_fibers s ! (w * sv_fibers_per_worker s)),
     pg_isolation = sv_isolation s\<rparr>"
  let ?s1 = "s\<lparr>sv_programs := (sv_programs s)(w := AList.update component ?p (sv_programs s w))\<rparr>"
  from Cons.prems have "w * sv_fibers_per_worker s < length (sv_fibers s)" and run: "load_workers mods component ws ?s1 = Inr s'"
    by (auto simp: res_bind_Inr list_get_Inr Let_def)
  with Cons.prems(2) have "programs_placed ?s1"
    by (auto simp: programs_placed_def update_conv' split: if_splits)
  moreover have "same_fibers s ?s1" by (simp add: same_fibers_def)
  ultimately show ?case using Cons.IH [OF run] same_fibers_trans by blast
qed simp

lemma load_programs_placed:
  "load_programs cs s = Inr s' \<Longrightarrow> programs_placed s \<Longrightarrow> programs_placed s' \<and> same_fibers s s'"
proof (induction cs arbitrary: s)
  case (Cons c cs)
  then show ?case
    by (cases c) (auto simp: res_bind_Inr dest!: load_workers_placed intro: same_fibers_trans)
qed simp

lemma program_fn_Inr:
  "program_fn exports ps component m f = Inr fn \<Longrightarrow> map_of ps component = Some (fst fn)"
  by (auto simp: program_fn_def Let_def split: option.splits if_splits)

lemma add_entries_Inr:
  "add_entries fn sizes entries = Inr es \<Longrightarrow> (\<And>e. e \<in> snd ` set entries \<Longrightarrow> fn = Inr e) \<Longrightarrow>
   fst ` set es = fst ` set entries \<union> set sizes \<and> (\<forall>e \<in> snd ` set es. fn = Inr e)"
proof (induction sizes arbitrary: entries)
  case (Cons bs sizes)
  then obtain f where f: "fn = Inr f" and run: "add_entries fn sizes (AList.update bs f entries) = Inr es"
    by (auto simp: res_bind_Inr)
  have sub: "snd ` set (AList.update bs f entries) \<subseteq> insert f (snd ` set entries)"
    by (induction entries) auto
  have "fst ` set es = fst ` set (AList.update bs f entries) \<union> set sizes \<and> (\<forall>e \<in> snd ` set es. fn = Inr e)"
    by (rule Cons.IH [OF run]) (use sub f Cons.prems(2) in blast)
  then show ?case by (simp add: dom_update)
qed auto

lemma load_functions_placed:
  assumes "load_functions exports p programs = Inr fs"
    and dev: "\<forall>component prog. map_of programs component = Some prog \<longrightarrow> pg_device prog = d"
  shows "fst ` set (wf_encode fs) = set (pm_clip_batch_sizes p)"
    and "fst ` set (wf_denoise fs) = set (pm_unet_batch_sizes p)"
    and "fst ` set (wf_decode fs) = set (pm_vae_batch_sizes p)"
    and "\<And>fn. fn \<in> snd ` set (wf_encode fs) \<union> snd ` set (wf_decode fs) \<Longrightarrow> pg_device (fst fn) = d"
    and "\<And>fns fn. fns \<in> snd ` set (wf_denoise fs) \<Longrightarrow> fn \<in> {df_unet fns, df_init fns, df_scale fns, df_step fns} \<Longrightarrow>
      pg_device (fst fn) = d"
proof -
  let ?enc = "program_fn exports programs ''clip'' (pm_clip_module_name p) ''encode_prompts''"
  let ?dec = "program_fn exports programs ''vae'' (pm_vae_module_name p) ''decode''"
  from assms(1) have fs: "add_entries ?enc (pm_clip_batch_sizes p) [] = Inr (wf_encode fs)"
    "add_entries (denoise_fns exports p programs) (pm_unet_batch_sizes p) [] = Inr (wf_denoise fs)"
    "add_entries ?dec (pm_vae_batch_sizes p) [] = Inr (wf_decode fs)"
    by (auto simp: load_functions_def res_bind_Inr)
  note e = add_entries_Inr [OF fs(1)] add_entries_Inr [OF fs(2)] add_entries_Inr [OF fs(3)]
  show "fst ` set (wf_encode fs) = set (pm_clip_batch_sizes p)"
    "fst ` set (wf_denoise fs) = set (pm_unet_batch_sizes p)"
    "fst ` set (wf_decode fs) = set (pm_vae_batch_sizes p)" using e by auto
  show "pg_device (fst fn) = d" if "fn \<in> snd ` set (wf_encode fs) \<union> snd ` set (wf_decode fs)" for fn
  proof -
    from that e have "?enc = Inr fn \<or> ?dec = Inr fn" by auto
    then show ?thesis using dev program_fn_Inr by blast
  qed
  show "pg_device (fst fn) = d" if "fns \<in> snd ` set (wf_denoise fs)"
    "fn \<in> {df_unet fns, df_init fns, df_scale fns, df_step fns}" for fns fn
  proof -
    from that(1) e(2) have "denoise_fns exports p programs = Inr fns" by auto
    with that(2) show ?thesis by (auto simp: denoise_fns_def res_bind_Inr dest!: program_fn_Inr intro: dev [rule_format])
  qed
qed

lemma load_all_functions_at:
  "load_all_functions exports ws s = Inr s' \<Longrightarrow>
   same_programs s s' \<and> (\<forall>w \<in> set ws. load_functions exports (sv_model_params s) (sv_programs s w) = Inr (sv_functions s' w)) \<and>
   (\<forall>w. w \<notin> set ws \<longrightarrow> sv_functions s' w = sv_functions s w)"
proof (induction ws arbitrary: s)
  case (Cons w ws)
  then obtain fs where fs: "load_functions exports (sv_model_params s) (sv_programs s w) = Inr fs"
    and run: "load_all_functions exports ws (s\<lparr>sv_functions := (sv_functions s)(w := fs)\<rparr>) = Inr s'"
    by (auto simp: res_bind_Inr)
  from Cons.IH [OF run] fs show ?case
    by (cases "w \<in> set ws") (auto simp: same_programs_def same_fibers_def)
qed (simp add: same_programs_def)

text \<open>
  C24: the program an executor uses is on its fiber's device: once the service is configured and
  started, \<open>get_worker_index\<close> gives for every fiber the index of an existing worker, all programs
  loaded under that index, and so all functions of its entry points, are on the device the fiber was
  created for, and there are entry points for exactly the compiled batch sizes of each stage. (The
  index need not be the worker that the fiber runs on.)
\<close>

theorem programs_on_fiber_device:
  assumes "sd_configure params tok devices fpd wpd isol vmfbs datasets = Inr s0" and "sd_start exports s0 = Inr s"
    and "fiber \<in> set (sv_fibers s)"
  shows "\<exists>w. get_worker_index s fiber = Inr w \<and> w < length (sv_workers s) \<and>
    (\<forall>component p. map_of (sv_programs s w) component = Some p \<longrightarrow> pg_device p = sf_device fiber) \<and>
    (let fs = sv_functions s w in
      fst ` set (wf_encode fs) = set (pm_clip_batch_sizes params) \<and>
      fst ` set (wf_denoise fs) = set (pm_unet_batch_sizes params) \<and>
      fst ` set (wf_decode fs) = set (pm_vae_batch_sizes params) \<and>
      (\<forall>fn \<in> snd ` set (wf_encode fs) \<union> snd ` set (wf_decode fs). pg_device (fst fn) = sf_device fiber) \<and>
      (\<forall>fns \<in> snd ` set (wf_denoise fs). \<forall>fn \<in> {df_unet fns, df_init fns, df_scale fns, df_step fns}.
         pg_device (fst fn) = sf_device fiber))"
proof -
  from configured [OF assms(1)] obtain sv where sv: "sd_service_init params tok devices fpd wpd isol = Inr sv"
    and s0: "same_programs sv s0" .
  note i = service_init_Inr [OF sv] service_fibers [OF sv]
  have "programs_placed s0" using s0 i(10) by (simp add: same_programs_def programs_placed_def)
  moreover obtain s1 where s1: "load_programs (sv_modules s0) s0 = Inr s1"
    and run: "load_all_functions exports [0..<length (sv_workers s1)] s1 = Inr s"
    using assms(2) by (auto simp: sd_start_def res_bind_Inr)
  ultimately have placed: "programs_placed s1" and s01: "same_fibers s0 s1" using load_programs_placed by blast+
  note fn = load_all_functions_at [OF run]
  have svs: "same_fibers sv s" using s0 s01 fn same_fibers_trans unfolding same_programs_def by blast
  let ?n = "sv_fibers_per_worker sv"
  from assms(3) obtain k where k: "k < length (sv_fibers s)" "list_index (sv_fibers s) fiber = Inr k" "sv_fibers s ! k = fiber"
    using list_index_total [OF assms(3)] list_index_Inr by metis
  define w where "w = k div ?n"
  have w: "get_worker_index s fiber = Inr w"
    using k svs i(5) by (simp add: get_worker_index_def same_fibers_def w_def minus_mod_eq_mult_div)
  have wl: "w < length (sv_workers s)" using k(1) svs i(14) by (simp add: same_fibers_def w_def less_mult_imp_div_less)
  have "nat fpd = nat wpd * ?n" using i(2,4) by (simp add: nat_mult_distrib)
  then have "k div nat fpd = (w * ?n) div nat fpd"
    using i(5) by (simp add: w_def div_mult2_eq mult.commute [of "nat wpd"])
  moreover have "w * ?n < length (sv_fibers sv)"
    using wl svs i(5,14) by (simp add: same_fibers_def)
  ultimately have dev: "sf_device (sv_fibers sv ! (w * ?n)) = sf_device fiber"
    using k svs i(16) by (auto simp: same_fibers_def)
  have prog: "\<forall>component p. map_of (sv_programs s w) component = Some p \<longrightarrow> pg_device p = sf_device fiber"
    using placed fn dev svs s01 s0 by (auto simp: programs_placed_def same_programs_def same_fibers_def)
  have "load_functions exports params (sv_programs s w) = Inr (sv_functions s w)"
    using fn wl svs i(9) s01 s0 by (simp add: same_programs_def same_fibers_def)
  note lf = load_functions_placed [OF this prog]
  show ?thesis
    unfolding Let_def by (intro exI [of _ w] conjI ballI w wl prog lf)
qed

subsection \<open>An example\<close>

definition demo_params :: sd_model_params where
  "demo_params = \<lparr>pm_max_seq_len = 64, pm_num_latents_channels = 4, pm_clip_batch_sizes = [1, 2],
     pm_unet_batch_sizes = [1, 2], pm_vae_batch_sizes = [1], pm_scheduler_batch_sizes = [1],
     pm_clip_module_name = ''compiled_clip'', pm_unet_module_name = ''compiled_unet'',
     pm_vae_module_name = ''compiled_vae'', pm_scheduler_module_name = ''compiled_scheduler'',
     pm_unet_fn_name = ''run_forward'', pm_cfg_mode = True\<rparr>"

definition demo_modules :: "(string \<times> unit list) list" where
  "demo_modules = [(''clip'', [()]), (''unet'', [()]), (''vae'', [()]), (''scheduler'', [()])]"

definition demo_configured :: "nat list \<Rightarrow> int \<Rightarrow> int \<Rightarrow> string \<Rightarrow> (unit, unit) sd_service res" where
  "demo_configured devices fibers workers isol =
     sd_configure demo_params 2 devices fibers workers isol demo_modules [(''clip'', ()), (''unet'', ())]"

definition demo_started :: "nat list \<Rightarrow> int \<Rightarrow> int \<Rightarrow> string \<Rightarrow> (unit, unit) sd_service res" where
  "demo_started devices fibers workers isol =
     res_bind (demo_configured devices fibers workers isol) (sd_start (\<lambda>_ _. True))"

fun res_get :: "'a res \<Rightarrow> 'a option" where
  "res_get (Inr x) = Some x"
| "res_get (Inl e) = None"

text \<open>Two devices (7 and 8) with four fibers and two workers each: fiber number 5 belongs to device 8, and its
  index is 2, while it runs on worker 1; all fibers run on the first four workers in turn.\<close>

theorem programs_on_fiber_device_witness:
  "\<exists>s w. demo_started [7, 8] 4 2 ''per_fiber'' = Inr s \<and> get_worker_index s (sv_fibers s ! 5) = Inr w \<and>
     (\<forall>p. map_of (sv_programs s w) ''unet'' = Some p \<longrightarrow> pg_device p = 8) \<and> sf_worker (sv_fibers s ! 5) = 1"
proof -
  have "is_ok (demo_configured [7, 8] 4 2 ''per_fiber'')" by code_simp
  then obtain s0 where s0: "demo_configured [7, 8] 4 2 ''per_fiber'' = Inr s0" by (auto simp: is_ok_iff)
  have ok: "is_ok (demo_started [7, 8] 4 2 ''per_fiber'')" by code_simp
  then obtain s where s: "demo_started [7, 8] 4 2 ''per_fiber'' = Inr s" by (auto simp: is_ok_iff)
  have "map_option (\<lambda>s. (length (sv_fibers s), sf_device (sv_fibers s ! 5), sf_worker (sv_fibers s ! 5)))
      (res_get (demo_started [7, 8] 4 2 ''per_fiber'')) = Some (8, 8, 1)" by code_simp
  then have f: "sv_fibers s ! 5 \<in> set (sv_fibers s)" "sf_device (sv_fibers s ! 5) = 8" "sf_worker (sv_fibers s ! 5) = 1"
    by (simp_all add: s)
  have "sd_start (\<lambda>_ _. True) s0 = Inr s" using s s0 by (simp add: demo_started_def)
  from programs_on_fiber_device [OF s0 [unfolded demo_configured_def] this f(1)] s f show ?thesis by auto
qed

end
