(* ===== verification/Sd_Run_Properties.thy ===== *)
theory Sd_Run_Properties
  imports Sd_Flight_Properties Sd_Start_Properties
begin

section \<open>Runs of the image service\<close>

text \<open>Runs of the image service as interleavings of messages, strobes and ends of executors.\<close>

subsection \<open>One event\<close>

text \<open>The executors among the events that do not come to their end.\<close>

definition event_failure ::
  "nat \<Rightarrow> ('f, 'e, 'd, 'i, 'px, 'x, 'm, 'p) sd_env \<Rightarrow> ('f, 'e, 'd, 'i) sd_event \<Rightarrow>
   ('f, 'e, 'd, 'i, 'm, 'p) sd_batcher \<Rightarrow> nat" where
  "event_failure depth env ev s =
     (case ev of Ends k \<Rightarrow> if k < length (sb_flights s) \<and> \<not> completes depth env k s then 1 else 0 | _ \<Rightarrow> 0)"

fun failures ::
  "(sd_fiber list \<Rightarrow> sd_fiber) \<Rightarrow> (nat list \<Rightarrow> nat list) \<Rightarrow> nat \<Rightarrow> ('f, 'e, 'd, 'i, 'px, 'x, 'm, 'p) sd_env \<Rightarrow>
   ('f, 'e, 'd, 'i) sd_event list \<Rightarrow> ('f, 'e, 'd, 'i, 'm, 'p) sd_batcher \<Rightarrow> nat" where
  "failures pick sched depth env [] s = 0"
| "failures pick sched depth env (ev # evs) s =
     event_failure depth env ev s + failures pick sched depth env evs (snd (sd_event_step pick sched depth env ev s))"

definition new_event :: "('f, 'e, 'd, 'i) sd_event \<Rightarrow> bool" where
  "new_event ev \<longleftrightarrow> (case ev of Submitted r \<Rightarrow> \<not> sr_done r | _ \<Rightarrow> True)"

definition is_submission :: "('f, 'e, 'd, 'i) sd_event \<Rightarrow> bool" where
  "is_submission ev \<longleftrightarrow> (case ev of Submitted r \<Rightarrow> True | _ \<Rightarrow> False)"

lemma fibers_ok_cong: "sb_service s' = sb_service s \<Longrightarrow> sb_flights s' = sb_flights s \<Longrightarrow> fibers_ok s' = fibers_ok s"
  by (simp add: fibers_ok_def idle_def)

lemma submitted_inv:
  assumes "sd_inv s" and "\<not> sr_done r"
  shows "sd_inv (sd_receive (SdRequest (sb_next s))
      (s\<lparr>sb_requests := (sb_requests s)(sb_next s := r), sb_next := sb_next s + 1\<rparr>))"
proof -
  let ?s = "sd_receive (SdRequest (sb_next s)) (s\<lparr>sb_requests := (sb_requests s)(sb_next s := r), sb_next := sb_next s + 1\<rparr>)"
  from assms(1) have r: "requests_ok s" and f: "\<forall>fl \<in> set (sb_flights s). flight_ok s (snd fl)" by (simp_all add: sd_inv_def)
  then have less: "i < sb_next s" if "i \<in> set (sb_pending s @ in_flight s)" for i
    using that by (simp only: requests_ok_def) simp
  have "requests_ok ?s"
    using r less assms(2) by (auto simp: requests_ok_def sd_receive_def in_flight_def set_add_def less_Suc_eq)
  moreover have "flight_ok ?s (snd fl)" if "fl \<in> set (sb_flights s)" for fl
  proof -
    have "\<forall>i \<in> set (snd fl). sb_requests ?s i = sb_requests s i"
      using that less by (auto simp: sd_receive_def in_flight_def)
    with f that show ?thesis by (auto simp: flight_ok_def sd_receive_def)
  qed
  moreover have "fibers_ok ?s"
    using assms(1) fibers_ok_cong [of ?s s] by (simp add: sd_inv_def sd_receive_def)
  ultimately show ?thesis using assms(1) by (simp add: sd_inv_def sd_receive_def)
qed

lemma event_step_run:
  assumes inv: "sd_inv s" and pick: "picks pick" and so: "iteration_order sched" and new: "new_event ev"
  shows "\<exists>s'. sd_event_step pick sched depth env ev s = (Inr (), s') \<and> sd_inv s' \<and> same_setup s s' \<and>
    sb_next s' = sb_next s + (if is_submission ev then 1 else 0) \<and>
    (sv_isolation (sb_service s) = PerFiber \<longrightarrow>
       working_fibers s = working_fibers s' + event_failure depth env ev s) \<and>
    (sb_flights s = [] \<longrightarrow> (\<forall>i < sb_next s. sb_requests s' i = sb_requests s i))"
proof (cases ev)
  case (Submitted r)
  let ?s1 = "s\<lparr>sb_requests := (sb_requests s)(sb_next s := r), sb_next := sb_next s + 1\<rparr>"
  have "sd_inv (sd_receive (SdRequest (sb_next s)) ?s1)"
    by (rule submitted_inv) (use inv new Submitted in \<open>auto simp: new_event_def\<close>)
  from sd_batcher_step_run [OF this pick so] obtain s' where
    "sd_batcher_step pick sched (SdRequest (sb_next s)) ?s1 = (Inr (), s')" "sd_inv s'" "same_setup ?s1 s'"
    "sb_requests s' = sb_requests ?s1" "sb_next s' = sb_next ?s1"
    "sv_isolation (sb_service ?s1) = PerFiber \<longrightarrow> working_fibers s' = working_fibers ?s1" by blast
  then show ?thesis
    by (auto simp: Submitted sd_event_step_def event_failure_def is_submission_def working_fibers_def idle_def same_setup_def)
next
  case Strobed
  have "sd_inv (sd_receive SdStrobe s)" using inv by (simp add: sd_receive_def)
  from sd_batcher_step_run [OF this pick so] show ?thesis
    by (auto simp: Strobed sd_event_step_def event_failure_def is_submission_def)
next
  case Illegal
  have "sd_inv (sd_receive SdOther s)" using inv by (simp add: sd_receive_def)
  from sd_batcher_step_run [OF this pick so] show ?thesis
    by (auto simp: Illegal sd_event_step_def event_failure_def is_submission_def)
next
  case (Ends k)
  show ?thesis
  proof (cases "k < length (sb_flights s)")
    case True
    from executor_ends_run [OF inv this refl, where depth = depth and env = env] True show ?thesis
      by (auto simp: Ends sd_event_step_def event_failure_def is_submission_def)
  qed (use inv in \<open>auto simp: Ends sd_event_step_def event_failure_def is_submission_def\<close>)
qed

subsection \<open>Runs\<close>

lemma sd_run_inv:
  assumes "sd_inv s" and "picks pick" and "iteration_order sched" and "\<forall>ev \<in> set evs. new_event ev"
    and "sd_run pick sched depth env evs s = (res, s')"
  shows "res = Inr () \<and> sd_inv s' \<and> same_setup s s' \<and> sb_next s' = sb_next s + length (filter is_submission evs) \<and>
    (sv_isolation (sb_service s) = PerFiber \<longrightarrow>
       working_fibers s = working_fibers s' + failures pick sched depth env evs s)"
  using assms(1,4,5)
proof (induction evs arbitrary: s)
  case (Cons ev evs)
  from event_step_run [OF Cons.prems(1) assms(2,3), where ev = ev and depth = depth and env = env] Cons.prems(2) obtain s1 where
    s1: "sd_event_step pick sched depth env ev s = (Inr (), s1)" "sd_inv s1" "same_setup s s1"
    "sb_next s1 = sb_next s + (if is_submission ev then 1 else 0)"
    "sv_isolation (sb_service s) = PerFiber \<longrightarrow> working_fibers s = working_fibers s1 + event_failure depth env ev s"
    by auto
  moreover from s1(3) have "sv_isolation (sb_service s1) = sv_isolation (sb_service s)" by (auto simp: same_setup_def)
  moreover from Cons.prems s1(1) have "sd_run pick sched depth env evs s1 = (res, s')" "\<forall>ev \<in> set evs. new_event ev" by auto
  ultimately show ?case
    using Cons.IH [OF s1(2)] same_setup_trans [of s s1 s'] by auto
qed simp

text \<open>Without a fiber nothing boards any more.\<close>

lemma stalled_run:
  assumes "sd_inv s" and "picks pick" and "iteration_order sched" and "\<forall>ev \<in> set evs. new_event ev"
    and "sv_isolation (sb_service s) = PerFiber" and "working_fibers s = 0"
    and "sd_run pick sched depth env evs s = (res, s')"
  shows "sb_flights s' = [] \<and> set (sb_pending s) \<subseteq> set (sb_pending s')"
  using assms(1,4-)
proof (induction evs arbitrary: s)
  case Nil
  then show ?case by (simp add: working_fibers_def)
next
  case (Cons ev evs)
  have fl: "sb_flights s = []" using Cons.prems(4) by (simp add: working_fibers_def)
  from event_step_run [OF Cons.prems(1) assms(2,3), where ev = ev and depth = depth and env = env] Cons.prems(2,3) fl obtain s1 where
    s1: "sd_event_step pick sched depth env ev s = (Inr (), s1)" "sd_inv s1" "same_setup s s1"
    "sb_next s \<le> sb_next s1" "working_fibers s = working_fibers s1 + event_failure depth env ev s"
    "\<forall>i < sb_next s. sb_requests s1 i = sb_requests s i"
    by auto
  have w1: "working_fibers s1 = 0" using s1(5) Cons.prems(4) by simp
  then have fl1: "sb_flights s1 = []" by (simp add: working_fibers_def)
  have "set (sb_pending s) = {i. i < sb_next s \<and> \<not> sr_done (sb_requests s i)}"
    "set (sb_pending s1) = {i. i < sb_next s1 \<and> \<not> sr_done (sb_requests s1 i)}"
    using Cons.prems(1) s1(2) fl fl1 by (simp_all add: sd_inv_def requests_ok_def in_flight_def)
  then have "set (sb_pending s) \<subseteq> set (sb_pending s1)" using s1(4,6) by auto
  moreover have "sv_isolation (sb_service s1) = PerFiber" using s1(3) Cons.prems(3) by (auto simp: same_setup_def)
  ultimately show ?case using Cons.IH [OF s1(2)] Cons.prems s1(1) w1 by auto
qed

subsection \<open>From the start\<close>

text \<open>A service that is configured, started and given a batcher.\<close>

definition sd_launch ::
  "(('m, 'p) program \<Rightarrow> string \<Rightarrow> bool) \<Rightarrow> sd_model_params \<Rightarrow> nat \<Rightarrow> nat list \<Rightarrow> int \<Rightarrow> int \<Rightarrow> string \<Rightarrow>
   (string \<times> 'm list) list \<Rightarrow> (string \<times> 'p) list \<Rightarrow> ('f, 'e, 'd, 'i) sd_store \<Rightarrow> ('f, 'e, 'd, 'i, 'm, 'p) sd_batcher res" where
  "sd_launch exports params tok devices fpd wpd isol vmfbs datasets store =
     res_bind (sd_configure params tok devices fpd wpd isol vmfbs datasets) (\<lambda>s0.
     res_bind (sd_start exports s0) (\<lambda>sv. sd_batcher_init sv store))"

lemma launched:
  assumes "sd_launch exports params tok devices fpd wpd isol vmfbs datasets store = Inr s"
    and pos: "\<forall>sizes \<in> set (all_batch_sizes params). \<forall>bs \<in> set sizes. 0 < bs"
  shows "sd_inv s" and "sb_next s = 0" and "sb_flights s = []" and "sb_pending s = []"
    and "idle s = sv_fibers (sb_service s)" and "length (sv_fibers (sb_service s)) = length devices * nat fpd"
    and "map_of prog_isolations isol = Some (sv_isolation (sb_service s))"
proof -
  from assms(1) obtain s0 sv where s0: "sd_configure params tok devices fpd wpd isol vmfbs datasets = Inr s0"
    and st: "sd_start exports s0 = Inr sv" and b: "sd_batcher_init sv store = Inr s"
    by (auto simp: sd_launch_def res_bind_Inr)
  from configured [OF s0] obtain sv0 where sv0: "sd_service_init params tok devices fpd wpd isol = Inr sv0"
    and same: "same_programs sv0 s0" .
  note i = service_init_Inr [OF sv0] service_fibers [OF sv0]
  from st obtain s1 where "load_programs (sv_modules s0) s0 = Inr s1"
    and "load_all_functions exports [0..<length (sv_workers s1)] s1 = Inr sv" by (auto simp: sd_start_def res_bind_Inr)
  moreover have "programs_placed s0" using same i(10) by (simp add: same_programs_def programs_placed_def)
  ultimately have svs: "same_fibers sv0 sv"
    using load_programs_placed load_all_functions_at same same_fibers_trans unfolding same_programs_def by blast
  from b obtain ideal where ideal: "ideal_batch_size params = Inr ideal"
    and s: "s = \<lparr>sb_service = sv, sb_requests = store, sb_next = 0, sb_pending = [], sb_strobe_enabled = True,
         sb_strobes = 0, sb_ideal = ideal, sb_num_fibers = length (sv_fibers sv), sb_flights = []\<rparr>"
    using svs i(9) by (auto simp: sd_batcher_init_def res_bind_Inr same_fibers_def)
  have "sd_max_batch_size params \<in> set (all_batch_sizes params)"
    unfolding sd_max_batch_size_def by (rule Max_in) (simp_all add: all_batch_sizes_def)
  moreover have "ideal \<in> set (sd_max_batch_size params)"
    using ideal Max_in [of "set (sd_max_batch_size params)"] by (auto simp: ideal_batch_size_def split: if_splits)
  ultimately have "0 < ideal" using pos by blast
  then show "sd_inv s"
    using svs i(5,8,17) by (simp add: s sd_inv_def requests_ok_def in_flight_def fibers_ok_def idle_def same_fibers_def)
  show "sb_next s = 0" "sb_flights s = []" "sb_pending s = []" by (simp_all add: s)
  show "idle s = sv_fibers (sb_service s)" "map_of prog_isolations isol = Some (sv_isolation (sb_service s))"
    using svs i(8,11) by (simp_all add: s idle_def same_fibers_def)
  show "length (sv_fibers (sb_service s)) = length devices * nat fpd"
  proof -
    have "nat fpd = nat wpd * sv_fibers_per_worker sv0" using i(2,4) by (simp add: nat_mult_distrib)
    then show ?thesis using svs i(6,14) by (simp add: s same_fibers_def)
  qed
qed

subsection \<open>Examples\<close>

text \<open>An environment of dummies in which tokenizing answers \<open>tok\<close>.\<close>

definition demo_env :: "unit res \<Rightarrow> (unit, unit, unit, unit, unit, unit, unit, unit) sd_env" where
  "demo_env tok =
     \<lparr>en_tokenize = (\<lambda>_ _. tok), en_randn = (\<lambda>_ _. Inr ()), en_float16 = (\<lambda>_. Inr ()),
      en_copy = (\<lambda>n _. Inr (replicate n ())), en_copy_pixels = (\<lambda>n px. Inr (take n px)),
      en_encode = (\<lambda>_ rows. Inr (replicate (2 * length (hd rows)) (), replicate (2 * length (hd rows)) ())),
      en_init = (\<lambda>_ rows _. Inr (rows, (), (), ())), en_scale = (\<lambda>_ rows _ _ _. Inr (rows, (), (), ())),
      en_unet = (\<lambda>_ rows _ _ _ _ _. Inr rows), en_step = (\<lambda>_ rows _ _ _. Inr rows),
      en_decode = (\<lambda>_ _. Inr []), en_reshape = (\<lambda>_ _. Inr ()), en_image_text = (\<lambda>_. Inr ''png''),
      en_sync = (\<lambda>_. Inr ())\<rparr>"

definition demo_launch :: "int \<Rightarrow> (unit, unit, unit, unit, unit, unit) sd_batcher res" where
  "demo_launch fibers =
     sd_launch (\<lambda>_ _. True) demo_params 2 [7] fibers 1 ''per_fiber'' demo_modules [(''clip'', ())] demo_store"

definition demo_view ::
  "unit res \<Rightarrow> int \<Rightarrow> (unit, unit, unit, unit) sd_event list \<Rightarrow> (bool \<times> nat list list \<times> nat list \<times> nat) option" where
  "demo_view tok fibers evs = map_option (\<lambda>s0.
     (case sd_run hd id 2 (demo_env tok) evs s0 of (res, s) \<Rightarrow>
        (is_ok res, map snd (sb_flights s), sb_pending s, failures hd id 2 (demo_env tok) evs s0))) (res_get (demo_launch fibers))"

lemma demo_schedules: "picks hd" "iteration_order id"
  by (simp_all add: picks_def iteration_order_def)

lemma demo_sizes: "\<forall>sizes \<in> set (all_batch_sizes demo_params). \<forall>bs \<in> set sizes. 0 < bs"
  by (simp add: all_batch_sizes_def demo_params_def)

lemma demo_viewD:
  assumes "demo_view tok fibers evs = Some (True, fls, pend, n)"
  obtains s0 s where "demo_launch fibers = Inr s0" and "sd_run hd id 2 (demo_env tok) evs s0 = (Inr (), s)"
    and "map snd (sb_flights s) = fls" and "sb_pending s = pend" and "failures hd id 2 (demo_env tok) evs s0 = n"
  using assms by (cases "demo_launch fibers") (auto simp: demo_view_def is_ok_iff split: prod.splits)

subsection \<open>The properties\<close>

text \<open>
  C16: let the server be launched with positive batch sizes, and let set iteration and the choice of an idle
  fiber be any order and any member. However new requests, strobes and ends of executors interleave, the
  batcher never raises, and at any time every request submitted so far is either done, or pending
  once, or in exactly one flight once; a flight runs on a fiber of the service, is not empty, not
  larger than \<open>ideal_batch_size\<close>, and its requests share their metadata. If, and this part only, the
  programs are isolated per fiber (\<open>PER_FIBER\<close>), no two executors, and no executor and the idle set, have
  the same fiber; with the other isolations the code gives the fiber back at once, so flights share it.
\<close>

theorem sd_flights_safe:
  assumes "sd_launch exports params tok devices fpd wpd isol vmfbs datasets store = Inr s0"
    and "\<forall>sizes \<in> set (all_batch_sizes params). \<forall>bs \<in> set sizes. 0 < bs"
    and "picks pick" and "iteration_order sched" and "\<forall>ev \<in> set evs. new_event ev"
    and "sd_run pick sched depth env evs s0 = (res, s)"
  shows "res = Inr () \<and> sb_next s = length (filter is_submission evs) \<and>
    distinct (sb_pending s @ in_flight s) \<and>
    set (sb_pending s @ in_flight s) = {i. i < sb_next s \<and> \<not> sr_done (sb_requests s i)} \<and>
    (\<forall>(fiber, is) \<in> set (sb_flights s). fiber \<in> set (sv_fibers (sb_service s0)) \<and> is \<noteq> [] \<and>
       int (length is) \<le> sb_ideal s0 \<and> (\<forall>i \<in> set is. \<forall>j \<in> set is. req_metas (sb_requests s i) = req_metas (sb_requests s j))) \<and>
    (sv_isolation (sb_service s0) = PerFiber \<longrightarrow> distinct (idle s @ map fst (sb_flights s)))"
proof -
  note l = launched [OF assms(1,2)]
  have res: "res = Inr ()" and inv: "sd_inv s" and same: "same_setup s0 s"
    and nxt: "sb_next s = length (filter is_submission evs)"
    using sd_run_inv [OF l(1) assms(3-6)] l(2) by auto
  from inv have req: "requests_ok s" and fl: "\<forall>fl \<in> set (sb_flights s). flight_ok s (snd fl)" and fib: "fibers_ok s"
    by (simp_all add: sd_inv_def)
  have "fst ` set (sb_flights s) \<subseteq> set (sv_fibers (sb_service s0))"
    using fibers_known [OF fib] same by (auto simp: same_setup_def)
  then have "\<forall>(fiber, is) \<in> set (sb_flights s). fiber \<in> set (sv_fibers (sb_service s0)) \<and> is \<noteq> [] \<and>
       int (length is) \<le> sb_ideal s0 \<and> (\<forall>i \<in> set is. \<forall>j \<in> set is. req_metas (sb_requests s i) = req_metas (sb_requests s j))"
    using fl same by (fastforce simp: flight_ok_def same_setup_def)
  moreover have "distinct (idle s @ map fst (sb_flights s))" if "sv_isolation (sb_service s0) = PerFiber"
  proof (rule fibers_distinct [OF fib])
    show "sv_isolation (sb_service s) = PerFiber" using same that by (auto simp: same_setup_def)
  qed
  ultimately show ?thesis using res nxt req unfolding requests_ok_def by blast
qed

text \<open>Two requests that differ in their steps board on two fibers, a third one waits.\<close>

theorem sd_flights_safe_witness:
  "\<exists>s0 s. demo_launch 2 = Inr s0 \<and>
     sd_run hd id 2 (demo_env (Inr ())) [Submitted (demo_request 20), Submitted (demo_request 30), Submitted (demo_request 20)] s0
       = (Inr (), s) \<and> map snd (sb_flights s) = [[0], [1]] \<and> sb_pending s = [2] \<and>
     set (sb_pending s @ in_flight s) = {i. i < 3 \<and> \<not> sr_done (sb_requests s i)} \<and>
     distinct (idle s @ map fst (sb_flights s))"
proof -
  let ?evs = "[Submitted (demo_request 20), Submitted (demo_request 30), Submitted (demo_request 20)]"
  have "demo_view (Inr ()) 2 ?evs = Some (True, [[0], [1]], [2], 0)" by code_simp
  then obtain s0 s where s: "demo_launch 2 = Inr s0" "sd_run hd id 2 (demo_env (Inr ())) ?evs s0 = (Inr (), s)"
    "map snd (sb_flights s) = [[0], [1]]" "sb_pending s = [2]" by (rule demo_viewD)
  have new: "\<forall>ev \<in> set ?evs. new_event ev"
    by (simp add: new_event_def demo_request_def new_sd_request_def request_post_init_def check_phase_def Let_def)
  have iso: "sv_isolation (sb_service s0) = PerFiber"
    using launched(7) [OF s(1) [unfolded demo_launch_def] demo_sizes] by (simp add: prog_isolations_def)
  note safe = sd_flights_safe [OF s(1) [unfolded demo_launch_def] demo_sizes demo_schedules new s(2)]
  then have n: "sb_next s = 3" by (simp add: is_submission_def)
  from safe have "set (sb_pending s @ in_flight s) = {i. i < sb_next s \<and> \<not> sr_done (sb_requests s i)}"
    by (elim conjE)
  then have all: "set (sb_pending s @ in_flight s) = {i. i < 3 \<and> \<not> sr_done (sb_requests s i)}" unfolding n .
  from safe iso have dist: "distinct (idle s @ map fst (sb_flights s))" by (elim conjE) simp
  show ?thesis
    by (rule exI [of _ s0], rule exI [of _ s], intro conjI) (fact s(1) s(2) s(3) s(4) all dist)+
qed

text \<open>
  C21: with one program per fiber (and positive batch sizes), a fiber whose executor fails is lost: idle fibers, running executors
  and failed executors together are always as many as the service has fibers; and once as many
  executors have failed as there are fibers, no request that is pending then or comes later is ever
  boarded, whatever happens.
\<close>

theorem sd_failed_fibers_lost:
  assumes "sd_launch exports params tok devices fpd wpd ''per_fiber'' vmfbs datasets store = Inr s0"
    and "\<forall>sizes \<in> set (all_batch_sizes params). \<forall>bs \<in> set sizes. 0 < bs"
    and "picks pick" and "iteration_order sched" and "\<forall>ev \<in> set evs \<union> set evs'. new_event ev"
    and "sd_run pick sched depth env evs s0 = (res, s)" and "sd_run pick sched depth env evs' s = (res', s')"
  shows "length (idle s) + length (sb_flights s) + failures pick sched depth env evs s0 = length devices * nat fpd \<and>
    (failures pick sched depth env evs s0 = length devices * nat fpd \<longrightarrow>
       sb_flights s' = [] \<and> set (sb_pending s) \<subseteq> set (sb_pending s'))"
proof -
  note l = launched [OF assms(1,2)]
  have iso: "sv_isolation (sb_service s0) = PerFiber" using l(7) by (simp add: prog_isolations_def)
  have n: "\<forall>ev \<in> set evs. new_event ev" "\<forall>ev \<in> set evs'. new_event ev" using assms(5) by auto
  have inv: "sd_inv s" and "sv_isolation (sb_service s) = PerFiber"
    and sum: "working_fibers s0 = working_fibers s + failures pick sched depth env evs s0"
    using sd_run_inv [OF l(1) assms(3,4) n(1) assms(6)] iso by (auto simp: same_setup_def)
  moreover have "working_fibers s0 = length devices * nat fpd" using l(3,5,6) by (simp add: working_fibers_def)
  ultimately show ?thesis
    using stalled_run [OF inv assms(3,4) n(2) _ _ assms(7)] by (auto simp: working_fibers_def)
qed

text \<open>One fiber, and a tokenizer that raises: after the first batch nothing boards.\<close>

theorem sd_failed_fibers_lost_witness:
  "\<exists>s0 s. demo_launch 1 = Inr s0 \<and>
     sd_run hd id 2 (demo_env (Inl ValueError)) [Submitted (demo_request 20), Strobed, Strobed, Ends 0, Submitted (demo_request 20)] s0 = (Inr (), s) \<and>
     (\<forall>n. \<exists>s'. sd_run hd id 2 (demo_env (Inl ValueError)) (replicate n Strobed) s = (Inr (), s') \<and> sb_flights s' = [] \<and> 1 \<in> set (sb_pending s'))"
proof -
  let ?env = "demo_env (Inl ValueError)"
  let ?evs = "[Submitted (demo_request 20), Strobed, Strobed, Ends 0, Submitted (demo_request 20)]"
  have "demo_view (Inl ValueError) 1 ?evs = Some (True, [], [1], 1)" by code_simp
  then obtain s0 s where s: "demo_launch 1 = Inr s0" "sd_run hd id 2 ?env ?evs s0 = (Inr (), s)"
    "sb_pending s = [1]" "failures hd id 2 ?env ?evs s0 = 1" by (rule demo_viewD)
  have new: "\<forall>ev \<in> set ?evs \<union> set (replicate n Strobed). new_event ev" for n
    by (auto simp: new_event_def demo_request_def new_sd_request_def request_post_init_def check_phase_def Let_def)
  have "\<exists>s'. sd_run hd id 2 ?env (replicate n Strobed) s = (Inr (), s') \<and> sb_flights s' = [] \<and> 1 \<in> set (sb_pending s')" for n
  proof -
    obtain res s' where s': "sd_run hd id 2 ?env (replicate n Strobed) s = (res, s')" by fastforce
    have "sd_inv s" using sd_run_inv [OF launched(1) [OF s(1) [unfolded demo_launch_def] demo_sizes] demo_schedules _ s(2)] new [of 0] by simp
    then have "res = Inr ()" using sd_run_inv [OF _ demo_schedules _ s', rule_format] new [of n] by simp
    moreover have "sb_flights s' = [] \<and> set (sb_pending s) \<subseteq> set (sb_pending s')"
      using sd_failed_fibers_lost [OF s(1) [unfolded demo_launch_def] demo_sizes demo_schedules new s(2) s'] s(4) by simp
    ultimately show ?thesis using s' s(3) by simp
  qed
  with s(1,2) show ?thesis by blast
qed

end
