(* ===== verification/Sd_Stage_Properties.thy ===== *)
theory Sd_Stage_Properties
  imports Sd_Run_Properties
begin

section \<open>What the executor does with a batch\<close>

text \<open>The choice of entry points by a stage, and the decoding of a batch.\<close>

subsection \<open>Entry points\<close>

lemma no_entry_point: "map_of entries 1 = None \<Longrightarrow> by_entry_point depth entries run [i] st = (Inl RuntimeError, st)"
  by (induction depth) simp_all

text \<open>A stage without nested calls: the batch at the entry point of its size, or each request alone.\<close>

definition stage_reference ::
  "(int \<times> 'fn) list \<Rightarrow> ('fn \<Rightarrow> nat list \<Rightarrow> 'st \<Rightarrow> unit res \<times> 'st) \<Rightarrow> nat list \<Rightarrow> 'st \<Rightarrow> unit res \<times> 'st" where
  "stage_reference entries run is st =
     (case map_of entries (int (length is)) of
        Some fn \<Rightarrow> run fn is st
      | None \<Rightarrow>
         (case map_of entries 1 of
            Some fn \<Rightarrow> run_each (\<lambda>i. run fn [i]) is st
          | None \<Rightarrow> (Inl RuntimeError, st)))"

lemma by_entry_point_reference:
  assumes "is \<noteq> []"
  shows "by_entry_point (Suc (Suc depth)) entries run is st = stage_reference entries run is st"
proof (cases "map_of entries (int (length is))")
  case None
  show ?thesis
  proof (cases "map_of entries 1")
    case (Some fn)
    then have "(\<lambda>i. by_entry_point (Suc depth) entries run [i]) = (\<lambda>i. run fn [i])" by (auto intro!: ext)
    with None Some show ?thesis by (simp add: stage_reference_def)
  next
    case none: None
    with None assms show ?thesis by (cases "is") (simp_all add: no_entry_point stage_reference_def)
  qed
qed (simp add: stage_reference_def)

text \<open>
  A stage needs two nested calls and no more, or never ends: with an interpreter that nests at
  least two calls, encoding, denoising and decoding run a batch at the entry point of its size; without
  one, each request alone at the entry point of size one, in order; and without that either, the
  code calls itself until the interpreter refuses (\<open>RecursionError\<close>), before any request has changed.
\<close>

theorem sd_stage_fallback:
  assumes "2 \<le> depth" and "js \<noteq> []"
  shows "sd_encode depth env fns js st = stage_reference (wf_encode fns) (encode_batch env) js st \<and>
    sd_denoise depth env p fns js st = stage_reference (wf_denoise fns) (denoise_batch env p) js st \<and>
    sd_decode depth env fns js st = stage_reference (wf_decode fns) (decode_batch env) js st"
proof -
  obtain d where d: "depth = Suc (Suc d)" using assms(1) by (metis Suc_le_D numeral_2_eq_2 Suc_le_mono)
  show ?thesis
    unfolding d sd_encode_def sd_denoise_def sd_decode_def by (simp only: by_entry_point_reference [OF assms(2)])
qed

text \<open>Entry points of size 1 and 2: three requests are encoded one by one.\<close>

definition demo_functions :: "int list \<Rightarrow> int list \<Rightarrow> (unit, unit) worker_functions" where
  "demo_functions sizes decode_sizes =
     (let fn = (\<lparr>pg_modules = [], pg_device = 0, pg_isolation = PerFiber\<rparr>, ''main'') in
      \<lparr>wf_encode = map (\<lambda>bs. (bs, fn)) sizes,
       wf_denoise = map (\<lambda>bs. (bs, \<lparr>df_unet = fn, df_init = fn, df_scale = fn, df_step = fn\<rparr>)) sizes,
       wf_decode = map (\<lambda>bs. (bs, fn)) decode_sizes\<rparr>)"

theorem sd_stage_fallback_witness:
  "(\<exists>fn. sd_encode 2 (demo_env (Inr ())) (demo_functions [1, 2] [1]) [0, 1, 2] demo_store =
     run_each (\<lambda>i. encode_batch (demo_env (Inr ())) fn [i]) [0, 1, 2] demo_store) \<and>
   sd_decode 7 (demo_env (Inr ())) (demo_functions [1, 2] [3]) [0, 1] demo_store = (Inl RuntimeError, demo_store)"
  using sd_stage_fallback [where depth = 2 and fns = "demo_functions [1, 2] [1]" and js = "[0, 1, 2]"
      and env = "demo_env (Inr ())" and st = demo_store]
    sd_stage_fallback [where depth = 7 and fns = "demo_functions [1, 2] [3]" and js = "[0, 1]"
      and env = "demo_env (Inr ())" and st = demo_store]
  by (auto simp: demo_functions_def Let_def stage_reference_def)

subsection \<open>Outcomes\<close>

lemma run_stages_append:
  "run_stages (fs @ gs) st = (case run_stages fs st of (Inl e, st1) \<Rightarrow> (Inl e, st1) | (Inr _, st1) \<Rightarrow> run_stages gs st1)"
  by (induction fs arbitrary: st) (auto split: prod.split sum.split)

lemma run_stages_fails:
  assumes "\<And>g. g \<in> set pre \<Longrightarrow> stage_frame K js g" and f: "stage_frame K js f"
    and fails: "\<And>st'. (\<forall>j. K (st' j) = K (st j)) \<Longrightarrow> \<not> is_ok (fst (f st'))"
  shows "\<not> is_ok (fst (run_stages (pre @ f # post) st))" and "K (snd (run_stages (pre @ f # post) st) j) = K (st j)"
proof -
  obtain r st1 where pre: "run_stages pre st = (r, st1)" by fastforce
  have "stage_frame K js (run_stages pre)" by (rule stage_frame_run_stages) (rule assms(1))
  then have K1: "\<forall>j. K (st1 j) = K (st j)" using pre by (metis snd_conv stage_frame_def)
  obtain r2 st2 where fst1: "f st1 = (r2, st2)" by fastforce
  obtain e where e: "r2 = Inl e" using fails [OF K1] fst1 by (cases r2) auto
  have K2: "K (st2 j) = K (st j)" for j using f K1 fst1 by (metis snd_conv stage_frame_def)
  show "\<not> is_ok (fst (run_stages (pre @ f # post) st))" "K (snd (run_stages (pre @ f # post) st) j) = K (st j)"
    using pre fst1 e K1 K2 by (cases r; simp add: run_stages_append)+
qed

lemma decode_batch_fails:
  assumes two: "1 < length is" and h: "sr_height (st (hd is)) = VInt h" and w: "sr_width (st (hd is)) = VInt w"
    and pos: "0 < h" "0 < w" and numpy: "\<And>xs shape. int (length xs) \<noteq> prod_list shape \<Longrightarrow> \<not> is_ok (en_reshape env xs shape)"
  shows "\<not> is_ok (fst (decode_batch env fn is st))"
proof (cases "decoded env fn (map st is)")
  case (Inr images)
  obtain i rest where is_eq: "is = i # rest" using two by (cases "is") auto
  obtain h' w' px where im: "images = (h', w', px)" by (cases images) auto
  from Inr h w have hw: "h' = h" "w' = w" by (auto simp: decoded_def res_bind_Inr list_get_Inr is_eq im)
  define n where "n = int (length is)"
  let ?size = "nat (3 * h * w)"
  have "int (length (py_slice px 0 ?size)) \<le> int ?size" unfolding of_nat_le_iff by simp
  also have "\<dots> = 3 * h * w" using pos by simp
  also have "\<dots> < n * (3 * (h * w))" using two pos by (simp add: n_def)
  finally have "int (length (py_slice px 0 ?size)) \<noteq> prod_list [n, 3, h, w]" by simp
  then have "\<not> is_ok (en_reshape env (py_slice px 0 ?size) [n, 3, h, w])" by (rule numpy)
  with Inr show ?thesis
    by (cases "en_reshape env (py_slice px 0 ?size) [n, 3, h, w]")
      (simp_all add: decode_batch_def im hw set_image_def is_eq Let_def n_def)
qed (simp add: decode_batch_def)

text \<open>
  Decoding a batch of several images always fails: if the decoder is compiled for the size of a
  batch of more than one request, an executor that reaches the decode stage cannot end, because the
  pixels of one image are reshaped to the shape of the whole batch (numpy refuses to reshape to another
  number of elements). Its requests are reported as done all the same, with no result.
\<close>

theorem sd_batch_decode_fails:
  assumes "sd_executor_run depth env sv w is reqs = (completed, reqs')"
    and "1 < length is" and "map_of (wf_decode (sv_functions sv w)) (int (length is)) = Some fn"
    and "map_of (sr_phases (reqs (hd is))) DECODE = Some (True, meta)"
    and "sr_height (reqs (hd is)) = VInt h" and "sr_width (reqs (hd is)) = VInt wd" and "0 < h" and "0 < wd"
    and numpy: "\<And>xs shape. int (length xs) \<noteq> prod_list shape \<Longrightarrow> \<not> is_ok (en_reshape env xs shape)"
  shows "\<not> completed \<and> (\<forall>i \<in> set is. sr_done (reqs' i) \<and> sr_result_image (reqs' i) = sr_result_image (reqs i))"
proof -
  let ?phases = "sr_phases (reqs (hd is))"
  define pre where "pre = take 3 (stages depth env sv w is ?phases)"
  define post where "post = drop 4 (stages depth env sv w is ?phases)"
  let ?decode = "run_phase ?phases DECODE (sd_decode depth env (sv_functions sv w) is)"
  have st: "stages depth env sv w is ?phases = pre @ ?decode # post" by (simp add: stages_def pre_def post_def)
  have frames: "stage_frame kept_image is g" if "g \<in> set (?decode # pre)" for g
    using that by (auto simp: pre_def stages_def intro: frames)
  have fails: "\<not> is_ok (fst (?decode st))" if "\<forall>j. kept_image (st j) = kept_image (reqs j)" for st
  proof -
    have "sr_height (st (hd is)) = VInt h" "sr_width (st (hd is)) = VInt wd"
      using that assms(5,6) by (simp_all add: kept_image_def)
    then have "\<not> is_ok (fst (decode_batch env fn is st))"
      using decode_batch_fails [OF assms(2) _ _ assms(7,8)] numpy by blast
    then show ?thesis using assms(3,4) by (cases depth) (simp_all add: run_phase_def sd_decode_def)
  qed
  have ne: "is \<noteq> []" using assms(2) by auto
  note rs = run_stages_fails [where pre = pre and f = ?decode and K = kept_image and js = "is" and st = reqs and post = post]
  have "\<not> is_ok (fst (sd_executor_body depth env sv w is reqs))"
    unfolding sd_executor_body_stages [OF ne] st by (rule rs(1)) (use frames fails in auto)
  moreover have "kept_image (snd (sd_executor_body depth env sv w is reqs) j) = kept_image (reqs j)" for j
    unfolding sd_executor_body_stages [OF ne] st by (rule rs(2)) (use frames fails in auto)
  ultimately show ?thesis
    using assms(1) sd_executor_run_requests(3) [OF assms(1)]
    by (auto simp: sd_executor_run_def set_done_def kept_image_def split: prod.splits)
qed

text \<open>Two requests of one size, everything compiled for two.\<close>

definition demo_service :: "(unit, unit) sd_service" where
  "demo_service =
     \<lparr>sv_model_params = demo_params, sv_tokenizers = 2, sv_isolation = PerFiber, sv_fibers_per_worker = 1,
      sv_workers = [0], sv_fibers = [], sv_idle_fibers = [], sv_modules = [], sv_parameters = [],
      sv_programs = (\<lambda>_. []), sv_functions = (\<lambda>_. demo_functions [2] [2])\<rparr>"

definition demo_numpy_env :: "(unit, unit, unit, unit, unit, unit, unit, unit) sd_env" where
  "demo_numpy_env = (demo_env (Inr ()))\<lparr>en_reshape :=
     \<lambda>xs shape. if int (length xs) = prod_list shape then Inr () else Inl ValueError\<rparr>"

theorem sd_batch_decode_fails_witness:
  "\<exists>reqs'. sd_executor_run 2 demo_numpy_env demo_service 0 [0, 2] demo_store = (False, reqs') \<and>
     sr_done (reqs' 0) \<and> sr_result_image (reqs' 2) = None"
proof -
  obtain completed reqs' where run: "sd_executor_run 2 demo_numpy_env demo_service 0 [0, 2] demo_store = (completed, reqs')"
    by fastforce
  have "\<exists>fn. map_of (wf_decode (sv_functions demo_service 0)) 2 = Some fn"
    by (simp add: demo_service_def demo_functions_def Let_def)
  then obtain fn where fn: "map_of (wf_decode (sv_functions demo_service 0)) (int (length [0 :: nat, 2])) = Some fn" by auto
  have req: "map_of (sr_phases (demo_store (hd [0, 2]))) DECODE = Some (True, Some [VInt 1024, VInt 1024])"
    "sr_height (demo_store (hd [0, 2])) = VInt 1024" "sr_width (demo_store (hd [0, 2])) = VInt 1024"
    "sr_result_image (demo_store 2) = None" by code_simp+
  have "\<not> is_ok (en_reshape demo_numpy_env xs shape)" if "int (length xs) \<noteq> prod_list shape" for xs shape
    using that by (simp add: demo_numpy_env_def)
  from sd_batch_decode_fails [OF run _ fn req(1,2,3) _ _ this] run req(4) show ?thesis by auto
qed

end
