(* ===== verification/Sd_Generate_Properties.thy ===== *)
theory Sd_Generate_Properties
  imports Sd_Requests Fastapi_Responder
begin

section \<open>Generating the images of a request\<close>

text \<open>
  Model of \<open>sd/components/generate.py\<close>. One \<open>GenerateImageProcess\<close> runs per image; what it awaits is
  the parameter \<open>serve\<close>: the result the request with that number carries when its future fires (the
  batcher and the executors fire it also for failed batches, with no result). An exception ends one
  process and reaches nobody else. The responder is the component \<open>Fastapi_Responder\<close>.
\<close>

subsection \<open>One image\<close>



subsection \<open>The response\<close>











section \<open>A client of the image service\<close>






end
