(* ===== verification/Theta_Tree.thy ===== *)
theory Theta_Tree
  imports Py_Text
begin

section \<open>Parameter trees\<close>

text \<open>
  Model of the parameter packs of \<open>sharktank/types/theta.py\<close>: nested dictionaries of named tensors. A
  Python dict is an association list with distinct keys in insertion order. The values in a dict are
  tensors, dicts, \<open>None\<close> or something else (\<open>POther\<close>), which the constructor rejects. Tensors come from
  \<open>types/tensors.py\<close>; only their name is used here, the rest is the component \<open>'v\<close>. A caller's dict is
  taken by value.
\<close>

record 'v inference_tensor =
  it_name :: string
  it_data :: 'v

datatype 'v ptree = PNone | PTensor "'v inference_tensor" | PDict "(string \<times> 'v ptree) list" | POther

type_synonym 'v pdict = "(string \<times> 'v ptree) list"

subsection \<open>Nesting\<close>

fun add_to_dict :: "string list \<Rightarrow> 'v ptree \<Rightarrow> 'v pdict \<Rightarrow> 'v pdict res" where
  "add_to_dict [] v current = Inr current"
| "add_to_dict [last_part] v current =
     Inr (if v \<noteq> PNone then AList.update last_part v current else current)"
| "add_to_dict (part # q # parts) v current =
     (let current1 = (if map_of current part = None then AList.update part (PDict []) current else current) in
      case map_of current1 part of
        Some (PDict child) \<Rightarrow>
          res_bind (add_to_dict (q # parts) v child)
            (\<lambda>child1. Inr (AList.update part (PDict child1) current1))
      | _ \<Rightarrow> Inl AssertionError)"

fun nest_from :: "'v pdict \<Rightarrow> 'v pdict \<Rightarrow> 'v pdict res" where
  "nest_from nested [] = Inr nested"
| "nest_from nested ((name, v) # flat) =
     res_bind (add_to_dict (str_split ''.'' name) v nested) (\<lambda>nested1. nest_from nested1 flat)"

definition flat_to_nested_dict :: "'v pdict \<Rightarrow> 'v pdict res" where
  "flat_to_nested_dict flat = nest_from [] flat"

subsection \<open>Leaves and names\<close>

fun leaf_values :: "'v pdict \<Rightarrow> 'v ptree list" where
  "leaf_values [] = []"
| "leaf_values ((k, PDict d) # rest) = leaf_values d @ leaf_values rest"
| "leaf_values ((k, v) # rest) = v # leaf_values rest"

fun all_keys :: "'v pdict \<Rightarrow> string list" where
  "all_keys [] = []"
| "all_keys ((k, PDict d) # rest) = k # all_keys d @ all_keys rest"
| "all_keys ((k, v) # rest) = k # all_keys rest"

text \<open>Parts of a name path are strings; an int is given by its text.\<close>

definition norm_name_path :: "string list \<Rightarrow> string list" where
  "norm_name_path name_parts = concat (map (str_split ''.'') name_parts)"

subsection \<open>Theta\<close>

definition theta_of_dict :: "'v pdict \<Rightarrow> 'v pdict res" where
  "theta_of_dict tensors =
     (if list_ex (\<lambda>v. v = POther) (leaf_values tensors) then Inl AssertionError
      else flat_to_nested_dict tensors)"

text \<open>\<open>{t.name: t for t in tensors}\<close>: \<open>None\<close> has no name.\<close>

fun named_dict :: "'v ptree list \<Rightarrow> 'v pdict \<Rightarrow> 'v pdict res" where
  "named_dict [] d = Inr d"
| "named_dict (v # vs) d =
     (case v of PTensor t \<Rightarrow> named_dict vs (AList.update (it_name t) v d) | _ \<Rightarrow> Inl AttributeError)"

definition theta_of_tensors :: "'v ptree list \<Rightarrow> 'v pdict res" where
  "theta_of_tensors tensors = res_bind (named_dict tensors []) theta_of_dict"

text \<open>The prefix of the inner names; an empty prefix is left out.\<close>

definition extend_prefix :: "string \<Rightarrow> string \<Rightarrow> string" where
  "extend_prefix pre key = (if pre = [] then key else pre @ ''.'' @ key)"

fun flatten_accum :: "string \<Rightarrow> 'v pdict \<Rightarrow> 'v pdict \<Rightarrow> 'v pdict" where
  "flatten_accum pre [] results = results"
| "flatten_accum pre ((key, PDict d) # rest) results =
     flatten_accum pre rest (flatten_accum (extend_prefix pre key) d results)"
| "flatten_accum pre ((key, v) # rest) results =
     flatten_accum pre rest (AList.update (extend_prefix pre key) v results)"

definition theta_flatten :: "'v pdict \<Rightarrow> 'v pdict" where
  "theta_flatten tree = flatten_accum '''' tree []"

text \<open>A transform gives \<open>None\<close>, a tensor or a sequence of tensors.\<close>

datatype 'v transform_result = DropTensor | OneTensor "'v inference_tensor" | ManyTensors "'v ptree list"

fun transform_all :: "('v ptree \<Rightarrow> 'v transform_result res) \<Rightarrow> 'v ptree list \<Rightarrow> 'v ptree list res" where
  "transform_all f [] = Inr []"
| "transform_all f (it # its) =
     res_bind (f it) (\<lambda>results. res_bind (transform_all f its) (\<lambda>rest.
       Inr (case results of DropTensor \<Rightarrow> rest | OneTensor t \<Rightarrow> PTensor t # rest | ManyTensors ts \<Rightarrow> ts @ rest)))"

fun apply_transforms :: "('v ptree \<Rightarrow> 'v transform_result res) list \<Rightarrow> 'v ptree list \<Rightarrow> 'v ptree list res" where
  "apply_transforms [] tensors = Inr tensors"
| "apply_transforms (f # fs) tensors = res_bind (transform_all f tensors) (apply_transforms fs)"

definition theta_transform :: "('v ptree \<Rightarrow> 'v transform_result res) list \<Rightarrow> 'v pdict \<Rightarrow> 'v pdict res" where
  "theta_transform transforms tree =
     res_bind (apply_transforms transforms (map snd (theta_flatten tree))) theta_of_tensors"

definition transform_identity :: "'v ptree \<Rightarrow> 'v transform_result res" where
  "transform_identity x = (case x of PTensor t \<Rightarrow> Inr (OneTensor t) | PNone \<Rightarrow> Inr DropTensor | _ \<Rightarrow> Inl TypeError)"

text \<open>\<open>it.to(device=...)\<close> is a parameter; \<open>None\<close> has no method \<open>to\<close>.\<close>

definition transform_to_device ::
  "('dev \<Rightarrow> 'v inference_tensor \<Rightarrow> 'v inference_tensor) \<Rightarrow> 'dev option \<Rightarrow> 'v ptree \<Rightarrow> 'v transform_result res" where
  "transform_to_device move device x =
     (case device of
        None \<Rightarrow> transform_identity x
      | Some dev \<Rightarrow> (case x of PTensor t \<Rightarrow> Inr (OneTensor (move dev t)) | _ \<Rightarrow> Inl AttributeError))"

definition theta_to ::
  "('dev \<Rightarrow> 'v inference_tensor \<Rightarrow> 'v inference_tensor) \<Rightarrow> 'dev option \<Rightarrow> 'v pdict \<Rightarrow> 'v pdict res" where
  "theta_to move device tree = theta_transform [transform_to_device move device] tree"

text \<open>\<open>pop\<close> returns the removed part and leaves the rest in the object. The object changes before the
  result is built.\<close>

definition theta_pop :: "string list \<Rightarrow> 'v pdict \<Rightarrow> 'v pdict res \<times> 'v pdict" where
  "theta_pop name_path tree =
     (let name = str_join ''.'' (norm_name_path name_path);
          flat = theta_flatten tree;
          accum = filter (\<lambda>(key, _). prefix name key) flat;
          kept = filter (\<lambda>(key, _). \<not> prefix name key) flat
      in case flat_to_nested_dict kept of
           Inl e \<Rightarrow> (Inl e, tree)
         | Inr tree1 \<Rightarrow> (res_bind (flat_to_nested_dict accum) theta_of_dict, tree1))"

text \<open>
  \<open>current_ts[str(part)]\<close>: a dict gives its item, \<open>None\<close> cannot be indexed, and what indexing a tensor
  by a string raises depends on the class of the tensor: it is the parameter \<open>index_error\<close>.
\<close>

fun descend :: "('v inference_tensor \<Rightarrow> py_error) \<Rightarrow> string list \<Rightarrow> 'v ptree \<Rightarrow> 'v ptree res" where
  "descend index_error [] current = Inr current"
| "descend index_error (part # parts) current =
     (case current of
        PDict d \<Rightarrow> (case map_of d part of None \<Rightarrow> Inl KeyError | Some v \<Rightarrow> descend index_error parts v)
      | PTensor t \<Rightarrow> Inl (index_error t)
      | _ \<Rightarrow> Inl TypeError)"

definition optional_tensor ::
  "('v inference_tensor \<Rightarrow> py_error) \<Rightarrow> string list \<Rightarrow> 'v pdict \<Rightarrow> 'v ptree res" where
  "optional_tensor index_error parts tree =
     (let name_path = norm_name_path parts in
      res_bind (descend index_error (butlast name_path) (PDict tree)) (\<lambda>current.
      if name_path = [] then Inl IndexError
      else (case current of
          PDict d \<Rightarrow> Inr (case map_of d (last name_path) of None \<Rightarrow> PNone | Some v \<Rightarrow> v)
        | _ \<Rightarrow> Inl AttributeError)))"

definition theta_tensor ::
  "('v inference_tensor \<Rightarrow> py_error) \<Rightarrow> string list \<Rightarrow> 'v pdict \<Rightarrow> 'v ptree res" where
  "theta_tensor index_error parts tree =
     (let name_path = norm_name_path parts in
      res_bind (optional_tensor index_error name_path tree)
        (\<lambda>t. if t = PNone then Inl KeyError else Inr t))"

datatype 'v theta_value = SubTheta "'v pdict" | ThetaTensor "'v inference_tensor"

definition theta_call ::
  "('v inference_tensor \<Rightarrow> py_error) \<Rightarrow> string list \<Rightarrow> 'v pdict \<Rightarrow> 'v theta_value res" where
  "theta_call index_error parts tree =
     res_bind (descend index_error (norm_name_path parts) (PDict tree)) (\<lambda>current.
       case current of
         PTensor t \<Rightarrow> Inr (ThetaTensor t)
       | PDict d \<Rightarrow> res_bind (theta_of_dict d) (\<lambda>d1. Inr (SubTheta d1))
       | _ \<Rightarrow> Inl TypeError)"

definition theta_keys :: "'v pdict \<Rightarrow> string list" where
  "theta_keys tree = map fst tree"

definition theta_contains :: "string \<Rightarrow> 'v pdict \<Rightarrow> bool" where
  "theta_contains key tree \<longleftrightarrow> key \<in> fst ` set tree"

definition theta_tensors :: "'v pdict \<Rightarrow> 'v inference_tensor list" where
  "theta_tensors tree = List.map_filter (\<lambda>(_, v). case v of PTensor t \<Rightarrow> Some t | _ \<Rightarrow> None) tree"

text \<open>\<open>rename_tensors_to_paths\<close> names every tensor after its path; the tensors of a tree are distinct
  objects and no two have the same path.\<close>

fun rename_tensors_to_paths :: "string \<Rightarrow> 'v pdict \<Rightarrow> 'v pdict" where
  "rename_tensors_to_paths pre [] = []"
| "rename_tensors_to_paths pre ((key, v) # rest) =
     (key, case v of
        PDict d \<Rightarrow> PDict (rename_tensors_to_paths (extend_prefix pre key) d)
      | PTensor t \<Rightarrow> PTensor (t\<lparr>it_name := extend_prefix pre key\<rparr>)
      | other \<Rightarrow> other) # rename_tensors_to_paths pre rest"

text \<open>\<open>torch_module_to_theta\<close>: the named parameters of the module, each an unnamed tensor first. The
  names of a module's parameters are distinct.\<close>

definition torch_module_to_theta :: "(string \<times> 'v) list \<Rightarrow> 'v pdict res" where
  "torch_module_to_theta named_parameters =
     res_bind (theta_of_dict (map (\<lambda>(name, x). (name, PTensor \<lparr>it_name = ''<unnamed>'', it_data = x\<rparr>)) named_parameters))
       (\<lambda>tree. Inr (rename_tensors_to_paths '''' tree))"

end
