(* ===== verification/Theta_Properties.thy ===== *)
theory Theta_Properties
  imports Theta_Tree
begin

section \<open>Flattening undoes nesting\<close>

text \<open>Flattening undoes nesting; what pop takes and leaves; the trees on which names are not unique.\<close>

subsection \<open>Splitting and joining at a character\<close>

lemma split_from_plain: "c \<notin> set s \<Longrightarrow> split_from [c] acc s = [acc @ s]"
  by (induction s arbitrary: acc) (subst split_from.simps, auto)+

lemma split_from_sep: "c \<notin> set s \<Longrightarrow> split_from [c] acc (s @ c # r) = (acc @ s) # split_from [c] [] r"
  by (induction s arbitrary: acc) (subst split_from.simps, auto)+

lemma str_split_simps:
  "c \<notin> set s \<Longrightarrow> str_split [c] s = [s]"
  "c \<notin> set s \<Longrightarrow> str_split [c] (s @ c # r) = s # str_split [c] r"
  by (simp_all add: str_split_def split_from_plain split_from_sep)

lemma split_cases: obtains "c \<notin> set (s :: string)" | p r where "s = p @ c # r" "c \<notin> set p"
  by (meson split_list_first)

lemma str_join_Cons: "xs \<noteq> [] \<Longrightarrow> str_join sep (x # xs) = x @ sep @ str_join sep xs"
  by (cases xs) simp_all

lemma split_parts:
  "str_split [c] s \<noteq> [] \<and> (\<forall>p \<in> set (str_split [c] s). c \<notin> set p) \<and> str_join [c] (str_split [c] s) = s"
proof (induction "length s" arbitrary: s rule: less_induct)
  case less
  show ?case
  proof (cases c s rule: split_cases)
    case 1
    then show ?thesis by (simp add: str_split_simps)
  next
    case (2 p r)
    with less [of r] show ?thesis by (simp add: str_split_simps str_join_Cons)
  qed
qed

lemma split_join: "xs \<noteq> [] \<Longrightarrow> \<forall>p \<in> set xs. c \<notin> set p \<Longrightarrow> str_split [c] (str_join [c] xs) = xs"
proof (induction "[c]" xs rule: str_join.induct)
  case (3 x y ys)
  then show ?case by (simp add: str_split_simps)
qed (simp_all add: str_split_simps)

abbreviation name_parts :: "string \<Rightarrow> string list" where
  "name_parts \<equiv> str_split ''.''"

lemma name_parts_inj: "name_parts n = name_parts m \<longleftrightarrow> n = m"
  by (metis split_parts)

subsection \<open>Leaves of a tree\<close>

fun leaf_at :: "string list \<Rightarrow> 'v pdict \<Rightarrow> 'v inference_tensor option" where
  "leaf_at [] d = None"
| "leaf_at [p] d = (case map_of d p of Some (PTensor t) \<Rightarrow> Some t | _ \<Rightarrow> None)"
| "leaf_at (p # q # ps) d = (case map_of d p of Some (PDict s) \<Rightarrow> leaf_at (q # ps) s | _ \<Rightarrow> None)"

fun tree_ok :: "'v pdict \<Rightarrow> bool" where
  "tree_ok [] = True"
| "tree_ok ((k, PDict d) # rest) \<longleftrightarrow> CHR ''.'' \<notin> set k \<and> k \<notin> fst ` set rest \<and> tree_ok d \<and> tree_ok rest"
| "tree_ok ((k, PTensor t) # rest) \<longleftrightarrow> CHR ''.'' \<notin> set k \<and> k \<notin> fst ` set rest \<and> tree_ok rest"
| "tree_ok ((k, v) # rest) \<longleftrightarrow> False"

definition value_ok :: "'v ptree \<Rightarrow> bool" where
  "value_ok v = (case v of PTensor _ \<Rightarrow> True | PDict d \<Rightarrow> tree_ok d | _ \<Rightarrow> False)"

lemma tree_ok_iff:
  "tree_ok d \<longleftrightarrow> distinct (map fst d) \<and> (\<forall>kv \<in> set d. CHR ''.'' \<notin> set (fst kv) \<and> value_ok (snd kv))"
  by (induction d rule: tree_ok.induct) (auto simp: value_ok_def)

lemma in_update: "kv \<in> set (AList.update k v d) \<Longrightarrow> kv = (k, v) \<or> kv \<in> set d"
  by (induction d) (auto split: if_splits)

lemma tree_ok_update: "tree_ok d \<Longrightarrow> CHR ''.'' \<notin> set k \<Longrightarrow> value_ok v \<Longrightarrow> tree_ok (AList.update k v d)"
  by (auto simp: tree_ok_iff distinct_update dest!: in_update)

lemma tree_ok_value: "tree_ok d \<Longrightarrow> map_of d k = Some v \<Longrightarrow> value_ok v"
  by (auto simp: tree_ok_iff dest!: map_of_SomeD)

lemma leaf_at_Cons:
  "ps \<noteq> [] \<Longrightarrow> leaf_at (p # ps) d = (case map_of d p of Some (PDict s) \<Rightarrow> leaf_at ps s | _ \<Rightarrow> None)"
  by (cases ps) auto

lemma leaf_at_path: "leaf_at qs d \<noteq> None \<Longrightarrow> qs \<noteq> []"
  by auto

lemma add_to_dict_leaf:
  assumes "tree_ok d" and "parts \<noteq> []" and "\<forall>p \<in> set parts. CHR ''.'' \<notin> set p"
    and "\<And>qs. leaf_at qs d \<noteq> None \<Longrightarrow> \<not> prefix qs parts \<and> \<not> prefix parts qs"
  shows "\<exists>d'. add_to_dict parts (PTensor t) d = Inr d' \<and> tree_ok d' \<and>
    (\<forall>qs. leaf_at qs d' = (if qs = parts then Some t else leaf_at qs d))"
  using assms
proof (induction parts "PTensor t" d rule: add_to_dict.induct)
  case (2 p d)
  have "leaf_at qs (AList.update p (PTensor t) d) = (if qs = [p] then Some t else leaf_at qs d)" for qs
  proof (cases "(qs, d)" rule: leaf_at.cases)
    case (3 q r rs)
    moreover have "leaf_at (p # r # rs) d = None"
      by (rule ccontr) (use 2(4) [of "p # r # rs"] in \<open>simp del: leaf_at.simps\<close>)
    ultimately show ?thesis by (auto simp: update_conv')
  qed (auto simp: update_conv')
  with 2 show ?case by (auto intro!: tree_ok_update simp: value_ok_def)
next
  case (3 p q ps d)
  let ?d1 = "if map_of d p = None then AList.update p (PDict []) d else d"
  obtain child where child: "map_of ?d1 p = Some (PDict child)" "tree_ok child"
    and sub: "\<And>rs. rs \<noteq> [] \<Longrightarrow> leaf_at rs child = leaf_at (p # rs) d"
  proof (cases "map_of d p")
    case None
    have "leaf_at rs [] = None" for rs :: "string list" by (cases "(rs, [] :: (string \<times> 'a ptree) list)" rule: leaf_at.cases) auto
    with None show ?thesis by (intro that [of "[]"]) (auto simp: update_conv' leaf_at_Cons)
  next
    case (Some v)
    then have "value_ok v" using "3.prems"(1) by (rule tree_ok_value [rotated])
    moreover have "v \<noteq> PTensor u" for u
      using "3.prems"(4) [of "[p]"] Some by auto
    ultimately obtain s where "v = PDict s" "tree_ok s" by (cases v) (auto simp: value_ok_def)
    with Some show ?thesis by (intro that [of s]) (auto simp: leaf_at_Cons)
  qed
  have inc: "\<not> prefix qs (q # ps) \<and> \<not> prefix (q # ps) qs" if leaf: "leaf_at qs child \<noteq> None" for qs
  proof -
    have "leaf_at (p # qs) d \<noteq> None" using leaf sub [OF leaf_at_path [OF leaf]] by simp
    from "3.prems"(4) [OF this] show ?thesis by simp
  qed
  obtain c where c: "add_to_dict (q # ps) (PTensor t) child = Inr c" "tree_ok c"
    and leaf: "\<And>qs. leaf_at qs c = (if qs = q # ps then Some t else leaf_at qs child)"
    using "3.hyps" [OF refl child(1) refl child(2) _ _ inc] "3.prems"(3) by auto
  let ?d2 = "AList.update p (PDict c) ?d1"
  have run: "add_to_dict (p # q # ps) (PTensor t) d = Inr ?d2" using child(1) c(1) by simp
  have ok: "tree_ok ?d2"
    using "3.prems"(1,3) c(2) by (auto intro!: tree_ok_update simp: value_ok_def)
  have "leaf_at qs ?d2 = (if qs = p # q # ps then Some t else leaf_at qs d)" for qs
  proof (cases qs)
    case (Cons r rs)
    show ?thesis
    proof (cases "rs = []")
      case True
      then show ?thesis using Cons child(1) by (auto simp: update_conv' split: if_splits)
    next
      case False
      then show ?thesis using Cons leaf [of rs] sub [of rs]
        by (auto simp: leaf_at_Cons update_conv')
    qed
  qed simp
  with run ok show ?case by blast
qed simp_all

subsection \<open>Nesting a flat dict\<close>

text \<open>Names and tensors that a parameter pack can hold: no name twice, none within another, none that
  starts with the separator.\<close>

definition good_flat :: "'v pdict \<Rightarrow> bool" where
  "good_flat flat \<longleftrightarrow> distinct (map fst flat) \<and> list_all (\<lambda>(_, v). \<exists>t. v = PTensor t) flat \<and>
     (\<forall>n \<in> fst ` set flat. \<not> prefix ''.'' n \<and> (\<forall>m \<in> fst ` set flat. \<not> prefix (n @ ''.'') m))"

lemma good_flat_subset: "good_flat flat \<Longrightarrow> distinct (map fst kept) \<Longrightarrow> set kept \<subseteq> set flat \<Longrightarrow> good_flat kept"
  unfolding good_flat_def list_all_iff by (meson image_mono subsetD)

lemma prefix_parts:
  assumes "prefix (name_parts n) (name_parts m)"
  shows "n = m \<or> prefix (n @ ''.'') m"
proof -
  from assms obtain rs where rs: "name_parts m = name_parts n @ rs" by (rule prefixE)
  have join: "str_join ''.'' (xs @ ys) = str_join ''.'' xs @ ''.'' @ str_join ''.'' ys"
    if "xs \<noteq> []" "ys \<noteq> []" for xs ys
    using that
  proof (induction xs)
    case (Cons a xs)
    then show ?case by (cases "xs = []") (auto simp: str_join_Cons)
  qed simp
  show ?thesis
  proof (cases "rs = []")
    case True
    then show ?thesis using rs name_parts_inj by simp
  next
    case False
    have "m = str_join ''.'' (name_parts m)" by (simp add: split_parts)
    also have "\<dots> = n @ ''.'' @ str_join ''.'' rs"
      using join [OF _ False, of "name_parts n"] split_parts [of "CHR ''.''" n] rs by simp
    finally show ?thesis by (simp add: prefix_def)
  qed
qed

text \<open>A dict at the key \<open>''\<close> would lose its separator when flattened.\<close>

definition no_empty_branch :: "'v pdict \<Rightarrow> bool" where
  "no_empty_branch d \<longleftrightarrow> (\<forall>s. map_of d [] \<noteq> Some (PDict s))"

lemma no_empty_branch_add:
  assumes "add_to_dict (name_parts n) (PTensor t) d = Inr d'" "\<not> prefix ''.'' n" "no_empty_branch d"
  shows "no_empty_branch d'"
proof (cases "name_parts n")
  case Nil
  then show ?thesis using split_parts by blast
next
  case (Cons p ps)
  show ?thesis
  proof (cases ps)
    case Nil
    then show ?thesis using assms Cons by (auto simp: no_empty_branch_def update_conv' split: if_splits)
  next
    case (Cons q rs)
    have "n = str_join ''.'' (name_parts n)" by (simp add: split_parts)
    also have "\<dots> = p @ ''.'' @ str_join ''.'' (q # rs)" using \<open>name_parts n = p # ps\<close> Cons by simp
    finally have "p \<noteq> []" using assms(2) by (auto simp: prefix_def)
    then show ?thesis using assms \<open>name_parts n = p # ps\<close> Cons
      by (auto simp: no_empty_branch_def update_conv' res_bind_Inr Let_def split: option.splits ptree.splits if_splits)
  qed
qed

lemma nest_from_leaves:
  assumes "tree_ok nested" and "no_empty_branch nested" and "good_flat flat"
    and "\<And>qs n. leaf_at qs nested \<noteq> None \<Longrightarrow> n \<in> fst ` set flat \<Longrightarrow>
           \<not> prefix qs (name_parts n) \<and> \<not> prefix (name_parts n) qs"
  shows "\<exists>tree. nest_from nested flat = Inr tree \<and> tree_ok tree \<and> no_empty_branch tree \<and>
    (\<forall>qs t. leaf_at qs tree = Some t \<longleftrightarrow>
       leaf_at qs nested = Some t \<or> (\<exists>n. (n, PTensor t) \<in> set flat \<and> qs = name_parts n))"
  using assms
proof (induction nested flat rule: nest_from.induct)
  case (2 nested name v flat)
  from "2.prems"(3) obtain t where v: "v = PTensor t" by (auto simp: good_flat_def)
  have flat: "good_flat flat" using "2.prems"(3) by (rule good_flat_subset) (use "2.prems"(3) in \<open>auto simp: good_flat_def\<close>)
  have start: "\<not> prefix ''.'' name" using "2.prems"(3) by (simp add: good_flat_def)
  from add_to_dict_leaf [of nested "name_parts name" t] obtain d where
    d: "add_to_dict (name_parts name) (PTensor t) nested = Inr d" "tree_ok d"
    and leaf: "\<And>qs. leaf_at qs d = (if qs = name_parts name then Some t else leaf_at qs nested)"
    using "2.prems"(1) "2.prems"(4) [of _ name] split_parts [of "CHR ''.''" name] by auto
  have apart: "\<not> prefix (name_parts name) (name_parts n) \<and> \<not> prefix (name_parts n) (name_parts name)"
    if "n \<in> fst ` set flat" for n
  proof -
    have "n \<noteq> name" "\<not> prefix (name @ ''.'') n" "\<not> prefix (n @ ''.'') name"
      using that "2.prems"(3) by (auto simp: good_flat_def)
    then show ?thesis using prefix_parts [of name n] prefix_parts [of n name] by blast
  qed
  have "\<exists>tree. nest_from d flat = Inr tree \<and> tree_ok tree \<and> no_empty_branch tree \<and>
    (\<forall>qs u. leaf_at qs tree = Some u \<longleftrightarrow>
       leaf_at qs d = Some u \<or> (\<exists>n. (n, PTensor u) \<in> set flat \<and> qs = name_parts n))"
  proof (rule "2.IH" [unfolded v, OF d(2) _ flat])
    show "no_empty_branch d" using d(1) start "2.prems"(2) by (rule no_empty_branch_add)
    show "\<not> prefix qs (name_parts n) \<and> \<not> prefix (name_parts n) qs"
      if "leaf_at qs d \<noteq> None" "n \<in> fst ` set flat" for qs n
      using that apart [of n] "2.prems"(4) [of qs n] by (auto simp: leaf split: if_splits)
  qed
  moreover have "leaf_at (name_parts name) nested = None"
    using "2.prems"(4) [of "name_parts name" name] by (cases "leaf_at (name_parts name) nested") auto
  ultimately show ?case using d(1) v by (auto simp: leaf)
qed simp

subsection \<open>Flattening a tree\<close>

fun paths :: "string \<Rightarrow> 'v pdict \<Rightarrow> 'v pdict" where
  "paths pre [] = []"
| "paths pre ((key, PDict d) # rest) = paths (extend_prefix pre key) d @ paths pre rest"
| "paths pre ((key, v) # rest) = (extend_prefix pre key, v) # paths pre rest"

lemma flatten_accum_paths:
  "flatten_accum pre d results = foldl (\<lambda>r (n, v). AList.update n v r) results (paths pre d)"
  by (induction pre d results rule: flatten_accum.induct) auto

lemma map_of_updates:
  "map_of (foldl (\<lambda>r (n, v). AList.update n v r) r ps) = map_of r ++ map_of (rev ps)"
  by (induction ps arbitrary: r) (auto simp: update_conv' map_add_def fun_eq_iff split: option.splits)

lemma distinct_updates:
  "distinct (map fst r) \<Longrightarrow> distinct (map fst (foldl (\<lambda>r (n, v). AList.update n v r) r ps))"
  by (induction ps arbitrary: r) (auto intro: distinct_update)

definition full_name :: "string \<Rightarrow> string list \<Rightarrow> string" where
  "full_name pre qs = (if pre = [] then str_join ''.'' qs else pre @ ''.'' @ str_join ''.'' qs)"

lemma full_name_Cons:
  "qs \<noteq> [] \<Longrightarrow> pre \<noteq> [] \<or> key \<noteq> [] \<Longrightarrow> full_name pre (key # qs) = full_name (extend_prefix pre key) qs"
  by (auto simp: full_name_def extend_prefix_def str_join_Cons)

lemma full_name_single: "full_name pre [key] = extend_prefix pre key"
  by (simp add: full_name_def extend_prefix_def)

lemma leaf_at_Nil: "leaf_at qs [] = None"
  by (cases "(qs, [] :: (string \<times> 'a ptree) list)" rule: leaf_at.cases) auto

lemma leaf_at_absent: "k \<notin> fst ` set d \<Longrightarrow> leaf_at (k # ps) d = None"
  by (cases ps) (auto simp: map_of_eq_None_iff [symmetric])

lemma leaf_at_dict:
  assumes "k \<notin> fst ` set rest"
  shows "leaf_at qs ((k, PDict s) # rest) = Some t \<longleftrightarrow>
    (\<exists>rs. rs \<noteq> [] \<and> qs = k # rs \<and> leaf_at rs s = Some t) \<or> leaf_at qs rest = Some t"
  using assms [folded map_of_eq_None_iff] by (cases "(qs, rest)" rule: leaf_at.cases) auto

lemma leaf_at_tensor:
  assumes "k \<notin> fst ` set rest"
  shows "leaf_at qs ((k, PTensor u) # rest) = Some t \<longleftrightarrow> (qs = [k] \<and> t = u) \<or> leaf_at qs rest = Some t"
  using assms [folded map_of_eq_None_iff] by (cases "(qs, rest)" rule: leaf_at.cases) auto

lemmas paths_cases_induct = paths.induct [case_names none nested other plain]

lemma set_paths:
  "tree_ok d \<Longrightarrow> pre \<noteq> [] \<or> no_empty_branch d \<Longrightarrow>
   (n, v) \<in> set (paths pre d) \<longleftrightarrow> (\<exists>qs t. leaf_at qs d = Some t \<and> n = full_name pre qs \<and> v = PTensor t)"
proof (induction pre d arbitrary: n v rule: paths_cases_induct)
  case (none pre)
  then show ?case by (simp add: leaf_at_Nil)
next
  case (nested pre key d rest)
  have key: "pre \<noteq> [] \<or> key \<noteq> []" and rest: "pre \<noteq> [] \<or> no_empty_branch rest"
    using nested.prems by (auto simp: no_empty_branch_def split: if_splits)
  have inner: "(n, v) \<in> set (paths (extend_prefix pre key) d) \<longleftrightarrow>
      (\<exists>rs t. leaf_at rs d = Some t \<and> n = full_name (extend_prefix pre key) rs \<and> v = PTensor t)"
    using nested.prems(1) key by (intro nested.IH(1)) (auto simp: extend_prefix_def)
  have outer: "(n, v) \<in> set (paths pre rest) \<longleftrightarrow>
      (\<exists>qs t. leaf_at qs rest = Some t \<and> n = full_name pre qs \<and> v = PTensor t)"
    using nested.prems(1) rest by (intro nested.IH(2)) auto
  have "leaf_at rs d = Some t \<Longrightarrow> full_name pre (key # rs) = full_name (extend_prefix pre key) rs" for rs t
    using key leaf_at_path [of rs d] by (intro full_name_Cons) auto
  moreover have "leaf_at rs d = Some t \<Longrightarrow> rs \<noteq> []" for rs t using leaf_at_path [of rs d] by simp
  moreover have "key \<notin> fst ` set rest" using nested.prems(1) by simp
  ultimately show ?case by (simp add: inner outer leaf_at_dict) metis
next
  case (plain pre key t rest)
  have rest: "pre \<noteq> [] \<or> no_empty_branch rest"
  proof -
    have "map_of rest key = None" using plain.prems(1) by (simp add: map_of_eq_None_iff)
    then show ?thesis using plain.prems(2) by (cases "key = []") (auto simp: no_empty_branch_def)
  qed
  have "(n, v) \<in> set (paths pre rest) \<longleftrightarrow>
      (\<exists>qs t. leaf_at qs rest = Some t \<and> n = full_name pre qs \<and> v = PTensor t)"
    using plain.prems(1) rest by (intro plain.IH) auto
  moreover have "key \<notin> fst ` set rest" using plain.prems(1) by simp
  ultimately show ?case by (simp add: leaf_at_tensor) (metis full_name_single)
qed auto

subsection \<open>Round trip\<close>

lemma good_flat_tree:
  assumes "good_flat flat"
  shows "\<exists>tree. flat_to_nested_dict flat = Inr tree \<and> tree_ok tree \<and> map_of (theta_flatten tree) = map_of flat"
proof -
  from nest_from_leaves [of "[]" flat] assms obtain tree where tree: "flat_to_nested_dict flat = Inr tree"
    "tree_ok tree" "no_empty_branch tree"
    and leaf: "\<And>qs t. leaf_at qs tree = Some t \<longleftrightarrow> (\<exists>n. (n, PTensor t) \<in> set flat \<and> qs = name_parts n)"
    by (auto simp: leaf_at_Nil no_empty_branch_def flat_to_nested_dict_def)
  have dist: "distinct (map fst flat)" and tensors: "\<And>n v. (n, v) \<in> set flat \<Longrightarrow> \<exists>t. v = PTensor t"
    using assms by (auto simp: good_flat_def list_all_iff)
  have paths: "(n, v) \<in> set (paths [] tree) \<longleftrightarrow> (n, v) \<in> set flat" for n v
    using set_paths [OF tree(2), of "[]" n v] tree(3) tensors [of n v]
    by (auto simp: leaf full_name_def split_parts) (metis split_parts)
  then have set_paths_flat: "set (paths [] tree) = set flat" by auto
  have "map_of (rev (paths [] tree)) n = map_of flat n" for n
  proof (cases "map_of flat n")
    case None
    then have "map_of (rev (paths [] tree)) n = None" by (simp add: map_of_eq_None_iff set_paths_flat)
    with None show ?thesis by simp
  next
    case (Some v)
    then have "(n, v) \<in> set (paths [] tree)" using paths map_of_SomeD by fast
    then obtain w where w: "map_of (rev (paths [] tree)) n = Some w"
      by (metis map_of_eq_None_iff fst_conv image_eqI option.exhaust set_rev)
    then have "(n, w) \<in> set flat" using paths map_of_SomeD by fastforce
    then show ?thesis using w dist by simp
  qed
  then have "map_of (theta_flatten tree) = map_of flat"
    by (simp add: theta_flatten_def flatten_accum_paths map_of_updates fun_eq_iff)
  with tree(1,2) show ?thesis by blast
qed

lemma nest_from_plain:
  "tree_ok d \<Longrightarrow> fst ` set nested \<inter> fst ` set d = {} \<Longrightarrow> nest_from nested d = Inr (nested @ d)"
  by (induction d arbitrary: nested rule: tree_ok.induct) (auto simp: str_split_simps AList_update_fresh)

lemma tree_ok_leaves: "tree_ok d \<Longrightarrow> POther \<notin> set (leaf_values d)"
  by (induction d rule: tree_ok.induct) auto

lemma theta_of_tree: "tree_ok d \<Longrightarrow> theta_of_dict d = Inr d"
  using tree_ok_leaves [of d] by (auto simp: theta_of_dict_def flat_to_nested_dict_def nest_from_plain list_ex_iff)

lemma theta_flatten_distinct: "distinct (map fst (theta_flatten tree))"
  by (simp add: theta_flatten_def flatten_accum_paths distinct_updates)

lemma flatten_good:
  assumes "good_flat flat" and "flat_to_nested_dict flat = Inr tree"
  shows "good_flat (theta_flatten tree)" and "set (theta_flatten tree) = set flat"
proof -
  have "map_of (theta_flatten tree) = map_of flat" using good_flat_tree [OF assms(1)] assms(2) by auto
  moreover have "distinct (map fst flat)" using assms(1) by (simp add: good_flat_def)
  ultimately show "set (theta_flatten tree) = set flat"
    using map_of_inject_set [OF theta_flatten_distinct] by blast
  then show "good_flat (theta_flatten tree)"
    using assms(1) theta_flatten_distinct [of tree] by (auto simp: good_flat_def list_all_iff)
qed

lemma no_other_leaves: "list_all (\<lambda>(_, v). \<exists>t. v = PTensor t) flat \<Longrightarrow> POther \<notin> set (leaf_values flat)"
  by (induction flat rule: leaf_values.induct) auto

lemma theta_of_good: "good_flat flat \<Longrightarrow> theta_of_dict flat = flat_to_nested_dict flat"
  using no_other_leaves [of flat] by (auto simp: theta_of_dict_def good_flat_def list_ex_iff)

text \<open>
  C40: Building a parameter pack from tensors with distinct names, none a dotted prefix of another and none
  starting with a dot, succeeds and flattening gives the same names and
  tensors back, and \<open>pop\<close> splits the pack in two: the result has exactly the tensors whose dotted name
  starts with the given text, the pack keeps exactly the others.
\<close>

theorem theta_roundtrip:
  assumes "good_flat flat" and "name = str_join ''.'' (norm_name_path path)"
  shows "\<exists>tree popped rest. theta_of_dict flat = Inr tree \<and> set (theta_flatten tree) = set flat \<and>
    theta_pop path tree = (Inr popped, rest) \<and>
    set (theta_flatten popped) = {(n, v) \<in> set flat. prefix name n} \<and>
    set (theta_flatten rest) = {(n, v) \<in> set flat. \<not> prefix name n}"
proof -
  from good_flat_tree [OF assms(1)] obtain tree where tree: "flat_to_nested_dict flat = Inr tree" by blast
  note flat = flatten_good [OF assms(1) tree]
  have part: "good_flat (filter (\<lambda>(n, _). P n) (theta_flatten tree))" for P
    using flat(1) theta_flatten_distinct [of tree]
    by (rule_tac good_flat_subset [of "theta_flatten tree"]) (auto intro: distinct_map_filter)
  note popped = good_flat_tree [OF part [of "prefix name"]]
    and rest = good_flat_tree [OF part [of "\<lambda>n. \<not> prefix name n"]]
  obtain tree1 tree2 where
    tree1: "flat_to_nested_dict (filter (\<lambda>(n, _). prefix name n) (theta_flatten tree)) = Inr tree1" and
    tree2: "flat_to_nested_dict (filter (\<lambda>(n, _). \<not> prefix name n) (theta_flatten tree)) = Inr tree2"
    using popped rest by blast
  have theta1: "theta_of_dict tree1 = Inr tree1" using popped tree1 by (auto intro: theta_of_tree)
  have "theta_pop path tree = (Inr tree1, tree2)"
    by (simp add: theta_pop_def assms(2) [symmetric] tree1 tree2 theta1)
  moreover have "set (theta_flatten tree1) = {(n, v) \<in> set flat. prefix name n}"
    using flatten_good(2) [OF part tree1] flat(2) by auto
  moreover have "set (theta_flatten tree2) = {(n, v) \<in> set flat. \<not> prefix name n}"
    using flatten_good(2) [OF part tree2] flat(2) by auto
  moreover have "theta_of_dict flat = Inr tree" using theta_of_good [OF assms(1)] tree by simp
  ultimately show ?thesis using flat(2) by blast
qed

definition demo_tensor :: "string \<Rightarrow> nat \<Rightarrow> nat ptree" where
  "demo_tensor n x = PTensor \<lparr>it_name = n, it_data = x\<rparr>"

definition demo_flat :: "nat pdict" where
  "demo_flat = [(''blk.1.w'', demo_tensor ''w1'' 1), (''out'', demo_tensor ''o'' 0), (''blk.10.w'', demo_tensor ''w10'' 10)]"

theorem theta_roundtrip_witness:
  "\<exists>tree popped rest. theta_of_dict demo_flat = Inr tree \<and> theta_pop [''blk'', ''1''] tree = (Inr popped, rest) \<and>
     set (theta_flatten popped) = {(''blk.1.w'', demo_tensor ''w1'' 1), (''blk.10.w'', demo_tensor ''w10'' 10)}"
proof -
  have "good_flat demo_flat" by (simp add: good_flat_def demo_flat_def demo_tensor_def)
  moreover have "''blk.1'' = str_join ''.'' (norm_name_path [''blk'', ''1''])" by code_simp
  moreover have "{(n, v) \<in> set demo_flat. prefix ''blk.1'' n} =
      {(''blk.1.w'', demo_tensor ''w1'' 1), (''blk.10.w'', demo_tensor ''w10'' 10)}"
    by (auto simp: demo_flat_def)
  ultimately show ?thesis using theta_roundtrip [of demo_flat "''blk.1''" "[''blk'', ''1'']"] by auto
qed

text \<open>\<open>pop\<close> compares texts, not parts of names: popping block 1 takes block 10 too.\<close>

lemma pop_takes_longer_numbers:
  "theta_pop [''blk.1''] [(''blk'', PDict [(''1'', demo_tensor ''a'' 1), (''10'', demo_tensor ''b'' 2), (''2'', demo_tensor ''c'' 3)])] =
     (Inr [(''blk'', PDict [(''1'', demo_tensor ''a'' 1), (''10'', demo_tensor ''b'' 2)])],
      [(''blk'', PDict [(''2'', demo_tensor ''c'' 3)])])"
  by code_simp

text \<open>The example in the documentation of \<open>flat_to_nested_dict\<close>: the second entry replaces the subtree
  that the first one made.\<close>

lemma nested_example:
  "flat_to_nested_dict [(''a.b'', demo_tensor ''x'' 0), (''a'', PDict [(''c'', demo_tensor ''y'' 1)])] =
     Inr [(''a'', PDict [(''c'', demo_tensor ''y'' 1)])]"
  by code_simp

end
