(* ===== verification/Op_Dispatch.thy ===== *)
theory Op_Dispatch
  imports Py_Prelude
begin

section \<open>Dispatch of tensor operations by type\<close>

text \<open>
  Model of \<open>sharktank/ops/_registry.py\<close> and of the trampolines in \<open>ops/signatures.py\<close>. Classes and
  \<open>issubclass\<close> are parameters (\<open>classes\<close>), as are the functions that are registered: a target is a
  value of type \<open>'f\<close> and calling it gives an error, \<open>NotImplemented\<close> (\<open>None\<close>) or a result. A type
  specification has \<open>None\<close> (\<open>AnyClass\<close>), a class or a boolean type expression in each place.
\<close>

record 'ty classes =
  issubclass :: "'ty \<Rightarrow> 'ty \<Rightarrow> bool"
  tensor_class :: 'ty
  primitive_tensor_class :: 'ty
  quantized_tensor_class :: 'ty

datatype 'ty spec_item = AnyClass | SubclassOf 'ty | TypeExpr "'ty list \<Rightarrow> bool"

record ('f, 'ty) target_override =
  ov_salience :: int
  ov_target :: 'f
  ov_type_spec :: "'ty spec_item list"
  ov_auto_unbox :: bool
  ov_auto_dequant :: bool

subsection \<open>Boolean type expressions\<close>

definition all_of_exprs :: "('ty list \<Rightarrow> bool) list \<Rightarrow> 'ty list \<Rightarrow> bool" where
  "all_of_exprs exprs types =
     (if length types < length exprs then False
      else list_all (\<lambda>(e, t). e [t]) (zip exprs types))"

definition all_of_exprs_variadic :: "('ty list \<Rightarrow> bool) list \<Rightarrow> ('ty list \<Rightarrow> bool) res" where
  "all_of_exprs_variadic exprs =
     (if exprs = [] then Inl ValueError
      else Inr (\<lambda>types.
        if length types < length exprs then False
        else (let padded = (if length types > length exprs
                then exprs @ replicate (length types - length exprs) (last exprs) else exprs)
              in list_all (\<lambda>(e, t). e [t]) (zip padded types))))"

definition all_of_type :: "'ty classes \<Rightarrow> 'ty list \<Rightarrow> 'ty list \<Rightarrow> bool" where
  "all_of_type cl required types = list_all (\<lambda>t. list_ex (issubclass cl t) required) types"

definition any_of_type :: "'ty classes \<Rightarrow> 'ty list \<Rightarrow> 'ty list \<Rightarrow> bool" where
  "any_of_type cl required types = list_ex (\<lambda>t. list_ex (issubclass cl t) required) types"

subsection \<open>Matching\<close>

text \<open>\<open>issubclass\<close> with a boolean type expression, which is no class, raises a TypeError.\<close>

fun match_classes :: "'ty classes \<Rightarrow> bool \<Rightarrow> bool \<Rightarrow> 'ty spec_item list \<Rightarrow> 'ty list \<Rightarrow> bool res" where
  "match_classes cl auto_unbox auto_dequant (AnyClass # spec) (actual # types) =
     match_classes cl auto_unbox auto_dequant spec types"
| "match_classes cl auto_unbox auto_dequant (SubclassOf expected # spec) (actual # types) =
     (if issubclass cl actual expected
      then match_classes cl auto_unbox auto_dequant spec types
      else if issubclass cl expected (tensor_class cl) \<and>
              (auto_unbox \<and> issubclass cl actual (primitive_tensor_class cl) \<or>
               auto_dequant \<and> issubclass cl actual (quantized_tensor_class cl))
      then match_classes cl auto_unbox auto_dequant spec types
      else Inr False)"
| "match_classes cl auto_unbox auto_dequant (TypeExpr e # spec) (actual # types) = Inl TypeError"
| "match_classes cl auto_unbox auto_dequant spec types = Inr True"

definition is_type_expr_target :: "'ty spec_item list \<Rightarrow> bool res" where
  "is_type_expr_target override_type_spec =
     (case override_type_spec of
        TypeExpr _ # rest \<Rightarrow> if rest \<noteq> [] then Inl TypeError else Inr True
      | _ \<Rightarrow> Inr False)"

definition matches :: "'ty classes \<Rightarrow> ('f, 'ty) target_override \<Rightarrow> 'ty list \<Rightarrow> bool res" where
  "matches cl ov type_spec =
     res_bind (is_type_expr_target (ov_type_spec ov)) (\<lambda>is_expr.
       if is_expr then (case ov_type_spec ov of TypeExpr e # _ \<Rightarrow> Inr (e type_spec) | _ \<Rightarrow> Inr False)
       else if length (ov_type_spec ov) \<noteq> length type_spec then Inr False
       else match_classes cl (ov_auto_unbox ov) (ov_auto_dequant ov) (ov_type_spec ov) type_spec)"

fun match_targets :: "'ty classes \<Rightarrow> ('f, 'ty) target_override list \<Rightarrow> 'ty list \<Rightarrow> 'f list res" where
  "match_targets cl [] type_spec = Inr []"
| "match_targets cl (ov # ovs) type_spec =
     res_bind (matches cl ov type_spec) (\<lambda>hit.
     res_bind (match_targets cl ovs type_spec) (\<lambda>targets.
     Inr (if hit then ov_target ov # targets else targets)))"

subsection \<open>The dispatcher\<close>

text \<open>The trampoline of an operation is the component \<open>'t\<close>.\<close>

record ('f, 'ty, 't) dispatcher =
  dp_target_cache :: "('ty list \<times> 'f list) list"
  dp_trampoline :: "'t option"
  dp_overrides :: "('f, 'ty) target_override list"

definition new_dispatcher :: "('f, 'ty, 't) dispatcher" where
  "new_dispatcher = \<lparr>dp_target_cache = [], dp_trampoline = None, dp_overrides = []\<rparr>"

definition register_override ::
  "('f, 'ty) target_override \<Rightarrow> ('f, 'ty, 't) dispatcher \<Rightarrow> ('f, 'ty, 't) dispatcher" where
  "register_override ov d =
     d\<lparr>dp_overrides := sort_key ov_salience (dp_overrides d @ [ov]), dp_target_cache := []\<rparr>"

definition find_overrides ::
  "'ty classes \<Rightarrow> 'ty list \<Rightarrow> ('f, 'ty, 't) dispatcher \<Rightarrow> 'f list res \<times> ('f, 'ty, 't) dispatcher" where
  "find_overrides cl type_spec d =
     (case map_of (dp_target_cache d) type_spec of
        Some found_targets \<Rightarrow> (Inr (rev found_targets), d)
      | None \<Rightarrow>
          (case match_targets cl (dp_overrides d) type_spec of
             Inl e \<Rightarrow> (Inl e, d)
           | Inr found_targets \<Rightarrow>
               (Inr (rev found_targets),
                d\<lparr>dp_target_cache := AList.update type_spec found_targets (dp_target_cache d)\<rparr>)))"

definition set_trampoline ::
  "'t \<Rightarrow> ('f, 'ty, 't) dispatcher \<Rightarrow> unit res \<times> ('f, 'ty, 't) dispatcher" where
  "set_trampoline t d =
     (if dp_trampoline d \<noteq> None then (Inl AssertionError, d) else (Inr (), d\<lparr>dp_trampoline := Some t\<rparr>))"

subsection \<open>Trampolines\<close>

text \<open>
  A trampoline asks for the overrides of the types of some of its arguments, calls them in turn until
  one does not answer \<open>NotImplemented\<close>, and fails with a NotImplementedError when all do. \<open>call\<close> is
  the call of a target with the arguments of the operation.
\<close>

fun first_result :: "('f \<Rightarrow> 'r option res) \<Rightarrow> 'f list \<Rightarrow> ('f \<times> 'r) option res" where
  "first_result call [] = Inr None"
| "first_result call (override # overrides) =
     res_bind (call override) (\<lambda>result.
       case result of None \<Rightarrow> first_result call overrides | Some r \<Rightarrow> Inr (Some (override, r)))"

definition fail :: "'v res" where
  "fail = Inl NotImplementedError"

definition run_trampoline ::
  "'ty classes \<Rightarrow> ('f \<Rightarrow> 'r option res) \<Rightarrow> 'ty list \<Rightarrow> ('f, 'ty, 't) dispatcher \<Rightarrow>
   ('f \<times> 'r) res \<times> ('f, 'ty, 't) dispatcher" where
  "run_trampoline cl call type_spec d =
     (let (found, d1) = find_overrides cl type_spec d in
      (res_bind found (\<lambda>overrides. res_bind (first_result call overrides) (\<lambda>r.
         case r of None \<Rightarrow> fail | Some selected \<Rightarrow> Inr selected)), d1))"

text \<open>\<open>equal\<close> tries both operands first and then the first operand alone.\<close>

definition equal_trampoline ::
  "'ty classes \<Rightarrow> ('f \<Rightarrow> 'r option res) \<Rightarrow> 'ty \<Rightarrow> 'ty \<Rightarrow> ('f, 'ty, 't) dispatcher \<Rightarrow>
   ('f \<times> 'r) res \<times> ('f, 'ty, 't) dispatcher" where
  "equal_trampoline cl call a b d =
     (let (found, d1) = find_overrides cl [a, b] d in
      case res_bind found (first_result call) of
        Inl e \<Rightarrow> (Inl e, d1)
      | Inr (Some selected) \<Rightarrow> (Inr selected, d1)
      | Inr None \<Rightarrow> run_trampoline cl call [a] d1)"

text \<open>
  The arguments whose types are dispatched on. An optional argument is \<open>None\<close> when it is not given;
  what is looked up then is the class of Python's \<open>None\<close>, \<open>class_of None\<close>.
\<close>

definition conv2d_dispatch_args :: "'v \<Rightarrow> 'v \<Rightarrow> 'v option \<Rightarrow> 'v option list" where
  "conv2d_dispatch_args input weight bias =
     (let tensors = [Some input, Some weight] in if bias \<noteq> None then tensors @ [bias] else tensors)"

definition linear_dispatch_args :: "'v \<Rightarrow> 'v \<Rightarrow> 'v option \<Rightarrow> 'v option list" where
  "linear_dispatch_args input weight bias =
     (if bias = None then [Some input, Some weight] else [Some input, Some weight, bias])"

definition layer_norm_dispatch_args :: "'v \<Rightarrow> 'v option \<Rightarrow> 'v option \<Rightarrow> 'v option list" where
  "layer_norm_dispatch_args input weight bias =
     (let tensors = [Some input];
          tensors = (if weight \<noteq> None then tensors @ [bias] else tensors)
      in if bias \<noteq> None then tensors @ [bias] else tensors)"

definition index_put_dispatch_args :: "'v \<Rightarrow> 'v list \<Rightarrow> 'v \<Rightarrow> 'v option list" where
  "index_put_dispatch_args inout indices values = map Some ([inout, values] @ indices)"

definition elementwise_dispatch_args :: "('v \<Rightarrow> bool) \<Rightarrow> 'v list \<Rightarrow> 'v option list" where
  "elementwise_dispatch_args is_tensor args = map Some (takeWhile is_tensor args)"

text \<open>\<open>__call__\<close>: what follows the selected override in the trampoline's answer is unpacked. The last
  selected override is kept for tests when that is enabled.\<close>

datatype 'r call_result = NoResult | OneResult 'r | ManyResults "'r list"

record 'f last_dispatch =
  ld_enabled :: bool
  ld_last :: "'f option"

definition test_enable_last_op_dispatch :: "bool \<Rightarrow> 'f last_dispatch" where
  "test_enable_last_op_dispatch en = \<lparr>ld_enabled = en, ld_last = None\<rparr>"

definition test_get_last_op_dispatch :: "'f last_dispatch \<Rightarrow> 'f option res" where
  "test_get_last_op_dispatch ld = (if ld_enabled ld then Inr (ld_last ld) else Inl AssertionError)"

definition dispatcher_call ::
  "('t \<Rightarrow> ('f, 'ty, 't) dispatcher \<Rightarrow> ('f \<times> 'r list) res \<times> ('f, 'ty, 't) dispatcher) \<Rightarrow>
   ('f, 'ty, 't) dispatcher \<Rightarrow> 'f last_dispatch \<Rightarrow>
   'r call_result res \<times> ('f, 'ty, 't) dispatcher \<times> 'f last_dispatch" where
  "dispatcher_call apply_trampoline d ld =
     (case dp_trampoline d of
        None \<Rightarrow> (Inl AssertionError, d, ld)
      | Some t \<Rightarrow>
          (case apply_trampoline t d of
             (Inl e, d1) \<Rightarrow> (Inl e, d1, ld)
           | (Inr (selected_override, results), d1) \<Rightarrow>
               (Inr (case results of [r] \<Rightarrow> OneResult r | [] \<Rightarrow> NoResult | rs \<Rightarrow> ManyResults rs), d1,
                if ld_enabled ld then ld\<lparr>ld_last := Some selected_override\<rparr> else ld)))"

end
