(* ===== verification/Op_Dispatch_Properties.thy ===== *)
theory Op_Dispatch_Properties
  imports Op_Dispatch
begin

section \<open>The dispatcher against its specification\<close>

text \<open>
  What a dispatcher promises knows neither the cache nor the sorted list: of all overrides registered
  so far, those whose specification matches, the higher salience first and among equal saliences the
  later registration first.
\<close>

definition by_salience :: "('f, 'ty) target_override list \<Rightarrow> ('f, 'ty) target_override list" where
  "by_salience registered =
     concat (map (\<lambda>s. rev (filter (\<lambda>ov. ov_salience ov = s) registered))
       (rev (sorted_list_of_set (ov_salience ` set registered))))"

definition spec_find :: "'ty classes \<Rightarrow> ('f, 'ty) target_override list \<Rightarrow> 'ty list \<Rightarrow> 'f list res" where
  "spec_find cl registered type_spec =
     (if list_ex (\<lambda>ov. \<not> is_ok (matches cl ov type_spec)) registered then Inl TypeError
      else Inr (map ov_target (filter (\<lambda>ov. matches cl ov type_spec = Inr True) (by_salience registered))))"

subsection \<open>Sorting by groups\<close>

lemma filter_groups:
  "filter (\<lambda>x. f x = k) (concat (map (\<lambda>s. filter (\<lambda>x. f x = s) xs) ks)) =
     concat (map (\<lambda>s. if s = k then filter (\<lambda>x. f x = s) xs else []) ks)"
  by (induction ks) (auto simp: filter_empty_conv intro!: filter_cong)

lemma concat_single: "distinct ks \<Longrightarrow>
  concat (map (\<lambda>s. if s = k then g s else []) ks) = (if k \<in> set ks then g k else [])"
  by (induction ks) auto

lemma no_such_key: "k \<notin> f ` set xs \<Longrightarrow> filter (\<lambda>x. f x = k) xs = []"
  by (auto simp: filter_empty_conv)

lemma sorted_same_key: "sorted (map f (filter (\<lambda>x. f x = k) xs))"
  by (induction xs) auto

lemma sort_key_groups:
  "sort_key f xs = concat (map (\<lambda>s. filter (\<lambda>x. f x = s) xs) (sorted_list_of_set (f ` set xs)))"
  (is "_ = ?groups")
proof (rule properties_for_sort_key)
  have group: "filter (\<lambda>x. f x = k) ?groups = filter (\<lambda>x. f x = k) xs" for k
    unfolding filter_groups by (simp add: concat_single no_such_key)
  show "mset ?groups = mset xs"
  proof (rule multiset_eqI)
    fix x
    have "count (mset ys) x = count (mset (filter (\<lambda>y. f y = f x) ys)) x" for ys
      by (simp add: mset_filter)
    then show "count (mset ?groups) x = count (mset xs) x" using group [of "f x"] by metis
  qed
  show "filter (\<lambda>x. f k = f x) ?groups = filter (\<lambda>x. f k = f x) xs" for k
    using group [of "f k"] by (simp add: eq_commute)
  show "sorted (map f ?groups)"
  proof -
    have "sorted ks \<Longrightarrow> sorted (map f (concat (map (\<lambda>s. filter (\<lambda>x. f x = s) xs) ks)))" for ks
      by (induction ks) (auto simp: sorted_append sorted_same_key)
    then show ?thesis by simp
  qed
qed

lemma by_salience_sort: "by_salience registered = rev (sort_key ov_salience registered)"
  by (simp add: by_salience_def sort_key_groups rev_concat rev_map comp_def)

lemma sort_key_append_sorted: "sort_key f (sort_key f xs @ ys) = sort_key f (xs @ ys)"
  by (simp add: sort_key_groups [of f "_ @ _"] sort_key_stable)

subsection \<open>Simulation\<close>

lemma match_targets_spec:
  "match_targets cl ovs type_spec =
     (if list_ex (\<lambda>ov. \<not> is_ok (matches cl ov type_spec)) ovs then Inl TypeError
      else Inr (map ov_target (filter (\<lambda>ov. matches cl ov type_spec = Inr True) ovs)))"
proof (induction ovs)
  case (Cons ov ovs)
  have "matches cl ov type_spec = Inl e \<Longrightarrow> e = TypeError" for e
  proof -
    have "match_classes cl u q spec types = Inl e \<Longrightarrow> e = TypeError" for u q spec types
      by (induction cl u q spec types rule: match_classes.induct) (auto split: if_splits)
    then show "matches cl ov type_spec = Inl e \<Longrightarrow> e = TypeError"
      by (auto simp: matches_def is_type_expr_target_def res_bind_def split: list.splits spec_item.splits if_splits sum.splits)
  qed
  with Cons show ?case by (cases "matches cl ov type_spec") auto
qed simp

definition represents :: "'ty classes \<Rightarrow> ('f, 'ty) target_override list \<Rightarrow> ('f, 'ty, 't) dispatcher \<Rightarrow> bool" where
  "represents cl registered d \<longleftrightarrow>
     dp_overrides d = sort_key ov_salience registered \<and>
     (\<forall>ts fs. map_of (dp_target_cache d) ts = Some fs \<longrightarrow> match_targets cl (dp_overrides d) ts = Inr fs)"

lemma represents_new: "represents cl [] new_dispatcher"
  by (simp add: represents_def new_dispatcher_def)

lemma represents_register: "represents cl registered d \<Longrightarrow> represents cl (registered @ [ov]) (register_override ov d)"
  by (simp add: represents_def register_override_def sort_key_append_sorted)

lemma represents_find:
  assumes "represents cl registered d"
  shows "fst (find_overrides cl ts d) = spec_find cl registered ts \<and>
    represents cl registered (snd (find_overrides cl ts d))"
proof -
  have spec: "spec_find cl registered ts = (case match_targets cl (dp_overrides d) ts of Inl e \<Rightarrow> Inl e | Inr fs \<Rightarrow> Inr (rev fs))"
    using assms by (auto simp: spec_find_def represents_def match_targets_spec by_salience_sort rev_map rev_filter list_ex_iff)
  show ?thesis
  proof (cases "map_of (dp_target_cache d) ts")
    case None
    then show ?thesis using assms
      by (auto simp: spec find_overrides_def represents_def update_conv split: sum.splits if_splits)
  next
    case (Some fs)
    then have "match_targets cl (dp_overrides d) ts = Inr fs"
      using assms unfolding represents_def by blast
    with Some spec have "fst (find_overrides cl ts d) = spec_find cl registered ts"
      by (simp add: find_overrides_def)
    moreover have "snd (find_overrides cl ts d) = d" using Some by (simp add: find_overrides_def)
    ultimately show ?thesis using assms by simp
  qed
qed

datatype ('f, 'ty) dispatch_op = Register "('f, 'ty) target_override" | Find "'ty list"

fun run_ops ::
  "'ty classes \<Rightarrow> ('f, 'ty) dispatch_op list \<Rightarrow> ('f, 'ty, 't) dispatcher \<Rightarrow> 'f list res list" where
  "run_ops cl [] d = []"
| "run_ops cl (Register ov # ops) d = run_ops cl ops (register_override ov d)"
| "run_ops cl (Find ts # ops) d = (let (r, d1) = find_overrides cl ts d in r # run_ops cl ops d1)"

fun spec_ops ::
  "'ty classes \<Rightarrow> ('f, 'ty) dispatch_op list \<Rightarrow> ('f, 'ty) target_override list \<Rightarrow> 'f list res list" where
  "spec_ops cl [] registered = []"
| "spec_ops cl (Register ov # ops) registered = spec_ops cl ops (registered @ [ov])"
| "spec_ops cl (Find ts # ops) registered = spec_find cl registered ts # spec_ops cl ops registered"

lemma simulation: "represents cl registered d \<Longrightarrow> run_ops cl ops d = spec_ops cl ops registered"
proof (induction cl ops d arbitrary: registered rule: run_ops.induct)
  case (3 cl ts ops d)
  obtain r d1 where "find_overrides cl ts d = (r, d1)" by (rule prod.exhaust)
  with represents_find [OF 3(2), of ts] 3(1) show ?case by auto
qed (auto intro: represents_register)

text \<open>
  C39: The cached dispatcher refines its specification: whatever registrations and lookups are made on
  a new dispatcher, each lookup answers what the specification answers for the overrides registered up
  to then, cached or not: the matching targets with the higher salience first, later registrations first
  among equals, and a TypeError when a registered specification is ill-formed.
\<close>

theorem dispatcher_refines:
  "run_ops cl ops (new_dispatcher :: ('f, 'ty, 't) dispatcher) = spec_ops cl ops []"
  by (rule simulation) (rule represents_new)

text \<open>
  The types that \<open>layer_norm\<close> dispatches on: with a weight the bias is looked up in its place, so an
  override for the classes of input, weight and bias is not found when the classes differ.
\<close>

lemma layer_norm_looks_up_bias:
  "layer_norm_dispatch_args input (Some weight) (Some bias) = [Some input, Some bias, Some bias]"
  "layer_norm_dispatch_args input (Some weight) None = [Some input, None]"
  by (simp_all add: layer_norm_dispatch_args_def)

end
