(* ===== verification/Tn_Layout.thy ===== *)
theory Tn_Layout
  imports Py_Prelude
begin

section \<open>Row-major arrays and their concatenation along a dimension\<close>

text \<open>
  The elements of a tensor in row-major order are a list. Concatenating tensors along a dimension takes,
  for every index of the dimensions before it, one block of each tensor in turn: \<open>interleave\<close> with the
  number of these indexes and, for each tensor, the length of its blocks and its elements.
\<close>

definition block_at :: "nat \<Rightarrow> 'a list \<Rightarrow> nat \<Rightarrow> 'a list" where
  "block_at k xs p = take k (drop (p * k) xs)"

definition blocks_at :: "nat \<Rightarrow> (nat \<times> 'a list) list \<Rightarrow> 'a list" where
  "blocks_at p parts = concat (map (\<lambda>(k, xs). block_at k xs p) parts)"

definition interleave :: "nat \<Rightarrow> (nat \<times> 'a list) list \<Rightarrow> 'a list" where
  "interleave n parts = concat (map (\<lambda>p. blocks_at p parts) [0..<n])"

definition fits :: "nat \<Rightarrow> (nat \<times> 'a list) list \<Rightarrow> bool" where
  "fits n parts \<longleftrightarrow> (\<forall>(k, xs) \<in> set parts. length xs = n * k)"

lemma length_block_at: "length xs = n * k \<Longrightarrow> p < n \<Longrightarrow> length (block_at k xs p) = k"
proof -
  assume xs: "length xs = n * k" and p: "p < n"
  from p have "Suc p * k \<le> n * k" by (intro mult_le_mono1) simp
  then show ?thesis using xs by (simp add: block_at_def)
qed

lemma upt_at: "p < n \<Longrightarrow> [0..<n] = [0..<p] @ p # [Suc p..<n]"
  by (metis le_add_diff_inverse less_imp_le_nat upt_add_eq_append upt_conv_Cons zero_le)

lemma length_blocks_at: "fits n parts \<Longrightarrow> p < n \<Longrightarrow> length (blocks_at p parts) = sum_list (map fst parts)"
  by (induction parts) (auto simp: fits_def blocks_at_def length_block_at [where n = n])

lemma length_interleave: "fits n parts \<Longrightarrow> length (interleave n parts) = n * sum_list (map fst parts)"
  unfolding interleave_def
  by (subst length_concat_uniform [where n = "sum_list (map fst parts)"]) (auto simp: length_blocks_at)

lemma block_at_interleave:
  assumes "fits n parts" and "p < n"
  shows "block_at (sum_list (map fst parts)) (interleave n parts) p = blocks_at p parts"
proof -
  let ?K = "sum_list (map fst parts)"
  have len: "length (blocks_at q parts) = ?K" if "q \<in> set [0..<n]" for q
    using that assms(1) by (simp add: length_blocks_at)
  have split: "interleave n parts =
      concat (map (\<lambda>q. blocks_at q parts) [0..<p]) @ blocks_at p parts @ concat (map (\<lambda>q. blocks_at q parts) [Suc p..<n])"
    by (simp add: interleave_def upt_at [OF assms(2)])
  have "length (concat (map (\<lambda>q. blocks_at q parts) [0..<p])) = p * ?K"
    using len assms(2) by (subst length_concat_uniform [where n = ?K]) auto
  then show ?thesis using len assms(2) by (simp add: split block_at_def)
qed

lemma concat_blocks_at: "length xs = n * k \<Longrightarrow> concat (map (block_at k xs) [0..<n]) = xs"
proof (induction n arbitrary: xs)
  case (Suc n)
  have "concat (map (block_at k xs) [0..<Suc n]) =
      take k xs @ concat (map (block_at k (drop k xs)) [0..<n])"
    by (simp add: map_upt_Suc block_at_def [abs_def] add.commute [of k] del: upt_Suc)
  with Suc show ?case by simp
qed simp

lemma interleave_single: "length xs = n * k \<Longrightarrow> interleave n [(k, xs)] = xs"
  by (simp add: interleave_def blocks_at_def concat_blocks_at)

lemma interleave_rows: "fits 1 parts \<Longrightarrow> interleave 1 parts = concat (map snd parts)"
  by (induction parts) (auto simp: interleave_def blocks_at_def block_at_def fits_def)

lemma interleave_0 [simp]: "interleave 0 parts = []"
  by (simp add: interleave_def)

lemma interleave_eqI:
  assumes "fits n parts" and "length xs = n * sum_list (map fst parts)"
    and "\<And>p. p < n \<Longrightarrow> block_at (sum_list (map fst parts)) xs p = blocks_at p parts"
  shows "interleave n parts = xs"
proof -
  have "interleave n parts = concat (map (block_at (sum_list (map fst parts)) xs) [0..<n])"
    using assms(3) by (auto simp: interleave_def intro!: arg_cong [where f = concat])
  with concat_blocks_at [OF assms(2)] show ?thesis by simp
qed

lemma map_interleave: "map f (interleave n parts) = interleave n (map (\<lambda>(k, xs). (k, map f xs)) parts)"
  by (simp add: interleave_def blocks_at_def block_at_def map_concat take_map drop_map o_def split_def)

lemma zip_concat:
  "list_all2 (\<lambda>a b. length a = length b) as bs \<Longrightarrow> zip (concat as) (concat bs) = concat (map2 zip as bs)"
  by (induction rule: list_all2_induct) auto

text \<open>Two arrays with the same blocks are combined element by element within the parts.\<close>

lemma map2_interleave:
  assumes "length ks = length as" and "length as = length bs"
    and "fits n (zip ks as)" and "fits n (zip ks bs)"
  shows "map2 f (interleave n (zip ks as)) (interleave n (zip ks bs)) =
    interleave n (zip ks (map2 (map2 f) as bs))"
proof -
  have blocks: "map2 f (blocks_at p (zip ks as)) (blocks_at p (zip ks bs)) = blocks_at p (zip ks (map2 (map2 f) as bs))"
    if "p < n" for p
    using assms that
  proof (induction ks as bs rule: list_induct3)
    case (Cons k ks a as b bs)
    then have "length a = n * k" "length b = n * k" "fits n (zip ks as)" "fits n (zip ks bs)"
      by (auto simp: fits_def)
    with Cons show ?case
      by (simp add: blocks_at_def length_block_at [where n = n]) (simp add: block_at_def take_zip drop_zip take_map drop_map)
  qed (simp add: blocks_at_def)
  have len: "length (blocks_at p (zip ks as)) = length (blocks_at p (zip ks bs))" if "p < n" for p
    using that assms by (simp add: length_blocks_at)
  have "zip (interleave n (zip ks as)) (interleave n (zip ks bs)) =
      concat (map2 zip (map (\<lambda>p. blocks_at p (zip ks as)) [0..<n]) (map (\<lambda>p. blocks_at p (zip ks bs)) [0..<n]))"
    unfolding interleave_def by (rule zip_concat) (simp add: list_all2_conv_all_nth len)
  also have "\<dots> = concat (map (\<lambda>p. zip (blocks_at p (zip ks as)) (blocks_at p (zip ks bs))) [0..<n])"
    by (simp add: zip_map_map map2_map_map zip_same_conv_map o_def split_def)
  finally show ?thesis
    using blocks by (auto simp: map_concat o_def split_def interleave_def intro!: arg_cong [where f = concat])
qed

subsection \<open>Cutting\<close>

text \<open>The parts of sizes \<open>ks\<close> of every block of \<open>xs\<close>.\<close>

fun offsets :: "nat \<Rightarrow> nat list \<Rightarrow> nat list" where
  "offsets a [] = []"
| "offsets a (k # ks) = a # offsets (a + k) ks"

definition cut :: "nat \<Rightarrow> nat \<Rightarrow> nat \<Rightarrow> nat \<Rightarrow> 'a list \<Rightarrow> 'a list" where
  "cut n K a k xs = concat (map (\<lambda>p. take k (drop a (block_at K xs p))) [0..<n])"

lemma length_offsets [simp]: "length (offsets a ks) = length ks"
  by (induction ks arbitrary: a) auto

lemma length_cut:
  assumes "length xs = n * K" and "a + k \<le> K"
  shows "length (cut n K a k xs) = n * k"
  unfolding cut_def using assms by (subst length_concat_uniform [where n = k]) (auto simp: length_block_at [where n = n])

lemma block_at_cut:
  assumes "length xs = n * K" and "a + k \<le> K" and "p < n"
  shows "block_at k (cut n K a k xs) p = take k (drop a (block_at K xs p))"
proof -
  let ?f = "\<lambda>p. take k (drop a (block_at K xs p))"
  have len: "length (?f q) = k" if "q < n" for q using that assms by (simp add: length_block_at [where n = n])
  have "cut n K a k xs = concat (map ?f [0..<p]) @ ?f p @ concat (map ?f [Suc p..<n])"
    by (simp add: cut_def upt_at [OF assms(3)])
  moreover have "length (concat (map ?f [0..<p])) = p * k"
    using len assms(3) by (subst length_concat_uniform [where n = k]) auto
  ultimately show ?thesis using len assms(3) by (simp add: block_at_def)
qed

lemma concat_cuts:
  "a + sum_list ks \<le> length ys \<Longrightarrow>
   concat (map2 (\<lambda>a k. take k (drop a ys)) (offsets a ks) ks) = take (sum_list ks) (drop a ys)"
proof (induction ks arbitrary: a)
  case (Cons k ks)
  have "take (k + sum_list ks) (drop a ys) = take k (drop a ys) @ take (sum_list ks) (drop (a + k) ys)"
    by (simp add: take_add add.commute)
  with Cons show ?case by (simp add: add.assoc)
qed simp

lemma offsets_bound: "(a, k) \<in> set (zip (offsets b ks) ks) \<Longrightarrow> a + k \<le> b + sum_list ks"
  by (induction ks arbitrary: b) fastforce+

text \<open>Cutting along a dimension and concatenating the pieces gives the array back, as far as they reach.\<close>

lemma cut_all: "length xs = n * K \<Longrightarrow> cut n K 0 K xs = xs"
proof -
  assume xs: "length xs = n * K"
  have "cut n K 0 K xs = concat (map (block_at K xs) [0..<n])"
    unfolding cut_def by (intro arg_cong [where f = concat] map_cong refl) (simp add: block_at_def)
  with concat_blocks_at [OF xs] show ?thesis by simp
qed

lemma interleave_cut_prefix:
  assumes "length xs = n * K" and "sum_list ks \<le> K"
  shows "interleave n (map2 (\<lambda>a k. (k, cut n K a k xs)) (offsets 0 ks) ks) = cut n K 0 (sum_list ks) xs"
proof -
  let ?parts = "map2 (\<lambda>a k. (k, cut n K a k xs)) (offsets 0 ks) ks"
  have "blocks_at p ?parts = take (sum_list ks) (drop 0 (block_at K xs p))" if p: "p < n" for p
  proof -
    have bound: "a + k \<le> K" if "(a, k) \<in> set (zip (offsets 0 ks) ks)" for a k
      using offsets_bound [OF that] assms(2) by simp
    then have "blocks_at p ?parts = concat (map2 (\<lambda>a k. take k (drop a (block_at K xs p))) (offsets 0 ks) ks)"
      unfolding blocks_at_def using assms p by (auto simp: block_at_cut intro!: arg_cong [where f = concat])
    also have "\<dots> = take (sum_list ks) (drop 0 (block_at K xs p))"
      using assms p by (intro concat_cuts) (simp_all add: length_block_at [where n = n])
    finally show ?thesis .
  qed
  then show ?thesis unfolding interleave_def cut_def by (intro arg_cong [where f = concat] map_cong refl) simp
qed

lemma interleave_cuts:
  assumes "length xs = n * sum_list ks"
  shows "interleave n (map2 (\<lambda>a k. (k, cut n (sum_list ks) a k xs)) (offsets 0 ks) ks) = xs"
  using interleave_cut_prefix [OF assms order_refl] cut_all [OF assms] by simp

end
