(* ===== verification/Tn_Products.thy ===== *)
theory Tn_Products
  imports Tn_Layout
begin

section \<open>Products of matrices cut into blocks\<close>

text \<open>
  The product of matrices stored row by row, and what it is for a matrix made of parts: parts beside each
  other, parts below each other, and a cut of the summed dimension, whose products have to be added.
\<close>

subsection \<open>A function on every row\<close>

definition map_rows :: "nat \<Rightarrow> nat \<Rightarrow> ('a list \<Rightarrow> 'b list) \<Rightarrow> 'a list \<Rightarrow> 'b list" where
  "map_rows m k f xs = concat (map (\<lambda>p. f (block_at k xs p)) [0..<m])"

lemma map_rows_0 [simp]: "map_rows 0 k f xs = []"
  by (simp add: map_rows_def)

lemma map_rows_Suc: "map_rows (Suc m) k f xs = f (take k xs) @ map_rows m k f (drop k xs)"
  by (simp add: map_rows_def map_upt_Suc block_at_def [abs_def] add.commute [of k] del: upt_Suc)

lemma map_rows_1: "length xs = k \<Longrightarrow> map_rows 1 k f xs = f xs"
  by (simp add: map_rows_Suc)

lemma map_rows_add:
  "map_rows (m + m') k f xs = map_rows m k f (take (m * k) xs) @ map_rows m' k f (drop (m * k) xs)"
proof (induction m arbitrary: xs)
  case (Suc m)
  show ?case by (simp add: map_rows_Suc Suc.IH drop_take min_def add.commute [of k])
qed simp

lemma map_rows_append:
  "length xs = m * k \<Longrightarrow> map_rows (m + m') k f (xs @ ys) = map_rows m k f xs @ map_rows m' k f ys"
  by (simp add: map_rows_add)

lemma length_map_rows:
  assumes "\<And>r. length r = k \<Longrightarrow> length (f r) = n" and "length xs = m * k"
  shows "length (map_rows m k f xs) = m * n"
  using assms(2) by (induction m arbitrary: xs) (simp_all add: map_rows_Suc assms(1))

lemma map_rows_block:
  assumes "\<And>r. length r = k \<Longrightarrow> length (f r) = n" and "length xs = P * (m * k)" and "p < P"
  shows "map_rows m k f (block_at (m * k) xs p) = block_at (m * n) (map_rows (P * m) k f xs) p"
  using assms(2,3)
proof (induction P arbitrary: p xs)
  case (Suc P)
  note len = length_map_rows [where k = k and f = f and n = n, OF assms(1)]
  have split: "map_rows (m + P * m) k f xs = map_rows m k f (take (m * k) xs) @ map_rows (P * m) k f (drop (m * k) xs)"
    by (rule map_rows_add)
  show ?case
  proof (cases p)
    case 0
    with Suc.prems len [of "take (m * k) xs" m] show ?thesis by (simp add: split block_at_def)
  next
    case (Suc q)
    with Suc.prems Suc.IH [of "drop (m * k) xs" q] len [of "take (m * k) xs" m] show ?thesis
      by (simp add: split block_at_def add.commute)
  qed
qed simp

text \<open>The rows are those of the parts.\<close>

lemma map_rows_concat:
  assumes "\<forall>(m, xs) \<in> set ys. length xs = m * k"
  shows "map_rows (sum_list (map fst ys)) k f (concat (map snd ys)) = concat (map (\<lambda>(m, xs). map_rows m k f xs) ys)"
  using assms by (induction ys) (auto simp: map_rows_append)

lemma map_rows_interleave:
  assumes f: "\<And>r. length r = k \<Longrightarrow> length (f r) = n"
    and parts: "fits P (map (\<lambda>(m, xs). (m * k, xs)) ps)"
  shows "map_rows (P * sum_list (map fst ps)) k f (interleave P (map (\<lambda>(m, xs). (m * k, xs)) ps)) =
    interleave P (map (\<lambda>(m, xs). (m * n, map_rows (P * m) k f xs)) ps)"
proof (rule interleave_eqI [symmetric])
  let ?M = "sum_list (map fst ps)" let ?as = "map (\<lambda>(m, xs). (m * k, xs)) ps"
  let ?bs = "map (\<lambda>(m, xs). (m * n, map_rows (P * m) k f xs)) ps"
  have len: "length xs = P * (m * k)" if "(m, xs) \<in> set ps" for m xs
    using parts that by (auto simp: fits_def)
  have sums: "sum_list (map fst ?as) = ?M * k" "sum_list (map fst ?bs) = ?M * n"
    by (simp_all add: o_def split_def sum_list_mult_const)
  note len_as = length_interleave [OF parts, unfolded sums]
  show "fits P ?bs"
    using len length_map_rows [where k = k and f = f and n = n, OF f] by (fastforce simp: fits_def mult.assoc)
  show "length (map_rows (P * ?M) k f (interleave P ?as)) = P * sum_list (map fst ?bs)"
    unfolding sums using length_map_rows [where k = k and f = f and n = n, OF f] len_as by (simp add: mult.assoc)
  fix p assume p: "p < P"
  have "block_at (?M * n) (map_rows (P * ?M) k f (interleave P ?as)) p = map_rows ?M k f (block_at (?M * k) (interleave P ?as) p)"
    using map_rows_block [where k = k and f = f and n = n, OF f len_as p] by simp
  also have "\<dots> = map_rows ?M k f (blocks_at p ?as)"
    using block_at_interleave [OF parts p] by (simp only: sums)
  also have "\<dots> = map_rows (sum_list (map fst (map (\<lambda>(m, xs). (m, block_at (m * k) xs p)) ps))) k f
      (concat (map snd (map (\<lambda>(m, xs). (m, block_at (m * k) xs p)) ps)))"
    by (simp add: blocks_at_def o_def split_def)
  also have "\<dots> = concat (map (\<lambda>(m, xs). map_rows m k f (block_at (m * k) xs p)) ps)"
    using len p by (subst map_rows_concat) (auto simp: length_block_at [where n = P] o_def split_def)
  also have "\<dots> = blocks_at p ?bs"
    unfolding blocks_at_def map_map o_def
    by (intro arg_cong [where f = concat] map_cong refl) (auto simp: map_rows_block [where k = k and f = f and n = n, OF f len p])
  finally show "block_at (sum_list (map fst ?bs)) (map_rows (P * ?M) k f (interleave P ?as)) p = blocks_at p ?bs"
    by (simp only: sums)
qed

subsection \<open>Products\<close>

text \<open>The product of a row and a matrix with rows of length \<open>n\<close>.\<close>

fun vec_mat :: "nat \<Rightarrow> 'a::semiring_0 list \<Rightarrow> 'a list \<Rightarrow> 'a list" where
  "vec_mat n [] B = List.replicate n 0"
| "vec_mat n (a # r) B = map2 (+) (map ((*) a) (take n B)) (vec_mat n r (drop n B))"

definition mat_mul :: "nat \<Rightarrow> nat \<Rightarrow> nat \<Rightarrow> 'a::semiring_0 list \<Rightarrow> 'a list \<Rightarrow> 'a list" where
  "mat_mul m k n A B = map_rows m k (\<lambda>r. vec_mat n r B) A"

lemma length_vec_mat: "length B = length r * n \<Longrightarrow> length (vec_mat n r B) = n"
  by (induction r arbitrary: B) auto

lemma length_mat_mul: "length A = m * k \<Longrightarrow> length B = k * n \<Longrightarrow> length (mat_mul m k n A B) = m * n"
  unfolding mat_mul_def by (rule length_map_rows) (simp_all add: length_vec_mat)

lemma block_at_mat_mul:
  assumes "length A = m * k" and "length B = k * n" and "p < m"
  shows "block_at n (mat_mul m k n A B) p = vec_mat n (block_at k A p) B"
  using map_rows_block [where k = k and f = "\<lambda>r. vec_mat n r B" and n = n and m = 1, of A m p] assms
    map_rows_1 [OF length_block_at [OF assms(1,3)], of "\<lambda>r. vec_mat n r B"]
  by (simp add: length_vec_mat mat_mul_def)

lemma map2_zeros: "length xs = n \<Longrightarrow> map2 (+) (List.replicate n (0::'a::semiring_0)) xs = xs"
  by (intro nth_equalityI) auto

lemma map2_add_assoc:
  "map2 (+) (map2 (+) as bs) cs = map2 (+) as (map2 (+) bs (cs :: 'a::semiring_0 list))"
  by (rule nth_equalityI) (simp_all add: add.assoc)

lemma vec_mat_append:
  assumes "length B = length r * n" and "length B' = length r' * n"
  shows "vec_mat n (r @ r') (B @ B') = map2 (+) (vec_mat n r B) (vec_mat n r' B')"
  using assms(1)
proof (induction r arbitrary: B)
  case Nil
  then show ?case using assms(2) by (simp add: map2_zeros length_vec_mat)
next
  case (Cons a r)
  then show ?case by (simp add: map2_add_assoc)
qed

text \<open>A matrix made of matrices beside each other.\<close>

lemma vec_mat_interleave:
  assumes "fits (length r) parts"
  shows "vec_mat (sum_list (map fst parts)) r (interleave (length r) parts) =
    concat (map (\<lambda>(n, B). vec_mat n r B) parts)"
  using assms
proof (induction r arbitrary: parts)
  case Nil
  show ?case by (induction parts) (auto simp: replicate_add)
next
  case (Cons a r)
  let ?rest = "map (\<lambda>(n, B). (n, drop n B)) parts"
  have fits: "fits (length r) ?rest" and len: "\<forall>(n, B) \<in> set parts. length B = n + length r * n"
    using Cons.prems by (auto simp: fits_def)
  have rest: "sum_list (map fst ?rest) = sum_list (map fst parts)" by (simp add: o_def split_def)
  have "interleave (Suc (length r)) parts = blocks_at 0 parts @ interleave (length r) ?rest"
    by (simp add: interleave_def blocks_at_def block_at_def map_upt_Suc o_def split_def add.commute del: upt_Suc)
  moreover have "length (blocks_at 0 parts) = sum_list (map fst parts)"
    using length_blocks_at [OF Cons.prems, of 0] by simp
  ultimately have "vec_mat (sum_list (map fst parts)) (a # r) (interleave (length (a # r)) parts) =
      map2 (+) (map ((*) a) (blocks_at 0 parts)) (concat (map (\<lambda>(n, B). vec_mat n r B) ?rest))"
    using Cons.IH [OF fits] unfolding rest by simp
  also have "\<dots> = concat (map (\<lambda>(n, B). vec_mat n (a # r) B) parts)"
    using len
  proof (induction parts)
    case (Cons part parts)
    then show ?case
      by (cases part) (auto simp: blocks_at_def block_at_def length_vec_mat)
  qed (simp add: blocks_at_def)
  finally show ?case .
qed

theorem mat_mul_columns:
  assumes "length A = m * k" and "fits k parts"
  shows "mat_mul m k (sum_list (map fst parts)) A (interleave k parts) =
    interleave m (map (\<lambda>(n, B). (n, mat_mul m k n A B)) parts)"
proof (rule interleave_eqI [symmetric])
  let ?ps = "map (\<lambda>(n, B). (n, mat_mul m k n A B)) parts"
  have sums: "sum_list (map fst ?ps) = sum_list (map fst parts)" by (simp add: o_def split_def)
  have lenB: "length B = k * n" if "(n, B) \<in> set parts" for n B using assms(2) that by (auto simp: fits_def)
  then show "fits m ?ps" using assms(1) by (auto simp: fits_def length_mat_mul)
  show "length (mat_mul m k (sum_list (map fst parts)) A (interleave k parts)) = m * sum_list (map fst ?ps)"
    unfolding sums using assms by (intro length_mat_mul) (simp_all add: length_interleave)
  fix p assume p: "p < m"
  note row = block_at_mat_mul [OF assms(1) _ p]
  let ?r = "block_at k A p"
  have r: "length ?r = k" using assms(1) p by (rule length_block_at)
  have "block_at (sum_list (map fst parts)) (mat_mul m k (sum_list (map fst parts)) A (interleave k parts)) p =
      vec_mat (sum_list (map fst parts)) ?r (interleave k parts)"
    using assms(2) by (intro row) (simp add: length_interleave)
  also have "\<dots> = concat (map (\<lambda>(n, B). vec_mat n ?r B) parts)"
    using vec_mat_interleave [of ?r parts] assms(2) by (simp add: r)
  also have "\<dots> = blocks_at p ?ps"
    unfolding blocks_at_def map_map o_def
    by (intro arg_cong [where f = concat] map_cong refl) (auto simp: row lenB)
  finally show "block_at (sum_list (map fst ?ps)) (mat_mul m k (sum_list (map fst parts)) A (interleave k parts)) p = blocks_at p ?ps"
    by (simp only: sums)
qed

subsection \<open>A cut of the summed dimension\<close>

definition sum_cells :: "'a::semiring_0 list list \<Rightarrow> 'a list" where
  "sum_cells xss = (case xss of [] \<Rightarrow> [] | xs # yss \<Rightarrow> foldl (map2 (+)) xs yss)"

lemma foldl_map2_add:
  "foldl (map2 (+)) (map2 (+) xs ys) zss = map2 (+) xs (foldl (map2 (+)) ys (zss :: 'a::semiring_0 list list))"
  by (induction zss arbitrary: ys) (simp_all add: map2_add_assoc)

lemma sum_cells_Cons: "xss \<noteq> [] \<Longrightarrow> sum_cells (xs # xss) = map2 (+) xs (sum_cells xss)"
  by (cases xss) (simp_all add: sum_cells_def foldl_map2_add)

lemma interleave_Cons:
  assumes "fits m parts"
  shows "interleave m ((k, A) # parts) = interleave m [(k, A), (sum_list (map fst parts), interleave m parts)]"
proof -
  let ?K = "sum_list (map fst parts)"
  have "blocks_at p ((k, A) # parts) = blocks_at p [(k, A), (?K, interleave m parts)]" if "p < m" for p
  proof -
    have "blocks_at p ((k, A) # parts) = block_at k A p @ blocks_at p parts" by (simp add: blocks_at_def)
    also have "blocks_at p parts = block_at ?K (interleave m parts) p"
      using block_at_interleave [OF assms that] by simp
    finally show ?thesis by (simp add: blocks_at_def)
  qed
  then have "map (\<lambda>p. blocks_at p ((k, A) # parts)) [0..<m] = map (\<lambda>p. blocks_at p [(k, A), (?K, interleave m parts)]) [0..<m]"
    by (intro map_cong refl) simp
  then show ?thesis unfolding interleave_def [of m "(k, A) # parts"] interleave_def [of m "[(k, A), _]"] by (simp only:)
qed

lemma mat_mul_two:
  assumes A: "length A = m * k" "length A' = m * k'" and B: "length B = k * n" "length B' = k' * n"
  shows "mat_mul m (k + k') n (interleave m [(k, A), (k', A')]) (B @ B') = map2 (+) (mat_mul m k n A B) (mat_mul m k' n A' B')"
proof -
  let ?f = "\<lambda>p. vec_mat n (block_at k A p) B" and ?g = "\<lambda>p. vec_mat n (block_at k' A' p) B'"
  have fits: "fits m [(k, A), (k', A')]" using A by (simp add: fits_def)
  have len: "length (?f p) = n" "length (?g p) = n" if "p < m" for p
    using A B that by (simp_all add: length_vec_mat length_block_at [where n = m])
  have "vec_mat n (block_at (k + k') (interleave m [(k, A), (k', A')]) p) (B @ B') = map2 (+) (?f p) (?g p)" if "p < m" for p
    using block_at_interleave [OF fits that] A B that
    by (simp add: blocks_at_def vec_mat_append length_block_at [where n = m])
  then have "mat_mul m (k + k') n (interleave m [(k, A), (k', A')]) (B @ B') = concat (map (\<lambda>p. map2 (+) (?f p) (?g p)) [0..<m])"
    unfolding mat_mul_def map_rows_def by (intro arg_cong [where f = concat] map_cong refl) simp
  also have "\<dots> = map (\<lambda>(x, y). x + y) (concat (map2 zip (map ?f [0..<m]) (map ?g [0..<m])))"
    by (simp add: map_concat o_def zip_map_map map2_map_map zip_same_conv_map)
  also have "\<dots> = map2 (+) (concat (map ?f [0..<m])) (concat (map ?g [0..<m]))"
    using len by (subst zip_concat) (auto simp: list_all2_conv_all_nth)
  finally show ?thesis by (simp add: mat_mul_def map_rows_def)
qed

theorem mat_mul_sum:
  assumes "parts \<noteq> []" and "\<forall>(k, A, B) \<in> set parts. length A = m * k \<and> length B = k * n"
  shows "mat_mul m (sum_list (map fst parts)) n (interleave m (map (\<lambda>(k, A, B). (k, A)) parts)) (concat (map (\<lambda>(k, A, B). B) parts)) =
    sum_cells (map (\<lambda>(k, A, B). mat_mul m k n A B) parts)"
  using assms
proof (induction parts)
  case (Cons part parts)
  obtain k A B where part: "part = (k, A, B)" by (cases part)
  show ?case
  proof (cases "parts = []")
    case True
    with Cons.prems part show ?thesis by (simp add: sum_cells_def interleave_single)
  next
    case False
    let ?as = "map (\<lambda>(k, A, B). (k, A)) parts" and ?K = "sum_list (map fst parts)"
    have K: "sum_list (map fst ?as) = ?K" by (simp add: o_def split_def)
    have fits: "fits m ?as" using Cons.prems by (auto simp: fits_def)
    have lenB: "length (concat (map (\<lambda>(k, A, B). B) parts)) = ?K * n"
      using Cons.prems(2) by (induction parts) (auto simp: distrib_right)
    have lenA: "length (interleave m ?as) = m * ?K" using length_interleave [OF fits] unfolding K .
    have "length A = m * k" "length B = k * n" using Cons.prems(2) part by auto
    from mat_mul_two [OF this(1) lenA this(2) lenB] have
      "mat_mul m (k + ?K) n (interleave m [(k, A), (?K, interleave m ?as)]) (B @ concat (map (\<lambda>(k, A, B). B) parts)) =
       map2 (+) (mat_mul m k n A B) (sum_cells (map (\<lambda>(k, A, B). mat_mul m k n A B) parts))"
      using Cons.IH [OF False] Cons.prems(2) by simp
    then show ?thesis
      using False interleave_Cons [OF fits, of k A, unfolded K] by (simp add: part K sum_cells_Cons)
  qed
qed simp

subsection \<open>Transposition\<close>

definition transposed :: "nat \<Rightarrow> nat \<Rightarrow> 'a list \<Rightarrow> 'a list" where
  "transposed m n xs = concat (map (\<lambda>j. map (\<lambda>i. xs ! (i * n + j)) [0..<m]) [0..<n])"

lemma length_transposed [simp]: "length (transposed m n xs) = m * n"
  unfolding transposed_def by (subst length_concat_uniform [where n = m]) auto

lemma block_at_transposed: "j < n \<Longrightarrow> block_at m (transposed m n xs) j = map (\<lambda>i. xs ! (i * n + j)) [0..<m]"
proof -
  assume j: "j < n"
  let ?f = "\<lambda>j. map (\<lambda>i. xs ! (i * n + j)) [0..<m]"
  have "transposed m n xs = concat (map ?f [0..<j]) @ ?f j @ concat (map ?f [Suc j..<n])"
    by (simp add: transposed_def upt_at [OF j])
  moreover have "length (concat (map ?f [0..<j])) = j * m"
    by (subst length_concat_uniform [where n = m]) auto
  ultimately show ?thesis by (simp add: block_at_def)
qed

lemma block_at_nth: "length xs = n * k \<Longrightarrow> p < n \<Longrightarrow> i < k \<Longrightarrow> block_at k xs p ! i = xs ! (p * k + i)"
proof -
  assume "length xs = n * k" "p < n" "i < k"
  moreover from \<open>p < n\<close> have "Suc p * k \<le> n * k" by (intro mult_le_mono1) simp
  ultimately show ?thesis by (simp add: block_at_def)
qed

lemma nth_transposed: "i < m \<Longrightarrow> j < n \<Longrightarrow> transposed m n xs ! (j * m + i) = xs ! (i * n + j)"
  using block_at_nth [of "transposed m n xs" n m j i] block_at_transposed [of j n m xs] by simp

lemma eq_by_blocks:
  assumes "length xs = n * k" and "length ys = n * k" and "\<And>p. p < n \<Longrightarrow> block_at k xs p = block_at k ys p"
  shows "xs = ys"
proof -
  have "concat (map (block_at k xs) [0..<n]) = concat (map (block_at k ys) [0..<n])"
    using assms(3) by (intro arg_cong [where f = concat] map_cong refl) simp
  then show ?thesis by (simp only: concat_blocks_at [OF assms(1)] concat_blocks_at [OF assms(2)])
qed

lemma transposed_transposed: "length xs = m * n \<Longrightarrow> transposed n m (transposed m n xs) = xs"
proof (rule eq_by_blocks [where n = m and k = n])
  fix p assume xs: "length xs = m * n" and p: "p < m"
  have "block_at n (transposed n m (transposed m n xs)) p = map (\<lambda>j. xs ! (p * n + j)) [0..<n]"
    using p by (simp add: block_at_transposed nth_transposed)
  also have "\<dots> = block_at n xs p"
    using xs p by (intro nth_equalityI) (simp_all add: length_block_at [where n = m] block_at_nth [where n = m])
  finally show "block_at n (transposed n m (transposed m n xs)) p = block_at n xs p" .
qed (simp_all add: mult.commute)

text \<open>The transposed of rows below each other are columns beside each other, and conversely.\<close>

lemma column_concat:
  assumes "\<forall>(m, xs) \<in> set parts. length xs = m * n" and "j < n"
  shows "map (\<lambda>i. concat (map snd parts) ! (i * n + j)) [0..<sum_list (map fst parts)] =
    concat (map (\<lambda>(m, xs). map (\<lambda>i. xs ! (i * n + j)) [0..<m]) parts)"
  using assms(1)
proof (induction parts)
  case (Cons part parts)
  obtain m xs where part: "part = (m, xs)" by (cases part)
  let ?M = "sum_list (map fst parts)"
  have xs: "length xs = m * n" using Cons.prems part by simp
  have inside: "i * n + j < m * n" if "i < m" for i
  proof -
    from that have "Suc i * n \<le> m * n" by (intro mult_le_mono1) simp
    with assms(2) show ?thesis by simp
  qed
  have "[0..<m + ?M] = [0..<m] @ map (\<lambda>i. i + m) [0..<?M]"
    using upt_add_eq_append [of 0 m ?M] by (simp add: map_add_upt add.commute [of m])
  moreover have "map (\<lambda>i. (xs @ concat (map snd parts)) ! (i * n + j)) [0..<m] = map (\<lambda>i. xs ! (i * n + j)) [0..<m]"
    using inside xs by (simp add: nth_append)
  moreover have "(xs @ concat (map snd parts)) ! ((i + m) * n + j) = concat (map snd parts) ! (i * n + j)" for i
    using xs by (simp add: nth_append algebra_simps)
  ultimately show ?case
    using Cons by (simp add: part o_def)
qed simp

lemma transposed_rows:
  assumes "\<forall>(m, xs) \<in> set parts. length xs = m * n"
  shows "transposed (sum_list (map fst parts)) n (concat (map snd parts)) =
    interleave n (map (\<lambda>(m, xs). (m, transposed m n xs)) parts)"
proof (rule interleave_eqI [symmetric])
  let ?ps = "map (\<lambda>(m, xs). (m, transposed m n xs)) parts"
  have sums: "sum_list (map fst ?ps) = sum_list (map fst parts)" by (simp add: o_def split_def)
  show "fits n ?ps" by (auto simp: fits_def mult.commute)
  show "length (transposed (sum_list (map fst parts)) n (concat (map snd parts))) = n * sum_list (map fst ?ps)"
    unfolding sums length_transposed by (rule mult.commute)
  fix j assume j: "j < n"
  have "block_at (sum_list (map fst parts)) (transposed (sum_list (map fst parts)) n (concat (map snd parts))) j =
      concat (map (\<lambda>(m, xs). map (\<lambda>i. xs ! (i * n + j)) [0..<m]) parts)"
    unfolding block_at_transposed [OF j] by (rule column_concat [OF assms j])
  also have "\<dots> = blocks_at j ?ps"
    unfolding blocks_at_def map_map o_def
    by (intro arg_cong [where f = concat] map_cong refl) (auto simp: block_at_transposed j)
  finally show "block_at (sum_list (map fst ?ps)) (transposed (sum_list (map fst parts)) n (concat (map snd parts))) j = blocks_at j ?ps"
    unfolding sums .
qed

lemma transposed_columns:
  assumes "fits m parts"
  shows "transposed m (sum_list (map fst parts)) (interleave m parts) = concat (map (\<lambda>(n, xs). transposed m n xs) parts)"
proof -
  let ?N = "sum_list (map fst parts)" let ?ps = "map (\<lambda>(n, xs). (n, transposed m n xs)) parts"
  have sums: "sum_list (map fst ?ps) = ?N" by (simp add: o_def split_def)
  have lens: "\<forall>(n, xs) \<in> set ?ps. length xs = n * m" by (auto simp: mult.commute)
  have concat: "concat (map snd ?ps) = concat (map (\<lambda>(n, xs). transposed m n xs) parts)" by (simp add: o_def split_def)
  have "transposed ?N m (concat (map snd ?ps)) = interleave m (map (\<lambda>(n, xs). (n, transposed n m xs)) ?ps)"
    using transposed_rows [of ?ps m, OF lens] by (simp only: sums)
  also have "map (\<lambda>(n, xs). (n, transposed n m xs)) ?ps = parts"
    using assms by (intro nth_equalityI) (auto simp: fits_def transposed_transposed split_def dest: nth_mem)
  finally have "transposed m ?N (interleave m parts) = transposed m ?N (transposed ?N m (concat (map snd ?ps)))" by simp
  also have "\<dots> = concat (map snd ?ps)"
  proof (rule transposed_transposed)
    show "length (concat (map snd ?ps)) = ?N * m"
      using lens by (induction parts) (auto simp: distrib_right)
  qed
  finally show ?thesis unfolding concat .
qed

end
