(* ===== verification/Tn_Tensors.thy ===== *)
theory Tn_Tensors
  imports Py_Text
begin

section \<open>Primitive and sharded tensors\<close>

text \<open>
  Model of the primitive and sharded tensors of \<open>sharktank/types/tensors.py\<close>. A tensor of torch is a
  value of type \<open>'t\<close>; what the code calls on it is the record \<open>torch\<close>, whose entries raise what torch
  raises. Arguments that the code only passes on (dtypes, strides, modes, numbers) are values of type
  \<open>'o\<close>. Shapes are lists of ints, as the code compares and computes them.
\<close>

text \<open>What an index of a tensor is made of: slices (start, stop, step), ints, the ellipsis, a new axis and
  tensors.\<close>

datatype 't key =
  SliceKey "int option" "int option" "int option" | IntKey int | EllipsisKey | NewAxisKey | TensorKey 't

record ('t, 'o) torch =
  th_shape :: "'t \<Rightarrow> int list"
  th_equal :: "'t \<Rightarrow> 't \<Rightarrow> bool"
  th_transfer :: "int \<Rightarrow> 't \<Rightarrow> 't"
  th_split :: "'t \<Rightarrow> int \<Rightarrow> int \<Rightarrow> 't list res"
  th_cat :: "'t list \<Rightarrow> int \<Rightarrow> 't res"
  th_getitem :: "'t \<Rightarrow> 't key list \<Rightarrow> 't res"
  th_setitem :: "'t \<Rightarrow> 't key list \<Rightarrow> 't \<Rightarrow> 't res"
  th_add :: "'t \<Rightarrow> 't \<Rightarrow> 't res"
  th_mul :: "'t \<Rightarrow> 't \<Rightarrow> 't res"
  th_dtype :: "'t \<Rightarrow> 'o"
  th_to :: "'t \<Rightarrow> 'o \<Rightarrow> 't res"
  th_matmul :: "'t \<Rightarrow> 't \<Rightarrow> 't res"
  th_mT :: "'t \<Rightarrow> 't res"
  th_flatten :: "'t \<Rightarrow> int \<Rightarrow> int \<Rightarrow> 't res"
  th_unflatten :: "'t \<Rightarrow> int \<Rightarrow> int list \<Rightarrow> 't res"
  th_view :: "'t \<Rightarrow> int list \<Rightarrow> 't res"
  th_reshape :: "'t \<Rightarrow> int list \<Rightarrow> 't res"
  th_expand :: "'t \<Rightarrow> int list \<Rightarrow> 't res"
  th_repeat :: "'t \<Rightarrow> int list \<Rightarrow> 't res"
  th_permute :: "'t \<Rightarrow> int list \<Rightarrow> 't res"
  th_transpose :: "'t \<Rightarrow> int \<Rightarrow> int \<Rightarrow> 't res"
  th_unsqueeze :: "'t \<Rightarrow> int \<Rightarrow> 't res"
  th_squeeze :: "'t \<Rightarrow> int option \<Rightarrow> 't res"
  th_index_select :: "'t \<Rightarrow> int \<Rightarrow> 't \<Rightarrow> 't res"
  th_gather :: "'t \<Rightarrow> int \<Rightarrow> 't \<Rightarrow> 't res"
  th_index_copy :: "'t \<Rightarrow> int \<Rightarrow> 't \<Rightarrow> 't \<Rightarrow> 't res"
  th_index_put :: "'t \<Rightarrow> 't list \<Rightarrow> 't \<Rightarrow> 't res"
  th_softmax :: "'t \<Rightarrow> int option \<Rightarrow> 'o \<Rightarrow> 't res"
  th_mean :: "'t \<Rightarrow> 'o \<Rightarrow> 't res"
  th_interpolate :: "'t \<Rightarrow> 'o \<Rightarrow> 't res"
  th_conv2d :: "'t \<Rightarrow> 't \<Rightarrow> 't option \<Rightarrow> 'o \<Rightarrow> int \<Rightarrow> 't res"
  th_group_norm :: "'t \<Rightarrow> int \<Rightarrow> 't \<Rightarrow> 't \<Rightarrow> 'o \<Rightarrow> 't res"
  th_layer_norm :: "'t \<Rightarrow> int list \<Rightarrow> 't \<Rightarrow> 't \<Rightarrow> 'o \<Rightarrow> 't res"
  th_ones :: "int list \<Rightarrow> 'o \<Rightarrow> 't"
  th_zeros :: "int list \<Rightarrow> 'o \<Rightarrow> 't"
  th_embedding :: "'t \<Rightarrow> 't \<Rightarrow> 't res"
  th_attention :: "'t \<Rightarrow> 't \<Rightarrow> 't \<Rightarrow> 't option \<Rightarrow> 'o \<Rightarrow> 't res"
  th_view_as_complex :: "'t \<Rightarrow> 't res"
  th_view_as_real :: "'t \<Rightarrow> 't res"

subsection \<open>Tensors\<close>

definition unnamed_tensor_name :: string where
  "unnamed_tensor_name = ''<unnamed>''"

record 't prim_tensor =
  pt_name :: string
  pt_shape :: "int list"
  pt_data :: 't

definition new_prim :: "('t, 'o) torch \<Rightarrow> 't \<Rightarrow> string \<Rightarrow> 't prim_tensor" where
  "new_prim T data name = \<lparr>pt_name = name, pt_shape = th_shape T data, pt_data = data\<rparr>"

definition prim_deep_equal :: "('t, 'o) torch \<Rightarrow> 't prim_tensor \<Rightarrow> 't prim_tensor \<Rightarrow> bool" where
  "prim_deep_equal T a b \<longleftrightarrow>
     pt_shape a = pt_shape b \<and> pt_name a = pt_name b \<and> th_equal T (pt_data a) (pt_data b)"

text \<open>What a constructor of a sharded tensor is given for a shard: a tensor of torch or one of ours.\<close>

datatype 't shard = RawShard 't | PrimShard "'t prim_tensor"

definition shard_shape :: "('t, 'o) torch \<Rightarrow> 't shard \<Rightarrow> int list" where
  "shard_shape T s = (case s of RawShard t \<Rightarrow> th_shape T t | PrimShard p \<Rightarrow> pt_shape p)"

text \<open>The three classes of sharded tensors; \<open>shard_dim\<close> is \<open>None\<close> for all but the split ones.\<close>

datatype sharding_class = SplitPrimitiveTensor | ReplicatedTensor | UnreducedTensor

record 't sharded =
  sh_class :: sharding_class
  sh_name :: string
  sh_shape :: "int list"
  sh_dim :: "int option"
  sh_shards :: "'t prim_tensor list"

definition shard_count :: "'t sharded \<Rightarrow> int" where
  "shard_count x = int (length (sh_shards x))"

definition is_replicated :: "'t sharded \<Rightarrow> bool" where
  "is_replicated x \<longleftrightarrow> sh_class x = ReplicatedTensor"

definition shard_name :: "string \<Rightarrow> nat \<Rightarrow> string" where
  "shard_name name i = name @ ''.shard.'' @ nat_str i"

text \<open>Setting the name of a sharded tensor renames its shards.\<close>

definition set_sharded_name :: "string \<Rightarrow> 't sharded \<Rightarrow> 't sharded" where
  "set_sharded_name name x =
     x\<lparr>sh_name := name,
       sh_shards := map (\<lambda>(i, s). s\<lparr>pt_name := shard_name name i\<rparr>) (enumerate 0 (sh_shards x))\<rparr>"

subsection \<open>Constructors\<close>

definition box_shards :: "('t, 'o) torch \<Rightarrow> string \<Rightarrow> 't shard list \<Rightarrow> 't prim_tensor list" where
  "box_shards T name ts =
     map (\<lambda>(i, t). case t of RawShard d \<Rightarrow> new_prim T d (shard_name name i) | PrimShard p \<Rightarrow> p) (enumerate 0 ts)"

definition new_sharded_base ::
  "('t, 'o) torch \<Rightarrow> sharding_class \<Rightarrow> int option \<Rightarrow> 't shard list \<Rightarrow> string \<Rightarrow> int list \<Rightarrow> 't sharded res" where
  "new_sharded_base T cls shard_dim ts name shape =
     (case ts of
        [] \<Rightarrow> Inl AssertionError
      | t0 # _ \<Rightarrow>
         (if (case shard_dim of None \<Rightarrow> True | Some d \<Rightarrow> 0 \<le> d \<and> d < int (length (shard_shape T t0)))
          then Inr \<lparr>sh_class = cls, sh_name = name, sh_shape = shape, sh_dim = shard_dim,
                    sh_shards = box_shards T name ts\<rparr>
          else Inl AssertionError))"

definition matches_but_dim :: "int \<Rightarrow> int list \<Rightarrow> int list \<Rightarrow> bool" where
  "matches_but_dim shard_dim shape t_shape \<longleftrightarrow>
     length shape = length t_shape \<and>
     list_all (\<lambda>(i, (s, t)). int i \<noteq> shard_dim \<longrightarrow> s = t) (enumerate 0 (zip shape t_shape))"

definition new_split ::
  "('t, 'o) torch \<Rightarrow> int \<Rightarrow> 't shard list \<Rightarrow> string \<Rightarrow> int list option \<Rightarrow> 't sharded res" where
  "new_split T shard_dim ts name shape =
     (case ts of
        [] \<Rightarrow> Inl AssertionError
      | t0 # _ \<Rightarrow>
         (let first_shape = shard_shape T t0 in
          if \<not> int (length first_shape) > shard_dim then Inl AssertionError
          else
            res_bind (res_map (\<lambda>t. py_get (shard_shape T t) shard_dim) ts) (\<lambda>sizes.
            res_bind (py_set first_shape shard_dim (sum_list sizes)) (\<lambda>expected_shape.
            if shape \<noteq> None \<and> shape \<noteq> Some expected_shape then Inl AssertionError
            else if \<not> list_all (\<lambda>t. matches_but_dim shard_dim expected_shape (shard_shape T t)) ts
            then Inl AssertionError
            else new_sharded_base T SplitPrimitiveTensor (Some shard_dim) ts name expected_shape))))"

definition py_ceildiv :: "int \<Rightarrow> int \<Rightarrow> int res" where
  "py_ceildiv a b = (if b = 0 then Inl ZeroDivisionError else Inr (- (a div (- b))))"

definition new_split_of_tensor ::
  "('t, 'o) torch \<Rightarrow> int \<Rightarrow> 't \<Rightarrow> int option \<Rightarrow> string \<Rightarrow> int list option \<Rightarrow> 't sharded res" where
  "new_split_of_tensor T shard_dim t num_shards name shape =
     (case num_shards of
        None \<Rightarrow> Inl AssertionError
      | Some n_shards \<Rightarrow>
         res_bind (py_get (th_shape T t) shard_dim) (\<lambda>n.
         res_bind (py_ceildiv n n_shards) (\<lambda>size.
         res_bind (th_split T t size shard_dim) (\<lambda>pieces.
         let ts = map (\<lambda>(i, p). RawShard (th_transfer T (int i) p)) (enumerate 0 pieces) in
         if int (length ts) \<noteq> n_shards then Inl AssertionError
         else new_split T shard_dim ts name shape))))"

definition new_replicated :: "('t, 'o) torch \<Rightarrow> 't shard list \<Rightarrow> string \<Rightarrow> 't sharded res" where
  "new_replicated T ts name =
     (case ts of
        [] \<Rightarrow> Inl AssertionError
      | t0 # _ \<Rightarrow>
         (let shape = shard_shape T t0 in
          if list_all (\<lambda>t. shape = shard_shape T t) ts
          then Inr \<lparr>sh_class = ReplicatedTensor, sh_name = name, sh_shape = shape, sh_dim = None,
                    sh_shards = box_shards T name ts\<rparr>
          else Inl AssertionError))"

definition new_replicated_of_tensor ::
  "('t, 'o) torch \<Rightarrow> 't \<Rightarrow> int option \<Rightarrow> string \<Rightarrow> 't sharded res" where
  "new_replicated_of_tensor T t num_shards name =
     (case num_shards of
        None \<Rightarrow> Inl AssertionError
      | Some n_shards \<Rightarrow>
         new_replicated T (map (\<lambda>i. RawShard (th_transfer T (int i) t)) [0..<nat n_shards]) name)"

definition new_unreduced :: "('t, 'o) torch \<Rightarrow> 't shard list \<Rightarrow> string \<Rightarrow> int list option \<Rightarrow> 't sharded res" where
  "new_unreduced T ts name shape =
     (case ts of
        [] \<Rightarrow> Inl AssertionError
      | t0 # _ \<Rightarrow>
         (let s = (case shape of None \<Rightarrow> shard_shape T t0 | Some s \<Rightarrow> s) in
          if list_all (\<lambda>t. s = shard_shape T t) ts then new_sharded_base T UnreducedTensor None ts name s
          else Inl AssertionError))"

subsection \<open>Tensors of any kind\<close>

datatype 't any_tensor = Torch 't | Prim "'t prim_tensor" | Sharded "'t sharded"

definition any_shape :: "('t, 'o) torch \<Rightarrow> 't any_tensor \<Rightarrow> int list" where
  "any_shape T x = (case x of Torch t \<Rightarrow> th_shape T t | Prim p \<Rightarrow> pt_shape p | Sharded s \<Rightarrow> sh_shape s)"

definition unbox_tensor :: "'t any_tensor \<Rightarrow> 't res" where
  "unbox_tensor x = (case x of Torch t \<Rightarrow> Inr t | Prim p \<Rightarrow> Inr (pt_data p) | Sharded _ \<Rightarrow> Inl ValueError)"

text \<open>Deep equality compares the shards of a replicated tensor only by the first.\<close>

definition sharded_deep_equal :: "('t, 'o) torch \<Rightarrow> 't sharded \<Rightarrow> 't any_tensor \<Rightarrow> bool" where
  "sharded_deep_equal T x other =
     (case other of
        Sharded y \<Rightarrow>
          sh_class x = sh_class y \<and> shard_count x = shard_count y \<and> sh_name x = sh_name y \<and>
          sh_shape x = sh_shape y \<and>
          (if is_replicated x
           then (case (sh_shards x, sh_shards y) of (a # _, b # _) \<Rightarrow> prim_deep_equal T a b | _ \<Rightarrow> True)
           else sh_dim x = sh_dim y \<and> list_all (\<lambda>(a, b). prim_deep_equal T a b) (zip (sh_shards x) (sh_shards y)))
      | _ \<Rightarrow> False)"

section \<open>Indexing of tensors\<close>

text \<open>
  Model of \<open>__getitem__\<close> and \<open>__setitem__\<close> of the tensors of \<open>sharktank/types/tensors.py\<close>. An index is a
  list or a tuple of items, any other value having been put in a tuple; an item is one of torch's, or one
  of our tensors.
\<close>

datatype 't key_item = PlainItem "'t key" | PrimItem "'t prim_tensor" | ShardedItem "'t sharded"

record 't index =
  ix_is_tuple :: bool
  ix_items :: "'t key_item list"

definition is_integral :: "'t key_item \<Rightarrow> bool" where
  "is_integral k = (case k of PlainItem (IntKey _) \<Rightarrow> True | _ \<Rightarrow> False)"

definition is_ellipsis :: "'t key_item \<Rightarrow> bool" where
  "is_ellipsis k = (case k of PlainItem EllipsisKey \<Rightarrow> True | _ \<Rightarrow> False)"

definition full_slice_item :: "'t key_item" where
  "full_slice_item = PlainItem (SliceKey None None None)"

definition is_full_slice :: "int option \<Rightarrow> int option \<Rightarrow> int option \<Rightarrow> int \<Rightarrow> bool" where
  "is_full_slice start stop step dim_size \<longleftrightarrow>
     (start = None \<or> start = Some 0) \<and> (stop = None \<or> stop = Some dim_size) \<and> (step = None \<or> step = Some 1)"

definition resolve_ellipsis_in_slicing :: "'t index \<Rightarrow> int list \<Rightarrow> 't index res" where
  "resolve_ellipsis_in_slicing key shape =
     (let items = ix_items key; num_ellipsis = length (filter is_ellipsis items) in
      if num_ellipsis > 1 then Inl AssertionError
      else if num_ellipsis = 0 then Inr key
      else if length items > length shape then Inl AssertionError
      else Inr \<lparr>ix_is_tuple = True,
                ix_items = concat (map (\<lambda>k. if is_ellipsis k
                                            then List.replicate (length shape - length items + 1) full_slice_item
                                            else [k]) items)\<rparr>)"

subsection \<open>Primitive and replicated tensors\<close>

text \<open>The key of torch for an item: a primitive tensor is unboxed, a sharded one is none of torch's.\<close>

definition unboxed_key :: "'t key_item \<Rightarrow> 't key res" where
  "unboxed_key k = (case k of PlainItem p \<Rightarrow> Inr p | PrimItem p \<Rightarrow> Inr (TensorKey (pt_data p)) | ShardedItem _ \<Rightarrow> Inl TypeError)"

definition prim_getitem :: "('t, 'o) torch \<Rightarrow> 't prim_tensor \<Rightarrow> 't key_item list \<Rightarrow> 't res" where
  "prim_getitem T x keys = res_bind (res_map unboxed_key keys) (th_getitem T (pt_data x))"

definition prim_setitem ::
  "('t, 'o) torch \<Rightarrow> 't prim_tensor \<Rightarrow> 't key_item list \<Rightarrow> 't any_tensor \<Rightarrow> 't prim_tensor res" where
  "prim_setitem T x keys v =
     res_bind (res_map unboxed_key keys) (\<lambda>ks.
     res_bind (unbox_tensor v) (\<lambda>t.
     res_bind (th_setitem T (pt_data x) ks t) (\<lambda>d. Inr (x\<lparr>pt_data := d\<rparr>))))"

text \<open>The items for shard \<open>i\<close>.\<close>

definition shard_keys :: "nat \<Rightarrow> 't key_item list \<Rightarrow> 't key_item list res" where
  "shard_keys i items =
     res_map (\<lambda>k. case k of
        ShardedItem s \<Rightarrow>
          (if is_replicated s then res_bind (list_get (sh_shards s) i) (\<lambda>p. Inr (PrimItem p)) else Inr k)
      | _ \<Rightarrow> Inr k) items"

definition shard_items :: "('t, 'o) torch \<Rightarrow> 't sharded \<Rightarrow> 't key_item list \<Rightarrow> 't list res" where
  "shard_items T x items =
     res_map (\<lambda>(i, s). res_bind (shard_keys i items) (prim_getitem T s)) (enumerate 0 (sh_shards x))"

definition replicated_getitem :: "('t, 'o) torch \<Rightarrow> 't sharded \<Rightarrow> 't index \<Rightarrow> 't sharded res" where
  "replicated_getitem T x key =
     res_bind (shard_items T x (ix_items key)) (\<lambda>ts. new_replicated T (map RawShard ts) unnamed_tensor_name)"

subsection \<open>Split tensors\<close>

definition is_slicing_split_dim :: "'t sharded \<Rightarrow> int \<Rightarrow> 't index \<Rightarrow> bool" where
  "is_slicing_split_dim x shard_dim key =
     (let items = ix_items key in
      if list_all is_integral items
      then (if ix_is_tuple key then shard_dim < int (length items) else shard_dim = 0)
      else if int (length items) \<le> shard_dim then False
      else (case items ! nat shard_dim of
              PlainItem (SliceKey start stop step) \<Rightarrow> \<not> is_full_slice start stop step (sh_shape x ! nat shard_dim)
            | _ \<Rightarrow> True))"

text \<open>The number of items is compared with the number of shards.\<close>

definition get_shard_slice :: "'t sharded \<Rightarrow> int \<Rightarrow> 't index \<Rightarrow> 't key_item list" where
  "get_shard_slice x shard_dim key =
     (let items = ix_items key in
      if list_all is_integral items \<and> \<not> ix_is_tuple key then items
      else if int (length items) \<le> shard_count x then items
      else if shard_dim < int (length items) then items[nat shard_dim := full_slice_item] else items)"

text \<open>An int that is not negative removes its dimension; the others are not counted.\<close>

definition reduced_dims :: "'t key_item list \<Rightarrow> nat" where
  "reduced_dims items = length (filter (\<lambda>k. case k of PlainItem (IntKey i) \<Rightarrow> i \<ge> 0 | _ \<Rightarrow> False) items)"

definition split_getitem :: "('t, 'o) torch \<Rightarrow> 't sharded \<Rightarrow> int \<Rightarrow> 't index \<Rightarrow> 't sharded res" where
  "split_getitem T x shard_dim key0 =
     res_bind (resolve_ellipsis_in_slicing key0 (sh_shape x)) (\<lambda>key.
       if is_slicing_split_dim x shard_dim key then Inl NotImplementedError
       else
         res_bind (shard_items T x (get_shard_slice x shard_dim key)) (\<lambda>shards.
           new_split T (shard_dim - int (reduced_dims (take (nat shard_dim) (ix_items key)))) (map RawShard shards)
             unnamed_tensor_name None))"

definition split_setitem :: "('t, 'o) torch \<Rightarrow> 't sharded \<Rightarrow> int \<Rightarrow> 't index \<Rightarrow> 't any_tensor \<Rightarrow> 't sharded res" where
  "split_setitem T x shard_dim key0 v =
     (case v of
        Sharded y \<Rightarrow>
          (if sh_class y \<noteq> SplitPrimitiveTensor \<or> shard_count x \<noteq> shard_count y then Inl AssertionError
           else
             res_bind (resolve_ellipsis_in_slicing key0 (sh_shape x)) (\<lambda>key.
               if is_slicing_split_dim x shard_dim key then Inl NotImplementedError
               else
                 res_bind
                  (res_map (\<lambda>(i, (s, vs)). res_bind (shard_keys i (ix_items key)) (\<lambda>ks. prim_setitem T s ks (Prim vs)))
                    (enumerate 0 (zip (sh_shards x) (sh_shards y))))
                  (\<lambda>shards. Inr (x\<lparr>sh_shards := shards\<rparr>))))
      | _ \<Rightarrow> Inl AssertionError)"

end
