(* ===== verification/Tn_Default_Ops.thy ===== *)
theory Tn_Default_Ops
  imports Tn_Tensors
begin

section \<open>Operations on tensors that are not sharded\<close>

text \<open>
  Model of \<open>sharktank/ops/default_impls.py\<close>: every operation unboxes its operands and calls torch. An
  operation in place returns the object it was given, with the tensor in it changed. The arguments an
  operation only passes on are one value.
\<close>

definition with_data :: "'t any_tensor \<Rightarrow> 't \<Rightarrow> 't any_tensor" where
  "with_data x d = (case x of Torch _ \<Rightarrow> Torch d | Prim p \<Rightarrow> Prim (p\<lparr>pt_data := d\<rparr>) | Sharded s \<Rightarrow> Sharded s)"

definition unbox1 :: "('t \<Rightarrow> 'r res) \<Rightarrow> 't any_tensor \<Rightarrow> 'r res" where
  "unbox1 f x = res_bind (unbox_tensor x) f"

definition unbox2 :: "('t \<Rightarrow> 't \<Rightarrow> 'r res) \<Rightarrow> 't any_tensor \<Rightarrow> 't any_tensor \<Rightarrow> 'r res" where
  "unbox2 f x y = res_bind (unbox_tensor x) (\<lambda>a. res_bind (unbox_tensor y) (f a))"

definition unbox_optional :: "'t any_tensor option \<Rightarrow> 't option res" where
  "unbox_optional x = (case x of None \<Rightarrow> Inr None | Some y \<Rightarrow> res_bind (unbox_tensor y) (\<lambda>t. Inr (Some t)))"

definition cat_default :: "('t, 'o) torch \<Rightarrow> 't any_tensor list \<Rightarrow> int \<Rightarrow> 't res" where
  "cat_default T tensors dim = res_bind (res_map unbox_tensor tensors) (\<lambda>ts. th_cat T ts dim)"

definition promote :: "('t, 'o) torch \<Rightarrow> 't \<Rightarrow> 't \<Rightarrow> 't res" where
  "promote T input t = (if th_dtype T t \<noteq> th_dtype T input then th_to T t (th_dtype T input) else Inr t)"

definition conv2d_default ::
  "('t, 'o) torch \<Rightarrow> 't any_tensor \<Rightarrow> 't any_tensor \<Rightarrow> 't any_tensor option \<Rightarrow> 'o \<Rightarrow> int \<Rightarrow> 't res" where
  "conv2d_default T input weight bias stride_padding_dilation groups =
     res_bind (unbox_tensor input) (\<lambda>i.
     res_bind (unbox_tensor weight) (\<lambda>w.
     res_bind (unbox_optional bias) (\<lambda>b.
     res_bind (promote T i w) (\<lambda>w1.
     res_bind (case b of None \<Rightarrow> Inr None | Some t \<Rightarrow> res_bind (promote T i t) (\<lambda>t1. Inr (Some t1))) (\<lambda>b1.
       th_conv2d T i w1 b1 stride_padding_dilation groups)))))"

text \<open>The three einsum strings that become batched products; for others see \<open>einsum_2args\<close>.\<close>

definition matmul_default :: "('t, 'o) torch \<Rightarrow> 't any_tensor \<Rightarrow> 't any_tensor \<Rightarrow> bool \<Rightarrow> 't res" where
  "matmul_default T lhs rhs transpose_rhs =
     res_bind (unbox_tensor lhs) (\<lambda>l.
     res_bind (unbox_tensor rhs) (\<lambda>r.
     res_bind (if transpose_rhs then th_mT T r else Inr r) (\<lambda>r1.
     res_bind (th_to T r1 (th_dtype T l)) (\<lambda>r2.
       if length (th_shape T l) > 2 \<and> length (th_shape T r2) < 3
       then (let bdims = butlast (th_shape T l) in
             res_bind (th_flatten T l 0 (-2)) (\<lambda>l1.
             res_bind (th_matmul T l1 r2) (\<lambda>mm. th_unflatten T mm 0 bdims)))
       else th_matmul T l r2))))"

definition mk_menk_men :: "('t, 'o) torch \<Rightarrow> 't \<Rightarrow> 't \<Rightarrow> 't res" where
  "mk_menk_men T inputs weights =
     res_bind (th_unsqueeze T inputs 1) (\<lambda>i.
     res_bind (py_get (th_shape T weights) 0) (\<lambda>m.
     res_bind (py_get (th_shape T weights) 1) (\<lambda>e.
     res_bind (py_get (th_shape T weights) 2) (\<lambda>n.
     res_bind (py_get (th_shape T weights) 3) (\<lambda>k.
     res_bind (th_view T weights [m, e * n, k]) (\<lambda>w.
     res_bind (matmul_default T (Torch i) (Torch w) True) (\<lambda>r.
       th_view T r [m, e, n])))))))"

definition mek_menk_men :: "('t, 'o) torch \<Rightarrow> 't \<Rightarrow> 't \<Rightarrow> 't res" where
  "mek_menk_men T inputs weights =
     res_bind (py_get (th_shape T inputs) 0) (\<lambda>im.
     res_bind (py_get (th_shape T inputs) 1) (\<lambda>ie.
     res_bind (py_get (th_shape T inputs) 2) (\<lambda>ik.
     res_bind (th_view T inputs [im * ie, 1, ik]) (\<lambda>i.
     res_bind (py_get (th_shape T weights) 0) (\<lambda>m.
     res_bind (py_get (th_shape T weights) 1) (\<lambda>e.
     res_bind (py_get (th_shape T weights) 2) (\<lambda>n.
     res_bind (py_get (th_shape T weights) 3) (\<lambda>k.
     res_bind (th_view T weights [m * e, n, k]) (\<lambda>w.
     res_bind (matmul_default T (Torch i) (Torch w) True) (\<lambda>r.
       th_view T r [m, e, n]))))))))))"

definition me_men_men :: "('t, 'o) torch \<Rightarrow> 't \<Rightarrow> 't \<Rightarrow> 't res" where
  "me_men_men T inputs weights =
     res_bind (py_get (th_shape T inputs) 0) (\<lambda>im.
     res_bind (py_get (th_shape T inputs) 1) (\<lambda>ie.
     res_bind (th_view T inputs [im * ie, 1, 1]) (\<lambda>i.
     res_bind (py_get (th_shape T weights) 0) (\<lambda>m.
     res_bind (py_get (th_shape T weights) 1) (\<lambda>e.
     res_bind (py_get (th_shape T weights) 2) (\<lambda>n.
     res_bind (th_view T weights [m * e, n, 1]) (\<lambda>w.
     res_bind (matmul_default T (Torch i) (Torch w) True) (\<lambda>r.
       th_view T r [m, e, n]))))))))"

text \<open>Any other string reaches a call with the undefined names \<open>x\<close> and \<open>y\<close>: a NameError.\<close>

definition einsum_2args :: "('t, 'o) torch \<Rightarrow> 't \<Rightarrow> 't \<Rightarrow> string \<Rightarrow> 't res" where
  "einsum_2args T input0 input1 einsum_str =
     (if einsum_str = ''mk,menk->men'' then mk_menk_men T input0 input1
      else if einsum_str = ''mek,menk->men'' then mek_menk_men T input0 input1
      else if einsum_str = ''me,men->men'' then me_men_men T input0 input1
      else Inl PyException)"

text \<open>
  An elementwise operator takes the tensors and the numbers that follow them.
\<close>

definition elementwise_default ::
  "('t list \<Rightarrow> 'o list \<Rightarrow> 't res) \<Rightarrow> 't any_tensor list \<Rightarrow> 'o list \<Rightarrow> 't res" where
  "elementwise_default operator xs args = res_bind (res_map unbox_tensor xs) (\<lambda>ts. operator ts args)"

definition embedding_lookup_default ::
  "('t, 'o) torch \<Rightarrow> 't any_tensor \<Rightarrow> 't any_tensor \<Rightarrow> 'o \<Rightarrow> 't res" where
  "embedding_lookup_default T input embedding_matrix dtype =
     unbox2 (\<lambda>i m. res_bind (th_to T m dtype) (th_embedding T i)) input embedding_matrix"

definition equal_default :: "('t, 'o) torch \<Rightarrow> 't any_tensor \<Rightarrow> 't any_tensor \<Rightarrow> bool res" where
  "equal_default T a b = unbox2 (\<lambda>x y. Inr (th_equal T x y)) a b"

definition expand_default :: "('t, 'o) torch \<Rightarrow> 't any_tensor \<Rightarrow> int list \<Rightarrow> 't res" where
  "expand_default T x shape = unbox1 (\<lambda>t. th_expand T t shape) x"

definition flatten_default :: "('t, 'o) torch \<Rightarrow> 't any_tensor \<Rightarrow> int \<Rightarrow> int \<Rightarrow> 't res" where
  "flatten_default T x start_dim end_dim = unbox1 (\<lambda>t. th_flatten T t start_dim end_dim) x"

definition gather_default :: "('t, 'o) torch \<Rightarrow> 't any_tensor \<Rightarrow> int \<Rightarrow> 't any_tensor \<Rightarrow> 't res" where
  "gather_default T x dim index = unbox2 (\<lambda>t i. th_gather T t dim i) x index"

definition group_norm_affine_default ::
  "('t, 'o) torch \<Rightarrow> 't any_tensor \<Rightarrow> 't any_tensor \<Rightarrow> 't any_tensor \<Rightarrow> int \<Rightarrow> 'o \<Rightarrow> 't res" where
  "group_norm_affine_default T input weight bias num_groups eps =
     res_bind (unbox_tensor input) (\<lambda>i.
     unbox2 (\<lambda>w b. th_group_norm T i num_groups w b eps) weight bias)"

definition index_copy_default ::
  "('t, 'o) torch \<Rightarrow> 't any_tensor \<Rightarrow> int \<Rightarrow> 't any_tensor \<Rightarrow> 't any_tensor \<Rightarrow> 't any_tensor res" where
  "index_copy_default T inout dim index x =
     res_bind (unbox_tensor inout) (\<lambda>t.
     unbox2 (\<lambda>i v. res_bind (th_index_copy T t dim i v) (\<lambda>d. Inr (with_data inout d))) index x)"

definition index_put_default ::
  "('t, 'o) torch \<Rightarrow> 't any_tensor \<Rightarrow> 't any_tensor list \<Rightarrow> 't any_tensor \<Rightarrow> 't any_tensor res" where
  "index_put_default T inout indices values =
     res_bind (res_map unbox_tensor indices) (\<lambda>is.
     unbox2 (\<lambda>t v. res_bind (th_index_put T t is v) (\<lambda>d. Inr (with_data inout d))) inout values)"

definition index_select_default :: "('t, 'o) torch \<Rightarrow> 't any_tensor \<Rightarrow> int \<Rightarrow> 't any_tensor \<Rightarrow> 't res" where
  "index_select_default T x dim index = unbox2 (\<lambda>t i. th_index_select T t dim i) x index"

definition interpolate_default :: "('t, 'o) torch \<Rightarrow> 't any_tensor \<Rightarrow> 'o \<Rightarrow> 't res" where
  "interpolate_default T x options = unbox1 (\<lambda>t. th_interpolate T t options) x"

definition layer_norm_default ::
  "('t, 'o) torch \<Rightarrow> 't any_tensor \<Rightarrow> 't any_tensor option \<Rightarrow> 't any_tensor option \<Rightarrow> 'o \<Rightarrow> 't res" where
  "layer_norm_default T input weight bias eps =
     res_bind (unbox_tensor input) (\<lambda>i.
     res_bind (unbox_optional weight) (\<lambda>w.
     res_bind (unbox_optional bias) (\<lambda>b.
       let w1 = (case w of Some t \<Rightarrow> t | None \<Rightarrow> th_ones T (th_shape T i) (th_dtype T i));
           b1 = (case b of Some t \<Rightarrow> t | None \<Rightarrow> th_zeros T (th_shape T i) (th_dtype T i))
       in th_layer_norm T i (th_shape T w1) w1 b1 eps)))"

definition linear_default ::
  "('t, 'o) torch \<Rightarrow> 't any_tensor \<Rightarrow> 't any_tensor \<Rightarrow> 't any_tensor option \<Rightarrow> 't res" where
  "linear_default T input weight bias =
     res_bind (unbox_tensor input) (\<lambda>i.
     res_bind (unbox_tensor weight) (\<lambda>w.
     res_bind (unbox_optional bias) (\<lambda>b.
     res_bind (promote T i w) (\<lambda>w1.
     res_bind (matmul_default T (Torch i) (Torch w1) True) (\<lambda>r.
       case b of None \<Rightarrow> Inr r | Some t \<Rightarrow> th_add T r t)))))"

definition scaled_dot_product_attention_torch ::
  "('t, 'o) torch \<Rightarrow> 't any_tensor \<Rightarrow> 't any_tensor \<Rightarrow> 't any_tensor \<Rightarrow> 't any_tensor option \<Rightarrow> 'o \<Rightarrow> 't res" where
  "scaled_dot_product_attention_torch T q k v a is_causal_scale =
     res_bind (unbox_tensor q) (\<lambda>q1.
     res_bind (unbox_tensor k) (\<lambda>k1.
     res_bind (unbox_tensor v) (\<lambda>v1.
     res_bind (unbox_optional a) (\<lambda>a1. th_attention T q1 k1 v1 a1 is_causal_scale))))"

definition mean_default :: "('t, 'o) torch \<Rightarrow> 't any_tensor \<Rightarrow> 'o \<Rightarrow> 't res" where
  "mean_default T x options = unbox1 (\<lambda>t. th_mean T t options) x"

definition repeat_default :: "('t, 'o) torch \<Rightarrow> 't any_tensor \<Rightarrow> int list \<Rightarrow> 't res" where
  "repeat_default T x sizes = unbox1 (\<lambda>t. th_repeat T t sizes) x"

definition reshape_default :: "('t, 'o) torch \<Rightarrow> 't any_tensor \<Rightarrow> int list \<Rightarrow> 't res" where
  "reshape_default T x shape = unbox1 (\<lambda>t. th_reshape T t shape) x"

definition permute_default :: "('t, 'o) torch \<Rightarrow> 't any_tensor \<Rightarrow> int list \<Rightarrow> 't res" where
  "permute_default T x dims = unbox1 (\<lambda>t. th_permute T t dims) x"

definition softmax_default :: "('t, 'o) torch \<Rightarrow> 't any_tensor \<Rightarrow> int option \<Rightarrow> 'o \<Rightarrow> 't res" where
  "softmax_default T x dim dtype = unbox1 (\<lambda>t. th_softmax T t dim dtype) x"

definition to_default :: "('t, 'o) torch \<Rightarrow> 't any_tensor \<Rightarrow> 'o \<Rightarrow> 't res" where
  "to_default T x args = unbox1 (\<lambda>t. th_to T t args) x"

definition transfer_to_logical_device :: "('t, 'o) torch \<Rightarrow> 't any_tensor \<Rightarrow> int \<Rightarrow> 't res" where
  "transfer_to_logical_device T x ordinal = unbox1 (\<lambda>t. Inr (th_transfer T ordinal t)) x"

definition transpose_default :: "('t, 'o) torch \<Rightarrow> 't any_tensor \<Rightarrow> int \<Rightarrow> int \<Rightarrow> 't res" where
  "transpose_default T x dim0 dim1 = unbox1 (\<lambda>t. th_transpose T t dim0 dim1) x"

definition unflatten_default :: "('t, 'o) torch \<Rightarrow> 't any_tensor \<Rightarrow> int \<Rightarrow> int list \<Rightarrow> 't res" where
  "unflatten_default T x dim sizes = unbox1 (\<lambda>t. th_unflatten T t dim sizes) x"

definition unsqueeze_default :: "('t, 'o) torch \<Rightarrow> 't any_tensor \<Rightarrow> int \<Rightarrow> 't res" where
  "unsqueeze_default T x dim =
     (case x of Torch t \<Rightarrow> th_unsqueeze T t dim | _ \<Rightarrow> Inl TypeError)"

definition squeeze_default :: "('t, 'o) torch \<Rightarrow> 't any_tensor \<Rightarrow> int option \<Rightarrow> 't res" where
  "squeeze_default T x dim = unbox1 (\<lambda>t. th_squeeze T t dim) x"

definition view_default :: "('t, 'o) torch \<Rightarrow> 't any_tensor \<Rightarrow> int list \<Rightarrow> 't res" where
  "view_default T x shape = unbox1 (\<lambda>t. th_view T t shape) x"

definition view_as_complex_default :: "('t, 'o) torch \<Rightarrow> 't any_tensor \<Rightarrow> 't res" where
  "view_as_complex_default T x = unbox1 (th_view_as_complex T) x"

definition view_as_real_default :: "('t, 'o) torch \<Rightarrow> 't any_tensor \<Rightarrow> 't res" where
  "view_as_real_default T x = unbox1 (th_view_as_real T) x"

text \<open>A tensor that is not sharded is its own concatenation and sum.\<close>

definition sharded_cat_unsharded :: "'t any_tensor \<Rightarrow> 't res" where
  "sharded_cat_unsharded x = unbox_tensor x"

definition sharded_sum_unsharded :: "'t any_tensor \<Rightarrow> 't res" where
  "sharded_sum_unsharded x = unbox_tensor x"

end
