(* ===== verification/Tn_Sharded_Ops.thy ===== *)
theory Tn_Sharded_Ops
  imports Tn_Default_Ops
begin

section \<open>Shapes of reshaped and broadcast tensors\<close>

text \<open>
  Model of the shape arithmetic of the sharded operations: \<open>sharktank/ops/shape.py\<close>,
  \<open>longest_equal_range\<close> of \<open>utils/misc.py\<close> and the \<open>_reshape_\<close> helpers of \<open>ops/sharded_impls.py\<close>. A
  dimension that is not positive is dynamic.
\<close>

subsection \<open>Common prefixes\<close>

fun first_difference :: "'x list \<Rightarrow> 'x list \<Rightarrow> nat option" where
  "first_difference (a # as) (b # bs) =
     (if a \<noteq> b then Some 0 else map_option Suc (first_difference as bs))"
| "first_difference _ _ = None"

definition longest_equal_range :: "'x list \<Rightarrow> 'x list \<Rightarrow> nat" where
  "longest_equal_range l1 l2 =
     (case first_difference l1 l2 of Some i \<Rightarrow> i | None \<Rightarrow> min (length l1) (length l2))"

text \<open>
  The same function called with two \<open>reversed\<close> iterators: when they do not differ, \<open>zip\<close> has consumed at
  least one of them, and the lengths it then takes are those of what is left.
\<close>

definition longest_equal_range_of_iterators :: "'x list \<Rightarrow> 'x list \<Rightarrow> nat" where
  "longest_equal_range_of_iterators l1 l2 =
     (case first_difference l1 l2 of Some i \<Rightarrow> i | None \<Rightarrow> 0)"

subsection \<open>Broadcasting\<close>

definition broadcast_rank :: "int list list \<Rightarrow> nat" where
  "broadcast_rank shapes = fold max (map length shapes) 0"

definition broadcast_dims :: "int list \<Rightarrow> int list list \<Rightarrow> int list res" where
  "broadcast_dims dims shapes =
     (if dims = [] \<or> length shapes < length dims then Inl AssertionError
      else Inr (map (\<lambda>(dim, shape). dim + max 0 (int (broadcast_rank shapes) - int (length shape)))
                  (zip dims shapes)))"

definition broadcast_dim :: "int \<Rightarrow> int list list \<Rightarrow> int res" where
  "broadcast_dim dim shapes = res_bind (broadcast_dims [dim] shapes) (\<lambda>ds. list_get ds 0)"

definition unbroadcast_dim :: "int \<Rightarrow> int list list \<Rightarrow> int option res" where
  "unbroadcast_dim dim shapes =
     (case shapes of
        [] \<Rightarrow> Inl ValueError
      | s # _ \<Rightarrow>
         (let r = dim - max 0 (int (broadcast_rank shapes) - int (length s))
          in Inr (if r < 0 then None else Some r)))"

subsection \<open>Reshaping\<close>

definition has_dynamic_dim :: "int list \<Rightarrow> bool" where
  "has_dynamic_dim shape = list_ex (\<lambda>d. d \<le> 0) shape"

text \<open>The first shape has no dynamic dimension.\<close>

definition infer_second_shape :: "int list \<Rightarrow> int list \<Rightarrow> int list res" where
  "infer_second_shape shape1 shape2 =
     (if \<not> has_dynamic_dim shape2 then Inr shape2
      else
       (let shape2_dynamic_dim = length (takeWhile (\<lambda>d. \<not> d \<le> 0) shape2);
            shape1_size = prod_list shape1;
            shape2_size_without_dynamic_dim = prod_list (filter (\<lambda>d. d > 0) shape2)
        in if shape1_size mod shape2_size_without_dynamic_dim \<noteq> 0 then Inl AssertionError
           else
            (let d = shape1_size div shape2_size_without_dynamic_dim
             in if d > 0 then Inr (shape2[shape2_dynamic_dim := d]) else Inl AssertionError)))"

text \<open>With a dynamic dimension in both shapes the function swaps them until RecursionError.\<close>

definition reshape_infer_dynamic_dim :: "int list \<Rightarrow> int list \<Rightarrow> (int list \<times> int list) res" where
  "reshape_infer_dynamic_dim shape1 shape2 =
     (if length (filter (\<lambda>d. d < 0) (shape1 @ shape2)) > 1 then Inl AssertionError
      else if has_dynamic_dim shape1
      then (if has_dynamic_dim shape2 then Inl RuntimeError
            else res_bind (infer_second_shape shape2 shape1) (\<lambda>s1. Inr (s1, shape2)))
      else res_bind (infer_second_shape shape1 shape2) (\<lambda>s2. Inr (shape1, s2)))"

definition reshape_get_single_split_dim :: "int list \<Rightarrow> int list \<Rightarrow> (nat \<times> nat) option res" where
  "reshape_get_single_split_dim from_shape0 to_shape0 =
     res_bind (reshape_infer_dynamic_dim from_shape0 to_shape0) (\<lambda>(from_shape, to_shape).
       if length to_shape < length from_shape then Inr None
       else
        (let i = longest_equal_range from_shape to_shape;
             split_dims_length = length to_shape - length from_shape + 1
         in if i = length from_shape then Inr (Some (i, split_dims_length))
            else
             (let j = length to_shape - longest_equal_range_of_iterators (rev from_shape) (rev to_shape)
              in if \<not> i < j then Inl AssertionError
                 else
                  (let expected_split_dim_size = prod_list (py_slice to_shape i j)
                   in if expected_split_dim_size = 1 then Inr (Some (i, split_dims_length))
                      else if expected_split_dim_size \<noteq> from_shape ! i then Inr None
                      else Inr (Some (i, split_dims_length))))))"

definition reshape_get_flatten_dim_range :: "int list \<Rightarrow> int list \<Rightarrow> (nat \<times> nat) option res" where
  "reshape_get_flatten_dim_range from_shape to_shape =
     res_bind (reshape_get_single_split_dim to_shape from_shape)
       (\<lambda>r. Inr (map_option (\<lambda>(start, len). (start, start + len)) r))"

section \<open>Operations on sharded tensors\<close>

text \<open>
  Model of \<open>sharktank/ops/sharded_impls.py\<close>: one definition per override, in the order they call each
  other, and for each operation the choice of the override by the classes of its operands (\<open>op_\<close>). An
  operand no override accepts is a NotImplementedError. A shard is a primitive tensor, so an operation on
  a shard is the default one.
\<close>

text \<open>The dimension of a split tensor.\<close>

definition split_dim :: "'t sharded \<Rightarrow> int" where
  "split_dim x = (case sh_dim x of Some d \<Rightarrow> d | None \<Rightarrow> - 1)"

definition rank_of :: "'t sharded \<Rightarrow> int" where
  "rank_of x = int (length (sh_shape x))"

definition guard :: "bool \<Rightarrow> py_error \<Rightarrow> 'r res \<Rightarrow> 'r res" where
  "guard ok e r = (if ok then r else Inl e)"

definition new_split_result :: "('t, 'o) torch \<Rightarrow> int \<Rightarrow> 't list \<Rightarrow> 't sharded res" where
  "new_split_result T dim ts = new_split T dim (map RawShard ts) unnamed_tensor_name None"

definition new_replicated_result :: "('t, 'o) torch \<Rightarrow> 't list \<Rightarrow> 't sharded res" where
  "new_replicated_result T ts = new_replicated T (map RawShard ts) unnamed_tensor_name"

definition as_split :: "('t, 'o) torch \<Rightarrow> int \<Rightarrow> 't list res \<Rightarrow> 't sharded res" where
  "as_split T dim shards = res_bind shards (new_split_result T dim)"

definition as_replicated :: "('t, 'o) torch \<Rightarrow> 't list res \<Rightarrow> 't sharded res" where
  "as_replicated T shards = res_bind shards (new_replicated_result T)"

definition map_shards :: "('t any_tensor \<Rightarrow> 'r res) \<Rightarrow> 't sharded \<Rightarrow> 'r list res" where
  "map_shards f x = res_map (\<lambda>s. f (Prim s)) (sh_shards x)"

definition zip_shards :: "('t any_tensor \<Rightarrow> 't any_tensor \<Rightarrow> 'r res) \<Rightarrow> 't sharded \<Rightarrow> 't sharded \<Rightarrow> 'r list res" where
  "zip_shards f x y = res_map (\<lambda>(a, b). f (Prim a) (Prim b)) (zip (sh_shards x) (sh_shards y))"

definition is_split :: "'t sharded \<Rightarrow> bool" where
  "is_split x \<longleftrightarrow> sh_class x = SplitPrimitiveTensor"

definition is_unreduced :: "'t sharded \<Rightarrow> bool" where
  "is_unreduced x \<longleftrightarrow> sh_class x = UnreducedTensor"

text \<open>Torch's and the primitive tensors: what the class \<open>Tensor\<close> of an override accepts.\<close>

definition is_plain :: "'t any_tensor \<Rightarrow> bool" where
  "is_plain x = (case x of Sharded _ \<Rightarrow> False | _ \<Rightarrow> True)"

subsection \<open>Gathering and reducing\<close>

text \<open>The shards of the tensor, those of other devices moved to device \<open>i\<close>.\<close>

definition moved_shards :: "('t, 'o) torch \<Rightarrow> nat \<Rightarrow> 't sharded \<Rightarrow> 't any_tensor list" where
  "moved_shards T i x =
     map (\<lambda>(j, s). if i = j then Prim s else Torch (th_transfer T (int i) (pt_data s))) (enumerate 0 (sh_shards x))"

definition all_gather_split :: "('t, 'o) torch \<Rightarrow> 't sharded \<Rightarrow> int option \<Rightarrow> 't sharded res" where
  "all_gather_split T input dim =
     (let d = (case dim of None \<Rightarrow> split_dim input | Some d \<Rightarrow> d) in
      as_replicated T (res_map (\<lambda>i. cat_default T (moved_shards T i input) d) [0..<length (sh_shards input)]))"

fun reduce_add :: "('t, 'o) torch \<Rightarrow> 't any_tensor \<Rightarrow> 't any_tensor list \<Rightarrow> 't any_tensor res" where
  "reduce_add T x [] = Inr x"
| "reduce_add T x (y # ys) = res_bind (unbox2 (th_add T) x y) (\<lambda>t. reduce_add T (Torch t) ys)"

definition functools_reduce_add :: "('t, 'o) torch \<Rightarrow> 't any_tensor list \<Rightarrow> 't any_tensor res" where
  "functools_reduce_add T xs = (case xs of [] \<Rightarrow> Inl TypeError | x # ys \<Rightarrow> reduce_add T x ys)"

definition to_shard :: "'t any_tensor \<Rightarrow> 't shard" where
  "to_shard x = (case x of Torch t \<Rightarrow> RawShard t | Prim p \<Rightarrow> PrimShard p | Sharded s \<Rightarrow> PrimShard (hd (sh_shards s)))"

definition all_reduce_split_or_unreduced :: "('t, 'o) torch \<Rightarrow> 't sharded \<Rightarrow> 't sharded res" where
  "all_reduce_split_or_unreduced T input =
     res_bind (res_map (\<lambda>i. functools_reduce_add T (moved_shards T i input)) [0..<length (sh_shards input)])
       (\<lambda>shards. new_replicated T (map to_shard shards) unnamed_tensor_name)"

definition sharded_cat_split :: "('t, 'o) torch \<Rightarrow> 't sharded \<Rightarrow> 't res" where
  "sharded_cat_split T x =
     th_cat T (map (\<lambda>(i, s). if i \<noteq> 0 then th_transfer T 0 (pt_data s) else pt_data s) (enumerate 0 (sh_shards x)))
       (split_dim x)"

fun add_all :: "('t, 'o) torch \<Rightarrow> 't \<Rightarrow> 't list \<Rightarrow> 't res" where
  "add_all T accum [] = Inr accum"
| "add_all T accum (t # ts) = res_bind (th_add T accum t) (\<lambda>a. add_all T a ts)"

definition sharded_sum_sharded :: "('t, 'o) torch \<Rightarrow> 't sharded \<Rightarrow> 't res" where
  "sharded_sum_sharded T x =
     (case sh_shards x of [] \<Rightarrow> Inl IndexError | s # ss \<Rightarrow> add_all T (pt_data s) (map pt_data ss))"

definition op_sharded_cat :: "('t, 'o) torch \<Rightarrow> 't any_tensor \<Rightarrow> 't res" where
  "op_sharded_cat T x =
     (case x of Sharded s \<Rightarrow> if is_split s then sharded_cat_split T s else Inl NotImplementedError
      | _ \<Rightarrow> sharded_cat_unsharded x)"

definition op_sharded_sum :: "('t, 'o) torch \<Rightarrow> 't any_tensor \<Rightarrow> 't res" where
  "op_sharded_sum T x =
     (case x of Sharded s \<Rightarrow> if is_replicated s then Inl NotImplementedError else sharded_sum_sharded T s
      | _ \<Rightarrow> sharded_sum_unsharded x)"

text \<open>A replicated tensor unshards to its first shard, every other to a tensor of torch.\<close>

definition unshard_replicated :: "'t sharded \<Rightarrow> 't any_tensor res" where
  "unshard_replicated x = res_bind (list_get (sh_shards x) 0) (\<lambda>s. Inr (Prim s))"

definition unshard_split :: "('t, 'o) torch \<Rightarrow> 't sharded \<Rightarrow> 't any_tensor res" where
  "unshard_split T x = res_bind (sharded_cat_split T x) (\<lambda>t. Inr (Torch t))"

definition unshard_unreduced :: "('t, 'o) torch \<Rightarrow> 't sharded \<Rightarrow> 't any_tensor res" where
  "unshard_unreduced T x =
     functools_reduce_add T
       (map (\<lambda>(i, s). if i = 0 then Prim s else Torch (th_transfer T 0 (pt_data s))) (enumerate 0 (sh_shards x)))"

definition unshard :: "('t, 'o) torch \<Rightarrow> 't any_tensor \<Rightarrow> 't any_tensor res" where
  "unshard T x =
     (case x of
        Sharded s \<Rightarrow>
          (case sh_class s of
             ReplicatedTensor \<Rightarrow> unshard_replicated s
           | SplitPrimitiveTensor \<Rightarrow> unshard_split T s
           | UnreducedTensor \<Rightarrow> unshard_unreduced T s)
      | _ \<Rightarrow> Inr x)"

subsection \<open>Replicating\<close>

definition replicate_replicated :: "'t sharded \<Rightarrow> int \<Rightarrow> 't sharded res" where
  "replicate_replicated input n = guard (shard_count input = n) ValueError (Inr input)"

definition replicate_split :: "('t, 'o) torch \<Rightarrow> 't sharded \<Rightarrow> int \<Rightarrow> 't sharded res" where
  "replicate_split T input n = guard (shard_count input = n) ValueError (all_gather_split T input None)"

definition replicate_unreduced :: "('t, 'o) torch \<Rightarrow> 't sharded \<Rightarrow> int \<Rightarrow> 't sharded res" where
  "replicate_unreduced T input n = guard (shard_count input = n) ValueError (all_reduce_split_or_unreduced T input)"

definition replicate_unsharded :: "('t, 'o) torch \<Rightarrow> 't any_tensor \<Rightarrow> int \<Rightarrow> 't sharded res" where
  "replicate_unsharded T input n =
     res_bind (unbox_tensor input) (\<lambda>t.
       new_replicated_result T (map (\<lambda>i. th_transfer T (int i) t) [0..<nat n]))"

definition op_replicate :: "('t, 'o) torch \<Rightarrow> 't any_tensor \<Rightarrow> int \<Rightarrow> 't sharded res" where
  "op_replicate T input n =
     (case input of
        Sharded s \<Rightarrow>
          (case sh_class s of
             ReplicatedTensor \<Rightarrow> replicate_replicated s n
           | SplitPrimitiveTensor \<Rightarrow> replicate_split T s n
           | UnreducedTensor \<Rightarrow> replicate_unreduced T s n)
      | _ \<Rightarrow> replicate_unsharded T input n)"

subsection \<open>Splitting\<close>

definition reshard_split_unsharded :: "('t, 'o) torch \<Rightarrow> 't any_tensor \<Rightarrow> int \<Rightarrow> int \<Rightarrow> 't sharded res" where
  "reshard_split_unsharded T input dim n =
     res_bind (unbox_tensor input) (\<lambda>t. new_split_of_tensor T dim t (Some n) unnamed_tensor_name None)"

definition reshard_split_split :: "'t sharded \<Rightarrow> int \<Rightarrow> int \<Rightarrow> 't sharded res" where
  "reshard_split_split input dim n =
     guard (shard_count input = n) ValueError (guard (split_dim input = dim) ValueError (Inr input))"

text \<open>Every device keeps its part of the tensor it has: as many rows as the floored quotient.\<close>

definition slice_range_along_dim :: "nat \<Rightarrow> int \<Rightarrow> int \<Rightarrow> int \<Rightarrow> 't key list res" where
  "slice_range_along_dim rank dim start stop =
     py_set (List.replicate rank (SliceKey None None None)) dim (SliceKey (Some start) (Some stop) None)"

definition reshard_split_replicated :: "('t, 'o) torch \<Rightarrow> 't sharded \<Rightarrow> int \<Rightarrow> int \<Rightarrow> 't sharded res" where
  "reshard_split_replicated T input dim n =
     guard (shard_count input = n) ValueError
      (res_bind (py_get (sh_shape input) dim) (\<lambda>size.
       let shard_size_along_dim = size div n in
       as_split T dim
         (res_map (\<lambda>(i, s).
             res_bind (slice_range_along_dim (length (sh_shape input)) dim (int i * shard_size_along_dim)
                        ((int i + 1) * shard_size_along_dim)) (th_getitem T (pt_data s)))
           (enumerate 0 (sh_shards input)))))"

definition op_reshard_split :: "('t, 'o) torch \<Rightarrow> 't any_tensor \<Rightarrow> int \<Rightarrow> int \<Rightarrow> 't sharded res" where
  "op_reshard_split T input dim n =
     (case input of
        Sharded s \<Rightarrow>
          (case sh_class s of
             ReplicatedTensor \<Rightarrow> reshard_split_replicated T s dim n
           | SplitPrimitiveTensor \<Rightarrow> reshard_split_split s dim n
           | UnreducedTensor \<Rightarrow> Inl NotImplementedError)
      | _ \<Rightarrow> reshard_split_unsharded T input dim n)"

text \<open>\<open>reshard_like\<close>: the error text of two replicated tensors of different counts names \<open>input\<close>, which
  is the builtin there: an AttributeError.\<close>

definition op_reshard_like :: "('t, 'o) torch \<Rightarrow> 't any_tensor \<Rightarrow> 't any_tensor \<Rightarrow> 't any_tensor res" where
  "op_reshard_like T input like =
     (case (input, like) of
        (Sharded x, Sharded l) \<Rightarrow>
          (case (sh_class x, sh_class l) of
             (ReplicatedTensor, ReplicatedTensor) \<Rightarrow>
               guard (shard_count x = shard_count l) AttributeError (Inr (Sharded x))
           | (ReplicatedTensor, SplitPrimitiveTensor) \<Rightarrow>
               res_bind (reshard_split_replicated T x (split_dim l) (shard_count l)) (\<lambda>r. Inr (Sharded r))
           | (SplitPrimitiveTensor, SplitPrimitiveTensor) \<Rightarrow>
               guard (shard_count x = shard_count l \<and> split_dim x = split_dim l) AssertionError (Inr (Sharded x))
           | (UnreducedTensor, ReplicatedTensor) \<Rightarrow>
               res_bind (replicate_unreduced T x (shard_count l)) (\<lambda>r. Inr (Sharded r))
           | _ \<Rightarrow> Inl NotImplementedError)
      | (Sharded x, _) \<Rightarrow>
          (case sh_class x of
             ReplicatedTensor \<Rightarrow> unshard_replicated x
           | SplitPrimitiveTensor \<Rightarrow> res_bind (sharded_cat_split T x) (\<lambda>t. Inr (Torch t))
           | UnreducedTensor \<Rightarrow> Inl NotImplementedError)
      | (_, Sharded l) \<Rightarrow>
          (case sh_class l of
             SplitPrimitiveTensor \<Rightarrow>
               res_bind (reshard_split_unsharded T input (split_dim l) (shard_count l)) (\<lambda>r. Inr (Sharded r))
           | ReplicatedTensor \<Rightarrow> res_bind (replicate_unsharded T input (shard_count l)) (\<lambda>r. Inr (Sharded r))
           | UnreducedTensor \<Rightarrow> Inl NotImplementedError)
      | _ \<Rightarrow> Inl NotImplementedError)"

subsection \<open>Concatenation\<close>

definition cat_shards_at :: "('t, 'o) torch \<Rightarrow> 't sharded list \<Rightarrow> int \<Rightarrow> nat \<Rightarrow> 't res" where
  "cat_shards_at T xs dim i = cat_default T (map (\<lambda>x. Prim (sh_shards x ! i)) xs) dim"

definition cat_replicated :: "('t, 'o) torch \<Rightarrow> 't sharded list \<Rightarrow> int \<Rightarrow> 't sharded res" where
  "cat_replicated T tensors dim =
     (case tensors of
        [] \<Rightarrow> Inl AssertionError
      | t0 # _ \<Rightarrow>
         guard (list_all (\<lambda>t. shard_count t = shard_count t0) tensors) AssertionError
          (as_replicated T (res_map (cat_shards_at T tensors dim) [0..<length (sh_shards t0)])))"

definition cat_split :: "('t, 'o) torch \<Rightarrow> 't sharded list \<Rightarrow> int \<Rightarrow> 't sharded res" where
  "cat_split T tensors dim =
     (case tensors of
        [] \<Rightarrow> Inl AssertionError
      | t0 # _ \<Rightarrow>
         guard (list_all (\<lambda>t. shard_count t = shard_count t0 \<and> split_dim t = split_dim t0) tensors) AssertionError
          (if dim \<noteq> split_dim t0
           then as_split T (split_dim t0) (res_map (cat_shards_at T tensors dim) [0..<length (sh_shards t0)])
           else
             res_bind (cat_default T (concat (map (\<lambda>t. map Prim (sh_shards t)) tensors)) dim) (\<lambda>t.
               reshard_split_unsharded T (Torch t) (split_dim t0) (shard_count t0))))"

fun all_sharded :: "'t any_tensor list \<Rightarrow> 't sharded list option" where
  "all_sharded [] = Some []"
| "all_sharded (Sharded s # xs) = map_option ((#) s) (all_sharded xs)"
| "all_sharded (_ # xs) = None"

definition op_cat :: "('t, 'o) torch \<Rightarrow> 't any_tensor list \<Rightarrow> int \<Rightarrow> 't any_tensor res" where
  "op_cat T tensors dim =
     (case all_sharded tensors of
        Some xs \<Rightarrow>
          (if list_all is_split xs then res_bind (cat_split T xs dim) (\<lambda>r. Inr (Sharded r))
           else if list_all is_replicated xs then res_bind (cat_replicated T xs dim) (\<lambda>r. Inr (Sharded r))
           else Inl NotImplementedError)
      | None \<Rightarrow>
          (if list_all is_plain tensors then res_bind (cat_default T tensors dim) (\<lambda>t. Inr (Torch t))
           else Inl NotImplementedError))"

end
