(* ===== verification/Tn_Represents.thy ===== *)
theory Tn_Represents
  imports Tn_Products Tn_Sharded_Ops
begin

section \<open>The tensor a sharded tensor stands for\<close>

text \<open>
  A tensor is its shape and its elements in row-major order. What is relied on of torch is said with a
  function \<open>cells\<close> that gives the elements of a tensor of torch; each \<open>_ok\<close> predicate is the documented
  behaviour of one function of torch. \<open>represents\<close> is the abstraction: which tensor the shards of a
  sharded tensor make up. Elements are of a semiring, so rounding is not modelled.
\<close>

subsection \<open>Shapes\<close>

definition vol :: "int list \<Rightarrow> nat" where
  "vol s = prod_list (map nat s)"

lemma vol_simps [simp]: "vol [] = 1" "vol (n # s) = nat n * vol s" "vol (s @ s') = vol s * vol s'"
  by (simp_all add: vol_def)

lemma vol_split: "d < length s \<Longrightarrow> vol s = vol (take d s) * (nat (s ! d) * vol (drop (Suc d) s))"
  by (metis id_take_nth_drop vol_simps(2) vol_simps(3))

definition off_dim :: "nat \<Rightarrow> int list \<Rightarrow> int list \<Rightarrow> bool" where
  "off_dim d s s' \<longleftrightarrow> s' = s[d := s' ! d]"

lemma off_dim_length: "off_dim d s s' \<Longrightarrow> length s' = length s"
  unfolding off_dim_def by (metis length_list_update)

lemma off_dim_parts:
  assumes "off_dim d s s'"
  shows "take d s' = take d s" and "drop (Suc d) s' = drop (Suc d) s"
  using assms unfolding off_dim_def by (metis take_update_cancel order_refl, metis drop_update_cancel lessI)

lemma off_dim_update [simp]: "off_dim d s (s[d := n]) \<longleftrightarrow> True"
  by (cases "d < length s") (auto simp: off_dim_def list_update_beyond)

lemma off_dim_vol:
  assumes "off_dim d s s'" and "d < length s"
  shows "vol s' = vol (take d s) * (nat (s' ! d) * vol (drop (Suc d) s))"
  using assms vol_split [of d s'] by (simp add: off_dim_parts off_dim_length)

lemma matches_but_dim_iff:
  "matches_but_dim (int d) s s' \<longleftrightarrow> length s = length s' \<and> (\<forall>i < length s. i \<noteq> d \<longrightarrow> s ! i = s' ! i)"
  by (auto simp: matches_but_dim_def list_all_length nth_enumerate_eq)

lemma matches_off_dim: "d < length s \<Longrightarrow> matches_but_dim (int d) s s' \<longleftrightarrow> off_dim d s s'"
proof
  assume "d < length s" "matches_but_dim (int d) s s'"
  then show "off_dim d s s'"
    unfolding off_dim_def matches_but_dim_iff by (intro nth_equalityI) (auto simp: nth_list_update)
next
  assume "d < length s" "off_dim d s s'"
  then show "matches_but_dim (int d) s s'"
    unfolding matches_but_dim_iff off_dim_def by (metis length_list_update nth_list_update_neq)
qed

subsection \<open>What is relied on of torch\<close>

definition content_ok :: "('t, 'o) torch \<Rightarrow> ('t \<Rightarrow> 'a list) \<Rightarrow> bool" where
  "content_ok T cells \<longleftrightarrow> (\<forall>t. (\<forall>n \<in> set (th_shape T t). 0 \<le> n) \<and> length (cells t) = vol (th_shape T t))"

lemma content_nonneg: "content_ok T cells \<Longrightarrow> n \<in> set (th_shape T t) \<Longrightarrow> 0 \<le> n"
  by (auto simp: content_ok_def)

lemma content_nth: "content_ok T cells \<Longrightarrow> i < length (th_shape T t) \<Longrightarrow> 0 \<le> th_shape T t ! i"
  using content_nonneg [of T cells "th_shape T t ! i" t] by simp

lemma content_length: "content_ok T cells \<Longrightarrow> length (cells t) = vol (th_shape T t)"
  by (simp add: content_ok_def)

definition transfer_ok :: "('t, 'o) torch \<Rightarrow> ('t \<Rightarrow> 'a list) \<Rightarrow> bool" where
  "transfer_ok T cells \<longleftrightarrow>
     (\<forall>i t. th_shape T (th_transfer T i t) = th_shape T t \<and> cells (th_transfer T i t) = cells t)"

text \<open>The parts of tensors that agree with \<open>s\<close> but for the dimension \<open>d\<close>.\<close>

definition parts_along :: "('t, 'o) torch \<Rightarrow> ('t \<Rightarrow> 'a list) \<Rightarrow> nat \<Rightarrow> int list \<Rightarrow> 't list \<Rightarrow> (nat \<times> 'a list) list" where
  "parts_along T cells d s ts = map (\<lambda>t. (nat (th_shape T t ! d) * vol (drop (Suc d) s), cells t)) ts"

definition joined :: "('t, 'o) torch \<Rightarrow> ('t \<Rightarrow> 'a list) \<Rightarrow> nat \<Rightarrow> int list \<Rightarrow> 't list \<Rightarrow> 'a list" where
  "joined T cells d s ts = interleave (vol (take d s)) (parts_along T cells d s ts)"

definition along :: "('t, 'o) torch \<Rightarrow> nat \<Rightarrow> int list \<Rightarrow> 't list \<Rightarrow> bool" where
  "along T d s ts \<longleftrightarrow> ts \<noteq> [] \<and> d < length s \<and> (\<forall>t \<in> set ts. off_dim d s (th_shape T t)) \<and>
     s ! d = sum_list (map (\<lambda>t. th_shape T t ! d) ts)"

definition cat_ok :: "('t, 'o) torch \<Rightarrow> ('t \<Rightarrow> 'a list) \<Rightarrow> bool" where
  "cat_ok T cells \<longleftrightarrow>
     (\<forall>d s ts. along T d s ts \<longrightarrow>
        (\<exists>t. th_cat T ts (int d) = Inr t \<and> th_shape T t = s \<and> cells t = joined T cells d s ts))"

definition add_ok :: "('t, 'o) torch \<Rightarrow> ('t \<Rightarrow> 'a::semiring_0 list) \<Rightarrow> bool" where
  "add_ok T cells \<longleftrightarrow>
     (\<forall>x y. th_shape T x = th_shape T y \<longrightarrow>
        (\<exists>t. th_add T x y = Inr t \<and> th_shape T t = th_shape T x \<and> cells t = map2 (+) (cells x) (cells y)))"

text \<open>\<open>t.split(size, dim)\<close>: pieces of the size, the last one with what is left; no piece is empty unless
  the dimension is.\<close>

definition piece_sizes :: "nat \<Rightarrow> nat \<Rightarrow> nat list" where
  "piece_sizes w n =
     (if n = 0 then [0] else List.replicate (n div w) w @ (if n mod w = 0 then [] else [n mod w]))"

definition split_ok :: "('t, 'o) torch \<Rightarrow> ('t \<Rightarrow> 'a list) \<Rightarrow> bool" where
  "split_ok T cells \<longleftrightarrow>
     (\<forall>t w d. d < length (th_shape T t) \<longrightarrow> 0 \<le> w \<longrightarrow> (th_shape T t ! d \<noteq> 0 \<longrightarrow> 0 < w) \<longrightarrow>
        (let s = th_shape T t; K = vol (drop (Suc d) s); ks = piece_sizes (nat w) (nat (s ! d)) in
         \<exists>ts. th_split T t w (int d) = Inr ts \<and>
           map (th_shape T) ts = map (\<lambda>k. s[d := int k]) ks \<and>
           map cells ts = map2 (\<lambda>a k. cut (vol (take d s)) (nat (s ! d) * K) (a * K) (k * K) (cells t)) (offsets 0 ks) ks))"

subsection \<open>Representation\<close>

definition valid_shard :: "('t, 'o) torch \<Rightarrow> 't prim_tensor \<Rightarrow> bool" where
  "valid_shard T p \<longleftrightarrow> pt_shape p = th_shape T (pt_data p)"

definition shard_data :: "'t sharded \<Rightarrow> 't list" where
  "shard_data x = map pt_data (sh_shards x)"

definition represents_sharded ::
  "('t, 'o) torch \<Rightarrow> ('t \<Rightarrow> 'a::semiring_0 list) \<Rightarrow> 't sharded \<Rightarrow> int list \<Rightarrow> 'a list \<Rightarrow> bool" where
  "represents_sharded T cells x s xs \<longleftrightarrow>
     sh_shape x = s \<and> sh_shards x \<noteq> [] \<and> (\<forall>p \<in> set (sh_shards x). valid_shard T p) \<and>
     (case sh_class x of
        SplitPrimitiveTensor \<Rightarrow>
          (\<exists>d. sh_dim x = Some (int d) \<and> along T d s (shard_data x) \<and> xs = joined T cells d s (shard_data x))
      | ReplicatedTensor \<Rightarrow> sh_dim x = None \<and> (\<forall>t \<in> set (shard_data x). th_shape T t = s \<and> cells t = xs)
      | UnreducedTensor \<Rightarrow>
          sh_dim x = None \<and> (\<forall>t \<in> set (shard_data x). th_shape T t = s) \<and> xs = sum_cells (map cells (shard_data x)))"

definition represents ::
  "('t, 'o) torch \<Rightarrow> ('t \<Rightarrow> 'a::semiring_0 list) \<Rightarrow> 't any_tensor \<Rightarrow> int list \<Rightarrow> 'a list \<Rightarrow> bool" where
  "represents T cells x s xs \<longleftrightarrow>
     (case x of
        Torch t \<Rightarrow> th_shape T t = s \<and> cells t = xs
      | Prim p \<Rightarrow> valid_shard T p \<and> pt_shape p = s \<and> cells (pt_data p) = xs
      | Sharded y \<Rightarrow> represents_sharded T cells y s xs)"

lemma represents_simps [simp]:
  "represents T cells (Torch t) s xs \<longleftrightarrow> th_shape T t = s \<and> cells t = xs"
  "represents T cells (Prim p) s xs \<longleftrightarrow> valid_shard T p \<and> pt_shape p = s \<and> cells (pt_data p) = xs"
  "represents T cells (Sharded y) s xs \<longleftrightarrow> represents_sharded T cells y s xs"
  by (simp_all add: represents_def)

lemma unbox_represents:
  assumes "represents T cells x s xs" and "is_plain x"
  shows "\<exists>t. unbox_tensor x = Inr t \<and> th_shape T t = s \<and> cells t = xs"
  using assms by (auto simp: is_plain_def unbox_tensor_def valid_shard_def split: any_tensor.splits)

lemma fits_parts_along:
  assumes "content_ok T cells" and "along T d s ts"
  shows "fits (vol (take d s)) (parts_along T cells d s ts)"
  using assms by (auto simp: fits_def parts_along_def content_ok_def along_def off_dim_vol)

subsection \<open>Constructors\<close>

lemma box_shards_raw_eq:
  "box_shards T name (map RawShard ts) = map (\<lambda>(i, t). new_prim T t (shard_name name i)) (enumerate 0 ts)"
  by (rule nth_equalityI) (simp_all add: box_shards_def nth_enumerate_eq)

lemma box_shards_raw:
  "map pt_data (box_shards T name (map RawShard ts)) = ts"
  "\<forall>p \<in> set (box_shards T name (map RawShard ts)). valid_shard T p"
  "length (box_shards T name ss) = length ss"
  by (auto simp: box_shards_raw_eq new_prim_def valid_shard_def o_def split_def)
    (simp add: box_shards_def)

lemma shard_shape_raw [simp]: "shard_shape T (RawShard t) = th_shape T t"
  by (simp add: shard_shape_def)

text \<open>What the checks of the constructor of a split tensor establish, and that it succeeds then.\<close>

lemma py_get_int [simp]: "i < length xs \<Longrightarrow> py_get xs (int i) = Inr (xs ! i)"
  by (simp add: py_get_def py_index_def)

lemma py_set_int [simp]: "i < length xs \<Longrightarrow> py_set xs (int i) v = Inr (xs[i := v])"
  by (simp add: py_set_def py_update_def py_index_def)

lemma new_split_Inr:
  assumes "new_split T dim (map RawShard ts) name shape = Inr y"
  shows "\<exists>d. dim = int d \<and> along T d (sh_shape y) ts \<and> sh_class y = SplitPrimitiveTensor \<and>
    sh_dim y = Some (int d) \<and> shard_data y = ts \<and> (\<forall>p \<in> set (sh_shards y). valid_shard T p) \<and>
    (shape \<noteq> None \<longrightarrow> shape = Some (sh_shape y)) \<and> sh_name y = name \<and> sh_shards y = box_shards T name (map RawShard ts)"
proof -
  obtain t0 ts' where ts: "ts = t0 # ts'" using assms by (cases ts) (auto simp: new_split_def)
  from assms have dim: "dim < int (length (th_shape T t0))" "0 \<le> dim"
    by (auto simp: new_split_def ts Let_def new_sharded_base_def res_bind_Inr split: if_splits)
  then obtain d where d: "dim = int d" "d < length (th_shape T t0)"
    by (metis nonneg_int_cases of_nat_less_iff)
  from assms d obtain sizes where
    sizes: "res_map (\<lambda>t. py_get (shard_shape T t) (int d)) (map RawShard ts) = Inr sizes" and
    checks: "list_all (\<lambda>t. matches_but_dim (int d) ((th_shape T t0)[d := sum_list sizes]) (shard_shape T t)) (map RawShard ts)" and
    y: "y = \<lparr>sh_class = SplitPrimitiveTensor, sh_name = name, sh_shape = (th_shape T t0)[d := sum_list sizes],
             sh_dim = Some (int d), sh_shards = box_shards T name (map RawShard ts)\<rparr>" and
    shape: "shape \<noteq> None \<longrightarrow> shape = Some ((th_shape T t0)[d := sum_list sizes])"
    by (auto simp: new_split_def ts Let_def new_sharded_base_def res_bind_Inr split: if_splits)
  let ?s = "(th_shape T t0)[d := sum_list sizes]"
  have off: "off_dim d ?s (th_shape T t)" if "t \<in> set ts" for t
    using checks d that by (auto simp: list_all_iff matches_off_dim)
  then have "res_map (\<lambda>t. py_get (shard_shape T t) (int d)) (map RawShard ts) =
      Inr (map (\<lambda>t. shard_shape T t ! d) (map RawShard ts))"
    using d off [THEN off_dim_length] by (intro res_map_total) auto
  with sizes have "sizes = map (\<lambda>t. th_shape T t ! d) ts" by (simp add: o_def)
  then have "along T d ?s ts" using d off ts by (simp add: along_def)
  then show ?thesis using d y shape by (auto simp: shard_data_def box_shards_raw)
qed

lemma new_split_hd:
  assumes "ts \<noteq> []"
  shows "new_split T dim ts name shape =
    (let first_shape = shard_shape T (hd ts) in
     if \<not> int (length first_shape) > dim then Inl AssertionError
     else
       res_bind (res_map (\<lambda>t. py_get (shard_shape T t) dim) ts) (\<lambda>sizes.
       res_bind (py_set first_shape dim (sum_list sizes)) (\<lambda>expected_shape.
       if shape \<noteq> None \<and> shape \<noteq> Some expected_shape then Inl AssertionError
       else if \<not> list_all (\<lambda>t. matches_but_dim dim expected_shape (shard_shape T t)) ts
       then Inl AssertionError
       else if 0 \<le> dim \<and> dim < int (length (shard_shape T (hd ts)))
       then Inr \<lparr>sh_class = SplitPrimitiveTensor, sh_name = name, sh_shape = expected_shape,
                 sh_dim = Some dim, sh_shards = box_shards T name ts\<rparr>
       else Inl AssertionError)))"
proof -
  obtain t ts' where "ts = t # ts'" using assms by (cases ts) auto
  then show ?thesis
    by (hypsubst, simp only: new_split_def list.case list.sel new_sharded_base_def option.case)
qed

lemma new_split_along:
  assumes "along T d s ts" and "shape = None \<or> shape = Some s"
  shows "new_split T (int d) (map RawShard ts) name shape =
    Inr \<lparr>sh_class = SplitPrimitiveTensor, sh_name = name, sh_shape = s, sh_dim = Some (int d),
         sh_shards = box_shards T name (map RawShard ts)\<rparr>"
proof -
  from assms obtain t0 ts' where ts: "ts = t0 # ts'" by (cases ts) (auto simp: along_def)
  have off: "off_dim d s (th_shape T t)" if "t \<in> set ts" for t using assms that by (simp add: along_def)
  have len: "length (th_shape T t) = length s" if "t \<in> set ts" for t using off [OF that] by (rule off_dim_length)
  have d: "d < length s" and sum: "s ! d = sum_list (map (\<lambda>t. th_shape T t ! d) ts)"
    using assms by (auto simp: along_def)
  have sizes: "res_map (\<lambda>t. py_get (shard_shape T t) (int d)) (map RawShard ts) =
      Inr (map (\<lambda>t. shard_shape T t ! d) (map RawShard ts))"
    using d len by (intro res_map_total) auto
  have "th_shape T t0 = s[d := th_shape T t0 ! d]" using off [of t0] ts by (simp add: off_dim_def)
  then have "(th_shape T t0)[d := s ! d] = s" by (metis list_update_id list_update_overwrite)
  then have expected: "(th_shape T t0)[d := sum_list (map (\<lambda>t. th_shape T t ! d) ts)] = s"
    using sum by simp
  have checks: "list_all (\<lambda>t. matches_but_dim (int d) s (shard_shape T t)) (map RawShard ts)"
    using off d by (auto simp: list_all_iff matches_off_dim)
  have hd: "shard_shape T (hd (map RawShard ts)) = th_shape T t0" and ne: "map RawShard ts \<noteq> []"
    by (simp_all add: ts)
  have l: "d < length (th_shape T t0)" using len [of t0] d ts by simp
  have sums: "sum_list (map (\<lambda>t. shard_shape T t ! d) (map RawShard ts)) = sum_list (map (\<lambda>t. th_shape T t ! d) ts)"
    by (simp add: o_def)
  show ?thesis
    using assms(2) l
    by (simp only: new_split_hd [OF ne] hd Let_def sizes res_bind_simps sums py_set_int expected checks) auto
qed

lemma new_split_represents:
  assumes "new_split T dim (map RawShard ts) name shape = Inr y"
  shows "\<exists>d. dim = int d \<and> along T d (sh_shape y) ts \<and>
    represents_sharded T cells y (sh_shape y) (joined T cells d (sh_shape y) ts)"
  using new_split_Inr [OF assms] by (auto simp: represents_sharded_def along_def shard_data_def)

subsection \<open>Moving shards between devices\<close>

lemma along_cong: "map (th_shape T) ts' = map (th_shape T) ts \<Longrightarrow> along T d s ts' = along T d s ts"
proof -
  have *: "along T d s us \<longleftrightarrow> map (th_shape T) us \<noteq> [] \<and> d < length s \<and> list_all (off_dim d s) (map (th_shape T) us) \<and>
      s ! d = sum_list (map (\<lambda>n. n ! d) (map (th_shape T) us))" for us
    by (simp add: along_def list_all_iff o_def)
  show "map (th_shape T) ts' = map (th_shape T) ts \<Longrightarrow> ?thesis" by (simp only: *)
qed

lemma joined_cong:
  assumes "map (th_shape T) ts' = map (th_shape T) ts" and "map cells ts' = map cells ts"
  shows "joined T cells d s ts' = joined T cells d s ts"
proof -
  have "parts_along T cells d s us = map2 (\<lambda>n xs. (nat (n ! d) * vol (drop (Suc d) s), xs)) (map (th_shape T) us) (map cells us)"
    for us by (simp add: parts_along_def map2_map_map)
  with assms show ?thesis by (simp add: joined_def)
qed

lemma moved_same:
  assumes "transfer_ok T cells"
  shows "map (th_shape T) (map (\<lambda>(i, p). if P i then pt_data p else th_transfer T n (pt_data p)) (enumerate k ps))
      = map (th_shape T) (map pt_data ps)"
    and "map cells (map (\<lambda>(i, p). if P i then pt_data p else th_transfer T n (pt_data p)) (enumerate k ps))
      = map cells (map pt_data ps)"
  using assms by (induction ps arbitrary: k) (auto simp: transfer_ok_def)

lemma unbox_moved:
  "res_map unbox_tensor (map (\<lambda>(j, p). if P j then Prim p else Torch (th_transfer T n (pt_data p))) (enumerate k ps)) =
   Inr (map (\<lambda>(j, p). if P j then pt_data p else th_transfer T n (pt_data p)) (enumerate k ps))"
  by (induction ps arbitrary: k) (auto simp: unbox_tensor_def)

lemma cat_along:
  assumes "cat_ok T cells" and "along T d s ts"
  shows "\<exists>t. th_cat T ts (int d) = Inr t \<and> th_shape T t = s \<and> cells t = joined T cells d s ts"
  using assms unfolding cat_ok_def by blast

text \<open>The shards of a split tensor, moved, concatenate to the tensor.\<close>

lemma cat_moved:
  assumes "transfer_ok T cells" and "cat_ok T cells" and "along T d s (map pt_data ps)"
  shows "\<exists>t. th_cat T (map (\<lambda>(i, p). if P i then pt_data p else th_transfer T n (pt_data p)) (enumerate 0 ps)) (int d) = Inr t \<and>
    th_shape T t = s \<and> cells t = joined T cells d s (map pt_data ps)"
proof -
  let ?ts = "map (\<lambda>(i, p). if P i then pt_data p else th_transfer T n (pt_data p)) (enumerate 0 ps)"
  note same = moved_same [OF assms(1), of P n 0 ps]
  have "along T d s ?ts" using assms(3) along_cong [OF same(1)] by simp
  from cat_along [OF assms(2) this] joined_cong [OF same] show ?thesis by simp
qed

definition plain_cells :: "('t \<Rightarrow> 'a list) \<Rightarrow> 't any_tensor \<Rightarrow> 'a list" where
  "plain_cells cells x = (case x of Torch t \<Rightarrow> cells t | Prim p \<Rightarrow> cells (pt_data p) | Sharded _ \<Rightarrow> [])"

definition plain_shape :: "('t, 'o) torch \<Rightarrow> 't any_tensor \<Rightarrow> int list \<Rightarrow> bool" where
  "plain_shape T x s \<longleftrightarrow>
     (case x of Torch t \<Rightarrow> th_shape T t = s | Prim p \<Rightarrow> valid_shard T p \<and> pt_shape p = s | Sharded _ \<Rightarrow> False)"

lemma represents_plain:
  "is_plain x \<Longrightarrow> represents T cells x s xs \<longleftrightarrow> plain_shape T x s \<and> plain_cells cells x = xs"
  by (cases x) (auto simp: is_plain_def plain_cells_def plain_shape_def)

lemma plain_unbox:
  "plain_shape T x s \<Longrightarrow> \<exists>t. unbox_tensor x = Inr t \<and> th_shape T t = s \<and> cells t = plain_cells cells x"
  by (cases x) (auto simp: plain_cells_def plain_shape_def unbox_tensor_def valid_shard_def)

lemma reduce_moved:
  fixes cells :: "'t \<Rightarrow> 'a::semiring_0 list"
  assumes "add_ok T cells" and "\<forall>x \<in> set (x0 # xs). plain_shape T x s"
  shows "\<exists>y. functools_reduce_add T (x0 # xs) = Inr y \<and> plain_shape T y s \<and>
    plain_cells cells y = sum_cells (map (plain_cells cells) (x0 # xs))"
  using assms(2)
proof (induction xs arbitrary: x0)
  case Nil
  then show ?case by (simp add: functools_reduce_add_def sum_cells_def)
next
  case (Cons x xs)
  obtain a where a: "unbox_tensor x0 = Inr a" "th_shape T a = s" "cells a = plain_cells cells x0"
    using Cons.prems plain_unbox [of T x0 s cells] by auto
  obtain b where b: "unbox_tensor x = Inr b" "th_shape T b = s" "cells b = plain_cells cells x"
    using Cons.prems plain_unbox [of T x s cells] by auto
  obtain c where c: "th_add T a b = Inr c" "th_shape T c = s" "cells c = map2 (+) (cells a) (cells b)"
    using assms(1) a b unfolding add_ok_def by metis
  have "\<forall>x \<in> set (Torch c # xs). plain_shape T x s"
    using Cons.prems c by (simp add: plain_shape_def)
  from Cons.IH [OF this] show ?case
    using a b c by (simp add: functools_reduce_add_def unbox2_def sum_cells_def plain_cells_def [of _ "Torch c"])
qed

lemma sharded_cat_split_alt:
  "sharded_cat_split T x =
   th_cat T (map (\<lambda>(i, p). if i = 0 then pt_data p else th_transfer T 0 (pt_data p)) (enumerate 0 (sh_shards x))) (split_dim x)"
  unfolding sharded_cat_split_def by (intro arg_cong2 [where f = "th_cat T"] map_cong) auto

text \<open>\<open>unshard\<close> gives the tensor that is represented.\<close>

theorem unshard_represents:
  fixes cells :: "'t \<Rightarrow> 'a::semiring_0 list"
  assumes "transfer_ok T cells" and "cat_ok T cells" and "add_ok T cells" and "represents T cells x s xs"
  shows "\<exists>y. unshard T x = Inr y \<and> is_plain y \<and> represents T cells y s xs"
proof (cases x)
  case (Sharded z)
  then have z: "represents_sharded T cells z s xs" using assms(4) by simp
  then obtain p ps where ps: "sh_shards z = p # ps" "valid_shard T p"
    by (cases "sh_shards z") (auto simp: represents_sharded_def)
  show ?thesis
  proof (cases "sh_class z")
    case SplitPrimitiveTensor
    then obtain d where d: "sh_dim z = Some (int d)" "along T d s (shard_data z)" "xs = joined T cells d s (shard_data z)"
      using z by (auto simp: represents_sharded_def)
    moreover from this obtain t where "th_cat T (map (\<lambda>(i, p). if i = 0 then pt_data p else th_transfer T 0 (pt_data p)) (enumerate 0 (sh_shards z))) (int d) = Inr t"
      "th_shape T t = s" "cells t = xs"
      using cat_moved [OF assms(1,2), of d s "sh_shards z" "\<lambda>i. i = 0" 0] by (auto simp: shard_data_def)
    ultimately show ?thesis
      using Sharded SplitPrimitiveTensor d
      by (simp add: unshard_def unshard_split_def sharded_cat_split_alt split_dim_def is_plain_def)
  next
    case ReplicatedTensor
    then show ?thesis
      using Sharded z ps
      by (auto simp: unshard_def unshard_replicated_def list_get_def is_plain_def represents_sharded_def
          shard_data_def valid_shard_def)
  next
    case UnreducedTensor
    let ?f = "\<lambda>(i :: nat, p :: 't prim_tensor). if i = 0 then Prim p else Torch (th_transfer T 0 (pt_data p))"
    have shapes: "\<forall>q \<in> set (sh_shards z). th_shape T (pt_data q) = s \<and> valid_shard T q"
      using z UnreducedTensor by (auto simp: represents_sharded_def shard_data_def)
    have moved: "(\<forall>x \<in> set (map ?f (enumerate k qs)). plain_shape T x s) \<and>
        map (plain_cells cells) (map ?f (enumerate k qs)) = map cells (map pt_data qs)"
      if "\<forall>q \<in> set qs. th_shape T (pt_data q) = s \<and> valid_shard T q" for k qs
      using that assms(1)
      by (induction qs arbitrary: k) (auto simp: plain_shape_def plain_cells_def transfer_ok_def valid_shard_def)
    have "map ?f (enumerate 0 (sh_shards z)) = Prim p # map ?f (enumerate 1 ps)" by (simp add: ps)
    with moved [OF shapes, of 0] obtain y where y:
      "functools_reduce_add T (map ?f (enumerate 0 (sh_shards z))) = Inr y" "plain_shape T y s"
      "plain_cells cells y = sum_cells (map cells (map pt_data (sh_shards z)))"
      using reduce_moved [OF assms(3), of "Prim p" "map ?f (enumerate 1 ps)" s] by auto
    from y(2) have "is_plain y" by (cases y) (simp_all add: plain_shape_def is_plain_def)
    moreover have "xs = sum_cells (map cells (map pt_data (sh_shards z)))"
      using z UnreducedTensor by (simp add: represents_sharded_def shard_data_def)
    ultimately show ?thesis
      using y Sharded UnreducedTensor by (simp add: unshard_def unshard_unreduced_def represents_plain)
  qed
qed (use assms(4) in \<open>auto simp: unshard_def is_plain_def\<close>)

end
