(* ===== verification/Tn_Sharded_Views.thy ===== *)
theory Tn_Sharded_Views
  imports Tn_Sharded_Ops
begin

section \<open>Operations on sharded tensors that move or rename dimensions\<close>

text \<open>
  The overrides of \<open>sharktank/ops/sharded_impls.py\<close> for expand, flatten, permute, repeat, reshape,
  transpose, unflatten, unsqueeze, view and the views of complex numbers, and those that index.
\<close>

subsection \<open>Dimensions\<close>

definition expand_split :: "('t, 'o) torch \<Rightarrow> 't sharded \<Rightarrow> int list \<Rightarrow> 't sharded res" where
  "expand_split T x shape =
     guard (length shape = length (sh_shape x)) AssertionError
      (let expanded_dims = [i. (i, (old_dim, new_dim)) \<leftarrow> enumerate 0 (zip (sh_shape x) shape), old_dim = 1 \<and> new_dim \<noteq> 1] in
       guard (split_dim x \<notin> int ` set expanded_dims) AssertionError
        (as_split T (split_dim x)
          (res_map (\<lambda>s. res_bind (py_get (pt_shape s) (split_dim x)) (\<lambda>n.
                        res_bind (py_set shape (split_dim x) n) (expand_default T (Prim s))))
            (sh_shards x))))"

definition flatten_replicated :: "('t, 'o) torch \<Rightarrow> 't sharded \<Rightarrow> int \<Rightarrow> int \<Rightarrow> 't sharded res" where
  "flatten_replicated T x start_dim end_dim =
     as_replicated T (map_shards (\<lambda>s. flatten_default T s start_dim end_dim) x)"

definition flatten_split :: "('t, 'o) torch \<Rightarrow> 't sharded \<Rightarrow> int \<Rightarrow> int \<Rightarrow> 't sharded res" where
  "flatten_split T x start_dim end_dim =
     (let end_dim_resolved = (if end_dim = - 1 then rank_of x - 1 else end_dim); d = split_dim x in
      guard (d \<le> start_dim \<or> end_dim_resolved < d) AssertionError
       (res_bind (if d \<noteq> start_dim then Inr True
                  else res_bind (py_get (sh_shape x) d) (\<lambda>n. Inr (n mod shard_count x = 0))) (\<lambda>divisible.
        guard divisible AssertionError
         (as_split T (if d \<le> start_dim then d else d - (end_dim_resolved - start_dim))
           (map_shards (\<lambda>s. flatten_default T s start_dim end_dim) x)))))"

definition permute_split :: "('t, 'o) torch \<Rightarrow> 't sharded \<Rightarrow> int list \<Rightarrow> 't sharded res" where
  "permute_split T x dims =
     res_bind (map_shards (\<lambda>s. permute_default T s dims) x) (\<lambda>permuted_shards.
     res_bind (py_get dims (split_dim x)) (\<lambda>permuted_shard_dim.
       new_split_result T permuted_shard_dim permuted_shards))"

definition permute_replicated :: "('t, 'o) torch \<Rightarrow> 't sharded \<Rightarrow> int list \<Rightarrow> 't sharded res" where
  "permute_replicated T x dims = as_replicated T (map_shards (\<lambda>s. permute_default T s dims) x)"

definition repeat_replicated :: "('t, 'o) torch \<Rightarrow> 't sharded \<Rightarrow> int list \<Rightarrow> 't sharded res" where
  "repeat_replicated T x sizes = as_replicated T (map_shards (\<lambda>s. repeat_default T s sizes) x)"

definition transpose_split :: "('t, 'o) torch \<Rightarrow> 't sharded \<Rightarrow> int \<Rightarrow> int \<Rightarrow> 't sharded res" where
  "transpose_split T x dim0 dim1 =
     (let d = split_dim x in
      as_split T (if d = dim0 then dim1 else if d = dim1 then dim0 else d)
        (map_shards (\<lambda>s. transpose_default T s dim0 dim1) x))"

definition unflatten_split :: "('t, 'o) torch \<Rightarrow> 't sharded \<Rightarrow> int \<Rightarrow> int list \<Rightarrow> 't sharded res" where
  "unflatten_split T x dim sizes =
     guard (dim \<noteq> split_dim x) AssertionError
      (as_split T (if dim < split_dim x then split_dim x + (int (length sizes) - 1) else split_dim x)
        (map_shards (\<lambda>s. unflatten_default T s dim sizes) x))"

text \<open>The shards are unboxed before torch is called.\<close>

definition unsqueeze_split :: "('t, 'o) torch \<Rightarrow> 't sharded \<Rightarrow> int \<Rightarrow> 't sharded res" where
  "unsqueeze_split T x dim =
     (let dim_resolved = (if dim \<ge> 0 then dim else dim + rank_of x + 1); d = split_dim x in
      as_split T (if d \<ge> dim_resolved then d + 1 else d) (map_shards (unbox1 (\<lambda>t. th_unsqueeze T t dim)) x))"

definition unsqueeze_replicated :: "('t, 'o) torch \<Rightarrow> 't sharded \<Rightarrow> int \<Rightarrow> 't sharded res" where
  "unsqueeze_replicated T x dim = as_replicated T (map_shards (unbox1 (\<lambda>t. th_unsqueeze T t dim)) x)"

definition view_split :: "('t, 'o) torch \<Rightarrow> 't sharded \<Rightarrow> int list \<Rightarrow> 't sharded res" where
  "view_split T x shape =
     res_bind (reshape_get_single_split_dim (sh_shape x) shape) (\<lambda>view_split_range.
     case view_split_range of
       None \<Rightarrow> Inl ValueError
     | Some (view_split_dim, _) \<Rightarrow>
        (let d = split_dim x; n = shard_count x;
             divisible = (int view_split_dim \<noteq> d \<or>
               sh_shape x ! view_split_dim mod n = 0 \<and> shape ! view_split_dim mod n = 0)
         in guard divisible ValueError
          (let shard_dim = (if d > int view_split_dim then d + (int (length shape) - int (length (sh_shape x))) else d) in
           res_bind (py_get shape shard_dim) (\<lambda>k.
           res_bind (py_set shape shard_dim (k div n)) (\<lambda>new_shard_shape.
           res_bind (as_split T shard_dim (map_shards (\<lambda>s. view_default T s new_shard_shape) x)) (\<lambda>r.
             guard (prod_list (sh_shape r) = prod_list (sh_shape x)) AssertionError (Inr r)))))))"

definition reshape_split :: "('t, 'o) torch \<Rightarrow> 't sharded \<Rightarrow> int list \<Rightarrow> 't sharded res" where
  "reshape_split T x shape =
     res_bind (reshape_get_single_split_dim (sh_shape x) shape) (\<lambda>single_split.
       if single_split \<noteq> None then view_split T x shape
       else
        res_bind (reshape_get_flatten_dim_range (sh_shape x) shape) (\<lambda>flatten_dim_range.
          case flatten_dim_range of
            Some (start, stop) \<Rightarrow> flatten_split T x (int start) (int stop - 1)
          | None \<Rightarrow> Inl ValueError))"

definition view_as_complex_sharded :: "('t, 'o) torch \<Rightarrow> 't sharded \<Rightarrow> 't sharded res" where
  "view_as_complex_sharded T x =
     (let shards = map_shards (view_as_complex_default T) x
      in if is_split x then as_split T (split_dim x) shards else as_replicated T shards)"

definition view_as_real_sharded :: "('t, 'o) torch \<Rightarrow> 't sharded \<Rightarrow> 't sharded res" where
  "view_as_real_sharded T x =
     (let shards = map_shards (view_as_real_default T) x
      in if is_split x then as_split T (split_dim x) shards else as_replicated T shards)"

subsection \<open>Indexing\<close>

definition gather_replicated :: "('t, 'o) torch \<Rightarrow> 't sharded \<Rightarrow> int \<Rightarrow> 't sharded \<Rightarrow> 't sharded res" where
  "gather_replicated T x dim index =
     guard (shard_count x = shard_count index) AssertionError
      (as_replicated T (zip_shards (\<lambda>s i. gather_default T s dim i) x index))"

definition index_select_replicated :: "('t, 'o) torch \<Rightarrow> 't sharded \<Rightarrow> int \<Rightarrow> 't sharded \<Rightarrow> 't sharded res" where
  "index_select_replicated T x dim index =
     guard (shard_count x = shard_count index) AssertionError
      (as_replicated T (zip_shards (\<lambda>s i. index_select_default T s dim i) x index))"

definition index_select_split_replicated ::
  "('t, 'o) torch \<Rightarrow> 't sharded \<Rightarrow> int \<Rightarrow> 't sharded \<Rightarrow> 't sharded res" where
  "index_select_split_replicated T x dim index =
     guard (shard_count x = shard_count index) AssertionError
      (guard (dim \<noteq> split_dim x) AssertionError
       (as_split T (split_dim x) (zip_shards (\<lambda>s i. index_select_default T s dim i) x index)))"

text \<open>Operations in place change the tensors in the shards; their result is the tensor itself.\<close>

definition prim_of :: "'t any_tensor \<Rightarrow> 't prim_tensor \<Rightarrow> 't prim_tensor" where
  "prim_of y s = (case y of Prim p \<Rightarrow> p | _ \<Rightarrow> s)"

definition index_copy_split_replicated_split ::
  "('t, 'o) torch \<Rightarrow> 't sharded \<Rightarrow> int \<Rightarrow> 't sharded \<Rightarrow> 't sharded \<Rightarrow> 't sharded res" where
  "index_copy_split_replicated_split T inout dim index x =
     guard (shard_count inout = shard_count index \<and> shard_count inout = shard_count x) AssertionError
      (guard (split_dim inout = split_dim x) AssertionError
       (guard (split_dim inout \<noteq> dim) AssertionError
        (res_bind
          (res_map (\<lambda>(s, (i, v)). res_bind (index_copy_default T (Prim s) dim (Prim i) (Prim v)) (\<lambda>y. Inr (prim_of y s)))
            (zip (sh_shards inout) (zip (sh_shards index) (sh_shards x))))
          (\<lambda>shards. Inr (inout\<lparr>sh_shards := shards\<rparr>)))))"

definition index_put_split ::
  "('t, 'o) torch \<Rightarrow> 't sharded \<Rightarrow> 't any_tensor list \<Rightarrow> 't sharded \<Rightarrow> 't sharded res" where
  "index_put_split T inout indices values =
     res_bind (res_map (\<lambda>idx. op_replicate T idx (shard_count inout)) indices) (\<lambda>replicated.
     res_bind
      (res_map (\<lambda>(i, s).
         res_bind (res_map (\<lambda>idx. list_get (sh_shards idx) i) replicated) (\<lambda>shard_indices.
         res_bind (list_get (sh_shards values) i) (\<lambda>v.
         res_bind (index_put_default T (Prim s) (map Prim shard_indices) (Prim v)) (\<lambda>y. Inr (prim_of y s)))))
        (enumerate 0 (sh_shards inout)))
      (\<lambda>shards. Inr (inout\<lparr>sh_shards := shards\<rparr>)))"

subsection \<open>Choice of the override\<close>

text \<open>One operand: the overrides for plain, split and replicated tensors, \<open>None\<close> where there is none.\<close>

definition dispatch1 ::
  "('t any_tensor \<Rightarrow> 't res) \<Rightarrow> ('t sharded \<Rightarrow> 't sharded res) option \<Rightarrow> ('t sharded \<Rightarrow> 't sharded res) option \<Rightarrow>
   't any_tensor \<Rightarrow> 't any_tensor res" where
  "dispatch1 plain split replicated x =
     (case x of
        Sharded s \<Rightarrow>
          (case (case sh_class s of SplitPrimitiveTensor \<Rightarrow> split | ReplicatedTensor \<Rightarrow> replicated
                 | UnreducedTensor \<Rightarrow> None) of
             None \<Rightarrow> Inl NotImplementedError
           | Some f \<Rightarrow> res_bind (f s) (\<lambda>r. Inr (Sharded r)))
      | _ \<Rightarrow> res_bind (plain x) (\<lambda>t. Inr (Torch t)))"

definition op_expand :: "('t, 'o) torch \<Rightarrow> 't any_tensor \<Rightarrow> int list \<Rightarrow> 't any_tensor res" where
  "op_expand T x shape = dispatch1 (\<lambda>y. expand_default T y shape) (Some (\<lambda>s. expand_split T s shape)) None x"

definition op_flatten :: "('t, 'o) torch \<Rightarrow> 't any_tensor \<Rightarrow> int \<Rightarrow> int \<Rightarrow> 't any_tensor res" where
  "op_flatten T x a b =
     dispatch1 (\<lambda>y. flatten_default T y a b) (Some (\<lambda>s. flatten_split T s a b)) (Some (\<lambda>s. flatten_replicated T s a b)) x"

definition op_permute :: "('t, 'o) torch \<Rightarrow> 't any_tensor \<Rightarrow> int list \<Rightarrow> 't any_tensor res" where
  "op_permute T x dims =
     dispatch1 (\<lambda>y. permute_default T y dims) (Some (\<lambda>s. permute_split T s dims)) (Some (\<lambda>s. permute_replicated T s dims)) x"

definition op_transpose :: "('t, 'o) torch \<Rightarrow> 't any_tensor \<Rightarrow> int \<Rightarrow> int \<Rightarrow> 't any_tensor res" where
  "op_transpose T x a b = dispatch1 (\<lambda>y. transpose_default T y a b) (Some (\<lambda>s. transpose_split T s a b)) None x"

definition op_unflatten :: "('t, 'o) torch \<Rightarrow> 't any_tensor \<Rightarrow> int \<Rightarrow> int list \<Rightarrow> 't any_tensor res" where
  "op_unflatten T x d sizes = dispatch1 (\<lambda>y. unflatten_default T y d sizes) (Some (\<lambda>s. unflatten_split T s d sizes)) None x"

definition op_unsqueeze :: "('t, 'o) torch \<Rightarrow> 't any_tensor \<Rightarrow> int \<Rightarrow> 't any_tensor res" where
  "op_unsqueeze T x d =
     dispatch1 (\<lambda>y. unsqueeze_default T y d) (Some (\<lambda>s. unsqueeze_split T s d)) (Some (\<lambda>s. unsqueeze_replicated T s d)) x"

definition op_view :: "('t, 'o) torch \<Rightarrow> 't any_tensor \<Rightarrow> int list \<Rightarrow> 't any_tensor res" where
  "op_view T x shape = dispatch1 (\<lambda>y. view_default T y shape) (Some (\<lambda>s. view_split T s shape)) None x"

definition op_reshape :: "('t, 'o) torch \<Rightarrow> 't any_tensor \<Rightarrow> int list \<Rightarrow> 't any_tensor res" where
  "op_reshape T x shape = dispatch1 (\<lambda>y. reshape_default T y shape) (Some (\<lambda>s. reshape_split T s shape)) None x"

text \<open>\<open>t.T\<close>: the dimensions reversed, of a tensor of torch by torch, else by \<open>permute\<close> for rank two.\<close>

definition any_T :: "('t, 'o) torch \<Rightarrow> 't any_tensor \<Rightarrow> 't any_tensor res" where
  "any_T T x =
     (let rank = length (any_shape T x); dims = rev (map int [0..<rank]) in
      case x of
        Torch t \<Rightarrow> res_bind (th_permute T t dims) (\<lambda>r. Inr (Torch r))
      | _ \<Rightarrow> guard (rank = 2) AssertionError (op_permute T x dims))"

end
