(* ===== verification/Tn_Sharded_Compute.thy ===== *)
theory Tn_Sharded_Compute
  imports Tn_Sharded_Views
begin

section \<open>Arithmetic on sharded tensors\<close>

text \<open>
  The overrides of \<open>sharktank/ops/sharded_impls.py\<close> for elementwise operators, products, convolutions,
  norms, attention and the operations that treat every shard alike.
\<close>

subsection \<open>Elementwise operators\<close>

text \<open>
  An operator takes the tensors and the numbers after them. The overrides are chosen by the leading
  tensors alone, so the one for a split tensor and a number is never chosen: the unary one is.
\<close>

type_synonym ('t, 'o) operator = "'t list \<Rightarrow> 'o list \<Rightarrow> 't res"

definition split_elementwise_unary ::
  "('t, 'o) torch \<Rightarrow> ('t, 'o) operator \<Rightarrow> 't sharded \<Rightarrow> 'o list \<Rightarrow> 't sharded res" where
  "split_elementwise_unary T operator x args =
     res_bind (map_shards (unbox1 (\<lambda>t. operator [t] args)) x) (\<lambda>partials.
       new_split T (split_dim x) (map RawShard partials) unnamed_tensor_name (Some (sh_shape x)))"

definition replicated_elementwise_unary ::
  "('t, 'o) torch \<Rightarrow> ('t, 'o) operator \<Rightarrow> 't sharded \<Rightarrow> 'o list \<Rightarrow> 't sharded res" where
  "replicated_elementwise_unary T operator x args =
     as_replicated T (map_shards (unbox1 (\<lambda>t. operator [t] args)) x)"

definition replicated_elementwise_binary ::
  "('t, 'o) torch \<Rightarrow> ('t, 'o) operator \<Rightarrow> 't sharded \<Rightarrow> 't sharded \<Rightarrow> 'o list \<Rightarrow> 't sharded res" where
  "replicated_elementwise_binary T operator x y args =
     guard (shard_count x = shard_count y) AssertionError
      (as_replicated T (zip_shards (unbox2 (\<lambda>a b. operator [a, b] args)) x y))"

text \<open>\<open>torch.broadcast_shapes\<close>: sizes from the right, of which one may be 1; else a RuntimeError.\<close>

fun broadcast_sizes :: "int list \<Rightarrow> int list \<Rightarrow> int list res" where
  "broadcast_sizes [] bs = Inr bs"
| "broadcast_sizes as [] = Inr as"
| "broadcast_sizes (a # as) (b # bs) =
     (if a = b \<or> a = 1 \<or> b = 1 then res_bind (broadcast_sizes as bs) (\<lambda>r. Inr ((if a = 1 then b else a) # r))
      else Inl RuntimeError)"

definition broadcast_shapes :: "int list \<Rightarrow> int list \<Rightarrow> int list res" where
  "broadcast_shapes a b = res_bind (broadcast_sizes (rev a) (rev b)) (\<lambda>r. Inr (rev r))"

definition split_elementwise_binary ::
  "('t, 'o) torch \<Rightarrow> ('t, 'o) operator \<Rightarrow> 't sharded \<Rightarrow> 't sharded \<Rightarrow> 'o list \<Rightarrow> 't sharded res" where
  "split_elementwise_binary T operator x y args =
     guard (shard_count x = shard_count y) AssertionError
      (res_bind (broadcast_dims [split_dim x, split_dim y] [sh_shape x, sh_shape y]) (\<lambda>ds.
       guard (ds ! 0 = ds ! 1) AssertionError
        (res_bind (zip_shards (unbox2 (\<lambda>a b. operator [a, b] args)) x y) (\<lambda>partials.
         res_bind (broadcast_shapes (sh_shape x) (sh_shape y)) (\<lambda>shape.
           new_split T (split_dim x) (map RawShard partials) unnamed_tensor_name (Some shape))))))"

definition elementwise_split_replicated ::
  "('t, 'o) torch \<Rightarrow> ('t, 'o) operator \<Rightarrow> 't sharded \<Rightarrow> 't sharded \<Rightarrow> 'o list \<Rightarrow> 't sharded res" where
  "elementwise_split_replicated T operator x y args =
     guard (sh_shape y \<noteq> []) AssertionError
      (guard (shard_count x = shard_count y) ValueError
       (res_bind (broadcast_dim (split_dim x) [sh_shape x, sh_shape y]) (\<lambda>dim_in_res.
        res_bind (unbroadcast_dim dim_in_res [sh_shape y, sh_shape x]) (\<lambda>dim_in_y.
        res_bind (case dim_in_y of None \<Rightarrow> Inr True | Some d \<Rightarrow> res_bind (py_get (sh_shape y) d) (\<lambda>n. Inr (n = 1)))
         (\<lambda>broadcasted_in_y.
          if broadcasted_in_y
          then as_split T dim_in_res (zip_shards (\<lambda>a b. elementwise_default operator [a, b] []) x y)
          else res_bind (reshard_split_replicated T y (split_dim x) (shard_count x))
                 (\<lambda>y_sharded. split_elementwise_binary T operator x y_sharded args))))))"

text \<open>Two tensors of which at least one is sharded.\<close>

definition elementwise_sharded ::
  "('t, 'o) torch \<Rightarrow> ('t, 'o) operator \<Rightarrow> 't any_tensor \<Rightarrow> 't any_tensor \<Rightarrow> 'o list \<Rightarrow> 't sharded res" where
  "elementwise_sharded T operator x0 y0 args =
     (case (x0, y0) of
        (Sharded x, Sharded y) \<Rightarrow>
          (case (sh_class x, sh_class y) of
             (ReplicatedTensor, ReplicatedTensor) \<Rightarrow> replicated_elementwise_binary T operator x y args
           | (SplitPrimitiveTensor, SplitPrimitiveTensor) \<Rightarrow> split_elementwise_binary T operator x y args
           | (ReplicatedTensor, SplitPrimitiveTensor) \<Rightarrow>
               guard (shard_count x = shard_count y) ValueError
                (res_bind (reshard_split_replicated T x (split_dim y) (shard_count y))
                  (\<lambda>x_sharded. split_elementwise_binary T operator x_sharded y args))
           | (SplitPrimitiveTensor, ReplicatedTensor) \<Rightarrow> elementwise_split_replicated T operator x y args
           | (ReplicatedTensor, UnreducedTensor) \<Rightarrow>
               guard (shard_count x = shard_count y) ValueError
                (res_bind (replicate_unreduced T y (shard_count x))
                  (\<lambda>y_replicated. replicated_elementwise_binary T operator x y_replicated args))
           | _ \<Rightarrow> Inl NotImplementedError)
      | (Sharded x, _) \<Rightarrow>
          (case sh_class x of
             SplitPrimitiveTensor \<Rightarrow>
               res_bind (reshard_split_unsharded T y0 (split_dim x) (shard_count x))
                 (\<lambda>y. split_elementwise_binary T operator x y args)
           | ReplicatedTensor \<Rightarrow>
               res_bind (replicate_unsharded T y0 (shard_count x))
                 (\<lambda>y. replicated_elementwise_binary T operator x y args)
           | UnreducedTensor \<Rightarrow> Inl NotImplementedError)
      | (_, Sharded y) \<Rightarrow>
          (if is_replicated y
           then res_bind (replicate_unsharded T x0 (shard_count y))
                  (\<lambda>x. replicated_elementwise_binary T operator x y args)
           else Inl NotImplementedError)
      | _ \<Rightarrow> Inl NotImplementedError)"

text \<open>\<open>xs\<close> are the leading tensors among the arguments.\<close>

definition op_elementwise ::
  "('t, 'o) torch \<Rightarrow> ('t, 'o) operator \<Rightarrow> 't any_tensor list \<Rightarrow> 'o list \<Rightarrow> 't any_tensor res" where
  "op_elementwise T operator xs args =
     (if xs \<noteq> [] \<and> length xs \<le> 3 \<and> list_all is_plain xs
      then res_bind (elementwise_default operator xs args) (\<lambda>t. Inr (Torch t))
      else
       (case xs of
          [x] \<Rightarrow>
            dispatch1 (\<lambda>_. Inl NotImplementedError) (Some (\<lambda>s. split_elementwise_unary T operator s args))
              (Some (\<lambda>s. replicated_elementwise_unary T operator s args)) x
        | [x, y] \<Rightarrow> res_bind (elementwise_sharded T operator x y args) (\<lambda>r. Inr (Sharded r))
        | _ \<Rightarrow> Inl NotImplementedError))"

definition torch_add :: "('t, 'o) torch \<Rightarrow> ('t, 'o) operator" where
  "torch_add T ts args = (case ts of [a, b] \<Rightarrow> th_add T a b | _ \<Rightarrow> Inl TypeError)"

subsection \<open>Products\<close>

definition matmul_split_lhs ::
  "('t, 'o) torch \<Rightarrow> 't sharded \<Rightarrow> 't any_tensor \<Rightarrow> bool \<Rightarrow> 't sharded res" where
  "matmul_split_lhs T lhs rhs transpose_rhs =
     guard (rank_of lhs - 1 \<noteq> split_dim lhs) AssertionError
      (as_split T (split_dim lhs) (map_shards (\<lambda>s. matmul_default T s rhs transpose_rhs) lhs))"

definition matmul_split_rhs ::
  "('t, 'o) torch \<Rightarrow> 't any_tensor \<Rightarrow> 't sharded \<Rightarrow> bool \<Rightarrow> 't sharded res" where
  "matmul_split_rhs T lhs rhs transpose_rhs =
     res_bind (unbox_tensor lhs) (\<lambda>l.
     guard (split_dim rhs = (if transpose_rhs then 0 else 1)) AssertionError
      (as_split T (int (length (th_shape T l)) - 1)
        (map_shards (\<lambda>s. matmul_default T (Torch l) s transpose_rhs) rhs)))"

definition sharded_T :: "('t, 'o) torch \<Rightarrow> 't sharded \<Rightarrow> 't sharded res" where
  "sharded_T T x =
     guard (length (sh_shape x) = 2) AssertionError
      (if is_split x then permute_split T x [1, 0]
       else if is_replicated x then permute_replicated T x [1, 0]
       else Inl NotImplementedError)"

definition matmul_split_lhs_replicated_rhs ::
  "('t, 'o) torch \<Rightarrow> 't sharded \<Rightarrow> 't sharded \<Rightarrow> bool \<Rightarrow> 't sharded res" where
  "matmul_split_lhs_replicated_rhs T lhs rhs transpose_rhs =
     guard (rank_of lhs - 1 \<noteq> split_dim lhs) AssertionError
      (res_bind (if transpose_rhs then sharded_T T rhs else Inr rhs) (\<lambda>rhs1.
       as_split T (split_dim lhs) (zip_shards (\<lambda>l r. matmul_default T l r False) lhs rhs1)))"

text \<open>The part of \<open>matmul_split\<close> after the check of the counts and the transposition.\<close>

definition matmul_split_both :: "('t, 'o) torch \<Rightarrow> 't sharded \<Rightarrow> 't sharded \<Rightarrow> 't sharded res" where
  "matmul_split_both T lhs rhs =
     (let lhs_rank = rank_of lhs; rhs_rank = rank_of rhs;
          lhs_reduction_dim = lhs_rank - 1;
          rhs_reduction_dim = (if rhs_rank > 1 then rhs_rank - 2 else rhs_rank - 1);
          products = zip_shards (\<lambda>l r. matmul_default T l r False) lhs rhs
      in if lhs_reduction_dim = split_dim lhs \<and> rhs_reduction_dim = split_dim rhs
         then res_bind products (\<lambda>ts. new_unreduced T (map RawShard ts) unnamed_tensor_name None)
         else if (lhs_rank > 2 \<or> rhs_rank > 2) \<and> lhs_rank = rhs_rank \<and> split_dim lhs = split_dim rhs
         then as_split T (split_dim lhs) products
         else
          (let lhs_parallel_dim = lhs_rank - 2;
               rhs_parallel_dim = (if rhs_rank > 1 then rhs_rank - 1 else - 1)
           in if split_dim lhs \<le> lhs_parallel_dim \<and> rhs_parallel_dim = split_dim rhs
              then res_bind (replicate_split T rhs (shard_count lhs))
                     (\<lambda>replicated_rhs. matmul_split_lhs_replicated_rhs T lhs replicated_rhs False)
              else Inl AssertionError))"

definition matmul_split :: "('t, 'o) torch \<Rightarrow> 't sharded \<Rightarrow> 't sharded \<Rightarrow> bool \<Rightarrow> 't sharded res" where
  "matmul_split T lhs rhs transpose_rhs =
     guard (shard_count lhs = shard_count rhs) ValueError
      (if transpose_rhs
       then res_bind (sharded_T T rhs) (\<lambda>rhs1.
              guard (shard_count lhs = shard_count rhs1) ValueError (matmul_split_both T lhs rhs1))
       else matmul_split_both T lhs rhs)"

definition matmul_replicated_lhs_split_rhs_plain ::
  "('t, 'o) torch \<Rightarrow> 't sharded \<Rightarrow> 't sharded \<Rightarrow> 't sharded res" where
  "matmul_replicated_lhs_split_rhs_plain T lhs rhs =
     guard (shard_count lhs = shard_count rhs) AssertionError
      (guard (length (sh_shape rhs) = 2) AssertionError
       (if 1 \<noteq> split_dim rhs
        then res_bind (reshard_split_replicated T lhs (rank_of lhs - 1) (shard_count lhs))
               (\<lambda>lhs_split. matmul_split T lhs_split rhs False)
        else as_split T (rank_of lhs - 2 + split_dim rhs)
               (zip_shards (\<lambda>l r. matmul_default T l r False) lhs rhs)))"

definition matmul_replicated_lhs_split_rhs ::
  "('t, 'o) torch \<Rightarrow> 't sharded \<Rightarrow> 't sharded \<Rightarrow> bool \<Rightarrow> 't sharded res" where
  "matmul_replicated_lhs_split_rhs T lhs rhs transpose_rhs =
     guard (shard_count lhs = shard_count rhs) AssertionError
      (guard (length (sh_shape rhs) = 2) AssertionError
       (if transpose_rhs then res_bind (sharded_T T rhs) (matmul_replicated_lhs_split_rhs_plain T lhs)
        else matmul_replicated_lhs_split_rhs_plain T lhs rhs))"

definition op_matmul :: "('t, 'o) torch \<Rightarrow> 't any_tensor \<Rightarrow> 't any_tensor \<Rightarrow> bool \<Rightarrow> 't any_tensor res" where
  "op_matmul T lhs rhs transpose_rhs =
     (let sharded = (\<lambda>r. res_bind r (\<lambda>s. Inr (Sharded s))) in
      case (lhs, rhs) of
        (Sharded l, Sharded r) \<Rightarrow>
          (case (sh_class l, sh_class r) of
             (ReplicatedTensor, SplitPrimitiveTensor) \<Rightarrow> sharded (matmul_replicated_lhs_split_rhs T l r transpose_rhs)
           | (SplitPrimitiveTensor, ReplicatedTensor) \<Rightarrow> sharded (matmul_split_lhs_replicated_rhs T l r transpose_rhs)
           | (SplitPrimitiveTensor, SplitPrimitiveTensor) \<Rightarrow> sharded (matmul_split T l r transpose_rhs)
           | _ \<Rightarrow> Inl NotImplementedError)
      | (Sharded l, _) \<Rightarrow>
          (if is_split l then sharded (matmul_split_lhs T l rhs transpose_rhs) else Inl NotImplementedError)
      | (_, Sharded r) \<Rightarrow>
          (if is_split r then sharded (matmul_split_rhs T lhs r transpose_rhs) else Inl NotImplementedError)
      | _ \<Rightarrow> res_bind (matmul_default T lhs rhs transpose_rhs) (\<lambda>t. Inr (Torch t)))"

text \<open>\<open>linear\<close> with a sharded operand.\<close>

definition linear_sharded ::
  "('t, 'o) torch \<Rightarrow> 't any_tensor \<Rightarrow> 't any_tensor \<Rightarrow> 't any_tensor option \<Rightarrow> 't any_tensor res" where
  "linear_sharded T input weight bias =
     res_bind (any_T T weight) (\<lambda>w.
     res_bind (op_matmul T input w False) (\<lambda>r.
       case bias of None \<Rightarrow> Inr r | Some b \<Rightarrow> op_elementwise T (torch_add T) [r, b] []))"

definition op_linear ::
  "('t, 'o) torch \<Rightarrow> 't any_tensor \<Rightarrow> 't any_tensor \<Rightarrow> 't any_tensor option \<Rightarrow> 't any_tensor res" where
  "op_linear T input weight bias =
     (if list_all is_plain ([input, weight] @ (case bias of None \<Rightarrow> [] | Some b \<Rightarrow> [b]))
      then res_bind (linear_default T input weight bias) (\<lambda>t. Inr (Torch t))
      else linear_sharded T input weight bias)"

end
