(* ===== verification/Tn_Matmul_Facts.thy ===== *)
theory Tn_Matmul_Facts
  imports Tn_Represents Tn_Sharded_Compute
begin

section \<open>Products of sharded tensors\<close>

text \<open>
  The product of a tensor of any rank with a matrix is \<open>mat_mul\<close> of their elements. The lemmas say what
  the products of the shards make up for every way the code shards the operands.
\<close>

subsection \<open>What is relied on of torch\<close>

definition to_ok :: "('t, 'o) torch \<Rightarrow> ('t \<Rightarrow> 'a list) \<Rightarrow> bool" where
  "to_ok T cells \<longleftrightarrow> (\<forall>t u. \<exists>r. th_to T t (th_dtype T u) = Inr r \<and> th_shape T r = th_shape T t \<and> cells r = cells t)"

text \<open>The last dimension stays, the others become one.\<close>

definition flatten_ok :: "('t, 'o) torch \<Rightarrow> ('t \<Rightarrow> 'a list) \<Rightarrow> bool" where
  "flatten_ok T cells \<longleftrightarrow>
     (\<forall>t pre k. th_shape T t = pre @ [k] \<longrightarrow> pre \<noteq> [] \<longrightarrow>
        (\<exists>r. th_flatten T t 0 (- 2) = Inr r \<and> th_shape T r = [int (vol pre), k] \<and> cells r = cells t))"

definition unflatten_ok :: "('t, 'o) torch \<Rightarrow> ('t \<Rightarrow> 'a list) \<Rightarrow> bool" where
  "unflatten_ok T cells \<longleftrightarrow>
     (\<forall>t pre n. th_shape T t = [int (vol pre), n] \<longrightarrow> (\<forall>x \<in> set pre. 0 \<le> x) \<longrightarrow>
        (\<exists>r. th_unflatten T t 0 pre = Inr r \<and> th_shape T r = pre @ [n] \<and> cells r = cells t))"

definition matmul_ok :: "('t, 'o) torch \<Rightarrow> ('t \<Rightarrow> 'a::semiring_0 list) \<Rightarrow> bool" where
  "matmul_ok T cells \<longleftrightarrow>
     (\<forall>l r m k k' n. th_shape T l = [m, k] \<longrightarrow> th_shape T r = [k', n] \<longrightarrow>
        (if k = k'
         then (\<exists>t. th_matmul T l r = Inr t \<and> th_shape T t = [m, n] \<and>
                 cells t = mat_mul (nat m) (nat k) (nat n) (cells l) (cells r))
         else (\<exists>e. th_matmul T l r = Inl e)))"

definition torch_matmul_ok :: "('t, 'o) torch \<Rightarrow> ('t \<Rightarrow> 'a::semiring_0 list) \<Rightarrow> bool" where
  "torch_matmul_ok T cells \<longleftrightarrow>
     content_ok T cells \<and> to_ok T cells \<and> flatten_ok T cells \<and> unflatten_ok T cells \<and> matmul_ok T cells"

subsection \<open>Products of tensors of torch\<close>

definition is_product :: "('t, 'o) torch \<Rightarrow> ('t \<Rightarrow> 'a::semiring_0 list) \<Rightarrow> 't \<Rightarrow> 't \<Rightarrow> 't \<Rightarrow> bool" where
  "is_product T cells l r t \<longleftrightarrow>
     (\<forall>pre k n. th_shape T l = pre @ [k] \<longrightarrow> th_shape T r = [k, n] \<longrightarrow>
        th_shape T t = pre @ [n] \<and> cells t = mat_mul (vol pre) (nat k) (nat n) (cells l) (cells r))"

lemma matmul_default_product:
  assumes ok: "torch_matmul_ok T cells"
    and lr: "unbox_tensor x = Inr l" "unbox_tensor y = Inr r"
    and shapes: "th_shape T l = pre @ [k]" "pre \<noteq> []" "th_shape T r = [k', n]"
  shows "if k = k' then \<exists>t. matmul_default T x y False = Inr t \<and> th_shape T t = pre @ [n] \<and>
           cells t = mat_mul (vol pre) (nat k) (nat n) (cells l) (cells r)
         else \<exists>e. matmul_default T x y False = Inl e"
proof -
  note laws = ok [unfolded torch_matmul_ok_def to_ok_def flatten_ok_def unflatten_ok_def matmul_ok_def]
  from laws obtain r2 where r2: "th_to T r (th_dtype T l) = Inr r2" "th_shape T r2 = [k', n]" "cells r2 = cells r"
    using shapes by metis
  show ?thesis
  proof (cases "length (th_shape T l) > 2")
    case False
    with shapes obtain m where pre: "pre = [m]" by (cases pre) auto
    with shapes have "th_shape T l = [m, k]" by simp
    with laws r2(2) have "if k = k' then \<exists>t. th_matmul T l r2 = Inr t \<and> th_shape T t = [m, n] \<and>
        cells t = mat_mul (nat m) (nat k) (nat n) (cells l) (cells r2) else \<exists>e. th_matmul T l r2 = Inl e" by blast
    with False lr r2 pre show ?thesis by (auto simp: matmul_default_def)
  next
    case True
    from laws shapes obtain l1 where l1: "th_flatten T l 0 (- 2) = Inr l1" "th_shape T l1 = [int (vol pre), k]" "cells l1 = cells l"
      by metis
    with laws r2 have mm: "if k = k' then \<exists>t. th_matmul T l1 r2 = Inr t \<and> th_shape T t = [int (vol pre), n] \<and>
        cells t = mat_mul (vol pre) (nat k) (nat n) (cells l) (cells r) else \<exists>e. th_matmul T l1 r2 = Inl e"
      by (metis nat_int)
    show ?thesis
    proof (cases "k = k'")
      case eq: True
      with mm obtain t where t: "th_matmul T l1 r2 = Inr t" "th_shape T t = [int (vol pre), n]"
        "cells t = mat_mul (vol pre) (nat k) (nat n) (cells l) (cells r)" by auto
      moreover have "\<forall>x \<in> set pre. 0 \<le> x"
        using ok content_nonneg [of T cells _ l] shapes(1) by (auto simp: torch_matmul_ok_def)
      with laws t(2) obtain u where "th_unflatten T t 0 pre = Inr u" "th_shape T u = pre @ [n]" "cells u = cells t"
        by metis
      ultimately show ?thesis using eq True lr r2 l1 shapes by (simp add: matmul_default_def Let_def)
    qed (use mm True lr r2 l1 shapes in \<open>auto simp: matmul_default_def Let_def\<close>)
  qed
qed

lemma matmul_default_Inr:
  assumes "torch_matmul_ok T cells" and "matmul_default T x y False = Inr t"
    and "unbox_tensor x = Inr l" "unbox_tensor y = Inr r"
    and "th_shape T l = pre @ [k]" "pre \<noteq> []" "th_shape T r = [k', n]"
  shows "k = k' \<and> th_shape T t = pre @ [n] \<and> cells t = mat_mul (vol pre) (nat k) (nat n) (cells l) (cells r)"
  using matmul_default_product [OF assms(1,3-7)] assms(2) by (auto split: if_splits)

subsection \<open>Rows in shards\<close>

lemma nat_sum_list: "(\<And>x. x \<in> set xs \<Longrightarrow> 0 \<le> f x) \<Longrightarrow> nat (sum_list (map f xs)) = sum_list (map (\<lambda>x. nat (f x)) xs)"
proof (induction xs)
  case (Cons x xs)
  then have "0 \<le> sum_list (map f xs)" by (intro sum_list_nonneg) auto
  with Cons show ?case by (simp add: nat_add_distrib)
qed simp

lemma along_size:
  assumes "content_ok T cells" and "along T d s ts"
  shows "nat (s ! d) = sum_list (map (\<lambda>t. nat (th_shape T t ! d)) ts)"
proof -
  have "0 \<le> th_shape T t ! d" if "t \<in> set ts" for t
    using assms that off_dim_length [of d s "th_shape T t"] by (intro content_nth) (auto simp: along_def)
  then show ?thesis using assms by (simp add: along_def nat_sum_list)
qed

lemma along_vol:
  assumes "content_ok T cells" and "along T d s ts"
  shows "vol s = vol (take d s) * sum_list (map (\<lambda>t. nat (th_shape T t ! d) * vol (drop (Suc d) s)) ts)"
  using along_size [OF assms] assms(2) by (simp add: along_def vol_split [of d s] sum_list_mult_const)

text \<open>The rows of the left operand are distributed over the shards: the products are those of its product.\<close>

lemma batch_products:
  fixes cells :: "'t \<Rightarrow> 'a::semiring_0 list"
  assumes ok: "content_ok T cells" and ls: "along T d (pre @ [k]) ls" and d: "d < length pre"
    and B: "length B = nat k * nat n" and len: "length ps = length ls"
    and products: "\<And>i. i < length ls \<Longrightarrow> th_shape T (ps ! i) = butlast (th_shape T (ls ! i)) @ [n] \<and>
          cells (ps ! i) = mat_mul (vol (butlast (th_shape T (ls ! i)))) (nat k) (nat n) (cells (ls ! i)) B"
  shows "along T d (pre @ [n]) ps \<and>
    joined T cells d (pre @ [n]) ps = mat_mul (vol pre) (nat k) (nat n) (joined T cells d (pre @ [k]) ls) B"
proof -
  have shape: "th_shape T l = pre[d := th_shape T l ! d] @ [k]" if "l \<in> set ls" for l
    using ls d that by (auto simp: along_def off_dim_def list_update_append)
  have bl: "butlast (th_shape T l) = pre[d := th_shape T l ! d]" if "l \<in> set ls" for l
    using shape [OF that] by (metis butlast_snoc)
  have ps: "th_shape T (ps ! i) = pre[d := th_shape T (ls ! i) ! d] @ [n]"
      "th_shape T (ps ! i) ! d = th_shape T (ls ! i) ! d" if "i < length ls" for i
    using products [OF that] bl [of "ls ! i"] d that by (simp_all add: nth_append)
  have off: "off_dim d (pre @ [n]) (th_shape T p)" if "p \<in> set ps" for p
    using that len ps d by (auto simp: in_set_conv_nth off_dim_def list_update_append nth_append)
  have sizes: "map (\<lambda>p. th_shape T p ! d) ps = map (\<lambda>l. th_shape T l ! d) ls"
    using len ps by (intro nth_equalityI) auto
  have "along T d (pre @ [n]) ps"
    using ls off len d by (auto simp: along_def sizes nth_append)
  moreover
  let ?m = "\<lambda>l. nat (th_shape T l ! d) * vol (drop (Suc d) pre)" let ?P = "vol (take d pre)"
  let ?parts = "map (\<lambda>l. (?m l, cells l)) ls" let ?f = "\<lambda>r. vec_mat (nat n) r B"
  have left: "parts_along T cells d (pre @ [k]) ls = map (\<lambda>(m, xs). (m * nat k, xs)) ?parts"
    using d by (simp add: parts_along_def mult.assoc)
  have fits: "fits ?P (map (\<lambda>(m, xs). (m * nat k, xs)) ?parts)"
    using fits_parts_along [OF ok ls] d by (simp add: left)
  have volume: "vol (butlast (th_shape T l)) = ?P * ?m l" if "l \<in> set ls" for l
    using bl [OF that] d vol_split [of d "pre[d := th_shape T l ! d]"] by simp
  have right: "parts_along T cells d (pre @ [n]) ps = map (\<lambda>(m, xs). (m * nat n, map_rows (?P * m) (nat k) ?f xs)) ?parts"
    using d len products ps volume
    by (intro nth_equalityI) (simp_all add: parts_along_def mat_mul_def mult.assoc)
  have "vol pre = ?P * sum_list (map fst ?parts)"
    using along_size [OF ok ls] vol_split [of d pre] d by (simp add: o_def sum_list_mult_const nth_append)
  then have "joined T cells d (pre @ [n]) ps = mat_mul (vol pre) (nat k) (nat n) (joined T cells d (pre @ [k]) ls) B"
    using map_rows_interleave [where k = "nat k" and f = ?f and n = "nat n", OF _ fits] B d
    by (simp add: joined_def left right mat_mul_def length_vec_mat)
  ultimately show ?thesis by blast
qed

subsection \<open>Columns in shards\<close>

lemma column_products:
  fixes cells :: "'t \<Rightarrow> 'a::semiring_0 list"
  assumes ok: "content_ok T cells" and rs: "along T 1 [k, n] rs" and A: "length A = vol pre * nat k"
    and len: "length ps = length rs"
    and products: "\<And>i. i < length rs \<Longrightarrow> th_shape T (ps ! i) = pre @ [th_shape T (rs ! i) ! 1] \<and>
          cells (ps ! i) = mat_mul (vol pre) (nat k) (nat (th_shape T (rs ! i) ! 1)) A (cells (rs ! i))"
  shows "along T (length pre) (pre @ [n]) ps \<and>
    joined T cells (length pre) (pre @ [n]) ps = mat_mul (vol pre) (nat k) (nat n) A (joined T cells 1 [k, n] rs)"
proof -
  let ?n = "\<lambda>r. nat (th_shape T r ! 1)" let ?parts = "map (\<lambda>r. (?n r, cells r)) rs"
  have sizes: "map (\<lambda>p. th_shape T p ! length pre) ps = map (\<lambda>r. th_shape T r ! 1) rs"
    using len products by (intro nth_equalityI) auto
  have off: "off_dim (length pre) (pre @ [n]) (th_shape T p)" if "p \<in> set ps" for p
    using that len products by (auto simp: in_set_conv_nth off_dim_def)
  have "along T (length pre) (pre @ [n]) ps"
    using rs off len by (auto simp: along_def sizes)
  moreover have left: "parts_along T cells 1 [k, n] rs = ?parts" by (simp add: parts_along_def)
  have fits: "fits (nat k) ?parts" using fits_parts_along [OF ok rs] unfolding left by simp
  have right: "parts_along T cells (length pre) (pre @ [n]) ps = map (\<lambda>(n, B). (n, mat_mul (vol pre) (nat k) n A B)) ?parts"
    using len products by (intro nth_equalityI) (simp_all add: parts_along_def)
  have "sum_list (map fst ?parts) = nat n" using along_size [OF ok rs] by (simp add: o_def)
  with mat_mul_columns [OF A fits] have
    "joined T cells (length pre) (pre @ [n]) ps = mat_mul (vol pre) (nat k) (nat n) A (joined T cells 1 [k, n] rs)"
    unfolding joined_def left right by simp
  ultimately show ?thesis by blast
qed

subsection \<open>The summed dimension in shards\<close>

lemma summed_products:
  fixes cells :: "'t \<Rightarrow> 'a::semiring_0 list"
  assumes ok: "content_ok T cells" and ls: "along T (length pre) (pre @ [k]) ls" and rs: "along T 0 [k, n] rs"
    and len: "length ps = length rs" "length ls = length rs"
    and products: "\<And>i. i < length rs \<Longrightarrow> th_shape T (rs ! i) ! 0 = th_shape T (ls ! i) ! length pre \<and>
          cells (ps ! i) = mat_mul (vol pre) (nat (th_shape T (rs ! i) ! 0)) (nat n) (cells (ls ! i)) (cells (rs ! i))"
  shows "sum_cells (map cells ps) =
    mat_mul (vol pre) (nat k) (nat n) (joined T cells (length pre) (pre @ [k]) ls) (joined T cells 0 [k, n] rs)"
proof -
  let ?k = "\<lambda>r. nat (th_shape T r ! 0)"
  let ?parts = "map2 (\<lambda>l r. (?k r, cells l, cells r)) ls rs"
  have left: "parts_along T cells (length pre) (pre @ [k]) ls = map (\<lambda>(k, A, B). (k, A)) ?parts"
    using len products by (intro nth_equalityI) (simp_all add: parts_along_def)
  have fits: "fits (vol pre) (map (\<lambda>(k, A, B). (k, A)) ?parts)"
    using fits_parts_along [OF ok ls] by (simp add: left)
  have right: "parts_along T cells 0 [k, n] rs = map (\<lambda>(k, A, B). (k * nat n, B)) ?parts"
    using len by (intro nth_equalityI) (simp_all add: parts_along_def)
  have fits0: "fits 1 (map (\<lambda>(k, A, B). (k * nat n, B)) ?parts)"
    using fits_parts_along [OF ok rs] by (simp add: right)
  have lengths: "\<forall>(k, A, B) \<in> set ?parts. length A = vol pre * k \<and> length B = k * nat n"
    using fits fits0 unfolding fits_def by fastforce
  have "sum_list (map fst ?parts) = nat k"
  proof -
    have "map fst ?parts = map ?k rs" using len by (intro nth_equalityI) simp_all
    then show ?thesis using along_size [OF ok rs] by simp
  qed
  moreover have "?parts \<noteq> []" using rs len by (auto simp: along_def)
  moreover have "map cells ps = map (\<lambda>(k, A, B). mat_mul (vol pre) k (nat n) A B) ?parts"
    using len products by (intro nth_equalityI) simp_all
  moreover have "joined T cells 0 [k, n] rs = concat (map (\<lambda>(k, A, B). B) ?parts)"
    using interleave_rows [OF fits0] by (simp add: joined_def right o_def split_def)
  ultimately show ?thesis
    using mat_mul_sum [OF _ lengths] by (simp add: joined_def left)
qed

end
