(* ===== verification/Tn_Reshard_Facts.thy ===== *)
theory Tn_Reshard_Facts
  imports Tn_Represents
begin

section \<open>Splitting, gathering and replicating\<close>

text \<open>
  Changing how a tensor is sharded keeps the tensor it stands for. The exception is the splitting of a
  replicated tensor whose size the number of shards does not divide.
\<close>

subsection \<open>Replicated tensors\<close>

lemma new_replicated_same:
  assumes "ts \<noteq> []" and "\<forall>t \<in> set ts. th_shape T t = s \<and> cells t = xs"
  shows "\<exists>y. new_replicated T (map RawShard ts) name = Inr y \<and> represents_sharded T cells y s xs \<and>
    sh_class y = ReplicatedTensor \<and> shard_data y = ts \<and> sh_name y = name"
proof -
  obtain t0 ts' where ts: "ts = t0 # ts'" using assms(1) by (cases ts) auto
  then have t0: "th_shape T t0 = s" using assms(2) by simp
  have "new_replicated T (map RawShard ts) name =
      Inr \<lparr>sh_class = ReplicatedTensor, sh_name = name, sh_shape = s, sh_dim = None,
           sh_shards = box_shards T name (map RawShard ts)\<rparr>"
    using assms(2) t0 by (simp add: new_replicated_def ts list_all_iff)
  moreover have "box_shards T name (map RawShard ts) \<noteq> []"
    using assms(1) by (metis box_shards_raw(1) list.map_disc_iff)
  ultimately show ?thesis
    using assms(2) box_shards_raw(1,2) [of T name ts] by (auto simp: represents_sharded_def shard_data_def)
qed

lemma moved_shards_unbox:
  "res_map unbox_tensor (moved_shards T i x) =
   Inr (map (\<lambda>(j, p). if i = j then pt_data p else th_transfer T (int i) (pt_data p)) (enumerate 0 (sh_shards x)))"
  unfolding moved_shards_def by (rule unbox_moved [where P = "\<lambda>j. i = j"])

lemma all_gather_represents:
  assumes "transfer_ok T cells" and "cat_ok T cells"
    and "represents_sharded T cells x s xs" and "is_split x"
  shows "\<exists>y. all_gather_split T x None = Inr y \<and> represents_sharded T cells y s xs \<and>
    sh_class y = ReplicatedTensor \<and> shard_count y = shard_count x"
proof -
  from assms(3,4) obtain d where d: "sh_dim x = Some (int d)" "along T d s (shard_data x)"
      "xs = joined T cells d s (shard_data x)" and ne: "sh_shards x \<noteq> []"
    by (auto simp: represents_sharded_def is_split_def)
  have one: "\<exists>t. cat_default T (moved_shards T i x) (int d) = Inr t \<and> th_shape T t = s \<and> cells t = xs" for i
    using cat_moved [OF assms(1,2), of d s "sh_shards x" "\<lambda>j. i = j" "int i"] d
    by (simp add: cat_default_def moved_shards_unbox shard_data_def)
  then obtain f where f: "\<And>i. cat_default T (moved_shards T i x) (int d) = Inr (f i) \<and> th_shape T (f i) = s \<and> cells (f i) = xs"
    by metis
  let ?ts = "map f [0..<length (sh_shards x)]"
  have "res_map (\<lambda>i. cat_default T (moved_shards T i x) (int d)) [0..<length (sh_shards x)] = Inr ?ts"
    using f by (intro res_map_total) simp
  moreover obtain y where "new_replicated T (map RawShard ?ts) unnamed_tensor_name = Inr y"
    "represents_sharded T cells y s xs" "sh_class y = ReplicatedTensor" "shard_data y = ?ts"
    using new_replicated_same [of ?ts T s cells xs unnamed_tensor_name] f ne by auto
  ultimately show ?thesis
    using d by (auto simp: all_gather_split_def split_dim_def as_replicated_def new_replicated_result_def
        shard_count_def shard_data_def dest: arg_cong [where f = length])
qed

lemma all_reduce_represents:
  fixes cells :: "'t \<Rightarrow> 'a::semiring_0 list"
  assumes "transfer_ok T cells" and "add_ok T cells"
    and "represents_sharded T cells x s xs" and "is_unreduced x"
  shows "\<exists>y. all_reduce_split_or_unreduced T x = Inr y \<and> represents_sharded T cells y s xs \<and>
    sh_class y = ReplicatedTensor \<and> shard_count y = shard_count x"
proof -
  from assms(3,4) obtain p ps where ps: "sh_shards x = p # ps"
    by (cases "sh_shards x") (auto simp: represents_sharded_def)
  let ?f = "\<lambda>i (j :: nat, p :: 't prim_tensor). if i = j then Prim p else Torch (th_transfer T (int i) (pt_data p))"
  have shapes: "\<forall>q \<in> set (sh_shards x). th_shape T (pt_data q) = s \<and> valid_shard T q"
    using assms(3,4) by (auto simp: represents_sharded_def shard_data_def is_unreduced_def)
  have moved: "(\<forall>x \<in> set (map (?f i) (enumerate k qs)). plain_shape T x s) \<and>
      map (plain_cells cells) (map (?f i) (enumerate k qs)) = map cells (map pt_data qs)"
    if "\<forall>q \<in> set qs. th_shape T (pt_data q) = s \<and> valid_shard T q" for i k qs
    using that assms(1)
    by (induction qs arbitrary: k) (auto simp: plain_shape_def plain_cells_def transfer_ok_def valid_shard_def)
  have "\<exists>y. functools_reduce_add T (moved_shards T i x) = Inr y \<and> plain_shape T y s \<and> plain_cells cells y = xs" for i
  proof -
    have "moved_shards T i x = ?f i (0, p) # map (?f i) (enumerate 1 ps)" by (simp add: moved_shards_def ps)
    moreover have "xs = sum_cells (map cells (map pt_data (sh_shards x)))"
      using assms(3,4) by (simp add: represents_sharded_def is_unreduced_def shard_data_def)
    ultimately show ?thesis
      using reduce_moved [OF assms(2), of "?f i (0, p)" "map (?f i) (enumerate 1 ps)" s] moved [OF shapes, of i 0]
      by (simp add: ps)
  qed
  then obtain g where g: "\<And>i. functools_reduce_add T (moved_shards T i x) = Inr (g i) \<and> plain_shape T (g i) s \<and>
      plain_cells cells (g i) = xs" by metis
  let ?ss = "map (to_shard \<circ> g) [0..<length (sh_shards x)]"
  have shard: "shard_shape T (to_shard (g i)) = s" for i
    using g [of i] by (cases "g i") (auto simp: to_shard_def shard_shape_def plain_shape_def)
  have "new_replicated T ?ss unnamed_tensor_name =
      Inr \<lparr>sh_class = ReplicatedTensor, sh_name = unnamed_tensor_name, sh_shape = s, sh_dim = None,
           sh_shards = box_shards T unnamed_tensor_name ?ss\<rparr>"
    by (simp add: new_replicated_def ps shard list_all_iff upt_conv_Cons del: upt_Suc)
  moreover have "\<forall>q \<in> set (box_shards T unnamed_tensor_name ?ss). valid_shard T q \<and> th_shape T (pt_data q) = s \<and> cells (pt_data q) = xs"
  proof
    fix q assume "q \<in> set (box_shards T unnamed_tensor_name ?ss)"
    then obtain i j where "q = (case to_shard (g i) of RawShard d \<Rightarrow> new_prim T d (shard_name unnamed_tensor_name j) | PrimShard p \<Rightarrow> p)"
      by (auto simp: box_shards_def in_set_enumerate_eq simp del: upt_Suc)
    with g [of i] show "valid_shard T q \<and> th_shape T (pt_data q) = s \<and> cells (pt_data q) = xs"
      by (cases "g i") (auto simp: to_shard_def plain_shape_def plain_cells_def valid_shard_def new_prim_def)
  qed
  moreover have "res_map (\<lambda>i. functools_reduce_add T (moved_shards T i x)) [0..<length (sh_shards x)] =
      Inr (map g [0..<length (sh_shards x)])"
    using g by (intro res_map_total) simp
  moreover have "box_shards T unnamed_tensor_name ?ss \<noteq> []"
    by (metis box_shards_raw(3) length_0_conv length_map length_upt ps diff_zero list.distinct(1))
  ultimately show ?thesis
    by (auto simp: all_reduce_split_or_unreduced_def represents_sharded_def shard_data_def shard_count_def box_shards_raw(3))
qed

lemma replicate_unsharded_same:
  assumes "unbox_tensor x = Inr t" and "0 < n"
    and "\<forall>u \<in> set (map (\<lambda>i. th_transfer T (int i) t) [0..<nat n]). th_shape T u = s \<and> cells u = xs"
  shows "\<exists>y. replicate_unsharded T x n = Inr y \<and> represents_sharded T cells y s xs \<and>
    sh_class y = ReplicatedTensor \<and> shard_count y = n"
proof -
  let ?ts = "map (\<lambda>i. th_transfer T (int i) t) [0..<nat n]"
  have "?ts \<noteq> []" using assms(2) by simp
  from new_replicated_same [OF this assms(3)] obtain y where
    y: "new_replicated T (map RawShard ?ts) unnamed_tensor_name = Inr y" "represents_sharded T cells y s xs"
      "sh_class y = ReplicatedTensor" "shard_data y = ?ts" by blast
  from y(4) have "length (shard_data y) = nat n" by (simp only: length_map length_upt)
  with assms(2) have "shard_count y = n" by (simp add: shard_count_def shard_data_def)
  with y assms(1) show ?thesis
    unfolding replicate_unsharded_def new_replicated_result_def by (simp only: res_bind_simps) blast
qed

text \<open>\<open>replicate\<close> of any tensor.\<close>

lemma replicate_represents:
  fixes cells :: "'t \<Rightarrow> 'a::semiring_0 list"
  assumes "transfer_ok T cells" and "cat_ok T cells" and "add_ok T cells" and "represents T cells x s xs"
    and "0 < n" and "\<And>z. x = Sharded z \<Longrightarrow> shard_count z = n"
  shows "\<exists>y. op_replicate T x n = Inr y \<and> represents_sharded T cells y s xs \<and>
    sh_class y = ReplicatedTensor \<and> shard_count y = n"
proof (cases x)
  case (Sharded z)
  then show ?thesis
    using assms all_gather_represents [OF assms(1,2), of z s xs] all_reduce_represents [OF assms(1,3), of z s xs]
    by (cases "sh_class z") (auto simp: op_replicate_def replicate_replicated_def replicate_split_def
        replicate_unreduced_def guard_def is_split_def is_unreduced_def)
next
  case plain: (Torch t)
  have "\<forall>u \<in> set (map (\<lambda>i. th_transfer T (int i) t) [0..<nat n]). th_shape T u = s \<and> cells u = xs"
    using plain assms(1,4) by (simp add: transfer_ok_def)
  with plain assms(5) replicate_unsharded_same [of x t n T s cells xs] show ?thesis
    by (simp add: op_replicate_def unbox_tensor_def)
next
  case plain: (Prim p)
  have "\<forall>u \<in> set (map (\<lambda>i. th_transfer T (int i) (pt_data p)) [0..<nat n]). th_shape T u = s \<and> cells u = xs"
    using plain assms(1,4) by (auto simp: transfer_ok_def valid_shard_def)
  with plain assms(5) replicate_unsharded_same [of x "pt_data p" n T s cells xs] show ?thesis
    by (simp add: op_replicate_def unbox_tensor_def)
qed

subsection \<open>Splitting a plain tensor\<close>

lemma length_piece_sizes:
  assumes "0 < w"
  shows "int (length (piece_sizes w m)) = (if m = 0 then 1 else ceil_div (int m) (int w))"
proof -
  have "ceil_div (int m) (int w) = int m div int w + (if int m mod int w = 0 then 0 else 1)"
    using assms zdiv_zminus1_eq_if [of "int w" "int m"] by (simp add: ceil_div_def)
  then show ?thesis using assms by (auto simp: piece_sizes_def zdiv_int zmod_int)
qed

lemma piece_sizes_nonempty: "m = 0 \<or> 0 < w \<Longrightarrow> piece_sizes w m \<noteq> []"
  by (auto simp: piece_sizes_def div_eq_0_iff)

lemma sum_piece_sizes: "sum_list (piece_sizes w m) = m"
  using div_mult_mod_eq [of m w] by (auto simp: piece_sizes_def sum_list_replicate)

lemma moved_pieces: "map f (map (\<lambda>(i, p). th_transfer T (int i) p) (enumerate k ts)) = map f ts"
  if "\<And>i t. f (th_transfer T i t) = f t"
  using that by (induction ts arbitrary: k) auto

text \<open>The pieces of a tensor are tensors that make it up, as far as they reach.\<close>

lemma pieces_along:
  assumes d: "d < length s" and xs: "length xs = vol s" and K: "K = vol (drop (Suc d) s)"
    and ks: "sum_list ks \<le> nat (s ! d)" "ks \<noteq> []"
    and shapes: "map (th_shape T) ts = map (\<lambda>k. s[d := int k]) ks"
    and pieces: "map cells ts =
        map2 (\<lambda>a k. cut (vol (take d s)) (nat (s ! d) * K) (a * K) (k * K) xs) (offsets 0 ks) ks"
  shows "along T d (s[d := int (sum_list ks)]) ts"
    and "joined T cells d (s[d := int (sum_list ks)]) ts =
      cut (vol (take d s)) (nat (s ! d) * K) 0 (sum_list ks * K) xs"
proof -
  have "map (\<lambda>t. th_shape T t ! d) ts = map (\<lambda>s. s ! d) (map (th_shape T) ts)" by simp
  also have "\<dots> = map int ks" unfolding shapes using d by simp
  finally have sizes: "map (\<lambda>t. th_shape T t ! d) ts = map int ks" .
  have off: "off_dim d (s[d := n]) (th_shape T u)" if "u \<in> set ts" for u n
  proof -
    have "th_shape T u \<in> (\<lambda>k. s[d := int k]) ` set ks"
      using arg_cong [OF shapes, of set] that by (metis imageI image_set)
    then show ?thesis using d by (auto simp: off_dim_def)
  qed
  have "ts \<noteq> []" using ks(2) shapes by auto
  moreover have "sum_list (map int ks) = int (sum_list ks)" by (induction ks) auto
  ultimately show "along T d (s[d := int (sum_list ks)]) ts"
    using off d by (simp add: along_def sizes)
  have parts: "parts_along T cells d (s[d := n]) ts = zip (map (\<lambda>n. nat n * K) (map (\<lambda>t. th_shape T t ! d) ts)) (map cells ts)" for n
    by (simp add: parts_along_def K zip_map_map zip_same_conv_map o_def)
  have scale: "offsets (a * K) (map (\<lambda>k. k * K) ks) = map (\<lambda>a. a * K) (offsets a ks)" for a
    by (induction ks arbitrary: a) (simp_all flip: add_mult_distrib)
  let ?js = "map (\<lambda>k. k * K) ks"
  have sum: "sum_list ?js = sum_list ks * K" by (simp add: sum_list_mult_const)
  have cuts: "parts_along T cells d (s[d := n]) ts =
      map2 (\<lambda>a k. (k, cut (vol (take d s)) (nat (s ! d) * K) a k xs)) (offsets 0 ?js) ?js" for n
    unfolding parts sizes pieces
    using scale [of 0] by (simp add: zip_map_map o_def split_def zip_map1 zip_map2)
      (rule nth_equalityI, simp_all)
  have "length xs = vol (take d s) * (nat (s ! d) * K)"
    using xs d K vol_split [of d s] by simp
  from interleave_cut_prefix [OF this, of ?js] show
    "joined T cells d (s[d := int (sum_list ks)]) ts = cut (vol (take d s)) (nat (s ! d) * K) 0 (sum_list ks * K) xs"
    unfolding joined_def cuts sum using ks(1) by simp
qed

lemma new_split_result_along:
  assumes "along T d s us"
  shows "\<exists>y. new_split_result T (int d) us = Inr y \<and> represents_sharded T cells y s (joined T cells d s us) \<and>
    sh_class y = SplitPrimitiveTensor \<and> sh_dim y = Some (int d) \<and> shard_count y = int (length us) \<and> shard_data y = us"
proof -
  from new_split_along [OF assms, of None unnamed_tensor_name] obtain y where
    y: "new_split_result T (int d) us = Inr y" by (auto simp: new_split_result_def)
  from new_split_Inr [OF y [unfolded new_split_result_def]] new_split_along [OF assms, of None unnamed_tensor_name]
    y [unfolded new_split_result_def] assms
  show ?thesis
    using y by (auto simp: represents_sharded_def shard_count_def box_shards_raw(3) along_def shard_data_def)
qed

text \<open>Splitting a plain tensor.\<close>

lemma split_represents:
  assumes ok: "content_ok T cells" "transfer_ok T cells" "split_ok T cells"
    and x: "unbox_tensor x = Inr t" "th_shape T t = s" "cells t = xs" and d: "d < length s" and n: "0 < n"
  shows "if (if s ! d = 0 then n = 1 else ceil_div (s ! d) (ceil_div (s ! d) n) = n)
    then \<exists>y. op_reshard_split T x (int d) n = Inr y \<and> represents_sharded T cells y s xs \<and>
           sh_class y = SplitPrimitiveTensor \<and> sh_dim y = Some (int d) \<and> shard_count y = n \<and>
           map (th_shape T) (shard_data y) = map (\<lambda>k. s[d := int k]) (piece_sizes (nat (ceil_div (s ! d) n)) (nat (s ! d)))
    else op_reshard_split T x (int d) n = Inl AssertionError"
proof -
  let ?m = "s ! d" let ?w = "ceil_div ?m n" let ?ks = "piece_sizes (nat ?w) (nat ?m)" let ?K = "vol (drop (Suc d) s)"
  have m: "0 \<le> ?m" using content_nonneg [OF ok(1), of ?m t] x(2) d by simp
  have w: "0 \<le> ?w" "?m \<noteq> 0 \<longrightarrow> 0 < ?w"
    using m n ceil_div_nonneg [of n ?m] ceil_div_upper [of n ?m] by (auto simp: less_le)
  from ok(3) x(2) d w obtain ts where ts: "th_split T t ?w (int d) = Inr ts"
      "map (th_shape T) ts = map (\<lambda>k. s[d := int k]) ?ks"
      "map cells ts = map2 (\<lambda>a k. cut (vol (take d s)) (nat ?m * ?K) (a * ?K) (k * ?K) (cells t)) (offsets 0 ?ks) ?ks"
    unfolding split_ok_def Let_def by blast
  let ?us = "map (\<lambda>(i, p). th_transfer T (int i) p) (enumerate 0 ts)"
  have shapes: "map (th_shape T) ?us = map (\<lambda>k. s[d := int k]) ?ks"
    using moved_pieces [of "th_shape T" T 0 ts] ok(2) ts(2) by (simp add: transfer_ok_def)
  have pieces: "map cells ?us = map2 (\<lambda>a k. cut (vol (take d s)) (nat ?m * ?K) (a * ?K) (k * ?K) xs) (offsets 0 ?ks) ?ks"
    using moved_pieces [of cells T 0 ts] ok(2) ts(3) x(3) by (simp add: transfer_ok_def)
  have len: "int (length ?us) = (if ?m = 0 then 1 else ceil_div ?m ?w)"
  proof -
    have "length ?us = length ?ks" using arg_cong [OF shapes, of length] by simp
    with length_piece_sizes [of "nat ?w" "nat ?m"] m w show ?thesis by (cases "?m = 0") (auto simp: piece_sizes_def)
  qed
  have xs: "length xs = vol s" using content_length [OF ok(1), of t] x by simp
  have ne: "?ks \<noteq> []" using m w by (intro piece_sizes_nonempty) auto
  have sum: "sum_list ?ks = nat ?m" by (rule sum_piece_sizes)
  note whole = pieces_along [OF d xs refl _ ne shapes pieces, unfolded sum]
  from whole m have al: "along T d s ?us" and joined: "joined T cells d s ?us = xs"
    using cut_all [of xs "vol (take d s)" "nat ?m * ?K"] xs d vol_split [of d s] by simp_all
  have get: "py_get (th_shape T t) (int d) = Inr ?m" using d x(2) by simp
  have unsharded: "op_reshard_split T x (int d) n = reshard_split_unsharded T x (int d) n"
    using x(1) by (cases x) (simp_all add: op_reshard_split_def unbox_tensor_def)
  have raw: "map (\<lambda>(i, p). RawShard (th_transfer T (int i) p)) (enumerate 0 ts) = map RawShard ?us"
    by auto
  have step: "op_reshard_split T x (int d) n =
      (if int (length ?us) \<noteq> n then Inl AssertionError
       else new_split T (int d) (map RawShard ?us) unnamed_tensor_name None)"
    unfolding unsharded reshard_split_unsharded_def new_split_of_tensor_def x(1) res_bind_simps option.case get
      py_ceildiv_def Let_def raw
    using n ts(1) by (simp add: ceil_div_neg_floor raw del: map_map)
  show ?thesis
  proof (cases "int (length ?us) = n")
    case True
    from new_split_result_along [OF al, where cells = cells] obtain y where
      y: "new_split_result T (int d) ?us = Inr y" "represents_sharded T cells y s xs"
        "sh_class y = SplitPrimitiveTensor" "sh_dim y = Some (int d)" "shard_count y = int (length ?us)" "shard_data y = ?us"
      unfolding joined by blast
    have "map (th_shape T) (shard_data y) = map (\<lambda>k. s[d := int k]) ?ks" unfolding y(6) by (rule shapes)
    with y(1-5) True len step show ?thesis by (auto simp: new_split_result_def)
  qed (use len step in auto)
qed

subsection \<open>Splitting a replicated tensor\<close>

text \<open>The elements of a tensor that a slice of one dimension selects.\<close>

definition narrow_ok :: "('t, 'o) torch \<Rightarrow> ('t \<Rightarrow> 'a list) \<Rightarrow> bool" where
  "narrow_ok T cells \<longleftrightarrow>
     (\<forall>t d a b. d < length (th_shape T t) \<longrightarrow> a \<le> b \<longrightarrow> int b \<le> th_shape T t ! d \<longrightarrow>
        (let s = th_shape T t; K = vol (drop (Suc d) s) in
         \<exists>r. th_getitem T t ((List.replicate (length s) (SliceKey None None None))
                  [d := SliceKey (Some (int a)) (Some (int b)) None]) = Inr r \<and>
           th_shape T r = s[d := int (b - a)] \<and>
           cells r = cut (vol (take d s)) (nat (s ! d) * K) (a * K) ((b - a) * K) (cells t)))"

lemma offsets_replicate: "offsets a (List.replicate n w) = map (\<lambda>i. a + i * w) [0..<n]"
proof (induction n arbitrary: a)
  case (Suc n)
  show ?case by (simp add: Suc map_upt_Suc del: upt_Suc)
qed simp

text \<open>Every device keeps \<open>m div n\<close> rows, so the last \<open>m mod n\<close> are lost.\<close>

lemma split_replicated_represents:
  fixes cells :: "'t \<Rightarrow> 'a::semiring_0 list"
  assumes ok: "content_ok T cells" "narrow_ok T cells"
    and x: "represents_sharded T cells x s xs" "sh_class x = ReplicatedTensor" and d: "d < length s"
    and n: "shard_count x = int n"
  shows "\<exists>y. reshard_split_replicated T x (int d) (int n) = Inr y \<and>
    represents_sharded T cells y (s[d := s ! d div int n * int n])
      (cut (vol (take d s)) (nat (s ! d) * vol (drop (Suc d) s)) 0 (nat (s ! d) div n * n * vol (drop (Suc d) s)) xs) \<and>
    sh_class y = SplitPrimitiveTensor \<and> sh_dim y = Some (int d) \<and> shard_count y = int n \<and>
    (\<forall>t \<in> set (shard_data y). th_shape T t = s[d := s ! d div int n])"
proof -
  let ?w = "nat (s ! d) div n" let ?K = "vol (drop (Suc d) s)" let ?ks = "List.replicate n ?w"
  from x have shapes: "sh_shape x = s" "\<forall>t \<in> set (shard_data x). th_shape T t = s \<and> cells t = xs"
    and ne: "shard_data x \<noteq> []" by (auto simp: represents_sharded_def shard_data_def)
  have len: "length (sh_shards x) = n" using n by (simp add: shard_count_def)
  then have "0 < n" using ne by (auto simp: shard_data_def)
  from ne shapes obtain t0 where t0: "th_shape T t0 = s" "cells t0 = xs" by (metis list.set_sel(1))
  have m: "0 \<le> s ! d" and xs: "length xs = vol s"
    using content_nth [OF ok(1), of d t0] content_length [OF ok(1), of t0] t0 d by auto
  have size: "s ! d div int n = int ?w" using m by (simp add: zdiv_int)
  let ?key = "\<lambda>i. (List.replicate (length s) (SliceKey None None None :: 't key))
      [d := SliceKey (Some (int (i * ?w))) (Some (int (Suc i * ?w))) None]"
  let ?P = "\<lambda>i r. th_getitem T (pt_data (sh_shards x ! i)) (?key i) = Inr r \<and> th_shape T r = s[d := int ?w] \<and>
      cells r = cut (vol (take d s)) (nat (s ! d) * ?K) (i * ?w * ?K) (?w * ?K) xs"
  have piece: "\<exists>r. ?P i r" if i: "i < n" for i
  proof -
    have t: "th_shape T (pt_data (sh_shards x ! i)) = s" "cells (pt_data (sh_shards x ! i)) = xs"
      using shapes len i by (auto simp: shard_data_def)
    have "Suc i * ?w \<le> n * ?w" using i by (intro mult_le_mono1) simp
    also have "n * ?w \<le> nat (s ! d)" by simp
    finally have "int (Suc i * ?w) \<le> s ! d" using m by linarith
    moreover have "Suc i * ?w - i * ?w = ?w" by simp
    ultimately show ?thesis
      using ok(2) [unfolded narrow_ok_def Let_def, rule_format, of d "pt_data (sh_shards x ! i)" "i * ?w" "Suc i * ?w"] t d
      by simp
  qed
  then obtain r where r: "\<And>i. i < n \<Longrightarrow> ?P i (r i)" by metis
  let ?us = "map r [0..<n]"
  have shapes_us: "map (th_shape T) ?us = map (\<lambda>k. s[d := int k]) ?ks"
    using r by (intro nth_equalityI) simp_all
  have pieces: "map cells ?us = map2 (\<lambda>a k. cut (vol (take d s)) (nat (s ! d) * ?K) (a * ?K) (k * ?K) xs) (offsets 0 ?ks) ?ks"
    using r by (intro nth_equalityI) (simp_all add: offsets_replicate)
  have sum: "sum_list ?ks = ?w * n" by (simp add: sum_list_replicate mult.commute)
  have le: "sum_list ?ks \<le> nat (s ! d)" unfolding sum by simp
  have ks: "?ks \<noteq> []" using \<open>0 < n\<close> by simp
  note whole = pieces_along [OF d xs refl le ks shapes_us pieces, unfolded sum]
  have "s[d := int (?w * n)] = s[d := s ! d div int n * int n]" by (simp add: size)
  note whole = whole [unfolded this]
  let ?get = "\<lambda>(i, t). res_bind (slice_range_along_dim (length s) (int d) (int i * (s ! d div int n))
      ((int i + 1) * (s ! d div int n))) (th_getitem T (pt_data t))"
  have "res_map ?get (enumerate 0 (sh_shards x)) = Inr (map (\<lambda>(i, t). r i) (enumerate 0 (sh_shards x)))"
  proof (rule res_map_total)
    fix z assume "z \<in> set (enumerate 0 (sh_shards x))"
    then obtain i where i: "z = (i, sh_shards x ! i)" "i < n"
      using len by (auto simp: in_set_conv_nth nth_enumerate_eq)
    then show "?get z = Inr ((\<lambda>(i, t). r i) z)"
      using r [of i] d by (simp add: slice_range_along_dim_def size) (simp add: algebra_simps)
  qed
  moreover have "map (\<lambda>(i, t). r i) (enumerate 0 (sh_shards x)) = ?us"
    using len by (intro nth_equalityI) (simp_all add: nth_enumerate_eq)
  ultimately have step: "reshard_split_replicated T x (int d) (int n) = new_split_result T (int d) ?us"
    using n d shapes(1) by (simp add: reshard_split_replicated_def guard_def as_split_def Let_def del: map_map)
  moreover have "\<forall>t \<in> set ?us. th_shape T t = s[d := s ! d div int n]" using r by (auto simp: size)
  ultimately show ?thesis
    using new_split_result_along [OF whole(1), where cells = cells] whole(2) by auto
qed

end
