(* ===== verification/Tn_Product_Facts.thy ===== *)
theory Tn_Product_Facts
  imports Tn_Matmul_Facts Tn_Reshard_Facts
begin

section \<open>The product of sharded operands is the sharded product\<close>

text \<open>
  Whatever override of \<open>matmul\<close> the classes of the operands choose, what it returns represents the product
  of the tensors the operands represent.
\<close>

subsection \<open>Shards\<close>

definition torch_shard_ok :: "('t, 'o) torch \<Rightarrow> ('t \<Rightarrow> 'a::semiring_0 list) \<Rightarrow> bool" where
  "torch_shard_ok T cells \<longleftrightarrow>
     transfer_ok T cells \<and> cat_ok T cells \<and> add_ok T cells \<and> split_ok T cells \<and> narrow_ok T cells"

lemma zip_shards_Inr:
  "zip_shards f x y = Inr ts \<Longrightarrow> shard_count x = shard_count y \<Longrightarrow>
   length ts = length (sh_shards x) \<and> (\<forall>i < length (sh_shards x). f (Prim (sh_shards x ! i)) (Prim (sh_shards y ! i)) = Inr (ts ! i))"
  by (auto simp: zip_shards_def res_map_Inr list_all2_conv_all_nth shard_count_def)

lemma map_shards_Inr:
  "map_shards f x = Inr ts \<Longrightarrow>
   length ts = length (sh_shards x) \<and> (\<forall>i < length (sh_shards x). f (Prim (sh_shards x ! i)) = Inr (ts ! i))"
  by (auto simp: map_shards_def res_map_Inr list_all2_conv_all_nth)

lemma unbox_shard: "i < length (sh_shards x) \<Longrightarrow> unbox_tensor (Prim (sh_shards x ! i)) = Inr (shard_data x ! i)"
  by (simp add: unbox_tensor_def shard_data_def)

lemma as_split_Inr: "as_split T d r = Inr y \<longleftrightarrow> (\<exists>ts. r = Inr ts \<and> new_split_result T d ts = Inr y)"
  by (simp add: as_split_def res_bind_Inr)

lemma guard_Inr: "guard P e r = Inr y \<longleftrightarrow> P \<and> r = Inr y"
  by (simp add: guard_def)

lemma split_shape:
  assumes "along T d (pre @ [k]) ls" and "d < length pre" and "l \<in> set ls"
  shows "th_shape T l = pre[d := th_shape T l ! d] @ [k]"
  using assms by (auto simp: along_def off_dim_def list_update_append)

subsection \<open>A split left operand\<close>

lemma split_lhs_products:
  fixes cells :: "'t \<Rightarrow> 'a::semiring_0 list"
  assumes ok: "torch_matmul_ok T cells"
    and x: "represents_sharded T cells x (pre @ [k]) A" "sh_class x = SplitPrimitiveTensor" "sh_dim x = Some (int d)"
    and d: "d < length pre" and len: "length ts = length (sh_shards x)"
    and ys: "\<And>i. i < length ts \<Longrightarrow> \<exists>r. unbox_tensor (ys i) = Inr r \<and> th_shape T r = [k', n] \<and> cells r = B"
    and prods: "\<And>i. i < length ts \<Longrightarrow> matmul_default T (Prim (sh_shards x ! i)) (ys i) False = Inr (ts ! i)"
  shows "k = k' \<and> (\<exists>z. new_split_result T (int d) ts = Inr z \<and>
    represents_sharded T cells z (pre @ [n]) (mat_mul (vol pre) (nat k) (nat n) A B) \<and>
    sh_class z = SplitPrimitiveTensor \<and> sh_dim z = Some (int d) \<and> shard_count z = shard_count x)"
proof -
  let ?ls = "shard_data x"
  from x have ls: "along T d (pre @ [k]) ?ls" and A: "A = joined T cells d (pre @ [k]) ?ls"
    by (auto simp: represents_sharded_def)
  have lens: "length ts = length ?ls" using len by (simp add: shard_data_def)
  have each: "k = k' \<and> th_shape T (ts ! i) = butlast (th_shape T (?ls ! i)) @ [n] \<and>
      cells (ts ! i) = mat_mul (vol (butlast (th_shape T (?ls ! i)))) (nat k) (nat n) (cells (?ls ! i)) B"
    if i: "i < length ts" for i
  proof -
    obtain r where r: "unbox_tensor (ys i) = Inr r" "th_shape T r = [k', n]" "cells r = B" using ys [OF i] by blast
    have shape: "th_shape T (?ls ! i) = pre[d := th_shape T (?ls ! i) ! d] @ [k]"
      using split_shape [OF ls d] i lens by simp
    have "pre[d := th_shape T (?ls ! i) ! d] \<noteq> []" using d by auto
    from matmul_default_Inr [OF ok prods [OF i] unbox_shard r(1) shape this r(2)] i len r(3)
    show ?thesis by (subst (1 2) shape) simp
  qed
  have "0 < length ts" using lens ls by (auto simp: along_def)
  with ys [of 0] each [of 0] obtain r where "k = k'" "th_shape T r = [k, n]" "cells r = B" by auto
  then have "length B = nat k * nat n"
    using ok content_length [of T cells r] by (simp add: torch_matmul_ok_def)
  with batch_products [OF _ ls d _ lens, of cells B n] each ok lens
  have "along T d (pre @ [n]) ts" "joined T cells d (pre @ [n]) ts = mat_mul (vol pre) (nat k) (nat n) A B"
    by (simp_all add: torch_matmul_ok_def A)
  with new_split_result_along [of T d "pre @ [n]" ts cells] \<open>k = k'\<close> len show ?thesis
    by (auto simp: shard_count_def)
qed

subsection \<open>A right operand split by columns\<close>

lemma split_rhs_products:
  fixes cells :: "'t \<Rightarrow> 'a::semiring_0 list"
  assumes ok: "torch_matmul_ok T cells"
    and y: "represents_sharded T cells y [k', n] B" "sh_class y = SplitPrimitiveTensor" "sh_dim y = Some 1"
    and pre: "pre \<noteq> []" and len: "length ts = length (sh_shards y)"
    and xs: "\<And>i. i < length ts \<Longrightarrow> \<exists>l. unbox_tensor (xs i) = Inr l \<and> th_shape T l = pre @ [k] \<and> cells l = A"
    and prods: "\<And>i. i < length ts \<Longrightarrow> matmul_default T (xs i) (Prim (sh_shards y ! i)) False = Inr (ts ! i)"
  shows "k = k' \<and> (\<exists>z. new_split_result T (int (length pre)) ts = Inr z \<and>
    represents_sharded T cells z (pre @ [n]) (mat_mul (vol pre) (nat k) (nat n) A B) \<and>
    sh_class z = SplitPrimitiveTensor \<and> sh_dim z = Some (int (length pre)) \<and> shard_count z = shard_count y)"
proof -
  let ?rs = "shard_data y"
  from y have rs: "along T 1 [k', n] ?rs" and B: "B = joined T cells 1 [k', n] ?rs"
    by (auto simp: represents_sharded_def)
  have lens: "length ts = length ?rs" using len by (simp add: shard_data_def)
  have each: "k = k' \<and> th_shape T (ts ! i) = pre @ [th_shape T (?rs ! i) ! 1] \<and>
      cells (ts ! i) = mat_mul (vol pre) (nat k) (nat (th_shape T (?rs ! i) ! 1)) A (cells (?rs ! i))"
    if i: "i < length ts" for i
  proof -
    obtain l where l: "unbox_tensor (xs i) = Inr l" "th_shape T l = pre @ [k]" "cells l = A" using xs [OF i] by blast
    have "off_dim 1 [k', n] (th_shape T (?rs ! i))" using rs i lens by (auto simp: along_def)
    then have shape: "th_shape T (?rs ! i) = [k', th_shape T (?rs ! i) ! 1]" by (simp add: off_dim_def)
    from matmul_default_Inr [OF ok prods [OF i] l(1) unbox_shard l(2) pre shape] i len l(3)
    show ?thesis by simp
  qed
  have "0 < length ts" using lens rs by (auto simp: along_def)
  with xs [of 0] each [of 0] obtain l where "k = k'" "th_shape T l = pre @ [k]" "cells l = A" by auto
  then have "length A = vol pre * nat k"
    using ok content_length [of T cells l] by (simp add: torch_matmul_ok_def)
  with column_products [where T = T and cells = cells and k = k and n = n and A = A and pre = pre, OF _ _ _ lens] rs each ok lens \<open>k = k'\<close>
  have "along T (length pre) (pre @ [n]) ts"
      "joined T cells (length pre) (pre @ [n]) ts = mat_mul (vol pre) (nat k) (nat n) A B"
    by (simp_all add: torch_matmul_ok_def B)
  with new_split_result_along [of T "length pre" "pre @ [n]" ts cells] \<open>k = k'\<close> len show ?thesis
    by (auto simp: shard_count_def)
qed

subsection \<open>Both operands split along the summed dimension\<close>

lemma new_unreduced_same:
  fixes cells :: "'t \<Rightarrow> 'a::semiring_0 list"
  assumes "ts \<noteq> []" and "\<forall>t \<in> set ts. th_shape T t = s"
  shows "\<exists>y. new_unreduced T (map RawShard ts) name None = Inr y \<and>
    represents_sharded T cells y s (sum_cells (map cells ts)) \<and> sh_class y = UnreducedTensor \<and> shard_count y = int (length ts)"
proof -
  obtain t0 ts' where ts: "ts = t0 # ts'" using assms(1) by (cases ts) auto
  have "new_unreduced T (map RawShard ts) name None =
      Inr \<lparr>sh_class = UnreducedTensor, sh_name = name, sh_shape = s, sh_dim = None,
           sh_shards = box_shards T name (map RawShard ts)\<rparr>"
    using assms(2) by (simp add: new_unreduced_def new_sharded_base_def ts list_all_iff)
  moreover have "box_shards T name (map RawShard ts) \<noteq> []"
    using assms(1) by (metis box_shards_raw(1) list.map_disc_iff)
  ultimately show ?thesis
    using assms(2) box_shards_raw(1,2) [of T name ts]
    by (auto simp: represents_sharded_def shard_data_def shard_count_def box_shards_raw(3))
qed

lemma summed_split_products:
  fixes cells :: "'t \<Rightarrow> 'a::semiring_0 list"
  assumes ok: "torch_matmul_ok T cells" and pre: "pre \<noteq> []"
    and x: "represents_sharded T cells x (pre @ [k]) A" "sh_class x = SplitPrimitiveTensor" "sh_dim x = Some (int (length pre))"
    and y: "represents_sharded T cells y [k', n] B" "sh_class y = SplitPrimitiveTensor" "sh_dim y = Some 0"
    and counts: "shard_count x = shard_count y"
    and prods: "zip_shards (\<lambda>l r. matmul_default T l r False) x y = Inr ts"
  shows "k = k' \<and> (\<exists>z. new_unreduced T (map RawShard ts) unnamed_tensor_name None = Inr z \<and>
    represents_sharded T cells z (pre @ [n]) (mat_mul (vol pre) (nat k) (nat n) A B) \<and>
    sh_class z = UnreducedTensor \<and> shard_count z = shard_count x)"
proof -
  let ?ls = "shard_data x" let ?rs = "shard_data y"
  from x have ls: "along T (length pre) (pre @ [k]) ?ls" and A: "A = joined T cells (length pre) (pre @ [k]) ?ls"
    by (auto simp: represents_sharded_def)
  from y have rs: "along T 0 [k', n] ?rs" and B: "B = joined T cells 0 [k', n] ?rs"
    by (auto simp: represents_sharded_def)
  note ts = zip_shards_Inr [OF prods counts]
  have lens: "length ts = length ?rs" "length ?ls = length ?rs"
    using ts counts by (simp_all add: shard_data_def shard_count_def)
  have each: "th_shape T (?rs ! i) ! 0 = th_shape T (?ls ! i) ! length pre \<and> th_shape T (ts ! i) = pre @ [n] \<and>
      cells (ts ! i) = mat_mul (vol pre) (nat (th_shape T (?rs ! i) ! 0)) (nat n) (cells (?ls ! i)) (cells (?rs ! i))"
    if i: "i < length ?rs" for i
  proof -
    have "off_dim (length pre) (pre @ [k]) (th_shape T (?ls ! i))" "off_dim 0 [k', n] (th_shape T (?rs ! i))"
      using ls rs i lens by (auto simp: along_def)
    then have shapes: "th_shape T (?ls ! i) = pre @ [th_shape T (?ls ! i) ! length pre]"
        "th_shape T (?rs ! i) = [th_shape T (?rs ! i) ! 0, n]" by (simp_all add: off_dim_def)
    have "i < length (sh_shards x)" "i < length (sh_shards y)" using i lens ts by (simp_all add: shard_data_def)
    with matmul_default_Inr [OF ok _ unbox_shard unbox_shard shapes(1) pre shapes(2)] ts show ?thesis by auto
  qed
  have "map (\<lambda>r. th_shape T r ! 0) ?rs = map (\<lambda>l. th_shape T l ! length pre) ?ls"
    using each lens by (intro nth_equalityI) auto
  with ls rs have "k = k'" by (simp add: along_def)
  have "sum_cells (map cells ts) = mat_mul (vol pre) (nat k) (nat n) A B"
    using summed_products [OF _ ls, of cells n ?rs ts] rs lens each ok \<open>k = k'\<close> by (simp add: torch_matmul_ok_def A B)
  moreover have "ts \<noteq> []" using rs lens by (auto simp: along_def)
  moreover have "\<forall>t \<in> set ts. th_shape T t = pre @ [n]" using each lens by (auto simp: in_set_conv_nth)
  ultimately show ?thesis
    using new_unreduced_same [where ts = ts and T = T and s = "pre @ [n]" and cells = cells and name = unnamed_tensor_name] \<open>k = k'\<close> ts by (auto simp: shard_count_def)
qed

subsection \<open>The overrides\<close>

lemma matmul_split_lhs_represents:
  fixes cells :: "'t \<Rightarrow> 'a::semiring_0 list"
  assumes ok: "torch_matmul_ok T cells"
    and x: "represents_sharded T cells x (pre @ [k]) A" "is_split x"
    and y: "represents T cells y [k', n] B" "is_plain y"
    and r: "matmul_split_lhs T x y False = Inr z"
  shows "k = k' \<and> represents_sharded T cells z (pre @ [n]) (mat_mul (vol pre) (nat k) (nat n) A B) \<and>
    sh_class z = SplitPrimitiveTensor \<and> sh_dim z = sh_dim x"
proof -
  from x obtain d where d: "sh_dim x = Some (int d)" "d < length (pre @ [k])" "sh_shape x = pre @ [k]"
    by (auto simp: represents_sharded_def is_split_def along_def)
  from r d obtain ts where ts: "map_shards (\<lambda>s. matmul_default T s y False) x = Inr ts"
      "new_split_result T (int d) ts = Inr z" "d < length pre"
    by (auto simp: matmul_split_lhs_def guard_Inr as_split_Inr split_dim_def rank_of_def)
  with split_lhs_products [OF ok x(1) _ d(1), of ts "\<lambda>_. y" k' n B] map_shards_Inr [OF ts(1)] x(2)
    unbox_represents [OF y] d(1)
  show ?thesis by (auto simp: is_split_def)
qed

lemma matmul_split_replicated_represents:
  fixes cells :: "'t \<Rightarrow> 'a::semiring_0 list"
  assumes ok: "torch_matmul_ok T cells"
    and x: "represents_sharded T cells x (pre @ [k]) A" "is_split x"
    and y: "represents_sharded T cells y [k', n] B" "is_replicated y"
    and counts: "shard_count x = shard_count y"
    and r: "matmul_split_lhs_replicated_rhs T x y False = Inr z"
  shows "k = k' \<and> represents_sharded T cells z (pre @ [n]) (mat_mul (vol pre) (nat k) (nat n) A B) \<and>
    sh_class z = SplitPrimitiveTensor \<and> sh_dim z = sh_dim x \<and> shard_count z = shard_count x"
proof -
  from x obtain d where d: "sh_dim x = Some (int d)" "d < length (pre @ [k])" "sh_shape x = pre @ [k]"
    by (auto simp: represents_sharded_def is_split_def along_def)
  from r d obtain ts where ts: "zip_shards (\<lambda>l r. matmul_default T l r False) x y = Inr ts"
      "new_split_result T (int d) ts = Inr z" "d < length pre"
    by (auto simp: matmul_split_lhs_replicated_rhs_def guard_Inr as_split_Inr split_dim_def rank_of_def)
  note each = zip_shards_Inr [OF ts(1) counts]
  have "\<exists>r. unbox_tensor (Prim (sh_shards y ! i)) = Inr r \<and> th_shape T r = [k', n] \<and> cells r = B" if "i < length ts" for i
    using y that each counts unbox_shard [of i y]
    by (auto simp: represents_sharded_def is_replicated_def shard_data_def shard_count_def)
  with split_lhs_products [OF ok x(1) _ d(1), of ts "\<lambda>i. Prim (sh_shards y ! i)" k' n B] each x(2) ts d(1)
  show ?thesis by (auto simp: is_split_def)
qed

lemma matmul_split_rhs_represents:
  fixes cells :: "'t \<Rightarrow> 'a::semiring_0 list"
  assumes ok: "torch_matmul_ok T cells" and pre: "pre \<noteq> []"
    and x: "represents T cells x (pre @ [k]) A" "is_plain x"
    and y: "represents_sharded T cells y [k', n] B" "is_split y"
    and r: "matmul_split_rhs T x y False = Inr z"
  shows "k = k' \<and> represents_sharded T cells z (pre @ [n]) (mat_mul (vol pre) (nat k) (nat n) A B) \<and>
    sh_class z = SplitPrimitiveTensor \<and> sh_dim z = Some (int (length pre))"
proof -
  from y obtain d where d: "sh_dim y = Some (int d)" by (auto simp: represents_sharded_def is_split_def)
  obtain l where l: "unbox_tensor x = Inr l" "th_shape T l = pre @ [k]" "cells l = A" using unbox_represents [OF x] by blast
  from r d l obtain ts where ts: "map_shards (\<lambda>s. matmul_default T (Torch l) s False) y = Inr ts"
      "new_split_result T (int (length pre)) ts = Inr z" "sh_dim y = Some 1"
    by (auto simp: matmul_split_rhs_def guard_Inr as_split_Inr split_dim_def)
  with split_rhs_products [OF ok y(1) _ _ pre, of ts "\<lambda>_. Torch l" k A] map_shards_Inr [OF ts(1)] y(2) l
  show ?thesis by (auto simp: is_split_def unbox_tensor_def)
qed

lemma matmul_split_both_represents:
  fixes cells :: "'t \<Rightarrow> 'a::semiring_0 list"
  assumes ok: "torch_matmul_ok T cells" "torch_shard_ok T cells" and pre: "pre \<noteq> []"
    and x: "represents_sharded T cells x (pre @ [k]) A" "is_split x"
    and y: "represents_sharded T cells y [k', n] B" "is_split y"
    and r: "matmul_split T x y False = Inr z"
  shows "k = k' \<and> represents_sharded T cells z (pre @ [n]) (mat_mul (vol pre) (nat k) (nat n) A B) \<and>
    shard_count z = shard_count x \<and>
    (if sh_dim x = Some (int (length pre)) then sh_class z = UnreducedTensor
     else sh_class z = SplitPrimitiveTensor \<and> sh_dim z = sh_dim x)"
proof -
  from x y obtain d e where d: "sh_dim x = Some (int d)" "d < length (pre @ [k])" "sh_shape x = pre @ [k]"
      and e: "sh_dim y = Some (int e)" "e < 2" "sh_shape y = [k', n]"
    by (auto simp: represents_sharded_def is_split_def along_def)
  from r have counts: "shard_count x = shard_count y" and both: "matmul_split_both T x y = Inr z"
    by (auto simp: matmul_split_def guard_Inr)
  show ?thesis
  proof (cases "d = length pre \<and> e = 0")
    case True
    with both d e obtain ts where ts: "zip_shards (\<lambda>l r. matmul_default T l r False) x y = Inr ts"
        "new_unreduced T (map RawShard ts) unnamed_tensor_name None = Inr z"
      by (auto simp: matmul_split_both_def Let_def rank_of_def split_dim_def res_bind_Inr)
    with summed_split_products [OF ok(1) pre x(1) _ _ y(1) _ _ counts ts(1)] x(2) y(2) d(1) e(1) True
    show ?thesis by (auto simp: is_split_def)
  next
    case False
    with both d e pre obtain w where w: "replicate_split T y (shard_count x) = Inr w"
        "matmul_split_lhs_replicated_rhs T x w False = Inr z" "d \<noteq> length pre"
      by (auto simp: matmul_split_both_def Let_def rank_of_def split_dim_def res_bind_Inr split: if_splits)
    obtain w' where w': "all_gather_split T y None = Inr w'" "represents_sharded T cells w' [k', n] B"
        "sh_class w' = ReplicatedTensor" "shard_count w' = shard_count y"
      using all_gather_represents [OF _ _ y] ok(2) by (auto simp: torch_shard_ok_def)
    with w counts have same: "w' = w" by (simp add: replicate_split_def guard_Inr)
    with matmul_split_replicated_represents [OF ok(1) x w'(2) [unfolded same] _ _ w(2)] w'(3,4) counts d(1) w(3)
    show ?thesis by (auto simp: is_replicated_def)
  qed
qed

text \<open>
  The replicated operand is cut into equal shares of its columns, so columns that are left over are not
  noticed; the operands fit here.
\<close>

lemma matmul_replicated_split_represents:
  fixes cells :: "'t \<Rightarrow> 'a::semiring_0 list"
  assumes ok: "torch_matmul_ok T cells" "torch_shard_ok T cells" and pre: "pre \<noteq> []"
    and x: "represents_sharded T cells x (pre @ [k]) A" "is_replicated x"
    and y: "represents_sharded T cells y [k, n] B" "is_split y"
    and r: "matmul_replicated_lhs_split_rhs T x y False = Inr z"
  shows "represents_sharded T cells z (pre @ [n]) (mat_mul (vol pre) (nat k) (nat n) A B) \<and>
    shard_count z = shard_count x \<and>
    (if sh_dim y = Some 1 then sh_class z = SplitPrimitiveTensor \<and> sh_dim z = Some (int (length pre))
     else sh_class z = UnreducedTensor)"
proof -
  from y obtain e where e: "sh_dim y = Some (int e)" "e < 2" "sh_shape y = [k, n]"
    by (auto simp: represents_sharded_def is_split_def along_def)
  have xs: "sh_shape x = pre @ [k]" using x by (simp add: represents_sharded_def)
  from r have counts: "shard_count x = shard_count y" and plain: "matmul_replicated_lhs_split_rhs_plain T x y = Inr z"
    by (auto simp: matmul_replicated_lhs_split_rhs_def guard_Inr)
  have each: "\<exists>l. unbox_tensor (Prim (sh_shards x ! i)) = Inr l \<and> th_shape T l = pre @ [k] \<and> cells l = A"
    if "i < length (sh_shards x)" for i
    using x that unbox_shard [of i x] by (auto simp: represents_sharded_def is_replicated_def shard_data_def)
  show ?thesis
  proof (cases "e = 1")
    case True
    with plain e xs obtain ts where ts: "zip_shards (\<lambda>l r. matmul_default T l r False) x y = Inr ts"
        "new_split_result T (int (length pre)) ts = Inr z"
      by (auto simp: matmul_replicated_lhs_split_rhs_plain_def guard_Inr as_split_Inr split_dim_def rank_of_def)
    with split_rhs_products [OF ok(1) y(1) _ _ pre, of ts "\<lambda>i. Prim (sh_shards x ! i)" k A]
      zip_shards_Inr [OF ts(1) counts] y(2) each e(1) True counts
    show ?thesis by (auto simp: is_split_def shard_count_def)
  next
    case False
    with plain e xs obtain w where w: "reshard_split_replicated T x (int (length pre)) (shard_count x) = Inr w"
        "matmul_split T w y False = Inr z"
      by (auto simp: matmul_replicated_lhs_split_rhs_plain_def guard_Inr split_dim_def rank_of_def res_bind_Inr)
    obtain m where m: "shard_count x = int m" by (simp add: shard_count_def)
    let ?k = "k div int m * int m"
    let ?A = "cut (vol pre) (nat k) 0 (nat k div m * m) A"
    have "represents_sharded T cells w (pre @ [?k]) ?A" "is_split w" "shard_count w = shard_count x"
        "sh_dim w = Some (int (length pre))"
      using split_replicated_represents [OF _ _ x(1) _ _ m, of "length pre"] w(1) m x(2) ok
      by (auto simp: torch_matmul_ok_def torch_shard_ok_def is_replicated_def is_split_def)
    from matmul_split_both_represents [OF ok pre this(1,2) y w(2)] this(3,4)
    have z: "?k = k" "represents_sharded T cells z (pre @ [n]) (mat_mul (vol pre) (nat ?k) (nat n) ?A B)"
        "shard_count z = shard_count x" "sh_class z = UnreducedTensor" by auto
    from x have "shard_data x \<noteq> []" "\<forall>t \<in> set (shard_data x). th_shape T t = pre @ [k] \<and> cells t = A"
      by (auto simp: represents_sharded_def is_replicated_def shard_data_def)
    then obtain t where t: "th_shape T t = pre @ [k]" "cells t = A" by (metis list.set_sel(1))
    then have k: "0 \<le> k" "length A = vol pre * nat k"
      using ok(1) content_nonneg [of T cells k t] content_length [of T cells t] by (auto simp: torch_matmul_ok_def)
    obtain j where "k = int j" using k(1) nonneg_int_cases by blast
    then have "nat ?k = nat k div m * m" by (simp flip: zdiv_int of_nat_mult)
    with z(1) have "?A = A" using cut_all [OF k(2)] by simp
    with z e(1) False show ?thesis by simp
  qed
qed

text \<open>All of them.\<close>

text \<open>
  \<open>matmul_split_lhs_replicated_rhs\<close> is the one override that does not compare the numbers of shards.
\<close>

definition replicas_match :: "'t any_tensor \<Rightarrow> 't any_tensor \<Rightarrow> bool" where
  "replicas_match x y \<longleftrightarrow>
     (case (x, y) of
        (Sharded a, Sharded b) \<Rightarrow> is_split a \<longrightarrow> is_replicated b \<longrightarrow> shard_count a = shard_count b
      | _ \<Rightarrow> True)"

theorem op_matmul_represents:
  fixes cells :: "'t \<Rightarrow> 'a::semiring_0 list"
  assumes ok: "torch_matmul_ok T cells" "torch_shard_ok T cells" and pre: "pre \<noteq> []"
    and x: "represents T cells x (pre @ [k]) A" and y: "represents T cells y [k, n] B" and counts: "replicas_match x y"
    and r: "op_matmul T x y False = Inr z"
  shows "represents T cells z (pre @ [n]) (mat_mul (vol pre) (nat k) (nat n) A B)"
proof (cases "is_plain x")
  case px: True
  show ?thesis
  proof (cases "is_plain y")
    case True
    obtain l r' where lr: "unbox_tensor x = Inr l" "th_shape T l = pre @ [k]" "cells l = A"
        "unbox_tensor y = Inr r'" "th_shape T r' = [k, n]" "cells r' = B"
      using unbox_represents [OF x px] unbox_represents [OF y True] by blast
    from r px True obtain t where t: "matmul_default T x y False = Inr t" "z = Torch t"
      by (cases x; cases y) (auto simp: op_matmul_def is_plain_def res_bind_Inr)
    from matmul_default_Inr [OF ok(1) t(1) lr(1,4,2) pre lr(5)] lr t(2) show ?thesis by simp
  next
    case False
    then obtain w where w: "y = Sharded w" by (cases y) (auto simp: is_plain_def)
    with r px obtain v where v: "is_split w" "matmul_split_rhs T x w False = Inr v" "z = Sharded v"
      by (cases x) (auto simp: op_matmul_def is_plain_def res_bind_Inr split: if_splits)
    from y w have "represents_sharded T cells w [k, n] B" by simp
    from matmul_split_rhs_represents [OF ok(1) pre x px this v(1,2)] v(3) show ?thesis by simp
  qed
next
  case False
  then obtain v where v: "x = Sharded v" by (cases x) (auto simp: is_plain_def)
  show ?thesis
  proof (cases "is_plain y")
    case True
    with r v obtain u where u: "is_split v" "matmul_split_lhs T v y False = Inr u" "z = Sharded u"
      by (cases y) (auto simp: op_matmul_def is_plain_def res_bind_Inr split: if_splits)
    from x v have "represents_sharded T cells v (pre @ [k]) A" by simp
    from matmul_split_lhs_represents [OF ok(1) this u(1) y True u(2)] u(3) show ?thesis by simp
  next
    case False
    then obtain w where w: "y = Sharded w" by (cases y) (auto simp: is_plain_def)
    have xv: "represents_sharded T cells v (pre @ [k]) A" and yw: "represents_sharded T cells w [k, n] B"
      and counts: "is_split v \<Longrightarrow> is_replicated w \<Longrightarrow> shard_count v = shard_count w"
      using x y v w counts by (simp_all add: replicas_match_def)
    from r v w obtain u where u: "z = Sharded u" and
      "is_replicated v \<and> is_split w \<and> matmul_replicated_lhs_split_rhs T v w False = Inr u \<or>
       is_split v \<and> is_replicated w \<and> matmul_split_lhs_replicated_rhs T v w False = Inr u \<or>
       is_split v \<and> is_split w \<and> matmul_split T v w False = Inr u"
      by (cases "sh_class v"; cases "sh_class w")
        (auto simp: op_matmul_def res_bind_Inr is_split_def is_replicated_def)
    then have "represents_sharded T cells u (pre @ [n]) (mat_mul (vol pre) (nat k) (nat n) A B)"
      using matmul_replicated_split_represents [OF ok pre xv _ yw, of u] matmul_split_both_represents [OF ok pre xv _ yw, of u]
        matmul_split_replicated_represents [OF ok(1) xv _ yw _ counts, of u] by blast
    with u show ?thesis by simp
  qed
qed

end
