(* ===== verification/Tn_Elementwise_Facts.thy ===== *)
theory Tn_Elementwise_Facts
  imports Tn_Product_Facts
begin

section \<open>Elementwise operators on sharded tensors\<close>

text \<open>
  An operator of torch acts on the elements of tensors of one shape; broadcasting is not described. Applied
  to the shards it gives the shards of its result, as long as the shards of the operands match.
\<close>

definition unary_ok :: "('t \<Rightarrow> 'a list) \<Rightarrow> ('t, 'o) torch \<Rightarrow> ('t, 'o) operator \<Rightarrow> ('a \<Rightarrow> 'a) \<Rightarrow> bool" where
  "unary_ok cells T operator f \<longleftrightarrow>
     (\<forall>t. \<exists>r. operator [t] [] = Inr r \<and> th_shape T r = th_shape T t \<and> cells r = map f (cells t))"

definition binary_ok :: "('t \<Rightarrow> 'a list) \<Rightarrow> ('t, 'o) torch \<Rightarrow> ('t, 'o) operator \<Rightarrow> ('a \<Rightarrow> 'a \<Rightarrow> 'a) \<Rightarrow> bool" where
  "binary_ok cells T operator f \<longleftrightarrow>
     (\<forall>t u. th_shape T t = th_shape T u \<longrightarrow>
        (\<exists>r. operator [t, u] [] = Inr r \<and> th_shape T r = th_shape T t \<and> cells r = map2 f (cells t) (cells u)))"

subsection \<open>One operand\<close>

lemma res_map_unary:
  assumes "unary_ok cells T operator f"
  shows "\<exists>ts. map_shards (unbox1 (\<lambda>t. operator [t] [])) x = Inr ts \<and>
    map (th_shape T) ts = map (th_shape T) (shard_data x) \<and> map cells ts = map (map f \<circ> cells) (shard_data x)"
proof -
  from assms obtain g where g: "\<And>t. operator [t] [] = Inr (g t) \<and> th_shape T (g t) = th_shape T t \<and> cells (g t) = map f (cells t)"
    unfolding unary_ok_def by metis
  have "map_shards (unbox1 (\<lambda>t. operator [t] [])) x = Inr (map (g \<circ> pt_data) (sh_shards x))"
    unfolding map_shards_def using g by (intro res_map_total) (simp add: unbox1_def unbox_tensor_def)
  with g show ?thesis by (auto simp: shard_data_def)
qed

lemma joined_map:
  assumes "map (th_shape T) ts = map (th_shape T) us" and "map cells ts = map (map f \<circ> cells) us"
  shows "joined T cells d s ts = map f (joined T cells d s us)"
proof -
  have len: "length ts = length us" using arg_cong [OF assms(1), of length] by simp
  have "th_shape T (ts ! i) = th_shape T (us ! i)" "cells (ts ! i) = map f (cells (us ! i))" if "i < length us" for i
    using len that arg_cong [OF assms(1), of "\<lambda>xs. xs ! i"] arg_cong [OF assms(2), of "\<lambda>xs. xs ! i"] by simp_all
  then have "parts_along T cells d s ts = map (\<lambda>(k, xs). (k, map f xs)) (parts_along T cells d s us)"
    using len by (intro nth_equalityI) (auto simp: parts_along_def)
  then show ?thesis by (simp add: joined_def map_interleave)
qed

lemma new_split_shaped:
  assumes "along T d s us"
  shows "\<exists>y. new_split T (int d) (map RawShard us) unnamed_tensor_name (Some s) = Inr y \<and>
    represents_sharded T cells y s (joined T cells d s us) \<and>
    sh_class y = SplitPrimitiveTensor \<and> sh_dim y = Some (int d) \<and> shard_count y = int (length us) \<and> shard_data y = us"
proof -
  have "new_split T (int d) (map RawShard us) unnamed_tensor_name (Some s) = new_split_result T (int d) us"
    unfolding new_split_result_def using assms by (simp add: new_split_along)
  with new_split_result_along [OF assms, of cells] show ?thesis by simp
qed

definition same_sharding :: "'t sharded \<Rightarrow> 't sharded \<Rightarrow> bool" where
  "same_sharding x y \<longleftrightarrow> sh_class x = sh_class y \<and> sh_dim x = sh_dim y \<and> shard_count x = shard_count y"

lemma unary_sharded:
  fixes cells :: "'t \<Rightarrow> 'a::semiring_0 list"
  assumes "unary_ok cells T operator f" and "represents_sharded T cells x s A" and "\<not> is_unreduced x"
  shows "\<exists>y. op_elementwise T operator [Sharded x] [] = Inr (Sharded y) \<and>
    represents_sharded T cells y s (map f A) \<and> same_sharding y x \<and> map (th_shape T) (shard_data y) = map (th_shape T) (shard_data x)"
proof -
  obtain ts where ts: "map_shards (unbox1 (\<lambda>t. operator [t] [])) x = Inr ts"
      "map (th_shape T) ts = map (th_shape T) (shard_data x)" "map cells ts = map (map f \<circ> cells) (shard_data x)"
    using res_map_unary [OF assms(1), of x] by blast
  have len: "length ts = length (shard_data x)" using arg_cong [OF ts(2), of length] by simp
  show ?thesis
  proof (cases "sh_class x")
    case SplitPrimitiveTensor
    with assms(2) obtain d where d: "sh_dim x = Some (int d)" "along T d s (shard_data x)" "A = joined T cells d s (shard_data x)"
        "sh_shape x = s"
      by (auto simp: represents_sharded_def)
    have "along T d s ts" using along_cong [OF ts(2)] d(2) by simp
    from new_split_shaped [OF this, of cells] joined_map [OF ts(2,3), of d s] obtain y where
      "new_split T (int d) (map RawShard ts) unnamed_tensor_name (Some s) = Inr y" "represents_sharded T cells y s (map f A)"
      "sh_class y = SplitPrimitiveTensor" "sh_dim y = Some (int d)" "shard_count y = int (length ts)" "shard_data y = ts"
      using d(3) by auto
    with d SplitPrimitiveTensor ts len show ?thesis
      by (auto simp: op_elementwise_def dispatch1_def split_elementwise_unary_def split_dim_def is_plain_def same_sharding_def
          shard_count_def shard_data_def)
  next
    case ReplicatedTensor
    with assms(2) have x: "sh_dim x = None" "\<forall>t \<in> set (shard_data x). th_shape T t = s \<and> cells t = A" "shard_data x \<noteq> []"
      by (auto simp: represents_sharded_def shard_data_def)
    have "th_shape T t = s \<and> cells t = map f A" if "t \<in> set ts" for t
    proof -
      from that obtain i where i: "i < length ts" "t = ts ! i" by (auto simp: in_set_conv_nth)
      with len x(2) arg_cong [OF ts(2), of "\<lambda>xs. xs ! i"] arg_cong [OF ts(3), of "\<lambda>xs. xs ! i"] show ?thesis by simp
    qed
    moreover have "ts \<noteq> []" using x(3) len by auto
    ultimately obtain y where y: "new_replicated T (map RawShard ts) unnamed_tensor_name = Inr y"
        "represents_sharded T cells y s (map f A)" "sh_class y = ReplicatedTensor" "shard_data y = ts"
      using new_replicated_same [of ts T s cells "map f A" unnamed_tensor_name] by blast
    moreover have "sh_dim y = None" using y(2,3) by (simp add: represents_sharded_def)
    moreover have "shard_count y = shard_count x"
      using y(4) len by (metis length_map shard_count_def shard_data_def)
    ultimately show ?thesis
      using x ReplicatedTensor ts
      by (auto simp: op_elementwise_def dispatch1_def replicated_elementwise_unary_def as_replicated_def is_plain_def same_sharding_def
          new_replicated_result_def)
  qed (use assms(3) in \<open>simp add: is_unreduced_def\<close>)
qed

lemma unary_plain:
  assumes "unary_ok cells T operator f" and "represents T cells x s A" and "is_plain x"
  shows "\<exists>t. op_elementwise T operator [x] [] = Inr (Torch t) \<and> th_shape T t = s \<and> cells t = map f A"
proof -
  obtain t where "unbox_tensor x = Inr t" "th_shape T t = s" "cells t = A" using unbox_represents [OF assms(2,3)] by blast
  with assms(1,3) show ?thesis
    unfolding unary_ok_def by (auto simp: op_elementwise_def elementwise_default_def res_bind_def split: sum.splits)
      (metis Inr_inject sum.distinct(1))+
qed

subsection \<open>Two operands\<close>

lemma res_map_binary:
  assumes "binary_ok cells T operator f" and "shard_count x = shard_count y"
    and "map (th_shape T) (shard_data x) = map (th_shape T) (shard_data y)"
  shows "\<exists>ts. zip_shards (unbox2 (\<lambda>a b. operator [a, b] [])) x y = Inr ts \<and>
    map (th_shape T) ts = map (th_shape T) (shard_data x) \<and>
    map cells ts = map2 (map2 f) (map cells (shard_data x)) (map cells (shard_data y))"
proof -
  from assms(1) obtain g where g: "\<And>t u. th_shape T t = th_shape T u \<Longrightarrow>
      operator [t, u] [] = Inr (g t u) \<and> th_shape T (g t u) = th_shape T t \<and> cells (g t u) = map2 f (cells t) (cells u)"
    unfolding binary_ok_def by metis
  let ?g = "\<lambda>(a, b). g (pt_data a) (pt_data b)"
  have len: "length (sh_shards x) = length (sh_shards y)" using assms(2) by (simp add: shard_count_def)
  have same: "th_shape T (pt_data (sh_shards x ! i)) = th_shape T (pt_data (sh_shards y ! i))" if "i < length (sh_shards y)" for i
    using that len arg_cong [OF assms(3), of "\<lambda>xs. xs ! i"] by (simp add: shard_data_def)
  have "zip_shards (unbox2 (\<lambda>a b. operator [a, b] [])) x y = Inr (map ?g (zip (sh_shards x) (sh_shards y)))"
    unfolding zip_shards_def using g same len
    by (intro res_map_total) (auto simp: in_set_conv_nth unbox2_def unbox_tensor_def)
  moreover have "map (th_shape T) (map ?g (zip (sh_shards x) (sh_shards y))) = map (th_shape T) (shard_data x)"
    using g same len by (intro nth_equalityI) (simp_all add: shard_data_def)
  moreover have "map cells (map ?g (zip (sh_shards x) (sh_shards y))) = map2 (map2 f) (map cells (shard_data x)) (map cells (shard_data y))"
    using g same len by (intro nth_equalityI) (simp_all add: shard_data_def)
  ultimately show ?thesis by blast
qed

lemma joined_map2:
  assumes ok: "content_ok T cells" and us: "along T d s us" and vs: "along T d s vs"
    and shapes: "map (th_shape T) us = map (th_shape T) vs" "map (th_shape T) ts = map (th_shape T) us"
    and cells: "map cells ts = map2 (map2 f) (map cells us) (map cells vs)"
  shows "joined T cells d s ts = map2 f (joined T cells d s us) (joined T cells d s vs)"
proof -
  let ?ks = "\<lambda>us. map (\<lambda>n. nat (n ! d) * vol (drop (Suc d) s)) (map (th_shape T) us)"
  have parts: "parts_along T cells d s us = zip (?ks us) (map cells us)" for us
    by (simp add: parts_along_def zip_map_map zip_same_conv_map o_def)
  have len: "length us = length vs" using arg_cong [OF shapes(1), of length] by simp
  have fits: "fits (vol (take d s)) (zip (?ks us) (map cells us))" "fits (vol (take d s)) (zip (?ks us) (map cells vs))"
    using fits_parts_along [OF ok us] fits_parts_along [OF ok vs] unfolding parts shapes(1) by simp_all
  have "?ks vs = ?ks us" by (simp only: shapes(1))
  moreover have "map2 f (interleave (vol (take d s)) (zip (?ks us) (map cells us)))
      (interleave (vol (take d s)) (zip (?ks us) (map cells vs))) =
    interleave (vol (take d s)) (zip (?ks us) (map2 (map2 f) (map cells us) (map cells vs)))"
    using len by (intro map2_interleave fits) simp_all
  ultimately show ?thesis by (simp only: joined_def parts shapes(2) cells)
qed

lemma broadcast_same:
  "broadcast_dims [i, j] [s, s] = Inr [i, j]" "broadcast_dim i [s, s] = Inr i" "broadcast_shapes s s = Inr s"
  "unbroadcast_dim i [s, s] = Inr (if i < 0 then None else Some i)"
proof -
  have "broadcast_sizes s s = Inr s" for s by (induction s) auto
  then show "broadcast_shapes s s = Inr s" by (simp add: broadcast_shapes_def)
qed (simp_all add: broadcast_dims_def broadcast_dim_def broadcast_rank_def unbroadcast_dim_def list_get_def)

lemma replicated_binary:
  fixes cells :: "'t \<Rightarrow> 'a::semiring_0 list"
  assumes "binary_ok cells T operator f" and x: "represents_sharded T cells x s A" "is_replicated x"
    and y: "represents_sharded T cells y s B" "is_replicated y" and counts: "shard_count x = shard_count y"
  shows "\<exists>z. replicated_elementwise_binary T operator x y [] = Inr z \<and> represents_sharded T cells z s (map2 f A B) \<and> is_replicated z"
proof -
  have xy: "\<forall>t \<in> set (shard_data x). th_shape T t = s \<and> cells t = A" "\<forall>t \<in> set (shard_data y). th_shape T t = s \<and> cells t = B"
    using x y by (auto simp: represents_sharded_def is_replicated_def)
  have len: "length (shard_data x) = length (shard_data y)" using counts by (simp add: shard_count_def shard_data_def)
  have "map (th_shape T) (shard_data x) = map (th_shape T) (shard_data y)"
    using xy len by (intro nth_equalityI) simp_all
  then obtain ts where ts: "zip_shards (unbox2 (\<lambda>a b. operator [a, b] [])) x y = Inr ts"
      "map (th_shape T) ts = map (th_shape T) (shard_data x)"
      "map cells ts = map2 (map2 f) (map cells (shard_data x)) (map cells (shard_data y))"
    using res_map_binary [OF assms(1) counts] by blast
  have lent: "length ts = length (shard_data x)" using arg_cong [OF ts(2), of length] by simp
  have "th_shape T t = s \<and> cells t = map2 f A B" if "t \<in> set ts" for t
  proof -
    from that obtain i where i: "i < length ts" "t = ts ! i" by (auto simp: in_set_conv_nth)
    with len lent xy arg_cong [OF ts(2), of "\<lambda>xs. xs ! i"] arg_cong [OF ts(3), of "\<lambda>xs. xs ! i"] show ?thesis by simp
  qed
  moreover have "ts \<noteq> []" using x lent by (auto simp: represents_sharded_def shard_data_def)
  ultimately obtain z where "new_replicated T (map RawShard ts) unnamed_tensor_name = Inr z"
      "represents_sharded T cells z s (map2 f A B)" "sh_class z = ReplicatedTensor"
    using new_replicated_same [of ts T s cells "map2 f A B" unnamed_tensor_name] by blast
  with ts(1) counts show ?thesis
    by (auto simp: replicated_elementwise_binary_def guard_def as_replicated_def new_replicated_result_def is_replicated_def)
qed

lemma split_binary:
  fixes cells :: "'t \<Rightarrow> 'a::semiring_0 list"
  assumes ok: "content_ok T cells" "binary_ok cells T operator f"
    and x: "represents_sharded T cells x s A" "is_split x" and y: "represents_sharded T cells y s B" "is_split y"
    and counts: "shard_count x = shard_count y" and dims: "sh_dim x = sh_dim y"
    and shapes: "map (th_shape T) (shard_data x) = map (th_shape T) (shard_data y)"
  shows "\<exists>z. split_elementwise_binary T operator x y [] = Inr z \<and> represents_sharded T cells z s (map2 f A B) \<and>
    same_sharding z x \<and> map (th_shape T) (shard_data z) = map (th_shape T) (shard_data x)"
proof -
  from x y dims obtain d where d: "sh_dim x = Some (int d)" "sh_dim y = Some (int d)" "sh_shape x = s" "sh_shape y = s"
      "along T d s (shard_data x)" "along T d s (shard_data y)"
      "A = joined T cells d s (shard_data x)" "B = joined T cells d s (shard_data y)"
    by (auto simp: represents_sharded_def is_split_def)
  obtain ts where ts: "zip_shards (unbox2 (\<lambda>a b. operator [a, b] [])) x y = Inr ts"
      "map (th_shape T) ts = map (th_shape T) (shard_data x)"
      "map cells ts = map2 (map2 f) (map cells (shard_data x)) (map cells (shard_data y))"
    using res_map_binary [OF ok(2) counts shapes] by blast
  have "length ts = length (sh_shards x)" using arg_cong [OF ts(2), of length] by (simp add: shard_data_def)
  moreover have "along T d s ts" using along_cong [OF ts(2)] d(5) by simp
  moreover have "joined T cells d s ts = map2 f A B" using joined_map2 [OF ok(1) d(5,6) shapes ts(2,3)] d(7,8) by simp
  ultimately obtain z where "new_split T (int d) (map RawShard ts) unnamed_tensor_name (Some s) = Inr z"
      "represents_sharded T cells z s (map2 f A B)" "sh_class z = SplitPrimitiveTensor" "sh_dim z = Some (int d)"
      "shard_count z = shard_count x" "shard_data z = ts"
    using new_split_shaped [of T d s ts cells] by (auto simp: shard_count_def)
  with ts(1,2) counts d x(2) show ?thesis
    by (auto simp: split_elementwise_binary_def guard_def split_dim_def broadcast_same same_sharding_def is_split_def)
qed

subsection \<open>Operands of different kinds\<close>

text \<open>
  A split operand meets one that is cut into equal shares, so its own shards have to be equal.
\<close>

definition even_shards :: "('t, 'o) torch \<Rightarrow> 't sharded \<Rightarrow> bool" where
  "even_shards T x \<longleftrightarrow>
     (let d = nat (split_dim x); s = sh_shape x in
      \<forall>t \<in> set (shard_data x). th_shape T t = s[d := s ! d div shard_count x])"

definition aligned :: "('t, 'o) torch \<Rightarrow> 't any_tensor \<Rightarrow> 't any_tensor \<Rightarrow> bool" where
  "aligned T x y \<longleftrightarrow>
     (case (x, y) of
        (Sharded a, Sharded b) \<Rightarrow>
          if is_split a \<and> is_split b then map (th_shape T) (shard_data a) = map (th_shape T) (shard_data b)
          else (is_split a \<longrightarrow> even_shards T a) \<and> (is_split b \<longrightarrow> even_shards T b)
      | (Sharded a, _) \<Rightarrow> is_split a \<longrightarrow> even_shards T a
      | _ \<Rightarrow> True)"

lemma even_size:
  assumes "represents_sharded T cells x s A" and "is_split x" and "even_shards T x" and "sh_dim x = Some (int d)"
  shows "s ! d div shard_count x * shard_count x = s ! d"
    and "map (th_shape T) (shard_data x) = List.replicate (length (shard_data x)) (s[d := s ! d div shard_count x])"
proof -
  from assms have x: "along T d s (shard_data x)" "sh_shape x = s" by (auto simp: represents_sharded_def is_split_def)
  have each: "th_shape T t = s[d := s ! d div shard_count x]" if "t \<in> set (shard_data x)" for t
    using assms(3,4) x(2) that by (simp add: even_shards_def Let_def split_dim_def)
  then show "map (th_shape T) (shard_data x) = List.replicate (length (shard_data x)) (s[d := s ! d div shard_count x])"
    by (intro nth_equalityI) simp_all
  have "map (\<lambda>t. th_shape T t ! d) (shard_data x) = List.replicate (length (shard_data x)) (s ! d div shard_count x)"
    using each x(1) by (intro nth_equalityI) (simp_all add: along_def)
  then have "s ! d = int (length (shard_data x)) * (s ! d div shard_count x)"
    using x(1) by (simp add: along_def sum_list_replicate)
  then show "s ! d div shard_count x * shard_count x = s ! d"
    by (simp add: shard_count_def shard_data_def mult.commute)
qed

lemma split_replicated_binary:
  fixes cells :: "'t \<Rightarrow> 'a::semiring_0 list"
  assumes ok: "content_ok T cells" "narrow_ok T cells"
    and x: "represents_sharded T cells x s A" "is_replicated x"
    and y: "represents_sharded T cells y s B" "is_split y" "even_shards T y" and counts: "shard_count x = shard_count y"
  shows "\<exists>w. reshard_split_replicated T x (split_dim y) (shard_count y) = Inr w \<and> represents_sharded T cells w s A \<and>
    is_split w \<and> sh_dim w = sh_dim y \<and> shard_count w = shard_count y \<and> map (th_shape T) (shard_data w) = map (th_shape T) (shard_data y)"
proof -
  from y obtain d where d: "sh_dim y = Some (int d)" "d < length s" by (auto simp: represents_sharded_def is_split_def along_def)
  obtain n where n: "shard_count y = int n" by (simp add: shard_count_def)
  note even = even_size [OF y d(1)]
  obtain t where t: "th_shape T t = s" "cells t = A"
    using x by (auto simp: represents_sharded_def is_replicated_def shard_data_def neq_Nil_conv)
  have whole: "nat (s ! d) div n * n = nat (s ! d)"
    using even(1) content_nth [OF ok(1), of d t] t d n by (metis nat_0_le of_nat_eq_iff of_nat_mult zdiv_int)
  have A: "length A = vol (take d s) * (nat (s ! d) * vol (drop (Suc d) s))"
    using content_length [OF ok(1), of t] t vol_split [OF d(2)] by simp
  obtain w where w: "reshard_split_replicated T x (int d) (int n) = Inr w" "represents_sharded T cells w s A"
      "sh_class w = SplitPrimitiveTensor" "sh_dim w = Some (int d)" "shard_count w = int n"
      "\<forall>t \<in> set (shard_data w). th_shape T t = s[d := s ! d div int n]"
    using split_replicated_represents [OF ok x(1) _ d(2), of n] x(2) counts n even(1) cut_all [OF A]
    unfolding whole by (auto simp: is_replicated_def)
  have "length (shard_data w) = length (shard_data y)" using w(5) n by (simp add: shard_count_def shard_data_def)
  then have "map (th_shape T) (shard_data w) = map (th_shape T) (shard_data y)"
    unfolding even(2) using w(6) n by (intro nth_equalityI) simp_all
  with w d n show ?thesis by (auto simp: split_dim_def is_split_def)
qed

lemma even_pieces:
  assumes "m = q * n" and "0 < n" and "0 \<le> q" and "m = 0 \<Longrightarrow> n = 1"
  shows "map (\<lambda>k. s[d := int k]) (piece_sizes (nat (ceil_div m n)) (nat m)) = List.replicate (nat n) (s[d := q])"
proof (cases "q = 0")
  case True
  with assms show ?thesis by (simp add: piece_sizes_def)
next
  case False
  have "ceil_div m n = q" using assms(1,2) by (simp add: ceil_div_def flip: mult_minus_left)
  moreover have "nat m = nat n * nat q" using assms by (simp add: nat_mult_distrib mult.commute)
  ultimately show ?thesis using assms False by (simp add: piece_sizes_def)
qed

lemma split_plain_binary:
  fixes cells :: "'t \<Rightarrow> 'a::semiring_0 list"
  assumes ok: "content_ok T cells" "transfer_ok T cells" "split_ok T cells"
    and x: "represents_sharded T cells x s A" "is_split x" "even_shards T x"
    and y: "represents T cells y s B" "is_plain y"
    and w: "reshard_split_unsharded T y (split_dim x) (shard_count x) = Inr w"
  shows "represents_sharded T cells w s B \<and> is_split w \<and> sh_dim w = sh_dim x \<and> shard_count w = shard_count x \<and>
    map (th_shape T) (shard_data x) = map (th_shape T) (shard_data w)"
proof -
  from x obtain d where d: "sh_dim x = Some (int d)" "d < length s" "shard_data x \<noteq> []"
    by (auto simp: represents_sharded_def is_split_def along_def)
  note even = even_size [OF x d(1)]
  let ?n = "shard_count x" let ?m = "s ! d"
  have n: "0 < ?n" using d(3) by (simp add: shard_count_def shard_data_def)
  obtain t where t: "unbox_tensor y = Inr t" "th_shape T t = s" "cells t = B" using unbox_represents [OF y] by blast
  have "op_reshard_split T y (int d) ?n = Inr w"
    using w y(2) d(1) by (cases y) (simp_all add: op_reshard_split_def is_plain_def split_dim_def)
  with split_represents [OF ok t d(2) n] have
    cond: "if ?m = 0 then ?n = 1 else ceil_div ?m (ceil_div ?m ?n) = ?n" and
    w': "represents_sharded T cells w s B" "sh_class w = SplitPrimitiveTensor" "sh_dim w = Some (int d)" "shard_count w = ?n"
      "map (th_shape T) (shard_data w) = map (\<lambda>k. s[d := int k]) (piece_sizes (nat (ceil_div ?m ?n)) (nat ?m))"
    by (auto split: if_splits)
  have "0 \<le> ?m" using content_nth [OF ok(1), of d t] t d by simp
  then have "0 \<le> ?m div ?n" using n by (simp add: pos_imp_zdiv_nonneg_iff)
  moreover have "?m = 0 \<Longrightarrow> ?n = 1" using cond by simp
  ultimately have "map (th_shape T) (shard_data w) = map (th_shape T) (shard_data x)"
    unfolding even(2) w'(5) using even_pieces [OF even(1) [symmetric] n] by (simp add: shard_count_def shard_data_def)
  with w' d show ?thesis by (simp add: is_split_def)
qed

lemma replicate_unsharded_represents:
  fixes cells :: "'t \<Rightarrow> 'a::semiring_0 list"
  assumes "transfer_ok T cells" and y: "represents T cells y s B" "is_plain y" and "0 < n" and "replicate_unsharded T y n = Inr w"
  shows "represents_sharded T cells w s B \<and> is_replicated w \<and> shard_count w = n"
proof -
  obtain t where t: "unbox_tensor y = Inr t" "th_shape T t = s" "cells t = B" using unbox_represents [OF y] by blast
  with replicate_unsharded_same [OF t(1) assms(4), of T s cells B] assms(1,5) show ?thesis
    by (auto simp: transfer_ok_def is_replicated_def)
qed

lemma represents_count: "represents_sharded T cells x s A \<Longrightarrow> 0 < shard_count x"
  by (simp add: represents_sharded_def shard_count_def)

text \<open>Two split operands have their dimension and their count in common when the operator returns.\<close>

lemma split_binary_Inr:
  fixes cells :: "'t \<Rightarrow> 'a::semiring_0 list"
  assumes ok: "content_ok T cells" "binary_ok cells T operator f"
    and x: "represents_sharded T cells x s A" "is_split x" and y: "represents_sharded T cells y s B" "is_split y"
    and shapes: "map (th_shape T) (shard_data x) = map (th_shape T) (shard_data y)"
    and r: "split_elementwise_binary T operator x y [] = Inr z"
  shows "represents_sharded T cells z s (map2 f A B)"
proof -
  from x y obtain d e where de: "sh_dim x = Some d" "sh_dim y = Some e" "sh_shape x = s" "sh_shape y = s"
    by (auto simp: represents_sharded_def is_split_def)
  with r have "shard_count x = shard_count y" "sh_dim x = sh_dim y"
    by (auto simp: split_elementwise_binary_def guard_Inr broadcast_same split_dim_def)
  from split_binary [OF ok x y this shapes] r show ?thesis by auto
qed

lemma replicated_split_Inr:
  fixes cells :: "'t \<Rightarrow> 'a::semiring_0 list"
  assumes ok: "content_ok T cells" "narrow_ok T cells" "binary_ok cells T operator f"
    and x: "represents_sharded T cells x s A" "is_replicated x"
    and y: "represents_sharded T cells y s B" "is_split y" "even_shards T y" and counts: "shard_count x = shard_count y"
    and w: "reshard_split_replicated T x (split_dim y) (shard_count y) = Inr w"
  shows "represents_sharded T cells w s A \<and> is_split w \<and> map (th_shape T) (shard_data w) = map (th_shape T) (shard_data y)"
  using split_replicated_binary [OF ok(1,2) x y counts] w by auto

lemma elementwise_split_replicated_Inr:
  fixes cells :: "'t \<Rightarrow> 'a::semiring_0 list"
  assumes ok: "content_ok T cells" "narrow_ok T cells" "binary_ok cells T operator f"
    and x: "represents_sharded T cells x s A" "is_split x" "even_shards T x"
    and y: "represents_sharded T cells y s B" "is_replicated y"
    and r: "elementwise_split_replicated T operator x y [] = Inr z"
  shows "represents_sharded T cells z s (map2 f A B)"
proof -
  from x obtain d where d: "sh_dim x = Some (int d)" "d < length s" "sh_shape x = s" "along T d s (shard_data x)"
      "A = joined T cells d s (shard_data x)"
    by (auto simp: represents_sharded_def is_split_def along_def)
  have sy: "sh_shape y = s" using y by (simp add: represents_sharded_def)
  from r have counts: "shard_count x = shard_count y" by (simp add: elementwise_split_replicated_def guard_Inr)
  obtain w where w: "reshard_split_replicated T y (int d) (shard_count x) = Inr w" "represents_sharded T cells w s B"
      "is_split w" "sh_dim w = Some (int d)" "shard_count w = shard_count x"
      "map (th_shape T) (shard_data w) = map (th_shape T) (shard_data x)"
    using split_replicated_binary [OF ok(1,2) y x counts [symmetric]] d(1) by (auto simp: split_dim_def)
  show ?thesis
  proof (cases "s ! d = 1")
    case False
    with r d sy w(1) have "split_elementwise_binary T operator x w [] = Inr z"
      by (simp add: elementwise_split_replicated_def guard_Inr broadcast_same split_dim_def)
    from split_binary_Inr [OF ok(1,3) x(1,2) w(2,3) w(6) [symmetric] this] show ?thesis .
  next
    case True
    note even = even_size [OF x d(1)]
    have one: "shard_count x = 1"
    proof (rule ccontr)
      assume "shard_count x \<noteq> 1"
      then have "1 div shard_count x = 0" using represents_count [OF x(1)] by (intro div_pos_pos_trivial) auto
      with even(1) True show False by simp
    qed
    have "th_shape T t = s" if "t \<in> set (shard_data x)" for t
    proof -
      have "th_shape T t \<in> set (map (th_shape T) (shard_data x))" using that by simp
      then show ?thesis unfolding even(2) one using True by (auto split: if_splits) (metis list_update_id)
    qed
    moreover have yt: "th_shape T t = s \<and> cells t = B" if "t \<in> set (shard_data y)" for t
      using y that by (auto simp: represents_sharded_def is_replicated_def)
    moreover have len: "length (shard_data x) = 1" "length (shard_data y) = 1"
      using one counts by (simp_all add: shard_count_def shard_data_def)
    ultimately have shapes: "map (th_shape T) (shard_data x) = map (th_shape T) (shard_data y)"
      by (intro nth_equalityI) simp_all
    obtain ts where ts: "zip_shards (unbox2 (\<lambda>a b. operator [a, b] [])) x y = Inr ts"
        "map (th_shape T) ts = map (th_shape T) (shard_data x)"
        "map cells ts = map2 (map2 f) (map cells (shard_data x)) (map cells (shard_data y))"
      using res_map_binary [OF ok(3) counts shapes] by blast
    have same: "(\<lambda>a b. elementwise_default operator [a, b] []) = unbox2 (\<lambda>a b. operator [a, b] ([] :: 'd list))" for operator :: "('t, 'd) operator"
    proof (intro ext)
      fix a b :: "'t any_tensor"
      show "elementwise_default operator [a, b] [] = unbox2 (\<lambda>a b. operator [a, b] []) a b"
        by (cases "unbox_tensor a"; cases "unbox_tensor b") (simp_all add: elementwise_default_def unbox2_def)
    qed
    from r d sy True ts(1) have "new_split_result T (int d) ts = Inr z"
      by (simp add: elementwise_split_replicated_def guard_Inr broadcast_same split_dim_def same as_split_def)
    moreover have "along T d s ts" using along_cong [OF ts(2)] d(4) by simp
    moreover have "joined T cells d s ts = map2 f A B"
    proof -
      from len obtain a b where ab: "shard_data x = [a]" "shard_data y = [b]" by (auto simp: length_Suc_conv)
      then obtain c where c: "ts = [c]" using ts(2) by (cases ts) auto
      have "along T d s (shard_data y)" using along_cong [OF shapes] d(4) by simp
      then have "joined T cells d s (shard_data y) = B"
        using yt [of b] interleave_single [of B "vol (take d s)" "nat (s ! d) * vol (drop (Suc d) s)"] ab
          content_length [OF ok(1), of b] vol_split [OF d(2)]
        by (simp add: joined_def parts_along_def)
      with joined_map2 [OF ok(1) d(4) _ shapes ts(2,3)] along_cong [OF shapes] d(4,5) show ?thesis by simp
    qed
    ultimately show ?thesis using new_split_result_along [of T d s ts cells] by auto
  qed
qed

lemma sharded_binary_Inr:
  fixes cells :: "'t \<Rightarrow> 'a::semiring_0 list"
  assumes ok: "content_ok T cells" "torch_shard_ok T cells" "binary_ok cells T operator f"
    and a: "represents_sharded T cells a s A" and b: "represents_sharded T cells b s B"
    and aligned: "aligned T (Sharded a) (Sharded b)"
    and r: "elementwise_sharded T operator (Sharded a) (Sharded b) [] = Inr z"
  shows "represents_sharded T cells z s (map2 f A B)"
proof -
  from ok(2) have laws: "transfer_ok T cells" "add_ok T cells" "narrow_ok T cells" by (simp_all add: torch_shard_ok_def)
  have "is_replicated a \<and> is_replicated b \<and> replicated_elementwise_binary T operator a b [] = Inr z \<or>
      is_split a \<and> is_split b \<and> split_elementwise_binary T operator a b [] = Inr z \<or>
      is_replicated a \<and> is_split b \<and> shard_count a = shard_count b \<and>
        (\<exists>w. reshard_split_replicated T a (split_dim b) (shard_count b) = Inr w \<and> split_elementwise_binary T operator w b [] = Inr z) \<or>
      is_split a \<and> is_replicated b \<and> elementwise_split_replicated T operator a b [] = Inr z \<or>
      is_replicated a \<and> is_unreduced b \<and> shard_count a = shard_count b \<and>
        (\<exists>w. replicate_unreduced T b (shard_count a) = Inr w \<and> replicated_elementwise_binary T operator a w [] = Inr z)"
    using r by (cases "sh_class a"; cases "sh_class b")
      (auto simp: elementwise_sharded_def is_replicated_def is_split_def is_unreduced_def guard_Inr res_bind_Inr)
  then consider
      (rr) "is_replicated a" "is_replicated b" "replicated_elementwise_binary T operator a b [] = Inr z"
    | (ss) "is_split a" "is_split b" "split_elementwise_binary T operator a b [] = Inr z"
    | (rs) w where "is_replicated a" "is_split b" "shard_count a = shard_count b"
        "reshard_split_replicated T a (split_dim b) (shard_count b) = Inr w" "split_elementwise_binary T operator w b [] = Inr z"
    | (sr) "is_split a" "is_replicated b" "elementwise_split_replicated T operator a b [] = Inr z"
    | (ru) w where "is_replicated a" "is_unreduced b" "shard_count a = shard_count b"
        "replicate_unreduced T b (shard_count a) = Inr w" "replicated_elementwise_binary T operator a w [] = Inr z"
    by blast
  then show ?thesis
  proof cases
    case rr
    then have "shard_count a = shard_count b" by (simp add: replicated_elementwise_binary_def guard_Inr)
    from replicated_binary [OF ok(3) a rr(1) b rr(2) this] rr(3) show ?thesis by auto
  next
    case ss
    with aligned have "map (th_shape T) (shard_data a) = map (th_shape T) (shard_data b)" by (simp add: aligned_def)
    from split_binary_Inr [OF ok(1,3) a ss(1) b ss(2) this ss(3)] show ?thesis .
  next
    case rs
    with aligned have "even_shards T b" by (simp add: aligned_def is_replicated_def is_split_def)
    from replicated_split_Inr [OF ok(1) laws(3) ok(3) a rs(1) b rs(2) this rs(3,4)]
    show ?thesis using split_binary_Inr [OF ok(1,3) _ _ b rs(2) _ rs(5)] by blast
  next
    case sr
    with aligned have "even_shards T a" by (simp add: aligned_def is_replicated_def is_split_def)
    from elementwise_split_replicated_Inr [OF ok(1) laws(3) ok(3) a sr(1) this b sr(2,3)] show ?thesis .
  next
    case ru
    then have "all_reduce_split_or_unreduced T b = Inr w" by (simp add: replicate_unreduced_def guard_Inr)
    with ru all_reduce_represents [OF laws(1,2) b ru(2)] have w: "represents_sharded T cells w s B" "is_replicated w" "shard_count a = shard_count w"
      by (auto simp: is_replicated_def)
    from replicated_binary [OF ok(3) a ru(1) w] ru(5) show ?thesis by auto
  qed
qed

theorem elementwise_sharded_represents:
  fixes cells :: "'t \<Rightarrow> 'a::semiring_0 list"
  assumes ok: "content_ok T cells" "torch_shard_ok T cells" "binary_ok cells T operator f"
    and x: "represents T cells x s A" and y: "represents T cells y s B" and aligned: "aligned T x y"
    and r: "elementwise_sharded T operator x y [] = Inr z"
  shows "represents_sharded T cells z s (map2 f A B)"
proof (cases "is_plain x")
  case True
  with r obtain b where b: "y = Sharded b" "is_replicated b" by (cases x; cases y) (auto simp: elementwise_sharded_def is_plain_def split: if_splits)
  with r True obtain w where w: "replicate_unsharded T x (shard_count b) = Inr w" "replicated_elementwise_binary T operator w b [] = Inr z"
    by (cases x) (auto simp: elementwise_sharded_def is_plain_def res_bind_Inr)
  have yb: "represents_sharded T cells b s B" using y b by simp
  from replicate_unsharded_represents [OF _ x True represents_count [OF yb] w(1)] ok(2)
  have "represents_sharded T cells w s A" "is_replicated w" "shard_count w = shard_count b" by (simp_all add: torch_shard_ok_def)
  from replicated_binary [OF ok(3) this(1,2) yb b(2) this(3)] w(2) show ?thesis by auto
next
  case False
  then obtain a where a: "x = Sharded a" by (cases x) (auto simp: is_plain_def)
  with x have xa: "represents_sharded T cells a s A" by simp
  show ?thesis
  proof (cases "is_plain y")
    case False
    then obtain b where b: "y = Sharded b" by (cases y) (auto simp: is_plain_def)
    with sharded_binary_Inr [OF ok xa, of b B z] y aligned r a show ?thesis by simp
  next
    case True
    consider (split) w where "is_split a" "reshard_split_unsharded T y (split_dim a) (shard_count a) = Inr w" "split_elementwise_binary T operator a w [] = Inr z"
      | (repl) w where "is_replicated a" "replicate_unsharded T y (shard_count a) = Inr w" "replicated_elementwise_binary T operator a w [] = Inr z"
      using r a True by (cases y; cases "sh_class a") (auto simp: elementwise_sharded_def is_plain_def is_split_def is_replicated_def res_bind_Inr)
    then show ?thesis
    proof cases
      case split
      have "even_shards T a" using aligned a True split(1) by (cases y) (auto simp: aligned_def is_plain_def)
      with split_plain_binary [OF ok(1) _ _ xa split(1) _ y True split(2)] ok(2)
      have "represents_sharded T cells w s B" "is_split w" "map (th_shape T) (shard_data a) = map (th_shape T) (shard_data w)"
        by (simp_all add: torch_shard_ok_def)
      from split_binary_Inr [OF ok(1,3) xa split(1) this split(3)] show ?thesis .
    next
      case repl
      from replicate_unsharded_represents [OF _ y True represents_count [OF xa] repl(2)] ok(2)
      have "represents_sharded T cells w s B" "is_replicated w" "shard_count a = shard_count w" by (simp_all add: torch_shard_ok_def)
      from replicated_binary [OF ok(3) xa repl(1) this] repl(3) show ?thesis by auto
    qed
  qed
qed

end
