(* ===== verification/Tn_Sharded_Layers.thy ===== *)
theory Tn_Sharded_Layers
  imports Tn_Sharded_Compute
begin

section \<open>Layers on sharded tensors\<close>

text \<open>
  The remaining overrides of \<open>sharktank/ops/sharded_impls.py\<close>: convolution, embedding, equality, norms,
  attention, reductions and conversions. A stride, a padding, a dtype and the like is passed on to torch.
\<close>

subsection \<open>Convolution\<close>

definition biases :: "'t sharded option \<Rightarrow> 't sharded \<Rightarrow> 't any_tensor option list" where
  "biases bias weight =
     (case bias of None \<Rightarrow> List.replicate (length (sh_shards weight)) None
      | Some b \<Rightarrow> map (\<lambda>s. Some (Prim s)) (sh_shards b))"

definition same_count_as_bias :: "'t sharded option \<Rightarrow> 't sharded \<Rightarrow> bool" where
  "same_count_as_bias bias weight \<longleftrightarrow> (case bias of None \<Rightarrow> True | Some b \<Rightarrow> shard_count weight = shard_count b)"

text \<open>With no bias the weight may be split along any dimension.\<close>

definition output_channels_split :: "'t sharded option \<Rightarrow> 't sharded \<Rightarrow> bool" where
  "output_channels_split bias weight \<longleftrightarrow>
     (case bias of None \<Rightarrow> True | Some b \<Rightarrow> split_dim weight = 0 \<and> split_dim b = 0)"

definition conv2d_replicated_input ::
  "('t, 'o) torch \<Rightarrow> 't sharded \<Rightarrow> 't sharded \<Rightarrow> 't sharded option \<Rightarrow> 'o \<Rightarrow> int \<Rightarrow> 'o option \<Rightarrow> 't sharded res" where
  "conv2d_replicated_input T input weight bias opts groups accum_dtype =
     guard (accum_dtype = None) AssertionError
      (guard (shard_count input = shard_count weight) AssertionError
       (guard (same_count_as_bias bias weight) AssertionError
        (guard (output_channels_split bias weight) AssertionError
         (guard (groups = 1) AssertionError
          (as_split T 1
            (res_map (\<lambda>(x, (w, b)). conv2d_default T (Prim x) (Prim w) b opts groups)
              (zip (sh_shards input) (zip (sh_shards weight) (biases bias weight)))))))))"

definition conv2d_all_split ::
  "('t, 'o) torch \<Rightarrow> 't sharded \<Rightarrow> 't sharded \<Rightarrow> 't sharded option \<Rightarrow> 'o \<Rightarrow> int \<Rightarrow> 'o option \<Rightarrow> 't sharded res" where
  "conv2d_all_split T input weight bias opts groups accum_dtype =
     guard (accum_dtype = None) AssertionError
      (guard (shard_count input = shard_count weight) AssertionError
       (guard (same_count_as_bias bias weight) AssertionError
        (guard (is_replicated input \<or> split_dim input = 1) AssertionError
         (guard (output_channels_split bias weight) AssertionError
          (res_bind (all_gather_split T input None)
            (\<lambda>gathered. conv2d_replicated_input T gathered weight bias opts groups None))))))"

definition conv2d_split_weight_and_bias ::
  "('t, 'o) torch \<Rightarrow> 't any_tensor \<Rightarrow> 't sharded \<Rightarrow> 't sharded option \<Rightarrow> 'o \<Rightarrow> int \<Rightarrow> 'o option \<Rightarrow> 't sharded res" where
  "conv2d_split_weight_and_bias T input weight bias opts groups accum_dtype =
     guard (accum_dtype = None) AssertionError
      (guard (same_count_as_bias bias weight) AssertionError
       (guard (split_dim weight = 0 \<and> groups = 1) AssertionError
        (guard (case bias of None \<Rightarrow> True | Some b \<Rightarrow> split_dim b = 0) AssertionError
         (as_split T 1
           (res_map (\<lambda>(w, b). conv2d_default T input (Prim w) b opts groups)
             (zip (sh_shards weight) (biases bias weight)))))))"

subsection \<open>Embedding and equality\<close>

definition embedding_lookup_replicated ::
  "('t, 'o) torch \<Rightarrow> 't sharded \<Rightarrow> 't sharded \<Rightarrow> 'o \<Rightarrow> 't sharded res" where
  "embedding_lookup_replicated T input embedding_matrix dtype =
     guard (shard_count input = shard_count embedding_matrix) AssertionError
      (as_replicated T (zip_shards (\<lambda>i m. embedding_lookup_default T i m dtype) input embedding_matrix))"

definition equal_sharded :: "('t, 'o) torch \<Rightarrow> 't sharded \<Rightarrow> 't any_tensor \<Rightarrow> bool" where
  "equal_sharded T a b = sharded_deep_equal T a b"

subsection \<open>Norms and attention\<close>

definition sharded_group_norm_affine ::
  "('t, 'o) torch \<Rightarrow> 't sharded \<Rightarrow> 't sharded \<Rightarrow> 't sharded \<Rightarrow> int \<Rightarrow> 'o \<Rightarrow> 't sharded res" where
  "sharded_group_norm_affine T input weight bias num_groups eps =
     guard (shard_count input = shard_count weight \<and> shard_count input = shard_count bias) AssertionError
      (guard (split_dim input = 1) AssertionError
       (guard (num_groups mod shard_count input = 0) AssertionError
        (let num_groups_per_shard = num_groups div shard_count input in
         as_split T 1
          (res_map (\<lambda>(x, (w, b)). group_norm_affine_default T (Prim x) (Prim w) (Prim b) num_groups_per_shard eps)
            (zip (sh_shards input) (zip (sh_shards weight) (sh_shards bias)))))))"

definition layer_norm_split ::
  "('t, 'o) torch \<Rightarrow> 't sharded \<Rightarrow> 't any_tensor \<Rightarrow> 't any_tensor \<Rightarrow> 'o \<Rightarrow> 't sharded res" where
  "layer_norm_split T input weight bias eps =
     guard (split_dim input \<ge> 0 \<and> split_dim input < rank_of input - int (length (any_shape T weight))) AssertionError
      (as_split T (split_dim input) (map_shards (\<lambda>s. layer_norm_default T s (Some weight) (Some bias) eps) input))"

definition scaled_dot_product_attention_sharded ::
  "('t, 'o) torch \<Rightarrow> 't sharded \<Rightarrow> 't sharded \<Rightarrow> 't sharded \<Rightarrow> 't sharded option \<Rightarrow> 'o \<Rightarrow> 't sharded res" where
  "scaled_dot_product_attention_sharded T q k v a is_causal_scale =
     guard (shard_count q = shard_count k \<and> shard_count q = shard_count v) ValueError
      (guard (case a of None \<Rightarrow> True | Some a1 \<Rightarrow> shard_count q = shard_count a1) ValueError
       (guard (split_dim q = split_dim k \<and> split_dim q = split_dim v) ValueError
        (res_bind (list_get (sh_shards q) 0) (\<lambda>q0.
         guard (split_dim q \<le> int (length (pt_shape q0)) - 2) ValueError
          (let a_shards = (case a of None \<Rightarrow> List.replicate (length (sh_shards q)) None
                           | Some a1 \<Rightarrow> map (\<lambda>s. Some (Prim s)) (sh_shards a1)) in
           as_split T (split_dim q)
            (res_map (\<lambda>(q_s, (k_s, (v_s, a_s))).
                scaled_dot_product_attention_torch T (Prim q_s) (Prim k_s) (Prim v_s) a_s is_causal_scale)
              (zip (sh_shards q) (zip (sh_shards k) (zip (sh_shards v) a_shards)))))))))"

subsection \<open>Every shard alike\<close>

definition interpolate_replicated :: "('t, 'o) torch \<Rightarrow> 't sharded \<Rightarrow> 'o \<Rightarrow> 't sharded res" where
  "interpolate_replicated T x opts = as_replicated T (map_shards (unbox1 (\<lambda>t. th_interpolate T t opts)) x)"

definition interpolate_split_batch_or_channel :: "('t, 'o) torch \<Rightarrow> 't sharded \<Rightarrow> 'o \<Rightarrow> 't sharded res" where
  "interpolate_split_batch_or_channel T x opts =
     guard (split_dim x = 0 \<or> split_dim x = 1) AssertionError
      (as_split T (split_dim x) (map_shards (unbox1 (\<lambda>t. th_interpolate T t opts)) x))"

definition mean_replicated :: "('t, 'o) torch \<Rightarrow> 't sharded \<Rightarrow> 'o \<Rightarrow> 't sharded res" where
  "mean_replicated T x opts = as_replicated T (map_shards (\<lambda>s. mean_default T s opts) x)"

definition softmax_split :: "('t, 'o) torch \<Rightarrow> 't sharded \<Rightarrow> int option \<Rightarrow> 'o \<Rightarrow> 't sharded res" where
  "softmax_split T x dim0 dtype =
     (let dim = (case dim0 of None \<Rightarrow> None | Some d \<Rightarrow> Some (if d \<ge> 0 then d else rank_of x + d)) in
      guard (dim \<noteq> None \<and> dim \<noteq> Some (split_dim x)) AssertionError
       (res_bind (map_shards (\<lambda>s. softmax_default T s dim dtype) x) (\<lambda>shards.
         new_split T (split_dim x) (map RawShard shards) unnamed_tensor_name (Some (sh_shape x)))))"

definition to_replicated :: "('t, 'o) torch \<Rightarrow> 't sharded \<Rightarrow> 'o \<Rightarrow> 't sharded res" where
  "to_replicated T x args = as_replicated T (map_shards (\<lambda>s. to_default T s args) x)"

definition to_split :: "('t, 'o) torch \<Rightarrow> 't sharded \<Rightarrow> 'o \<Rightarrow> 't sharded res" where
  "to_split T x args = as_split T (split_dim x) (map_shards (\<lambda>s. to_default T s args) x)"

text \<open>The buffers a module gets for a sharded tensor: one for every shard, in order.\<close>

definition module_register_buffer_sharded :: "string \<Rightarrow> 't sharded \<Rightarrow> (string \<times> 't) list \<Rightarrow> (string \<times> 't) list" where
  "module_register_buffer_sharded name x buffers =
     fold (\<lambda>(i, s). AList.update (name @ ''__shard__'' @ nat_str i) (pt_data s)) (enumerate 0 (sh_shards x)) buffers"

section \<open>Linear layers and the feed-forward block\<close>

text \<open>
  Model of \<open>forward\<close> of \<open>LinearLayer\<close> (\<open>sharktank/layers/linear.py\<close>) and \<open>FFN\<close> (\<open>layers/ffn_block.py\<close>).
  Quantizers and quantized tensors are values of types \<open>'z\<close> and \<open>'q\<close>; what the code calls on them,
  and the products with a quantized operand, are the record \<open>quantization\<close>.
\<close>

datatype ('t, 'q) operand = Dense "'t any_tensor" | Quant 'q

record ('t, 'q, 'z) quantization =
  qz_quantize :: "'z \<Rightarrow> 't any_tensor \<Rightarrow> 'q res"
  qz_dequant :: "'q \<Rightarrow> 't any_tensor res"
  qz_linear :: "('t, 'q) operand \<Rightarrow> ('t, 'q) operand \<Rightarrow> ('t, 'q) operand option \<Rightarrow> ('t, 'q) operand res"

record ('t, 'q, 'z) linear_layer =
  ll_weight :: "('t, 'q) operand"
  ll_bias :: "('t, 'q) operand option"
  ll_premul_input :: "'t any_tensor option"
  ll_q_input :: "'z option"
  ll_qdq_input :: "'z option"
  ll_qdq_output :: "'z option"
  ll_fake_quant :: bool

definition torch_mul :: "('t, 'o) torch \<Rightarrow> ('t, 'o) operator" where
  "torch_mul T ts args = (case ts of [a, b] \<Rightarrow> th_mul T a b | _ \<Rightarrow> Inl TypeError)"

definition any_dtype :: "('t, 'o) torch \<Rightarrow> 't any_tensor \<Rightarrow> 'o res" where
  "any_dtype T x =
     (case x of
        Torch t \<Rightarrow> Inr (th_dtype T t)
      | Prim p \<Rightarrow> Inr (th_dtype T (pt_data p))
      | Sharded s \<Rightarrow> res_bind (list_get (sh_shards s) 0) (\<lambda>p. Inr (th_dtype T (pt_data p))))"

definition op_to :: "('t, 'o) torch \<Rightarrow> 't any_tensor \<Rightarrow> 'o \<Rightarrow> 't any_tensor res" where
  "op_to T x args = dispatch1 (\<lambda>y. to_default T y args) (Some (\<lambda>s. to_split T s args)) (Some (\<lambda>s. to_replicated T s args)) x"

text \<open>\<open>x * y\<close>: torch's own product of two of its tensors, else the reflected one of our tensor.\<close>

definition any_mul :: "('t, 'o) torch \<Rightarrow> 't any_tensor \<Rightarrow> 't any_tensor \<Rightarrow> 't any_tensor res" where
  "any_mul T x y =
     (case (x, y) of
        (Torch a, Torch b) \<Rightarrow> res_bind (th_mul T a b) (\<lambda>t. Inr (Torch t))
      | (Torch _, _) \<Rightarrow> op_elementwise T (torch_mul T) [y, x] []
      | _ \<Rightarrow> op_elementwise T (torch_mul T) [x, y] [])"

subsection \<open>Linear layers\<close>

definition linear_operands ::
  "('t, 'q, 'z) quantization \<Rightarrow> ('t, 'o) torch \<Rightarrow> ('t, 'q) operand \<Rightarrow> ('t, 'q) operand \<Rightarrow> ('t, 'q) operand option \<Rightarrow>
   ('t, 'q) operand res" where
  "linear_operands Q T x weight bias =
     (case (x, weight, bias) of
        (Dense a, Dense w, None) \<Rightarrow> res_bind (op_linear T a w None) (\<lambda>r. Inr (Dense r))
      | (Dense a, Dense w, Some (Dense b)) \<Rightarrow> res_bind (op_linear T a w (Some b)) (\<lambda>r. Inr (Dense r))
      | _ \<Rightarrow> qz_linear Q x weight bias)"

definition quantized_input ::
  "('t, 'q, 'z) quantization \<Rightarrow> ('t, 'q, 'z) linear_layer \<Rightarrow> 't any_tensor \<Rightarrow> ('t, 'q) operand res" where
  "quantized_input Q layer x =
     (case (ll_q_input layer, ll_qdq_input layer) of
        (Some z, _) \<Rightarrow>
          res_bind (qz_quantize Q z x) (\<lambda>q.
            if ll_fake_quant layer then res_bind (qz_dequant Q q) (\<lambda>y. Inr (Dense y)) else Inr (Quant q))
      | (None, Some z) \<Rightarrow> res_bind (qz_quantize Q z x) (\<lambda>q. res_bind (qz_dequant Q q) (\<lambda>y. Inr (Dense y)))
      | _ \<Rightarrow> Inr (Dense x))"

text \<open>\<open>f8\<close> and \<open>f16\<close> are torch's dtypes \<open>float8_e4m3fnuz\<close> and \<open>float16\<close>.\<close>

definition linear_forward ::
  "('t, 'q, 'z) quantization \<Rightarrow> ('t, 'o) torch \<Rightarrow> 'o \<Rightarrow> 'o \<Rightarrow> ('t, 'q, 'z) linear_layer \<Rightarrow> 't any_tensor \<Rightarrow>
   't any_tensor res" where
  "linear_forward Q T f8 f16 layer x0 =
     res_bind (case ll_premul_input layer of None \<Rightarrow> Inr x0 | Some p \<Rightarrow> op_elementwise T (torch_mul T) [x0, p] []) (\<lambda>x.
     res_bind (quantized_input Q layer x) (\<lambda>x1.
     res_bind (linear_operands Q T x1 (ll_weight layer) (ll_bias layer)) (\<lambda>y0.
     res_bind (case y0 of Dense y \<Rightarrow> Inr y | Quant q \<Rightarrow> qz_dequant Q q) (\<lambda>y.
     res_bind (any_dtype T y) (\<lambda>dtype.
       if dtype = f8 then op_to T y f16
       else (case ll_qdq_output layer of
               None \<Rightarrow> Inr y
             | Some z \<Rightarrow> res_bind (qz_quantize Q z y) (qz_dequant Q)))))))"

subsection \<open>The feed-forward block\<close>

record ('t, 'q, 'z) ffn =
  ffn_gate :: "('t, 'q, 'z) linear_layer option"
  ffn_up :: "('t, 'q, 'z) linear_layer"
  ffn_down :: "('t, 'q, 'z) linear_layer"

definition ffn_forward ::
  "('t, 'q, 'z) quantization \<Rightarrow> ('t, 'o) torch \<Rightarrow> 'o \<Rightarrow> 'o \<Rightarrow> ('t, 'o) operator \<Rightarrow> ('t, 'q, 'z) ffn \<Rightarrow> 't any_tensor \<Rightarrow>
   't any_tensor res" where
  "ffn_forward Q T f8 f16 activation_fn block h =
     (case ffn_gate block of
        Some gate \<Rightarrow>
          res_bind (linear_forward Q T f8 f16 gate h) (\<lambda>g.
          res_bind (op_elementwise T activation_fn [g] []) (\<lambda>a.
          res_bind (linear_forward Q T f8 f16 (ffn_up block) h) (\<lambda>u.
          res_bind (any_mul T a u) (linear_forward Q T f8 f16 (ffn_down block)))))
      | None \<Rightarrow>
          res_bind (linear_forward Q T f8 f16 (ffn_up block) h) (\<lambda>u.
          res_bind (op_elementwise T activation_fn [u] []) (linear_forward Q T f8 f16 (ffn_down block))))"

end
