(* ===== verification/Tn_Ffn_Facts.thy ===== *)
theory Tn_Ffn_Facts
  imports Tn_Elementwise_Facts Tn_Sharded_Layers
begin

section \<open>Linear layers and feed-forward blocks with sharded weights\<close>

text \<open>
  A linear layer multiplies with the transposed weight. Transposing a split matrix splits the other
  dimension, so the shards of the weights of a feed-forward block fit together.
\<close>

subsection \<open>Transposition\<close>

definition transpose_ok :: "('t, 'o) torch \<Rightarrow> ('t \<Rightarrow> 'a list) \<Rightarrow> bool" where
  "transpose_ok T cells \<longleftrightarrow>
     (\<forall>t m n. th_shape T t = [m, n] \<longrightarrow>
        (\<exists>r. th_permute T t [1, 0] = Inr r \<and> th_shape T r = [n, m] \<and> cells r = transposed (nat m) (nat n) (cells t)) \<and>
        (\<exists>r. th_mT T t = Inr r \<and> th_shape T r = [n, m] \<and> cells r = transposed (nat m) (nat n) (cells t)))"

lemma any_T_plain:
  assumes "transpose_ok T cells" and x: "represents T cells x [m, n] B" "is_plain x"
  shows "\<exists>t. any_T T x = Inr (Torch t) \<and> th_shape T t = [n, m] \<and> cells t = transposed (nat m) (nat n) B"
proof -
  obtain t where t: "unbox_tensor x = Inr t" "th_shape T t = [m, n]" "cells t = B" using unbox_represents [OF x] by blast
  with assms(1) obtain r where r: "th_permute T t [1, 0] = Inr r" "th_shape T r = [n, m]" "cells r = transposed (nat m) (nat n) B"
    unfolding transpose_ok_def by blast
  have "any_shape T x = [m, n]" using x by (cases x) (auto simp: any_shape_def is_plain_def)
  with t r x(2) show ?thesis
    by (cases x) (auto simp: any_T_def is_plain_def guard_def op_permute_def dispatch1_def permute_default_def unbox1_def unbox_tensor_def)
qed

lemma permute_shards:
  assumes "transpose_ok T cells"
    and shapes: "\<forall>t \<in> set (shard_data x). length (th_shape T t) = 2"
  shows "\<exists>ts. map_shards (\<lambda>s. permute_default T s [1, 0]) x = Inr ts \<and>
    map (th_shape T) ts = map (\<lambda>t. rev (th_shape T t)) (shard_data x) \<and>
    map cells ts = map (\<lambda>t. transposed (nat (th_shape T t ! 0)) (nat (th_shape T t ! 1)) (cells t)) (shard_data x)"
proof -
  let ?P = "\<lambda>t r. th_permute T t [1, 0] = Inr r \<and> th_shape T r = rev (th_shape T t) \<and>
      cells r = transposed (nat (th_shape T t ! 0)) (nat (th_shape T t ! 1)) (cells t)"
  have one: "\<exists>r. ?P t r" if "length (th_shape T t) = 2" for t
  proof -
    from that obtain m n where "th_shape T t = [m, n]" by (auto simp: length_Suc_conv numeral_2_eq_2)
    with assms(1) show ?thesis unfolding transpose_ok_def by force
  qed
  then obtain g where g: "\<And>t. length (th_shape T t) = 2 \<Longrightarrow> ?P t (g t)" by metis
  have "map_shards (\<lambda>s. permute_default T s [1, 0]) x = Inr (map (g \<circ> pt_data) (sh_shards x))"
    unfolding map_shards_def using g shapes
    by (intro res_map_total) (simp add: permute_default_def unbox1_def unbox_tensor_def shard_data_def)
  with g shapes show ?thesis by (auto simp: shard_data_def)
qed

lemma transposed_joined:
  fixes cells :: "'t \<Rightarrow> 'a list"
  assumes ok: "content_ok T cells" and ts: "along T d [m, n] ts" and us: "map (th_shape T) us = map (\<lambda>t. rev (th_shape T t)) ts"
    and cells: "map cells us = map (\<lambda>t. transposed (nat (th_shape T t ! 0)) (nat (th_shape T t ! 1)) (cells t)) ts"
  shows "along T (1 - d) [n, m] us \<and> joined T cells (1 - d) [n, m] us = transposed (nat m) (nat n) (joined T cells d [m, n] ts)"
proof -
  have d: "d = 0 \<or> d = 1" and ne: "ts \<noteq> []" and off: "\<And>t. t \<in> set ts \<Longrightarrow> off_dim d [m, n] (th_shape T t)"
    and sum: "[m, n] ! d = sum_list (map (\<lambda>t. th_shape T t ! d) ts)" using ts by (auto simp: along_def)
  have shape: "th_shape T t = [m, n][d := th_shape T t ! d]" if "t \<in> set ts" for t using off [OF that] by (simp add: off_dim_def)
  have len: "length us = length ts" using arg_cong [OF us, of length] by simp
  have other: "length (th_shape T t) = 2" "th_shape T t ! (1 - d) = [m, n] ! (1 - d)" if "t \<in> set ts" for t
    using off_dim_length [OF off [OF that]] arg_cong [OF shape [OF that], of "\<lambda>s. s ! (1 - d)"] d by auto
  have us_nth: "th_shape T (us ! i) = rev (th_shape T (ts ! i))"
    "cells (us ! i) = transposed (nat (th_shape T (ts ! i) ! 0)) (nat (th_shape T (ts ! i) ! 1)) (cells (ts ! i))" if "i < length ts" for i
    using that len arg_cong [OF us, of "\<lambda>xs. xs ! i"] arg_cong [OF cells, of "\<lambda>xs. xs ! i"] by simp_all
  have nth: "th_shape T (us ! i) = [n, m][1 - d := th_shape T (ts ! i) ! d]" if "i < length ts" for i
    using us_nth(1) [OF that] shape [of "ts ! i"] that d by (cases "d = 0") auto
  have "map (\<lambda>u. th_shape T u ! (1 - d)) us = map (\<lambda>t. th_shape T t ! d) ts"
    using nth len d by (intro nth_equalityI) auto
  moreover have "off_dim (1 - d) [n, m] (th_shape T u)" if "u \<in> set us" for u
    using that len nth d by (auto simp: in_set_conv_nth off_dim_def)
  ultimately have along: "along T (1 - d) [n, m] us"
    using ne len sum d by (auto simp: along_def simp flip: length_greater_0_conv)
  note fits = fits_parts_along [OF ok ts] and size = along_size [OF ok ts]
  have "joined T cells (1 - d) [n, m] us = transposed (nat m) (nat n) (joined T cells d [m, n] ts)"
  proof (cases "d = 0")
    case True
    let ?ps = "map (\<lambda>t. (nat (th_shape T t ! 0), cells t)) ts"
    have parts: "parts_along T cells 0 [m, n] ts = map (\<lambda>(k, xs). (k * nat n, xs)) ?ps" by (simp add: parts_along_def)
    have "joined T cells 0 [m, n] ts = concat (map snd ?ps)"
      using interleave_rows [of "parts_along T cells 0 [m, n] ts"] fits True by (simp add: joined_def parts_along_def o_def)
    moreover have "\<forall>(k, xs) \<in> set ?ps. length xs = k * nat n" using fits True by (auto simp: fits_def parts_along_def)
    moreover have "sum_list (map fst ?ps) = nat m" using size True by (simp add: o_def)
    moreover have "map (\<lambda>(k, xs). (k, transposed k (nat n) xs)) ?ps = parts_along T cells 1 [n, m] us"
      using us_nth len other True by (intro nth_equalityI) (simp_all add: parts_along_def rev_nth)
    ultimately show ?thesis using transposed_rows [of ?ps "nat n"] True by (simp add: joined_def)
  next
    case False
    with d have d1: "d = 1" by simp
    let ?ps = "map (\<lambda>t. (nat (th_shape T t ! 1), cells t)) ts"
    have parts: "parts_along T cells 1 [m, n] ts = ?ps" by (simp add: parts_along_def)
    have fits': "fits (nat m) ?ps" using fits parts d1 by simp
    have size': "sum_list (map fst ?ps) = nat n" using size d1 by (simp add: o_def)
    have "parts_along T cells 0 [n, m] us = map (\<lambda>(k, xs). (k * nat m, transposed (nat m) k xs)) ?ps"
      using us_nth len other d1 by (intro nth_equalityI) (simp_all add: parts_along_def rev_nth)
    then have "joined T cells 0 [n, m] us = concat (map (\<lambda>(k, xs). transposed (nat m) k xs) ?ps)"
      using interleave_rows [of "parts_along T cells 0 [n, m] us"] fits_parts_along [OF ok along] d1
      by (simp add: joined_def o_def split_def)
    with transposed_columns [OF fits'] show ?thesis
      unfolding size' using d1 parts by (simp add: joined_def)
  qed
  with along show ?thesis by blast
qed

lemma any_T_split:
  fixes cells :: "'t \<Rightarrow> 'a::semiring_0 list"
  assumes ok: "content_ok T cells" "transpose_ok T cells"
    and x: "represents_sharded T cells x [m, n] B" "is_split x" "sh_dim x = Some (int d)"
  shows "\<exists>y. any_T T (Sharded x) = Inr (Sharded y) \<and> represents_sharded T cells y [n, m] (transposed (nat m) (nat n) B) \<and>
    is_split y \<and> sh_dim y = Some (int (1 - d)) \<and> shard_count y = shard_count x \<and>
    map (th_shape T) (shard_data y) = map (\<lambda>t. rev (th_shape T t)) (shard_data x)"
proof -
  from x have al: "along T d [m, n] (shard_data x)" and B: "B = joined T cells d [m, n] (shard_data x)" and shape: "sh_shape x = [m, n]"
    by (auto simp: represents_sharded_def is_split_def)
  then have d: "d = 0 \<or> d = 1" and two: "\<forall>t \<in> set (shard_data x). length (th_shape T t) = 2"
    by (auto simp: along_def dest!: bspec off_dim_length)
  obtain ts where ts: "map_shards (\<lambda>s. permute_default T s [1, 0]) x = Inr ts"
      "map (th_shape T) ts = map (\<lambda>t. rev (th_shape T t)) (shard_data x)"
      "map cells ts = map (\<lambda>t. transposed (nat (th_shape T t ! 0)) (nat (th_shape T t ! 1)) (cells t)) (shard_data x)"
    using permute_shards [OF ok(2) two] by blast
  have len: "length ts = length (shard_data x)" using arg_cong [OF ts(2), of length] by simp
  from transposed_joined [OF ok(1) al ts(2,3)] obtain y where y: "new_split_result T (int (1 - d)) ts = Inr y"
      "represents_sharded T cells y [n, m] (transposed (nat m) (nat n) B)" "sh_class y = SplitPrimitiveTensor"
      "sh_dim y = Some (int (1 - d))" "shard_count y = int (length ts)" "shard_data y = ts"
    using new_split_result_along [of T "1 - d" "[n, m]" ts cells] B by auto
  have "py_get [1, 0 :: int] (int d) = Inr (int (1 - d))" using d by (auto simp: py_get_def py_index_def)
  then have "permute_split T x [1, 0] = Inr y"
    using ts(1) y(1) x(3) by (simp add: permute_split_def split_dim_def)
  then have "any_T T (Sharded x) = Inr (Sharded y)"
    using shape x(2) by (simp add: any_T_def any_shape_def guard_def op_permute_def dispatch1_def is_split_def)
  moreover have "shard_count y = shard_count x" using y(5) len by (simp add: shard_count_def shard_data_def)
  ultimately show ?thesis using y ts(2) by (auto simp: is_split_def)
qed

section \<open>The feed-forward block with sharded weights computes the unsharded one\<close>

text \<open>
  The weights of the first two layers are split by their rows and that of the last by its columns. The
  products then return, shard for shard, and the block returns an unreduced tensor of the dense value.
\<close>

subsection \<open>The products of the block return\<close>

definition feeds :: "int \<Rightarrow> 't any_tensor \<Rightarrow> bool" where
  "feeds c x \<longleftrightarrow> (case x of Sharded s \<Rightarrow> is_replicated s \<and> shard_count s = c | _ \<Rightarrow> True)"

lemma product_list:
  fixes cells :: "'t \<Rightarrow> 'a::semiring_0 list"
  assumes ok: "torch_matmul_ok T cells"
    and each: "\<And>i. i < N \<Longrightarrow> \<exists>l r pre k n. unbox_tensor (xs i) = Inr l \<and> unbox_tensor (ys i) = Inr r \<and> pre \<noteq> [] \<and>
      th_shape T l = pre @ [k] \<and> th_shape T r = [k, n]"
  shows "\<exists>ts. length ts = N \<and> (\<forall>i < N. matmul_default T (xs i) (ys i) False = Inr (ts ! i))"
proof -
  have "\<exists>t. matmul_default T (xs i) (ys i) False = Inr t" if "i < N" for i
  proof -
    from each [OF that] obtain l r pre k n where "unbox_tensor (xs i) = Inr l" "unbox_tensor (ys i) = Inr r" "pre \<noteq> []"
      "th_shape T l = pre @ [k]" "th_shape T r = [k, n]" by blast
    from matmul_default_product [OF ok this(1,2,4,3,5)] show ?thesis by auto
  qed
  then obtain g where "\<And>i. i < N \<Longrightarrow> matmul_default T (xs i) (ys i) False = Inr (g i)" by metis
  then show ?thesis by (intro exI [of _ "map g [0..<N]"]) simp
qed

lemma zip_shards_total:
  assumes "length ts = length (sh_shards x)" and "shard_count x = shard_count y"
    and "\<And>i. i < length (sh_shards x) \<Longrightarrow> f (Prim (sh_shards x ! i)) (Prim (sh_shards y ! i)) = Inr (ts ! i)"
  shows "zip_shards f x y = Inr ts"
  using assms by (auto simp: zip_shards_def res_map_Inr list_all2_conv_all_nth shard_count_def)

lemma map_shards_total:
  assumes "length ts = length (sh_shards x)" and "\<And>i. i < length (sh_shards x) \<Longrightarrow> f (Prim (sh_shards x ! i)) = Inr (ts ! i)"
  shows "map_shards f x = Inr ts"
  using assms by (auto simp: map_shards_def res_map_Inr list_all2_conv_all_nth)

lemma column_product_returns:
  fixes cells :: "'t \<Rightarrow> 'a::semiring_0 list"
  assumes ok: "torch_matmul_ok T cells" and pre: "pre \<noteq> []"
    and x: "represents T cells x (pre @ [k]) A" "feeds (shard_count w) x"
    and w: "represents_sharded T cells w [k, n] B" "is_split w" "sh_dim w = Some 1"
  shows "\<exists>z. op_matmul T x (Sharded w) False = Inr (Sharded z) \<and>
    represents_sharded T cells z (pre @ [n]) (mat_mul (vol pre) (nat k) (nat n) A B) \<and>
    is_split z \<and> sh_dim z = Some (int (length pre)) \<and> shard_count z = shard_count w \<and>
    map (th_shape T) (shard_data z) = map (\<lambda>t. pre @ [th_shape T t ! 1]) (shard_data w)"
proof -
  let ?xs = "\<lambda>i. case x of Sharded s \<Rightarrow> Prim (sh_shards s ! i) | _ \<Rightarrow> x"
  let ?N = "length (sh_shards w)"
  have left: "\<exists>l. unbox_tensor (?xs i) = Inr l \<and> th_shape T l = pre @ [k] \<and> cells l = A" if "i < ?N" for i
  proof (cases "is_plain x")
    case True
    from unbox_represents [OF x(1) True] True show ?thesis by (cases x) (auto simp: is_plain_def)
  next
    case False
    then obtain s where s: "x = Sharded s" by (cases x) (auto simp: is_plain_def)
    with x that unbox_shard [of i s] show ?thesis
      by (auto simp: feeds_def represents_sharded_def is_replicated_def shard_data_def shard_count_def)
  qed
  have al: "along T 1 [k, n] (shard_data w)" using w by (auto simp: represents_sharded_def is_split_def)
  have shape: "th_shape T (shard_data w ! i) = [k, th_shape T (shard_data w ! i) ! 1]" if "i < ?N" for i
  proof -
    have "off_dim 1 [k, n] (th_shape T (shard_data w ! i))" using al that by (auto simp: along_def shard_data_def)
    then show ?thesis by (simp add: off_dim_def)
  qed
  have factors: "\<exists>l r pre k n. unbox_tensor (?xs i) = Inr l \<and> unbox_tensor (Prim (sh_shards w ! i)) = Inr r \<and> pre \<noteq> [] \<and>
      th_shape T l = pre @ [k] \<and> th_shape T r = [k, n]" if "i < ?N" for i
    using left [OF that] pre unbox_shard [OF that] shape [OF that] by blast
  have "\<exists>ts. length ts = ?N \<and> (\<forall>i < ?N. matmul_default T (?xs i) (Prim (sh_shards w ! i)) False = Inr (ts ! i))"
    by (rule product_list [OF ok], rule factors)
  then obtain ts where ts: "length ts = ?N"
    "\<And>i. i < ?N \<Longrightarrow> matmul_default T (?xs i) (Prim (sh_shards w ! i)) False = Inr (ts ! i)" by blast
  obtain z where z: "new_split_result T (int (length pre)) ts = Inr z"
      "represents_sharded T cells z (pre @ [n]) (mat_mul (vol pre) (nat k) (nat n) A B)"
      "sh_class z = SplitPrimitiveTensor" "sh_dim z = Some (int (length pre))" "shard_count z = shard_count w"
    using split_rhs_products [OF ok w(1) _ w(3) pre ts(1), of ?xs k A] left ts w(2) by (auto simp: is_split_def)
  have data: "shard_data z = ts" using new_split_Inr [OF z(1) [unfolded new_split_result_def]] by auto
  have "th_shape T (ts ! i) = pre @ [th_shape T (shard_data w ! i) ! 1]" if i: "i < ?N" for i
  proof -
    obtain l where l: "unbox_tensor (?xs i) = Inr l" "th_shape T l = pre @ [k]" using left [OF i] by blast
    from matmul_default_Inr [OF ok ts(2) [OF i] l(1) unbox_shard [OF i] l(2) pre shape [OF i]] show ?thesis by simp
  qed
  then have shapes: "map (th_shape T) (shard_data z) = map (\<lambda>t. pre @ [th_shape T t ! 1]) (shard_data w)"
    using ts(1) unfolding data by (intro nth_equalityI) (simp_all add: shard_data_def)
  have "op_matmul T x (Sharded w) False = Inr (Sharded z)"
  proof (cases "is_plain x")
    case True
    from left [of 0] unbox_represents [OF x(1) True] obtain l where l: "unbox_tensor x = Inr l" "th_shape T l = pre @ [k]" by blast
    have "matmul_default T (Torch l) s False = matmul_default T x s False" for s
      using l(1) by (simp add: matmul_default_def unbox_tensor_def)
    with True have "map_shards (\<lambda>s. matmul_default T (Torch l) s False) w = Inr ts"
      using ts by (intro map_shards_total) (cases x; simp add: is_plain_def)+
    with True l w z(1) show ?thesis
      by (cases x) (simp_all add: op_matmul_def is_plain_def matmul_split_rhs_def guard_def as_split_def split_dim_def is_split_def)
  next
    case False
    then obtain s where s: "x = Sharded s" by (cases x) (auto simp: is_plain_def)
    have sc: "is_replicated s" "shard_count s = shard_count w" "sh_shape s = pre @ [k]" "sh_shape w = [k, n]"
      using x w s by (auto simp: feeds_def represents_sharded_def)
    have "zip_shards (\<lambda>l r. matmul_default T l r False) s w = Inr ts"
      using ts sc s by (intro zip_shards_total) (simp_all add: shard_count_def)
    with sc s w z(1) show ?thesis
      by (simp add: op_matmul_def is_replicated_def is_split_def matmul_replicated_lhs_split_rhs_def
          matmul_replicated_lhs_split_rhs_plain_def guard_def as_split_def split_dim_def rank_of_def)
  qed
  with z shapes show ?thesis by (auto simp: is_split_def)
qed

lemma summed_product_returns:
  fixes cells :: "'t \<Rightarrow> 'a::semiring_0 list"
  assumes ok: "torch_matmul_ok T cells" "torch_shard_ok T cells" and pre: "pre \<noteq> []"
    and z: "represents_sharded T cells z (pre @ [n]) A" "is_split z" "sh_dim z = Some (int (length pre))"
    and w: "represents_sharded T cells w [n, m] B" "is_split w" "sh_dim w = Some 0"
    and fit: "map (\<lambda>t. th_shape T t ! length pre) (shard_data z) = map (\<lambda>t. th_shape T t ! 0) (shard_data w)"
  shows "\<exists>u. op_matmul T (Sharded z) (Sharded w) False = Inr (Sharded u) \<and>
    represents_sharded T cells u (pre @ [m]) (mat_mul (vol pre) (nat n) (nat m) A B) \<and> is_unreduced u \<and> shard_count u = shard_count z"
proof -
  let ?N = "length (sh_shards z)"
  have len: "length (sh_shards w) = ?N" using arg_cong [OF fit, of length] by (simp add: shard_data_def)
  have az: "along T (length pre) (pre @ [n]) (shard_data z)" and aw: "along T 0 [n, m] (shard_data w)"
    using z w by (auto simp: represents_sharded_def is_split_def)
  have zs: "th_shape T (shard_data z ! i) = pre @ [th_shape T (shard_data z ! i) ! length pre]"
    and ws: "th_shape T (shard_data w ! i) = [th_shape T (shard_data w ! i) ! 0, m]"
    and same: "th_shape T (shard_data z ! i) ! length pre = th_shape T (shard_data w ! i) ! 0" if "i < ?N" for i
  proof -
    have "off_dim (length pre) (pre @ [n]) (th_shape T (shard_data z ! i))" "off_dim 0 [n, m] (th_shape T (shard_data w ! i))"
      using az aw that len by (auto simp: along_def shard_data_def)
    then show "th_shape T (shard_data z ! i) = pre @ [th_shape T (shard_data z ! i) ! length pre]"
      "th_shape T (shard_data w ! i) = [th_shape T (shard_data w ! i) ! 0, m]"
      by (simp_all add: off_dim_def)
    show "th_shape T (shard_data z ! i) ! length pre = th_shape T (shard_data w ! i) ! 0"
      using arg_cong [OF fit, of "\<lambda>xs. xs ! i"] that len by (simp add: shard_data_def)
  qed
  have factors: "\<exists>l r pre k n. unbox_tensor (Prim (sh_shards z ! i)) = Inr l \<and> unbox_tensor (Prim (sh_shards w ! i)) = Inr r \<and> pre \<noteq> [] \<and>
      th_shape T l = pre @ [k] \<and> th_shape T r = [k, n]" if "i < ?N" for i
    using pre unbox_shard [OF that] unbox_shard [of i w] len zs [OF that] ws [OF that] same [OF that] that by metis
  have "\<exists>ts. length ts = ?N \<and> (\<forall>i < ?N. matmul_default T (Prim (sh_shards z ! i)) (Prim (sh_shards w ! i)) False = Inr (ts ! i))"
    by (rule product_list [OF ok(1)], rule factors)
  then obtain ts where ts: "length ts = ?N"
    "\<And>i. i < ?N \<Longrightarrow> matmul_default T (Prim (sh_shards z ! i)) (Prim (sh_shards w ! i)) False = Inr (ts ! i)" by blast
  have zip: "zip_shards (\<lambda>l r. matmul_default T l r False) z w = Inr ts"
    using ts len by (intro zip_shards_total) (simp_all add: shard_count_def)
  have out: "th_shape T (ts ! i) = pre @ [m]" if i: "i < ?N" for i
  proof -
    have "th_shape T (shard_data w ! i) = [th_shape T (shard_data z ! i) ! length pre, m]" using ws [OF i] same [OF i] by simp
    with matmul_default_Inr [OF ok(1) ts(2) [OF i] unbox_shard [OF i] unbox_shard [of i w] zs [OF i] pre this] i len
    show ?thesis by simp
  qed
  have "ts \<noteq> []" using ts(1) z by (auto simp: represents_sharded_def)
  moreover have "\<forall>t \<in> set ts. th_shape T t = pre @ [m]" using out ts(1) by (auto simp: in_set_conv_nth)
  ultimately obtain u where u: "new_unreduced T (map RawShard ts) unnamed_tensor_name None = Inr u"
    using new_unreduced_same [where cells = cells] by blast
  have counts: "shard_count z = shard_count w" using len by (simp add: shard_count_def)
  moreover have "sh_shape z = pre @ [n]" "sh_shape w = [n, m]" using z w by (simp_all add: represents_sharded_def)
  ultimately have split: "matmul_split T z w False = Inr u"
    using zip u z w by (simp add: matmul_split_def guard_def matmul_split_both_def Let_def rank_of_def split_dim_def)
  with matmul_split_both_represents [OF ok pre z(1,2) w(1,2) split] z w show ?thesis
    by (auto simp: op_matmul_def is_split_def is_unreduced_def)
qed

subsection \<open>Linear layers without quantizers\<close>

definition dense_layer :: "'t any_tensor \<Rightarrow> ('t, 'q, 'z) linear_layer" where
  "dense_layer w =
     \<lparr>ll_weight = Dense w, ll_bias = None, ll_premul_input = None, ll_q_input = None, ll_qdq_input = None,
      ll_qdq_output = None, ll_fake_quant = False\<rparr>"

lemma dense_layer_forward:
  assumes "op_linear T x w None = Inr y" and "any_dtype T y = Inr dt" and "dt \<noteq> f8"
  shows "linear_forward Q T f8 f16 (dense_layer w) x = Inr y"
  using assms by (simp add: linear_forward_def dense_layer_def quantized_input_def linear_operands_def)

lemma any_dtype_sharded: "sh_shards s \<noteq> [] \<Longrightarrow> any_dtype T (Sharded s) = Inr (th_dtype T (pt_data (hd (sh_shards s))))"
  by (cases "sh_shards s") (simp_all add: any_dtype_def list_get_def)

lemma sharded_layer_forward:
  fixes cells :: "'t \<Rightarrow> 'a::semiring_0 list"
  assumes "any_T T (Sharded w) = Inr w'" and "op_matmul T x w' False = Inr (Sharded z)"
    and "represents_sharded T cells z s A" and "\<forall>t. th_dtype T t \<noteq> f8"
  shows "linear_forward Q T f8 f16 (dense_layer (Sharded w)) x = Inr (Sharded z)"
proof -
  have "sh_shards z \<noteq> []" using assms(3) by (simp add: represents_sharded_def)
  with assms(4) show ?thesis
    by (intro dense_layer_forward [where dt = "th_dtype T (pt_data (hd (sh_shards z)))"])
      (simp_all add: op_linear_def is_plain_def linear_sharded_def assms(1,2) any_dtype_sharded)
qed

text \<open>A layer with plain operands.\<close>

lemma plain_layer_forward:
  fixes cells :: "'t \<Rightarrow> 'a::semiring_0 list"
  assumes ok: "torch_matmul_ok T cells" "transpose_ok T cells" and pre: "pre \<noteq> []"
    and x: "represents T cells x (pre @ [k]) A" "is_plain x" and w: "represents T cells w [n, k] B" "is_plain w"
    and f8: "\<forall>t. th_dtype T t \<noteq> f8"
  shows "\<exists>t. linear_forward Q T f8 f16 (dense_layer w) x = Inr (Torch t) \<and> th_shape T t = pre @ [n] \<and>
    cells t = mat_mul (vol pre) (nat k) (nat n) A (transposed (nat n) (nat k) B)"
proof -
  obtain l r where lr: "unbox_tensor x = Inr l" "th_shape T l = pre @ [k]" "cells l = A"
      "unbox_tensor w = Inr r" "th_shape T r = [n, k]" "cells r = B"
    using unbox_represents [OF x] unbox_represents [OF w] by blast
  have "\<exists>u. promote T l r = Inr u \<and> th_shape T u = [n, k] \<and> cells u = B"
    using ok(1) lr by (cases "th_dtype T r = th_dtype T l") (auto simp: promote_def torch_matmul_ok_def to_ok_def, metis)
  then obtain u where u: "promote T l r = Inr u" "th_shape T u = [n, k]" "cells u = B" by blast
  with ok(2) obtain v where v: "th_mT T u = Inr v" "th_shape T v = [k, n]" "cells v = transposed (nat n) (nat k) B"
    unfolding transpose_ok_def by blast
  have "matmul_default T (Torch l) (Torch u) True = matmul_default T (Torch l) (Torch v) False"
    using v(1) by (simp add: matmul_default_def unbox_tensor_def)
  moreover obtain t where t: "matmul_default T (Torch l) (Torch v) False = Inr t" "th_shape T t = pre @ [n]"
      "cells t = mat_mul (vol pre) (nat k) (nat n) A (transposed (nat n) (nat k) B)"
    using matmul_default_product [OF ok(1) _ _ lr(2) pre v(2), of "Torch l" "Torch v"] lr(3) v(3) by (auto simp: unbox_tensor_def)
  ultimately have "op_linear T x w None = Inr (Torch t)"
    using x(2) w(2) lr u by (simp add: op_linear_def linear_default_def unbox_optional_def)
  then have "linear_forward Q T f8 f16 (dense_layer w) x = Inr (Torch t)"
    using f8 by (intro dense_layer_forward [where dt = "th_dtype T t"]) (simp_all add: any_dtype_def)
  with t show ?thesis by blast
qed

subsection \<open>The block\<close>

definition dense_ffn :: "'t any_tensor \<Rightarrow> 't any_tensor \<Rightarrow> 't any_tensor \<Rightarrow> ('t, 'q, 'z) ffn" where
  "dense_ffn gate up down =
     \<lparr>ffn_gate = Some (dense_layer gate), ffn_up = dense_layer up, ffn_down = dense_layer down\<rparr>"

text \<open>What the block computes: \<open>p\<close> rows of \<open>k\<close> elements, \<open>n\<close> hidden features, \<open>m\<close> outputs.\<close>

definition ffn_value ::
  "('a::semiring_0 \<Rightarrow> 'a) \<Rightarrow> nat \<Rightarrow> nat \<Rightarrow> nat \<Rightarrow> nat \<Rightarrow> 'a list \<Rightarrow> 'a list \<Rightarrow> 'a list \<Rightarrow> 'a list \<Rightarrow> 'a list" where
  "ffn_value act p k n m A G U D =
     mat_mul p n m
      (map2 (*) (map act (mat_mul p k n A (transposed n k G))) (mat_mul p k n A (transposed n k U)))
      (transposed m n D)"

definition torch_ffn_ok :: "('t, 'o) torch \<Rightarrow> ('t \<Rightarrow> 'a::semiring_0 list) \<Rightarrow> ('t, 'o) operator \<Rightarrow> ('a \<Rightarrow> 'a) \<Rightarrow> bool" where
  "torch_ffn_ok T cells activation_fn act \<longleftrightarrow>
     torch_matmul_ok T cells \<and> torch_shard_ok T cells \<and> transpose_ok T cells \<and>
     unary_ok cells T activation_fn act \<and> binary_ok cells T (torch_mul T) (*)"

lemma torch_mul_same:
  assumes "binary_ok cells T (torch_mul T) (*)" and "th_shape T a = th_shape T u"
  shows "\<exists>p. th_mul T a u = Inr p \<and> th_shape T p = th_shape T a \<and> cells p = map2 (*) (cells a) (cells u)"
  using assms by (simp add: binary_ok_def torch_mul_def)

lemma plain_ffn_forward:
  fixes cells :: "'t \<Rightarrow> 'a::semiring_0 list"
  assumes ok: "torch_ffn_ok T cells activation_fn act" and f8: "\<forall>t. th_dtype T t \<noteq> f8" and pre: "pre \<noteq> []"
    and h: "represents T cells h (pre @ [k]) A" "is_plain h"
    and gate: "represents T cells gate [n, k] G" "is_plain gate"
    and up: "represents T cells up [n, k] U" "is_plain up"
    and down: "represents T cells down [m, n] D" "is_plain down"
  shows "\<exists>t. ffn_forward Q T f8 f16 activation_fn (dense_ffn gate up down) h = Inr (Torch t) \<and> th_shape T t = pre @ [m] \<and>
    cells t = ffn_value act (vol pre) (nat k) (nat n) (nat m) A G U D"
proof -
  note laws = ok [unfolded torch_ffn_ok_def]
  note layer = plain_layer_forward [OF laws [THEN conjunct1] laws [THEN conjunct2, THEN conjunct2, THEN conjunct1] pre _ _ _ _ f8]
  obtain g where g: "linear_forward Q T f8 f16 (dense_layer gate) h = Inr (Torch g)" "th_shape T g = pre @ [n]"
      "cells g = mat_mul (vol pre) (nat k) (nat n) A (transposed (nat n) (nat k) G)"
    using layer [OF h gate] by blast
  obtain u where u: "linear_forward Q T f8 f16 (dense_layer up) h = Inr (Torch u)" "th_shape T u = pre @ [n]"
      "cells u = mat_mul (vol pre) (nat k) (nat n) A (transposed (nat n) (nat k) U)"
    using layer [OF h up] by blast
  obtain a where a: "op_elementwise T activation_fn [Torch g] [] = Inr (Torch a)" "th_shape T a = pre @ [n]"
      "cells a = map act (cells g)"
    using unary_plain [of cells T activation_fn act "Torch g" "pre @ [n]" "cells g"] laws g(2) by (auto simp: is_plain_def)
  obtain p where p: "any_mul T (Torch a) (Torch u) = Inr (Torch p)" "th_shape T p = pre @ [n]"
      "cells p = map2 (*) (cells a) (cells u)"
    using torch_mul_same [of cells T a u] laws a(2) u(2) by (auto simp: any_mul_def)
  obtain t where "linear_forward Q T f8 f16 (dense_layer down) (Torch p) = Inr (Torch t)" "th_shape T t = pre @ [m]"
      "cells t = mat_mul (vol pre) (nat n) (nat m) (cells p) (transposed (nat m) (nat n) D)"
    using layer [of "Torch p" n "cells p", OF _ _ down] p(2) by (auto simp: is_plain_def)
  with g u a p show ?thesis by (simp add: ffn_forward_def dense_ffn_def ffn_value_def)
qed

text \<open>One of the first two layers: the transposed weight is split by columns.\<close>

lemma column_layer_forward:
  fixes cells :: "'t \<Rightarrow> 'a::semiring_0 list"
  assumes ok: "torch_matmul_ok T cells" "transpose_ok T cells" and pre: "pre \<noteq> []" and f8: "\<forall>t. th_dtype T t \<noteq> f8"
    and x: "represents T cells x (pre @ [k]) A" "feeds (shard_count w) x"
    and w: "represents_sharded T cells w [n, k] B" "is_split w" "sh_dim w = Some 0"
  shows "\<exists>z. linear_forward Q T f8 f16 (dense_layer (Sharded w)) x = Inr (Sharded z) \<and>
    represents_sharded T cells z (pre @ [n]) (mat_mul (vol pre) (nat k) (nat n) A (transposed (nat n) (nat k) B)) \<and>
    is_split z \<and> sh_dim z = Some (int (length pre)) \<and> shard_count z = shard_count w \<and>
    map (th_shape T) (shard_data z) = map (\<lambda>t. pre @ [th_shape T t ! 0]) (shard_data w)"
proof -
  have content: "content_ok T cells" using ok(1) by (simp add: torch_matmul_ok_def)
  obtain v where v: "any_T T (Sharded w) = Inr (Sharded v)" "represents_sharded T cells v [k, n] (transposed (nat n) (nat k) B)"
      "is_split v" "sh_dim v = Some 1" "shard_count v = shard_count w"
      "map (th_shape T) (shard_data v) = map (\<lambda>t. rev (th_shape T t)) (shard_data w)"
    using any_T_split [OF content ok(2) w(1,2), of 0] w(3) by auto
  obtain z where z: "op_matmul T x (Sharded v) False = Inr (Sharded z)"
      "represents_sharded T cells z (pre @ [n]) (mat_mul (vol pre) (nat k) (nat n) A (transposed (nat n) (nat k) B))"
      "is_split z" "sh_dim z = Some (int (length pre))" "shard_count z = shard_count v"
      "map (th_shape T) (shard_data z) = map (\<lambda>t. pre @ [th_shape T t ! 1]) (shard_data v)"
    using column_product_returns [OF ok(1) pre x(1) _ v(2,3,4)] x(2) v(5) by auto
  have "map (\<lambda>t. pre @ [th_shape T t ! 1]) (shard_data v) = map (\<lambda>s. pre @ [s ! 1]) (map (th_shape T) (shard_data v))" by simp
  also have "\<dots> = map (\<lambda>t. pre @ [rev (th_shape T t) ! 1]) (shard_data w)" unfolding v(6) by simp
  also have "\<dots> = map (\<lambda>t. pre @ [th_shape T t ! 0]) (shard_data w)"
  proof (rule map_cong [OF refl])
    fix t assume "t \<in> set (shard_data w)"
    then have "off_dim 0 [n, k] (th_shape T t)" using w by (auto simp: represents_sharded_def is_split_def along_def)
    from off_dim_length [OF this] show "pre @ [rev (th_shape T t) ! 1] = pre @ [th_shape T t ! 0]" by (simp add: rev_nth)
  qed
  finally show ?thesis
    using sharded_layer_forward [OF v(1) z(1,2) f8] z v(5) by auto
qed

text \<open>The last layer: the transposed weight is split by rows, like the columns of the input.\<close>

lemma row_layer_forward:
  fixes cells :: "'t \<Rightarrow> 'a::semiring_0 list"
  assumes ok: "torch_matmul_ok T cells" "torch_shard_ok T cells" "transpose_ok T cells" and pre: "pre \<noteq> []"
    and f8: "\<forall>t. th_dtype T t \<noteq> f8"
    and z: "represents_sharded T cells z (pre @ [n]) A" "is_split z" "sh_dim z = Some (int (length pre))"
    and w: "represents_sharded T cells w [m, n] B" "is_split w" "sh_dim w = Some 1"
    and fit: "map (\<lambda>t. th_shape T t ! length pre) (shard_data z) = map (\<lambda>t. th_shape T t ! 1) (shard_data w)"
  shows "\<exists>u. linear_forward Q T f8 f16 (dense_layer (Sharded w)) (Sharded z) = Inr (Sharded u) \<and>
    represents_sharded T cells u (pre @ [m]) (mat_mul (vol pre) (nat n) (nat m) A (transposed (nat m) (nat n) B)) \<and>
    is_unreduced u \<and> shard_count u = shard_count z"
proof -
  have content: "content_ok T cells" using ok(1) by (simp add: torch_matmul_ok_def)
  obtain v where v: "any_T T (Sharded w) = Inr (Sharded v)" "represents_sharded T cells v [n, m] (transposed (nat m) (nat n) B)"
      "is_split v" "sh_dim v = Some 0"
      "map (th_shape T) (shard_data v) = map (\<lambda>t. rev (th_shape T t)) (shard_data w)"
    using any_T_split [OF content ok(3) w(1,2), of 1] w(3) by auto
  have "map (\<lambda>t. th_shape T t ! 0) (shard_data v) = map (\<lambda>s. s ! 0) (map (th_shape T) (shard_data v))" by simp
  also have "\<dots> = map (\<lambda>t. rev (th_shape T t) ! 0) (shard_data w)" unfolding v(5) by simp
  also have "\<dots> = map (\<lambda>t. th_shape T t ! 1) (shard_data w)"
  proof (rule map_cong [OF refl])
    fix t assume "t \<in> set (shard_data w)"
    then have "off_dim 1 [m, n] (th_shape T t)" using w by (auto simp: represents_sharded_def is_split_def along_def)
    from off_dim_length [OF this] show "rev (th_shape T t) ! 0 = th_shape T t ! 1" by (simp add: rev_nth)
  qed
  finally have "map (\<lambda>t. th_shape T t ! length pre) (shard_data z) = map (\<lambda>t. th_shape T t ! 0) (shard_data v)" using fit by simp
  from summed_product_returns [OF ok(1,2) pre z v(2-4) this] obtain u where
    u: "op_matmul T (Sharded z) (Sharded v) False = Inr (Sharded u)"
      "represents_sharded T cells u (pre @ [m]) (mat_mul (vol pre) (nat n) (nat m) A (transposed (nat m) (nat n) B))"
      "is_unreduced u" "shard_count u = shard_count z" by blast
  from sharded_layer_forward [OF v(1) u(1,2) f8] u show ?thesis by auto
qed

theorem sharded_ffn_forward:
  fixes cells :: "'t \<Rightarrow> 'a::semiring_0 list"
  assumes ok: "torch_ffn_ok T cells activation_fn act" and f8: "\<forall>t. th_dtype T t \<noteq> f8" and pre: "pre \<noteq> []"
    and h: "represents T cells h (pre @ [k]) A" "feeds (shard_count gate) h"
    and gate: "represents_sharded T cells gate [n, k] G" "is_split gate" "sh_dim gate = Some 0"
    and up: "represents_sharded T cells up [n, k] U" "is_split up" "sh_dim up = Some 0"
    and down: "represents_sharded T cells down [m, n] D" "is_split down" "sh_dim down = Some 1"
    and rows: "map (\<lambda>t. th_shape T t ! 0) (shard_data up) = map (\<lambda>t. th_shape T t ! 0) (shard_data gate)"
    and columns: "map (\<lambda>t. th_shape T t ! 1) (shard_data down) = map (\<lambda>t. th_shape T t ! 0) (shard_data gate)"
  shows "\<exists>u. ffn_forward Q T f8 f16 activation_fn (dense_ffn (Sharded gate) (Sharded up) (Sharded down)) h = Inr (Sharded u) \<and>
    represents_sharded T cells u (pre @ [m]) (ffn_value act (vol pre) (nat k) (nat n) (nat m) A G U D) \<and> is_unreduced u"
proof -
  from ok have laws: "torch_matmul_ok T cells" "torch_shard_ok T cells" "transpose_ok T cells"
    "unary_ok cells T activation_fn act" "binary_ok cells T (torch_mul T) (*)" by (simp_all add: torch_ffn_ok_def)
  then have content: "content_ok T cells" by (simp add: torch_matmul_ok_def)
  have "length (shard_data up) = length (shard_data gate)" using arg_cong [OF rows, of length] by simp
  then have counts: "shard_count up = shard_count gate" by (simp add: shard_count_def shard_data_def)
  note layer = column_layer_forward [OF laws(1,3) pre f8 h(1)]
  obtain g where g: "linear_forward Q T f8 f16 (dense_layer (Sharded gate)) h = Inr (Sharded g)"
      "represents_sharded T cells g (pre @ [n]) (mat_mul (vol pre) (nat k) (nat n) A (transposed (nat n) (nat k) G))"
      "is_split g" "sh_dim g = Some (int (length pre))" "shard_count g = shard_count gate"
      "map (th_shape T) (shard_data g) = map (\<lambda>t. pre @ [th_shape T t ! 0]) (shard_data gate)"
    using layer [OF h(2) gate] by blast
  obtain u where u: "linear_forward Q T f8 f16 (dense_layer (Sharded up)) h = Inr (Sharded u)"
      "represents_sharded T cells u (pre @ [n]) (mat_mul (vol pre) (nat k) (nat n) A (transposed (nat n) (nat k) U))"
      "is_split u" "sh_dim u = Some (int (length pre))" "shard_count u = shard_count gate"
      "map (th_shape T) (shard_data u) = map (\<lambda>t. pre @ [th_shape T t ! 0]) (shard_data up)"
    using layer [OF _ up] h(2) counts by auto
  let ?A = "map act (mat_mul (vol pre) (nat k) (nat n) A (transposed (nat n) (nat k) G))"
  obtain a where a: "op_elementwise T activation_fn [Sharded g] [] = Inr (Sharded a)" "represents_sharded T cells a (pre @ [n]) ?A"
      "same_sharding a g" "map (th_shape T) (shard_data a) = map (th_shape T) (shard_data g)"
    using unary_sharded [OF laws(4) g(2)] g(3) by (auto simp: is_unreduced_def is_split_def)
  then have as: "is_split a" "sh_dim a = Some (int (length pre))" "shard_count a = shard_count u"
    using g u by (simp_all add: same_sharding_def is_split_def)
  have "map (\<lambda>t. pre @ [th_shape T t ! 0]) ts = map (\<lambda>x. pre @ [x]) (map (\<lambda>t. th_shape T t ! 0) ts)" for ts by simp
  then have shapes: "map (th_shape T) (shard_data a) = map (th_shape T) (shard_data u)" by (simp only: a(4) g(6) u(6) rows)
  obtain p where p: "split_elementwise_binary T (torch_mul T) a u [] = Inr p"
      "represents_sharded T cells p (pre @ [n]) (map2 (*) ?A (mat_mul (vol pre) (nat k) (nat n) A (transposed (nat n) (nat k) U)))"
      "same_sharding p a" "map (th_shape T) (shard_data p) = map (th_shape T) (shard_data a)"
    using split_binary [OF content laws(5) a(2) as(1) u(2,3) as(3) _ shapes] as(2) u(4) by auto
  then have ps: "is_split p" "sh_dim p = Some (int (length pre))" using as by (simp_all add: same_sharding_def is_split_def)
  have mul: "any_mul T (Sharded a) (Sharded u) = Inr (Sharded p)"
    using p(1) as(1) u(3) by (simp add: any_mul_def op_elementwise_def is_plain_def elementwise_sharded_def is_split_def)
  have "map (\<lambda>t. th_shape T t ! length pre) (shard_data p) = map (\<lambda>s. s ! length pre) (map (th_shape T) (shard_data p))" by simp
  also have "\<dots> = map (\<lambda>t. th_shape T t ! 1) (shard_data down)" unfolding p(4) a(4) g(6) columns by simp
  finally obtain y where y: "linear_forward Q T f8 f16 (dense_layer (Sharded down)) (Sharded p) = Inr (Sharded y)"
      "represents_sharded T cells y (pre @ [m]) (ffn_value act (vol pre) (nat k) (nat n) (nat m) A G U D)" "is_unreduced y"
    using row_layer_forward [OF laws(1-3) pre f8 p(2) ps down] unfolding ffn_value_def by blast
  with g(1) a(1) u(1) mul show ?thesis by (simp add: ffn_forward_def dense_ffn_def)
qed

end
