(* ===== verification/Tn_Arrays.thy ===== *)
theory Tn_Arrays
  imports Tn_Ffn_Facts
begin

section \<open>Arrays of integers as tensors of torch\<close>

text \<open>
  A tensor is a shape with its elements. The functions of torch that the theorems rely on are defined on
  it as documented, and all the \<open>_ok\<close> laws hold together; what is not needed raises.
\<close>

type_synonym array = "int list \<times> int list"

definition ar_shape :: "array \<Rightarrow> int list" where
  "ar_shape t = map (max 0) (fst t)"

definition ar_cells :: "array \<Rightarrow> int list" where
  "ar_cells t = (let n = vol (ar_shape t) in take n (snd t @ List.replicate n 0))"

lemma ar_shape_eq [simp]: "\<forall>n \<in> set s. 0 \<le> n \<Longrightarrow> ar_shape (s, xs) = s"
  unfolding ar_shape_def by (induction s) auto

lemma ar_cells_eq [simp]: "\<forall>n \<in> set s. 0 \<le> n \<Longrightarrow> length xs = vol s \<Longrightarrow> ar_cells (s, xs) = xs"
  by (simp add: ar_cells_def)

lemma length_ar_cells [simp]: "length (ar_cells t) = vol (ar_shape t)"
  by (simp add: ar_cells_def Let_def min_def)

lemma ar_shape_nonneg: "n \<in> set (ar_shape t) \<Longrightarrow> 0 \<le> n"
  by (auto simp: ar_shape_def)

definition ar_split :: "array \<Rightarrow> int \<Rightarrow> int \<Rightarrow> array list res" where
  "ar_split t w dim =
     (let s = ar_shape t; d = nat dim; K = vol (drop (Suc d) s); ks = piece_sizes (nat w) (nat (s ! d)) in
      if dim < 0 \<or> length s \<le> d then Inl IndexError
      else if w < 0 \<or> w = 0 \<and> s ! d \<noteq> 0 then Inl RuntimeError
      else Inr (map2 (\<lambda>a k. (s[d := int k], cut (vol (take d s)) (nat (s ! d) * K) (a * K) (k * K) (ar_cells t))) (offsets 0 ks) ks))"

definition ar_cat :: "array list \<Rightarrow> int \<Rightarrow> array res" where
  "ar_cat ts dim =
     (let d = nat dim in
      case ts of
        [] \<Rightarrow> Inl RuntimeError
      | t # _ \<Rightarrow>
         (if dim < 0 \<or> length (ar_shape t) \<le> d then Inl IndexError
          else
           (let s = (ar_shape t)[d := sum_list (map (\<lambda>u. ar_shape u ! d) ts)] in
            if list_all (\<lambda>u. off_dim d s (ar_shape u)) ts
            then Inr (s, interleave (vol (take d s)) (map (\<lambda>u. (nat (ar_shape u ! d) * vol (drop (Suc d) s), ar_cells u)) ts))
            else Inl RuntimeError)))"

text \<open>One slice of step one among full ones; the other indices are not needed.\<close>

definition ar_getitem :: "array \<Rightarrow> array key list \<Rightarrow> array res" where
  "ar_getitem t ks =
     (let s = ar_shape t; d = length (takeWhile (\<lambda>k. k = SliceKey None None None) ks); K = vol (drop (Suc d) s) in
      if d < length s \<and> d < length ks \<and> list_all (\<lambda>k. k = SliceKey None None None) (drop (Suc d) ks) then
        (case ks ! d of
           SliceKey start (Some b) None \<Rightarrow>
             (let a = (case start of None \<Rightarrow> 0 | Some a \<Rightarrow> a) in
              if 0 \<le> a \<and> a \<le> b \<and> b \<le> s ! d
              then Inr (s[d := b - a], cut (vol (take d s)) (nat (s ! d) * K) (nat a * K) (nat (b - a) * K) (ar_cells t))
              else Inl NotImplementedError)
         | _ \<Rightarrow> Inl NotImplementedError)
      else Inl NotImplementedError)"

definition ar_setitem :: "array \<Rightarrow> array key list \<Rightarrow> array \<Rightarrow> array res" where
  "ar_setitem t ks v =
     (if ks = [EllipsisKey] \<and> ar_shape v = ar_shape t then Inr (ar_shape t, ar_cells v) else Inl NotImplementedError)"

definition ar_index_select :: "array \<Rightarrow> int \<Rightarrow> array \<Rightarrow> array res" where
  "ar_index_select t dim i =
     (case (ar_shape t, ar_shape i) of
        (n # rest, [m]) \<Rightarrow>
          (if dim = 0 \<and> list_all (\<lambda>x. 0 \<le> x \<and> x < n) (ar_cells i)
           then Inr (m # rest, concat (map (\<lambda>x. block_at (vol rest) (ar_cells t) (nat x)) (ar_cells i)))
           else Inl IndexError)
      | _ \<Rightarrow> Inl NotImplementedError)"

definition ar_index_copy :: "array \<Rightarrow> int \<Rightarrow> array \<Rightarrow> array \<Rightarrow> array res" where
  "ar_index_copy t dim i v =
     (case (ar_shape t, ar_shape i) of
        (n # rest, [m]) \<Rightarrow>
          (if dim = 0 \<and> list_all (\<lambda>x. 0 \<le> x \<and> x < n) (ar_cells i) \<and> ar_shape v = m # rest
           then Inr (n # rest, concat (map (\<lambda>p. let j = length (takeWhile (\<lambda>x. x \<noteq> int p) (ar_cells i)) in
                  if j < length (ar_cells i) then block_at (vol rest) (ar_cells v) j else block_at (vol rest) (ar_cells t) p)
                [0..<nat n]))
           else Inl IndexError)
      | _ \<Rightarrow> Inl NotImplementedError)"

definition ar_binary :: "(int \<Rightarrow> int \<Rightarrow> int) \<Rightarrow> array \<Rightarrow> array \<Rightarrow> array res" where
  "ar_binary f a b =
     (if ar_shape a = ar_shape b then Inr (ar_shape a, map2 f (ar_cells a) (ar_cells b)) else Inl RuntimeError)"

definition ar_unary :: "(int \<Rightarrow> int) \<Rightarrow> (array, nat) operator" where
  "ar_unary f ts args = (case ts of [t] \<Rightarrow> Inr (ar_shape t, map f (ar_cells t)) | _ \<Rightarrow> Inl TypeError)"

definition ar_matmul :: "array \<Rightarrow> array \<Rightarrow> array res" where
  "ar_matmul l r =
     (case (ar_shape l, ar_shape r) of
        ([m, k], [k', n]) \<Rightarrow>
          (if k = k' then Inr ([m, n], mat_mul (nat m) (nat k) (nat n) (ar_cells l) (ar_cells r)) else Inl RuntimeError)
      | _ \<Rightarrow> Inl NotImplementedError)"

definition ar_flatten :: "array \<Rightarrow> int \<Rightarrow> int \<Rightarrow> array res" where
  "ar_flatten t a b =
     (let s = ar_shape t; n = int (length s); lo = (if a < 0 then a + n else a); hi = (if b < 0 then b + n else b) in
      if 0 \<le> lo \<and> lo \<le> hi \<and> hi < n
      then Inr (take (nat lo) s @ int (vol (take (Suc (nat hi) - nat lo) (drop (nat lo) s))) # drop (Suc (nat hi)) s, ar_cells t)
      else Inl IndexError)"

definition ar_unflatten :: "array \<Rightarrow> int \<Rightarrow> int list \<Rightarrow> array res" where
  "ar_unflatten t dim sizes =
     (let s = ar_shape t; d = nat dim in
      if 0 \<le> dim \<and> d < length s \<and> list_all (\<lambda>x. 0 \<le> x) sizes \<and> s ! d = int (vol sizes)
      then Inr (take d s @ sizes @ drop (Suc d) s, ar_cells t)
      else Inl RuntimeError)"

definition ar_view :: "array \<Rightarrow> int list \<Rightarrow> array res" where
  "ar_view t s =
     (if list_all (\<lambda>x. 0 \<le> x) s \<and> vol s = vol (ar_shape t) then Inr (s, ar_cells t) else Inl RuntimeError)"

definition ar_mT :: "array \<Rightarrow> array res" where
  "ar_mT t =
     (case ar_shape t of
        [m, n] \<Rightarrow> Inr ([n, m], transposed (nat m) (nat n) (ar_cells t))
      | _ \<Rightarrow> Inl NotImplementedError)"

definition array_torch :: "(array, nat) torch" where
  "array_torch =
     \<lparr>th_shape = ar_shape, th_equal = (\<lambda>a b. ar_shape a = ar_shape b \<and> ar_cells a = ar_cells b), th_transfer = (\<lambda>i t. t),
      th_split = ar_split, th_cat = ar_cat, th_getitem = ar_getitem, th_setitem = ar_setitem,
      th_add = ar_binary (+), th_mul = ar_binary (*), th_dtype = (\<lambda>_. 0), th_to = (\<lambda>t _. Inr t),
      th_matmul = ar_matmul, th_mT = ar_mT, th_flatten = ar_flatten, th_unflatten = ar_unflatten,
      th_view = ar_view, th_reshape = (\<lambda>_ _. Inl NotImplementedError),
      th_expand = (\<lambda>_ _. Inl NotImplementedError), th_repeat = (\<lambda>_ _. Inl NotImplementedError),
      th_permute = (\<lambda>t dims. if dims = [1, 0] then ar_mT t else Inl NotImplementedError),
      th_transpose = (\<lambda>_ _ _. Inl NotImplementedError), th_unsqueeze = (\<lambda>_ _. Inl NotImplementedError),
      th_squeeze = (\<lambda>_ _. Inl NotImplementedError), th_index_select = ar_index_select,
      th_gather = (\<lambda>_ _ _. Inl NotImplementedError), th_index_copy = ar_index_copy,
      th_index_put = (\<lambda>_ _ _. Inl NotImplementedError), th_softmax = (\<lambda>_ _ _. Inl NotImplementedError),
      th_mean = (\<lambda>_ _. Inl NotImplementedError), th_interpolate = (\<lambda>_ _. Inl NotImplementedError),
      th_conv2d = (\<lambda>_ _ _ _ _. Inl NotImplementedError), th_group_norm = (\<lambda>_ _ _ _ _. Inl NotImplementedError),
      th_layer_norm = (\<lambda>_ _ _ _ _. Inl NotImplementedError), th_ones = (\<lambda>s _. (s, List.replicate (vol s) 1)),
      th_zeros = (\<lambda>s _. (s, List.replicate (vol s) 0)), th_embedding = (\<lambda>_ _. Inl NotImplementedError),
      th_attention = (\<lambda>_ _ _ _ _. Inl NotImplementedError), th_view_as_complex = (\<lambda>_. Inl NotImplementedError),
      th_view_as_real = (\<lambda>_. Inl NotImplementedError)\<rparr>"

lemmas array_torch_simps = array_torch_def torch.simps

subsection \<open>The laws\<close>

lemma array_content: "content_ok array_torch ar_cells"
  by (auto simp: content_ok_def array_torch_simps ar_shape_nonneg)

lemma array_transfer: "transfer_ok array_torch ar_cells"
  by (simp add: transfer_ok_def array_torch_simps)

lemma array_binary:
  assumes "\<And>a b. operator [a, b] [] = ar_binary f a b"
  shows "binary_ok ar_cells array_torch operator f"
  by (auto simp: binary_ok_def assms ar_binary_def array_torch_simps ar_shape_nonneg)

lemma array_add: "add_ok array_torch ar_cells"
  by (auto simp: add_ok_def ar_binary_def array_torch_simps ar_shape_nonneg)

lemma array_unary: "unary_ok ar_cells array_torch (ar_unary f) f"
  by (auto simp: unary_ok_def ar_unary_def array_torch_simps ar_shape_nonneg)

lemma array_shape: "th_shape array_torch = ar_shape" by (simp add: array_torch_simps)

lemma array_cat: "cat_ok array_torch ar_cells"
proof -
  have "\<exists>t. ar_cat ts (int d) = Inr t \<and> ar_shape t = s \<and> ar_cells t = joined array_torch ar_cells d s ts"
    if al: "along array_torch d s ts" for d s ts
  proof -
    from al obtain t ts' where ts: "ts = t # ts'" by (cases ts) (auto simp: along_def)
    have off: "off_dim d s (ar_shape u)" if "u \<in> set ts" for u using al that by (simp add: along_def array_shape)
    have d: "d < length s" and sum: "s ! d = sum_list (map (\<lambda>u. ar_shape u ! d) ts)" using al by (simp_all add: along_def array_shape)
    have "ar_shape t = s[d := ar_shape t ! d]" using off [of t] ts by (simp add: off_dim_def)
    then have s: "(ar_shape t)[d := s ! d] = s" by (metis list_update_id list_update_overwrite)
    have len: "length (ar_shape t) = length s" using off [of t] ts by (auto dest: off_dim_length)
    have "0 \<le> ar_shape u ! d" if "u \<in> set ts" for u
      using off_dim_length [OF off [OF that]] d ar_shape_nonneg [of "ar_shape u ! d" u] by simp
    then have "0 \<le> s ! d" unfolding sum by (intro sum_list_nonneg) auto
    moreover have "0 \<le> s ! i" if "i < length s" "i \<noteq> d" for i
    proof -
      have "s ! i = ar_shape t ! i" using that off [of t] ts by (metis list.set_intros(1) nth_list_update_neq off_dim_def)
      then show ?thesis using ar_shape_nonneg [of "ar_shape t ! i" t] that len by simp
    qed
    ultimately have nonneg: "\<forall>n \<in> set s. 0 \<le> n" by (metis in_set_conv_nth)
    have "length (joined array_torch ar_cells d s ts) = vol s"
      unfolding joined_def length_interleave [OF fits_parts_along [OF array_content al]] along_vol [OF array_content al]
      by (simp add: parts_along_def o_def)
    moreover have "ar_cat ts (int d) = Inr (s, joined array_torch ar_cells d s ts)"
      using ts d len s sum off by (auto simp: ar_cat_def Let_def list_all_iff joined_def parts_along_def array_shape)
    ultimately show ?thesis using nonneg by simp
  qed
  then show ?thesis by (simp add: cat_ok_def array_torch_simps)
qed

lemma array_matmul: "matmul_ok array_torch ar_cells"
  unfolding matmul_ok_def array_torch_simps
proof (intro allI impI)
  fix l r :: array and m k k' n
  assume l: "ar_shape l = [m, k]" and r: "ar_shape r = [k', n]"
  have nonneg: "0 \<le> m" "0 \<le> k" "0 \<le> n" using ar_shape_nonneg [of _ l] ar_shape_nonneg [of _ r] l r by auto
  have "length (mat_mul (nat m) (nat k) (nat n) (ar_cells l) (ar_cells r)) = nat m * nat n" if "k = k'"
    using that l r by (intro length_mat_mul) simp_all
  with l r nonneg show "if k = k' then \<exists>t. ar_matmul l r = Inr t \<and> ar_shape t = [m, n] \<and>
      ar_cells t = mat_mul (nat m) (nat k) (nat n) (ar_cells l) (ar_cells r) else \<exists>e. ar_matmul l r = Inl e"
    by (simp add: ar_matmul_def)
qed

lemma ar_flatten_mid:
  assumes t: "ar_shape t = pre @ mid @ post" and mid: "mid \<noteq> []"
  shows "\<exists>r. ar_flatten t (int (length pre)) (int (length pre + length mid) - 1) = Inr r \<and>
    ar_shape r = pre @ int (vol mid) # post \<and> ar_cells r = ar_cells t"
proof -
  obtain m where m: "length mid = Suc m" using mid by (cases mid) auto
  have nonneg: "\<forall>n \<in> set (pre @ int (vol mid) # post). 0 \<le> n" using ar_shape_nonneg [of _ t] t by auto
  have "length (ar_cells t) = vol (pre @ int (vol mid) # post)" using t by simp
  moreover have "nat (int (length pre + length mid) - 1) = length pre + m" using m by simp
  ultimately show ?thesis using nonneg t m by (auto simp: ar_flatten_def Let_def)
qed

lemma array_flatten: "flatten_ok array_torch ar_cells"
  unfolding flatten_ok_def array_torch_simps
proof (intro allI impI)
  fix t :: array and pre k
  assume t: "ar_shape t = pre @ [k]" and pre: "pre \<noteq> []"
  have "ar_flatten t 0 (- 2) = ar_flatten t (int (length [])) (int (length [] + length pre) - 1)"
    using pre t by (cases pre) (auto simp: ar_flatten_def Let_def nat_diff_distrib)
  with ar_flatten_mid [of t "[]" pre "[k]"] t pre show "\<exists>r. ar_flatten t 0 (- 2) = Inr r \<and> ar_shape r = [int (vol pre), k] \<and> ar_cells r = ar_cells t"
    by simp
qed

lemma ar_unflatten_mid:
  assumes t: "ar_shape t = pre @ int (vol sizes) # post" and sizes: "\<forall>x \<in> set sizes. 0 \<le> x"
  shows "\<exists>r. ar_unflatten t (int (length pre)) sizes = Inr r \<and> ar_shape r = pre @ sizes @ post \<and> ar_cells r = ar_cells t"
proof -
  have nonneg: "\<forall>n \<in> set (pre @ sizes @ post). 0 \<le> n" using ar_shape_nonneg [of _ t] t sizes by auto
  have "length (ar_cells t) = vol (pre @ sizes @ post)" using t by simp
  with nonneg t sizes show ?thesis by (auto simp: ar_unflatten_def Let_def list_all_iff)
qed

lemma array_unflatten: "unflatten_ok array_torch ar_cells"
  unfolding unflatten_ok_def array_torch_simps
proof (intro allI impI)
  fix t :: array and pre n
  assume t: "ar_shape t = [int (vol pre), n]" and pre: "\<forall>x \<in> set pre. 0 \<le> x"
  show "\<exists>r. ar_unflatten t 0 pre = Inr r \<and> ar_shape r = pre @ [n] \<and> ar_cells r = ar_cells t"
    using ar_unflatten_mid [of t "[]" pre "[n]"] t pre by simp
qed

lemma array_transpose: "transpose_ok array_torch ar_cells"
  unfolding transpose_ok_def array_torch_simps
proof (intro allI impI)
  fix t :: array and m n
  assume t: "ar_shape t = [m, n]"
  have nonneg: "0 \<le> m" "0 \<le> n" using ar_shape_nonneg [of _ t] t by auto
  then have "\<exists>r. ar_mT t = Inr r \<and> ar_shape r = [n, m] \<and> ar_cells r = transposed (nat m) (nat n) (ar_cells t)"
    using t by (simp add: ar_mT_def mult.commute)
  then show "(\<exists>r. (if [1, 0] = [1, 0 :: int] then ar_mT t else Inl NotImplementedError) = Inr r \<and> ar_shape r = [n, m] \<and>
        ar_cells r = transposed (nat m) (nat n) (ar_cells t)) \<and>
      (\<exists>r. ar_mT t = Inr r \<and> ar_shape r = [n, m] \<and> ar_cells r = transposed (nat m) (nat n) (ar_cells t))" by simp
qed

lemma ar_cut:
  assumes t: "ar_shape t = s" and d: "d < length s" and bound: "a + k \<le> nat (s ! d)"
  shows "ar_shape (s[d := int k], cut (vol (take d s)) (nat (s ! d) * vol (drop (Suc d) s)) (a * vol (drop (Suc d) s)) (k * vol (drop (Suc d) s)) (ar_cells t)) =
      s[d := int k] \<and>
    ar_cells (s[d := int k], cut (vol (take d s)) (nat (s ! d) * vol (drop (Suc d) s)) (a * vol (drop (Suc d) s)) (k * vol (drop (Suc d) s)) (ar_cells t)) =
      cut (vol (take d s)) (nat (s ! d) * vol (drop (Suc d) s)) (a * vol (drop (Suc d) s)) (k * vol (drop (Suc d) s)) (ar_cells t)"
proof -
  have nonneg: "\<forall>n \<in> set (s[d := int k]). 0 \<le> n"
    using t ar_shape_nonneg [of _ t] set_update_subset_insert [of s d "int k"] by fastforce
  have "a * vol (drop (Suc d) s) + k * vol (drop (Suc d) s) \<le> nat (s ! d) * vol (drop (Suc d) s)"
    using bound by (metis add_mult_distrib mult_le_mono1)
  from length_cut [OF _ this, of "ar_cells t" "vol (take d s)"] show ?thesis
    using nonneg t d vol_split [OF d] vol_split [of d "s[d := int k]"] by (simp add: mult.assoc)
qed

lemma array_split: "split_ok array_torch ar_cells"
  unfolding split_ok_def array_torch_simps
proof (intro allI impI)
  fix t :: array and w :: int and d
  assume d: "d < length (ar_shape t)" and w: "0 \<le> w" "ar_shape t ! d \<noteq> 0 \<longrightarrow> 0 < w"
  let ?s = "ar_shape t" let ?K = "vol (drop (Suc d) ?s)" let ?ks = "piece_sizes (nat w) (nat (?s ! d))"
  let ?f = "\<lambda>a k. (?s[d := int k], cut (vol (take d ?s)) (nat (?s ! d) * ?K) (a * ?K) (k * ?K) (ar_cells t))"
  have split: "ar_split t w (int d) = Inr (map2 ?f (offsets 0 ?ks) ?ks)"
    using d w by (auto simp: ar_split_def Let_def)
  have each: "ar_shape (?f a k) = ?s[d := int k] \<and>
      ar_cells (?f a k) = cut (vol (take d ?s)) (nat (?s ! d) * ?K) (a * ?K) (k * ?K) (ar_cells t)"
    if "(a, k) \<in> set (zip (offsets 0 ?ks) ?ks)" for a k
  proof -
    have "a + k \<le> nat (?s ! d)" using offsets_bound [OF that] by (simp add: sum_piece_sizes)
    from ar_cut [OF refl d this] show ?thesis .
  qed
  have "map ar_shape (map2 ?f (offsets 0 ?ks) ?ks) = map (\<lambda>k. ?s[d := int k]) ?ks"
  proof -
    have "map ar_shape (map2 ?f (offsets 0 ?ks) ?ks) = map2 (\<lambda>a k. ?s[d := int k]) (offsets 0 ?ks) ?ks"
      unfolding map_map o_def split_def by (intro map_cong refl) (use each in force)
    also have "\<dots> = map (\<lambda>k. ?s[d := int k]) ?ks" by (intro nth_equalityI) simp_all
    finally show ?thesis .
  qed
  moreover have "map ar_cells (map2 ?f (offsets 0 ?ks) ?ks) =
      map2 (\<lambda>a k. cut (vol (take d ?s)) (nat (?s ! d) * ?K) (a * ?K) (k * ?K) (ar_cells t)) (offsets 0 ?ks) ?ks"
    unfolding map_map o_def split_def by (intro map_cong refl) (use each in force)
  ultimately show "let s = ?s; K = vol (drop (Suc d) s); ks = piece_sizes (nat w) (nat (s ! d)) in
      \<exists>ts. ar_split t w (int d) = Inr ts \<and> map ar_shape ts = map (\<lambda>k. s[d := int k]) ks \<and>
        map ar_cells ts = map2 (\<lambda>a k. cut (vol (take d s)) (nat (s ! d) * K) (a * K) (k * K) (ar_cells t)) (offsets 0 ks) ks"
    using split by (simp add: Let_def)
qed

lemma takeWhile_replicate_update:
  assumes "\<not> P k" and "P x" and "d < n"
  shows "takeWhile P ((List.replicate n x)[d := k]) = List.replicate d x"
proof -
  have "(List.replicate n x)[d := k] = List.replicate d x @ k # List.replicate (n - Suc d) x"
    using assms(3) by (simp add: upd_conv_take_nth_drop)
  moreover have "takeWhile P (List.replicate d x @ k # ys) = List.replicate d x" for ys
    using assms(1,2) by (induction d) simp_all
  ultimately show ?thesis by simp
qed

lemma array_narrow: "narrow_ok array_torch ar_cells"
  unfolding narrow_ok_def array_torch_simps
proof (intro allI impI)
  fix t :: array and d a b :: nat
  assume d: "d < length (ar_shape t)" and ab: "a \<le> b" "int b \<le> ar_shape t ! d"
  let ?s = "ar_shape t" let ?K = "vol (drop (Suc d) ?s)"
  let ?ks = "(List.replicate (length ?s) (SliceKey None None None :: array key))[d := SliceKey (Some (int a)) (Some (int b)) None]"
  let ?r = "(?s[d := int (b - a)], cut (vol (take d ?s)) (nat (?s ! d) * ?K) (a * ?K) ((b - a) * ?K) (ar_cells t))"
  have tw: "takeWhile (\<lambda>k. k = SliceKey None None None) ?ks = List.replicate d (SliceKey None None None)"
    using d by (intro takeWhile_replicate_update) simp_all
  have "ar_getitem t ?ks = Inr ?r"
    using d ab unfolding ar_getitem_def tw by (simp add: Let_def list_all_iff nat_diff_distrib flip: of_nat_diff)
  with ar_cut [OF refl d, of a "b - a"] ab show "let s = ?s; K = vol (drop (Suc d) s) in
      \<exists>r. ar_getitem t ((List.replicate (length s) (SliceKey None None None))[d := SliceKey (Some (int a)) (Some (int b)) None]) = Inr r \<and>
        ar_shape r = s[d := int (b - a)] \<and> ar_cells r = cut (vol (take d s)) (nat (s ! d) * K) (a * K) ((b - a) * K) (ar_cells t)"
    by (simp add: Let_def)
qed

lemma array_to: "to_ok array_torch ar_cells"
  by (simp add: to_ok_def array_torch_simps)

lemma array_torch_matmul: "torch_matmul_ok array_torch ar_cells"
  unfolding torch_matmul_ok_def
  by (intro conjI array_content array_to array_flatten array_unflatten array_matmul)

lemma array_torch_shard: "torch_shard_ok array_torch ar_cells"
  unfolding torch_shard_ok_def
  by (intro conjI array_transfer array_cat array_add array_split array_narrow)

lemma array_torch_ffn: "torch_ffn_ok array_torch ar_cells (ar_unary f) f"
  unfolding torch_ffn_ok_def
  by (intro conjI array_torch_matmul array_torch_shard array_transpose array_unary array_binary)
    (simp add: torch_mul_def array_torch_simps)

subsection \<open>Split arrays\<close>

definition split_arrays :: "int list \<Rightarrow> nat \<Rightarrow> array list \<Rightarrow> array sharded" where
  "split_arrays s d ts =
     \<lparr>sh_class = SplitPrimitiveTensor, sh_name = [], sh_shape = s, sh_dim = Some (int d),
      sh_shards = map (\<lambda>t. new_prim array_torch t []) ts\<rparr>"

lemma represents_split_arrays:
  "represents_sharded array_torch ar_cells (split_arrays s d ts) s xs \<longleftrightarrow>
     along array_torch d s ts \<and> joined array_torch ar_cells d s ts = xs"
proof -
  have "shard_data (split_arrays s d ts) = ts" by (simp add: split_arrays_def shard_data_def new_prim_def o_def)
  then show ?thesis
    by (auto simp: represents_sharded_def split_arrays_def new_prim_def valid_shard_def along_def)
qed

definition no_quantization :: "(array, unit, unit) quantization" where
  "no_quantization =
     \<lparr>qz_quantize = (\<lambda>_ _. Inl NotImplementedError), qz_dequant = (\<lambda>_. Inl NotImplementedError),
      qz_linear = (\<lambda>_ _ _. Inl NotImplementedError)\<rparr>"

end
