(* ===== verification/Tn_Sharding.thy ===== *)
theory Tn_Sharding
  imports Tn_Sharded_Ops Theta_Tree
begin

section \<open>Sharding specifications and the resharding of parameter trees\<close>

text \<open>
  Model of \<open>sharktank/types/sharding.py\<close>, of the specifications of the Llama and punet models
  (\<open>models/llama/sharding.py\<close>, \<open>models/punet/sharding.py\<close>) and of \<open>reshard\<close> in
  \<open>ops/sharded_impls.py\<close>.
\<close>

subsection \<open>Specifications\<close>

text \<open>\<open>Split\<close> has the number of shards and the dimension; an ignored tensor or branch is left out.\<close>

datatype tensor_sharding = Unsharded | Replicated int | Split int int | Ignore

fun sharding_shard_count :: "tensor_sharding \<Rightarrow> int" where
  "sharding_shard_count Unsharded = 1"
| "sharding_shard_count (Replicated n) = n"
| "sharding_shard_count (Split n dim) = n"
| "sharding_shard_count Ignore = 0"

datatype shard_spec = TensorSpec tensor_sharding | ThetaSpec "(string \<times> shard_spec) list"

type_synonym shard_dict = "(string \<times> shard_spec) list"

text \<open>\<open>flat_to_nested_dict\<close> on specifications.\<close>

fun add_spec :: "string list \<Rightarrow> shard_spec \<Rightarrow> shard_dict \<Rightarrow> shard_dict res" where
  "add_spec [] v current = Inr current"
| "add_spec [last_part] v current = Inr (AList.update last_part v current)"
| "add_spec (part # q # parts) v current =
     (let current1 = (if map_of current part = None then AList.update part (ThetaSpec []) current else current) in
      case map_of current1 part of
        Some (ThetaSpec child) \<Rightarrow>
          res_bind (add_spec (q # parts) v child) (\<lambda>child1. Inr (AList.update part (ThetaSpec child1) current1))
      | _ \<Rightarrow> Inl AssertionError)"

fun nest_specs :: "shard_dict \<Rightarrow> shard_dict \<Rightarrow> shard_dict res" where
  "nest_specs nested [] = Inr nested"
| "nest_specs nested ((name, v) # flat) =
     res_bind (add_spec (str_split ''.'' name) v nested) (\<lambda>nested1. nest_specs nested1 flat)"

text \<open>
  \<open>ThetaSharding(d)\<close> nests the dictionary and then converts every dictionary in it, the inner ones
  first. The constructor runs again over what it has built; names have no dots there any more and it
  changes nothing.
\<close>

fun map_spec_nodes :: "shard_spec \<Rightarrow> shard_spec res" and map_spec_items :: "shard_dict \<Rightarrow> shard_dict res" where
  "map_spec_nodes (TensorSpec s) = Inr (TensorSpec s)"
| "map_spec_nodes (ThetaSpec d) =
     res_bind (map_spec_items d) (\<lambda>d1. res_bind (nest_specs [] d1) (\<lambda>d2. Inr (ThetaSpec d2)))"
| "map_spec_items [] = Inr []"
| "map_spec_items ((k, v) # rest) =
     res_bind (map_spec_nodes v) (\<lambda>v1. res_bind (map_spec_items rest) (\<lambda>r. Inr ((k, v1) # r)))"

definition theta_sharding_of :: "shard_dict \<Rightarrow> shard_dict res" where
  "theta_sharding_of d = res_bind (nest_specs [] d) map_spec_items"

text \<open>A specification whose items are specifications of layers.\<close>

definition theta_sharding_of_layers :: "(string \<times> shard_dict res) list \<Rightarrow> shard_dict res" where
  "theta_sharding_of_layers items =
     res_bind (res_map (\<lambda>(k, r). res_bind r (\<lambda>d. Inr (k, ThetaSpec d))) items) theta_sharding_of"

definition conv2d_split_output_channel_sharding :: "int \<Rightarrow> shard_dict res" where
  "conv2d_split_output_channel_sharding n =
     theta_sharding_of [(''weight'', TensorSpec (Split n 0)), (''bias'', TensorSpec (Split n 0))]"

definition group_norm_split_channel_sharding :: "int \<Rightarrow> shard_dict res" where
  "group_norm_split_channel_sharding n =
     theta_sharding_of [(''weight'', TensorSpec (Split n 0)), (''bias'', TensorSpec (Split n 0))]"

definition linear_layer_sharding :: "tensor_sharding \<Rightarrow> tensor_sharding \<Rightarrow> tensor_sharding \<Rightarrow> shard_dict res" where
  "linear_layer_sharding premul_input weight bias =
     theta_sharding_of [(''premul_input'', TensorSpec premul_input), (''weight'', TensorSpec weight),
                        (''bias'', TensorSpec bias)]"

definition linear_split_parallel_weight_and_bias_sharding :: "int \<Rightarrow> int \<Rightarrow> shard_dict res" where
  "linear_split_parallel_weight_and_bias_sharding n spit_dim =
     linear_layer_sharding (Replicated n) (Split n spit_dim) (Split n spit_dim)"

definition linear_split_reduction_dim_sharding :: "int \<Rightarrow> shard_dict res" where
  "linear_split_reduction_dim_sharding n = linear_layer_sharding (Replicated n) (Split n 1) (Replicated n)"

definition rms_norm_replicated_sharding :: "int \<Rightarrow> shard_dict res" where
  "rms_norm_replicated_sharding n = theta_sharding_of [(''weight'', TensorSpec (Replicated n))]"

definition token_embedding_layer_replicated_sharding :: "int \<Rightarrow> shard_dict res" where
  "token_embedding_layer_replicated_sharding n = theta_sharding_of [(''weight'', TensorSpec (Replicated n))]"

definition ffn_sharding :: "int \<Rightarrow> shard_dict res" where
  "ffn_sharding n =
     theta_sharding_of_layers
      [(''ffn_gate'', linear_split_parallel_weight_and_bias_sharding n 0),
       (''ffn_up'', linear_split_parallel_weight_and_bias_sharding n 0),
       (''ffn_down'', linear_split_reduction_dim_sharding n)]"

subsection \<open>The models\<close>

definition dict_update :: "shard_dict \<Rightarrow> shard_dict \<Rightarrow> shard_dict" where
  "dict_update d items = fold (\<lambda>(k, v). AList.update k v) items d"

definition paged_llama_attention_block_sharding :: "int \<Rightarrow> shard_dict res" where
  "paged_llama_attention_block_sharding n =
     theta_sharding_of_layers
      [(''attn_norm'', rms_norm_replicated_sharding n),
       (''attn_q'', linear_split_parallel_weight_and_bias_sharding n 0),
       (''attn_k'', linear_split_parallel_weight_and_bias_sharding n 0),
       (''attn_v'', linear_split_parallel_weight_and_bias_sharding n 0),
       (''attn_output'', linear_split_reduction_dim_sharding n)]"

definition attention_ffn_block_sharding :: "int \<Rightarrow> shard_dict res" where
  "attention_ffn_block_sharding n =
     res_bind (paged_llama_attention_block_sharding n) (\<lambda>result.
     res_bind (ffn_sharding n) (\<lambda>ffn.
     res_bind (rms_norm_replicated_sharding n) (\<lambda>norm.
       Inr (dict_update (dict_update result ffn) [(''ffn_norm'', ThetaSpec norm)]))))"

definition llama_sharding :: "int \<Rightarrow> nat \<Rightarrow> shard_dict res" where
  "llama_sharding n attention_block_count =
     res_bind (token_embedding_layer_replicated_sharding n) (\<lambda>token_embd.
     res_bind (rms_norm_replicated_sharding n) (\<lambda>output_norm.
     res_bind (linear_split_reduction_dim_sharding n) (\<lambda>output.
     res_bind (theta_sharding_of
       [(''token_embd'', ThetaSpec token_embd), (''rope_freqs'', TensorSpec Ignore),
        (''output_norm'', ThetaSpec output_norm), (''output'', ThetaSpec output)]) (\<lambda>result.
     res_bind (theta_sharding_of_layers
       (map (\<lambda>i. (nat_str i, attention_ffn_block_sharding n)) [0..<attention_block_count])) (\<lambda>blk.
       Inr (dict_update result [(''blk'', ThetaSpec blk)]))))))"

definition resnet_block_2d_split_output_channels_sharding :: "int \<Rightarrow> shard_dict res" where
  "resnet_block_2d_split_output_channels_sharding n =
     theta_sharding_of_layers
      [(''norm1'', group_norm_split_channel_sharding n),
       (''conv1'', conv2d_split_output_channel_sharding n),
       (''norm2'', group_norm_split_channel_sharding n),
       (''conv2'', conv2d_split_output_channel_sharding n),
       (''time_emb_proj'', linear_split_parallel_weight_and_bias_sharding n 0),
       (''conv_shortcut'', conv2d_split_output_channel_sharding n)]"

definition up_down_sample_2d_split_channel_sharding :: "int \<Rightarrow> shard_dict res" where
  "up_down_sample_2d_split_channel_sharding n =
     theta_sharding_of_layers [(''conv'', conv2d_split_output_channel_sharding n)]"

definition up_down_block_2d_split_channels_sharding :: "int \<Rightarrow> nat \<Rightarrow> nat \<Rightarrow> nat \<Rightarrow> shard_dict res" where
  "up_down_block_2d_split_channels_sharding n resnet_layers_count upsamplers_count downsamplers_count =
     theta_sharding_of_layers
      (map (\<lambda>i. (''upsamplers.'' @ nat_str i, up_down_sample_2d_split_channel_sharding n)) [0..<upsamplers_count] @
       map (\<lambda>i. (''downsamplers.'' @ nat_str i, up_down_sample_2d_split_channel_sharding n)) [0..<downsamplers_count] @
       map (\<lambda>i. (''resnets.'' @ nat_str i, resnet_block_2d_split_output_channels_sharding n)) [0..<resnet_layers_count])"

subsection \<open>Resharding\<close>

definition reshard_tensor :: "('t, 'o) torch \<Rightarrow> 't any_tensor \<Rightarrow> tensor_sharding \<Rightarrow> 't any_tensor res" where
  "reshard_tensor T input spec =
     (case spec of
        Split n dim \<Rightarrow>
          (if is_plain input then res_bind (reshard_split_unsharded T input dim n) (\<lambda>r. Inr (Sharded r))
           else Inl NotImplementedError)
      | Unsharded \<Rightarrow> unshard T input
      | Replicated n \<Rightarrow> res_bind (op_replicate T input n) (\<lambda>r. Inr (Sharded r))
      | Ignore \<Rightarrow> Inl NotImplementedError)"

text \<open>The result gets the name of the tensor; a tensor of torch is boxed.\<close>

definition named_result :: "('t, 'o) torch \<Rightarrow> string \<Rightarrow> 't any_tensor \<Rightarrow> 't any_tensor" where
  "named_result T name r =
     (case r of
        Torch t \<Rightarrow> Prim (new_prim T t name)
      | Prim p \<Rightarrow> Prim (p\<lparr>pt_name := name\<rparr>)
      | Sharded s \<Rightarrow> Sharded (set_sharded_name name s))"

text \<open>
  A tree has the distinct names without dots that its constructor makes, so the item of a name is what
  calling the tree with it gives. A subtree with the specification of a tensor, or the converse, has no
  override.
\<close>

fun reshard_items :: "('t, 'o) torch \<Rightarrow> shard_dict \<Rightarrow> 't any_tensor pdict \<Rightarrow> 't any_tensor pdict res" where
  "reshard_items T spec [] = Inr []"
| "reshard_items T spec ((k, v) # rest) =
     (case map_of spec k of
        None \<Rightarrow> Inl KeyError
      | Some sp \<Rightarrow>
         (if sp = TensorSpec Ignore then reshard_items T spec rest
          else
            res_bind
             (case (v, sp) of
                (PDict d, ThetaSpec sd) \<Rightarrow>
                  res_bind (reshard_items T sd d) (\<lambda>r. res_bind (theta_of_dict r) (\<lambda>r1. Inr (PDict r1)))
              | (PTensor it, TensorSpec s) \<Rightarrow>
                  res_bind (reshard_tensor T (it_data it) s)
                    (\<lambda>r. Inr (PTensor (it\<lparr>it_data := named_result T (it_name it) r\<rparr>)))
              | (PTensor it, ThetaSpec _) \<Rightarrow> Inl NotImplementedError
              | (PDict d, TensorSpec _) \<Rightarrow> Inl NotImplementedError
              | _ \<Rightarrow> Inl TypeError)
             (\<lambda>v1. res_bind (reshard_items T spec rest) (\<lambda>r. Inr ((k, v1) # r)))))"

definition reshard_theta :: "('t, 'o) torch \<Rightarrow> shard_dict \<Rightarrow> 't any_tensor pdict \<Rightarrow> 't any_tensor pdict res" where
  "reshard_theta T spec tree = res_bind (reshard_items T spec tree) theta_of_dict"

text \<open>\<open>shard_theta\<close> of the Llama model, with the two numbers of its configuration.\<close>

definition shard_theta ::
  "('t, 'o) torch \<Rightarrow> int \<Rightarrow> nat \<Rightarrow> 't any_tensor pdict \<Rightarrow> 't any_tensor pdict res" where
  "shard_theta T tensor_parallelism_size block_count tree =
     res_bind (llama_sharding tensor_parallelism_size block_count) (\<lambda>spec. reshard_theta T spec tree)"

end
