(* ===== verification/Tn_Shard_Properties.thy ===== *)
theory Tn_Shard_Properties
  imports Tn_Arrays Tn_Sharding
begin

section \<open>Properties of sharded tensors\<close>

text \<open>
  What the operations on sharded tensors compute, told by the plain tensors that \<open>unshard\<close> gives back.
\<close>

subsection \<open>Resharding\<close>

text \<open>The shares of \<open>n\<close> shards of \<open>m\<close> rows are rounded up; the pieces then are \<open>n\<close> in number.\<close>

definition splits_into :: "int \<Rightarrow> int \<Rightarrow> bool" where
  "splits_into m n \<longleftrightarrow> (if m = 0 then n = 1 else ceil_div m (ceil_div m n) = n)"

lemma reshard_split:
  fixes cells :: "'t \<Rightarrow> 'a::semiring_0 list"
  assumes ok: "content_ok T cells" "torch_shard_ok T cells" and x: "represents T cells x s A" "is_plain x"
    and d: "d < length s" and n: "0 < n" and fit: "splits_into (s ! d) n"
  shows "\<exists>y. reshard_tensor T x (Split n (int d)) = Inr (Sharded y) \<and> represents_sharded T cells y s A \<and> is_split y \<and>
    sh_dim y = Some (int d) \<and> shard_count y = n \<and>
    map (\<lambda>t. th_shape T t ! d) (shard_data y) = map int (piece_sizes (nat (ceil_div (s ! d) n)) (nat (s ! d)))"
proof -
  obtain t where t: "unbox_tensor x = Inr t" "th_shape T t = s" "cells t = A" using unbox_represents [OF x] by blast
  from ok(2) have laws: "transfer_ok T cells" "split_ok T cells" by (simp_all add: torch_shard_ok_def)
  from split_represents [OF ok(1) laws t d n] obtain y where
    y: "op_reshard_split T x (int d) n = Inr y" "represents_sharded T cells y s A"
      "sh_class y = SplitPrimitiveTensor" "sh_dim y = Some (int d)" "shard_count y = n"
      "map (th_shape T) (shard_data y) = map (\<lambda>k. s[d := int k]) (piece_sizes (nat (ceil_div (s ! d) n)) (nat (s ! d)))"
    unfolding if_P [OF fit [unfolded splits_into_def]] by blast
  have "map (\<lambda>t. th_shape T t ! d) (shard_data y) = map (\<lambda>s. s ! d) (map (th_shape T) (shard_data y))" by simp
  also have "\<dots> = map int (piece_sizes (nat (ceil_div (s ! d) n)) (nat (s ! d)))" unfolding y(6) using d by simp
  finally have sizes: "map (\<lambda>t. th_shape T t ! d) (shard_data y) = map int (piece_sizes (nat (ceil_div (s ! d) n)) (nat (s ! d)))" .
  have "op_reshard_split T x (int d) n = reshard_split_unsharded T x (int d) n"
    using x(2) by (cases x) (simp_all add: op_reshard_split_def is_plain_def)
  with y(1) have "reshard_split_unsharded T x (int d) n = Inr y" by simp
  with x(2) have "reshard_tensor T x (Split n (int d)) = Inr (Sharded y)" by (simp add: reshard_tensor_def)
  with y sizes show ?thesis by (simp add: is_split_def)
qed

lemma reshard_split_fails:
  fixes cells :: "'t \<Rightarrow> 'a::semiring_0 list"
  assumes ok: "content_ok T cells" "torch_shard_ok T cells" and x: "represents T cells x s A" "is_plain x"
    and d: "d < length s" and n: "0 < n" and fit: "\<not> splits_into (s ! d) n"
  shows "reshard_tensor T x (Split n (int d)) = Inl AssertionError"
proof -
  obtain t where t: "unbox_tensor x = Inr t" "th_shape T t = s" "cells t = A" using unbox_represents [OF x] by blast
  from ok(2) have laws: "transfer_ok T cells" "split_ok T cells" by (simp_all add: torch_shard_ok_def)
  have "op_reshard_split T x (int d) n = reshard_split_unsharded T x (int d) n"
    using x(2) by (cases x) (simp_all add: op_reshard_split_def is_plain_def)
  with split_represents [OF ok(1) laws t d n, unfolded if_not_P [OF fit [unfolded splits_into_def]]] x(2)
  show ?thesis by (simp add: reshard_tensor_def)
qed

lemma unshard_back:
  fixes cells :: "'t \<Rightarrow> 'a::semiring_0 list"
  assumes "torch_shard_ok T cells" and "represents T cells x s A"
  shows "\<exists>y. unshard T x = Inr y \<and> is_plain y \<and> represents T cells y s A"
  using assms by (intro unshard_represents) (simp_all add: torch_shard_ok_def)

text \<open>
  C15: Splitting a plain tensor into \<open>n\<close> shards along a dimension raises an AssertionError unless rounding up
  the share of a shard leaves exactly \<open>n\<close> nonempty pieces; if it does not raise, every shard but the last has
  that share, and unsharding gives the tensor back.
\<close>

theorem split_unshard_roundtrip:
  fixes cells :: "'t \<Rightarrow> 'a::semiring_0 list"
  assumes "content_ok T cells" and "torch_shard_ok T cells" and "represents T cells x s A" and "is_plain x"
    and "d < length s" and "0 < n"
  shows "if splits_into (s ! d) n
    then \<exists>y. reshard_tensor T x (Split n (int d)) = Inr (Sharded y) \<and> shard_count y = n \<and>
      map (\<lambda>t. th_shape T t ! d) (shard_data y) = map int (piece_sizes (nat (ceil_div (s ! d) n)) (nat (s ! d))) \<and>
      (\<exists>z. unshard T (Sharded y) = Inr z \<and> is_plain z \<and> represents T cells z s A)
    else reshard_tensor T x (Split n (int d)) = Inl AssertionError"
proof (cases "splits_into (s ! d) n")
  case True
  from reshard_split [OF assms True] obtain y where y: "reshard_tensor T x (Split n (int d)) = Inr (Sharded y)"
    "represents_sharded T cells y s A" "shard_count y = n"
    "map (\<lambda>t. th_shape T t ! d) (shard_data y) = map int (piece_sizes (nat (ceil_div (s ! d) n)) (nat (s ! d)))" by blast
  moreover have "\<exists>z. unshard T (Sharded y) = Inr z \<and> is_plain z \<and> represents T cells z s A"
    using unshard_back [OF assms(2), of "Sharded y"] y(2) by simp
  ultimately show ?thesis using True by auto
next
  case False
  with reshard_split_fails [OF assms False] show ?thesis by simp
qed

theorem split_unshard_roundtrip_witness:
  "\<exists>y z. reshard_tensor array_torch (Torch ([3, 2], [1, 2, 3, 4, 5, 6])) (Split 2 0) = Inr (Sharded y) \<and>
     shard_count y = 2 \<and> map (\<lambda>t. ar_shape t ! 0) (shard_data y) = [2, 1] \<and>
     unshard array_torch (Sharded y) = Inr z \<and> represents array_torch ar_cells z [3, 2] [1, 2, 3, 4, 5, 6]"
proof -
  have "represents array_torch ar_cells (Torch ([3, 2], [1, 2, 3, 4, 5, 6])) [3, 2] [1, 2, 3, 4, 5, 6]"
    by (simp add: array_torch_simps)
  from split_unshard_roundtrip [OF array_content array_torch_shard this, of 0 2]
  have "\<exists>y. reshard_tensor array_torch (Torch ([3, 2], [1, 2, 3, 4, 5, 6])) (Split 2 0) = Inr (Sharded y) \<and> shard_count y = 2 \<and>
      map (\<lambda>t. th_shape array_torch t ! 0) (shard_data y) = map int (piece_sizes 2 3) \<and>
      (\<exists>z. unshard array_torch (Sharded y) = Inr z \<and> is_plain z \<and> represents array_torch ar_cells z [3, 2] [1, 2, 3, 4, 5, 6])"
    by (simp add: is_plain_def splits_into_def ceil_div_def)
  moreover have "map int (piece_sizes 2 3) = [2, 1]" by code_simp
  ultimately show ?thesis by (auto simp: array_shape)
qed

text \<open>
  A replicated tensor that is split into its \<open>n\<close> shards along a dimension of size \<open>m\<close> keeps only the first
  \<open>m div n * n\<close> rows: every shard takes \<open>m div n\<close> of them, and unsharding gives the rest no more, while
  splitting the same tensor before it is replicated gives all rows back or raises.
\<close>

theorem split_replicated_drops_rows:
  fixes cells :: "'t \<Rightarrow> 'a::semiring_0 list"
  assumes ok: "content_ok T cells" "torch_shard_ok T cells" and x: "represents T cells x s A" "is_plain x"
    and d: "d < length s" and n: "0 < n"
  shows "\<exists>r y z. op_replicate T x (int n) = Inr r \<and> reshard_split_replicated T r (int d) (int n) = Inr y \<and>
    unshard T (Sharded y) = Inr z \<and> is_plain z \<and>
    represents T cells z (s[d := s ! d div int n * int n])
      (cut (vol (take d s)) (nat (s ! d) * vol (drop (Suc d) s)) 0 (nat (s ! d) div n * n * vol (drop (Suc d) s)) A)"
proof -
  from ok(2) have laws: "transfer_ok T cells" "cat_ok T cells" "add_ok T cells" "narrow_ok T cells" by (simp_all add: torch_shard_ok_def)
  have "\<And>z. x = Sharded z \<Longrightarrow> shard_count z = int n" using x(2) by (simp add: is_plain_def)
  with replicate_represents [OF laws(1-3) x(1), of "int n"] n obtain r where
    r: "op_replicate T x (int n) = Inr r" "represents_sharded T cells r s A" "sh_class r = ReplicatedTensor" "shard_count r = int n"
    by auto
  from split_replicated_represents [OF ok(1) laws(4) r(2,3) d r(4)] obtain y where
    y: "reshard_split_replicated T r (int d) (int n) = Inr y" "represents_sharded T cells y (s[d := s ! d div int n * int n])
      (cut (vol (take d s)) (nat (s ! d) * vol (drop (Suc d) s)) 0 (nat (s ! d) div n * n * vol (drop (Suc d) s)) A)" by blast
  from unshard_back [OF ok(2), of "Sharded y"] y(2) r(1) y(1) show ?thesis by fastforce
qed

theorem split_replicated_drops_rows_witness:
  "\<exists>r y z. op_replicate array_torch (Torch ([3, 2], [1, 2, 3, 4, 5, 6])) 2 = Inr r \<and>
     reshard_split_replicated array_torch r 0 2 = Inr y \<and> unshard array_torch (Sharded y) = Inr z \<and>
     represents array_torch ar_cells z [2, 2] [1, 2, 3, 4]"
proof -
  have "represents array_torch ar_cells (Torch ([3, 2], [1, 2, 3, 4, 5, 6])) [3, 2] [1, 2, 3, 4, 5, 6]"
    by (simp add: array_torch_simps)
  moreover have "cut 1 (3 * 2) 0 (3 div 2 * 2 * 2) [1, 2, 3, 4, 5, 6 :: int] = [1, 2, 3, 4]" by code_simp
  ultimately show ?thesis
    using split_replicated_drops_rows [OF array_content array_torch_shard, of "Torch ([3, 2], [1, 2, 3, 4, 5, 6])" "[3, 2]" _ 0 2]
    by (fastforce simp: is_plain_def)
qed

subsection \<open>Products and elementwise operators\<close>

text \<open>
  C14: let \<open>matmul\<close>, without transposing its right operand, return for a tensor of rank two or more and a matrix.
  Then, whatever the classes of the operands (plain, split or replicated), the result unsharded is the
  product of the tensors that the operands stand for, provided that a split left and a replicated right
  operand have the same number of shards: the override for this pair does not check it and drops the rest
  of the rows; the others raise.
\<close>

theorem matmul_unsharded_product:
  fixes cells :: "'t \<Rightarrow> 'a::semiring_0 list"
  assumes ok: "torch_matmul_ok T cells" "torch_shard_ok T cells" and pre: "pre \<noteq> []"
    and x: "represents T cells x (pre @ [k]) A" and y: "represents T cells y [k, n] B" and counts: "replicas_match x y"
    and r: "op_matmul T x y False = Inr z"
  shows "\<exists>p. unshard T z = Inr p \<and> is_plain p \<and>
    represents T cells p (pre @ [n]) (mat_mul (vol pre) (nat k) (nat n) A B)"
  by (intro unshard_back ok(2) op_matmul_represents [OF ok pre x y counts r])

theorem matmul_unsharded_product_witness:
  "\<exists>z p. op_matmul array_torch (Sharded (split_arrays [1, 2] 1 [([1, 1], [5]), ([1, 1], [7])]))
      (Sharded (split_arrays [2, 1] 0 [([1, 1], [1]), ([1, 1], [2])])) False = Inr z \<and>
     unshard array_torch z = Inr p \<and> represents array_torch ar_cells p [1, 1] [19]"
proof -
  let ?x = "split_arrays [1, 2] 1 [([1, 1], [5]), ([1, 1], [7])]" let ?y = "split_arrays [2, 1] 0 [([1, 1], [1]), ([1, 1], [2])]"
  have "represents array_torch ar_cells (Sharded ?x) ([1] @ [2]) [5, 7]" "represents array_torch ar_cells (Sharded ?y) [2, 1] [1, 2]"
    by (simp_all add: represents_split_arrays) (simp_all add: along_def off_dim_def ar_shape_def, code_simp+)
  moreover have "replicas_match (Sharded ?x) (Sharded ?y)" by code_simp
  moreover obtain z where "op_matmul array_torch (Sharded ?x) (Sharded ?y) False = Inr z"
  proof -
    have "case op_matmul array_torch (Sharded ?x) (Sharded ?y) False of Inl e \<Rightarrow> False | Inr z \<Rightarrow> True" by code_simp
    then show ?thesis using that by (auto split: sum.splits)
  qed
  moreover have "mat_mul 1 2 1 [5, 7] [1, 2 :: int] = [19]" by code_simp
  ultimately show ?thesis
    using matmul_unsharded_product [OF array_torch_matmul array_torch_shard, of "[1]" "Sharded ?x" 2 "[5, 7]" "Sharded ?y" 1 "[1, 2]" z]
    by auto
qed

text \<open>
  C17: let an elementwise operator return for two tensors of one and the same shape, of which at least one is
  sharded, with no further arguments. If the operands are \<open>aligned\<close>, the result unsharded is the
  operator's on the tensors the operands stand for. Aligned means: two split operands have shards of the same
  shapes; a split operand beside one that is not split has shards of equal size. Without it the code
  can drop rows (\<open>split_replicated_drops_rows\<close>); operands that broadcast are not covered.
\<close>

theorem elementwise_unsharded_result:
  fixes cells :: "'t \<Rightarrow> 'a::semiring_0 list"
  assumes ok: "content_ok T cells" "torch_shard_ok T cells" "binary_ok cells T operator f"
    and x: "represents T cells x s A" and y: "represents T cells y s B" and aligned: "aligned T x y"
    and r: "elementwise_sharded T operator x y [] = Inr z"
  shows "\<exists>p. unshard T (Sharded z) = Inr p \<and> is_plain p \<and> represents T cells p s (map2 f A B)"
  using elementwise_sharded_represents [OF ok x y aligned r] by (intro unshard_back ok(2)) simp

theorem elementwise_unsharded_result_witness:
  "\<exists>z p. elementwise_sharded array_torch (torch_add array_torch) (Sharded (split_arrays [2, 1] 0 [([1, 1], [5]), ([1, 1], [7])]))
      (Torch ([2, 1], [1, 2])) [] = Inr z \<and>
     unshard array_torch (Sharded z) = Inr p \<and> represents array_torch ar_cells p [2, 1] [6, 9]"
proof -
  let ?x = "split_arrays [2, 1] 0 [([1, 1], [5]), ([1, 1], [7])]" let ?y = "Torch ([2, 1], [1, 2]) :: array any_tensor"
  have "represents array_torch ar_cells (Sharded ?x) [2, 1] [5, 7]"
    by (simp add: represents_split_arrays) (simp add: along_def off_dim_def ar_shape_def, code_simp)
  moreover have "represents array_torch ar_cells ?y [2, 1] [1, 2]" by (simp add: array_torch_simps)
  moreover have "aligned array_torch (Sharded ?x) ?y" by code_simp
  moreover have "binary_ok ar_cells array_torch (torch_add array_torch) (+)"
    by (rule array_binary) (simp add: torch_add_def array_torch_simps)
  moreover obtain z where "elementwise_sharded array_torch (torch_add array_torch) (Sharded ?x) ?y [] = Inr z"
  proof -
    have "case elementwise_sharded array_torch (torch_add array_torch) (Sharded ?x) ?y [] of Inl e \<Rightarrow> False | Inr z \<Rightarrow> True" by code_simp
    then show ?thesis using that by (auto split: sum.splits)
  qed
  ultimately show ?thesis
    using elementwise_unsharded_result [OF array_content array_torch_shard, of "torch_add array_torch" "(+)" "Sharded ?x" "[2, 1]" "[5, 7]" ?y "[1, 2]" z]
    by auto
qed

subsection \<open>The feed-forward block\<close>

text \<open>
  What sharding the parameters of a block does to the weights of its layers, here without the names of the
  tensors: the specification \<open>ffn_sharding\<close> is looked up and the weights are resharded. The input is
  replicated.
\<close>

definition weight_sharding :: "shard_dict \<Rightarrow> string \<Rightarrow> tensor_sharding res" where
  "weight_sharding spec layer =
     (case map_of spec layer of
        Some (ThetaSpec d) \<Rightarrow> (case map_of d ''weight'' of Some (TensorSpec s) \<Rightarrow> Inr s | _ \<Rightarrow> Inl KeyError)
      | _ \<Rightarrow> Inl KeyError)"

definition sharded_ffn ::
  "('t, 'q, 'z) quantization \<Rightarrow> ('t, 'o) torch \<Rightarrow> 'o \<Rightarrow> 'o \<Rightarrow> ('t, 'o) operator \<Rightarrow> int \<Rightarrow> 't any_tensor \<Rightarrow>
   't any_tensor \<Rightarrow> 't any_tensor \<Rightarrow> 't any_tensor \<Rightarrow> 't any_tensor res" where
  "sharded_ffn Q T f8 f16 activation_fn c gate up down h =
     res_bind (ffn_sharding c) (\<lambda>spec.
     res_bind (res_bind (weight_sharding spec ''ffn_gate'') (reshard_tensor T gate)) (\<lambda>gate1.
     res_bind (res_bind (weight_sharding spec ''ffn_up'') (reshard_tensor T up)) (\<lambda>up1.
     res_bind (res_bind (weight_sharding spec ''ffn_down'') (reshard_tensor T down)) (\<lambda>down1.
     res_bind (reshard_tensor T h (Replicated c)) (\<lambda>h1.
     res_bind (ffn_forward Q T f8 f16 activation_fn (dense_ffn gate1 up1 down1) h1) (unshard T))))))"

lemma ffn_sharding_weights:
  "\<exists>spec. ffn_sharding c = Inr spec \<and> weight_sharding spec ''ffn_gate'' = Inr (Split c 0) \<and>
     weight_sharding spec ''ffn_up'' = Inr (Split c 0) \<and> weight_sharding spec ''ffn_down'' = Inr (Split c 1)"
proof -
  have names: "str_split ''.'' ''weight'' = [''weight'']" "str_split ''.'' ''bias'' = [''bias'']"
    "str_split ''.'' ''premul_input'' = [''premul_input'']" "str_split ''.'' ''ffn_gate'' = [''ffn_gate'']"
    "str_split ''.'' ''ffn_up'' = [''ffn_up'']" "str_split ''.'' ''ffn_down'' = [''ffn_down'']" by code_simp+
  show ?thesis
    by (simp add: ffn_sharding_def theta_sharding_of_layers_def linear_split_parallel_weight_and_bias_sharding_def
        linear_split_reduction_dim_sharding_def linear_layer_sharding_def theta_sharding_of_def names weight_sharding_def)
qed

text \<open>
  C9: A gated feed-forward block whose weights are sharded as \<open>FFNSharding\<close> says and whose input is replicated
  returns, and its result unsharded is the result of the block with the plain weights on the plain input:
  gate and up projection, activation, product and down projection. The weights are plain, without bias, no
  tensor has the float8 type, and torch obeys the laws of \<open>torch_ffn_ok\<close>. The hidden features only have to
  split into the number of shards; they need not be a multiple of it.
\<close>

theorem sharded_ffn_computes_ffn:
  fixes cells :: "'t \<Rightarrow> 'a::semiring_0 list"
  assumes ok: "torch_ffn_ok T cells activation_fn act" and f8: "\<forall>t. th_dtype T t \<noteq> f8" and pre: "pre \<noteq> []"
    and h: "represents T cells h (pre @ [k]) A" "is_plain h"
    and gate: "represents T cells gate [n, k] G" "is_plain gate"
    and up: "represents T cells up [n, k] U" "is_plain up"
    and down: "represents T cells down [m, n] D" "is_plain down"
    and c: "0 < c" "splits_into n c"
  shows "\<exists>t u. ffn_forward Q T f8 f16 activation_fn (dense_ffn gate up down) h = Inr t \<and>
    sharded_ffn Q T f8 f16 activation_fn c gate up down h = Inr u \<and> is_plain t \<and> is_plain u \<and>
    represents T cells t (pre @ [m]) (ffn_value act (vol pre) (nat k) (nat n) (nat m) A G U D) \<and>
    represents T cells u (pre @ [m]) (ffn_value act (vol pre) (nat k) (nat n) (nat m) A G U D)"
proof -
  from ok have laws: "torch_matmul_ok T cells" "torch_shard_ok T cells" by (simp_all add: torch_ffn_ok_def)
  then have content: "content_ok T cells" by (simp add: torch_matmul_ok_def)
  note split = reshard_split [OF content laws(2)]
  let ?sizes = "map int (piece_sizes (nat (ceil_div n c)) (nat n))"
  obtain g where g: "reshard_tensor T gate (Split c 0) = Inr (Sharded g)" "represents_sharded T cells g [n, k] G" "is_split g"
      "sh_dim g = Some 0" "shard_count g = c" "map (\<lambda>t. th_shape T t ! 0) (shard_data g) = ?sizes"
    using split [OF gate, of 0 c] c by auto
  obtain u where u: "reshard_tensor T up (Split c 0) = Inr (Sharded u)" "represents_sharded T cells u [n, k] U" "is_split u"
      "sh_dim u = Some 0" "map (\<lambda>t. th_shape T t ! 0) (shard_data u) = ?sizes"
    using split [OF up, of 0 c] c by auto
  obtain d where d: "reshard_tensor T down (Split c 1) = Inr (Sharded d)" "represents_sharded T cells d [m, n] D" "is_split d"
      "sh_dim d = Some 1" "map (\<lambda>t. th_shape T t ! 1) (shard_data d) = ?sizes"
    using split [OF down, of 1 c] c by auto
  have "\<And>z. h = Sharded z \<Longrightarrow> shard_count z = c" using h(2) by (simp add: is_plain_def)
  with replicate_represents [OF _ _ _ h(1) c(1)] laws(2) obtain r where
    r: "op_replicate T h c = Inr r" "represents_sharded T cells r (pre @ [k]) A" "sh_class r = ReplicatedTensor" "shard_count r = c"
    by (auto simp: torch_shard_ok_def)
  then have "feeds (shard_count g) (Sharded r)" using g(5) by (simp add: feeds_def is_replicated_def)
  with sharded_ffn_forward [OF ok f8 pre _ _ g(2-4) u(2-4) d(2-4), of "Sharded r" A Q f16] r(2) g(6) u(5) d(5) obtain y where
    y: "ffn_forward Q T f8 f16 activation_fn (dense_ffn (Sharded g) (Sharded u) (Sharded d)) (Sharded r) = Inr (Sharded y)"
      "represents_sharded T cells y (pre @ [m]) (ffn_value act (vol pre) (nat k) (nat n) (nat m) A G U D)" by auto
  obtain spec where "ffn_sharding c = Inr spec" "weight_sharding spec ''ffn_gate'' = Inr (Split c 0)"
     "weight_sharding spec ''ffn_up'' = Inr (Split c 0)" "weight_sharding spec ''ffn_down'' = Inr (Split c 1)"
    using ffn_sharding_weights by blast
  then have "sharded_ffn Q T f8 f16 activation_fn c gate up down h = unshard T (Sharded y)"
    using g(1) u(1) d(1) r(1) y(1) by (simp add: sharded_ffn_def reshard_tensor_def)
  with unshard_back [OF laws(2), of "Sharded y"] y(2) plain_ffn_forward [OF ok f8 pre h gate up down, of Q f16] show ?thesis
    by (fastforce simp: is_plain_def)
qed

text \<open>Two rows of two features, three hidden features on two devices, and the ReLU.\<close>

theorem sharded_ffn_computes_ffn_witness:
  "\<exists>t u. ffn_forward no_quantization array_torch 1 2 (ar_unary (max 0))
       (dense_ffn (Torch ([3, 2], [1, 2, -3, 4, 5, 6])) (Torch ([3, 2], [1, 0, 0, 1, 2, 1])) (Torch ([1, 3], [1, 2, 3])))
       (Torch ([2, 2], [1, 1, 2, 0])) = Inr t \<and>
     sharded_ffn no_quantization array_torch 1 2 (ar_unary (max 0)) 2 (Torch ([3, 2], [1, 2, -3, 4, 5, 6]))
       (Torch ([3, 2], [1, 0, 0, 1, 2, 1])) (Torch ([1, 3], [1, 2, 3])) (Torch ([2, 2], [1, 1, 2, 0])) = Inr u \<and>
     represents array_torch ar_cells t [2, 1] [104, 124] \<and> represents array_torch ar_cells u [2, 1] [104, 124]"
proof -
  have "splits_into 3 2" by code_simp
  moreover have "ffn_value (max 0) 2 2 3 1 [1, 1, 2, 0] [1, 2, -3, 4, 5, 6] [1, 0, 0, 1, 2, 1] [1, 2, 3 :: int] = [104, 124]" by code_simp
  moreover have "\<forall>t. th_dtype array_torch t \<noteq> 1" by (simp add: array_torch_simps)
  moreover have "represents array_torch ar_cells (Torch ([2, 2], [1, 1, 2, 0])) ([2] @ [2]) [1, 1, 2, 0]"
    "represents array_torch ar_cells (Torch ([3, 2], [1, 2, -3, 4, 5, 6])) [3, 2] [1, 2, -3, 4, 5, 6]"
    "represents array_torch ar_cells (Torch ([3, 2], [1, 0, 0, 1, 2, 1])) [3, 2] [1, 0, 0, 1, 2, 1]"
    "represents array_torch ar_cells (Torch ([1, 3], [1, 2, 3])) [1, 3] [1, 2, 3]" by (simp_all add: array_torch_simps)
  ultimately show ?thesis
    using sharded_ffn_computes_ffn [OF array_torch_ffn [of "max 0"], of 1 "[2]" "Torch ([2, 2], [1, 1, 2, 0])" 2 "[1, 1, 2, 0]"
        "Torch ([3, 2], [1, 2, -3, 4, 5, 6])" 3 "[1, 2, -3, 4, 5, 6]" "Torch ([3, 2], [1, 0, 0, 1, 2, 1])" "[1, 0, 0, 1, 2, 1]"
        "Torch ([1, 3], [1, 2, 3])" 1 "[1, 2, 3]" 2 no_quantization 2]
    by (fastforce simp: is_plain_def)
qed

end
