(* ===== verification/Tn_Kv_Cache.thy ===== *)
theory Tn_Kv_Cache
  imports Tn_Sharded_Layers
begin

section \<open>The key-value caches of the layers\<close>

text \<open>
  Model of \<open>sharktank/layers/kv_cache.py\<close>. The state of a cache is a list of tensors. The operations in
  place change a view of the state, and the view shares its storage: the state afterwards is the changed
  view in the shape of the state. What the code does with tensors of integers is the record \<open>int_torch\<close>.
\<close>

record 't int_torch =
  nt_mul :: "int \<Rightarrow> 't \<Rightarrow> 't res"
  nt_add :: "int \<Rightarrow> 't \<Rightarrow> 't res"
  nt_floordiv :: "int \<Rightarrow> 't \<Rightarrow> 't res"
  nt_mod :: "int \<Rightarrow> 't \<Rightarrow> 't res"
  nt_full :: "int list \<Rightarrow> int \<Rightarrow> 't"
  nt_empty :: "int list \<Rightarrow> 't"

subsection \<open>Operations on tensors of any kind\<close>

definition scalar_op :: "('t, 'o) torch \<Rightarrow> ('t \<Rightarrow> 't res) \<Rightarrow> 't any_tensor \<Rightarrow> 't any_tensor res" where
  "scalar_op T f x = op_elementwise T (\<lambda>ts _. case ts of [t] \<Rightarrow> f t | _ \<Rightarrow> Inl TypeError) [x] []"

definition op_index_select :: "('t, 'o) torch \<Rightarrow> 't any_tensor \<Rightarrow> int \<Rightarrow> 't any_tensor \<Rightarrow> 't any_tensor res" where
  "op_index_select T x dim index =
     (case (x, index) of
        (Sharded s, Sharded i) \<Rightarrow>
          (if is_replicated i \<and> is_replicated s then res_bind (index_select_replicated T s dim i) (\<lambda>r. Inr (Sharded r))
           else if is_replicated i \<and> is_split s then res_bind (index_select_split_replicated T s dim i) (\<lambda>r. Inr (Sharded r))
           else Inl NotImplementedError)
      | _ \<Rightarrow>
          (if is_plain x \<and> is_plain index then res_bind (index_select_default T x dim index) (\<lambda>t. Inr (Torch t))
           else Inl NotImplementedError))"

definition op_gather :: "('t, 'o) torch \<Rightarrow> 't any_tensor \<Rightarrow> int \<Rightarrow> 't any_tensor \<Rightarrow> 't any_tensor res" where
  "op_gather T x dim index =
     (case (x, index) of
        (Sharded s, Sharded i) \<Rightarrow>
          (if is_replicated s \<and> is_replicated i then res_bind (gather_replicated T s dim i) (\<lambda>r. Inr (Sharded r))
           else Inl NotImplementedError)
      | _ \<Rightarrow>
          (if is_plain x \<and> is_plain index then res_bind (gather_default T x dim index) (\<lambda>t. Inr (Torch t))
           else Inl NotImplementedError))"

definition op_repeat :: "('t, 'o) torch \<Rightarrow> 't any_tensor \<Rightarrow> int list \<Rightarrow> 't any_tensor res" where
  "op_repeat T x sizes = dispatch1 (\<lambda>y. repeat_default T y sizes) None (Some (\<lambda>s. repeat_replicated T s sizes)) x"

definition op_index_copy ::
  "('t, 'o) torch \<Rightarrow> 't any_tensor \<Rightarrow> int \<Rightarrow> 't any_tensor \<Rightarrow> 't any_tensor \<Rightarrow> 't any_tensor res" where
  "op_index_copy T inout dim index x =
     (case (inout, index, x) of
        (Sharded s, Sharded i, Sharded y) \<Rightarrow>
          (if is_split s \<and> is_replicated i \<and> is_split y
           then res_bind (index_copy_split_replicated_split T s dim i y) (\<lambda>r. Inr (Sharded r))
           else Inl NotImplementedError)
      | _ \<Rightarrow>
          (if is_plain inout \<and> is_plain index \<and> is_plain x then index_copy_default T inout dim index x
           else Inl NotImplementedError))"

definition op_index_put ::
  "('t, 'o) torch \<Rightarrow> 't any_tensor \<Rightarrow> 't any_tensor list \<Rightarrow> 't any_tensor \<Rightarrow> 't any_tensor res" where
  "op_index_put T inout indices values =
     (case (inout, values) of
        (Sharded s, Sharded v) \<Rightarrow>
          (if is_split s \<and> is_split v \<and> list_all (\<lambda>i. case i of Sharded r \<Rightarrow> is_replicated r | _ \<Rightarrow> True) indices
           then res_bind (index_put_split T s indices v) (\<lambda>r. Inr (Sharded r))
           else Inl NotImplementedError)
      | _ \<Rightarrow>
          (if list_all is_plain (inout # values # indices) then index_put_default T inout indices values
           else Inl NotImplementedError))"

definition any_getitem :: "('t, 'o) torch \<Rightarrow> 't any_tensor \<Rightarrow> 't key list \<Rightarrow> 't any_tensor res" where
  "any_getitem T x keys =
     (let key = \<lparr>ix_is_tuple = True, ix_items = map PlainItem keys\<rparr> in
      case x of
        Torch t \<Rightarrow> res_bind (th_getitem T t keys) (\<lambda>r. Inr (Torch r))
      | Prim p \<Rightarrow> res_bind (prim_getitem T p (map PlainItem keys)) (\<lambda>r. Inr (Torch r))
      | Sharded s \<Rightarrow>
          res_bind (case sh_class s of
              SplitPrimitiveTensor \<Rightarrow> split_getitem T s (split_dim s) key
            | ReplicatedTensor \<Rightarrow> replicated_getitem T s key
            | UnreducedTensor \<Rightarrow> Inl NotImplementedError) (\<lambda>r. Inr (Sharded r)))"

text \<open>Replicated tensors have no \<open>__setitem__\<close>.\<close>

definition any_setitem :: "('t, 'o) torch \<Rightarrow> 't any_tensor \<Rightarrow> 't key list \<Rightarrow> 't any_tensor \<Rightarrow> 't any_tensor res" where
  "any_setitem T x keys v =
     (case x of
        Torch t \<Rightarrow> res_bind (unbox_tensor v) (\<lambda>u. res_bind (th_setitem T t keys u) (\<lambda>r. Inr (Torch r)))
      | Prim p \<Rightarrow> res_bind (prim_setitem T p (map PlainItem keys) v) (\<lambda>r. Inr (Prim r))
      | Sharded s \<Rightarrow>
          (if is_split s
           then res_bind (split_setitem T s (split_dim s) \<lparr>ix_is_tuple = True, ix_items = map PlainItem keys\<rparr> v) (\<lambda>r. Inr (Sharded r))
           else Inl TypeError))"

text \<open>A loop that changes a state: what was changed before an exception stays.\<close>

fun update_each :: "('i \<Rightarrow> 's \<Rightarrow> 's res) \<Rightarrow> 'i list \<Rightarrow> 's \<Rightarrow> unit res \<times> 's" where
  "update_each f [] s = (Inr (), s)"
| "update_each f (i # is) s = (case f i s of Inl e \<Rightarrow> (Inl e, s) | Inr s1 \<Rightarrow> update_each f is s1)"

definition update_at :: "('a \<Rightarrow> 'a res) \<Rightarrow> int \<Rightarrow> 'a list \<Rightarrow> 'a list res" where
  "update_at f i xs = res_bind (py_get xs i) (\<lambda>x. res_bind (f x) (py_set xs i))"

definition full_key :: "'t key" where
  "full_key = SliceKey None None None"

definition prefix_key :: "int \<Rightarrow> 't key" where
  "prefix_key n = SliceKey None (Some n) None"

subsection \<open>The direct cache\<close>

record direct_kv_cache =
  dk_block_seq_stride :: int
  dk_transformer_block_count :: int
  dk_attn_head_count :: int
  dk_attn_head_dim :: int
  dk_seq_length :: int
  dk_shard_count :: int

definition direct_allocate :: "('t, 'o) torch \<Rightarrow> 't int_torch \<Rightarrow> direct_kv_cache \<Rightarrow> int \<Rightarrow> 't any_tensor list res" where
  "direct_allocate T N c bs =
     (let allocations = map (\<lambda>_. Torch (nt_empty N [bs, dk_seq_length c, dk_attn_head_count c, dk_attn_head_dim c]))
                         [0..<nat (2 * dk_transformer_block_count c)] in
      if dk_shard_count c = 1 then Inr allocations
      else res_map (\<lambda>a. res_bind (op_reshard_split T a 2 (dk_shard_count c)) (\<lambda>r. Inr (Sharded r))) allocations)"

definition direct_read ::
  "('t, 'o) torch \<Rightarrow> 't any_tensor list \<Rightarrow> 't any_tensor list \<Rightarrow> int \<Rightarrow> int \<Rightarrow> 't any_tensor list res" where
  "direct_read T state read_into_partitions transformer_block_index seq_len =
     (let read_count = int (length read_into_partitions) in
      res_map (\<lambda>i. res_bind (py_get state (transformer_block_index * read_count + int i))
                    (\<lambda>x. any_getitem T x [full_key, prefix_key seq_len, full_key, full_key]))
        [0..<length read_into_partitions])"

definition direct_write_timestep ::
  "('t, 'o) torch \<Rightarrow> 't int_torch \<Rightarrow> 't any_tensor list \<Rightarrow> 't any_tensor list \<Rightarrow> int \<Rightarrow> 't any_tensor \<Rightarrow>
   unit res \<times> 't any_tensor list" where
  "direct_write_timestep T N state cache_partitions transformer_block_index seq_positions =
     (case cache_partitions of
        [] \<Rightarrow> (Inl IndexError, state)
      | p # _ \<Rightarrow>
         (case any_shape T p of
            [bs, _, _, _] \<Rightarrow>
              (let update_count = int (length cache_partitions) in
               update_each (\<lambda>(b, (i, update)) st.
                   let row_index = nt_full N [1] b in
                   res_bind (any_getitem T seq_positions [TensorKey row_index]) (\<lambda>pos.
                   res_bind (op_unsqueeze T pos 0) (\<lambda>row_start_pos.
                     update_at (\<lambda>cache.
                         res_bind (any_getitem T update [TensorKey row_index, IntKey 0])
                           (op_index_put T cache [Torch row_index, row_start_pos]))
                       (transformer_block_index * update_count + int i) st)))
                 [(int b, iu). b \<leftarrow> [0..<nat bs], iu \<leftarrow> enumerate 0 cache_partitions] state)
          | _ \<Rightarrow> (Inl ValueError, state)))"

definition direct_write ::
  "('t, 'o) torch \<Rightarrow> 't any_tensor list \<Rightarrow> 't any_tensor list \<Rightarrow> int \<Rightarrow> unit res \<times> 't any_tensor list" where
  "direct_write T state cache_partitions transformer_block_index =
     (let update_count = int (length cache_partitions) in
      update_each (\<lambda>(idx, update_src) st.
          update_at (\<lambda>cache_dest.
              case any_shape T update_src of
                [_, batch_seq_len, _, _] \<Rightarrow> any_setitem T cache_dest [full_key, prefix_key batch_seq_len, full_key, full_key] update_src
              | _ \<Rightarrow> Inl ValueError)
            (transformer_block_index * update_count + int idx) st)
        (enumerate 0 cache_partitions) state)"

subsection \<open>The paged cache\<close>

record paged_kv_cache =
  pk_transformer_block_count :: int
  pk_attn_head_count :: int
  pk_attn_head_dim :: int
  pk_cache_partition_count :: int
  pk_block_seq_stride :: int
  pk_shard_count :: int

definition new_paged_kv_cache :: "int \<Rightarrow> int \<Rightarrow> int \<Rightarrow> int \<Rightarrow> int \<Rightarrow> int \<Rightarrow> paged_kv_cache res" where
  "new_paged_kv_cache transformer_block_count attn_head_count attn_head_dim cache_partition_count block_seq_stride n_shards =
     (if n_shards = 0 then Inl ZeroDivisionError
      else if attn_head_count mod n_shards \<noteq> 0 then Inl ValueError
      else Inr \<lparr>pk_transformer_block_count = transformer_block_count, pk_attn_head_count = attn_head_count,
                pk_attn_head_dim = attn_head_dim, pk_cache_partition_count = cache_partition_count,
                pk_block_seq_stride = block_seq_stride, pk_shard_count = n_shards\<rparr>)"

definition sub_page_dims :: "paged_kv_cache \<Rightarrow> int list" where
  "sub_page_dims c =
     [pk_transformer_block_count c, pk_cache_partition_count c, pk_block_seq_stride c,
      pk_attn_head_count c div pk_shard_count c, pk_attn_head_dim c]"

definition page_slab_flat_dim :: "paged_kv_cache \<Rightarrow> int" where
  "page_slab_flat_dim c = prod_list (sub_page_dims c)"

definition unflatten_page_table :: "('t, 'o) torch \<Rightarrow> paged_kv_cache \<Rightarrow> 't any_tensor list \<Rightarrow> 't any_tensor res" where
  "unflatten_page_table T c state =
     (case state of
        [page_slab] \<Rightarrow>
          (if pk_shard_count c = 1
           then (case page_slab of
                   Sharded s \<Rightarrow> guard (\<not> is_split s) AssertionError (op_unflatten T page_slab 1 (sub_page_dims c))
                 | _ \<Rightarrow> op_unflatten T page_slab 1 (sub_page_dims c))
           else
            (case page_slab of
               Sharded s \<Rightarrow>
                 guard (pk_shard_count c = shard_count s) AssertionError
                  (res_bind (map_shards (\<lambda>x. unflatten_default T x 1 (sub_page_dims c)) s) (\<lambda>shards.
                   res_bind (new_split T 4 (map RawShard shards) unnamed_tensor_name None) (\<lambda>r. Inr (Sharded r))))
             | _ \<Rightarrow> Inl AttributeError))
      | _ \<Rightarrow> Inl AssertionError)"

definition shard_state :: "('t, 'o) torch \<Rightarrow> paged_kv_cache \<Rightarrow> 't any_tensor list \<Rightarrow> 't any_tensor list res" where
  "shard_state T c state =
     (if pk_shard_count c = 1 then Inr state
      else
        res_bind (list_get state 0) (\<lambda>slab.
        res_bind (op_reshape T slab [-1, pk_transformer_block_count c, pk_cache_partition_count c, pk_block_seq_stride c,
                                     pk_attn_head_count c, pk_attn_head_dim c]) (\<lambda>page_table.
        res_bind (op_reshard_split T page_table 4 (pk_shard_count c)) (\<lambda>sharded_page_table.
        res_bind (map_shards (\<lambda>x. flatten_default T x 1 (- 1)) sharded_page_table) (\<lambda>shards.
        res_bind (new_split T 1 (map RawShard shards) unnamed_tensor_name None) (\<lambda>r. Inr [Sharded r]))))))"

definition paged_allocate :: "('t, 'o) torch \<Rightarrow> 't int_torch \<Rightarrow> paged_kv_cache \<Rightarrow> int \<Rightarrow> 't any_tensor list res" where
  "paged_allocate T N c page_count =
     (let shards = map (\<lambda>_. nt_empty N [page_count, page_slab_flat_dim c]) [0..<nat (pk_shard_count c)] in
      if pk_shard_count c = 1 then Inr (map Torch shards)
      else res_bind (new_split T 1 (map RawShard shards) unnamed_tensor_name None) (\<lambda>r. Inr [Sharded r]))"

text \<open>The state whose storage is that of a changed view.\<close>

definition view_back :: "('t, 'o) torch \<Rightarrow> 't prim_tensor \<Rightarrow> 't prim_tensor \<Rightarrow> 't prim_tensor res" where
  "view_back T s v = res_bind (th_view T (pt_data v) (th_shape T (pt_data s))) (\<lambda>d. Inr (s\<lparr>pt_data := d\<rparr>))"

definition state_of_view :: "('t, 'o) torch \<Rightarrow> 't any_tensor list \<Rightarrow> 't any_tensor \<Rightarrow> 't any_tensor list res" where
  "state_of_view T state view =
     (case (state, view) of
        ([Torch s], Torch v) \<Rightarrow> res_bind (th_view T v (th_shape T s)) (\<lambda>d. Inr [Torch d])
      | ([Prim s], Torch v) \<Rightarrow> res_bind (th_view T v (th_shape T (pt_data s))) (\<lambda>d. Inr [Prim (s\<lparr>pt_data := d\<rparr>)])
      | ([Sharded s], Sharded v) \<Rightarrow>
          res_bind (res_map (\<lambda>(a, b). view_back T a b) (zip (sh_shards s) (sh_shards v)))
            (\<lambda>shards. Inr [Sharded (s\<lparr>sh_shards := shards\<rparr>)])
      | _ \<Rightarrow> Inl TypeError)"

text \<open>The sub-blocks of all pages in one dimension, and the ids of those of a transformer block.\<close>

definition base_subblock_ids ::
  "('t, 'o) torch \<Rightarrow> 't int_torch \<Rightarrow> paged_kv_cache \<Rightarrow> 't any_tensor \<Rightarrow> int \<Rightarrow> 't any_tensor res" where
  "base_subblock_ids T N c page_ids transformer_block_index =
     res_bind (scalar_op T (nt_mul N (pk_transformer_block_count c * pk_cache_partition_count c)) page_ids)
       (scalar_op T (nt_add N (transformer_block_index * pk_cache_partition_count c)))"

definition subblock_ids ::
  "('t, 'o) torch \<Rightarrow> 't int_torch \<Rightarrow> nat \<Rightarrow> 't any_tensor \<Rightarrow> 't any_tensor res" where
  "subblock_ids T N index base =
     res_bind (if index > 0 then scalar_op T (nt_add N (int index)) base else Inr base) (\<lambda>ids. op_flatten T ids 0 1)"

definition read_cache_partition ::
  "('t, 'o) torch \<Rightarrow> 't int_torch \<Rightarrow> 't any_tensor \<Rightarrow> 't any_tensor \<Rightarrow> int list \<Rightarrow> nat \<Rightarrow> 't any_tensor \<Rightarrow> 't any_tensor res" where
  "read_cache_partition T N subblock_table base blocks index into_partition =
     res_bind (subblock_ids T N index base) (\<lambda>ids.
     res_bind (op_index_select T subblock_table 0 ids) (\<lambda>selected0.
     res_bind (op_unflatten T selected0 0 blocks) (\<lambda>selected1.
     res_bind (op_flatten T selected1 1 2) (any_setitem T into_partition [EllipsisKey]))))"

text \<open>What reading and writing have in common: the table of sub-blocks and the ids, or the error.\<close>

definition subblocks ::
  "('t, 'o) torch \<Rightarrow> 't int_torch \<Rightarrow> paged_kv_cache \<Rightarrow> 't any_tensor list \<Rightarrow> int \<Rightarrow> 't any_tensor \<Rightarrow>
   ('t any_tensor \<times> 't any_tensor) res" where
  "subblocks T N c state transformer_block_index page_ids =
     res_bind (unflatten_page_table T c state) (\<lambda>page_table.
     guard (2 \<le> length (any_shape T page_ids)) ValueError
      (res_bind (op_flatten T page_table 0 2) (\<lambda>subblock_table.
       res_bind (base_subblock_ids T N c page_ids transformer_block_index) (\<lambda>base. Inr (subblock_table, base)))))"

text \<open>The partitions that are read into are changed in place, and slices of them returned.\<close>

definition paged_read ::
  "('t, 'o) torch \<Rightarrow> 't int_torch \<Rightarrow> paged_kv_cache \<Rightarrow> 't any_tensor list \<Rightarrow> 't any_tensor list \<Rightarrow> int \<Rightarrow> int \<Rightarrow>
   't any_tensor \<Rightarrow> 't any_tensor list res \<times> 't any_tensor list" where
  "paged_read T N c state read_into_partitions transformer_block_index seq_len page_ids =
     (case subblocks T N c state transformer_block_index page_ids of
        Inl e \<Rightarrow> (Inl e, read_into_partitions)
      | Inr (subblock_table, base) \<Rightarrow>
         (case update_each (\<lambda>index. update_at
                   (read_cache_partition T N subblock_table base (take 2 (any_shape T page_ids)) index) (int index))
                 [0..<length read_into_partitions] read_into_partitions of
            (Inl e, ps) \<Rightarrow> (Inl e, ps)
          | (Inr _, ps) \<Rightarrow> (res_map (\<lambda>p. any_getitem T p [full_key, prefix_key seq_len, full_key]) ps, ps)))"

definition write_cache_partition ::
  "('t, 'o) torch \<Rightarrow> 't int_torch \<Rightarrow> paged_kv_cache \<Rightarrow> int \<Rightarrow> 't any_tensor \<Rightarrow> nat \<times> 't any_tensor \<Rightarrow> 't any_tensor list \<Rightarrow>
   't any_tensor list res" where
  "write_cache_partition T N c block_seq_len base item state =
     (case item of (index, part) \<Rightarrow>
        res_bind (unflatten_page_table T c state) (\<lambda>page_table.
        res_bind (op_flatten T page_table 0 2) (\<lambda>subblock_table.
        res_bind (op_unflatten T part 1 [block_seq_len, pk_block_seq_stride c]) (\<lambda>part_block_view0.
        res_bind (op_flatten T part_block_view0 0 1) (\<lambda>part_block_view.
        res_bind (subblock_ids T N index base) (\<lambda>ids.
        res_bind (op_index_copy T subblock_table 0 ids part_block_view) (state_of_view T state)))))))"

definition paged_write ::
  "('t, 'o) torch \<Rightarrow> 't int_torch \<Rightarrow> paged_kv_cache \<Rightarrow> 't any_tensor list \<Rightarrow> 't any_tensor list \<Rightarrow> int \<Rightarrow> 't any_tensor \<Rightarrow>
   unit res \<times> 't any_tensor list" where
  "paged_write T N c state cache_partitions transformer_block_index page_ids =
     (case subblocks T N c state transformer_block_index page_ids of
        Inl e \<Rightarrow> (Inl e, state)
      | Inr (_, base) \<Rightarrow>
          update_each (write_cache_partition T N c (any_shape T page_ids ! 1) base) (enumerate 0 cache_partitions) state)"

text \<open>The indices of a partition: one tensor, or one for every shard of the replicated positions.\<close>

definition like_positions :: "('t, 'o) torch \<Rightarrow> 't any_tensor \<Rightarrow> 't \<Rightarrow> 't any_tensor res" where
  "like_positions T seq_positions t =
     (case seq_positions of
        Sharded s \<Rightarrow>
          (if is_replicated s
           then res_bind (new_replicated T (map (\<lambda>_. RawShard t) (sh_shards s)) unnamed_tensor_name) (\<lambda>r. Inr (Sharded r))
           else Inr (Torch t))
      | _ \<Rightarrow> Inr (Torch t))"

definition timestep_indices ::
  "('t, 'o) torch \<Rightarrow> 't int_torch \<Rightarrow> paged_kv_cache \<Rightarrow> nat \<Rightarrow> int \<Rightarrow> int \<Rightarrow> 't any_tensor \<Rightarrow> 't any_tensor \<Rightarrow>
   't any_tensor list res" where
  "timestep_indices T N c idx bs transformer_block_index seq_positions page_ids =
     res_bind (scalar_op T (nt_floordiv N (pk_block_seq_stride c)) seq_positions) (\<lambda>page_index.
     res_bind (op_unsqueeze T page_index 1) (\<lambda>page_index1.
     res_bind (op_gather T page_ids 1 page_index1) (\<lambda>page_id.
     res_bind (scalar_op T (nt_mod N (pk_block_seq_stride c)) seq_positions) (\<lambda>offset.
     res_bind (op_unsqueeze T offset 1) (\<lambda>page_offset.
     res_bind (like_positions T seq_positions (nt_full N [1] (int idx))) (\<lambda>partitions0.
     res_bind (like_positions T seq_positions (nt_full N [bs, 1] transformer_block_index)) (\<lambda>transformer_block.
     res_bind (op_repeat T partitions0 [bs, 1]) (\<lambda>partitions.
       Inr [page_id, transformer_block, partitions, page_offset]))))))))"

definition paged_write_timestep ::
  "('t, 'o) torch \<Rightarrow> 't int_torch \<Rightarrow> paged_kv_cache \<Rightarrow> 't any_tensor list \<Rightarrow> 't any_tensor list \<Rightarrow> int \<Rightarrow> 't any_tensor \<Rightarrow>
   't any_tensor \<Rightarrow> unit res \<times> 't any_tensor list" where
  "paged_write_timestep T N c state0 cache_partitions transformer_block_index seq_positions page_ids =
     (case unflatten_page_table T c state0 of
        Inl e \<Rightarrow> (Inl e, state0)
      | Inr _ \<Rightarrow>
         (case any_shape T seq_positions of
            [] \<Rightarrow> (Inl ValueError, state0)
          | bs # _ \<Rightarrow>
              (if int (length cache_partitions) \<noteq> pk_cache_partition_count c then (Inl AssertionError, state0)
               else
                 update_each (\<lambda>(idx, cache_partition) state.
                     res_bind (unflatten_page_table T c state) (\<lambda>page_table.
                     res_bind (timestep_indices T N c idx bs transformer_block_index seq_positions page_ids) (\<lambda>indices.
                     res_bind (op_index_put T page_table indices cache_partition) (state_of_view T state))))
                   (enumerate 0 cache_partitions) state0)))"

end
