(* ===== verification/Tn_Kv_Facts.thy ===== *)
theory Tn_Kv_Facts
  imports Tn_Kv_Cache Tn_Represents
begin

section \<open>What the paged cache stores\<close>

text \<open>
  The page table is rows of sub-blocks; the sub-block of a page, a transformer block and a partition is the
  row \<open>subblock_row\<close>. Writing replaces the rows of the given pages and nothing else, reading collects them.
  Here the cache is not sharded. Tensors are contiguous, so a view of one always exists; integers of index
  tensors are given by a function \<open>icells\<close>.
\<close>

subsection \<open>What is relied on of torch\<close>

definition reshape_ok :: "('t, 'o) torch \<Rightarrow> ('t \<Rightarrow> 'a list) \<Rightarrow> bool" where
  "reshape_ok T cells \<longleftrightarrow>
     (\<forall>t pre mid post. th_shape T t = pre @ mid @ post \<longrightarrow> mid \<noteq> [] \<longrightarrow>
        (\<exists>r. th_flatten T t (int (length pre)) (int (length pre + length mid) - 1) = Inr r \<and>
           th_shape T r = pre @ int (vol mid) # post \<and> cells r = cells t)) \<and>
     (\<forall>t pre sizes post. th_shape T t = pre @ int (vol sizes) # post \<longrightarrow> sizes \<noteq> [] \<longrightarrow> (\<forall>x \<in> set sizes. 0 \<le> x) \<longrightarrow>
        (\<exists>r. th_unflatten T t (int (length pre)) sizes = Inr r \<and> th_shape T r = pre @ sizes @ post \<and> cells r = cells t)) \<and>
     (\<forall>t s. (\<forall>x \<in> set s. 0 \<le> x) \<longrightarrow> vol s = vol (th_shape T t) \<longrightarrow>
        (\<exists>r. th_view T t s = Inr r \<and> th_shape T r = s \<and> cells r = cells t))"

lemma flatten_cells:
  assumes "reshape_ok T cells" and "th_shape T t = pre @ mid @ post" and "mid \<noteq> []"
    and "a = int (length pre)" and "b = int (length pre + length mid) - 1"
  shows "\<exists>r. th_flatten T t a b = Inr r \<and> th_shape T r = pre @ int (vol mid) # post \<and> cells r = cells t"
  using assms unfolding reshape_ok_def by blast

lemma unflatten_cells:
  assumes "reshape_ok T cells" and "th_shape T t = pre @ n # post" and "n = int (vol sizes)" and "sizes \<noteq> []"
    and "\<forall>x \<in> set sizes. 0 \<le> x" and "a = int (length pre)"
  shows "\<exists>r. th_unflatten T t a sizes = Inr r \<and> th_shape T r = pre @ sizes @ post \<and> cells r = cells t"
  using assms unfolding reshape_ok_def by blast

lemma view_cells:
  assumes "reshape_ok T cells" and "\<forall>x \<in> set s. 0 \<le> x" and "vol s = vol (th_shape T t)"
  shows "\<exists>r. th_view T t s = Inr r \<and> th_shape T r = s \<and> cells r = cells t"
  using assms unfolding reshape_ok_def by blast

definition scalars_ok :: "('t, 'o) torch \<Rightarrow> 't int_torch \<Rightarrow> ('t \<Rightarrow> int list) \<Rightarrow> bool" where
  "scalars_ok T N icells \<longleftrightarrow>
     (\<forall>k t. \<exists>r. nt_mul N k t = Inr r \<and> th_shape T r = th_shape T t \<and> icells r = map (\<lambda>x. x * k) (icells t)) \<and>
     (\<forall>k t. \<exists>r. nt_add N k t = Inr r \<and> th_shape T r = th_shape T t \<and> icells r = map (\<lambda>x. x + k) (icells t))"

text \<open>Rows of the first dimension; an index that occurs twice is not described for \<open>index_copy_\<close>.\<close>

definition rows_ok :: "('t, 'o) torch \<Rightarrow> ('t \<Rightarrow> 'a list) \<Rightarrow> ('t \<Rightarrow> int list) \<Rightarrow> bool" where
  "rows_ok T cells icells \<longleftrightarrow>
     (\<forall>t i n rest m. th_shape T t = n # rest \<longrightarrow> th_shape T i = [m] \<longrightarrow> (\<forall>x \<in> set (icells i). 0 \<le> x \<and> x < n) \<longrightarrow>
        (\<exists>r. th_index_select T t 0 i = Inr r \<and> th_shape T r = m # rest \<and>
           cells r = concat (map (\<lambda>x. block_at (vol rest) (cells t) (nat x)) (icells i)))) \<and>
     (\<forall>t i v n rest m. th_shape T t = n # rest \<longrightarrow> th_shape T i = [m] \<longrightarrow> th_shape T v = m # rest \<longrightarrow>
        (\<forall>x \<in> set (icells i). 0 \<le> x \<and> x < n) \<longrightarrow> distinct (icells i) \<longrightarrow>
        (\<exists>r. th_index_copy T t 0 i v = Inr r \<and> th_shape T r = n # rest \<and>
           (\<forall>j < length (icells i). block_at (vol rest) (cells r) (nat (icells i ! j)) = block_at (vol rest) (cells v) j) \<and>
           (\<forall>p. int p < n \<longrightarrow> int p \<notin> set (icells i) \<longrightarrow> block_at (vol rest) (cells r) p = block_at (vol rest) (cells t) p)))"

definition slices_ok :: "('t, 'o) torch \<Rightarrow> ('t \<Rightarrow> 'a list) \<Rightarrow> bool" where
  "slices_ok T cells \<longleftrightarrow>
     (\<forall>t v. th_shape T v = th_shape T t \<longrightarrow>
        (\<exists>r. th_setitem T t [EllipsisKey] v = Inr r \<and> th_shape T r = th_shape T t \<and> cells r = cells v)) \<and>
     (\<forall>t a m k rest n. th_shape T t = a # m # k # rest \<longrightarrow> 0 \<le> n \<longrightarrow> n \<le> m \<longrightarrow>
        (\<exists>r. th_getitem T t [full_key, prefix_key n, full_key] = Inr r \<and> th_shape T r = a # n # k # rest \<and>
           cells r = cut (nat a) (nat m * vol (k # rest)) 0 (nat n * vol (k # rest)) (cells t)))"

definition torch_kv_ok :: "('t, 'o) torch \<Rightarrow> 't int_torch \<Rightarrow> ('t \<Rightarrow> 'a list) \<Rightarrow> ('t \<Rightarrow> int list) \<Rightarrow> bool" where
  "torch_kv_ok T N cells icells \<longleftrightarrow>
     content_ok T cells \<and> content_ok T icells \<and> reshape_ok T cells \<and> reshape_ok T icells \<and> scalars_ok T N icells \<and>
     rows_ok T cells icells \<and> slices_ok T cells"

subsection \<open>Sub-blocks\<close>

definition subblock_row :: "paged_kv_cache \<Rightarrow> int \<Rightarrow> int \<Rightarrow> int \<Rightarrow> int" where
  "subblock_row c block part page =
     page * (pk_transformer_block_count c * pk_cache_partition_count c) + block * pk_cache_partition_count c + part"

text \<open>The positions of a page, times heads and head dimension.\<close>

definition subblock_shape :: "paged_kv_cache \<Rightarrow> int list" where
  "subblock_shape c = [pk_block_seq_stride c, pk_attn_head_count c, pk_attn_head_dim c]"

definition unsharded_kv :: "paged_kv_cache \<Rightarrow> bool" where
  "unsharded_kv c \<longleftrightarrow>
     pk_shard_count c = 1 \<and> 0 \<le> pk_transformer_block_count c \<and> 0 \<le> pk_cache_partition_count c \<and>
     (\<forall>x \<in> set (subblock_shape c). 0 \<le> x)"

lemma subblock_row_inject:
  assumes "0 \<le> q" "q < pk_cache_partition_count c" "0 \<le> q'" "q' < pk_cache_partition_count c"
    and "0 \<le> b" "b < pk_transformer_block_count c" "0 \<le> b'" "b' < pk_transformer_block_count c"
  shows "subblock_row c b q p = subblock_row c b' q' p' \<longleftrightarrow> p = p' \<and> b = b' \<and> q = q'"
proof
  let ?C = "pk_cache_partition_count c" let ?B = "pk_transformer_block_count c"
  have form: "subblock_row c b q p = (p * ?B + b) * ?C + q" for b q p by (simp add: subblock_row_def algebra_simps)
  assume eq: "subblock_row c b q p = subblock_row c b' q' p'"
  then have "((p * ?B + b) * ?C + q) mod ?C = ((p' * ?B + b') * ?C + q') mod ?C" by (simp add: form)
  then have q: "q = q'" using assms(1-4) by (simp add: mod_mult_self3)
  then have "(p * ?B + b) * ?C = (p' * ?B + b') * ?C" using eq by (simp add: form)
  then have pb: "p * ?B + b = p' * ?B + b'" using assms(1,2) by simp
  then have "(p * ?B + b) mod ?B = (p' * ?B + b') mod ?B" by simp
  then have b: "b = b'" using assms(5-8) by (simp add: mod_mult_self3)
  then have "p * ?B = p' * ?B" using pb by simp
  then show "p = p' \<and> b = b' \<and> q = q'" using q b assms(5,6) by simp
qed simp

lemma subblock_row_bounds:
  assumes "0 \<le> q" "q < pk_cache_partition_count c" "0 \<le> b" "b < pk_transformer_block_count c" "0 \<le> p" "p < P"
  shows "0 \<le> subblock_row c b q p \<and> subblock_row c b q p < P * (pk_transformer_block_count c * pk_cache_partition_count c)"
proof -
  let ?C = "pk_cache_partition_count c" let ?B = "pk_transformer_block_count c"
  have form: "subblock_row c b q p = (p * ?B + b) * ?C + q" by (simp add: subblock_row_def algebra_simps)
  have "p * ?B + b < P * ?B"
  proof -
    have "p * ?B + b < (p + 1) * ?B" using assms by (simp add: algebra_simps)
    also have "\<dots> \<le> P * ?B" using assms by (intro mult_right_mono) auto
    finally show ?thesis .
  qed
  then have "(p * ?B + b + 1) * ?C \<le> (P * ?B) * ?C" using assms by (intro mult_right_mono) auto
  then have "(p * ?B + b) * ?C + q < (P * ?B) * ?C" using assms(2) by (simp add: algebra_simps)
  moreover have "0 \<le> (p * ?B + b) * ?C + q" using assms by simp
  ultimately show ?thesis by (simp add: form mult.assoc)
qed

text \<open>The table of sub-blocks of a page table of \<open>P\<close> pages.\<close>

definition row_count :: "paged_kv_cache \<Rightarrow> int \<Rightarrow> int" where
  "row_count c P = P * (pk_transformer_block_count c * pk_cache_partition_count c)"

definition slab_ok :: "('t, 'o) torch \<Rightarrow> paged_kv_cache \<Rightarrow> int \<Rightarrow> 't \<Rightarrow> bool" where
  "slab_ok T c P t \<longleftrightarrow> th_shape T t = [P, page_slab_flat_dim c]"

lemma unsharded_dims:
  assumes "unsharded_kv c"
  shows "sub_page_dims c = [pk_transformer_block_count c, pk_cache_partition_count c] @ subblock_shape c"
    and "\<forall>x \<in> set (sub_page_dims c). 0 \<le> x" and "page_slab_flat_dim c = int (vol (sub_page_dims c))"
proof -
  show dims: "sub_page_dims c = [pk_transformer_block_count c, pk_cache_partition_count c] @ subblock_shape c"
    using assms by (simp add: sub_page_dims_def unsharded_kv_def subblock_shape_def)
  show nonneg: "\<forall>x \<in> set (sub_page_dims c). 0 \<le> x" using assms unfolding dims by (auto simp: unsharded_kv_def)
  have "prod_list s = int (vol s)" if "\<forall>x \<in> set s. 0 \<le> x" for s using that by (induction s) auto
  then show "page_slab_flat_dim c = int (vol (sub_page_dims c))" using nonneg by (simp add: page_slab_flat_dim_def)
qed

lemma subblock_table:
  assumes ok: "torch_kv_ok T N cells icells" and c: "unsharded_kv c" and slab: "slab_ok T c P t"
  shows "\<exists>t6 table. unflatten_page_table T c [Torch t] = Inr (Torch t6) \<and> op_flatten T (Torch t6) 0 2 = Inr (Torch table) \<and>
    th_shape T table = row_count c P # subblock_shape c \<and> cells table = cells t"
proof -
  from ok have laws: "content_ok T cells" "reshape_ok T cells" by (simp_all add: torch_kv_ok_def)
  have P: "0 \<le> P" using content_nonneg [OF laws(1), of P t] slab by (simp add: slab_ok_def)
  note dims = unsharded_dims [OF c]
  have "th_shape T t = [P] @ page_slab_flat_dim c # []" using slab by (simp add: slab_ok_def)
  from unflatten_cells [OF laws(2) this dims(3) _ dims(2), of 1] obtain t6 where
    t6: "th_unflatten T t 1 (sub_page_dims c) = Inr t6" "th_shape T t6 = [P] @ sub_page_dims c" "cells t6 = cells t"
    by (auto simp: sub_page_dims_def)
  have "th_shape T t6 = [] @ [P, pk_transformer_block_count c, pk_cache_partition_count c] @ subblock_shape c"
    using t6(2) dims(1) by simp
  from flatten_cells [OF laws(2) this, of 0 2] obtain table where
    table: "th_flatten T t6 0 2 = Inr table" "cells table = cells t6"
      "th_shape T table = int (vol [P, pk_transformer_block_count c, pk_cache_partition_count c]) # subblock_shape c"
    by auto
  have "int (vol [P, pk_transformer_block_count c, pk_cache_partition_count c]) = row_count c P"
    using P c by (simp add: row_count_def unsharded_kv_def)
  moreover have "unflatten_page_table T c [Torch t] = Inr (Torch t6)"
    using t6(1) c by (simp add: unflatten_page_table_def unsharded_kv_def op_unflatten_def dispatch1_def unflatten_default_def unbox1_def unbox_tensor_def)
  ultimately show ?thesis
    using t6(3) table by (auto simp: op_flatten_def dispatch1_def flatten_default_def unbox1_def unbox_tensor_def)
qed

lemma scalar_op_torch: "f t = Inr r \<Longrightarrow> scalar_op T f (Torch t) = Inr (Torch r)"
  by (simp add: scalar_op_def op_elementwise_def is_plain_def elementwise_default_def unbox_tensor_def)

lemma base_ids:
  assumes ok: "torch_kv_ok T N cells icells"
  shows "\<exists>r. base_subblock_ids T N c (Torch i) b = Inr (Torch r) \<and> th_shape T r = th_shape T i \<and>
    icells r = map (subblock_row c b 0) (icells i)"
proof -
  from ok have laws: "scalars_ok T N icells" by (simp add: torch_kv_ok_def)
  let ?m = "pk_transformer_block_count c * pk_cache_partition_count c"
  from laws obtain r0 where r0: "nt_mul N ?m i = Inr r0" "th_shape T r0 = th_shape T i" "icells r0 = map (\<lambda>x. x * ?m) (icells i)"
    unfolding scalars_ok_def by blast
  from laws obtain r where r: "nt_add N (b * pk_cache_partition_count c) r0 = Inr r" "th_shape T r = th_shape T r0"
      "icells r = map (\<lambda>x. x + b * pk_cache_partition_count c) (icells r0)"
    unfolding scalars_ok_def by blast
  have "base_subblock_ids T N c (Torch i) b = Inr (Torch r)"
    using scalar_op_torch [of "nt_mul N ?m" i r0 T, OF r0(1)] scalar_op_torch [of "nt_add N (b * pk_cache_partition_count c)" r0 r T, OF r(1)]
    by (simp add: base_subblock_ids_def)
  moreover have "icells r = map (subblock_row c b 0) (icells i)" using r(3) r0(3) by (simp add: subblock_row_def)
  ultimately show ?thesis using r(2) r0(2) by auto
qed

lemma row_ids:
  assumes ok: "torch_kv_ok T N cells icells" and i: "th_shape T i = [bs, bl]" "icells i = map (subblock_row c b 0) ps"
  shows "\<exists>r. subblock_ids T N q (Torch i) = Inr (Torch r) \<and> th_shape T r = [bs * bl] \<and>
    icells r = map (subblock_row c b (int q)) ps"
proof -
  from ok have laws: "scalars_ok T N icells" "reshape_ok T icells" "content_ok T icells" by (simp_all add: torch_kv_ok_def)
  have nonneg: "0 \<le> bs" "0 \<le> bl" using content_nonneg [OF laws(3), of _ i] i by auto
  have "\<exists>r0. (if q > 0 then scalar_op T (nt_add N (int q)) (Torch i) else Inr (Torch i)) = Inr (Torch r0) \<and>
      th_shape T r0 = [bs, bl] \<and> icells r0 = map (subblock_row c b (int q)) ps"
  proof (cases "q > 0")
    case True
    from laws(1) obtain r0 where r0: "nt_add N (int q) i = Inr r0" "th_shape T r0 = th_shape T i"
        "icells r0 = map (\<lambda>x. x + int q) (icells i)" unfolding scalars_ok_def by blast
    with True i scalar_op_torch [of "nt_add N (int q)" i r0 T] show ?thesis by (auto simp: subblock_row_def)
  qed (use i in auto)
  then obtain r0 where r0: "(if q > 0 then scalar_op T (nt_add N (int q)) (Torch i) else Inr (Torch i)) = Inr (Torch r0)"
      "th_shape T r0 = [bs, bl]" "icells r0 = map (subblock_row c b (int q)) ps" by blast
  from flatten_cells [OF laws(2), of r0 "[]" "[bs, bl]" "[]" 0 1] r0(2) obtain r where
    r: "th_flatten T r0 0 1 = Inr r" "th_shape T r = [int (vol [bs, bl])]" "icells r = icells r0" by auto
  with r0 nonneg show ?thesis
    by (auto simp: subblock_ids_def op_flatten_def dispatch1_def flatten_default_def unbox1_def unbox_tensor_def)
qed

subsection \<open>Writing\<close>

lemma distinct_rows:
  assumes "distinct ps" "0 \<le> q" "q < pk_cache_partition_count c" "0 \<le> b" "b < pk_transformer_block_count c"
  shows "distinct (map (subblock_row c b q) ps)"
  using assms subblock_row_inject [of q c q b b] by (simp add: distinct_map inj_on_def)

lemma write_step:
  assumes ok: "torch_kv_ok T N cells icells" and c: "unsharded_kv c" and slab: "slab_ok T c P t"
    and base: "th_shape T i = [bs, bl]" "icells i = map (subblock_row c b 0) ps"
    and ps: "distinct ps" "\<forall>p \<in> set ps. 0 \<le> p \<and> p < P" and b: "0 \<le> b" "b < pk_transformer_block_count c"
    and q: "int q < pk_cache_partition_count c"
    and v: "th_shape T v = [bs, bl * pk_block_seq_stride c, pk_attn_head_count c, pk_attn_head_dim c]"
  shows "\<exists>t'. write_cache_partition T N c bl (Torch i) (q, Torch v) [Torch t] = Inr [Torch t'] \<and> slab_ok T c P t' \<and>
    (\<forall>j < length ps. block_at (vol (subblock_shape c)) (cells t') (nat (subblock_row c b (int q) (ps ! j))) =
        block_at (vol (subblock_shape c)) (cells v) j) \<and>
    (\<forall>n. int n < row_count c P \<longrightarrow> int n \<notin> subblock_row c b (int q) ` set ps \<longrightarrow>
        block_at (vol (subblock_shape c)) (cells t') n = block_at (vol (subblock_shape c)) (cells t) n)"
proof -
  from ok have laws: "content_ok T cells" "reshape_ok T cells" "content_ok T icells" "rows_ok T cells icells"
    by (simp_all add: torch_kv_ok_def)
  obtain t6 table where table: "unflatten_page_table T c [Torch t] = Inr (Torch t6)" "op_flatten T (Torch t6) 0 2 = Inr (Torch table)"
      "th_shape T table = row_count c P # subblock_shape c" "cells table = cells t" using subblock_table [OF ok c slab] by blast
  obtain ids where ids: "subblock_ids T N q (Torch i) = Inr (Torch ids)" "th_shape T ids = [bs * bl]"
      "icells ids = map (subblock_row c b (int q)) ps" using row_ids [OF ok base] by blast
  have nonneg: "0 \<le> bs" "0 \<le> bl" using content_nonneg [OF laws(3), of _ i] base by auto
  have sub: "\<forall>x \<in> set (subblock_shape c). 0 \<le> x" using c by (simp add: unsharded_kv_def)
  have stride: "bl * pk_block_seq_stride c = int (vol [bl, pk_block_seq_stride c])"
    using nonneg sub by (simp add: subblock_shape_def)
  have "th_shape T v = [bs] @ bl * pk_block_seq_stride c # [pk_attn_head_count c, pk_attn_head_dim c]" using v by simp
  from unflatten_cells [OF laws(2) this stride, of 1] nonneg sub obtain v0 where
    v0: "th_unflatten T v 1 [bl, pk_block_seq_stride c] = Inr v0" "cells v0 = cells v"
      "th_shape T v0 = [] @ [bs, bl] @ subblock_shape c"
    by (auto simp: subblock_shape_def)
  from flatten_cells [OF laws(2) v0(3), of 0 1] obtain v1 where
    v1: "th_flatten T v0 0 1 = Inr v1" "th_shape T v1 = bs * bl # subblock_shape c" "cells v1 = cells v"
    using v0(2) nonneg by auto
  have range: "\<forall>x \<in> set (icells ids). 0 \<le> x \<and> x < row_count c P"
    using ids(3) ps(2) b q subblock_row_bounds [of "int q" c b] by (auto simp: row_count_def)
  have "distinct (icells ids)" unfolding ids(3) using ps(1) b q by (intro distinct_rows) auto
  with laws(4) table(3) ids(2) v1(2) range obtain r where r: "th_index_copy T table 0 ids v1 = Inr r"
      "th_shape T r = row_count c P # subblock_shape c"
      "\<forall>j < length (icells ids). block_at (vol (subblock_shape c)) (cells r) (nat (icells ids ! j)) = block_at (vol (subblock_shape c)) (cells v1) j"
      "\<forall>p. int p < row_count c P \<longrightarrow> int p \<notin> set (icells ids) \<longrightarrow> block_at (vol (subblock_shape c)) (cells r) p = block_at (vol (subblock_shape c)) (cells table) p"
    unfolding rows_ok_def by blast
  have P: "0 \<le> P" using content_nonneg [OF laws(1), of P t] slab by (simp add: slab_ok_def)
  have "vol (th_shape T r) = vol (th_shape T t)"
    using content_length [OF laws(1), of table] content_length [OF laws(1), of t] table(3,4) r(2) by simp
  moreover have "\<forall>x \<in> set (th_shape T t). 0 \<le> x" using content_nonneg [OF laws(1)] by blast
  ultimately obtain t' where t': "th_view T r (th_shape T t) = Inr t'" "th_shape T t' = th_shape T t" "cells t' = cells r"
    using view_cells [OF laws(2), of "th_shape T t" r] by auto
  have "write_cache_partition T N c bl (Torch i) (q, Torch v) [Torch t] = Inr [Torch t']"
    using table(1,2) ids(1) v0(1) v1(1) r(1) t'(1)
    by (simp add: write_cache_partition_def op_unflatten_def op_flatten_def dispatch1_def unflatten_default_def flatten_default_def
        unbox1_def unbox_tensor_def op_index_copy_def is_plain_def index_copy_default_def unbox2_def with_data_def state_of_view_def)
  with t' r ids(3) v1(3) table(4) slab show ?thesis by (auto simp: slab_ok_def)
qed

definition part_shape :: "paged_kv_cache \<Rightarrow> int \<Rightarrow> int \<Rightarrow> int list" where
  "part_shape c bs bl = [bs, bl * pk_block_seq_stride c, pk_attn_head_count c, pk_attn_head_dim c]"

lemma write_all:
  assumes ok: "torch_kv_ok T N cells icells" and c: "unsharded_kv c"
    and base: "th_shape T i = [bs, bl]" "icells i = map (subblock_row c b 0) ps"
    and ps: "distinct ps" "\<forall>p \<in> set ps. 0 \<le> p \<and> p < P" and b: "0 \<le> b" "b < pk_transformer_block_count c"
  shows "slab_ok T c P t \<Longrightarrow> int (k + length vs) \<le> pk_cache_partition_count c \<Longrightarrow>
    \<forall>v \<in> set vs. th_shape T v = part_shape c bs bl \<Longrightarrow>
    \<exists>t'. update_each (write_cache_partition T N c bl (Torch i)) (enumerate k (map Torch vs)) [Torch t] = (Inr (), [Torch t']) \<and>
      slab_ok T c P t' \<and>
      (\<forall>q < length vs. \<forall>j < length ps. block_at (vol (subblock_shape c)) (cells t') (nat (subblock_row c b (int (k + q)) (ps ! j))) =
          block_at (vol (subblock_shape c)) (cells (vs ! q)) j) \<and>
      (\<forall>n. int n < row_count c P \<longrightarrow> (\<forall>q < length vs. int n \<notin> subblock_row c b (int (k + q)) ` set ps) \<longrightarrow>
          block_at (vol (subblock_shape c)) (cells t') n = block_at (vol (subblock_shape c)) (cells t) n)"
proof (induction vs arbitrary: k t)
  case (Cons v vs)
  let ?K = "vol (subblock_shape c)"
  from Cons.prems have k: "int k < pk_cache_partition_count c" "int (Suc k + length vs) \<le> pk_cache_partition_count c"
    and v: "th_shape T v = [bs, bl * pk_block_seq_stride c, pk_attn_head_count c, pk_attn_head_dim c]" by (auto simp: part_shape_def)
  obtain t1 where t1: "write_cache_partition T N c bl (Torch i) (k, Torch v) [Torch t] = Inr [Torch t1]" "slab_ok T c P t1"
      "\<forall>j < length ps. block_at ?K (cells t1) (nat (subblock_row c b (int k) (ps ! j))) = block_at ?K (cells v) j"
      "\<forall>n. int n < row_count c P \<longrightarrow> int n \<notin> subblock_row c b (int k) ` set ps \<longrightarrow> block_at ?K (cells t1) n = block_at ?K (cells t) n"
    using write_step [OF ok c Cons.prems(1) base ps b k(1) v] by blast
  obtain t2 where t2: "update_each (write_cache_partition T N c bl (Torch i)) (enumerate (Suc k) (map Torch vs)) [Torch t1] = (Inr (), [Torch t2])"
      "slab_ok T c P t2"
      "\<forall>q < length vs. \<forall>j < length ps. block_at ?K (cells t2) (nat (subblock_row c b (int (Suc k + q)) (ps ! j))) = block_at ?K (cells (vs ! q)) j"
      "\<forall>n. int n < row_count c P \<longrightarrow> (\<forall>q < length vs. int n \<notin> subblock_row c b (int (Suc k + q)) ` set ps) \<longrightarrow>
          block_at ?K (cells t2) n = block_at ?K (cells t1) n"
    using Cons.IH [OF t1(2) k(2)] Cons.prems(3) by auto
  have first: "block_at ?K (cells t2) (nat (subblock_row c b (int k) (ps ! j))) = block_at ?K (cells v) j" if j: "j < length ps" for j
  proof -
    let ?n = "nat (subblock_row c b (int k) (ps ! j))"
    have pj: "0 \<le> ps ! j" "ps ! j < P" using ps(2) j by simp_all
    from subblock_row_bounds [of "int k" c b, OF _ k(1) b pj] have n: "int ?n = subblock_row c b (int k) (ps ! j)" "int ?n < row_count c P"
      by (simp_all add: row_count_def)
    have "int ?n \<notin> subblock_row c b (int (Suc k + q)) ` set ps" if q: "q < length vs" for q
    proof
      assume "int ?n \<in> subblock_row c b (int (Suc k + q)) ` set ps"
      then obtain p where "subblock_row c b (int k) (ps ! j) = subblock_row c b (int (Suc k + q)) p" using n(1) by auto
      with subblock_row_inject [of "int k" c "int (Suc k + q)" b b] q k b show False by simp
    qed
    with t2(4) n(2) t1(3) j show ?thesis by simp
  qed
  have written: "block_at ?K (cells t2) (nat (subblock_row c b (int (k + q)) (ps ! j))) = block_at ?K (cells ((v # vs) ! q)) j"
    if "q < length (v # vs)" "j < length ps" for q j
    using that first t2(3) by (cases q) simp_all
  have kept: "block_at ?K (cells t2) n = block_at ?K (cells t) n"
    if n: "int n < row_count c P" "\<forall>q < length (v # vs). int n \<notin> subblock_row c b (int (k + q)) ` set ps" for n
  proof -
    have "int n \<notin> subblock_row c b (int k) ` set ps" using n(2) [rule_format, of 0] by simp
    moreover have "int n \<notin> subblock_row c b (int (Suc k + q)) ` set ps" if "q < length vs" for q
      using n(2) [rule_format, of "Suc q"] that by simp
    ultimately show ?thesis using t2(4) t1(4) n(1) by simp
  qed
  have "update_each (write_cache_partition T N c bl (Torch i)) (enumerate k (map Torch (v # vs))) [Torch t] = (Inr (), [Torch t2])"
    using t1(1) t2(1) by simp
  with t2(2) written kept show ?case by blast
qed simp

lemma paged_write_rows:
  assumes ok: "torch_kv_ok T N cells icells" and c: "unsharded_kv c" and slab: "slab_ok T c P t"
    and i: "th_shape T i = [bs, bl]" "icells i = ps"
    and ps: "distinct ps" "\<forall>p \<in> set ps. 0 \<le> p \<and> p < P" and b: "0 \<le> b" "b < pk_transformer_block_count c"
    and vs: "int (length vs) \<le> pk_cache_partition_count c" "\<forall>v \<in> set vs. th_shape T v = part_shape c bs bl"
  shows "\<exists>t'. paged_write T N c [Torch t] (map Torch vs) b (Torch i) = (Inr (), [Torch t']) \<and> slab_ok T c P t' \<and>
      (\<forall>q < length vs. \<forall>j < length ps. block_at (vol (subblock_shape c)) (cells t') (nat (subblock_row c b (int q) (ps ! j))) =
          block_at (vol (subblock_shape c)) (cells (vs ! q)) j) \<and>
      (\<forall>n. int n < row_count c P \<longrightarrow> (\<forall>q < length vs. int n \<notin> subblock_row c b (int q) ` set ps) \<longrightarrow>
          block_at (vol (subblock_shape c)) (cells t') n = block_at (vol (subblock_shape c)) (cells t) n)"
proof -
  obtain t6 table where table: "unflatten_page_table T c [Torch t] = Inr (Torch t6)" "op_flatten T (Torch t6) 0 2 = Inr (Torch table)"
    using subblock_table [OF ok c slab] by blast
  obtain r where r: "base_subblock_ids T N c (Torch i) b = Inr (Torch r)" "th_shape T r = [bs, bl]" "icells r = map (subblock_row c b 0) ps"
    using base_ids [OF ok, of c i b] i by auto
  have "subblocks T N c [Torch t] b (Torch i) = Inr (Torch table, Torch r)"
    using table r(1) i(1) by (simp add: subblocks_def guard_def any_shape_def)
  with write_all [OF ok c r(2,3) ps b slab, of 0 vs] vs i(1) show ?thesis by (auto simp: paged_write_def any_shape_def)
qed

subsection \<open>Reading\<close>

definition stored :: "paged_kv_cache \<Rightarrow> int \<Rightarrow> int \<Rightarrow> int list \<Rightarrow> 'a list \<Rightarrow> 'a list" where
  "stored c b q ps xs = concat (map (\<lambda>p. block_at (vol (subblock_shape c)) xs (nat (subblock_row c b q p))) ps)"

lemma read_partition:
  assumes ok: "torch_kv_ok T N cells icells" and c: "unsharded_kv c"
    and table: "th_shape T table = row_count c P # subblock_shape c"
    and base: "th_shape T i = [bs, bl]" "icells i = map (subblock_row c b 0) ps"
    and ps: "\<forall>p \<in> set ps. 0 \<le> p \<and> p < P" and b: "0 \<le> b" "b < pk_transformer_block_count c"
    and q: "int q < pk_cache_partition_count c" and into: "th_shape T d = part_shape c bs bl"
  shows "\<exists>r. read_cache_partition T N (Torch table) (Torch i) [bs, bl] q (Torch d) = Inr (Torch r) \<and>
    th_shape T r = part_shape c bs bl \<and> cells r = stored c b (int q) ps (cells table)"
proof -
  from ok have laws: "content_ok T cells" "reshape_ok T cells" "content_ok T icells" "rows_ok T cells icells" "slices_ok T cells"
    by (simp_all add: torch_kv_ok_def)
  obtain ids where ids: "subblock_ids T N q (Torch i) = Inr (Torch ids)" "th_shape T ids = [bs * bl]"
      "icells ids = map (subblock_row c b (int q)) ps" using row_ids [OF ok base] by blast
  have nonneg: "0 \<le> bs" "0 \<le> bl" using content_nonneg [OF laws(3), of _ i] base by auto
  have sub: "\<forall>x \<in> set (subblock_shape c). 0 \<le> x" using c by (simp add: unsharded_kv_def)
  have range: "\<forall>x \<in> set (icells ids). 0 \<le> x \<and> x < row_count c P"
    using ids(3) ps b q subblock_row_bounds [of "int q" c b] by (auto simp: row_count_def)
  with laws(4) table ids(2) obtain r0 where r0: "th_index_select T table 0 ids = Inr r0" "th_shape T r0 = bs * bl # subblock_shape c"
      "cells r0 = concat (map (\<lambda>x. block_at (vol (subblock_shape c)) (cells table) (nat x)) (icells ids))"
    unfolding rows_ok_def by blast
  have "th_shape T r0 = [] @ bs * bl # subblock_shape c" using r0(2) by simp
  from unflatten_cells [OF laws(2) this, of "[bs, bl]" 0] nonneg obtain r1 where
    r1: "th_unflatten T r0 0 [bs, bl] = Inr r1" "th_shape T r1 = [bs, bl] @ subblock_shape c" "cells r1 = cells r0" by auto
  have "th_shape T r1 = [bs] @ [bl, pk_block_seq_stride c] @ [pk_attn_head_count c, pk_attn_head_dim c]"
    using r1(2) by (simp add: subblock_shape_def)
  from flatten_cells [OF laws(2) this, of 1 2] nonneg sub obtain r2 where
    r2: "th_flatten T r1 1 2 = Inr r2" "th_shape T r2 = part_shape c bs bl" "cells r2 = cells r1"
    by (auto simp: part_shape_def subblock_shape_def)
  obtain r3 where r3: "th_setitem T d [EllipsisKey] r2 = Inr r3" "th_shape T r3 = th_shape T d" "cells r3 = cells r2"
    using laws(5) into r2(2) unfolding slices_ok_def by metis
  have "read_cache_partition T N (Torch table) (Torch i) [bs, bl] q (Torch d) = Inr (Torch r3)"
    using ids(1) r0(1) r1(1) r2(1) r3(1)
    by (simp add: read_cache_partition_def op_index_select_def is_plain_def index_select_default_def unbox2_def unbox_tensor_def
        op_unflatten_def op_flatten_def dispatch1_def unflatten_default_def flatten_default_def unbox1_def any_setitem_def)
  with r0(3) r1(3) r2(3) r3 ids(3) into show ?thesis by (simp add: stored_def o_def)
qed

lemma update_each_at:
  assumes "\<And>i. i < length xs \<Longrightarrow> f i (xs ! i) = Inr (g i)"
  shows "update_each (\<lambda>i. update_at (f i) (int i)) [0..<length xs] xs = (Inr (), map g [0..<length xs])"
proof -
  have "update_each (\<lambda>i. update_at (f i) (int i)) [k..<length xs] (map g [0..<k] @ drop k xs) = (Inr (), map g [0..<length xs])"
    if "k \<le> length xs" for k
    using that
  proof (induction rule: inc_induct)
    case (step k)
    let ?ys = "map g [0..<k] @ drop k xs"
    have "?ys ! k = xs ! k" "k < length ?ys" using step.hyps by (simp_all add: nth_append)
    moreover have "?ys[k := g k] = map g [0..<Suc k] @ drop (Suc k) xs"
      using step.hyps by (simp add: list_update_append Cons_nth_drop_Suc [symmetric] del: Cons_nth_drop_Suc)
    ultimately have "update_at (f k) (int k) ?ys = Inr (map g [0..<Suc k] @ drop (Suc k) xs)"
      using assms [of k] step.hyps by (simp add: update_at_def)
    with step.IH step.hyps show ?case by (simp add: upt_conv_Cons)
  qed simp
  from this [of 0] show ?thesis by simp
qed

lemma paged_read_rows:
  assumes ok: "torch_kv_ok T N cells icells" and c: "unsharded_kv c" and slab: "slab_ok T c P t"
    and i: "th_shape T i = [bs, bl]" "icells i = ps" and ps: "\<forall>p \<in> set ps. 0 \<le> p \<and> p < P"
    and b: "0 \<le> b" "b < pk_transformer_block_count c"
    and ds: "int (length ds) \<le> pk_cache_partition_count c" "\<forall>d \<in> set ds. th_shape T d = part_shape c bs bl"
    and n: "0 \<le> n" "n \<le> bl * pk_block_seq_stride c"
  shows "\<exists>ps' rs. paged_read T N c [Torch t] (map Torch ds) b n (Torch i) = (Inr (map Torch rs), map Torch ps') \<and>
    length ps' = length ds \<and> length rs = length ds \<and>
    (\<forall>q < length ds. th_shape T (ps' ! q) = part_shape c bs bl \<and> cells (ps' ! q) = stored c b (int q) ps (cells t) \<and>
       th_shape T (rs ! q) = [bs, n, pk_attn_head_count c, pk_attn_head_dim c] \<and>
       cells (rs ! q) = cut (nat bs) (nat (bl * pk_block_seq_stride c) * vol [pk_attn_head_count c, pk_attn_head_dim c]) 0
         (nat n * vol [pk_attn_head_count c, pk_attn_head_dim c]) (stored c b (int q) ps (cells t)))"
proof -
  from ok have laws: "slices_ok T cells" by (simp add: torch_kv_ok_def)
  obtain t6 table where table: "unflatten_page_table T c [Torch t] = Inr (Torch t6)" "op_flatten T (Torch t6) 0 2 = Inr (Torch table)"
      "th_shape T table = row_count c P # subblock_shape c" "cells table = cells t"
    using subblock_table [OF ok c slab] by blast
  obtain r where r: "base_subblock_ids T N c (Torch i) b = Inr (Torch r)" "th_shape T r = [bs, bl]" "icells r = map (subblock_row c b 0) ps"
    using base_ids [OF ok, of c i b] i by auto
  have sub: "subblocks T N c [Torch t] b (Torch i) = Inr (Torch table, Torch r)"
    using table r(1) i(1) by (simp add: subblocks_def guard_def any_shape_def)
  let ?P = "\<lambda>q u. read_cache_partition T N (Torch table) (Torch r) [bs, bl] q (Torch (ds ! q)) = Inr (Torch u) \<and>
    th_shape T u = part_shape c bs bl \<and> cells u = stored c b (int q) ps (cells t)"
  have "\<exists>u. ?P q u" if "q < length ds" for q
    using read_partition [OF ok c table(3) r(2,3) ps b, of q "ds ! q"] that ds table(4) by simp
  then obtain g where g: "\<And>q. q < length ds \<Longrightarrow> ?P q (g q)" by metis
  let ?ps = "map g [0..<length ds]"
  have "update_each (\<lambda>q. update_at (read_cache_partition T N (Torch table) (Torch r) [bs, bl] q) (int q)) [0..<length (map Torch ds)]
      (map Torch ds) = (Inr (), map (\<lambda>q. Torch (g q)) [0..<length (map Torch ds)])"
    using g by (intro update_each_at) simp
  then have parts: "update_each (\<lambda>q. update_at (read_cache_partition T N (Torch table) (Torch r) [bs, bl] q) (int q)) [0..<length ds]
      (map Torch ds) = (Inr (), map Torch ?ps)" by (simp add: o_def)
  let ?R = "\<lambda>q v. th_getitem T (g q) [full_key, prefix_key n, full_key] = Inr v \<and>
      th_shape T v = [bs, n, pk_attn_head_count c, pk_attn_head_dim c] \<and>
      cells v = cut (nat bs) (nat (bl * pk_block_seq_stride c) * vol [pk_attn_head_count c, pk_attn_head_dim c]) 0
         (nat n * vol [pk_attn_head_count c, pk_attn_head_dim c]) (cells (g q))"
  have "\<exists>v. ?R q v" if "q < length ds" for q
    using laws g [OF that] n unfolding slices_ok_def part_shape_def by blast
  then obtain h where h: "\<And>q. q < length ds \<Longrightarrow> ?R q (h q)" by metis
  let ?rs = "map h [0..<length ds]"
  have "res_map (\<lambda>p. any_getitem T p [full_key, prefix_key n, full_key]) (map Torch ?ps) = Inr (map Torch ?rs)"
    using h by (auto simp: res_map_Inr list_all2_conv_all_nth any_getitem_def)
  then have "paged_read T N c [Torch t] (map Torch ds) b n (Torch i) = (Inr (map Torch ?rs), map Torch ?ps)"
    using sub parts i(1) by (simp add: paged_read_def any_shape_def o_def)
  moreover have "length ?ps = length ds" "length ?rs = length ds" by simp_all
  moreover have "th_shape T (?ps ! q) = part_shape c bs bl \<and> cells (?ps ! q) = stored c b (int q) ps (cells t) \<and>
       th_shape T (?rs ! q) = [bs, n, pk_attn_head_count c, pk_attn_head_dim c] \<and>
       cells (?rs ! q) = cut (nat bs) (nat (bl * pk_block_seq_stride c) * vol [pk_attn_head_count c, pk_attn_head_dim c]) 0
         (nat n * vol [pk_attn_head_count c, pk_attn_head_dim c]) (stored c b (int q) ps (cells t))" if "q < length ds" for q
    using g [OF that] h [OF that] that by simp
  ultimately show ?thesis by blast
qed

end
