(* ===== verification/Tn_Kv_Properties.thy ===== *)
theory Tn_Kv_Properties
  imports Tn_Arrays Tn_Kv_Facts
begin

section \<open>Properties of the paged key-value cache\<close>

text \<open>
  What is written can be read back, and reading anything else gives what it gave before. The instances
  use the arrays of \<open>Tn_Arrays\<close>.
\<close>

lemma page_ids_length:
  assumes "torch_kv_ok T N cells icells" and "th_shape T i = [bs, bl]"
  shows "0 \<le> bs \<and> 0 \<le> bl \<and> length (icells i) = nat bs * nat bl"
proof -
  have ok: "content_ok T icells" using assms(1) by (simp add: torch_kv_ok_def)
  show ?thesis using content_nonneg [OF ok, of _ i] content_length [OF ok, of i] assms(2) by auto
qed

lemma stored_part:
  assumes ok: "torch_kv_ok T N cells icells" and c: "unsharded_kv c"
    and i: "th_shape T i = [bs, bl]" "icells i = ps" and v: "th_shape T v = part_shape c bs bl"
    and rows: "\<forall>j < length ps. block_at (vol (subblock_shape c)) xs (nat (subblock_row c b q (ps ! j))) = block_at (vol (subblock_shape c)) (cells v) j"
  shows "stored c b q ps xs = cells v"
proof -
  from page_ids_length [OF ok i(1)] i(2) have n: "length ps = nat bs * nat bl" "0 \<le> bs" "0 \<le> bl" by simp_all
  have "content_ok T cells" using ok by (simp add: torch_kv_ok_def)
  from content_length [OF this, of v] v n c have "length (cells v) = length ps * vol (subblock_shape c)"
    by (simp add: part_shape_def subblock_shape_def unsharded_kv_def nat_mult_distrib)
  then have "concat (map (block_at (vol (subblock_shape c)) (cells v)) [0..<length ps]) = cells v" by (rule concat_blocks_at)
  moreover have "map (\<lambda>p. block_at (vol (subblock_shape c)) xs (nat (subblock_row c b q p))) ps =
      map (block_at (vol (subblock_shape c)) (cells v)) [0..<length ps]"
    using rows by (intro nth_equalityI) simp_all
  ultimately show ?thesis by (simp add: stored_def)
qed

subsection \<open>Arrays\<close>

definition array_ints :: "array int_torch" where
  "array_ints =
     \<lparr>nt_mul = (\<lambda>k t. Inr (ar_shape t, map (\<lambda>x. x * k) (ar_cells t))),
      nt_add = (\<lambda>k t. Inr (ar_shape t, map (\<lambda>x. x + k) (ar_cells t))),
      nt_floordiv = (\<lambda>k t. if k = 0 then Inl RuntimeError else Inr (ar_shape t, map (\<lambda>x. x div k) (ar_cells t))),
      nt_mod = (\<lambda>k t. if k = 0 then Inl RuntimeError else Inr (ar_shape t, map (\<lambda>x. x mod k) (ar_cells t))),
      nt_full = (\<lambda>s x. (s, List.replicate (vol s) x)), nt_empty = (\<lambda>s. (s, List.replicate (vol s) 0))\<rparr>"

lemma array_reshape: "reshape_ok array_torch ar_cells"
proof -
  have "\<exists>r. ar_view t s = Inr r \<and> ar_shape r = s \<and> ar_cells r = ar_cells t"
    if "\<forall>x \<in> set s. 0 \<le> x" "vol s = vol (ar_shape t)" for t s
    using that by (auto simp: ar_view_def list_all_iff)
  then show ?thesis
    using ar_flatten_mid ar_unflatten_mid by (auto simp: reshape_ok_def array_torch_simps)
qed

lemma array_scalars: "scalars_ok array_torch array_ints ar_cells"
  by (auto simp: scalars_ok_def array_ints_def array_torch_simps ar_shape_nonneg)

lemma array_slices: "slices_ok array_torch ar_cells"
proof -
  have "\<exists>r. ar_getitem t [full_key, prefix_key n, full_key] = Inr r \<and> ar_shape r = a # n # k # rest \<and>
      ar_cells r = cut (nat a) (nat m * vol (k # rest)) 0 (nat n * vol (k # rest)) (ar_cells t)"
    if t: "ar_shape t = a # m # k # rest" and n: "0 \<le> n" "n \<le> m" for t a m k rest n
  proof -
    have "ar_getitem t [full_key, prefix_key n, full_key] =
        Inr ((a # m # k # rest)[1 := int (nat n)],
          cut (vol (take 1 (a # m # k # rest))) (nat ((a # m # k # rest) ! 1) * vol (drop (Suc 1) (a # m # k # rest)))
            (0 * vol (drop (Suc 1) (a # m # k # rest))) (nat n * vol (drop (Suc 1) (a # m # k # rest))) (ar_cells t))"
      using t n by (simp add: ar_getitem_def full_key_def prefix_key_def Let_def)
    with ar_cut [OF t, of 1 0 "nat n"] n show ?thesis by (simp add: nat_le_iff)
  qed
  then show ?thesis by (auto simp: slices_ok_def array_torch_simps ar_setitem_def ar_shape_nonneg)
qed

lemma block_at_concat:
  assumes "\<forall>p < n. length (f p) = K" and "p < n"
  shows "block_at K (concat (map f [0..<n])) p = f p"
proof -
  have "[0..<n] = [0..<p] @ p # [Suc p..<n]" using assms(2) by (rule upt_at)
  then have "concat (map f [0..<n]) = concat (map f [0..<p]) @ f p @ concat (map f [Suc p..<n])" by (simp del: upt_Suc)
  moreover have "length (concat (map f [0..<p])) = p * K"
    using assms by (subst length_concat_uniform [where n = K]) auto
  ultimately show ?thesis using assms by (simp add: block_at_def)
qed

lemma length_block_row:
  assumes "ar_shape t = n # rest" "0 \<le> x" "x < n"
  shows "length (block_at (vol rest) (ar_cells t) (nat x)) = vol rest"
  using assms length_block_at [of "ar_cells t" "nat n" "vol rest" "nat x"] by simp

lemma array_rows: "rows_ok array_torch ar_cells ar_cells"
  unfolding rows_ok_def array_torch_simps
proof (intro conjI allI impI)
  fix t i :: array and n rest m
  assume t: "ar_shape t = n # rest" and i: "ar_shape i = [m]" and range: "\<forall>x \<in> set (ar_cells i). 0 \<le> x \<and> x < n"
  have m: "0 \<le> m" "length (ar_cells i) = nat m" using ar_shape_nonneg [of m i] i by simp_all
  have nonneg: "\<forall>x \<in> set (m # rest). 0 \<le> x" using ar_shape_nonneg [of _ t] t m by auto
  have "length (concat (map (\<lambda>x. block_at (vol rest) (ar_cells t) (nat x)) (ar_cells i))) = vol (m # rest)"
    using length_block_row [OF t] range m by (subst length_concat_uniform [where n = "vol rest"]) auto
  with nonneg show "\<exists>r. ar_index_select t 0 i = Inr r \<and> ar_shape r = m # rest \<and>
      ar_cells r = concat (map (\<lambda>x. block_at (vol rest) (ar_cells t) (nat x)) (ar_cells i))"
    using t i range by (simp add: ar_index_select_def list_all_iff)
next
  fix t i v :: array and n rest m
  assume t: "ar_shape t = n # rest" and i: "ar_shape i = [m]" and v: "ar_shape v = m # rest"
    and range: "\<forall>x \<in> set (ar_cells i). 0 \<le> x \<and> x < n" and dist: "distinct (ar_cells i)"
  let ?j = "\<lambda>p. length (takeWhile (\<lambda>x. x \<noteq> int p) (ar_cells i))"
  let ?f = "\<lambda>p. if ?j p < length (ar_cells i) then block_at (vol rest) (ar_cells v) (?j p) else block_at (vol rest) (ar_cells t) p"
  have m: "0 \<le> m" "length (ar_cells i) = nat m" using ar_shape_nonneg [of m i] i by simp_all
  have nonneg: "\<forall>x \<in> set (n # rest). 0 \<le> x" using ar_shape_nonneg [of _ t] t by auto
  have len: "\<forall>p < nat n. length (?f p) = vol rest"
  proof (intro allI impI)
    fix p assume "p < nat n"
    then show "length (?f p) = vol rest"
      using length_block_row [OF t, of "int p"] length_block_row [OF v, of "int (?j p)"] m by auto
  qed
  have whole: "length (concat (map ?f [0..<nat n])) = vol (n # rest)"
    using len by (subst length_concat_uniform [where n = "vol rest"]) auto
  have "ar_index_copy t 0 i v = Inr (n # rest, concat (map ?f [0..<nat n]))"
    using t i v range by (simp add: ar_index_copy_def list_all_iff Let_def)
  moreover have block: "block_at (vol rest) (concat (map ?f [0..<nat n])) p = ?f p" if "p < nat n" for p
    using block_at_concat [OF len that] .
  moreover have "?f (nat (ar_cells i ! k)) = block_at (vol rest) (ar_cells v) k \<and> nat (ar_cells i ! k) < nat n"
    if k: "k < length (ar_cells i)" for k
  proof -
    have x: "0 \<le> ar_cells i ! k" "ar_cells i ! k < n" using range k by simp_all
    have "?j (nat (ar_cells i ! k)) = k"
    proof -
      have "takeWhile (\<lambda>x. x \<noteq> ar_cells i ! k) (ar_cells i) = take k (ar_cells i)"
        using k dist by (intro takeWhile_eq_take_P_nth) (auto simp: nth_eq_iff_index_eq)
      then show ?thesis using x k by simp
    qed
    with k x show ?thesis by simp
  qed
  moreover have "?f p = block_at (vol rest) (ar_cells t) p" if "int p \<notin> set (ar_cells i)" for p
  proof -
    have "?j p = length (ar_cells i)" using that by (subst takeWhile_eq_all_conv [THEN iffD2]) auto
    then show ?thesis by simp
  qed
  ultimately show "\<exists>r. ar_index_copy t 0 i v = Inr r \<and> ar_shape r = n # rest \<and>
      (\<forall>j < length (ar_cells i). block_at (vol rest) (ar_cells r) (nat (ar_cells i ! j)) = block_at (vol rest) (ar_cells v) j) \<and>
      (\<forall>p. int p < n \<longrightarrow> int p \<notin> set (ar_cells i) \<longrightarrow> block_at (vol rest) (ar_cells r) p = block_at (vol rest) (ar_cells t) p)"
    using nonneg whole by (intro exI [of _ "(n # rest, concat (map ?f [0..<nat n]))"]) auto
qed

lemma array_torch_kv: "torch_kv_ok array_torch array_ints ar_cells ar_cells"
  unfolding torch_kv_ok_def by (intro conjI array_content array_reshape array_scalars array_rows array_slices)

subsection \<open>What is written is read\<close>

text \<open>
  C10: Writing the partitions of a transformer block to distinct pages of an unsharded paged cache succeeds,
  and reading the same pages of the block then gives the partitions that were written, in full in the
  tensors that are read into and cut to the sequence length in the result. The pages and the block exist, the
  tensors have the shape of a partition, the length fits into the pages, and torch obeys \<open>torch_kv_ok\<close>.
\<close>

theorem kv_write_then_read:
  assumes ok: "torch_kv_ok T N cells icells" and c: "unsharded_kv c" and slab: "slab_ok T c P t"
    and i: "th_shape T i = [bs, bl]" and ps: "distinct (icells i)" "\<forall>p \<in> set (icells i). 0 \<le> p \<and> p < P"
    and b: "0 \<le> b" "b < pk_transformer_block_count c"
    and vs: "int (length vs) \<le> pk_cache_partition_count c" "\<forall>v \<in> set vs. th_shape T v = part_shape c bs bl"
    and ds: "length ds = length vs" "\<forall>d \<in> set ds. th_shape T d = part_shape c bs bl"
    and n: "0 \<le> n" "n \<le> bl * pk_block_seq_stride c"
  shows "\<exists>t' qs rs. paged_write T N c [Torch t] (map Torch vs) b (Torch i) = (Inr (), [Torch t']) \<and>
    paged_read T N c [Torch t'] (map Torch ds) b n (Torch i) = (Inr (map Torch rs), map Torch qs) \<and>
    length rs = length vs \<and> length qs = length vs \<and>
    (\<forall>k < length vs. cells (qs ! k) = cells (vs ! k) \<and>
       th_shape T (rs ! k) = [bs, n, pk_attn_head_count c, pk_attn_head_dim c] \<and>
       cells (rs ! k) = cut (nat bs) (nat (bl * pk_block_seq_stride c) * vol [pk_attn_head_count c, pk_attn_head_dim c]) 0
         (nat n * vol [pk_attn_head_count c, pk_attn_head_dim c]) (cells (vs ! k)))"
proof -
  obtain t' where t': "paged_write T N c [Torch t] (map Torch vs) b (Torch i) = (Inr (), [Torch t'])" "slab_ok T c P t'"
      "\<forall>q < length vs. \<forall>j < length (icells i). block_at (vol (subblock_shape c)) (cells t') (nat (subblock_row c b (int q) (icells i ! j))) =
          block_at (vol (subblock_shape c)) (cells (vs ! q)) j"
    using paged_write_rows [OF ok c slab i refl ps b vs] by blast
  have whole: "stored c b (int k) (icells i) (cells t') = cells (vs ! k)" if "k < length vs" for k
    using stored_part [OF ok c i refl, of "vs ! k"] t'(3) vs(2) that by simp
  have "int (length ds) \<le> pk_cache_partition_count c" using ds(1) vs(1) by simp
  from paged_read_rows [OF ok c t'(2) i refl ps(2) b this ds(2) n] obtain qs rs where
    r: "paged_read T N c [Torch t'] (map Torch ds) b n (Torch i) = (Inr (map Torch rs), map Torch qs)"
      "length qs = length vs" "length rs = length vs"
      "\<And>q. q < length vs \<Longrightarrow> cells (qs ! q) = stored c b (int q) (icells i) (cells t') \<and>
        th_shape T (rs ! q) = [bs, n, pk_attn_head_count c, pk_attn_head_dim c] \<and>
        cells (rs ! q) = cut (nat bs) (nat (bl * pk_block_seq_stride c) * vol [pk_attn_head_count c, pk_attn_head_dim c]) 0
         (nat n * vol [pk_attn_head_count c, pk_attn_head_dim c]) (stored c b (int q) (icells i) (cells t'))"
    unfolding ds(1) by blast
  show ?thesis
    by (rule exI [of _ t'], rule exI [of _ qs], rule exI [of _ rs]) (simp add: t'(1) r whole)
qed

text \<open>Three pages of two blocks, keys and values, two positions a page; pages 2 and 0 of block 1.\<close>

definition small_cache :: paged_kv_cache where
  "small_cache =
     \<lparr>pk_transformer_block_count = 2, pk_attn_head_count = 1, pk_attn_head_dim = 1, pk_cache_partition_count = 2,
      pk_block_seq_stride = 2, pk_shard_count = 1\<rparr>"

definition small_slab :: array where
  "small_slab = ([3, 8], map int [0..<24])"

lemma small_ok: "unsharded_kv small_cache" "slab_ok array_torch small_cache 3 small_slab"
  by (simp_all add: unsharded_kv_def small_cache_def subblock_shape_def slab_ok_def page_slab_flat_dim_def sub_page_dims_def
      small_slab_def array_torch_simps)

theorem kv_write_then_read_witness:
  "\<exists>t' qs rs. paged_write array_torch array_ints small_cache [Torch small_slab]
      [Torch ([1, 4, 1, 1], [100, 101, 102, 103]), Torch ([1, 4, 1, 1], [200, 201, 202, 203])] 1 (Torch ([1, 2], [2, 0])) =
        (Inr (), [Torch t']) \<and>
     paged_read array_torch array_ints small_cache [Torch t']
      [Torch ([1, 4, 1, 1], [0, 0, 0, 0]), Torch ([1, 4, 1, 1], [0, 0, 0, 0])] 1 3 (Torch ([1, 2], [2, 0])) =
        (Inr (map Torch rs), map Torch qs) \<and>
     map ar_cells qs = [[100, 101, 102, 103], [200, 201, 202, 203]] \<and> map ar_cells rs = [[100, 101, 102], [200, 201, 202]]"
proof -
  let ?vs = "[([1, 4, 1, 1], [100, 101, 102, 103]), ([1, 4, 1, 1], [200, 201, 202, 203])] :: array list"
  let ?ds = "[([1, 4, 1, 1], [0, 0, 0, 0]), ([1, 4, 1, 1], [0, 0, 0, 0])] :: array list"
  have shapes: "\<forall>v \<in> set ?vs. th_shape array_torch v = part_shape small_cache 1 2"
    "\<forall>d \<in> set ?ds. th_shape array_torch d = part_shape small_cache 1 2" "th_shape array_torch ([1, 2], [2, 0]) = [1, 2]"
    by (simp_all add: array_torch_simps part_shape_def small_cache_def)
  have nums: "int (length ?vs) \<le> pk_cache_partition_count small_cache" "(1 :: int) < pk_transformer_block_count small_cache"
    "(3 :: int) \<le> 2 * pk_block_seq_stride small_cache" by (simp_all add: small_cache_def)
  obtain t' qs rs where r: "paged_write array_torch array_ints small_cache [Torch small_slab] (map Torch ?vs) 1 (Torch ([1, 2], [2, 0])) =
        (Inr (), [Torch t'])"
      "paged_read array_torch array_ints small_cache [Torch t'] (map Torch ?ds) 1 3 (Torch ([1, 2], [2, 0])) = (Inr (map Torch rs), map Torch qs)"
      "length rs = length ?vs" "length qs = length ?vs"
      "\<forall>k < length ?vs. ar_cells (qs ! k) = ar_cells (?vs ! k) \<and>
         ar_cells (rs ! k) = cut (nat 1) (nat (2 * pk_block_seq_stride small_cache) * vol [pk_attn_head_count small_cache, pk_attn_head_dim small_cache]) 0
         (nat 3 * vol [pk_attn_head_count small_cache, pk_attn_head_dim small_cache]) (ar_cells (?vs ! k))"
    using kv_write_then_read [OF array_torch_kv small_ok shapes(3) _ _ _ nums(2) nums(1) shapes(1) _ shapes(2) _ nums(3)] by auto
  obtain q0 q1 r0 r1 where qr: "qs = [q0, q1]" "rs = [r0, r1]" using r(3,4) by (auto simp: length_Suc_conv)
  have "ar_cells q0 = [100, 101, 102, 103]" "ar_cells r0 = [100, 101, 102]"
    using r(5) [rule_format, of 0] qr by (simp_all add: small_cache_def cut_def block_at_def)
  moreover have "ar_cells q1 = [200, 201, 202, 203]" "ar_cells r1 = [200, 201, 202]"
    using r(5) [rule_format, of 1] qr by (simp_all add: small_cache_def cut_def block_at_def)
  ultimately show ?thesis using r(1,2) qr by (intro exI [of _ t'] exI [of _ qs] exI [of _ rs]) simp
qed



end
