(* ===== verification/Tn_Nibbles.thy ===== *)
theory Tn_Nibbles
  imports Py_Prelude "HOL-Library.Word"
begin

section \<open>Packed samples\<close>

text \<open>
  Model of \<open>sharktank/types/layout_utils.py\<close>. The functions act on the innermost dimension of a tensor of
  bytes, so a tensor is the list of its rows there; slices, concatenation and stacking of that dimension
  are functions of lists, the bitwise operations those of 8 bit words.
\<close>

unbundle bit_operations_syntax

datatype sample_dtype = Uint8 | Int8 | OtherDtype

record byte_tensor =
  bt_dtype :: sample_dtype
  bt_rows :: "8 word list list"

text \<open>A view does not change the bytes.\<close>

definition view_uint8_tensor :: "byte_tensor \<Rightarrow> byte_tensor res" where
  "view_uint8_tensor t = (if bt_dtype t = OtherDtype then Inl AssertionError else Inr (t\<lparr>bt_dtype := Uint8\<rparr>))"

text \<open>An elementwise operation on two rows: of one length, or one is of length one; else a RuntimeError.\<close>

definition row_op :: "('a \<Rightarrow> 'b \<Rightarrow> 'c) \<Rightarrow> 'a list \<Rightarrow> 'b list \<Rightarrow> 'c list res" where
  "row_op f xs ys =
     (if length xs = length ys then Inr (map2 f xs ys)
      else if length xs = 1 then Inr (map (f (xs ! 0)) ys)
      else if length ys = 1 then Inr (map (\<lambda>x. f x (ys ! 0)) xs)
      else Inl RuntimeError)"

text \<open>The slices with step 2 from the first and from the second element.\<close>

fun evens :: "'a list \<Rightarrow> 'a list" where
  "evens [] = []"
| "evens [x] = [x]"
| "evens (x # y # xs) = x # evens xs"

definition odds :: "'a list \<Rightarrow> 'a list" where
  "odds xs = evens (tl xs)"

lemma evens_Cons: "evens (x # xs) = x # odds xs"
  by (cases xs) (simp_all add: odds_def)

lemma odds_simps: "odds [] = []" "odds (x # xs) = evens xs"
  by (simp_all add: odds_def)

declare evens.simps(2,3) [simp del] evens_Cons [simp] odds_simps [simp]

definition on_rows :: "(8 word list \<Rightarrow> 8 word list res) \<Rightarrow> byte_tensor \<Rightarrow> byte_tensor res" where
  "on_rows f t = res_bind (view_uint8_tensor t) (\<lambda>u. res_bind (res_map f (bt_rows u)) (\<lambda>rs. Inr \<lparr>bt_dtype = Uint8, bt_rows = rs\<rparr>))"

definition low_nibble :: "8 word \<Rightarrow> 8 word" where
  "low_nibble x = x AND 15"

definition high_nibble :: "8 word \<Rightarrow> 8 word" where
  "high_nibble x = drop_bit 4 x"

definition packed :: "8 word \<Rightarrow> 8 word \<Rightarrow> 8 word" where
  "packed high low = push_bit 4 high OR low"

definition linearize_row :: "8 word list \<Rightarrow> 8 word list res" where
  "linearize_row xs =
     (let low = map low_nibble xs; high = map high_nibble xs in
      res_bind (row_op packed (odds low) (evens low)) (\<lambda>t1.
      res_bind (row_op packed (odds high) (evens high)) (\<lambda>t2. Inr (t1 @ t2))))"

definition linearize_interleaved_i4_block :: "byte_tensor \<Rightarrow> byte_tensor res" where
  "linearize_interleaved_i4_block t = on_rows linearize_row t"

definition zipped :: "'a list \<Rightarrow> 'a list \<Rightarrow> 'a list" where
  "zipped xs ys = concat (map2 (\<lambda>x y. [x, y]) xs ys)"

text \<open>\<open>tensor_split(2)\<close> gives the first part the element that is left over.\<close>

definition interleave_row :: "8 word list \<Rightarrow> 8 word list res" where
  "interleave_row xs =
     (let n = (length xs + 1) div 2; t1 = take n xs; t2 = drop n xs in
      if length t1 \<noteq> length t2 then Inl AssertionError
      else
        (let i0 = map2 packed (map low_nibble t2) (map low_nibble t1);
             i1 = map2 packed (map high_nibble t2) (map high_nibble t1)
         in Inr (zipped i0 i1)))"

definition interleave_linear_i4_block :: "byte_tensor \<Rightarrow> byte_tensor res" where
  "interleave_linear_i4_block t = on_rows interleave_row t"

definition promote_linear_i4_block_to_i8 :: "bool \<Rightarrow> byte_tensor \<Rightarrow> byte_tensor res" where
  "promote_linear_i4_block_to_i8 is_signed t =
     res_bind (view_uint8_tensor t) (\<lambda>u.
       Inr (if is_signed
            then \<lparr>bt_dtype = Int8, bt_rows = map (\<lambda>xs. zipped (map (\<lambda>x. signed_drop_bit 4 (push_bit 4 x)) xs)
                                                             (map (\<lambda>x. signed_drop_bit 4 x) xs)) (bt_rows u)\<rparr>
            else \<lparr>bt_dtype = Uint8, bt_rows = map (\<lambda>xs. zipped (map low_nibble xs) (map high_nibble xs)) (bt_rows u)\<rparr>))"

definition crumbs :: "8 word \<Rightarrow> 8 word list" where
  "crumbs x = [x AND 3, drop_bit 2 x AND 3, drop_bit 4 x AND 3, drop_bit 6 x AND 3]"

definition promote_linear_i2_block_to_i8 :: "byte_tensor \<Rightarrow> byte_tensor res" where
  "promote_linear_i2_block_to_i8 t =
     res_bind (view_uint8_tensor t) (\<lambda>u.
       Inr \<lparr>bt_dtype = Uint8, bt_rows = map (\<lambda>xs. concat (map crumbs xs)) (bt_rows u)\<rparr>)"

text \<open>The shapes are compared; tensors of one shape have rows of the same lengths.\<close>

definition promote_linear_i6_block_to_i8 :: "byte_tensor \<Rightarrow> byte_tensor \<Rightarrow> byte_tensor res" where
  "promote_linear_i6_block_to_i8 i6_data_high i6_data_low =
     res_bind (promote_linear_i4_block_to_i8 False i6_data_low) (\<lambda>low.
     res_bind (promote_linear_i2_block_to_i8 i6_data_high) (\<lambda>high.
       if map length (bt_rows low) \<noteq> map length (bt_rows high) then Inl AssertionError
       else Inr \<lparr>bt_dtype = Uint8, bt_rows = map2 (map2 (\<lambda>l h. l OR push_bit 4 h)) (bt_rows low) (bt_rows high)\<rparr>))"

subsection \<open>Nibbles\<close>

lemma bit_15: "bit (15 :: int) n \<longleftrightarrow> n < 4"
proof -
  have "(15 :: int) = mask 4" by (simp add: mask_eq_exp_minus_1)
  then have "bit (15 :: int) n \<longleftrightarrow> bit (mask 4 :: int) n" by (rule arg_cong)
  also have "\<dots> \<longleftrightarrow> n < 4" unfolding bit_mask_iff by auto
  finally show ?thesis .
qed

lemma nibble_simps [simp]:
  "packed (high_nibble x) (low_nibble x) = x"
  "low_nibble (packed a (low_nibble b)) = low_nibble b"
  "high_nibble (packed (low_nibble a) (low_nibble b)) = low_nibble a"
  "low_nibble (high_nibble x) = high_nibble x"
  "low_nibble (low_nibble x) = low_nibble x"
  by (intro bit_word_eqI; auto simp: packed_def high_nibble_def low_nibble_def bit_simps bit_15 not_less dest: bit_imp_le_length)+

lemma nibble_high_simps [simp]:
  "low_nibble (packed a (high_nibble b)) = high_nibble b"
  "high_nibble (packed (high_nibble a) (high_nibble b)) = high_nibble a"
  "high_nibble (packed (low_nibble a) (high_nibble b)) = low_nibble a"
  "high_nibble (packed (high_nibble a) (low_nibble b)) = high_nibble a"
  using nibble_simps(2) [of a "high_nibble b"] nibble_simps(3) [of "high_nibble a" "high_nibble b"]
    nibble_simps(3) [of a "high_nibble b"] nibble_simps(3) [of "high_nibble a" b] by simp_all

lemma length_evens_odds: "length (evens xs) = (length xs + 1) div 2" "length (odds xs) = length xs div 2"
  by (induction xs) auto

lemma map_evens_odds: "evens (map f xs) = map f (evens xs)" "odds (map f xs) = map f (odds xs)"
  by (induction xs) auto

lemma zipped_evens_odds: "even (length xs) \<Longrightarrow> zipped (evens xs) (odds xs) = xs"
proof (induction xs rule: induct_list012)
  case (3 x y zs)
  then show ?case by (simp add: zipped_def)
qed (simp_all add: zipped_def)

lemma evens_odds_zipped: "length xs = length ys \<Longrightarrow> evens (zipped xs ys) = xs \<and> odds (zipped xs ys) = ys"
  by (induction rule: list_induct2) (simp_all add: zipped_def)

lemma linearize_interleave_row:
  assumes "even (length xs)"
  shows "res_bind (linearize_row xs) interleave_row = Inr xs"
proof -
  have len: "length (odds xs) = length (evens xs)" using assms by (auto simp: length_evens_odds elim: evenE)
  have "linearize_row xs = Inr (map2 packed (map low_nibble (odds xs)) (map low_nibble (evens xs)) @
      map2 packed (map high_nibble (odds xs)) (map high_nibble (evens xs)))"
    using len by (simp add: linearize_row_def row_op_def map_evens_odds)
  moreover have "interleave_row (map2 packed (map low_nibble (odds xs)) (map low_nibble (evens xs)) @
      map2 packed (map high_nibble (odds xs)) (map high_nibble (evens xs))) = Inr (zipped (evens xs) (odds xs))"
  proof -
    let ?t1 = "map2 packed (map low_nibble (odds xs)) (map low_nibble (evens xs))"
    let ?t2 = "map2 packed (map high_nibble (odds xs)) (map high_nibble (evens xs))"
    have n: "(length (?t1 @ ?t2) + 1) div 2 = length ?t1" using len by simp
    have "map2 packed (map low_nibble ?t2) (map low_nibble ?t1) = evens xs"
      using len by (intro nth_equalityI) simp_all
    moreover have "map2 packed (map high_nibble ?t2) (map high_nibble ?t1) = odds xs"
      using len by (intro nth_equalityI) simp_all
    ultimately show ?thesis using len unfolding interleave_row_def n by (simp add: Let_def)
  qed
  ultimately show ?thesis using zipped_evens_odds [OF assms] by simp
qed

lemma interleave_linearize_row:
  assumes "even (length xs)"
  shows "res_bind (interleave_row xs) linearize_row = Inr xs"
proof -
  obtain m where m: "length xs = 2 * m" using assms by (elim evenE)
  let ?t1 = "take m xs" let ?t2 = "drop m xs"
  let ?i0 = "map2 packed (map low_nibble ?t2) (map low_nibble ?t1)" let ?i1 = "map2 packed (map high_nibble ?t2) (map high_nibble ?t1)"
  have n: "(length xs + 1) div 2 = m" using m by simp
  have "interleave_row xs = Inr (zipped ?i0 ?i1)"
    using m unfolding interleave_row_def n by (simp add: Let_def)
  moreover have "linearize_row (zipped ?i0 ?i1) = Inr (?t1 @ ?t2)"
  proof -
    have "evens (zipped ?i0 ?i1) = ?i0" "odds (zipped ?i0 ?i1) = ?i1" using m evens_odds_zipped [of ?i0 ?i1] by simp_all
    moreover have "map2 packed (map low_nibble ?i1) (map low_nibble ?i0) = ?t1"
      using m by (intro nth_equalityI) simp_all
    moreover have "map2 packed (map high_nibble ?i1) (map high_nibble ?i0) = ?t2"
      using m by (intro nth_equalityI) simp_all
    ultimately show ?thesis using m by (simp add: linearize_row_def row_op_def map_evens_odds)
  qed
  ultimately show ?thesis by simp
qed

lemma interleave_row_odd: "odd (length xs) \<Longrightarrow> interleave_row xs = Inl AssertionError"
  by (auto simp: interleave_row_def Let_def elim!: oddE)

subsection \<open>Round trips and values\<close>

lemma on_rows_total:
  assumes "bt_dtype t \<noteq> OtherDtype" and "\<And>xs. xs \<in> set (bt_rows t) \<Longrightarrow> f xs = Inr (g xs)"
  shows "on_rows f t = Inr \<lparr>bt_dtype = Uint8, bt_rows = map g (bt_rows t)\<rparr>"
  using assms res_map_total [of "bt_rows t" f g] by (simp add: on_rows_def view_uint8_tensor_def)

lemma on_rows_inverse:
  assumes t: "bt_dtype t \<noteq> OtherDtype" and rows: "\<And>xs. xs \<in> set (bt_rows t) \<Longrightarrow> res_bind (f xs) h = Inr xs"
  shows "res_bind (on_rows f t) (on_rows h) = Inr (t\<lparr>bt_dtype := Uint8\<rparr>)"
proof -
  have "\<exists>y. f xs = Inr y \<and> h y = Inr xs" if "xs \<in> set (bt_rows t)" for xs using rows [OF that] by (auto simp: res_bind_Inr)
  then obtain g where g: "\<And>xs. xs \<in> set (bt_rows t) \<Longrightarrow> f xs = Inr (g xs) \<and> h (g xs) = Inr xs" by metis
  have "on_rows f t = Inr \<lparr>bt_dtype = Uint8, bt_rows = map g (bt_rows t)\<rparr>" using t g by (intro on_rows_total) auto
  moreover have "res_map h (map g (bt_rows t)) = Inr (bt_rows t)"
    using g by (auto simp: res_map_Inr list_all2_conv_all_nth)
  ultimately show ?thesis by (cases t) (simp add: on_rows_def view_uint8_tensor_def)
qed

text \<open>
  \<open>linearize_interleaved_i4_block\<close> has no check for odd rows. The slices then differ by one element, so torch
  broadcasts where the shorter one has at most one element, and raises otherwise.
\<close>

definition linearized_odd :: "8 word list \<Rightarrow> 8 word list res" where
  "linearized_odd xs =
     (case xs of
        [_] \<Rightarrow> Inr []
      | [x, y, z] \<Rightarrow> Inr [packed (low_nibble y) (low_nibble x), packed (low_nibble y) (low_nibble z),
          packed (high_nibble y) (high_nibble x), packed (high_nibble y) (high_nibble z)]
      | _ \<Rightarrow> Inl RuntimeError)"

lemma linearize_row_odd:
  assumes "odd (length xs)"
  shows "linearize_row xs = linearized_odd xs"
proof -
  consider (one) x where "xs = [x]" | (three) x y z where "xs = [x, y, z]" | (more) "5 \<le> length xs"
  proof -
    have "length xs = 1 \<or> length xs = 3 \<or> 5 \<le> length xs" using assms by presburger
    then show ?thesis using that by (auto simp: length_Suc_conv numeral_3_eq_3)
  qed
  then show ?thesis
  proof cases
    case more
    have "length xs div 2 \<noteq> (length xs + 1) div 2" "length xs div 2 \<noteq> 1" "(length xs + 1) div 2 \<noteq> 1"
      using assms more by presburger+
    moreover have "linearized_odd xs = Inl RuntimeError"
      using more by (auto simp: linearized_odd_def split: list.split)
    ultimately show ?thesis
      by (simp add: linearize_row_def row_op_def length_evens_odds del: One_nat_def)
  qed (simp_all add: linearize_row_def linearized_odd_def row_op_def)
qed

text \<open>
  C38: both functions raise AssertionError for a dtype that is not of bytes. For bytes and an even innermost dimension,
  linearizing interleaved nibbles and interleaving linear ones are inverse to each other. If every row of the
  innermost dimension has odd length and there is a row, interleaving raises AssertionError; linearizing does
  not check: one element gives an empty row, three give four bytes (the only odd element is used for both even
  ones), and five or more raise RuntimeError.
\<close>

theorem i4_blocks_roundtrip:
  "(bt_dtype t = OtherDtype \<longrightarrow> linearize_interleaved_i4_block t = Inl AssertionError \<and> interleave_linear_i4_block t = Inl AssertionError) \<and>
   (bt_dtype t \<noteq> OtherDtype \<and> (\<forall>xs \<in> set (bt_rows t). even (length xs)) \<longrightarrow>
      res_bind (linearize_interleaved_i4_block t) interleave_linear_i4_block = Inr (t\<lparr>bt_dtype := Uint8\<rparr>) \<and>
      res_bind (interleave_linear_i4_block t) linearize_interleaved_i4_block = Inr (t\<lparr>bt_dtype := Uint8\<rparr>)) \<and>
   (bt_dtype t \<noteq> OtherDtype \<and> bt_rows t \<noteq> [] \<and> (\<forall>xs \<in> set (bt_rows t). odd (length xs)) \<longrightarrow>
      interleave_linear_i4_block t = Inl AssertionError \<and>
      linearize_interleaved_i4_block t =
        res_bind (res_map linearized_odd (bt_rows t)) (\<lambda>rs. Inr \<lparr>bt_dtype = Uint8, bt_rows = rs\<rparr>) \<and>
      ((\<forall>xs \<in> set (bt_rows t). 5 \<le> length xs) \<longrightarrow> linearize_interleaved_i4_block t = Inl RuntimeError))"
proof (intro conjI impI)
  assume "bt_dtype t = OtherDtype"
  then show "linearize_interleaved_i4_block t = Inl AssertionError" "interleave_linear_i4_block t = Inl AssertionError"
    by (simp_all add: linearize_interleaved_i4_block_def interleave_linear_i4_block_def on_rows_def view_uint8_tensor_def)
next
  assume t: "bt_dtype t \<noteq> OtherDtype \<and> (\<forall>xs \<in> set (bt_rows t). even (length xs))"
  have eta: "linearize_interleaved_i4_block = on_rows linearize_row" "interleave_linear_i4_block = on_rows interleave_row"
    by (rule ext, simp add: linearize_interleaved_i4_block_def interleave_linear_i4_block_def)+
  show "res_bind (linearize_interleaved_i4_block t) interleave_linear_i4_block = Inr (t\<lparr>bt_dtype := Uint8\<rparr>)"
    unfolding eta using t by (intro on_rows_inverse linearize_interleave_row) auto
  show "res_bind (interleave_linear_i4_block t) linearize_interleaved_i4_block = Inr (t\<lparr>bt_dtype := Uint8\<rparr>)"
    unfolding eta using t by (intro on_rows_inverse interleave_linearize_row) auto
next
  assume t: "bt_dtype t \<noteq> OtherDtype \<and> bt_rows t \<noteq> [] \<and> (\<forall>xs \<in> set (bt_rows t). odd (length xs))"
  then obtain xs xss where rows: "bt_rows t = xs # xss" by (cases "bt_rows t") auto
  with t interleave_row_odd [of xs] show "interleave_linear_i4_block t = Inl AssertionError"
    by (simp add: interleave_linear_i4_block_def on_rows_def view_uint8_tensor_def)
  have "res_map linearize_row (bt_rows t) = res_map linearized_odd (bt_rows t)"
    using t linearize_row_odd by (intro res_map_cong) auto
  with t show lin: "linearize_interleaved_i4_block t =
      res_bind (res_map linearized_odd (bt_rows t)) (\<lambda>rs. Inr \<lparr>bt_dtype = Uint8, bt_rows = rs\<rparr>)"
    by (simp add: linearize_interleaved_i4_block_def on_rows_def view_uint8_tensor_def)
  assume "\<forall>xs \<in> set (bt_rows t). 5 \<le> length xs"
  then have "linearized_odd xs = Inl RuntimeError"
    by (auto simp: rows linearized_odd_def split: list.split)
  then show "linearize_interleaved_i4_block t = Inl RuntimeError" unfolding lin rows by simp
qed

theorem i4_blocks_roundtrip_witness:
  "res_bind (linearize_interleaved_i4_block \<lparr>bt_dtype = Int8, bt_rows = [[128, 145, 162, 179]]\<rparr>) interleave_linear_i4_block =
     Inr \<lparr>bt_dtype = Uint8, bt_rows = [[128, 145, 162, 179]]\<rparr> \<and>
   linearize_interleaved_i4_block \<lparr>bt_dtype = Uint8, bt_rows = [[128, 145, 162]]\<rparr> =
     Inr \<lparr>bt_dtype = Uint8, bt_rows = [[16, 18, 152, 154]]\<rparr>"
proof -
  have "linearized_odd [128, 145, 162] = Inr [16, 18, 152, 154]" by code_simp
  then show ?thesis
    using i4_blocks_roundtrip [of "\<lparr>bt_dtype = Int8, bt_rows = [[128, 145, 162, 179]]\<rparr>"]
      i4_blocks_roundtrip [of "\<lparr>bt_dtype = Uint8, bt_rows = [[128, 145, 162]]\<rparr>"] by simp
qed

text \<open>The bytes of the documentation.\<close>

lemma linearize_example:
  "linearize_row [128, 145, 162, 179, 196, 213, 230, 247] = Inr [16, 50, 84, 118, 152, 186, 220, 254]"
  by code_simp

lemma and_mask_15: "(n :: nat) AND 15 = take_bit 4 n"
proof -
  have "(15 :: nat) = mask 4" by (simp add: mask_eq_exp_minus_1)
  then show ?thesis by (simp only: take_bit_eq_mask)
qed

lemma sint_byte: "sint (x :: 8 word) = (uint x + 128) mod 256 - 128"
  by (simp add: sint_uint signed_take_bit_eq_take_bit_shift take_bit_eq_mod)

lemma sint_high: "sint (signed_drop_bit 4 (x :: 8 word)) = (uint (high_nibble x) + 8) mod 16 - 8"
proof -
  have "sint (signed_drop_bit 4 x) = drop_bit 4 (sint x)" by (rule sint_signed_drop_bit_eq)
  then have "sint (signed_drop_bit 4 x) = ((uint x + 128) mod 256 - 128) div 16"
    unfolding sint_byte [of x] by (simp only: drop_bit_eq_div) simp
  moreover have "uint (high_nibble x) = uint x div 16" by (simp add: high_nibble_def drop_bit_eq_div uint_div)
  moreover have "((uint x + 128) mod 256 - 128) div 16 = (uint x div 16 + 8) mod 16 - 8"
  proof -
    have "(uint x + 128) mod (16 * 16) = 16 * ((uint x + 128) div 16 mod 16) + (uint x + 128) mod 16"
      by (rule zmod_zmult2_eq) simp
    moreover have "(uint x + 128) div 16 = uint x div 16 + 8" using div_mult_self1 [of 16 "uint x" 8] by simp
    moreover have "(uint x + 128) mod 16 = uint x mod 16" using mod_mult_self1 [of "uint x" 8 16] by simp
    ultimately have "(uint x + 128) mod 256 - 128 = uint x mod 16 + ((uint x div 16 + 8) mod 16 - 8) * 16" by simp
    moreover have "(uint x mod 16 + c * 16) div 16 = c" for c by simp
    ultimately show ?thesis by (simp only:)
  qed
  ultimately show ?thesis by (simp only:)
qed

lemma sint_low: "sint (signed_drop_bit 4 (push_bit 4 (x :: 8 word))) = (uint (low_nibble x) + 8) mod 16 - 8"
proof -
  have "uint (push_bit 4 x) = take_bit LENGTH(8) (push_bit 4 (uint x))" by (rule unsigned_push_bit_eq)
  then have push: "uint (push_bit 4 x) = (uint x * 16) mod 256" by (simp only: take_bit_eq_mod push_bit_eq_mult) simp
  have "sint (signed_drop_bit 4 (push_bit 4 x)) = drop_bit 4 (sint (push_bit 4 x))" by (rule sint_signed_drop_bit_eq)
  then have "sint (signed_drop_bit 4 (push_bit 4 x)) = (((uint x * 16) mod 256 + 128) mod 256 - 128) div 16"
    unfolding sint_byte [of "push_bit 4 x"] push by (simp only: drop_bit_eq_div) simp
  moreover have "uint (low_nibble x) = uint x mod 16"
  proof -
    have "(15 :: int) = mask 4" by (simp add: mask_eq_exp_minus_1)
    then have "uint x AND 15 = take_bit 4 (uint x)" by (simp only: take_bit_eq_mask)
    then show ?thesis by (simp add: low_nibble_def unsigned_and_eq take_bit_eq_mod)
  qed
  moreover have "(((uint x * 16) mod 256 + 128) mod 256 - 128) div 16 = (uint x mod 16 + 8) mod 16 - 8"
  proof -
    have "(uint x * 16) mod 256 = 16 * (uint x mod 16)" using mult_mod_right [of 16 "uint x" 16] by (simp add: mult.commute)
    then have "((uint x * 16) mod 256 + 128) mod 256 = 16 * ((uint x mod 16 + 8) mod 16)"
      using mult_mod_right [of 16 "uint x mod 16 + 8" 16] by (simp add: distrib_left)
    then have "((uint x * 16) mod 256 + 128) mod 256 - 128 = 16 * ((uint x mod 16 + 8) mod 16 - 8)" by simp
    then show ?thesis by (simp only: nonzero_mult_div_cancel_left)
  qed
  ultimately show ?thesis by (simp only:)
qed

text \<open>
  Promoting linear nibbles keeps order and value: without sign every byte becomes its low and its high
  nibble, of which it is the sum with weights 1 and 16; with sign both become the numbers between -8 and 7
  that are congruent to them modulo 16.
\<close>

theorem promoted_nibbles:
  "promote_linear_i4_block_to_i8 False \<lparr>bt_dtype = Uint8, bt_rows = [[x]]\<rparr> =
     Inr \<lparr>bt_dtype = Uint8, bt_rows = [[low_nibble x, high_nibble x]]\<rparr> \<and>
   unat x = unat (low_nibble x) + 16 * unat (high_nibble x) \<and> unat (low_nibble x) < 16 \<and> unat (high_nibble x) < 16 \<and>
   (\<exists>l h. promote_linear_i4_block_to_i8 True \<lparr>bt_dtype = Uint8, bt_rows = [[x]]\<rparr> = Inr \<lparr>bt_dtype = Int8, bt_rows = [[l, h]]\<rparr> \<and>
      sint l = (uint (low_nibble x) + 8) mod 16 - 8 \<and> sint h = (uint (high_nibble x) + 8) mod 16 - 8)"
proof -
  have low: "unat (low_nibble x) = unat x mod 16"
    using take_bit_eq_mod [of 4 "unat x"] by (simp add: low_nibble_def unsigned_and_eq and_mask_15)
  have high: "unat (high_nibble x) = unat x div 16"
    using drop_bit_eq_div [of 4 "unat x"] by (simp add: high_nibble_def unat_drop_bit_eq)
  show ?thesis using unsigned_less [of x, where ?'a = nat] low high sint_high [of x] sint_low [of x]
    by (auto simp: promote_linear_i4_block_to_i8_def view_uint8_tensor_def zipped_def)
qed

end
