(* ===== verification/Tn_Generator.thy ===== *)
theory Tn_Generator
  imports Tn_Nibbles
begin

section \<open>The generator on the Torch model\<close>

text \<open>
  Model of \<open>sharktank/utils/load_llm.py\<close>, of the padding in \<open>sharktank/utils/tokenizer.py\<close>, the masks and the
  token extraction of \<open>sharktank/layers/causal_llm.py\<close>, the decode loop of \<open>sharktank/examples/paged_llm_v1.py\<close> and
  the evaluation loop of \<open>sharktank/evaluate/perplexity_torch.py\<close>.

  The layers of the network are parameters: \<open>cm_prefill\<close> and \<open>cm_decode\<close> take their arguments and the cache state
  and give the logits and the changed state. Tensors of integers and masks are lists of rows, and the logits of one
  position are one value, of which the program only takes \<open>argmax\<close>.
\<close>

datatype mask_entry = MaximallyNegative | Unmasked

record ('c, 'v) causal_model =
  cm_is_paged :: bool
  cm_block_seq_stride :: int
  cm_context_length :: int
  cm_causal_context_mask :: "bool list list option"
  cm_paged_allocate :: "int \<Rightarrow> 'c"
  cm_direct_allocate :: "nat \<Rightarrow> 'c"
  cm_prefill :: "int list list \<Rightarrow> mask_entry list list list \<Rightarrow> int list list \<Rightarrow> 'c \<Rightarrow> 'v list list res \<times> 'c"
  cm_decode :: "int list list \<Rightarrow> mask_entry list list \<Rightarrow> int list \<Rightarrow> int list list \<Rightarrow> 'c \<Rightarrow> 'v list list res \<times> 'c"
  cm_argmax :: "'v \<Rightarrow> int"

text \<open>Both caches pad a sequence to their block stride.\<close>

definition pad_sequence_stride :: "('c, 'v) causal_model \<Rightarrow> int" where
  "pad_sequence_stride m = cm_block_seq_stride m"

subsection \<open>Tokens\<close>

definition get_prompt_lengths :: "int list list \<Rightarrow> int list \<times> int" where
  "get_prompt_lengths token_ids =
     (map (\<lambda>row. int (length row)) token_ids, foldl (\<lambda>m row. max m (int (length row))) 0 token_ids)"

definition pad_tokens :: "int list list \<Rightarrow> int \<Rightarrow> int \<Rightarrow> int list list \<times> int list" where
  "pad_tokens token_ids pad_to_multiple_of pad_token =
     (let (lengths, longest) = get_prompt_lengths token_ids;
          max_length = (if pad_to_multiple_of > 1 then pad_to_multiple_of * ceil_div longest pad_to_multiple_of else longest)
      in (map (\<lambda>row. row @ List.replicate (nat (max_length - int (length row))) pad_token) token_ids, lengths))"

text \<open>\<open>_encode\<close> and \<open>_decode\<close> of the tokenizer are parameters.\<close>

definition tokenizer_encode :: "('t list \<Rightarrow> bool \<Rightarrow> int list list) \<Rightarrow> 't list \<Rightarrow> int \<Rightarrow> bool \<Rightarrow> int list list \<times> int list" where
  "tokenizer_encode enc texts pad_to_multiple_of add_start_token = pad_tokens (enc texts add_start_token) pad_to_multiple_of 0"

text \<open>\<open>tokens[i] = tokens[i][0:n]\<close> for the length \<open>n\<close> at place \<open>i\<close>; a place without a row raises.\<close>

definition cut_row :: "int \<Rightarrow> 'a list \<Rightarrow> 'a list" where
  "cut_row n row = take (nat (if n < 0 then n + int (length row) else n)) row"

fun cut_rows :: "int list \<Rightarrow> 'a list list \<Rightarrow> 'a list list res" where
  "cut_rows [] rows = Inr rows"
| "cut_rows (n # ns) [] = Inl IndexError"
| "cut_rows (n # ns) (row # rows) = res_bind (cut_rows ns rows) (\<lambda>rest. Inr (cut_row n row # rest))"

definition tokenizer_decode :: "(int list list \<Rightarrow> 't list) \<Rightarrow> int list list \<Rightarrow> int list option \<Rightarrow> 't list res" where
  "tokenizer_decode dec tokens lens =
     res_bind (case lens of None \<Rightarrow> Inr tokens | Some ns \<Rightarrow> cut_rows ns tokens) (\<lambda>rows. Inr (dec rows))"

subsection \<open>Masks and extraction of tokens\<close>

definition input_mask :: "int list \<Rightarrow> int \<Rightarrow> bool list list" where
  "input_mask seq_lens batch_seqlen = map (\<lambda>n. map (\<lambda>j. j \<ge> n) [0..batch_seqlen - 1]) seq_lens"

definition numeric_mask :: "bool list \<Rightarrow> mask_entry list" where
  "numeric_mask row = map (\<lambda>b. if b then MaximallyNegative else Unmasked) row"

definition decode_attention_mask :: "bool list list \<Rightarrow> mask_entry list list" where
  "decode_attention_mask boolean_input_mask = map numeric_mask boolean_input_mask"

definition generate_causal_context_mask :: "('c, 'v) causal_model \<Rightarrow> bool list list" where
  "generate_causal_context_mask m =
     map (\<lambda>i. map (\<lambda>j. j \<ge> i + 1) [0..cm_context_length m - 1]) [0..cm_context_length m - 1]"

text \<open>
  The upper left corner of the causal mask is as wide as the input mask, or as the context when that is shorter;
  then the broadcast of the two raises, except for one column.
\<close>

definition attention_mask :: "('c, 'v) causal_model \<Rightarrow> bool list list \<Rightarrow> nat \<Rightarrow> bool list list option \<Rightarrow> mask_entry list list list res" where
  "attention_mask m boolean_input_mask batch_seq_len given =
     (let causal = (case given of Some c \<Rightarrow> c
                    | None \<Rightarrow> (case cm_causal_context_mask m of Some c \<Rightarrow> c | None \<Rightarrow> generate_causal_context_mask m));
          corner = map (take batch_seq_len) (take batch_seq_len causal)
      in res_map (\<lambda>row. res_map (\<lambda>crow. res_bind (row_op (\<or>) crow row) (\<lambda>b. Inr (numeric_mask b))) corner) boolean_input_mask)"

definition extract_tokens_from_logits :: "('c, 'v) causal_model \<Rightarrow> 'v list list \<Rightarrow> int list \<Rightarrow> int list res" where
  "extract_tokens_from_logits m logits seq_lens =
     (if length seq_lens \<noteq> length logits then Inl AssertionError
      else res_map (\<lambda>(row, seq_len). res_bind (py_get row (seq_len - 1)) (\<lambda>v. Inr (cm_argmax m v))) (zip logits seq_lens))"

subsection \<open>Pages\<close>

text \<open>The attribute \<open>free_pages\<close> is set by the first batch of a paged cache.\<close>

record torch_generator =
  tg_end_token :: int
  tg_free_pages :: "int list option"

definition new_torch_generator :: "int \<Rightarrow> torch_generator" where
  "new_torch_generator end_token = \<lparr>tg_end_token = end_token, tg_free_pages = None\<rparr>"

definition alloc_page :: "('c, 'v) causal_model \<Rightarrow> torch_generator \<Rightarrow> int res \<times> torch_generator" where
  "alloc_page m g =
     (if \<not> cm_is_paged m then (Inr 0, g)
      else (case tg_free_pages g of
              None \<Rightarrow> (Inl AttributeError, g)
            | Some ps \<Rightarrow> (if ps = [] then (Inl IndexError, g) else (Inr (last ps), g\<lparr>tg_free_pages := Some (butlast ps)\<rparr>))))"

definition release_page :: "('c, 'v) causal_model \<Rightarrow> int \<Rightarrow> torch_generator \<Rightarrow> unit res \<times> torch_generator" where
  "release_page m p g =
     (if \<not> cm_is_paged m then (Inr (), g)
      else (case tg_free_pages g of
              None \<Rightarrow> (Inl AttributeError, g)
            | Some ps \<Rightarrow> (Inr (), g\<lparr>tg_free_pages := Some (ps @ [p])\<rparr>)))"

text \<open>Appends pages to a row, as many as are asked for or until one cannot be had.\<close>

fun append_pages :: "('c, 'v) causal_model \<Rightarrow> nat \<Rightarrow> int list \<Rightarrow> torch_generator \<Rightarrow> unit res \<times> int list \<times> torch_generator" where
  "append_pages m 0 row g = (Inr (), row, g)"
| "append_pages m (Suc n) row g =
     (case alloc_page m g of
        (Inl e, g1) \<Rightarrow> (Inl e, row, g1)
      | (Inr p, g1) \<Rightarrow> append_pages m n (row @ [p]) g1)"

subsection \<open>Batches\<close>

record ('c, 'v) torch_batch =
  tb_bs :: nat
  tb_token_ids :: "int list list"
  tb_seq_lens :: "int list"
  tb_cache_state :: 'c
  tb_results :: "int list list"
  tb_done_result_indices :: "nat list"
  tb_seq_block_ids :: "int list list"
  tb_next_tokens :: "int list option"
  tb_logits :: "'v list list option"

definition blocks_needed :: "('c, 'v) causal_model \<Rightarrow> int \<Rightarrow> nat" where
  "blocks_needed m seq_len = (if cm_block_seq_stride m > 0 then nat (ceil_div seq_len (cm_block_seq_stride m)) else 0)"

fun first_rows :: "('c, 'v) causal_model \<Rightarrow> int list \<Rightarrow> torch_generator \<Rightarrow> int list list res \<times> torch_generator" where
  "first_rows m [] g = (Inr [], g)"
| "first_rows m (n # ns) g =
     (case append_pages m (blocks_needed m n) [] g of
        (Inl e, _, g1) \<Rightarrow> (Inl e, g1)
      | (Inr _, row, g1) \<Rightarrow>
          (case first_rows m ns g1 of
             (Inl e, g2) \<Rightarrow> (Inl e, g2)
           | (Inr rows, g2) \<Rightarrow> (Inr (row # rows), g2)))"

definition new_batch :: "('c, 'v) causal_model \<Rightarrow> int list list \<Rightarrow> int list \<Rightarrow> 'c \<Rightarrow> torch_generator \<Rightarrow>
    ('c, 'v) torch_batch res \<times> torch_generator" where
  "new_batch m token_ids seq_lens cache_state g =
     (case first_rows m seq_lens g of
        (Inl e, g1) \<Rightarrow> (Inl e, g1)
      | (Inr rows, g1) \<Rightarrow>
          (Inr \<lparr>tb_bs = length token_ids, tb_token_ids = token_ids, tb_seq_lens = seq_lens, tb_cache_state = cache_state,
                tb_results = List.replicate (length token_ids) [], tb_done_result_indices = [], tb_seq_block_ids = rows,
                tb_next_tokens = None, tb_logits = None\<rparr>, g1))"

definition begin_eval_batch :: "('c, 'v) causal_model \<Rightarrow> int list list \<Rightarrow> int list \<Rightarrow> nat \<Rightarrow> int \<Rightarrow> torch_generator \<Rightarrow>
    ('c, 'v) torch_batch res \<times> torch_generator" where
  "begin_eval_batch m token_batch seq_lens_batch bs page_cache_size g =
     (if cm_is_paged m
      then new_batch m token_batch seq_lens_batch (cm_paged_allocate m page_cache_size) (g\<lparr>tg_free_pages := Some [1..page_cache_size - 1]\<rparr>)
      else new_batch m token_batch seq_lens_batch (cm_direct_allocate m bs) g)"

text \<open>The padded rows have one length, so they make a tensor.\<close>

definition begin_batch :: "('c, 'v) causal_model \<Rightarrow> ('t list \<Rightarrow> bool \<Rightarrow> int list list) \<Rightarrow> 't list \<Rightarrow> bool \<Rightarrow> int \<Rightarrow> torch_generator \<Rightarrow>
    ('c, 'v) torch_batch res \<times> torch_generator" where
  "begin_batch m enc prompts add_start_token page_cache_size g =
     (let (token_ids, seq_lens) = tokenizer_encode enc prompts (pad_sequence_stride m) add_start_token in
      if cm_is_paged m
      then new_batch m token_ids seq_lens (cm_paged_allocate m page_cache_size) (g\<lparr>tg_free_pages := Some [1..page_cache_size - 1]\<rparr>)
      else new_batch m token_ids seq_lens (cm_direct_allocate m (length prompts)) g)"

definition batch_done :: "('c, 'v) torch_batch \<Rightarrow> bool" where
  "batch_done b \<longleftrightarrow> length (tb_done_result_indices b) = tb_bs b"

fun add_tokens :: "int \<Rightarrow> int list \<Rightarrow> nat list \<Rightarrow> ('c, 'v) torch_batch \<Rightarrow> unit res \<times> ('c, 'v) torch_batch" where
  "add_tokens end_token tokens [] b = (Inr (), b)"
| "add_tokens end_token tokens (i # is) b =
     (case list_get tokens i of
        Inl e \<Rightarrow> (Inl e, b)
      | Inr token \<Rightarrow>
          (let b1 = (if token = end_token then b\<lparr>tb_done_result_indices := set_add i (tb_done_result_indices b)\<rparr> else b);
               b2 = (if i \<in> set (tb_done_result_indices b1) then b1
                     else b1\<lparr>tb_results := (tb_results b1)[i := tb_results b1 ! i @ [token]]\<rparr>)
           in add_tokens end_token tokens is b2))"

definition add_result_token :: "torch_generator \<Rightarrow> int list \<Rightarrow> ('c, 'v) torch_batch \<Rightarrow> unit res \<times> ('c, 'v) torch_batch" where
  "add_result_token g tokens b = add_tokens (tg_end_token g) tokens [0..<tb_bs b] b"

definition needed_blocks :: "('c, 'v) causal_model \<Rightarrow> int \<Rightarrow> int res" where
  "needed_blocks m sl =
     (if cm_block_seq_stride m = 0 then Inl ZeroDivisionError
      else Inr (if sl mod cm_block_seq_stride m = 0 then sl div cm_block_seq_stride m + 1 else ceil_div sl (cm_block_seq_stride m)))"

text \<open>The rows that were extended before an exception stay extended.\<close>

fun extend_rows :: "('c, 'v) causal_model \<Rightarrow> nat list \<Rightarrow> ('c, 'v) torch_batch \<Rightarrow> torch_generator \<Rightarrow>
    unit res \<times> ('c, 'v) torch_batch \<times> torch_generator" where
  "extend_rows m [] b g = (Inr (), b, g)"
| "extend_rows m (i # is) b g =
     (case res_bind (list_get (tb_seq_lens b) i) (\<lambda>sl. res_bind (needed_blocks m sl) (\<lambda>n.
             res_bind (list_get (tb_seq_block_ids b) i) (\<lambda>row. Inr (n, row)))) of
        Inl e \<Rightarrow> (Inl e, b, g)
      | Inr (n, row) \<Rightarrow>
          (case append_pages m (nat (n - int (length row))) row g of
             (r, row1, g1) \<Rightarrow>
               (let b1 = b\<lparr>tb_seq_block_ids := (tb_seq_block_ids b)[i := row1]\<rparr> in
                (case r of Inl e \<Rightarrow> (Inl e, b1, g1) | Inr _ \<Rightarrow> extend_rows m is b1 g1))))"

definition allocate_seq_block_ids :: "('c, 'v) causal_model \<Rightarrow> ('c, 'v) torch_batch \<Rightarrow> torch_generator \<Rightarrow>
    unit res \<times> ('c, 'v) torch_batch \<times> torch_generator" where
  "allocate_seq_block_ids m b g = extend_rows m [0..<tb_bs b] b g"

definition longest_row :: "'a list list \<Rightarrow> nat" where
  "longest_row rows = foldl (\<lambda>n r. max n (length r)) 0 rows"

definition pad_block_ids :: "('c, 'v) torch_batch \<Rightarrow> int list list res" where
  "pad_block_ids b =
     (if tb_seq_block_ids b = [] then Inl ValueError
      else Inr (map (\<lambda>r. r @ List.replicate (longest_row (tb_seq_block_ids b) - length r) 0) (tb_seq_block_ids b)))"

text \<open>What follows the call of the network in both steps.\<close>

definition sample_tokens :: "('c, 'v) causal_model \<Rightarrow> torch_generator \<Rightarrow> 'v list list \<Rightarrow> int list \<Rightarrow> ('c, 'v) torch_batch \<Rightarrow>
    unit res \<times> ('c, 'v) torch_batch" where
  "sample_tokens m g logits seq_lens b =
     (let b1 = b\<lparr>tb_logits := Some logits\<rparr> in
      case extract_tokens_from_logits m logits seq_lens of
        Inl e \<Rightarrow> (Inl e, b1)
      | Inr tokens \<Rightarrow>
          (case add_result_token g tokens b1 of
             (Inl e, b2) \<Rightarrow> (Inl e, b2)
           | (Inr _, b2) \<Rightarrow> (Inr (), b2\<lparr>tb_next_tokens := Some tokens\<rparr>)))"

definition prefill_inputs :: "('c, 'v) causal_model \<Rightarrow> ('c, 'v) torch_batch \<Rightarrow> (mask_entry list list list \<times> int list list) res" where
  "prefill_inputs m b =
     (if tb_token_ids b = [] then Inl IndexError
      else (let width = length (hd (tb_token_ids b)) in
            res_bind (attention_mask m (input_mask (tb_seq_lens b) (int width)) width None) (\<lambda>am.
            res_bind (pad_block_ids b) (\<lambda>table. Inr (am, table)))))"

definition prefill :: "('c, 'v) causal_model \<Rightarrow> ('c, 'v) torch_batch \<Rightarrow> torch_generator \<Rightarrow> unit res \<times> ('c, 'v) torch_batch" where
  "prefill m b g =
     (case prefill_inputs m b of
        Inl e \<Rightarrow> (Inl e, b)
      | Inr (am, table) \<Rightarrow>
          (case cm_prefill m (tb_token_ids b) am table (tb_cache_state b) of
             (Inl e, c) \<Rightarrow> (Inl e, b\<lparr>tb_cache_state := c\<rparr>)
           | (Inr logits, c) \<Rightarrow> sample_tokens m g logits (tb_seq_lens b) (b\<lparr>tb_cache_state := c\<rparr>)))"

text \<open>The lengths are increased in place before the pages are allocated.\<close>

definition decode_inputs :: "('c, 'v) causal_model \<Rightarrow> ('c, 'v) torch_batch \<Rightarrow> torch_generator \<Rightarrow>
    (mask_entry list list \<times> int list \<times> int list list) res \<times> ('c, 'v) torch_batch \<times> torch_generator" where
  "decode_inputs m b g =
     (let start_positions = tb_seq_lens b in
      case allocate_seq_block_ids m (b\<lparr>tb_seq_lens := map (\<lambda>n. n + 1) (tb_seq_lens b)\<rparr>) g of
        (Inl e, b1, g1) \<Rightarrow> (Inl e, b1, g1)
      | (Inr _, b1, g1) \<Rightarrow>
          (res_bind (pad_block_ids b1) (\<lambda>table.
             Inr (decode_attention_mask (input_mask (tb_seq_lens b1) (int (length (hd table)) * cm_block_seq_stride m)),
                  start_positions, table)), b1, g1))"

definition decode :: "('c, 'v) causal_model \<Rightarrow> int list list \<Rightarrow> ('c, 'v) torch_batch \<Rightarrow> torch_generator \<Rightarrow>
    unit res \<times> ('c, 'v) torch_batch \<times> torch_generator" where
  "decode m token_batch b g =
     (case decode_inputs m b g of
        (Inl e, b1, g1) \<Rightarrow> (Inl e, b1, g1)
      | (Inr (am, start_positions, table), b1, g1) \<Rightarrow>
          (case cm_decode m token_batch am start_positions table (tb_cache_state b1) of
             (Inl e, c) \<Rightarrow> (Inl e, b1\<lparr>tb_cache_state := c\<rparr>, g1)
           | (Inr logits, c) \<Rightarrow>
               (case sample_tokens m g1 logits (List.replicate (tb_bs b1) 1) (b1\<lparr>tb_cache_state := c\<rparr>) of
                  (r, b2) \<Rightarrow> (r, b2, g1))))"

subsection \<open>The loops of the clients\<close>

text \<open>
  The example program keeps copies of both classes. Its generator allocates the pages and the cache state once, when it
  is made; its steps replicate the arguments for a tensor parallel network and unshard the logits, which is part of
  \<open>cm_prefill\<close> and \<open>cm_decode\<close> here. It feeds every step the tokens of the step before, until the batch is done. The
  loop has no bound of its own; \<open>None\<close> says that the given number of rounds was not enough.
\<close>

definition new_shared_generator :: "('c, 'v) causal_model \<Rightarrow> int \<Rightarrow> int \<Rightarrow> torch_generator \<times> 'c option" where
  "new_shared_generator m page_cache_size end_token =
     (if cm_is_paged m
      then (\<lparr>tg_end_token = end_token, tg_free_pages = Some [1..page_cache_size - 1]\<rparr>, Some (cm_paged_allocate m page_cache_size))
      else (\<lparr>tg_end_token = end_token, tg_free_pages = None\<rparr>, None))"

definition begin_shared_batch :: "('c, 'v) causal_model \<Rightarrow> ('t list \<Rightarrow> bool \<Rightarrow> int list list) \<Rightarrow> 't list \<Rightarrow> 'c option \<Rightarrow> torch_generator \<Rightarrow>
    ('c, 'v) torch_batch res \<times> torch_generator" where
  "begin_shared_batch m enc prompts shared_cache_state g =
     (let (token_ids, seq_lens) = tokenizer_encode enc prompts (pad_sequence_stride m) False;
          cache_state = (case shared_cache_state of Some c \<Rightarrow> c | None \<Rightarrow> cm_direct_allocate m (length prompts))
      in if length seq_lens \<noteq> length token_ids then (Inl AssertionError, g)
         else new_batch m token_ids seq_lens cache_state g)"

definition decode_next :: "('c, 'v) causal_model \<Rightarrow> ('c, 'v) torch_batch \<Rightarrow> torch_generator \<Rightarrow>
    unit res \<times> ('c, 'v) torch_batch \<times> torch_generator" where
  "decode_next m b g =
     (case tb_next_tokens b of None \<Rightarrow> (Inl AttributeError, b, g) | Some ts \<Rightarrow> decode m (map (\<lambda>t. [t]) ts) b g)"

fun decode_until_done :: "('c, 'v) causal_model \<Rightarrow> nat \<Rightarrow> ('c, 'v) torch_batch \<Rightarrow> torch_generator \<Rightarrow>
    (unit res \<times> ('c, 'v) torch_batch \<times> torch_generator) option" where
  "decode_until_done m n b g =
     (if batch_done b then Some (Inr (), b, g)
      else (case n of 0 \<Rightarrow> None
            | Suc k \<Rightarrow> (case decode_next m b g of
                          (Inl e, b1, g1) \<Rightarrow> Some (Inl e, b1, g1)
                        | (Inr _, b1, g1) \<Rightarrow> decode_until_done m k b1 g1)))"

definition generate_text :: "('c, 'v) causal_model \<Rightarrow> ('t list \<Rightarrow> bool \<Rightarrow> int list list) \<Rightarrow> 't list \<Rightarrow> int \<Rightarrow> int \<Rightarrow> nat \<Rightarrow>
    int list list res option" where
  "generate_text m enc prompts page_cache_size end_token rounds =
     (let (g, shared) = new_shared_generator m page_cache_size end_token in
      case begin_shared_batch m enc prompts shared g of
        (Inl e, _) \<Rightarrow> Some (Inl e)
      | (Inr b, g1) \<Rightarrow>
          (case prefill m b g1 of
             (Inl e, _) \<Rightarrow> Some (Inl e)
           | (Inr _, b1) \<Rightarrow>
               (case decode_until_done m rounds b1 g1 of
                  None \<Rightarrow> None
                | Some (Inl e, _, _) \<Rightarrow> Some (Inl e)
                | Some (Inr _, b2, _) \<Rightarrow> Some (Inr (tb_results b2)))))"

text \<open>
  The evaluation feeds the tokens of the prompts: the first of each in the prefill, which starts the batch, and
  then one column after the other. \<open>torch.cat\<close> along the positions needs as many rows in both.
\<close>

definition cat_logits :: "'v list list \<Rightarrow> 'v list list \<Rightarrow> 'v list list res" where
  "cat_logits xs ys = (if length xs = length ys then Inr (map2 (@) xs ys) else Inl RuntimeError)"

definition token_column :: "int list list \<Rightarrow> nat \<Rightarrow> int list list" where
  "token_column token_ids i = map (\<lambda>row. py_slice row i (i + 1)) token_ids"

text \<open>
  The comparison of the predicted with the expected tokens is only printed, but it reads the last token of every
  result. Its guard on the position holds in every round.
\<close>

definition print_token_comparison :: "('c, 'v) torch_batch \<Rightarrow> unit res" where
  "print_token_comparison b = res_bind (res_map (\<lambda>row. py_get row (- 1)) (tb_results b)) (\<lambda>_. Inr ())"

definition first_logits :: "('c, 'v) causal_model \<Rightarrow> int list list \<Rightarrow> nat \<Rightarrow> int \<Rightarrow> torch_generator \<Rightarrow>
    (('c, 'v) torch_batch \<times> torch_generator \<times> 'v list list) res" where
  "first_logits m token_ids bs page_cache_size g =
     (let (token_batch, seq_lens) = pad_tokens (token_column token_ids 0) (pad_sequence_stride m) 0 in
      case begin_eval_batch m token_batch seq_lens bs page_cache_size g of
        (Inl e, _) \<Rightarrow> Inl e
      | (Inr b, g1) \<Rightarrow>
          (case prefill m b g1 of
             (Inl e, _) \<Rightarrow> Inl e
           | (Inr _, b1) \<Rightarrow>
               (case tb_logits b1 of None \<Rightarrow> Inl AttributeError
                | Some l \<Rightarrow> res_bind (print_token_comparison b1) (\<lambda>_. Inr (b1, g1, map (take 1) l)))))"

fun later_logits :: "('c, 'v) causal_model \<Rightarrow> int list list \<Rightarrow> nat list \<Rightarrow> ('c, 'v) torch_batch \<times> torch_generator \<times> 'v list list \<Rightarrow>
    (('c, 'v) torch_batch \<times> torch_generator \<times> 'v list list) res" where
  "later_logits m token_ids [] s = Inr s"
| "later_logits m token_ids (i # is) (b, g, out) =
     (case decode m (token_column token_ids i) b g of
        (Inl e, _) \<Rightarrow> Inl e
      | (Inr _, b1, g1) \<Rightarrow>
          (case tb_logits b1 of
             None \<Rightarrow> Inl AttributeError
           | Some l \<Rightarrow> res_bind (cat_logits out l) (\<lambda>out1.
                         res_bind (print_token_comparison b1) (\<lambda>_. later_logits m token_ids is (b1, g1, out1)))))"

text \<open>
  A longest prompt of fewer than two tokens leaves \<open>out_logits\<close> unset. The padding fills up to the width of the
  tokens; \<open>zero\<close> is the logits of a padded position.
\<close>

definition get_logits :: "('c, 'v) causal_model \<Rightarrow> 'v \<Rightarrow> int list list \<Rightarrow> nat \<Rightarrow> nat \<Rightarrow> int \<Rightarrow> torch_generator \<Rightarrow>
    (('c, 'v) torch_batch \<times> torch_generator \<times> 'v list list) res" where
  "get_logits m zero token_ids bs max_prompt_length page_cache_size g =
     (if max_prompt_length < 2 then Inl AttributeError
      else
        res_bind (first_logits m token_ids bs page_cache_size g) (\<lambda>s.
        res_bind (later_logits m token_ids [1..<max_prompt_length - 1] s) (\<lambda>(b, g1, out).
          if out = [] then Inl IndexError
          else if length (hd token_ids) < length (hd out) then Inl RuntimeError
          else Inr (b, g1, map (\<lambda>row. row @ List.replicate (length (hd token_ids) - length (hd out)) zero) out))))"

text \<open>
  What \<open>get_perplexity\<close> gives to the computation of the losses: the logits without the last position, and the
  tokens and their mask without the first. The default stride of the configuration is the one of the cache.
\<close>

definition perplexity_inputs :: "('c, 'v) causal_model \<Rightarrow> ('t list \<Rightarrow> bool \<Rightarrow> int list list) \<Rightarrow> 'v \<Rightarrow> 't list \<Rightarrow> torch_generator \<Rightarrow>
    ('v list list \<times> int list list \<times> int list list) res" where
  "perplexity_inputs m enc zero test_prompts g =
     (let (token_ids, seq_lens) = tokenizer_encode enc test_prompts (pad_sequence_stride m) False in
      if token_ids = [] then Inl IndexError
      else if cm_block_seq_stride m = 0 then Inl ZeroDivisionError
      else
        (let page_cache_size = int (length (hd token_ids)) div cm_block_seq_stride m * int (length test_prompts) + 1;
             max_prompt_length = nat (foldl max 0 seq_lens)
         in res_bind (get_logits m zero token_ids (length test_prompts) max_prompt_length page_cache_size g) (\<lambda>(b, g1, out).
              let logits = map butlast out; tokens = map tl token_ids;
                  amask = map (\<lambda>row. map (\<lambda>t. if t \<noteq> 0 then 1 else 0) (tl row)) token_ids
              in if map length tokens = map length logits then Inr (logits, tokens, amask) else Inl AssertionError)))"

end
