(* ===== verification/Tn_Generator_Facts.thy ===== *)
theory Tn_Generator_Facts
  imports Tn_Generator "HOL-Library.Sublist"
begin

section \<open>Pages, tables and masks of the generator\<close>

text \<open>
  The pages a paged cache hands out: what the rows of a batch and the free list hold together never changes
  (\<open>held\<close>), a step that succeeds leaves every row long enough for the positions of its sequence, and the tables
  and masks the network is called with address the pages of the sequence itself.
\<close>

subsection \<open>Pages\<close>

definition free_list :: "torch_generator \<Rightarrow> int list" where
  "free_list g = (case tg_free_pages g of None \<Rightarrow> [] | Some ps \<Rightarrow> ps)"

lemma append_pages_paged:
  assumes "cm_is_paged m" and "tg_free_pages g = Some ps"
  shows "append_pages m n row g =
    (if n \<le> length ps then (Inr (), row @ take n (rev ps), g\<lparr>tg_free_pages := Some (take (length ps - n) ps)\<rparr>)
     else (Inl IndexError, row @ rev ps, g\<lparr>tg_free_pages := Some []\<rparr>))"
  using assms
proof (induction n arbitrary: row g ps)
  case (Suc n)
  show ?case
  proof (cases ps rule: rev_cases)
    case Nil
    with Suc.prems show ?thesis by (simp add: alloc_page_def)
  next
    case (snoc qs p)
    with Suc.IH [of "g\<lparr>tg_free_pages := Some qs\<rparr>" qs "row @ [p]"] Suc.prems show ?thesis
      by (simp add: alloc_page_def)
  qed
qed simp

lemma append_pages_cases:
  assumes "cm_is_paged m" and "tg_free_pages g \<noteq> None" and "append_pages m n row g = (r, row1, g1)"
  obtains new where "row1 = row @ new" "mset new + mset (free_list g1) = mset (free_list g)" "tg_free_pages g1 \<noteq> None"
    "length new \<le> n" "r = Inr () \<and> length new = n \<or> r = Inl IndexError \<and> length (free_list g) < n"
proof -
  from assms(2) obtain ps where ps: "tg_free_pages g = Some ps" by auto
  show thesis
  proof (cases "n \<le> length ps")
    case True
    have "mset (take n (rev ps)) + mset (take (length ps - n) ps) = mset ps"
      using mset_take_drop [of "length ps - n" ps] by (simp add: take_rev ac_simps)
    with True assms(3) append_pages_paged [OF assms(1) ps, of n row] ps show thesis
      by (intro that [of "take n (rev ps)"]) (auto simp: free_list_def)
  next
    case False
    with assms(3) append_pages_paged [OF assms(1) ps, of n row] ps show thesis
      by (intro that [of "rev ps"]) (auto simp: free_list_def)
  qed
qed

lemma mset_concat_update:
  "i < length rows \<Longrightarrow> rows ! i = row \<Longrightarrow> mset (concat (rows[i := row @ new])) = mset (concat rows) + mset new"
  by (induction rows arbitrary: i) (auto split: nat.splits simp: nth_Cons)

definition held :: "('c, 'v) torch_batch \<Rightarrow> torch_generator \<Rightarrow> int multiset" where
  "held b g = mset (concat (tb_seq_block_ids b)) + mset (free_list g)"

definition extends :: "int list list \<Rightarrow> int list list \<Rightarrow> bool" where
  "extends rows rows1 \<longleftrightarrow> list_all2 prefix rows rows1"

lemma extends_refl [simp]: "extends rows rows"
  by (simp add: extends_def list_all2_refl)

lemma extends_trans: "extends a b \<Longrightarrow> extends b c \<Longrightarrow> extends a c"
  unfolding extends_def by (rule list_all2_trans [OF prefix_order.trans])

lemma extends_update: "i < length rows \<Longrightarrow> extends rows (rows[i := rows ! i @ new])"
  by (auto simp: extends_def list_all2_conv_all_nth nth_list_update)

lemma extends_nth: "extends rows rows1 \<Longrightarrow> i < length rows \<Longrightarrow> prefix (rows ! i) (rows1 ! i)"
  by (simp add: extends_def list_all2_nthD)

lemma extends_length: "extends rows rows1 \<Longrightarrow> length rows1 = length rows"
  by (simp add: extends_def list_all2_lengthD)

lemma extend_rows_facts:
  assumes "cm_is_paged m" and "tg_free_pages g \<noteq> None" and "0 < cm_block_seq_stride m"
    and "\<forall>i \<in> set is. i < length (tb_seq_lens b) \<and> i < length (tb_seq_block_ids b)"
    and "extend_rows m is b g = (r, b1, g1)"
  shows "held b1 g1 = held b g \<and> tg_free_pages g1 \<noteq> None \<and> (\<exists>rows. b1 = b\<lparr>tb_seq_block_ids := rows\<rparr>) \<and>
    extends (tb_seq_block_ids b) (tb_seq_block_ids b1) \<and>
    (r = Inr () \<and> (\<forall>i \<in> set is. tb_seq_lens b ! i div cm_block_seq_stride m + 1 \<le> int (length (tb_seq_block_ids b1 ! i))) \<or> r = Inl IndexError)"
  using assms
proof (induction "is" arbitrary: b g)
  case Nil
  then show ?case by (auto intro: exI [of _ "tb_seq_block_ids b"])
next
  case (Cons i "is")
  let ?s = "cm_block_seq_stride m" let ?sl = "tb_seq_lens b ! i" let ?row = "tb_seq_block_ids b ! i"
  let ?n = "?sl div ?s + 1"
  have i: "i < length (tb_seq_lens b)" "i < length (tb_seq_block_ids b)" using Cons.prems(4) by simp_all
  have need: "needed_blocks m ?sl = Inr ?n"
    using Cons.prems(3) by (auto simp: needed_blocks_def ceil_div_def div_minus_minus zdiv_zminus1_eq_if)
  have gets: "res_bind (list_get (tb_seq_lens b) i) (\<lambda>sl. res_bind (needed_blocks m sl) (\<lambda>n.
      res_bind (list_get (tb_seq_block_ids b) i) (\<lambda>row. Inr (n, row)))) = Inr (?n, ?row)"
    using i need by (simp add: list_get_def)
  obtain r0 row1 g0 where ap: "append_pages m (nat (?n - int (length ?row))) ?row g = (r0, row1, g0)" by (metis prod_cases3)
  from append_pages_cases [OF Cons.prems(1,2) ap] obtain new where new: "row1 = ?row @ new"
    "mset new + mset (free_list g0) = mset (free_list g)" "tg_free_pages g0 \<noteq> None"
    "r0 = Inr () \<and> length new = nat (?n - int (length ?row)) \<or> r0 = Inl IndexError" by metis
  let ?b0 = "b\<lparr>tb_seq_block_ids := (tb_seq_block_ids b)[i := row1]\<rparr>"
  have b0: "held ?b0 g0 = held b g" "extends (tb_seq_block_ids b) (tb_seq_block_ids ?b0)"
    using i new mset_concat_update [OF i(2) refl, of new] extends_update [OF i(2), of new] by (simp_all add: held_def ac_simps)
  show ?case
  proof (cases r0)
    case (Inl e)
    with Cons.prems(5) gets ap new b0 show ?thesis by auto
  next
    case (Inr u)
    from Cons.prems(5) gets ap Inr have rest: "extend_rows m is ?b0 g0 = (r, b1, g1)" by simp
    have IH: "held b1 g1 = held ?b0 g0 \<and> tg_free_pages g1 \<noteq> None \<and> (\<exists>rows. b1 = ?b0\<lparr>tb_seq_block_ids := rows\<rparr>) \<and>
      extends (tb_seq_block_ids ?b0) (tb_seq_block_ids b1) \<and>
      (r = Inr () \<and> (\<forall>j \<in> set is. tb_seq_lens ?b0 ! j div ?s + 1 \<le> int (length (tb_seq_block_ids b1 ! j))) \<or> r = Inl IndexError)"
      using Cons.IH [OF Cons.prems(1) new(3) Cons.prems(3) _ rest] Cons.prems(4) by simp
    have "?n \<le> int (length (tb_seq_block_ids ?b0 ! i))" using i new Inr by auto
    moreover have "prefix (tb_seq_block_ids ?b0 ! i) (tb_seq_block_ids b1 ! i)" using IH i by (intro extends_nth) auto
    ultimately have "?n \<le> int (length (tb_seq_block_ids b1 ! i))" using prefix_length_le by fastforce
    with IH b0 show ?thesis using extends_trans by auto
  qed
qed


text \<open>Enough pages: no row is longer than \<open>M\<close>, and what is held would do for rows of that length.\<close>

lemma sum_le_one_less:
  fixes f :: "'a \<Rightarrow> nat"
  assumes "i < length xs" and "\<forall>x \<in> set xs. f x \<le> M"
  shows "sum_list (map f xs) \<le> (length xs - 1) * M + f (xs ! i)"
proof -
  have "sum_list (map f (take i xs)) \<le> i * M"
    using assms sum_list_mono [of "take i xs" f "\<lambda>_. M"] by (auto simp: sum_list_triv dest: in_set_takeD)
  moreover have "sum_list (map f (drop (Suc i) xs)) \<le> (length xs - Suc i) * M"
    using assms sum_list_mono [of "drop (Suc i) xs" f "\<lambda>_. M"] by (auto simp: sum_list_triv dest: in_set_dropD)
  moreover have "sum_list (map f xs) = sum_list (map f (take i xs)) + f (xs ! i) + sum_list (map f (drop (Suc i) xs))"
    using id_take_nth_drop [OF assms(1)] by (metis (no_types, lifting) add.assoc list.simps(9) map_append sum_list.Cons sum_list_append)
  moreover have "i * M + (length xs - Suc i) * M = (length xs - 1) * M" using assms(1) by (simp flip: add_mult_distrib)
  ultimately show ?thesis by linarith
qed

lemma size_held: "size (held b g) = sum_list (map length (tb_seq_block_ids b)) + length (free_list g)"
  by (simp add: held_def length_concat)

lemma extend_rows_room:
  assumes "cm_is_paged m" and "tg_free_pages g \<noteq> None" and "0 < cm_block_seq_stride m"
    and "\<forall>i \<in> set is. i < length (tb_seq_lens b) \<and> i < length (tb_seq_block_ids b) \<and> tb_seq_lens b ! i div cm_block_seq_stride m + 1 \<le> int M"
    and "\<forall>row \<in> set (tb_seq_block_ids b). length row \<le> M" and "length (tb_seq_block_ids b) * M \<le> size (held b g)"
    and "extend_rows m is b g = (r, b1, g1)"
  shows "r = Inr () \<and> (\<forall>row \<in> set (tb_seq_block_ids b1). length row \<le> M)"
  using assms
proof (induction "is" arbitrary: b g)
  case (Cons i "is")
  let ?s = "cm_block_seq_stride m" let ?sl = "tb_seq_lens b ! i" let ?row = "tb_seq_block_ids b ! i"
  let ?n = "?sl div ?s + 1"
  have i: "i < length (tb_seq_lens b)" "i < length (tb_seq_block_ids b)" "?n \<le> int M" using Cons.prems(4) by simp_all
  have row: "length ?row \<le> M" using Cons.prems(5) i by simp
  have need: "needed_blocks m ?sl = Inr ?n"
    using Cons.prems(3) by (auto simp: needed_blocks_def ceil_div_def div_minus_minus zdiv_zminus1_eq_if)
  have gets: "res_bind (list_get (tb_seq_lens b) i) (\<lambda>sl. res_bind (needed_blocks m sl) (\<lambda>n.
      res_bind (list_get (tb_seq_block_ids b) i) (\<lambda>row. Inr (n, row)))) = Inr (?n, ?row)"
    using i need by (simp add: list_get_def)
  obtain r0 row1 g0 where ap: "append_pages m (nat (?n - int (length ?row))) ?row g = (r0, row1, g0)" by (metis prod_cases3)
  from append_pages_cases [OF Cons.prems(1,2) ap] obtain new where new: "row1 = ?row @ new"
    "mset new + mset (free_list g0) = mset (free_list g)" "tg_free_pages g0 \<noteq> None" "length new \<le> nat (?n - int (length ?row))"
    "r0 = Inr () \<or> length (free_list g) < nat (?n - int (length ?row))" by metis
  have "length (tb_seq_block_ids b) * M = (length (tb_seq_block_ids b) - 1) * M + M" using i(2) by (cases "length (tb_seq_block_ids b)") auto
  with Cons.prems(6) sum_le_one_less [OF i(2) Cons.prems(5)] have "M - length ?row \<le> length (free_list g)"
    by (simp add: size_held)
  with new(5) i(3) row have "r0 = Inr ()" by auto
  let ?b0 = "b\<lparr>tb_seq_block_ids := (tb_seq_block_ids b)[i := row1]\<rparr>"
  from \<open>r0 = Inr ()\<close> Cons.prems(7) gets ap have rest: "extend_rows m is ?b0 g0 = (r, b1, g1)" by simp
  have "length row1 \<le> M" using new i(3) row by auto
  then have bound: "\<forall>row \<in> set (tb_seq_block_ids ?b0). length row \<le> M"
    using Cons.prems(5) by (auto dest!: set_update_subset_insert [THEN subsetD])
  have "held ?b0 g0 = held b g" using new(1,2) mset_concat_update [OF i(2) refl, of new] by (simp add: held_def ac_simps)
  then show ?case using Cons.prems(4,6) by (intro Cons.IH [OF Cons.prems(1) new(3) Cons.prems(3) _ bound _ rest]) auto
qed auto

lemma first_rows_facts:
  assumes "cm_is_paged m" and "tg_free_pages g \<noteq> None" and "first_rows m ns g = (r, g1)"
  shows "tg_free_pages g1 \<noteq> None \<and> tg_end_token g1 = tg_end_token g \<and>
    (case r of Inr rows \<Rightarrow> map length rows = map (blocks_needed m) ns \<and> mset (concat rows) + mset (free_list g1) = mset (free_list g)
     | Inl e \<Rightarrow> e = IndexError \<and> length (free_list g) < sum_list (map (blocks_needed m) ns))"
  using assms
proof (induction ns arbitrary: g r g1)
  case (Cons n ns)
  obtain r0 row g0 where ap: "append_pages m (blocks_needed m n) [] g = (r0, row, g0)" by (metis prod_cases3)
  from Cons.prems(2) obtain ps where ps: "tg_free_pages g = Some ps" by auto
  obtain r1 g2 where rest: "first_rows m ns g0 = (r1, g2)" by fastforce
  show ?case
  proof (cases "blocks_needed m n \<le> length ps")
    case False
    with ap append_pages_paged [OF Cons.prems(1) ps] Cons.prems(3) show ?thesis by (auto simp: free_list_def ps)
  next
    case True
    with ap append_pages_paged [OF Cons.prems(1) ps]
    have eq: "r0 = Inr ()" "row = take (blocks_needed m n) (rev ps)" "g0 = g\<lparr>tg_free_pages := Some (take (length ps - blocks_needed m n) ps)\<rparr>"
      by auto
    then have g0: "tg_free_pages g0 \<noteq> None" "tg_end_token g0 = tg_end_token g" by simp_all
    have ms: "mset row + mset (free_list g0) = mset ps"
      using mset_take_drop [of "length ps - blocks_needed m n" ps] eq by (simp add: take_rev free_list_def ac_simps)
    from ms have len: "length row + length (free_list g0) = length ps" by (metis size_mset size_union)
    have "length row = blocks_needed m n" using eq True by simp
    moreover from Cons.prems(3) ap eq(1) rest have "(r, g1) = (case r1 of Inl e \<Rightarrow> (Inl e, g2) | Inr rows \<Rightarrow> (Inr (row # rows), g2))"
      by (simp split: sum.splits)
    moreover have "length (free_list g) = length row + length (free_list g0)" "mset (free_list g) = mset row + mset (free_list g0)"
      using ms len by (simp_all add: free_list_def [of g] ps)
    ultimately show ?thesis using Cons.IH [OF Cons.prems(1) g0(1) rest] g0(2)
      by (auto simp: ac_simps split: sum.splits)
  qed
qed auto


subsection \<open>Steps of a batch\<close>

datatype batch_call = PrefillCall | DecodeCall "int list list"

text \<open>Any calls on a batch, also after one of them has raised.\<close>

fun batch_calls :: "('c, 'v) causal_model \<Rightarrow> batch_call list \<Rightarrow> ('c, 'v) torch_batch \<Rightarrow> torch_generator \<Rightarrow>
    ('c, 'v) torch_batch \<times> torch_generator" where
  "batch_calls m [] b g = (b, g)"
| "batch_calls m (PrefillCall # ks) b g = batch_calls m ks (snd (prefill m b g)) g"
| "batch_calls m (DecodeCall tokens # ks) b g =
     (case decode m tokens b g of (_, b1, g1) \<Rightarrow> batch_calls m ks b1 g1)"

definition batch_inv :: "int \<Rightarrow> ('c, 'v) torch_batch \<Rightarrow> torch_generator \<Rightarrow> bool" where
  "batch_inv n b g \<longleftrightarrow> held b g = mset [1..n - 1] \<and> tg_free_pages g \<noteq> None \<and> length (tb_seq_lens b) = tb_bs b \<and>
     length (tb_seq_block_ids b) = tb_bs b \<and> (\<forall>x \<in> set (tb_seq_lens b). 0 \<le> x)"

text \<open>Sampling changes results and tokens only.\<close>

definition places :: "('c, 'v) torch_batch \<Rightarrow> nat \<times> int list list \<times> int list \<times> int list list" where
  "places b = (tb_bs b, tb_token_ids b, tb_seq_lens b, tb_seq_block_ids b)"

lemma places_updates [simp]:
  "places (b\<lparr>tb_cache_state := c\<rparr>) = places b" "places (b\<lparr>tb_results := rs\<rparr>) = places b" "places (b\<lparr>tb_logits := l\<rparr>) = places b"
  "places (b\<lparr>tb_done_result_indices := d\<rparr>) = places b" "places (b\<lparr>tb_next_tokens := ts\<rparr>) = places b"
  by (simp_all add: places_def)

lemma places_add_tokens: "places (snd (add_tokens e tokens is b)) = places b"
  by (induction e tokens "is" b rule: add_tokens.induct) (simp_all add: Let_def split: sum.splits)

lemma places_sample: "places (snd (sample_tokens m g logits seq_lens b)) = places b"
proof (cases "extract_tokens_from_logits m logits seq_lens")
  case (Inr tokens)
  obtain r b2 where add: "add_result_token g tokens (b\<lparr>tb_logits := Some logits\<rparr>) = (r, b2)" by fastforce
  then have "places b2 = places b"
    using places_add_tokens [of "tg_end_token g" tokens "[0..<tb_bs (b\<lparr>tb_logits := Some logits\<rparr>)]" "b\<lparr>tb_logits := Some logits\<rparr>"]
    by (simp add: add_result_token_def)
  with add Inr show ?thesis by (simp add: sample_tokens_def split: sum.splits)
qed (simp add: sample_tokens_def)

lemma places_prefill: "places (snd (prefill m b g)) = places b"
  by (simp add: prefill_def places_sample split: sum.splits prod.splits)

lemma batch_inv_places: "places b1 = places b \<Longrightarrow> batch_inv n b1 g = batch_inv n b g"
  by (simp add: batch_inv_def places_def held_def)

lemma decode_places:
  assumes "decode m tokens b g = (r, b1, g1)"
  shows "\<exists>r0 b0. decode_inputs m b g = (r0, b0, g1) \<and> places b1 = places b0 \<and> (is_ok r \<longrightarrow> is_ok r0)"
proof -
  obtain r0 b0 g0 where di: "decode_inputs m b g = (r0, b0, g0)" by (metis prod_cases3)
  show ?thesis
  proof (cases r0)
    case (Inl e)
    with di assms show ?thesis by (auto simp: decode_def)
  next
    case (Inr x)
    obtain am pos table where x: "x = (am, pos, table)" by (metis prod_cases3)
    obtain l c where call: "cm_decode m tokens am pos table (tb_cache_state b0) = (l, c)" by fastforce
    show ?thesis
    proof (cases l)
      case (Inl e)
      with di assms Inr x call show ?thesis by (auto simp: decode_def)
    next
      case (Inr logits)
      with \<open>r0 = Inr x\<close> di assms x call places_sample [of m g0 logits "List.replicate (tb_bs b0) 1" "b0\<lparr>tb_cache_state := c\<rparr>"]
      show ?thesis by (auto simp: decode_def split: prod.splits)
    qed
  qed
qed

lemma decode_inputs_facts:
  assumes "cm_is_paged m" and "0 < cm_block_seq_stride m" and "batch_inv n b g" and "decode_inputs m b g = (r, b1, g1)"
  shows "batch_inv n b1 g1 \<and> tb_bs b1 = tb_bs b \<and> tb_seq_lens b1 = map (\<lambda>x. x + 1) (tb_seq_lens b) \<and>
    extends (tb_seq_block_ids b) (tb_seq_block_ids b1) \<and>
    (is_ok r \<longrightarrow> (\<forall>i < tb_bs b. tb_seq_lens b1 ! i div cm_block_seq_stride m + 1 \<le> int (length (tb_seq_block_ids b1 ! i))))"
proof -
  let ?b = "b\<lparr>tb_seq_lens := map (\<lambda>n. n + 1) (tb_seq_lens b)\<rparr>"
  obtain r0 b0 g0 where al: "extend_rows m [0..<tb_bs b] ?b g = (r0, b0, g0)" by (metis prod_cases3)
  have "held b0 g0 = held ?b g \<and> tg_free_pages g0 \<noteq> None \<and> (\<exists>rows. b0 = ?b\<lparr>tb_seq_block_ids := rows\<rparr>) \<and>
    extends (tb_seq_block_ids ?b) (tb_seq_block_ids b0) \<and>
    (r0 = Inr () \<and> (\<forall>i \<in> set [0..<tb_bs b]. tb_seq_lens ?b ! i div cm_block_seq_stride m + 1 \<le> int (length (tb_seq_block_ids b0 ! i))) \<or> r0 = Inl IndexError)"
    using assms(3) by (intro extend_rows_facts [OF assms(1) _ assms(2) _ al]) (auto simp: batch_inv_def)
  moreover from this have "length (tb_seq_block_ids b0) = length (tb_seq_block_ids b)" using extends_length by fastforce
  moreover have "held ?b g = held b g" by (simp add: held_def)
  moreover have "b1 = b0" "g1 = g0" "is_ok r \<longrightarrow> r0 = Inr ()"
    using assms(4) al by (auto simp: decode_inputs_def allocate_seq_block_ids_def split: sum.splits)
  ultimately show ?thesis using assms(3) by (auto simp: batch_inv_def)
qed

lemma decode_inv:
  assumes "cm_is_paged m" and "0 < cm_block_seq_stride m" and "batch_inv n b g" and "decode m tokens b g = (r, b1, g1)"
  shows "batch_inv n b1 g1"
proof -
  from decode_places [OF assms(4)] obtain r0 b0 where "decode_inputs m b g = (r0, b0, g1)" and "places b1 = places b0" by blast
  with decode_inputs_facts [OF assms(1-3)] show ?thesis using batch_inv_places by metis
qed

lemma batch_calls_inv:
  assumes "cm_is_paged m" and "0 < cm_block_seq_stride m" and "batch_inv n b g" and "batch_calls m ks b g = (b1, g1)"
  shows "batch_inv n b1 g1"
  using assms(3,4)
proof (induction ks arbitrary: b g)
  case (Cons k ks)
  show ?case
  proof (cases k)
    case PrefillCall
    with Cons.IH [of "snd (prefill m b g)" g] Cons.prems show ?thesis by (simp add: batch_inv_places [OF places_prefill])
  next
    case (DecodeCall tokens)
    obtain r b0 g0 where d: "decode m tokens b g = (r, b0, g0)" by (metis prod_cases3)
    with Cons.prems(2) DecodeCall have "batch_calls m ks b0 g0 = (b1, g1)" by simp
    with Cons.IH decode_inv [OF assms(1,2) Cons.prems(1) d] show ?thesis by blast
  qed
qed simp


subsection \<open>Starting a batch\<close>

lemma longest_prompt:
  "\<forall>row \<in> set rows. int (length row) \<le> snd (get_prompt_lengths rows)"
  "snd (get_prompt_lengths rows) \<in> insert 0 (set (fst (get_prompt_lengths rows)))"
proof -
  have "(\<forall>row \<in> set rows. int (length row) \<le> foldl (\<lambda>m row. max m (int (length row))) k rows) \<and>
      k \<le> foldl (\<lambda>m row. max m (int (length row))) k rows \<and>
      foldl (\<lambda>m row. max m (int (length row))) k rows \<in> insert k ((\<lambda>row. int (length row)) ` set rows)" for k
  proof (induction rows arbitrary: k)
    case (Cons row rows)
    from Cons.IH [of "max k (int (length row))"] show ?case by (auto simp: max_def split: if_splits)
  qed simp
  from this [of 0] show "\<forall>row \<in> set rows. int (length row) \<le> snd (get_prompt_lengths rows)"
    "snd (get_prompt_lengths rows) \<in> insert 0 (set (fst (get_prompt_lengths rows)))"
    by (auto simp: get_prompt_lengths_def)
qed

text \<open>Every padded row has the same length, for a positive stride the blocks of the longest row.\<close>

lemma pad_tokens_facts:
  assumes "pad_tokens rows s t = (padded, lengths)" and "0 < s"
  shows "lengths = map (\<lambda>row. int (length row)) rows \<and> length padded = length rows \<and>
    (\<forall>row \<in> set padded. int (length row) = s * ceil_div (snd (get_prompt_lengths rows)) s)"
proof -
  let ?l = "snd (get_prompt_lengths rows)"
  have "?l \<le> s * ceil_div ?l s" using ceil_div_upper [OF assms(2), of ?l] by (simp add: mult.commute)
  moreover have "s = 1 \<Longrightarrow> s * ceil_div ?l s = ?l" by (simp add: ceil_div_def)
  ultimately show ?thesis using assms longest_prompt(1) [of rows]
    by (fastforce simp: pad_tokens_def get_prompt_lengths_def Let_def)
qed

lemma new_batch_inv:
  assumes "cm_is_paged m" and "0 < cm_block_seq_stride m" and "length lens = length ids" and "\<forall>x \<in> set lens. 0 \<le> x"
    and "new_batch m ids lens c (g\<lparr>tg_free_pages := Some [1..n - 1]\<rparr>) = (Inr b, g1)"
  shows "batch_inv n b g1 \<and> places b = (length ids, ids, lens, tb_seq_block_ids b) \<and>
    map length (tb_seq_block_ids b) = map (blocks_needed m) lens \<and> tg_end_token g1 = tg_end_token g"
proof -
  obtain r g2 where fr: "first_rows m lens (g\<lparr>tg_free_pages := Some [1..n - 1]\<rparr>) = (r, g2)" by fastforce
  from first_rows_facts [OF assms(1) _ fr] fr assms(5) obtain rows where r: "r = Inr rows" "g2 = g1"
      "tb_seq_block_ids b = rows" "map length rows = map (blocks_needed m) lens"
      "mset (concat rows) + mset (free_list g1) = mset [1..n - 1]" "tg_free_pages g1 \<noteq> None" "tg_end_token g1 = tg_end_token g"
    and b: "tb_bs b = length ids" "tb_token_ids b = ids" "tb_seq_lens b = lens"
    by (auto simp: new_batch_def free_list_def split: sum.splits)
  from r(4) have "length rows = length lens" by (metis length_map)
  with r b assms(3,4) show ?thesis by (auto simp: batch_inv_def held_def places_def)
qed

lemma begin_batch_inv:
  assumes "cm_is_paged m" and "0 < cm_block_seq_stride m" and "begin_batch m enc prompts st n g = (Inr b, g1)"
  shows "batch_inv n b g1"
proof -
  obtain ids lens where enc: "tokenizer_encode enc prompts (pad_sequence_stride m) st = (ids, lens)" by fastforce
  then have "length lens = length ids" "\<forall>x \<in> set lens. 0 \<le> x"
    using pad_tokens_facts [of "enc prompts st" "pad_sequence_stride m" 0 ids lens] assms(2)
    by (auto simp: tokenizer_encode_def pad_sequence_stride_def)
  from new_batch_inv [OF assms(1,2) this] assms enc show ?thesis by (simp add: begin_batch_def)
qed

lemma batch_inv_pages:
  assumes "batch_inv n b g"
  shows "distinct (concat (tb_seq_block_ids b) @ free_list g)" and "set (concat (tb_seq_block_ids b) @ free_list g) = {1..n - 1}"
proof -
  have ms: "mset (concat (tb_seq_block_ids b) @ free_list g) = mset [1..n - 1]" using assms by (simp add: batch_inv_def held_def)
  then show "distinct (concat (tb_seq_block_ids b) @ free_list g)" by (metis distinct_upto mset_eq_imp_distinct_iff)
  from ms show "set (concat (tb_seq_block_ids b) @ free_list g) = {1..n - 1}" by (metis mset_eq_setD set_upto)
qed

lemma distinct_concat_rows:
  assumes "distinct (concat rows)" and "i < length rows" and "j < length (rows ! i)" and "i1 < length rows" and "j1 < length (rows ! i1)"
    and "rows ! i ! j = rows ! i1 ! j1"
  shows "i = i1 \<and> j = j1"
  using assms
proof (induction rows arbitrary: i i1)
  case (Cons row rows)
  have other: "rows ! k ! l \<notin> set row" if "k < length rows" "l < length (rows ! k)" for k l
  proof -
    have "rows ! k ! l \<in> \<Union> (set ` set rows)" using nth_mem [OF that(1)] nth_mem [OF that(2)] by blast
    then show ?thesis using Cons.prems(1) by auto
  qed
  show ?case
  proof (cases i; cases i1)
    fix k assume "i = 0" "i1 = Suc k"
    with Cons.prems other [of k j1] nth_mem [of j row] show ?thesis by simp
  next
    fix k assume "i = Suc k" "i1 = 0"
    with Cons.prems other [of k j] nth_mem [of j1 row] show ?thesis by simp
  qed (use Cons in \<open>auto simp: nth_eq_iff_index_eq\<close>)
qed simp

lemma nth_numeric_mask: "j < length row \<Longrightarrow> numeric_mask row ! j = (if row ! j then MaximallyNegative else Unmasked)"
  by (simp add: numeric_mask_def)

lemma nth_decode_mask:
  assumes "i < length lens" and "0 \<le> j" and "j < w"
  shows "decode_attention_mask (input_mask lens w) ! i ! nat j = (if j < lens ! i then Unmasked else MaximallyNegative)"
  using assms by (simp add: decode_attention_mask_def input_mask_def nth_numeric_mask)

lemma longest_row_ge: "row \<in> set rows \<Longrightarrow> length row \<le> longest_row rows"
proof -
  have "k \<le> foldl (\<lambda>n r. max n (length r)) k rows \<and> (\<forall>row \<in> set rows. length row \<le> foldl (\<lambda>n r. max n (length r)) k rows)" for k
  proof (induction rows arbitrary: k)
    case (Cons r rows)
    from Cons.IH [of "max k (length r)"] show ?case by auto
  qed simp
  then show "row \<in> set rows \<Longrightarrow> length row \<le> longest_row rows" by (simp add: longest_row_def)
qed

lemma longest_row_mem: "rows \<noteq> [] \<Longrightarrow> longest_row rows \<in> length ` set rows"
proof -
  have "foldl (\<lambda>n r. max n (length r)) k rows \<in> insert k (length ` set rows)" for k
  proof (induction rows arbitrary: k)
    case (Cons r rows)
    from Cons.IH [of "max k (length r)"] show ?case by (auto simp: max_def split: if_splits)
  qed simp
  from this [of 0] longest_row_ge [of "hd rows" rows] show "rows \<noteq> [] \<Longrightarrow> longest_row rows \<in> length ` set rows"
    by (cases rows) (auto simp: longest_row_def)
qed

lemma pad_block_ids_facts:
  assumes "pad_block_ids b = Inr table"
  shows "length table = length (tb_seq_block_ids b)"
    and "\<forall>row \<in> set table. length row = longest_row (tb_seq_block_ids b)" and "table \<noteq> []"
    and "\<And>i j. i < length table \<Longrightarrow> j < length (tb_seq_block_ids b ! i) \<Longrightarrow> table ! i ! j = tb_seq_block_ids b ! i ! j"
  using assms by (auto simp: pad_block_ids_def nth_append le_add_diff_inverse [OF longest_row_ge] split: if_splits)


subsection \<open>What a decode step addresses\<close>

lemma int_le_div: "0 < (s :: int) \<Longrightarrow> k * s \<le> x \<Longrightarrow> k \<le> x div s"
  using zdiv_mono1 [of "k * s" x s] by simp

lemma decode_inputs_shape:
  assumes "decode_inputs m b g = (Inr (am, positions, table), b1, g1)"
  shows "positions = tb_seq_lens b" and "pad_block_ids b1 = Inr table"
    and "am = decode_attention_mask (input_mask (tb_seq_lens b1) (int (length (hd table)) * cm_block_seq_stride m))"
  using assms by (auto simp: decode_inputs_def Let_def res_bind_Inr split: sum.splits prod.splits)


subsection \<open>What the prefill is given\<close>

lemma take_upto: "int w \<le> c \<Longrightarrow> take w [0..c - 1] = [0..int w - 1]"
  by (intro nth_equalityI) auto

lemma attention_mask_computes:
  assumes "int w \<le> cm_context_length m"
    and "cm_causal_context_mask m = None \<or> cm_causal_context_mask m = Some (generate_causal_context_mask m)"
  shows "attention_mask m (input_mask lens (int w)) w None =
    Inr (map (\<lambda>n. map (\<lambda>q. map (\<lambda>k. if k \<le> q \<and> k < n then Unmasked else MaximallyNegative) [0..int w - 1]) [0..int w - 1]) lens)"
proof -
  let ?is = "[0..int w - 1]"
  let ?corner = "map (\<lambda>q. map (\<lambda>k. k \<ge> q + 1) ?is) ?is"
  have corner: "map (take w) (take w (generate_causal_context_mask m)) = ?corner"
    using take_upto [OF assms(1)] by (simp add: generate_causal_context_mask_def take_map)
  have row: "res_map (\<lambda>crow. res_bind (row_op (\<or>) crow (map (\<lambda>j. j \<ge> n) ?is)) (\<lambda>b. Inr (numeric_mask b))) ?corner =
      Inr (map (\<lambda>crow. numeric_mask (map2 (\<or>) crow (map (\<lambda>j. j \<ge> n) ?is))) ?corner)" for n
    by (rule res_map_total) (auto simp: row_op_def)
  have cell: "map (\<lambda>crow. numeric_mask (map2 (\<or>) crow (map (\<lambda>j. j \<ge> n) ?is))) ?corner =
      map (\<lambda>q. map (\<lambda>k. if k \<le> q \<and> k < n then Unmasked else MaximallyNegative) ?is) ?is" for n
    by (simp add: numeric_mask_def zip_map_map zip_same_conv_map o_def)
  have "res_map (\<lambda>row. res_map (\<lambda>crow. res_bind (row_op (\<or>) crow row) (\<lambda>b. Inr (numeric_mask b))) ?corner) (input_mask lens (int w)) =
      Inr (map (\<lambda>row. map (\<lambda>crow. numeric_mask (map2 (\<or>) crow row)) ?corner) (input_mask lens (int w)))"
    by (rule res_map_total) (use row in \<open>auto simp: input_mask_def\<close>)
  then show ?thesis using assms(2) corner cell by (auto simp: attention_mask_def input_mask_def Let_def)
qed

lemma ceil_div_pos:
  assumes "0 < s" shows "ceil_div x s = (x - 1) div s + 1"
proof -
  have "(x - 1) div s * s = x - 1 - (x - 1) mod s" by (simp add: minus_mod_eq_div_mult)
  moreover have "0 \<le> (x - 1) mod s" "(x - 1) mod s < s" using assms by simp_all
  ultimately have "x \<le> ((x - 1) div s + 1) * s" "\<not> x \<le> (x - 1) div s * s" unfolding distrib_right by linarith+
  then have "ceil_div x s \<le> (x - 1) div s + 1" "\<not> ceil_div x s \<le> (x - 1) div s"
    by (simp_all add: ceil_div_le_iff [OF assms])
  then show ?thesis by linarith
qed

lemma longest_row_blocks:
  assumes "map length rows = map (blocks_needed m) (map (\<lambda>p. int (length p)) ps)" and "0 < cm_block_seq_stride m"
  shows "int (longest_row rows) = ceil_div (snd (get_prompt_lengths ps)) (cm_block_seq_stride m)"
proof -
  let ?s = "cm_block_seq_stride m" let ?l = "snd (get_prompt_lengths ps)"
  have l: "\<forall>p \<in> set ps. int (length p) \<le> ?l" "?l \<in> insert 0 (set (map (\<lambda>p. int (length p)) ps))"
    using longest_prompt [of ps] by (simp_all add: get_prompt_lengths_def)
  then have nonneg: "0 \<le> ?l" by auto
  have rows: "length ` set rows = (\<lambda>p. nat (ceil_div (int (length p)) ?s)) ` set ps"
    using arg_cong [OF assms(1), of set] assms(2) by (auto simp: blocks_needed_def image_image)
  have "longest_row rows \<le> nat (ceil_div ?l ?s)"
  proof (cases "rows = []")
    case False
    then obtain p where "p \<in> set ps" "longest_row rows = nat (ceil_div (int (length p)) ?s)"
      using longest_row_mem [OF False] rows by auto
    then show ?thesis using l(1) ceil_div_mono [OF assms(2)] by (simp add: nat_mono)
  qed (simp add: longest_row_def)
  moreover have "nat (ceil_div ?l ?s) \<le> longest_row rows"
  proof (cases "?l = 0")
    case False
    with l(2) obtain p where p: "p \<in> set ps" "?l = int (length p)" by auto
    with rows have "nat (ceil_div ?l ?s) \<in> length ` set rows" by auto
    then show ?thesis using longest_row_ge by auto
  qed simp
  ultimately show ?thesis using ceil_div_nonneg [OF assms(2) nonneg] by simp
qed

end
