(* ===== verification/Tn_Generator_Properties.thy ===== *)
theory Tn_Generator_Properties
  imports Tn_Generator_Facts
begin

section \<open>Properties of the generator on the Torch model\<close>

text \<open>
  What the network is called with, what a second batch does to a first one, and runs of the two clients: the
  decode loop of the example program ends, and the evaluation has exactly the pages it needs. The instances
  use a network whose logits are its tokens.
\<close>

subsection \<open>Tables and masks\<close>

text \<open>
  C12: After any calls on a batch of a paged cache, also failed ones, with no other batch begun on its generator
  meanwhile, a decode step that reaches the network passes
  every sequence the position of its new token, a mask that lets it read exactly the positions up to that one, and a
  table whose pages for those positions are pages of the cache, none the padding page 0, none free, and each at one
  place of one sequence. The pages a sequence had keep their places.
\<close>

theorem decode_addresses_own_pages:
  assumes "cm_is_paged m" and "0 < cm_block_seq_stride m" and "begin_batch m enc prompts st n g0 = (Inr b0, g1)"
    and "batch_calls m ks b0 g1 = (b, g)" and "decode_inputs m b g = (Inr (am, positions, table), b', g')" and "i < tb_bs b"
  shows "positions ! i = tb_seq_lens b ! i \<and> int (length (am ! i)) = int (length (table ! i)) * cm_block_seq_stride m \<and>
    positions ! i < int (length (am ! i)) \<and>
    (\<forall>j. 0 \<le> j \<and> j < int (length (am ! i)) \<longrightarrow> am ! i ! nat j = (if j \<le> positions ! i then Unmasked else MaximallyNegative)) \<and>
    (\<forall>k. int k * cm_block_seq_stride m \<le> positions ! i \<longrightarrow>
       table ! i ! k \<in> {1..n - 1} \<and> table ! i ! k = tb_seq_block_ids b' ! i ! k \<and> table ! i ! k \<notin> set (free_list g') \<and>
       (\<forall>i1 k1. i1 < tb_bs b \<and> k1 < length (tb_seq_block_ids b' ! i1) \<and> tb_seq_block_ids b' ! i1 ! k1 = table ! i ! k \<longrightarrow> i1 = i \<and> k1 = k)) \<and>
    prefix (tb_seq_block_ids b ! i) (tb_seq_block_ids b' ! i)"
proof -
  let ?s = "cm_block_seq_stride m" let ?rows = "tb_seq_block_ids b'"
  have inv: "batch_inv n b g" using batch_calls_inv [OF assms(1,2) begin_batch_inv [OF assms(1-3)] assms(4)] .
  note facts = decode_inputs_facts [OF assms(1,2) inv assms(5)]
  have inv': "batch_inv n b' g'" and bs: "tb_bs b' = tb_bs b" and lens: "tb_seq_lens b' = map (\<lambda>x. x + 1) (tb_seq_lens b)"
    and ext: "extends (tb_seq_block_ids b) ?rows" using facts by simp_all
  have rooms: "\<forall>i < tb_bs b. tb_seq_lens b' ! i div ?s + 1 \<le> int (length (?rows ! i))"
    by (rule facts [THEN conjunct2, THEN conjunct2, THEN conjunct2, THEN conjunct2, THEN mp, OF is_ok_simps(1)])
  then have room: "tb_seq_lens b' ! i div ?s + 1 \<le> int (length (?rows ! i))" using assms(6) by blast
  have len: "length (tb_seq_lens b) = tb_bs b" "length ?rows = tb_bs b" "0 \<le> tb_seq_lens b ! i"
    using inv inv' bs assms(6) by (simp_all add: batch_inv_def)
  note shape = decode_inputs_shape [OF assms(5)]
  note pad = pad_block_ids_facts [OF shape(2)]
  have i: "i < length table" using pad(1) len(2) assms(6) by simp
  then have w: "length (hd table) = length (table ! i)" "length (?rows ! i) \<le> length (table ! i)"
    using pad(2,3) longest_row_ge [of "?rows ! i" ?rows] pad(1) by auto
  have am: "am ! i = numeric_mask (map (\<lambda>j. j \<ge> tb_seq_lens b ! i + 1) [0..int (length (table ! i)) * ?s - 1])"
    using shape(3) lens len assms(6) w by (simp add: decode_attention_mask_def input_mask_def)
  have width: "int (length (am ! i)) = int (length (table ! i)) * ?s" using am assms(2) by (simp add: numeric_mask_def)
  have "tb_seq_lens b' ! i < (tb_seq_lens b' ! i div ?s + 1) * ?s"
    using div_mult_mod_eq [of "tb_seq_lens b' ! i" ?s] pos_mod_bound [OF assms(2), of "tb_seq_lens b' ! i"] unfolding distrib_right by linarith
  also have "\<dots> \<le> int (length (table ! i)) * ?s" using room w assms(2) by (intro mult_right_mono) auto
  finally have pos: "positions ! i < int (length (am ! i))" using width lens len assms(6) shape(1) by simp
  have blocks: "table ! i ! k \<in> {1..n - 1} \<and> table ! i ! k = ?rows ! i ! k \<and> table ! i ! k \<notin> set (free_list g') \<and>
      (\<forall>i1 k1. i1 < tb_bs b \<and> k1 < length (?rows ! i1) \<and> ?rows ! i1 ! k1 = table ! i ! k \<longrightarrow> i1 = i \<and> k1 = k)"
    if k: "int k * ?s \<le> positions ! i" for k
  proof -
    have "int k \<le> positions ! i div ?s" using int_le_div [OF assms(2) k] .
    also have "\<dots> \<le> tb_seq_lens b' ! i div ?s" using lens len shape(1) assms(2,6) by (auto intro: zdiv_mono1)
    finally have k1: "k < length (?rows ! i)" using room by linarith
    then have eq: "table ! i ! k = ?rows ! i ! k" using pad(4) i by blast
    have mem: "?rows ! i ! k \<in> set (concat ?rows)" using k1 len(2) assms(6) by (auto intro!: bexI [of _ "?rows ! i"])
    with batch_inv_pages [OF inv'] have "?rows ! i ! k \<in> {1..n - 1}" "?rows ! i ! k \<notin> set (free_list g')" by auto
    moreover have "distinct (concat ?rows)" using batch_inv_pages(1) [OF inv'] by simp
    ultimately show ?thesis using eq k1 distinct_concat_rows [of ?rows _ _ i k] len(2) assms(6) by auto
  qed
  moreover have "am ! i ! nat j = (if j \<le> positions ! i then Unmasked else MaximallyNegative)" if "0 \<le> j \<and> j < int (length (am ! i))" for j
    using that am width shape(1) by (simp add: nth_numeric_mask)
  moreover have "prefix (tb_seq_block_ids b ! i) (?rows ! i)" using ext inv assms(6) by (intro extends_nth) (auto simp: batch_inv_def)
  ultimately show ?thesis using pos width shape(1) by blast
qed

text \<open>
  C18: A batch that could be started with at least one prompt no longer than the context calls the network with tokens
  padded to exactly the blocks of the page table, and a mask that lets position \<open>q\<close> of a sequence read position
  \<open>k\<close> if and only if \<open>k\<close> is neither after \<open>q\<close> nor padding.
\<close>

theorem prefill_inputs_fit:
  assumes "cm_is_paged m" and "0 < cm_block_seq_stride m"
    and "cm_causal_context_mask m = None \<or> cm_causal_context_mask m = Some (generate_causal_context_mask m)"
    and "enc prompts st \<noteq> []" and "begin_batch m enc prompts st n g = (Inr b, g1)"
    and "\<forall>ids \<in> set (tb_token_ids b). int (length ids) \<le> cm_context_length m"
  shows "\<exists>am table. prefill_inputs m b = Inr (am, table) \<and> length table = length (enc prompts st) \<and>
    tb_seq_lens b = map (\<lambda>p. int (length p)) (enc prompts st) \<and>
    (\<forall>i < length table. int (length (tb_token_ids b ! i)) = int (length (table ! i)) * cm_block_seq_stride m) \<and>
    (\<forall>i < length table. \<forall>q < length (tb_token_ids b ! i). \<forall>k < length (tb_token_ids b ! i).
       am ! i ! q ! k = (if k \<le> q \<and> k < length (enc prompts st ! i) then Unmasked else MaximallyNegative))"
proof -
  let ?s = "cm_block_seq_stride m" let ?ps = "enc prompts st"
  obtain ids lens where enc: "tokenizer_encode enc prompts (pad_sequence_stride m) st = (ids, lens)" by fastforce
  then have pad: "pad_tokens ?ps ?s 0 = (ids, lens)" by (simp add: tokenizer_encode_def pad_sequence_stride_def)
  note padded = pad_tokens_facts [OF pad assms(2)]
  have "new_batch m ids lens (cm_paged_allocate m n) (g\<lparr>tg_free_pages := Some [1..n - 1]\<rparr>) = (Inr b, g1)"
    using assms(1,5) enc by (simp add: begin_batch_def)
  from new_batch_inv [OF assms(1,2) _ _ this] padded
  have b: "tb_token_ids b = ids" "tb_seq_lens b = lens" "map length (tb_seq_block_ids b) = map (blocks_needed m) lens"
    by (auto simp: places_def)
  let ?w = "length (hd ids)"
  have ids0: "ids \<noteq> []" using padded assms(4) by (metis length_0_conv)
  then have w: "int ?w = ?s * ceil_div (snd (get_prompt_lengths ?ps)) ?s" using padded hd_in_set by blast
  then have same: "\<forall>row \<in> set ids. length row = ?w" using padded by (metis of_nat_eq_iff)
  note ids = ids0 w same
  have rows: "tb_seq_block_ids b \<noteq> []" "length (tb_seq_block_ids b) = length ?ps"
    using b(3) padded assms(4) by (metis length_map length_0_conv)+
  then obtain table where table: "pad_block_ids b = Inr table" by (simp add: pad_block_ids_def)
  note pt = pad_block_ids_facts [OF table]
  have long: "int (longest_row (tb_seq_block_ids b)) = ceil_div (snd (get_prompt_lengths ?ps)) ?s"
    using longest_row_blocks [OF _ assms(2)] b(3) padded by simp
  have am: "attention_mask m (input_mask lens (int ?w)) ?w None =
      Inr (map (\<lambda>n. map (\<lambda>q. map (\<lambda>k. if k \<le> q \<and> k < n then Unmasked else MaximallyNegative) [0..int ?w - 1]) [0..int ?w - 1]) lens)"
    using assms(6) ids0 b(1) hd_in_set by (intro attention_mask_computes assms(3)) blast
  let ?am = "map (\<lambda>n. map (\<lambda>q. map (\<lambda>k. if k \<le> q \<and> k < n then Unmasked else MaximallyNegative) [0..int ?w - 1]) [0..int ?w - 1]) lens"
  have "prefill_inputs m b = Inr (?am, table)" by (simp only: prefill_inputs_def b ids0 am table Let_def if_False res_bind_simps)
  moreover have n: "length table = length ?ps" using pt(1) rows by simp
  moreover have "tb_seq_lens b = map (\<lambda>p. int (length p)) ?ps" using padded b(2) by simp
  moreover have "\<forall>i < length table. int (length (tb_token_ids b ! i)) = int (length (table ! i)) * ?s"
    using pt(1,2) rows w same long padded b(1) by simp
  moreover have "\<forall>i < length table. \<forall>q < length (tb_token_ids b ! i). \<forall>k < length (tb_token_ids b ! i).
      ?am ! i ! q ! k = (if k \<le> q \<and> k < length (?ps ! i) then Unmasked else MaximallyNegative)"
  proof (intro allI impI)
    fix i q k
    assume i: "i < length table" and "q < length (tb_token_ids b ! i)" "k < length (tb_token_ids b ! i)"
    then have "q < ?w" "k < ?w" using same b(1) padded n by auto
    then show "?am ! i ! q ! k = (if k \<le> q \<and> k < length (?ps ! i) then Unmasked else MaximallyNegative)"
      using i n padded by simp
  qed
  ultimately show ?thesis by blast
qed

subsection \<open>Pages of a second batch\<close>




subsection \<open>The loop of the example program ends\<close>

lemma tg_end_append: "append_pages m n row g = (r, row1, g1) \<Longrightarrow> tg_end_token g1 = tg_end_token g"
  by (induction m n row g rule: append_pages.induct)
    (auto simp: alloc_page_def split: if_splits option.splits)

lemma tg_end_extend: "extend_rows m is b g = (r, b1, g1) \<Longrightarrow> tg_end_token g1 = tg_end_token g"
  by (induction m "is" b g rule: extend_rows.induct)
    (fastforce split: sum.splits prod.splits simp: Let_def dest: tg_end_append)+

text \<open>The end token ends a result and is not part of it.\<close>

definition no_end :: "int \<Rightarrow> ('c, 'v) torch_batch \<Rightarrow> bool" where
  "no_end e b \<longleftrightarrow> (\<forall>row \<in> set (tb_results b). e \<notin> set row)"

lemma no_end_add_tokens: "no_end e b \<Longrightarrow> no_end e (snd (add_tokens e tokens is b))"
proof (induction e tokens "is" b rule: add_tokens.induct)
  case (2 e tokens i "is" b)
  show ?case
  proof (cases "list_get tokens i")
    case (Inr token)
    let ?b1 = "if token = e then b\<lparr>tb_done_result_indices := set_add i (tb_done_result_indices b)\<rparr> else b"
    let ?b2 = "if i \<in> set (tb_done_result_indices ?b1) then ?b1 else ?b1\<lparr>tb_results := (tb_results ?b1)[i := tb_results ?b1 ! i @ [token]]\<rparr>"
    have "no_end e ?b2"
    proof (cases "i < length (tb_results b) \<and> token \<noteq> e")
      case True
      then have "e \<notin> set (tb_results b ! i)" using 2(2) by (simp add: no_end_def)
      with True 2(2) show ?thesis by (auto simp: no_end_def dest!: set_update_subset_insert [THEN subsetD])
    next
      case False
      then show ?thesis using 2(2) by (auto simp: no_end_def set_add_def list_update_beyond not_less)
    qed
    with 2(1) [OF Inr refl refl] Inr show ?thesis by (simp add: Let_def)
  qed (use 2 in simp)
qed simp


lemma no_end_updates [simp]:
  "no_end e (b\<lparr>tb_cache_state := c\<rparr>) = no_end e b" "no_end e (b\<lparr>tb_logits := l\<rparr>) = no_end e b"
  "no_end e (b\<lparr>tb_next_tokens := ts\<rparr>) = no_end e b" "no_end e (b\<lparr>tb_seq_block_ids := rows\<rparr>) = no_end e b"
  "no_end e (b\<lparr>tb_seq_lens := lens\<rparr>) = no_end e b"
  by (simp_all add: no_end_def)

lemma no_end_sample: "no_end (tg_end_token g) b \<Longrightarrow> no_end (tg_end_token g) (snd (sample_tokens m g logits seq_lens b))"
proof (cases "extract_tokens_from_logits m logits seq_lens")
  case (Inr tokens)
  assume "no_end (tg_end_token g) b"
  obtain r b2 where add: "add_result_token g tokens (b\<lparr>tb_logits := Some logits\<rparr>) = (r, b2)" by fastforce
  then have "no_end (tg_end_token g) b2"
    using no_end_add_tokens [of "tg_end_token g" "b\<lparr>tb_logits := Some logits\<rparr>" tokens "[0..<tb_bs (b\<lparr>tb_logits := Some logits\<rparr>)]"]
      \<open>no_end _ b\<close> by (simp add: add_result_token_def)
  with add Inr show ?thesis by (simp add: sample_tokens_def split: sum.splits)
qed (simp add: sample_tokens_def)

lemma no_end_prefill: "no_end (tg_end_token g) b \<Longrightarrow> no_end (tg_end_token g) (snd (prefill m b g))"
  by (simp add: prefill_def no_end_sample split: sum.splits prod.splits)

lemma extend_rows_results: "extend_rows m is b g = (r, b1, g1) \<Longrightarrow> tb_results b1 = tb_results b"
  by (induction m "is" b g rule: extend_rows.induct) (fastforce split: sum.splits prod.splits simp: Let_def)+

lemma no_end_decode:
  assumes "no_end (tg_end_token g) b" and "decode m tokens b g = (r, b1, g1)"
  shows "no_end (tg_end_token g) b1 \<and> tg_end_token g1 = tg_end_token g"
proof -
  obtain r0 b0 g0 where di: "decode_inputs m b g = (r0, b0, g0)" by (metis prod_cases3)
  then obtain r2 where "extend_rows m [0..<tb_bs b] (b\<lparr>tb_seq_lens := map (\<lambda>n. n + 1) (tb_seq_lens b)\<rparr>) g = (r2, b0, g0)"
    by (auto simp: decode_inputs_def allocate_seq_block_ids_def split: sum.splits prod.splits)
  from extend_rows_results [OF this] tg_end_extend [OF this] assms(1) have b0: "no_end (tg_end_token g0) b0" "tg_end_token g0 = tg_end_token g"
    by (simp_all add: no_end_def)
  have "g1 = g0 \<and> (b1 = b0 \<or> (\<exists>c. b1 = b0\<lparr>tb_cache_state := c\<rparr>) \<or>
      (\<exists>logits c. b1 = snd (sample_tokens m g0 logits (List.replicate (tb_bs b0) 1) (b0\<lparr>tb_cache_state := c\<rparr>))))"
    using assms(2) di by (auto simp: decode_def split: sum.splits prod.splits) (metis snd_conv)+
  with b0 show ?thesis using no_end_sample [of g0 "b0\<lparr>tb_cache_state := _\<rparr>"] by auto
qed

text \<open>Every round that succeeds makes the first sequence longer, and its pages are at most those of the cache.\<close>

lemma decode_success:
  assumes "cm_is_paged m" and "0 < cm_block_seq_stride m" and "batch_inv n b g" and "0 < tb_bs b" and "decode m tokens b g = (Inr u, b1, g1)"
  shows "batch_inv n b1 g1 \<and> tb_bs b1 = tb_bs b \<and> tb_seq_lens b1 ! 0 = tb_seq_lens b ! 0 + 1 \<and>
    tb_seq_lens b1 ! 0 < (n - 1) * cm_block_seq_stride m"
proof -
  let ?s = "cm_block_seq_stride m"
  from decode_places [OF assms(5)] obtain r0 b0 where di: "decode_inputs m b g = (r0, b0, g1)" "places b1 = places b0" "is_ok r0" by auto
  note facts = decode_inputs_facts [OF assms(1-3) di(1)]
  have inv: "batch_inv n b1 g1" by (rule decode_inv [OF assms(1-3,5)])
  have bs0: "tb_bs b0 = tb_bs b" and lens0: "tb_seq_lens b0 = map (\<lambda>x. x + 1) (tb_seq_lens b)" using facts by blast+
  have rooms: "\<forall>i < tb_bs b. tb_seq_lens b0 ! i div ?s + 1 \<le> int (length (tb_seq_block_ids b0 ! i))"
    by (rule facts [THEN conjunct2, THEN conjunct2, THEN conjunct2, THEN conjunct2, THEN mp, OF di(3)])
  have eq: "tb_bs b1 = tb_bs b0" "tb_seq_lens b1 = tb_seq_lens b0" "tb_seq_block_ids b1 = tb_seq_block_ids b0"
    using di(2) by (simp_all add: places_def)
  have lens: "length (tb_seq_lens b) = tb_bs b" using assms(3) by (simp add: batch_inv_def)
  have rows: "length (tb_seq_block_ids b1) = tb_bs b" using inv eq(1) bs0 by (simp add: batch_inv_def)
  let ?row = "tb_seq_block_ids b1 ! 0"
  have "tb_seq_lens b1 ! 0 div ?s + 1 \<le> int (length ?row)" using rooms assms(4) unfolding eq by blast
  also have "length ?row \<le> size (held b1 g1)"
    using rows assms(4) member_le_sum_list [of "length ?row" "map length (tb_seq_block_ids b1)"] by (simp add: size_held)
  then have "int (length ?row) \<le> max 0 (n - 1)" using inv by (simp add: batch_inv_def)
  finally have le: "tb_seq_lens b1 ! 0 div ?s + 1 \<le> max 0 (n - 1)" .
  have sl: "tb_seq_lens b1 ! 0 = tb_seq_lens b ! 0 + 1" "0 \<le> tb_seq_lens b ! 0"
    using lens0 eq(2) lens assms(3,4) by (simp_all add: batch_inv_def)
  then have "0 \<le> tb_seq_lens b1 ! 0 div ?s" using assms(2) by (simp add: pos_imp_zdiv_nonneg_iff)
  with le have "tb_seq_lens b1 ! 0 div ?s < n - 1" by linarith
  then have "(tb_seq_lens b1 ! 0 div ?s + 1) * ?s \<le> (n - 1) * ?s" using assms(2) by (intro mult_right_mono) auto
  moreover have "tb_seq_lens b1 ! 0 < (tb_seq_lens b1 ! 0 div ?s + 1) * ?s"
    using div_mult_mod_eq [of "tb_seq_lens b1 ! 0" ?s] pos_mod_bound [OF assms(2), of "tb_seq_lens b1 ! 0"] unfolding distrib_right by linarith
  ultimately show ?thesis using inv eq(1) bs0 sl by simp
qed

lemma decode_until_done_ends:
  assumes "cm_is_paged m" and "0 < cm_block_seq_stride m" and "batch_inv n b g" and "no_end (tg_end_token g) b" and "0 < tb_bs b"
    and "(n - 1) * cm_block_seq_stride m \<le> tb_seq_lens b ! 0 + int k"
  shows "\<exists>r b1 g1. decode_until_done m (Suc k) b g = Some (r, b1, g1) \<and> no_end (tg_end_token g) b1 \<and> (is_ok r \<longrightarrow> batch_done b1)"
  using assms
proof (induction k arbitrary: b g rule: less_induct)
  case (less k b g)
  show ?case
  proof (cases "batch_done b")
    case False
    show ?thesis
    proof (cases "tb_next_tokens b")
      case None
      with False less.prems show ?thesis by (simp add: decode_next_def)
    next
      case (Some ts)
      obtain r b1 g1 where d: "decode m (map (\<lambda>t. [t]) ts) b g = (r, b1, g1)" by (metis prod_cases3)
      note ends = no_end_decode [OF less.prems(4) d]
      show ?thesis
      proof (cases r)
        case (Inl e)
        with d Some False ends show ?thesis by (simp add: decode_next_def)
      next
        case (Inr u)
        note ok = decode_success [OF less.prems(1,2,3,5) d [unfolded Inr]]
        with less.prems(6) obtain k1 where k1: "k = Suc k1" by (cases k) auto
        have "\<exists>r b2 g2. decode_until_done m (Suc k1) b1 g1 = Some (r, b2, g2) \<and> no_end (tg_end_token g1) b2 \<and> (is_ok r \<longrightarrow> batch_done b2)"
          using ok ends less.prems k1 by (intro less.IH) auto
        with d Some False Inr ends k1 show ?thesis by (simp add: decode_next_def)
      qed
    qed
  qed (use less.prems in simp)
qed

lemma begin_shared_inv:
  assumes "cm_is_paged m" and "0 < cm_block_seq_stride m" and "new_shared_generator m n e = (g, shared)"
    and "begin_shared_batch m enc prompts shared g = (Inr b, g1)"
  shows "batch_inv n b g1 \<and> tg_end_token g1 = e \<and> no_end e b \<and> tb_bs b = length (tb_token_ids b)"
proof -
  obtain ids lens where enc: "tokenizer_encode enc prompts (pad_sequence_stride m) False = (ids, lens)" by fastforce
  then have len: "length lens = length ids" "\<forall>x \<in> set lens. 0 \<le> x"
    using pad_tokens_facts [of "enc prompts False" "pad_sequence_stride m" 0 ids lens] assms(2)
    by (auto simp: tokenizer_encode_def pad_sequence_stride_def)
  have g: "g = g\<lparr>tg_free_pages := Some [1..n - 1]\<rparr>" "tg_end_token g = e" "shared = Some (cm_paged_allocate m n)"
    using assms(1,3) by (auto simp: new_shared_generator_def)
  have nb: "new_batch m ids lens (cm_paged_allocate m n) (g\<lparr>tg_free_pages := Some [1..n - 1]\<rparr>) = (Inr b, g1)"
    using assms(4) enc len g(3) g(1) [symmetric] by (simp add: begin_shared_batch_def)
  then have "tb_results b = List.replicate (length ids) []" by (auto simp: new_batch_def split: sum.splits prod.splits)
  then show ?thesis using new_batch_inv [OF assms(1,2) len nb] g(2) by (simp add: no_end_def places_def)
qed

text \<open>
  C19: With a paged cache the example program always ends: \<open>(n - 1) * stride + 1\<close> rounds are enough for a cache of
  \<open>n\<close> pages and a positive stride, whatever the network samples: it returns or raises, and the end token is
  in no result.
\<close>

theorem generation_loop_ends:
  assumes "cm_is_paged m" and "0 < cm_block_seq_stride m"
  shows "\<exists>r. generate_text m enc prompts n e (Suc (nat ((n - 1) * cm_block_seq_stride m))) = Some r \<and>
    (case r of Inl _ \<Rightarrow> True | Inr results \<Rightarrow> \<forall>row \<in> set results. e \<notin> set row)"
proof -
  let ?k = "nat ((n - 1) * cm_block_seq_stride m)"
  obtain g shared where gen: "new_shared_generator m n e = (g, shared)" by fastforce
  obtain r g1 where bb: "begin_shared_batch m enc prompts shared g = (r, g1)" by fastforce
  show ?thesis
  proof (cases r)
    case (Inl x)
    with gen bb show ?thesis by (simp add: generate_text_def)
  next
    case (Inr b)
    note start = begin_shared_inv [OF assms gen bb [unfolded Inr]]
    obtain r1 b1 where pre: "prefill m b g1 = (r1, b1)" by fastforce
    have b1: "batch_inv n b1 g1" "no_end (tg_end_token g1) b1"
      using start batch_inv_places [OF places_prefill [of m b g1], of n g1] no_end_prefill [of g1 b m] pre by simp_all
    show ?thesis
    proof (cases r1)
      case (Inl x)
      with gen bb Inr pre show ?thesis by (simp add: generate_text_def)
    next
      case ok: (Inr u)
      have "\<exists>r b2 g2. decode_until_done m (Suc ?k) b1 g1 = Some (r, b2, g2) \<and> no_end (tg_end_token g1) b2 \<and> (is_ok r \<longrightarrow> batch_done b2)"
      proof -
        have "tb_token_ids b \<noteq> []" using pre ok by (auto simp: prefill_def prefill_inputs_def)
        moreover have "tb_bs b1 = tb_bs b" using places_prefill [of m b g1] pre by (simp add: places_def)
        ultimately have bs: "0 < tb_bs b1" using start by simp
        with b1 have "0 \<le> tb_seq_lens b1 ! 0" by (simp add: batch_inv_def)
        then show ?thesis using b1 bs assms by (intro decode_until_done_ends) auto
      qed
      then obtain r2 b2 g2 where "decode_until_done m (Suc ?k) b1 g1 = Some (r2, b2, g2)" "no_end e b2" using start by auto
      with gen bb \<open>r = _\<close> pre ok show ?thesis by (cases r2) (simp_all add: generate_text_def no_end_def)
    qed
  qed
qed


subsection \<open>The evaluation has exactly enough pages\<close>

text \<open>What the network returns: logits for every position of every sequence, one position in a decode step.\<close>

definition network_ok :: "('c, 'v) causal_model \<Rightarrow> bool" where
  "network_ok m \<longleftrightarrow>
     (\<forall>ids am table c. \<exists>logits c1. cm_prefill m ids am table c = (Inr logits, c1) \<and> map length logits = map length ids) \<and>
     (\<forall>ids am positions table c. \<exists>logits c1. cm_decode m ids am positions table c = (Inr logits, c1) \<and>
        map length logits = List.replicate (length ids) 1)"

lemma add_tokens_ok:
  "\<forall>i \<in> set is. i < length tokens \<Longrightarrow> fst (add_tokens e tokens is b) = Inr () \<and> tb_logits (snd (add_tokens e tokens is b)) = tb_logits b"
  by (induction e tokens "is" b rule: add_tokens.induct) (simp_all add: list_get_def Let_def)

lemma add_tokens_kept:
  assumes "i < length tokens" and "tokens ! i = e"
  shows "tb_results (snd (add_tokens e tokens is b)) ! i = tb_results b ! i"
  using assms by (induction e tokens "is" b rule: add_tokens.induct) (auto simp: list_get_def Let_def set_add_def, metis nth_list_update_neq)

definition answered :: "('c, 'v) torch_batch \<Rightarrow> bool" where
  "answered b \<longleftrightarrow> (\<forall>row \<in> set (tb_results b). row \<noteq> [])"

lemma answered_update: "answered b \<Longrightarrow> answered (b\<lparr>tb_results := (tb_results b)[i := row @ [t]]\<rparr>)"
  by (auto simp: answered_def dest!: set_update_subset_insert [THEN subsetD])

lemma answered_done [simp]: "answered (b\<lparr>tb_done_result_indices := d\<rparr>) = answered b"
  by (simp add: answered_def)

lemma answered_add_tokens: "answered b \<Longrightarrow> answered (snd (add_tokens e tokens is b))"
proof (induction e tokens "is" b rule: add_tokens.induct)
  case (2 e tokens i "is" b)
  show ?case
  proof (cases "list_get tokens i")
    case (Inr token)
    let ?b1 = "if token = e then b\<lparr>tb_done_result_indices := set_add i (tb_done_result_indices b)\<rparr> else b"
    let ?b2 = "if i \<in> set (tb_done_result_indices ?b1) then ?b1 else ?b1\<lparr>tb_results := (tb_results ?b1)[i := tb_results ?b1 ! i @ [token]]\<rparr>"
    have "answered ?b2" using 2(2) by (cases "token = e") (auto simp: answered_update set_add_def split: if_splits)
    with 2(1) [OF Inr refl refl] Inr show ?thesis by (simp add: Let_def)
  qed (use 2 in simp)
qed simp

lemma length_results: "length (tb_results (snd (add_tokens e tokens is b))) = length (tb_results b)"
  by (induction e tokens "is" b rule: add_tokens.induct) (auto simp: Let_def split: sum.splits)

lemma add_tokens_longer: "length (tb_results b ! i) \<le> length (tb_results (snd (add_tokens e tokens is b)) ! i)"
proof (induction e tokens "is" b rule: add_tokens.induct)
  case (2 e tokens j "is" b)
  show ?case
  proof (cases "list_get tokens j")
    case (Inr token)
    have "length (tb_results b ! i) \<le> length ((tb_results b)[j := tb_results b ! j @ [token]] ! i)"
      by (cases "j = i"; cases "j < length (tb_results b)") (auto simp: not_less list_update_beyond)
    with 2 [OF Inr refl refl] Inr show ?thesis by (auto simp: Let_def split: if_splits intro: le_trans)
  qed simp
qed simp

lemma add_tokens_answered:
  assumes "\<forall>t \<in> set tokens. t \<noteq> e" and "tb_done_result_indices b = []" and "\<forall>i \<in> set is. i < length tokens"
    and "i \<in> set is" and "i < length (tb_results b)"
  shows "tb_results (snd (add_tokens e tokens is b)) ! i \<noteq> []"
  using assms
proof (induction e tokens "is" b rule: add_tokens.induct)
  case (2 e tokens j "is" b)
  then have j: "list_get tokens j = Inr (tokens ! j)" "tokens ! j \<noteq> e" by (auto simp: list_get_def)
  let ?b = "b\<lparr>tb_results := (tb_results b)[j := tb_results b ! j @ [tokens ! j]]\<rparr>"
  have eq: "add_tokens e tokens (j # is) b = add_tokens e tokens is ?b" using j 2(3) by (simp add: Let_def)
  show ?case
  proof (cases "i = j")
    case True
    then have "0 < length (tb_results ?b ! i)" using 2(6) by simp
    with add_tokens_longer [of ?b i e tokens "is"] eq show ?thesis by fastforce
  next
    case False
    with 2 j eq show ?thesis by (simp add: Let_def)
  qed
qed simp

lemma print_ok: "answered b \<Longrightarrow> print_token_comparison b = Inr ()"
  using res_map_total [of "tb_results b" "\<lambda>row. py_get row (- 1)" last]
  by (auto simp: print_token_comparison_def answered_def py_get_def py_index_def Let_def last_conv_nth nat_diff_distrib Suc_le_eq)

lemma print_fails: "\<not> answered b \<Longrightarrow> print_token_comparison b = Inl IndexError"
proof -
  have "\<exists>row \<in> set rows. row = [] \<Longrightarrow> res_map (\<lambda>row. py_get row (- 1)) rows = Inl IndexError" for rows :: "int list list"
    by (induction rows) (auto simp: py_get_def py_index_def Let_def Suc_le_eq neq_Nil_conv)
  then show "\<not> answered b \<Longrightarrow> print_token_comparison b = Inl IndexError" by (auto simp: answered_def print_token_comparison_def)
qed

lemma sample_ok:
  assumes "length lens = length logits" and "length lens = tb_bs b" and "\<forall>i < length lens. 1 \<le> lens ! i \<and> lens ! i \<le> int (length (logits ! i))"
  shows "\<exists>b1. sample_tokens m g logits lens b = (Inr (), b1) \<and> places b1 = places b \<and> tb_logits b1 = Some logits \<and>
    tb_results b1 = tb_results (snd (add_tokens (tg_end_token g) (map (\<lambda>(row, n). cm_argmax m (row ! nat (n - 1))) (zip logits lens))
      [0..<tb_bs b] (b\<lparr>tb_logits := Some logits\<rparr>)))"
proof -
  let ?f = "\<lambda>(row, n). cm_argmax m (row ! nat (n - 1))"
  have "res_map (\<lambda>(row, n). res_bind (py_get row (n - 1)) (\<lambda>v. Inr (cm_argmax m v))) (zip logits lens) = Inr (map ?f (zip logits lens))"
  proof (rule res_map_total)
    fix x assume "x \<in> set (zip logits lens)"
    then obtain i where "i < length lens" "x = (logits ! i, lens ! i)" using assms(1) by (auto simp: in_set_zip)
    moreover from this assms(3) have "1 \<le> snd x \<and> snd x \<le> int (length (fst x))" by auto
    ultimately have "py_get (fst x) (snd x - 1) = Inr (fst x ! nat (snd x - 1))" by (subst py_get_nonneg) auto
    then show "(case x of (row, n) \<Rightarrow> res_bind (py_get row (n - 1)) (\<lambda>v. Inr (cm_argmax m v))) = Inr (?f x)"
      by (simp add: case_prod_unfold)
  qed
  then have ex: "extract_tokens_from_logits m logits lens = Inr (map ?f (zip logits lens))"
    using assms(1) by (simp add: extract_tokens_from_logits_def)
  let ?b = "b\<lparr>tb_logits := Some logits\<rparr>"
  obtain r b2 where add: "add_result_token g (map ?f (zip logits lens)) ?b = (r, b2)" by fastforce
  with add_tokens_ok [of "[0..<tb_bs ?b]" "map ?f (zip logits lens)" "tg_end_token g" ?b] assms(1,2)
  have "r = Inr ()" "tb_logits b2 = Some logits" by (simp_all add: add_result_token_def)
  with ex add have "sample_tokens m g logits lens b = (Inr (), b2\<lparr>tb_next_tokens := Some (map ?f (zip logits lens))\<rparr>)"
    by (simp add: sample_tokens_def)
  moreover from this have "places (b2\<lparr>tb_next_tokens := Some (map ?f (zip logits lens))\<rparr>) = places b"
    using places_sample [of m g logits lens b] by simp
  moreover have "tb_results b2 = tb_results (snd (add_tokens (tg_end_token g) (map ?f (zip logits lens)) [0..<tb_bs b] ?b))"
    using add by (simp add: add_result_token_def)
  ultimately show ?thesis using \<open>tb_logits b2 = _\<close> by simp
qed

text \<open>A round of the evaluation: \<open>bs\<close> sequences of \<open>k\<close> tokens each, no row longer than \<open>M\<close> pages.\<close>

definition eval_state :: "nat \<Rightarrow> nat \<Rightarrow> nat \<Rightarrow> ('c, 'v) torch_batch \<Rightarrow> torch_generator \<Rightarrow> bool" where
  "eval_state M bs k b g \<longleftrightarrow> batch_inv (int (M * bs) + 1) b g \<and> tb_bs b = bs \<and> tb_seq_lens b = List.replicate bs (int k) \<and>
     (\<forall>row \<in> set (tb_seq_block_ids b). length row \<le> M) \<and> answered b"

lemma eval_step:
  assumes "cm_is_paged m" and "0 < cm_block_seq_stride m" and "network_ok m" and st: "eval_state M bs k b g" and bs: "0 < bs"
    and k: "(int k + 1) div cm_block_seq_stride m + 1 \<le> int M" and "length tokens = bs"
  shows "\<exists>b1 g1 logits. decode m tokens b g = (Inr (), b1, g1) \<and> eval_state M bs (Suc k) b1 g1 \<and>
    tb_logits b1 = Some logits \<and> map length logits = List.replicate bs 1 \<and>
    (\<forall>row \<in> set (tb_seq_block_ids b1). (int k + 1) div cm_block_seq_stride m + 1 \<le> int (length row))"
proof -
  let ?s = "cm_block_seq_stride m" let ?n = "int (M * bs) + 1"
  let ?b = "b\<lparr>tb_seq_lens := map (\<lambda>n. n + 1) (tb_seq_lens b)\<rparr>"
  from st have inv: "batch_inv ?n b g" and b: "tb_bs b = bs" "tb_seq_lens b = List.replicate bs (int k)"
    and M: "\<forall>row \<in> set (tb_seq_block_ids b). length row \<le> M" and ans: "answered b" by (simp_all add: eval_state_def)
  obtain r0 b0 g0 where al: "extend_rows m [0..<bs] ?b g = (r0, b0, g0)" by (metis prod_cases3)
  have held: "size (held ?b g) = M * bs" "length (tb_seq_block_ids b) = bs" "tg_free_pages g \<noteq> None"
    using inv b(1) by (simp_all add: batch_inv_def held_def nat_mult_distrib)
  have room: "r0 = Inr () \<and> (\<forall>row \<in> set (tb_seq_block_ids b0). length row \<le> M)"
    using b k M held by (intro extend_rows_room [OF assms(1) held(3) assms(2) _ _ _ al]) (simp_all add: mult.commute)
  have kept: "\<exists>rows. b0 = ?b\<lparr>tb_seq_block_ids := rows\<rparr> \<and> extends (tb_seq_block_ids ?b) rows"
    using extend_rows_facts [OF assms(1) held(3) assms(2) _ al] b held(2) by fastforce
  then have rows: "length (tb_seq_block_ids b0) = bs" using extends_length held(2) by fastforce
  with bs have ne: "tb_seq_block_ids b0 \<noteq> []" by auto
  then obtain table where table: "pad_block_ids b0 = Inr table" by (simp add: pad_block_ids_def)
  obtain am where di: "decode_inputs m b g = (Inr (am, tb_seq_lens b, table), b0, g0)"
    using al room table b(1) by (simp add: decode_inputs_def allocate_seq_block_ids_def)
  note facts = decode_inputs_facts [OF assms(1,2) inv di]
  have lens: "tb_seq_lens b0 = List.replicate bs (int (Suc k))" and bs0: "tb_bs b0 = bs" using facts b by simp_all
  have low: "\<forall>i < tb_bs b. tb_seq_lens b0 ! i div ?s + 1 \<le> int (length (tb_seq_block_ids b0 ! i))"
    by (rule facts [THEN conjunct2, THEN conjunct2, THEN conjunct2, THEN conjunct2, THEN mp, OF is_ok_simps(1)])
  obtain logits c1 where call: "cm_decode m tokens am (tb_seq_lens b) table (tb_cache_state b0) = (Inr logits, c1)"
    and l: "map length logits = List.replicate bs 1" using assms(3,7) unfolding network_ok_def by metis
  from l have l1: "length logits = bs" "\<forall>i < bs. length (logits ! i) = 1"
    by (metis length_map length_replicate, metis length_map length_replicate nth_map nth_replicate)
  from sample_ok [of "List.replicate bs 1" logits "b0\<lparr>tb_cache_state := c1\<rparr>" m g0] l1 bs0
  obtain b1 where b1: "sample_tokens m g0 logits (List.replicate bs 1) (b0\<lparr>tb_cache_state := c1\<rparr>) = (Inr (), b1)"
    "places b1 = places b0" "tb_logits b1 = Some logits" "tb_results b1 = tb_results (snd (add_tokens (tg_end_token g0)
      (map (\<lambda>(row, n). cm_argmax m (row ! nat (n - 1))) (zip logits (List.replicate bs 1))) [0..<bs] (b0\<lparr>tb_cache_state := c1, tb_logits := Some logits\<rparr>)))"
    by auto
  have "answered (b0\<lparr>tb_cache_state := c1, tb_logits := Some logits\<rparr>)"
    using ans extend_rows_results [OF al] by (simp add: answered_def)
  from answered_add_tokens [OF this] b1(4) have ans1: "answered b1" by (simp add: answered_def)
  have inv1: "batch_inv ?n b1 g0" using facts batch_inv_places [OF b1(2)] by blast
  have "decode m tokens b g = (Inr (), b1, g0)" using di call b1 bs0 by (simp add: decode_def)
  moreover have "eval_state M bs (Suc k) b1 g0"
    unfolding eval_state_def using inv1 b1(2) bs0 lens room ans1 by (auto simp: places_def)
  moreover have "\<forall>row \<in> set (tb_seq_block_ids b1). (int k + 1) div ?s + 1 \<le> int (length row)"
    using low b1(2) rows lens b(1) by (auto simp: places_def in_set_conv_nth add.commute)
  ultimately show ?thesis using b1(3) l by blast
qed


lemma eval_rounds:
  assumes "cm_is_paged m" and "0 < cm_block_seq_stride m" and "network_ok m" and "0 < bs" and "length ids = bs" and "k \<le> e"
    and "int e div cm_block_seq_stride m + 1 \<le> int M"
    and "eval_state M bs k b g" and "map length out = List.replicate bs k"
  shows "\<exists>b1 g1 out1. later_logits m ids [k..<e] (b, g, out) = Inr (b1, g1, out1) \<and> eval_state M bs e b1 g1 \<and>
    map length out1 = List.replicate bs e \<and>
    (k < e \<longrightarrow> (\<forall>row \<in> set (tb_seq_block_ids b1). int e div cm_block_seq_stride m + 1 \<le> int (length row)))"
  using assms(6-)
proof (induction "e - k" arbitrary: k b g out)
  case 0
  then show ?case by simp
next
  case (Suc d)
  let ?s = "cm_block_seq_stride m"
  from Suc.hyps(2) have k: "k < e" by simp
  have le: "(int k + 1) div ?s + 1 \<le> int M"
    using zdiv_mono1 [of "int k + 1" "int e" ?s] k assms(2) Suc.prems(2) by linarith
  from eval_step [OF assms(1-3) Suc.prems(3) assms(4) le, of "token_column ids k"] assms(5) obtain b1 g1 logits
    where step: "decode m (token_column ids k) b g = (Inr (), b1, g1)" "eval_state M bs (Suc k) b1 g1" "tb_logits b1 = Some logits"
      "map length logits = List.replicate bs 1" "\<forall>row \<in> set (tb_seq_block_ids b1). (int k + 1) div ?s + 1 \<le> int (length row)"
    by (auto simp: token_column_def)
  have len: "length out = bs" "length logits = bs" using Suc.prems(4) step(4) by (metis length_map length_replicate)+
  have "map length (map2 (@) out logits) = List.replicate bs (Suc k)"
    using Suc.prems(4) step(4) len by (auto intro!: nth_equalityI simp: list_eq_iff_nth_eq)
  moreover have "d = e - Suc k" "Suc k \<le> e" using Suc.hyps(2) k by simp_all
  ultimately obtain b2 g2 out2
    where rest: "later_logits m ids [Suc k..<e] (b1, g1, map2 (@) out logits) = Inr (b2, g2, out2)" "eval_state M bs e b2 g2"
      "map length out2 = List.replicate bs e"
      "Suc k < e \<longrightarrow> (\<forall>row \<in> set (tb_seq_block_ids b2). int e div ?s + 1 \<le> int (length row))"
    using Suc.hyps(1) [OF _ _ Suc.prems(2) step(2)] by blast
  have "\<forall>row \<in> set (tb_seq_block_ids b2). int e div ?s + 1 \<le> int (length row)"
  proof (cases "Suc k < e")
    case False
    with k have "e = Suc k" by simp
    with rest(1) step(5) show ?thesis by (simp add: add.commute)
  qed (use rest(4) in blast)
  moreover have "[k..<e] = k # [Suc k..<e]" using k by (rule upt_conv_Cons)
  moreover have "print_token_comparison b1 = Inr ()" using step(2) by (simp add: eval_state_def print_ok)
  ultimately show ?case using step(1,3) rest(1-3) len by (simp add: cat_logits_def)
qed

text \<open>The first call of the network: the batch of the first tokens is begun and prefilled without an exception.\<close>

definition eval_opening :: "('c, 'v) causal_model \<Rightarrow> int list list \<Rightarrow> int list list \<Rightarrow> int list \<Rightarrow> int \<Rightarrow> torch_generator \<Rightarrow>
    ('c, 'v) torch_batch \<Rightarrow> torch_generator \<Rightarrow> mask_entry list list list \<Rightarrow> int list list \<Rightarrow> 'v list list \<Rightarrow> 'c \<Rightarrow> ('c, 'v) torch_batch \<Rightarrow> bool" where
  "eval_opening m ids batch lens cache_size g b0 g1 am table logits c1 b \<longleftrightarrow>
     pad_tokens (token_column ids 0) (cm_block_seq_stride m) 0 = (batch, lens) \<and>
     begin_eval_batch m batch lens (length ids) cache_size g = (Inr b0, g1) \<and>
     prefill m b0 g1 = (Inr (), b) \<and> tb_logits b = Some logits \<and>
     cm_prefill m batch am table (tb_cache_state b0) = (Inr logits, c1)"

lemma eval_start:
  assumes "cm_is_paged m" and "0 < cm_block_seq_stride m" and "network_ok m"
    and "cm_causal_context_mask m = None \<or> cm_causal_context_mask m = Some (generate_causal_context_mask m)"
    and "cm_block_seq_stride m \<le> cm_context_length m" and "ids \<noteq> []" and "\<forall>row \<in> set ids. row \<noteq> []" and "0 < M"
  shows "\<exists>batch lens b0 am table logits c1 b g1. eval_opening m ids batch lens (int (M * length ids) + 1) g b0 g1 am table logits c1 b \<and>
    first_logits m ids (length ids) (int (M * length ids) + 1) g = res_bind (print_token_comparison b) (\<lambda>_. Inr (b, g1, map (take 1) logits)) \<and>
    (answered b \<longleftrightarrow> (\<forall>row \<in> set logits. cm_argmax m (hd row) \<noteq> tg_end_token g)) \<and>
    (answered b \<longrightarrow> eval_state M (length ids) 1 b g1) \<and> map length (map (take 1) logits) = List.replicate (length ids) 1"
proof -
  let ?s = "cm_block_seq_stride m" let ?bs = "length ids" let ?n = "int (M * length ids) + 1" let ?g = "g\<lparr>tg_free_pages := Some [1..?n - 1]\<rparr>"
  let ?cols = "token_column ids 0"
  have one_each: "min 1 (length row) = 1" if "row \<in> set ids" for row using assms(7) that by (cases row) auto
  have "map length ?cols = map (\<lambda>_. 1) ids" using one_each by (simp add: token_column_def)
  then have cols: "map length ?cols = List.replicate ?bs 1" by (simp only: map_replicate_const)
  have cols1: "length ?cols = ?bs" "?cols \<noteq> []" using assms(6) by (simp_all add: token_column_def)
  obtain batch lens where pad: "pad_tokens ?cols (pad_sequence_stride m) 0 = (batch, lens)" by fastforce
  note padded = pad_tokens_facts [OF pad [unfolded pad_sequence_stride_def] assms(2)]
  have "lens = map int (map length ?cols)" using padded by (simp add: o_def)
  then have lens: "lens = List.replicate ?bs 1" unfolding cols by simp
  have "\<forall>row \<in> set ?cols. length row = 1" using arg_cong [OF cols, of set] assms(6) by auto
  moreover have "fst (get_prompt_lengths ?cols) = map int (map length ?cols)" by (simp add: get_prompt_lengths_def)
  ultimately have "snd (get_prompt_lengths ?cols) = 1"
    using longest_prompt [of ?cols] hd_in_set [OF cols1(2)] assms(6) unfolding cols by fastforce
  then have width: "\<forall>row \<in> set batch. length row = nat ?s"
    using padded assms(2) ceil_div_pos [OF assms(2), of 1] by auto
  obtain r g1 where fr: "first_rows m lens ?g = (r, g1)" by fastforce
  have "sum_list (map (blocks_needed m) lens) = ?bs"
    using lens assms(2) ceil_div_pos [OF assms(2), of 1] by (simp add: blocks_needed_def sum_list_replicate)
  moreover have "?bs \<le> M * ?bs" using assms(8) by (cases M) auto
  ultimately obtain rows where rows: "r = Inr rows"
    using first_rows_facts [OF assms(1) _ fr] by (cases r) (auto simp: free_list_def nat_mult_distrib)
  then obtain b where nb: "new_batch m batch lens (cm_paged_allocate m ?n) ?g = (Inr b, g1)" using fr by (simp add: new_batch_def)
  have bl: "length batch = ?bs" using padded cols1(1) by simp
  have st: "batch_inv ?n b g1" "places b = (?bs, batch, lens, tb_seq_block_ids b)"
    "map length (tb_seq_block_ids b) = map (blocks_needed m) lens"
    using new_batch_inv [OF assms(1,2) _ _ nb] lens bl by auto
  then have pl: "tb_bs b = ?bs" "tb_token_ids b = batch" "tb_seq_lens b = lens" by (simp_all add: places_def)
  have one: "\<forall>row \<in> set (tb_seq_block_ids b). length row = 1"
    using arg_cong [OF st(3), of set] lens assms(2,6) ceil_div_pos [OF assms(2), of 1] by (auto simp: blocks_needed_def)
  have "batch \<noteq> []" using bl assms(6) by auto
  then have batch: "batch \<noteq> []" "length (hd batch) = nat ?s" using width hd_in_set by auto
  have "attention_mask m (input_mask lens (int (nat ?s))) (nat ?s) None =
      Inr (map (\<lambda>n. map (\<lambda>q. map (\<lambda>k. if k \<le> q \<and> k < n then Unmasked else MaximallyNegative) [0..int (nat ?s) - 1]) [0..int (nat ?s) - 1]) lens)"
    using assms(2,5) by (intro attention_mask_computes assms(4)) simp
  moreover have "tb_seq_block_ids b \<noteq> []" using st(3) lens assms(6) by auto
  ultimately obtain am table where pi: "prefill_inputs m b = Inr (am, table)"
    using batch pl by (auto simp: prefill_inputs_def pad_block_ids_def Let_def)
  obtain logits c1 where call: "cm_prefill m batch am table (tb_cache_state b) = (Inr logits, c1)" "map length logits = map length batch"
    using assms(3) unfolding network_ok_def by metis
  have l: "length logits = ?bs" "\<forall>i < ?bs. length (logits ! i) = nat ?s"
    using call(2) bl width by (metis length_map, metis length_map nth_map nth_mem)
  from sample_ok [of lens logits "b\<lparr>tb_cache_state := c1\<rparr>" m g1] l lens pl assms(2)
  obtain b1 where b1: "sample_tokens m g1 logits lens (b\<lparr>tb_cache_state := c1\<rparr>) = (Inr (), b1)" "places b1 = places b" "tb_logits b1 = Some logits"
    "tb_results b1 = tb_results (snd (add_tokens (tg_end_token g1) (map (\<lambda>(row, n). cm_argmax m (row ! nat (n - 1))) (zip logits lens))
      [0..<?bs] (b\<lparr>tb_cache_state := c1, tb_logits := Some logits\<rparr>)))"
    by auto
  let ?b = "b\<lparr>tb_cache_state := c1, tb_logits := Some logits\<rparr>" let ?ts = "map (\<lambda>(row, n). cm_argmax m (row ! nat (n - 1))) (zip logits lens)"
  have fresh: "tb_results ?b = List.replicate ?bs []" "tb_done_result_indices ?b = []" "tg_end_token g1 = tg_end_token g"
    using nb bl new_batch_inv [OF assms(1,2) _ _ nb] lens by (auto simp: new_batch_def split: sum.splits prod.splits)
  have first: "\<forall>i < ?bs. logits ! i ! 0 = hd (logits ! i)"
  proof (intro allI impI)
    fix i assume "i < ?bs"
    then have "0 < length (logits ! i)" using l(2) assms(2) by simp
    then show "logits ! i ! 0 = hd (logits ! i)" by (simp add: hd_conv_nth)
  qed
  have ts: "length ?ts = ?bs" "\<forall>i < ?bs. ?ts ! i = cm_argmax m (hd (logits ! i))"
    using l(1) lens first by simp_all
  have lr: "length (tb_results b1) = ?bs" using length_results [of "tg_end_token g1" ?ts "[0..<?bs]" ?b] b1(4) fresh(1) by simp
  have ans: "answered b1 \<longleftrightarrow> (\<forall>row \<in> set logits. cm_argmax m (hd row) \<noteq> tg_end_token g)"
  proof
    assume "\<forall>row \<in> set logits. cm_argmax m (hd row) \<noteq> tg_end_token g"
    then have none: "cm_argmax m (hd (logits ! i)) \<noteq> tg_end_token g" if "i < ?bs" for i
      using that l(1) nth_mem [of i logits] by simp
    have "\<forall>t \<in> set ?ts. t \<noteq> tg_end_token g1"
    proof
      fix t assume "t \<in> set ?ts"
      then obtain i where "i < length ?ts" "t = ?ts ! i" unfolding in_set_conv_nth by blast
      then show "t \<noteq> tg_end_token g1" using ts(2) none [of i] fresh(3) unfolding ts(1) by metis
    qed
    from add_tokens_answered [OF this fresh(2), of "[0..<?bs]"] l(1) lens fresh(1) b1(4)
    have "\<forall>i < ?bs. tb_results b1 ! i \<noteq> []" by simp
    then show "answered b1" using lr by (auto simp: answered_def in_set_conv_nth)
  next
    assume a: "answered b1"
    show "\<forall>row \<in> set logits. cm_argmax m (hd row) \<noteq> tg_end_token g"
    proof (intro ballI notI)
      fix row assume "row \<in> set logits" "cm_argmax m (hd row) = tg_end_token g"
      then obtain i where "i < ?bs" "cm_argmax m (hd (logits ! i)) = tg_end_token g" using l(1) unfolding in_set_conv_nth by auto
      then have "?ts ! i = tg_end_token g1" using ts(2) fresh(3) by simp
      with add_tokens_kept [of i ?ts "tg_end_token g1" "[0..<?bs]" ?b] l(1) lens b1(4) fresh(1) \<open>i < ?bs\<close> have "tb_results b1 ! i = []" by simp
      moreover have "tb_results b1 ! i \<in> set (tb_results b1)" using lr \<open>i < ?bs\<close> by simp
      ultimately show False using a unfolding answered_def by auto
    qed
  qed
  have "prefill m b g1 = (Inr (), b1)" using pi call(1) b1(1) pl by (simp add: prefill_def)
  moreover have "answered b1 \<longrightarrow> eval_state M ?bs 1 b1 g1"
    using batch_inv_places [OF b1(2), of ?n g1] st(1) b1(2) pl lens one assms(8) by (simp add: eval_state_def places_def)
  moreover have "map length (map (take 1) logits) = List.replicate ?bs 1"
    using l assms(2) by (auto simp: list_eq_iff_nth_eq)
  moreover have "begin_eval_batch m batch lens ?bs ?n g = (Inr b, g1)" using nb assms(1) by (simp add: begin_eval_batch_def)
  moreover have "first_logits m ids ?bs ?n g = res_bind (print_token_comparison b1) (\<lambda>_. Inr (b1, g1, map (take 1) logits))"
    using pad nb b1(3) assms(1) calculation(1) by (simp add: first_logits_def begin_eval_batch_def)
  moreover from calculation have "eval_opening m ids batch lens ?n g b g1 am table logits c1 b1"
    using pad call(1) b1(3) by (simp add: eval_opening_def pad_sequence_stride_def)
  ultimately show ?thesis using ans by blast
qed

lemma eval_done_pages:
  assumes "eval_state M bs k b g" and "\<forall>row \<in> set (tb_seq_block_ids b). int M \<le> int (length row)"
  shows "free_list g = []"
proof -
  from assms have st: "batch_inv (int (M * bs) + 1) b g" "tb_bs b = bs" "\<forall>row \<in> set (tb_seq_block_ids b). length row = M"
    by (auto simp: eval_state_def intro: antisym)
  have "map length (tb_seq_block_ids b) = map (\<lambda>_. M) (tb_seq_block_ids b)" using st(3) by simp
  then have "sum_list (map length (tb_seq_block_ids b)) = length (tb_seq_block_ids b) * M"
    by (simp only: map_replicate_const sum_list_replicate of_nat_id)
  with st(1,2) size_held [of b g] show ?thesis by (simp add: batch_inv_def nat_mult_distrib)
qed

lemma get_logits_total:
  assumes "cm_is_paged m" and "0 < cm_block_seq_stride m" and "network_ok m"
    and "cm_causal_context_mask m = None \<or> cm_causal_context_mask m = Some (generate_causal_context_mask m)"
    and "cm_block_seq_stride m \<le> cm_context_length m" and ids: "ids \<noteq> []" "\<forall>row \<in> set ids. length row = w"
    and longest: "2 \<le> longest" "int w = int M * cm_block_seq_stride m" "int M = (int longest - 1) div cm_block_seq_stride m + 1"
  shows "\<exists>batch lens b0 g0 am table logits c1 b1. eval_opening m ids batch lens (int (M * length ids) + 1) g b0 g0 am table logits c1 b1 \<and>
    (if \<exists>row \<in> set logits. cm_argmax m (hd row) = tg_end_token g
     then print_token_comparison b1 = Inl IndexError \<and> get_logits m zero ids (length ids) longest (int (M * length ids) + 1) g = Inl IndexError
     else (\<exists>b g1 out. get_logits m zero ids (length ids) longest (int (M * length ids) + 1) g = Inr (b, g1, out) \<and>
       map length out = map length ids \<and> (3 \<le> longest \<longrightarrow> free_list g1 = [])))"
proof -
  let ?s = "cm_block_seq_stride m" let ?bs = "length ids" let ?e = "longest - 1"
  have M: "int M = int ?e div ?s + 1" using longest(1,3) by (simp add: of_nat_diff)
  have "int ?e < (int ?e div ?s + 1) * ?s"
    using div_mult_mod_eq [of "int ?e" ?s] pos_mod_bound [OF assms(2), of "int ?e"] unfolding distrib_right by linarith
  then have w: "?e < w" using M longest(2) by simp
  have "0 \<le> int ?e div ?s" using assms(2) by (simp add: pos_imp_zdiv_nonneg_iff)
  with M have M0: "0 < M" by linarith
  have rows: "\<forall>row \<in> set ids. row \<noteq> []" using ids(2) w by auto
  from eval_start [OF assms(1-5) ids(1) rows M0, where g = g] obtain batch lens bb am table logits c1 b0 g0 where start:
    "eval_opening m ids batch lens (int (M * ?bs) + 1) g bb g0 am table logits c1 b0"
    "first_logits m ids ?bs (int (M * ?bs) + 1) g = res_bind (print_token_comparison b0) (\<lambda>_. Inr (b0, g0, map (take 1) logits))"
    "answered b0 \<longleftrightarrow> (\<forall>row \<in> set logits. cm_argmax m (hd row) \<noteq> tg_end_token g)"
    "answered b0 \<longrightarrow> eval_state M ?bs 1 b0 g0" "map length (map (take 1) logits) = List.replicate ?bs 1"
    by (elim exE conjE) (rule that)
  have bs: "0 < ?bs" and e: "1 \<le> ?e" using ids(1) longest(1) by simp_all
  show ?thesis
  proof (cases "answered b0")
    case False
    then have "get_logits m zero ids ?bs longest (int (M * ?bs) + 1) g = Inl IndexError"
      using start(2) longest(1) by (simp add: get_logits_def print_fails)
    moreover have "\<exists>row \<in> set logits. cm_argmax m (hd row) = tg_end_token g" using False start(3) by blast
    ultimately show ?thesis using start(1) print_fails [OF False] by (metis (no_types, lifting))
  next
    case True
  from eval_rounds [OF assms(1-3) bs refl e _ start(4) [THEN mp, OF True] start(5)] M obtain b g1 out where run:
      "later_logits m ids [1..<?e] (b0, g0, map (take 1) logits) = Inr (b, g1, out)" "eval_state M ?bs ?e b g1" "map length out = List.replicate ?bs ?e"
      "1 < ?e \<longrightarrow> (\<forall>row \<in> set (tb_seq_block_ids b). int ?e div ?s + 1 \<le> int (length row))" by force
    have out: "length out = ?bs" "out \<noteq> []" using arg_cong [OF run(3), of length] ids(1) by auto
    have "\<forall>row \<in> set out. length row = ?e" using arg_cong [OF run(3), of set] ids(1) by auto
    with out have outs: "\<forall>row \<in> set out. length row = ?e" "length (hd out) = ?e" by auto
    have hd: "length (hd ids) = w" using ids by simp
    let ?out = "map (\<lambda>row. row @ List.replicate (w - ?e) zero) out"
    have "get_logits m zero ids ?bs longest (int (M * ?bs) + 1) g = Inr (b, g1, ?out)"
      using start(2) print_ok [OF True] run(1) out outs(2) hd w longest(1) by (simp add: get_logits_def)
    moreover have "map length ?out = map length ids" using outs(1) out(1) ids(2) w by (intro nth_equalityI) auto
    moreover have "3 \<le> longest \<longrightarrow> free_list g1 = []" using eval_done_pages [OF run(2)] run(4) M by auto
    moreover have "\<not> (\<exists>row \<in> set logits. cm_argmax m (hd row) = tg_end_token g)" using True start(3) by blast
    ultimately show ?thesis using start(1) by (metis (no_types, lifting))
  qed
qed

text \<open>
  C13: let the cache be paged, the network return logits for every position of its inputs (\<open>network_ok\<close>), the causal mask
  be unset or the one of the context, the context hold at least a block, the encoder return one row for each prompt, and
  one of the prompts have two tokens or more. Then the evaluation begins its batch and prefills the first tokens without
  an exception. If this first call predicts the end token for some prompt, the evaluation raises IndexError, and it is the
  comparison that is printed then which raises it. Otherwise the evaluation returns, so the page cache was
  large enough; with a longest prompt of three tokens or more every page is in use at the end; logits and tokens have one shape.
\<close>

theorem perplexity_fits_cache:
  assumes "cm_is_paged m" and "0 < cm_block_seq_stride m" and "network_ok m"
    and "cm_causal_context_mask m = None \<or> cm_causal_context_mask m = Some (generate_causal_context_mask m)"
    and "cm_block_seq_stride m \<le> cm_context_length m"
    and "length (enc prompts False) = length prompts" and "\<exists>p \<in> set (enc prompts False). 2 \<le> length p"
  shows "let (ids, lens) = tokenizer_encode enc prompts (cm_block_seq_stride m) False; longest = nat (foldl max 0 lens) in
    \<exists>batch seq_lens b0 g0 am table firsts c1 b1.
      pad_tokens (token_column ids 0) (cm_block_seq_stride m) 0 = (batch, seq_lens) \<and>
      begin_eval_batch m batch seq_lens (length prompts)
        (int (length (hd ids)) div cm_block_seq_stride m * int (length prompts) + 1) g = (Inr b0, g0) \<and>
      prefill m b0 g0 = (Inr (), b1) \<and> tb_logits b1 = Some firsts \<and>
      cm_prefill m batch am table (tb_cache_state b0) = (Inr firsts, c1) \<and>
      (if \<exists>row \<in> set firsts. cm_argmax m (hd row) = tg_end_token g
       then print_token_comparison b1 = Inl IndexError \<and> perplexity_inputs m enc zero prompts g = Inl IndexError
       else (\<exists>logits tokens amask b g1 out. perplexity_inputs m enc zero prompts g = Inr (logits, tokens, amask) \<and>
         map length logits = map length tokens \<and> tokens = map tl ids \<and> logits = map butlast out \<and>
         get_logits m zero ids (length prompts) longest (int (length (hd ids)) div cm_block_seq_stride m * int (length prompts) + 1) g = Inr (b, g1, out) \<and>
         (3 \<le> longest \<longrightarrow> free_list g1 = [])))"
proof -
  let ?s = "cm_block_seq_stride m" let ?ps = "enc prompts False"
  obtain ids lens where enc: "tokenizer_encode enc prompts ?s False = (ids, lens)" by fastforce
  then have pad: "pad_tokens ?ps ?s 0 = (ids, lens)" by (simp add: tokenizer_encode_def)
  note padded = pad_tokens_facts [OF pad assms(2)]
  let ?l = "snd (get_prompt_lengths ?ps)" let ?M = "nat (ceil_div ?l ?s)"
  have fold: "foldl max 0 lens = ?l"
    using padded by (simp add: get_prompt_lengths_def foldl_map)
  from assms(7) longest_prompt(1) [of ?ps] have l: "2 \<le> ?l" by fastforce
  have M: "int ?M = (?l - 1) div ?s + 1" using ceil_div_pos [OF assms(2), of ?l] ceil_div_nonneg [OF assms(2), of ?l] l by simp
  have ne: "ids \<noteq> []" "length ids = length prompts" using padded assms(6,7) by auto
  let ?w = "nat (?s * ceil_div ?l ?s)"
  have c: "0 \<le> ceil_div ?l ?s" using ceil_div_nonneg [OF assms(2), of ?l] l by simp
  have widths: "\<forall>row \<in> set ids. length row = ?w" using padded by (metis nat_int)
  have w: "int ?w = int ?M * ?s" using c assms(2) by (simp add: mult.commute)
  have pages: "int (length (hd ids)) div ?s * int (length prompts) + 1 = int (?M * length ids) + 1"
    using widths hd_in_set [OF ne(1)] w assms(2) ne(2) by simp
  have long: "2 \<le> nat ?l" "int ?M = (int (nat ?l) - 1) div ?s + 1" using l M by simp_all
  let ?n = "int (length (hd ids)) div ?s * int (length prompts) + 1"
  let ?amask = "map (\<lambda>row. map (\<lambda>t. if t \<noteq> 0 then 1 else 0) (tl row)) ids"
  from get_logits_total [OF assms(1-5) ne(1) widths long(1) w long(2), where g = g and zero = zero] obtain batch seq_lens b0 g0 am table firsts c1 b1 where
    call: "eval_opening m ids batch seq_lens ?n g b0 g0 am table firsts c1 b1" and
    run: "if \<exists>row \<in> set firsts. cm_argmax m (hd row) = tg_end_token g
      then print_token_comparison b1 = Inl IndexError \<and> get_logits m zero ids (length prompts) (nat ?l) ?n g = Inl IndexError
      else (\<exists>b g1 out. get_logits m zero ids (length prompts) (nat ?l) ?n g = Inr (b, g1, out) \<and>
        map length out = map length ids \<and> (3 \<le> nat ?l \<longrightarrow> free_list g1 = []))"
    unfolding pages ne(2) by blast
  have inputs: "perplexity_inputs m enc zero prompts g =
      res_bind (get_logits m zero ids (length prompts) (nat ?l) ?n g) (\<lambda>(b, g1, out).
        if map length (map tl ids) = map length (map butlast out) then Inr (map butlast out, map tl ids, ?amask) else Inl AssertionError)"
    using enc ne assms(2) fold by (simp add: perplexity_inputs_def pad_sequence_stride_def Let_def)
  have "if \<exists>row \<in> set firsts. cm_argmax m (hd row) = tg_end_token g then print_token_comparison b1 = Inl IndexError \<and> perplexity_inputs m enc zero prompts g = Inl IndexError
    else (\<exists>logits tokens amask b g1 out. perplexity_inputs m enc zero prompts g = Inr (logits, tokens, amask) \<and>
      map length logits = map length tokens \<and> tokens = map tl ids \<and> logits = map butlast out \<and>
      get_logits m zero ids (length prompts) (nat ?l) ?n g = Inr (b, g1, out) \<and> (3 \<le> nat ?l \<longrightarrow> free_list g1 = []))"
  proof (cases "\<exists>row \<in> set firsts. cm_argmax m (hd row) = tg_end_token g")
    case True
    with run inputs show ?thesis by simp
  next
    case False
    with run obtain b g1 out where ok: "get_logits m zero ids (length prompts) (nat ?l) ?n g = Inr (b, g1, out)"
      "map length out = map length ids" "3 \<le> nat ?l \<longrightarrow> free_list g1 = []" by auto
    have "map length (map butlast out) = map length (map tl ids)"
      using arg_cong [OF ok(2), of "map (\<lambda>n. n - 1)"] by (simp add: o_def)
    then have "perplexity_inputs m enc zero prompts g = Inr (map butlast out, map tl ids, ?amask)" "map length (map butlast out) = map length (map tl ids)"
      using inputs ok(1) by simp_all
    with False ok show ?thesis by (simp only: if_False) blast
  qed
  then show ?thesis using enc fold call [unfolded eval_opening_def ne(2)] by (simp only: Let_def prod.case) blast
qed

subsection \<open>A small network\<close>

text \<open>The logits of a position are the token at it, and the next token is one more.\<close>

definition demo_network :: "(unit, int) causal_model" where
  "demo_network = \<lparr>cm_is_paged = True, cm_block_seq_stride = 2, cm_context_length = 8, cm_causal_context_mask = None,
     cm_paged_allocate = (\<lambda>_. ()), cm_direct_allocate = (\<lambda>_. ()), cm_prefill = (\<lambda>ids _ _ c. (Inr ids, c)),
     cm_decode = (\<lambda>tokens _ _ _ c. (Inr (map (\<lambda>row. [sum_list row]) tokens), c)), cm_argmax = (\<lambda>v. v + 1)\<rparr>"

definition demo_encode :: "int list list \<Rightarrow> bool \<Rightarrow> int list list" where
  "demo_encode texts add_start_token = texts"

definition demo_batch :: "(unit, int) torch_batch" where
  "demo_batch = \<lparr>tb_bs = 2, tb_token_ids = [[5, 6, 7, 0], [8, 0, 0, 0]], tb_seq_lens = [3, 1], tb_cache_state = (),
     tb_results = [[], []], tb_done_result_indices = [], tb_seq_block_ids = [[5, 4], [3]], tb_next_tokens = None, tb_logits = None\<rparr>"

definition demo_filled :: "(unit, int) torch_batch" where
  "demo_filled = demo_batch\<lparr>tb_results := [[8], [9]], tb_next_tokens := Some [8, 9], tb_logits := Some [[5, 6, 7, 0], [8, 0, 0, 0]]\<rparr>"

definition demo_generator :: "int list \<Rightarrow> torch_generator" where
  "demo_generator ps = \<lparr>tg_end_token = 2, tg_free_pages = Some ps\<rparr>"

definition demo_mask :: "mask_entry list list" where
  "demo_mask = [[Unmasked, Unmasked, Unmasked, Unmasked, MaximallyNegative, MaximallyNegative],
     [Unmasked, Unmasked, MaximallyNegative, MaximallyNegative, MaximallyNegative, MaximallyNegative]]"

lemma demo_begin: "begin_batch demo_network demo_encode [[5, 6, 7], [8]] False 6 (new_torch_generator 2) = (Inr demo_batch, demo_generator [1, 2])"
  by code_simp

lemma demo_calls: "batch_calls demo_network [PrefillCall] demo_batch (demo_generator [1, 2]) = (demo_filled, demo_generator [1, 2])"
  by code_simp

lemma demo_decode: "decode_inputs demo_network demo_filled (demo_generator [1, 2]) =
    (Inr (demo_mask, [3, 1], [[5, 4, 2], [3, 1, 0]]),
     demo_filled\<lparr>tb_seq_lens := [4, 2], tb_seq_block_ids := [[5, 4, 2], [3, 1]]\<rparr>, demo_generator [])"
  by code_simp

lemma demo_network_simps:
  "cm_is_paged demo_network" "cm_block_seq_stride demo_network = 2" "cm_context_length demo_network = 8"
  "cm_causal_context_mask demo_network = None"
  by (simp_all add: demo_network_def)

lemma demo_network_ok: "network_ok demo_network"
  by (simp add: network_ok_def demo_network_def o_def map_replicate_const)

theorem decode_addresses_own_pages_witness:
  "begin_batch demo_network demo_encode [[5, 6, 7], [8]] False 6 (new_torch_generator 2) = (Inr demo_batch, demo_generator [1, 2]) \<and>
   batch_calls demo_network [PrefillCall] demo_batch (demo_generator [1, 2]) = (demo_filled, demo_generator [1, 2]) \<and>
   prefix [5, 4] ([5, 4, 2] :: int list) \<and> demo_mask ! 0 ! 3 = Unmasked \<and> demo_mask ! 0 ! 4 = MaximallyNegative"
  using demo_begin demo_calls decode_addresses_own_pages [OF _ _ demo_begin demo_calls demo_decode, of 0]
  by (auto simp: demo_network_simps demo_filled_def demo_batch_def demo_mask_def)

theorem prefill_inputs_fit_witness:
  "\<exists>am table. prefill_inputs demo_network demo_batch = Inr (am, table) \<and> length table = 2"
  using prefill_inputs_fit [OF _ _ _ _ demo_begin] by (auto simp: demo_network_simps demo_encode_def demo_batch_def)



theorem generation_loop_ends_witness:
  "\<exists>r. generate_text demo_network demo_encode [[5, 6, 7], [8]] 6 2 11 = Some r"
  using generation_loop_ends [of demo_network demo_encode "[[5, 6, 7], [8]]" 6 2] by (auto simp: demo_network_simps)

lemma demo_encoded: "tokenizer_encode demo_encode [[5, 6, 7], [8]] 2 False = ([[5, 6, 7, 0], [8, 0, 0, 0]], [3, 1])"
  by code_simp

lemma demo_first: "pad_tokens (token_column [[5, 6, 7, 0], [8, 0, 0, 0]] 0) 2 0 = ([[5, 0], [8, 0]], [1, 1])"
  by code_simp

lemma demo_calls_simps:
  "cm_prefill demo_network ids am table c = (Inr ids, c)" "cm_argmax demo_network v = v + 1" "tg_end_token (new_torch_generator e) = e"
  by (simp_all add: demo_network_def new_torch_generator_def)

theorem perplexity_fits_cache_witness:
  "(\<exists>logits tokens amask. perplexity_inputs demo_network demo_encode 0 [[5, 6, 7], [8]] (new_torch_generator 2) = Inr (logits, tokens, amask)) \<and>
   perplexity_inputs demo_network demo_encode 0 [[5, 6, 7], [8]] (new_torch_generator 9) = Inl IndexError"
  using perplexity_fits_cache [where m = demo_network and enc = demo_encode and prompts = "[[5, 6, 7], [8]]" and zero = 0 and g = "new_torch_generator 2"]
    perplexity_fits_cache [where m = demo_network and enc = demo_encode and prompts = "[[5, 6, 7], [8]]" and zero = 0 and g = "new_torch_generator 9"]
    demo_network_ok
  by (simp add: demo_network_simps demo_encode_def [of "[[5, 6, 7], [8]]"] demo_encoded demo_first demo_calls_simps Let_def) blast

end
