(* ===== verification/Tn_Archive.thy ===== *)
theory Tn_Archive
  imports Tn_Tensors Theta_Tree
begin

section \<open>Saving and loading of tensors and datasets\<close>

text \<open>
  Model of the serialisation in \<open>sharktank/types/tensors.py\<close> (metadata, quantized, primitive and sharded
  tensors), of the planes of \<open>types/layouts.py\<close> and of the datasets of \<open>types/theta.py\<close>. A dtype is its
  name. A blob is the JSON value it encodes. The archive builders and the archive are code of IREE: what
  is modelled are the calls made on a builder and the use of the entries an archive has.
\<close>

datatype jvalue =
  JNull | JInt int | JBool bool | JStr string | JList "jvalue list" | JObj "(string \<times> jvalue) list"

type_synonym 't dtorch = "('t, string) torch"

subsection \<open>Metadata of a tensor\<close>

record tensor_metadata =
  tm_type_name :: string
  tm_raw_tensors :: "(string \<times> string) list"
  tm_extra_properties :: "(string \<times> jvalue) list option"

definition update_all :: "('k \<times> 'v) list \<Rightarrow> ('k \<times> 'v) list \<Rightarrow> ('k \<times> 'v) list" where
  "update_all d items = fold (\<lambda>(k, v). AList.update k v) items d"

definition metadata_to_json :: "tensor_metadata \<Rightarrow> (string \<times> jvalue) list" where
  "metadata_to_json m =
     (let d = [(''type_name'', JStr (tm_type_name m)),
               (''raw_tensors'', JObj (map (\<lambda>(k, v). (k, JStr v)) (tm_raw_tensors m)))]
      in case tm_extra_properties m of None \<Rightarrow> d | Some props \<Rightarrow> update_all d props)"

fun string_items :: "(string \<times> jvalue) list \<Rightarrow> (string \<times> string) list res" where
  "string_items [] = Inr []"
| "string_items ((k, JStr v) # rest) = res_bind (string_items rest) (\<lambda>r. Inr ((k, v) # r))"
| "string_items (_ # rest) = Inl OSError"

definition metadata_from_json :: "(string \<times> jvalue) list \<Rightarrow> tensor_metadata res" where
  "metadata_from_json obj =
     (case map_of obj ''type_name'' of
        Some (JStr type_name) \<Rightarrow>
          (case map_of (AList.delete ''type_name'' obj) ''raw_tensors'' of
             Some (JObj raw_tensors) \<Rightarrow>
               res_bind (string_items raw_tensors) (\<lambda>raw.
                 Inr \<lparr>tm_type_name = type_name, tm_raw_tensors = raw,
                      tm_extra_properties = Some (AList.delete ''raw_tensors'' (AList.delete ''type_name'' obj))\<rparr>)
           | _ \<Rightarrow> Inl OSError)
      | _ \<Rightarrow> Inl OSError)"

subsection \<open>Names of dtypes\<close>

text \<open>The names every torch has; \<open>optional_names\<close> are those of the others that the torch in use has.\<close>

definition base_dtype_names :: "string list" where
  "base_dtype_names =
     [''float32'', ''float64'', ''complex64'', ''complex128'', ''float16'', ''bfloat16'', ''uint8'', ''int8'',
      ''int16'', ''int32'', ''int64'', ''bool'', ''float8_e4m3fnuz'']"

definition maybe_dtype_names :: "string list" where
  "maybe_dtype_names =
     [''float8_e4m3fn'', ''float8_e4m3fnuz'', ''float8_e5m2'', ''float8_e5m2fnuz'', ''uint1'', ''uint2'', ''uint3'',
      ''uint4'', ''uint5'', ''uint6'', ''uint7'']"

definition known_dtypes :: "(string \<Rightarrow> bool) \<Rightarrow> string list" where
  "known_dtypes has_dtype = base_dtype_names @ filter has_dtype maybe_dtype_names"

definition dtype_to_serialized_name :: "(string \<Rightarrow> bool) \<Rightarrow> string \<Rightarrow> string res" where
  "dtype_to_serialized_name has_dtype dtype =
     (if dtype \<in> set (known_dtypes has_dtype) then Inr dtype else Inl KeyError)"

definition serialized_name_to_dtype :: "(string \<Rightarrow> bool) \<Rightarrow> string \<Rightarrow> string res" where
  "serialized_name_to_dtype has_dtype name =
     (if name \<in> set (known_dtypes has_dtype) then Inr name else Inl KeyError)"

definition short_dtype_names :: "(string \<times> string) list" where
  "short_dtype_names =
     [(''f32'', ''float32''), (''f64'', ''float64''), (''c64'', ''complex64''), (''c128'', ''complex128''),
      (''f16'', ''float16''), (''bf16'', ''bfloat16''), (''ui8'', ''uint8''), (''i8'', ''int8''), (''i16'', ''int16''),
      (''i32'', ''int32''), (''i64'', ''int64''), (''b'', ''bool''), (''f8_e4m3fnuz'', ''float8_e4m3fnuz'')]"

definition serialized_short_name_to_dtype :: "string \<Rightarrow> string res" where
  "serialized_short_name_to_dtype name =
     (case map_of short_dtype_names name of None \<Rightarrow> Inl KeyError | Some d \<Rightarrow> Inr d)"

definition dtype_to_serialized_short_name :: "string \<Rightarrow> string res" where
  "dtype_to_serialized_short_name dtype =
     (case map_of (map (\<lambda>(k, v). (v, k)) short_dtype_names) dtype of None \<Rightarrow> Inl KeyError | Some n \<Rightarrow> Inr n)"

subsection \<open>Quantized layouts\<close>

datatype 't layout =
  TensorScaledLayout "int list" 't 't "'t option" string
| BlockScaledLayout "int list" 't 't "'t option"
| BlockScaledI4Layout "int list" 't 't "'t option" bool
| SuperBlockLayout "int list" 't 't 't 't 't 't 't

text \<open>\<open>TensorScaledLayout(shape, d, qs, m, dtype)\<close>: the dtype is that of \<open>d\<close> when none is given.\<close>

definition new_tensor_scaled ::
  "'t dtorch \<Rightarrow> int list \<Rightarrow> 't \<Rightarrow> 't \<Rightarrow> 't option \<Rightarrow> string option \<Rightarrow> 't layout" where
  "new_tensor_scaled T shape d qs m dtype =
     TensorScaledLayout shape d qs m (case dtype of None \<Rightarrow> th_dtype T d | Some t \<Rightarrow> t)"

definition optional_plane :: "'t option \<Rightarrow> (string \<times> 't) list" where
  "optional_plane m = (case m of None \<Rightarrow> [] | Some t \<Rightarrow> [(''m'', t)])"

fun layout_planes :: "'t layout \<Rightarrow> (string \<times> 't) list" where
  "layout_planes (TensorScaledLayout shape d qs m dtype) = [(''d'', d), (''qs'', qs)] @ optional_plane m"
| "layout_planes (BlockScaledLayout shape d qs m) = [(''d'', d), (''qs'', qs)] @ optional_plane m"
| "layout_planes (BlockScaledI4Layout shape d qs m signed) = [(''d'', d), (''qs'', qs)] @ optional_plane m"
| "layout_planes (SuperBlockLayout shape d dmin sh sl mh ml qs) =
     [(''d'', d), (''dmin'', dmin), (''sb_scales_high'', sh), (''sb_scales_low'', sl), (''sb_mins_high'', mh),
      (''sb_mins_low'', ml), (''qs'', qs)]"

fun layout_name :: "'t layout \<Rightarrow> string" where
  "layout_name (TensorScaledLayout _ _ _ _ _) = ''TensorScaledLayout''"
| "layout_name (BlockScaledLayout _ _ _ _) = ''BlockScaledLayout''"
| "layout_name (BlockScaledI4Layout _ _ _ _ _) = ''BlockScaledI4Layout''"
| "layout_name (SuperBlockLayout _ _ _ _ _ _ _ _) = ''SuperBlockOffsetScaled_4_6_Layout''"

fun layout_shape :: "'t layout \<Rightarrow> int list" where
  "layout_shape (TensorScaledLayout shape _ _ _ _) = shape"
| "layout_shape (BlockScaledLayout shape _ _ _) = shape"
| "layout_shape (BlockScaledI4Layout shape _ _ _ _) = shape"
| "layout_shape (SuperBlockLayout shape _ _ _ _ _ _ _) = shape"

fun layout_metadata :: "(string \<Rightarrow> bool) \<Rightarrow> 't layout \<Rightarrow> (string \<times> jvalue) list option res" where
  "layout_metadata has_dtype (TensorScaledLayout shape d qs m dtype) =
     res_bind (dtype_to_serialized_name has_dtype dtype) (\<lambda>n. Inr (Some [(''dtype'', JStr n)]))"
| "layout_metadata has_dtype (BlockScaledI4Layout shape d qs m signed) = Inr (Some [(''signed'', JBool signed)])"
| "layout_metadata has_dtype _ = Inr None"

definition plane :: "(string \<times> 't) list \<Rightarrow> string \<Rightarrow> 't res" where
  "plane planes name = (case map_of planes name of None \<Rightarrow> Inl KeyError | Some t \<Rightarrow> Inr t)"

definition create_tensor_scaled ::
  "(string \<Rightarrow> bool) \<Rightarrow> 't dtorch \<Rightarrow> int list \<Rightarrow> (string \<times> jvalue) list option \<Rightarrow> (string \<times> 't) list \<Rightarrow> 't layout res" where
  "create_tensor_scaled has_dtype T shape metadata planes =
     (case metadata of
        None \<Rightarrow> Inl AttributeError
      | Some md \<Rightarrow>
          res_bind
           (case map_of md ''dtype'' of
              None \<Rightarrow> Inr None
            | Some JNull \<Rightarrow> Inr None
            | Some (JStr s) \<Rightarrow> res_bind (serialized_name_to_dtype has_dtype s) (\<lambda>t. Inr (Some t))
            | Some (JList _) \<Rightarrow> Inl TypeError
            | Some (JObj _) \<Rightarrow> Inl TypeError
            | Some _ \<Rightarrow> Inl KeyError)
           (\<lambda>dtype. res_bind (plane planes ''d'') (\<lambda>d. res_bind (plane planes ''qs'') (\<lambda>qs.
             Inr (new_tensor_scaled T shape d qs (map_of planes ''m'') dtype)))))"

definition create_block_scaled :: "int list \<Rightarrow> (string \<times> 't) list \<Rightarrow> 't layout res" where
  "create_block_scaled shape planes =
     res_bind (plane planes ''d'') (\<lambda>d. res_bind (plane planes ''qs'') (\<lambda>qs.
       Inr (BlockScaledLayout shape d qs (map_of planes ''m''))))"

text \<open>\<open>signed\<close> is used as a truth value.\<close>

fun json_true :: "jvalue \<Rightarrow> bool" where
  "json_true JNull = False"
| "json_true (JInt i) = (i \<noteq> 0)"
| "json_true (JBool b) = b"
| "json_true (JStr s) = (s \<noteq> [])"
| "json_true (JList xs) = (xs \<noteq> [])"
| "json_true (JObj d) = (d \<noteq> [])"

definition create_block_scaled_i4 ::
  "int list \<Rightarrow> (string \<times> jvalue) list option \<Rightarrow> (string \<times> 't) list \<Rightarrow> 't layout res" where
  "create_block_scaled_i4 shape metadata planes =
     res_bind (plane planes ''d'') (\<lambda>d. res_bind (plane planes ''qs'') (\<lambda>qs.
       case metadata of
         None \<Rightarrow> Inl TypeError
       | Some md \<Rightarrow>
           (case map_of md ''signed'' of
              None \<Rightarrow> Inl KeyError
            | Some v \<Rightarrow> Inr (BlockScaledI4Layout shape d qs (map_of planes ''m'') (json_true v)))))"

definition create_super_block :: "int list \<Rightarrow> (string \<times> 't) list \<Rightarrow> 't layout res" where
  "create_super_block shape planes =
     res_bind (plane planes ''d'') (\<lambda>d. res_bind (plane planes ''dmin'') (\<lambda>dmin.
     res_bind (plane planes ''sb_scales_high'') (\<lambda>sh. res_bind (plane planes ''sb_scales_low'') (\<lambda>sl.
     res_bind (plane planes ''sb_mins_high'') (\<lambda>mh. res_bind (plane planes ''sb_mins_low'') (\<lambda>ml.
     res_bind (plane planes ''qs'') (\<lambda>qs. Inr (SuperBlockLayout shape d dmin sh sl mh ml qs))))))))"

text \<open>The registered layout classes by their names.\<close>

definition create_layout ::
  "(string \<Rightarrow> bool) \<Rightarrow> 't dtorch \<Rightarrow> string \<Rightarrow> int list \<Rightarrow> (string \<times> jvalue) list option \<Rightarrow> (string \<times> 't) list \<Rightarrow>
   't layout res" where
  "create_layout has_dtype T name shape metadata planes =
     (if name = ''TensorScaledLayout'' then create_tensor_scaled has_dtype T shape metadata planes
      else if name = ''BlockScaledLayout'' then create_block_scaled shape planes
      else if name = ''BlockScaledI4Layout'' then create_block_scaled_i4 shape metadata planes
      else if name = ''SuperBlockOffsetScaled_4_6_Layout'' then create_super_block shape planes
      else Inl OSError)"

text \<open>\<open>view\<close>, \<open>flatten\<close> and \<open>transpose\<close> of a tensor-scaled layout act on its samples.\<close>

definition rearranged_layout :: "'t dtorch \<Rightarrow> ('t \<Rightarrow> 't res) \<Rightarrow> 't layout \<Rightarrow> 't layout res" where
  "rearranged_layout T f l =
     (case l of
        TensorScaledLayout shape d qs m dtype \<Rightarrow>
          res_bind (f qs) (\<lambda>qs1. Inr (new_tensor_scaled T (th_shape T qs1) d qs1 m (Some dtype)))
      | _ \<Rightarrow> Inl AttributeError)"

end
