(* ===== verification/Tn_Dataset.thy ===== *)
theory Tn_Dataset
  imports Tn_Archive
begin

section \<open>Tensors in archives and datasets\<close>

text \<open>
  \<open>globals\<close>, \<open>add_to_archive\<close> and \<open>create\<close> of the tensors of \<open>sharktank/types/tensors.py\<close>, and saving and
  loading a dataset (\<open>types/theta.py\<close>). A builder is the list of what was added to it, for the root and
  for every rank that was asked for. The base class of the sharded tensors is never saved and left out.
\<close>

record 't planar_tensor =
  pq_name :: string
  pq_shape :: "int list"
  pq_layout :: "'t layout"

datatype 't inference = IPrim "'t prim_tensor" | IPlanar "'t planar_tensor" | ISharded "'t sharded"

definition inference_name :: "'t inference \<Rightarrow> string" where
  "inference_name x = (case x of IPrim p \<Rightarrow> pt_name p | IPlanar q \<Rightarrow> pq_name q | ISharded s \<Rightarrow> sh_name s)"

definition inference_globals :: "'t inference \<Rightarrow> (string \<times> 't) list" where
  "inference_globals x =
     (case x of
        IPrim p \<Rightarrow> [(pt_name p, pt_data p)]
      | IPlanar q \<Rightarrow> update_all [] (map (\<lambda>(k, v). (pq_name q @ '':'' @ k, v)) (layout_planes (pq_layout q)))
      | ISharded s \<Rightarrow> update_all [] (map (\<lambda>p. (pt_name p, pt_data p)) (sh_shards s)))"

text \<open>\<open>_clone_with_globals\<close>: that of the sharded tensors looks up a list by a string.\<close>

definition clone_with_globals ::
  "(string \<Rightarrow> bool) \<Rightarrow> 't dtorch \<Rightarrow> (string \<times> 't) list \<Rightarrow> 't inference \<Rightarrow> 't inference res" where
  "clone_with_globals has_dtype T new_globals x =
     (case x of
        IPrim p \<Rightarrow> res_bind (plane new_globals (pt_name p)) (\<lambda>d. Inr (IPrim (new_prim T d (pt_name p))))
      | IPlanar q \<Rightarrow>
          res_bind (res_map (\<lambda>(k, _). res_bind (plane new_globals (pq_name q @ '':'' @ k)) (\<lambda>t. Inr (k, t)))
                     (layout_planes (pq_layout q))) (\<lambda>new_planes.
          res_bind (layout_metadata has_dtype (pq_layout q)) (\<lambda>md.
          res_bind (create_layout has_dtype T (layout_name (pq_layout q)) (pq_shape q) md new_planes) (\<lambda>l.
            Inr (IPlanar (q\<lparr>pq_layout := l\<rparr>)))))
      | ISharded s \<Rightarrow> Inl (if is_replicated s then TypeError else AttributeError))"

definition transform_globals ::
  "(string \<Rightarrow> bool) \<Rightarrow> 't dtorch \<Rightarrow> ((string \<times> 't) list \<Rightarrow> (string \<times> 't) list) list \<Rightarrow> 't inference \<Rightarrow>
   't inference res" where
  "transform_globals has_dtype T transforms x =
     clone_with_globals has_dtype T (fold (\<lambda>f g. f g) transforms (inference_globals x)) x"

subsection \<open>Saving a tensor\<close>

datatype 't entry = TensorEntry 't | BlobEntry jvalue

record 't archive_builder =
  ab_root :: "(string \<times> 't entry) list"
  ab_ranks :: "(nat \<times> (string \<times> 't entry) list) list"

definition new_builder :: "'t archive_builder" where
  "new_builder = \<lparr>ab_root = [], ab_ranks = []\<rparr>"

definition add_tensor :: "string \<Rightarrow> 't \<Rightarrow> 't archive_builder \<Rightarrow> 't archive_builder" where
  "add_tensor name t b = b\<lparr>ab_root := ab_root b @ [(name, TensorEntry t)]\<rparr>"

definition add_blob :: "string \<Rightarrow> jvalue \<Rightarrow> 't archive_builder \<Rightarrow> 't archive_builder" where
  "add_blob name v b = b\<lparr>ab_root := ab_root b @ [(name, BlobEntry v)]\<rparr>"

text \<open>\<open>for_rank(i).add_tensor\<close>.\<close>

definition rank_entries :: "'t archive_builder \<Rightarrow> nat \<Rightarrow> (string \<times> 't entry) list" where
  "rank_entries b i = (case map_of (ab_ranks b) i of None \<Rightarrow> [] | Some es \<Rightarrow> es)"

definition add_rank_tensor :: "nat \<Rightarrow> string \<Rightarrow> 't \<Rightarrow> 't archive_builder \<Rightarrow> 't archive_builder" where
  "add_rank_tensor i name t b =
     b\<lparr>ab_ranks := AList.update i (rank_entries b i @ [(name, TensorEntry t)]) (ab_ranks b)\<rparr>"

definition class_name :: "sharding_class \<Rightarrow> string" where
  "class_name c =
     (case c of SplitPrimitiveTensor \<Rightarrow> ''SplitPrimitiveTensor'' | ReplicatedTensor \<Rightarrow> ''ReplicatedTensor''
      | UnreducedTensor \<Rightarrow> ''UnreducedTensor'')"

definition prim_add_to_archive :: "'t prim_tensor \<Rightarrow> 't archive_builder \<Rightarrow> tensor_metadata \<times> 't archive_builder" where
  "prim_add_to_archive p b =
     (\<lparr>tm_type_name = ''PrimitiveTensor'', tm_raw_tensors = [('''', pt_name p)], tm_extra_properties = None\<rparr>,
      add_tensor (pt_name p) (pt_data p) b)"

definition planar_add_to_archive ::
  "(string \<Rightarrow> bool) \<Rightarrow> 't planar_tensor \<Rightarrow> 't archive_builder \<Rightarrow> (tensor_metadata \<times> 't archive_builder) res" where
  "planar_add_to_archive has_dtype q b =
     (let planes = layout_planes (pq_layout q);
          b1 = fold (\<lambda>(suffix, p). add_tensor (pq_name q @ '':'' @ suffix) p) planes b;
          name_map = map (\<lambda>(suffix, p). (suffix, pq_name q @ '':'' @ suffix)) planes in
      res_bind (layout_metadata has_dtype (pq_layout q)) (\<lambda>md.
        Inr (\<lparr>tm_type_name = ''PlanarQuantizedTensor'', tm_raw_tensors = name_map,
              tm_extra_properties = Some
               ([(''shape'', JList (map JInt (pq_shape q))), (''layout_type'', JStr (layout_name (pq_layout q)))] @
                (case md of None \<Rightarrow> [] | Some d \<Rightarrow> [(''layout_metadata'', JObj d)]))\<rparr>, b1)))"

definition sharded_add_to_archive :: "'t sharded \<Rightarrow> 't archive_builder \<Rightarrow> tensor_metadata \<times> 't archive_builder" where
  "sharded_add_to_archive s b =
     (let b1 = fold (\<lambda>(i, p). add_rank_tensor i (pt_name p) (pt_data p)) (enumerate 0 (sh_shards s)) b;
          extra = [(''shard_count'', JInt (shard_count s)), (''shape'', JList (map JInt (sh_shape s)))] @
                  (case sh_dim s of None \<Rightarrow> [] | Some d \<Rightarrow> [(''shard_dim'', JInt d)])
      in (\<lparr>tm_type_name = class_name (sh_class s),
           tm_raw_tensors = map (\<lambda>(i, p). (nat_str i, pt_name p)) (enumerate 0 (sh_shards s)),
           tm_extra_properties = Some extra\<rparr>, b1))"

text \<open>A replicated tensor is saved once, for the first rank, under its own name.\<close>

definition replicated_add_to_archive ::
  "'t sharded \<Rightarrow> 't archive_builder \<Rightarrow> (tensor_metadata \<times> 't archive_builder) res" where
  "replicated_add_to_archive s b =
     res_bind (list_get (sh_shards s) 0) (\<lambda>p.
       Inr (\<lparr>tm_type_name = ''ReplicatedTensor'', tm_raw_tensors = [('''', sh_name s)],
             tm_extra_properties = Some [(''shard_count'', JInt (shard_count s))]\<rparr>,
            add_rank_tensor 0 (sh_name s) (pt_data p) b))"

definition add_to_archive ::
  "(string \<Rightarrow> bool) \<Rightarrow> 't inference \<Rightarrow> 't archive_builder \<Rightarrow> (tensor_metadata \<times> 't archive_builder) res" where
  "add_to_archive has_dtype x b =
     (case x of
        IPrim p \<Rightarrow> Inr (prim_add_to_archive p b)
      | IPlanar q \<Rightarrow> planar_add_to_archive has_dtype q b
      | ISharded s \<Rightarrow> if is_replicated s then replicated_add_to_archive s b else Inr (sharded_add_to_archive s b))"

subsection \<open>Loading a tensor\<close>

definition json_int :: "jvalue \<Rightarrow> int res" where
  "json_int v =
     (case v of JInt i \<Rightarrow> Inr i | JBool b \<Rightarrow> Inr (if b then 1 else 0) | JStr s \<Rightarrow> parse_int s | _ \<Rightarrow> Inl TypeError)"

text \<open>A shape is a list of ints; \<open>list\<close> of something that is not a list is taken as a TypeError.\<close>

definition json_ints :: "jvalue \<Rightarrow> int list res" where
  "json_ints v = (case v of JList xs \<Rightarrow> res_map json_int xs | _ \<Rightarrow> Inl TypeError)"

type_synonym props = "(string \<times> jvalue) list"

definition extra_prop :: "props \<Rightarrow> string \<Rightarrow> jvalue res" where
  "extra_prop extra name = (case map_of extra name of None \<Rightarrow> Inl KeyError | Some v \<Rightarrow> Inr v)"

definition create_prim :: "'t dtorch \<Rightarrow> string \<Rightarrow> (string \<times> 't) list \<Rightarrow> 't inference res" where
  "create_prim T name raw_tensors =
     (case map_of raw_tensors '''' of None \<Rightarrow> Inl OSError | Some d \<Rightarrow> Inr (IPrim (new_prim T d name)))"

definition create_planar ::
  "(string \<Rightarrow> bool) \<Rightarrow> 't dtorch \<Rightarrow> string \<Rightarrow> (string \<times> 't) list \<Rightarrow> props \<Rightarrow> 't inference res" where
  "create_planar has_dtype T name raw_tensors extra =
     (case (map_of extra ''shape'', map_of extra ''layout_type'') of
        (Some sh, Some lt) \<Rightarrow>
          res_bind (json_ints sh) (\<lambda>shape.
          case lt of
            JStr layout_type \<Rightarrow>
              res_bind
               (case map_of extra ''layout_metadata'' of
                  None \<Rightarrow> Inr None | Some JNull \<Rightarrow> Inr None | Some (JObj d) \<Rightarrow> Inr (Some d) | _ \<Rightarrow> Inl TypeError)
               (\<lambda>md. res_bind (create_layout has_dtype T layout_type shape md raw_tensors) (\<lambda>l.
                  Inr (IPlanar \<lparr>pq_name = name, pq_shape = shape, pq_layout = l\<rparr>)))
          | _ \<Rightarrow> Inl OSError)
      | _ \<Rightarrow> Inl OSError)"

definition raw_shards :: "(string \<times> 't) list \<Rightarrow> int \<Rightarrow> 't list res" where
  "raw_shards raw_tensors n =
     res_map (\<lambda>i. case map_of raw_tensors (nat_str i) of None \<Rightarrow> Inl OSError | Some t \<Rightarrow> Inr t) [0..<nat n]"

text \<open>A split tensor without, or an unreduced tensor with a \<open>shard_dim\<close> does not fit its constructor.\<close>

definition create_sharded ::
  "'t dtorch \<Rightarrow> sharding_class \<Rightarrow> string \<Rightarrow> (string \<times> 't) list \<Rightarrow> props \<Rightarrow> 't inference res" where
  "create_sharded T cls name raw_tensors extra =
     res_bind (res_bind (extra_prop extra ''shard_count'') json_int) (\<lambda>n.
     res_bind (res_bind (extra_prop extra ''shape'') json_ints) (\<lambda>shape.
     res_bind (case map_of extra ''shard_dim'' of None \<Rightarrow> Inr None | Some v \<Rightarrow> res_bind (json_int v) (\<lambda>d. Inr (Some d))) (\<lambda>dim.
     res_bind (raw_shards raw_tensors n) (\<lambda>ts.
     res_bind
      (case (cls, dim) of
         (SplitPrimitiveTensor, Some d) \<Rightarrow> new_split T d (map RawShard ts) name (Some shape)
       | (UnreducedTensor, None) \<Rightarrow> new_unreduced T (map RawShard ts) name (Some shape)
       | _ \<Rightarrow> Inl TypeError)
      (\<lambda>s. Inr (ISharded s))))))"

text \<open>The copies of a replicated tensor are equal to it.\<close>

definition create_replicated :: "'t dtorch \<Rightarrow> string \<Rightarrow> (string \<times> 't) list \<Rightarrow> props \<Rightarrow> 't inference res" where
  "create_replicated T name raw_tensors extra =
     res_bind (res_bind (extra_prop extra ''shard_count'') json_int) (\<lambda>n.
     case map_of raw_tensors '''' of
       None \<Rightarrow> Inl OSError
     | Some t \<Rightarrow>
        res_bind (new_replicated T (map RawShard (t # List.replicate (nat (n - 1)) t)) name) (\<lambda>s. Inr (ISharded s)))"

definition create_tensor ::
  "(string \<Rightarrow> bool) \<Rightarrow> 't dtorch \<Rightarrow> string \<Rightarrow> string \<Rightarrow> (string \<times> 't) list \<Rightarrow> props \<Rightarrow> 't inference res" where
  "create_tensor has_dtype T type_name name raw_tensors extra =
     (if type_name = ''PrimitiveTensor'' then create_prim T name raw_tensors
      else if type_name = ''PlanarQuantizedTensor'' then create_planar has_dtype T name raw_tensors extra
      else if type_name = ''ReplicatedTensor'' then create_replicated T name raw_tensors extra
      else if type_name = ''SplitPrimitiveTensor'' then create_sharded T SplitPrimitiveTensor name raw_tensors extra
      else if type_name = ''UnreducedTensor'' then create_sharded T UnreducedTensor name raw_tensors extra
      else Inl OSError)"

subsection \<open>Datasets\<close>

type_synonym metas = "(string \<times> tensor_metadata) list"

fun add_tensors_to_archive ::
  "(string \<Rightarrow> bool) \<Rightarrow> 't inference list \<Rightarrow> metas \<Rightarrow> 't archive_builder \<Rightarrow> (metas \<times> 't archive_builder) res" where
  "add_tensors_to_archive has_dtype [] ms b = Inr (ms, b)"
| "add_tensors_to_archive has_dtype (x # xs) ms b =
     res_bind (add_to_archive has_dtype x b) (\<lambda>(meta, b1).
       add_tensors_to_archive has_dtype xs (AList.update (inference_name x) meta ms) b1)"

definition save_metadata :: "props \<Rightarrow> metas \<Rightarrow> nat list \<Rightarrow> 't archive_builder \<Rightarrow> 't archive_builder" where
  "save_metadata properties inference_tensors shard_ranks b =
     (let b1 = add_blob ''__SHARK_DATASET__'' (JObj (AList.update ''SHARK_DATASET_VERSION'' (JInt 1) properties)) b;
          b2 = (if shard_ranks \<noteq> []
                then add_blob ''__SHARK_SHARD_RANKS__'' (JList (map (\<lambda>i. JInt (int i)) shard_ranks)) b1 else b1)
      in add_blob ''__SHARK_INFERENCE_TENSORS__''
           (JObj (map (\<lambda>(k, m). (k, JObj (metadata_to_json m))) inference_tensors)) b2)"

text \<open>The values of a flattened theta are its tensors.\<close>

definition theta_values :: "'t inference pdict \<Rightarrow> 't inference list" where
  "theta_values tree =
     List.map_filter (\<lambda>(_, v). case v of PTensor it \<Rightarrow> Some (it_data it) | _ \<Rightarrow> None) (theta_flatten tree)"

definition dataset_save ::
  "(string \<Rightarrow> bool) \<Rightarrow> props \<Rightarrow> 't inference pdict \<Rightarrow> 't archive_builder res" where
  "dataset_save has_dtype properties root_theta =
     res_bind (add_tensors_to_archive has_dtype (theta_values root_theta) [] new_builder) (\<lambda>(ms, b).
       Inr (save_metadata properties ms (map fst (ab_ranks b)) b))"

text \<open>\<open>{k: v for k, v in archive.items()}\<close>: the last entry of a name wins.\<close>

definition entries_of :: "(string \<times> 't entry) list \<Rightarrow> (string \<times> 't entry) list" where
  "entries_of items = update_all [] items"

definition blob :: "(string \<times> 't entry) list \<Rightarrow> string \<Rightarrow> jvalue res" where
  "blob entries name =
     (case map_of entries name of Some (BlobEntry v) \<Rightarrow> Inr v | Some (TensorEntry _) \<Rightarrow> Inl ValueError | None \<Rightarrow> Inl OSError)"

definition load_properties :: "(string \<times> 't entry) list \<Rightarrow> props res" where
  "load_properties entries =
     res_bind (blob entries ''__SHARK_DATASET__'') (\<lambda>v.
       case v of JObj d \<Rightarrow> Inr (update_all [] d) | _ \<Rightarrow> Inl AssertionError)"

definition load_shard_ranks :: "(string \<times> 't entry) list \<Rightarrow> int list res" where
  "load_shard_ranks entries =
     (if map_of entries ''__SHARK_SHARD_RANKS__'' = None then Inr []
      else
        res_bind (blob entries ''__SHARK_SHARD_RANKS__'') (\<lambda>v.
          case v of
            JList xs \<Rightarrow> res_map (\<lambda>x. case x of JInt i \<Rightarrow> Inr i | JBool b \<Rightarrow> Inr (if b then 1 else 0) | _ \<Rightarrow> Inl AssertionError) xs
          | _ \<Rightarrow> Inl AssertionError))"

definition entry_tensor :: "(string \<times> 't entry) list \<Rightarrow> string \<Rightarrow> 't res" where
  "entry_tensor entries name =
     (case map_of entries name of Some (TensorEntry t) \<Rightarrow> Inr t | Some (BlobEntry _) \<Rightarrow> Inl ValueError | None \<Rightarrow> Inl OSError)"

definition load_tensor ::
  "(string \<Rightarrow> bool) \<Rightarrow> 't dtorch \<Rightarrow> (string \<times> 't entry) list \<Rightarrow> string \<Rightarrow> jvalue \<Rightarrow> 't inference res" where
  "load_tensor has_dtype T entries name meta_obj =
     (case meta_obj of
        JObj obj \<Rightarrow>
          res_bind (metadata_from_json obj) (\<lambda>m.
          res_bind (res_map (\<lambda>(local_name, global_name).
                      res_bind (entry_tensor entries global_name) (\<lambda>t. Inr (local_name, t))) (tm_raw_tensors m)) (\<lambda>raw.
            create_tensor has_dtype T (tm_type_name m) name raw
              (case tm_extra_properties m of None \<Rightarrow> [] | Some e \<Rightarrow> e)))
      | _ \<Rightarrow> Inl TypeError)"

definition load_tensors ::
  "(string \<Rightarrow> bool) \<Rightarrow> 't dtorch \<Rightarrow> (string \<times> 't entry) list \<Rightarrow> (string \<times> 't inference) list res" where
  "load_tensors has_dtype T entries =
     res_bind (blob entries ''__SHARK_INFERENCE_TENSORS__'') (\<lambda>v.
       case v of
         JObj obj \<Rightarrow>
           res_bind (res_map (\<lambda>(name, m). res_bind (load_tensor has_dtype T entries name m) (\<lambda>x. Inr (name, x))) obj)
             (\<lambda>items. Inr (update_all [] items))
       | _ \<Rightarrow> Inl AssertionError)"

definition tensor_item :: "'t inference \<Rightarrow> 't inference ptree" where
  "tensor_item x = PTensor \<lparr>it_name = inference_name x, it_data = x\<rparr>"

text \<open>\<open>root_items\<close> are the items of the root archive, \<open>rank_items\<close> those of the archive of a rank.\<close>

definition dataset_load ::
  "(string \<Rightarrow> bool) \<Rightarrow> 't dtorch \<Rightarrow> (string \<times> 't entry) list \<Rightarrow> (int \<Rightarrow> (string \<times> 't entry) list) \<Rightarrow>
   (props \<times> 't inference pdict) res" where
  "dataset_load has_dtype T root_items rank_items =
     (let entries = entries_of root_items in
      res_bind (load_properties entries) (\<lambda>properties.
      res_bind (load_shard_ranks entries) (\<lambda>shard_ranks.
      res_bind (load_tensors has_dtype T (entries_of (root_items @ concat (map rank_items shard_ranks)))) (\<lambda>tensors.
      res_bind (theta_of_dict (map (\<lambda>(name, x). (name, tensor_item x)) tensors)) (\<lambda>root_theta.
        Inr (properties, root_theta))))))"

text \<open>The kinds of files a dataset is loaded from, by type or by the last suffix of the path.\<close>

datatype dataset_file = GgufFile | IrpaFile

definition dataset_file_kind :: "string option \<Rightarrow> string list \<Rightarrow> dataset_file res" where
  "dataset_file_kind file_type exts =
     (if file_type = Some ''gguf'' then Inr GgufFile
      else res_bind (py_last exts) (\<lambda>s.
        if s = ''.gguf'' then Inr GgufFile
        else if file_type = Some ''irpa'' \<or> s = ''.irpa'' then Inr IrpaFile
        else Inl OSError))"

end
