(* ===== verification/Spec2Isabelle.thy ===== *)
theory Spec2Isabelle
  imports Trie_Properties Llm_Exec_Properties Llm_Io Tuner_Properties Tuner_Parse_Properties Tuner_Error_Properties
    Sd_Stage_Properties Sd_Generate_Properties
    Theta_Properties Op_Dispatch_Properties
    Tn_Shard_Properties Tn_Kv_Properties Tn_Generator_Properties Tn_Dataset
begin

text \<open>
  A verification library for the Python code of SHARK-Platform: the two serving applications of
  shortfin, the dispatch tuner, and of sharktank the tensors with their operations, the sharding of both,
  datasets, the feed-forward layers and the key-value caches. Paths below
  are relative to \<open>src/\<close>; \<open>llm/\<close> and \<open>sd/\<close> stand for \<open>shortfin/python/shortfin_apps/llm/\<close> and
  \<open>shortfin/python/shortfin_apps/sd/\<close>.

  \<^bold>\<open>How the program is put together.\<close> A client request to the text server becomes one generation process
  per prompt (\<open>llm/components/generate.py\<close>). A generation submits prefill and decode requests
  (\<open>messages.py\<close>) to the batcher, which collects them between strobes, boards them with pages of the
  attention cache (\<open>kvcache/\<close>) and launches executors (\<open>service.py\<close>); an executor lays out the page
  tables, calls the compiled function and completes the requests; the answer goes back through the
  responder (\<open>shortfin/python/shortfin/interop/fastapi/\<close>). The image server has the same shape: one
  request per image, a batcher that sorts by metadata, executors that run the stages of the pipeline
  on a fiber. The tuner reads a dispatch in MLIR, generates constrained configurations, compiles and
  benchmarks them (\<open>tuner/tuner/\<close>). The models the servers run are written with sharktank: parameter trees
  name tensors (\<open>sharktank/sharktank/types/\<close>), which may be split, replicated or unreduced over devices, and every
  operation selects its implementation by the classes of its operands (\<open>sharktank/sharktank/ops/\<close>).

  \<^bold>\<open>Shared theories.\<close> \<open>Py_Prelude\<close>: exceptions as values of a sum type (\<open>res\<close>, \<open>res_bind\<close>,
  \<open>res_map\<close>), list lookup, slices, ranges, ceiling division, blocks of a list; the collections
  \<open>py_simps\<close> and \<open>inv_intros\<close>. \<open>Py_Text\<close>: \<open>str\<close> methods, paths and the regular expressions the tuner
  uses, with an executable matcher.

  \<^bold>\<open>The attention caches\<close> (\<open>llm/components/kvcache/\<close>).
  \<^item> \<open>Page_Pool\<close> is \<open>page_pool.py\<close>: the stack of available pages and the per-device tables.
  \<^item> \<open>Base_Cache\<close> is \<open>base_attention_cache.py\<close>; \<open>Cache_Interface\<close> holds the locales of what an allocation
    promises its clients, interpreted on both caches, and the page partition of the base cache.
  \<^item> \<open>Trie_Store\<close> (which also has the heap of \<open>heapq\<close>, by what a pop returns, its least element)
    and \<open>Trie_Cache\<close> are \<open>trie_attention_cache.py\<close>: nodes in a store, so that the trie, the
    leaf set and the allocations share them, and lists as objects, so that aliasing with the caller shows.
    \<open>Trie_Wf\<close> is the well-formedness of the trie, \<open>Trie_Evict\<close> and \<open>Trie_Publish\<close> what eviction and
    publication do to it, \<open>Trie_Safety\<close> and \<open>Trie_System\<close> the states reached by clean calls (\<open>clean_reachable\<close>:
    extensions of unreleased allocations, publications that satisfy \<open>publish_clean\<close>; the code checks neither, so
    these are conditions on its clients) and their invariant,
    \<open>Trie_Any\<close> what holds after any calls at all (also those that break the trie), \<open>Trie_Run\<close> runs as
    lists of calls, \<open>Trie_Facts\<close> the lemmas the properties of \<open>Trie_Properties\<close> rest on: exclusive pages,
    safe least-recently-used eviction, longest prefix match, capacity, and what becomes of the trie when
    publications are not clean.

  \<^bold>\<open>The text server\<close> (\<open>llm/components/\<close>).
  \<^item> \<open>Llm_Messages\<close> is \<open>messages.py\<close>, \<open>Llm_Batcher\<close> and \<open>Llm_Executor\<close> are \<open>service.py\<close>. The cache of a
    request is a table of methods; \<open>Llm_Flights\<close> proves the runs of the batcher for every table that
    satisfies the locale \<open>request_cache\<close>, and both caches interpret it.
  \<^item> \<open>Llm_Generate\<close> is \<open>generate.py\<close>, \<open>Llm_Io\<close> is \<open>io_struct.py\<close> and \<open>config_struct.py\<close>,
    \<open>Fastapi_Responder\<close> is the responder of \<open>interop/fastapi/__init__.py\<close> with its protocol.
  \<^item> \<open>Llm_Properties\<close>, \<open>Llm_Exec_Properties\<close> and \<open>Llm_Generate_Properties\<close>: boarding, page tables, error
    paths, entry points, the token sequence of a generation and the release of its allocation, one response per
    client. A future that never fires suspends a generation for good.

  \<^bold>\<open>The image server\<close> (\<open>sd/components/\<close>, \<open>sd/server.py\<close>).
  \<^item> \<open>Sd_Requests\<close> is \<open>io_struct.py\<close> and \<open>messages.py\<close>, \<open>Sd_Service\<close> is \<open>config_struct.py\<close> and
    \<open>GenerateService\<close> of \<open>service.py\<close>, \<open>Sd_Executor\<close> all stages of \<open>InferenceExecutorProcess\<close>,
    \<open>Sd_Batcher\<close> is \<open>BatcherProcess\<close> with the events of a running service, \<open>Sd_Generate_Properties\<close> has
    \<open>generate.py\<close> and the route of the server.
  \<^item> \<open>Sd_Batch_Properties\<close> (batches against their reference), \<open>Sd_Flight_Properties\<close> (what a stage may
    change, the invariant of flights and fibers), \<open>Sd_Start_Properties\<close> (fibers and the programs they
    use), \<open>Sd_Run_Properties\<close> (any interleaving), \<open>Sd_Stage_Properties\<close>, \<open>Sd_Generate_Properties\<close>.

  \<^bold>\<open>The tuner\<close> (\<open>tuner/tuner/\<close>).
  \<^item> \<open>Tuner_Common\<close> is \<open>common.py\<close>, \<open>Tuner_Constraints\<close> and \<open>Tuner_Solutions\<close> are \<open>dispatch_constraints.py\<close>,
    \<open>Tuner_Matchers\<close> is \<open>op_matchers.py\<close>, \<open>Tuner_Parser\<close> is \<open>dispatch_parser.py\<close>, \<open>Tuner_Gen\<close> is
    \<open>candidate_gen.py\<close> and \<open>spec_builder.py\<close>, \<open>Tuner_Tasks\<close> and \<open>Tuner_Stages\<close> are \<open>libtuner.py\<close>.
  \<^item> \<open>Tuner_Properties\<close> (soundness, completeness and termination of the search), \<open>Tuner_Parse_Properties\<close>
    (parsers and printers), \<open>Tuner_Stage_Properties\<close>, \<open>Tuner_Compile_Properties\<close> and
    \<open>Tuner_Error_Properties\<close> (trackers, duplicates, dry runs).

  \<^bold>\<open>Sharktank: names and dispatch\<close> (\<open>sharktank/sharktank/\<close>). \<open>Op_Dispatch\<close> is \<open>ops/_registry.py\<close> with the
  trampolines of \<open>ops/signatures.py\<close>, refined from a specification by salience and registration order in
  \<open>Op_Dispatch_Properties\<close>. \<open>Theta_Tree\<close> is the tree part of \<open>types/theta.py\<close>, with the round trip of
  nesting and flattening in \<open>Theta_Properties\<close>.

  \<^bold>\<open>Sharktank: tensors and operations.\<close>
  \<^item> \<open>Tn_Tensors\<close> is \<open>types/tensors.py\<close>: the classes of tensors with their constructors and checks, indexing,
    renaming of globals. A tensor of torch is a value of a parameter type, and the calls of torch are the fields of
    one record (\<open>th_\<dots>\<close>); each may raise.
  \<^item> \<open>Tn_Default_Ops\<close> is \<open>ops/default_impls.py\<close>; \<open>Tn_Sharded_Ops\<close> (resharding, unsharding, shapes),
    \<open>Tn_Sharded_Views\<close>, \<open>Tn_Sharded_Compute\<close> and \<open>Tn_Sharded_Layers\<close> are \<open>ops/sharded_impls.py\<close> with \<open>ops/shape.py\<close>,
    and for every operation the choice of the override by the classes of its operands. \<open>Tn_Sharded_Layers\<close> also
    has \<open>layers/linear.py\<close> and \<open>layers/ffn_block.py\<close>.
  \<^item> \<open>Tn_Sharding\<close> is \<open>types/sharding.py\<close> with the shardings of the Llama and punet models; \<open>Tn_Archive\<close> and
    \<open>Tn_Dataset\<close> are the layouts (\<open>types/layouts.py\<close>) and the datasets of \<open>types/theta.py\<close>.
  \<^item> \<open>Tn_Kv_Cache\<close> is \<open>layers/kv_cache.py\<close>, \<open>Tn_Nibbles\<close> is \<open>types/layout_utils.py\<close> on words of 8 bits.
  \<^item> \<open>Tn_Generator\<close> is \<open>utils/load_llm.py\<close> with the padding of \<open>utils/tokenizer.py\<close>, the masks of
    \<open>layers/causal_llm.py\<close> and the loops of \<open>examples/paged_llm_v1.py\<close> and \<open>evaluate/perplexity_torch.py\<close>; the
    network is a parameter. \<open>Tn_Generator_Facts\<close> has the pages and tables of a batch, \<open>Tn_Generator_Properties\<close> what
    the network is called with and that the loops end within their pages.
  \<^item> \<open>Tn_Layout\<close> and \<open>Tn_Products\<close>: the cells of a row-major array and what cutting, joining and multiplying do to
    them. \<open>Tn_Represents\<close> relates a sharded tensor to the plain tensor it stands for (\<open>represents\<close>), which
    unsharding computes; \<open>Tn_Reshard_Facts\<close>, \<open>Tn_Matmul_Facts\<close>, \<open>Tn_Product_Facts\<close>, \<open>Tn_Elementwise_Facts\<close>
    and \<open>Tn_Ffn_Facts\<close> show that resharding, products, elementwise operators and layers preserve it, and
    \<open>Tn_Kv_Facts\<close> what a write to the paged cache does to a later read.
  \<^item> The laws of torch these rest on are the predicates \<open>\<dots>_ok\<close>: shapes and cells of a result. Elements are of a
    semiring, so there is no rounding; the laws of binary operators speak of equal shapes, without broadcasting.
    \<open>Tn_Arrays\<close> has concrete arrays of ints that satisfy all laws; the witnesses of \<open>Tn_Shard_Properties\<close> and
    \<open>Tn_Kv_Properties\<close> compute with them. Operations in place on a view of the cache state give the state with
    the cells of the view.

  \<^bold>\<open>Conventions.\<close> A routine that changes its receiver returns its outcome and the new state, so that the
  changes made before an exception are kept. \<open>math.ceil\<close> of a quotient of ints is the exact ceiling,
  which the float agrees with below \<open>2 ^ 53\<close>. A set is iterated in an order that is a parameter
  (\<open>sched\<close>, \<open>pick\<close>). Code that is not under \<open>src/\<close> is a parameter: clocks, addresses and identifiers,
  the compiled functions and device arrays of the runtime, tokenizers, argmax, the constraint solver,
  MLIR and the compiler, subprocesses, the file system, floats, tensors and classes of torch, numpy and
  the image encoder. What is assumed of a parameter is a named hypothesis of the property that uses it,
  and its witness instantiates the parameter.

  \<^bold>\<open>Bounds and fuel.\<close> \<open>evict_loop\<close> runs with the number of pages still to evict, and every round evicts
  at least one. \<open>generate_solutions\<close> is what a client sees that calls \<open>next\<close> a given number of times; the
  number of distinct answers is at most \<open>search_bound\<close>, \<open>32 ^ 5\<close> for every intrinsic, so one call more ends it.
  A stage of the image executor has the depth of nested calls the interpreter allows as its fuel: two levels are
  enough whenever an entry point of size one exists, and running out is Python's RecursionError. The decode loop of
  the example program samples until every sequence has its end token; its rounds are the fuel of
  \<open>decode_until_done\<close>, and one more than the tokens the cache has room for is enough. All other loops recur on
  their data.

  \<^bold>\<open>Not modelled\<close>: command lines, logging, reading and writing of files, process start (I/O); the C++
  runtime; the network models and the layers other than those above, which are fixed sequences of operations with
  no state or decisions of their own; quantizers and GGUF layouts (arithmetic of floats); the IREE kernels and
  their MLIR templates; export and tools.
\<close>

end
